(* ===== verification/Prelude.thy ===== *)
theory Prelude
  imports Main "HOL-Library.Word"
begin

text \<open>
  Shared vocabulary of the development.

  \<^item> Machine integers: the C types \<open>uint8_t\<close>, \<open>uint32_t\<close> and \<open>uint64_t\<close> are words of
    that width, so every \<open>+\<close> and \<open>*\<close> of the model wraps exactly where the C code wraps.
  \<^item> C strings: a NUL-terminated string is a \<^typ>\<open>string\<close> that holds the characters before
    the terminator. A \<open>char[n]\<close> field holds a string shorter than \<open>n\<close>; writing into
    it with \<open>snprintf (dst, n, "%s", src)\<close> or with a clamped \<open>memcpy\<close> keeps the first
    \<open>n - 1\<close> characters (\<open>snprintf_s\<close>).
  \<^item> Arrays of slots: a C array of structs is a list, a pointer into it is an index, and
    the ubiquitous loop "first slot that satisfies \<open>P\<close>, else NULL" is \<open>find_slot\<close>.
  \<^item> The keyed slot table: three tables of the service (records, idempotency records,
    audit events) are arrays of slots with an \<open>in_use\<close> flag and a key. The locale
    \<open>slot_table\<close> states what they share; each component interprets it.
\<close>

unbundle bit_operations_syntax

named_theorems rec_simps \<open>selectors and updates of the model's records and helpers\<close>
named_theorems svc_frame \<open>fields an operation leaves alone\<close>
named_theorems wf_intros \<open>operations that keep the service invariant\<close>

type_synonym u8 = "8 word"
type_synonym u16 = "16 word"
type_synonym u32 = "32 word"
type_synonym u64 = "64 word"
type_synonym cstr = string

definition UINT32_MAX :: u64 where
  "UINT32_MAX = 4294967295"

definition UINT64_MAX :: u64 where
  "UINT64_MAX = 18446744073709551615"

section \<open>C strings\<close>

definition snprintf_s :: "nat \<Rightarrow> cstr \<Rightarrow> cstr" where
  "snprintf_s n s = take (n - 1) s"

definition strncmp_eq :: "cstr \<Rightarrow> cstr \<Rightarrow> nat \<Rightarrow> bool" where
  "strncmp_eq a b n \<longleftrightarrow> take n a = take n b"

lemma snprintf_s_fits [simp]: "length s < n \<Longrightarrow> snprintf_s n s = s"
  by (simp add: snprintf_s_def)

lemma snprintf_s_length [simp]: "0 < n \<Longrightarrow> length (snprintf_s n s) < n"
  by (simp add: snprintf_s_def)

lemma snprintf_s_empty_iff [simp]: "1 < n \<Longrightarrow> snprintf_s n s = [] \<longleftrightarrow> s = []"
  by (auto simp: snprintf_s_def)

lemma snprintf_s_idem [simp]: "snprintf_s n (snprintf_s n s) = snprintf_s n s"
  by (simp add: snprintf_s_def)

text \<open>Two strings of which one fits the compared width are equal exactly when they
  compare equal.\<close>

lemma strncmp_eq_fits [simp]:
  "length a < n \<Longrightarrow> strncmp_eq a b n \<longleftrightarrow> a = b"
proof
  assume len: "length a < n" and cmp: "strncmp_eq a b n"
  then have "a = take n b" by (simp add: strncmp_eq_def)
  moreover from this len have "length b < n" by (cases "n \<le> length b") auto
  ultimately show "a = b" by simp
qed (simp add: strncmp_eq_def)

lemma strncmp_eq_fits' [simp]:
  "length b < n \<Longrightarrow> strncmp_eq a b n \<longleftrightarrow> a = b"
  using strncmp_eq_fits [of b n a] by (auto simp: strncmp_eq_def)

section \<open>Slots of an array\<close>

text \<open>\<open>find_slot P xs\<close> is the loop \<open>for (i = 0; i < N; ++i) if (P (xs[i])) return &xs[i];
  return NULL;\<close> over the array \<open>xs\<close> of \<open>N\<close> slots.\<close>

primrec find_slot :: "('a \<Rightarrow> bool) \<Rightarrow> 'a list \<Rightarrow> nat option" where
  "find_slot P [] = None"
| "find_slot P (x # xs) =
     (if P x then Some 0 else map_option Suc (find_slot P xs))"

lemma find_slot_None_iff: "find_slot P xs = None \<longleftrightarrow> (\<forall>x\<in>set xs. \<not> P x)"
  by (induction xs) auto

lemma find_slot_SomeD:
  "find_slot P xs = Some i \<Longrightarrow>
   i < length xs \<and> P (xs ! i) \<and> (\<forall>j<i. \<not> P (xs ! j))"
proof (induction xs arbitrary: i)
  case Nil
  then show ?case by simp
next
  case (Cons x xs)
  show ?case
  proof (cases "P x")
    case True
    with Cons.prems show ?thesis by simp
  next
    case False
    with Cons.prems obtain k where k: "find_slot P xs = Some k" and i: "i = Suc k" by auto
    from Cons.IH [OF k] False show ?thesis by (auto simp: i less_Suc_eq_0_disj)
  qed
qed

lemma find_slot_SomeI:
  "\<lbrakk> i < length xs; P (xs ! i); \<And>j. j < i \<Longrightarrow> \<not> P (xs ! j) \<rbrakk> \<Longrightarrow> find_slot P xs = Some i"
proof (induction xs arbitrary: i)
  case Nil
  then show ?case by simp
next
  case (Cons x xs)
  show ?case
  proof (cases i)
    case 0
    with Cons.prems show ?thesis by simp
  next
    case (Suc k)
    from Cons.prems(3) [of 0] Suc have "\<not> P x" by simp
    moreover have "find_slot P xs = Some k"
    proof (rule Cons.IH)
      fix j
      assume "j < k"
      then show "\<not> P (xs ! j)" using Cons.prems(3) [of "Suc j"] Suc by simp
    qed (use Cons.prems(1,2) Suc in simp_all)
    ultimately show ?thesis by (simp add: Suc)
  qed
qed

lemma find_slot_unique:
  assumes "i < length xs" "P (xs ! i)"
    and "\<And>j. j < length xs \<Longrightarrow> P (xs ! j) \<Longrightarrow> j = i"
  shows "find_slot P xs = Some i"
proof (rule find_slot_SomeI)
  fix j
  assume "j < i"
  with assms(1) have "j < length xs" by simp
  with assms(3) [of j] \<open>j < i\<close> show "\<not> P (xs ! j)" by blast
qed (rule assms(1), rule assms(2))

lemma find_slot_less: "find_slot P xs = Some i \<Longrightarrow> i < length xs"
  by (simp add: find_slot_SomeD)

lemma find_slot_cong:
  "(\<And>x. x \<in> set xs \<Longrightarrow> P x = Q x) \<Longrightarrow> find_slot P xs = find_slot Q xs"
  by (induction xs) auto

lemma find_slot_replicate [simp]:
  "find_slot P (replicate n x) = (if 0 < n \<and> P x then Some 0 else None)"
  by (cases n) (auto simp: find_slot_None_iff)

text \<open>Number of occupied slots, and how one slot write changes it.\<close>

lemma length_filter_update:
  assumes "i < length xs"
  shows "length (filter P (xs[i := y])) + (if P (xs ! i) then 1 else 0) =
         length (filter P xs) + (if P y then 1 else 0)"
  using assms
proof (induction xs arbitrary: i)
  case Nil
  then show ?case by simp
next
  case (Cons x xs)
  then show ?case by (cases i) auto
qed

lemma option_eqI: "(\<And>r. x = Some r \<longleftrightarrow> y = Some r) \<Longrightarrow> x = y"
  by (metis option.exhaust)

section \<open>The keyed slot table\<close>

text \<open>
  A table is an array of slots; \<open>used\<close> tells an occupied slot, \<open>key_of\<close> its key, \<open>blank\<close>
  is the zeroed slot. The laws: a zeroed slot is free. What clients rely on: in a table
  whose occupied slots have distinct keys, looking a key up after one slot was written
  sees exactly that write.
\<close>

locale slot_table =
  fixes used :: "'r \<Rightarrow> bool"
    and key_of :: "'r \<Rightarrow> 'k"
    and blank :: 'r
  assumes blank_free: "\<not> used blank"
begin

definition lookup :: "'r list \<Rightarrow> 'k \<Rightarrow> nat option" where
  "lookup xs k = find_slot (\<lambda>r. used r \<and> key_of r = k) xs"

definition keys_distinct :: "'r list \<Rightarrow> bool" where
  "keys_distinct xs \<longleftrightarrow>
     (\<forall>i<length xs. \<forall>j<length xs.
        used (xs ! i) \<longrightarrow> used (xs ! j) \<longrightarrow> key_of (xs ! i) = key_of (xs ! j) \<longrightarrow> i = j)"

definition table_map :: "'r list \<Rightarrow> 'k \<Rightarrow> 'r option" where
  "table_map xs k = map_option (\<lambda>i. xs ! i) (lookup xs k)"

lemma lookup_SomeD:
  "lookup xs k = Some i \<Longrightarrow> i < length xs \<and> used (xs ! i) \<and> key_of (xs ! i) = k"
  unfolding lookup_def by (auto dest: find_slot_SomeD)

lemma lookup_NoneD:
  "lookup xs k = None \<Longrightarrow> i < length xs \<Longrightarrow> used (xs ! i) \<Longrightarrow> key_of (xs ! i) \<noteq> k"
  unfolding lookup_def find_slot_None_iff by (metis nth_mem)

lemma lookupI:
  assumes "keys_distinct xs" "i < length xs" "used (xs ! i)"
  shows "lookup xs (key_of (xs ! i)) = Some i"
  unfolding lookup_def
  by (rule find_slot_unique) (use assms in \<open>auto simp: keys_distinct_def\<close>)

lemma keys_distinct_replicate_blank: "keys_distinct (replicate n blank)"
  by (simp add: keys_distinct_def blank_free)

lemma table_map_replicate_blank: "table_map (replicate n blank) = Map.empty"
  by (rule ext) (simp add: table_map_def lookup_def blank_free)

lemma keys_distinct_update_same:
  assumes "keys_distinct xs" "lookup xs k = Some i" "key_of r = k"
  shows "keys_distinct (xs[i := r])"
  using assms lookup_SomeD [OF assms(2)]
  unfolding keys_distinct_def by (auto simp: nth_list_update)

lemma keys_distinct_update_fresh:
  assumes "keys_distinct xs" "lookup xs k = None" "key_of r = k"
  shows "keys_distinct (xs[i := r])"
proof (cases "i < length xs")
  case True
  have "\<forall>j<length xs. used (xs ! j) \<longrightarrow> key_of r \<noteq> key_of (xs ! j)"
    using lookup_NoneD [OF assms(2)] assms(3) by metis
  with True assms(1) show ?thesis
    unfolding keys_distinct_def by (auto simp: nth_list_update)
qed (simp add: assms(1) list_update_beyond)

lemma keys_distinct_update_free:
  assumes "keys_distinct xs" "\<not> used r"
  shows "keys_distinct (xs[i := r])"
proof (cases "i < length xs")
  case True
  with assms show ?thesis
    unfolding keys_distinct_def by (auto simp: nth_list_update)
qed (simp add: assms(1) list_update_beyond)

text \<open>Looking up after a write: the slot that was written answers for its key, the rest of
  the table is as before.\<close>

lemma lookup_update:
  assumes dist: "keys_distinct xs" and i: "i < length xs" and r: "used r"
    and slot: "lookup xs (key_of r) = Some i \<or>
               (lookup xs (key_of r) = None \<and> \<not> used (xs ! i))"
  shows "lookup (xs[i := r]) k = (if k = key_of r then Some i else lookup xs k)"
proof -
  have dist': "keys_distinct (xs[i := r])"
    using slot keys_distinct_update_same [OF dist] keys_distinct_update_fresh [OF dist] by blast
  show ?thesis
  proof (cases "k = key_of r")
    case True
    from lookupI [OF dist', of i] i r True show ?thesis by simp
  next
    case False
    have same: "used (xs[i := r] ! j) \<and> key_of (xs[i := r] ! j) = k \<longleftrightarrow>
                used (xs ! j) \<and> key_of (xs ! j) = k" if "j < length xs" for j
      using that i slot False by (auto simp: nth_list_update dest: lookup_SomeD)
    have "find_slot (\<lambda>r. used r \<and> key_of r = k) (xs[i := r]) =
          find_slot (\<lambda>r. used r \<and> key_of r = k) xs"
    proof (cases "find_slot (\<lambda>r. used r \<and> key_of r = k) xs")
      case None
      have "\<not> (used x \<and> key_of x = k)" if "x \<in> set (xs[i := r])" for x
      proof -
        from that obtain j where "j < length xs" "x = xs[i := r] ! j"
          by (auto simp: in_set_conv_nth)
        with same [of j] None show ?thesis by (simp add: find_slot_None_iff)
      qed
      then have "find_slot (\<lambda>r. used r \<and> key_of r = k) (xs[i := r]) = None"
        unfolding find_slot_None_iff by blast
      with None show ?thesis by simp
    next
      case (Some a)
      note a = find_slot_SomeD [OF Some]
      have "find_slot (\<lambda>r. used r \<and> key_of r = k) (xs[i := r]) = Some a"
      proof (rule find_slot_SomeI)
        show "a < length (xs[i := r])" using a by simp
        show "used (xs[i := r] ! a) \<and> key_of (xs[i := r] ! a) = k" using a same by simp
        show "\<not> (used (xs[i := r] ! j) \<and> key_of (xs[i := r] ! j) = k)" if "j < a" for j
          using that a same [of j] by simp
      qed
      with Some show ?thesis by simp
    qed
    with False show ?thesis by (simp add: lookup_def)
  qed
qed

lemma table_map_update:
  assumes "keys_distinct xs" "i < length xs" "used r"
    and "lookup xs (key_of r) = Some i \<or> (lookup xs (key_of r) = None \<and> \<not> used (xs ! i))"
  shows "table_map (xs[i := r]) = (table_map xs)(key_of r \<mapsto> r)"
proof (rule ext)
  fix k
  show "table_map (xs[i := r]) k = ((table_map xs)(key_of r \<mapsto> r)) k"
  proof (cases "k = key_of r")
    case True
    with assms lookup_update [OF assms] show ?thesis by (simp add: table_map_def)
  next
    case False
    have "\<And>j. lookup xs k = Some j \<Longrightarrow> j \<noteq> i"
      using False assms(4) by (auto dest: lookup_SomeD)
    with False lookup_update [OF assms] show ?thesis
      by (cases "lookup xs k") (simp_all add: table_map_def)
  qed
qed

text \<open>The number of occupied slots is the number of keys.\<close>

lemma dom_table_map:
  assumes "keys_distinct xs"
  shows "dom (table_map xs) = (\<lambda>i. key_of (xs ! i)) ` {i. i < length xs \<and> used (xs ! i)}"
proof -
  have "k \<in> dom (table_map xs) \<longleftrightarrow> (\<exists>i<length xs. used (xs ! i) \<and> key_of (xs ! i) = k)" for k
    using lookup_SomeD [of xs k] lookupI [OF assms]
    by (auto simp: table_map_def dom_def)
  then show ?thesis by (simp add: set_eq_iff image_iff) blast
qed

lemma card_dom_table_map:
  assumes "keys_distinct xs"
  shows "length (filter used xs) = card (dom (table_map xs))"
proof -
  have "inj_on (\<lambda>i. key_of (xs ! i)) {i. i < length xs \<and> used (xs ! i)}"
    using assms by (auto simp: inj_on_def keys_distinct_def)
  then show ?thesis
    by (simp add: dom_table_map [OF assms] length_filter_conv_card card_image)
qed

text \<open>The map of a table holds exactly the occupied slots. Removing slots, one or all that satisfy
  a predicate, removes their keys and keeps the rest.\<close>

lemma table_map_Some_iff:
  assumes "keys_distinct xs"
  shows "table_map xs k = Some r \<longleftrightarrow> r \<in> set xs \<and> used r \<and> key_of r = k"
proof
  assume "table_map xs k = Some r"
  then show "r \<in> set xs \<and> used r \<and> key_of r = k"
    by (auto simp: table_map_def dest: lookup_SomeD)
next
  assume r: "r \<in> set xs \<and> used r \<and> key_of r = k"
  then obtain i where "i < length xs" "xs ! i = r" by (auto simp: in_set_conv_nth)
  with r lookupI [OF assms, of i] show "table_map xs k = Some r" by (auto simp: table_map_def)
qed

lemma keys_distinct_erase:
  "keys_distinct xs \<Longrightarrow> keys_distinct (map (\<lambda>r. if P r then blank else r) xs)"
  by (auto simp: keys_distinct_def blank_free)

lemma table_map_erase:
  assumes "keys_distinct xs"
  shows "table_map (map (\<lambda>r. if P r then blank else r) xs) k =
    (case table_map xs k of None \<Rightarrow> None | Some r \<Rightarrow> if P r then None else Some r)"
proof -
  have "table_map (map (\<lambda>r. if P r then blank else r) xs) k = Some r \<longleftrightarrow>
      table_map xs k = Some r \<and> \<not> P r" for r
    using table_map_Some_iff [OF keys_distinct_erase [OF assms]] table_map_Some_iff [OF assms] blank_free
    by auto
  moreover have "(case table_map xs k of None \<Rightarrow> None | Some r \<Rightarrow> if P r then None else Some r) = Some r \<longleftrightarrow>
      table_map xs k = Some r \<and> \<not> P r" for r
    by (auto split: option.split)
  ultimately show ?thesis by (blast intro: option_eqI)
qed

lemma table_map_clear:
  assumes dist: "keys_distinct xs" and i: "i < length xs" "used (xs ! i)"
  shows "table_map (xs[i := blank]) = (table_map xs)(key_of (xs ! i) := None)"
proof (rule ext)
  fix k
  have "table_map (xs[i := blank]) k = Some r \<longleftrightarrow> table_map xs k = Some r \<and> k \<noteq> key_of (xs ! i)" for r
  proof
    assume "table_map (xs[i := blank]) k = Some r"
    then have "r \<in> set (xs[i := blank])" and r: "used r" "key_of r = k"
      using table_map_Some_iff [OF keys_distinct_update_free [OF dist blank_free]] by auto
    then obtain j where "j < length xs" "xs[i := blank] ! j = r" by (auto simp: in_set_conv_nth)
    with r(1) blank_free have "j \<noteq> i" "xs ! j = r" using i by (auto simp: nth_list_update split: if_splits)
    with \<open>j < length xs\<close> r i dist table_map_Some_iff [OF dist]
    show "table_map xs k = Some r \<and> k \<noteq> key_of (xs ! i)" by (auto simp: keys_distinct_def)
  next
    assume "table_map xs k = Some r \<and> k \<noteq> key_of (xs ! i)"
    then have r: "r \<in> set xs" "used r" "key_of r = k" "k \<noteq> key_of (xs ! i)"
      using table_map_Some_iff [OF dist] by auto
    then obtain j where "j < length xs" "xs ! j = r" "j \<noteq> i" by (auto simp: in_set_conv_nth)
    then have "r \<in> set (xs[i := blank])"
      by (metis length_list_update nth_list_update_neq nth_mem)
    with r show "table_map (xs[i := blank]) k = Some r"
      using table_map_Some_iff [OF keys_distinct_update_free [OF dist blank_free]] by auto
  qed
  moreover have "((table_map xs)(key_of (xs ! i) := None)) k = Some r \<longleftrightarrow>
      table_map xs k = Some r \<and> k \<noteq> key_of (xs ! i)" for r
    by auto
  ultimately show "table_map (xs[i := blank]) k = ((table_map xs)(key_of (xs ! i) := None)) k"
    by (blast intro: option_eqI)
qed

end

section \<open>Words\<close>

lemma unat_Suc_below: "(s :: u64) < n \<Longrightarrow> unat (s + 1) = unat s + 1"
  using unsigned_less [where ?'a = nat, of n] by (simp add: word_less_nat_alt unat_word_ariths(1))

end
