(* ===== verification/Wire.thy ===== *)
theory Wire
  imports Prelude
begin

text \<open>
  The versioned wire protocol (\<open>mem_service_wire.h\<close>): operation and status identifiers, the
  fixed header, its compatibility test, and the FNV-1a checksum that protects a payload.

  An operation arrives as a 32-bit number. The enumerators of the C enum are constructors;
  a number that is none of them is \<open>OP_OTHER\<close>, which is how the \<open>default:\<close> branches of
  the source see it. The 48-byte header is exchanged as raw struct memory between
  processes of one host, so it is modelled as a record and not as bytes.
\<close>

section \<open>Operations and statuses\<close>

datatype mem_service_wire_operation =
    OP_HEALTH | OP_READY | OP_STATUS | OP_LIST_RECORDS | OP_METRICS
  | OP_EXPORT_SNAPSHOT | OP_EXPORT_SNAPSHOT_PAGE
  | OP_RESTORE_SNAPSHOT | OP_RESTORE_SNAPSHOT_PAGE | OP_AUDIT_LOG
  | OP_PUT_OBJECT | OP_GET_OBJECT | OP_INSPECT_OBJECT | OP_MATERIALIZE_OBJECT
  | OP_REGISTER_PREFIX_ENTRY | OP_LOOKUP_PREFIX_ENTRY
  | OP_PUBLISH_KV_SEGMENT | OP_RESOLVE_KV_SEGMENT
  | OP_PUBLISH_RUNTIME_HANDOFF | OP_RESOLVE_RUNTIME_HANDOFF
  | OP_REGISTER_EXECUTION_ARTIFACT | OP_QUERY_EXECUTION_ARTIFACT
  | OP_REGISTER_TRAINING_ARTIFACT | OP_QUERY_TRAINING_ARTIFACT
  | OP_OTHER u32

fun wire_operation_code :: "mem_service_wire_operation \<Rightarrow> u32" where
  "wire_operation_code OP_HEALTH = 1"
| "wire_operation_code OP_READY = 2"
| "wire_operation_code OP_STATUS = 3"
| "wire_operation_code OP_LIST_RECORDS = 4"
| "wire_operation_code OP_METRICS = 5"
| "wire_operation_code OP_EXPORT_SNAPSHOT = 6"
| "wire_operation_code OP_EXPORT_SNAPSHOT_PAGE = 7"
| "wire_operation_code OP_RESTORE_SNAPSHOT = 8"
| "wire_operation_code OP_RESTORE_SNAPSHOT_PAGE = 9"
| "wire_operation_code OP_AUDIT_LOG = 10"
| "wire_operation_code OP_PUT_OBJECT = 16"
| "wire_operation_code OP_GET_OBJECT = 17"
| "wire_operation_code OP_INSPECT_OBJECT = 18"
| "wire_operation_code OP_MATERIALIZE_OBJECT = 19"
| "wire_operation_code OP_REGISTER_PREFIX_ENTRY = 32"
| "wire_operation_code OP_LOOKUP_PREFIX_ENTRY = 33"
| "wire_operation_code OP_PUBLISH_KV_SEGMENT = 48"
| "wire_operation_code OP_RESOLVE_KV_SEGMENT = 49"
| "wire_operation_code OP_PUBLISH_RUNTIME_HANDOFF = 64"
| "wire_operation_code OP_RESOLVE_RUNTIME_HANDOFF = 65"
| "wire_operation_code OP_REGISTER_EXECUTION_ARTIFACT = 80"
| "wire_operation_code OP_QUERY_EXECUTION_ARTIFACT = 81"
| "wire_operation_code OP_REGISTER_TRAINING_ARTIFACT = 96"
| "wire_operation_code OP_QUERY_TRAINING_ARTIFACT = 97"
| "wire_operation_code (OP_OTHER n) = n"

definition all_wire_operations :: "mem_service_wire_operation list" where
  "all_wire_operations =
     [OP_HEALTH, OP_READY, OP_STATUS, OP_LIST_RECORDS, OP_METRICS, OP_EXPORT_SNAPSHOT,
      OP_EXPORT_SNAPSHOT_PAGE, OP_RESTORE_SNAPSHOT, OP_RESTORE_SNAPSHOT_PAGE, OP_AUDIT_LOG,
      OP_PUT_OBJECT, OP_GET_OBJECT, OP_INSPECT_OBJECT, OP_MATERIALIZE_OBJECT,
      OP_REGISTER_PREFIX_ENTRY, OP_LOOKUP_PREFIX_ENTRY, OP_PUBLISH_KV_SEGMENT,
      OP_RESOLVE_KV_SEGMENT, OP_PUBLISH_RUNTIME_HANDOFF, OP_RESOLVE_RUNTIME_HANDOFF,
      OP_REGISTER_EXECUTION_ARTIFACT, OP_QUERY_EXECUTION_ARTIFACT,
      OP_REGISTER_TRAINING_ARTIFACT, OP_QUERY_TRAINING_ARTIFACT]"

text \<open>The cast \<open>(enum mem_service_wire_operation) header.operation\<close>.\<close>

definition wire_operation_of_code :: "u32 \<Rightarrow> mem_service_wire_operation" where
  "wire_operation_of_code n =
     (case find (\<lambda>op. wire_operation_code op = n) all_wire_operations of
        None \<Rightarrow> OP_OTHER n | Some op \<Rightarrow> op)"

datatype mem_service_wire_status =
    STATUS_OK | STATUS_NOT_FOUND | STATUS_STALE_REF | STATUS_CHECKSUM_MISMATCH
  | STATUS_VERSION_CONFLICT | STATUS_INVALID_MODEL_BINDING | STATUS_INVALID_SESSION
  | STATUS_TIMEOUT | STATUS_CAPACITY_EXCEEDED | STATUS_UNSUPPORTED | STATUS_INTERNAL
  | STATUS_OTHER u32

fun wire_status_code :: "mem_service_wire_status \<Rightarrow> u32" where
  "wire_status_code STATUS_OK = 0"
| "wire_status_code STATUS_NOT_FOUND = 1"
| "wire_status_code STATUS_STALE_REF = 2"
| "wire_status_code STATUS_CHECKSUM_MISMATCH = 3"
| "wire_status_code STATUS_VERSION_CONFLICT = 4"
| "wire_status_code STATUS_INVALID_MODEL_BINDING = 5"
| "wire_status_code STATUS_INVALID_SESSION = 6"
| "wire_status_code STATUS_TIMEOUT = 7"
| "wire_status_code STATUS_CAPACITY_EXCEEDED = 8"
| "wire_status_code STATUS_UNSUPPORTED = 9"
| "wire_status_code STATUS_INTERNAL = 10"
| "wire_status_code (STATUS_OTHER n) = n"

text \<open>The cast \<open>(enum mem_service_wire_status) word\<close>.\<close>

definition wire_status_of_code :: "u32 \<Rightarrow> mem_service_wire_status" where
  "wire_status_of_code n =
     (if n = 0 then STATUS_OK else if n = 1 then STATUS_NOT_FOUND
      else if n = 2 then STATUS_STALE_REF else if n = 3 then STATUS_CHECKSUM_MISMATCH
      else if n = 4 then STATUS_VERSION_CONFLICT
      else if n = 5 then STATUS_INVALID_MODEL_BINDING
      else if n = 6 then STATUS_INVALID_SESSION else if n = 7 then STATUS_TIMEOUT
      else if n = 8 then STATUS_CAPACITY_EXCEEDED else if n = 9 then STATUS_UNSUPPORTED
      else if n = 10 then STATUS_INTERNAL else STATUS_OTHER n)"

fun mem_service_wire_status_name :: "mem_service_wire_status \<Rightarrow> cstr" where
  "mem_service_wire_status_name STATUS_OK = ''ok''"
| "mem_service_wire_status_name STATUS_NOT_FOUND = ''not_found''"
| "mem_service_wire_status_name STATUS_STALE_REF = ''stale_ref''"
| "mem_service_wire_status_name STATUS_CHECKSUM_MISMATCH = ''checksum_mismatch''"
| "mem_service_wire_status_name STATUS_VERSION_CONFLICT = ''version_conflict''"
| "mem_service_wire_status_name STATUS_INVALID_MODEL_BINDING = ''invalid_model_binding''"
| "mem_service_wire_status_name STATUS_INVALID_SESSION = ''invalid_session''"
| "mem_service_wire_status_name STATUS_TIMEOUT = ''timeout''"
| "mem_service_wire_status_name STATUS_CAPACITY_EXCEEDED = ''capacity_exceeded''"
| "mem_service_wire_status_name STATUS_UNSUPPORTED = ''unsupported''"
| "mem_service_wire_status_name STATUS_INTERNAL = ''internal''"
| "mem_service_wire_status_name (STATUS_OTHER n) = ''unknown''"

text \<open>A status the daemon itself produces: one of the enumerators.\<close>

fun wire_status_known :: "mem_service_wire_status \<Rightarrow> bool" where
  "wire_status_known (STATUS_OTHER n) = False"
| "wire_status_known s = True"

lemma wire_status_of_code_code [simp]:
  "wire_status_known s \<Longrightarrow> wire_status_of_code (wire_status_code s) = s"
  by (cases s) (simp_all add: wire_status_of_code_def)

section \<open>Checksum\<close>

text \<open>
  The checksums of the service are byte-wise folds. The locale states what makes such a
  fold useful as a corruption check: one step is injective in the running hash and in the
  byte. Then changing exactly one byte of a payload always changes its checksum.
\<close>

locale byte_fold =
  fixes step :: "'h \<Rightarrow> u8 \<Rightarrow> 'h"
  assumes step_inj_hash: "step h b = step h' b \<Longrightarrow> h = h'"
    and step_inj_byte: "step h b = step h b' \<Longrightarrow> b = b'"
begin

lemma foldl_inj_hash: "foldl step h bs = foldl step h' bs \<Longrightarrow> h = h'"
  by (induction bs arbitrary: h h') (auto dest: step_inj_hash)

lemma foldl_detects_byte:
  assumes "i < length bs" "c \<noteq> bs ! i"
  shows "foldl step h (bs[i := c]) \<noteq> foldl step h bs"
proof
  assume eq: "foldl step h (bs[i := c]) = foldl step h bs"
  let ?p = "foldl step h (take i bs)"
  have new: "foldl step h (bs[i := c]) = foldl step (step ?p c) (drop (Suc i) bs)"
    using assms(1) by (simp add: upd_conv_take_nth_drop)
  have "foldl step h bs = foldl step h (take i bs @ bs ! i # drop (Suc i) bs)"
    using assms(1) by (simp only: id_take_nth_drop [symmetric])
  then have old: "foldl step h bs = foldl step (step ?p (bs ! i)) (drop (Suc i) bs)"
    by simp
  from eq new old have "step ?p c = step ?p (bs ! i)" by (auto dest: foldl_inj_hash)
  with assms(2) show False by (auto dest: step_inj_byte)
qed

end

definition fnv32_step :: "u32 \<Rightarrow> u8 \<Rightarrow> u32" where
  "fnv32_step hash b = (hash XOR ucast b) * 16777619"

definition mem_service_wire_checksum :: "u8 list \<Rightarrow> u32" where
  "mem_service_wire_checksum bytes =
     (if bytes = [] then 0 else foldl fnv32_step 2166136261 bytes)"

text \<open>The bytes of a C string, as \<open>strlen\<close> and a cast to \<open>uint8_t *\<close> give them.\<close>

definition bytes_of :: "cstr \<Rightarrow> u8 list" where
  "bytes_of s = map of_char s"

text \<open>The characters of bytes, as a cast to \<open>char *\<close> gives them.\<close>

definition cstr_of :: "u8 list \<Rightarrow> cstr" where
  "cstr_of bs = map (\<lambda>b. char_of (unat b)) bs"

lemma cstr_of_bytes_of [simp]: "cstr_of (bytes_of s) = s"
proof -
  have "char_of (unat (of_char c :: u8)) = c" for c
  proof -
    have "unat (of_nat (of_char c :: nat) :: u8) = of_char c"
      using nat_of_char_less_256 [of c] by (subst unat_of_nat) simp
    then show ?thesis by (simp only: of_nat_of_char char_of_char)
  qed
  then show ?thesis by (simp add: cstr_of_def bytes_of_def comp_def)
qed

lemma cstr_of_append [simp]: "cstr_of (a @ b) = cstr_of a @ cstr_of b" by (simp add: cstr_of_def)

definition mem_service_wire_checksum_str :: "cstr \<Rightarrow> u32" where
  "mem_service_wire_checksum_str s = mem_service_wire_checksum (bytes_of s)"

lemma find_inj_on:
  "inj_on f (set xs) \<Longrightarrow> y \<in> set xs \<Longrightarrow> find (\<lambda>x. f x = f y) xs = Some y"
  by (induction xs) (auto simp: inj_on_def)

lemma wire_operation_code_inj: "inj_on wire_operation_code (set all_wire_operations)"
proof -
  have "distinct (map wire_operation_code all_wire_operations)" by code_simp
  then show ?thesis by (simp only: distinct_map)
qed

lemma xor_ucast_inj:
  fixes h :: "'a::len word"
  assumes "h XOR ucast (b :: u8) = h XOR ucast b'" and "8 \<le> LENGTH('a)"
  shows "b = b'"
proof -
  have "h XOR (h XOR ucast b) = h XOR (h XOR ucast b')" using assms(1) by simp
  then have "(ucast b :: 'a word) = ucast b'" by (simp add: xor.assoc [symmetric])
  moreover have "unat (ucast x :: 'a word) = unat x" for x :: u8
  proof -
    have "unat x < 2 ^ 8" using unsigned_less [of x] by simp
    also have "\<dots> \<le> 2 ^ LENGTH('a)" using assms(2) by (rule power_increasing) simp
    finally show ?thesis by (simp add: unsigned_ucast_eq take_bit_nat_eq_self)
  qed
  ultimately show ?thesis by (metis word_unat_eq_iff)
qed

lemma xor_right_inj:
  fixes h :: "'a::len word"
  assumes "h XOR x = h' XOR x" shows "h = h'"
proof -
  have "(h XOR x) XOR x = (h' XOR x) XOR x" using assms by simp
  then show ?thesis by (simp add: xor.assoc)
qed

text \<open>Multiplication by an invertible constant is injective on words.\<close>

lemma word_mult_inj:
  fixes p :: "'a::len word"
  assumes "p * q = 1" "x * p = y * p" shows "x = y"
proof -
  have "x = x * (p * q)" "y = y * (p * q)" using assms(1) by simp_all
  moreover have "x * (p * q) = y * (p * q)" using assms(2) by (simp only: mult.assoc [symmetric])
  ultimately show ?thesis by simp
qed

interpretation fnv32: byte_fold fnv32_step
proof unfold_locales
  have inv: "(16777619 :: u32) * 899433627 = 1" by simp
  show "h = h'" if "fnv32_step h b = fnv32_step h' b" for h h' b
    using that xor_right_inj word_mult_inj [OF inv] unfolding fnv32_step_def by blast
  show "b = b'" if "fnv32_step h b = fnv32_step h b'" for h b b'
  proof -
    from that have "h XOR ucast b = h XOR ucast b'"
      using word_mult_inj [OF inv] unfolding fnv32_step_def by blast
    then show ?thesis by (rule xor_ucast_inj) simp
  qed
qed

section \<open>Header\<close>

definition MEM_SERVICE_WIRE_MAGIC :: u32 where "MEM_SERVICE_WIRE_MAGIC = 0x4d535643"
definition MEM_SERVICE_WIRE_VERSION :: u16 where "MEM_SERVICE_WIRE_VERSION = 1"
definition MEM_SERVICE_WIRE_HEADER_LEN :: u16 where "MEM_SERVICE_WIRE_HEADER_LEN = 48"
definition MEM_SERVICE_WIRE_MAX_PAYLOAD_LEN :: nat where
  "MEM_SERVICE_WIRE_MAX_PAYLOAD_LEN = 4096"

record mem_service_wire_header =
  hdr_magic :: u32
  hdr_version :: u16
  hdr_header_len :: u16
  hdr_request_id :: u64
  hdr_operation :: u32
  hdr_flags :: u32
  hdr_payload_len :: u32
  hdr_payload_checksum :: u32
  hdr_status :: u32
  hdr_error_code :: u32
  hdr_server_time_ms :: u64

definition mem_service_wire_init_header ::
  "u64 \<Rightarrow> mem_service_wire_operation \<Rightarrow> u32 \<Rightarrow> u32 \<Rightarrow> mem_service_wire_header" where
  "mem_service_wire_init_header request_id operation payload_len payload_checksum =
     \<lparr> hdr_magic = MEM_SERVICE_WIRE_MAGIC, hdr_version = MEM_SERVICE_WIRE_VERSION,
       hdr_header_len = MEM_SERVICE_WIRE_HEADER_LEN, hdr_request_id = request_id,
       hdr_operation = wire_operation_code operation, hdr_flags = 0,
       hdr_payload_len = payload_len, hdr_payload_checksum = payload_checksum,
       hdr_status = wire_status_code STATUS_OK, hdr_error_code = wire_status_code STATUS_OK,
       hdr_server_time_ms = 0 \<rparr>"

definition mem_service_wire_header_is_compatible :: "mem_service_wire_header \<Rightarrow> bool" where
  "mem_service_wire_header_is_compatible h \<longleftrightarrow>
     hdr_magic h = MEM_SERVICE_WIRE_MAGIC \<and>
     hdr_version h = MEM_SERVICE_WIRE_VERSION \<and>
     hdr_header_len h = MEM_SERVICE_WIRE_HEADER_LEN"

section \<open>Properties\<close>

text \<open>Single-byte corruption of a wire payload is always caught: replacing any one byte
  of a payload by a different byte changes \<open>mem_service_wire_checksum\<close>.\<close>

theorem wire_checksum_detects_corruption:
  assumes "i < length bytes" "c \<noteq> bytes ! i"
  shows "mem_service_wire_checksum (bytes[i := c]) \<noteq> mem_service_wire_checksum bytes"
proof -
  from assms(1) have "bytes \<noteq> []" by auto
  with fnv32.foldl_detects_byte [OF assms] show ?thesis
    by (simp add: mem_service_wire_checksum_def)
qed

theorem wire_checksum_detects_corruption_witness:
  "mem_service_wire_checksum [107, 101, 122] \<noteq> mem_service_wire_checksum [107, 101, 121]"
  using wire_checksum_detects_corruption [of 2 "[107, 101, 121]" 122] by simp

text \<open>Operation identifiers survive the wire: the number in a header is exactly the number
  of the operation it is decoded to (also for numbers outside the protocol), and every
  operation of the protocol decodes back to itself.\<close>

theorem wire_operation_code_roundtrip:
  "wire_operation_code (wire_operation_of_code n) = n \<and>
   (op \<in> set all_wire_operations \<longrightarrow> wire_operation_of_code (wire_operation_code op) = op)"
proof
  show "wire_operation_code (wire_operation_of_code n) = n"
  proof (cases "find (\<lambda>op. wire_operation_code op = n) all_wire_operations")
    case (Some op')
    then have "wire_operation_code op' = n" by (auto simp: find_Some_iff)
    with Some show ?thesis by (simp add: wire_operation_of_code_def)
  qed (simp add: wire_operation_of_code_def)
  show "op \<in> set all_wire_operations \<longrightarrow> wire_operation_of_code (wire_operation_code op) = op"
    by (simp add: wire_operation_of_code_def find_inj_on [OF wire_operation_code_inj])
qed

theorem wire_operation_code_roundtrip_witness:
  "wire_operation_of_code (wire_operation_code OP_RESTORE_SNAPSHOT_PAGE) = OP_RESTORE_SNAPSHOT_PAGE"
  using wire_operation_code_roundtrip [of 0 OP_RESTORE_SNAPSHOT_PAGE]
  by (simp add: all_wire_operations_def)

end
