(* ===== verification/Provider_Registry.thy ===== *)
theory Provider_Registry
  imports Wire
begin

text \<open>
  The provider registry (\<open>mem_service_provider.h\<close>, first part of \<open>mem_service_provider.c\<close>): up
  to eight transport or storage plug-ins, each registered under a unique pair of name and
  instance, with a capability word and the state its last probe reported.

  A plug-in is a table of function pointers over an opaque context. Which pointers are set
  is the record \<open>mem_service_provider_ops\<close>; what the pointers do is code outside the
  service, so the probe is an argument of the operations that call it: from the context,
  the value the state variable holds before the call and the outside world it gives the
  return code, the number left in the state variable, and the world after the call.
\<close>

section \<open>Data\<close>

definition MEM_SERVICE_PROVIDER_NAME_LEN :: nat where "MEM_SERVICE_PROVIDER_NAME_LEN = 32"
definition MEM_SERVICE_PROVIDER_INSTANCE_LEN :: nat where "MEM_SERVICE_PROVIDER_INSTANCE_LEN = 64"
definition MEM_SERVICE_PROVIDER_DESCRIPTOR_LEN :: nat where
  "MEM_SERVICE_PROVIDER_DESCRIPTOR_LEN = 128"
definition MEM_SERVICE_MAX_PROVIDERS :: nat where "MEM_SERVICE_MAX_PROVIDERS = 8"

definition CAP_REGION_REGISTRATION :: u64 where "CAP_REGION_REGISTRATION = 1"
definition CAP_LOCAL_TRANSFER :: u64 where "CAP_LOCAL_TRANSFER = 2"
definition CAP_PEER_TRANSFER :: u64 where "CAP_PEER_TRANSFER = 4"
definition CAP_DURABLE_STORAGE :: u64 where "CAP_DURABLE_STORAGE = 8"
definition CAP_ACCELERATOR_MEMORY :: u64 where "CAP_ACCELERATOR_MEMORY = 16"
definition CAP_RECEIVE_FENCE :: u64 where "CAP_RECEIVE_FENCE = 32"
definition CAP_PEER_MAPPING :: u64 where "CAP_PEER_MAPPING = 64"

definition CAP_TRANSFER_MASK :: u64 where
  "CAP_TRANSFER_MASK = CAP_LOCAL_TRANSFER OR CAP_PEER_TRANSFER OR CAP_DURABLE_STORAGE"

definition CAP_DATA_PLANE_MASK :: u64 where
  "CAP_DATA_PLANE_MASK = CAP_TRANSFER_MASK OR CAP_PEER_MAPPING"

definition CAP_VALID_MASK :: u64 where
  "CAP_VALID_MASK =
     CAP_REGION_REGISTRATION OR CAP_LOCAL_TRANSFER OR CAP_PEER_TRANSFER OR
     CAP_DURABLE_STORAGE OR CAP_ACCELERATOR_MEMORY OR CAP_RECEIVE_FENCE OR CAP_PEER_MAPPING"

datatype mem_service_provider_state =
  PROVIDER_UNKNOWN | PROVIDER_READY | PROVIDER_DEGRADED | PROVIDER_UNAVAILABLE

fun provider_state_code :: "mem_service_provider_state \<Rightarrow> u32" where
  "provider_state_code PROVIDER_UNKNOWN = 0"
| "provider_state_code PROVIDER_READY = 1"
| "provider_state_code PROVIDER_DEGRADED = 2"
| "provider_state_code PROVIDER_UNAVAILABLE = 3"

text \<open>The range check \<open>UNKNOWN \<le> state \<le> UNAVAILABLE\<close> on what a probe wrote.\<close>

definition provider_state_of_code :: "u32 \<Rightarrow> mem_service_provider_state option" where
  "provider_state_of_code n =
     (if n = 0 then Some PROVIDER_UNKNOWN else if n = 1 then Some PROVIDER_READY
      else if n = 2 then Some PROVIDER_DEGRADED else if n = 3 then Some PROVIDER_UNAVAILABLE
      else None)"

fun mem_service_provider_state_name :: "mem_service_provider_state \<Rightarrow> cstr" where
  "mem_service_provider_state_name PROVIDER_READY = ''ready''"
| "mem_service_provider_state_name PROVIDER_DEGRADED = ''degraded''"
| "mem_service_provider_state_name PROVIDER_UNAVAILABLE = ''unavailable''"
| "mem_service_provider_state_name PROVIDER_UNKNOWN = ''unknown''"

text \<open>Which function pointers of a plug-in are not NULL.\<close>

record mem_service_provider_ops =
  ops_probe :: bool
  ops_register_region :: bool
  ops_deregister_region :: bool
  ops_submit_transfer :: bool
  ops_poll_completion :: bool
  ops_wait_receive :: bool
  ops_map_remote_region :: bool
  ops_unmap_remote_region :: bool
  ops_publish_range :: bool
  ops_invalidate_range :: bool
  ops_wait_range_visible :: bool

record mem_service_provider_registration =
  reg_name :: cstr
  reg_instance :: cstr
  reg_capabilities :: u64
  reg_ops :: "mem_service_provider_ops option"
  reg_context :: nat

record mem_service_provider =
  prov_name :: cstr
  prov_instance :: cstr
  prov_capabilities :: u64
  prov_state :: mem_service_provider_state
  prov_ops :: "mem_service_provider_ops option"
  prov_context :: nat

record mem_service_provider_registry =
  reg_initialized :: bool
  reg_count :: u64
  reg_providers :: "mem_service_provider list"

type_synonym 'w probe = "nat \<Rightarrow> u32 \<Rightarrow> 'w \<Rightarrow> (int \<times> u32) \<times> 'w"

definition zero_provider :: mem_service_provider where
  "zero_provider = \<lparr> prov_name = [], prov_instance = [], prov_capabilities = 0,
     prov_state = PROVIDER_UNKNOWN, prov_ops = None, prov_context = 0 \<rparr>"

definition zero_registry :: mem_service_provider_registry where
  "zero_registry = \<lparr> reg_initialized = False, reg_count = 0,
     reg_providers = replicate MEM_SERVICE_MAX_PROVIDERS zero_provider \<rparr>"

section \<open>Operations\<close>

definition identity_char :: "char \<Rightarrow> bool" where
  "identity_char ch \<longleftrightarrow>
     (let n = of_char ch :: nat in
       (48 \<le> n \<and> n \<le> 57) \<or> (65 \<le> n \<and> n \<le> 90) \<or> (97 \<le> n \<and> n \<le> 122)) \<or>
     ch = CHR ''-'' \<or> ch = CHR ''_'' \<or> ch = CHR ''.'' \<or> ch = CHR '':''"

definition mem_service_provider_identity_valid :: "cstr \<Rightarrow> nat \<Rightarrow> bool" where
  "mem_service_provider_identity_valid value max_len \<longleftrightarrow>
     \<not> (length value = 0 \<or> length value \<ge> max_len) \<and> list_all identity_char value"

definition mem_service_provider_ops_valid :: "mem_service_provider_registration \<Rightarrow> bool" where
  "mem_service_provider_ops_valid registration =
     (case reg_ops registration of
        None \<Rightarrow> False
      | Some ops \<Rightarrow>
          let capabilities = reg_capabilities registration in
          if \<not> ops_probe ops then False
          else if capabilities = 0 \<or> capabilities AND NOT CAP_VALID_MASK \<noteq> 0 then False
          else if capabilities AND CAP_REGION_REGISTRATION \<noteq> 0 \<and>
                  (\<not> ops_register_region ops \<or> \<not> ops_deregister_region ops) then False
          else if capabilities AND CAP_TRANSFER_MASK \<noteq> 0 \<and>
                  (\<not> ops_submit_transfer ops \<or> \<not> ops_poll_completion ops) then False
          else if capabilities AND CAP_ACCELERATOR_MEMORY \<noteq> 0 \<and>
                  capabilities AND CAP_REGION_REGISTRATION = 0 then False
          else if capabilities AND CAP_RECEIVE_FENCE \<noteq> 0 \<and>
                  (capabilities AND CAP_REGION_REGISTRATION = 0 \<or> \<not> ops_wait_receive ops) then False
          else if capabilities AND CAP_PEER_MAPPING \<noteq> 0 \<and>
                  (\<not> ops_map_remote_region ops \<or> \<not> ops_unmap_remote_region ops \<or>
                   \<not> ops_publish_range ops \<or> \<not> ops_invalidate_range ops \<or>
                   \<not> ops_wait_range_visible ops) then False
          else True)"

definition mem_service_provider_registry_init ::
  "mem_service_provider_registry \<Rightarrow> int \<times> mem_service_provider_registry" where
  "mem_service_provider_registry_init registry =
     (0, zero_registry \<lparr> reg_initialized := True \<rparr>)"

definition live_providers :: "mem_service_provider_registry \<Rightarrow> mem_service_provider list" where
  "live_providers registry = take (unat (reg_count registry)) (reg_providers registry)"

definition mem_service_provider_registry_find ::
  "mem_service_provider_registry \<Rightarrow> cstr \<Rightarrow> cstr \<Rightarrow> nat option" where
  "mem_service_provider_registry_find registry name inst =
     (if \<not> reg_initialized registry then None
      else find_slot (\<lambda>p. prov_name p = name \<and> prov_instance p = inst) (live_providers registry))"

definition mem_service_provider_registry_register ::
  "'w probe \<Rightarrow> mem_service_provider_registry \<Rightarrow> mem_service_provider_registration \<Rightarrow> 'w \<Rightarrow>
   int \<times> mem_service_provider_registry \<times> 'w" where
  "mem_service_provider_registry_register probe registry registration w =
     (if \<not> reg_initialized registry \<or>
         \<not> mem_service_provider_identity_valid (reg_name registration) MEM_SERVICE_PROVIDER_NAME_LEN \<or>
         \<not> mem_service_provider_identity_valid (reg_instance registration)
             MEM_SERVICE_PROVIDER_INSTANCE_LEN \<or>
         \<not> mem_service_provider_ops_valid registration \<or>
         reg_count registry \<ge> of_nat MEM_SERVICE_MAX_PROVIDERS \<or>
         mem_service_provider_registry_find registry (reg_name registration)
           (reg_instance registration) \<noteq> None
      then (-1, registry, w)
      else case probe (reg_context registration) (provider_state_code PROVIDER_UNKNOWN) w of
        ((rc, code), w') \<Rightarrow>
          if rc \<noteq> 0 then (-1, registry, w')
          else (case provider_state_of_code code of
             None \<Rightarrow> (-1, registry, w')
           | Some state \<Rightarrow>
               let provider = zero_provider
                     \<lparr> prov_name := snprintf_s MEM_SERVICE_PROVIDER_NAME_LEN (reg_name registration),
                       prov_instance :=
                         snprintf_s MEM_SERVICE_PROVIDER_INSTANCE_LEN (reg_instance registration),
                       prov_capabilities := reg_capabilities registration,
                       prov_state := state,
                       prov_ops := reg_ops registration,
                       prov_context := reg_context registration \<rparr>
               in (0, registry
                     \<lparr> reg_providers :=
                         (reg_providers registry)[unat (reg_count registry) := provider],
                       reg_count := reg_count registry + 1 \<rparr>, w')))"

text \<open>One round of the refresh loop, and the loop: the updated provider and whether the probe
  failed.\<close>

definition refresh_provider ::
  "'w probe \<Rightarrow> mem_service_provider \<Rightarrow> 'w \<Rightarrow> bool \<times> mem_service_provider \<times> 'w" where
  "refresh_provider probe provider w =
     (if prov_ops provider = None \<or> \<not> ops_probe (the (prov_ops provider))
      then (True, provider \<lparr> prov_state := PROVIDER_UNAVAILABLE \<rparr>, w)
      else case probe (prov_context provider) (provider_state_code PROVIDER_UNAVAILABLE) w of
        ((rc, code), w') \<Rightarrow>
          (case provider_state_of_code code of
             None \<Rightarrow> (True, provider \<lparr> prov_state := PROVIDER_UNAVAILABLE \<rparr>, w')
           | Some state \<Rightarrow>
               if rc \<noteq> 0 then (True, provider \<lparr> prov_state := PROVIDER_UNAVAILABLE \<rparr>, w')
               else (False, provider \<lparr> prov_state := state \<rparr>, w')))"

primrec refresh_loop ::
  "'w probe \<Rightarrow> mem_service_provider list \<Rightarrow> nat \<Rightarrow> 'w \<Rightarrow>
   int \<times> mem_service_provider list \<times> 'w" where
  "refresh_loop probe [] n w = (0, [], w)"
| "refresh_loop probe (p # ps) n w =
     (if n = 0 then (0, p # ps, w)
      else case refresh_provider probe p w of
        (failed, p', w') \<Rightarrow>
          (case refresh_loop probe ps (n - 1) w' of
             (failures, ps', w'') \<Rightarrow> ((if failed then 1 else 0) + failures, p' # ps', w'')))"

definition mem_service_provider_registry_refresh ::
  "'w probe \<Rightarrow> mem_service_provider_registry \<Rightarrow> 'w \<Rightarrow>
   int \<times> mem_service_provider_registry \<times> 'w" where
  "mem_service_provider_registry_refresh probe registry w =
     (if \<not> reg_initialized registry then (-1, registry, w)
      else case refresh_loop probe (reg_providers registry) (unat (reg_count registry)) w of
        (failures, ps, w') \<Rightarrow>
          (if failures = 0 then 0 else -1, registry \<lparr> reg_providers := ps \<rparr>, w'))"

definition mem_service_provider_registry_ready_count ::
  "mem_service_provider_registry \<Rightarrow> u64" where
  "mem_service_provider_registry_ready_count registry =
     (if \<not> reg_initialized registry then 0
      else foldl (\<lambda>count p. if prov_state p = PROVIDER_READY then count + 1 else count) 0
             (live_providers registry))"

primrec data_plane_loop :: "mem_service_provider list \<Rightarrow> bool \<Rightarrow> bool" where
  "data_plane_loop [] found = found"
| "data_plane_loop (p # ps) found =
     (if prov_capabilities p AND CAP_DATA_PLANE_MASK = 0 then data_plane_loop ps found
      else if prov_state p \<noteq> PROVIDER_READY then False
      else data_plane_loop ps True)"

definition mem_service_provider_registry_data_plane_ready ::
  "mem_service_provider_registry \<Rightarrow> bool" where
  "mem_service_provider_registry_data_plane_ready registry \<longleftrightarrow>
     reg_initialized registry \<and> data_plane_loop (live_providers registry) False"

section \<open>Invariant\<close>

text \<open>What every registered plug-in satisfies, and the invariant of the registry: the count is
  the number of filled slots, every filled slot passed validation, and no two share an
  identity.\<close>

definition provider_ok :: "mem_service_provider \<Rightarrow> bool" where
  "provider_ok p \<longleftrightarrow>
     mem_service_provider_identity_valid (prov_name p) MEM_SERVICE_PROVIDER_NAME_LEN \<and>
     mem_service_provider_identity_valid (prov_instance p) MEM_SERVICE_PROVIDER_INSTANCE_LEN \<and>
     mem_service_provider_ops_valid
       \<lparr> reg_name = prov_name p, reg_instance = prov_instance p,
         reg_capabilities = prov_capabilities p, reg_ops = prov_ops p,
         reg_context = prov_context p \<rparr>"

definition registry_wf :: "mem_service_provider_registry \<Rightarrow> bool" where
  "registry_wf r \<longleftrightarrow>
     length (reg_providers r) = MEM_SERVICE_MAX_PROVIDERS \<and>
     unat (reg_count r) \<le> MEM_SERVICE_MAX_PROVIDERS \<and>
     list_all provider_ok (live_providers r) \<and>
     distinct (map (\<lambda>p. (prov_name p, prov_instance p)) (live_providers r))"

lemma registry_init_wf: "registry_wf (snd (mem_service_provider_registry_init r))"
  by (simp add: registry_wf_def mem_service_provider_registry_init_def zero_registry_def
      live_providers_def)

lemma identity_valid_length: "mem_service_provider_identity_valid s n \<Longrightarrow> length s < n"
  by (simp add: mem_service_provider_identity_valid_def)

lemma find_slot_append:
  "find_slot P (xs @ ys) =
     (case find_slot P xs of Some i \<Rightarrow> Some i
      | None \<Rightarrow> map_option (\<lambda>k. length xs + k) (find_slot P ys))"
  by (cases "find_slot P ys"; induction xs) (auto split: option.splits)

text \<open>The one branch of registration that changes the registry appends one live provider.\<close>

lemma register_ok_appends:
  assumes wf: "registry_wf r"
    and reg: "mem_service_provider_registry_register probe r g w = (0, r', w')"
  obtains p where
    "live_providers r' = live_providers r @ [p]" "provider_ok p"
    "prov_name p = reg_name g" "prov_instance p = reg_instance g"
    "prov_capabilities p = reg_capabilities g"
    "mem_service_provider_registry_find r (reg_name g) (reg_instance g) = None"
    "reg_initialized r" "reg_initialized r'"
    "length (reg_providers r') = MEM_SERVICE_MAX_PROVIDERS"
    "unat (reg_count r') = unat (reg_count r) + 1" "unat (reg_count r) < MEM_SERVICE_MAX_PROVIDERS"
proof -
  let ?n = "unat (reg_count r)"
  have guard: "reg_initialized r" "mem_service_provider_identity_valid (reg_name g) MEM_SERVICE_PROVIDER_NAME_LEN"
    "mem_service_provider_identity_valid (reg_instance g) MEM_SERVICE_PROVIDER_INSTANCE_LEN"
    "mem_service_provider_ops_valid g" "\<not> of_nat MEM_SERVICE_MAX_PROVIDERS \<le> reg_count r"
    "mem_service_provider_registry_find r (reg_name g) (reg_instance g) = None"
    using reg by (auto simp: mem_service_provider_registry_register_def split: if_splits)
  have len: "length (reg_providers r) = MEM_SERVICE_MAX_PROVIDERS" using wf by (simp add: registry_wf_def)
  have n: "?n < MEM_SERVICE_MAX_PROVIDERS"
    using guard(5) by (simp add: MEM_SERVICE_MAX_PROVIDERS_def word_le_nat_alt)
  then have suc: "unat (reg_count r + 1) = ?n + 1"
    by (simp add: MEM_SERVICE_MAX_PROVIDERS_def unat_word_ariths)
  from guard reg obtain code st where
    r': "r' = r \<lparr> reg_providers := (reg_providers r)[?n := zero_provider
            \<lparr> prov_name := snprintf_s MEM_SERVICE_PROVIDER_NAME_LEN (reg_name g),
              prov_instance := snprintf_s MEM_SERVICE_PROVIDER_INSTANCE_LEN (reg_instance g),
              prov_capabilities := reg_capabilities g, prov_state := st,
              prov_ops := reg_ops g, prov_context := reg_context g \<rparr>],
            reg_count := reg_count r + 1 \<rparr>"
    by (auto simp: mem_service_provider_registry_register_def Let_def
        split: prod.splits if_splits option.splits)
  define p where "p = zero_provider
            \<lparr> prov_name := reg_name g, prov_instance := reg_instance g,
              prov_capabilities := reg_capabilities g, prov_state := st,
              prov_ops := reg_ops g, prov_context := reg_context g \<rparr>"
  have r'': "r' = r \<lparr> reg_providers := (reg_providers r)[?n := p], reg_count := reg_count r + 1 \<rparr>"
    using guard(2,3) by (simp add: r' p_def identity_valid_length)
  show thesis
  proof (rule that [of p])
    show "live_providers r' = live_providers r @ [p]"
      using n len by (simp add: r'' live_providers_def suc take_Suc_conv_app_nth)
    show "provider_ok p"
      using guard(2-4) by (cases g) (simp add: provider_ok_def p_def)
  qed (use guard n len suc in \<open>simp_all add: r'' p_def\<close>)
qed

lemma register_unchanged:
  "mem_service_provider_registry_register probe r g w = (rc, r', w') \<Longrightarrow> rc \<noteq> 0 \<Longrightarrow> r' = r"
  by (auto simp: mem_service_provider_registry_register_def Let_def
      split: if_splits prod.splits option.splits)

lemma find_None_notin:
  assumes "mem_service_provider_registry_find r n i = None" "reg_initialized r"
  shows "(n, i) \<notin> set (map (\<lambda>p. (prov_name p, prov_instance p)) (live_providers r))"
  using assms by (auto simp: mem_service_provider_registry_find_def find_slot_None_iff)

section \<open>Refresh\<close>

lemma refresh_provider_fields:
  "refresh_provider probe p w = (f, p', w') \<Longrightarrow>
   prov_name p' = prov_name p \<and> prov_instance p' = prov_instance p \<and>
   prov_capabilities p' = prov_capabilities p \<and> prov_ops p' = prov_ops p \<and>
   prov_context p' = prov_context p \<and> (f \<longrightarrow> prov_state p' = PROVIDER_UNAVAILABLE)"
  by (auto simp: refresh_provider_def split: if_splits prod.splits option.splits)

lemma refresh_provider_same:
  "refresh_provider probe p w = (f, p', w') \<Longrightarrow>
   provider_ok p' = provider_ok p \<and> (prov_name p', prov_instance p') = (prov_name p, prov_instance p)"
  by (drule refresh_provider_fields) (simp add: provider_ok_def)

text \<open>The relation between a provider before and after a refresh: only the state changes.\<close>

definition same_identity :: "mem_service_provider \<Rightarrow> mem_service_provider \<Rightarrow> bool" where
  "same_identity p p' \<longleftrightarrow> p' \<lparr> prov_state := prov_state p \<rparr> = p"

lemma same_identity_refl [simp]: "same_identity p p"
  by (simp add: same_identity_def)

lemma refresh_provider_identity:
  "refresh_provider probe p w = (f, p', w') \<Longrightarrow> same_identity p p'"
  using refresh_provider_fields [of probe p w f p' w']
  by (cases p, cases p') (auto simp: same_identity_def)

lemma refresh_loop_same:
  "refresh_loop probe ps n w = (failures, ps', w') \<Longrightarrow> list_all2 same_identity ps ps' \<and> failures \<ge> 0"
proof (induction ps arbitrary: n w failures ps' w')
  case (Cons p ps)
  then show ?case
    by (auto split: if_splits prod.splits dest!: refresh_provider_identity
        simp: list_all2_refl)
qed simp

lemma refresh_loop_success:
  "refresh_loop probe ps n w = (0, ps', w') \<Longrightarrow> i < n \<Longrightarrow> i < length ps \<Longrightarrow>
   \<exists>v code v'. probe (prov_context (ps ! i)) (provider_state_code PROVIDER_UNAVAILABLE) v =
                ((0, code), v') \<and> provider_state_of_code code = Some (prov_state (ps' ! i))"
proof (induction ps arbitrary: n w ps' w' i)
  case (Cons p ps)
  from Cons.prems(2) have n: "n \<noteq> 0" by simp
  obtain f p' w1 where p: "refresh_provider probe p w = (f, p', w1)" by (metis prod_cases3)
  obtain k qs w2 where l: "refresh_loop probe ps (n - 1) w1 = (k, qs, w2)" by (metis prod_cases3)
  have "k \<ge> 0" using refresh_loop_same [OF l] by simp
  with Cons.prems(1) n p l have z: "\<not> f" "k = 0" "ps' = p' # qs" by (auto split: if_splits)
  show ?case
  proof (cases i)
    case 0
    with p z show ?thesis
      by (auto simp: refresh_provider_def split: if_splits prod.splits option.splits) blast
  next
    case (Suc j)
    with Cons.IH [of "n - 1" w1 qs w2 j] l z Cons.prems show ?thesis by simp
  qed
qed simp

lemma same_identity_iff:
  "same_identity p p' \<longleftrightarrow>
     prov_name p' = prov_name p \<and> prov_instance p' = prov_instance p \<and>
     prov_capabilities p' = prov_capabilities p \<and> prov_ops p' = prov_ops p \<and>
     prov_context p' = prov_context p"
  by (cases p, cases p') (auto simp: same_identity_def)

lemma refresh_keeps_wf:
  assumes "registry_wf r" "mem_service_provider_registry_refresh probe r w = (rc, r', w')"
  shows "registry_wf r'"
proof (cases "reg_initialized r")
  case True
  let ?k = "unat (reg_count r)"
  obtain k qs w2 where l: "refresh_loop probe (reg_providers r) ?k w = (k, qs, w2)"
    by (metis prod_cases3)
  from refresh_loop_same [OF l] have same: "list_all2 same_identity (reg_providers r) qs" by simp
  have r': "r' = r \<lparr> reg_providers := qs \<rparr>"
    using assms(2) True l by (simp add: mem_service_provider_registry_refresh_def split: prod.splits)
  have live: "list_all2 same_identity (take ?k (reg_providers r)) (take ?k qs)"
    using same by (rule list_all2_takeI)
  then have "map (\<lambda>p. (prov_name p, prov_instance p)) (take ?k (reg_providers r)) =
        map (\<lambda>p. (prov_name p, prov_instance p)) (take ?k qs)"
    and "list_all provider_ok (take ?k (reg_providers r)) = list_all provider_ok (take ?k qs)"
    by (induction rule: list_all2_induct) (auto simp: same_identity_iff provider_ok_def)
  with assms(1) list_all2_lengthD [OF same] show ?thesis
    by (simp add: r' registry_wf_def live_providers_def)
qed (use assms in \<open>simp add: mem_service_provider_registry_refresh_def\<close>)

lemma data_plane_loop_iff:
  "data_plane_loop ps found \<longleftrightarrow>
     (\<forall>p\<in>set ps. prov_capabilities p AND CAP_DATA_PLANE_MASK \<noteq> 0 \<longrightarrow> prov_state p = PROVIDER_READY) \<and>
     (found \<or> (\<exists>p\<in>set ps. prov_capabilities p AND CAP_DATA_PLANE_MASK \<noteq> 0))"
  by (induction ps arbitrary: found) auto

section \<open>Properties\<close>

text \<open>The provider registry is a map from identities to plug-ins: a successful registration
  keeps the invariant, was only possible for an identity not yet present, makes exactly
  that identity resolvable (with the registered capabilities) and leaves every other lookup
  as it was; a failed registration leaves the registry untouched.\<close>

theorem provider_registry_register_correct:
  assumes wf: "registry_wf r"
    and reg: "mem_service_provider_registry_register probe r g w = (rc, r', w')"
  shows "registry_wf r' \<and>
    (rc \<noteq> 0 \<longrightarrow> r' = r) \<and>
    (rc = 0 \<longrightarrow>
       mem_service_provider_registry_find r (reg_name g) (reg_instance g) = None \<and>
       prov_capabilities (reg_providers r' ! unat (reg_count r)) = reg_capabilities g \<and>
       (\<forall>n i. mem_service_provider_registry_find r' n i =
          (if (n, i) = (reg_name g, reg_instance g) then Some (unat (reg_count r))
           else mem_service_provider_registry_find r n i)))"
proof (cases "rc = 0")
  case True
  from register_ok_appends [OF wf reg [unfolded True]] obtain p where
    live: "live_providers r' = live_providers r @ [p]" and ok: "provider_ok p"
    and id: "prov_name p = reg_name g" "prov_instance p = reg_instance g"
      "prov_capabilities p = reg_capabilities g"
    and fresh: "mem_service_provider_registry_find r (reg_name g) (reg_instance g) = None"
    and init: "reg_initialized r" "reg_initialized r'"
    and len: "length (reg_providers r') = MEM_SERVICE_MAX_PROVIDERS"
      "unat (reg_count r') = unat (reg_count r) + 1" "unat (reg_count r) < MEM_SERVICE_MAX_PROVIDERS" .
  have count: "length (live_providers r) = unat (reg_count r)"
    using wf by (simp add: registry_wf_def live_providers_def)
  have "registry_wf r'"
    using wf live ok len find_None_notin [OF fresh init(1)] id by (auto simp: registry_wf_def)
  moreover have "reg_providers r' ! unat (reg_count r) = p"
  proof -
    have "live_providers r' ! unat (reg_count r) = p" by (simp add: live count nth_append)
    then show ?thesis using len by (simp add: live_providers_def)
  qed
  moreover have "mem_service_provider_registry_find r' n i =
      (if (n, i) = (reg_name g, reg_instance g) then Some (unat (reg_count r))
       else mem_service_provider_registry_find r n i)" for n i
    using fresh id
    by (auto simp: mem_service_provider_registry_find_def init live find_slot_append count
        split: option.splits)
  ultimately show ?thesis using True fresh id by simp
qed (use register_unchanged [OF reg] wf in auto)

definition demo_registration :: mem_service_provider_registration where
  "demo_registration = \<lparr> reg_name = ''tcp'', reg_instance = ''node0'',
     reg_capabilities = CAP_PEER_TRANSFER,
     reg_ops = Some \<lparr> ops_probe = True, ops_register_region = False, ops_deregister_region = False,
       ops_submit_transfer = True, ops_poll_completion = True, ops_wait_receive = False,
       ops_map_remote_region = False, ops_unmap_remote_region = False, ops_publish_range = False,
       ops_invalidate_range = False, ops_wait_range_visible = False \<rparr>,
     reg_context = 1 \<rparr>"

definition ready_probe :: "unit probe" where
  "ready_probe context before w = ((0, provider_state_code PROVIDER_READY), w)"

definition empty_registry :: mem_service_provider_registry where
  "empty_registry = snd (mem_service_provider_registry_init zero_registry)"

lemma demo_registered:
  "fst (mem_service_provider_registry_register ready_probe empty_registry demo_registration ()) = 0"
  by code_simp

lemma registry_wf_empty: "registry_wf empty_registry"
  unfolding empty_registry_def by (rule registry_init_wf)

definition demo_registry :: mem_service_provider_registry where
  "demo_registry =
     fst (snd (mem_service_provider_registry_register ready_probe empty_registry demo_registration ()))"

lemma registry_wf_demo: "registry_wf demo_registry"
  by code_simp

theorem provider_registry_register_correct_witness:
  "mem_service_provider_registry_find
     (fst (snd (mem_service_provider_registry_register ready_probe empty_registry demo_registration ())))
     ''tcp'' ''node0'' = Some 0"
  using provider_registry_register_correct [OF registry_wf_empty, of ready_probe demo_registration "()"]
    demo_registered
  by (cases "mem_service_provider_registry_register ready_probe empty_registry demo_registration ()")
     (simp add: demo_registration_def empty_registry_def mem_service_provider_registry_init_def
        zero_registry_def)

text \<open>Readiness of the data plane: the service reports its data plane ready exactly when
  some registered provider moves or maps data and every such provider is in the ready
  state; one degraded data provider is enough to refuse.\<close>

theorem data_plane_ready_iff:
  "mem_service_provider_registry_data_plane_ready r \<longleftrightarrow>
     reg_initialized r \<and>
     (\<exists>p. p \<in> set (live_providers r) \<and> prov_capabilities p AND CAP_DATA_PLANE_MASK \<noteq> 0) \<and>
     (\<nexists>p. p \<in> set (live_providers r) \<and> prov_capabilities p AND CAP_DATA_PLANE_MASK \<noteq> 0 \<and>
          prov_state p \<noteq> PROVIDER_READY)"
  by (auto simp: mem_service_provider_registry_data_plane_ready_def data_plane_loop_iff)

text \<open>A refresh keeps the invariant and every identity, and it reports success only if
  every registered plug-in's probe succeeded and the recorded state is what that probe
  reported.\<close>

theorem provider_registry_refresh_correct:
  assumes wf: "registry_wf r"
    and run: "mem_service_provider_registry_refresh probe r w = (rc, r', w')"
  shows "registry_wf r' \<and>
    (\<forall>n i. mem_service_provider_registry_find r' n i = mem_service_provider_registry_find r n i) \<and>
    (rc = 0 \<longrightarrow> (\<forall>k < unat (reg_count r).
       \<exists>v code v'. probe (prov_context (reg_providers r ! k)) 3 v = ((0, code), v') \<and>
         provider_state_of_code code = Some (prov_state (reg_providers r' ! k))))"
proof (cases "reg_initialized r")
  case False
  with run wf show ?thesis by (simp add: mem_service_provider_registry_refresh_def)
next
  case True
  let ?k = "unat (reg_count r)"
  obtain f qs w2 where l: "refresh_loop probe (reg_providers r) ?k w = (f, qs, w2)"
    by (metis prod_cases3)
  have r': "r' = r \<lparr> reg_providers := qs \<rparr>" "rc = (if f = 0 then 0 else -1)"
    using run True l by (simp_all add: mem_service_provider_registry_refresh_def split: prod.splits)
  have "list_all2 same_identity (take ?k (reg_providers r)) (take ?k qs)"
    using refresh_loop_same [OF l] by (simp add: list_all2_takeI)
  then have "find_slot (\<lambda>p. prov_name p = n \<and> prov_instance p = i) (take ?k (reg_providers r)) =
             find_slot (\<lambda>p. prov_name p = n \<and> prov_instance p = i) (take ?k qs)" for n i
    by (induction rule: list_all2_induct) (auto simp: same_identity_iff)
  then have "mem_service_provider_registry_find r' n i = mem_service_provider_registry_find r n i" for n i
    by (simp add: r' mem_service_provider_registry_find_def live_providers_def)
  moreover have "?k \<le> length (reg_providers r)" using wf by (simp add: registry_wf_def)
  ultimately show ?thesis
    using refresh_keeps_wf [OF wf run] r' l refresh_loop_success [of probe "reg_providers r" ?k w qs w2]
    by (auto split: if_splits)
qed

theorem provider_registry_refresh_correct_witness:
  "registry_wf (fst (snd (mem_service_provider_registry_refresh ready_probe demo_registry ())))"
  using provider_registry_refresh_correct [OF registry_wf_demo, of ready_probe "()"]
  by (cases "mem_service_provider_registry_refresh ready_probe demo_registry ()") simp

end
