(* ===== verification/Service_State.thy ===== *)
theory Service_State
  imports Provider_Registry
begin

text \<open>
  The state of the service (\<open>mem_service.h\<close>): the record table, the idempotency table, the
  audit ring, the metrics, the provider registry, and the flags. A struct is a record whose
  fields carry a short prefix (\<open>rec_\<close>, \<open>idem_\<close>, \<open>aud_\<close>, \<open>met_\<close>, \<open>svc_\<close>) and
  otherwise the name the C struct gives them; an array of slots is a list of that many
  slots; \<open>zero_\<close> constants are what \<open>memset (p, 0, sizeof *p)\<close> leaves.

  An enum read from memory may hold any number, and the daemon stores records of kind 0;
  a number outside the enumerators is kept in the \<open>OTHER\<close> constructor.
\<close>

section \<open>Enumerations\<close>

datatype mem_service_record_kind =
    RECORD_PREFIX_GROUP | RECORD_REQUEST_PREFIX | RECORD_BLOCK_META | RECORD_WEIGHT_TILE
  | RECORD_KVCACHE_OBJECT | RECORD_HIDDEN_RANGE_INPUT | RECORD_HIDDEN_RANGE_OUTPUT
  | RECORD_LAYER_RANGE_PLACEMENT | RECORD_MODEL_TOKEN_RESULT | RECORD_MODEL_ENGRAM_HISTORY
  | RECORD_MODEL_ENGRAM_CANDIDATES | RECORD_MODEL_ENGRAM_SELECTED | RECORD_MODEL_ENGRAM_STATE
  | RECORD_RUNTIME_HANDOFF | RECORD_EXECUTION_ARTIFACT | RECORD_TRAINING_ARTIFACT
  | RECORD_OTHER u32

fun record_kind_code :: "mem_service_record_kind \<Rightarrow> u32" where
  "record_kind_code RECORD_PREFIX_GROUP = 1"
| "record_kind_code RECORD_REQUEST_PREFIX = 2"
| "record_kind_code RECORD_BLOCK_META = 3"
| "record_kind_code RECORD_WEIGHT_TILE = 4"
| "record_kind_code RECORD_KVCACHE_OBJECT = 5"
| "record_kind_code RECORD_HIDDEN_RANGE_INPUT = 6"
| "record_kind_code RECORD_HIDDEN_RANGE_OUTPUT = 7"
| "record_kind_code RECORD_LAYER_RANGE_PLACEMENT = 8"
| "record_kind_code RECORD_MODEL_TOKEN_RESULT = 9"
| "record_kind_code RECORD_MODEL_ENGRAM_HISTORY = 10"
| "record_kind_code RECORD_MODEL_ENGRAM_CANDIDATES = 11"
| "record_kind_code RECORD_MODEL_ENGRAM_SELECTED = 12"
| "record_kind_code RECORD_MODEL_ENGRAM_STATE = 13"
| "record_kind_code RECORD_RUNTIME_HANDOFF = 14"
| "record_kind_code RECORD_EXECUTION_ARTIFACT = 15"
| "record_kind_code RECORD_TRAINING_ARTIFACT = 16"
| "record_kind_code (RECORD_OTHER n) = n"

definition all_record_kinds :: "mem_service_record_kind list" where
  "all_record_kinds =
     [RECORD_PREFIX_GROUP, RECORD_REQUEST_PREFIX, RECORD_BLOCK_META, RECORD_WEIGHT_TILE,
      RECORD_KVCACHE_OBJECT, RECORD_HIDDEN_RANGE_INPUT, RECORD_HIDDEN_RANGE_OUTPUT,
      RECORD_LAYER_RANGE_PLACEMENT, RECORD_MODEL_TOKEN_RESULT, RECORD_MODEL_ENGRAM_HISTORY,
      RECORD_MODEL_ENGRAM_CANDIDATES, RECORD_MODEL_ENGRAM_SELECTED, RECORD_MODEL_ENGRAM_STATE,
      RECORD_RUNTIME_HANDOFF, RECORD_EXECUTION_ARTIFACT, RECORD_TRAINING_ARTIFACT]"

text \<open>The cast \<open>(enum mem_service_record_kind) n\<close>.\<close>

definition record_kind_of_code :: "u32 \<Rightarrow> mem_service_record_kind" where
  "record_kind_of_code n =
     (case find (\<lambda>k. record_kind_code k = n) all_record_kinds of
        None \<Rightarrow> RECORD_OTHER n | Some k \<Rightarrow> k)"

datatype mem_service_kvcache_state =
    KVCACHE_STATE_MISSING | KVCACHE_STATE_FILLED | KVCACHE_STATE_HOT | KVCACHE_STATE_RELOADED
  | KVCACHE_STATE_OTHER u32

fun kvcache_state_code :: "mem_service_kvcache_state \<Rightarrow> u32" where
  "kvcache_state_code KVCACHE_STATE_MISSING = 0"
| "kvcache_state_code KVCACHE_STATE_FILLED = 1"
| "kvcache_state_code KVCACHE_STATE_HOT = 2"
| "kvcache_state_code KVCACHE_STATE_RELOADED = 3"
| "kvcache_state_code (KVCACHE_STATE_OTHER n) = n"

definition kvcache_state_of_code :: "u32 \<Rightarrow> mem_service_kvcache_state" where
  "kvcache_state_of_code n =
     (if n = 0 then KVCACHE_STATE_MISSING else if n = 1 then KVCACHE_STATE_FILLED
      else if n = 2 then KVCACHE_STATE_HOT else if n = 3 then KVCACHE_STATE_RELOADED
      else KVCACHE_STATE_OTHER n)"

section \<open>Structs\<close>

record mem_service_record =
  rec_in_use :: bool
  rec_kind :: mem_service_record_kind
  rec_key :: cstr
  rec_request_id :: cstr
  rec_prefix_group :: cstr
  rec_group_id :: cstr
  rec_block_hash :: cstr
  rec_session_id :: cstr
  rec_model_key :: cstr
  rec_artifact_kind :: cstr
  rec_artifact_id :: cstr
  rec_placement_node :: u32
  rec_placement_level :: u32
  rec_hot_segment_id :: u64
  rec_state :: mem_service_kvcache_state
  rec_version :: u64
  rec_last_result_segment :: u64
  rec_object_owner_node :: u32
  rec_object_payload_kind :: u32
  rec_object_backing_offset :: u64
  rec_object_backing_len :: u64
  rec_object_payload_checksum :: u64
  rec_object_backend_kind :: u32
  rec_object_backend_node :: u32
  rec_object_backend_device_cna :: u32
  rec_object_backend_flags :: u32
  rec_object_backend_block_hi :: u64
  rec_object_backend_block_lo :: u64
  rec_object_backend_block_version :: u64
  rec_object_backend_block_offset :: u64
  rec_object_backend_block_bytes :: u64
  rec_object_backend_block_checksum :: u64
  rec_object_publish_monotonic_ms :: u64
  rec_object_publish_supernode_ms :: u64
  rec_object_publish_supernode_offset_ms :: u64
  rec_member_count :: u32
  rec_member_block_hashes :: "cstr list"

record mem_service_metrics =
  met_request_count :: u64
  met_ok_count :: u64
  met_error_count :: u64
  met_not_found_count :: u64
  met_stale_ref_count :: u64
  met_checksum_mismatch_count :: u64
  met_version_conflict_count :: u64
  met_invalid_model_binding_count :: u64
  met_invalid_session_count :: u64
  met_timeout_count :: u64
  met_capacity_exceeded_count :: u64
  met_unsupported_count :: u64
  met_internal_count :: u64
  met_fail_closed_count :: u64
  met_health_count :: u64
  met_ready_count :: u64
  met_status_count :: u64
  met_list_records_count :: u64
  met_metrics_count :: u64
  met_audit_log_count :: u64
  met_export_snapshot_count :: u64
  met_export_snapshot_page_count :: u64
  met_restore_snapshot_count :: u64
  met_restore_snapshot_page_count :: u64
  met_put_object_count :: u64
  met_get_object_count :: u64
  met_inspect_object_count :: u64
  met_materialize_object_count :: u64
  met_get_object_hit_count :: u64
  met_get_object_miss_count :: u64
  met_register_prefix_count :: u64
  met_lookup_prefix_count :: u64
  met_prefix_lookup_hit_count :: u64
  met_prefix_lookup_miss_count :: u64
  met_publish_kv_count :: u64
  met_resolve_kv_count :: u64
  met_kv_resolve_hit_count :: u64
  met_kv_resolve_miss_count :: u64
  met_publish_runtime_handoff_count :: u64
  met_resolve_runtime_handoff_count :: u64
  met_register_execution_artifact_count :: u64
  met_query_execution_artifact_count :: u64
  met_register_training_artifact_count :: u64
  met_query_training_artifact_count :: u64
  met_artifact_query_hit_count :: u64
  met_artifact_query_miss_count :: u64
  met_idempotency_replay_count :: u64
  met_idempotency_conflict_count :: u64
  met_request_latency_total_ms :: u64
  met_request_latency_max_ms :: u64
  met_request_latency_bucket_counts :: "u64 list"

record mem_service_idempotency_record =
  idem_in_use :: bool
  idem_key :: cstr
  idem_operation :: u32
  idem_request_checksum :: u32
  idem_status :: u32
  idem_response_len :: u32
  idem_response :: cstr

record mem_service_audit_event =
  aud_in_use :: bool
  aud_sequence :: u64
  aud_monotonic_ms :: u64
  aud_operation :: u32
  aud_status :: u32
  aud_request_checksum :: u32
  aud_response_checksum :: u32
  aud_idempotency_replay :: u32
  aud_key :: cstr
  aud_session_id :: cstr
  aud_model_key :: cstr
  aud_artifact_kind :: cstr
  aud_artifact_id :: cstr
  aud_idempotency_key :: cstr
  aud_version :: u64
  aud_checksum :: u64

record mem_service =
  svc_control_plane_ready :: bool
  svc_provider_registry_ready :: bool
  svc_durable_ready :: bool
  svc_enforce_expected_context :: bool
  svc_record_count :: u64
  svc_audit_next_sequence :: u64
  svc_audit_event_count :: u64
  svc_providers :: mem_service_provider_registry
  svc_metrics :: mem_service_metrics
  svc_records :: "mem_service_record list"
  svc_idempotency_records :: "mem_service_idempotency_record list"
  svc_audit_events :: "mem_service_audit_event list"

section \<open>Zeroed structs and initialisation\<close>

definition MEM_SERVICE_MAX_RECORDS :: nat where "MEM_SERVICE_MAX_RECORDS = 1024"
definition MEM_SERVICE_MAX_GROUP_MEMBERS :: nat where "MEM_SERVICE_MAX_GROUP_MEMBERS = 4"
definition MEM_SERVICE_METRIC_LATENCY_BUCKET_COUNT :: nat where
  "MEM_SERVICE_METRIC_LATENCY_BUCKET_COUNT = 6"
definition MEM_SERVICE_MAX_IDEMPOTENCY_RECORDS :: nat where
  "MEM_SERVICE_MAX_IDEMPOTENCY_RECORDS = 64"
definition MEM_SERVICE_IDEMPOTENCY_KEY_LEN :: nat where "MEM_SERVICE_IDEMPOTENCY_KEY_LEN = 96"
definition MEM_SERVICE_IDEMPOTENCY_RESPONSE_LEN :: nat where
  "MEM_SERVICE_IDEMPOTENCY_RESPONSE_LEN = 4096"
definition MEM_SERVICE_MAX_AUDIT_EVENTS :: nat where "MEM_SERVICE_MAX_AUDIT_EVENTS = 256"

definition zero_record :: mem_service_record where
  "zero_record =
     \<lparr> rec_in_use = False, rec_kind = RECORD_OTHER 0, rec_key = [], rec_request_id = [],
       rec_prefix_group = [], rec_group_id = [], rec_block_hash = [], rec_session_id = [],
       rec_model_key = [], rec_artifact_kind = [], rec_artifact_id = [], rec_placement_node = 0,
       rec_placement_level = 0, rec_hot_segment_id = 0, rec_state = KVCACHE_STATE_MISSING,
       rec_version = 0, rec_last_result_segment = 0, rec_object_owner_node = 0,
       rec_object_payload_kind = 0, rec_object_backing_offset = 0, rec_object_backing_len = 0,
       rec_object_payload_checksum = 0, rec_object_backend_kind = 0, rec_object_backend_node = 0,
       rec_object_backend_device_cna = 0, rec_object_backend_flags = 0,
       rec_object_backend_block_hi = 0, rec_object_backend_block_lo = 0,
       rec_object_backend_block_version = 0, rec_object_backend_block_offset = 0,
       rec_object_backend_block_bytes = 0, rec_object_backend_block_checksum = 0,
       rec_object_publish_monotonic_ms = 0, rec_object_publish_supernode_ms = 0,
       rec_object_publish_supernode_offset_ms = 0, rec_member_count = 0,
       rec_member_block_hashes = replicate MEM_SERVICE_MAX_GROUP_MEMBERS [] \<rparr>"

definition zero_metrics :: mem_service_metrics where
  "zero_metrics =
     \<lparr> met_request_count = 0,
       met_ok_count = 0,
       met_error_count = 0,
       met_not_found_count = 0,
       met_stale_ref_count = 0,
       met_checksum_mismatch_count = 0,
       met_version_conflict_count = 0,
       met_invalid_model_binding_count = 0,
       met_invalid_session_count = 0,
       met_timeout_count = 0,
       met_capacity_exceeded_count = 0,
       met_unsupported_count = 0,
       met_internal_count = 0,
       met_fail_closed_count = 0,
       met_health_count = 0,
       met_ready_count = 0,
       met_status_count = 0,
       met_list_records_count = 0,
       met_metrics_count = 0,
       met_audit_log_count = 0,
       met_export_snapshot_count = 0,
       met_export_snapshot_page_count = 0,
       met_restore_snapshot_count = 0,
       met_restore_snapshot_page_count = 0,
       met_put_object_count = 0,
       met_get_object_count = 0,
       met_inspect_object_count = 0,
       met_materialize_object_count = 0,
       met_get_object_hit_count = 0,
       met_get_object_miss_count = 0,
       met_register_prefix_count = 0,
       met_lookup_prefix_count = 0,
       met_prefix_lookup_hit_count = 0,
       met_prefix_lookup_miss_count = 0,
       met_publish_kv_count = 0,
       met_resolve_kv_count = 0,
       met_kv_resolve_hit_count = 0,
       met_kv_resolve_miss_count = 0,
       met_publish_runtime_handoff_count = 0,
       met_resolve_runtime_handoff_count = 0,
       met_register_execution_artifact_count = 0,
       met_query_execution_artifact_count = 0,
       met_register_training_artifact_count = 0,
       met_query_training_artifact_count = 0,
       met_artifact_query_hit_count = 0,
       met_artifact_query_miss_count = 0,
       met_idempotency_replay_count = 0,
       met_idempotency_conflict_count = 0,
       met_request_latency_total_ms = 0,
       met_request_latency_max_ms = 0,
       met_request_latency_bucket_counts = replicate MEM_SERVICE_METRIC_LATENCY_BUCKET_COUNT 0 \<rparr>"

definition zero_idempotency_record :: mem_service_idempotency_record where
  "zero_idempotency_record =
     \<lparr> idem_in_use = False, idem_key = [], idem_operation = 0, idem_request_checksum = 0,
       idem_status = 0, idem_response_len = 0, idem_response = [] \<rparr>"

definition zero_audit_event :: mem_service_audit_event where
  "zero_audit_event =
     \<lparr> aud_in_use = False, aud_sequence = 0, aud_monotonic_ms = 0, aud_operation = 0,
       aud_status = 0, aud_request_checksum = 0, aud_response_checksum = 0,
       aud_idempotency_replay = 0, aud_key = [], aud_session_id = [], aud_model_key = [],
       aud_artifact_kind = [], aud_artifact_id = [], aud_idempotency_key = [], aud_version = 0,
       aud_checksum = 0 \<rparr>"

definition zero_service :: mem_service where
  "zero_service =
     \<lparr> svc_control_plane_ready = False, svc_provider_registry_ready = False,
       svc_durable_ready = False, svc_enforce_expected_context = False, svc_record_count = 0,
       svc_audit_next_sequence = 0, svc_audit_event_count = 0, svc_providers = zero_registry,
       svc_metrics = zero_metrics,
       svc_records = replicate MEM_SERVICE_MAX_RECORDS zero_record,
       svc_idempotency_records =
         replicate MEM_SERVICE_MAX_IDEMPOTENCY_RECORDS zero_idempotency_record,
       svc_audit_events = replicate MEM_SERVICE_MAX_AUDIT_EVENTS zero_audit_event \<rparr>"

text \<open>\<open>mem_service_init\<close>: the registry is initialised only when the three readiness flags are
  set; otherwise the zeroed service with its flags is left behind and the call fails.\<close>

definition mem_service_init :: "bool \<Rightarrow> bool \<Rightarrow> bool \<Rightarrow> int \<times> mem_service" where
  "mem_service_init control_plane_ready provider_registry_ready durable_ready =
     (let svc = zero_service
            \<lparr> svc_control_plane_ready := control_plane_ready,
              svc_provider_registry_ready := provider_registry_ready,
              svc_durable_ready := durable_ready,
              svc_enforce_expected_context := True,
              svc_audit_next_sequence := 1 \<rparr>
      in if \<not> svc_control_plane_ready svc \<or> \<not> svc_provider_registry_ready svc \<or>
            \<not> svc_durable_ready svc then (-1, svc)
         else case mem_service_provider_registry_init (svc_providers svc) of
           (rc, registry) \<Rightarrow>
             (if rc \<noteq> 0 then -1 else 0, svc \<lparr> svc_providers := registry \<rparr>))"

section \<open>Selectors of the zeroed structs\<close>

lemma zero_record_sel [simp]:
  "rec_in_use zero_record = False" "rec_kind zero_record = RECORD_OTHER 0" "rec_key zero_record = []"
  "rec_request_id zero_record = []" "rec_prefix_group zero_record = []"
  "rec_group_id zero_record = []" "rec_block_hash zero_record = []"
  "rec_session_id zero_record = []" "rec_model_key zero_record = []"
  "rec_artifact_kind zero_record = []" "rec_artifact_id zero_record = []"
  "rec_placement_node zero_record = 0" "rec_placement_level zero_record = 0"
  "rec_hot_segment_id zero_record = 0" "rec_state zero_record = KVCACHE_STATE_MISSING"
  "rec_version zero_record = 0" "rec_last_result_segment zero_record = 0"
  "rec_object_backing_len zero_record = 0" "rec_object_payload_checksum zero_record = 0"
  "rec_object_payload_kind zero_record = 0" "rec_object_backend_kind zero_record = 0"
  "rec_member_count zero_record = 0" "rec_member_block_hashes zero_record = replicate 4 []"
  by (simp_all add: zero_record_def MEM_SERVICE_MAX_GROUP_MEMBERS_def)

lemma zero_idempotency_record_sel [simp]:
  "idem_in_use zero_idempotency_record = False" "idem_key zero_idempotency_record = []"
  "idem_response zero_idempotency_record = []" "idem_response_len zero_idempotency_record = 0"
  "idem_status zero_idempotency_record = 0"
  by (simp_all add: zero_idempotency_record_def)

lemma zero_audit_event_sel [simp]:
  "aud_in_use zero_audit_event = False" "aud_sequence zero_audit_event = 0"
  by (simp_all add: zero_audit_event_def)

end
