(* ===== verification/Records.thy ===== *)
theory Records
  imports Service_State
begin

text \<open>
  The record table (\<open>mem_service_records.c\<close>): allocation of the first free slot, lookup by
  key, and the member list of a prefix group. A record pointer is a slot number.

  The abstraction is the partial map \<open>record_map\<close> from keys to records. The invariant
  \<open>records_wf\<close> says that the table has its 1024 slots, every string fits its field, the
  keys of used slots are distinct and \<open>record_count\<close> counts the used slots. The locale
  \<open>keyed_store\<close> is the interface the metadata layer and the request handlers rely on.
\<close>

section \<open>Operations\<close>

definition mem_service_alloc_record :: "mem_service \<Rightarrow> nat option \<times> mem_service" where
  "mem_service_alloc_record svc =
     (case find_slot (\<lambda>r. \<not> rec_in_use r) (svc_records svc) of
        None \<Rightarrow> (None, svc)
      | Some i \<Rightarrow>
          (Some i, svc
             \<lparr> svc_records := (svc_records svc)[i := (svc_records svc ! i) \<lparr> rec_in_use := True \<rparr>],
               svc_record_count := svc_record_count svc + 1 \<rparr>))"

definition mem_service_find_record :: "mem_service \<Rightarrow> cstr \<Rightarrow> nat option" where
  "mem_service_find_record svc key =
     find_slot (\<lambda>r. rec_in_use r \<and> strncmp_eq (rec_key r) key 96) (svc_records svc)"

definition mem_service_record_has_member :: "mem_service_record \<Rightarrow> cstr \<Rightarrow> bool" where
  "mem_service_record_has_member r block_hash \<longleftrightarrow>
     list_ex (\<lambda>h. strncmp_eq h block_hash 96)
       (take (min (unat (rec_member_count r)) MEM_SERVICE_MAX_GROUP_MEMBERS)
          (rec_member_block_hashes r))"

definition mem_service_add_member :: "mem_service_record \<Rightarrow> cstr \<Rightarrow> int \<times> mem_service_record" where
  "mem_service_add_member r block_hash =
     (if mem_service_record_has_member r block_hash then (0, r)
      else if rec_member_count r \<ge> of_nat MEM_SERVICE_MAX_GROUP_MEMBERS then (-1, r)
      else (0, r
        \<lparr> rec_member_block_hashes :=
            (rec_member_block_hashes r)[unat (rec_member_count r) := snprintf_s 96 block_hash],
          rec_member_count := rec_member_count r + 1 \<rparr>))"

text \<open>Writing through a record pointer, and \<open>mem_service_get_record\<close>, which copies the record
  out.\<close>

definition write_record :: "nat \<Rightarrow> mem_service_record \<Rightarrow> mem_service \<Rightarrow> mem_service" where
  "write_record i r svc = svc \<lparr> svc_records := (svc_records svc)[i := r] \<rparr>"

definition mem_service_get_record :: "mem_service \<Rightarrow> cstr \<Rightarrow> mem_service_record option" where
  "mem_service_get_record svc key =
     map_option (\<lambda>i. svc_records svc ! i) (mem_service_find_record svc key)"

text \<open>The shape every writer of a whole record shares: find the key, else allocate a slot,
  else fail; then zero the slot and fill it.\<close>

definition put_record :: "mem_service \<Rightarrow> cstr \<Rightarrow> mem_service_record \<Rightarrow> mem_service option" where
  "put_record svc key r =
     (case mem_service_find_record svc key of
        Some i \<Rightarrow> Some (write_record i r svc)
      | None \<Rightarrow>
          (case mem_service_alloc_record svc of
             (None, svc') \<Rightarrow> None
           | (Some i, svc') \<Rightarrow> Some (write_record i r svc')))"

section \<open>Invariant and abstraction\<close>

definition record_ok :: "mem_service_record \<Rightarrow> bool" where
  "record_ok r \<longleftrightarrow>
     length (rec_key r) < 96 \<and> length (rec_request_id r) < 64 \<and>
     length (rec_prefix_group r) < 64 \<and> length (rec_group_id r) < 64 \<and>
     length (rec_block_hash r) < 96 \<and> length (rec_session_id r) < 64 \<and>
     length (rec_model_key r) < 64 \<and> length (rec_artifact_kind r) < 64 \<and>
     length (rec_artifact_id r) < 96 \<and>
     unat (rec_member_count r) \<le> MEM_SERVICE_MAX_GROUP_MEMBERS \<and>
     length (rec_member_block_hashes r) = MEM_SERVICE_MAX_GROUP_MEMBERS \<and>
     list_all (\<lambda>h. length h < 96) (rec_member_block_hashes r)"

interpretation recs: slot_table rec_in_use rec_key zero_record
  by unfold_locales simp

definition used_records :: "mem_service \<Rightarrow> nat" where
  "used_records svc = length (filter rec_in_use (svc_records svc))"

definition records_wf :: "mem_service \<Rightarrow> bool" where
  "records_wf svc \<longleftrightarrow>
     length (svc_records svc) = MEM_SERVICE_MAX_RECORDS \<and>
     list_all record_ok (svc_records svc) \<and>
     recs.keys_distinct (svc_records svc) \<and>
     unat (svc_record_count svc) = used_records svc"

abbreviation record_map :: "mem_service \<Rightarrow> cstr \<Rightarrow> mem_service_record option" where
  "record_map \<equiv> mem_service_get_record"

lemma record_ok_zero [simp]: "record_ok zero_record"
  by (simp add: record_ok_def MEM_SERVICE_MAX_GROUP_MEMBERS_def list_all_iff)

lemma records_wf_nth:
  "records_wf svc \<Longrightarrow> i < length (svc_records svc) \<Longrightarrow> record_ok (svc_records svc ! i)"
  by (simp add: records_wf_def list_all_length)

lemma record_ok_key: "record_ok r \<Longrightarrow> length (rec_key r) < 96"
  by (simp add: record_ok_def)

lemma find_record_lookup:
  assumes "records_wf svc"
  shows "mem_service_find_record svc key = recs.lookup (svc_records svc) key"
  unfolding mem_service_find_record_def recs.lookup_def
proof (rule find_slot_cong)
  fix r
  assume "r \<in> set (svc_records svc)"
  with assms have "length (rec_key r) < 96" by (auto simp: records_wf_def list_all_iff record_ok_def)
  then show "(rec_in_use r \<and> strncmp_eq (rec_key r) key 96) = (rec_in_use r \<and> rec_key r = key)"
    by simp
qed

lemma record_map_table_map:
  "records_wf svc \<Longrightarrow> record_map svc = recs.table_map (svc_records svc)"
  by (rule ext) (simp add: mem_service_get_record_def find_record_lookup recs.table_map_def)

lemma find_record_SomeD:
  assumes "records_wf svc" "mem_service_find_record svc key = Some i"
  shows "i < length (svc_records svc)" "rec_in_use (svc_records svc ! i)"
    "rec_key (svc_records svc ! i) = key" "record_ok (svc_records svc ! i)"
  using recs.lookup_SomeD [of "svc_records svc" key i] assms
  by (auto simp: find_record_lookup intro: records_wf_nth)

lemma get_record_SomeD:
  assumes "records_wf svc" "mem_service_get_record svc key = Some r"
  shows "rec_in_use r" "rec_key r = key" "record_ok r"
  using assms find_record_SomeD [OF assms(1)] by (auto simp: mem_service_get_record_def)

lemma get_record_None_iff:
  "mem_service_get_record svc key = None \<longleftrightarrow> mem_service_find_record svc key = None"
  by (simp add: mem_service_get_record_def)

lemma get_record_eqs [simp]:
  "mem_service_find_record svc key = None \<Longrightarrow> mem_service_get_record svc key = None"
  "mem_service_find_record svc key = Some i \<Longrightarrow>
     mem_service_get_record svc key = Some (svc_records svc ! i)"
  by (simp_all add: mem_service_get_record_def)

text \<open>The frame of the record writers: nothing but the table and its count changes.\<close>

lemma write_record_frame [simp]:
  "svc_record_count (write_record i r svc) = svc_record_count svc"
  "svc_records (write_record i r svc) = (svc_records svc)[i := r]"
  "svc_metrics (write_record i r svc) = svc_metrics svc"
  "svc_idempotency_records (write_record i r svc) = svc_idempotency_records svc"
  "svc_audit_events (write_record i r svc) = svc_audit_events svc"
  "svc_audit_next_sequence (write_record i r svc) = svc_audit_next_sequence svc"
  "svc_audit_event_count (write_record i r svc) = svc_audit_event_count svc"
  "svc_providers (write_record i r svc) = svc_providers svc"
  "svc_enforce_expected_context (write_record i r svc) = svc_enforce_expected_context svc"
  by (simp_all add: write_record_def)

lemma alloc_record_SomeD:
  assumes "mem_service_alloc_record svc = (Some i, svc')"
  shows "i < length (svc_records svc)" "\<not> rec_in_use (svc_records svc ! i)"
    "svc' = svc \<lparr> svc_records := (svc_records svc)[i := (svc_records svc ! i) \<lparr> rec_in_use := True \<rparr>],
                  svc_record_count := svc_record_count svc + 1 \<rparr>"
  using assms find_slot_SomeD [of "\<lambda>r. \<not> rec_in_use r" "svc_records svc" i]
  by (auto simp: mem_service_alloc_record_def split: option.splits)

lemma alloc_record_None_iff:
  "fst (mem_service_alloc_record svc) = None \<longleftrightarrow> used_records svc = length (svc_records svc)"
proof -
  have "fst (mem_service_alloc_record svc) = None \<longleftrightarrow> (\<forall>r\<in>set (svc_records svc). rec_in_use r)"
    by (simp add: mem_service_alloc_record_def find_slot_None_iff split: option.splits)
       (metis find_slot_None_iff option.distinct(1))
  also have "\<dots> \<longleftrightarrow> filter rec_in_use (svc_records svc) = svc_records svc"
    by (simp add: filter_id_conv)
  also have "\<dots> \<longleftrightarrow> used_records svc = length (svc_records svc)"
    by (auto simp: used_records_def) (metis filter_True length_filter_less less_irrefl)
  finally show ?thesis .
qed

lemma alloc_record_None: "mem_service_alloc_record svc = (None, svc') \<Longrightarrow> svc' = svc"
  by (auto simp: mem_service_alloc_record_def split: option.splits)

lemma used_records_write:
  assumes "i < length (svc_records svc)"
  shows "used_records (write_record i r svc) + (if rec_in_use (svc_records svc ! i) then 1 else 0) =
         used_records svc + (if rec_in_use r then 1 else 0)"
  using length_filter_update [OF assms, of rec_in_use r] by (simp add: used_records_def)

lemma used_records_le: "used_records svc \<le> length (svc_records svc)"
  by (simp add: used_records_def)

lemma record_count_Suc:
  assumes "records_wf svc" "i < length (svc_records svc)" "\<not> rec_in_use (svc_records svc ! i)"
  shows "unat (svc_record_count svc + 1) = used_records svc + 1"
    and "used_records svc < MEM_SERVICE_MAX_RECORDS"
proof -
  have "used_records svc < length (svc_records svc)"
    unfolding used_records_def
    by (rule length_filter_less [of "svc_records svc ! i"]) (use assms in auto)
  with assms(1) show lt: "used_records svc < MEM_SERVICE_MAX_RECORDS" by (simp add: records_wf_def)
  with assms(1) show "unat (svc_record_count svc + 1) = used_records svc + 1"
    by (simp add: records_wf_def unat_word_ariths MEM_SERVICE_MAX_RECORDS_def)
qed

lemma list_all_update: "list_all P xs \<Longrightarrow> P y \<Longrightarrow> list_all P (xs[i := y])"
  using set_update_subset_insert [of xs i y] by (auto simp: list_all_iff)

text \<open>The freshly initialised service satisfies the invariant and holds no record.\<close>

definition initial_service :: mem_service where
  "initial_service = snd (mem_service_init True True True)"

lemma initial_service_sel [simp]:
  "svc_records initial_service = replicate MEM_SERVICE_MAX_RECORDS zero_record"
  "svc_record_count initial_service = 0"
  "svc_idempotency_records initial_service =
     replicate MEM_SERVICE_MAX_IDEMPOTENCY_RECORDS zero_idempotency_record"
  "svc_audit_events initial_service = replicate MEM_SERVICE_MAX_AUDIT_EVENTS zero_audit_event"
  "svc_audit_next_sequence initial_service = 1" "svc_audit_event_count initial_service = 0"
  "svc_metrics initial_service = zero_metrics" "svc_enforce_expected_context initial_service"
  by (simp_all add: initial_service_def mem_service_init_def zero_service_def
      mem_service_provider_registry_init_def)

lemma records_wf_initial: "records_wf initial_service"
  by (simp add: records_wf_def used_records_def recs.keys_distinct_replicate_blank list_all_iff)

lemma record_map_initial: "record_map initial_service = Map.empty"
  by (simp add: record_map_table_map records_wf_initial recs.table_map_replicate_blank)

lemma used_records_initial: "used_records initial_service = 0"
  by (simp add: used_records_def)

section \<open>Writing a record\<close>

text \<open>Overwriting the record of a key keeps the invariant and updates the map.\<close>

lemma write_found_record:
  assumes wf: "records_wf svc" and find: "mem_service_find_record svc key = Some i"
    and r: "rec_in_use r" "rec_key r = key" "record_ok r"
  shows "records_wf (write_record i r svc)"
    and "record_map (write_record i r svc) = (record_map svc)(key \<mapsto> r)"
    and "used_records (write_record i r svc) = used_records svc"
proof -
  note D = find_record_SomeD [OF wf find]
  have l: "recs.lookup (svc_records svc) key = Some i" using find find_record_lookup [OF wf] by simp
  have dist: "recs.keys_distinct (svc_records svc)" using wf by (simp add: records_wf_def)
  show used: "used_records (write_record i r svc) = used_records svc"
    using used_records_write [OF D(1), of r] D(2) r(1) by simp
  show wf': "records_wf (write_record i r svc)"
    using wf recs.keys_distinct_update_same [OF dist l r(2)] r(3) used
    by (simp add: records_wf_def list_all_update)
  show "record_map (write_record i r svc) = (record_map svc)(key \<mapsto> r)"
    using recs.table_map_update [OF dist D(1) r(1)] l r(2)
    by (simp add: record_map_table_map [OF wf] record_map_table_map [OF wf'])
qed

text \<open>Filling a freshly allocated slot with a record of a new key does the same and counts
  one more record.\<close>

lemma write_alloc_record:
  assumes wf: "records_wf svc" and find: "mem_service_find_record svc key = None"
    and alloc: "mem_service_alloc_record svc = (Some i, svc')"
    and r: "rec_in_use r" "rec_key r = key" "record_ok r"
  shows "records_wf (write_record i r svc')"
    and "record_map (write_record i r svc') = (record_map svc)(key \<mapsto> r)"
    and "used_records (write_record i r svc') = used_records svc + 1"
proof -
  note A = alloc_record_SomeD [OF alloc]
  have l: "recs.lookup (svc_records svc) key = None" using find find_record_lookup [OF wf] by simp
  have dist: "recs.keys_distinct (svc_records svc)" using wf by (simp add: records_wf_def)
  have recs': "svc_records (write_record i r svc') = (svc_records svc)[i := r]"
    by (simp add: A(3))
  show used: "used_records (write_record i r svc') = used_records svc + 1"
    using length_filter_update [OF A(1), of rec_in_use r] A(2) r(1)
    unfolding used_records_def recs' by simp
  show wf': "records_wf (write_record i r svc')"
    using wf recs.keys_distinct_update_fresh [OF dist l r(2)] r(3) used record_count_Suc(1) [OF wf A(1,2)]
    by (simp add: records_wf_def recs' list_all_update) (simp add: A(3) list_all_update)
  show "record_map (write_record i r svc') = (record_map svc)(key \<mapsto> r)"
    using recs.table_map_update [OF dist A(1) r(1)] l r(2) A(2)
    unfolding record_map_table_map [OF wf] record_map_table_map [OF wf'] recs' by simp
qed

lemma put_record_SomeD:
  assumes wf: "records_wf svc" and put: "put_record svc key r = Some svc'"
    and r: "rec_in_use r" "rec_key r = key" "record_ok r"
  shows "records_wf svc'" "record_map svc' = (record_map svc)(key \<mapsto> r)"
    "used_records svc' = used_records svc + (if record_map svc key = None then 1 else 0)"
  using put write_found_record [OF wf _ r] write_alloc_record [OF wf _ _ r]
  by (auto simp: put_record_def split: option.splits prod.splits)

lemma put_record_None_iff:
  "records_wf svc \<Longrightarrow>
   put_record svc key r = None \<longleftrightarrow>
     record_map svc key = None \<and> used_records svc = MEM_SERVICE_MAX_RECORDS"
  using alloc_record_None_iff [of svc]
  by (auto simp: put_record_def records_wf_def split: option.splits prod.splits)

text \<open>The rest of the service: everything but the record table and its count. An operation on
  records leaves it alone.\<close>

definition svc_rest :: "mem_service \<Rightarrow> mem_service" where
  "svc_rest svc = svc \<lparr> svc_records := [], svc_record_count := 0 \<rparr>"

lemma svc_rest_eqD:
  assumes "svc_rest svc' = svc_rest svc"
  shows "svc_metrics svc' = svc_metrics svc"
    "svc_idempotency_records svc' = svc_idempotency_records svc"
    "svc_audit_events svc' = svc_audit_events svc"
    "svc_audit_next_sequence svc' = svc_audit_next_sequence svc"
    "svc_audit_event_count svc' = svc_audit_event_count svc"
    "svc_providers svc' = svc_providers svc"
    "svc_enforce_expected_context svc' = svc_enforce_expected_context svc"
  using assms by (cases svc, cases svc', simp add: svc_rest_def)+

lemma svc_rest_write [svc_frame]: "svc_rest (write_record i r svc) = svc_rest svc"
  by (simp add: svc_rest_def write_record_def)

lemma svc_rest_alloc: "mem_service_alloc_record svc = (a, svc') \<Longrightarrow> svc_rest svc' = svc_rest svc"
  by (auto simp: svc_rest_def mem_service_alloc_record_def split: option.splits)

lemma svc_rest_put: "put_record svc key r = Some svc' \<Longrightarrow> svc_rest svc' = svc_rest svc"
  by (auto simp: put_record_def svc_frame dest: svc_rest_alloc split: option.splits prod.splits)

lemma find_record_at:
  assumes "records_wf svc" "i < length (svc_records svc)" "rec_in_use (svc_records svc ! i)"
  shows "mem_service_find_record svc (rec_key (svc_records svc ! i)) = Some i"
  using recs.lookupI [of "svc_records svc" i] assms find_record_lookup [OF assms(1)]
  by (simp add: records_wf_def)

section \<open>The keyed store\<close>

text \<open>
  What a client of a keyed table relies on. \<open>get\<close> and \<open>put\<close> are the operations, \<open>inv\<close> the
  invariant of the state and \<open>fits k r\<close> says that \<open>r\<close> may be stored under \<open>k\<close>. A put
  of a fitting record, when it succeeds, keeps the invariant and updates the map at one
  key; a put on a present key always succeeds.
\<close>

locale keyed_store =
  fixes get :: "'s \<Rightarrow> 'k \<Rightarrow> 'r option"
    and put :: "'s \<Rightarrow> 'k \<Rightarrow> 'r \<Rightarrow> 's option"
    and inv :: "'s \<Rightarrow> bool"
    and fits :: "'k \<Rightarrow> 'r \<Rightarrow> bool"
  assumes get_fits: "inv s \<Longrightarrow> get s k = Some r \<Longrightarrow> fits k r"
    and put_inv: "inv s \<Longrightarrow> fits k r \<Longrightarrow> put s k r = Some s' \<Longrightarrow> inv s'"
    and put_get: "inv s \<Longrightarrow> fits k r \<Longrightarrow> put s k r = Some s' \<Longrightarrow> get s' = (get s)(k \<mapsto> r)"
    and put_present: "inv s \<Longrightarrow> get s k = Some r' \<Longrightarrow> put s k r \<noteq> None"
begin

text \<open>The guarded update of the service: an absent or unsuitable record is an error (-1), a
  stale request is refused (1), otherwise the record is replaced (0).\<close>

definition guarded_update ::
  "('r \<Rightarrow> bool) \<Rightarrow> ('r \<Rightarrow> bool) \<Rightarrow> ('r \<Rightarrow> 'r) \<Rightarrow> 's \<Rightarrow> 'k \<Rightarrow> int \<times> 's" where
  "guarded_update suitable stale upd s k =
     (case get s k of
        None \<Rightarrow> (-1, s)
      | Some r \<Rightarrow>
          if \<not> suitable r then (-1, s)
          else if stale r then (1, s)
          else case put s k (upd r) of None \<Rightarrow> (-1, s) | Some s' \<Rightarrow> (0, s'))"

lemma guarded_update_cases:
  assumes inv: "inv s" and fits: "\<forall>r. fits k r \<longrightarrow> fits k (upd r)"
    and run: "guarded_update suitable stale upd s k = (rc, s')"
  shows "inv s'"
    and "rc = 0 \<Longrightarrow> \<exists>r. get s k = Some r \<and> suitable r \<and> \<not> stale r \<and> get s' = (get s)(k \<mapsto> upd r)"
    and "rc \<noteq> 0 \<Longrightarrow> s' = s"
    and "rc = 1 \<Longrightarrow> \<exists>r. get s k = Some r \<and> suitable r \<and> stale r"
    and "rc = -1 \<Longrightarrow> \<forall>r. get s k = Some r \<longrightarrow> \<not> suitable r"
    and "rc \<in> {-1, 0, 1}"
proof -
  consider (none) "get s k = None" | (some) r where "get s k = Some r" by blast
  then have "inv s' \<and>
    (rc = 0 \<longrightarrow> (\<exists>r. get s k = Some r \<and> suitable r \<and> \<not> stale r \<and> get s' = (get s)(k \<mapsto> upd r))) \<and>
    (rc \<noteq> 0 \<longrightarrow> s' = s) \<and> (rc = 1 \<longrightarrow> (\<exists>r. get s k = Some r \<and> suitable r \<and> stale r)) \<and>
    (rc = -1 \<longrightarrow> (\<forall>r. get s k = Some r \<longrightarrow> \<not> suitable r)) \<and> rc \<in> {-1, 0, 1}"
  proof cases
    case none
    with run inv show ?thesis by (simp add: guarded_update_def)
  next
    case some
    obtain s1 where s1: "put s k (upd r) = Some s1" using put_present [OF inv some] by blast
    have "fits k (upd r)" using get_fits [OF inv some] fits by blast
    with s1 have "inv s1" "get s1 = (get s)(k \<mapsto> upd r)"
      using put_inv [OF inv] put_get [OF inv] by blast+
    with run some inv s1 show ?thesis by (auto simp: guarded_update_def split: if_splits)
  qed
  then show "inv s'"
    and "rc = 0 \<Longrightarrow> \<exists>r. get s k = Some r \<and> suitable r \<and> \<not> stale r \<and> get s' = (get s)(k \<mapsto> upd r)"
    and "rc \<noteq> 0 \<Longrightarrow> s' = s"
    and "rc = 1 \<Longrightarrow> \<exists>r. get s k = Some r \<and> suitable r \<and> stale r"
    and "rc = -1 \<Longrightarrow> \<forall>r. get s k = Some r \<longrightarrow> \<not> suitable r"
    and "rc \<in> {-1, 0, 1}" by blast+
qed

end

definition record_fits :: "cstr \<Rightarrow> mem_service_record \<Rightarrow> bool" where
  "record_fits key r \<longleftrightarrow> rec_in_use r \<and> rec_key r = key \<and> record_ok r"

interpretation store: keyed_store record_map put_record records_wf record_fits
proof unfold_locales
  show "record_fits k r" if "records_wf s" "record_map s k = Some r" for s k r
    using get_record_SomeD [OF that] by (simp add: record_fits_def)
  show "records_wf s'" if "records_wf s" "record_fits k r" "put_record s k r = Some s'" for s k r s'
    using put_record_SomeD(1) [OF that(1,3)] that(2) by (simp add: record_fits_def)
  show "record_map s' = (record_map s)(k \<mapsto> r)"
    if "records_wf s" "record_fits k r" "put_record s k r = Some s'" for s k r s'
    using put_record_SomeD(2) [OF that(1,3)] that(2) by (simp add: record_fits_def)
  show "put_record s k r \<noteq> None" if "records_wf s" "record_map s k = Some r'" for s k r r'
    using put_record_None_iff [OF that(1)] that(2) by simp
qed

lemma put_record_present:
  "mem_service_find_record svc key = Some i \<Longrightarrow> put_record svc key r = Some (write_record i r svc)"
  by (simp add: put_record_def)

text \<open>Counting records is counting keys; a write adds at most its own key.\<close>

lemma used_records_card:
  "records_wf svc \<Longrightarrow> used_records svc = card (dom (record_map svc))"
  by (simp add: used_records_def record_map_table_map records_wf_def recs.card_dom_table_map)

lemma finite_dom_record_map: "records_wf svc \<Longrightarrow> finite (dom (record_map svc))"
  by (simp add: record_map_table_map records_wf_def recs.dom_table_map)

lemma used_records_upd:
  assumes "records_wf svc" "records_wf svc'" "record_map svc' = (record_map svc)(k \<mapsto> r)"
  shows "used_records svc' = used_records svc + (if record_map svc k = None then 1 else 0)"
  using finite_dom_record_map [OF assms(1)]
  by (auto simp: used_records_card assms(1,2) assms(3) card_insert_if)

section \<open>Group members\<close>

abbreviation members_of :: "mem_service_record \<Rightarrow> cstr list" where
  "members_of r \<equiv> take (unat (rec_member_count r)) (rec_member_block_hashes r)"

lemma has_member_iff:
  assumes "record_ok r"
  shows "mem_service_record_has_member r h \<longleftrightarrow> h \<in> set (members_of r)"
proof -
  have "strncmp_eq m h 96 \<longleftrightarrow> m = h" if "m \<in> set (members_of r)" for m
    using assms that by (auto simp: record_ok_def list_all_iff dest: in_set_takeD)
  with assms show ?thesis
    by (auto simp: mem_service_record_has_member_def record_ok_def list_ex_iff min_def)
qed

lemma add_member_spec:
  assumes ok: "record_ok r" and h: "length h < 96"
    and add: "mem_service_add_member r h = (rc, r')"
  shows "record_ok r' \<and> rec_in_use r' = rec_in_use r \<and> rec_key r' = rec_key r \<and>
      rec_kind r' = rec_kind r \<and> rec_version r' = rec_version r \<and>
      (rc = 0 \<longrightarrow> members_of r' = (if h \<in> set (members_of r) then members_of r else members_of r @ [h])) \<and>
      (rc \<noteq> 0 \<longrightarrow> r' = r \<and> h \<notin> set (members_of r) \<and> length (members_of r) = 4)"
proof -
  have c4: "unat (rec_member_count r) \<le> 4" "length (rec_member_block_hashes r) = 4"
    using ok by (simp_all add: record_ok_def MEM_SERVICE_MAX_GROUP_MEMBERS_def)
  have le: "(of_nat 4 \<le> rec_member_count r) = (4 \<le> unat (rec_member_count r))"
    by (simp add: word_le_nat_alt)
  have suc: "unat (rec_member_count r + 1) = unat (rec_member_count r) + 1"
    using c4 by (simp add: unat_word_ariths)
  consider (dup) "h \<in> set (members_of r)" | (full) "h \<notin> set (members_of r)" "4 \<le> unat (rec_member_count r)"
    | (new) "h \<notin> set (members_of r)" "unat (rec_member_count r) < 4" by linarith
  then show ?thesis
  proof cases
    case dup
    with add ok show ?thesis by (simp add: mem_service_add_member_def has_member_iff [OF ok])
  next
    case full
    with add ok c4 le show ?thesis
      by (simp add: mem_service_add_member_def has_member_iff [OF ok] MEM_SERVICE_MAX_GROUP_MEMBERS_def)
  next
    case new
    with add le h have r': "rc = 0" "r' = r
        \<lparr> rec_member_block_hashes := (rec_member_block_hashes r)[unat (rec_member_count r) := h],
          rec_member_count := rec_member_count r + 1 \<rparr>"
      by (simp_all add: mem_service_add_member_def has_member_iff [OF ok] MEM_SERVICE_MAX_GROUP_MEMBERS_def)
    have "list_all (\<lambda>h. length h < 96) (rec_member_block_hashes r)" using ok by (simp add: record_ok_def)
    then have "list_all (\<lambda>h. length h < 96) ((rec_member_block_hashes r)[unat (rec_member_count r) := h])"
      using h by (rule list_all_update)
    with ok new suc c4 have "record_ok r'"
      by (simp add: record_ok_def r' MEM_SERVICE_MAX_GROUP_MEMBERS_def)
    moreover have "members_of r' = members_of r @ [h]"
      using new(2) c4(2) by (simp add: r' suc take_Suc_conv_app_nth)
    ultimately show ?thesis using new(1) r'(1) by (simp add: r'(2))
  qed
qed

end
