(* ===== verification/Keys.thy ===== *)
theory Keys
  imports Service_State
begin

text \<open>
  Record keys (\<open>mem_service_keys.c\<close>). A key is concatenated from fixed separators and the
  identifiers of a request; a key that does not fit the 96-byte field is refused, never
  truncated. A builder that fails empties the output buffer and returns -1, here \<open>None\<close>.

  Shown here: a built key fits, keys of the three record classes never coincide, and the
  builders are injective as long as the request identifier holds no slash. The last
  condition is necessary, which the final property proves by an example.
\<close>

section \<open>Builders\<close>

definition SIZE_MAX :: nat where "SIZE_MAX = 18446744073709551615"

definition mem_service_build_two_part_key ::
  "cstr \<Rightarrow> cstr \<Rightarrow> cstr \<Rightarrow> cstr \<Rightarrow> nat \<Rightarrow> cstr option" where
  "mem_service_build_two_part_key prefix first middle second out_len =
     (let prefix_len = length prefix; first_len = length first;
          middle_len = length middle; second_len = length second
      in if out_len = 0 then None
         else if prefix_len > SIZE_MAX - first_len \<or>
            prefix_len + first_len > SIZE_MAX - middle_len \<or>
            prefix_len + first_len + middle_len > SIZE_MAX - second_len then None
         else let total_len = prefix_len + first_len + middle_len + second_len
              in if total_len + 1 > out_len then None
                 else Some (prefix @ first @ middle @ second))"

definition mem_service_build_prefix_key_from_parts_checked ::
  "cstr \<Rightarrow> cstr \<Rightarrow> nat \<Rightarrow> cstr option" where
  "mem_service_build_prefix_key_from_parts_checked request_id prefix_group out_len =
     mem_service_build_two_part_key ''request/'' request_id ''/prefix/'' prefix_group out_len"

definition mem_service_build_group_key_from_parts_checked ::
  "cstr \<Rightarrow> cstr \<Rightarrow> nat \<Rightarrow> cstr option" where
  "mem_service_build_group_key_from_parts_checked request_id group_id out_len =
     mem_service_build_two_part_key ''request/'' request_id ''/prefix-group/'' group_id out_len"

definition mem_service_build_block_key_from_hash_checked :: "cstr \<Rightarrow> nat \<Rightarrow> cstr option" where
  "mem_service_build_block_key_from_hash_checked block_hash out_len =
     mem_service_build_two_part_key ''block/'' block_hash [] [] out_len"

record mem_service_block_ctx =
  ctx_request_id :: cstr
  ctx_prefix_group :: cstr
  ctx_group_id :: cstr
  ctx_block_hash :: cstr
  ctx_placement_node :: u32
  ctx_placement_level :: u32
  ctx_hot_segment_id :: u64
  ctx_result_segment_id :: u64

definition mem_service_build_group_key :: "mem_service_block_ctx \<Rightarrow> nat \<Rightarrow> cstr option" where
  "mem_service_build_group_key ctx out_len =
     mem_service_build_group_key_from_parts_checked (ctx_request_id ctx) (ctx_group_id ctx) out_len"

definition mem_service_build_prefix_key :: "mem_service_block_ctx \<Rightarrow> nat \<Rightarrow> cstr option" where
  "mem_service_build_prefix_key ctx out_len =
     mem_service_build_prefix_key_from_parts_checked (ctx_request_id ctx) (ctx_prefix_group ctx) out_len"

definition mem_service_build_block_key :: "mem_service_block_ctx \<Rightarrow> nat \<Rightarrow> cstr option" where
  "mem_service_build_block_key ctx out_len =
     mem_service_build_block_key_from_hash_checked (ctx_block_hash ctx) out_len"

text \<open>The unchecked builders: what they leave in the caller's buffer.\<close>

definition mem_service_build_prefix_key_from_parts :: "cstr \<Rightarrow> cstr \<Rightarrow> nat \<Rightarrow> cstr" where
  "mem_service_build_prefix_key_from_parts request_id prefix_group out_len =
     (case mem_service_build_prefix_key_from_parts_checked request_id prefix_group out_len of
        None \<Rightarrow> [] | Some key \<Rightarrow> key)"

definition mem_service_build_group_key_from_parts :: "cstr \<Rightarrow> cstr \<Rightarrow> nat \<Rightarrow> cstr" where
  "mem_service_build_group_key_from_parts request_id group_id out_len =
     (case mem_service_build_group_key_from_parts_checked request_id group_id out_len of
        None \<Rightarrow> [] | Some key \<Rightarrow> key)"

definition mem_service_build_block_key_from_hash :: "cstr \<Rightarrow> nat \<Rightarrow> cstr" where
  "mem_service_build_block_key_from_hash block_hash out_len =
     (case mem_service_build_block_key_from_hash_checked block_hash out_len of
        None \<Rightarrow> [] | Some key \<Rightarrow> key)"

section \<open>Lemmas\<close>

lemmas build_key_defs =
  mem_service_build_prefix_key_def mem_service_build_group_key_def mem_service_build_block_key_def
  mem_service_build_prefix_key_from_parts_checked_def
  mem_service_build_group_key_from_parts_checked_def
  mem_service_build_block_key_from_hash_checked_def
  mem_service_build_two_part_key_def Let_def SIZE_MAX_def

lemma two_part_key_SomeD:
  "mem_service_build_two_part_key p a m b n = Some k \<Longrightarrow> k = p @ a @ m @ b \<and> length k < n"
  by (auto simp: mem_service_build_two_part_key_def Let_def split: if_splits)

lemma build_key_SomeD:
  "mem_service_build_prefix_key ctx n = Some k \<Longrightarrow>
     k = ''request/'' @ ctx_request_id ctx @ ''/prefix/'' @ ctx_prefix_group ctx \<and> length k < n"
  "mem_service_build_group_key ctx n = Some k \<Longrightarrow>
     k = ''request/'' @ ctx_request_id ctx @ ''/prefix-group/'' @ ctx_group_id ctx \<and> length k < n"
  "mem_service_build_block_key ctx n = Some k \<Longrightarrow>
     k = ''block/'' @ ctx_block_hash ctx \<and> length k < n"
  by (auto simp: mem_service_build_prefix_key_def mem_service_build_group_key_def
      mem_service_build_block_key_def mem_service_build_prefix_key_from_parts_checked_def
      mem_service_build_group_key_from_parts_checked_def
      mem_service_build_block_key_from_hash_checked_def dest!: two_part_key_SomeD)

text \<open>Splitting at the first slash.\<close>

lemma append_slash_cancel:
  assumes "x \<notin> set a" "x \<notin> set b" "a @ x # s = b @ x # t"
  shows "a = b \<and> s = t"
proof -
  have "takeWhile (\<lambda>c. c \<noteq> x) (u @ x # v) = u" if "x \<notin> set u" for u v
    using that by (induction u) auto
  with assms have "a = b" by metis
  with assms(3) show ?thesis by simp
qed

lemma prefix_ne_group_key:
  assumes "CHR ''/'' \<notin> set (ctx_request_id c)" "CHR ''/'' \<notin> set (ctx_request_id d)"
    and "mem_service_build_prefix_key c n = Some k" "mem_service_build_group_key d n = Some k'"
  shows "k \<noteq> k'"
proof
  assume "k = k'"
  with build_key_SomeD(1) [OF assms(3)] build_key_SomeD(2) [OF assms(4)]
  have "ctx_request_id c @ CHR ''/'' # ''prefix/'' @ ctx_prefix_group c =
        ctx_request_id d @ CHR ''/'' # ''prefix-group/'' @ ctx_group_id d" by simp
  from append_slash_cancel [OF assms(1,2) this] show False by simp
qed

section \<open>Properties\<close>

text \<open>Record keys identify what they name. For requests whose identifier holds no slash, the
  prefix keys of two contexts are equal only for the same request and prefix, the group keys
  only for the same request and group, block keys only for the same block, and keys of
  different classes are never equal; every built key fits the 96-byte key field.\<close>

theorem key_builders_injective:
  assumes slash: "CHR ''/'' \<notin> set (ctx_request_id c)" "CHR ''/'' \<notin> set (ctx_request_id d)"
    and c: "mem_service_build_prefix_key c 96 = Some pc" "mem_service_build_group_key c 96 = Some gc"
      "mem_service_build_block_key c 96 = Some bc"
    and d: "mem_service_build_prefix_key d 96 = Some pd" "mem_service_build_group_key d 96 = Some gd"
      "mem_service_build_block_key d 96 = Some bd"
  shows "(pc = pd \<longleftrightarrow> ctx_request_id c = ctx_request_id d \<and> ctx_prefix_group c = ctx_prefix_group d) \<and>
    (gc = gd \<longleftrightarrow> ctx_request_id c = ctx_request_id d \<and> ctx_group_id c = ctx_group_id d) \<and>
    (bc = bd \<longleftrightarrow> ctx_block_hash c = ctx_block_hash d) \<and>
    pc \<noteq> gd \<and> pc \<noteq> bd \<and> gc \<noteq> bd \<and> length pc < 96 \<and> length gc < 96 \<and> length bc < 96"
proof -
  note C = build_key_SomeD(1) [OF c(1)] build_key_SomeD(2) [OF c(2)] build_key_SomeD(3) [OF c(3)]
  note D = build_key_SomeD(1) [OF d(1)] build_key_SomeD(2) [OF d(2)] build_key_SomeD(3) [OF d(3)]
  have "pc = pd \<Longrightarrow> ctx_request_id c = ctx_request_id d \<and> ctx_prefix_group c = ctx_prefix_group d"
    using C D append_slash_cancel [OF slash, of "''prefix/'' @ ctx_prefix_group c"
        "''prefix/'' @ ctx_prefix_group d"] by simp
  moreover have "gc = gd \<Longrightarrow> ctx_request_id c = ctx_request_id d \<and> ctx_group_id c = ctx_group_id d"
    using C D append_slash_cancel [OF slash, of "''prefix-group/'' @ ctx_group_id c"
        "''prefix-group/'' @ ctx_group_id d"] by simp
  moreover have "pc \<noteq> gd" by (rule prefix_ne_group_key [OF slash c(1) d(2)])
  moreover have "bc = bd \<longleftrightarrow> ctx_block_hash c = ctx_block_hash d" using C(3) D(3) by simp
  moreover have "pc \<noteq> bd" "gc \<noteq> bd" using C(1,2) D(3) by simp_all
  moreover have "length pc < 96" "length gc < 96" "length bc < 96" using C by blast+
  moreover have "ctx_request_id c = ctx_request_id d \<and> ctx_prefix_group c = ctx_prefix_group d \<Longrightarrow> pc = pd"
    "ctx_request_id c = ctx_request_id d \<and> ctx_group_id c = ctx_group_id d \<Longrightarrow> gc = gd"
    using C(1,2) D(1,2) by simp_all
  ultimately show ?thesis by blast
qed

definition demo_ctx :: mem_service_block_ctx where
  "demo_ctx = \<lparr> ctx_request_id = ''r1'', ctx_prefix_group = ''p1'', ctx_group_id = ''g1'',
     ctx_block_hash = ''b1'', ctx_placement_node = 1, ctx_placement_level = 2,
     ctx_hot_segment_id = 3, ctx_result_segment_id = 4 \<rparr>"

lemma demo_ctx_keys:
  "mem_service_build_prefix_key demo_ctx 96 = Some ''request/r1/prefix/p1''"
  "mem_service_build_group_key demo_ctx 96 = Some ''request/r1/prefix-group/g1''"
  "mem_service_build_block_key demo_ctx 96 = Some ''block/b1''"
  by (simp_all add: build_key_defs demo_ctx_def)

theorem key_builders_injective_witness:
  "''request/r1/prefix/p1'' \<noteq> ''request/r1/prefix-group/g1'' \<and>
   mem_service_build_prefix_key demo_ctx 96 \<noteq> mem_service_build_group_key demo_ctx 96"
  using key_builders_injective [OF _ _ demo_ctx_keys demo_ctx_keys] demo_ctx_keys
  by (simp add: demo_ctx_def)

text \<open>The slash condition is needed: with slashes in identifiers, the prefix key of one
  request equals the group key of another, so the two requests share one record slot.\<close>

theorem key_builders_collide_on_slash:
  "mem_service_build_prefix_key_from_parts_checked ''a/prefix-group/x'' ''y'' 96 =
   mem_service_build_group_key_from_parts_checked ''a'' ''x/prefix/y'' 96 \<and>
   mem_service_build_group_key_from_parts_checked ''a'' ''x/prefix/y'' 96 \<noteq> None"
  by (simp add: build_key_defs)

end
