(* ===== verification/Metadata.thy ===== *)
theory Metadata
  imports Records Keys
begin

text \<open>
  The KV-cache metadata layer (\<open>mem_service_metadata.c\<close>). Three records describe a cached
  block: the block itself, the request prefix that uses it, and the prefix group that
  lists its member blocks. The operations create the three (bootstrap), advance the result
  of a block, move its view or its owner, and bring the prefix up to date.

  Return codes are the C ones: 0 done, 1 stale (nothing changed), 2 wrong owner, -1 error.
  An out parameter of an operation is an option that is \<open>Some\<close> exactly for return code 0.
  The progress messages on stdout are not modelled.
\<close>

section \<open>Record writers\<close>

definition request_prefix_record ::
  "cstr \<Rightarrow> cstr \<Rightarrow> cstr \<Rightarrow> cstr \<Rightarrow> cstr \<Rightarrow> mem_service_record" where
  "request_prefix_record key request_id prefix_group group_id block_hash =
     zero_record
       \<lparr> rec_in_use := True,
         rec_kind := RECORD_REQUEST_PREFIX,
         rec_key := snprintf_s 96 key,
         rec_request_id := snprintf_s 64 request_id,
         rec_prefix_group := snprintf_s 64 prefix_group,
         rec_group_id := snprintf_s 64 group_id,
         rec_block_hash := snprintf_s 96 block_hash,
         rec_version := 1 \<rparr>"

definition mem_service_put_request_prefix ::
  "mem_service \<Rightarrow> cstr \<Rightarrow> cstr \<Rightarrow> cstr \<Rightarrow> cstr \<Rightarrow> cstr \<Rightarrow> int \<times> mem_service" where
  "mem_service_put_request_prefix svc key request_id prefix_group group_id block_hash =
     (case put_record svc key
             (request_prefix_record key request_id prefix_group group_id block_hash) of
        None \<Rightarrow> (-1, svc)
      | Some svc' \<Rightarrow> (0, svc'))"

definition new_group_record :: "cstr \<Rightarrow> cstr \<Rightarrow> cstr \<Rightarrow> mem_service_record" where
  "new_group_record key request_id group_id =
     zero_record
       \<lparr> rec_in_use := True,
         rec_kind := RECORD_PREFIX_GROUP,
         rec_key := snprintf_s 96 key,
         rec_request_id := snprintf_s 64 request_id,
         rec_group_id := snprintf_s 64 group_id,
         rec_version := 1 \<rparr>"

text \<open>The part of \<open>mem_service_put_prefix_group\<close> after the record pointer is known.\<close>

definition group_placement_differs ::
  "mem_service_record \<Rightarrow> u32 \<Rightarrow> u32 \<Rightarrow> u64 \<Rightarrow> mem_service_kvcache_state \<Rightarrow> u64 \<Rightarrow> bool" where
  "group_placement_differs r placement_node placement_level hot_segment_id state last_result_segment \<longleftrightarrow>
     rec_placement_node r \<noteq> placement_node \<or> rec_placement_level r \<noteq> placement_level \<or>
     rec_hot_segment_id r \<noteq> hot_segment_id \<or> rec_state r \<noteq> state \<or>
     rec_last_result_segment r \<noteq> last_result_segment"

definition put_prefix_group_at ::
  "mem_service \<Rightarrow> nat \<Rightarrow> bool \<Rightarrow> cstr \<Rightarrow> u32 \<Rightarrow> u32 \<Rightarrow> u64 \<Rightarrow> mem_service_kvcache_state \<Rightarrow> u64 \<Rightarrow>
   int \<times> mem_service" where
  "put_prefix_group_at svc i is_new block_hash placement_node placement_level hot_segment_id state
       last_result_segment =
     (let r = svc_records svc ! i in
      if rec_kind r \<noteq> RECORD_PREFIX_GROUP then (-1, svc)
      else case mem_service_add_member r block_hash of
        (rc, r1) \<Rightarrow>
          if rc \<noteq> 0 then (-1, svc)
          else let differs = group_placement_differs r1 placement_node placement_level
                               hot_segment_id state last_result_segment;
                   r2 = (if differs then r1
                           \<lparr> rec_placement_node := placement_node,
                             rec_placement_level := placement_level,
                             rec_hot_segment_id := hot_segment_id,
                             rec_state := state,
                             rec_last_result_segment := last_result_segment \<rparr>
                         else r1);
                   changed = is_new \<or> differs;
                   r3 = (if changed \<and> \<not> is_new \<and> rec_version r2 > 0
                         then r2 \<lparr> rec_version := rec_version r2 + 1 \<rparr> else r2)
               in (0, write_record i r3 svc))"

definition mem_service_put_prefix_group ::
  "mem_service \<Rightarrow> cstr \<Rightarrow> cstr \<Rightarrow> cstr \<Rightarrow> cstr \<Rightarrow> u32 \<Rightarrow> u32 \<Rightarrow> u64 \<Rightarrow> mem_service_kvcache_state \<Rightarrow> u64 \<Rightarrow>
   int \<times> mem_service" where
  "mem_service_put_prefix_group svc key request_id group_id block_hash placement_node
       placement_level hot_segment_id state last_result_segment =
     (case mem_service_find_record svc key of
        Some i \<Rightarrow>
          put_prefix_group_at svc i False block_hash placement_node placement_level hot_segment_id
            state last_result_segment
      | None \<Rightarrow>
          (case mem_service_alloc_record svc of
             (None, svc') \<Rightarrow> (-1, svc')
           | (Some i, svc') \<Rightarrow>
               put_prefix_group_at (write_record i (new_group_record key request_id group_id) svc') i
                 True block_hash placement_node placement_level hot_segment_id state
                 last_result_segment))"

definition block_meta_record ::
  "cstr \<Rightarrow> cstr \<Rightarrow> cstr \<Rightarrow> cstr \<Rightarrow> cstr \<Rightarrow> u32 \<Rightarrow> u32 \<Rightarrow> u64 \<Rightarrow> mem_service_kvcache_state \<Rightarrow>
   mem_service_record" where
  "block_meta_record key request_id prefix_group group_id block_hash placement_node placement_level
       hot_segment_id state =
     zero_record
       \<lparr> rec_in_use := True,
         rec_kind := RECORD_BLOCK_META,
         rec_key := snprintf_s 96 key,
         rec_request_id := snprintf_s 64 request_id,
         rec_prefix_group := snprintf_s 64 prefix_group,
         rec_group_id := snprintf_s 64 group_id,
         rec_block_hash := snprintf_s 96 block_hash,
         rec_placement_node := placement_node,
         rec_placement_level := placement_level,
         rec_hot_segment_id := hot_segment_id,
         rec_state := state,
         rec_version := 1 \<rparr>"

definition mem_service_put_block_meta ::
  "mem_service \<Rightarrow> cstr \<Rightarrow> cstr \<Rightarrow> cstr \<Rightarrow> cstr \<Rightarrow> cstr \<Rightarrow> u32 \<Rightarrow> u32 \<Rightarrow> u64 \<Rightarrow> mem_service_kvcache_state \<Rightarrow>
   int \<times> mem_service" where
  "mem_service_put_block_meta svc key request_id prefix_group group_id block_hash placement_node
       placement_level hot_segment_id state =
     (case put_record svc key
             (block_meta_record key request_id prefix_group group_id block_hash placement_node
                placement_level hot_segment_id state) of
        None \<Rightarrow> (-1, svc)
      | Some svc' \<Rightarrow> (0, svc'))"

section \<open>Guarded updates\<close>

definition mem_service_update_block_result ::
  "mem_service \<Rightarrow> cstr \<Rightarrow> u64 \<Rightarrow> mem_service_kvcache_state \<Rightarrow> int \<times> mem_service" where
  "mem_service_update_block_result svc key last_result_segment next_state =
     (case mem_service_find_record svc key of
        None \<Rightarrow> (-1, svc)
      | Some i \<Rightarrow>
          let r = svc_records svc ! i in
          if rec_kind r \<noteq> RECORD_BLOCK_META then (-1, svc)
          else if rec_last_result_segment r \<noteq> 0 \<and> last_result_segment \<le> rec_last_result_segment r
          then (1, svc)
          else (0, write_record i
                  (r \<lparr> rec_last_result_segment := last_result_segment,
                       rec_state := next_state,
                       rec_version := rec_version r + 1 \<rparr>) svc))"

definition prefix_result_stale ::
  "mem_service_block_ctx \<Rightarrow> mem_service_record \<Rightarrow> mem_service_record \<Rightarrow> bool" where
  "prefix_result_stale ctx block_record r \<longleftrightarrow>
     (rec_last_result_segment r \<noteq> 0 \<and>
      strncmp_eq (rec_block_hash r) (rec_block_hash block_record) 96 \<and>
      rec_last_result_segment block_record < rec_last_result_segment r) \<or>
     (rec_last_result_segment r = rec_last_result_segment block_record \<and>
      rec_placement_node r = ctx_placement_node ctx \<and>
      rec_placement_level r = ctx_placement_level ctx \<and>
      rec_hot_segment_id r = rec_hot_segment_id block_record \<and>
      rec_state r = rec_state block_record \<and>
      strncmp_eq (rec_block_hash r) (rec_block_hash block_record) 96)"

definition mem_service_update_prefix_result ::
  "mem_service \<Rightarrow> cstr \<Rightarrow> mem_service_block_ctx \<Rightarrow> mem_service_record \<Rightarrow> int \<times> mem_service" where
  "mem_service_update_prefix_result svc key ctx block_record =
     (case mem_service_find_record svc key of
        None \<Rightarrow> (-1, svc)
      | Some i \<Rightarrow>
          let r = svc_records svc ! i in
          if rec_kind r \<noteq> RECORD_REQUEST_PREFIX then (-1, svc)
          else if prefix_result_stale ctx block_record r then (1, svc)
          else (0, write_record i
                  (r \<lparr> rec_placement_node := rec_placement_node block_record,
                       rec_placement_level := rec_placement_level block_record,
                       rec_hot_segment_id := rec_hot_segment_id block_record,
                       rec_state := rec_state block_record,
                       rec_last_result_segment := rec_last_result_segment block_record,
                       rec_block_hash := snprintf_s 96 (rec_block_hash block_record),
                       rec_version := rec_version r + 1 \<rparr>) svc))"

definition mem_service_update_prefix_group_from_block ::
  "mem_service \<Rightarrow> mem_service_block_ctx \<Rightarrow> mem_service_record \<Rightarrow> int \<times> mem_service" where
  "mem_service_update_prefix_group_from_block svc ctx block_record =
     (case mem_service_build_group_key ctx 96 of
        None \<Rightarrow> (-1, svc)
      | Some group_key \<Rightarrow>
          mem_service_put_prefix_group svc group_key (ctx_request_id ctx) (ctx_group_id ctx)
            (rec_block_hash block_record) (rec_placement_node block_record)
            (rec_placement_level block_record) (rec_hot_segment_id block_record)
            (rec_state block_record) (rec_last_result_segment block_record))"

definition mem_service_update_block_view ::
  "mem_service \<Rightarrow> cstr \<Rightarrow> u64 \<Rightarrow> u32 \<Rightarrow> int \<times> mem_service" where
  "mem_service_update_block_view svc key hot_segment_id placement_level =
     (case mem_service_find_record svc key of
        None \<Rightarrow> (-1, svc)
      | Some i \<Rightarrow>
          let r = svc_records svc ! i in
          if rec_kind r \<noteq> RECORD_BLOCK_META then (-1, svc)
          else if rec_hot_segment_id r = hot_segment_id \<and> rec_placement_level r = placement_level
          then (1, svc)
          else (0, write_record i
                  (r \<lparr> rec_hot_segment_id := hot_segment_id,
                       rec_placement_level := placement_level,
                       rec_version := rec_version r + 1 \<rparr>) svc))"

definition mem_service_update_block_owner ::
  "mem_service \<Rightarrow> cstr \<Rightarrow> u32 \<Rightarrow> u32 \<Rightarrow> u64 \<Rightarrow> int \<times> mem_service" where
  "mem_service_update_block_owner svc key placement_node placement_level hot_segment_id =
     (case mem_service_find_record svc key of
        None \<Rightarrow> (-1, svc)
      | Some i \<Rightarrow>
          let r = svc_records svc ! i in
          if rec_kind r \<noteq> RECORD_BLOCK_META then (-1, svc)
          else if rec_placement_node r = placement_node \<and> rec_placement_level r = placement_level \<and>
                  rec_hot_segment_id r = hot_segment_id
          then (1, svc)
          else (0, write_record i
                  (r \<lparr> rec_placement_node := placement_node,
                       rec_placement_level := placement_level,
                       rec_hot_segment_id := hot_segment_id,
                       rec_version := rec_version r + 1 \<rparr>) svc))"

section \<open>Views of the three records\<close>

definition mem_service_prefix_matches_block_meta ::
  "mem_service_record \<Rightarrow> mem_service_record \<Rightarrow> bool" where
  "mem_service_prefix_matches_block_meta prefix_meta block_meta \<longleftrightarrow>
     \<not> (rec_kind prefix_meta \<noteq> RECORD_REQUEST_PREFIX \<or> rec_kind block_meta \<noteq> RECORD_BLOCK_META) \<and>
     rec_last_result_segment prefix_meta \<noteq> 0 \<and>
     rec_last_result_segment block_meta \<noteq> 0 \<and>
     strncmp_eq (rec_block_hash prefix_meta) (rec_block_hash block_meta) 96 \<and>
     rec_hot_segment_id prefix_meta = rec_hot_segment_id block_meta \<and>
     rec_placement_node prefix_meta = rec_placement_node block_meta \<and>
     rec_placement_level prefix_meta = rec_placement_level block_meta \<and>
     rec_state prefix_meta = rec_state block_meta"

definition mem_service_group_covers_blocks ::
  "mem_service_record \<Rightarrow> mem_service_record \<Rightarrow> mem_service_record \<Rightarrow> bool" where
  "mem_service_group_covers_blocks group_meta primary_block_meta aux_block_meta \<longleftrightarrow>
     \<not> (rec_kind group_meta \<noteq> RECORD_PREFIX_GROUP \<or>
        rec_kind primary_block_meta \<noteq> RECORD_BLOCK_META \<or>
        rec_kind aux_block_meta \<noteq> RECORD_BLOCK_META) \<and>
     rec_member_count group_meta \<ge> 2 \<and>
     rec_last_result_segment group_meta \<noteq> 0 \<and>
     mem_service_record_has_member group_meta (rec_block_hash primary_block_meta) \<and>
     mem_service_record_has_member group_meta (rec_block_hash aux_block_meta)"

fun mem_service_kvcache_state_name :: "mem_service_kvcache_state \<Rightarrow> cstr" where
  "mem_service_kvcache_state_name KVCACHE_STATE_MISSING = ''missing''"
| "mem_service_kvcache_state_name KVCACHE_STATE_FILLED = ''filled''"
| "mem_service_kvcache_state_name KVCACHE_STATE_HOT = ''hot''"
| "mem_service_kvcache_state_name KVCACHE_STATE_RELOADED = ''reloaded''"
| "mem_service_kvcache_state_name (KVCACHE_STATE_OTHER n) = ''unknown''"

section \<open>Composed operations\<close>

text \<open>Each \<open>case\<close> on a return code is one \<open>if (... != 0) return -1;\<close> of the source.\<close>

definition mem_service_bootstrap_kvcache ::
  "mem_service \<Rightarrow> mem_service_block_ctx \<Rightarrow> int \<times> mem_service \<times> mem_service_record option" where
  "mem_service_bootstrap_kvcache svc ctx =
     (case (mem_service_build_prefix_key ctx 96, mem_service_build_group_key ctx 96,
            mem_service_build_block_key ctx 96) of
        (Some prefix_key, Some group_key, Some block_key) \<Rightarrow>
          (case mem_service_put_prefix_group svc group_key (ctx_request_id ctx) (ctx_group_id ctx)
                  (ctx_block_hash ctx) (ctx_placement_node ctx) (ctx_placement_level ctx)
                  (ctx_hot_segment_id ctx) KVCACHE_STATE_FILLED 0 of (rc1, svc1) \<Rightarrow>
           if rc1 \<noteq> 0 then (-1, svc1, None) else
           case mem_service_put_request_prefix svc1 prefix_key (ctx_request_id ctx)
                  (ctx_prefix_group ctx) (ctx_group_id ctx) (ctx_block_hash ctx) of (rc2, svc2) \<Rightarrow>
           if rc2 \<noteq> 0 then (-1, svc2, None) else
           case mem_service_put_block_meta svc2 block_key (ctx_request_id ctx) (ctx_prefix_group ctx)
                  (ctx_group_id ctx) (ctx_block_hash ctx) (ctx_placement_node ctx)
                  (ctx_placement_level ctx) (ctx_hot_segment_id ctx) KVCACHE_STATE_FILLED of
             (rc3, svc3) \<Rightarrow>
           if rc3 \<noteq> 0 then (-1, svc3, None) else
           case mem_service_update_block_result svc3 block_key (ctx_result_segment_id ctx)
                  KVCACHE_STATE_HOT of (rc4, svc4) \<Rightarrow>
           if rc4 \<noteq> 0 then (-1, svc4, None) else
           case mem_service_get_record svc4 block_key of
             None \<Rightarrow> (-1, svc4, None)
           | Some resolved \<Rightarrow>
               (case mem_service_update_prefix_group_from_block svc4 ctx resolved of (rc5, svc5) \<Rightarrow>
                if rc5 \<noteq> 0 then (-1, svc5, None) else
                case mem_service_update_prefix_result svc5 prefix_key ctx resolved of (rc6, svc6) \<Rightarrow>
                if rc6 \<noteq> 0 then (-1, svc6, None) else
                case mem_service_get_record svc6 block_key of
                  None \<Rightarrow> (-1, svc6, None)
                | Some resolved' \<Rightarrow> (0, svc6, Some resolved')))
      | _ \<Rightarrow> (-1, svc, None))"

definition mem_service_update_prefix_metadata ::
  "mem_service \<Rightarrow> mem_service_block_ctx \<Rightarrow> mem_service_record \<Rightarrow>
   int \<times> mem_service \<times> mem_service_record option" where
  "mem_service_update_prefix_metadata svc ctx block_record =
     (case mem_service_build_prefix_key ctx 96 of
        None \<Rightarrow> (-1, svc, None)
      | Some prefix_key \<Rightarrow>
          (case mem_service_update_prefix_result svc prefix_key ctx block_record of (rc, svc1) \<Rightarrow>
           if rc \<noteq> 0 then (rc, svc1, None) else
           case mem_service_update_prefix_group_from_block svc1 ctx block_record of (rc2, svc2) \<Rightarrow>
           if rc2 \<noteq> 0 then (-1, svc2, None) else
           case mem_service_get_record svc2 prefix_key of
             None \<Rightarrow> (-1, svc2, None)
           | Some resolved \<Rightarrow> (0, svc2, Some resolved)))"

definition mem_service_get_prefix_group_metadata ::
  "mem_service \<Rightarrow> mem_service_block_ctx \<Rightarrow> mem_service_record option" where
  "mem_service_get_prefix_group_metadata svc ctx =
     (case mem_service_build_group_key ctx 96 of
        None \<Rightarrow> None | Some group_key \<Rightarrow> mem_service_get_record svc group_key)"

text \<open>The three operations on an owned block share their frame: build the block key, check that
  the block exists and is placed where the caller believes, run the update, re-read the
  block and push it into the group. The frame is written once, with the update as its
  argument.\<close>

definition with_owned_block ::
  "mem_service \<Rightarrow> mem_service_block_ctx \<Rightarrow> (mem_service \<Rightarrow> cstr \<Rightarrow> int \<times> mem_service) \<Rightarrow>
   int \<times> mem_service \<times> mem_service_record option" where
  "with_owned_block svc ctx update =
     (case mem_service_build_block_key ctx 96 of
        None \<Rightarrow> (-1, svc, None)
      | Some block_key \<Rightarrow>
          (case mem_service_get_record svc block_key of
             None \<Rightarrow> (-1, svc, None)
           | Some current \<Rightarrow>
               if rec_placement_node current \<noteq> ctx_placement_node ctx then (2, svc, None)
               else case update svc block_key of (rc, svc1) \<Rightarrow>
               if rc \<noteq> 0 then (rc, svc1, None) else
               case mem_service_get_record svc1 block_key of
                 None \<Rightarrow> (-1, svc1, None)
               | Some resolved \<Rightarrow>
                   (case mem_service_update_prefix_group_from_block svc1 ctx resolved of (rc2, svc2) \<Rightarrow>
                    if rc2 \<noteq> 0 then (-1, svc2, None) else (0, svc2, Some resolved))))"

definition mem_service_apply_block_result ::
  "mem_service \<Rightarrow> mem_service_block_ctx \<Rightarrow> u64 \<Rightarrow> mem_service_kvcache_state \<Rightarrow>
   int \<times> mem_service \<times> mem_service_record option" where
  "mem_service_apply_block_result svc ctx result_segment_id next_state =
     with_owned_block svc ctx
       (\<lambda>s key. mem_service_update_block_result s key result_segment_id next_state)"

definition mem_service_rebind_block_view ::
  "mem_service \<Rightarrow> mem_service_block_ctx \<Rightarrow> u64 \<Rightarrow> u32 \<Rightarrow>
   int \<times> mem_service \<times> mem_service_record option" where
  "mem_service_rebind_block_view svc ctx hot_segment_id placement_level =
     with_owned_block svc ctx
       (\<lambda>s key. mem_service_update_block_view s key hot_segment_id placement_level)"

definition mem_service_handoff_block_owner ::
  "mem_service \<Rightarrow> mem_service_block_ctx \<Rightarrow> u32 \<Rightarrow> u32 \<Rightarrow> u64 \<Rightarrow>
   int \<times> mem_service \<times> mem_service_record option" where
  "mem_service_handoff_block_owner svc ctx placement_node placement_level hot_segment_id =
     with_owned_block svc ctx
       (\<lambda>s key. mem_service_update_block_owner s key placement_node placement_level hot_segment_id)"

section \<open>Lemmas on the writers\<close>

definition ctx_ok :: "mem_service_block_ctx \<Rightarrow> bool" where
  "ctx_ok ctx \<longleftrightarrow>
     length (ctx_request_id ctx) < 64 \<and> length (ctx_prefix_group ctx) < 64 \<and>
     length (ctx_group_id ctx) < 64 \<and> length (ctx_block_hash ctx) < 96"

lemma fits_new_records:
  "length key < 96 \<Longrightarrow> record_fits key (request_prefix_record key rq pg gi bh)"
  "length key < 96 \<Longrightarrow> record_fits key (block_meta_record key rq pg gi bh n l h st)"
  "length key < 96 \<Longrightarrow> record_fits key (new_group_record key rq gi)"
  by (simp_all add: record_fits_def record_ok_def request_prefix_record_def block_meta_record_def
      new_group_record_def MEM_SERVICE_MAX_GROUP_MEMBERS_def list_all_iff)

lemma put_request_prefix_spec:
  assumes "records_wf svc" "length key < 96"
    and "mem_service_put_request_prefix svc key rq pg gi bh = (rc, svc')"
  shows "records_wf svc'" "svc_rest svc' = svc_rest svc" "rc \<noteq> 0 \<Longrightarrow> svc' = svc"
    "rc = 0 \<Longrightarrow> record_map svc' = (record_map svc)(key \<mapsto> request_prefix_record key rq pg gi bh)"
  using assms(3) store.put_inv [OF assms(1) fits_new_records(1) [OF assms(2)]]
    store.put_get [OF assms(1) fits_new_records(1) [OF assms(2)]] assms(1) svc_rest_put
  by (auto simp: mem_service_put_request_prefix_def split: option.splits)

lemma put_block_meta_spec:
  assumes "records_wf svc" "length key < 96"
    and "mem_service_put_block_meta svc key rq pg gi bh n l h st = (rc, svc')"
  shows "records_wf svc'" "svc_rest svc' = svc_rest svc" "rc \<noteq> 0 \<Longrightarrow> svc' = svc"
    "rc = 0 \<Longrightarrow> record_map svc' = (record_map svc)(key \<mapsto> block_meta_record key rq pg gi bh n l h st)"
  using assms(3) store.put_inv [OF assms(1) fits_new_records(2) [OF assms(2)]]
    store.put_get [OF assms(1) fits_new_records(2) [OF assms(2)]] assms(1) svc_rest_put
  by (auto simp: mem_service_put_block_meta_def split: option.splits)

text \<open>What a successful group write leaves under the group key.\<close>

definition group_holds ::
  "mem_service_record \<Rightarrow> cstr \<Rightarrow> u32 \<Rightarrow> u32 \<Rightarrow> u64 \<Rightarrow> mem_service_kvcache_state \<Rightarrow> u64 \<Rightarrow> bool" where
  "group_holds g block_hash node level hot st lres \<longleftrightarrow>
     rec_kind g = RECORD_PREFIX_GROUP \<and> block_hash \<in> set (members_of g) \<and>
     \<not> group_placement_differs g node level hot st lres"

lemma put_prefix_group_at_spec:
  assumes wf: "records_wf svc" and find: "mem_service_find_record svc key = Some i"
    and bh: "length bh < 96"
    and run: "put_prefix_group_at svc i is_new bh node level hot st lres = (rc, svc')"
  shows "records_wf svc' \<and> svc_rest svc' = svc_rest svc \<and> (rc \<noteq> 0 \<longrightarrow> svc' = svc) \<and>
    (rc = 0 \<longrightarrow> rec_kind (svc_records svc ! i) = RECORD_PREFIX_GROUP \<and>
       (\<exists>g. record_map svc' = (record_map svc)(key \<mapsto> g) \<and> group_holds g bh node level hot st lres))"
proof -
  let ?r = "svc_records svc ! i"
  note D = find_record_SomeD [OF wf find]
  obtain rc1 r1 where add: "mem_service_add_member ?r bh = (rc1, r1)" by fastforce
  note A = add_member_spec [OF D(4) bh add]
  show ?thesis
  proof (cases "rec_kind ?r = RECORD_PREFIX_GROUP \<and> rc1 = 0")
    case False
    with run wf have "rc = -1 \<and> svc' = svc"
      unfolding put_prefix_group_at_def Let_def add by (auto split: if_splits)
    with wf show ?thesis by simp
  next
    case True
    define r2 where "r2 = (if group_placement_differs r1 node level hot st lres then r1
       \<lparr> rec_placement_node := node, rec_placement_level := level, rec_hot_segment_id := hot,
         rec_state := st, rec_last_result_segment := lres \<rparr> else r1)"
    define r3 where "r3 = (if (is_new \<or> group_placement_differs r1 node level hot st lres) \<and> \<not> is_new \<and>
       rec_version r2 > 0 then r2 \<lparr> rec_version := rec_version r2 + 1 \<rparr> else r2)"
    have "put_prefix_group_at svc i is_new bh node level hot st lres = (0, write_record i r3 svc)"
      unfolding put_prefix_group_at_def Let_def add r3_def r2_def using True by simp
    with run have svc': "rc = 0" "svc' = write_record i r3 svc" by simp_all
    have r3: "rec_in_use r3" "rec_key r3 = key" "record_ok r3"
      using A D by (auto simp: r3_def r2_def record_ok_def)
    have "members_of r3 = members_of r1" "rec_kind r3 = rec_kind r1"
      by (simp_all add: r3_def r2_def)
    moreover have "\<not> group_placement_differs r3 node level hot st lres"
      by (auto simp: r3_def r2_def group_placement_differs_def)
    moreover have "bh \<in> set (members_of r1)" using A True by auto
    ultimately have "group_holds r3 bh node level hot st lres"
      using A True by (simp add: group_holds_def)
    with write_found_record [OF wf find r3] True show ?thesis
      by (auto simp: svc' svc_frame)
  qed
qed

lemma put_prefix_group_spec:
  assumes wf: "records_wf svc" and key: "length key < 96" and bh: "length bh < 96"
    and run: "mem_service_put_prefix_group svc key rq gi bh node level hot st lres = (rc, svc')"
  shows "records_wf svc'" "svc_rest svc' = svc_rest svc" "rc \<noteq> 0 \<Longrightarrow> svc' = svc"
    "rc = 0 \<Longrightarrow> \<exists>g. record_map svc' = (record_map svc)(key \<mapsto> g) \<and> group_holds g bh node level hot st lres"
    "rc = 0 \<Longrightarrow> record_map svc key = Some old \<Longrightarrow> rec_kind old = RECORD_PREFIX_GROUP"
proof -
  have "records_wf svc' \<and> svc_rest svc' = svc_rest svc \<and> (rc \<noteq> 0 \<longrightarrow> svc' = svc) \<and>
    (rc = 0 \<longrightarrow>
      (\<exists>g. record_map svc' = (record_map svc)(key \<mapsto> g) \<and> group_holds g bh node level hot st lres)) \<and>
    (rc = 0 \<longrightarrow> record_map svc key = Some old \<longrightarrow> rec_kind old = RECORD_PREFIX_GROUP)"
  proof (cases "mem_service_find_record svc key")
    case (Some i)
    with put_prefix_group_at_spec [OF wf Some bh] run show ?thesis
      by (auto simp: mem_service_put_prefix_group_def)
  next
    case None
    obtain a svc1 where alloc: "mem_service_alloc_record svc = (a, svc1)" by fastforce
    show ?thesis
    proof (cases a)
      case None': None
      with alloc run None wf alloc_record_None [of svc svc1] show ?thesis
        by (auto simp: mem_service_put_prefix_group_def)
    next
      case (Some i)
      let ?n = "new_group_record key rq gi" and ?s = "write_record i (new_group_record key rq gi) svc1"
      have n: "rec_in_use ?n" "rec_key ?n = key" "record_ok ?n"
        using fits_new_records(3) [OF key] by (auto simp: record_fits_def)
      note W = write_alloc_record [OF wf None alloc [unfolded Some] n]
      note A = alloc_record_SomeD [OF alloc [unfolded Some]]
      have at: "svc_records ?s ! i = ?n" "i < length (svc_records ?s)" using A by simp_all
      then have find: "mem_service_find_record ?s key = Some i"
        using find_record_at [OF W(1), of i] n by simp
      have run': "put_prefix_group_at ?s i True bh node level hot st lres = (rc, svc')"
        using run None alloc Some by (simp add: mem_service_put_prefix_group_def)
      note P = put_prefix_group_at_spec [OF W(1) find bh run']
      have "rc = 0"
        using run' at(1) bh by (auto simp: put_prefix_group_at_def Let_def new_group_record_def
            mem_service_add_member_def mem_service_record_has_member_def
            MEM_SERVICE_MAX_GROUP_MEMBERS_def split: prod.splits if_splits)
      moreover have "svc_rest ?s = svc_rest svc"
        using svc_rest_alloc [OF alloc] by (simp add: svc_frame)
      moreover have "record_map svc key = None" using None by simp
      ultimately show ?thesis using P W(2) by auto
    qed
  qed
  then show "records_wf svc'" "svc_rest svc' = svc_rest svc" "rc \<noteq> 0 \<Longrightarrow> svc' = svc"
    "rc = 0 \<Longrightarrow> \<exists>g. record_map svc' = (record_map svc)(key \<mapsto> g) \<and> group_holds g bh node level hot st lres"
    "rc = 0 \<Longrightarrow> record_map svc key = Some old \<Longrightarrow> rec_kind old = RECORD_PREFIX_GROUP"
    by blast+
qed

section \<open>Lemmas on the guarded updates\<close>

text \<open>The four updates are instances of the guarded update of the keyed store.\<close>

definition block_result_upd :: "u64 \<Rightarrow> mem_service_kvcache_state \<Rightarrow> mem_service_record \<Rightarrow> mem_service_record" where
  "block_result_upd seg st r = r \<lparr> rec_last_result_segment := seg, rec_state := st,
     rec_version := rec_version r + 1 \<rparr>"

definition block_view_upd :: "u64 \<Rightarrow> u32 \<Rightarrow> mem_service_record \<Rightarrow> mem_service_record" where
  "block_view_upd hot level r = r \<lparr> rec_hot_segment_id := hot, rec_placement_level := level,
     rec_version := rec_version r + 1 \<rparr>"

definition block_owner_upd :: "u32 \<Rightarrow> u32 \<Rightarrow> u64 \<Rightarrow> mem_service_record \<Rightarrow> mem_service_record" where
  "block_owner_upd node level hot r = r \<lparr> rec_placement_node := node, rec_placement_level := level,
     rec_hot_segment_id := hot, rec_version := rec_version r + 1 \<rparr>"

definition prefix_result_upd :: "mem_service_record \<Rightarrow> mem_service_record \<Rightarrow> mem_service_record" where
  "prefix_result_upd b r = r \<lparr> rec_placement_node := rec_placement_node b,
     rec_placement_level := rec_placement_level b, rec_hot_segment_id := rec_hot_segment_id b,
     rec_state := rec_state b, rec_last_result_segment := rec_last_result_segment b,
     rec_block_hash := snprintf_s 96 (rec_block_hash b), rec_version := rec_version r + 1 \<rparr>"

lemmas block_upd_defs = block_result_upd_def block_view_upd_def block_owner_upd_def

abbreviation is_block :: "mem_service_record \<Rightarrow> bool" where
  "is_block r \<equiv> rec_kind r = RECORD_BLOCK_META"

lemma update_block_result_guarded:
  "mem_service_update_block_result svc key seg st =
     store.guarded_update is_block
       (\<lambda>r. rec_last_result_segment r \<noteq> 0 \<and> seg \<le> rec_last_result_segment r)
       (block_result_upd seg st) svc key"
  by (simp add: mem_service_update_block_result_def store.guarded_update_def put_record_present
      block_result_upd_def Let_def split: option.splits)

lemma update_block_view_guarded:
  "mem_service_update_block_view svc key hot level =
     store.guarded_update is_block
       (\<lambda>r. rec_hot_segment_id r = hot \<and> rec_placement_level r = level)
       (block_view_upd hot level) svc key"
  by (simp add: mem_service_update_block_view_def store.guarded_update_def put_record_present
      block_view_upd_def Let_def split: option.splits)

lemma update_block_owner_guarded:
  "mem_service_update_block_owner svc key node level hot =
     store.guarded_update is_block
       (\<lambda>r. rec_placement_node r = node \<and> rec_placement_level r = level \<and> rec_hot_segment_id r = hot)
       (block_owner_upd node level hot) svc key"
  by (simp add: mem_service_update_block_owner_def store.guarded_update_def put_record_present
      block_owner_upd_def Let_def split: option.splits)

lemma update_prefix_result_guarded:
  "mem_service_update_prefix_result svc key ctx b =
     store.guarded_update (\<lambda>r. rec_kind r = RECORD_REQUEST_PREFIX) (prefix_result_stale ctx b)
       (prefix_result_upd b) svc key"
  by (simp add: mem_service_update_prefix_result_def store.guarded_update_def put_record_present
      prefix_result_upd_def Let_def split: option.splits)

lemma upd_fits:
  "record_fits k r \<Longrightarrow> record_fits k (block_result_upd seg st r)"
  "record_fits k r \<Longrightarrow> record_fits k (block_view_upd hot level r)"
  "record_fits k r \<Longrightarrow> record_fits k (block_owner_upd node level hot r)"
  "record_fits k r \<Longrightarrow> record_fits k (prefix_result_upd b r)"
  by (auto simp: record_fits_def record_ok_def block_upd_defs prefix_result_upd_def)

lemma upd_fits_all:
  "\<forall>r. record_fits k r \<longrightarrow> record_fits k (block_result_upd seg st r)"
  "\<forall>r. record_fits k r \<longrightarrow> record_fits k (prefix_result_upd b r)"
  using upd_fits by blast+

lemma guarded_update_rest:
  "store.guarded_update suitable stale upd svc key = (rc, svc') \<Longrightarrow> svc_rest svc' = svc_rest svc"
  by (auto simp: store.guarded_update_def dest: svc_rest_put split: option.splits if_splits)

lemma update_prefix_group_from_block_spec:
  assumes wf: "records_wf svc" and b: "length (rec_block_hash b) < 96"
    and run: "mem_service_update_prefix_group_from_block svc ctx b = (rc, svc')"
  shows "records_wf svc'" "svc_rest svc' = svc_rest svc" "rc \<noteq> 0 \<Longrightarrow> svc' = svc"
    "rc = 0 \<Longrightarrow> \<exists>gk g. mem_service_build_group_key ctx 96 = Some gk \<and>
       record_map svc' = (record_map svc)(gk \<mapsto> g) \<and>
       group_holds g (rec_block_hash b) (rec_placement_node b) (rec_placement_level b)
         (rec_hot_segment_id b) (rec_state b) (rec_last_result_segment b) \<and>
       (\<forall>old. record_map svc gk = Some old \<longrightarrow> rec_kind old = RECORD_PREFIX_GROUP)"
proof -
  have "records_wf svc' \<and> svc_rest svc' = svc_rest svc \<and> (rc \<noteq> 0 \<longrightarrow> svc' = svc) \<and>
    (rc = 0 \<longrightarrow> (\<exists>gk g. mem_service_build_group_key ctx 96 = Some gk \<and>
       record_map svc' = (record_map svc)(gk \<mapsto> g) \<and>
       group_holds g (rec_block_hash b) (rec_placement_node b) (rec_placement_level b)
         (rec_hot_segment_id b) (rec_state b) (rec_last_result_segment b) \<and>
       (\<forall>old. record_map svc gk = Some old \<longrightarrow> rec_kind old = RECORD_PREFIX_GROUP)))"
  proof (cases "mem_service_build_group_key ctx 96")
    case None
    with run wf show ?thesis by (auto simp: mem_service_update_prefix_group_from_block_def)
  next
    case (Some gk)
    then have gk: "length gk < 96" using build_key_SomeD(2) by blast
    from Some run have run': "mem_service_put_prefix_group svc gk (ctx_request_id ctx)
        (ctx_group_id ctx) (rec_block_hash b) (rec_placement_node b) (rec_placement_level b)
        (rec_hot_segment_id b) (rec_state b) (rec_last_result_segment b) = (rc, svc')"
      by (simp add: mem_service_update_prefix_group_from_block_def)
    from put_prefix_group_spec [OF wf gk b run'] Some show ?thesis by blast
  qed
  then show "records_wf svc'" "svc_rest svc' = svc_rest svc" "rc \<noteq> 0 \<Longrightarrow> svc' = svc"
    "rc = 0 \<Longrightarrow> \<exists>gk g. mem_service_build_group_key ctx 96 = Some gk \<and>
       record_map svc' = (record_map svc)(gk \<mapsto> g) \<and>
       group_holds g (rec_block_hash b) (rec_placement_node b) (rec_placement_level b)
         (rec_hot_segment_id b) (rec_state b) (rec_last_result_segment b) \<and>
       (\<forall>old. record_map svc gk = Some old \<longrightarrow> rec_kind old = RECORD_PREFIX_GROUP)"
    by blast+
qed

text \<open>When a group write cannot fail: the group is absent and a slot is free, or it is a group
  that already lists the block or has room for one more.\<close>

definition group_accepts :: "mem_service \<Rightarrow> cstr \<Rightarrow> cstr \<Rightarrow> bool" where
  "group_accepts svc gk bh =
     (case record_map svc gk of
        None \<Rightarrow> used_records svc < MEM_SERVICE_MAX_RECORDS
      | Some g \<Rightarrow> rec_kind g = RECORD_PREFIX_GROUP \<and>
          (bh \<in> set (members_of g) \<or> length (members_of g) < 4))"

lemma put_prefix_group_succeeds:
  assumes wf: "records_wf svc" and bh: "length bh < 96" and acc: "group_accepts svc key bh"
  shows "fst (mem_service_put_prefix_group svc key rq gi bh node level hot st lres) = 0"
proof (cases "mem_service_find_record svc key")
  case (Some i)
  obtain rc1 r1 where add: "mem_service_add_member (svc_records svc ! i) bh = (rc1, r1)" by fastforce
  from Some acc have g: "rec_kind (svc_records svc ! i) = RECORD_PREFIX_GROUP"
    "bh \<in> set (members_of (svc_records svc ! i)) \<or> length (members_of (svc_records svc ! i)) < 4"
    by (simp_all add: group_accepts_def)
  with add_member_spec [OF find_record_SomeD(4) [OF wf Some] bh add] have "rc1 = 0" by auto
  with g add Some show ?thesis
    by (simp add: mem_service_put_prefix_group_def put_prefix_group_at_def Let_def)
next
  case None
  with acc have "used_records svc < MEM_SERVICE_MAX_RECORDS" by (simp add: group_accepts_def)
  with alloc_record_None_iff [of svc] wf obtain i svc1 where
    alloc: "mem_service_alloc_record svc = (Some i, svc1)"
    by (cases "mem_service_alloc_record svc") (auto simp: records_wf_def)
  note A = alloc_record_SomeD [OF alloc]
  have i: "i < length (svc_records svc1)" using A(1) by (simp add: A(3))
  have "mem_service_add_member (new_group_record key rq gi) bh = (0, (new_group_record key rq gi)
      \<lparr> rec_member_block_hashes := (replicate 4 [])[0 := bh], rec_member_count := 1 \<rparr>)"
    using bh by (simp add: mem_service_add_member_def mem_service_record_has_member_def
        new_group_record_def MEM_SERVICE_MAX_GROUP_MEMBERS_def)
  with None alloc i show ?thesis
    by (simp add: mem_service_put_prefix_group_def put_prefix_group_at_def Let_def
        new_group_record_def)
qed

section \<open>Operations on an owned block\<close>

text \<open>The outcome of an operation on an owned block, for any guarded update of the block: the
  caller's view of the owner decides first, then the kind of the record, then staleness; only then
  does the block change, and the group follows it while every other record stays. When the group
  cannot take the block, the call answers -1 and leaves the block changed.\<close>

definition owned_block_outcome ::
  "mem_service \<Rightarrow> mem_service_block_ctx \<Rightarrow> (mem_service_record \<Rightarrow> bool) \<Rightarrow>
   (mem_service_record \<Rightarrow> mem_service_record) \<Rightarrow> int \<Rightarrow> mem_service \<Rightarrow> mem_service_record option \<Rightarrow> bool" where
  "owned_block_outcome svc ctx stale upd rc svc' res \<longleftrightarrow>
     records_wf svc' \<and> svc_rest svc' = svc_rest svc \<and>
     (case mem_service_build_block_key ctx 96 of
        None \<Rightarrow> rc = -1 \<and> svc' = svc
      | Some bk \<Rightarrow>
         (case record_map svc bk of
            None \<Rightarrow> rc = -1 \<and> svc' = svc
          | Some b \<Rightarrow>
              if rec_placement_node b \<noteq> ctx_placement_node ctx then rc = 2 \<and> svc' = svc
              else if \<not> is_block b then rc = -1 \<and> svc' = svc
              else if stale b then rc = 1 \<and> svc' = svc
              else
                rc = 0 \<and> res = Some (upd b) \<and>
                (\<exists>gk g. mem_service_build_group_key ctx 96 = Some gk \<and> gk \<noteq> bk \<and>
                   record_map svc' = (record_map svc)(bk \<mapsto> upd b, gk \<mapsto> g) \<and>
                   group_holds g (rec_block_hash b) (rec_placement_node (upd b)) (rec_placement_level (upd b))
                     (rec_hot_segment_id (upd b)) (rec_state (upd b)) (rec_last_result_segment (upd b)))
                \<or>
                rc = -1 \<and> record_map svc' = (record_map svc)(bk \<mapsto> upd b) \<and>
                (\<forall>gk. mem_service_build_group_key ctx 96 = Some gk \<longrightarrow>
                   \<not> group_accepts svc' gk (rec_block_hash b))))"

lemma update_prefix_group_fails:
  assumes wf: "records_wf svc" and b: "length (rec_block_hash b) < 96"
    and run: "mem_service_update_prefix_group_from_block svc ctx b = (rc, svc')" "rc \<noteq> 0"
    and gk: "mem_service_build_group_key ctx 96 = Some gk"
  shows "\<not> group_accepts svc gk (rec_block_hash b)"
proof
  assume "group_accepts svc gk (rec_block_hash b)"
  note put_prefix_group_succeeds [OF wf b this, of "ctx_request_id ctx" "ctx_group_id ctx" "rec_placement_node b"
      "rec_placement_level b" "rec_hot_segment_id b" "rec_state b" "rec_last_result_segment b"]
  with run gk show False by (simp add: mem_service_update_prefix_group_from_block_def)
qed

lemma block_key_distinct:
  "mem_service_build_prefix_key ctx n = Some pk \<Longrightarrow> mem_service_build_block_key ctx n = Some bk \<Longrightarrow> pk \<noteq> bk"
  "mem_service_build_group_key ctx n = Some gk \<Longrightarrow> mem_service_build_block_key ctx n = Some bk \<Longrightarrow> gk \<noteq> bk"
  by (auto dest!: build_key_SomeD)

lemma with_owned_block_spec:
  assumes wf: "records_wf svc"
    and upd: "update = (\<lambda>s key. store.guarded_update is_block stale upd s key)"
    and fits: "\<And>k r. record_fits k r \<Longrightarrow> record_fits k (upd r)"
    and hash: "\<And>r. rec_block_hash (upd r) = rec_block_hash r"
    and run: "with_owned_block svc ctx update = (rc, svc', res)"
  shows "owned_block_outcome svc ctx stale upd rc svc' res"
proof (cases "mem_service_build_block_key ctx 96")
  case None
  with run wf show ?thesis by (auto simp: with_owned_block_def owned_block_outcome_def)
next
  case (Some bk)
  note bk = Some
  show ?thesis
  proof (cases "record_map svc bk")
    case None
    with run wf bk show ?thesis by (auto simp: with_owned_block_def owned_block_outcome_def)
  next
    case (Some b)
    obtain rc1 svc1 where u: "store.guarded_update is_block stale upd svc bk = (rc1, svc1)" by fastforce
    have "\<forall>r. record_fits bk r \<longrightarrow> record_fits bk (upd r)" using fits by blast
    note G = store.guarded_update_cases [OF wf this u]
    note R = guarded_update_rest [OF u]
    consider (other) "rec_placement_node b \<noteq> ctx_placement_node ctx"
      | (refused) "rec_placement_node b = ctx_placement_node ctx" "rc1 \<noteq> 0"
      | (applied) "rec_placement_node b = ctx_placement_node ctx" "rc1 = 0" by blast
    then show ?thesis
    proof cases
      case other
      with run wf bk Some show ?thesis by (auto simp: with_owned_block_def owned_block_outcome_def)
    next
      case refused
      with run bk Some u have "rc = rc1" "svc' = svc"
        using G(3) by (auto simp: with_owned_block_def upd)
      moreover have "rc1 = (if is_block b then 1 else -1)" "is_block b \<Longrightarrow> stale b"
        using G(4,5,6) Some refused(2) by auto
      ultimately show ?thesis using refused(1) wf bk Some by (simp add: owned_block_outcome_def)
    next
      case applied
      from G(2) [OF applied(2)] Some have b: "is_block b" "\<not> stale b"
        and m1: "record_map svc1 = (record_map svc)(bk \<mapsto> upd b)" by auto
      have "record_map svc1 bk = Some (upd b)" by (simp add: m1)
      then have len: "length (rec_block_hash (upd b)) < 96"
        using get_record_SomeD(3) [OF G(1)] by (simp add: record_ok_def)
      obtain rc2 svc2 where g: "mem_service_update_prefix_group_from_block svc1 ctx (upd b) = (rc2, svc2)"
        by fastforce
      note GS = update_prefix_group_from_block_spec [OF G(1) len g]
      have res: "rc = (if rc2 \<noteq> 0 then -1 else 0)" "svc' = svc2" "rc2 = 0 \<Longrightarrow> res = Some (upd b)"
        using run bk Some applied u g \<open>record_map svc1 bk = Some (upd b)\<close>
        by (auto simp: with_owned_block_def upd split: if_splits)
      show ?thesis
      proof (cases "rc2 = 0")
        case False
        then have "\<forall>gk. mem_service_build_group_key ctx 96 = Some gk \<longrightarrow> \<not> group_accepts svc' gk (rec_block_hash b)"
          using update_prefix_group_fails [OF G(1) len g] GS(3) res(2) by (simp add: hash)
        with False res GS(1-3) R bk Some applied b m1 show ?thesis by (simp add: owned_block_outcome_def)
      next
        case True
        from GS(4) [OF True] obtain gk g where gk: "mem_service_build_group_key ctx 96 = Some gk"
          and m: "record_map svc2 = (record_map svc1)(gk \<mapsto> g)"
          and h: "group_holds g (rec_block_hash (upd b)) (rec_placement_node (upd b))
             (rec_placement_level (upd b)) (rec_hot_segment_id (upd b)) (rec_state (upd b))
             (rec_last_result_segment (upd b))" by blast
        from m m1 have "record_map svc2 = (record_map svc)(bk \<mapsto> upd b, gk \<mapsto> g)" by simp
        with True res GS(1,2) R bk gk Some applied b h block_key_distinct(2) [OF gk bk] show ?thesis
          by (simp add: owned_block_outcome_def hash) blast
      qed
    qed
  qed
qed

section \<open>Bootstrap\<close>

lemma bootstrap_zeroE:
  assumes "mem_service_bootstrap_kvcache svc ctx = (0, svc', res)"
  obtains pk gk bk svc1 svc2 svc3 svc4 b svc5 where
    "mem_service_build_prefix_key ctx 96 = Some pk" "mem_service_build_group_key ctx 96 = Some gk"
    "mem_service_build_block_key ctx 96 = Some bk"
    "mem_service_put_prefix_group svc gk (ctx_request_id ctx) (ctx_group_id ctx)
       (ctx_block_hash ctx) (ctx_placement_node ctx) (ctx_placement_level ctx)
       (ctx_hot_segment_id ctx) KVCACHE_STATE_FILLED 0 = (0, svc1)"
    "mem_service_put_request_prefix svc1 pk (ctx_request_id ctx) (ctx_prefix_group ctx)
       (ctx_group_id ctx) (ctx_block_hash ctx) = (0, svc2)"
    "mem_service_put_block_meta svc2 bk (ctx_request_id ctx) (ctx_prefix_group ctx)
       (ctx_group_id ctx) (ctx_block_hash ctx) (ctx_placement_node ctx) (ctx_placement_level ctx)
       (ctx_hot_segment_id ctx) KVCACHE_STATE_FILLED = (0, svc3)"
    "mem_service_update_block_result svc3 bk (ctx_result_segment_id ctx) KVCACHE_STATE_HOT = (0, svc4)"
    "mem_service_get_record svc4 bk = Some b"
    "mem_service_update_prefix_group_from_block svc4 ctx b = (0, svc5)"
    "mem_service_update_prefix_result svc5 pk ctx b = (0, svc')"
    "res = mem_service_get_record svc' bk"
  using assms
  by (auto simp: mem_service_bootstrap_kvcache_def split: option.splits prod.splits if_splits)

text \<open>The block record a bootstrap leaves behind.\<close>

definition bootstrapped_block :: "mem_service_block_ctx \<Rightarrow> cstr \<Rightarrow> mem_service_record" where
  "bootstrapped_block ctx bk =
     block_result_upd (ctx_result_segment_id ctx) KVCACHE_STATE_HOT
       (block_meta_record bk (ctx_request_id ctx) (ctx_prefix_group ctx) (ctx_group_id ctx)
          (ctx_block_hash ctx) (ctx_placement_node ctx) (ctx_placement_level ctx)
          (ctx_hot_segment_id ctx) KVCACHE_STATE_FILLED)"

definition bootstrapped_prefix :: "mem_service_block_ctx \<Rightarrow> cstr \<Rightarrow> mem_service_record" where
  "bootstrapped_prefix ctx pk =
     request_prefix_record pk (ctx_request_id ctx) (ctx_prefix_group ctx) (ctx_group_id ctx)
       (ctx_block_hash ctx)"

lemma bootstrapped_sel:
  "length (ctx_block_hash ctx) < 96 \<Longrightarrow> rec_block_hash (bootstrapped_block ctx bk) = ctx_block_hash ctx"
  "rec_state (bootstrapped_block ctx bk) = KVCACHE_STATE_HOT"
  "rec_version (bootstrapped_block ctx bk) = 2"
  "rec_kind (bootstrapped_block ctx bk) = RECORD_BLOCK_META"
  "rec_last_result_segment (bootstrapped_block ctx bk) = ctx_result_segment_id ctx"
  "rec_placement_node (bootstrapped_block ctx bk) = ctx_placement_node ctx"
  "rec_kind (bootstrapped_prefix ctx pk) = RECORD_REQUEST_PREFIX"
  "rec_last_result_segment (bootstrapped_prefix ctx pk) = 0"
  "rec_state (bootstrapped_prefix ctx pk) = KVCACHE_STATE_MISSING"
  by (simp_all add: bootstrapped_block_def bootstrapped_prefix_def block_result_upd_def
      block_meta_record_def request_prefix_record_def)

text \<open>The records after a successful bootstrap.\<close>

lemma bootstrap_maps:
  assumes wf: "records_wf svc" and ctx: "ctx_ok ctx"
    and run: "mem_service_bootstrap_kvcache svc ctx = (0, svc', res)"
  obtains pk gk bk g where
    "mem_service_build_prefix_key ctx 96 = Some pk" "mem_service_build_group_key ctx 96 = Some gk"
    "mem_service_build_block_key ctx 96 = Some bk" "pk \<noteq> gk" "pk \<noteq> bk" "gk \<noteq> bk"
    "records_wf svc'" "svc_rest svc' = svc_rest svc" "res = record_map svc' bk"
    "record_map svc' = (record_map svc)(gk \<mapsto> g, bk \<mapsto> bootstrapped_block ctx bk,
       pk \<mapsto> prefix_result_upd (bootstrapped_block ctx bk) (bootstrapped_prefix ctx pk))"
    "group_holds g (ctx_block_hash ctx) (ctx_placement_node ctx)
       (rec_placement_level (bootstrapped_block ctx bk)) (rec_hot_segment_id (bootstrapped_block ctx bk))
       KVCACHE_STATE_HOT (ctx_result_segment_id ctx)"
proof -
  from bootstrap_zeroE [OF run] obtain pk gk bk svc1 svc2 svc3 svc4 b svc5 where
    k: "mem_service_build_prefix_key ctx 96 = Some pk" "mem_service_build_group_key ctx 96 = Some gk"
      "mem_service_build_block_key ctx 96 = Some bk"
    and s1: "mem_service_put_prefix_group svc gk (ctx_request_id ctx) (ctx_group_id ctx)
       (ctx_block_hash ctx) (ctx_placement_node ctx) (ctx_placement_level ctx)
       (ctx_hot_segment_id ctx) KVCACHE_STATE_FILLED 0 = (0, svc1)"
    and s2: "mem_service_put_request_prefix svc1 pk (ctx_request_id ctx) (ctx_prefix_group ctx)
       (ctx_group_id ctx) (ctx_block_hash ctx) = (0, svc2)"
    and s3: "mem_service_put_block_meta svc2 bk (ctx_request_id ctx) (ctx_prefix_group ctx)
       (ctx_group_id ctx) (ctx_block_hash ctx) (ctx_placement_node ctx) (ctx_placement_level ctx)
       (ctx_hot_segment_id ctx) KVCACHE_STATE_FILLED = (0, svc3)"
    and s4: "mem_service_update_block_result svc3 bk (ctx_result_segment_id ctx) KVCACHE_STATE_HOT = (0, svc4)"
    and b: "mem_service_get_record svc4 bk = Some b"
    and s5: "mem_service_update_prefix_group_from_block svc4 ctx b = (0, svc5)"
    and s6: "mem_service_update_prefix_result svc5 pk ctx b = (0, svc')"
    and res: "res = mem_service_get_record svc' bk" .
  have len: "length pk < 96" "length gk < 96" "length bk < 96" "length (ctx_block_hash ctx) < 96"
    using build_key_SomeD(1) [OF k(1)] build_key_SomeD(2) [OF k(2)] build_key_SomeD(3) [OF k(3)] ctx
    unfolding ctx_ok_def by blast+
  note ne = block_key_distinct(1) [OF k(1,3)] block_key_distinct(2) [OF k(2,3)]
  note P1 = put_prefix_group_spec [OF wf len(2,4) s1]
  note P2 = put_request_prefix_spec [OF P1(1) len(1) s2]
  note P3 = put_block_meta_spec [OF P2(1) len(3) s3]
  from P1(4) obtain g1 where m1: "record_map svc1 = (record_map svc)(gk \<mapsto> g1)" by blast
  have m2: "record_map svc2 = (record_map svc1)(pk \<mapsto> bootstrapped_prefix ctx pk)"
    using P2(4) by (simp add: bootstrapped_prefix_def)
  note P4 = store.guarded_update_cases
    [OF P3(1) upd_fits_all(1) s4 [unfolded update_block_result_guarded]]
  have m4: "record_map svc4 = (record_map svc2)(bk \<mapsto> bootstrapped_block ctx bk)"
    using P4(2) [OF refl] by (auto simp: P3(4) bootstrapped_block_def)
  with b have b': "b = bootstrapped_block ctx bk" by simp
  have bl: "length (rec_block_hash b) < 96" using len(4) by (simp add: b' bootstrapped_sel)
  note P5 = update_prefix_group_from_block_spec [OF P4(1) bl s5]
  from P5(4) k(2) obtain g where m5: "record_map svc5 = (record_map svc4)(gk \<mapsto> g)"
    and g: "group_holds g (rec_block_hash b) (rec_placement_node b) (rec_placement_level b)
        (rec_hot_segment_id b) (rec_state b) (rec_last_result_segment b)"
    and old: "\<And>old. record_map svc4 gk = Some old \<Longrightarrow> rec_kind old = RECORD_PREFIX_GROUP" by auto
  have pg: "pk \<noteq> gk"
    using old [of "bootstrapped_prefix ctx pk"] ne(1) by (auto simp: m4 m2 bootstrapped_sel)
  note P6 = store.guarded_update_cases
    [OF P5(1) upd_fits_all(2) s6 [unfolded update_prefix_result_guarded]]
  have "record_map svc5 pk = Some (bootstrapped_prefix ctx pk)" using ne pg by (simp add: m5 m4 m2)
  then have m6: "record_map svc' = (record_map svc5)(pk \<mapsto> prefix_result_upd b (bootstrapped_prefix ctx pk))"
    using P6(2) [OF refl] by auto
  show thesis
  proof (rule that [OF k pg ne, of g])
    show "records_wf svc'" by (rule P6(1))
    show "svc_rest svc' = svc_rest svc"
      using guarded_update_rest [OF s6 [unfolded update_prefix_result_guarded]] P5(2)
        guarded_update_rest [OF s4 [unfolded update_block_result_guarded]] P3(2) P2(2) P1(2) by simp
    show "record_map svc' = (record_map svc)(gk \<mapsto> g, bk \<mapsto> bootstrapped_block ctx bk,
        pk \<mapsto> prefix_result_upd (bootstrapped_block ctx bk) (bootstrapped_prefix ctx pk))"
      unfolding m6 m5 m4 m2 m1 b' using ne pg by (intro ext) (simp add: fun_upd_apply)
    show "group_holds g (ctx_block_hash ctx) (ctx_placement_node ctx)
       (rec_placement_level (bootstrapped_block ctx bk)) (rec_hot_segment_id (bootstrapped_block ctx bk))
       KVCACHE_STATE_HOT (ctx_result_segment_id ctx)"
      using g len(4) by (simp add: b' bootstrapped_sel)
  qed (rule res)
qed

text \<open>A bootstrap cannot fail when its keys fit, the group takes the block and three slots are
  free.\<close>

lemma bootstrap_zero:
  assumes wf: "records_wf svc" and ctx: "ctx_ok ctx"
    and k: "mem_service_build_prefix_key ctx 96 = Some pk" "mem_service_build_group_key ctx 96 = Some gk"
      "mem_service_build_block_key ctx 96 = Some bk" "pk \<noteq> gk"
    and room: "used_records svc + 3 \<le> MEM_SERVICE_MAX_RECORDS"
    and acc: "group_accepts svc gk (ctx_block_hash ctx)"
  shows "fst (mem_service_bootstrap_kvcache svc ctx) = 0"
proof -
  have len: "length pk < 96" "length gk < 96" "length bk < 96" "length (ctx_block_hash ctx) < 96"
    using build_key_SomeD(1) [OF k(1)] build_key_SomeD(2) [OF k(2)] build_key_SomeD(3) [OF k(3)] ctx
    unfolding ctx_ok_def by blast+
  note ne = block_key_distinct(1) [OF k(1,3)] block_key_distinct(2) [OF k(2,3)]
  obtain svc1 where s1: "mem_service_put_prefix_group svc gk (ctx_request_id ctx) (ctx_group_id ctx)
       (ctx_block_hash ctx) (ctx_placement_node ctx) (ctx_placement_level ctx)
       (ctx_hot_segment_id ctx) KVCACHE_STATE_FILLED 0 = (0, svc1)"
    using put_prefix_group_succeeds [OF wf len(4) acc] by (metis prod.collapse)
  note P1 = put_prefix_group_spec [OF wf len(2,4) s1]
  from P1(4) obtain g1 where m1: "record_map svc1 = (record_map svc)(gk \<mapsto> g1)"
    and g1: "group_holds g1 (ctx_block_hash ctx) (ctx_placement_node ctx) (ctx_placement_level ctx)
       (ctx_hot_segment_id ctx) KVCACHE_STATE_FILLED 0" by blast
  have u1: "used_records svc1 \<le> used_records svc + 1"
    using used_records_upd [OF wf P1(1) m1] by simp
  have "put_record svc1 pk (bootstrapped_prefix ctx pk) \<noteq> None"
    using put_record_None_iff [OF P1(1)] u1 room by auto
  then obtain svc2 where p2: "put_record svc1 pk (bootstrapped_prefix ctx pk) = Some svc2" by blast
  then have s2: "mem_service_put_request_prefix svc1 pk (ctx_request_id ctx) (ctx_prefix_group ctx)
       (ctx_group_id ctx) (ctx_block_hash ctx) = (0, svc2)"
    by (simp add: mem_service_put_request_prefix_def bootstrapped_prefix_def)
  note P2 = put_request_prefix_spec [OF P1(1) len(1) s2]
  have u2: "used_records svc2 \<le> used_records svc + 2"
    using used_records_upd [OF P1(1) P2(1) P2(4)] u1 by simp
  let ?b0 = "block_meta_record bk (ctx_request_id ctx) (ctx_prefix_group ctx) (ctx_group_id ctx)
     (ctx_block_hash ctx) (ctx_placement_node ctx) (ctx_placement_level ctx)
     (ctx_hot_segment_id ctx) KVCACHE_STATE_FILLED"
  have "put_record svc2 bk ?b0 \<noteq> None" using put_record_None_iff [OF P2(1)] u2 room by auto
  then obtain svc3 where p3: "put_record svc2 bk ?b0 = Some svc3" by blast
  then have s3: "mem_service_put_block_meta svc2 bk (ctx_request_id ctx) (ctx_prefix_group ctx)
       (ctx_group_id ctx) (ctx_block_hash ctx) (ctx_placement_node ctx) (ctx_placement_level ctx)
       (ctx_hot_segment_id ctx) KVCACHE_STATE_FILLED = (0, svc3)"
    by (simp add: mem_service_put_block_meta_def)
  note P3 = put_block_meta_spec [OF P2(1) len(3) s3]
  obtain rc4 svc4 where s4: "mem_service_update_block_result svc3 bk (ctx_result_segment_id ctx)
      KVCACHE_STATE_HOT = (rc4, svc4)" by fastforce
  note P4 = store.guarded_update_cases
    [OF P3(1) upd_fits_all(1) s4 [unfolded update_block_result_guarded]]
  have b0: "record_map svc3 bk = Some ?b0" by (simp add: P3(4))
  have rc4: "rc4 = 0"
  proof -
    have "rec_kind ?b0 = RECORD_BLOCK_META" "rec_last_result_segment ?b0 = 0"
      by (simp_all add: block_meta_record_def)
    with P4(4-6) b0 show ?thesis by auto
  qed
  have m4: "record_map svc4 = (record_map svc3)(bk \<mapsto> bootstrapped_block ctx bk)"
    using P4(2) [OF rc4] by (auto simp: b0 bootstrapped_block_def)
  let ?b = "bootstrapped_block ctx bk"
  have bl: "length (rec_block_hash ?b) < 96" using len(4) by (simp add: bootstrapped_sel)
  have "record_map svc4 gk = Some g1"
    using ne k(4) by (simp add: m4 P3(4) P2(4) m1)
  then have "group_accepts svc4 gk (rec_block_hash ?b)"
    using g1 len(4) by (simp add: group_accepts_def group_holds_def bootstrapped_sel)
  from put_prefix_group_succeeds [OF P4(1) bl this] k(2) obtain svc5 where
    s5: "mem_service_update_prefix_group_from_block svc4 ctx ?b = (0, svc5)"
    unfolding mem_service_update_prefix_group_from_block_def by (metis option.simps(5) prod.collapse)
  note P5 = update_prefix_group_from_block_spec [OF P4(1) bl s5]
  from P5(4) k(2) obtain g where m5: "record_map svc5 = (record_map svc4)(gk \<mapsto> g)" by auto
  obtain rc6 svc6 where s6: "mem_service_update_prefix_result svc5 pk ctx ?b = (rc6, svc6)" by fastforce
  note P6 = store.guarded_update_cases
    [OF P5(1) upd_fits_all(2) s6 [unfolded update_prefix_result_guarded]]
  have p0: "record_map svc5 pk = Some (bootstrapped_prefix ctx pk)"
    using ne k(4) P2(4) by (simp add: m5 m4 P3(4) bootstrapped_prefix_def)
  have rc6: "rc6 = 0"
    using P6(4-6) p0 by (auto simp: bootstrapped_sel prefix_result_stale_def)
  have "record_map svc6 bk = Some ?b"
    using P6(2) [OF rc6] ne by (auto simp: m5 m4)
  with k s1 s2 s3 s4 s5 s6 rc4 rc6 m4 show ?thesis
    by (simp add: mem_service_bootstrap_kvcache_def)
qed

text \<open>C22. Bootstrapping a KV block publishes three consistent records. After a successful
  \<open>mem_service_bootstrap_kvcache\<close> the invariant holds, the returned record is the stored
  block (hot, version 2, carrying the result segment), the request prefix matches the block
  in the sense of \<open>mem_service_prefix_matches_block_meta\<close> as soon as a result segment was
  given, the group lists the block with its placement and result, and no other record
  changed.\<close>

theorem bootstrap_kvcache_correct:
  assumes wf: "records_wf svc" and ctx: "ctx_ok ctx"
    and run: "mem_service_bootstrap_kvcache svc ctx = (0, svc', res)"
  shows "records_wf svc' \<and> svc_rest svc' = svc_rest svc \<and>
    (\<exists>pk gk bk p g b.
       mem_service_build_prefix_key ctx 96 = Some pk \<and> mem_service_build_group_key ctx 96 = Some gk \<and>
       mem_service_build_block_key ctx 96 = Some bk \<and> distinct [pk, gk, bk] \<and>
       res = Some b \<and> record_map svc' = (record_map svc)(gk \<mapsto> g, bk \<mapsto> b, pk \<mapsto> p) \<and>
       rec_state b = KVCACHE_STATE_HOT \<and> rec_version b = 2 \<and>
       rec_last_result_segment b = ctx_result_segment_id ctx \<and>
       (ctx_result_segment_id ctx \<noteq> 0 \<longrightarrow> mem_service_prefix_matches_block_meta p b) \<and>
       mem_service_record_has_member g (ctx_block_hash ctx) \<and>
       rec_placement_node g = ctx_placement_node ctx \<and>
       rec_last_result_segment g = ctx_result_segment_id ctx)"
proof -
  from bootstrap_maps [OF wf ctx run] obtain pk gk bk g where
    k: "mem_service_build_prefix_key ctx 96 = Some pk" "mem_service_build_group_key ctx 96 = Some gk"
      "mem_service_build_block_key ctx 96 = Some bk" "pk \<noteq> gk" "pk \<noteq> bk" "gk \<noteq> bk"
    and wf': "records_wf svc'" "svc_rest svc' = svc_rest svc" and res: "res = record_map svc' bk"
    and m: "record_map svc' = (record_map svc)(gk \<mapsto> g, bk \<mapsto> bootstrapped_block ctx bk,
       pk \<mapsto> prefix_result_upd (bootstrapped_block ctx bk) (bootstrapped_prefix ctx pk))"
    and g: "group_holds g (ctx_block_hash ctx) (ctx_placement_node ctx)
       (rec_placement_level (bootstrapped_block ctx bk)) (rec_hot_segment_id (bootstrapped_block ctx bk))
       KVCACHE_STATE_HOT (ctx_result_segment_id ctx)" .
  let ?b = "bootstrapped_block ctx bk"
  let ?p = "prefix_result_upd ?b (bootstrapped_prefix ctx pk)"
  have len: "length (ctx_block_hash ctx) < 96" using ctx by (simp add: ctx_ok_def)
  have gok: "record_ok g" using get_record_SomeD(3) [OF wf'(1), of gk g] m k(4,6) by simp
  have match: "ctx_result_segment_id ctx \<noteq> 0 \<longrightarrow> mem_service_prefix_matches_block_meta ?p ?b"
    using len by (simp add: mem_service_prefix_matches_block_meta_def prefix_result_upd_def bootstrapped_sel)
  have grp: "mem_service_record_has_member g (ctx_block_hash ctx)"
    "rec_placement_node g = ctx_placement_node ctx"
    "rec_last_result_segment g = ctx_result_segment_id ctx"
    using g by (simp_all add: has_member_iff [OF gok] group_holds_def group_placement_differs_def)
  have "res = Some ?b" using res m k(5) by simp
  with k wf' m match grp show ?thesis
    by (intro conjI exI [of _ pk] exI [of _ gk] exI [of _ bk] exI [of _ ?p] exI [of _ g] exI [of _ ?b])
       (simp_all add: bootstrapped_sel)
qed

lemma demo_ctx_ok: "ctx_ok demo_ctx"
  by (simp add: ctx_ok_def demo_ctx_def)

definition demo_service :: mem_service where
  "demo_service = fst (snd (mem_service_bootstrap_kvcache initial_service demo_ctx))"

lemma demo_bootstrap:
  obtains res where "mem_service_bootstrap_kvcache initial_service demo_ctx = (0, demo_service, res)"
proof -
  have "fst (mem_service_bootstrap_kvcache initial_service demo_ctx) = 0"
    by (rule bootstrap_zero [OF records_wf_initial demo_ctx_ok demo_ctx_keys])
       (simp_all add: used_records_initial record_map_initial group_accepts_def
          MEM_SERVICE_MAX_RECORDS_def)
  then show thesis using that by (metis demo_service_def prod.collapse)
qed

text \<open>The three records of the example service.\<close>

lemma demo_service_facts:
  "records_wf demo_service"
  "record_map demo_service ''block/b1'' = Some (bootstrapped_block demo_ctx ''block/b1'')"
  "record_map demo_service ''request/r1/prefix/p1'' =
     Some (prefix_result_upd (bootstrapped_block demo_ctx ''block/b1'')
             (bootstrapped_prefix demo_ctx ''request/r1/prefix/p1''))"
proof -
  obtain res where run: "mem_service_bootstrap_kvcache initial_service demo_ctx = (0, demo_service, res)"
    by (rule demo_bootstrap)
  from bootstrap_maps [OF records_wf_initial demo_ctx_ok run] obtain pk gk bk g where
    k: "mem_service_build_prefix_key demo_ctx 96 = Some pk" "mem_service_build_group_key demo_ctx 96 = Some gk"
      "mem_service_build_block_key demo_ctx 96 = Some bk" and ne: "pk \<noteq> gk" "pk \<noteq> bk" "gk \<noteq> bk"
    and wf: "records_wf demo_service"
    and m: "record_map demo_service = (record_map initial_service)(gk \<mapsto> g,
       bk \<mapsto> bootstrapped_block demo_ctx bk,
       pk \<mapsto> prefix_result_upd (bootstrapped_block demo_ctx bk) (bootstrapped_prefix demo_ctx pk))" .
  have keys: "pk = ''request/r1/prefix/p1''" "bk = ''block/b1''"
    using k demo_ctx_keys(1,3) by simp_all
  have "record_map demo_service bk = Some (bootstrapped_block demo_ctx bk)"
    "record_map demo_service pk =
       Some (prefix_result_upd (bootstrapped_block demo_ctx bk) (bootstrapped_prefix demo_ctx pk))"
    using ne by (simp_all add: m)
  with wf show "records_wf demo_service"
    "record_map demo_service ''block/b1'' = Some (bootstrapped_block demo_ctx ''block/b1'')"
    "record_map demo_service ''request/r1/prefix/p1'' =
     Some (prefix_result_upd (bootstrapped_block demo_ctx ''block/b1'')
             (bootstrapped_prefix demo_ctx ''request/r1/prefix/p1''))" unfolding keys by simp_all
qed

lemma demo_service_group:
  "group_accepts demo_service ''request/r1/prefix-group/g1'' ''b1''"
  and demo_service_room: "used_records demo_service + 3 \<le> MEM_SERVICE_MAX_RECORDS"
proof -
  obtain res where run: "mem_service_bootstrap_kvcache initial_service demo_ctx = (0, demo_service, res)"
    by (rule demo_bootstrap)
  from bootstrap_maps [OF records_wf_initial demo_ctx_ok run] obtain pk gk bk g where
    k: "mem_service_build_group_key demo_ctx 96 = Some gk" and ne: "pk \<noteq> gk" "pk \<noteq> bk" "gk \<noteq> bk"
    and m: "record_map demo_service = (record_map initial_service)(gk \<mapsto> g,
       bk \<mapsto> bootstrapped_block demo_ctx bk,
       pk \<mapsto> prefix_result_upd (bootstrapped_block demo_ctx bk) (bootstrapped_prefix demo_ctx pk))"
    and g: "group_holds g (ctx_block_hash demo_ctx) (ctx_placement_node demo_ctx)
       (rec_placement_level (bootstrapped_block demo_ctx bk)) (rec_hot_segment_id (bootstrapped_block demo_ctx bk))
       KVCACHE_STATE_HOT (ctx_result_segment_id demo_ctx)" .
  have "record_map demo_service gk = Some g" using ne by (simp add: m)
  moreover have "gk = ''request/r1/prefix-group/g1''" using k demo_ctx_keys(2) by simp
  ultimately show "group_accepts demo_service ''request/r1/prefix-group/g1'' ''b1''"
    using g by (simp add: group_accepts_def group_holds_def demo_ctx_def)
  have "dom (record_map demo_service) = {gk, bk, pk}" by (auto simp: m record_map_initial)
  then have "used_records demo_service = card {gk, bk, pk}"
    using used_records_card [OF demo_service_facts(1)] by simp
  also have "\<dots> = 3" using ne by (simp add: card_insert_if)
  finally show "used_records demo_service + 3 \<le> MEM_SERVICE_MAX_RECORDS"
    by (simp add: MEM_SERVICE_MAX_RECORDS_def)
qed

lemma demo_block_sel:
  "rec_kind (bootstrapped_block demo_ctx k) = RECORD_BLOCK_META"
  "rec_last_result_segment (bootstrapped_block demo_ctx k) = 4"
  "rec_placement_node (bootstrapped_block demo_ctx k) = 1"
  "rec_placement_level (bootstrapped_block demo_ctx k) = 2"
  "rec_hot_segment_id (bootstrapped_block demo_ctx k) = 3"
  "rec_block_hash (bootstrapped_block demo_ctx k) = ''b1''"
  "ctx_placement_node demo_ctx = 1" "ctx_placement_level demo_ctx = 2"
  by (simp_all add: bootstrapped_block_def block_result_upd_def block_meta_record_def demo_ctx_def)

theorem bootstrap_kvcache_correct_witness:
  "\<exists>p b. record_map demo_service ''request/r1/prefix/p1'' = Some p \<and>
     record_map demo_service ''block/b1'' = Some b \<and> rec_version b = 2 \<and>
     mem_service_prefix_matches_block_meta p b"
proof -
  obtain res where run: "mem_service_bootstrap_kvcache initial_service demo_ctx = (0, demo_service, res)"
    by (rule demo_bootstrap)
  have seg: "ctx_result_segment_id demo_ctx \<noteq> 0" by (simp add: demo_ctx_def)
  from bootstrap_kvcache_correct [OF records_wf_initial demo_ctx_ok run] seg demo_ctx_keys
  show ?thesis by auto
qed

text \<open>A bootstrap of a KV block always succeeds when it should: keys that fit, a group that
  is absent or still takes the block, and three free slots suffice; the operation then ends
  with return code 0.\<close>

theorem bootstrap_kvcache_succeeds:
  assumes "records_wf svc" "ctx_ok ctx"
    and "mem_service_build_prefix_key ctx 96 = Some pk" "mem_service_build_group_key ctx 96 = Some gk"
      "mem_service_build_block_key ctx 96 = Some bk" "pk \<noteq> gk"
    and "used_records svc + 3 \<le> MEM_SERVICE_MAX_RECORDS"
    and "group_accepts svc gk (ctx_block_hash ctx)"
  shows "\<exists>svc' b. mem_service_bootstrap_kvcache svc ctx = (0, svc', Some b)"
proof -
  from bootstrap_zero [OF assms] obtain svc' res where
    run: "mem_service_bootstrap_kvcache svc ctx = (0, svc', res)" by (metis prod.collapse)
  from bootstrap_maps [OF assms(1,2) this] have "res \<noteq> None" by (metis fun_upd_apply option.distinct(1))
  with run show ?thesis by auto
qed

theorem bootstrap_kvcache_succeeds_witness:
  "\<exists>svc' b. mem_service_bootstrap_kvcache initial_service demo_ctx = (0, svc', Some b)"
  by (rule bootstrap_kvcache_succeeds [OF records_wf_initial demo_ctx_ok demo_ctx_keys])
     (simp_all add: used_records_initial record_map_initial group_accepts_def
        MEM_SERVICE_MAX_RECORDS_def)

text \<open>C32. Results of a block only move forward. \<open>mem_service_apply_block_result\<close> keeps the
  invariant, and its answer is determined: -1 without a change when there is no record for the block or
  it is not a block; 2 without a change for a caller whose owner is outdated; 1 without a change for a
  result not newer than the stored one. Otherwise the block gets the result and the state and one more
  than its version (which wraps at 64 bits); the answer is then 0, with the updated block, the group
  follows the block and no other record changes; or it is -1, the block alone is changed, and there is
  no group that could take the block.\<close>

theorem apply_block_result_correct:
  assumes "records_wf svc"
    and "mem_service_apply_block_result svc ctx seg st = (rc, svc', res)"
  shows "owned_block_outcome svc ctx
    (\<lambda>b. rec_last_result_segment b \<noteq> 0 \<and> seg \<le> rec_last_result_segment b)
    (\<lambda>b. b \<lparr> rec_last_result_segment := seg, rec_state := st, rec_version := rec_version b + 1 \<rparr>)
    rc svc' res"
proof -
  let ?upd = "\<lambda>b. b \<lparr> rec_last_result_segment := seg, rec_state := st, rec_version := rec_version b + 1 \<rparr>"
  have upd: "block_result_upd seg st = ?upd" by (simp add: fun_eq_iff block_result_upd_def)
  show ?thesis
    using with_owned_block_spec [OF assms(1) refl upd_fits(1),
        OF _ _ assms(2) [unfolded mem_service_apply_block_result_def update_block_result_guarded]]
    by (simp add: upd)
qed

lemma group_accepts_cong:
  assumes "records_wf svc" "records_wf svc'" "record_map svc' gk = record_map svc gk"
    "dom (record_map svc') = dom (record_map svc)"
  shows "group_accepts svc' gk h = group_accepts svc gk h"
  using used_records_card [OF assms(1)] used_records_card [OF assms(2)] assms(3,4)
  by (simp add: group_accepts_def split: option.split)

theorem apply_block_result_correct_witness:
  "fst (mem_service_apply_block_result demo_service (demo_ctx \<lparr> ctx_placement_node := 7 \<rparr>) 9 KVCACHE_STATE_HOT) = 2 \<and>
   fst (mem_service_apply_block_result demo_service demo_ctx 4 KVCACHE_STATE_HOT) = 1 \<and>
   (\<exists>svc' b. mem_service_apply_block_result demo_service demo_ctx 9 KVCACHE_STATE_HOT = (0, svc', Some b) \<and>
     record_map svc' ''block/b1'' = Some b \<and> rec_last_result_segment b = 9 \<and> rec_version b = 3)"
proof (intro conjI)
  let ?other = "demo_ctx \<lparr> ctx_placement_node := 7 \<rparr>" and ?b = "bootstrapped_block demo_ctx ''block/b1''"
  have other: "mem_service_build_block_key ?other 96 = Some ''block/b1''"
    using demo_ctx_keys(3) by (simp add: mem_service_build_block_key_def)
  have b: "is_block ?b" "rec_placement_node ?b = 1" "rec_last_result_segment ?b = 4" "ctx_placement_node demo_ctx = 1"
    "rec_version ?b = 2"
    by (simp_all add: demo_block_sel bootstrapped_sel demo_ctx_def)
  have run3: "x = (fst x, fst (snd x), snd (snd x))" for x :: "int \<times> mem_service \<times> mem_service_record option" by simp
  note C = apply_block_result_correct [OF demo_service_facts(1) run3]
  show "fst (mem_service_apply_block_result demo_service ?other 9 KVCACHE_STATE_HOT) = 2"
    using C [of ?other 9 KVCACHE_STATE_HOT] other b
    by (simp add: owned_block_outcome_def demo_service_facts(2))
  show "fst (mem_service_apply_block_result demo_service demo_ctx 4 KVCACHE_STATE_HOT) = 1"
    using C [of demo_ctx 4 KVCACHE_STATE_HOT] demo_ctx_keys(3) b
    by (simp add: owned_block_outcome_def demo_service_facts(2))
  obtain rc svc' res where run: "mem_service_apply_block_result demo_service demo_ctx 9 KVCACHE_STATE_HOT = (rc, svc', res)"
    by (metis prod_cases3)
  note D = apply_block_result_correct [OF demo_service_facts(1) run]
  let ?u = "?b \<lparr> rec_last_result_segment := 9, rec_state := KVCACHE_STATE_HOT, rec_version := rec_version ?b + 1 \<rparr>"
  have "\<not> (record_map svc' = (record_map demo_service)(''block/b1'' \<mapsto> ?u) \<and>
      \<not> group_accepts svc' ''request/r1/prefix-group/g1'' (rec_block_hash ?b))"
  proof
    assume A: "record_map svc' = (record_map demo_service)(''block/b1'' \<mapsto> ?u) \<and>
      \<not> group_accepts svc' ''request/r1/prefix-group/g1'' (rec_block_hash ?b)"
    have "records_wf svc'" using D by (simp add: owned_block_outcome_def)
    from group_accepts_cong [OF demo_service_facts(1) this, of "''request/r1/prefix-group/g1''" "''b1''"]
    have "group_accepts svc' ''request/r1/prefix-group/g1'' ''b1''"
      using A demo_service_group demo_service_facts(2) by auto
    with A show False by (simp add: bootstrapped_sel demo_ctx_def)
  qed
  with D demo_ctx_keys b run
  show "\<exists>svc' b. mem_service_apply_block_result demo_service demo_ctx 9 KVCACHE_STATE_HOT = (0, svc', Some b) \<and>
     record_map svc' ''block/b1'' = Some b \<and> rec_last_result_segment b = 9 \<and> rec_version b = 3"
    by (auto simp: owned_block_outcome_def demo_service_facts(2))
qed

text \<open>Moving a block keeps everything else. \<open>mem_service_rebind_block_view\<close> and
  \<open>mem_service_handoff_block_owner\<close> refuse a caller with an outdated owner (2) and a move to
  where the block already is (1) without any change; on success only the view or the owner
  of the block changes, its version goes up by one and the group follows.\<close>

theorem move_block_correct:
  assumes "records_wf svc"
    and "mem_service_rebind_block_view svc ctx hot level = (rc, svc', res)"
    and "mem_service_handoff_block_owner svc ctx node level hot = (rc2, svc2, res2)"
  shows "owned_block_outcome svc ctx
      (\<lambda>b. rec_hot_segment_id b = hot \<and> rec_placement_level b = level)
      (\<lambda>b. b \<lparr> rec_hot_segment_id := hot, rec_placement_level := level,
               rec_version := rec_version b + 1 \<rparr>) rc svc' res \<and>
    owned_block_outcome svc ctx
      (\<lambda>b. rec_placement_node b = node \<and> rec_placement_level b = level \<and> rec_hot_segment_id b = hot)
      (\<lambda>b. b \<lparr> rec_placement_node := node, rec_placement_level := level,
               rec_hot_segment_id := hot, rec_version := rec_version b + 1 \<rparr>) rc2 svc2 res2"
proof
  have upd: "block_view_upd hot level = (\<lambda>b. b \<lparr> rec_hot_segment_id := hot, rec_placement_level := level,
      rec_version := rec_version b + 1 \<rparr>)"
    "block_owner_upd node level hot = (\<lambda>b. b \<lparr> rec_placement_node := node,
      rec_placement_level := level, rec_hot_segment_id := hot, rec_version := rec_version b + 1 \<rparr>)"
    by (simp_all add: fun_eq_iff block_upd_defs)
  show "owned_block_outcome svc ctx
      (\<lambda>b. rec_hot_segment_id b = hot \<and> rec_placement_level b = level)
      (\<lambda>b. b \<lparr> rec_hot_segment_id := hot, rec_placement_level := level,
               rec_version := rec_version b + 1 \<rparr>) rc svc' res"
    using with_owned_block_spec [OF assms(1) refl upd_fits(2),
        OF _ _ assms(2) [unfolded mem_service_rebind_block_view_def update_block_view_guarded]]
    by (simp add: upd)
  show "owned_block_outcome svc ctx
      (\<lambda>b. rec_placement_node b = node \<and> rec_placement_level b = level \<and> rec_hot_segment_id b = hot)
      (\<lambda>b. b \<lparr> rec_placement_node := node, rec_placement_level := level,
               rec_hot_segment_id := hot, rec_version := rec_version b + 1 \<rparr>) rc2 svc2 res2"
    using with_owned_block_spec [OF assms(1) refl upd_fits(3),
        OF _ _ assms(3) [unfolded mem_service_handoff_block_owner_def update_block_owner_guarded]]
    by (simp add: upd)
qed

text \<open>Bringing a prefix up to date compares the stored prefix with the placement in the
  caller's context, not with the placement of the block it is given: when result, view,
  state and hash agree and the prefix is placed where the context says, the call reports
  "nothing to do" (1) whatever node the block has meanwhile moved to, and the prefix keeps
  naming the old node.\<close>

theorem update_prefix_metadata_ignores_block_placement:
  assumes wf: "records_wf svc" and pk: "mem_service_build_prefix_key ctx 96 = Some pk"
    and p: "record_map svc pk = Some p" "rec_kind p = RECORD_REQUEST_PREFIX"
    and same: "rec_last_result_segment p = rec_last_result_segment b"
      "rec_hot_segment_id p = rec_hot_segment_id b" "rec_state p = rec_state b"
      "rec_block_hash p = rec_block_hash b"
    and at_ctx: "rec_placement_node p = ctx_placement_node ctx"
      "rec_placement_level p = ctx_placement_level ctx"
    and moved: "rec_placement_node b \<noteq> rec_placement_node p"
  shows "mem_service_update_prefix_metadata svc ctx b = (1, svc, None) \<and>
    \<not> mem_service_prefix_matches_block_meta p b"
proof
  have "prefix_result_stale ctx b p" using same at_ctx by (simp add: prefix_result_stale_def strncmp_eq_def)
  with pk p show "mem_service_update_prefix_metadata svc ctx b = (1, svc, None)"
    by (simp add: mem_service_update_prefix_metadata_def update_prefix_result_guarded
        store.guarded_update_def)
  show "\<not> mem_service_prefix_matches_block_meta p b"
    using moved by (simp add: mem_service_prefix_matches_block_meta_def)
qed

theorem update_prefix_metadata_ignores_block_placement_witness:
  "mem_service_update_prefix_metadata demo_service demo_ctx
     ((bootstrapped_block demo_ctx ''block/b1'') \<lparr> rec_placement_node := 7 \<rparr>) = (1, demo_service, None)"
  using update_prefix_metadata_ignores_block_placement [OF demo_service_facts(1) demo_ctx_keys(1)
      demo_service_facts(3), of "(bootstrapped_block demo_ctx ''block/b1'') \<lparr> rec_placement_node := 7 \<rparr>"]
  by (simp add: prefix_result_upd_def bootstrapped_sel demo_block_sel)

end
