(* ===== verification/Wire_Payload.thy ===== *)
theory Wire_Payload
  imports Wire
begin

text \<open>
  The text key-value payload format (\<open>mem_service_wire_payload.h\<close>): a payload is a C string
  of lines \<open>name=value\<close>. Modelled here: the field scanner, the unsigned number parser
  (\<open>strtoull\<close> with base 0, as C11 defines it, in the way the code consumes it), the
  accessors with defaults, the field writers, and schema validation.

  A reader that in C returns a flag and fills a buffer returns an option here: the C
  function returns true exactly when the buffer it filled is not empty.
\<close>

section \<open>Reading a field\<close>

abbreviation newline :: char where "newline \<equiv> CHR 0x0A"

text \<open>\<open>line_of\<close> and \<open>after_line\<close> are what \<open>strchr (cursor, '\n')\<close> splits the rest of the
  payload into; \<open>None\<close> is the NULL cursor after the last line.\<close>

definition line_of :: "cstr \<Rightarrow> cstr" where
  "line_of s = takeWhile (\<lambda>c. c \<noteq> newline) s"

definition after_line :: "cstr \<Rightarrow> cstr option" where
  "after_line s = (case dropWhile (\<lambda>c. c \<noteq> newline) s of [] \<Rightarrow> None | c # cs \<Rightarrow> Some cs)"

lemma after_line_shorter: "after_line s = Some t \<Longrightarrow> length t < length s"
proof -
  assume a: "after_line s = Some t"
  then obtain c where d: "dropWhile (\<lambda>c. c \<noteq> newline) s = c # t"
    by (auto simp: after_line_def split: list.splits)
  have "length (dropWhile (\<lambda>c. c \<noteq> newline) s) \<le> length s" by (rule length_dropWhile_le)
  with d show ?thesis by simp
qed

definition line_matches :: "cstr \<Rightarrow> cstr \<Rightarrow> bool" where
  "line_matches name line \<longleftrightarrow>
     length line > length name \<and> take (length name) line = name \<and>
     line ! length name = CHR ''=''"

function payload_find :: "cstr \<Rightarrow> cstr \<Rightarrow> cstr option" where
  "payload_find name cursor =
     (if cursor = [] then None
      else let line = line_of cursor in
        if line_matches name line then Some (drop (length name + 1) line)
        else (case after_line cursor of None \<Rightarrow> None | Some next \<Rightarrow> payload_find name next))"
  by pat_completeness auto
termination
  by (relation "measure (\<lambda>(name, cursor). length cursor)") (auto dest: after_line_shorter)

declare payload_find.simps [simp del]

definition nonempty :: "cstr \<Rightarrow> cstr option" where
  "nonempty s = (if s = [] then None else Some s)"

definition mem_service_wire_payload_get_string :: "cstr \<Rightarrow> cstr \<Rightarrow> nat \<Rightarrow> cstr option" where
  "mem_service_wire_payload_get_string payload name out_len =
     (if out_len = 0 then None
      else (case payload_find name payload of
              None \<Rightarrow> None
            | Some value \<Rightarrow> nonempty (snprintf_s out_len value)))"

section \<open>Unsigned numbers\<close>

definition c_isspace :: "char \<Rightarrow> bool" where
  "c_isspace c \<longleftrightarrow> c \<in> {CHR '' '', CHR 0x09, CHR 0x0A, CHR 0x0B, CHR 0x0C, CHR 0x0D}"

definition digit_value :: "char \<Rightarrow> nat" where
  "digit_value c =
     (let n = of_char c :: nat in
      if 48 \<le> n \<and> n \<le> 57 then n - 48
      else if 97 \<le> n \<and> n \<le> 122 then n - 87
      else if 65 \<le> n \<and> n \<le> 90 then n - 55
      else 255)"

definition digits_value :: "nat \<Rightarrow> cstr \<Rightarrow> nat" where
  "digits_value base ds = foldl (\<lambda>acc c. acc * base + digit_value c) 0 ds"

text \<open>\<open>strtoull (value, &end, 0)\<close>: optional white space, optional sign, base prefix, digits.
  The result is the magnitude, whether a minus sign was read, and the rest of the string;
  \<open>None\<close> when no digit was read (\<open>end == value\<close>).\<close>

definition strtoull0 :: "cstr \<Rightarrow> (nat \<times> bool \<times> cstr) option" where
  "strtoull0 s =
     (let s1 = dropWhile c_isspace s;
          neg = (s1 \<noteq> [] \<and> hd s1 = CHR ''-'');
          s2 = (if s1 \<noteq> [] \<and> (hd s1 = CHR ''-'' \<or> hd s1 = CHR ''+'') then tl s1 else s1);
          hex = (length s2 > 2 \<and> s2 ! 0 = CHR ''0'' \<and>
                 (s2 ! 1 = CHR ''x'' \<or> s2 ! 1 = CHR ''X'') \<and> digit_value (s2 ! 2) < 16);
          base = (if hex then 16 else if s2 \<noteq> [] \<and> hd s2 = CHR ''0'' then 8 else 10);
          s3 = (if hex then drop 2 s2 else s2);
          ds = takeWhile (\<lambda>c. digit_value c < base) s3
      in if ds = [] then None
         else Some (digits_value base ds, neg, dropWhile (\<lambda>c. digit_value c < base) s3))"

text \<open>The accepting condition every caller uses: \<open>errno == 0\<close> (no overflow), some digit,
  and nothing after the digits. A minus sign negates modulo \<open>2\<^sup>6\<^sup>4\<close>.\<close>

definition parse_u64 :: "cstr \<Rightarrow> u64 option" where
  "parse_u64 value =
     (case strtoull0 value of
        None \<Rightarrow> None
      | Some (n, neg, rest) \<Rightarrow>
          if n < 2 ^ 64 \<and> rest = [] then Some (if neg then - of_nat n else of_nat n) else None)"

definition mem_service_parse_u64_value :: "cstr \<Rightarrow> u64 \<Rightarrow> u64" where
  "mem_service_parse_u64_value value default_value =
     (if value = [] then default_value
      else (case parse_u64 value of None \<Rightarrow> default_value | Some v \<Rightarrow> v))"

definition mem_service_wire_payload_get_u64_checked :: "cstr \<Rightarrow> cstr \<Rightarrow> u64 option" where
  "mem_service_wire_payload_get_u64_checked payload name =
     (case mem_service_wire_payload_get_string payload name 48 of
        None \<Rightarrow> None | Some value \<Rightarrow> parse_u64 value)"

definition mem_service_wire_payload_get_u64 :: "cstr \<Rightarrow> cstr \<Rightarrow> u64 \<Rightarrow> u64" where
  "mem_service_wire_payload_get_u64 payload name default_value =
     (case mem_service_wire_payload_get_u64_checked payload name of
        None \<Rightarrow> default_value | Some v \<Rightarrow> v)"

definition mem_service_wire_payload_get_u32 :: "cstr \<Rightarrow> cstr \<Rightarrow> u32 \<Rightarrow> u32" where
  "mem_service_wire_payload_get_u32 payload name default_value =
     (case mem_service_wire_payload_get_u64_checked payload name of
        None \<Rightarrow> default_value
      | Some v \<Rightarrow> if v > UINT32_MAX then default_value else ucast v)"

text \<open>The checked 32-bit reader of the daemon (\<open>mem_service_payload_get_u32_checked\<close>).\<close>

definition mem_service_payload_get_u32_checked :: "cstr \<Rightarrow> cstr \<Rightarrow> u32 option" where
  "mem_service_payload_get_u32_checked payload name =
     (case mem_service_wire_payload_get_u64_checked payload name of
        None \<Rightarrow> None
      | Some v \<Rightarrow> if v > UINT32_MAX then None else Some (ucast v))"

section \<open>Reading a header field\<close>

text \<open>\<open>mem_service_payload_get_header_string\<close> scans the leading block of \<open>name=value\<close> lines
  and gives up at the first line without an equals sign (the body of a snapshot).\<close>

function header_find :: "cstr \<Rightarrow> cstr \<Rightarrow> cstr option" where
  "header_find name cursor =
     (if cursor = [] then None
      else let line = line_of cursor in
        if CHR ''='' \<notin> set line then None
        else if takeWhile (\<lambda>c. c \<noteq> CHR ''='') line = name
        then Some (drop (length name + 1) line)
        else (case after_line cursor of None \<Rightarrow> None | Some next \<Rightarrow> header_find name next))"
  by pat_completeness auto
termination
  by (relation "measure (\<lambda>(name, cursor). length cursor)") (auto dest: after_line_shorter)

declare header_find.simps [simp del]

definition mem_service_payload_get_header_string :: "cstr \<Rightarrow> cstr \<Rightarrow> nat \<Rightarrow> cstr option" where
  "mem_service_payload_get_header_string payload name out_len =
     (if out_len = 0 then None
      else (case header_find name payload of
              None \<Rightarrow> None
            | Some value \<Rightarrow> nonempty (snprintf_s out_len value)))"

section \<open>Writing a field\<close>

definition digit_char :: "nat \<Rightarrow> char" where
  "digit_char n = char_of (48 + n)"

fun decimal :: "nat \<Rightarrow> cstr" where
  "decimal n = (if n < 10 then [digit_char n] else decimal (n div 10) @ [digit_char (n mod 10)])"

declare decimal.simps [simp del]

text \<open>\<open>%" PRIu64 "\<close> and \<open>%u\<close> print a word in decimal.\<close>

definition show_word :: "'a::len word \<Rightarrow> cstr" where
  "show_word w = decimal (unat w)"

text \<open>The field writer returns its \<open>int\<close> result and the buffer, which on failure holds the
  truncated text \<open>snprintf\<close> left there.\<close>

definition mem_service_wire_payload_append_field ::
  "cstr \<Rightarrow> nat \<Rightarrow> cstr \<Rightarrow> cstr \<Rightarrow> int \<times> cstr" where
  "mem_service_wire_payload_append_field payload payload_len name value =
     (if payload_len = 0 then (-1, payload)
      else if value = [] then (0, payload)
      else let used = length payload in
        if used \<ge> payload_len then (-1, payload)
        else let text = name @ ''='' @ value @ [newline] in
          if length text \<ge> payload_len - used
          then (-1, payload @ snprintf_s (payload_len - used) text)
          else (0, payload @ text))"

definition mem_service_wire_payload_append_u64 ::
  "cstr \<Rightarrow> nat \<Rightarrow> cstr \<Rightarrow> u64 \<Rightarrow> int \<times> cstr" where
  "mem_service_wire_payload_append_u64 payload payload_len name value =
     mem_service_wire_payload_append_field payload payload_len name
       (snprintf_s 32 (show_word value))"

section \<open>Schema validation\<close>

datatype mem_service_wire_payload_field_type = FIELD_STRING | FIELD_U32 | FIELD_U64

record mem_service_wire_payload_field =
  field_name :: cstr
  field_type :: mem_service_wire_payload_field_type
  field_required :: bool

text \<open>One field of the schema: accepted, or rejected.\<close>

definition field_accepted :: "cstr \<Rightarrow> mem_service_wire_payload_field \<Rightarrow> bool" where
  "field_accepted payload field =
     (case mem_service_wire_payload_get_string payload (field_name field) 128 of
        None \<Rightarrow> \<not> field_required field
      | Some _ \<Rightarrow>
          (case field_type field of
             FIELD_U32 \<Rightarrow>
               (case mem_service_wire_payload_get_u64_checked payload (field_name field) of
                  None \<Rightarrow> False | Some v \<Rightarrow> \<not> v > UINT32_MAX)
           | FIELD_U64 \<Rightarrow>
               mem_service_wire_payload_get_u64_checked payload (field_name field) \<noteq> None
           | FIELD_STRING \<Rightarrow> True))"

text \<open>The loop over the schema: \<open>None\<close> when every field is accepted, otherwise the index the
  code stores in \<open>*failed_index_out\<close> before it returns false.\<close>

definition mem_service_wire_payload_validate_schema ::
  "cstr \<Rightarrow> mem_service_wire_payload_field list \<Rightarrow> nat option" where
  "mem_service_wire_payload_validate_schema payload schema =
     find_slot (\<lambda>field. \<not> field_accepted payload field) schema"

section \<open>Decimal numbers\<close>

lemma digit_value_digit_char [simp]: "d < 10 \<Longrightarrow> digit_value (digit_char d) = d"
  by (simp add: digit_value_def digit_char_def)

lemma digit_char_eq_iff: "d < 10 \<Longrightarrow> digit_char d = c \<longleftrightarrow> 48 + d = of_char c"
  by (simp add: digit_char_def char_of_eq_iff take_bit_nat_eq_self)

lemma digit_char_plain:
  assumes "d < 10"
  shows "\<not> c_isspace (digit_char d)" "digit_char d \<noteq> CHR ''-''" "digit_char d \<noteq> CHR ''+''"
    "digit_char d \<noteq> newline" "digit_char d = CHR ''0'' \<longleftrightarrow> d = 0"
  using assms by (simp_all add: c_isspace_def digit_char_eq_iff)

lemma decimal_digits: "c \<in> set (decimal n) \<Longrightarrow> \<exists>d<10. c = digit_char d"
proof (induction n rule: decimal.induct)
  case (1 n)
  show ?case
  proof (cases "n < 10")
    case True
    with "1.prems" show ?thesis by (auto simp: decimal.simps [of n])
  next
    case False
    with "1.prems" "1.IH" [OF False] show ?thesis
      by (auto simp: decimal.simps [of n] intro: exI [of _ "n mod 10"])
  qed
qed

lemma decimal_nonempty [simp]: "decimal n \<noteq> []"
  by (subst decimal.simps) simp

lemma decimal_hd: "\<exists>d<10. hd (decimal n) = digit_char d \<and> (d = 0 \<longrightarrow> n = 0)"
proof (induction n rule: decimal.induct)
  case (1 n)
  show ?case
  proof (cases "n < 10")
    case True
    then show ?thesis by (auto simp: decimal.simps [of n])
  next
    case False
    with "1.IH" [OF False] show ?thesis
      by (auto simp: decimal.simps [of n] div_eq_0_iff)
  qed
qed

lemma decimal_value: "digits_value 10 (decimal n) = n"
proof (induction n rule: decimal.induct)
  case (1 n)
  then show ?case
    by (cases "n < 10") (simp_all add: decimal.simps [of n] digits_value_def)
qed

lemma decimal_length: "n < 10 ^ k \<Longrightarrow> 0 < k \<Longrightarrow> length (decimal n) \<le> k"
proof (induction n arbitrary: k rule: decimal.induct)
  case (1 n)
  show ?case
  proof (cases "n < 10")
    case True
    with "1.prems" show ?thesis by (simp add: decimal.simps [of n])
  next
    case False
    then have "1 < k" using "1.prems" by (cases "k = 1") auto
    then obtain j where k: "k = Suc j" and j: "0 < j" by (cases k) auto
    from "1.prems"(1) k have "n div 10 < 10 ^ j" by (simp add: less_mult_imp_div_less mult.commute)
    with "1.IH" [OF False _ j] show ?thesis by (simp add: decimal.simps [of n] False k)
  qed
qed

lemma decimal_word_length: "length (decimal (unat (w :: u64))) \<le> 20"
proof -
  have "unat w < 2 ^ 64" using unsigned_less [of w] by simp
  also have "(2 :: nat) ^ 64 < 10 ^ 20" by simp
  finally show ?thesis by (rule decimal_length) simp
qed

lemma newline_notin_decimal [simp]: "newline \<notin> set (decimal n)"
  using decimal_digits [of newline n] digit_char_plain(4) by metis

text \<open>The number parser reads back every printed number.\<close>

lemma decimal_scan:
  "dropWhile c_isspace (decimal n) = decimal n" "hd (decimal n) \<noteq> CHR ''-''" "hd (decimal n) \<noteq> CHR ''+''"
  "takeWhile (\<lambda>c. digit_value c < 10) (decimal n) = decimal n"
  "dropWhile (\<lambda>c. digit_value c < 10) (decimal n) = []"
  "n \<noteq> 0 \<Longrightarrow> hd (decimal n) \<noteq> CHR ''0''" "decimal 0 = ''0''"
proof -
  obtain d where d: "d < 10" "hd (decimal n) = digit_char d" "d = 0 \<longrightarrow> n = 0" using decimal_hd by blast
  have dig: "digit_value c < 10" if "c \<in> set (decimal n)" for c
    using decimal_digits [OF that] by auto
  show "dropWhile c_isspace (decimal n) = decimal n"
    using d digit_char_plain(1) by (cases "decimal n") auto
  show "hd (decimal n) \<noteq> CHR ''-''" "hd (decimal n) \<noteq> CHR ''+''" using d digit_char_plain by auto
  show "takeWhile (\<lambda>c. digit_value c < 10) (decimal n) = decimal n"
    "dropWhile (\<lambda>c. digit_value c < 10) (decimal n) = []"
    using dig by (simp_all add: takeWhile_eq_all_conv dropWhile_eq_Nil_conv)
  show "n \<noteq> 0 \<Longrightarrow> hd (decimal n) \<noteq> CHR ''0''" using d digit_char_plain(5) [OF d(1)] by auto
  show "decimal 0 = ''0''" by (simp add: decimal.simps [of 0] digit_char_eq_iff)
qed

lemma strtoull0_decimal:
  "strtoull0 (decimal n) = Some (n, False, [])"
  "strtoull0 (CHR ''-'' # decimal n) = Some (n, True, [])"
proof -
  note scan = decimal_scan(1-6) [of n]
  have "strtoull0 (decimal n) = Some (n, False, []) \<and> strtoull0 (CHR ''-'' # decimal n) = Some (n, True, [])"
  proof (cases "n = 0")
    case True
    then show ?thesis
      by (simp add: decimal_scan(7) strtoull0_def c_isspace_def digit_value_def digits_value_def)
  next
    case False
    with scan(6) have nz: "hd (decimal n) \<noteq> CHR ''0''" "decimal n ! 0 \<noteq> CHR ''0''"
      by (simp_all add: hd_conv_nth)
    then have "strtoull0 (decimal n) = Some (digits_value 10 (decimal n), False, [])"
      unfolding strtoull0_def Let_def scan(1) by (simp add: scan)
    moreover have ws: "dropWhile c_isspace (CHR ''-'' # decimal n) = CHR ''-'' # decimal n"
      by (simp add: c_isspace_def)
    have "strtoull0 (CHR ''-'' # decimal n) = Some (digits_value 10 (decimal n), True, [])"
      unfolding strtoull0_def Let_def ws using nz by (simp add: scan)
    ultimately show ?thesis by (simp add: decimal_value)
  qed
  then show "strtoull0 (decimal n) = Some (n, False, [])"
    "strtoull0 (CHR ''-'' # decimal n) = Some (n, True, [])" by blast+
qed

lemma parse_u64_decimal: "n < 2 ^ 64 \<Longrightarrow> parse_u64 (decimal n) = Some (of_nat n)"
  by (simp add: parse_u64_def strtoull0_decimal)

lemma parse_u64_show_word [simp]: "parse_u64 (show_word w) = Some w"
  using parse_u64_decimal [of "unat w"] unsigned_less [of w] by (simp add: show_word_def)

section \<open>Scanning concatenated payloads\<close>

definition complete_lines :: "cstr \<Rightarrow> bool" where
  "complete_lines p \<longleftrightarrow> p = [] \<or> last p = newline"

lemma after_line_complete:
  assumes "p \<noteq> []" "complete_lines p"
  obtains t where "after_line p = Some t" "complete_lines t" "p = line_of p @ newline # t"
proof -
  let ?P = "\<lambda>c. c \<noteq> newline"
  have "last p = newline" using assms by (simp add: complete_lines_def)
  with last_in_set [OF assms(1)] have "newline \<in> set p" by simp
  then have ne: "dropWhile ?P p \<noteq> []" by (auto simp: dropWhile_eq_Nil_conv)
  then obtain c t where ct: "dropWhile ?P p = c # t" by (cases "dropWhile ?P p") auto
  with hd_dropWhile [OF ne] have d: "dropWhile ?P p = newline # t" by simp
  have "takeWhile ?P p @ dropWhile ?P p = p" by (rule takeWhile_dropWhile_id)
  with d have p: "p = line_of p @ newline # t" by (simp add: line_of_def)
  have "complete_lines t"
  proof (cases "t = []")
    case False
    have "last p = last t" by (subst p) (simp add: False)
    with assms show ?thesis by (simp add: complete_lines_def)
  qed (simp add: complete_lines_def)
  with d p that show ?thesis by (simp add: after_line_def)
qed

lemma line_of_append: "newline \<notin> set l \<Longrightarrow> line_of (l @ newline # t) = l"
  by (induction l) (auto simp: line_of_def)

lemma after_line_append: "newline \<notin> set l \<Longrightarrow> after_line (l @ newline # t) = Some t"
  by (induction l) (auto simp: after_line_def)

lemma newline_notin_line_of [simp]: "newline \<notin> set (line_of s)"
  by (auto simp: line_of_def dest: set_takeWhileD)

lemma payload_find_line:
  assumes "newline \<notin> set l"
  shows "payload_find name (l @ newline # t) =
         (if line_matches name l then Some (drop (length name + 1) l) else payload_find name t)"
  by (subst payload_find.simps) (simp add: line_of_append after_line_append assms Let_def)

lemma payload_find_append:
  "complete_lines p \<Longrightarrow>
   payload_find name (p @ q) =
     (case payload_find name p of None \<Rightarrow> payload_find name q | Some v \<Rightarrow> Some v)"
proof (induction "length p" arbitrary: p rule: less_induct)
  case less
  show ?case
  proof (cases "p = []")
    case True
    then show ?thesis by (simp add: payload_find.simps [of name "[]"])
  next
    case False
    from after_line_complete [OF False less.prems] obtain t where
      t: "complete_lines t" "p = line_of p @ newline # t" .
    have len: "length t < length p" by (subst t(2)) simp
    have p: "payload_find name p =
        (if line_matches name (line_of p) then Some (drop (length name + 1) (line_of p))
         else payload_find name t)"
      by (subst t(2)) (simp add: payload_find_line)
    have "payload_find name (p @ q) =
        (if line_matches name (line_of p) then Some (drop (length name + 1) (line_of p))
         else payload_find name (t @ q))"
      by (subst t(2)) (simp add: payload_find_line)
    with p less.hyps [OF len t(1)] show ?thesis by simp
  qed
qed

lemma payload_find_single:
  assumes "newline \<notin> set name" "newline \<notin> set value"
  shows "payload_find name (name @ ''='' @ value @ [newline]) = Some value"
  using assms payload_find_line [of "name @ ''='' @ value" name "[]"]
  by (simp add: line_matches_def nth_append)

lemma line_matches_other:
  assumes "CHR ''='' \<notin> set name" "CHR ''='' \<notin> set other" "other \<noteq> name"
  shows "\<not> line_matches other (name @ CHR ''='' # value)"
proof
  assume m: "line_matches other (name @ CHR ''='' # value)"
  consider "length other < length name" | "length other = length name" | "length name < length other"
    by linarith
  then show False
  proof cases
    case 1
    with m have "name ! length other = CHR ''=''" by (simp add: line_matches_def nth_append)
    with 1 assms(1) show False by (metis nth_mem)
  next
    case 2
    with m assms(3) show False by (simp add: line_matches_def)
  next
    case 3
    from m have "take (length other) (name @ CHR ''='' # value) = other"
      by (simp add: line_matches_def)
    then have "other ! length name = CHR ''=''"
      using 3 by (metis nth_append_length nth_take)
    with 3 assms(2) show False by (metis nth_mem)
  qed
qed

lemma append_field_ok:
  "mem_service_wire_payload_append_field payload cap name value = (0, payload') \<Longrightarrow> value \<noteq> [] \<Longrightarrow>
   payload' = payload @ name @ ''='' @ value @ [newline]"
  by (auto simp: mem_service_wire_payload_append_field_def Let_def split: if_splits)

section \<open>Properties\<close>

text \<open>Number fields round-trip: after \<open>mem_service_wire_payload_append_u64\<close> succeeded on a
  payload that has no such field yet, \<open>mem_service_wire_payload_get_u64_checked\<close> returns
  exactly the number that was written, for every 64-bit value.\<close>

theorem append_u64_get_u64_roundtrip:
  assumes ok: "mem_service_wire_payload_append_u64 payload cap name value = (0, payload')"
    and lines: "complete_lines payload" and fresh: "payload_find name payload = None"
    and name: "newline \<notin> set name"
  shows "mem_service_wire_payload_get_u64_checked payload' name = Some value"
proof -
  let ?v = "show_word value"
  have len: "length ?v \<le> 20" by (simp add: show_word_def decimal_word_length)
  have v: "?v \<noteq> []" "newline \<notin> set ?v" by (simp_all add: show_word_def)
  have "payload' = payload @ name @ ''='' @ ?v @ [newline]"
    using ok len v by (intro append_field_ok [of _ cap])
      (simp_all add: mem_service_wire_payload_append_u64_def)
  then have "payload_find name payload' = Some ?v"
    using payload_find_single [OF name v(2)] by (simp add: payload_find_append [OF lines] fresh)
  with len v show ?thesis
    by (simp add: mem_service_wire_payload_get_u64_checked_def
        mem_service_wire_payload_get_string_def nonempty_def)
qed

theorem append_u64_get_u64_roundtrip_witness:
  "mem_service_wire_payload_get_u64_checked
     (snd (mem_service_wire_payload_append_u64 [] 64 ''version'' 18446744073709551615)) ''version''
   = Some 18446744073709551615"
proof (rule append_u64_get_u64_roundtrip)
  have "length (show_word (18446744073709551615 :: u64)) \<le> 20"
    by (simp only: show_word_def decimal_word_length)
  then show "mem_service_wire_payload_append_u64 [] 64 ''version'' 18446744073709551615 =
      (0, snd (mem_service_wire_payload_append_u64 [] 64 ''version'' 18446744073709551615))"
    by (simp add: mem_service_wire_payload_append_u64_def
        mem_service_wire_payload_append_field_def Let_def)
qed (simp_all add: complete_lines_def payload_find.simps [of _ "[]"])

text \<open>Writing one field leaves every other field of the payload as it was: a reader of any
  other name gets the same answer before and after \<open>mem_service_wire_payload_append_field\<close>
  succeeded.\<close>

theorem append_field_frame:
  assumes ok: "mem_service_wire_payload_append_field payload cap name value = (0, payload')"
    and lines: "complete_lines payload"
    and names: "CHR ''='' \<notin> set name" "newline \<notin> set name" "newline \<notin> set value"
      "CHR ''='' \<notin> set other" "other \<noteq> name"
  shows "mem_service_wire_payload_get_string payload' other n =
         mem_service_wire_payload_get_string payload other n"
proof (cases "value = []")
  case True
  with ok show ?thesis
    by (simp add: mem_service_wire_payload_append_field_def split: if_splits)
next
  case False
  have "payload_find other (name @ ''='' @ value @ [newline]) = None"
    using payload_find_line [of "name @ ''='' @ value" other "[]"] names
      line_matches_other [OF names(1,4,5)]
    by (simp add: payload_find.simps [of other "[]"])
  with append_field_ok [OF ok False] show ?thesis
    by (simp add: mem_service_wire_payload_get_string_def payload_find_append [OF lines]
        split: option.splits)
qed

theorem append_field_frame_witness:
  "mem_service_wire_payload_get_string
     (snd (mem_service_wire_payload_append_field (''key=a'' @ [newline]) 64 ''owner'' ''7'')) ''key'' 96
   = mem_service_wire_payload_get_string (''key=a'' @ [newline]) ''key'' 96"
  by (rule append_field_frame [of "''key=a'' @ [newline]" 64 "''owner''" "''7''"])
     (simp_all add: mem_service_wire_payload_append_field_def Let_def complete_lines_def)

text \<open>Schema validation is exact: it accepts a payload if and only if every required field is
  present and every present numeric field parses in its width, and a rejection names the
  first offending field of the schema.\<close>

theorem validate_schema_exact:
  "(mem_service_wire_payload_validate_schema payload schema = None \<longleftrightarrow>
      (\<forall>i<length schema.
         (field_required (schema ! i) \<longrightarrow>
            mem_service_wire_payload_get_string payload (field_name (schema ! i)) 128 \<noteq> None) \<and>
         (mem_service_wire_payload_get_string payload (field_name (schema ! i)) 128 \<noteq> None \<longrightarrow>
            (field_type (schema ! i) = FIELD_U64 \<longrightarrow>
               (\<exists>v. mem_service_wire_payload_get_u64_checked payload (field_name (schema ! i)) = Some v)) \<and>
            (field_type (schema ! i) = FIELD_U32 \<longrightarrow>
               (\<exists>v. mem_service_payload_get_u32_checked payload (field_name (schema ! i)) = Some v))))) \<and>
   (mem_service_wire_payload_validate_schema payload schema = Some k \<longrightarrow>
      k < length schema \<and> \<not> field_accepted payload (schema ! k) \<and>
      (\<forall>j<k. field_accepted payload (schema ! j)))"
proof -
  have acc: "field_accepted payload f \<longleftrightarrow>
      (field_required f \<longrightarrow> mem_service_wire_payload_get_string payload (field_name f) 128 \<noteq> None) \<and>
      (mem_service_wire_payload_get_string payload (field_name f) 128 \<noteq> None \<longrightarrow>
        (field_type f = FIELD_U64 \<longrightarrow>
           (\<exists>v. mem_service_wire_payload_get_u64_checked payload (field_name f) = Some v)) \<and>
        (field_type f = FIELD_U32 \<longrightarrow>
           (\<exists>v. mem_service_payload_get_u32_checked payload (field_name f) = Some v)))" for f
    by (auto simp: field_accepted_def mem_service_payload_get_u32_checked_def
        split: option.splits mem_service_wire_payload_field_type.splits)
  let ?find = "find_slot (\<lambda>f. \<not> field_accepted payload f) schema"
  have "?find = None \<longleftrightarrow> (\<forall>i<length schema. field_accepted payload (schema ! i))"
    unfolding find_slot_None_iff all_set_conv_all_nth not_not ..
  moreover have "?find = Some k \<longrightarrow> k < length schema \<and> \<not> field_accepted payload (schema ! k) \<and>
      (\<forall>j<k. field_accepted payload (schema ! j))"
    by (auto dest: find_slot_SomeD)
  ultimately show ?thesis
    unfolding mem_service_wire_payload_validate_schema_def by (simp only: acc)
qed

theorem validate_schema_exact_witness:
  "mem_service_wire_payload_validate_schema (''key=a'' @ [newline])
     [\<lparr>field_name = ''key'', field_type = FIELD_STRING, field_required = True\<rparr>] = None"
proof -
  have f: "mem_service_wire_payload_get_string (''key=a'' @ [newline]) ''key'' 128 = Some ''a''"
    using payload_find_single [of "''key''" "''a''"]
    by (simp add: mem_service_wire_payload_get_string_def nonempty_def)
  show ?thesis
    using validate_schema_exact [of "''key=a'' @ [newline]"
        "[\<lparr>field_name = ''key'', field_type = FIELD_STRING, field_required = True\<rparr>]" 0] f
    by simp
qed

end
