(* ===== verification/Object_Refs.thy ===== *)
theory Object_Refs
  imports Records
begin

text \<open>
  Object references (\<open>mem_service_object_refs.c\<close>): the 64-bit FNV-1a checksum over object
  bytes and the wire reference a record is published as. The constants of the reference
  format (\<open>LINGQU_OBJECT_REF_MAGIC\<close> and its companions) come from the object service header.
\<close>

definition fnv64_step :: "u64 \<Rightarrow> u8 \<Rightarrow> u64" where
  "fnv64_step hash b = (hash XOR ucast b) * 1099511628211"

definition mem_service_checksum_bytes :: "u8 list \<Rightarrow> u64" where
  "mem_service_checksum_bytes bytes = foldl fnv64_step 1469598103934665603 bytes"

text \<open>The providers carry their own copy of the checksum, with a NULL guard that only applies
  to a NULL buffer of non-zero length.\<close>

definition mem_service_provider_checksum64 :: "u8 list option \<Rightarrow> u64 \<Rightarrow> u64" where
  "mem_service_provider_checksum64 data len =
     (case data of
        None \<Rightarrow> if len \<noteq> 0 then 0 else 1469598103934665603
      | Some bytes \<Rightarrow> foldl fnv64_step 1469598103934665603 (take (unat len) bytes))"

interpretation fnv64: byte_fold fnv64_step
proof unfold_locales
  have inv: "(1099511628211 :: u64) * 14886173955864302971 = 1" by simp
  show "h = h'" if "fnv64_step h b = fnv64_step h' b" for h h' b
    using that xor_right_inj word_mult_inj [OF inv] unfolding fnv64_step_def by blast
  show "b = b'" if "fnv64_step h b = fnv64_step h b'" for h b b'
  proof -
    from that have "h XOR ucast b = h XOR ucast b'"
      using word_mult_inj [OF inv] unfolding fnv64_step_def by blast
    then show ?thesis by (rule xor_ucast_inj) simp
  qed
qed

section \<open>The wire reference of a record\<close>

definition LINGQU_OBJECT_REF_MAGIC :: u64 where "LINGQU_OBJECT_REF_MAGIC = 0x514f424d4d524546"
definition LINGQU_OBJECT_REF_LAYOUT_VERSION :: u16 where "LINGQU_OBJECT_REF_LAYOUT_VERSION = 1"
definition LINGQU_OBJECT_STATE_COMMITTED_WIRE :: u16 where "LINGQU_OBJECT_STATE_COMMITTED_WIRE = 2"

record lingqu_object_ref_wire =
  ref_magic :: u64
  ref_layout_version :: u16
  ref_object_kind :: u16
  ref_state :: u16
  ref_flags :: u16
  ref_owner_entity :: u32
  ref_producer_entity :: u32
  ref_object_version :: u64
  ref_key_hash :: u64
  ref_payload_offset :: u64
  ref_payload_bytes :: u64
  ref_payload_checksum :: u64

definition mem_service_record_to_lingqu_object_ref ::
  "mem_service_record \<Rightarrow> lingqu_object_ref_wire option" where
  "mem_service_record_to_lingqu_object_ref r =
     (if \<not> rec_in_use r \<or> rec_object_backing_len r = 0 then None
      else Some
        \<lparr> ref_magic = LINGQU_OBJECT_REF_MAGIC,
          ref_layout_version = LINGQU_OBJECT_REF_LAYOUT_VERSION,
          ref_object_kind = ucast (rec_object_payload_kind r),
          ref_state = LINGQU_OBJECT_STATE_COMMITTED_WIRE,
          ref_flags = 0,
          ref_owner_entity = rec_object_owner_node r,
          ref_producer_entity = rec_object_owner_node r,
          ref_object_version = rec_version r,
          ref_key_hash = mem_service_checksum_bytes (bytes_of (take 96 (rec_key r))),
          ref_payload_offset = rec_object_backing_offset r,
          ref_payload_bytes = rec_object_backing_len r,
          ref_payload_checksum = rec_object_payload_checksum r \<rparr>)"

definition mem_service_record_to_lingqu_obmm_ref ::
  "mem_service_record \<Rightarrow> lingqu_object_ref_wire option" where
  "mem_service_record_to_lingqu_obmm_ref r = mem_service_record_to_lingqu_object_ref r"

section \<open>Properties\<close>

text \<open>A corrupted byte of an object payload is always caught by the 64-bit checksum, and the
  checksum the providers compute over a buffer is the one the service computes.\<close>

theorem object_checksum_detects_corruption:
  assumes "i < length bytes" "c \<noteq> bytes ! i" "length bytes < 2 ^ 64"
  shows "mem_service_checksum_bytes (bytes[i := c]) \<noteq> mem_service_checksum_bytes bytes \<and>
    mem_service_provider_checksum64 (Some bytes) (of_nat (length bytes)) =
      mem_service_checksum_bytes bytes"
  using fnv64.foldl_detects_byte [OF assms(1,2)] assms(3)
  by (simp add: mem_service_checksum_bytes_def mem_service_provider_checksum64_def
      unat_of_nat take_bit_nat_eq_self)

theorem object_checksum_detects_corruption_witness:
  "mem_service_checksum_bytes [1, 9, 3] \<noteq> mem_service_checksum_bytes [1, 2, 3]"
  using object_checksum_detects_corruption [of 1 "[1, 2, 3]" 9] by simp

end
