(* ===== verification/Ub_Ssd.thy ===== *)
theory Ub_Ssd
  imports Wire_Payload Object_Refs
begin

text \<open>
  The UB-SSD object backend as the daemon drives it (\<open>mem_service_ub_ssd_gsva_backend.c\<close> and
  the UB-SSD part of \<open>mem_service_daemon.c\<close>): selecting the backend from a request, parsing
  the buffer descriptor, building the device request, and attaching the block reference to
  the record. The device itself (the ioctl behind \<open>mem_service_ub_ssd_gsva_submit\<close>) is an
  argument: from a request it gives a status and a completion.
\<close>

section \<open>Daemon accessors of a request payload\<close>

abbreviation mem_service_payload_get_string :: "cstr \<Rightarrow> cstr \<Rightarrow> nat \<Rightarrow> cstr option" where
  "mem_service_payload_get_string \<equiv> mem_service_wire_payload_get_string"

abbreviation mem_service_payload_get_u64_checked :: "cstr \<Rightarrow> cstr \<Rightarrow> u64 option" where
  "mem_service_payload_get_u64_checked \<equiv> mem_service_wire_payload_get_u64_checked"

abbreviation mem_service_payload_get_u64 :: "cstr \<Rightarrow> cstr \<Rightarrow> u64 \<Rightarrow> u64" where
  "mem_service_payload_get_u64 \<equiv> mem_service_wire_payload_get_u64"

abbreviation mem_service_payload_get_u32 :: "cstr \<Rightarrow> cstr \<Rightarrow> u32 \<Rightarrow> u32" where
  "mem_service_payload_get_u32 \<equiv> mem_service_wire_payload_get_u32"

text \<open>A buffer that is emptied before an ignored read: what it holds afterwards.\<close>

definition string_or_empty :: "cstr \<Rightarrow> cstr \<Rightarrow> nat \<Rightarrow> cstr" where
  "string_or_empty payload name n =
     (case mem_service_payload_get_string payload name n of None \<Rightarrow> [] | Some s \<Rightarrow> s)"

lemma get_string_SomeD:
  "mem_service_wire_payload_get_string payload name n = Some s \<Longrightarrow> s \<noteq> [] \<and> length s < n"
  by (auto simp: mem_service_wire_payload_get_string_def nonempty_def split: if_splits option.splits)

lemma string_or_empty_length: "0 < n \<Longrightarrow> length (string_or_empty payload name n) < n"
  by (auto simp: string_or_empty_def dest: get_string_SomeD split: option.splits)

section \<open>Data\<close>

definition MEM_SERVICE_PAYLOAD_KIND_SEALED_LOCAL_BLOCK :: u32 where
  "MEM_SERVICE_PAYLOAD_KIND_SEALED_LOCAL_BLOCK = 64"
definition MEM_SERVICE_PAYLOAD_KIND_SEALED_CHUNKED_BLOCK :: u32 where
  "MEM_SERVICE_PAYLOAD_KIND_SEALED_CHUNKED_BLOCK = 65"
definition MEM_SERVICE_PAYLOAD_KIND_TRANSPORT_LOOPBACK_BLOCK :: u32 where
  "MEM_SERVICE_PAYLOAD_KIND_TRANSPORT_LOOPBACK_BLOCK = 66"
definition MEM_SERVICE_PAYLOAD_KIND_TRANSPORT_TCP_BLOCK :: u32 where
  "MEM_SERVICE_PAYLOAD_KIND_TRANSPORT_TCP_BLOCK = 67"
definition MEM_SERVICE_PAYLOAD_KIND_UB_SSD_GSVA_BLOCK :: u32 where
  "MEM_SERVICE_PAYLOAD_KIND_UB_SSD_GSVA_BLOCK = 68"
definition MEM_SERVICE_OBJECT_BACKEND_OBMM_POOL :: u32 where
  "MEM_SERVICE_OBJECT_BACKEND_OBMM_POOL = 0"
definition MEM_SERVICE_OBJECT_BACKEND_UB_SSD_GSVA :: u32 where
  "MEM_SERVICE_OBJECT_BACKEND_UB_SSD_GSVA = 1"
definition MEM_SERVICE_UB_SSD_GSVA_OP_BLOCK_WRITE :: u32 where
  "MEM_SERVICE_UB_SSD_GSVA_OP_BLOCK_WRITE = 1"
definition MEM_SERVICE_UB_SSD_GSVA_OP_BLOCK_READ :: u32 where
  "MEM_SERVICE_UB_SSD_GSVA_OP_BLOCK_READ = 2"

lemmas payload_kind_defs =
  MEM_SERVICE_PAYLOAD_KIND_SEALED_LOCAL_BLOCK_def MEM_SERVICE_PAYLOAD_KIND_SEALED_CHUNKED_BLOCK_def
  MEM_SERVICE_PAYLOAD_KIND_TRANSPORT_LOOPBACK_BLOCK_def
  MEM_SERVICE_PAYLOAD_KIND_TRANSPORT_TCP_BLOCK_def MEM_SERVICE_PAYLOAD_KIND_UB_SSD_GSVA_BLOCK_def

record mem_service_ub_ssd_gsva_block_ref =
  bref_block_hi :: u64
  bref_block_lo :: u64
  bref_version :: u64
  bref_offset :: u64
  bref_bytes :: u64
  bref_checksum64 :: u64

record mem_service_gsva_buffer_desc =
  desc_gsva_base :: u64
  desc_bytes :: u64
  desc_key_version :: u32
  desc_key_flags :: u32
  desc_key_segment_id :: u64
  desc_key_home_va :: u64
  desc_key_size :: u64
  desc_key_vmid :: u64
  desc_key_asid :: u64
  desc_key_pte_offset :: u64
  desc_key_p_tag :: u32
  desc_key_cache_policy :: u32
  desc_key_epoch :: u64
  desc_token_id :: u32
  desc_token_value :: u32
  desc_owner_node :: u32
  desc_source_cna :: u32

record mem_service_ub_ssd_gsva_io_request =
  ioreq_device_path :: "cstr option"
  ioreq_opcode :: u32
  ioreq_request_id :: u64
  ioreq_source_cna :: u32
  ioreq_target_ssd_cna :: u32
  ioreq_flags :: u32
  ioreq_block_ref :: mem_service_ub_ssd_gsva_block_ref
  ioreq_buffer :: mem_service_gsva_buffer_desc

record mem_service_ub_ssd_gsva_io_completion =
  cpl_committed_ref :: mem_service_ub_ssd_gsva_block_ref
  cpl_bytes_read :: u64
  cpl_checksum64 :: u64

datatype mem_service_ub_ssd_gsva_io_status =
    IO_OK | IO_UNSUPPORTED | IO_INVALID | IO_STALE_REF | IO_TIMEOUT | IO_CHECKSUM_MISMATCH
  | IO_VERSION_CONFLICT | IO_INTERNAL

type_synonym ub_ssd_device =
  "mem_service_ub_ssd_gsva_io_request \<Rightarrow>
   mem_service_ub_ssd_gsva_io_status \<times> mem_service_ub_ssd_gsva_io_completion"

section \<open>Operations\<close>

definition mem_service_record_attach_ub_ssd_gsva_backend_ref ::
  "mem_service_record \<Rightarrow> u32 \<Rightarrow> u32 \<Rightarrow> u32 \<Rightarrow> mem_service_ub_ssd_gsva_block_ref \<Rightarrow> bool \<Rightarrow>
   int \<times> mem_service_record" where
  "mem_service_record_attach_ub_ssd_gsva_backend_ref r backend_node backend_device_cna backend_flags
       block_ref make_primary_payload =
     (if bref_bytes block_ref = 0 then (-1, r)
      else let r1 = r
             \<lparr> rec_object_backend_kind := MEM_SERVICE_OBJECT_BACKEND_UB_SSD_GSVA,
               rec_object_backend_node := backend_node,
               rec_object_backend_device_cna := backend_device_cna,
               rec_object_backend_flags := backend_flags,
               rec_object_backend_block_hi := bref_block_hi block_ref,
               rec_object_backend_block_lo := bref_block_lo block_ref,
               rec_object_backend_block_version := bref_version block_ref,
               rec_object_backend_block_offset := bref_offset block_ref,
               rec_object_backend_block_bytes := bref_bytes block_ref,
               rec_object_backend_block_checksum := bref_checksum64 block_ref \<rparr>
           in if make_primary_payload
              then (0, r1
                \<lparr> rec_object_payload_kind := MEM_SERVICE_PAYLOAD_KIND_UB_SSD_GSVA_BLOCK,
                  rec_object_backing_offset := bref_offset block_ref,
                  rec_object_backing_len := bref_bytes block_ref,
                  rec_object_payload_checksum := bref_checksum64 block_ref \<rparr>)
              else (0, r1))"

definition mem_service_payload_selects_ub_ssd_backend :: "cstr \<Rightarrow> bool" where
  "mem_service_payload_selects_ub_ssd_backend payload =
     (if mem_service_payload_get_u32 payload ''backend_kind'' 0 = MEM_SERVICE_OBJECT_BACKEND_UB_SSD_GSVA
      then True
      else case mem_service_payload_get_string payload ''backend'' 64 of
        None \<Rightarrow> False
      | Some backend \<Rightarrow> backend = ''ub-ssd-gsva-v1'' \<or> backend = ''ub_ssd_gsva_v1'')"

definition mem_service_payload_ub_ssd_write_requested :: "cstr \<Rightarrow> bool" where
  "mem_service_payload_ub_ssd_write_requested payload \<longleftrightarrow>
     mem_service_payload_get_u32 payload ''backend_write'' 0 \<noteq> 0"

definition mem_service_payload_ub_ssd_read_requested :: "cstr \<Rightarrow> bool" where
  "mem_service_payload_ub_ssd_read_requested payload \<longleftrightarrow>
     mem_service_payload_get_u32 payload ''backend_read'' 0 \<noteq> 0"

fun mem_service_ub_ssd_status_to_wire ::
  "mem_service_ub_ssd_gsva_io_status \<Rightarrow> mem_service_wire_status" where
  "mem_service_ub_ssd_status_to_wire IO_OK = STATUS_OK"
| "mem_service_ub_ssd_status_to_wire IO_STALE_REF = STATUS_STALE_REF"
| "mem_service_ub_ssd_status_to_wire IO_TIMEOUT = STATUS_TIMEOUT"
| "mem_service_ub_ssd_status_to_wire IO_CHECKSUM_MISMATCH = STATUS_CHECKSUM_MISMATCH"
| "mem_service_ub_ssd_status_to_wire IO_VERSION_CONFLICT = STATUS_VERSION_CONFLICT"
| "mem_service_ub_ssd_status_to_wire IO_UNSUPPORTED = STATUS_UNSUPPORTED"
| "mem_service_ub_ssd_status_to_wire IO_INVALID = STATUS_INVALID_SESSION"
| "mem_service_ub_ssd_status_to_wire IO_INTERNAL = STATUS_INTERNAL"

text \<open>A number above \<open>UINT32_MAX\<close> in one of the two optional 32-bit key fields.\<close>

definition u32_field_too_big :: "cstr \<Rightarrow> cstr \<Rightarrow> bool" where
  "u32_field_too_big payload name =
     (case mem_service_payload_get_u64_checked payload name of
        None \<Rightarrow> False | Some parsed \<Rightarrow> parsed > UINT32_MAX)"

definition mem_service_payload_get_ub_ssd_buffer_desc ::
  "cstr \<Rightarrow> mem_service_gsva_buffer_desc option" where
  "mem_service_payload_get_ub_ssd_buffer_desc payload =
     (case (mem_service_payload_get_u64_checked payload ''backend_buffer_gsva_base'',
            mem_service_payload_get_u64_checked payload ''backend_buffer_bytes'',
            mem_service_payload_get_u64_checked payload ''backend_buffer_key_segment_id'',
            mem_service_payload_get_u64_checked payload ''backend_buffer_key_home_va'',
            mem_service_payload_get_u64_checked payload ''backend_buffer_key_size'',
            mem_service_payload_get_u64_checked payload ''backend_buffer_key_epoch'',
            mem_service_payload_get_u32_checked payload ''backend_buffer_token_id'',
            mem_service_payload_get_u32_checked payload ''backend_buffer_token_value'') of
        (Some gsva_base, Some bytes, Some segment_id, Some home_va, Some size_, Some epoch,
         Some token_id, Some token_value) \<Rightarrow>
          if gsva_base = 0 \<or> bytes = 0 \<or> segment_id = 0 \<or> home_va = 0 \<or> size_ = 0 \<or> epoch = 0 \<or>
             token_id = 0 \<or> token_value = 0 then None
          else let desc =
              \<lparr> desc_gsva_base = gsva_base, desc_bytes = bytes,
                desc_key_version = mem_service_payload_get_u32 payload ''backend_buffer_key_version'' 1,
                desc_key_flags = mem_service_payload_get_u32 payload ''backend_buffer_key_flags'' 0,
                desc_key_segment_id = segment_id, desc_key_home_va = home_va,
                desc_key_size = size_,
                desc_key_vmid = mem_service_payload_get_u64 payload ''backend_buffer_key_vmid'' 0,
                desc_key_asid = mem_service_payload_get_u64 payload ''backend_buffer_key_asid'' 0,
                desc_key_pte_offset =
                  mem_service_payload_get_u64 payload ''backend_buffer_key_pte_offset'' 0,
                desc_key_p_tag = mem_service_payload_get_u32 payload ''backend_buffer_key_p_tag'' 0,
                desc_key_cache_policy =
                  mem_service_payload_get_u32 payload ''backend_buffer_key_cache_policy'' 0,
                desc_key_epoch = epoch, desc_token_id = token_id, desc_token_value = token_value,
                desc_owner_node = 0, desc_source_cna = 0 \<rparr>
            in if u32_field_too_big payload ''backend_buffer_key_p_tag'' then None
               else if u32_field_too_big payload ''backend_buffer_key_cache_policy'' then None
               else if desc_key_version desc = 1 then Some desc else None
      | _ \<Rightarrow> None)"

definition mem_service_ub_ssd_submit ::
  "ub_ssd_device \<Rightarrow> cstr \<Rightarrow> u32 \<Rightarrow> mem_service_record \<Rightarrow>
   mem_service_wire_status \<times> mem_service_ub_ssd_gsva_io_completion option" where
  "mem_service_ub_ssd_submit device payload opcode r =
     (case mem_service_payload_get_ub_ssd_buffer_desc payload of
        None \<Rightarrow> (STATUS_INVALID_SESSION, None)
      | Some buffer \<Rightarrow>
          let request =
            \<lparr> ioreq_device_path = mem_service_payload_get_string payload ''backend_device_path'' 128,
              ioreq_opcode = opcode,
              ioreq_request_id = mem_service_payload_get_u64 payload ''backend_request_id'' (rec_version r),
              ioreq_source_cna = mem_service_payload_get_u32 payload ''backend_source_cna'' 0,
              ioreq_target_ssd_cna = mem_service_payload_get_u32 payload ''backend_device_cna''
                (rec_object_backend_device_cna r),
              ioreq_flags = mem_service_payload_get_u32 payload ''backend_flags'' 0,
              ioreq_block_ref =
                \<lparr> bref_block_hi = rec_object_backend_block_hi r,
                  bref_block_lo = rec_object_backend_block_lo r,
                  bref_version = rec_object_backend_block_version r,
                  bref_offset = rec_object_backend_block_offset r,
                  bref_bytes = rec_object_backend_block_bytes r,
                  bref_checksum64 = rec_object_backend_block_checksum r \<rparr>,
              ioreq_buffer = buffer \<rparr>
          in case device request of
               (status, cpl) \<Rightarrow> (mem_service_ub_ssd_status_to_wire status, Some cpl))"

definition mem_service_write_ub_ssd_backend_block ::
  "ub_ssd_device \<Rightarrow> cstr \<Rightarrow> mem_service_record \<Rightarrow> mem_service_wire_status \<times> mem_service_record" where
  "mem_service_write_ub_ssd_backend_block device payload r =
     (case mem_service_ub_ssd_submit device payload MEM_SERVICE_UB_SSD_GSVA_OP_BLOCK_WRITE r of
        (status, cpl) \<Rightarrow>
          if status \<noteq> STATUS_OK then (status, r)
          else case cpl of
            None \<Rightarrow> (STATUS_INTERNAL, r)
          | Some c \<Rightarrow>
              (case mem_service_record_attach_ub_ssd_gsva_backend_ref r (rec_object_backend_node r)
                      (rec_object_backend_device_cna r) (rec_object_backend_flags r)
                      (cpl_committed_ref c) True of
                 (rc, r') \<Rightarrow> if rc \<noteq> 0 then (STATUS_INTERNAL, r') else (STATUS_OK, r')))"

definition mem_service_read_ub_ssd_backend_block ::
  "ub_ssd_device \<Rightarrow> cstr \<Rightarrow> mem_service_record \<Rightarrow>
   mem_service_wire_status \<times> mem_service_ub_ssd_gsva_io_completion option" where
  "mem_service_read_ub_ssd_backend_block device payload r =
     (if rec_object_backend_kind r \<noteq> MEM_SERVICE_OBJECT_BACKEND_UB_SSD_GSVA
      then (STATUS_INVALID_SESSION, None)
      else mem_service_ub_ssd_submit device payload MEM_SERVICE_UB_SSD_GSVA_OP_BLOCK_READ r)"

definition mem_service_apply_ub_ssd_backend_ref ::
  "cstr \<Rightarrow> cstr \<Rightarrow> cstr \<Rightarrow> mem_service_record \<Rightarrow> mem_service_wire_status \<times> mem_service_record" where
  "mem_service_apply_ub_ssd_backend_ref payload payload_inline payload_path r =
     (if \<not> mem_service_payload_selects_ub_ssd_backend payload then (STATUS_OK, r)
      else let write_requested = mem_service_payload_ub_ssd_write_requested payload in
      if payload_inline \<noteq> [] \<or> payload_path \<noteq> [] then (STATUS_UNSUPPORTED, r)
      else case (mem_service_payload_get_u64_checked payload ''backend_block_hi'',
                 mem_service_payload_get_u64_checked payload ''backend_block_lo'') of
        (Some block_hi, Some block_lo) \<Rightarrow>
          (let read_bytes = mem_service_payload_get_u64_checked payload ''backend_block_bytes'';
               read_checksum = mem_service_payload_get_u64_checked payload ''backend_block_checksum''
           in if \<not> write_requested \<and> (read_bytes = None \<or> read_checksum = None)
              then (STATUS_INVALID_SESSION, r)
              else if \<not> write_requested \<and> (the read_bytes = 0 \<or> the read_checksum = 0)
              then (STATUS_INVALID_SESSION, r)
              else let block_bytes =
                         (if write_requested
                          then mem_service_payload_get_u64 payload ''backend_block_bytes''
                                 (mem_service_payload_get_u64 payload ''backend_buffer_bytes'' 0)
                          else the read_bytes);
                       block_checksum =
                         (if write_requested
                          then mem_service_payload_get_u64 payload ''backend_block_checksum'' 0
                          else the read_checksum);
                       block_ref =
                         \<lparr> bref_block_hi = block_hi, bref_block_lo = block_lo,
                           bref_version = mem_service_payload_get_u64 payload ''backend_block_version''
                             (rec_version r),
                           bref_offset = mem_service_payload_get_u64 payload ''backend_block_offset'' 0,
                           bref_bytes = block_bytes, bref_checksum64 = block_checksum \<rparr>
                   in case mem_service_record_attach_ub_ssd_gsva_backend_ref r
                             (mem_service_payload_get_u32 payload ''backend_node'' (rec_object_owner_node r))
                             (mem_service_payload_get_u32 payload ''backend_device_cna'' 0)
                             (mem_service_payload_get_u32 payload ''backend_flags'' 0) block_ref True of
                        (rc, r') \<Rightarrow>
                          if rc \<noteq> 0 then (STATUS_INVALID_SESSION, r') else (STATUS_OK, r'))
      | _ \<Rightarrow> (STATUS_INVALID_SESSION, r))"

section \<open>What the backend may change in a record\<close>

text \<open>Backends fill in the object fields of a record; they never touch what identifies it.\<close>

definition same_record_identity :: "mem_service_record \<Rightarrow> mem_service_record \<Rightarrow> bool" where
  "same_record_identity r r' \<longleftrightarrow>
     rec_in_use r' = rec_in_use r \<and> rec_kind r' = rec_kind r \<and> rec_key r' = rec_key r \<and>
     rec_request_id r' = rec_request_id r \<and> rec_prefix_group r' = rec_prefix_group r \<and>
     rec_group_id r' = rec_group_id r \<and> rec_block_hash r' = rec_block_hash r \<and>
     rec_session_id r' = rec_session_id r \<and> rec_model_key r' = rec_model_key r \<and>
     rec_artifact_kind r' = rec_artifact_kind r \<and> rec_artifact_id r' = rec_artifact_id r \<and>
     rec_version r' = rec_version r \<and> rec_state r' = rec_state r \<and>
     rec_object_owner_node r' = rec_object_owner_node r \<and>
     rec_member_count r' = rec_member_count r \<and>
     rec_member_block_hashes r' = rec_member_block_hashes r"

lemma same_record_identity_refl [simp]: "same_record_identity r r"
  by (simp add: same_record_identity_def)

lemma same_record_identity_trans:
  "same_record_identity a b \<Longrightarrow> same_record_identity b c \<Longrightarrow> same_record_identity a c"
  by (simp add: same_record_identity_def)

lemma same_record_identity_ok: "same_record_identity r r' \<Longrightarrow> record_ok r' = record_ok r"
  by (simp add: same_record_identity_def record_ok_def)

lemma attach_identity:
  "mem_service_record_attach_ub_ssd_gsva_backend_ref r n d f b p = (rc, r') \<Longrightarrow> same_record_identity r r'"
  by (auto simp: mem_service_record_attach_ub_ssd_gsva_backend_ref_def Let_def
      same_record_identity_def split: if_splits)

lemma apply_ub_ssd_identity:
  "mem_service_apply_ub_ssd_backend_ref payload i p r = (st, r') \<Longrightarrow> same_record_identity r r'"
  by (auto simp: mem_service_apply_ub_ssd_backend_ref_def Let_def dest!: attach_identity
      split: if_splits option.splits prod.splits)

lemma write_ub_ssd_identity:
  "mem_service_write_ub_ssd_backend_block device payload r = (st, r') \<Longrightarrow> same_record_identity r r'"
  by (auto simp: mem_service_write_ub_ssd_backend_block_def dest!: attach_identity
      split: if_splits option.splits prod.splits)

text \<open>A record that names the UB-SSD backend names a non-empty block.\<close>

lemma attach_nonempty:
  "mem_service_record_attach_ub_ssd_gsva_backend_ref r n d f b True = (0, r') \<Longrightarrow>
   rec_object_backing_len r' = bref_bytes b \<and> bref_bytes b \<noteq> 0 \<and>
   rec_object_payload_checksum r' = bref_checksum64 b \<and>
   rec_object_backend_kind r' = MEM_SERVICE_OBJECT_BACKEND_UB_SSD_GSVA"
  by (auto simp: mem_service_record_attach_ub_ssd_gsva_backend_ref_def Let_def split: if_splits)

end
