(* ===== verification/Block_Store.thy ===== *)
theory Block_Store
  imports Ub_Ssd
begin

text \<open>
  Payload blocks on disk (\<open>mem_service_daemon.c\<close>, the payload-block section). A block is a file
  whose name is the checksum of its contents; it is written to a temporary file and renamed
  into place, validated on every read, and moved to a quarantine directory when its contents
  no longer match.

  The file system is a map from paths to contents together with the counter that makes
  temporary names unique. Every call that may fail for reasons outside the program (open,
  write, read, rename, link) consults the fault plan \<open>io_env\<close>. The sealed-local layout is
  modelled in full; the chunked and the two transport layouts write several files per block,
  and their writer, validator and remover are arguments (\<open>block_backends\<close>).

  The C code hashes a stream buffer by buffer; folding over the buffers is folding over the
  whole contents, which is how the model states it.
\<close>

section \<open>Files\<close>

record file_world =
  fw_files :: "cstr \<Rightarrow> u8 list option"
  fw_tmp_seq :: u64

record io_env =
  io_pid :: nat
  io_wall_clock_ms :: u64
  io_create_ok :: "cstr \<Rightarrow> bool"
  io_write_ok :: "cstr \<Rightarrow> bool"
  io_open_ok :: "cstr \<Rightarrow> bool"
  io_read_ok :: "cstr \<Rightarrow> bool"
  io_rename_ok :: "cstr \<Rightarrow> bool"
  io_unlink_ok :: "cstr \<Rightarrow> bool"
  io_short_write :: "cstr \<Rightarrow> bool"

definition fs_unlink :: "cstr \<Rightarrow> file_world \<Rightarrow> file_world" where
  "fs_unlink path fw = fw \<lparr> fw_files := (fw_files fw)(path := None) \<rparr>"

text \<open>\<open>fopen (path, "wb")\<close>, \<open>fwrite\<close>, \<open>fclose\<close>, with the \<open>unlink\<close> of the error path.\<close>

definition fs_write_file :: "io_env \<Rightarrow> cstr \<Rightarrow> u8 list \<Rightarrow> file_world \<Rightarrow> bool \<times> file_world" where
  "fs_write_file env path bytes fw =
     (if \<not> io_create_ok env path then (False, fw)
      else if \<not> io_write_ok env path then (False, fs_unlink path fw)
      else (True, fw \<lparr> fw_files := (fw_files fw)(path \<mapsto> bytes) \<rparr>))"

text \<open>\<open>fopen (path, "rb")\<close>: the contents, when the file exists and can be opened.\<close>

definition fs_open :: "io_env \<Rightarrow> cstr \<Rightarrow> file_world \<Rightarrow> u8 list option" where
  "fs_open env path fw = (if io_open_ok env path then fw_files fw path else None)"

definition fs_rename :: "io_env \<Rightarrow> cstr \<Rightarrow> cstr \<Rightarrow> file_world \<Rightarrow> bool \<times> file_world" where
  "fs_rename env from_path to_path fw =
     (case fw_files fw from_path of
        None \<Rightarrow> (False, fw)
      | Some bytes \<Rightarrow>
          if io_rename_ok env to_path
          then (True, fw \<lparr> fw_files := ((fw_files fw)(from_path := None))(to_path \<mapsto> bytes) \<rparr>)
          else (False, fw))"

section \<open>Paths\<close>

definition mem_service_join_path :: "nat \<Rightarrow> cstr \<Rightarrow> cstr \<Rightarrow> cstr option" where
  "mem_service_join_path out_len base name =
     (if out_len = 0 \<or> base = [] \<or> name = [] then None
      else let path = base @ (if last base = CHR ''/'' then [] else ''/'') @ name
           in if length path < out_len then Some path else None)"

definition hex_digit :: "nat \<Rightarrow> char" where
  "hex_digit n = (if n < 10 then char_of (48 + n) else char_of (87 + n))"

text \<open>\<open>%016" PRIx64\<close>: sixteen lower-case hexadecimal digits, most significant first.\<close>

definition hex16 :: "u64 \<Rightarrow> cstr" where
  "hex16 w = map (\<lambda>i. hex_digit (unat (drop_bit (4 * i) w AND 15))) (rev [0..<16])"

definition mem_service_make_payload_block_path :: "cstr \<Rightarrow> u64 \<Rightarrow> nat \<Rightarrow> cstr option" where
  "mem_service_make_payload_block_path storage_root checksum path_len =
     (case mem_service_join_path 512 storage_root ''blocks'' of
        None \<Rightarrow> None
      | Some block_dir \<Rightarrow>
          let block_name = hex16 checksum @ ''.block'' in
          if length block_name \<ge> 48 then None
          else mem_service_join_path path_len block_dir block_name)"

definition mem_service_make_payload_quarantine_path ::
  "io_env \<Rightarrow> cstr \<Rightarrow> u64 \<Rightarrow> nat \<Rightarrow> cstr option" where
  "mem_service_make_payload_quarantine_path env storage_root checksum path_len =
     (case mem_service_join_path 512 storage_root ''quarantine'' of
        None \<Rightarrow> None
      | Some quarantine_dir \<Rightarrow>
          let block_name = hex16 checksum @ ''.bad.'' @ decimal (io_pid env) in
          if length block_name \<ge> 64 then None
          else mem_service_join_path path_len quarantine_dir block_name)"

definition mem_service_make_payload_tmp_path ::
  "io_env \<Rightarrow> cstr \<Rightarrow> nat \<Rightarrow> file_world \<Rightarrow> cstr option \<times> file_world" where
  "mem_service_make_payload_tmp_path env storage_root path_len fw =
     (let seq = fw_tmp_seq fw + 1;
          fw' = fw \<lparr> fw_tmp_seq := seq \<rparr>
      in case mem_service_join_path 512 storage_root ''blocks'' of
           None \<Rightarrow> (None, fw')
         | Some block_dir \<Rightarrow>
             let tmp_name = ''ingest.tmp.'' @ decimal (io_pid env) @ ''.'' @ show_word seq @ ''.'' @
                            show_word (io_wall_clock_ms env)
             in if length tmp_name \<ge> 64 then (None, fw')
                else (mem_service_join_path path_len block_dir tmp_name, fw'))"

definition mem_service_quarantine_payload_block ::
  "io_env \<Rightarrow> cstr \<Rightarrow> u64 \<Rightarrow> file_world \<Rightarrow> file_world" where
  "mem_service_quarantine_payload_block env storage_root checksum fw =
     (if storage_root = [] then fw
      else case (mem_service_make_payload_block_path storage_root checksum 512,
                 mem_service_make_payload_quarantine_path env storage_root checksum 512) of
        (Some block_path, Some quarantine_path) \<Rightarrow>
          snd (fs_rename env block_path quarantine_path fw)
      | _ \<Rightarrow> fw)"

section \<open>Writing\<close>

type_synonym block_writer =
  "cstr \<Rightarrow> cstr \<Rightarrow> cstr \<Rightarrow> cstr \<Rightarrow> mem_service_record \<Rightarrow> file_world \<Rightarrow>
   mem_service_wire_status \<times> mem_service_record \<times> file_world"

text \<open>The layouts with several files per block.\<close>

record block_backends =
  be_write_chunked :: block_writer
  be_write_transport :: block_writer
  be_write_transport_tcp :: block_writer
  be_validate_chunked :: "cstr \<Rightarrow> mem_service_record \<Rightarrow> file_world \<Rightarrow> mem_service_wire_status \<times> file_world"
  be_validate_transport :: "cstr \<Rightarrow> mem_service_record \<Rightarrow> file_world \<Rightarrow> mem_service_wire_status \<times> file_world"
  be_validate_transport_tcp ::
    "cstr \<Rightarrow> mem_service_record \<Rightarrow> file_world \<Rightarrow> mem_service_wire_status \<times> file_world"
  be_remove_chunked :: "cstr \<Rightarrow> mem_service_record \<Rightarrow> file_world \<Rightarrow> int \<times> file_world"
  be_remove_transport :: "cstr \<Rightarrow> mem_service_record \<Rightarrow> file_world \<Rightarrow> int \<times> file_world"
  be_remove_transport_tcp :: "cstr \<Rightarrow> mem_service_record \<Rightarrow> file_world \<Rightarrow> int \<times> file_world"
  be_read_chunked :: "cstr \<Rightarrow> mem_service_record \<Rightarrow> file_world \<Rightarrow> mem_service_wire_status + u8 list"

definition mem_service_copy_payload_file_to_tmp ::
  "io_env \<Rightarrow> cstr \<Rightarrow> cstr \<Rightarrow> file_world \<Rightarrow>
   mem_service_wire_status \<times> (u64 \<times> u64) \<times> file_world" where
  "mem_service_copy_payload_file_to_tmp env payload_path tmp_path fw =
     (if payload_path = [] \<or> tmp_path = [] then (STATUS_INVALID_SESSION, (0, 0), fw)
      else case fs_open env payload_path fw of
        None \<Rightarrow> (STATUS_NOT_FOUND, (0, 0), fw)
      | Some bytes \<Rightarrow>
          if \<not> io_create_ok env tmp_path then (STATUS_INTERNAL, (0, 0), fw)
          else if \<not> io_write_ok env tmp_path \<or> \<not> io_read_ok env payload_path
          then (STATUS_INTERNAL, (0, 0), fs_unlink tmp_path fw)
          else (STATUS_OK, (of_nat (length bytes), mem_service_checksum_bytes bytes),
                fw \<lparr> fw_files := (fw_files fw)(tmp_path \<mapsto> bytes) \<rparr>))"

definition seal_record :: "u32 \<Rightarrow> u64 \<Rightarrow> u64 \<Rightarrow> mem_service_record \<Rightarrow> mem_service_record" where
  "seal_record payload_kind len checksum r = r
     \<lparr> rec_object_payload_kind := payload_kind, rec_object_backing_offset := 0,
       rec_object_backing_len := len, rec_object_payload_checksum := checksum \<rparr>"

text \<open>A present field that disagrees with the measured value.\<close>

definition u64_field_differs :: "cstr \<Rightarrow> cstr \<Rightarrow> u64 \<Rightarrow> bool" where
  "u64_field_differs payload name actual =
     (case mem_service_payload_get_u64_checked payload name of
        None \<Rightarrow> False | Some expected \<Rightarrow> expected \<noteq> actual)"

text \<open>Writing a sealed-local block. First the contents are measured (an inline payload in
  memory, a file while it is copied to the temporary name), then checked against the
  declared length and checksum, then put under the name of their checksum.\<close>

definition seal_measured ::
  "io_env \<Rightarrow> cstr \<Rightarrow> cstr \<Rightarrow> cstr \<Rightarrow> cstr \<Rightarrow> mem_service_record \<Rightarrow> u64 \<Rightarrow> u64 \<Rightarrow> file_world \<Rightarrow>
   mem_service_wire_status \<times> mem_service_record \<times> file_world" where
  "seal_measured env storage_root payload payload_inline tmp_path r actual_len actual_checksum fw =
     (let has_path = (payload_inline = []);
          drop_tmp = (\<lambda>w. if has_path then fs_unlink tmp_path w else w)
      in if u64_field_differs payload ''backing_len'' actual_len
         then (STATUS_CHECKSUM_MISMATCH, r, drop_tmp fw)
         else if u64_field_differs payload ''checksum'' actual_checksum
         then (STATUS_CHECKSUM_MISMATCH, r, drop_tmp fw)
         else case mem_service_make_payload_block_path storage_root actual_checksum 512 of
           None \<Rightarrow> (STATUS_INTERNAL, r, drop_tmp fw)
         | Some block_path \<Rightarrow>
             (case (if has_path then (True, tmp_path, fw)
                    else case mem_service_make_payload_tmp_path env storage_root 512 fw of
                      (None, fw1) \<Rightarrow> (False, [], fw1)
                    | (Some tmp, fw1) \<Rightarrow>
                        (case fs_write_file env tmp (bytes_of payload_inline) fw1 of
                           (ok, fw2) \<Rightarrow> (ok, tmp, fw2))) of
                (written, tmp, fw3) \<Rightarrow>
                  if \<not> written then (STATUS_INTERNAL, r, fw3)
                  else case fs_rename env tmp block_path fw3 of
                    (renamed, fw4) \<Rightarrow>
                      if \<not> renamed then (STATUS_INTERNAL, r, fs_unlink tmp fw4)
                      else (STATUS_OK,
                            seal_record MEM_SERVICE_PAYLOAD_KIND_SEALED_LOCAL_BLOCK actual_len
                              actual_checksum r, fw4)))"

definition mem_service_write_payload_block ::
  "io_env \<Rightarrow> block_backends \<Rightarrow> block_writer" where
  "mem_service_write_payload_block env be storage_root payload payload_inline payload_path r fw =
     (let has_inline = (payload_inline \<noteq> []); has_path = (payload_path \<noteq> []);
          payload_kind = mem_service_payload_get_u32 payload ''payload_kind'' 0
      in if \<not> has_inline \<and> \<not> has_path then (STATUS_OK, r, fw)
         else if has_inline \<and> has_path then (STATUS_UNSUPPORTED, r, fw)
         else if storage_root = [] then (STATUS_UNSUPPORTED, r, fw)
         else if payload_kind = MEM_SERVICE_PAYLOAD_KIND_SEALED_CHUNKED_BLOCK
         then be_write_chunked be storage_root payload payload_inline payload_path r fw
         else if payload_kind = MEM_SERVICE_PAYLOAD_KIND_TRANSPORT_LOOPBACK_BLOCK
         then be_write_transport be storage_root payload payload_inline payload_path r fw
         else if payload_kind = MEM_SERVICE_PAYLOAD_KIND_TRANSPORT_TCP_BLOCK
         then be_write_transport_tcp be storage_root payload payload_inline payload_path r fw
         else if payload_kind \<noteq> 0 \<and> payload_kind \<noteq> MEM_SERVICE_PAYLOAD_KIND_SEALED_LOCAL_BLOCK
         then (STATUS_UNSUPPORTED, r, fw)
         else if has_inline
         then seal_measured env storage_root payload payload_inline [] r
                (of_nat (length payload_inline)) (mem_service_checksum_bytes (bytes_of payload_inline)) fw
         else case mem_service_make_payload_tmp_path env storage_root 512 fw of
           (None, fw1) \<Rightarrow> (STATUS_INTERNAL, r, fw1)
         | (Some tmp_path, fw1) \<Rightarrow>
             (case mem_service_copy_payload_file_to_tmp env payload_path tmp_path fw1 of
                (status, (actual_len, actual_checksum), fw2) \<Rightarrow>
                  if status \<noteq> STATUS_OK then (status, r, fw2)
                  else seal_measured env storage_root payload [] tmp_path r actual_len
                         actual_checksum fw2))"

section \<open>Validating\<close>

definition mem_service_validate_payload_block ::
  "io_env \<Rightarrow> block_backends \<Rightarrow> cstr \<Rightarrow> mem_service_record \<Rightarrow> file_world \<Rightarrow>
   mem_service_wire_status \<times> file_world" where
  "mem_service_validate_payload_block env be storage_root r fw =
     (if rec_object_payload_kind r = MEM_SERVICE_PAYLOAD_KIND_SEALED_CHUNKED_BLOCK
      then be_validate_chunked be storage_root r fw
      else if rec_object_payload_kind r = MEM_SERVICE_PAYLOAD_KIND_TRANSPORT_LOOPBACK_BLOCK
      then be_validate_transport be storage_root r fw
      else if rec_object_payload_kind r = MEM_SERVICE_PAYLOAD_KIND_TRANSPORT_TCP_BLOCK
      then be_validate_transport_tcp be storage_root r fw
      else if rec_object_payload_kind r \<noteq> MEM_SERVICE_PAYLOAD_KIND_SEALED_LOCAL_BLOCK
      then (STATUS_OK, fw)
      else if storage_root = [] \<or> rec_object_payload_checksum r = 0
      then (STATUS_CHECKSUM_MISMATCH, fw)
      else case mem_service_make_payload_block_path storage_root (rec_object_payload_checksum r) 512 of
        None \<Rightarrow> (STATUS_CHECKSUM_MISMATCH, fw)
      | Some block_path \<Rightarrow>
          (case fs_open env block_path fw of
             None \<Rightarrow> (STATUS_CHECKSUM_MISMATCH, fw)
           | Some bytes \<Rightarrow>
               if \<not> io_read_ok env block_path \<or>
                  of_nat (length bytes) \<noteq> rec_object_backing_len r \<or>
                  mem_service_checksum_bytes bytes \<noteq> rec_object_payload_checksum r
               then (STATUS_CHECKSUM_MISMATCH,
                     mem_service_quarantine_payload_block env storage_root
                       (rec_object_payload_checksum r) fw)
               else (STATUS_OK, fw)))"

section \<open>Garbage collection\<close>

definition mem_service_record_has_payload_block :: "mem_service_record \<Rightarrow> bool" where
  "mem_service_record_has_payload_block r \<longleftrightarrow>
     \<not> (\<not> rec_in_use r \<or> rec_object_payload_checksum r = 0) \<and>
     (rec_object_payload_kind r = MEM_SERVICE_PAYLOAD_KIND_SEALED_LOCAL_BLOCK \<or>
      rec_object_payload_kind r = MEM_SERVICE_PAYLOAD_KIND_SEALED_CHUNKED_BLOCK \<or>
      rec_object_payload_kind r = MEM_SERVICE_PAYLOAD_KIND_TRANSPORT_LOOPBACK_BLOCK \<or>
      rec_object_payload_kind r = MEM_SERVICE_PAYLOAD_KIND_TRANSPORT_TCP_BLOCK)"

definition mem_service_payload_block_is_referenced ::
  "mem_service \<Rightarrow> mem_service_record \<Rightarrow> nat \<Rightarrow> bool" where
  "mem_service_payload_block_is_referenced svc r skip_index \<longleftrightarrow>
     mem_service_record_has_payload_block r \<and>
     list_ex (\<lambda>i. i \<noteq> skip_index \<and> rec_in_use (svc_records svc ! i) \<and>
        rec_object_payload_kind (svc_records svc ! i) = rec_object_payload_kind r \<and>
        rec_object_payload_checksum (svc_records svc ! i) = rec_object_payload_checksum r)
       [0..<length (svc_records svc)]"

definition mem_service_unlink_if_exists :: "io_env \<Rightarrow> cstr \<Rightarrow> file_world \<Rightarrow> int \<times> file_world" where
  "mem_service_unlink_if_exists env path fw =
     (if path = [] then (-1, fw)
      else case fw_files fw path of
        None \<Rightarrow> (0, fw)
      | Some _ \<Rightarrow> if io_unlink_ok env path then (1, fs_unlink path fw) else (-1, fw))"

definition mem_service_remove_sealed_local_payload_block ::
  "io_env \<Rightarrow> cstr \<Rightarrow> mem_service_record \<Rightarrow> file_world \<Rightarrow> int \<times> file_world" where
  "mem_service_remove_sealed_local_payload_block env storage_root r fw =
     (if storage_root = [] then (-1, fw)
      else case mem_service_make_payload_block_path storage_root (rec_object_payload_checksum r) 512 of
        None \<Rightarrow> (-1, fw)
      | Some block_path \<Rightarrow> mem_service_unlink_if_exists env block_path fw)"

definition mem_service_gc_payload_block_if_orphaned ::
  "io_env \<Rightarrow> block_backends \<Rightarrow> mem_service \<Rightarrow> nat \<Rightarrow> cstr \<Rightarrow> file_world \<Rightarrow> u64 \<Rightarrow> bool \<times> u64 \<times> file_world" where
  "mem_service_gc_payload_block_if_orphaned env be svc record_index storage_root fw payload_gc =
     (if record_index \<ge> length (svc_records svc) \<or> storage_root = [] then (False, payload_gc, fw)
      else let r = svc_records svc ! record_index in
        if \<not> mem_service_record_has_payload_block r \<or>
           mem_service_payload_block_is_referenced svc r record_index
        then (False, payload_gc, fw)
        else case (if rec_object_payload_kind r = MEM_SERVICE_PAYLOAD_KIND_SEALED_LOCAL_BLOCK
                   then mem_service_remove_sealed_local_payload_block env storage_root r fw
                   else if rec_object_payload_kind r = MEM_SERVICE_PAYLOAD_KIND_SEALED_CHUNKED_BLOCK
                   then be_remove_chunked be storage_root r fw
                   else if rec_object_payload_kind r = MEM_SERVICE_PAYLOAD_KIND_TRANSPORT_LOOPBACK_BLOCK
                   then be_remove_transport be storage_root r fw
                   else if rec_object_payload_kind r = MEM_SERVICE_PAYLOAD_KIND_TRANSPORT_TCP_BLOCK
                   then be_remove_transport_tcp be storage_root r fw
                   else (0, fw)) of
          (rc, fw') \<Rightarrow> (rc > 0, if rc > 0 then payload_gc + 1 else payload_gc, fw'))"

section \<open>Materialising\<close>

definition mem_service_make_remote_dir_path :: "cstr \<Rightarrow> u64 \<Rightarrow> cstr \<Rightarrow> nat \<Rightarrow> cstr option" where
  "mem_service_make_remote_dir_path storage_root checksum suffix path_len =
     (case mem_service_join_path 512 storage_root ''remote-blocks'' of
        None \<Rightarrow> None
      | Some block_dir \<Rightarrow>
          let dir_name = hex16 checksum @ suffix in
          if length dir_name \<ge> 64 then None else mem_service_join_path path_len block_dir dir_name)"

definition mem_service_materialize_source_path ::
  "cstr \<Rightarrow> mem_service_record \<Rightarrow> nat \<Rightarrow> cstr option" where
  "mem_service_materialize_source_path storage_root r path_len =
     (if rec_object_payload_kind r = MEM_SERVICE_PAYLOAD_KIND_SEALED_LOCAL_BLOCK
      then mem_service_make_payload_block_path storage_root (rec_object_payload_checksum r) path_len
      else if rec_object_payload_kind r = MEM_SERVICE_PAYLOAD_KIND_TRANSPORT_LOOPBACK_BLOCK
      then (case mem_service_make_remote_dir_path storage_root (rec_object_payload_checksum r)
                   ''.transport'' 512 of
              None \<Rightarrow> None
            | Some dir_path \<Rightarrow> mem_service_join_path path_len dir_path ''payload.block'')
      else if rec_object_payload_kind r = MEM_SERVICE_PAYLOAD_KIND_TRANSPORT_TCP_BLOCK
      then (case mem_service_make_remote_dir_path storage_root (rec_object_payload_checksum r)
                   ''.tcp'' 512 of
              None \<Rightarrow> None
            | Some dir_path \<Rightarrow> mem_service_join_path path_len dir_path ''payload.block'')
      else None)"

text \<open>The bytes the copy loop reads, or the status it returns after closing and unlinking.\<close>

definition materialize_source ::
  "io_env \<Rightarrow> block_backends \<Rightarrow> cstr \<Rightarrow> mem_service_record \<Rightarrow> cstr \<Rightarrow> file_world \<Rightarrow>
   mem_service_wire_status + u8 list" where
  "materialize_source env be storage_root r tmp_path fw =
     (if rec_object_payload_kind r = MEM_SERVICE_PAYLOAD_KIND_SEALED_CHUNKED_BLOCK
      then (case be_read_chunked be storage_root r fw of
              Inl status \<Rightarrow> Inl status
            | Inr bytes \<Rightarrow> if io_short_write env tmp_path then Inl STATUS_CHECKSUM_MISMATCH else Inr bytes)
      else case mem_service_materialize_source_path storage_root r 512 of
        None \<Rightarrow> Inl STATUS_UNSUPPORTED
      | Some source_path \<Rightarrow>
          (case fs_open env source_path fw of
             None \<Rightarrow> Inl STATUS_CHECKSUM_MISMATCH
           | Some bytes \<Rightarrow>
               if io_short_write env tmp_path \<or> \<not> io_read_ok env source_path
               then Inl STATUS_CHECKSUM_MISMATCH else Inr bytes))"

definition mem_service_materialize_payload_block ::
  "io_env \<Rightarrow> block_backends \<Rightarrow> cstr \<Rightarrow> mem_service_record \<Rightarrow> cstr \<Rightarrow> file_world \<Rightarrow>
   mem_service_wire_status \<times> file_world" where
  "mem_service_materialize_payload_block env be storage_root r destination_path fw =
     (if destination_path = [] then (STATUS_INVALID_SESSION, fw)
      else case mem_service_validate_payload_block env be storage_root r fw of
        (validation_status, fw1) \<Rightarrow>
          if validation_status \<noteq> STATUS_OK then (validation_status, fw1)
          else if \<not> mem_service_record_has_payload_block r then (STATUS_UNSUPPORTED, fw1)
          else let seq = fw_tmp_seq fw1 + 1;
                   fw2 = fw1 \<lparr> fw_tmp_seq := seq \<rparr>;
                   tmp_path = destination_path @ ''.tmp.'' @ decimal (io_pid env) @ ''.'' @ show_word seq
               in if length tmp_path \<ge> 768 then (STATUS_INVALID_SESSION, fw2)
                  else if fw_files fw2 tmp_path \<noteq> None then (STATUS_VERSION_CONFLICT, fw2)
                  else if \<not> io_create_ok env tmp_path then (STATUS_INTERNAL, fw2)
                  else case materialize_source env be storage_root r tmp_path fw2 of
                    Inl status \<Rightarrow> (status, fs_unlink tmp_path fw2)
                  | Inr bytes \<Rightarrow>
                      if \<not> io_write_ok env tmp_path then (STATUS_INTERNAL, fs_unlink tmp_path fw2)
                      else if of_nat (length bytes) \<noteq> rec_object_backing_len r \<or>
                              mem_service_checksum_bytes bytes \<noteq> rec_object_payload_checksum r
                      then (STATUS_CHECKSUM_MISMATCH,
                            snd (mem_service_validate_payload_block env be storage_root r
                                   (fs_unlink tmp_path fw2)))
                      else if fw_files fw2 destination_path \<noteq> None
                      then (STATUS_VERSION_CONFLICT, fs_unlink tmp_path fw2)
                      else if \<not> io_rename_ok env destination_path
                      then (STATUS_INTERNAL, fs_unlink tmp_path fw2)
                      else (STATUS_OK, fs_unlink tmp_path
                              (fw2 \<lparr> fw_files := (fw_files fw2)(destination_path \<mapsto> bytes) \<rparr>)))"

section \<open>Paths identify checksums\<close>

lemma hex_digit_inj:
  assumes "m < 16" "n < 16" "hex_digit m = hex_digit n"
  shows "m = n"
proof -
  have v: "(of_char (hex_digit k) :: nat) = (if k < 10 then 48 + k else 87 + k)" if "k < 16" for k
    using that by (simp add: hex_digit_def)
  have "(if m < 10 then 48 + m else 87 + m) = (if n < 10 then 48 + n else 87 + n)"
    unfolding v [OF assms(1), symmetric] v [OF assms(2), symmetric] assms(3) ..
  with assms(1,2) show ?thesis by (simp split: if_splits)
qed

lemma nibble_less: "unat ((w :: u64) AND 15) < 16"
proof -
  have "w AND 15 = take_bit 4 w" by (simp add: take_bit_eq_mask mask_eq_exp_minus_1)
  then show ?thesis using take_bit_nat_less_exp [of 4 "unat w"] by (simp add: unsigned_take_bit_eq)
qed

lemma hex16_inj:
  assumes "hex16 v = hex16 w"
  shows "v = w"
proof (rule bit_word_eqI)
  fix n
  assume "n < LENGTH(64)"
  then have n: "n div 4 < 16" by auto
  let ?i = "n div 4"
  have "\<forall>i\<in>set (rev [0..<16]). hex_digit (unat (drop_bit (4 * i) v AND 15)) =
      hex_digit (unat (drop_bit (4 * i) w AND 15))"
    using assms by (simp only: hex16_def map_eq_conv)
  with n have "hex_digit (unat (drop_bit (4 * ?i) v AND 15)) = hex_digit (unat (drop_bit (4 * ?i) w AND 15))"
    by (simp del: upt_Suc)
  then have "unat (drop_bit (4 * ?i) v AND 15) = unat (drop_bit (4 * ?i) w AND 15)"
    by (rule hex_digit_inj [OF nibble_less nibble_less])
  then have eq: "drop_bit (4 * ?i) v AND 15 = drop_bit (4 * ?i) w AND 15"
    by (rule unsigned_word_eqI)
  have b: "bit (drop_bit (4 * ?i) u AND 15) (n mod 4) = bit u n" for u :: u64
  proof -
    have m: "(15 :: u64) = mask 4" by (simp add: mask_eq_exp_minus_1)
    have "4 * ?i + n mod 4 = n" "n mod 4 < 64" using mod_less_divisor [of 4 n] by (simp, linarith)
    then show ?thesis unfolding m by (simp only: bit_and_iff bit_drop_bit_eq bit_mask_iff o_def) simp
  qed
  from b [of v] b [of w] eq show "bit v n = bit w n" by simp
qed

lemma block_path_inj:
  assumes "mem_service_make_payload_block_path root c n = Some p"
    and "mem_service_make_payload_block_path root c' n = Some p"
  shows "c = c'"
  using assms hex16_inj [of c c']
  by (auto simp: mem_service_make_payload_block_path_def mem_service_join_path_def Let_def
      split: option.splits if_splits)

lemma quarantine_ne_block_path:
  assumes "mem_service_make_payload_block_path root c n = Some p"
    and "mem_service_make_payload_quarantine_path env root c' n' = Some q"
  shows "p \<noteq> q"
  using assms
  by (auto simp: mem_service_make_payload_block_path_def mem_service_join_path_def Let_def
      mem_service_make_payload_quarantine_path_def split: option.splits if_splits)

section \<open>Sealing\<close>

lemma rename_okD:
  "fs_rename env a b fw = (True, fw') \<Longrightarrow> \<exists>bytes. fw_files fw a = Some bytes \<and> fw_files fw' b = Some bytes"
  by (auto simp: fs_rename_def split: option.splits if_splits)

lemma seal_measured_okD:
  assumes "seal_measured env root payload inl tmp r len chk fw = (STATUS_OK, r', fw')"
  shows "r' = seal_record MEM_SERVICE_PAYLOAD_KIND_SEALED_LOCAL_BLOCK len chk r \<and>
    (\<exists>bp bytes. mem_service_make_payload_block_path root chk 512 = Some bp \<and>
       fw_files fw' bp = Some bytes \<and>
       (if inl = [] then fw_files fw tmp = Some bytes else bytes = bytes_of inl))"
  using assms
  by (auto simp: seal_measured_def Let_def fs_write_file_def dest!: rename_okD
      split: if_splits option.splits prod.splits)

text \<open>Any outcome of a write keeps what identifies the record, when the layouts that are
  arguments do.\<close>

definition writers_keep_identity :: "block_backends \<Rightarrow> bool" where
  "writers_keep_identity be \<longleftrightarrow>
     (\<forall>root p i q r fw. same_record_identity r (fst (snd (be_write_chunked be root p i q r fw))) \<and>
        same_record_identity r (fst (snd (be_write_transport be root p i q r fw))) \<and>
        same_record_identity r (fst (snd (be_write_transport_tcp be root p i q r fw))))"

lemma seal_measured_identity:
  "seal_measured env root payload inl tmp r len chk fw = (st, r', fw') \<Longrightarrow> same_record_identity r r'"
  by (auto simp: seal_measured_def Let_def seal_record_def same_record_identity_def
      split: if_splits option.splits prod.splits)

lemma write_payload_block_identity:
  assumes be: "writers_keep_identity be"
    and run: "mem_service_write_payload_block env be root payload inl path r fw = (st, r', fw')"
  shows "same_record_identity r r'"
proof -
  have "be_write_chunked be root payload inl path r fw = (st, r', fw') \<Longrightarrow> same_record_identity r r'"
    "be_write_transport be root payload inl path r fw = (st, r', fw') \<Longrightarrow> same_record_identity r r'"
    "be_write_transport_tcp be root payload inl path r fw = (st, r', fw') \<Longrightarrow> same_record_identity r r'"
    using be unfolding writers_keep_identity_def by (metis fst_conv snd_conv)+
  with run show ?thesis
    by (auto simp: mem_service_write_payload_block_def Let_def dest: seal_measured_identity
        split: if_splits option.splits prod.splits)
qed

text \<open>What the validator answers for a sealed-local record, on every branch.\<close>

lemma validate_sealed_cases:
  assumes "rec_object_payload_kind r = MEM_SERVICE_PAYLOAD_KIND_SEALED_LOCAL_BLOCK"
  shows "mem_service_validate_payload_block env be root r fw =
    (case mem_service_make_payload_block_path root (rec_object_payload_checksum r) 512 of
       None \<Rightarrow> (STATUS_CHECKSUM_MISMATCH, fw)
     | Some bp \<Rightarrow>
         (case fw_files fw bp of
            None \<Rightarrow> (STATUS_CHECKSUM_MISMATCH, fw)
          | Some bytes \<Rightarrow>
              if rec_object_payload_checksum r = 0 \<or> \<not> io_open_ok env bp then (STATUS_CHECKSUM_MISMATCH, fw)
              else if io_read_ok env bp \<and> rec_object_backing_len r = of_nat (length bytes) \<and>
                  rec_object_payload_checksum r = mem_service_checksum_bytes bytes
              then (STATUS_OK, fw)
              else (STATUS_CHECKSUM_MISMATCH,
                    mem_service_quarantine_payload_block env root (rec_object_payload_checksum r) fw)))"
proof -
  have "mem_service_make_payload_block_path [] c n = None" for c n
    by (simp add: mem_service_make_payload_block_path_def mem_service_join_path_def)
  then show ?thesis
    using assms by (auto simp: mem_service_validate_payload_block_def payload_kind_defs fs_open_def split: option.split)
qed

lemma sealed_write_stores:
  assumes run: "mem_service_write_payload_block env be root payload inl path r fw = (STATUS_OK, r', fw')"
    and some: "inl \<noteq> [] \<or> path \<noteq> []"
    and kind: "mem_service_payload_get_u32 payload ''payload_kind'' 0 \<in>
      {0, MEM_SERVICE_PAYLOAD_KIND_SEALED_LOCAL_BLOCK}"
  shows "\<exists>bp bytes.
    mem_service_make_payload_block_path root (rec_object_payload_checksum r') 512 = Some bp \<and>
    fw_files fw' bp = Some bytes \<and>
    (if inl \<noteq> [] then bytes = bytes_of inl else fw_files fw path = Some bytes) \<and>
    rec_object_payload_kind r' = MEM_SERVICE_PAYLOAD_KIND_SEALED_LOCAL_BLOCK \<and>
    rec_object_backing_len r' = of_nat (length bytes) \<and>
    rec_object_payload_checksum r' = mem_service_checksum_bytes bytes"
proof -
  have root: "root \<noteq> []" using run some
    by (auto simp: mem_service_write_payload_block_def Let_def split: if_splits)
  obtain bytes tmp fw1 len chk where
    seal: "seal_measured env root payload inl tmp r len chk fw1 = (STATUS_OK, r', fw')"
    and b: "len = of_nat (length bytes)" "chk = mem_service_checksum_bytes bytes"
      "if inl \<noteq> [] then bytes = bytes_of inl else fw_files fw path = Some bytes \<and> fw_files fw1 tmp = Some bytes"
  proof (cases "inl = []")
    case False
    with run kind root have "seal_measured env root payload inl [] r (of_nat (length inl))
        (mem_service_checksum_bytes (bytes_of inl)) fw = (STATUS_OK, r', fw')"
      by (auto simp: mem_service_write_payload_block_def Let_def payload_kind_defs split: if_splits)
    from that [OF this, of "bytes_of inl"] False show thesis by (simp add: bytes_of_def)
  next
    case True
    with run kind root some obtain tmp fw1 fw2 len chk where
      "mem_service_make_payload_tmp_path env root 512 fw = (Some tmp, fw1)"
      and copy: "mem_service_copy_payload_file_to_tmp env path tmp fw1 = (STATUS_OK, (len, chk), fw2)"
      and seal: "seal_measured env root payload [] tmp r len chk fw2 = (STATUS_OK, r', fw')"
      by (auto simp: mem_service_write_payload_block_def Let_def payload_kind_defs
          split: if_splits option.splits prod.splits)
    then have files: "fw_files fw1 = fw_files fw"
      by (auto simp: mem_service_make_payload_tmp_path_def Let_def split: option.splits if_splits)
    from copy obtain bytes where "fw_files fw1 path = Some bytes" "len = of_nat (length bytes)"
      "chk = mem_service_checksum_bytes bytes" "fw_files fw2 tmp = Some bytes"
      by (auto simp: mem_service_copy_payload_file_to_tmp_def fs_open_def
          split: if_splits option.splits)
    with that [of tmp len chk fw2 bytes] seal files True show thesis by simp
  qed
  from seal_measured_okD [OF seal] obtain bp bytes' where
    r': "r' = seal_record MEM_SERVICE_PAYLOAD_KIND_SEALED_LOCAL_BLOCK len chk r"
    and bp: "mem_service_make_payload_block_path root chk 512 = Some bp" "fw_files fw' bp = Some bytes'"
    and "if inl = [] then fw_files fw1 tmp = Some bytes' else bytes' = bytes_of inl" by auto
  with b(3) have "bytes' = bytes" by (auto split: if_splits)
  have sel: "rec_object_payload_kind r' = MEM_SERVICE_PAYLOAD_KIND_SEALED_LOCAL_BLOCK"
    "rec_object_payload_checksum r' = chk" "rec_object_backing_len r' = len"
    by (simp_all add: r' seal_record_def)
  with bp b \<open>bytes' = bytes\<close> show ?thesis by (auto split: if_splits)
qed

lemma sealed_write_validates:
  assumes run: "mem_service_write_payload_block env be root payload inl path r fw = (STATUS_OK, r', fw')"
    and some: "inl \<noteq> [] \<or> path \<noteq> []"
    and kind: "mem_service_payload_get_u32 payload ''payload_kind'' 0 \<in>
      {0, MEM_SERVICE_PAYLOAD_KIND_SEALED_LOCAL_BLOCK}"
    and nz: "rec_object_payload_checksum r' \<noteq> 0"
    and io: "\<And>p. io_open_ok env p" "\<And>p. io_read_ok env p"
  shows "\<exists>bp bytes.
    mem_service_make_payload_block_path root (rec_object_payload_checksum r') 512 = Some bp \<and>
    fw_files fw' bp = Some bytes \<and>
    (if inl \<noteq> [] then bytes = bytes_of inl else fw_files fw path = Some bytes) \<and>
    rec_object_backing_len r' = of_nat (length bytes) \<and>
    rec_object_payload_checksum r' = mem_service_checksum_bytes bytes \<and>
    mem_service_validate_payload_block env be root r' fw' = (STATUS_OK, fw')"
proof -
  obtain bp bytes where w: "mem_service_make_payload_block_path root (rec_object_payload_checksum r') 512 = Some bp"
    "fw_files fw' bp = Some bytes" "if inl \<noteq> [] then bytes = bytes_of inl else fw_files fw path = Some bytes"
    "rec_object_payload_kind r' = MEM_SERVICE_PAYLOAD_KIND_SEALED_LOCAL_BLOCK"
    "rec_object_backing_len r' = of_nat (length bytes)" "rec_object_payload_checksum r' = mem_service_checksum_bytes bytes"
    using sealed_write_stores [OF run some kind] by blast
  with nz io have "mem_service_validate_payload_block env be root r' fw' = (STATUS_OK, fw')"
    by (simp add: validate_sealed_cases)
  with w show ?thesis by blast
qed

text \<open>C27. Content-addressed blocks round-trip. When \<open>mem_service_write_payload_block\<close> reports
  success for a sealed-local payload, the file named by the recorded checksum holds exactly
  the inline payload or the source file, and the record carries its length and checksum.
  Validating the record right afterwards, with a block file that can be opened and read,
  succeeds without touching the file system. The one exception is a payload whose checksum
  happens to be 0: it is written with success, but the validator takes 0 for a record
  without a block and answers a checksum mismatch.\<close>

theorem sealed_block_roundtrip:
  assumes run: "mem_service_write_payload_block env be root payload inl path r fw = (STATUS_OK, r', fw')"
    and some: "inl \<noteq> [] \<or> path \<noteq> []"
    and kind: "mem_service_payload_get_u32 payload ''payload_kind'' 0 \<in>
      {0, MEM_SERVICE_PAYLOAD_KIND_SEALED_LOCAL_BLOCK}"
  shows "\<exists>bp bytes.
    mem_service_make_payload_block_path root (rec_object_payload_checksum r') 512 = Some bp \<and>
    fw_files fw' bp = Some bytes \<and>
    (if inl \<noteq> [] then bytes = bytes_of inl else fw_files fw path = Some bytes) \<and>
    rec_object_payload_kind r' = MEM_SERVICE_PAYLOAD_KIND_SEALED_LOCAL_BLOCK \<and>
    rec_object_backing_len r' = of_nat (length bytes) \<and>
    rec_object_payload_checksum r' = mem_service_checksum_bytes bytes \<and>
    (\<forall>env'. io_open_ok env' bp \<and> io_read_ok env' bp \<longrightarrow>
       mem_service_validate_payload_block env' be root r' fw' =
         (if rec_object_payload_checksum r' = 0 then STATUS_CHECKSUM_MISMATCH else STATUS_OK, fw'))"
proof -
  obtain bp bytes where w: "mem_service_make_payload_block_path root (rec_object_payload_checksum r') 512 = Some bp"
    "fw_files fw' bp = Some bytes" "if inl \<noteq> [] then bytes = bytes_of inl else fw_files fw path = Some bytes"
    "rec_object_payload_kind r' = MEM_SERVICE_PAYLOAD_KIND_SEALED_LOCAL_BLOCK"
    "rec_object_backing_len r' = of_nat (length bytes)" "rec_object_payload_checksum r' = mem_service_checksum_bytes bytes"
    using sealed_write_stores [OF assms] by blast
  then have "\<forall>env'. io_open_ok env' bp \<and> io_read_ok env' bp \<longrightarrow>
      mem_service_validate_payload_block env' be root r' fw' =
        (if rec_object_payload_checksum r' = 0 then STATUS_CHECKSUM_MISMATCH else STATUS_OK, fw')"
    by (simp add: validate_sealed_cases)
  with w show ?thesis by blast
qed

text \<open>C31. Reads fail closed. For a sealed-local record, validation reports success exactly when the
  checksum is not 0 and the file named by it can be opened and read and has the recorded length and
  checksum; it then changes nothing, and every other answer is a checksum mismatch. In particular
  contents that differ in one byte from contents with the recorded checksum are a mismatch. A file that
  was opened and found wrong leaves the block's name: when the quarantine path fits its buffer and the
  rename succeeds, the damaged contents are found there and no longer under the block's name, and no
  other file changes.\<close>

theorem corrupted_block_fails_closed:
  assumes kind: "rec_object_payload_kind r = MEM_SERVICE_PAYLOAD_KIND_SEALED_LOCAL_BLOCK"
    and bp: "mem_service_make_payload_block_path root (rec_object_payload_checksum r) 512 = Some bp"
    and run: "mem_service_validate_payload_block env be root r fw = (st, fw')"
  defines "good \<equiv> \<lambda>bytes. rec_object_backing_len r = of_nat (length bytes) \<and>
      rec_object_payload_checksum r = mem_service_checksum_bytes bytes"
  shows "(st = STATUS_OK \<longleftrightarrow> rec_object_payload_checksum r \<noteq> 0 \<and> io_open_ok env bp \<and> io_read_ok env bp \<and>
       (\<exists>bytes. fw_files fw bp = Some bytes \<and> good bytes)) \<and>
    (if st = STATUS_OK then fw' = fw else st = STATUS_CHECKSUM_MISMATCH) \<and>
    (\<forall>bytes i c. good bytes \<and> i < length bytes \<and> c \<noteq> bytes ! i \<and> fw_files fw bp = Some (bytes[i := c]) \<longrightarrow>
       st = STATUS_CHECKSUM_MISMATCH) \<and>
    (\<forall>bytes qp. fw_files fw bp = Some bytes \<and> \<not> good bytes \<and> rec_object_payload_checksum r \<noteq> 0 \<and> io_open_ok env bp \<and>
       mem_service_make_payload_quarantine_path env root (rec_object_payload_checksum r) 512 = Some qp \<and> io_rename_ok env qp \<longrightarrow>
       fw_files fw' = (fw_files fw)(bp := None, qp \<mapsto> bytes))"
proof (intro conjI allI impI)
  note V = run [unfolded validate_sealed_cases [OF kind], simplified bp option.case]
  show "st = STATUS_OK \<longleftrightarrow> rec_object_payload_checksum r \<noteq> 0 \<and> io_open_ok env bp \<and> io_read_ok env bp \<and>
       (\<exists>bytes. fw_files fw bp = Some bytes \<and> good bytes)"
    "if st = STATUS_OK then fw' = fw else st = STATUS_CHECKSUM_MISMATCH"
    using V by (auto simp: good_def split: option.splits if_splits)
next
  note V = run [unfolded validate_sealed_cases [OF kind], simplified bp option.case]
  fix bytes i c
  assume A: "good bytes \<and> i < length bytes \<and> c \<noteq> bytes ! i \<and> fw_files fw bp = Some (bytes[i := c])"
  then have "mem_service_checksum_bytes (bytes[i := c]) \<noteq> mem_service_checksum_bytes bytes"
    using fnv64.foldl_detects_byte [of i bytes c] by (simp add: mem_service_checksum_bytes_def)
  with V A show "st = STATUS_CHECKSUM_MISMATCH" by (auto simp: good_def split: if_splits)
next
  note V = run [unfolded validate_sealed_cases [OF kind], simplified bp option.case]
  fix bytes qp
  assume A: "fw_files fw bp = Some bytes \<and> \<not> good bytes \<and> rec_object_payload_checksum r \<noteq> 0 \<and> io_open_ok env bp \<and>
       mem_service_make_payload_quarantine_path env root (rec_object_payload_checksum r) 512 = Some qp \<and> io_rename_ok env qp"
  have "root \<noteq> []" using bp
    by (auto simp: mem_service_make_payload_block_path_def mem_service_join_path_def split: if_splits)
  with V A bp show "fw_files fw' = (fw_files fw)(bp := None, qp \<mapsto> bytes)"
    by (auto simp: good_def mem_service_quarantine_payload_block_def fs_rename_def split: if_splits)
qed

text \<open>Materialising an object publishes exactly the object and never overwrites a file: when
  \<open>mem_service_materialize_payload_block\<close> succeeds for a sealed-local record, the destination
  did not exist before the call wrote it, and it now holds bytes of the recorded length and
  checksum.\<close>

theorem materialize_publishes_object:
  assumes run: "mem_service_materialize_payload_block env be root r dest fw = (STATUS_OK, fw')"
    and kind: "rec_object_payload_kind r = MEM_SERVICE_PAYLOAD_KIND_SEALED_LOCAL_BLOCK"
  shows "fw_files fw dest = None \<and>
    (\<exists>bytes. fw_files fw' dest = Some bytes \<and> of_nat (length bytes) = rec_object_backing_len r \<and>
       mem_service_checksum_bytes bytes = rec_object_payload_checksum r)"
proof -
  obtain st fw1 where v: "mem_service_validate_payload_block env be root r fw = (st, fw1)" by fastforce
  define tmp where "tmp = dest @ ''.tmp.'' @ decimal (io_pid env) @ ''.'' @ show_word (fw_tmp_seq fw1 + 1)"
  have ne: "dest \<noteq> tmp" by (simp add: tmp_def)
  from run v have "st = STATUS_OK"
    by (auto simp: mem_service_materialize_payload_block_def split: if_splits)
  with v kind have "fw1 = fw"
    by (auto simp: mem_service_validate_payload_block_def payload_kind_defs split: if_splits option.splits)
  with run v \<open>st = STATUS_OK\<close> ne show ?thesis
    by (auto simp: mem_service_materialize_payload_block_def Let_def tmp_def [symmetric] fs_unlink_def
        materialize_source_def kind payload_kind_defs split: if_splits sum.splits option.splits)
qed

section \<open>Witnesses\<close>

definition healthy_env :: io_env where
  "healthy_env = \<lparr> io_pid = 7, io_wall_clock_ms = 1000, io_create_ok = (\<lambda>_. True),
     io_write_ok = (\<lambda>_. True), io_open_ok = (\<lambda>_. True), io_read_ok = (\<lambda>_. True),
     io_rename_ok = (\<lambda>_. True), io_unlink_ok = (\<lambda>_. True),
     io_short_write = (\<lambda>_. False) \<rparr>"

text \<open>Layouts that refuse every block.\<close>

definition refusing_backends :: block_backends where
  "refusing_backends =
     \<lparr> be_write_chunked = (\<lambda>_ _ _ _ r fw. (STATUS_UNSUPPORTED, r, fw)),
       be_write_transport = (\<lambda>_ _ _ _ r fw. (STATUS_UNSUPPORTED, r, fw)),
       be_write_transport_tcp = (\<lambda>_ _ _ _ r fw. (STATUS_UNSUPPORTED, r, fw)),
       be_validate_chunked = (\<lambda>_ _ fw. (STATUS_UNSUPPORTED, fw)),
       be_validate_transport = (\<lambda>_ _ fw. (STATUS_UNSUPPORTED, fw)),
       be_validate_transport_tcp = (\<lambda>_ _ fw. (STATUS_UNSUPPORTED, fw)),
       be_remove_chunked = (\<lambda>_ _ fw. (-1, fw)), be_remove_transport = (\<lambda>_ _ fw. (-1, fw)),
       be_remove_transport_tcp = (\<lambda>_ _ fw. (-1, fw)),
       be_read_chunked = (\<lambda>_ _ _. Inl STATUS_CHECKSUM_MISMATCH) \<rparr>"

lemma refusing_keep_identity: "writers_keep_identity refusing_backends"
  by (simp add: writers_keep_identity_def refusing_backends_def)

definition empty_disk :: file_world where
  "empty_disk = \<lparr> fw_files = Map.empty, fw_tmp_seq = 0 \<rparr>"

definition demo_write :: "mem_service_wire_status \<times> mem_service_record \<times> file_world" where
  "demo_write = mem_service_write_payload_block healthy_env refusing_backends ''/d'' [] ''hi'' []
     zero_record empty_disk"

lemma demo_write_ok:
  "fst demo_write = STATUS_OK" "rec_object_payload_checksum (fst (snd demo_write)) \<noteq> 0"
  by (code_simp, code_simp)

theorem sealed_block_roundtrip_witness:
  "\<exists>bp. fw_files (snd (snd demo_write)) bp = Some [104, 105] \<and>
     fst (mem_service_validate_payload_block healthy_env refusing_backends ''/d''
            (fst (snd demo_write)) (snd (snd demo_write))) = STATUS_OK"
proof -
  have run: "mem_service_write_payload_block healthy_env refusing_backends ''/d'' [] ''hi'' []
      zero_record empty_disk = (STATUS_OK, fst (snd demo_write), snd (snd demo_write))"
    using demo_write_ok(1) by (metis demo_write_def prod.collapse)
  have kind: "mem_service_payload_get_u32 [] ''payload_kind'' 0 \<in>
      {0, MEM_SERVICE_PAYLOAD_KIND_SEALED_LOCAL_BLOCK}"
    by code_simp
  have bytes: "bytes_of ''hi'' = [104, 105]" by code_simp
  from sealed_block_roundtrip [OF run _ kind] obtain bp where
    "fw_files (snd (snd demo_write)) bp = Some (bytes_of ''hi'')"
    "\<forall>env'. io_open_ok env' bp \<and> io_read_ok env' bp \<longrightarrow>
       mem_service_validate_payload_block env' refusing_backends ''/d'' (fst (snd demo_write)) (snd (snd demo_write)) =
         (if rec_object_payload_checksum (fst (snd demo_write)) = 0 then STATUS_CHECKSUM_MISMATCH else STATUS_OK,
          snd (snd demo_write))" by auto
  moreover from this(2) [rule_format, of healthy_env]
  have "fst (mem_service_validate_payload_block healthy_env refusing_backends ''/d''
          (fst (snd demo_write)) (snd (snd demo_write))) = STATUS_OK"
    using demo_write_ok(2) by (simp add: healthy_env_def)
  ultimately show ?thesis unfolding bytes by auto
qed

definition demo_sealed :: mem_service_record where
  "demo_sealed = (seal_record MEM_SERVICE_PAYLOAD_KIND_SEALED_LOCAL_BLOCK 2
     (mem_service_checksum_bytes [104, 105]) zero_record) \<lparr> rec_in_use := True \<rparr>"

definition other_sealed :: mem_service_record where
  "other_sealed = (seal_record MEM_SERVICE_PAYLOAD_KIND_SEALED_LOCAL_BLOCK 1
     (mem_service_checksum_bytes [7]) zero_record) \<lparr> rec_in_use := True \<rparr>"

lemma demo_sealed_sel:
  "rec_object_payload_kind demo_sealed = MEM_SERVICE_PAYLOAD_KIND_SEALED_LOCAL_BLOCK"
  "rec_object_payload_checksum demo_sealed = mem_service_checksum_bytes [104, 105]"
  "rec_object_payload_kind other_sealed = MEM_SERVICE_PAYLOAD_KIND_SEALED_LOCAL_BLOCK"
  "rec_in_use demo_sealed" "rec_in_use other_sealed"
  by (simp_all add: demo_sealed_def other_sealed_def seal_record_def)

theorem corrupted_block_fails_closed_witness:
  "\<exists>bp. mem_service_make_payload_block_path ''/d'' (mem_service_checksum_bytes [104, 105]) 512 = Some bp \<and>
     fst (mem_service_validate_payload_block healthy_env refusing_backends ''/d'' demo_sealed
            \<lparr> fw_files = [bp \<mapsto> [104, 106]], fw_tmp_seq = 0 \<rparr>) = STATUS_CHECKSUM_MISMATCH \<and>
     fw_files (snd (mem_service_validate_payload_block healthy_env refusing_backends ''/d'' demo_sealed
            \<lparr> fw_files = [bp \<mapsto> [104, 106]], fw_tmp_seq = 0 \<rparr>)) bp = None \<and>
     mem_service_validate_payload_block healthy_env refusing_backends ''/d'' demo_sealed
            \<lparr> fw_files = [bp \<mapsto> [104, 105]], fw_tmp_seq = 0 \<rparr> =
       (STATUS_OK, \<lparr> fw_files = [bp \<mapsto> [104, 105]], fw_tmp_seq = 0 \<rparr>)"
proof -
  have "mem_service_make_payload_block_path ''/d'' (rec_object_payload_checksum demo_sealed) 512 \<noteq> None"
    "mem_service_make_payload_quarantine_path healthy_env ''/d''
       (rec_object_payload_checksum demo_sealed) 512 \<noteq> None"
    "rec_object_payload_checksum demo_sealed \<noteq> 0"
    by (code_simp, code_simp, code_simp)
  then obtain bp qp where
    p: "mem_service_make_payload_block_path ''/d'' (rec_object_payload_checksum demo_sealed) 512 = Some bp"
      "mem_service_make_payload_quarantine_path healthy_env ''/d''
         (rec_object_payload_checksum demo_sealed) 512 = Some qp"
    and nz: "rec_object_payload_checksum demo_sealed \<noteq> 0" by auto
  let ?bad = "\<lparr> fw_files = [bp \<mapsto> [104, 106]], fw_tmp_seq = 0 \<rparr>"
    and ?good = "\<lparr> fw_files = [bp \<mapsto> [104, 105]], fw_tmp_seq = 0 \<rparr>"
  note C = corrupted_block_fails_closed [OF demo_sealed_sel(1) p(1) prod.collapse [symmetric],
      of healthy_env refusing_backends]
  have bad: "\<not> (rec_object_backing_len demo_sealed = of_nat (length [104, 106 :: u8]) \<and>
      rec_object_payload_checksum demo_sealed = mem_service_checksum_bytes [104, 106])"
    and good: "rec_object_backing_len demo_sealed = of_nat (length [104, 105 :: u8])"
      "rec_object_payload_checksum demo_sealed = mem_service_checksum_bytes [104, 105]"
    by (code_simp, code_simp, code_simp)
  have "fst (mem_service_validate_payload_block healthy_env refusing_backends ''/d'' demo_sealed ?bad) = STATUS_CHECKSUM_MISMATCH \<and>
      fw_files (snd (mem_service_validate_payload_block healthy_env refusing_backends ''/d'' demo_sealed ?bad)) bp = None"
    using C [of ?bad] bad p nz quarantine_ne_block_path [OF p] by (auto simp: healthy_env_def split: if_splits)
  moreover have "mem_service_validate_payload_block healthy_env refusing_backends ''/d'' demo_sealed ?good = (STATUS_OK, ?good)"
    using C [of ?good] good nz by (auto simp: healthy_env_def prod_eq_iff split: if_splits)
  ultimately show ?thesis using p(1) by (auto simp: demo_sealed_sel)
qed

theorem materialize_publishes_object_witness:
  "\<exists>bp bytes. mem_service_make_payload_block_path ''/d'' (mem_service_checksum_bytes [104, 105]) 512 = Some bp \<and>
     fw_files (snd (mem_service_materialize_payload_block healthy_env refusing_backends ''/d'' demo_sealed
       ''/out'' \<lparr> fw_files = [bp \<mapsto> [104, 105]], fw_tmp_seq = 0 \<rparr>)) ''/out'' = Some bytes \<and>
     mem_service_checksum_bytes bytes = mem_service_checksum_bytes [104, 105]"
proof -
  obtain bp where
    bp: "mem_service_make_payload_block_path ''/d'' (rec_object_payload_checksum demo_sealed) 512 = Some bp"
    and "bp = the (mem_service_make_payload_block_path ''/d'' (rec_object_payload_checksum demo_sealed) 512)"
  proof -
    have "mem_service_make_payload_block_path ''/d'' (rec_object_payload_checksum demo_sealed) 512 \<noteq> None"
      by code_simp
    then show thesis using that by auto
  qed
  let ?fw = "\<lparr> fw_files = [the (mem_service_make_payload_block_path ''/d''
     (rec_object_payload_checksum demo_sealed) 512) \<mapsto> [104 :: u8, 105]], fw_tmp_seq = 0 \<rparr>"
  have ok: "fst (mem_service_materialize_payload_block healthy_env refusing_backends ''/d'' demo_sealed
      ''/out'' ?fw) = STATUS_OK" by code_simp
  from materialize_publishes_object [of healthy_env refusing_backends "''/d''" demo_sealed "''/out''" ?fw
      "snd (mem_service_materialize_payload_block healthy_env refusing_backends ''/d'' demo_sealed ''/out'' ?fw)"]
    ok bp show ?thesis by (auto simp: prod_eq_iff demo_sealed_sel)
qed

end
