(* ===== verification/Handlers.thy ===== *)
theory Handlers
  imports Metadata Block_Store
begin

text \<open>
  The request handlers of the daemon (\<open>mem_service_daemon.c\<close>): objects, artifacts (runtime
  handoffs, execution and training artifacts), KV segments and prefix entries.

  A handler takes the environment, the service, the request payload and the file system and
  returns a wire status, the response buffer, the service and the file system. The response
  buffer is empty when the handler did not write it. \<open>response_len\<close> is the size of the
  buffer, which \<open>snprintf\<close> never exceeds.
\<close>

record daemon_env =
  de_io :: io_env
  de_backends :: block_backends
  de_device :: ub_ssd_device
  de_storage_root :: cstr

type_synonym reply = "mem_service_wire_status \<times> cstr \<times> mem_service \<times> file_world"

section \<open>Views of a record\<close>

definition mem_service_payload_get_state ::
  "cstr \<Rightarrow> mem_service_kvcache_state \<Rightarrow> mem_service_kvcache_state" where
  "mem_service_payload_get_state payload default_value =
     (case mem_service_payload_get_string payload ''state'' 32 of
        None \<Rightarrow> default_value
      | Some state \<Rightarrow>
          if state = ''missing'' then KVCACHE_STATE_MISSING
          else if state = ''filled'' then KVCACHE_STATE_FILLED
          else if state = ''hot'' then KVCACHE_STATE_HOT
          else if state = ''reloaded'' then KVCACHE_STATE_RELOADED
          else default_value)"

definition mem_service_record_session_id :: "mem_service_record \<Rightarrow> cstr" where
  "mem_service_record_session_id r = (if rec_session_id r \<noteq> [] then rec_session_id r else rec_request_id r)"

definition mem_service_record_model_key :: "mem_service_record \<Rightarrow> cstr" where
  "mem_service_record_model_key r = (if rec_model_key r \<noteq> [] then rec_model_key r else rec_prefix_group r)"

definition mem_service_record_artifact_kind :: "mem_service_record \<Rightarrow> cstr" where
  "mem_service_record_artifact_kind r =
     (if rec_artifact_kind r \<noteq> [] then rec_artifact_kind r else rec_group_id r)"

definition mem_service_record_artifact_id :: "mem_service_record \<Rightarrow> cstr" where
  "mem_service_record_artifact_id r =
     (if rec_artifact_id r \<noteq> [] then rec_artifact_id r else rec_block_hash r)"

definition mem_service_object_backend_name :: "u32 \<Rightarrow> cstr" where
  "mem_service_object_backend_name backend_kind =
     (if backend_kind = MEM_SERVICE_OBJECT_BACKEND_UB_SSD_GSVA then ''ub-ssd-gsva-v1''
      else if backend_kind = MEM_SERVICE_OBJECT_BACKEND_OBMM_POOL then ''obmm-pool-v1''
      else ''unknown'')"

fun mem_service_record_kind_name :: "mem_service_record_kind \<Rightarrow> cstr" where
  "mem_service_record_kind_name RECORD_PREFIX_GROUP = ''prefix_group''"
| "mem_service_record_kind_name RECORD_REQUEST_PREFIX = ''request_prefix''"
| "mem_service_record_kind_name RECORD_BLOCK_META = ''block_meta''"
| "mem_service_record_kind_name RECORD_WEIGHT_TILE = ''weight_tile''"
| "mem_service_record_kind_name RECORD_KVCACHE_OBJECT = ''kvcache_object''"
| "mem_service_record_kind_name RECORD_HIDDEN_RANGE_INPUT = ''hidden_range_input''"
| "mem_service_record_kind_name RECORD_HIDDEN_RANGE_OUTPUT = ''hidden_range_output''"
| "mem_service_record_kind_name RECORD_LAYER_RANGE_PLACEMENT = ''layer_range_placement''"
| "mem_service_record_kind_name RECORD_MODEL_TOKEN_RESULT = ''model_token_result''"
| "mem_service_record_kind_name RECORD_MODEL_ENGRAM_HISTORY = ''model_engram_history''"
| "mem_service_record_kind_name RECORD_MODEL_ENGRAM_CANDIDATES = ''model_engram_candidates''"
| "mem_service_record_kind_name RECORD_MODEL_ENGRAM_SELECTED = ''model_engram_selected''"
| "mem_service_record_kind_name RECORD_MODEL_ENGRAM_STATE = ''model_engram_state''"
| "mem_service_record_kind_name RECORD_RUNTIME_HANDOFF = ''runtime_handoff''"
| "mem_service_record_kind_name RECORD_EXECUTION_ARTIFACT = ''execution_artifact''"
| "mem_service_record_kind_name RECORD_TRAINING_ARTIFACT = ''training_artifact''"
| "mem_service_record_kind_name (RECORD_OTHER n) = ''unknown''"

section \<open>Responses\<close>

text \<open>One \<open>name=value\<close> line of a format string.\<close>

definition kv :: "cstr \<Rightarrow> cstr \<Rightarrow> cstr" where
  "kv name text = name @ ''='' @ text @ [newline]"

definition record_tail_lines :: "mem_service_record \<Rightarrow> cstr list" where
  "record_tail_lines r =
     [kv ''placement_node'' (show_word (rec_placement_node r)),
      kv ''placement_level'' (show_word (rec_placement_level r)),
      kv ''hot_segment_id'' (show_word (rec_hot_segment_id r)),
      kv ''state'' (mem_service_kvcache_state_name (rec_state r)),
      kv ''version'' (show_word (rec_version r)),
      kv ''last_result_segment'' (show_word (rec_last_result_segment r)),
      kv ''object_owner_node'' (show_word (rec_object_owner_node r)),
      kv ''object_payload_kind'' (show_word (rec_object_payload_kind r)),
      kv ''object_backing_offset'' (show_word (rec_object_backing_offset r)),
      kv ''object_backing_len'' (show_word (rec_object_backing_len r)),
      kv ''object_payload_checksum'' (show_word (rec_object_payload_checksum r))]"

definition record_name_lines :: "mem_service_record \<Rightarrow> cstr list" where
  "record_name_lines r =
     [kv ''request_id'' (rec_request_id r), kv ''prefix_group'' (rec_prefix_group r),
      kv ''group_id'' (rec_group_id r), kv ''session_id'' (mem_service_record_session_id r),
      kv ''model_key'' (mem_service_record_model_key r),
      kv ''artifact_kind'' (mem_service_record_artifact_kind r),
      kv ''artifact_id'' (mem_service_record_artifact_id r), kv ''block_hash'' (rec_block_hash r)]"

definition record_backend_lines :: "mem_service_record \<Rightarrow> cstr list" where
  "record_backend_lines r =
     [kv ''object_backend'' (mem_service_object_backend_name (rec_object_backend_kind r)),
      kv ''object_backend_kind'' (show_word (rec_object_backend_kind r)),
      kv ''object_backend_node'' (show_word (rec_object_backend_node r)),
      kv ''object_backend_device_cna'' (show_word (rec_object_backend_device_cna r)),
      kv ''object_backend_flags'' (show_word (rec_object_backend_flags r)),
      kv ''object_backend_block_hi'' (show_word (rec_object_backend_block_hi r)),
      kv ''object_backend_block_lo'' (show_word (rec_object_backend_block_lo r)),
      kv ''object_backend_block_version'' (show_word (rec_object_backend_block_version r)),
      kv ''object_backend_block_offset'' (show_word (rec_object_backend_block_offset r)),
      kv ''object_backend_block_bytes'' (show_word (rec_object_backend_block_bytes r)),
      kv ''object_backend_block_checksum'' (show_word (rec_object_backend_block_checksum r))]"

definition mem_service_format_record_payload :: "mem_service_record \<Rightarrow> nat \<Rightarrow> cstr" where
  "mem_service_format_record_payload r out_len =
     (let head = [kv ''key'' (rec_key r), kv ''kind'' (show_word (record_kind_code (rec_kind r)))] @
                 record_name_lines r @ record_tail_lines r
      in if rec_object_backend_kind r = MEM_SERVICE_OBJECT_BACKEND_OBMM_POOL
         then snprintf_s out_len (concat head)
         else snprintf_s out_len (concat (head @ record_backend_lines r)))"

definition mem_service_format_inspect_record_payload :: "mem_service_record \<Rightarrow> nat \<Rightarrow> cstr" where
  "mem_service_format_inspect_record_payload r out_len =
     (let head = [kv ''key'' (rec_key r), kv ''kind'' (show_word (record_kind_code (rec_kind r))),
                  kv ''kind_name'' (mem_service_record_kind_name (rec_kind r))] @
                 record_name_lines r @ record_tail_lines r;
          members = [kv ''member_count'' (show_word (rec_member_count r))]
      in if rec_object_backend_kind r = MEM_SERVICE_OBJECT_BACKEND_OBMM_POOL
         then snprintf_s out_len (concat (head @ members))
         else snprintf_s out_len (concat (head @ record_backend_lines r @ members)))"

section \<open>Objects\<close>

definition object_record :: "daemon_env \<Rightarrow> cstr \<Rightarrow> cstr \<Rightarrow> mem_service_record" where
  "object_record env payload key =
     zero_record
       \<lparr> rec_in_use := True,
         rec_kind := RECORD_KVCACHE_OBJECT,
         rec_key := snprintf_s 96 key,
         rec_version := mem_service_payload_get_u64 payload ''version'' 1,
         rec_object_owner_node := mem_service_payload_get_u32 payload ''owner'' 0,
         rec_object_payload_kind := mem_service_payload_get_u32 payload ''payload_kind'' 0,
         rec_object_backing_offset := mem_service_payload_get_u64 payload ''backing_offset'' 0,
         rec_object_backing_len := mem_service_payload_get_u64 payload ''backing_len'' 0,
         rec_object_payload_checksum := mem_service_payload_get_u64 payload ''checksum'' 0,
         rec_object_publish_monotonic_ms := io_wall_clock_ms (de_io env) \<rparr>"

text \<open>The backend steps of a put: attach a UB-SSD reference, write the UB-SSD block, or write a
  payload block. Objects and artifacts share the first and the last; only objects write to
  the UB-SSD device.\<close>

definition apply_backends ::
  "daemon_env \<Rightarrow> bool \<Rightarrow> cstr \<Rightarrow> mem_service_record \<Rightarrow> file_world \<Rightarrow>
   mem_service_wire_status \<times> mem_service_record \<times> file_world" where
  "apply_backends env device_writes payload r fw =
     (let payload_inline = string_or_empty payload ''payload_inline'' 1024;
          payload_path = string_or_empty payload ''payload_path'' 512
      in case mem_service_apply_ub_ssd_backend_ref payload payload_inline payload_path r of
        (st1, r1) \<Rightarrow>
          if st1 \<noteq> STATUS_OK then (st1, r1, fw)
          else case (if device_writes \<and>
                        rec_object_backend_kind r1 = MEM_SERVICE_OBJECT_BACKEND_UB_SSD_GSVA \<and>
                        mem_service_payload_ub_ssd_write_requested payload
                     then mem_service_write_ub_ssd_backend_block (de_device env) payload r1
                     else (STATUS_OK, r1)) of
            (st2, r2) \<Rightarrow>
              if st2 \<noteq> STATUS_OK then (st2, r2, fw)
              else if rec_object_backend_kind r2 \<noteq> MEM_SERVICE_OBJECT_BACKEND_UB_SSD_GSVA \<and>
                      (payload_inline \<noteq> [] \<or> payload_path \<noteq> [])
              then mem_service_write_payload_block (de_io env) (de_backends env)
                     (de_storage_root env) payload payload_inline payload_path r2 fw
              else (STATUS_OK, r2, fw))"

definition mem_service_put_object ::
  "daemon_env \<Rightarrow> mem_service \<Rightarrow> cstr \<Rightarrow> nat \<Rightarrow> file_world \<Rightarrow> reply" where
  "mem_service_put_object env svc payload response_len fw =
     (case mem_service_payload_get_string payload ''key'' 96 of
        None \<Rightarrow> (STATUS_INVALID_SESSION, [], svc, fw)
      | Some key \<Rightarrow>
          (case apply_backends env True payload (object_record env payload key) fw of
             (st, r, fw') \<Rightarrow>
               if st \<noteq> STATUS_OK then (st, [], svc, fw')
               else case put_record svc key r of
                 None \<Rightarrow> (STATUS_CAPACITY_EXCEEDED, [], svc, fw')
               | Some svc' \<Rightarrow>
                   (STATUS_OK,
                    snprintf_s response_len
                      (kv ''status'' ''ok'' @ kv ''key'' (rec_key r) @
                       kv ''version'' (show_word (rec_version r))),
                    svc', fw')))"

definition mem_service_get_object ::
  "daemon_env \<Rightarrow> mem_service \<Rightarrow> cstr \<Rightarrow> nat \<Rightarrow> file_world \<Rightarrow> reply" where
  "mem_service_get_object env svc payload response_len fw =
     (case mem_service_payload_get_string payload ''key'' 96 of
        None \<Rightarrow> (STATUS_INVALID_SESSION, [], svc, fw)
      | Some key \<Rightarrow>
          (case mem_service_get_record svc key of
             None \<Rightarrow> (STATUS_NOT_FOUND, [], svc, fw)
           | Some r \<Rightarrow>
               if rec_kind r \<noteq> RECORD_KVCACHE_OBJECT then (STATUS_NOT_FOUND, [], svc, fw)
               else case mem_service_validate_payload_block (de_io env) (de_backends env)
                           (de_storage_root env) r fw of
                 (block_status, fw') \<Rightarrow>
                   if block_status \<noteq> STATUS_OK then (block_status, [], svc, fw')
                   else case (if rec_object_backend_kind r = MEM_SERVICE_OBJECT_BACKEND_UB_SSD_GSVA \<and>
                                 mem_service_payload_ub_ssd_read_requested payload
                              then mem_service_read_ub_ssd_backend_block (de_device env) payload r
                              else (STATUS_OK, None)) of
                     (read_status, read_cpl) \<Rightarrow>
                       if read_status \<noteq> STATUS_OK then (read_status, [], svc, fw')
                       else let response = mem_service_format_record_payload r response_len in
                         case read_cpl of
                           None \<Rightarrow> (STATUS_OK, response, svc, fw')
                         | Some cpl \<Rightarrow>
                             let used = length response;
                                 text = kv ''object_backend_read_bytes'' (show_word (cpl_bytes_read cpl)) @
                                   kv ''object_backend_read_checksum'' (show_word (cpl_checksum64 cpl)) @
                                   kv ''object_backend_read_version''
                                     (show_word (bref_version (cpl_committed_ref cpl)))
                             in if used \<ge> response_len then (STATUS_INTERNAL, response, svc, fw')
                                else if length text \<ge> response_len - used
                                then (STATUS_INTERNAL,
                                      response @ snprintf_s (response_len - used) text, svc, fw')
                                else (STATUS_OK, response @ text, svc, fw')))"

definition mem_service_inspect_object ::
  "daemon_env \<Rightarrow> mem_service \<Rightarrow> cstr \<Rightarrow> nat \<Rightarrow> file_world \<Rightarrow> reply" where
  "mem_service_inspect_object env svc payload response_len fw =
     (case mem_service_payload_get_string payload ''key'' 96 of
        None \<Rightarrow> (STATUS_INVALID_SESSION, [], svc, fw)
      | Some key \<Rightarrow>
          (case mem_service_get_record svc key of
             None \<Rightarrow> (STATUS_NOT_FOUND, [], svc, fw)
           | Some r \<Rightarrow>
               if rec_kind r \<noteq> RECORD_KVCACHE_OBJECT then (STATUS_NOT_FOUND, [], svc, fw)
               else case mem_service_validate_payload_block (de_io env) (de_backends env)
                           (de_storage_root env) r fw of
                 (block_status, fw') \<Rightarrow>
                   if block_status \<noteq> STATUS_OK then (block_status, [], svc, fw')
                   else (STATUS_OK, mem_service_format_inspect_record_payload r response_len, svc, fw')))"

definition mem_service_materialize_object ::
  "daemon_env \<Rightarrow> mem_service \<Rightarrow> cstr \<Rightarrow> nat \<Rightarrow> file_world \<Rightarrow> reply" where
  "mem_service_materialize_object env svc payload response_len fw =
     (case (mem_service_payload_get_string payload ''key'' 96,
            mem_service_payload_get_string payload ''destination_path'' 512) of
        (Some key, Some destination_path) \<Rightarrow>
          (case mem_service_get_record svc key of
             None \<Rightarrow> (STATUS_NOT_FOUND, [], svc, fw)
           | Some r \<Rightarrow>
               if rec_kind r \<noteq> RECORD_KVCACHE_OBJECT then (STATUS_NOT_FOUND, [], svc, fw)
               else if u64_field_differs payload ''expected_version'' (rec_version r)
               then (STATUS_STALE_REF, [], svc, fw)
               else if u64_field_differs payload ''expected_checksum'' (rec_object_payload_checksum r)
               then (STATUS_CHECKSUM_MISMATCH, [], svc, fw)
               else case mem_service_materialize_payload_block (de_io env) (de_backends env)
                           (de_storage_root env) r destination_path fw of
                 (status, fw') \<Rightarrow>
                   if status \<noteq> STATUS_OK then (status, [], svc, fw')
                   else (STATUS_OK, mem_service_format_record_payload r response_len, svc, fw'))
      | _ \<Rightarrow> (STATUS_INVALID_SESSION, [], svc, fw))"

section \<open>Artifacts\<close>

definition mem_service_set_optional_record_string :: "cstr \<Rightarrow> cstr \<Rightarrow> nat \<Rightarrow> cstr \<Rightarrow> cstr" where
  "mem_service_set_optional_record_string payload name out_len out =
     (case mem_service_payload_get_string payload name 96 of
        None \<Rightarrow> out
      | Some text \<Rightarrow> if out_len = 0 then out else snprintf_s out_len text)"

definition mem_service_payload_string_mismatch :: "cstr \<Rightarrow> cstr \<Rightarrow> cstr \<Rightarrow> bool" where
  "mem_service_payload_string_mismatch payload name actual =
     (case mem_service_payload_get_string payload name 96 of
        None \<Rightarrow> False | Some expected \<Rightarrow> actual \<noteq> expected)"

text \<open>The record an artifact request describes; the version is the requested one or the
  successor of the stored one, and never 0.\<close>

definition artifact_version :: "cstr \<Rightarrow> u64 \<Rightarrow> u64" where
  "artifact_version payload old_version =
     (let v = (case mem_service_payload_get_u64_checked payload ''version'' of
                 Some requested \<Rightarrow> requested | None \<Rightarrow> old_version + 1)
      in if v = 0 then 1 else v)"

definition artifact_record ::
  "daemon_env \<Rightarrow> cstr \<Rightarrow> cstr \<Rightarrow> mem_service_record_kind \<Rightarrow> u64 \<Rightarrow> mem_service_record" where
  "artifact_record env payload key record_kind old_version =
     (let opt = (\<lambda>name n. mem_service_set_optional_record_string payload name n []);
          model_key = opt ''model_key'' 64; artifact_kind = opt ''artifact_kind'' 64;
          artifact_id = opt ''artifact_id'' 96; block_hash = opt ''block_hash'' 96
      in zero_record
        \<lparr> rec_in_use := True,
          rec_kind := record_kind,
          rec_key := snprintf_s 96 key,
          rec_version := artifact_version payload old_version,
          rec_session_id := opt ''session_id'' 64,
          rec_request_id := opt ''request_id'' 64,
          rec_model_key := model_key,
          rec_artifact_kind := artifact_kind,
          rec_artifact_id := artifact_id,
          rec_prefix_group := (if model_key \<noteq> [] then snprintf_s 64 model_key else []),
          rec_group_id := (if artifact_kind \<noteq> [] then snprintf_s 64 artifact_kind else []),
          rec_block_hash := (if block_hash = [] \<and> artifact_id \<noteq> [] then snprintf_s 96 artifact_id
                             else block_hash),
          rec_object_owner_node := mem_service_payload_get_u32 payload ''owner'' 0,
          rec_object_payload_kind := mem_service_payload_get_u32 payload ''payload_kind'' 0,
          rec_object_backing_offset := mem_service_payload_get_u64 payload ''backing_offset'' 0,
          rec_object_backing_len := mem_service_payload_get_u64 payload ''backing_len'' 0,
          rec_object_payload_checksum := mem_service_payload_get_u64 payload ''checksum'' 0,
          rec_object_publish_monotonic_ms := io_wall_clock_ms (de_io env) \<rparr>)"

definition mem_service_store_artifact ::
  "daemon_env \<Rightarrow> mem_service \<Rightarrow> cstr \<Rightarrow> mem_service_record_kind \<Rightarrow> nat \<Rightarrow> file_world \<Rightarrow> reply" where
  "mem_service_store_artifact env svc payload record_kind response_len fw =
     (case mem_service_payload_get_string payload ''key'' 96 of
        None \<Rightarrow> (STATUS_INVALID_SESSION, [], svc, fw)
      | Some key \<Rightarrow>
          let old_version = (case mem_service_get_record svc key of
                               None \<Rightarrow> 0 | Some r \<Rightarrow> rec_version r) in
          (case apply_backends env False payload
                  (artifact_record env payload key record_kind old_version) fw of
             (st, r, fw') \<Rightarrow>
               if st \<noteq> STATUS_OK then (st, [], svc, fw')
               else case put_record svc key r of
                 None \<Rightarrow> (STATUS_CAPACITY_EXCEEDED, [], svc, fw')
               | Some svc' \<Rightarrow> (STATUS_OK, mem_service_format_record_payload r response_len, svc', fw')))"

text \<open>The expectations a query may carry, in the order the code checks them.\<close>

definition artifact_expectations ::
  "cstr \<Rightarrow> mem_service_record \<Rightarrow> mem_service_wire_status" where
  "artifact_expectations payload r =
     (if mem_service_payload_string_mismatch payload ''expected_session_id''
           (mem_service_record_session_id r) then STATUS_INVALID_SESSION
      else if mem_service_payload_string_mismatch payload ''expected_model_key''
           (mem_service_record_model_key r) then STATUS_INVALID_MODEL_BINDING
      else if mem_service_payload_string_mismatch payload ''expected_artifact_kind''
           (mem_service_record_artifact_kind r) \<or>
           mem_service_payload_string_mismatch payload ''expected_artifact_id''
           (mem_service_record_artifact_id r) then STATUS_STALE_REF
      else if (case mem_service_payload_get_u32_checked payload ''expected_owner'' of
                 None \<Rightarrow> False | Some expected_owner \<Rightarrow> rec_object_owner_node r \<noteq> expected_owner)
      then STATUS_INVALID_MODEL_BINDING
      else if u64_field_differs payload ''expected_version'' (rec_version r) then STATUS_STALE_REF
      else if u64_field_differs payload ''expected_checksum'' (rec_object_payload_checksum r)
      then STATUS_CHECKSUM_MISMATCH
      else STATUS_OK)"

definition mem_service_query_artifact ::
  "daemon_env \<Rightarrow> mem_service \<Rightarrow> cstr \<Rightarrow> mem_service_record_kind \<Rightarrow> nat \<Rightarrow> file_world \<Rightarrow> reply" where
  "mem_service_query_artifact env svc payload record_kind response_len fw =
     (case mem_service_payload_get_string payload ''key'' 96 of
        None \<Rightarrow> (STATUS_INVALID_SESSION, [], svc, fw)
      | Some key \<Rightarrow>
          (case mem_service_get_record svc key of
             None \<Rightarrow> (STATUS_NOT_FOUND, [], svc, fw)
           | Some r \<Rightarrow>
               if rec_kind r \<noteq> record_kind then (STATUS_NOT_FOUND, [], svc, fw)
               else if svc_enforce_expected_context svc \<and> artifact_expectations payload r \<noteq> STATUS_OK
               then (artifact_expectations payload r, [], svc, fw)
               else case mem_service_validate_payload_block (de_io env) (de_backends env)
                           (de_storage_root env) r fw of
                 (block_status, fw') \<Rightarrow>
                   if block_status \<noteq> STATUS_OK then (block_status, [], svc, fw')
                   else (STATUS_OK, mem_service_format_record_payload r response_len, svc, fw')))"

section \<open>KV segments\<close>

definition mem_service_fill_block_ctx :: "cstr \<Rightarrow> mem_service_block_ctx option" where
  "mem_service_fill_block_ctx payload =
     (case mem_service_payload_get_string payload ''request_id'' 64 of
        None \<Rightarrow> None
      | Some request_id \<Rightarrow>
     (case mem_service_payload_get_string payload ''prefix_group'' 64 of
        None \<Rightarrow> None
      | Some prefix_group \<Rightarrow>
     (case mem_service_payload_get_string payload ''group_id'' 64 of
        None \<Rightarrow> None
      | Some group_id \<Rightarrow>
     (case mem_service_payload_get_string payload ''block_hash'' 96 of
        None \<Rightarrow> None
      | Some block_hash \<Rightarrow> Some
          \<lparr> ctx_request_id = request_id, ctx_prefix_group = prefix_group, ctx_group_id = group_id,
            ctx_block_hash = block_hash,
            ctx_placement_node = mem_service_payload_get_u32 payload ''placement_node'' 0,
            ctx_placement_level = mem_service_payload_get_u32 payload ''placement_level'' 0,
            ctx_hot_segment_id = mem_service_payload_get_u64 payload ''hot_segment_id'' 0,
            ctx_result_segment_id = mem_service_payload_get_u64 payload ''result_segment_id'' 0 \<rparr>))))"

definition set_state_bump :: "mem_service_kvcache_state \<Rightarrow> mem_service_record \<Rightarrow> mem_service_record" where
  "set_state_bump state r = r \<lparr> rec_state := state, rec_version := rec_version r + 1 \<rparr>"

text \<open>\<open>stored->state = state; stored->version += 1;\<close> through the pointer found for a key;
  \<open>None\<close> when the key is absent.\<close>

definition store_state :: "mem_service \<Rightarrow> cstr \<Rightarrow> mem_service_kvcache_state \<Rightarrow> mem_service option" where
  "store_state svc key state =
     (case mem_service_find_record svc key of
        None \<Rightarrow> None
      | Some i \<Rightarrow> Some (write_record i (set_state_bump state (svc_records svc ! i)) svc))"

definition mem_service_publish_kv ::
  "mem_service \<Rightarrow> cstr \<Rightarrow> nat \<Rightarrow> mem_service_wire_status \<times> cstr \<times> mem_service" where
  "mem_service_publish_kv svc payload response_len =
     (let state = mem_service_payload_get_state payload KVCACHE_STATE_FILLED in
      case mem_service_fill_block_ctx payload of
        None \<Rightarrow> (STATUS_INVALID_SESSION, [], svc)
      | Some ctx \<Rightarrow>
          (case mem_service_bootstrap_kvcache svc ctx of
             (rc, svc1, resolved) \<Rightarrow>
               if rc \<noteq> 0 then (STATUS_INTERNAL, [], svc1)
               else let block_key = mem_service_build_block_key_from_hash (ctx_block_hash ctx) 96 in
                 case (if ctx_result_segment_id ctx \<noteq> 0 \<and>
                          (case resolved of None \<Rightarrow> False
                           | Some r \<Rightarrow> ctx_result_segment_id ctx > rec_last_result_segment r)
                       then (case mem_service_apply_block_result svc1 ctx (ctx_result_segment_id ctx) state of
                               (rc2, svc2, _) \<Rightarrow>
                                 if rc2 < 0 \<or> rc2 = 2 then (STATUS_VERSION_CONFLICT, svc2)
                                 else if rc2 \<noteq> 0 \<and> mem_service_get_record svc2 block_key = None
                                 then (STATUS_INTERNAL, svc2)
                                 else (STATUS_OK, svc2))
                       else (STATUS_OK, svc1)) of
                   (st, svc2) \<Rightarrow>
                     if st \<noteq> STATUS_OK then (st, [], svc2)
                     else case mem_service_get_record svc2 block_key of
                       None \<Rightarrow> (STATUS_INTERNAL, [], svc2)
                     | Some r \<Rightarrow>
                         (case (if rec_state r \<noteq> state then store_state svc2 block_key state
                                else Some svc2) of
                            None \<Rightarrow> (STATUS_INTERNAL, [], svc2)
                          | Some svc3 \<Rightarrow>
                              (case mem_service_get_record svc3 block_key of
                                 None \<Rightarrow> (STATUS_INTERNAL, [], svc3)
                               | Some r' \<Rightarrow>
                                   (STATUS_OK,
                                    snprintf_s response_len
                                      (kv ''status'' ''ok'' @ kv ''key'' block_key @
                                       kv ''block_hash'' (rec_block_hash r') @
                                       kv ''state'' (mem_service_kvcache_state_name (rec_state r')) @
                                       kv ''version'' (show_word (rec_version r'))),
                                    svc3)))))"

definition mem_service_resolve_kv ::
  "mem_service \<Rightarrow> cstr \<Rightarrow> nat \<Rightarrow> mem_service_wire_status \<times> cstr" where
  "mem_service_resolve_kv svc payload response_len =
     (case (case mem_service_payload_get_string payload ''key'' 96 of
              Some key \<Rightarrow> Some key
            | None \<Rightarrow>
                (case mem_service_payload_get_string payload ''block_hash'' 96 of
                   None \<Rightarrow> None
                 | Some block_hash \<Rightarrow> Some (mem_service_build_block_key_from_hash block_hash 96))) of
        None \<Rightarrow> (STATUS_INVALID_SESSION, [])
      | Some key \<Rightarrow>
          (case mem_service_get_record svc key of
             None \<Rightarrow> (STATUS_NOT_FOUND, [])
           | Some r \<Rightarrow>
               if rec_kind r \<noteq> RECORD_BLOCK_META then (STATUS_NOT_FOUND, [])
               else (STATUS_OK, mem_service_format_record_payload r response_len)))"

section \<open>Prefix entries\<close>

definition mem_service_register_prefix ::
  "mem_service \<Rightarrow> cstr \<Rightarrow> nat \<Rightarrow> mem_service_wire_status \<times> cstr \<times> mem_service" where
  "mem_service_register_prefix svc payload response_len =
     (let state = mem_service_payload_get_state payload KVCACHE_STATE_FILLED in
      case mem_service_fill_block_ctx payload of
        None \<Rightarrow> (STATUS_INVALID_SESSION, [], svc)
      | Some ctx \<Rightarrow>
          if ctx_result_segment_id ctx = 0 then (STATUS_INVALID_SESSION, [], svc)
          else let prefix_key = mem_service_build_prefix_key_from_parts (ctx_request_id ctx)
                                  (ctx_prefix_group ctx) 96;
                   stored = mem_service_get_record svc prefix_key in
            if (case stored of None \<Rightarrow> False
                | Some prefix \<Rightarrow>
                    rec_kind prefix \<noteq> RECORD_REQUEST_PREFIX \<or>
                    rec_last_result_segment prefix > ctx_result_segment_id ctx \<or>
                    (rec_last_result_segment prefix = ctx_result_segment_id ctx \<and>
                     rec_block_hash prefix \<noteq> ctx_block_hash ctx))
            then (STATUS_VERSION_CONFLICT, [], svc)
            else if (case stored of None \<Rightarrow> False
                     | Some prefix \<Rightarrow> rec_last_result_segment prefix = ctx_result_segment_id ctx \<and>
                         rec_block_hash prefix = ctx_block_hash ctx)
            then (STATUS_OK, mem_service_format_record_payload (the stored) response_len, svc)
            else case mem_service_bootstrap_kvcache svc ctx of
              (rc, svc1, _) \<Rightarrow>
                if rc \<noteq> 0 then (STATUS_INTERNAL, [], svc1)
                else case mem_service_get_record svc1 prefix_key of
                  None \<Rightarrow> (STATUS_INTERNAL, [], svc1)
                | Some prefix \<Rightarrow>
                    if rec_state prefix \<noteq> state
                    then let block_key = mem_service_build_block_key_from_hash (ctx_block_hash ctx) 96 in
                      if mem_service_find_record svc1 prefix_key = None \<or>
                         mem_service_find_record svc1 block_key = None
                      then (STATUS_INTERNAL, [], svc1)
                      else (case store_state svc1 prefix_key state of
                              None \<Rightarrow> (STATUS_INTERNAL, [], svc1)
                            | Some svc2 \<Rightarrow>
                      (case store_state svc2 block_key state of
                              None \<Rightarrow> (STATUS_INTERNAL, [], svc2)
                            | Some svc3 \<Rightarrow>
                      (case mem_service_get_record svc3 prefix_key of
                              None \<Rightarrow> (STATUS_INTERNAL, [], svc3)
                            | Some prefix' \<Rightarrow>
                                (STATUS_OK, mem_service_format_record_payload prefix' response_len, svc3))))
                    else (STATUS_OK, mem_service_format_record_payload prefix response_len, svc1))"

definition mem_service_lookup_prefix ::
  "mem_service \<Rightarrow> cstr \<Rightarrow> nat \<Rightarrow> mem_service_wire_status \<times> cstr" where
  "mem_service_lookup_prefix svc payload response_len =
     (case (mem_service_payload_get_string payload ''request_id'' 64,
            mem_service_payload_get_string payload ''prefix_group'' 64) of
        (Some request_id, Some prefix_group) \<Rightarrow>
          let key = mem_service_build_prefix_key_from_parts request_id prefix_group 96 in
          (case mem_service_get_record svc key of
             None \<Rightarrow> (STATUS_NOT_FOUND, [])
           | Some r \<Rightarrow>
               if rec_kind r \<noteq> RECORD_REQUEST_PREFIX then (STATUS_NOT_FOUND, [])
               else (STATUS_OK, mem_service_format_record_payload r response_len))
      | _ \<Rightarrow> (STATUS_INVALID_SESSION, []))"

section \<open>Lemmas\<close>

lemma apply_backends_identity:
  assumes "writers_keep_identity (de_backends env)"
    and run: "apply_backends env w payload r fw = (st, r', fw')"
  shows "same_record_identity r r'"
proof -
  obtain st1 r1 where a1: "mem_service_apply_ub_ssd_backend_ref payload
      (string_or_empty payload ''payload_inline'' 1024) (string_or_empty payload ''payload_path'' 512) r =
      (st1, r1)" by fastforce
  note I1 = apply_ub_ssd_identity [OF a1]
  obtain st2 r2 where a2: "mem_service_write_ub_ssd_backend_block (de_device env) payload r1 = (st2, r2)"
    by fastforce
  note I2 = same_record_identity_trans [OF I1 write_ub_ssd_identity [OF a2]]
  have w: "same_record_identity r r'"
    if "same_record_identity r q" and "mem_service_write_payload_block (de_io env) (de_backends env)
      (de_storage_root env) payload i p q fw = (st, r', fw')" for q i p
    using same_record_identity_trans [OF that(1) write_payload_block_identity [OF assms(1) that(2)]] .
  show ?thesis
    using run I1 I2 w [OF I1] w [OF I2]
    by (simp add: apply_backends_def Let_def a1 a2 split: if_splits)
qed

lemma set_optional_length:
  "0 < n \<Longrightarrow> length (mem_service_set_optional_record_string payload name n []) < n"
  by (simp add: mem_service_set_optional_record_string_def split: option.splits)

lemma handler_records_fit:
  assumes "mem_service_payload_get_string payload ''key'' 96 = Some key"
  shows "record_fits key (object_record env payload key)"
    and "record_fits key (artifact_record env payload key k v)"
  using get_string_SomeD [OF assms]
  by (simp_all add: record_fits_def record_ok_def object_record_def artifact_record_def Let_def
      MEM_SERVICE_MAX_GROUP_MEMBERS_def list_all_iff set_optional_length)

lemma same_identity_fits:
  "same_record_identity r r' \<Longrightarrow> record_fits key r \<Longrightarrow> record_fits key r'"
  by (auto simp: record_fits_def same_record_identity_ok) (auto simp: same_record_identity_def)

text \<open>What a successful put of a fitting record does, and what a failed one leaves.\<close>

lemma put_record_outcome:
  assumes "records_wf svc" "record_fits key r"
  shows "case put_record svc key r of
      None \<Rightarrow> record_map svc key = None \<and> used_records svc = MEM_SERVICE_MAX_RECORDS
    | Some svc' \<Rightarrow> records_wf svc' \<and> svc_rest svc' = svc_rest svc \<and>
        record_map svc' = (record_map svc)(key \<mapsto> r)"
  using store.put_inv [OF assms] store.put_get [OF assms] svc_rest_put put_record_None_iff [OF assms(1)]
  by (auto split: option.splits)

lemma fill_block_ctx_ok: "mem_service_fill_block_ctx payload = Some ctx \<Longrightarrow> ctx_ok ctx"
  by (auto simp: mem_service_fill_block_ctx_def ctx_ok_def dest!: get_string_SomeD split: option.splits)

lemma set_state_bump_fits: "record_fits k r \<Longrightarrow> record_fits k (set_state_bump st r)"
  by (auto simp: record_fits_def record_ok_def set_state_bump_def)

lemma store_state_spec:
  assumes wf: "records_wf svc" and r: "record_map svc key = Some r"
  obtains svc' where "store_state svc key st = Some svc'" "records_wf svc'"
    "svc_rest svc' = svc_rest svc" "record_map svc' = (record_map svc)(key \<mapsto> set_state_bump st r)"
proof -
  from r obtain i where i: "mem_service_find_record svc key = Some i" "svc_records svc ! i = r"
    by (auto simp: mem_service_get_record_def)
  have "record_fits key (set_state_bump st r)"
    using store.get_fits [OF wf r] by (rule set_state_bump_fits)
  then show thesis
    using that [of "write_record i (set_state_bump st r) svc"] i write_found_record [OF wf i(1)]
    by (simp add: store_state_def record_fits_def svc_frame)
qed

lemma block_key_unchecked:
  "mem_service_build_block_key ctx 96 = Some bk \<Longrightarrow>
   mem_service_build_block_key_from_hash (ctx_block_hash ctx) 96 = bk"
  "mem_service_build_prefix_key ctx 96 = Some pk \<Longrightarrow>
   mem_service_build_prefix_key_from_parts (ctx_request_id ctx) (ctx_prefix_group ctx) 96 = pk"
  by (simp_all add: mem_service_build_block_key_from_hash_def mem_service_build_block_key_def
      mem_service_build_prefix_key_from_parts_def mem_service_build_prefix_key_def)

text \<open>The bootstrap keeps the invariant whatever it returns.\<close>

lemma bootstrap_wf:
  assumes wf: "records_wf svc" and ctx: "ctx_ok ctx"
    and run: "mem_service_bootstrap_kvcache svc ctx = (rc, svc', res)"
  shows "records_wf svc' \<and> svc_rest svc' = svc_rest svc"
proof (cases "mem_service_build_prefix_key ctx 96 = None \<or> mem_service_build_group_key ctx 96 = None \<or>
    mem_service_build_block_key ctx 96 = None")
  case True
  with run wf show ?thesis
    by (auto simp: mem_service_bootstrap_kvcache_def split: option.splits)
next
  case False
  then obtain pk gk bk where k: "mem_service_build_prefix_key ctx 96 = Some pk"
    "mem_service_build_group_key ctx 96 = Some gk" "mem_service_build_block_key ctx 96 = Some bk" by auto
  have len: "length pk < 96" "length gk < 96" "length bk < 96" "length (ctx_block_hash ctx) < 96"
    using build_key_SomeD(1) [OF k(1)] build_key_SomeD(2) [OF k(2)] build_key_SomeD(3) [OF k(3)] ctx
    unfolding ctx_ok_def by blast+
  obtain rc1 svc1 where s1: "mem_service_put_prefix_group svc gk (ctx_request_id ctx) (ctx_group_id ctx)
      (ctx_block_hash ctx) (ctx_placement_node ctx) (ctx_placement_level ctx)
      (ctx_hot_segment_id ctx) KVCACHE_STATE_FILLED 0 = (rc1, svc1)" by fastforce
  note P1 = put_prefix_group_spec(1,2) [OF wf len(2,4) s1]
  obtain rc2 svc2 where s2: "mem_service_put_request_prefix svc1 pk (ctx_request_id ctx)
      (ctx_prefix_group ctx) (ctx_group_id ctx) (ctx_block_hash ctx) = (rc2, svc2)" by fastforce
  note P2 = put_request_prefix_spec(1,2) [OF P1(1) len(1) s2]
  obtain rc3 svc3 where s3: "mem_service_put_block_meta svc2 bk (ctx_request_id ctx)
      (ctx_prefix_group ctx) (ctx_group_id ctx) (ctx_block_hash ctx) (ctx_placement_node ctx)
      (ctx_placement_level ctx) (ctx_hot_segment_id ctx) KVCACHE_STATE_FILLED = (rc3, svc3)" by fastforce
  note P3 = put_block_meta_spec(1,2) [OF P2(1) len(3) s3]
  obtain rc4 svc4 where s4: "mem_service_update_block_result svc3 bk (ctx_result_segment_id ctx)
      KVCACHE_STATE_HOT = (rc4, svc4)" by fastforce
  note P4 = store.guarded_update_cases(1) [OF P3(1) upd_fits_all(1) s4 [unfolded update_block_result_guarded]]
    guarded_update_rest [OF s4 [unfolded update_block_result_guarded]]
  show ?thesis
  proof (cases "mem_service_get_record svc4 bk")
    case None
    with run k s1 s2 s3 s4 P1 P2 P3 P4 show ?thesis
      by (auto simp: mem_service_bootstrap_kvcache_def split: if_splits)
  next
    case (Some b)
    have bl: "length (rec_block_hash b) < 96"
      using get_record_SomeD(3) [OF P4(1) Some] by (simp add: record_ok_def)
    obtain rc5 svc5 where s5: "mem_service_update_prefix_group_from_block svc4 ctx b = (rc5, svc5)" by fastforce
    note P5 = update_prefix_group_from_block_spec(1,2) [OF P4(1) bl s5]
    obtain rc6 svc6 where s6: "mem_service_update_prefix_result svc5 pk ctx b = (rc6, svc6)" by fastforce
    note P6 = store.guarded_update_cases(1) [OF P5(1) upd_fits_all(2) s6 [unfolded update_prefix_result_guarded]]
      guarded_update_rest [OF s6 [unfolded update_prefix_result_guarded]]
    from run k s1 s2 s3 s4 s5 s6 Some P1 P2 P3 P4 P5 P6 show ?thesis
      by (auto simp: mem_service_bootstrap_kvcache_def split: if_splits option.splits)
  qed
qed

section \<open>Outcomes of the writing handlers\<close>

text \<open>What a handler that stores one record promises: the invariant, nothing outside the record
  table, no change at all unless it reports success, and on success exactly one record,
  under the key of the request.\<close>

definition stores_one_record ::
  "mem_service \<Rightarrow> cstr \<Rightarrow> mem_service_record_kind \<Rightarrow> mem_service_wire_status \<Rightarrow> mem_service \<Rightarrow>
   (mem_service_record \<Rightarrow> bool) \<Rightarrow> bool" where
  "stores_one_record svc payload kind st svc' post \<longleftrightarrow>
     records_wf svc' \<and> svc_rest svc' = svc_rest svc \<and> (st \<noteq> STATUS_OK \<longrightarrow> svc' = svc) \<and>
     (st = STATUS_OK \<longrightarrow>
        (\<exists>key r. mem_service_payload_get_string payload ''key'' 96 = Some key \<and> rec_kind r = kind \<and>
           record_map svc' = (record_map svc)(key \<mapsto> r) \<and> post r))"

lemma put_object_outcome:
  assumes wf: "records_wf svc" and be: "writers_keep_identity (de_backends env)"
    and run: "mem_service_put_object env svc payload n fw = (st, resp, svc', fw')"
  shows "stores_one_record svc payload RECORD_KVCACHE_OBJECT st svc'
    (\<lambda>r. rec_version r = mem_service_payload_get_u64 payload ''version'' 1 \<and>
         rec_object_owner_node r = mem_service_payload_get_u32 payload ''owner'' 0 \<and>
         apply_backends env True payload (object_record env payload (rec_key r)) fw = (STATUS_OK, r, fw'))"
proof (cases "mem_service_payload_get_string payload ''key'' 96")
  case None
  with run wf show ?thesis by (auto simp: mem_service_put_object_def stores_one_record_def)
next
  case (Some key)
  obtain st1 r fw1 where ab: "apply_backends env True payload (object_record env payload key) fw = (st1, r, fw1)"
    by (metis prod_cases3)
  note I = apply_backends_identity [OF be ab]
  note F = same_identity_fits [OF I handler_records_fit(1) [OF Some]]
  have id: "rec_kind r = RECORD_KVCACHE_OBJECT" "rec_version r = mem_service_payload_get_u64 payload ''version'' 1"
    "rec_object_owner_node r = mem_service_payload_get_u32 payload ''owner'' 0"
    using I by (simp_all add: same_record_identity_def object_record_def)
  have key: "rec_key r = key" using F by (simp add: record_fits_def)
  show ?thesis
  proof (cases "st1 = STATUS_OK")
    case True
    show ?thesis
      using run Some ab True wf put_record_outcome [OF wf F] id key
      by (auto simp: mem_service_put_object_def stores_one_record_def split: option.splits)
  next
    case False
    with run Some ab wf show ?thesis
      by (auto simp: mem_service_put_object_def stores_one_record_def)
  qed
qed

lemma store_artifact_outcome:
  assumes wf: "records_wf svc" and be: "writers_keep_identity (de_backends env)"
    and run: "mem_service_store_artifact env svc payload kind n fw = (st, resp, svc', fw')"
  shows "stores_one_record svc payload kind st svc'
    (\<lambda>r. rec_version r = artifact_version payload
            (case record_map svc (rec_key r) of None \<Rightarrow> 0 | Some old \<Rightarrow> rec_version old) \<and>
         rec_version r \<noteq> 0 \<and> resp = mem_service_format_record_payload r n)"
proof (cases "mem_service_payload_get_string payload ''key'' 96")
  case None
  with run wf show ?thesis by (auto simp: mem_service_store_artifact_def stores_one_record_def)
next
  case (Some key)
  let ?old = "case record_map svc key of None \<Rightarrow> 0 | Some old \<Rightarrow> rec_version old"
  obtain st1 r fw1 where ab: "apply_backends env False payload
      (artifact_record env payload key kind ?old) fw = (st1, r, fw1)"
    by (metis prod_cases3)
  note I = apply_backends_identity [OF be ab]
  note F = same_identity_fits [OF I handler_records_fit(2) [OF Some]]
  have id: "rec_kind r = kind" "rec_version r = artifact_version payload ?old"
    using I by (simp_all add: same_record_identity_def artifact_record_def Let_def)
  have key: "rec_key r = key" using F by (simp add: record_fits_def)
  have nz: "rec_version r \<noteq> 0" by (simp add: id(2) artifact_version_def Let_def)
  show ?thesis
  proof (cases "st1 = STATUS_OK")
    case True
    show ?thesis
      using run Some ab True wf put_record_outcome [OF wf F] id key nz
      by (auto simp: mem_service_store_artifact_def stores_one_record_def Let_def split: option.splits)
  next
    case False
    with run Some ab wf show ?thesis
      by (auto simp: mem_service_store_artifact_def stores_one_record_def)
  qed
qed

text \<open>Publishing a KV segment. After the bootstrap the stored result always equals the requested
  one, so the guarded branch of the code is never taken.\<close>

lemma publish_kv_outcome:
  assumes wf: "records_wf svc"
    and run: "mem_service_publish_kv svc payload n = (st, resp, svc')"
  shows "records_wf svc' \<and> svc_rest svc' = svc_rest svc \<and>
    (\<forall>ctx. mem_service_fill_block_ctx payload = Some ctx \<longrightarrow>
       fst (mem_service_bootstrap_kvcache svc ctx) = 0 \<longrightarrow> st = STATUS_OK) \<and>
    (st = STATUS_OK \<longrightarrow> (\<exists>ctx pk gk bk b p g.
       mem_service_fill_block_ctx payload = Some ctx \<and>
       mem_service_build_prefix_key ctx 96 = Some pk \<and> mem_service_build_group_key ctx 96 = Some gk \<and>
       mem_service_build_block_key ctx 96 = Some bk \<and> distinct [pk, gk, bk] \<and>
       record_map svc' = (record_map svc)(gk \<mapsto> g, bk \<mapsto> b, pk \<mapsto> p) \<and>
       rec_kind b = RECORD_BLOCK_META \<and>
       rec_last_result_segment b = ctx_result_segment_id ctx \<and>
       rec_state b = mem_service_payload_get_state payload KVCACHE_STATE_FILLED \<and>
       rec_version b = (if rec_state b = KVCACHE_STATE_HOT then 2 else 3) \<and>
       rec_state p = KVCACHE_STATE_HOT))"
proof (cases "mem_service_fill_block_ctx payload")
  case None
  with run wf show ?thesis by (auto simp: mem_service_publish_kv_def Let_def)
next
  case (Some ctx)
  note fill = Some
  note ctx = fill_block_ctx_ok [OF fill]
  let ?state = "mem_service_payload_get_state payload KVCACHE_STATE_FILLED"
  obtain rc svc1 res where boot: "mem_service_bootstrap_kvcache svc ctx = (rc, svc1, res)"
    by (metis prod_cases3)
  show ?thesis
  proof (cases "rc = 0")
    case False
    with run fill boot bootstrap_wf [OF wf ctx boot] show ?thesis
      by (auto simp: mem_service_publish_kv_def Let_def)
  next
    case True
    from bootstrap_maps [OF wf ctx boot [unfolded True]] obtain pk gk bk g where
      k: "mem_service_build_prefix_key ctx 96 = Some pk" "mem_service_build_group_key ctx 96 = Some gk"
        "mem_service_build_block_key ctx 96 = Some bk" and ne: "pk \<noteq> gk" "pk \<noteq> bk" "gk \<noteq> bk"
      and wf1: "records_wf svc1" "svc_rest svc1 = svc_rest svc" and res: "res = record_map svc1 bk"
      and m: "record_map svc1 = (record_map svc)(gk \<mapsto> g, bk \<mapsto> bootstrapped_block ctx bk,
        pk \<mapsto> prefix_result_upd (bootstrapped_block ctx bk) (bootstrapped_prefix ctx pk))" .
    let ?b = "bootstrapped_block ctx bk"
    let ?p = "prefix_result_upd ?b (bootstrapped_prefix ctx pk)"
    have b: "record_map svc1 bk = Some ?b" using ne by (simp add: m)
    have key: "mem_service_build_block_key_from_hash (ctx_block_hash ctx) 96 = bk"
      by (rule block_key_unchecked(1) [OF k(3)])
    have p: "rec_state ?p = KVCACHE_STATE_HOT" by (simp add: prefix_result_upd_def bootstrapped_sel)
    show ?thesis
    proof (cases "?state = KVCACHE_STATE_HOT")
      case True': True
      from run have "st = STATUS_OK" "svc' = svc1"
        by (simp_all add: mem_service_publish_kv_def Let_def fill boot True b key res True' bootstrapped_sel)
      have sel: "rec_kind ?b = RECORD_BLOCK_META" "rec_last_result_segment ?b = ctx_result_segment_id ctx"
        "rec_state ?b = ?state" "rec_version ?b = (if rec_state ?b = KVCACHE_STATE_HOT then 2 else 3)"
        unfolding bootstrapped_sel True' by simp_all
      have d: "distinct [pk, gk, bk]" using ne by simp
      from \<open>svc' = svc1\<close> wf1 have "records_wf svc'" "svc_rest svc' = svc_rest svc" by simp_all
      moreover from \<open>svc' = svc1\<close> m have "record_map svc' = (record_map svc)(gk \<mapsto> g, bk \<mapsto> ?b, pk \<mapsto> ?p)" by simp
      ultimately show ?thesis using fill k d sel p \<open>st = STATUS_OK\<close> by blast
    next
      case False
      from store_state_spec [OF wf1(1) b] obtain svc2 where
        s2: "store_state svc1 bk ?state = Some svc2" "records_wf svc2" "svc_rest svc2 = svc_rest svc1"
          "record_map svc2 = (record_map svc1)(bk \<mapsto> set_state_bump ?state ?b)" .
      have b2: "record_map svc2 bk = Some (set_state_bump ?state ?b)" by (simp add: s2(4))
      from run False have "st = STATUS_OK" "svc' = svc2"
        by (auto simp: mem_service_publish_kv_def Let_def fill boot True b key res s2(1) b2 bootstrapped_sel)
      let ?b' = "set_state_bump ?state ?b"
      have sel: "rec_kind ?b' = RECORD_BLOCK_META" "rec_last_result_segment ?b' = ctx_result_segment_id ctx"
        "rec_state ?b' = ?state" "rec_version ?b' = (if rec_state ?b' = KVCACHE_STATE_HOT then 2 else 3)"
        using False by (simp_all add: set_state_bump_def bootstrapped_sel)
      have d: "distinct [pk, gk, bk]" using ne by simp
      have "record_map svc2 = (record_map svc)(gk \<mapsto> g, bk \<mapsto> ?b', pk \<mapsto> ?p)"
        unfolding s2(4) m using ne by (simp add: fun_upd_twist)
      with \<open>svc' = svc2\<close> have "record_map svc' = (record_map svc)(gk \<mapsto> g, bk \<mapsto> ?b', pk \<mapsto> ?p)" by simp
      moreover from \<open>svc' = svc2\<close> s2 wf1 have "records_wf svc'" "svc_rest svc' = svc_rest svc" by simp_all
      ultimately show ?thesis using fill k d sel p \<open>st = STATUS_OK\<close> by blast
    qed
  qed
qed

text \<open>Registering a prefix entry. What a registration does that is neither refused nor a repetition:
  it succeeds exactly when the records of the block can be written, and then the entry has the block and
  the result of the request, is what the response shows, and no records change but the entry, the group
  and the block.\<close>

definition prefix_registered ::
  "mem_service \<Rightarrow> mem_service_block_ctx \<Rightarrow> cstr \<Rightarrow> nat \<Rightarrow> mem_service_wire_status \<Rightarrow> cstr \<Rightarrow> mem_service \<Rightarrow> bool" where
  "prefix_registered svc ctx pk n st resp svc' \<longleftrightarrow>
     (if fst (mem_service_bootstrap_kvcache svc ctx) \<noteq> 0 then st = STATUS_INTERNAL
      else st = STATUS_OK \<and>
        (\<exists>p gk bk. mem_service_build_group_key ctx 96 = Some gk \<and> mem_service_build_block_key ctx 96 = Some bk \<and>
           record_map svc' pk = Some p \<and> rec_kind p = RECORD_REQUEST_PREFIX \<and>
           rec_last_result_segment p = ctx_result_segment_id ctx \<and> rec_block_hash p = ctx_block_hash ctx \<and>
           rec_state p = rec_state (the (record_map svc' bk)) \<and>
           resp = mem_service_format_record_payload p n \<and>
           (\<forall>k. k \<notin> {pk, gk, bk} \<longrightarrow> record_map svc' k = record_map svc k)))"

lemma register_prefix_outcome:
  assumes wf: "records_wf svc"
    and run: "mem_service_register_prefix svc payload n = (st, resp, svc')"
  shows "records_wf svc' \<and> svc_rest svc' = svc_rest svc \<and>
    (case mem_service_fill_block_ctx payload of
       None \<Rightarrow> st = STATUS_INVALID_SESSION \<and> svc' = svc
     | Some ctx \<Rightarrow>
         if ctx_result_segment_id ctx = 0 then st = STATUS_INVALID_SESSION \<and> svc' = svc
         else let pk = mem_service_build_prefix_key_from_parts (ctx_request_id ctx) (ctx_prefix_group ctx) 96 in
           (case record_map svc pk of
              None \<Rightarrow> prefix_registered svc ctx pk n st resp svc'
            | Some old \<Rightarrow>
                if rec_kind old \<noteq> RECORD_REQUEST_PREFIX \<or>
                   ctx_result_segment_id ctx < rec_last_result_segment old \<or>
                   (ctx_result_segment_id ctx = rec_last_result_segment old \<and> rec_block_hash old \<noteq> ctx_block_hash ctx)
                then st = STATUS_VERSION_CONFLICT \<and> svc' = svc
                else if ctx_result_segment_id ctx = rec_last_result_segment old
                then st = STATUS_OK \<and> resp = mem_service_format_record_payload old n \<and> svc' = svc
                else prefix_registered svc ctx pk n st resp svc'))"
proof (cases "mem_service_fill_block_ctx payload")
  case None
  with run wf show ?thesis by (auto simp: mem_service_register_prefix_def Let_def)
next
  case (Some ctx)
  note fill = Some
  note ctx = fill_block_ctx_ok [OF fill]
  let ?state = "mem_service_payload_get_state payload KVCACHE_STATE_FILLED"
  let ?pk = "mem_service_build_prefix_key_from_parts (ctx_request_id ctx) (ctx_prefix_group ctx) 96"
  let ?seg = "ctx_result_segment_id ctx"
  define conflict where "conflict = (case record_map svc ?pk of None \<Rightarrow> False
     | Some p \<Rightarrow> rec_kind p \<noteq> RECORD_REQUEST_PREFIX \<or> rec_last_result_segment p > ?seg \<or>
         (rec_last_result_segment p = ?seg \<and> rec_block_hash p \<noteq> ctx_block_hash ctx))"
  define same where "same = (case record_map svc ?pk of None \<Rightarrow> False
     | Some p \<Rightarrow> rec_last_result_segment p = ?seg \<and> rec_block_hash p = ctx_block_hash ctx)"
  show ?thesis
  proof (cases "?seg = 0 \<or> conflict \<or> same")
    case True
    note unfold = mem_service_register_prefix_def Let_def fill option.case
    consider (unset) "?seg = 0" | (conflict) "?seg \<noteq> 0" conflict | (same) "?seg \<noteq> 0" "\<not> conflict" same
      using True by blast
    then show ?thesis
    proof cases
      case unset
      then have "mem_service_register_prefix svc payload n = (STATUS_INVALID_SESSION, [], svc)"
        unfolding unfold by simp
      with run unset fill wf show ?thesis by simp
    next
      case conflict
      then have "mem_service_register_prefix svc payload n = (STATUS_VERSION_CONFLICT, [], svc)"
        unfolding unfold conflict_def by (simp split del: if_split)
      with run conflict fill wf show ?thesis by (cases "record_map svc ?pk") (auto simp: conflict_def)
    next
      case same
      then have "mem_service_register_prefix svc payload n =
          (STATUS_OK, mem_service_format_record_payload (the (record_map svc ?pk)) n, svc)"
        unfolding unfold conflict_def same_def by (simp split del: if_split)
      with run same fill wf show ?thesis
        by (cases "record_map svc ?pk") (auto simp: conflict_def same_def)
    qed
  next
    case False
    have rest: "rec_last_result_segment old < ?seg" if "record_map svc ?pk = Some old" for old
      using False that by (auto simp: conflict_def same_def)
    have fall: "mem_service_register_prefix svc payload n =
        (case mem_service_bootstrap_kvcache svc ctx of
              (rc, svc1, _) \<Rightarrow>
                if rc \<noteq> 0 then (STATUS_INTERNAL, [], svc1)
                else case mem_service_get_record svc1 ?pk of
                  None \<Rightarrow> (STATUS_INTERNAL, [], svc1)
                | Some prefix \<Rightarrow>
                    if rec_state prefix \<noteq> ?state
                    then let block_key = mem_service_build_block_key_from_hash (ctx_block_hash ctx) 96 in
                      if mem_service_find_record svc1 ?pk = None \<or>
                         mem_service_find_record svc1 block_key = None
                      then (STATUS_INTERNAL, [], svc1)
                      else (case store_state svc1 ?pk ?state of
                              None \<Rightarrow> (STATUS_INTERNAL, [], svc1)
                            | Some svc2 \<Rightarrow>
                      (case store_state svc2 block_key ?state of
                              None \<Rightarrow> (STATUS_INTERNAL, [], svc2)
                            | Some svc3 \<Rightarrow>
                      (case mem_service_get_record svc3 ?pk of
                              None \<Rightarrow> (STATUS_INTERNAL, [], svc3)
                            | Some prefix' \<Rightarrow>
                                (STATUS_OK, mem_service_format_record_payload prefix' n, svc3))))
                    else (STATUS_OK, mem_service_format_record_payload prefix n, svc1))"
      using False unfolding mem_service_register_prefix_def Let_def conflict_def same_def fill
      by (simp split del: if_split)
    have registered: ?thesis if "records_wf svc'" "svc_rest svc' = svc_rest svc" "prefix_registered svc ctx ?pk n st resp svc'"
      using that False rest fill
      by (auto simp: Let_def conflict_def same_def split: option.split dest: less_imp_neq)
    obtain rc svc1 res where boot: "mem_service_bootstrap_kvcache svc ctx = (rc, svc1, res)"
      by (metis prod_cases3)
    show ?thesis
    proof (cases "rc = 0")
      case rc: False
      with run fall boot have "st = STATUS_INTERNAL" "svc' = svc1" by auto
      with rc boot have "prefix_registered svc ctx ?pk n st resp svc'" by (simp add: prefix_registered_def)
      with registered bootstrap_wf [OF wf ctx boot] \<open>svc' = svc1\<close> show ?thesis by simp
    next
      case True
      from bootstrap_maps [OF wf ctx boot [unfolded True]] obtain pk gk bk g where
        k: "mem_service_build_prefix_key ctx 96 = Some pk" "mem_service_build_group_key ctx 96 = Some gk"
          "mem_service_build_block_key ctx 96 = Some bk" and ne: "pk \<noteq> gk" "pk \<noteq> bk" "gk \<noteq> bk"
        and wf1: "records_wf svc1" "svc_rest svc1 = svc_rest svc"
        and m: "record_map svc1 = (record_map svc)(gk \<mapsto> g, bk \<mapsto> bootstrapped_block ctx bk,
          pk \<mapsto> prefix_result_upd (bootstrapped_block ctx bk) (bootstrapped_prefix ctx pk))" .
      let ?b = "bootstrapped_block ctx bk"
      let ?p = "prefix_result_upd ?b (bootstrapped_prefix ctx pk)"
      have keys: "?pk = pk" "mem_service_build_block_key_from_hash (ctx_block_hash ctx) 96 = bk"
        using block_key_unchecked k by blast+
      have len: "length (ctx_block_hash ctx) < 96" using ctx by (simp add: ctx_ok_def)
      have p: "record_map svc1 pk = Some ?p" "record_map svc1 bk = Some ?b" using ne by (simp_all add: m)
      have psel: "rec_kind ?p = RECORD_REQUEST_PREFIX" "rec_last_result_segment ?p = ?seg"
        "rec_block_hash ?p = ctx_block_hash ctx" "rec_state ?p = KVCACHE_STATE_HOT"
        using len by (simp_all add: prefix_result_upd_def bootstrapped_sel)
      obtain q svc3 where out: "mem_service_register_prefix svc payload n =
            (STATUS_OK, mem_service_format_record_payload q n, svc3)"
        and q: "record_map svc3 pk = Some q" "q = ?p \<or> q = set_state_bump ?state ?p"
          "rec_state q = rec_state (the (record_map svc3 bk))"
          "\<And>k. k \<notin> {pk, gk, bk} \<Longrightarrow> record_map svc3 k = record_map svc k"
        and wf3: "records_wf svc3" "svc_rest svc3 = svc_rest svc"
      proof (cases "?state = KVCACHE_STATE_HOT")
        case True': True
        then show thesis
          using that [of ?p svc1] fall boot True keys(1) p psel(4) wf1 m by (simp add: bootstrapped_sel)
      next
        case False
        from store_state_spec [OF wf1(1) p(1)] obtain svc2 where
          s2: "store_state svc1 pk ?state = Some svc2" "records_wf svc2" "svc_rest svc2 = svc_rest svc1"
            "record_map svc2 = (record_map svc1)(pk \<mapsto> set_state_bump ?state ?p)" .
        have "record_map svc2 bk = Some ?b" using ne by (simp add: s2(4) m)
        from store_state_spec [OF s2(2) this] obtain svc3 where
          s3: "store_state svc2 bk ?state = Some svc3" "records_wf svc3" "svc_rest svc3 = svc_rest svc2"
            "record_map svc3 = (record_map svc2)(bk \<mapsto> set_state_bump ?state ?b)" .
        have q: "record_map svc3 pk = Some (set_state_bump ?state ?p)" using ne by (simp add: s3(4) s2(4))
        have find: "mem_service_find_record svc1 pk \<noteq> None" "mem_service_find_record svc1 bk \<noteq> None"
          using p get_record_None_iff [of svc1 pk] get_record_None_iff [of svc1 bk] by simp_all
        have "mem_service_register_prefix svc payload n =
            (STATUS_OK, mem_service_format_record_payload (set_state_bump ?state ?p) n, svc3)"
          unfolding fall boot prod.case Let_def keys p option.case s2(1) s3(1) q
          using True False find psel(4) by simp
        moreover have "record_map svc3 k = record_map svc k" if "k \<notin> {pk, gk, bk}" for k
          using that by (simp add: s3(4) s2(4) m)
        moreover have "rec_state (set_state_bump ?state ?p) = rec_state (the (record_map svc3 bk))"
          by (simp add: s3(4) set_state_bump_def)
        ultimately show thesis using that q s3 s2 wf1 by metis
      qed
      have "rec_kind q = RECORD_REQUEST_PREFIX" "rec_last_result_segment q = ?seg"
        "rec_block_hash q = ctx_block_hash ctx"
        using q(2) psel by (auto simp: set_state_bump_def)
      then have "prefix_registered svc ctx pk n st resp svc'"
        using run out q(1,3,4) boot True k(2,3) by (auto simp: prefix_registered_def)
      with registered run out wf3 keys(1) show ?thesis by simp
    qed
  qed
qed

lemma register_prefix_keeps:
  assumes "records_wf svc" "mem_service_register_prefix svc payload n = (st, resp, svc')"
  shows "records_wf svc'" "svc_rest svc' = svc_rest svc"
  using register_prefix_outcome [OF assms] by blast+

lemma register_prefix_okE:
  assumes "records_wf svc" "mem_service_register_prefix svc payload n = (STATUS_OK, resp, svc')"
  obtains ctx p where "mem_service_fill_block_ctx payload = Some ctx"
    "record_map svc' (mem_service_build_prefix_key_from_parts (ctx_request_id ctx) (ctx_prefix_group ctx) 96) = Some p"
    "rec_kind p = RECORD_REQUEST_PREFIX" "resp = mem_service_format_record_payload p n"
proof (cases "mem_service_fill_block_ctx payload")
  case None
  then show ?thesis using register_prefix_outcome [OF assms] by simp
next
  case (Some ctx)
  let ?pk = "mem_service_build_prefix_key_from_parts (ctx_request_id ctx) (ctx_prefix_group ctx) 96"
  show ?thesis
    using register_prefix_outcome [OF assms] that [OF Some]
    by (cases "record_map svc ?pk") (auto simp: Some Let_def prefix_registered_def split: if_splits)
qed

section \<open>Properties\<close>


definition demo_env :: daemon_env where
  "demo_env = \<lparr> de_io = healthy_env, de_backends = refusing_backends,
     de_device = (\<lambda>_. (IO_UNSUPPORTED, \<lparr> cpl_committed_ref = \<lparr> bref_block_hi = 0, bref_block_lo = 0,
       bref_version = 0, bref_offset = 0, bref_bytes = 0, bref_checksum64 = 0 \<rparr>,
       cpl_bytes_read = 0, cpl_checksum64 = 0 \<rparr>)),
     de_storage_root = ''/d'' \<rparr>"

lemma demo_env_keeps_identity: "writers_keep_identity (de_backends demo_env)"
  by (simp add: demo_env_def refusing_keep_identity)

definition demo_put :: cstr where
  "demo_put = kv ''key'' ''obj'' @ kv ''version'' ''7'' @ kv ''payload_inline'' ''hi''"


text \<open>Storing an artifact (runtime handoff, execution or training artifact) keeps the
  invariant and changes nothing unless it succeeds; on success the one record under the
  request's key has the requested kind, and its version is the requested one or the
  successor of the stored one and never 0; the response is that record.\<close>

theorem store_artifact_correct:
  assumes "records_wf svc" "writers_keep_identity (de_backends env)"
    and "mem_service_store_artifact env svc payload kind n fw = (st, resp, svc', fw')"
  shows "stores_one_record svc payload kind st svc'
    (\<lambda>r. rec_version r = artifact_version payload
            (case record_map svc (rec_key r) of None \<Rightarrow> 0 | Some old \<Rightarrow> rec_version old) \<and>
         rec_version r \<noteq> 0 \<and> resp = mem_service_format_record_payload r n)"
  using assms by (rule store_artifact_outcome)

theorem store_artifact_correct_witness:
  "records_wf (fst (snd (snd (mem_service_store_artifact demo_env demo_service demo_put
     RECORD_TRAINING_ARTIFACT 4096 empty_disk))))"
  using store_artifact_correct [OF demo_service_facts(1) demo_env_keeps_identity, of demo_put
      RECORD_TRAINING_ARTIFACT 4096 empty_disk]
  by (cases "mem_service_store_artifact demo_env demo_service demo_put RECORD_TRAINING_ARTIFACT 4096 empty_disk")
     (auto simp: stores_one_record_def)

text \<open>Artifact queries honour every expectation. While the service enforces contexts, a query
  succeeds only for a stored artifact of the right kind whose session, model, artifact kind
  and identifier, owner, version and checksum all equal whatever the request expected of
  them, and whose payload block validated; a query never changes the service.\<close>

theorem query_artifact_honours_expectations:
  assumes enforce: "svc_enforce_expected_context svc"
    and run: "mem_service_query_artifact env svc payload kind n fw = (st, resp, svc', fw')"
  shows "svc' = svc \<and>
    (st = STATUS_OK \<longrightarrow> (\<exists>key r. mem_service_payload_get_string payload ''key'' 96 = Some key \<and>
       record_map svc key = Some r \<and> rec_kind r = kind \<and>
       resp = mem_service_format_record_payload r n \<and>
       mem_service_payload_get_string payload ''expected_session_id'' 96 \<in>
         {None, Some (mem_service_record_session_id r)} \<and>
       mem_service_payload_get_string payload ''expected_model_key'' 96 \<in>
         {None, Some (mem_service_record_model_key r)} \<and>
       mem_service_payload_get_string payload ''expected_artifact_kind'' 96 \<in>
         {None, Some (mem_service_record_artifact_kind r)} \<and>
       mem_service_payload_get_string payload ''expected_artifact_id'' 96 \<in>
         {None, Some (mem_service_record_artifact_id r)} \<and>
       mem_service_payload_get_u32_checked payload ''expected_owner'' \<in>
         {None, Some (rec_object_owner_node r)} \<and>
       mem_service_payload_get_u64_checked payload ''expected_version'' \<in> {None, Some (rec_version r)} \<and>
       mem_service_payload_get_u64_checked payload ''expected_checksum'' \<in>
         {None, Some (rec_object_payload_checksum r)} \<and>
       mem_service_validate_payload_block (de_io env) (de_backends env) (de_storage_root env) r fw =
         (STATUS_OK, fw')))"
proof -
  have exp: "mem_service_payload_get_string payload ''expected_session_id'' 96 \<in>
         {None, Some (mem_service_record_session_id r)} \<and>
       mem_service_payload_get_string payload ''expected_model_key'' 96 \<in>
         {None, Some (mem_service_record_model_key r)} \<and>
       mem_service_payload_get_string payload ''expected_artifact_kind'' 96 \<in>
         {None, Some (mem_service_record_artifact_kind r)} \<and>
       mem_service_payload_get_string payload ''expected_artifact_id'' 96 \<in>
         {None, Some (mem_service_record_artifact_id r)} \<and>
       mem_service_payload_get_u32_checked payload ''expected_owner'' \<in>
         {None, Some (rec_object_owner_node r)} \<and>
       mem_service_payload_get_u64_checked payload ''expected_version'' \<in> {None, Some (rec_version r)} \<and>
       mem_service_payload_get_u64_checked payload ''expected_checksum'' \<in>
         {None, Some (rec_object_payload_checksum r)}"
    if "artifact_expectations payload r = STATUS_OK" for r
    using that
    by (simp add: artifact_expectations_def mem_service_payload_string_mismatch_def u64_field_differs_def
        split: if_splits option.splits)
  show ?thesis
    using run enforce exp
    by (auto simp: mem_service_query_artifact_def split: option.splits if_splits prod.splits)
qed

theorem query_artifact_honours_expectations_witness:
  "fst (snd (snd (mem_service_query_artifact demo_env initial_service demo_put RECORD_TRAINING_ARTIFACT
     4096 empty_disk))) = initial_service"
  using query_artifact_honours_expectations [of initial_service demo_env demo_put
      RECORD_TRAINING_ARTIFACT 4096 empty_disk]
  by (cases "mem_service_query_artifact demo_env initial_service demo_put RECORD_TRAINING_ARTIFACT 4096 empty_disk")
     simp

text \<open>An object that was put can be got back, contents verified. When a put of an object with an
  inline payload in the sealed-local layout succeeds and the disk is healthy, the following
  get of the same key reports success and returns the stored record, whose block on disk
  holds exactly the inline payload.\<close>

theorem put_get_object_roundtrip:
  assumes wf: "records_wf svc" and be: "writers_keep_identity (de_backends env)"
    and put: "mem_service_put_object env svc payload n fw = (STATUS_OK, resp, svc', fw')"
    and inl: "string_or_empty payload ''payload_inline'' 1024 = body" "body \<noteq> []"
    and no_ssd: "\<not> mem_service_payload_selects_ub_ssd_backend payload"
    and kind: "mem_service_payload_get_u32 payload ''payload_kind'' 0 \<in>
      {0, MEM_SERVICE_PAYLOAD_KIND_SEALED_LOCAL_BLOCK}"
    and nz: "mem_service_checksum_bytes (bytes_of body) \<noteq> 0"
    and io: "\<And>p. io_open_ok (de_io env) p" "\<And>p. io_read_ok (de_io env) p"
    and key: "mem_service_payload_get_string request ''key'' 96 =
      mem_service_payload_get_string payload ''key'' 96"
  shows "\<exists>r bp. mem_service_get_object env svc' request m fw' =
      (STATUS_OK, mem_service_format_record_payload r m, svc', fw') \<and>
    rec_version r = mem_service_payload_get_u64 payload ''version'' 1 \<and>
    mem_service_make_payload_block_path (de_storage_root env) (rec_object_payload_checksum r) 512 = Some bp \<and>
    fw_files fw' bp = Some (bytes_of body)"
proof -
  from put_object_outcome [OF wf be put] obtain k r where
    k: "mem_service_payload_get_string payload ''key'' 96 = Some k"
    and r: "rec_kind r = RECORD_KVCACHE_OBJECT" "record_map svc' = (record_map svc)(k \<mapsto> r)"
      "rec_version r = mem_service_payload_get_u64 payload ''version'' 1" and wf': "records_wf svc'"
    and run': "apply_backends env True payload (object_record env payload (rec_key r)) fw = (STATUS_OK, r, fw')"
    by (auto simp: stores_one_record_def)
  have "rec_key r = k" using get_record_SomeD(2) [OF wf', of k r] r(2) by simp
  with run' have run: "apply_backends env True payload (object_record env payload k) fw = (STATUS_OK, r, fw')"
    by simp
  let ?path = "string_or_empty payload ''payload_path'' 512"
  let ?r0 = "object_record env payload k"
  have r0: "rec_object_backend_kind ?r0 = MEM_SERVICE_OBJECT_BACKEND_OBMM_POOL"
    by (simp add: object_record_def MEM_SERVICE_OBJECT_BACKEND_OBMM_POOL_def)
  from run have w: "mem_service_write_payload_block (de_io env) (de_backends env) (de_storage_root env)
      payload body ?path ?r0 fw = (STATUS_OK, r, fw')"
    using inl no_ssd r0
    by (simp add: apply_backends_def Let_def mem_service_apply_ub_ssd_backend_ref_def
        MEM_SERVICE_OBJECT_BACKEND_UB_SSD_GSVA_def MEM_SERVICE_OBJECT_BACKEND_OBMM_POOL_def)
  have path: "?path = []"
    using w inl(2) by (auto simp: mem_service_write_payload_block_def Let_def split: if_splits)
  have root: "de_storage_root env \<noteq> []"
    using w inl(2) path by (auto simp: mem_service_write_payload_block_def Let_def split: if_splits)
  have seal: "seal_measured (de_io env) (de_storage_root env) payload body [] ?r0 (of_nat (length body))
      (mem_service_checksum_bytes (bytes_of body)) fw = (STATUS_OK, r, fw')"
    using w inl(2) path root kind
    by (auto simp: mem_service_write_payload_block_def Let_def payload_kind_defs split: if_splits)
  then have r': "r = seal_record MEM_SERVICE_PAYLOAD_KIND_SEALED_LOCAL_BLOCK (of_nat (length body))
      (mem_service_checksum_bytes (bytes_of body)) ?r0"
    using seal_measured_okD by blast
  have chk: "rec_object_payload_checksum r \<noteq> 0" using nz by (simp add: r' seal_record_def)
  from sealed_write_validates [OF w _ kind chk io] inl(2) obtain bp where
    bp: "mem_service_make_payload_block_path (de_storage_root env) (rec_object_payload_checksum r) 512 = Some bp"
      "fw_files fw' bp = Some (bytes_of body)"
    and v: "mem_service_validate_payload_block (de_io env) (de_backends env) (de_storage_root env) r fw' =
      (STATUS_OK, fw')" by auto
  have bk: "rec_object_backend_kind r = MEM_SERVICE_OBJECT_BACKEND_OBMM_POOL"
    using r0 by (simp add: r' seal_record_def)
  have "record_map svc' k = Some r" by (simp add: r(2))
  then have "mem_service_get_object env svc' request m fw' =
      (STATUS_OK, mem_service_format_record_payload r m, svc', fw')"
    using k key r(1) v bk
    by (simp add: mem_service_get_object_def MEM_SERVICE_OBJECT_BACKEND_UB_SSD_GSVA_def
        MEM_SERVICE_OBJECT_BACKEND_OBMM_POOL_def Let_def)
  with r(3) bp show ?thesis by blast
qed

text \<open>C29. Publishing a KV segment keeps the invariant; on success the block carries the requested
  state and result segment and only the group, the block and the prefix of the request
  changed.\<close>

theorem publish_kv_correct:
  assumes "records_wf svc" "mem_service_publish_kv svc payload n = (st, resp, svc')"
  shows "records_wf svc' \<and> svc_rest svc' = svc_rest svc \<and>
    (st = STATUS_OK \<longrightarrow> (\<exists>ctx pk gk bk b p g.
       mem_service_fill_block_ctx payload = Some ctx \<and>
       mem_service_build_prefix_key ctx 96 = Some pk \<and> mem_service_build_group_key ctx 96 = Some gk \<and>
       mem_service_build_block_key ctx 96 = Some bk \<and>
       record_map svc' = (record_map svc)(gk \<mapsto> g, bk \<mapsto> b, pk \<mapsto> p) \<and>
       rec_last_result_segment b = ctx_result_segment_id ctx \<and>
       rec_state b = mem_service_payload_get_state payload KVCACHE_STATE_FILLED))"
  using publish_kv_outcome [OF assms] by blast

text \<open>Reading a field of a payload written line by line.\<close>

lemma payload_find_kv:
  assumes "newline \<notin> set name" "newline \<notin> set text" "CHR ''='' \<notin> set name" "CHR ''='' \<notin> set n"
  shows "payload_find n (kv name text @ t) = (if n = name then Some text else payload_find n t)"
proof -
  have "kv name text @ t = (name @ CHR ''='' # text) @ newline # t" by (simp add: kv_def)
  moreover have "newline \<notin> set (name @ CHR ''='' # text)" using assms(1,2) by simp
  ultimately have "payload_find n (kv name text @ t) =
      (if line_matches n (name @ CHR ''='' # text) then Some (drop (length n + 1) (name @ CHR ''='' # text))
       else payload_find n t)"
    using payload_find_line [of "name @ CHR ''='' # text" n t] by metis
  moreover have "line_matches n (name @ CHR ''='' # text) \<longleftrightarrow> n = name"
    using line_matches_other [OF assms(3,4)] by (auto simp: line_matches_def)
  ultimately show ?thesis by simp
qed

lemma payload_find_kv_last:
  assumes "newline \<notin> set name" "newline \<notin> set text" "CHR ''='' \<notin> set name" "CHR ''='' \<notin> set n"
  shows "payload_find n (kv name text) = (if n = name then Some text else None)"
  using payload_find_kv [OF assms, of "[]"] by (simp add: payload_find.simps [of n "[]"])

lemmas payload_eval = payload_find_kv payload_find_kv_last mem_service_wire_payload_get_string_def
  nonempty_def mem_service_wire_payload_get_u64_checked_def mem_service_wire_payload_get_u64_def
  mem_service_wire_payload_get_u32_def

lemma parse_u64_digit:
  "parse_u64 ''1'' = Some 1" "parse_u64 ''2'' = Some 2" "parse_u64 ''3'' = Some 3"
  "parse_u64 ''7'' = Some 7"
  by (simp_all add: parse_u64_def strtoull0_def Let_def c_isspace_def digit_value_def digits_value_def)

text \<open>The payload of the example context with result segment 2.\<close>

definition demo_kv :: cstr where
  "demo_kv = kv ''request_id'' ''r1'' @ kv ''prefix_group'' ''p1'' @ kv ''group_id'' ''g1'' @
     kv ''block_hash'' ''b1'' @ kv ''placement_node'' ''1'' @ kv ''placement_level'' ''2'' @
     kv ''hot_segment_id'' ''3'' @ kv ''result_segment_id'' ''2''"

lemma demo_kv_ctx:
  "mem_service_fill_block_ctx demo_kv = Some (demo_ctx \<lparr> ctx_result_segment_id := 2 \<rparr>)"
  by (simp add: mem_service_fill_block_ctx_def demo_kv_def payload_eval parse_u64_digit demo_ctx_def
      UINT32_MAX_def)

lemma demo_kv_state: "mem_service_payload_get_state demo_kv KVCACHE_STATE_FILLED = KVCACHE_STATE_FILLED"
  by (simp add: mem_service_payload_get_state_def demo_kv_def payload_eval)

lemma demo_republish:
  obtains resp svc' where "mem_service_publish_kv demo_service demo_kv 4096 = (STATUS_OK, resp, svc')"
proof -
  let ?ctx = "demo_ctx \<lparr> ctx_result_segment_id := 2 \<rparr>"
  have same: "mem_service_build_prefix_key ?ctx 96 = mem_service_build_prefix_key demo_ctx 96"
    "mem_service_build_group_key ?ctx 96 = mem_service_build_group_key demo_ctx 96"
    "mem_service_build_block_key ?ctx 96 = mem_service_build_block_key demo_ctx 96"
    by (simp_all add: mem_service_build_prefix_key_def mem_service_build_group_key_def
        mem_service_build_block_key_def)
  have "fst (mem_service_bootstrap_kvcache demo_service ?ctx) = 0"
    by (rule bootstrap_zero [OF demo_service_facts(1) _ same(1) [unfolded demo_ctx_keys]
          same(2) [unfolded demo_ctx_keys] same(3) [unfolded demo_ctx_keys]])
       (simp_all add: demo_service_room demo_service_group ctx_ok_def demo_ctx_def)
  moreover obtain st resp svc' where run: "mem_service_publish_kv demo_service demo_kv 4096 = (st, resp, svc')"
    by (metis prod_cases3)
  ultimately have "st = STATUS_OK"
    using publish_kv_outcome [OF demo_service_facts(1) run] demo_kv_ctx by blast
  with run that show thesis by blast
qed

theorem publish_kv_correct_witness:
  "\<exists>resp svc'. mem_service_publish_kv demo_service demo_kv 4096 = (STATUS_OK, resp, svc') \<and> records_wf svc'"
proof -
  obtain resp svc' where run: "mem_service_publish_kv demo_service demo_kv 4096 = (STATUS_OK, resp, svc')"
    by (rule demo_republish)
  with publish_kv_correct [OF demo_service_facts(1) run] show ?thesis by blast
qed

text \<open>Publishing never refuses an outdated result: when a publish succeeds for a block whose
  stored result segment is newer than the one of the request, the stored result goes
  backwards, although the handler has a branch that was meant to report a conflict.\<close>

theorem publish_kv_result_can_go_back:
  assumes wf: "records_wf svc" and run: "mem_service_publish_kv svc payload n = (STATUS_OK, resp, svc')"
    and ctx: "mem_service_fill_block_ctx payload = Some ctx" "mem_service_build_block_key ctx 96 = Some bk"
    and newer: "record_map svc bk = Some old" "ctx_result_segment_id ctx < rec_last_result_segment old"
  shows "\<exists>b. record_map svc' bk = Some b \<and>
    rec_last_result_segment b = ctx_result_segment_id ctx \<and>
    rec_last_result_segment b < rec_last_result_segment old"
proof -
  from publish_kv_outcome [OF wf run] ctx obtain pk gk b p g where
    "distinct [pk, gk, bk]" "record_map svc' = (record_map svc)(gk \<mapsto> g, bk \<mapsto> b, pk \<mapsto> p)"
    "rec_last_result_segment b = ctx_result_segment_id ctx" by auto
  with newer show ?thesis by auto
qed

theorem publish_kv_result_can_go_back_witness:
  "\<exists>resp svc' b. mem_service_publish_kv demo_service demo_kv 4096 = (STATUS_OK, resp, svc') \<and>
     record_map svc' ''block/b1'' = Some b \<and> rec_last_result_segment b < 4"
proof -
  obtain resp svc' where run: "mem_service_publish_kv demo_service demo_kv 4096 = (STATUS_OK, resp, svc')"
    by (rule demo_republish)
  have "mem_service_build_block_key (demo_ctx \<lparr> ctx_result_segment_id := 2 \<rparr>) 96 = Some ''block/b1''"
    using demo_ctx_keys(3) by (simp add: mem_service_build_block_key_def)
  from publish_kv_result_can_go_back [OF demo_service_facts(1) run demo_kv_ctx this demo_service_facts(2)]
    run show ?thesis by (auto simp: demo_block_sel)
qed

text \<open>C30. Prefix entries never go back. Registering a prefix keeps the invariant, and its answer is
  determined. A request without the fields of a block or without a result is an invalid session and
  changes nothing. A request older than the stored entry, or with the same result but another block, or
  for a key that holds a record of another kind, is a version conflict and changes nothing. Repeating
  the stored result and block answers ok with the stored entry and changes nothing. Any other request
  answers an internal error when the records of the block cannot be written, else ok: then the entry has
  the request's block and result and the state of the block, the response shows it, and no records
  change but the entry, its group and its block.\<close>

theorem register_prefix_monotone:
  assumes "records_wf svc" "mem_service_register_prefix svc payload n = (st, resp, svc')"
  shows "records_wf svc' \<and> svc_rest svc' = svc_rest svc \<and>
    (case mem_service_fill_block_ctx payload of
       None \<Rightarrow> st = STATUS_INVALID_SESSION \<and> svc' = svc
     | Some ctx \<Rightarrow>
         if ctx_result_segment_id ctx = 0 then st = STATUS_INVALID_SESSION \<and> svc' = svc
         else let pk = mem_service_build_prefix_key_from_parts (ctx_request_id ctx) (ctx_prefix_group ctx) 96 in
           (case record_map svc pk of
              None \<Rightarrow> prefix_registered svc ctx pk n st resp svc'
            | Some old \<Rightarrow>
                if rec_kind old \<noteq> RECORD_REQUEST_PREFIX \<or>
                   ctx_result_segment_id ctx < rec_last_result_segment old \<or>
                   (ctx_result_segment_id ctx = rec_last_result_segment old \<and> rec_block_hash old \<noteq> ctx_block_hash ctx)
                then st = STATUS_VERSION_CONFLICT \<and> svc' = svc
                else if ctx_result_segment_id ctx = rec_last_result_segment old
                then st = STATUS_OK \<and> resp = mem_service_format_record_payload old n \<and> svc' = svc
                else prefix_registered svc ctx pk n st resp svc'))"
  using assms by (rule register_prefix_outcome)

theorem register_prefix_monotone_witness:
  "\<exists>resp. mem_service_register_prefix demo_service demo_kv 4096 = (STATUS_VERSION_CONFLICT, resp, demo_service)"
proof -
  have "mem_service_build_prefix_key_from_parts (ctx_request_id demo_ctx) (ctx_prefix_group demo_ctx) 96 = ''request/r1/prefix/p1''"
    by (rule block_key_unchecked(2) [OF demo_ctx_keys(1)])
  moreover have "ctx_result_segment_id demo_ctx = 4" by (simp add: demo_ctx_def)
  ultimately show ?thesis
    using register_prefix_monotone [OF demo_service_facts(1), of demo_kv 4096] demo_kv_ctx
    by (cases "mem_service_register_prefix demo_service demo_kv 4096")
       (auto simp: demo_service_facts(3) prefix_result_upd_def demo_block_sel bootstrapped_sel Let_def)
qed

text \<open>What was registered is found: a lookup that names the request and the prefix of a
  successful registration succeeds and returns the same text as the registration did.\<close>

theorem lookup_prefix_after_register:
  assumes wf: "records_wf svc" and run: "mem_service_register_prefix svc payload n = (STATUS_OK, resp, svc')"
    and q: "mem_service_payload_get_string query ''request_id'' 64 =
        mem_service_payload_get_string payload ''request_id'' 64"
      "mem_service_payload_get_string query ''prefix_group'' 64 =
        mem_service_payload_get_string payload ''prefix_group'' 64"
  shows "mem_service_lookup_prefix svc' query n = (STATUS_OK, resp)"
proof -
  from register_prefix_okE [OF wf run] obtain ctx p where
    fill: "mem_service_fill_block_ctx payload = Some ctx"
    and p: "record_map svc' (mem_service_build_prefix_key_from_parts (ctx_request_id ctx)
        (ctx_prefix_group ctx) 96) = Some p" "rec_kind p = RECORD_REQUEST_PREFIX"
      "resp = mem_service_format_record_payload p n" .
  from fill have "mem_service_payload_get_string payload ''request_id'' 64 = Some (ctx_request_id ctx)"
    "mem_service_payload_get_string payload ''prefix_group'' 64 = Some (ctx_prefix_group ctx)"
    by (auto simp: mem_service_fill_block_ctx_def split: option.splits)
  with p q show ?thesis by (simp add: mem_service_lookup_prefix_def)
qed

definition demo_kv_again :: cstr where
  "demo_kv_again = kv ''request_id'' ''r1'' @ kv ''prefix_group'' ''p1'' @ kv ''group_id'' ''g1'' @
     kv ''block_hash'' ''b1'' @ kv ''result_segment_id'' ''4''"

lemma demo_register_again:
  "\<exists>resp. mem_service_register_prefix demo_service demo_kv_again 4096 = (STATUS_OK, resp, demo_service)"
proof -
  have p4: "parse_u64 ''4'' = Some 4"
    by (simp add: parse_u64_def strtoull0_def Let_def c_isspace_def digit_value_def digits_value_def)
  have fill: "mem_service_fill_block_ctx demo_kv_again =
      Some (demo_ctx \<lparr> ctx_placement_node := 0, ctx_placement_level := 0, ctx_hot_segment_id := 0 \<rparr>)"
    by (simp add: mem_service_fill_block_ctx_def demo_kv_again_def payload_eval p4 demo_ctx_def)
  have key: "mem_service_build_prefix_key_from_parts ''r1'' ''p1'' 96 = ''request/r1/prefix/p1''"
    by (simp add: mem_service_build_prefix_key_from_parts_def build_key_defs)
  let ?p = "prefix_result_upd (bootstrapped_block demo_ctx ''block/b1'')
    (bootstrapped_prefix demo_ctx ''request/r1/prefix/p1'')"
  have p: "record_map demo_service ''request/r1/prefix/p1'' = Some ?p" by (rule demo_service_facts(3))
  have ctx: "ctx_request_id demo_ctx = ''r1''" "ctx_prefix_group demo_ctx = ''p1''"
    "ctx_block_hash demo_ctx = ''b1''" "ctx_result_segment_id demo_ctx = 4" by (simp_all add: demo_ctx_def)
  have sel: "rec_kind ?p = RECORD_REQUEST_PREFIX" "rec_last_result_segment ?p = 4" "rec_block_hash ?p = ''b1''"
    by (simp_all add: prefix_result_upd_def bootstrapped_sel demo_block_sel ctx)
  show ?thesis
    unfolding mem_service_register_prefix_def Let_def fill option.case
    by (simp add: ctx key p sel)
qed

theorem lookup_prefix_after_register_witness:
  "\<exists>resp. mem_service_lookup_prefix demo_service demo_kv_again 4096 = (STATUS_OK, resp)"
proof -
  from demo_register_again obtain resp where
    run: "mem_service_register_prefix demo_service demo_kv_again 4096 = (STATUS_OK, resp, demo_service)"
    by blast
  from lookup_prefix_after_register [OF demo_service_facts(1) run refl refl] show ?thesis by blast
qed

text \<open>A put of an object with an inline payload.\<close>

definition demo_put_inline :: cstr where
  "demo_put_inline = kv ''key'' ''obj'' @ kv ''payload_inline'' ''hi''"

lemma demo_put_inline_eval:
  "mem_service_payload_get_string demo_put_inline ''key'' 96 = Some ''obj''"
  "string_or_empty demo_put_inline ''payload_inline'' 1024 = ''hi''"
  "\<not> mem_service_payload_selects_ub_ssd_backend demo_put_inline"
  "mem_service_payload_get_u32 demo_put_inline ''payload_kind'' 0 = 0"
  "mem_service_checksum_bytes (bytes_of ''hi'') \<noteq> 0"
  "fst (apply_backends demo_env True demo_put_inline (object_record demo_env demo_put_inline ''obj'')
     empty_disk) = STATUS_OK"
  by (code_simp, code_simp, code_simp, code_simp, code_simp, code_simp)

theorem put_get_object_roundtrip_witness:
  "\<exists>resp svc fw bp. mem_service_get_object demo_env svc demo_put_inline 4096 fw = (STATUS_OK, resp, svc, fw) \<and>
     fw_files fw bp = Some [104, 105]"
proof -
  let ?ab = "apply_backends demo_env True demo_put_inline (object_record demo_env demo_put_inline ''obj'') empty_disk"
  obtain r fw where ab: "?ab = (STATUS_OK, r, fw)"
    using demo_put_inline_eval(6) by (metis prod.collapse)
  have "put_record initial_service ''obj'' r \<noteq> None"
    using put_record_None_iff [OF records_wf_initial]
    by (simp add: used_records_initial MEM_SERVICE_MAX_RECORDS_def)
  then obtain svc where "put_record initial_service ''obj'' r = Some svc" by blast
  with ab obtain resp where run: "mem_service_put_object demo_env initial_service demo_put_inline 4096 empty_disk =
      (STATUS_OK, resp, svc, fw)"
    by (simp add: mem_service_put_object_def demo_put_inline_eval(1))
  have "\<exists>r bp. mem_service_get_object demo_env svc demo_put_inline 4096 fw =
      (STATUS_OK, mem_service_format_record_payload r 4096, svc, fw) \<and>
    rec_version r = mem_service_payload_get_u64 demo_put_inline ''version'' 1 \<and>
    mem_service_make_payload_block_path (de_storage_root demo_env) (rec_object_payload_checksum r) 512 = Some bp \<and>
    fw_files fw bp = Some (bytes_of ''hi'')"
    by (rule put_get_object_roundtrip [OF records_wf_initial demo_env_keeps_identity run
          demo_put_inline_eval(2) _ demo_put_inline_eval(3) _ demo_put_inline_eval(5)])
       (simp_all add: demo_put_inline_eval(4) demo_env_def healthy_env_def)
  moreover have "bytes_of ''hi'' = [104, 105]" by code_simp
  ultimately show ?thesis by auto
qed

end
