(* ===== verification/Metrics.thy ===== *)
theory Metrics
  imports Service_State Wire
begin

text \<open>
  The request counters of the daemon (\<open>mem_service_daemon.c\<close>): which statuses fail closed,
  and the three functions that account a finished request by status, by latency and by
  operation. Every counter is a 64-bit word and wraps.

  The lemmas show that the counters balance: every request is counted once as a success or
  as an error, once under its status, once in one latency bucket, and once under its
  operation.
\<close>

section \<open>Operations\<close>

definition mem_service_status_is_fail_closed :: "mem_service_wire_status \<Rightarrow> bool" where
  "mem_service_status_is_fail_closed status \<longleftrightarrow>
     status = STATUS_STALE_REF \<or> status = STATUS_CHECKSUM_MISMATCH \<or>
     status = STATUS_VERSION_CONFLICT \<or> status = STATUS_INVALID_MODEL_BINDING \<or>
     status = STATUS_INVALID_SESSION"

fun count_error_status :: "mem_service_wire_status \<Rightarrow> mem_service_metrics \<Rightarrow> mem_service_metrics" where
  "count_error_status STATUS_NOT_FOUND m = m \<lparr> met_not_found_count := met_not_found_count m + 1 \<rparr>"
| "count_error_status STATUS_STALE_REF m = m \<lparr> met_stale_ref_count := met_stale_ref_count m + 1 \<rparr>"
| "count_error_status STATUS_CHECKSUM_MISMATCH m =
     m \<lparr> met_checksum_mismatch_count := met_checksum_mismatch_count m + 1 \<rparr>"
| "count_error_status STATUS_VERSION_CONFLICT m =
     m \<lparr> met_version_conflict_count := met_version_conflict_count m + 1 \<rparr>"
| "count_error_status STATUS_INVALID_MODEL_BINDING m =
     m \<lparr> met_invalid_model_binding_count := met_invalid_model_binding_count m + 1 \<rparr>"
| "count_error_status STATUS_INVALID_SESSION m =
     m \<lparr> met_invalid_session_count := met_invalid_session_count m + 1 \<rparr>"
| "count_error_status STATUS_TIMEOUT m = m \<lparr> met_timeout_count := met_timeout_count m + 1 \<rparr>"
| "count_error_status STATUS_CAPACITY_EXCEEDED m =
     m \<lparr> met_capacity_exceeded_count := met_capacity_exceeded_count m + 1 \<rparr>"
| "count_error_status STATUS_UNSUPPORTED m =
     m \<lparr> met_unsupported_count := met_unsupported_count m + 1 \<rparr>"
| "count_error_status STATUS_INTERNAL m = m \<lparr> met_internal_count := met_internal_count m + 1 \<rparr>"
| "count_error_status STATUS_OK m = m"
| "count_error_status (STATUS_OTHER n) m = m"

definition mem_service_record_status_metrics ::
  "mem_service_metrics \<Rightarrow> mem_service_wire_status \<Rightarrow> mem_service_metrics" where
  "mem_service_record_status_metrics m status =
     (if status = STATUS_OK then m \<lparr> met_ok_count := met_ok_count m + 1 \<rparr>
      else let m1 = count_error_status status (m \<lparr> met_error_count := met_error_count m + 1 \<rparr>)
           in if mem_service_status_is_fail_closed status
              then m1 \<lparr> met_fail_closed_count := met_fail_closed_count m1 + 1 \<rparr> else m1)"

definition mem_service_latency_bucket_limits_ms :: "u64 list" where
  "mem_service_latency_bucket_limits_ms = [1, 5, 10, 50, 100, UINT64_MAX]"

text \<open>The bucket of a latency: the first whose limit is not exceeded, else the last.\<close>

definition latency_bucket :: "u64 \<Rightarrow> nat" where
  "latency_bucket latency_ms =
     (case find_slot (\<lambda>limit. latency_ms \<le> limit) mem_service_latency_bucket_limits_ms of
        Some i \<Rightarrow> i | None \<Rightarrow> MEM_SERVICE_METRIC_LATENCY_BUCKET_COUNT - 1)"

definition mem_service_record_latency_metrics ::
  "mem_service_metrics \<Rightarrow> u64 \<Rightarrow> mem_service_metrics" where
  "mem_service_record_latency_metrics m latency_ms =
     (let m1 = m \<lparr> met_request_latency_total_ms := met_request_latency_total_ms m + latency_ms \<rparr>;
          m2 = (if latency_ms > met_request_latency_max_ms m1
                then m1 \<lparr> met_request_latency_max_ms := latency_ms \<rparr> else m1);
          i = latency_bucket latency_ms;
          counts = met_request_latency_bucket_counts m2
      in m2 \<lparr> met_request_latency_bucket_counts := counts[i := counts ! i + 1] \<rparr>)"

text \<open>The hit and miss counters of the lookup operations share one shape: a success counts as
  a hit, \<open>not_found\<close> as a miss, any other status as neither.\<close>

definition count_artifact_query ::
  "mem_service_wire_status \<Rightarrow> mem_service_metrics \<Rightarrow> mem_service_metrics" where
  "count_artifact_query status m =
     (if status = STATUS_OK then m \<lparr> met_artifact_query_hit_count := met_artifact_query_hit_count m + 1 \<rparr>
      else if status = STATUS_NOT_FOUND
      then m \<lparr> met_artifact_query_miss_count := met_artifact_query_miss_count m + 1 \<rparr> else m)"

fun count_operation ::
  "mem_service_wire_operation \<Rightarrow> mem_service_wire_status \<Rightarrow> mem_service_metrics \<Rightarrow> mem_service_metrics" where
  "count_operation OP_HEALTH status m = m \<lparr> met_health_count := met_health_count m + 1 \<rparr>"
| "count_operation OP_READY status m = m \<lparr> met_ready_count := met_ready_count m + 1 \<rparr>"
| "count_operation OP_STATUS status m = m \<lparr> met_status_count := met_status_count m + 1 \<rparr>"
| "count_operation OP_LIST_RECORDS status m = m \<lparr> met_list_records_count := met_list_records_count m + 1 \<rparr>"
| "count_operation OP_METRICS status m = m \<lparr> met_metrics_count := met_metrics_count m + 1 \<rparr>"
| "count_operation OP_AUDIT_LOG status m = m \<lparr> met_audit_log_count := met_audit_log_count m + 1 \<rparr>"
| "count_operation OP_EXPORT_SNAPSHOT status m =
     m \<lparr> met_export_snapshot_count := met_export_snapshot_count m + 1 \<rparr>"
| "count_operation OP_EXPORT_SNAPSHOT_PAGE status m =
     m \<lparr> met_export_snapshot_page_count := met_export_snapshot_page_count m + 1 \<rparr>"
| "count_operation OP_RESTORE_SNAPSHOT status m =
     m \<lparr> met_restore_snapshot_count := met_restore_snapshot_count m + 1 \<rparr>"
| "count_operation OP_RESTORE_SNAPSHOT_PAGE status m =
     m \<lparr> met_restore_snapshot_page_count := met_restore_snapshot_page_count m + 1 \<rparr>"
| "count_operation OP_PUT_OBJECT status m = m \<lparr> met_put_object_count := met_put_object_count m + 1 \<rparr>"
| "count_operation OP_GET_OBJECT status m =
     (let m1 = m \<lparr> met_get_object_count := met_get_object_count m + 1 \<rparr>
      in if status = STATUS_OK then m1 \<lparr> met_get_object_hit_count := met_get_object_hit_count m1 + 1 \<rparr>
         else if status = STATUS_NOT_FOUND
         then m1 \<lparr> met_get_object_miss_count := met_get_object_miss_count m1 + 1 \<rparr> else m1)"
| "count_operation OP_INSPECT_OBJECT status m =
     m \<lparr> met_inspect_object_count := met_inspect_object_count m + 1 \<rparr>"
| "count_operation OP_MATERIALIZE_OBJECT status m =
     m \<lparr> met_materialize_object_count := met_materialize_object_count m + 1 \<rparr>"
| "count_operation OP_REGISTER_PREFIX_ENTRY status m =
     m \<lparr> met_register_prefix_count := met_register_prefix_count m + 1 \<rparr>"
| "count_operation OP_LOOKUP_PREFIX_ENTRY status m =
     (let m1 = m \<lparr> met_lookup_prefix_count := met_lookup_prefix_count m + 1 \<rparr>
      in if status = STATUS_OK
         then m1 \<lparr> met_prefix_lookup_hit_count := met_prefix_lookup_hit_count m1 + 1 \<rparr>
         else if status = STATUS_NOT_FOUND
         then m1 \<lparr> met_prefix_lookup_miss_count := met_prefix_lookup_miss_count m1 + 1 \<rparr> else m1)"
| "count_operation OP_PUBLISH_KV_SEGMENT status m =
     m \<lparr> met_publish_kv_count := met_publish_kv_count m + 1 \<rparr>"
| "count_operation OP_RESOLVE_KV_SEGMENT status m =
     (let m1 = m \<lparr> met_resolve_kv_count := met_resolve_kv_count m + 1 \<rparr>
      in if status = STATUS_OK then m1 \<lparr> met_kv_resolve_hit_count := met_kv_resolve_hit_count m1 + 1 \<rparr>
         else if status = STATUS_NOT_FOUND
         then m1 \<lparr> met_kv_resolve_miss_count := met_kv_resolve_miss_count m1 + 1 \<rparr> else m1)"
| "count_operation OP_PUBLISH_RUNTIME_HANDOFF status m =
     m \<lparr> met_publish_runtime_handoff_count := met_publish_runtime_handoff_count m + 1 \<rparr>"
| "count_operation OP_RESOLVE_RUNTIME_HANDOFF status m = count_artifact_query status
     (m \<lparr> met_resolve_runtime_handoff_count := met_resolve_runtime_handoff_count m + 1 \<rparr>)"
| "count_operation OP_REGISTER_EXECUTION_ARTIFACT status m =
     m \<lparr> met_register_execution_artifact_count := met_register_execution_artifact_count m + 1 \<rparr>"
| "count_operation OP_QUERY_EXECUTION_ARTIFACT status m = count_artifact_query status
     (m \<lparr> met_query_execution_artifact_count := met_query_execution_artifact_count m + 1 \<rparr>)"
| "count_operation OP_REGISTER_TRAINING_ARTIFACT status m =
     m \<lparr> met_register_training_artifact_count := met_register_training_artifact_count m + 1 \<rparr>"
| "count_operation OP_QUERY_TRAINING_ARTIFACT status m = count_artifact_query status
     (m \<lparr> met_query_training_artifact_count := met_query_training_artifact_count m + 1 \<rparr>)"
| "count_operation (OP_OTHER n) status m = m"

definition mem_service_record_operation_metrics ::
  "mem_service \<Rightarrow> mem_service_wire_operation \<Rightarrow> mem_service_wire_status \<Rightarrow> u64 \<Rightarrow> mem_service" where
  "mem_service_record_operation_metrics svc operation status latency_ms =
     svc \<lparr> svc_metrics :=
       (let m = svc_metrics svc;
            m1 = m \<lparr> met_request_count := met_request_count m + 1 \<rparr>;
            m2 = mem_service_record_status_metrics m1 status;
            m3 = mem_service_record_latency_metrics m2 latency_ms
        in count_operation operation status m3) \<rparr>"

section \<open>Balance of the counters\<close>

definition status_total :: "mem_service_metrics \<Rightarrow> u64" where
  "status_total m = met_not_found_count m + met_stale_ref_count m + met_checksum_mismatch_count m +
     met_version_conflict_count m + met_invalid_model_binding_count m + met_invalid_session_count m +
     met_timeout_count m + met_capacity_exceeded_count m + met_unsupported_count m +
     met_internal_count m"

definition fail_closed_total :: "mem_service_metrics \<Rightarrow> u64" where
  "fail_closed_total m = met_stale_ref_count m + met_checksum_mismatch_count m +
     met_version_conflict_count m + met_invalid_model_binding_count m + met_invalid_session_count m"

definition operation_total :: "mem_service_metrics \<Rightarrow> u64" where
  "operation_total m = met_health_count m + met_ready_count m + met_status_count m +
     met_list_records_count m + met_metrics_count m + met_audit_log_count m +
     met_export_snapshot_count m + met_export_snapshot_page_count m + met_restore_snapshot_count m +
     met_restore_snapshot_page_count m + met_put_object_count m + met_get_object_count m +
     met_inspect_object_count m + met_materialize_object_count m + met_register_prefix_count m +
     met_lookup_prefix_count m + met_publish_kv_count m + met_resolve_kv_count m +
     met_publish_runtime_handoff_count m + met_resolve_runtime_handoff_count m +
     met_register_execution_artifact_count m + met_query_execution_artifact_count m +
     met_register_training_artifact_count m + met_query_training_artifact_count m"

definition metrics_balanced :: "mem_service_metrics \<Rightarrow> bool" where
  "metrics_balanced m \<longleftrightarrow>
     met_ok_count m + met_error_count m = met_request_count m \<and>
     status_total m = met_error_count m \<and>
     fail_closed_total m = met_fail_closed_count m \<and>
     operation_total m = met_request_count m \<and>
     length (met_request_latency_bucket_counts m) = MEM_SERVICE_METRIC_LATENCY_BUCKET_COUNT \<and>
     sum_list (met_request_latency_bucket_counts m) = met_request_count m"

lemma latency_bucket_less: "latency_bucket l < MEM_SERVICE_METRIC_LATENCY_BUCKET_COUNT"
proof -
  have "length mem_service_latency_bucket_limits_ms = 6"
    by (simp add: mem_service_latency_bucket_limits_ms_def)
  then show ?thesis
    by (auto simp: latency_bucket_def MEM_SERVICE_METRIC_LATENCY_BUCKET_COUNT_def
        dest: find_slot_SomeD split: option.splits)
qed

lemma sum_list_bump: "i < length xs \<Longrightarrow> sum_list (xs[i := xs ! i + 1]) = sum_list xs + (1 :: u64)"
proof (induction xs arbitrary: i)
  case (Cons x xs)
  then show ?case by (cases i) (simp_all add: ac_simps)
qed simp

text \<open>What each of the three accounting steps changes of the totals.\<close>

lemmas metrics_totals = status_total_def fail_closed_total_def operation_total_def

lemma record_status_metrics_totals:
  fixes m status
  assumes "\<forall>n. status \<noteq> STATUS_OTHER n"
  defines "m' \<equiv> mem_service_record_status_metrics m status"
  shows "met_request_count m' = met_request_count m"
    "met_ok_count m' + met_error_count m' = met_ok_count m + met_error_count m + 1"
    "status_total m' - met_error_count m' = status_total m - met_error_count m"
    "fail_closed_total m' - met_fail_closed_count m' = fail_closed_total m - met_fail_closed_count m"
    "operation_total m' = operation_total m"
    "met_request_latency_bucket_counts m' = met_request_latency_bucket_counts m"
  using assms by (cases status;
      simp add: mem_service_record_status_metrics_def mem_service_status_is_fail_closed_def
        Let_def metrics_totals)+

lemma record_latency_metrics_totals:
  fixes m l
  defines "m' \<equiv> mem_service_record_latency_metrics m l"
  shows "met_request_count m' = met_request_count m" "met_ok_count m' = met_ok_count m"
    "met_error_count m' = met_error_count m" "status_total m' = status_total m"
    "fail_closed_total m' = fail_closed_total m"
    "met_fail_closed_count m' = met_fail_closed_count m"
    "operation_total m' = operation_total m"
    "length (met_request_latency_bucket_counts m') = length (met_request_latency_bucket_counts m)"
    "length (met_request_latency_bucket_counts m) = MEM_SERVICE_METRIC_LATENCY_BUCKET_COUNT \<Longrightarrow>
     sum_list (met_request_latency_bucket_counts m') = sum_list (met_request_latency_bucket_counts m) + 1"
  using latency_bucket_less [of l]
  by (simp_all add: m'_def mem_service_record_latency_metrics_def Let_def metrics_totals sum_list_bump)

lemma count_operation_frame:
  fixes op status m
  defines "m' \<equiv> count_operation op status m"
  shows "met_request_count m' = met_request_count m" "met_ok_count m' = met_ok_count m"
    "met_error_count m' = met_error_count m" "status_total m' = status_total m"
    "fail_closed_total m' = fail_closed_total m"
    "met_fail_closed_count m' = met_fail_closed_count m"
    "met_request_latency_bucket_counts m' = met_request_latency_bucket_counts m"
  unfolding m'_def status_total_def fail_closed_total_def
  by (cases op; simp add: Let_def count_artifact_query_def)+

lemma count_operation_total:
  "\<forall>n. op \<noteq> OP_OTHER n \<Longrightarrow> operation_total (count_operation op status m) = operation_total m + 1"
  by (cases op) (simp_all add: operation_total_def Let_def count_artifact_query_def)

lemma zero_metrics_balanced: "metrics_balanced zero_metrics"
  by (simp add: metrics_balanced_def metrics_totals zero_metrics_def
      MEM_SERVICE_METRIC_LATENCY_BUCKET_COUNT_def eval_nat_numeral)

lemma record_operation_metrics_frame [simp]:
  "svc_records (mem_service_record_operation_metrics svc op st l) = svc_records svc"
  "svc_record_count (mem_service_record_operation_metrics svc op st l) = svc_record_count svc"
  "svc_idempotency_records (mem_service_record_operation_metrics svc op st l) = svc_idempotency_records svc"
  "svc_audit_events (mem_service_record_operation_metrics svc op st l) = svc_audit_events svc"
  "svc_audit_next_sequence (mem_service_record_operation_metrics svc op st l) = svc_audit_next_sequence svc"
  "svc_audit_event_count (mem_service_record_operation_metrics svc op st l) = svc_audit_event_count svc"
  by (simp_all add: mem_service_record_operation_metrics_def)

text \<open>Accounting a request keeps the counters balanced.\<close>

lemma record_operation_metrics_balanced:
  assumes bal: "metrics_balanced (svc_metrics svc)"
    and op: "\<forall>n. op \<noteq> OP_OTHER n" and st: "\<forall>n. st \<noteq> STATUS_OTHER n"
  shows "metrics_balanced (svc_metrics (mem_service_record_operation_metrics svc op st l))"
proof -
  let ?m1 = "svc_metrics svc \<lparr> met_request_count := met_request_count (svc_metrics svc) + 1 \<rparr>"
  let ?m2 = "mem_service_record_status_metrics ?m1 st"
  have m1: "met_ok_count ?m1 + met_error_count ?m1 + 1 = met_request_count ?m1"
    "status_total ?m1 - met_error_count ?m1 = 0"
    "fail_closed_total ?m1 - met_fail_closed_count ?m1 = 0"
    "operation_total ?m1 + 1 = met_request_count ?m1"
    "length (met_request_latency_bucket_counts ?m1) = MEM_SERVICE_METRIC_LATENCY_BUCKET_COUNT"
    "sum_list (met_request_latency_bucket_counts ?m1) + 1 = met_request_count ?m1"
    using bal by (simp_all add: metrics_balanced_def metrics_totals)
  note m2 = record_status_metrics_totals [OF st, of ?m1]
  have m2': "met_ok_count ?m2 + met_error_count ?m2 = met_request_count ?m2"
    "status_total ?m2 = met_error_count ?m2" "fail_closed_total ?m2 = met_fail_closed_count ?m2"
    "operation_total ?m2 + 1 = met_request_count ?m2"
    "length (met_request_latency_bucket_counts ?m2) = MEM_SERVICE_METRIC_LATENCY_BUCKET_COUNT"
    "sum_list (met_request_latency_bucket_counts ?m2) + 1 = met_request_count ?m2"
    using m1 unfolding m2(1,2,5,6) by (metis m2(3,4) right_minus_eq)+
  from m2' show ?thesis
    unfolding mem_service_record_operation_metrics_def Let_def metrics_balanced_def
    by (simp add: count_operation_frame count_operation_total [OF op] record_latency_metrics_totals)
qed

lemma wire_status_known_iff: "wire_status_known s \<longleftrightarrow> (\<forall>n. s \<noteq> STATUS_OTHER n)"
  by (cases s) simp_all

lemma wire_operation_known: "op \<in> set all_wire_operations \<Longrightarrow> \<forall>n. op \<noteq> OP_OTHER n"
  by (auto simp: all_wire_operations_def)

section \<open>Properties\<close>

text \<open>The counters of the daemon balance. In a service whose counters balance, accounting
  one request with an operation and a status of the protocol and any latency keeps them
  balanced: successes and errors add up to the requests, the per-status counters to the
  errors, the fail-closed statuses to the fail-closed counter, the per-operation counters to
  the requests, and the latency buckets to the requests (all modulo the counter width); and
  the request counter goes up by one while nothing but the metrics changes.\<close>

theorem operation_metrics_balance:
  assumes "metrics_balanced (svc_metrics svc)"
    and "op \<in> set all_wire_operations" and "wire_status_known st"
  shows "metrics_balanced (svc_metrics (mem_service_record_operation_metrics svc op st l)) \<and>
    met_request_count (svc_metrics (mem_service_record_operation_metrics svc op st l)) =
      met_request_count (svc_metrics svc) + 1 \<and>
    mem_service_record_operation_metrics svc op st l \<lparr> svc_metrics := svc_metrics svc \<rparr> = svc"
proof (intro conjI)
  show "metrics_balanced (svc_metrics (mem_service_record_operation_metrics svc op st l))"
    using assms wire_operation_known record_operation_metrics_balanced wire_status_known_iff by blast
  show "met_request_count (svc_metrics (mem_service_record_operation_metrics svc op st l)) =
      met_request_count (svc_metrics svc) + 1"
    using record_status_metrics_totals(1) [of st] assms(3)
    by (simp add: mem_service_record_operation_metrics_def Let_def count_operation_frame
        record_latency_metrics_totals wire_status_known_iff)
qed (simp add: mem_service_record_operation_metrics_def)

theorem operation_metrics_balance_witness:
  "metrics_balanced (svc_metrics
     (mem_service_record_operation_metrics zero_service OP_GET_OBJECT STATUS_STALE_REF 7))"
proof -
  have "metrics_balanced (svc_metrics zero_service)"
    using zero_metrics_balanced by (simp add: zero_service_def)
  from operation_metrics_balance [OF this, of OP_GET_OBJECT STATUS_STALE_REF 7] show ?thesis
    by (simp add: all_wire_operations_def)
qed

end
