(* ===== verification/Idempotency.thy ===== *)
theory Idempotency
  imports Handlers Metrics
begin

text \<open>
  The idempotency table of the daemon (\<open>mem_service_daemon.c\<close>): which operations mutate, the
  table of completed requests, the replay decision taken before an operation runs and the
  entry written after it. A pointer to an entry is the index of its slot.

  The table refines a finite map from idempotency keys to completed requests; the replay
  decision is shown equal to a decision on that map, and a retry of a completed request is
  answered from the table without touching anything but the replay counter.
\<close>

section \<open>Operations\<close>

definition mem_service_operation_mutates :: "mem_service_wire_operation \<Rightarrow> cstr \<Rightarrow> bool" where
  "mem_service_operation_mutates operation payload =
     (case operation of
        OP_RESTORE_SNAPSHOT \<Rightarrow> True
      | OP_RESTORE_SNAPSHOT_PAGE \<Rightarrow>
          (case mem_service_payload_get_string payload ''action'' 32 of
             None \<Rightarrow> False | Some action \<Rightarrow> action = ''commit'')
      | OP_PUT_OBJECT \<Rightarrow> True
      | OP_REGISTER_PREFIX_ENTRY \<Rightarrow> True
      | OP_PUBLISH_KV_SEGMENT \<Rightarrow> True
      | OP_PUBLISH_RUNTIME_HANDOFF \<Rightarrow> True
      | OP_REGISTER_EXECUTION_ARTIFACT \<Rightarrow> True
      | OP_REGISTER_TRAINING_ARTIFACT \<Rightarrow> True
      | _ \<Rightarrow> False)"

definition mem_service_find_idempotency_record :: "mem_service \<Rightarrow> cstr \<Rightarrow> nat option" where
  "mem_service_find_idempotency_record svc key =
     (if key = [] then None
      else find_slot (\<lambda>r. idem_in_use r \<and> idem_key r = key) (svc_idempotency_records svc))"

definition mem_service_alloc_idempotency_record :: "mem_service \<Rightarrow> nat option" where
  "mem_service_alloc_idempotency_record svc =
     find_slot (\<lambda>r. \<not> idem_in_use r) (svc_idempotency_records svc)"

definition mem_service_payload_get_idempotency_key :: "cstr \<Rightarrow> nat \<Rightarrow> cstr option" where
  "mem_service_payload_get_idempotency_key payload key_len =
     (if key_len = 0 then None
      else mem_service_payload_get_header_string payload ''idempotency_key'' key_len)"

definition mem_service_idempotency_request_checksum :: "cstr \<Rightarrow> u32" where
  "mem_service_idempotency_request_checksum payload = mem_service_wire_checksum (bytes_of payload)"

text \<open>The replay decision: status, response text, the slot reserved for the completed request
  (NULL is \<^const>\<open>None\<close>), whether the request is already answered, and the service, of which
  only a counter changes.\<close>

definition mem_service_try_idempotency_replay ::
  "mem_service \<Rightarrow> mem_service_wire_operation \<Rightarrow> cstr \<Rightarrow> nat \<Rightarrow>
   mem_service_wire_status \<times> cstr \<times> nat option \<times> bool \<times> mem_service" where
  "mem_service_try_idempotency_replay svc operation payload response_len =
     (if \<not> mem_service_operation_mutates operation payload then (STATUS_OK, [], None, False, svc)
      else case mem_service_payload_get_idempotency_key payload MEM_SERVICE_IDEMPOTENCY_KEY_LEN of
        None \<Rightarrow> (STATUS_OK, [], None, False, svc)
      | Some key \<Rightarrow>
          (case mem_service_find_idempotency_record svc key of
             None \<Rightarrow>
               (case mem_service_alloc_idempotency_record svc of
                  None \<Rightarrow>
                    (STATUS_CAPACITY_EXCEEDED,
                     snprintf_s response_len
                       (kv ''status'' ''capacity_exceeded'' @ kv ''idempotency_key'' key),
                     None, True, svc)
                | Some i \<Rightarrow> (STATUS_OK, [], Some i, False, svc))
           | Some i \<Rightarrow>
               let r = svc_idempotency_records svc ! i; m = svc_metrics svc in
               if idem_operation r \<noteq> wire_operation_code operation \<or>
                  idem_request_checksum r \<noteq> mem_service_idempotency_request_checksum payload
               then (STATUS_VERSION_CONFLICT,
                     snprintf_s response_len
                       (kv ''status'' ''version_conflict'' @ kv ''idempotency_key'' key),
                     None, True,
                     svc \<lparr> svc_metrics :=
                       m \<lparr> met_idempotency_conflict_count := met_idempotency_conflict_count m + 1 \<rparr> \<rparr>)
               else (wire_status_of_code (idem_status r),
                     (if response_len = 0 then []
                      else let len = unat (idem_response_len r);
                               copy_len = (if response_len \<le> len then response_len - 1 else len)
                           in take copy_len (idem_response r)),
                     None, True,
                     svc \<lparr> svc_metrics :=
                       m \<lparr> met_idempotency_replay_count := met_idempotency_replay_count m + 1 \<rparr> \<rparr>)))"

definition completed_request ::
  "cstr \<Rightarrow> mem_service_wire_operation \<Rightarrow> cstr \<Rightarrow> mem_service_wire_status \<Rightarrow> cstr \<Rightarrow>
   mem_service_idempotency_record" where
  "completed_request key operation payload status response =
     (let response_len = (if MEM_SERVICE_IDEMPOTENCY_RESPONSE_LEN \<le> length response
                          then MEM_SERVICE_IDEMPOTENCY_RESPONSE_LEN - 1 else length response)
      in zero_idempotency_record
           \<lparr> idem_in_use := True,
             idem_key := snprintf_s MEM_SERVICE_IDEMPOTENCY_KEY_LEN key,
             idem_operation := wire_operation_code operation,
             idem_request_checksum := mem_service_idempotency_request_checksum payload,
             idem_status := wire_status_code status,
             idem_response := take response_len response,
             idem_response_len := of_nat response_len \<rparr>)"

definition mem_service_complete_idempotency_record ::
  "nat option \<Rightarrow> mem_service_wire_operation \<Rightarrow> cstr \<Rightarrow> mem_service_wire_status \<Rightarrow> cstr \<Rightarrow>
   mem_service \<Rightarrow> mem_service" where
  "mem_service_complete_idempotency_record slot operation payload status response svc =
     (case slot of
        None \<Rightarrow> svc
      | Some i \<Rightarrow>
          (case mem_service_payload_get_idempotency_key payload MEM_SERVICE_IDEMPOTENCY_KEY_LEN of
             None \<Rightarrow> svc
           | Some key \<Rightarrow>
               svc \<lparr> svc_idempotency_records :=
                 (svc_idempotency_records svc)[i := completed_request key operation payload status response] \<rparr>))"

section \<open>Invariant and abstraction\<close>

definition idem_ok :: "mem_service_idempotency_record \<Rightarrow> bool" where
  "idem_ok r \<longleftrightarrow>
     length (idem_key r) < MEM_SERVICE_IDEMPOTENCY_KEY_LEN \<and>
     length (idem_response r) < MEM_SERVICE_IDEMPOTENCY_RESPONSE_LEN \<and>
     unat (idem_response_len r) = length (idem_response r) \<and>
     (idem_in_use r \<longrightarrow> idem_key r \<noteq> [])"

interpretation idem: slot_table idem_in_use idem_key zero_idempotency_record
  by unfold_locales simp

definition idem_wf :: "mem_service \<Rightarrow> bool" where
  "idem_wf svc \<longleftrightarrow>
     length (svc_idempotency_records svc) = MEM_SERVICE_MAX_IDEMPOTENCY_RECORDS \<and>
     list_all idem_ok (svc_idempotency_records svc) \<and>
     idem.keys_distinct (svc_idempotency_records svc)"

text \<open>The abstract state: the completed request of each key.\<close>

definition completed_map :: "mem_service \<Rightarrow> cstr \<rightharpoonup> mem_service_idempotency_record" where
  "completed_map svc = idem.table_map (svc_idempotency_records svc)"

lemma idem_wf_initial: "idem_wf initial_service" "completed_map initial_service = Map.empty"
proof -
  have "svc_idempotency_records initial_service =
      replicate MEM_SERVICE_MAX_IDEMPOTENCY_RECORDS zero_idempotency_record" by simp
  then show "idem_wf initial_service" "completed_map initial_service = Map.empty"
    by (simp_all add: idem_wf_def completed_map_def idem.keys_distinct_replicate_blank
        idem.table_map_replicate_blank idem_ok_def list_all_length
        MEM_SERVICE_IDEMPOTENCY_KEY_LEN_def MEM_SERVICE_IDEMPOTENCY_RESPONSE_LEN_def)
qed

lemma idempotency_key_SomeD:
  assumes "mem_service_payload_get_idempotency_key payload n = Some key"
  shows "key \<noteq> []" "length key < n"
  using assms by (auto simp: mem_service_payload_get_idempotency_key_def nonempty_def
      mem_service_payload_get_header_string_def split: if_splits option.splits)

lemma find_idempotency_lookup:
  "key \<noteq> [] \<Longrightarrow>
   mem_service_find_idempotency_record svc key = idem.lookup (svc_idempotency_records svc) key"
  by (simp add: mem_service_find_idempotency_record_def idem.lookup_def)

lemma alloc_idempotency_SomeD:
  "mem_service_alloc_idempotency_record svc = Some i \<Longrightarrow>
   i < length (svc_idempotency_records svc) \<and> \<not> idem_in_use (svc_idempotency_records svc ! i)"
  unfolding mem_service_alloc_idempotency_record_def by (auto dest: find_slot_SomeD)

lemma alloc_idempotency_None_iff:
  assumes "idem_wf svc"
  shows "mem_service_alloc_idempotency_record svc = None \<longleftrightarrow>
    card (dom (completed_map svc)) = MEM_SERVICE_MAX_IDEMPOTENCY_RECORDS"
proof -
  have "card (dom (completed_map svc)) = length (filter idem_in_use (svc_idempotency_records svc))"
    using assms by (simp add: idem_wf_def completed_map_def idem.card_dom_table_map)
  moreover have "(\<forall>r \<in> set xs. idem_in_use r) \<longleftrightarrow> length (filter idem_in_use xs) = length xs" for xs
    by (metis filter_True length_filter_less nat_neq_iff)
  from this [of "svc_idempotency_records svc"]
  have "(\<forall>r \<in> set (svc_idempotency_records svc). idem_in_use r) \<longleftrightarrow>
      length (filter idem_in_use (svc_idempotency_records svc)) = MEM_SERVICE_MAX_IDEMPOTENCY_RECORDS"
    using assms by (simp add: idem_wf_def)
  ultimately show ?thesis
    by (simp add: mem_service_alloc_idempotency_record_def find_slot_None_iff)
qed

lemma completed_request_ok:
  assumes "mem_service_payload_get_idempotency_key payload MEM_SERVICE_IDEMPOTENCY_KEY_LEN = Some key"
  shows "idem_ok (completed_request key op payload st resp)"
    "idem_in_use (completed_request key op payload st resp)"
    "idem_key (completed_request key op payload st resp) = key"
  using idempotency_key_SomeD [OF assms]
  by (auto simp: completed_request_def idem_ok_def Let_def unat_of_nat MEM_SERVICE_IDEMPOTENCY_RESPONSE_LEN_def)

text \<open>Completing a request fills the reserved slot: the map gains its key.\<close>

lemma complete_idempotency_spec:
  fixes op st resp
  assumes wf: "idem_wf svc"
    and key: "mem_service_payload_get_idempotency_key payload MEM_SERVICE_IDEMPOTENCY_KEY_LEN = Some key"
    and slot: "i < length (svc_idempotency_records svc)"
      "idem.lookup (svc_idempotency_records svc) key = Some i \<or>
       (idem.lookup (svc_idempotency_records svc) key = None \<and>
        \<not> idem_in_use (svc_idempotency_records svc ! i))"
  defines "svc' \<equiv> mem_service_complete_idempotency_record (Some i) op payload st resp svc"
  shows "idem_wf svc'"
    "completed_map svc' = (completed_map svc)(key \<mapsto> completed_request key op payload st resp)"
proof -
  let ?xs = "svc_idempotency_records svc" and ?r = "completed_request key op payload st resp"
  note ok = completed_request_ok [OF key, of op st resp]
  have xs: "svc_idempotency_records svc' = ?xs[i := ?r]"
    by (simp add: svc'_def mem_service_complete_idempotency_record_def key)
  have dist: "idem.keys_distinct ?xs" using wf by (simp add: idem_wf_def)
  have "idem.keys_distinct (?xs[i := ?r])"
    using slot idem.keys_distinct_update_same [OF dist _ ok(3)]
      idem.keys_distinct_update_fresh [OF dist _ ok(3)] by blast
  with wf xs ok(1) show "idem_wf svc'" by (simp add: idem_wf_def list_all_update)
  show "completed_map svc' = (completed_map svc)(key \<mapsto> ?r)"
    using idem.table_map_update [OF dist slot(1) ok(2)] slot(2) ok(3) xs
    by (simp add: completed_map_def)
qed

section \<open>The decision on the abstract map\<close>

datatype replay_decision =
    Run_untracked
  | Run_tracked cstr
  | Refuse_full cstr
  | Refuse_conflict cstr
  | Replay mem_service_idempotency_record

definition replay_decision ::
  "(cstr \<rightharpoonup> mem_service_idempotency_record) \<Rightarrow> mem_service_wire_operation \<Rightarrow> cstr \<Rightarrow> replay_decision" where
  "replay_decision table operation payload =
     (if \<not> mem_service_operation_mutates operation payload then Run_untracked
      else case mem_service_payload_get_idempotency_key payload MEM_SERVICE_IDEMPOTENCY_KEY_LEN of
        None \<Rightarrow> Run_untracked
      | Some key \<Rightarrow>
          (case table key of
             None \<Rightarrow> if card (dom table) = MEM_SERVICE_MAX_IDEMPOTENCY_RECORDS
                     then Refuse_full key else Run_tracked key
           | Some r \<Rightarrow>
               if idem_operation r = wire_operation_code operation \<and>
                  idem_request_checksum r = mem_service_idempotency_request_checksum payload
               then Replay r else Refuse_conflict key))"

definition bump_replays :: "mem_service \<Rightarrow> mem_service" where
  "bump_replays svc = svc \<lparr> svc_metrics := (svc_metrics svc)
     \<lparr> met_idempotency_replay_count := met_idempotency_replay_count (svc_metrics svc) + 1 \<rparr> \<rparr>"

definition bump_conflicts :: "mem_service \<Rightarrow> mem_service" where
  "bump_conflicts svc = svc \<lparr> svc_metrics := (svc_metrics svc)
     \<lparr> met_idempotency_conflict_count := met_idempotency_conflict_count (svc_metrics svc) + 1 \<rparr> \<rparr>"

lemma bump_frame [simp]:
  "svc_idempotency_records (bump_replays svc) = svc_idempotency_records svc"
  "svc_idempotency_records (bump_conflicts svc) = svc_idempotency_records svc"
  by (simp_all add: bump_replays_def bump_conflicts_def)

lemma completed_map_SomeD:
  assumes "idem_wf svc" "completed_map svc key = Some r"
  obtains i where "idem.lookup (svc_idempotency_records svc) key = Some i"
    "r = svc_idempotency_records svc ! i" "idem_ok r" "i < length (svc_idempotency_records svc)"
proof -
  from assms(2) obtain i where i: "idem.lookup (svc_idempotency_records svc) key = Some i"
    "r = svc_idempotency_records svc ! i"
    by (auto simp: completed_map_def idem.table_map_def)
  from idem.lookup_SomeD [OF i(1)] assms(1) i that show thesis
    by (auto simp: idem_wf_def list_all_length)
qed

lemma replay_text:
  "idem_ok r \<Longrightarrow> 0 < n \<Longrightarrow>
   take (if n \<le> unat (idem_response_len r) then n - 1 else unat (idem_response_len r)) (idem_response r) =
   snprintf_s n (idem_response r)"
  by (simp add: idem_ok_def snprintf_s_def)

lemma try_replay_answers:
  assumes wf: "idem_wf svc" and d: "replay_decision (completed_map svc) op payload = Replay r"
    and n: "0 < n"
  shows "mem_service_try_idempotency_replay svc op payload n =
    (wire_status_of_code (idem_status r), snprintf_s n (idem_response r), None, True, bump_replays svc)"
proof -
  from d obtain key where mut: "mem_service_operation_mutates op payload"
    and key: "mem_service_payload_get_idempotency_key payload MEM_SERVICE_IDEMPOTENCY_KEY_LEN = Some key"
    and r: "completed_map svc key = Some r" "idem_operation r = wire_operation_code op"
      "idem_request_checksum r = mem_service_idempotency_request_checksum payload"
    by (auto simp: replay_decision_def split: if_splits option.splits)
  from completed_map_SomeD [OF wf r(1)] obtain i where i:
    "idem.lookup (svc_idempotency_records svc) key = Some i" "r = svc_idempotency_records svc ! i"
    "idem_ok r" by blast
  from i(1) idempotency_key_SomeD(1) [OF key]
  have "mem_service_find_idempotency_record svc key = Some i" by (simp add: find_idempotency_lookup)
  with mut key r(2,3) n show ?thesis
    unfolding replay_text [OF i(3) n, symmetric] unfolding i(2)
    by (simp add: mem_service_try_idempotency_replay_def Let_def bump_replays_def)
qed

lemma try_replay_conflict:
  assumes wf: "idem_wf svc" and d: "replay_decision (completed_map svc) op payload = Refuse_conflict key"
  shows "mem_service_try_idempotency_replay svc op payload n =
    (STATUS_VERSION_CONFLICT,
     snprintf_s n (kv ''status'' ''version_conflict'' @ kv ''idempotency_key'' key),
     None, True, bump_conflicts svc)"
proof -
  from d obtain r where mut: "mem_service_operation_mutates op payload"
    and key: "mem_service_payload_get_idempotency_key payload MEM_SERVICE_IDEMPOTENCY_KEY_LEN = Some key"
    and r: "completed_map svc key = Some r" "\<not> (idem_operation r = wire_operation_code op \<and>
      idem_request_checksum r = mem_service_idempotency_request_checksum payload)"
    by (auto simp: replay_decision_def split: if_splits option.splits)
  from completed_map_SomeD [OF wf r(1)] obtain i where i:
    "idem.lookup (svc_idempotency_records svc) key = Some i" "r = svc_idempotency_records svc ! i"
    by blast
  from i(1) idempotency_key_SomeD(1) [OF key]
  have "mem_service_find_idempotency_record svc key = Some i" by (simp add: find_idempotency_lookup)
  with mut key r(2) i(2) show ?thesis
    by (auto simp: mem_service_try_idempotency_replay_def Let_def bump_conflicts_def)
qed

lemma try_replay_absent:
  assumes mut: "mem_service_operation_mutates op payload"
    and key: "mem_service_payload_get_idempotency_key payload MEM_SERVICE_IDEMPOTENCY_KEY_LEN = Some key"
    and absent: "completed_map svc key = None"
  shows "mem_service_find_idempotency_record svc key = None"
  using absent idempotency_key_SomeD(1) [OF key]
  by (simp add: find_idempotency_lookup completed_map_def idem.table_map_def)

lemma try_replay_full:
  assumes wf: "idem_wf svc" and d: "replay_decision (completed_map svc) op payload = Refuse_full key"
  shows "mem_service_try_idempotency_replay svc op payload n =
    (STATUS_CAPACITY_EXCEEDED,
     snprintf_s n (kv ''status'' ''capacity_exceeded'' @ kv ''idempotency_key'' key), None, True, svc)"
proof -
  from d have mut: "mem_service_operation_mutates op payload"
    and key: "mem_service_payload_get_idempotency_key payload MEM_SERVICE_IDEMPOTENCY_KEY_LEN = Some key"
    and tab: "completed_map svc key = None"
      "card (dom (completed_map svc)) = MEM_SERVICE_MAX_IDEMPOTENCY_RECORDS"
    by (auto simp: replay_decision_def split: if_splits option.splits)
  with try_replay_absent [OF mut key tab(1)] alloc_idempotency_None_iff [OF wf] show ?thesis
    by (simp add: mem_service_try_idempotency_replay_def)
qed

lemma try_replay_reserves:
  assumes wf: "idem_wf svc" and d: "replay_decision (completed_map svc) op payload = Run_tracked key"
  shows "\<exists>i. mem_service_try_idempotency_replay svc op payload n = (STATUS_OK, [], Some i, False, svc) \<and>
    i < length (svc_idempotency_records svc) \<and> \<not> idem_in_use (svc_idempotency_records svc ! i) \<and>
    idem.lookup (svc_idempotency_records svc) key = None"
proof -
  from d have mut: "mem_service_operation_mutates op payload"
    and key: "mem_service_payload_get_idempotency_key payload MEM_SERVICE_IDEMPOTENCY_KEY_LEN = Some key"
    and tab: "completed_map svc key = None"
      "card (dom (completed_map svc)) \<noteq> MEM_SERVICE_MAX_IDEMPOTENCY_RECORDS"
    by (auto simp: replay_decision_def split: if_splits option.splits)
  from tab(2) alloc_idempotency_None_iff [OF wf] obtain i where
    i: "mem_service_alloc_idempotency_record svc = Some i" by auto
  from tab(1) have "idem.lookup (svc_idempotency_records svc) key = None"
    by (simp add: completed_map_def idem.table_map_def)
  with mut key i try_replay_absent [OF mut key tab(1)] alloc_idempotency_SomeD [OF i] show ?thesis
    by (simp add: mem_service_try_idempotency_replay_def)
qed

lemma try_replay_untracked:
  "replay_decision (completed_map svc) op payload = Run_untracked \<Longrightarrow>
   mem_service_try_idempotency_replay svc op payload n = (STATUS_OK, [], None, False, svc)"
  by (auto simp: replay_decision_def mem_service_try_idempotency_replay_def
      split: if_splits option.splits)

section \<open>Properties\<close>

text \<open>The replay decision of the daemon is the decision on the abstract map of completed
  requests. A request that does not mutate or carries no key runs untracked; a new key runs
  with a reserved free slot; a new key is refused with \<open>capacity_exceeded\<close> exactly when all
  slots are taken; a known key with another operation or another request checksum is refused
  with \<open>version_conflict\<close>; a known key with the same ones is answered with the stored status
  and the stored response, cut to the response buffer. Nothing but the conflict or replay
  counter changes.\<close>

theorem idempotency_replay_refines:
  assumes "idem_wf svc" and "0 < n"
  shows "case replay_decision (completed_map svc) op payload of
      Run_untracked \<Rightarrow> mem_service_try_idempotency_replay svc op payload n = (STATUS_OK, [], None, False, svc)
    | Run_tracked key \<Rightarrow>
        (\<exists>i. mem_service_try_idempotency_replay svc op payload n = (STATUS_OK, [], Some i, False, svc) \<and>
             i < length (svc_idempotency_records svc) \<and>
             \<not> idem_in_use (svc_idempotency_records svc ! i))
    | Refuse_full key \<Rightarrow>
        mem_service_try_idempotency_replay svc op payload n =
          (STATUS_CAPACITY_EXCEEDED,
           snprintf_s n (kv ''status'' ''capacity_exceeded'' @ kv ''idempotency_key'' key), None, True, svc)
    | Refuse_conflict key \<Rightarrow>
        mem_service_try_idempotency_replay svc op payload n =
          (STATUS_VERSION_CONFLICT,
           snprintf_s n (kv ''status'' ''version_conflict'' @ kv ''idempotency_key'' key),
           None, True, bump_conflicts svc)
    | Replay r \<Rightarrow>
        mem_service_try_idempotency_replay svc op payload n =
          (wire_status_of_code (idem_status r), snprintf_s n (idem_response r), None, True,
           bump_replays svc)"
  using try_replay_untracked try_replay_reserves [OF assms(1)] try_replay_full [OF assms(1)]
    try_replay_conflict [OF assms(1)] try_replay_answers [OF assms(1) _ assms(2)]
  by (cases "replay_decision (completed_map svc) op payload") (simp, fastforce, simp, simp, simp)

text \<open>A retry of a completed request is answered from the table. Let a mutating request with a
  key be given a slot, run, and be completed with a status of the protocol and a response.
  Then a second attempt with the same operation and payload, at any later service whose
  table is the completed one, returns that status and that response (cut to 4095 characters
  and to the response buffer) and changes only the replay counter; and a request that reuses
  the key for another operation or another request checksum is refused with
  \<open>version_conflict\<close>.\<close>

theorem retry_is_replayed:
  assumes wf: "idem_wf svc" and n: "0 < n" and st: "wire_status_known st"
    and first: "mem_service_try_idempotency_replay svc op payload n = (STATUS_OK, resp0, Some i, False, svc1)"
    and ran: "svc_idempotency_records svc2 = svc_idempotency_records svc"
    and later: "svc_idempotency_records svc4 = svc_idempotency_records
       (mem_service_complete_idempotency_record (Some i) op payload st resp svc2)"
    and reuse: "mem_service_operation_mutates op' payload'"
      "mem_service_payload_get_idempotency_key payload' MEM_SERVICE_IDEMPOTENCY_KEY_LEN =
       mem_service_payload_get_idempotency_key payload MEM_SERVICE_IDEMPOTENCY_KEY_LEN"
      "wire_operation_code op' \<noteq> wire_operation_code op \<or>
       mem_service_idempotency_request_checksum payload' \<noteq> mem_service_idempotency_request_checksum payload"
  shows "mem_service_try_idempotency_replay svc4 op payload n =
      (st, snprintf_s n (snprintf_s MEM_SERVICE_IDEMPOTENCY_RESPONSE_LEN resp), None, True, bump_replays svc4) \<and>
    fst (mem_service_try_idempotency_replay svc4 op' payload' n) = STATUS_VERSION_CONFLICT \<and>
    snd (snd (snd (snd (mem_service_try_idempotency_replay svc4 op' payload' n)))) = bump_conflicts svc4"
proof -
  obtain key where key: "mem_service_payload_get_idempotency_key payload MEM_SERVICE_IDEMPOTENCY_KEY_LEN = Some key"
    and mut: "mem_service_operation_mutates op payload"
    and find: "mem_service_find_idempotency_record svc key = None"
    and alloc: "mem_service_alloc_idempotency_record svc = Some i"
    using first by (auto simp: mem_service_try_idempotency_replay_def Let_def
        split: if_splits option.splits)
  let ?r = "completed_request key op payload st resp"
  have wf2: "idem_wf svc2" using wf ran by (simp add: idem_wf_def)
  have slot: "i < length (svc_idempotency_records svc2)"
    "idem.lookup (svc_idempotency_records svc2) key = None \<and> \<not> idem_in_use (svc_idempotency_records svc2 ! i)"
    using alloc_idempotency_SomeD [OF alloc] find ran idempotency_key_SomeD(1) [OF key]
    by (simp_all add: find_idempotency_lookup)
  note completed = complete_idempotency_spec [OF wf2 key slot(1), of op st resp, OF disjI2 [OF slot(2)]]
  have wf4: "idem_wf svc4" and map4: "completed_map svc4 = (completed_map svc2)(key \<mapsto> ?r)"
    using completed later by (simp_all add: idem_wf_def completed_map_def)
  have r: "idem_operation ?r = wire_operation_code op" "idem_status ?r = wire_status_code st"
    "idem_request_checksum ?r = mem_service_idempotency_request_checksum payload"
    "idem_response ?r = snprintf_s MEM_SERVICE_IDEMPOTENCY_RESPONSE_LEN resp"
    by (simp_all add: completed_request_def Let_def snprintf_s_def)
  have "replay_decision (completed_map svc4) op payload = Replay ?r"
    by (simp add: replay_decision_def mut key map4 r)
  moreover have "replay_decision (completed_map svc4) op' payload' = Refuse_conflict key"
    using reuse by (auto simp: replay_decision_def key map4 r)
  ultimately show ?thesis
    using try_replay_answers [OF wf4 _ n] try_replay_conflict [OF wf4] st r by simp
qed

section \<open>Witnesses\<close>

definition demo_tracked :: cstr where
  "demo_tracked = kv ''idempotency_key'' ''k1'' @ kv ''key'' ''a''"

lemma demo_tracked_key:
  "mem_service_payload_get_idempotency_key demo_tracked MEM_SERVICE_IDEMPOTENCY_KEY_LEN = Some ''k1''"
  by code_simp

lemma demo_tracked_first:
  "mem_service_try_idempotency_replay initial_service OP_PUT_OBJECT demo_tracked 4096 =
     (STATUS_OK, [], Some 0, False, initial_service)"
proof -
  have "mem_service_find_idempotency_record initial_service ''k1'' = None"
    "mem_service_alloc_idempotency_record initial_service = Some 0"
    by (simp_all add: mem_service_find_idempotency_record_def mem_service_alloc_idempotency_record_def
        MEM_SERVICE_MAX_IDEMPOTENCY_RECORDS_def)
  then show ?thesis
    by (simp add: mem_service_try_idempotency_replay_def demo_tracked_key mem_service_operation_mutates_def)
qed

theorem idempotency_replay_refines_witness:
  "\<exists>i. mem_service_try_idempotency_replay initial_service OP_PUT_OBJECT demo_tracked 4096 =
     (STATUS_OK, [], Some i, False, initial_service)"
proof -
  have "replay_decision (completed_map initial_service) OP_PUT_OBJECT demo_tracked = Run_tracked ''k1''"
    by (simp add: replay_decision_def demo_tracked_key mem_service_operation_mutates_def
        idem_wf_initial(2) MEM_SERVICE_MAX_IDEMPOTENCY_RECORDS_def)
  with idempotency_replay_refines [OF idem_wf_initial(1), of 4096 OP_PUT_OBJECT demo_tracked]
  show ?thesis by auto
qed

theorem retry_is_replayed_witness:
  "\<exists>svc. mem_service_try_idempotency_replay svc OP_PUT_OBJECT demo_tracked 4096 =
       (STATUS_OK, ''status=ok'', None, True, bump_replays svc) \<and>
     fst (mem_service_try_idempotency_replay svc OP_PUBLISH_KV_SEGMENT demo_tracked 4096) =
       STATUS_VERSION_CONFLICT"
proof -
  let ?svc = "mem_service_complete_idempotency_record (Some 0) OP_PUT_OBJECT demo_tracked STATUS_OK
    ''status=ok'' initial_service"
  have n: "(0 :: nat) < 4096" and known: "wire_status_known STATUS_OK"
    and mut: "mem_service_operation_mutates OP_PUBLISH_KV_SEGMENT demo_tracked"
    and other: "wire_operation_code OP_PUBLISH_KV_SEGMENT \<noteq> wire_operation_code OP_PUT_OBJECT \<or>
      mem_service_idempotency_request_checksum demo_tracked \<noteq>
      mem_service_idempotency_request_checksum demo_tracked"
    by (simp_all add: mem_service_operation_mutates_def)
  from retry_is_replayed [OF idem_wf_initial(1) n known demo_tracked_first refl refl mut refl other,
      of "''status=ok''"]
  show ?thesis by (intro exI [of _ ?svc]) (simp add: MEM_SERVICE_IDEMPOTENCY_RESPONSE_LEN_def)
qed

end
