(* ===== verification/Wire_Schema.thy ===== *)
theory Wire_Schema
  imports Wire Wire_Payload
begin

text \<open>
  The request schemas of the protocol (\<open>mem_service_wire_schema.h\<close>): for every operation the
  fields its payload may carry, with type and obligation, and the groups of which one field
  has to be present. A \<open>(pointer, count)\<close> pair of the C tables is a list; a NULL schema is
  \<^const>\<open>None\<close>.

  The lemmas show that the table has exactly one entry per operation of the protocol, that
  names tell operations apart, and that validation of a payload accepts it exactly when every
  field is acceptable and every group has a field, and otherwise names an offending field.
\<close>

section \<open>Tables\<close>

definition MEM_SERVICE_WIRE_SCHEMA_VERSION :: u32 where "MEM_SERVICE_WIRE_SCHEMA_VERSION = 1"
definition MEM_SERVICE_WIRE_SCHEMA_FORMAT_TEXT_KV :: u32 where
  "MEM_SERVICE_WIRE_SCHEMA_FORMAT_TEXT_KV = 1"

type_synonym mem_service_wire_payload_oneof = "cstr list"

record mem_service_wire_operation_schema =
  schema_operation :: mem_service_wire_operation
  schema_name :: cstr
  schema_version :: u32
  schema_payload_format :: u32
  schema_fields :: "mem_service_wire_payload_field list"
  schema_oneofs :: "mem_service_wire_payload_oneof list"

definition wire_field ::
  "cstr \<Rightarrow> mem_service_wire_payload_field_type \<Rightarrow> bool \<Rightarrow> mem_service_wire_payload_field" where
  "wire_field name type required =
     \<lparr> field_name = name, field_type = type, field_required = required \<rparr>"

definition mem_service_wire_object_put_fields :: "mem_service_wire_payload_field list" where
  "mem_service_wire_object_put_fields =
     [wire_field ''key'' FIELD_STRING True,
      wire_field ''owner'' FIELD_U32 False,
      wire_field ''payload_kind'' FIELD_U32 False,
      wire_field ''backing_offset'' FIELD_U64 False,
      wire_field ''backing_len'' FIELD_U64 False,
      wire_field ''checksum'' FIELD_U64 False,
      wire_field ''version'' FIELD_U64 False,
      wire_field ''backend'' FIELD_STRING False,
      wire_field ''backend_write'' FIELD_U32 False,
      wire_field ''backend_device_path'' FIELD_STRING False,
      wire_field ''backend_request_id'' FIELD_U64 False,
      wire_field ''backend_source_cna'' FIELD_U32 False,
      wire_field ''backend_kind'' FIELD_U32 False,
      wire_field ''backend_node'' FIELD_U32 False,
      wire_field ''backend_device_cna'' FIELD_U32 False,
      wire_field ''backend_flags'' FIELD_U32 False,
      wire_field ''backend_block_hi'' FIELD_U64 False,
      wire_field ''backend_block_lo'' FIELD_U64 False,
      wire_field ''backend_block_version'' FIELD_U64 False,
      wire_field ''backend_block_offset'' FIELD_U64 False,
      wire_field ''backend_block_bytes'' FIELD_U64 False,
      wire_field ''backend_block_checksum'' FIELD_U64 False,
      wire_field ''backend_buffer_gsva_base'' FIELD_U64 False,
      wire_field ''backend_buffer_bytes'' FIELD_U64 False,
      wire_field ''backend_buffer_token_id'' FIELD_U32 False,
      wire_field ''backend_buffer_token_value'' FIELD_U32 False,
      wire_field ''backend_buffer_key_version'' FIELD_U32 False,
      wire_field ''backend_buffer_key_flags'' FIELD_U32 False,
      wire_field ''backend_buffer_key_segment_id'' FIELD_U64 False,
      wire_field ''backend_buffer_key_home_va'' FIELD_U64 False,
      wire_field ''backend_buffer_key_size'' FIELD_U64 False,
      wire_field ''backend_buffer_key_vmid'' FIELD_U64 False,
      wire_field ''backend_buffer_key_asid'' FIELD_U64 False,
      wire_field ''backend_buffer_key_pte_offset'' FIELD_U64 False,
      wire_field ''backend_buffer_key_p_tag'' FIELD_U32 False,
      wire_field ''backend_buffer_key_cache_policy'' FIELD_U32 False,
      wire_field ''backend_buffer_key_epoch'' FIELD_U64 False,
      wire_field ''idempotency_key'' FIELD_STRING False,
      wire_field ''payload_inline'' FIELD_STRING False,
      wire_field ''payload_path'' FIELD_STRING False]"

definition mem_service_wire_object_get_fields :: "mem_service_wire_payload_field list" where
  "mem_service_wire_object_get_fields =
     [wire_field ''key'' FIELD_STRING True,
      wire_field ''backend_read'' FIELD_U32 False,
      wire_field ''backend_device_path'' FIELD_STRING False,
      wire_field ''backend_request_id'' FIELD_U64 False,
      wire_field ''backend_source_cna'' FIELD_U32 False,
      wire_field ''backend_device_cna'' FIELD_U32 False,
      wire_field ''backend_flags'' FIELD_U32 False,
      wire_field ''backend_buffer_gsva_base'' FIELD_U64 False,
      wire_field ''backend_buffer_bytes'' FIELD_U64 False,
      wire_field ''backend_buffer_token_id'' FIELD_U32 False,
      wire_field ''backend_buffer_token_value'' FIELD_U32 False,
      wire_field ''backend_buffer_key_version'' FIELD_U32 False,
      wire_field ''backend_buffer_key_flags'' FIELD_U32 False,
      wire_field ''backend_buffer_key_segment_id'' FIELD_U64 False,
      wire_field ''backend_buffer_key_home_va'' FIELD_U64 False,
      wire_field ''backend_buffer_key_size'' FIELD_U64 False,
      wire_field ''backend_buffer_key_vmid'' FIELD_U64 False,
      wire_field ''backend_buffer_key_asid'' FIELD_U64 False,
      wire_field ''backend_buffer_key_pte_offset'' FIELD_U64 False,
      wire_field ''backend_buffer_key_p_tag'' FIELD_U32 False,
      wire_field ''backend_buffer_key_cache_policy'' FIELD_U32 False,
      wire_field ''backend_buffer_key_epoch'' FIELD_U64 False]"

definition mem_service_wire_object_inspect_fields :: "mem_service_wire_payload_field list" where
  "mem_service_wire_object_inspect_fields =
     [wire_field ''key'' FIELD_STRING True]"

definition mem_service_wire_object_materialize_fields :: "mem_service_wire_payload_field list" where
  "mem_service_wire_object_materialize_fields =
     [wire_field ''key'' FIELD_STRING True,
      wire_field ''destination_path'' FIELD_STRING True,
      wire_field ''expected_version'' FIELD_U64 False,
      wire_field ''expected_checksum'' FIELD_U64 False]"

definition mem_service_wire_snapshot_page_fields :: "mem_service_wire_payload_field list" where
  "mem_service_wire_snapshot_page_fields =
     [wire_field ''start_index'' FIELD_U64 False,
      wire_field ''max_records'' FIELD_U64 False]"

definition mem_service_wire_audit_log_fields :: "mem_service_wire_payload_field list" where
  "mem_service_wire_audit_log_fields =
     [wire_field ''start_sequence'' FIELD_U64 False,
      wire_field ''max_events'' FIELD_U64 False]"

definition mem_service_wire_restore_snapshot_page_fields :: "mem_service_wire_payload_field list" where
  "mem_service_wire_restore_snapshot_page_fields =
     [wire_field ''action'' FIELD_STRING True,
      wire_field ''page_index'' FIELD_U64 False,
      wire_field ''expected_records'' FIELD_U64 False,
      wire_field ''complete'' FIELD_U32 False]"

definition mem_service_wire_block_context_fields :: "mem_service_wire_payload_field list" where
  "mem_service_wire_block_context_fields =
     [wire_field ''request_id'' FIELD_STRING True,
      wire_field ''prefix_group'' FIELD_STRING True,
      wire_field ''group_id'' FIELD_STRING True,
      wire_field ''block_hash'' FIELD_STRING True,
      wire_field ''placement_node'' FIELD_U32 False,
      wire_field ''placement_level'' FIELD_U32 False,
      wire_field ''hot_segment_id'' FIELD_U64 False,
      wire_field ''state'' FIELD_STRING False,
      wire_field ''result_segment_id'' FIELD_U64 False,
      wire_field ''idempotency_key'' FIELD_STRING False]"

definition mem_service_wire_prefix_lookup_fields :: "mem_service_wire_payload_field list" where
  "mem_service_wire_prefix_lookup_fields =
     [wire_field ''request_id'' FIELD_STRING True,
      wire_field ''prefix_group'' FIELD_STRING True]"

definition mem_service_wire_kv_resolve_fields :: "mem_service_wire_payload_field list" where
  "mem_service_wire_kv_resolve_fields =
     [wire_field ''key'' FIELD_STRING False,
      wire_field ''block_hash'' FIELD_STRING False]"

definition mem_service_wire_artifact_publish_fields :: "mem_service_wire_payload_field list" where
  "mem_service_wire_artifact_publish_fields =
     [wire_field ''key'' FIELD_STRING True,
      wire_field ''session_id'' FIELD_STRING False,
      wire_field ''request_id'' FIELD_STRING False,
      wire_field ''model_key'' FIELD_STRING False,
      wire_field ''artifact_kind'' FIELD_STRING False,
      wire_field ''artifact_id'' FIELD_STRING False,
      wire_field ''owner'' FIELD_U32 False,
      wire_field ''payload_kind'' FIELD_U32 False,
      wire_field ''backing_offset'' FIELD_U64 False,
      wire_field ''backing_len'' FIELD_U64 False,
      wire_field ''checksum'' FIELD_U64 False,
      wire_field ''version'' FIELD_U64 False,
      wire_field ''idempotency_key'' FIELD_STRING False,
      wire_field ''payload_inline'' FIELD_STRING False,
      wire_field ''payload_path'' FIELD_STRING False]"

definition mem_service_wire_artifact_query_fields :: "mem_service_wire_payload_field list" where
  "mem_service_wire_artifact_query_fields =
     [wire_field ''key'' FIELD_STRING True,
      wire_field ''expected_session_id'' FIELD_STRING False,
      wire_field ''expected_model_key'' FIELD_STRING False,
      wire_field ''expected_artifact_kind'' FIELD_STRING False,
      wire_field ''expected_artifact_id'' FIELD_STRING False,
      wire_field ''expected_owner'' FIELD_U32 False,
      wire_field ''expected_version'' FIELD_U64 False,
      wire_field ''expected_checksum'' FIELD_U64 False]"

definition mem_service_wire_kv_resolve_selector_fields :: "cstr list" where
  "mem_service_wire_kv_resolve_selector_fields = [''key'', ''block_hash'']"

definition mem_service_wire_kv_resolve_oneofs :: "mem_service_wire_payload_oneof list" where
  "mem_service_wire_kv_resolve_oneofs = [mem_service_wire_kv_resolve_selector_fields]"

definition operation_schema ::
  "mem_service_wire_operation \<Rightarrow> cstr \<Rightarrow> mem_service_wire_payload_field list \<Rightarrow>
   mem_service_wire_payload_oneof list \<Rightarrow> mem_service_wire_operation_schema" where
  "operation_schema operation name field_table oneofs =
     \<lparr> schema_operation = operation, schema_name = name,
       schema_version = MEM_SERVICE_WIRE_SCHEMA_VERSION,
       schema_payload_format = MEM_SERVICE_WIRE_SCHEMA_FORMAT_TEXT_KV,
       schema_fields = field_table, schema_oneofs = oneofs \<rparr>"

definition mem_service_wire_operation_schemas :: "mem_service_wire_operation_schema list" where
  "mem_service_wire_operation_schemas =
     [operation_schema OP_HEALTH ''health'' [] [],
      operation_schema OP_READY ''ready'' [] [],
      operation_schema OP_STATUS ''status'' [] [],
      operation_schema OP_LIST_RECORDS ''list_records'' [] [],
      operation_schema OP_METRICS ''metrics'' [] [],
      operation_schema OP_EXPORT_SNAPSHOT ''export_snapshot'' [] [],
      operation_schema OP_EXPORT_SNAPSHOT_PAGE ''export_snapshot_page'' mem_service_wire_snapshot_page_fields [],
      operation_schema OP_RESTORE_SNAPSHOT ''restore_snapshot'' [] [],
      operation_schema OP_RESTORE_SNAPSHOT_PAGE ''restore_snapshot_page'' mem_service_wire_restore_snapshot_page_fields [],
      operation_schema OP_AUDIT_LOG ''audit_log'' mem_service_wire_audit_log_fields [],
      operation_schema OP_PUT_OBJECT ''put_object'' mem_service_wire_object_put_fields [],
      operation_schema OP_GET_OBJECT ''get_object'' mem_service_wire_object_get_fields [],
      operation_schema OP_INSPECT_OBJECT ''inspect_object'' mem_service_wire_object_inspect_fields [],
      operation_schema OP_MATERIALIZE_OBJECT ''materialize_object'' mem_service_wire_object_materialize_fields [],
      operation_schema OP_REGISTER_PREFIX_ENTRY ''register_prefix_entry'' mem_service_wire_block_context_fields [],
      operation_schema OP_LOOKUP_PREFIX_ENTRY ''lookup_prefix_entry'' mem_service_wire_prefix_lookup_fields [],
      operation_schema OP_PUBLISH_KV_SEGMENT ''publish_kv_segment'' mem_service_wire_block_context_fields [],
      operation_schema OP_RESOLVE_KV_SEGMENT ''resolve_kv_segment'' mem_service_wire_kv_resolve_fields mem_service_wire_kv_resolve_oneofs,
      operation_schema OP_PUBLISH_RUNTIME_HANDOFF ''publish_runtime_handoff'' mem_service_wire_artifact_publish_fields [],
      operation_schema OP_RESOLVE_RUNTIME_HANDOFF ''resolve_runtime_handoff'' mem_service_wire_artifact_query_fields [],
      operation_schema OP_REGISTER_EXECUTION_ARTIFACT ''register_execution_artifact'' mem_service_wire_artifact_publish_fields [],
      operation_schema OP_QUERY_EXECUTION_ARTIFACT ''query_execution_artifact'' mem_service_wire_artifact_query_fields [],
      operation_schema OP_REGISTER_TRAINING_ARTIFACT ''register_training_artifact'' mem_service_wire_artifact_publish_fields [],
      operation_schema OP_QUERY_TRAINING_ARTIFACT ''query_training_artifact'' mem_service_wire_artifact_query_fields []]"

section \<open>Lookup and validation\<close>

definition mem_service_wire_schema_for_operation ::
  "mem_service_wire_operation \<Rightarrow> mem_service_wire_operation_schema option" where
  "mem_service_wire_schema_for_operation operation =
     find (\<lambda>s. schema_operation s = operation) mem_service_wire_operation_schemas"

text \<open>A group of alternatives: some field of it is present (in a buffer of 128 characters).\<close>

definition oneof_present :: "cstr \<Rightarrow> mem_service_wire_payload_oneof \<Rightarrow> bool" where
  "oneof_present payload oneof \<longleftrightarrow>
     list_ex (\<lambda>name. mem_service_wire_payload_get_string payload name 128 \<noteq> None) oneof"

text \<open>The result is the boolean of the code and \<open>*failed_field_out\<close> (NULL is \<^const>\<open>None\<close>).\<close>

definition mem_service_wire_schema_validate_payload ::
  "mem_service_wire_operation_schema option \<Rightarrow> cstr \<Rightarrow> bool \<times> cstr option" where
  "mem_service_wire_schema_validate_payload schema payload =
     (case schema of
        None \<Rightarrow> (True, None)
      | Some s \<Rightarrow>
          (case mem_service_wire_payload_validate_schema payload (schema_fields s) of
             Some failed_index \<Rightarrow> (False, Some (field_name (schema_fields s ! failed_index)))
           | None \<Rightarrow>
               (case find (\<lambda>oneof. \<not> oneof_present payload oneof) (schema_oneofs s) of
                  None \<Rightarrow> (True, None)
                | Some oneof \<Rightarrow> (False, if oneof = [] then None else Some (hd oneof)))))"

definition mem_service_operation_name :: "mem_service_wire_operation \<Rightarrow> cstr" where
  "mem_service_operation_name operation =
     (case mem_service_wire_schema_for_operation operation of
        None \<Rightarrow> ''unknown'' | Some s \<Rightarrow> schema_name s)"

section \<open>Lemmas\<close>

lemma schema_operations:
  "map schema_operation mem_service_wire_operation_schemas = all_wire_operations"
  by (simp add: mem_service_wire_operation_schemas_def operation_schema_def all_wire_operations_def)

lemma schema_for_operation_known:
  assumes "op \<in> set all_wire_operations"
  obtains s where "mem_service_wire_schema_for_operation op = Some s" "schema_operation s = op"
    "s \<in> set mem_service_wire_operation_schemas"
proof -
  from assms schema_operations obtain s where "s \<in> set mem_service_wire_operation_schemas" "schema_operation s = op"
    by (metis imageE list.set_map)
  then have "mem_service_wire_schema_for_operation op \<noteq> None"
    unfolding mem_service_wire_schema_for_operation_def find_None_iff by blast
  then obtain s' where "mem_service_wire_schema_for_operation op = Some s'" by blast
  then show thesis
    using that unfolding mem_service_wire_schema_for_operation_def find_Some_iff by (metis nth_mem)
qed

lemma schema_for_operation_other: "mem_service_wire_schema_for_operation (OP_OTHER n) = None"
proof -
  have "OP_OTHER n \<notin> set (map schema_operation mem_service_wire_operation_schemas)"
    unfolding schema_operations by (simp add: all_wire_operations_def)
  then show ?thesis
    unfolding mem_service_wire_schema_for_operation_def find_None_iff by (metis image_eqI list.set_map)
qed

lemma wire_operation_cases:
  "op \<in> set all_wire_operations \<or> (\<exists>n. op = OP_OTHER n)"
  by (cases op) (simp_all add: all_wire_operations_def)

lemma schema_names_distinct: "distinct (map schema_name mem_service_wire_operation_schemas)"
  by (simp add: mem_service_wire_operation_schemas_def operation_schema_def)

lemma operation_name_inj: "inj_on mem_service_operation_name (set all_wire_operations)"
proof (rule inj_onI)
  fix op op'
  assume known: "op \<in> set all_wire_operations" "op' \<in> set all_wire_operations"
    and eq: "mem_service_operation_name op = mem_service_operation_name op'"
  obtain s where s: "mem_service_wire_schema_for_operation op = Some s" "schema_operation s = op"
    "s \<in> set mem_service_wire_operation_schemas" using known(1) by (rule schema_for_operation_known)
  obtain s' where s': "mem_service_wire_schema_for_operation op' = Some s'" "schema_operation s' = op'"
    "s' \<in> set mem_service_wire_operation_schemas" using known(2) by (rule schema_for_operation_known)
  from eq s(1) s'(1) have "schema_name s = schema_name s'" by (simp add: mem_service_operation_name_def)
  with schema_names_distinct s(3) s'(3) have "s = s'" by (auto simp: distinct_map dest: inj_onD)
  with s(2) s'(2) show "op = op'" by simp
qed

lemma oneofs_nonempty:
  "s \<in> set mem_service_wire_operation_schemas \<Longrightarrow> \<forall>oneof \<in> set (schema_oneofs s). oneof \<noteq> []"
  by (auto simp: mem_service_wire_operation_schemas_def operation_schema_def
      mem_service_wire_kv_resolve_oneofs_def mem_service_wire_kv_resolve_selector_fields_def)

text \<open>Validation of a payload against one schema, on each of its branches.\<close>

lemma validate_payload_cases:
  assumes "s \<in> set mem_service_wire_operation_schemas"
    and run: "mem_service_wire_schema_validate_payload (Some s) payload = (ok, failed)"
  shows "(ok \<longleftrightarrow> list_all (field_accepted payload) (schema_fields s) \<and>
      list_all (oneof_present payload) (schema_oneofs s)) \<and>
    (ok \<longrightarrow> failed = None) \<and>
    (\<not> ok \<longrightarrow> (\<exists>name. failed = Some name \<and>
       ((\<exists>f \<in> set (schema_fields s). field_name f = name \<and> \<not> field_accepted payload f) \<or>
        (\<exists>oneof \<in> set (schema_oneofs s). hd oneof = name \<and> \<not> oneof_present payload oneof))))"
proof (cases "mem_service_wire_payload_validate_schema payload (schema_fields s)")
  case (Some i)
  then have "i < length (schema_fields s)" "\<not> field_accepted payload (schema_fields s ! i)"
    unfolding mem_service_wire_payload_validate_schema_def by (auto dest: find_slot_SomeD)
  with Some run show ?thesis
    by (auto simp: mem_service_wire_schema_validate_payload_def list_all_length intro!: bexI [of _ "schema_fields s ! i"])
next
  case None
  then have fields: "list_all (field_accepted payload) (schema_fields s)"
    by (simp add: mem_service_wire_payload_validate_schema_def find_slot_None_iff list_all_iff)
  show ?thesis
  proof (cases "find (\<lambda>oneof. \<not> oneof_present payload oneof) (schema_oneofs s)")
    case none: None
    with None run fields show ?thesis
      by (simp add: mem_service_wire_schema_validate_payload_def find_None_iff list_all_iff)
  next
    case (Some oneof)
    then have "oneof \<in> set (schema_oneofs s)" "\<not> oneof_present payload oneof"
      by (auto simp: find_Some_iff)
    with None Some run fields oneofs_nonempty [OF assms(1)] show ?thesis
      by (auto simp: mem_service_wire_schema_validate_payload_def list_all_iff)
  qed
qed

section \<open>Properties\<close>

text \<open>Every operation of the protocol has a request schema of its own and a name of its own.
  Validating a payload against the schema of its operation accepts it exactly when every
  field of the schema is acceptable and every group of alternatives has a field present, and
  a rejection names an offending field (the first alternative, for a group). A number that
  is no operation has no schema and is accepted.\<close>

theorem operation_schema_validation_exact:
  "inj_on mem_service_operation_name (set all_wire_operations) \<and>
   (case mem_service_wire_schema_for_operation op of
      None \<Rightarrow> op \<notin> set all_wire_operations \<and>
        mem_service_wire_schema_validate_payload None payload = (True, None)
    | Some s \<Rightarrow> schema_operation s = op \<and>
        (\<exists>ok failed. mem_service_wire_schema_validate_payload (Some s) payload = (ok, failed) \<and>
          (ok \<longleftrightarrow> list_all (field_accepted payload) (schema_fields s) \<and>
             list_all (oneof_present payload) (schema_oneofs s)) \<and>
          (\<not> ok \<longrightarrow> (\<exists>name. failed = Some name \<and>
             ((\<exists>f \<in> set (schema_fields s). field_name f = name \<and> \<not> field_accepted payload f) \<or>
              (\<exists>oneof \<in> set (schema_oneofs s). hd oneof = name \<and> \<not> oneof_present payload oneof))))))"
proof (cases "op \<in> set all_wire_operations")
  case True
  then obtain s where s: "mem_service_wire_schema_for_operation op = Some s" "schema_operation s = op"
    "s \<in> set mem_service_wire_operation_schemas" by (rule schema_for_operation_known)
  obtain ok failed where run: "mem_service_wire_schema_validate_payload (Some s) payload = (ok, failed)"
    by fastforce
  from validate_payload_cases [OF s(3) run] operation_name_inj s run show ?thesis by simp
next
  case False
  with wire_operation_cases obtain n where "op = OP_OTHER n" by blast
  with False operation_name_inj schema_for_operation_other show ?thesis
    by (simp add: mem_service_wire_schema_validate_payload_def)
qed

theorem operation_schema_validation_exact_witness:
  "\<exists>s ok failed. mem_service_wire_schema_for_operation OP_RESOLVE_KV_SEGMENT = Some s \<and>
     mem_service_wire_schema_validate_payload (Some s) [] = (ok, failed) \<and> \<not> ok \<and> failed = Some ''key''"
proof -
  have absent: "\<And>n. mem_service_wire_payload_get_string [] n 128 = None"
    by (simp add: mem_service_wire_payload_get_string_def payload_find.simps)
  have schema: "mem_service_wire_schema_for_operation OP_RESOLVE_KV_SEGMENT =
      Some (operation_schema OP_RESOLVE_KV_SEGMENT ''resolve_kv_segment''
        mem_service_wire_kv_resolve_fields mem_service_wire_kv_resolve_oneofs)"
    by (simp add: mem_service_wire_schema_for_operation_def mem_service_wire_operation_schemas_def
        operation_schema_def)
  show ?thesis
    using operation_schema_validation_exact [of OP_RESOLVE_KV_SEGMENT "[]"] absent
    by (simp add: schema operation_schema_def mem_service_wire_kv_resolve_oneofs_def oneof_present_def
        mem_service_wire_kv_resolve_selector_fields_def mem_service_wire_kv_resolve_fields_def
        wire_field_def field_accepted_def) blast
qed

end
