(* ===== verification/Audit_Log.thy ===== *)
theory Audit_Log
  imports Idempotency Wire_Schema
begin

text \<open>
  The audit log of the daemon (\<open>mem_service_daemon.c\<close>): a ring of 256 events numbered by a
  64-bit sequence. Appending overwrites the oldest event; retention keeps the newest ones; the
  log operation prints a range of them. The clock reading of an event is an argument.

  The ring refines a list, the window of retained events in order: appending adds at the end
  and drops from the front, retention drops from the front, and looking a sequence number up
  finds exactly the events of the window. These facts are proved once for any ring of numbered
  slots (locale \<open>seq_ring\<close>) and used through an interpretation on the audit array.
\<close>

section \<open>Rings of numbered slots\<close>

text \<open>
  The interface: a capacity, a test for a live slot, the sequence number of a slot and a dead
  slot. Numbers start at 1, number \<open>s\<close> lives in slot \<open>(s - 1) mod cap\<close>. \<open>n\<close> is the next
  number, \<open>c\<close> the number of live slots; the live numbers are \<open>n - c, ..., n - 1\<close>.
\<close>

locale seq_ring =
  fixes cap :: nat
    and live :: "'e \<Rightarrow> bool"
    and seq :: "'e \<Rightarrow> nat"
    and dead :: 'e
  assumes cap_pos: "0 < cap" and dead_free: "\<not> live dead"
begin

definition slot :: "nat \<Rightarrow> nat" where
  "slot s = (s - 1) mod cap"

definition window :: "'e list \<Rightarrow> nat \<Rightarrow> nat \<Rightarrow> 'e list" where
  "window es n c = map (\<lambda>s. es ! slot s) [n - c..<n]"

definition ring_wf :: "'e list \<Rightarrow> nat \<Rightarrow> nat \<Rightarrow> bool" where
  "ring_wf es n c \<longleftrightarrow> length es = cap \<and> c \<le> cap \<and> c < n \<and>
     (\<forall>i<cap. live (es ! i) \<longleftrightarrow> (\<exists>s. n - c \<le> s \<and> s < n \<and> slot s = i)) \<and>
     (\<forall>s. n - c \<le> s \<longrightarrow> s < n \<longrightarrow> seq (es ! slot s) = s)"

definition prune :: "nat \<Rightarrow> 'e list \<Rightarrow> 'e list" where
  "prune first es = map (\<lambda>e. if live e \<and> seq e < first then dead else e) es"

lemma slot_less [simp]: "slot s < cap"
  using cap_pos by (simp add: slot_def)

lemma slot_distinct:
  assumes "1 \<le> s" "s < t" "t - s < cap"
  shows "slot s \<noteq> slot t"
proof
  assume "slot s = slot t"
  then have "cap dvd (t - 1) - (s - 1)"
    unfolding slot_def using assms by (metis less_imp_le_nat diff_le_mono mod_eq_dvd_iff_nat)
  moreover have "(t - 1) - (s - 1) = t - s" using assms by simp
  ultimately show False using assms by (auto dest: dvd_imp_le)
qed

lemma ring_wf_init: "ring_wf (replicate cap dead) 1 0"
  by (simp add: ring_wf_def dead_free cap_pos)

lemma ring_wfD:
  assumes "ring_wf es n c"
  shows "length es = cap" "c \<le> cap" "c < n"
    "\<And>i. i < cap \<Longrightarrow> live (es ! i) \<longleftrightarrow> (\<exists>s. n - c \<le> s \<and> s < n \<and> slot s = i)"
    "\<And>s. n - c \<le> s \<Longrightarrow> s < n \<Longrightarrow> seq (es ! slot s) = s"
    "\<And>s. n - c \<le> s \<Longrightarrow> s < n \<Longrightarrow> live (es ! slot s)"
  using assms slot_less unfolding ring_wf_def by blast+

lemma ring_wf_slot_inj:
  assumes "ring_wf es n c" "n - c \<le> s" "s < n" "n - c \<le> t" "t < n" "slot s = slot t"
  shows "s = t"
proof (rule ccontr)
  assume "s \<noteq> t"
  moreover from assms(1) have "c \<le> cap" "c < n" by (auto simp: ring_wf_def)
  ultimately show False
    using slot_distinct [of s t] slot_distinct [of t s] assms(2-6) by linarith
qed

text \<open>Appending the event with the next number.\<close>

lemma ring_append:
  assumes wf: "ring_wf es n c" and e: "live e" "seq e = n"
  shows "ring_wf (es[slot n := e]) (n + 1) (min cap (c + 1))"
    and "window (es[slot n := e]) (n + 1) (min cap (c + 1)) =
         drop (c + 1 - cap) (window es n c @ [e])"
proof -
  let ?c = "min cap (c + 1)" and ?es = "es[slot n := e]"
  note len = ring_wfD(1) [OF wf] and c = ring_wfD(2,3) [OF wf]
    and live = ring_wfD(4) [OF wf] and num = ring_wfD(5) [OF wf]
  have old: "?es ! slot s = es ! slot s" if "n + 1 - ?c \<le> s" "s < n" for s
  proof -
    have "slot s \<noteq> slot n" using that c by (intro slot_distinct) (auto simp: min_def split: if_splits)
    then show ?thesis by simp
  qed
  have new: "?es ! slot n = e" using len by simp
  have range: "n - c \<le> s \<and> s < n \<longleftrightarrow> n + 1 - ?c \<le> s \<and> s < n + 1" if "slot s \<noteq> slot n" for s
  proof (cases "c = cap")
    case True
    then have "n - 1 = (n - cap - 1) + cap" using c by simp
    then have "slot (n - cap) = slot n" unfolding slot_def by (metis mod_add_self2)
    with that True c show ?thesis by (cases "s = n - cap"; cases "s = n") auto
  next
    case False
    with that c show ?thesis by (cases "s = n") auto
  qed
  have alive: "live (?es ! i) \<longleftrightarrow> (\<exists>s. n + 1 - ?c \<le> s \<and> s < n + 1 \<and> slot s = i)" if i: "i < cap" for i
  proof (cases "i = slot n")
    case True
    with new e(1) cap_pos show ?thesis by (auto intro!: exI [of _ n])
  next
    case False
    then show ?thesis using live [OF i] range by auto
  qed
  have nums: "seq (?es ! slot s) = s" if "n + 1 - ?c \<le> s" "s < n + 1" for s
    using that old new e(2) num [of s] c by (cases "s = n") auto
  show "ring_wf ?es (n + 1) ?c"
    unfolding ring_wf_def using len c alive nums by auto
  have "window ?es (n + 1) ?c = map (\<lambda>s. es ! slot s) [n + 1 - ?c..<n] @ [e]"
    using old new c cap_pos unfolding window_def by (auto simp: min_def)
  also have "map (\<lambda>s. es ! slot s) [n + 1 - ?c..<n] = drop (c + 1 - cap) (window es n c)"
    using c by (auto simp: window_def drop_map drop_upt min_def)
  finally show "window ?es (n + 1) ?c = drop (c + 1 - cap) (window es n c @ [e])"
    using c cap_pos by (simp add: window_def Suc_le_eq)
qed

text \<open>Keeping the newest \<open>m\<close> events.\<close>

lemma ring_prune:
  assumes wf: "ring_wf es n c" and m: "m \<le> c"
  shows "ring_wf (prune (n - m) es) n m"
    and "window (prune (n - m) es) n m = drop (c - m) (window es n c)"
proof -
  let ?es = "prune (n - m) es"
  note len = ring_wfD(1) [OF wf] and c = ring_wfD(2,3) [OF wf]
    and live = ring_wfD(4) [OF wf] and num = ring_wfD(5) [OF wf]
  have nth: "?es ! i = (if live (es ! i) \<and> seq (es ! i) < n - m then dead else es ! i)" if "i < cap" for i
    using that len by (simp add: prune_def)
  have kept: "?es ! slot s = es ! slot s" if "n - m \<le> s" "s < n" for s
    using that num [of s] m nth [of "slot s"] by auto
  have "live (?es ! i) \<longleftrightarrow> (\<exists>s. n - m \<le> s \<and> s < n \<and> slot s = i)" if i: "i < cap" for i
  proof
    assume "live (?es ! i)"
    then have alive: "live (es ! i)" "\<not> seq (es ! i) < n - m"
      using nth [OF i] dead_free by (auto split: if_splits)
    then obtain s where "n - c \<le> s" "s < n" "slot s = i" using live [OF i] by blast
    with num [of s] alive(2) show "\<exists>s. n - m \<le> s \<and> s < n \<and> slot s = i"
      by (intro exI [of _ s]) auto
  next
    assume "\<exists>s. n - m \<le> s \<and> s < n \<and> slot s = i"
    then obtain s where s: "n - m \<le> s" "s < n" "slot s = i" by blast
    moreover from s(1) m have "n - c \<le> s" by simp
    ultimately show "live (?es ! i)" using kept [OF s(1,2)] ring_wfD(6) [OF wf, of s] by simp
  qed
  moreover have "seq (?es ! slot s) = s" if "n - m \<le> s" "s < n" for s
    using that kept num m by simp
  ultimately show "ring_wf ?es n m"
    unfolding ring_wf_def using len c m by (auto simp: prune_def)
  show "window ?es n m = drop (c - m) (window es n c)"
    using kept m c by (auto simp: window_def drop_map drop_upt)
qed

lemma ring_live_count:
  assumes "ring_wf es n c"
  shows "length (filter live es) = c"
proof -
  note wf = ring_wfD [OF assms]
  have "{i. i < cap \<and> live (es ! i)} = slot ` {n - c..<n}"
    using wf(4) by fastforce
  moreover have "inj_on slot {n - c..<n}"
    using ring_wf_slot_inj [OF assms] by (auto intro: inj_onI)
  ultimately show ?thesis
    using wf(1,3) by (simp add: length_filter_conv_card card_image)
qed

lemma ring_find:
  assumes wf: "ring_wf es n c"
  shows "find (\<lambda>e. live e \<and> seq e = s) es =
    (if n - c \<le> s \<and> s < n then Some (es ! slot s) else None)"
proof -
  have only: "i = slot s \<and> n - c \<le> s \<and> s < n" if "i < length es" "live (es ! i)" "seq (es ! i) = s" for i
    using that ring_wfD(1,4) [OF wf] ring_wfD(5) [OF wf] by auto
  show ?thesis
  proof (cases "n - c \<le> s \<and> s < n")
    case True
    then have hit: "slot s < length es" "live (es ! slot s)" "seq (es ! slot s) = s"
      using ring_wfD [OF wf] by auto
    have "\<not> (live (es ! j) \<and> seq (es ! j) = s)" if "j < slot s" for j
      using that only [of j] hit(1) by auto
    with True hit have "find (\<lambda>e. live e \<and> seq e = s) es = Some (es ! slot s)"
      unfolding find_Some_iff by blast
    with True show ?thesis by simp
  next
    case False
    then show ?thesis using only by (auto simp: find_None_iff in_set_conv_nth)
  qed
qed

lemma length_window [simp]: "c < n \<Longrightarrow> length (window es n c) = c"
  by (simp add: window_def)

end

section \<open>Operations\<close>

definition mem_service_payload_get_audit_string :: "cstr \<Rightarrow> cstr \<Rightarrow> cstr option \<Rightarrow> nat \<Rightarrow> cstr" where
  "mem_service_payload_get_audit_string payload primary_name fallback_name out_len =
     (if out_len = 0 then []
      else case mem_service_payload_get_header_string payload primary_name out_len of
        Some s \<Rightarrow> s
      | None \<Rightarrow>
          (case fallback_name of
             None \<Rightarrow> []
           | Some name \<Rightarrow>
               (case mem_service_payload_get_header_string payload name out_len of
                  None \<Rightarrow> [] | Some s \<Rightarrow> s)))"

definition mem_service_payload_get_audit_u64 :: "cstr \<Rightarrow> cstr \<Rightarrow> cstr \<Rightarrow> u64" where
  "mem_service_payload_get_audit_u64 payload primary_name fallback_name =
     (case mem_service_payload_get_header_string payload primary_name 64 of
        Some s \<Rightarrow> mem_service_parse_u64_value s 0
      | None \<Rightarrow>
          (case mem_service_payload_get_header_string payload fallback_name 64 of
             Some s \<Rightarrow> mem_service_parse_u64_value s 0
           | None \<Rightarrow> 0))"

definition mem_service_should_audit_operation ::
  "mem_service_wire_operation \<Rightarrow> cstr \<Rightarrow> mem_service_wire_status \<Rightarrow> bool" where
  "mem_service_should_audit_operation operation payload status \<longleftrightarrow>
     mem_service_operation_mutates operation payload \<or> mem_service_status_is_fail_closed status"

definition audit_event ::
  "u64 \<Rightarrow> u64 \<Rightarrow> mem_service_wire_operation \<Rightarrow> cstr \<Rightarrow> mem_service_wire_status \<Rightarrow> cstr \<Rightarrow> bool \<Rightarrow>
   mem_service_audit_event" where
  "audit_event sequence now_ms operation payload status response idempotency_replay =
     \<lparr> aud_in_use = True, aud_sequence = sequence, aud_monotonic_ms = now_ms,
       aud_operation = wire_operation_code operation, aud_status = wire_status_code status,
       aud_request_checksum = mem_service_idempotency_request_checksum payload,
       aud_response_checksum = mem_service_wire_checksum (bytes_of response),
       aud_idempotency_replay = (if idempotency_replay then 1 else 0),
       aud_key = mem_service_payload_get_audit_string payload ''key'' None 96,
       aud_session_id =
         mem_service_payload_get_audit_string payload ''session_id'' (Some ''expected_session_id'') 64,
       aud_model_key =
         mem_service_payload_get_audit_string payload ''model_key'' (Some ''expected_model_key'') 64,
       aud_artifact_kind =
         mem_service_payload_get_audit_string payload ''artifact_kind'' (Some ''expected_artifact_kind'') 64,
       aud_artifact_id =
         mem_service_payload_get_audit_string payload ''artifact_id'' (Some ''expected_artifact_id'') 96,
       aud_idempotency_key = mem_service_payload_get_audit_string payload ''idempotency_key'' None
         MEM_SERVICE_IDEMPOTENCY_KEY_LEN,
       aud_version = mem_service_payload_get_audit_u64 payload ''version'' ''expected_version'',
       aud_checksum = mem_service_payload_get_audit_u64 payload ''checksum'' ''expected_checksum'' \<rparr>"

text \<open>The result is the boolean of the code, \<open>*event_out\<close> and the service.\<close>

definition mem_service_append_audit_event ::
  "u64 \<Rightarrow> mem_service \<Rightarrow> mem_service_wire_operation \<Rightarrow> cstr \<Rightarrow> mem_service_wire_status \<Rightarrow> cstr \<Rightarrow> bool \<Rightarrow>
   bool \<times> mem_service_audit_event option \<times> mem_service" where
  "mem_service_append_audit_event now_ms svc operation payload status response idempotency_replay =
     (if \<not> mem_service_should_audit_operation operation payload status then (False, None, svc)
      else let sequence = (if svc_audit_next_sequence svc = 0 then 1 else svc_audit_next_sequence svc);
               slot_index = unat ((sequence - 1) mod of_nat MEM_SERVICE_MAX_AUDIT_EVENTS);
               event = audit_event sequence now_ms operation payload status response idempotency_replay
           in (True, Some event,
               svc \<lparr> svc_audit_events := (svc_audit_events svc)[slot_index := event],
                     svc_audit_next_sequence := sequence + 1,
                     svc_audit_event_count :=
                       (if svc_audit_event_count svc < of_nat MEM_SERVICE_MAX_AUDIT_EVENTS
                        then svc_audit_event_count svc + 1 else svc_audit_event_count svc) \<rparr>))"

definition mem_service_audit_first_sequence :: "mem_service \<Rightarrow> u64" where
  "mem_service_audit_first_sequence svc =
     (if svc_audit_event_count svc = 0 \<or> svc_audit_next_sequence svc = 0 then 1
      else if svc_audit_next_sequence svc \<le> svc_audit_event_count svc then 1
      else svc_audit_next_sequence svc - svc_audit_event_count svc)"

text \<open>The pruning loop of the retention: events older than the first kept one are zeroed, the
  others are counted.\<close>

definition prune_audit_events :: "u64 \<Rightarrow> mem_service_audit_event list \<Rightarrow> mem_service_audit_event list" where
  "prune_audit_events first_kept events =
     map (\<lambda>event. if aud_in_use event \<and> aud_sequence event < first_kept then zero_audit_event else event) events"

definition mem_service_apply_audit_retention :: "mem_service \<Rightarrow> u64 \<Rightarrow> bool \<times> mem_service" where
  "mem_service_apply_audit_retention svc max_audit_events =
     (if max_audit_events = 0 \<or> of_nat MEM_SERVICE_MAX_AUDIT_EVENTS \<le> max_audit_events \<or>
         svc_audit_event_count svc \<le> max_audit_events \<or> svc_audit_next_sequence svc = 0
      then (False, svc)
      else let first_kept = (if svc_audit_next_sequence svc > max_audit_events
                             then svc_audit_next_sequence svc - max_audit_events else 1);
               pruned = list_ex (\<lambda>event. aud_in_use event \<and> aud_sequence event < first_kept)
                          (svc_audit_events svc);
               events = prune_audit_events first_kept (svc_audit_events svc)
           in (pruned,
               svc \<lparr> svc_audit_events := events,
                     svc_audit_event_count := of_nat (length (filter aud_in_use events)) \<rparr>))"

definition mem_service_find_audit_sequence :: "mem_service \<Rightarrow> u64 \<Rightarrow> mem_service_audit_event option" where
  "mem_service_find_audit_sequence svc sequence =
     (if sequence = 0 then None
      else find (\<lambda>event. aud_in_use event \<and> aud_sequence event = sequence) (svc_audit_events svc))"

text \<open>Writers that append to a bounded response: nothing is written when the text does not fit
  with its terminator.\<close>

definition mem_service_append_snapshot_text :: "nat \<Rightarrow> cstr \<Rightarrow> cstr \<Rightarrow> cstr option" where
  "mem_service_append_snapshot_text response_len response text =
     (if response_len \<le> length response then None
      else if response_len - length response \<le> length text then None
      else Some (response @ text))"

definition audit_event_text :: "mem_service_audit_event \<Rightarrow> cstr" where
  "audit_event_text event =
     ''audit_begin'' @ [newline] @
     kv ''sequence'' (show_word (aud_sequence event)) @
     kv ''monotonic_ms'' (show_word (aud_monotonic_ms event)) @
     kv ''operation'' (show_word (aud_operation event)) @
     kv ''operation_name''
       (mem_service_operation_name (wire_operation_of_code (aud_operation event))) @
     kv ''status'' (show_word (aud_status event)) @
     kv ''status_name'' (mem_service_wire_status_name (wire_status_of_code (aud_status event))) @
     kv ''request_checksum'' (show_word (aud_request_checksum event)) @
     kv ''response_checksum'' (show_word (aud_response_checksum event)) @
     kv ''idempotency_replay'' (show_word (aud_idempotency_replay event)) @
     kv ''key'' (aud_key event) @ kv ''session_id'' (aud_session_id event) @
     kv ''model_key'' (aud_model_key event) @ kv ''artifact_kind'' (aud_artifact_kind event) @
     kv ''artifact_id'' (aud_artifact_id event) @
     kv ''idempotency_key'' (aud_idempotency_key event) @
     kv ''version'' (show_word (aud_version event)) @
     kv ''checksum'' (show_word (aud_checksum event)) @ ''audit_end'' @ [newline]"

text \<open>The loop of the log: a flag for success, the response, the number of events emitted and
  the sequence to continue from.\<close>

lemma audit_step_less: "(s :: u64) < n \<Longrightarrow> unat n - unat (s + 1) < unat n - unat s"
  by (simp add: unat_Suc_below) (simp add: word_less_nat_alt)

function audit_log_loop ::
  "mem_service \<Rightarrow> nat \<Rightarrow> u64 \<Rightarrow> u64 \<Rightarrow> u64 \<Rightarrow> u64 \<Rightarrow> cstr \<Rightarrow> bool \<times> cstr \<times> u64 \<times> u64" where
  "audit_log_loop svc response_len max_events sequence emitted next_sequence response =
     (if sequence < svc_audit_next_sequence svc \<and> emitted < max_events
      then (case mem_service_find_audit_sequence svc sequence of
              None \<Rightarrow> audit_log_loop svc response_len max_events (sequence + 1) emitted next_sequence response
            | Some event \<Rightarrow>
                (case mem_service_append_snapshot_text response_len response (audit_event_text event) of
                   None \<Rightarrow> (False, response, emitted, next_sequence)
                 | Some response' \<Rightarrow>
                     audit_log_loop svc response_len max_events (sequence + 1) (emitted + 1)
                       (sequence + 1) response'))
      else (True, response, emitted, next_sequence))"
  by pat_completeness auto
termination
  by (relation "measure (\<lambda>(svc, _, _, sequence, _). unat (svc_audit_next_sequence svc) - unat sequence)")
     (auto intro: audit_step_less)

declare audit_log_loop.simps [simp del]

definition mem_service_audit_log :: "mem_service \<Rightarrow> cstr \<Rightarrow> nat \<Rightarrow> mem_service_wire_status \<times> cstr" where
  "mem_service_audit_log svc payload response_len =
     (let max0 = mem_service_wire_payload_get_u64 payload ''max_events'' 16;
          max1 = (if max0 = 0 then 16 else max0);
          max_events = (if max1 > 32 then 32 else max1);
          first_sequence = mem_service_audit_first_sequence svc;
          start0 = mem_service_wire_payload_get_u64 payload ''start_sequence'' 0;
          start_sequence = (if start0 = 0 \<or> start0 < first_sequence then first_sequence else start0)
      in case mem_service_append_snapshot_text response_len []
                (kv ''audit_log'' ''1'' @ kv ''retained_events'' (show_word (svc_audit_event_count svc)) @
                 kv ''first_sequence'' (show_word first_sequence) @
                 kv ''start_sequence'' (show_word start_sequence)) of
           None \<Rightarrow> (STATUS_CAPACITY_EXCEEDED, [])
         | Some head \<Rightarrow>
             (case audit_log_loop svc response_len max_events start_sequence 0 start_sequence head of
                (ok, response, emitted, next_sequence) \<Rightarrow>
                  if \<not> ok then (STATUS_CAPACITY_EXCEEDED, response)
                  else (case mem_service_append_snapshot_text response_len response
                               (kv ''events_emitted'' (show_word emitted) @
                                kv ''next_sequence'' (show_word next_sequence) @
                                kv ''complete''
                                  (if next_sequence \<ge> svc_audit_next_sequence svc then ''1'' else ''0'')) of
                          None \<Rightarrow> (STATUS_CAPACITY_EXCEEDED, response)
                        | Some full \<Rightarrow> (STATUS_OK, full))))"

section \<open>The ring refines a window of events\<close>

interpretation audit: seq_ring MEM_SERVICE_MAX_AUDIT_EVENTS aud_in_use
    "\<lambda>e. unat (aud_sequence e)" zero_audit_event
  by unfold_locales (simp_all add: MEM_SERVICE_MAX_AUDIT_EVENTS_def)

definition audit_wf :: "mem_service \<Rightarrow> bool" where
  "audit_wf svc \<longleftrightarrow> audit.ring_wf (svc_audit_events svc)
     (unat (svc_audit_next_sequence svc)) (unat (svc_audit_event_count svc))"

definition audit_window :: "mem_service \<Rightarrow> mem_service_audit_event list" where
  "audit_window svc = audit.window (svc_audit_events svc)
     (unat (svc_audit_next_sequence svc)) (unat (svc_audit_event_count svc))"

lemma audit_wf_initial: "audit_wf initial_service" "audit_window initial_service = []"
  using audit.ring_wf_init by (simp_all add: audit_wf_def audit_window_def audit.window_def)

lemma unat_max_audit_events [simp]:
  "unat (of_nat MEM_SERVICE_MAX_AUDIT_EVENTS :: u64) = MEM_SERVICE_MAX_AUDIT_EVENTS"
  by (simp add: MEM_SERVICE_MAX_AUDIT_EVENTS_def)

lemma audit_slot:
  assumes "s \<noteq> 0"
  shows "unat ((s - 1) mod of_nat MEM_SERVICE_MAX_AUDIT_EVENTS :: u64) = audit.slot (unat s)"
  using assms by (simp add: audit.slot_def unat_mod unat_sub word_le_nat_alt unat_minus_one)

lemma length_audit_window: "audit_wf svc \<Longrightarrow> length (audit_window svc) = unat (svc_audit_event_count svc)"
  by (simp add: audit_wf_def audit_window_def audit.ring_wf_def)

lemma audit_next_positive: "audit_wf svc \<Longrightarrow> svc_audit_next_sequence svc \<noteq> 0"
  by (auto simp: audit_wf_def audit.ring_wf_def)

lemma append_audit_event_spec:
  assumes wf: "audit_wf svc" and room: "svc_audit_next_sequence svc \<noteq> UINT64_MAX"
    and run: "mem_service_append_audit_event now svc op payload st resp replay = (True, Some e, svc')"
  shows "audit_wf svc'"
    and "audit_window svc' = drop (length (audit_window svc) + 1 - MEM_SERVICE_MAX_AUDIT_EVENTS) (audit_window svc @ [e])"
    and "e = audit_event (svc_audit_next_sequence svc) now op payload st resp replay"
    and "svc_audit_next_sequence svc' = svc_audit_next_sequence svc + 1"
proof -
  let ?n = "svc_audit_next_sequence svc" and ?c = "svc_audit_event_count svc"
  note n0 = audit_next_positive [OF wf]
  show e: "e = audit_event ?n now op payload st resp replay"
    and step: "svc_audit_next_sequence svc' = ?n + 1"
    using run n0 by (auto simp: mem_service_append_audit_event_def Let_def split: if_splits)
  have events: "svc_audit_events svc' = (svc_audit_events svc)[audit.slot (unat ?n) := e]"
    and count: "svc_audit_event_count svc' =
      (if ?c < of_nat MEM_SERVICE_MAX_AUDIT_EVENTS then ?c + 1 else ?c)"
    using run n0 by (auto simp: mem_service_append_audit_event_def Let_def audit_slot split: if_splits)
  have "UINT64_MAX = - 1" by (simp add: UINT64_MAX_def)
  then have "?n < UINT64_MAX" using room word_order.not_eq_extremum [of ?n] by simp
  then have n': "unat (svc_audit_next_sequence svc') = unat ?n + 1"
    by (simp add: step unat_Suc_below)
  have "unat ?c \<le> MEM_SERVICE_MAX_AUDIT_EVENTS" using wf by (simp add: audit_wf_def audit.ring_wf_def)
  then have c': "unat (svc_audit_event_count svc') = min MEM_SERVICE_MAX_AUDIT_EVENTS (unat ?c + 1)"
  proof (cases "?c < of_nat MEM_SERVICE_MAX_AUDIT_EVENTS")
    case True
    then have "unat ?c + 1 \<le> MEM_SERVICE_MAX_AUDIT_EVENTS" by (simp add: word_less_nat_alt)
    with True show ?thesis by (simp add: count unat_Suc_below [OF True])
  qed (simp add: count word_less_nat_alt)
  have ev: "aud_in_use e" "unat (aud_sequence e) = unat ?n" by (simp_all add: e audit_event_def)
  note spec = audit.ring_append [of "svc_audit_events svc" "unat ?n" "unat ?c" e,
      OF wf [unfolded audit_wf_def] ev]
  show "audit_wf svc'" using spec(1) by (simp add: audit_wf_def n' c' events)
  show "audit_window svc' = drop (length (audit_window svc) + 1 - MEM_SERVICE_MAX_AUDIT_EVENTS) (audit_window svc @ [e])"
    using spec(2) length_audit_window [OF wf] by (simp add: audit_window_def n' c' events)
qed

lemma apply_audit_retention_spec:
  assumes wf: "audit_wf svc" and m: "0 < m"
    and run: "mem_service_apply_audit_retention svc m = (pruned, svc')"
  shows "audit_wf svc'"
    and "audit_window svc' = drop (length (audit_window svc) - unat m) (audit_window svc)"
    and "pruned \<longleftrightarrow> unat m < length (audit_window svc)"
    and "svc_audit_next_sequence svc' = svc_audit_next_sequence svc"
proof -
  let ?n = "svc_audit_next_sequence svc" and ?c = "svc_audit_event_count svc"
  let ?es = "svc_audit_events svc"
  note ring = wf [unfolded audit_wf_def] and len = length_audit_window [OF wf]
  note n0 = audit_next_positive [OF wf]
  have c: "unat ?c \<le> MEM_SERVICE_MAX_AUDIT_EVENTS" "unat ?c < unat ?n"
    using audit.ring_wfD(2,3) [OF ring] by blast+
  have "audit_wf svc' \<and> audit_window svc' = drop (length (audit_window svc) - unat m) (audit_window svc) \<and>
    (pruned \<longleftrightarrow> unat m < length (audit_window svc)) \<and> svc_audit_next_sequence svc' = ?n"
  proof (cases "unat ?c \<le> unat m")
    case True
    then have "mem_service_apply_audit_retention svc m = (False, svc)"
      by (simp add: mem_service_apply_audit_retention_def word_le_nat_alt)
    with run wf True len show ?thesis by simp
  next
    case False
    then have less: "m < ?n" "?n \<ge> m" using c by (simp_all add: word_less_nat_alt word_le_nat_alt)
    define first where "first = ?n - m"
    have first: "unat first = unat ?n - unat m" unfolding first_def using less(2) by (rule unat_sub)
    have prune: "prune_audit_events first ?es = audit.prune (unat ?n - unat m) ?es"
      by (simp add: prune_audit_events_def audit.prune_def word_less_nat_alt first)
    note spec = audit.ring_prune [OF ring, of "unat m"]
    have "length (filter aud_in_use (prune_audit_events first ?es)) = unat m"
      using audit.ring_live_count [OF spec(1)] False by (simp add: prune)
    with False c run m less n0 have svc': "svc' = svc \<lparr> svc_audit_events := prune_audit_events first ?es,
        svc_audit_event_count := of_nat (unat m) \<rparr>"
      and p: "pruned \<longleftrightarrow> list_ex (\<lambda>e. aud_in_use e \<and> aud_sequence e < first) ?es"
      by (auto simp: mem_service_apply_audit_retention_def Let_def word_le_nat_alt first_def
          simp flip: word_neq_0_conv split: if_splits)
    have "unat ?n - unat ?c < unat ?n - unat m" using False c by simp
    then have "aud_sequence (?es ! audit.slot (unat ?n - unat ?c)) < first"
      "aud_in_use (?es ! audit.slot (unat ?n - unat ?c))"
      using audit.ring_wfD(5,6) [OF ring, of "unat ?n - unat ?c"] c by (simp_all add: word_less_nat_alt first)
    then have pruned
      unfolding p list_ex_length audit.ring_wfD(1) [OF ring]
      by (intro exI [of _ "audit.slot (unat ?n - unat ?c)"]) simp
    with svc' spec False len show ?thesis by (simp add: audit_wf_def audit_window_def prune)
  qed
  then show "audit_wf svc'"
    and "audit_window svc' = drop (length (audit_window svc) - unat m) (audit_window svc)"
    and "pruned \<longleftrightarrow> unat m < length (audit_window svc)"
    and "svc_audit_next_sequence svc' = svc_audit_next_sequence svc" by blast+
qed

lemma find_audit_sequence_window:
  assumes wf: "audit_wf svc"
  shows "mem_service_find_audit_sequence svc s = find (\<lambda>e. aud_sequence e = s) (audit_window svc)"
proof -
  let ?n = "unat (svc_audit_next_sequence svc)" and ?c = "unat (svc_audit_event_count svc)"
  let ?es = "svc_audit_events svc"
  note ring = wf [unfolded audit_wf_def]
  have hit: "mem_service_find_audit_sequence svc s =
      (if ?n - ?c \<le> unat s \<and> unat s < ?n then Some (?es ! audit.slot (unat s)) else None)"
    using audit.ring_find [OF ring, of "unat s"] audit.ring_wfD(3) [OF ring]
    by (auto simp: mem_service_find_audit_sequence_def word_unat_eq_iff)
  have "find (\<lambda>e. aud_sequence e = s) (map (\<lambda>s. ?es ! audit.slot s) xs) =
      (if unat s \<in> set xs then Some (?es ! audit.slot (unat s)) else None)"
    if "set xs \<subseteq> {?n - ?c..<?n}" for xs
    using that audit.ring_wfD(5) [OF ring] by (induction xs) (auto simp: word_unat_eq_iff)
  from this [of "[?n - ?c..<?n]"] hit show ?thesis
    by (simp add: audit_window_def audit.window_def)
qed

section \<open>Properties\<close>

text \<open>The audit ring records every audited request and keeps the newest 256. An operation is
  audited exactly when it mutates or its status fails closed. Appending then stores an event
  with the next sequence number, the codes of operation and status and the checksums of
  request and response, keeps the ring well formed, and the window of retained events becomes
  the old one with the event at its end, cut at the front to 256 events. Otherwise nothing
  changes.\<close>

theorem append_audit_event_refines:
  assumes wf: "audit_wf svc" and room: "svc_audit_next_sequence svc \<noteq> UINT64_MAX"
    and run: "mem_service_append_audit_event now svc op payload st resp replay = (appended, out, svc')"
  shows "(appended \<longleftrightarrow> mem_service_operation_mutates op payload \<or> mem_service_status_is_fail_closed st) \<and>
    (\<not> appended \<longrightarrow> out = None \<and> svc' = svc) \<and>
    (appended \<longrightarrow> audit_wf svc' \<and>
      svc_audit_next_sequence svc' = svc_audit_next_sequence svc + 1 \<and>
      svc_records svc' = svc_records svc \<and>
      svc_idempotency_records svc' = svc_idempotency_records svc \<and>
      (\<exists>e. out = Some e \<and> aud_sequence e = svc_audit_next_sequence svc \<and>
         aud_operation e = wire_operation_code op \<and> aud_status e = wire_status_code st \<and>
         aud_request_checksum e = mem_service_wire_checksum (bytes_of payload) \<and>
         aud_response_checksum e = mem_service_wire_checksum (bytes_of resp) \<and>
         audit_window svc' =
           drop (length (audit_window svc) + 1 - MEM_SERVICE_MAX_AUDIT_EVENTS) (audit_window svc @ [e])))"
proof (cases "mem_service_should_audit_operation op payload st")
  case False
  with run show ?thesis
    by (auto simp: mem_service_append_audit_event_def mem_service_should_audit_operation_def)
next
  case True
  with run obtain e where e: "appended" "out = Some e"
    and frame: "svc_records svc' = svc_records svc"
      "svc_idempotency_records svc' = svc_idempotency_records svc"
    by (auto simp: mem_service_append_audit_event_def Let_def)
  from run e have "mem_service_append_audit_event now svc op payload st resp replay = (True, Some e, svc')"
    by simp
  note spec = append_audit_event_spec [OF wf room this]
  from spec(3) have "aud_sequence e = svc_audit_next_sequence svc"
    "aud_operation e = wire_operation_code op" "aud_status e = wire_status_code st"
    "aud_request_checksum e = mem_service_wire_checksum (bytes_of payload)"
    "aud_response_checksum e = mem_service_wire_checksum (bytes_of resp)"
    by (simp_all add: audit_event_def mem_service_idempotency_request_checksum_def)
  with True e spec(1,2,4) frame show ?thesis by (simp add: mem_service_should_audit_operation_def)
qed

text \<open>Audit retention keeps exactly the newest events. With a positive limit, pruning leaves the
  last events of the window, as many as the limit allows, reports whether it dropped any, and
  afterwards a sequence number is found exactly when its event is in the window that is left.\<close>

theorem audit_retention_keeps_newest:
  assumes wf: "audit_wf svc" and m: "0 < m"
    and run: "mem_service_apply_audit_retention svc m = (pruned, svc')"
  shows "audit_wf svc' \<and>
    audit_window svc' = drop (length (audit_window svc) - unat m) (audit_window svc) \<and>
    length (audit_window svc') \<le> unat m \<and>
    (pruned \<longleftrightarrow> unat m < length (audit_window svc)) \<and>
    (\<forall>s. mem_service_find_audit_sequence svc' s = find (\<lambda>e. aud_sequence e = s) (audit_window svc'))"
  using apply_audit_retention_spec [OF assms] find_audit_sequence_window by simp

section \<open>Witnesses\<close>

definition demo_audited :: mem_service where
  "demo_audited = snd (snd (mem_service_append_audit_event 5 initial_service OP_PUT_OBJECT
     demo_tracked STATUS_OK ''status=ok'' False))"

theorem append_audit_event_refines_witness:
  "audit_wf demo_audited \<and> length (audit_window demo_audited) = 1"
proof -
  obtain a out svc' where run: "mem_service_append_audit_event 5 initial_service OP_PUT_OBJECT
      demo_tracked STATUS_OK ''status=ok'' False = (a, out, svc')" by (metis prod_cases3)
  have "svc_audit_next_sequence initial_service \<noteq> UINT64_MAX" by (simp add: UINT64_MAX_def)
  from append_audit_event_refines [OF audit_wf_initial(1) this run] run audit_wf_initial(2)
  show ?thesis
    by (auto simp: demo_audited_def mem_service_operation_mutates_def MEM_SERVICE_MAX_AUDIT_EVENTS_def)
qed

theorem audit_retention_keeps_newest_witness:
  "\<exists>svc svc'. mem_service_apply_audit_retention svc 1 = (True, svc') \<and> length (audit_window svc) = 2 \<and>
     length (audit_window svc') = 1"
proof -
  have next1: "svc_audit_next_sequence initial_service \<noteq> UINT64_MAX" by (simp add: UINT64_MAX_def)
  obtain e1 svc1 where run1: "mem_service_append_audit_event 5 initial_service OP_PUT_OBJECT
      demo_tracked STATUS_OK ''status=ok'' False = (True, Some e1, svc1)"
    by (simp add: mem_service_append_audit_event_def Let_def mem_service_should_audit_operation_def
        mem_service_operation_mutates_def)
  note s1 = append_audit_event_spec [OF audit_wf_initial(1) next1 run1]
  have next2: "svc_audit_next_sequence svc1 \<noteq> UINT64_MAX" using s1(4) by (simp add: UINT64_MAX_def)
  obtain e2 svc2 where run2: "mem_service_append_audit_event 6 svc1 OP_PUT_OBJECT
      demo_tracked STATUS_OK ''status=ok'' True = (True, Some e2, svc2)"
    by (simp add: mem_service_append_audit_event_def Let_def mem_service_should_audit_operation_def
        mem_service_operation_mutates_def)
  note s2 = append_audit_event_spec [OF s1(1) next2 run2]
  have two: "length (audit_window svc2) = 2"
    using s1(2) s2(2) audit_wf_initial(2) by (simp add: MEM_SERVICE_MAX_AUDIT_EVENTS_def)
  obtain p svc3 where run3: "mem_service_apply_audit_retention svc2 1 = (p, svc3)" by (meson surj_pair)
  from audit_retention_keeps_newest [OF s2(1) _ run3] two run3 show ?thesis
    by (intro exI [of _ svc2] exI [of _ svc3]) auto
qed

end
