(* ===== verification/Retention.thy ===== *)
theory Retention
  imports Audit_Log
begin

text \<open>
  Record and checkpoint retention of the daemon (\<open>mem_service_daemon.c\<close>): after a successful
  mutation the oldest records beyond a limit, and records past an age, are removed together
  with their payload block (when no other record needs it) and with the idempotency entries
  that answered with their key.

  Both retention functions of the source run the same loop over a different selection of
  records; the loop is one definition with the selection as a parameter. Its recursion removes
  an occupied slot in every round, which is the termination measure.
\<close>

section \<open>Selection\<close>

definition mem_service_record_is_checkpoint :: "mem_service_record \<Rightarrow> bool" where
  "mem_service_record_is_checkpoint r \<longleftrightarrow>
     rec_in_use r \<and> rec_kind r = RECORD_TRAINING_ARTIFACT \<and> rec_artifact_kind r = ''checkpoint''"

definition mem_service_count_checkpoint_records :: "mem_service \<Rightarrow> u64" where
  "mem_service_count_checkpoint_records svc =
     of_nat (length (filter mem_service_record_is_checkpoint (svc_records svc)))"

text \<open>The order of removal: smaller version first, earlier publication among equal versions.\<close>

definition older :: "mem_service_record \<Rightarrow> mem_service_record \<Rightarrow> bool" where
  "older r r' \<longleftrightarrow> rec_version r < rec_version r' \<or>
     (rec_version r = rec_version r' \<and>
      rec_object_publish_monotonic_ms r < rec_object_publish_monotonic_ms r')"

text \<open>The search loop over the table: the index of the oldest selected record, the table size
  when there is none.\<close>

definition oldest_step ::
  "(mem_service_record \<Rightarrow> bool) \<Rightarrow> mem_service_record list \<Rightarrow> nat \<Rightarrow> nat \<Rightarrow> nat" where
  "oldest_step sel records oldest i =
     (if \<not> sel (records ! i) then oldest
      else if oldest = MEM_SERVICE_MAX_RECORDS \<or> older (records ! i) (records ! oldest) then i
      else oldest)"

definition oldest_index :: "(mem_service_record \<Rightarrow> bool) \<Rightarrow> mem_service_record list \<Rightarrow> nat" where
  "oldest_index sel records =
     foldl (oldest_step sel records) MEM_SERVICE_MAX_RECORDS [0..<length records]"

definition mem_service_find_oldest_checkpoint_record_index :: "mem_service \<Rightarrow> nat" where
  "mem_service_find_oldest_checkpoint_record_index svc =
     oldest_index mem_service_record_is_checkpoint (svc_records svc)"

definition mem_service_record_matches_retention_kind ::
  "mem_service_record \<Rightarrow> u32 \<Rightarrow> bool \<Rightarrow> u32 \<Rightarrow> bool" where
  "mem_service_record_matches_retention_kind r retained_record_kind tenant_enabled tenant \<longleftrightarrow>
     rec_in_use r \<and>
     (retained_record_kind = 0 \<or> record_kind_code (rec_kind r) = retained_record_kind) \<and>
     (\<not> tenant_enabled \<or> rec_object_owner_node r = tenant)"

definition mem_service_count_retained_kind_records ::
  "mem_service \<Rightarrow> u32 \<Rightarrow> bool \<Rightarrow> u32 \<Rightarrow> u64" where
  "mem_service_count_retained_kind_records svc retained_record_kind tenant_enabled tenant =
     (if retained_record_kind = 0 \<and> \<not> tenant_enabled then svc_record_count svc
      else of_nat (length (filter
        (\<lambda>r. mem_service_record_matches_retention_kind r retained_record_kind tenant_enabled tenant)
        (svc_records svc))))"

definition mem_service_find_oldest_record_index :: "mem_service \<Rightarrow> u32 \<Rightarrow> bool \<Rightarrow> u32 \<Rightarrow> nat" where
  "mem_service_find_oldest_record_index svc retained_record_kind tenant_enabled tenant =
     oldest_index
       (\<lambda>r. mem_service_record_matches_retention_kind r retained_record_kind tenant_enabled tenant)
       (svc_records svc)"

section \<open>Removal\<close>

definition answered_with_key :: "cstr \<Rightarrow> mem_service_idempotency_record \<Rightarrow> bool" where
  "answered_with_key record_key r \<longleftrightarrow>
     idem_in_use r \<and> mem_service_payload_get_string (idem_response r) ''key'' 96 = Some record_key"

definition mem_service_prune_idempotency_for_record_key :: "mem_service \<Rightarrow> cstr \<Rightarrow> mem_service" where
  "mem_service_prune_idempotency_for_record_key svc record_key =
     (if record_key = [] then svc
      else svc \<lparr> svc_idempotency_records :=
        map (\<lambda>r. if answered_with_key record_key r then zero_idempotency_record else r)
          (svc_idempotency_records svc) \<rparr>)"

text \<open>The body both loops share: collect the block, zero the slot, drop the idempotency entries.\<close>

definition retire_record :: "daemon_env \<Rightarrow> nat \<Rightarrow> mem_service \<Rightarrow> file_world \<Rightarrow> mem_service \<times> file_world" where
  "retire_record env i svc fw =
     (let key = snprintf_s 96 (rec_key (svc_records svc ! i));
          fw' = snd (snd (mem_service_gc_payload_block_if_orphaned (de_io env) (de_backends env) svc i
                            (de_storage_root env) fw 0));
          svc1 = svc \<lparr> svc_records := (svc_records svc)[i := zero_record],
                       svc_record_count := (if svc_record_count svc > 0 then svc_record_count svc - 1
                                            else svc_record_count svc) \<rparr>
      in (mem_service_prune_idempotency_for_record_key svc1 key, fw'))"

lemma retire_record_records [simp]:
  "svc_records (fst (retire_record env i svc fw)) = (svc_records svc)[i := zero_record]"
  by (simp add: retire_record_def Let_def mem_service_prune_idempotency_for_record_key_def)

lemma oldest_fold_found:
  "\<lbrakk>foldl (oldest_step sel rs) m is = i; i \<noteq> MEM_SERVICE_MAX_RECORDS;
    m = MEM_SERVICE_MAX_RECORDS \<or> (m \<in> S \<and> sel (rs ! m)); set is \<subseteq> S\<rbrakk> \<Longrightarrow> i \<in> S \<and> sel (rs ! i)"
proof (induction "is" arbitrary: m)
  case (Cons j js)
  then show ?case by (auto simp: oldest_step_def split: if_splits)
qed auto

lemma oldest_index_found:
  assumes "oldest_index sel rs = i" "i \<noteq> MEM_SERVICE_MAX_RECORDS"
  shows "i < length rs" "sel (rs ! i)"
  using oldest_fold_found [of sel rs MEM_SERVICE_MAX_RECORDS "[0..<length rs]" i "{0..<length rs}"] assms
  by (simp_all add: oldest_index_def)

lemma used_records_retire:
  assumes "i < length (svc_records svc)" "rec_in_use (svc_records svc ! i)"
  shows "used_records svc = used_records (fst (retire_record env i svc fw)) + 1"
  using length_filter_update [OF assms(1), of rec_in_use zero_record] assms(2)
  by (simp add: used_records_def)

lemma retire_oldest_less:
  fixes svc :: mem_service and sel :: "mem_service_record \<Rightarrow> bool"
  defines "i \<equiv> oldest_index (\<lambda>r. rec_in_use r \<and> sel r) (svc_records svc)"
  assumes "i \<noteq> MEM_SERVICE_MAX_RECORDS"
  shows "used_records (fst (retire_record env i svc fw)) < used_records svc"
  using oldest_index_found [OF refl assms(2) [unfolded i_def]] used_records_retire [of i svc env fw]
  by (simp add: i_def)

text \<open>The limit loop. \<open>sel\<close> is the selection (an unused slot is never selected), \<open>count\<close> what
  the source compares with the limit.\<close>

function retention_loop ::
  "daemon_env \<Rightarrow> (mem_service_record \<Rightarrow> bool) \<Rightarrow> (mem_service \<Rightarrow> u64) \<Rightarrow> u64 \<Rightarrow> bool \<Rightarrow>
   mem_service \<Rightarrow> file_world \<Rightarrow> bool \<times> mem_service \<times> file_world" where
  "retention_loop env sel count limit pruned svc fw =
     (if count svc > limit then
        let oldest = oldest_index (\<lambda>r. rec_in_use r \<and> sel r) (svc_records svc) in
        if oldest = MEM_SERVICE_MAX_RECORDS then (pruned, svc, fw)
        else case retire_record env oldest svc fw of
          (svc', fw') \<Rightarrow> retention_loop env sel count limit True svc' fw'
      else (pruned, svc, fw))"
  by pat_completeness auto
termination
  by (relation "measure (\<lambda>(_, _, _, _, _, svc, _). used_records svc)") (auto simp: split_beta retire_oldest_less)

declare retention_loop.simps [simp del]

definition mem_service_apply_checkpoint_retention ::
  "daemon_env \<Rightarrow> mem_service \<Rightarrow> u64 \<Rightarrow> file_world \<Rightarrow> bool \<times> mem_service \<times> file_world" where
  "mem_service_apply_checkpoint_retention env svc max_checkpoint_records fw =
     (if max_checkpoint_records = 0 then (False, svc, fw)
      else retention_loop env mem_service_record_is_checkpoint mem_service_count_checkpoint_records
             max_checkpoint_records False svc fw)"

text \<open>The age pass over the table.\<close>

definition record_expired ::
  "u64 \<Rightarrow> u64 \<Rightarrow> u32 \<Rightarrow> bool \<Rightarrow> u32 \<Rightarrow> mem_service_record \<Rightarrow> bool" where
  "record_expired now_ms max_age retained_record_kind tenant_enabled tenant r \<longleftrightarrow>
     \<not> (\<not> mem_service_record_matches_retention_kind r retained_record_kind tenant_enabled tenant \<or>
        rec_object_publish_monotonic_ms r = 0 \<or> rec_object_publish_monotonic_ms r > now_ms \<or>
        now_ms - rec_object_publish_monotonic_ms r \<le> max_age)"

primrec age_loop ::
  "daemon_env \<Rightarrow> (mem_service_record \<Rightarrow> bool) \<Rightarrow> nat list \<Rightarrow> bool \<times> mem_service \<times> file_world \<Rightarrow>
   bool \<times> mem_service \<times> file_world" where
  "age_loop env expired [] st = st"
| "age_loop env expired (i # is) st =
     (case st of (pruned, svc, fw) \<Rightarrow>
        age_loop env expired is
          (if expired (svc_records svc ! i)
           then (case retire_record env i svc fw of (svc', fw') \<Rightarrow> (True, svc', fw'))
           else (pruned, svc, fw)))"

definition mem_service_apply_record_retention ::
  "daemon_env \<Rightarrow> mem_service \<Rightarrow> u64 \<Rightarrow> u64 \<Rightarrow> u32 \<Rightarrow> bool \<Rightarrow> u32 \<Rightarrow> file_world \<Rightarrow>
   bool \<times> mem_service \<times> file_world" where
  "mem_service_apply_record_retention env svc max_retained_records max_age
       retained_record_kind tenant_enabled tenant fw =
     (if max_retained_records = 0 \<and> max_age = 0 then (False, svc, fw)
      else let st = (if max_retained_records > 0
                     then retention_loop env
                       (\<lambda>r. mem_service_record_matches_retention_kind r retained_record_kind tenant_enabled tenant)
                       (\<lambda>svc. mem_service_count_retained_kind_records svc retained_record_kind tenant_enabled tenant)
                       max_retained_records False svc fw
                     else (False, svc, fw))
           in if max_age > 0
              then age_loop env
                     (record_expired (io_wall_clock_ms (de_io env)) max_age retained_record_kind
                        tenant_enabled tenant)
                     [0..<length (svc_records svc)] st
              else st)"

section \<open>What one removal does\<close>

lemma retire_record_frame [simp]:
  "svc_audit_events (fst (retire_record env i svc fw)) = svc_audit_events svc"
  "svc_audit_next_sequence (fst (retire_record env i svc fw)) = svc_audit_next_sequence svc"
  "svc_audit_event_count (fst (retire_record env i svc fw)) = svc_audit_event_count svc"
  "svc_metrics (fst (retire_record env i svc fw)) = svc_metrics svc"
  by (simp_all add: retire_record_def Let_def mem_service_prune_idempotency_for_record_key_def)

lemma retire_record_wf:
  assumes wf: "records_wf svc" and i: "i < length (svc_records svc)" "rec_in_use (svc_records svc ! i)"
  shows "records_wf (fst (retire_record env i svc fw))"
    and "record_map (fst (retire_record env i svc fw)) =
         (record_map svc)(rec_key (svc_records svc ! i) := None)"
proof -
  let ?svc = "fst (retire_record env i svc fw)" and ?rs = "svc_records svc"
  have dist: "recs.keys_distinct ?rs" using wf by (simp add: records_wf_def)
  have used: "used_records svc = used_records ?svc + 1" by (rule used_records_retire [OF i])
  then have "0 < unat (svc_record_count svc)" using wf by (simp add: records_wf_def)
  then have pos: "svc_record_count svc > 0" by (simp add: word_less_nat_alt)
  then have "svc_record_count ?svc = svc_record_count svc - 1"
    by (simp add: retire_record_def Let_def mem_service_prune_idempotency_for_record_key_def)
  moreover have "unat (svc_record_count svc - 1) = unat (svc_record_count svc) - 1"
    using pos by (intro unat_minus_one) auto
  ultimately show wf': "records_wf ?svc"
    using wf used recs.keys_distinct_update_free [OF dist]
    by (simp add: records_wf_def list_all_update)
  show "record_map ?svc = (record_map svc)(rec_key (?rs ! i) := None)"
    using recs.table_map_clear [OF dist i] wf wf' by (simp add: record_map_table_map)
qed

lemma retire_record_idem:
  assumes "idem_wf svc"
  shows "idem_wf (fst (retire_record env i svc fw))"
    and "completed_map (fst (retire_record env i svc fw)) \<subseteq>\<^sub>m completed_map svc"
proof -
  let ?key = "snprintf_s 96 (rec_key (svc_records svc ! i))"
  let ?ys = "map (\<lambda>r. if answered_with_key ?key r then zero_idempotency_record else r)
    (svc_idempotency_records svc)"
  have zero: "idem_ok zero_idempotency_record"
    by (simp add: idem_ok_def MEM_SERVICE_IDEMPOTENCY_KEY_LEN_def MEM_SERVICE_IDEMPOTENCY_RESPONSE_LEN_def)
  have tab: "svc_idempotency_records (fst (retire_record env i svc fw)) =
      (if ?key = [] then svc_idempotency_records svc else ?ys)"
    by (simp add: retire_record_def Let_def mem_service_prune_idempotency_for_record_key_def)
  have dist: "idem.keys_distinct (svc_idempotency_records svc)" using assms by (simp add: idem_wf_def)
  from tab assms zero idem.keys_distinct_erase [OF dist] show "idem_wf (fst (retire_record env i svc fw))"
    by (auto simp: idem_wf_def list_all_iff)
  show "completed_map (fst (retire_record env i svc fw)) \<subseteq>\<^sub>m completed_map svc"
    using tab idem.table_map_erase [OF dist]
    by (auto simp: completed_map_def map_le_def dom_def split: option.splits if_splits)
qed

section \<open>Sequences of removals\<close>

text \<open>Whatever the loops do is a sequence of removals of selected records.\<close>

inductive retires ::
  "daemon_env \<Rightarrow> (mem_service_record \<Rightarrow> bool) \<Rightarrow> mem_service \<times> file_world \<Rightarrow> mem_service \<times> file_world \<Rightarrow> bool"
  for env sel where
  nothing: "retires env sel s s"
| removal: "\<lbrakk>i < length (svc_records svc); rec_in_use (svc_records svc ! i); sel (svc_records svc ! i);
    retire_record env i svc fw = (svc', fw'); retires env sel (svc', fw') s\<rbrakk> \<Longrightarrow>
    retires env sel (svc, fw) s"

lemma retires_trans:
  "retires env sel s s' \<Longrightarrow> retires env sel s' s'' \<Longrightarrow> retires env sel s s''"
  by (induction rule: retires.induct) (auto intro: retires.intros)

lemma retires_mono:
  assumes "retires env sel s s'" and "\<forall>r. sel r \<longrightarrow> sel' r"
  shows "retires env sel' s s'"
  using assms(1) by induction (auto intro: retires.intros assms(2) [rule_format])

lemma retention_loop_retires:
  "retention_loop env sel count limit pruned svc fw = (pruned', svc', fw') \<Longrightarrow>
   retires env sel (svc, fw) (svc', fw')"
proof (induction env sel count limit pruned svc fw rule: retention_loop.induct)
  case (1 env sel count limit pruned svc fw)
  let ?i = "oldest_index (\<lambda>r. rec_in_use r \<and> sel r) (svc_records svc)"
  show ?case
  proof (cases "count svc > limit \<and> ?i \<noteq> MEM_SERVICE_MAX_RECORDS")
    case True
    obtain svc1 fw1 where step: "retire_record env ?i svc fw = (svc1, fw1)" by fastforce
    from 1(2) True step have "retention_loop env sel count limit True svc1 fw1 = (pruned', svc', fw')"
      by (simp add: retention_loop.simps [of env sel count limit pruned] Let_def)
    with 1(1) [OF conjunct1 [OF True] refl conjunct2 [OF True] step [symmetric]]
    have "retires env sel (svc1, fw1) (svc', fw')" by simp
    with oldest_index_found [OF refl conjunct2 [OF True]] step show ?thesis by (blast intro: retires.removal)
  next
    case False
    with 1(2) have "svc' = svc" "fw' = fw"
      by (auto simp: retention_loop.simps [of env sel count limit pruned] Let_def split: if_splits)
    then show ?thesis by (simp add: retires.nothing)
  qed
qed

lemma age_loop_retires:
  assumes "age_loop env expired is (pruned, svc, fw) = (pruned', svc', fw')"
    and "\<forall>r. expired r \<longrightarrow> rec_in_use r" and "\<forall>i \<in> set is. i < length (svc_records svc)"
  shows "retires env expired (svc, fw) (svc', fw')"
  using assms
proof (induction "is" arbitrary: pruned svc fw)
  case Nil
  then show ?case by (simp add: retires.nothing)
next
  case (Cons i "is")
  obtain svc1 fw1 where step: "retire_record env i svc fw = (svc1, fw1)" by fastforce
  then have len: "length (svc_records svc1) = length (svc_records svc)"
    using retire_record_records [of env i svc fw] by simp
  show ?case
  proof (cases "expired (svc_records svc ! i)")
    case True
    with Cons.prems step have "age_loop env expired is (True, svc1, fw1) = (pruned', svc', fw')" by simp
    from Cons.IH [OF this Cons.prems(2)] Cons.prems(3) len have "retires env expired (svc1, fw1) (svc', fw')"
      by simp
    with True Cons.prems(2,3) step show ?thesis by (auto intro: retires.removal)
  next
    case False
    with Cons show ?thesis by simp
  qed
qed

text \<open>Invariants of every such sequence.\<close>

lemma retires_invariant:
  assumes "retires env sel s s'"
  shows "records_wf (fst s) \<longrightarrow> records_wf (fst s')"
    and "idem_wf (fst s) \<longrightarrow> idem_wf (fst s') \<and> completed_map (fst s') \<subseteq>\<^sub>m completed_map (fst s)"
    and "svc_audit_events (fst s') = svc_audit_events (fst s)"
    and "svc_audit_next_sequence (fst s') = svc_audit_next_sequence (fst s)"
    and "svc_audit_event_count (fst s') = svc_audit_event_count (fst s)"
    and "svc_metrics (fst s') = svc_metrics (fst s)"
  using assms
proof (induction rule: retires.induct)
  case (removal i svc fw svc' fw' s)
  then have svc': "svc' = fst (retire_record env i svc fw)" by simp
  note wf = retire_record_wf(1) [OF _ removal(1,2), of env fw]
  case 1 with removal wf svc' show ?case by simp
  case 2 with removal retire_record_idem [of svc env i fw] svc' show ?case by (auto intro: map_le_trans)
  case 3 from removal svc' show ?case by simp
  case 4 from removal svc' show ?case by simp
  case 5 from removal svc' show ?case by simp
  case 6 from removal svc' show ?case by simp
qed simp_all

lemma map_le_SomeD: "m \<subseteq>\<^sub>m m' \<Longrightarrow> m k = Some r \<Longrightarrow> m' k = Some r"
  by (metis domI map_le_def)

text \<open>Only selected records go; the others are kept as they are.\<close>

lemma retires_map:
  assumes "retires env sel s s'"
  shows "records_wf (fst s) \<longrightarrow> record_map (fst s') \<subseteq>\<^sub>m record_map (fst s) \<and>
    (\<forall>k r. record_map (fst s) k = Some r \<longrightarrow> record_map (fst s') k = None \<longrightarrow> sel r)"
  using assms
proof (induction rule: retires.induct)
  case (removal i svc fw svc' fw' s)
  show ?case
  proof (simp, intro impI)
    assume wf: "records_wf svc"
    let ?r = "svc_records svc ! i"
    note step = retire_record_wf [OF wf removal(1,2), of env fw, unfolded removal(4) fst_conv]
    have at: "record_map svc (rec_key ?r) = Some ?r"
      using wf removal(1,2) recs.table_map_Some_iff
      by (simp add: record_map_table_map records_wf_def)
    from removal.IH step(1) have IH: "record_map (fst s) \<subseteq>\<^sub>m record_map svc'"
      "\<And>k r. record_map svc' k = Some r \<Longrightarrow> record_map (fst s) k = None \<Longrightarrow> sel r" by auto
    have "record_map svc' \<subseteq>\<^sub>m record_map svc" unfolding step(2) by (auto simp: map_le_def)
    with IH(1) have "record_map (fst s) \<subseteq>\<^sub>m record_map svc" by (rule map_le_trans)
    moreover have "sel r" if "record_map svc k = Some r" "record_map (fst s) k = None" for k r
      using that IH(2) [of k r] removal(3) at step(2) by (cases "k = rec_key ?r") auto
    ultimately show "record_map (fst s) \<subseteq>\<^sub>m record_map svc \<and>
        (\<forall>k r. record_map svc k = Some r \<longrightarrow> record_map (fst s) k = None \<longrightarrow> sel r)" by blast
  qed
qed simp

lemma record_map_index:
  assumes "records_wf svc" "record_map svc k = Some r"
  obtains j where "j < length (svc_records svc)" "svc_records svc ! j = r" "rec_in_use r" "rec_key r = k"
  using assms recs.table_map_Some_iff [of "svc_records svc" k r]
  by (auto simp: record_map_table_map records_wf_def in_set_conv_nth)

text \<open>A file that no collection touches while a record refers to it stays as it was when that record is
  kept. What the collector spares depends on the layouts of the blocks.\<close>

lemma retires_keeps_files:
  assumes "retires env sel s s'"
    and gc: "\<And>svc i j fw removed n' fw'. mem_service_gc_payload_block_if_orphaned (de_io env) (de_backends env)
        svc i (de_storage_root env) fw 0 = (removed, n', fw') \<Longrightarrow>
      j < length (svc_records svc) \<Longrightarrow> j \<noteq> i \<Longrightarrow> rec_in_use r \<Longrightarrow> svc_records svc ! j = r \<Longrightarrow>
      fw_files fw' p = fw_files fw p"
  shows "records_wf (fst s) \<longrightarrow> record_map (fst s') k = Some r \<longrightarrow> fw_files (snd s') p = fw_files (snd s) p"
  using assms(1)
proof (induction rule: retires.induct)
  case (removal i svc fw svc' fw' s)
  show ?case
  proof (simp, intro impI)
    assume wf: "records_wf svc" and kept: "record_map (fst s) k = Some r"
    note step = retire_record_wf [OF wf removal(1,2), of env fw, unfolded removal(4) fst_conv]
    from retires_map [OF removal(5)] step(1) have "record_map (fst s) \<subseteq>\<^sub>m record_map svc'" by simp
    from map_le_SomeD [of "record_map (fst s)" "record_map svc'" k r, OF this kept] have "record_map svc' k = Some r" .
    with step(2) have k: "record_map svc k = Some r" "k \<noteq> rec_key (svc_records svc ! i)"
      by (auto split: if_splits)
    from k(1) obtain j where j: "j < length (svc_records svc)" "svc_records svc ! j = r"
      "rec_in_use r" "rec_key r = k" by (rule record_map_index [OF wf])
    with k(2) have "j \<noteq> i" by auto
    obtain removed n' fw'' where run: "mem_service_gc_payload_block_if_orphaned (de_io env) (de_backends env)
        svc i (de_storage_root env) fw 0 = (removed, n', fw'')" by (metis prod_cases3)
    have "fw'' = fw'" using removal(4) run by (simp add: retire_record_def Let_def)
    with gc [OF run j(1) \<open>j \<noteq> i\<close> j(3,2)] have "fw_files fw' p = fw_files fw p" by simp
    with removal.IH step(1) kept show "fw_files (snd s) p = fw_files fw p" by simp
  qed
qed simp

section \<open>The limit is met, by removing the oldest\<close>

lemma oldest_fold_least:
  "\<lbrakk>foldl (oldest_step sel rs) m is = i; m = MEM_SERVICE_MAX_RECORDS \<or> m < MEM_SERVICE_MAX_RECORDS \<and> sel (rs ! m);
    \<forall>j \<in> set is. j < MEM_SERVICE_MAX_RECORDS\<rbrakk> \<Longrightarrow>
   (i = MEM_SERVICE_MAX_RECORDS \<longleftrightarrow> m = MEM_SERVICE_MAX_RECORDS \<and> (\<forall>j \<in> set is. \<not> sel (rs ! j))) \<and>
   (i \<noteq> MEM_SERVICE_MAX_RECORDS \<longrightarrow>
     (m \<noteq> MEM_SERVICE_MAX_RECORDS \<longrightarrow> \<not> older (rs ! m) (rs ! i)) \<and>
     (\<forall>j \<in> set is. sel (rs ! j) \<longrightarrow> \<not> older (rs ! j) (rs ! i)))"
proof (induction "is" arbitrary: m)
  case Nil
  then show ?case by (auto simp: older_def)
next
  case (Cons a as)
  let ?m = "oldest_step sel rs m a"
  have "?m = MEM_SERVICE_MAX_RECORDS \<or> ?m < MEM_SERVICE_MAX_RECORDS \<and> sel (rs ! ?m)"
    using Cons.prems by (auto simp: oldest_step_def)
  with Cons.IH [of ?m] Cons.prems
  have IH: "i = MEM_SERVICE_MAX_RECORDS \<longleftrightarrow> ?m = MEM_SERVICE_MAX_RECORDS \<and> (\<forall>j \<in> set as. \<not> sel (rs ! j))"
    "i \<noteq> MEM_SERVICE_MAX_RECORDS \<Longrightarrow> ?m \<noteq> MEM_SERVICE_MAX_RECORDS \<Longrightarrow> \<not> older (rs ! ?m) (rs ! i)"
    "i \<noteq> MEM_SERVICE_MAX_RECORDS \<Longrightarrow> \<forall>j \<in> set as. sel (rs ! j) \<longrightarrow> \<not> older (rs ! j) (rs ! i)" by auto
  have trans: "\<not> older x z" if "\<not> older x y" "\<not> older y z" for x y z
    using that unfolding older_def by auto
  have irrefl: "\<not> older x x" for x by (simp add: older_def)
  have asym: "\<not> older y x" if "older x y" for x y using that unfolding older_def by auto
  consider (skip) "\<not> sel (rs ! a)" "?m = m"
    | (new) "sel (rs ! a)" "?m = a" "a \<noteq> MEM_SERVICE_MAX_RECORDS"
        "m = MEM_SERVICE_MAX_RECORDS \<or> \<not> older (rs ! m) (rs ! a)"
    | (old) "sel (rs ! a)" "?m = m" "m \<noteq> MEM_SERVICE_MAX_RECORDS" "\<not> older (rs ! a) (rs ! m)"
    using Cons.prems(3) asym unfolding oldest_step_def
    by (cases "sel (rs ! a)"; cases "m = MEM_SERVICE_MAX_RECORDS"; cases "older (rs ! a) (rs ! m)") auto
  then show ?case
  proof cases
    case skip
    with IH show ?thesis by simp
  next
    case new
    with IH trans [of "rs ! m" "rs ! a" "rs ! i"] show ?thesis by auto
  next
    case old
    with IH trans [of "rs ! a" "rs ! m" "rs ! i"] show ?thesis by auto
  qed
qed

lemma oldest_index_least:
  assumes "length rs \<le> MEM_SERVICE_MAX_RECORDS"
  shows "oldest_index sel rs = MEM_SERVICE_MAX_RECORDS \<longleftrightarrow> (\<forall>r \<in> set rs. \<not> sel r)"
    and "oldest_index sel rs \<noteq> MEM_SERVICE_MAX_RECORDS \<Longrightarrow> r \<in> set rs \<Longrightarrow> sel r \<Longrightarrow>
         \<not> older r (rs ! oldest_index sel rs)"
  using oldest_fold_least [of sel rs MEM_SERVICE_MAX_RECORDS "[0..<length rs]", OF refl] assms
  by (auto simp: oldest_index_def all_set_conv_all_nth in_set_conv_nth)

text \<open>Number of occupied, selected slots.\<close>

definition selected_count :: "(mem_service_record \<Rightarrow> bool) \<Rightarrow> mem_service \<Rightarrow> nat" where
  "selected_count sel svc = length (filter (\<lambda>r. rec_in_use r \<and> sel r) (svc_records svc))"

lemma selected_count_pos: "0 < selected_count sel svc \<Longrightarrow> \<exists>r \<in> set (svc_records svc). rec_in_use r \<and> sel r"
  unfolding selected_count_def length_greater_0_conv filter_empty_conv by blast

lemma selected_count_retire:
  assumes "i < length (svc_records svc)" "rec_in_use (svc_records svc ! i)" "sel (svc_records svc ! i)"
  shows "selected_count sel svc = selected_count sel (fst (retire_record env i svc fw)) + 1"
  using length_filter_update [OF assms(1), of "\<lambda>r. rec_in_use r \<and> sel r" zero_record] assms(2,3)
  by (simp add: selected_count_def)

lemma retention_loop_meets_limit:
  assumes "retention_loop env sel count limit pruned svc fw = (pruned', svc', fw')"
    and "records_wf svc"
    and "\<forall>svc. records_wf svc \<longrightarrow> unat (count svc) = selected_count sel svc"
  shows "selected_count sel svc' = min (selected_count sel svc) (unat limit) \<and>
    (pruned' \<longleftrightarrow> pruned \<or> unat limit < selected_count sel svc) \<and>
    (\<forall>k r k' r'. record_map svc k = Some r \<longrightarrow> record_map svc' k = None \<longrightarrow>
       record_map svc' k' = Some r' \<longrightarrow> sel r' \<longrightarrow> \<not> older r' r)"
  using assms
proof (induction env sel count limit pruned svc fw rule: retention_loop.induct)
  case (1 env sel count limit pruned svc fw)
  let ?i = "oldest_index (\<lambda>r. rec_in_use r \<and> sel r) (svc_records svc)"
  have len: "length (svc_records svc) \<le> MEM_SERVICE_MAX_RECORDS" using 1(3) by (simp add: records_wf_def)
  have cnt: "unat (count svc) = selected_count sel svc" using 1(3,4) by blast
  show ?case
  proof (cases "count svc > limit")
    case True
    then have more: "unat limit < selected_count sel svc" by (simp add: word_less_nat_alt cnt)
    then have "0 < selected_count sel svc" by simp
    note some = selected_count_pos [OF this]
    have i: "?i \<noteq> MEM_SERVICE_MAX_RECORDS"
      unfolding oldest_index_least(1) [OF len] using some by blast
    note at = oldest_index_found [OF refl i]
    obtain svc1 fw1 where step: "retire_record env ?i svc fw = (svc1, fw1)" by fastforce
    have svc1: "svc1 = fst (retire_record env ?i svc fw)" using step by simp
    have wf1: "records_wf svc1" using retire_record_wf(1) [OF 1(3) at(1)] at(2) svc1 by simp
    from 1(2) True i step have run: "retention_loop env sel count limit True svc1 fw1 = (pruned', svc', fw')"
      by (simp add: retention_loop.simps [of env sel count limit pruned] Let_def)
    note IH = 1(1) [OF True refl i step [symmetric] run wf1 1(4)]
    have c1: "selected_count sel svc = selected_count sel svc1 + 1"
      using selected_count_retire [of ?i svc sel env fw] at svc1 by simp
    have map1: "record_map svc1 = (record_map svc)(rec_key (svc_records svc ! ?i) := None)"
      using retire_record_wf(2) [OF 1(3) at(1)] at(2) svc1 by simp
    have le: "record_map svc' \<subseteq>\<^sub>m record_map svc1"
      using retires_map [OF retention_loop_retires [OF run]] wf1 by simp
    have sub: "record_map svc k = Some r" if "record_map svc' k = Some r" for k r
      using map_le_SomeD [of "record_map svc'" "record_map svc1" k r, OF le that]
      unfolding map1 by (auto split: if_splits)
    have newest: "\<not> older r' r" if "record_map svc k = Some r" "record_map svc' k = None"
      "record_map svc' k' = Some r'" "sel r'" for k r k' r'
    proof (cases "k = rec_key (svc_records svc ! ?i)")
      case True
      with that(1) at 1(3) have "r = svc_records svc ! ?i"
        using recs.table_map_Some_iff [of "svc_records svc" k "svc_records svc ! ?i"]
        by (simp add: record_map_table_map records_wf_def)
      moreover from sub [OF that(3)] obtain j where "j < length (svc_records svc)"
        "svc_records svc ! j = r'" "rec_in_use r'" by (rule record_map_index [OF 1(3)])
      ultimately show ?thesis
        using oldest_index_least(2) [OF len i] that(4) by (metis (no_types, lifting) nth_mem)
    next
      case False
      with that(1) have "record_map svc1 k = Some r" by (simp add: map1)
      with that(2-4) conjunct2 [OF conjunct2 [OF IH]] show ?thesis by blast
    qed
    have "selected_count sel svc' = min (selected_count sel svc) (unat limit)"
      using conjunct1 [OF IH] c1 more by simp
    moreover have pruned' using conjunct2 [OF IH] by blast
    ultimately show ?thesis using more newest by blast
  next
    case False
    then have "selected_count sel svc \<le> unat limit" by (simp add: word_less_nat_alt cnt)
    moreover from False 1(2) have "svc' = svc" "pruned' = pruned"
      by (simp_all add: retention_loop.simps [of env sel count limit pruned])
    ultimately show ?thesis by auto
  qed
qed

section \<open>The two retention functions\<close>

lemma used_selected: "used_records svc = selected_count (\<lambda>r. True) svc"
  by (simp add: used_records_def selected_count_def)

lemma selected_count_matches:
  "selected_count (\<lambda>r. mem_service_record_matches_retention_kind r k te t) svc =
   length (filter (\<lambda>r. mem_service_record_matches_retention_kind r k te t) (svc_records svc))"
proof -
  have "(\<lambda>r. rec_in_use r \<and> mem_service_record_matches_retention_kind r k te t) =
      (\<lambda>r. mem_service_record_matches_retention_kind r k te t)"
    by (auto simp: mem_service_record_matches_retention_kind_def)
  then show ?thesis by (simp add: selected_count_def)
qed

lemma length_filter_records:
  assumes "records_wf svc"
  shows "unat (of_nat (length (filter P (svc_records svc))) :: u64) = length (filter P (svc_records svc))"
proof -
  have "length (filter P (svc_records svc)) \<le> 1024"
    using assms length_filter_le [of P "svc_records svc"]
    by (simp add: records_wf_def MEM_SERVICE_MAX_RECORDS_def)
  then show ?thesis by (simp add: unat_of_nat)
qed

lemma count_retained_selected:
  assumes "records_wf svc"
  shows "unat (mem_service_count_retained_kind_records svc k te t) =
    selected_count (\<lambda>r. mem_service_record_matches_retention_kind r k te t) svc"
proof (cases "k = 0 \<and> \<not> te")
  case True
  then have "(\<lambda>r. rec_in_use r \<and> mem_service_record_matches_retention_kind r k te t) = rec_in_use"
    by (auto simp: mem_service_record_matches_retention_kind_def)
  with True assms show ?thesis
    by (simp add: mem_service_count_retained_kind_records_def selected_count_def records_wf_def used_records_def)
next
  case False
  with length_filter_records [OF assms] show ?thesis
    by (auto simp: mem_service_count_retained_kind_records_def selected_count_matches)
qed

lemma count_checkpoint_selected:
  assumes "records_wf svc"
  shows "unat (mem_service_count_checkpoint_records svc) = selected_count mem_service_record_is_checkpoint svc"
proof -
  have "(\<lambda>r. rec_in_use r \<and> mem_service_record_is_checkpoint r) = mem_service_record_is_checkpoint"
    by (auto simp: mem_service_record_is_checkpoint_def)
  with length_filter_records [OF assms] show ?thesis
    by (simp add: mem_service_count_checkpoint_records_def selected_count_def)
qed

lemma checkpoint_retention_retires:
  assumes "mem_service_apply_checkpoint_retention env svc m fw = (pruned, svc', fw')"
  shows "retires env mem_service_record_is_checkpoint (svc, fw) (svc', fw')"
  using assms retention_loop_retires
  by (auto simp: mem_service_apply_checkpoint_retention_def retires.nothing split: if_splits)

lemma record_retention_retires:
  assumes run: "mem_service_apply_record_retention env svc m age k te t fw = (pruned, svc', fw')"
  shows "retires env (\<lambda>r. mem_service_record_matches_retention_kind r k te t) (svc, fw) (svc', fw')"
proof -
  let ?sel = "\<lambda>r. mem_service_record_matches_retention_kind r k te t"
  let ?exp = "record_expired (io_wall_clock_ms (de_io env)) age k te t"
  define st where "st = (if m > 0
      then retention_loop env ?sel (\<lambda>svc. mem_service_count_retained_kind_records svc k te t) m False svc fw
      else (False, svc, fw))"
  obtain p1 svc1 fw1 where st: "st = (p1, svc1, fw1)" by (metis prod_cases3)
  have first: "retires env ?sel (svc, fw) (svc1, fw1)"
    using st retention_loop_retires by (auto simp: st_def retires.nothing split: if_splits)
  have len: "length (svc_records svc1) = length (svc_records svc)"
    using first by (induction "(svc, fw)" "(svc1, fw1)" arbitrary: svc fw rule: retires.induct)
      (auto, metis fst_conv length_list_update retire_record_records)
  show ?thesis
  proof (cases "age > 0")
    case True
    with run st have "age_loop env ?exp [0..<length (svc_records svc)] (p1, svc1, fw1) = (pruned, svc', fw')"
      by (auto simp: mem_service_apply_record_retention_def Let_def st_def split: if_splits)
    from age_loop_retires [OF this] len have "retires env ?exp (svc1, fw1) (svc', fw')"
      by (simp add: record_expired_def mem_service_record_matches_retention_kind_def)
    then have "retires env ?sel (svc1, fw1) (svc', fw')"
      by (rule retires_mono) (simp add: record_expired_def)
    with first show ?thesis by (rule retires_trans)
  next
    case False
    then have "age = 0" by (simp add: word_gt_0)
    with run st first show ?thesis
      by (auto simp: mem_service_apply_record_retention_def Let_def st_def retires.nothing split: if_splits)
  qed
qed

section \<open>Properties\<close>

text \<open>C40. The record limit is met by removing the oldest records, and the loop ends. With a
  limit and no age, the pruning of a well-formed service leaves exactly as many matching
  records as the limit allows (or all, when there are fewer), reports whether it removed any,
  removes matching records only, and no record it kept is older than one it removed.\<close>

theorem record_retention_keeps_newest:
  assumes wf: "records_wf svc" and m: "0 < m"
    and run: "mem_service_apply_record_retention env svc m 0 k te t fw = (pruned, svc', fw')"
  defines "sel \<equiv> \<lambda>r. mem_service_record_matches_retention_kind r k te t"
  shows "records_wf svc' \<and>
    selected_count sel svc' = min (selected_count sel svc) (unat m) \<and>
    (pruned \<longleftrightarrow> unat m < selected_count sel svc) \<and>
    record_map svc' \<subseteq>\<^sub>m record_map svc \<and>
    (\<forall>key r. record_map svc key = Some r \<longrightarrow> record_map svc' key = None \<longrightarrow>
       sel r \<and> (\<forall>key' r'. record_map svc' key' = Some r' \<longrightarrow> sel r' \<longrightarrow> \<not> older r' r))"
proof -
  from run m have loop: "retention_loop env sel
      (\<lambda>svc. mem_service_count_retained_kind_records svc k te t) m False svc fw = (pruned, svc', fw')"
    by (auto simp: mem_service_apply_record_retention_def sel_def Let_def split: if_splits)
  note ret = retention_loop_retires [OF loop]
  have count: "\<forall>svc. records_wf svc \<longrightarrow>
      unat (mem_service_count_retained_kind_records svc k te t) = selected_count sel svc"
    by (simp add: count_retained_selected sel_def)
  note limit = retention_loop_meets_limit [OF loop wf count]
  from retires_invariant(1) [OF ret] retires_map [OF ret] wf limit show ?thesis by simp
qed

section \<open>Witnesses\<close>

text \<open>A service with a training artifact and a newer sealed object.\<close>

definition demo_artifact :: mem_service_record where
  "demo_artifact = other_sealed \<lparr> rec_key := ''a'', rec_version := 1, rec_kind := RECORD_TRAINING_ARTIFACT \<rparr>"

definition demo_object :: mem_service_record where
  "demo_object = demo_sealed \<lparr> rec_key := ''b'', rec_version := 2, rec_kind := RECORD_KVCACHE_OBJECT \<rparr>"

lemma demo_pair_ok:
  "rec_in_use demo_artifact" "rec_key demo_artifact = ''a''" "record_ok demo_artifact"
  "rec_in_use demo_object" "rec_key demo_object = ''b''" "record_ok demo_object"
  by (simp_all add: demo_artifact_def demo_object_def demo_sealed_def other_sealed_def
      seal_record_def record_ok_def MEM_SERVICE_MAX_GROUP_MEMBERS_def list_all_length)

lemma demo_pair:
  obtains svc where "records_wf svc" "idem_wf svc" "used_records svc = 2"
    "record_map svc = [''a'' \<mapsto> demo_artifact, ''b'' \<mapsto> demo_object]"
proof -
  have "put_record initial_service ''a'' demo_artifact \<noteq> None"
    using put_record_None_iff [OF records_wf_initial] by (simp add: used_records_initial MEM_SERVICE_MAX_RECORDS_def)
  then obtain svc1 where put1: "put_record initial_service ''a'' demo_artifact = Some svc1" by auto
  note s1 = put_record_SomeD [OF records_wf_initial put1 demo_pair_ok(1-3)]
  have "put_record svc1 ''b'' demo_object \<noteq> None"
    using put_record_None_iff [OF s1(1)] s1(3)
    by (simp add: used_records_initial record_map_initial MEM_SERVICE_MAX_RECORDS_def)
  then obtain svc2 where put2: "put_record svc1 ''b'' demo_object = Some svc2" by auto
  note s2 = put_record_SomeD [OF s1(1) put2 demo_pair_ok(4-6)]
  have "svc_idempotency_records svc2 = svc_idempotency_records initial_service"
    using svc_rest_eqD [OF svc_rest_put [OF put1]] svc_rest_eqD [OF svc_rest_put [OF put2]] by simp
  then have "idem_wf svc2" using idem_wf_initial(1) by (simp add: idem_wf_def)
  with s1 s2 show thesis
    using that by (simp add: used_records_initial record_map_initial)
qed

theorem record_retention_keeps_newest_witness:
  "\<exists>svc svc' fw'. used_records svc = 2 \<and>
     mem_service_apply_record_retention demo_env svc 1 0 0 False 0 empty_disk = (True, svc', fw') \<and>
     used_records svc' = 1"
proof -
  obtain svc where svc: "records_wf svc" "used_records svc = 2" by (rule demo_pair)
  obtain p svc' fw' where run:
    "mem_service_apply_record_retention demo_env svc 1 0 0 False 0 empty_disk = (p, svc', fw')"
    by (metis prod_cases3)
  have sel: "selected_count (\<lambda>r. mem_service_record_matches_retention_kind r 0 False 0) s = used_records s" for s
    by (simp add: selected_count_def used_records_def mem_service_record_matches_retention_kind_def)
  from record_retention_keeps_newest [OF svc(1) _ run] svc(2) run show ?thesis
    by (intro exI [of _ svc] exI [of _ svc'] exI [of _ fw']) (simp add: sel)
qed

end
