(* ===== verification/Store_Text.thy ===== *)
theory Store_Text
  imports Audit_Log
begin

text \<open>
  The text form of the store (\<open>mem_service_daemon.c\<close>): the same line format is used by
  snapshots, the store file and the journal. A frame is a begin line, one \<open>name=value\<close> line per
  field and an end line; there are frames for records, for idempotency records and for audit
  events. Modelled here: the number and field parsers of a line, the three frame parsers with
  their import into the tables, the line automaton \<open>mem_service_import_store_line\<close>, and the
  texts of the three frames.

  The frame parsers never look ahead, so importing a text is running the automaton over its
  lines. The main lemmas say what running it over one printed frame does: exactly one write to
  the table, with the fields the writer printed.
\<close>

section \<open>Parsing a line\<close>

abbreviation carriage_return :: char where "carriage_return \<equiv> CHR 0x0D"

definition mem_service_trim_line :: "cstr \<Rightarrow> cstr" where
  "mem_service_trim_line line =
     rev (dropWhile (\<lambda>c. c = newline \<or> c = carriage_return) (rev line))"

definition mem_service_parse_line_field :: "cstr \<Rightarrow> nat \<Rightarrow> nat \<Rightarrow> (cstr \<times> cstr) option" where
  "mem_service_parse_line_field line name_len value_len =
     (if name_len = 0 \<or> value_len = 0 then None
      else if CHR ''='' \<notin> set line \<or> hd line = CHR ''='' then None
      else Some (snprintf_s name_len (takeWhile (\<lambda>c. c \<noteq> CHR ''='') line),
                 snprintf_s value_len (tl (dropWhile (\<lambda>c. c \<noteq> CHR ''='') line))))"

text \<open>A signed 64-bit field is kept as its two's complement word. \<open>strtoll\<close> reads the same
  numbers as \<open>strtoull\<close> and sets \<open>errno\<close> outside its own range.\<close>

definition parse_i64 :: "cstr \<Rightarrow> u64 option" where
  "parse_i64 text =
     (case strtoull0 text of
        None \<Rightarrow> None
      | Some (n, neg, rest) \<Rightarrow>
          if rest = [] \<and> (if neg then n \<le> 2 ^ 63 else n < 2 ^ 63)
          then Some (if neg then - of_nat n else of_nat n) else None)"

definition mem_service_parse_i64_value :: "cstr \<Rightarrow> u64 \<Rightarrow> u64" where
  "mem_service_parse_i64_value text default_value =
     (if text = [] then default_value
      else (case parse_i64 text of None \<Rightarrow> default_value | Some v \<Rightarrow> v))"

definition mem_service_parse_u32_value :: "cstr \<Rightarrow> u32 \<Rightarrow> u32" where
  "mem_service_parse_u32_value text default_value =
     (let parsed = mem_service_parse_u64_value text (ucast default_value) in
      if parsed > UINT32_MAX then default_value else ucast parsed)"

text \<open>\<open>strtol\<close> and \<open>strtoul\<close> in base 10: magnitude, sign and rest, \<open>None\<close> when no digit was
  read.\<close>

definition strtoul10 :: "cstr \<Rightarrow> (nat \<times> bool \<times> cstr) option" where
  "strtoul10 s =
     (let s1 = dropWhile c_isspace s;
          neg = (s1 \<noteq> [] \<and> hd s1 = CHR ''-'');
          s2 = (if s1 \<noteq> [] \<and> (hd s1 = CHR ''-'' \<or> hd s1 = CHR ''+'') then tl s1 else s1);
          ds = takeWhile (\<lambda>c. digit_value c < 10) s2
      in if ds = [] then None
         else Some (digits_value 10 ds, neg, dropWhile (\<lambda>c. digit_value c < 10) s2))"

definition mem_service_member_index_from_name :: "cstr \<Rightarrow> nat option" where
  "mem_service_member_index_from_name name =
     (if take 6 name \<noteq> ''member'' \<or> length name \<le> 6 then None
      else (case strtoul10 (drop 6 name) of
              None \<Rightarrow> None
            | Some (n, neg, rest) \<Rightarrow>
                if n \<ge> 2 ^ 64 \<or> rest \<noteq> [] then None
                else let index = unat (if neg then - of_nat n else of_nat n :: u64) in
                  if index \<ge> MEM_SERVICE_MAX_GROUP_MEMBERS then None else Some index))"

abbreviation mem_service_copy_store_string :: "nat \<Rightarrow> cstr \<Rightarrow> cstr" where
  "mem_service_copy_store_string \<equiv> snprintf_s"

text \<open>\<open>mem_service_parse_schema_version_line\<close>: 0 when the line is no version line, 1 when it
  names a known version, -1 otherwise; the second component is whether \<open>*saw_version_out\<close> was
  set. \<open>strtol\<close> saturates, and its \<open>errno\<close> is not consulted.\<close>

definition mem_service_parse_schema_version_line :: "cstr \<Rightarrow> cstr \<Rightarrow> int \<Rightarrow> int \<times> bool" where
  "mem_service_parse_schema_version_line line prefix max_known_version =
     (if take (length prefix) line \<noteq> prefix then (0, False)
      else (case strtoul10 (drop (length prefix) line) of
              None \<Rightarrow> (-1, True)
            | Some (n, neg, rest) \<Rightarrow>
                if rest \<noteq> [] then (-1, True)
                else let parsed = (if neg then max (- (2 ^ 63)) (- int n) else min (2 ^ 63 - 1) (int n))
                  in (if parsed \<le> 0 \<or> parsed > max_known_version then -1 else 1, True)))"

section \<open>Frames\<close>

definition mem_service_parse_store_record_field ::
  "mem_service_record \<Rightarrow> cstr \<Rightarrow> cstr \<Rightarrow> mem_service_record" where
  "mem_service_parse_store_record_field r name text =
     (case mem_service_member_index_from_name name of
        Some i \<Rightarrow>
          r \<lparr> rec_member_block_hashes :=
                (rec_member_block_hashes r)[i := mem_service_copy_store_string 96 text],
              rec_member_count :=
                (if rec_member_count r \<le> of_nat i then of_nat i + 1 else rec_member_count r) \<rparr>
      | None \<Rightarrow>
          if name = ''kind''
          then r \<lparr> rec_kind := record_kind_of_code (mem_service_parse_u32_value text 0) \<rparr>
          else if name = ''key'' then r \<lparr> rec_key := mem_service_copy_store_string 96 text \<rparr>
          else if name = ''request_id''
          then r \<lparr> rec_request_id := mem_service_copy_store_string 64 text \<rparr>
          else if name = ''prefix_group''
          then r \<lparr> rec_prefix_group := mem_service_copy_store_string 64 text \<rparr>
          else if name = ''group_id'' then r \<lparr> rec_group_id := mem_service_copy_store_string 64 text \<rparr>
          else if name = ''block_hash''
          then r \<lparr> rec_block_hash := mem_service_copy_store_string 96 text \<rparr>
          else if name = ''session_id''
          then r \<lparr> rec_session_id := mem_service_copy_store_string 64 text \<rparr>
          else if name = ''model_key'' then r \<lparr> rec_model_key := mem_service_copy_store_string 64 text \<rparr>
          else if name = ''artifact_kind''
          then r \<lparr> rec_artifact_kind := mem_service_copy_store_string 64 text \<rparr>
          else if name = ''artifact_id''
          then r \<lparr> rec_artifact_id := mem_service_copy_store_string 96 text \<rparr>
          else if name = ''placement_node''
          then r \<lparr> rec_placement_node := mem_service_parse_u32_value text 0 \<rparr>
          else if name = ''placement_level''
          then r \<lparr> rec_placement_level := mem_service_parse_u32_value text 0 \<rparr>
          else if name = ''hot_segment_id''
          then r \<lparr> rec_hot_segment_id := mem_service_parse_u64_value text 0 \<rparr>
          else if name = ''state''
          then r \<lparr> rec_state := kvcache_state_of_code (mem_service_parse_u32_value text 0) \<rparr>
          else if name = ''version'' then r \<lparr> rec_version := mem_service_parse_u64_value text 0 \<rparr>
          else if name = ''last_result_segment''
          then r \<lparr> rec_last_result_segment := mem_service_parse_u64_value text 0 \<rparr>
          else if name = ''object_owner_node''
          then r \<lparr> rec_object_owner_node := mem_service_parse_u32_value text 0 \<rparr>
          else if name = ''object_payload_kind''
          then r \<lparr> rec_object_payload_kind := mem_service_parse_u32_value text 0 \<rparr>
          else if name = ''object_backing_offset''
          then r \<lparr> rec_object_backing_offset := mem_service_parse_u64_value text 0 \<rparr>
          else if name = ''object_backing_len''
          then r \<lparr> rec_object_backing_len := mem_service_parse_u64_value text 0 \<rparr>
          else if name = ''object_payload_checksum''
          then r \<lparr> rec_object_payload_checksum := mem_service_parse_u64_value text 0 \<rparr>
          else if name = ''object_backend_kind''
          then r \<lparr> rec_object_backend_kind := mem_service_parse_u32_value text 0 \<rparr>
          else if name = ''object_backend_node''
          then r \<lparr> rec_object_backend_node := mem_service_parse_u32_value text 0 \<rparr>
          else if name = ''object_backend_device_cna''
          then r \<lparr> rec_object_backend_device_cna := mem_service_parse_u32_value text 0 \<rparr>
          else if name = ''object_backend_flags''
          then r \<lparr> rec_object_backend_flags := mem_service_parse_u32_value text 0 \<rparr>
          else if name = ''object_backend_block_hi''
          then r \<lparr> rec_object_backend_block_hi := mem_service_parse_u64_value text 0 \<rparr>
          else if name = ''object_backend_block_lo''
          then r \<lparr> rec_object_backend_block_lo := mem_service_parse_u64_value text 0 \<rparr>
          else if name = ''object_backend_block_version''
          then r \<lparr> rec_object_backend_block_version := mem_service_parse_u64_value text 0 \<rparr>
          else if name = ''object_backend_block_offset''
          then r \<lparr> rec_object_backend_block_offset := mem_service_parse_u64_value text 0 \<rparr>
          else if name = ''object_backend_block_bytes''
          then r \<lparr> rec_object_backend_block_bytes := mem_service_parse_u64_value text 0 \<rparr>
          else if name = ''object_backend_block_checksum''
          then r \<lparr> rec_object_backend_block_checksum := mem_service_parse_u64_value text 0 \<rparr>
          else if name = ''object_publish_monotonic_ms''
          then r \<lparr> rec_object_publish_monotonic_ms := mem_service_parse_u64_value text 0 \<rparr>
          else if name = ''object_publish_supernode_ms''
          then r \<lparr> rec_object_publish_supernode_ms := mem_service_parse_u64_value text 0 \<rparr>
          else if name = ''object_publish_supernode_offset_ms''
          then r \<lparr> rec_object_publish_supernode_offset_ms := mem_service_parse_i64_value text 0 \<rparr>
          else if name = ''member_count''
          then (let count = mem_service_parse_u32_value text 0 in
                r \<lparr> rec_member_count :=
                    (if count > of_nat MEM_SERVICE_MAX_GROUP_MEMBERS
                     then of_nat MEM_SERVICE_MAX_GROUP_MEMBERS else count) \<rparr>)
          else r)"

text \<open>Importing a finished frame; \<open>None\<close> is the result -1.\<close>

definition mem_service_store_import_record :: "mem_service \<Rightarrow> mem_service_record \<Rightarrow> mem_service option" where
  "mem_service_store_import_record svc r =
     (if rec_key r = [] \<or> record_kind_code (rec_kind r) = 0 then None
      else put_record svc (rec_key r) (r \<lparr> rec_in_use := True \<rparr>))"

definition mem_service_append_idempotency_response_line ::
  "mem_service_idempotency_record \<Rightarrow> cstr \<Rightarrow> mem_service_idempotency_record option" where
  "mem_service_append_idempotency_response_line r line =
     (let used = unat (idem_response_len r) in
      if used + length line + 1 \<ge> MEM_SERVICE_IDEMPOTENCY_RESPONSE_LEN then None
      else Some (r \<lparr> idem_response := take used (idem_response r) @ line @ [newline],
                     idem_response_len := of_nat (used + length line + 1) \<rparr>))"

definition mem_service_parse_store_idempotency_field ::
  "mem_service_idempotency_record \<Rightarrow> cstr \<Rightarrow> cstr \<Rightarrow> mem_service_idempotency_record option" where
  "mem_service_parse_store_idempotency_field r name text =
     (if name = ''key''
      then Some (r \<lparr> idem_key := mem_service_copy_store_string MEM_SERVICE_IDEMPOTENCY_KEY_LEN text \<rparr>)
      else if name = ''operation''
      then Some (r \<lparr> idem_operation := mem_service_parse_u32_value text 0 \<rparr>)
      else if name = ''request_checksum''
      then Some (r \<lparr> idem_request_checksum := mem_service_parse_u32_value text 0 \<rparr>)
      else if name = ''status'' then Some (r \<lparr> idem_status := mem_service_parse_u32_value text 0 \<rparr>)
      else if name = ''response_len'' then Some r
      else if name = ''response_line'' then mem_service_append_idempotency_response_line r text
      else Some r)"

definition put_idempotency ::
  "mem_service \<Rightarrow> cstr \<Rightarrow> mem_service_idempotency_record \<Rightarrow> mem_service option" where
  "put_idempotency svc key r =
     (case (case mem_service_find_idempotency_record svc key of
              None \<Rightarrow> mem_service_alloc_idempotency_record svc
            | Some i \<Rightarrow> Some i) of
        None \<Rightarrow> None
      | Some i \<Rightarrow>
          Some (svc \<lparr> svc_idempotency_records := (svc_idempotency_records svc)[i := r] \<rparr>))"

definition mem_service_store_import_idempotency ::
  "mem_service \<Rightarrow> mem_service_idempotency_record \<Rightarrow> mem_service option" where
  "mem_service_store_import_idempotency svc r =
     (if idem_key r = [] \<or> idem_operation r = 0 then None
      else let len = min (unat (idem_response_len r)) (MEM_SERVICE_IDEMPOTENCY_RESPONSE_LEN - 1)
        in put_idempotency svc (idem_key r)
             (r \<lparr> idem_in_use := True, idem_response_len := of_nat len,
                  idem_response := take len (idem_response r) \<rparr>))"

definition mem_service_parse_store_audit_field ::
  "mem_service_audit_event \<Rightarrow> cstr \<Rightarrow> cstr \<Rightarrow> mem_service_audit_event" where
  "mem_service_parse_store_audit_field event name text =
     (if name = ''sequence'' then event \<lparr> aud_sequence := mem_service_parse_u64_value text 0 \<rparr>
      else if name = ''monotonic_ms''
      then event \<lparr> aud_monotonic_ms := mem_service_parse_u64_value text 0 \<rparr>
      else if name = ''operation'' then event \<lparr> aud_operation := mem_service_parse_u32_value text 0 \<rparr>
      else if name = ''status'' then event \<lparr> aud_status := mem_service_parse_u32_value text 0 \<rparr>
      else if name = ''request_checksum''
      then event \<lparr> aud_request_checksum := mem_service_parse_u32_value text 0 \<rparr>
      else if name = ''response_checksum''
      then event \<lparr> aud_response_checksum := mem_service_parse_u32_value text 0 \<rparr>
      else if name = ''idempotency_replay''
      then event \<lparr> aud_idempotency_replay := mem_service_parse_u32_value text 0 \<rparr>
      else if name = ''key'' then event \<lparr> aud_key := mem_service_copy_store_string 96 text \<rparr>
      else if name = ''session_id''
      then event \<lparr> aud_session_id := mem_service_copy_store_string 64 text \<rparr>
      else if name = ''model_key'' then event \<lparr> aud_model_key := mem_service_copy_store_string 64 text \<rparr>
      else if name = ''artifact_kind''
      then event \<lparr> aud_artifact_kind := mem_service_copy_store_string 64 text \<rparr>
      else if name = ''artifact_id''
      then event \<lparr> aud_artifact_id := mem_service_copy_store_string 96 text \<rparr>
      else if name = ''idempotency_key''
      then event \<lparr> aud_idempotency_key :=
             mem_service_copy_store_string MEM_SERVICE_IDEMPOTENCY_KEY_LEN text \<rparr>
      else if name = ''version'' then event \<lparr> aud_version := mem_service_parse_u64_value text 0 \<rparr>
      else if name = ''checksum'' then event \<lparr> aud_checksum := mem_service_parse_u64_value text 0 \<rparr>
      else event)"

definition mem_service_store_import_audit :: "mem_service \<Rightarrow> mem_service_audit_event \<Rightarrow> mem_service option" where
  "mem_service_store_import_audit svc event =
     (if aud_sequence event = 0 \<or> aud_operation event = 0 then None
      else let slot_index = unat ((aud_sequence event - 1) mod of_nat MEM_SERVICE_MAX_AUDIT_EVENTS);
               old = svc_audit_events svc ! slot_index;
               duplicate_sequence = (aud_in_use old \<and> aud_sequence old = aud_sequence event)
           in Some (svc
                \<lparr> svc_audit_events := (svc_audit_events svc)[slot_index := event \<lparr> aud_in_use := True \<rparr>],
                  svc_audit_next_sequence :=
                    (if aud_sequence event \<ge> svc_audit_next_sequence svc
                     then aud_sequence event + 1 else svc_audit_next_sequence svc),
                  svc_audit_event_count :=
                    (if \<not> duplicate_sequence \<and>
                        svc_audit_event_count svc < of_nat MEM_SERVICE_MAX_AUDIT_EVENTS
                     then svc_audit_event_count svc + 1 else svc_audit_event_count svc) \<rparr>))"

section \<open>The line automaton\<close>

record mem_service_store_import_state =
  imp_record :: mem_service_record
  imp_idempotency :: mem_service_idempotency_record
  imp_audit :: mem_service_audit_event
  imp_in_record :: bool
  imp_in_idempotency :: bool
  imp_in_audit :: bool

definition zero_import_state :: mem_service_store_import_state where
  "zero_import_state =
     \<lparr> imp_record = zero_record, imp_idempotency = zero_idempotency_record,
       imp_audit = zero_audit_event, imp_in_record = False, imp_in_idempotency = False,
       imp_in_audit = False \<rparr>"

abbreviation in_frame :: "mem_service_store_import_state \<Rightarrow> bool" where
  "in_frame state \<equiv> imp_in_record state \<or> imp_in_idempotency state \<or> imp_in_audit state"

definition mem_service_import_store_line ::
  "mem_service \<Rightarrow> cstr \<Rightarrow> mem_service_store_import_state \<Rightarrow>
   (mem_service \<times> mem_service_store_import_state) option" where
  "mem_service_import_store_line svc line state =
     (if line = [] then Some (svc, state)
      else if line = ''record_begin''
      then (if in_frame state then None
            else Some (svc, state \<lparr> imp_record := zero_record \<lparr> rec_in_use := True \<rparr>, imp_in_record := True \<rparr>))
      else if line = ''record_end''
      then (if \<not> imp_in_record state then None
            else case mem_service_store_import_record svc (imp_record state) of
              None \<Rightarrow> None
            | Some svc' \<Rightarrow> Some (svc', state \<lparr> imp_record := zero_record, imp_in_record := False \<rparr>))
      else if line = ''idempotency_begin''
      then (if in_frame state then None
            else Some (svc, state \<lparr> imp_idempotency := zero_idempotency_record \<lparr> idem_in_use := True \<rparr>,
                                    imp_in_idempotency := True \<rparr>))
      else if line = ''idempotency_end''
      then (if \<not> imp_in_idempotency state then None
            else case mem_service_store_import_idempotency svc (imp_idempotency state) of
              None \<Rightarrow> None
            | Some svc' \<Rightarrow> Some (svc', state \<lparr> imp_idempotency := zero_idempotency_record,
                                               imp_in_idempotency := False \<rparr>))
      else if line = ''audit_begin''
      then (if in_frame state then None
            else Some (svc, state \<lparr> imp_audit := zero_audit_event \<lparr> aud_in_use := True \<rparr>, imp_in_audit := True \<rparr>))
      else if line = ''audit_end''
      then (if \<not> imp_in_audit state then None
            else case mem_service_store_import_audit svc (imp_audit state) of
              None \<Rightarrow> None
            | Some svc' \<Rightarrow> Some (svc', state \<lparr> imp_audit := zero_audit_event, imp_in_audit := False \<rparr>))
      else case mem_service_parse_line_field line 96 512 of
        None \<Rightarrow> None
      | Some (name, text) \<Rightarrow>
          if imp_in_record state
          then Some (svc, state \<lparr> imp_record :=
                 mem_service_parse_store_record_field (imp_record state) name text \<rparr>)
          else if imp_in_idempotency state
          then (case mem_service_parse_store_idempotency_field (imp_idempotency state) name text of
                  None \<Rightarrow> None
                | Some r \<Rightarrow> Some (svc, state \<lparr> imp_idempotency := r \<rparr>))
          else if imp_in_audit state
          then Some (svc, state \<lparr> imp_audit :=
                 mem_service_parse_store_audit_field (imp_audit state) name text \<rparr>)
          else Some (svc, state))"

section \<open>Texts of the frames\<close>

text \<open>A line of a frame is \<open>name=value\<close>; a text is a list of lines, each ended by a newline.\<close>

definition field_lines :: "(cstr \<times> cstr) list \<Rightarrow> cstr list" where
  "field_lines fs = map (\<lambda>(name, text). name @ ''='' @ text) fs"

definition text_of :: "cstr list \<Rightarrow> cstr" where
  "text_of ls = concat (map (\<lambda>l. l @ [newline]) ls)"

text \<open>\<open>%" PRId64 "\<close> prints a signed number.\<close>

definition show_i64 :: "u64 \<Rightarrow> cstr" where
  "show_i64 w = (if unat w < 2 ^ 63 then decimal (unat w) else CHR ''-'' # decimal (2 ^ 64 - unat w))"

definition record_fields :: "mem_service_record \<Rightarrow> (cstr \<times> cstr) list" where
  "record_fields r =
     [(''kind'', show_word (record_kind_code (rec_kind r))),
      (''key'', rec_key r),
      (''request_id'', rec_request_id r),
      (''prefix_group'', rec_prefix_group r),
      (''group_id'', rec_group_id r),
      (''block_hash'', rec_block_hash r),
      (''session_id'', rec_session_id r),
      (''model_key'', rec_model_key r),
      (''artifact_kind'', rec_artifact_kind r),
      (''artifact_id'', rec_artifact_id r),
      (''placement_node'', show_word (rec_placement_node r)),
      (''placement_level'', show_word (rec_placement_level r)),
      (''hot_segment_id'', show_word (rec_hot_segment_id r)),
      (''state'', show_word (kvcache_state_code (rec_state r))),
      (''version'', show_word (rec_version r)),
      (''last_result_segment'', show_word (rec_last_result_segment r)),
      (''object_owner_node'', show_word (rec_object_owner_node r)),
      (''object_payload_kind'', show_word (rec_object_payload_kind r)),
      (''object_backing_offset'', show_word (rec_object_backing_offset r)),
      (''object_backing_len'', show_word (rec_object_backing_len r)),
      (''object_payload_checksum'', show_word (rec_object_payload_checksum r)),
      (''object_publish_monotonic_ms'', show_word (rec_object_publish_monotonic_ms r)),
      (''object_publish_supernode_ms'', show_word (rec_object_publish_supernode_ms r)),
      (''object_publish_supernode_offset_ms'', show_i64 (rec_object_publish_supernode_offset_ms r)),
      (''member_count'', show_word (rec_member_count r))]"

definition backend_fields :: "mem_service_record \<Rightarrow> (cstr \<times> cstr) list" where
  "backend_fields r =
     [(''object_backend_kind'', show_word (rec_object_backend_kind r)),
      (''object_backend_node'', show_word (rec_object_backend_node r)),
      (''object_backend_device_cna'', show_word (rec_object_backend_device_cna r)),
      (''object_backend_flags'', show_word (rec_object_backend_flags r)),
      (''object_backend_block_hi'', show_word (rec_object_backend_block_hi r)),
      (''object_backend_block_lo'', show_word (rec_object_backend_block_lo r)),
      (''object_backend_block_version'', show_word (rec_object_backend_block_version r)),
      (''object_backend_block_offset'', show_word (rec_object_backend_block_offset r)),
      (''object_backend_block_bytes'', show_word (rec_object_backend_block_bytes r)),
      (''object_backend_block_checksum'', show_word (rec_object_backend_block_checksum r))]"

definition member_fields :: "mem_service_record \<Rightarrow> (cstr \<times> cstr) list" where
  "member_fields r =
     map (\<lambda>i. (''member'' @ decimal i, rec_member_block_hashes r ! i))
       [0..<min (unat (rec_member_count r)) MEM_SERVICE_MAX_GROUP_MEMBERS]"

definition idempotency_fields :: "mem_service_idempotency_record \<Rightarrow> (cstr \<times> cstr) list" where
  "idempotency_fields r =
     [(''key'', idem_key r),
      (''operation'', show_word (idem_operation r)),
      (''request_checksum'', show_word (idem_request_checksum r)),
      (''status'', show_word (idem_status r)),
      (''response_len'', show_word (idem_response_len r))]"

text \<open>The loop over the stored response: one line up to each newline, and the rest.\<close>

function response_lines :: "cstr \<Rightarrow> cstr list" where
  "response_lines cursor =
     (if cursor = [] then []
      else line_of cursor #
        (case after_line cursor of None \<Rightarrow> [] | Some rest \<Rightarrow> response_lines rest))"
  by pat_completeness auto
termination
  by (relation "measure length") (auto dest: after_line_shorter)

declare response_lines.simps [simp del]

definition response_fields :: "mem_service_idempotency_record \<Rightarrow> (cstr \<times> cstr) list" where
  "response_fields r =
     map (\<lambda>l. (''response_line'', l))
       (response_lines (take (unat (idem_response_len r)) (idem_response r)))"

definition audit_fields :: "mem_service_audit_event \<Rightarrow> (cstr \<times> cstr) list" where
  "audit_fields event =
     [(''sequence'', show_word (aud_sequence event)),
      (''monotonic_ms'', show_word (aud_monotonic_ms event)),
      (''operation'', show_word (aud_operation event)),
      (''status'', show_word (aud_status event)),
      (''request_checksum'', show_word (aud_request_checksum event)),
      (''response_checksum'', show_word (aud_response_checksum event)),
      (''idempotency_replay'', show_word (aud_idempotency_replay event)),
      (''key'', aud_key event),
      (''session_id'', aud_session_id event),
      (''model_key'', aud_model_key event),
      (''artifact_kind'', aud_artifact_kind event),
      (''artifact_id'', aud_artifact_id event),
      (''idempotency_key'', aud_idempotency_key event),
      (''version'', show_word (aud_version event)),
      (''checksum'', show_word (aud_checksum event))]"

section \<open>Loops over the lines of a text\<close>

text \<open>The shared step of the readers of a store text: outside a frame a schema version line is
  checked and skipped, every other line goes to the automaton.\<close>

definition MEM_SERVICE_STORE_MAX_KNOWN_SCHEMA_VERSION :: int where
  "MEM_SERVICE_STORE_MAX_KNOWN_SCHEMA_VERSION = 1"

definition store_line_step ::
  "mem_service \<times> mem_service_store_import_state \<Rightarrow> cstr \<Rightarrow>
   (mem_service \<times> mem_service_store_import_state) option" where
  "store_line_step s line =
     (case s of (svc, state) \<Rightarrow>
        let schema_rc = (if in_frame state then 0
                         else fst (mem_service_parse_schema_version_line line ''store_schema_version=''
                                     MEM_SERVICE_STORE_MAX_KNOWN_SCHEMA_VERSION))
        in if schema_rc < 0 then None
           else if schema_rc > 0 then Some (svc, state)
           else mem_service_import_store_line svc line state)"

text \<open>The loop of the snapshot readers: lines of 512 characters or more are refused.\<close>

function line_loop :: "('s \<Rightarrow> cstr \<Rightarrow> 's option) \<Rightarrow> cstr \<Rightarrow> 's \<Rightarrow> 's option" where
  "line_loop step cursor s =
     (if cursor = [] then Some s
      else let line = line_of cursor in
        if length line \<ge> 512 then None
        else (case step s (mem_service_trim_line line) of
                None \<Rightarrow> None
              | Some s' \<Rightarrow>
                  (case after_line cursor of None \<Rightarrow> Some s' | Some rest \<Rightarrow> line_loop step rest s')))"
  by pat_completeness auto
termination
  by (relation "measure (\<lambda>(step, cursor, s). length cursor)") (auto dest: after_line_shorter)

declare line_loop.simps [simp del]

text \<open>Running a step over a list, of lines or of fields.\<close>

primrec run_steps :: "('s \<Rightarrow> 'a \<Rightarrow> 's option) \<Rightarrow> 'a list \<Rightarrow> 's \<Rightarrow> 's option" where
  "run_steps step [] s = Some s"
| "run_steps step (l # ls) s = (case step s l of None \<Rightarrow> None | Some s' \<Rightarrow> run_steps step ls s')"

lemma run_steps_append:
  "run_steps step (ls @ ms) s =
     (case run_steps step ls s of None \<Rightarrow> None | Some s' \<Rightarrow> run_steps step ms s')"
  by (induction ls arbitrary: s) (auto split: option.split)

text \<open>A value survives printing as a line when it holds no newline and does not end with a
  carriage return, which \<open>mem_service_trim_line\<close> would cut off.\<close>

definition clean :: "cstr \<Rightarrow> bool" where
  "clean s \<longleftrightarrow> newline \<notin> set s \<and> (s = [] \<or> last s \<noteq> carriage_return)"

lemma trim_clean: "clean s \<Longrightarrow> mem_service_trim_line s = s"
  by (cases s rule: rev_cases) (auto simp: clean_def mem_service_trim_line_def)

text \<open>A carriage return at the end of a stored value is lost when its line is read back.\<close>

lemma trim_cuts_return: "mem_service_trim_line (s @ [carriage_return]) = mem_service_trim_line s"
  by (simp add: mem_service_trim_line_def)

lemma clean_decimal [simp]: "clean (decimal n)"
proof -
  obtain d where "d < 10" "last (decimal n) = digit_char d"
    using decimal_digits [of "last (decimal n)" n] by auto
  then show ?thesis using digit_char_eq_iff [of d carriage_return] by (simp add: clean_def)
qed

lemma clean_show_word [simp]: "clean (show_word w)" by (simp add: show_word_def)

lemma clean_Nil [simp]: "clean []" by (simp add: clean_def)

lemma clean_show_i64 [simp]: "clean (show_i64 w)"
  using clean_decimal by (auto simp: show_i64_def clean_def)

lemma clean_append [simp]:
  "clean v \<Longrightarrow> newline \<notin> set n \<Longrightarrow> clean (n @ CHR ''='' # v)"
  by (auto simp: clean_def)

lemma line_loop_text:
  assumes "\<forall>l \<in> set ls. clean l \<and> length l < 512"
  shows "line_loop step (text_of ls @ rest) s =
    (case run_steps step ls s of None \<Rightarrow> None | Some s' \<Rightarrow> line_loop step rest s')"
  using assms
proof (induction ls arbitrary: s)
  case Nil
  then show ?case by (simp add: text_of_def)
next
  case (Cons l ls)
  then have l: "newline \<notin> set l" "mem_service_trim_line l = l" "length l < 512"
    by (auto simp: clean_def trim_clean)
  have "text_of (l # ls) @ rest = l @ newline # (text_of ls @ rest)" by (simp add: text_of_def)
  with l Cons show ?case
    by (simp add: line_loop.simps [of step "l @ newline # (text_of ls @ rest)"] line_of_append
        after_line_append split: option.split)
qed

lemma text_of_append [simp]: "text_of (a @ b) = text_of a @ text_of b"
  by (simp add: text_of_def)

lemma text_of_Nil [simp]: "text_of [] = []" by (simp add: text_of_def)

section \<open>Numbers and fields that read back\<close>

lemma strtoul10_decimal: "strtoul10 (decimal n) = Some (n, False, [])"
  by (simp add: strtoul10_def Let_def decimal_scan decimal_value)

lemma parse_u64_value_show [simp]: "mem_service_parse_u64_value (show_word w) d = w" for w :: u64
proof -
  have "show_word w \<noteq> []" by (simp add: show_word_def)
  then show ?thesis by (simp add: mem_service_parse_u64_value_def)
qed

lemma parse_u32_value_show [simp]: "mem_service_parse_u32_value (show_word w) d = w" for w :: u32
proof -
  have "unat w < 2 ^ 32" using unsigned_less [of w] by simp
  then have "mem_service_parse_u64_value (show_word w) (ucast d) = ucast w"
    using parse_u64_decimal [of "unat w"]
    by (simp add: mem_service_parse_u64_value_def show_word_def)
  moreover have "unat (ucast w :: u64) = unat w"
    using \<open>unat w < 2 ^ 32\<close> by (simp add: unsigned_ucast_eq take_bit_nat_eq_self)
  then have "\<not> (ucast w :: u64) > UINT32_MAX"
    using \<open>unat w < 2 ^ 32\<close> by (simp add: UINT32_MAX_def word_less_nat_alt)
  moreover have "ucast (ucast w :: u64) = w"
    by (rule bit_word_eqI) (simp add: bit_unsigned_iff)
  ultimately show ?thesis by (simp add: mem_service_parse_u32_value_def)
qed

lemma parse_i64_value_show [simp]: "mem_service_parse_i64_value (show_i64 w) d = w"
proof (cases "unat w < 2 ^ 63")
  case True
  then show ?thesis
    by (simp add: mem_service_parse_i64_value_def show_i64_def parse_i64_def strtoull0_decimal)
next
  case False
  have "unat w \<le> 2 ^ 64" using unsigned_less [of w, where ?'a = nat] by simp
  then have "(of_nat (2 ^ 64 - unat w) :: u64) = of_nat (2 ^ 64) - of_nat (unat w)" by (rule of_nat_diff)
  then have "- of_nat (2 ^ 64 - unat w) = w" by simp
  moreover have "2 ^ 64 - unat w \<le> 2 ^ 63" using False by simp
  ultimately show ?thesis
    by (simp add: mem_service_parse_i64_value_def show_i64_def parse_i64_def strtoull0_decimal)
qed

lemma parse_line_field_line:
  assumes "name \<noteq> []" "CHR ''='' \<notin> set name" "length name < 96" "length text < 512"
  shows "mem_service_parse_line_field (name @ CHR ''='' # text) 96 512 = Some (name, text)"
proof -
  have "takeWhile (\<lambda>c. c \<noteq> CHR ''='') (name @ CHR ''='' # text) = name"
    "dropWhile (\<lambda>c. c \<noteq> CHR ''='') (name @ CHR ''='' # text) = CHR ''='' # text"
    using assms(2) by (induction name) auto
  moreover have "hd (name @ CHR ''='' # text) \<noteq> CHR ''=''" using assms(1,2) by (cases name) auto
  ultimately show ?thesis using assms by (simp add: mem_service_parse_line_field_def)
qed

section \<open>Reading a frame\<close>

text \<open>A field that survives a line: its name has no equals sign, and the line fits the buffer.\<close>

definition field_ok :: "cstr \<times> cstr \<Rightarrow> bool" where
  "field_ok f \<longleftrightarrow> fst f \<noteq> [] \<and> CHR ''='' \<notin> set (fst f) \<and> newline \<notin> set (fst f) \<and>
     length (fst f) < 96 \<and> clean (snd f) \<and> length (fst f) + length (snd f) + 1 < 512"

lemma field_lines_ok:
  "list_all field_ok fs \<Longrightarrow> \<forall>l \<in> set (field_lines fs). clean l \<and> length l < 512"
  by (auto simp: field_lines_def field_ok_def list_all_iff)

lemma import_field_line:
  assumes "field_ok (name, text)"
  shows "mem_service_import_store_line svc (name @ CHR ''='' # text) state =
    (if imp_in_record state
     then Some (svc, state \<lparr> imp_record :=
            mem_service_parse_store_record_field (imp_record state) (name) (text) \<rparr>)
     else if imp_in_idempotency state
     then map_option (\<lambda>r. (svc, state \<lparr> imp_idempotency := r \<rparr>))
            (mem_service_parse_store_idempotency_field (imp_idempotency state) (name) (text))
     else if imp_in_audit state
     then Some (svc, state \<lparr> imp_audit :=
            mem_service_parse_store_audit_field (imp_audit state) (name) (text) \<rparr>)
     else Some (svc, state))"
proof -
  let ?l = "name @ CHR ''='' # text"
  have parse: "mem_service_parse_line_field ?l 96 512 = Some (name, text)"
    using assms by (intro parse_line_field_line) (auto simp: field_ok_def)
  have ne: "?l \<noteq> s" if "CHR ''='' \<notin> set s" for s
    using that by (metis in_set_conv_decomp)
  have other: "?l \<noteq> ''record_begin''" "?l \<noteq> ''record_end''" "?l \<noteq> ''idempotency_begin''"
    "?l \<noteq> ''idempotency_end''" "?l \<noteq> ''audit_begin''" "?l \<noteq> ''audit_end''" "?l \<noteq> []"
    by (rule ne, simp)+
  show ?thesis
    unfolding mem_service_import_store_line_def
    by (simp only: other parse if_False option.case prod.case map_option_case split: option.split)
qed

text \<open>
  A reader of frames is a step that hands every line inside a frame, and every line that is no
  version line, to the automaton. The snapshot and store readers check version lines first, the
  journal reader does not; both read frames alike.
\<close>

locale frame_reader =
  fixes step :: "mem_service \<times> mem_service_store_import_state \<Rightarrow> cstr \<Rightarrow>
    (mem_service \<times> mem_service_store_import_state) option"
  assumes frame_step:
    "in_frame state \<or> take (length ''store_schema_version='') line \<noteq> ''store_schema_version='' \<Longrightarrow>
     step (svc, state) line = mem_service_import_store_line svc line state"
begin

lemma run_record_fields:
  assumes "list_all field_ok fs" "imp_in_record state"
  shows "run_steps step (field_lines fs) (svc, state) =
    Some (svc, state \<lparr> imp_record :=
      foldl (\<lambda>r f. mem_service_parse_store_record_field r (fst f) (snd f)) (imp_record state) fs \<rparr>)"
  using assms
proof (induction fs arbitrary: state)
  case (Cons f fs)
  then show ?case
    by (cases f) (simp add: field_lines_def frame_step import_field_line)
qed (simp add: field_lines_def)

lemma run_audit_fields:
  assumes "list_all field_ok fs" "imp_in_audit state" "\<not> imp_in_record state" "\<not> imp_in_idempotency state"
  shows "run_steps step (field_lines fs) (svc, state) =
    Some (svc, state \<lparr> imp_audit :=
      foldl (\<lambda>r f. mem_service_parse_store_audit_field r (fst f) (snd f)) (imp_audit state) fs \<rparr>)"
  using assms
proof (induction fs arbitrary: state)
  case (Cons f fs)
  then show ?case
    by (cases f) (simp add: field_lines_def frame_step import_field_line)
qed (simp add: field_lines_def)

lemma run_idempotency_fields:
  assumes "list_all field_ok fs" "imp_in_idempotency state" "\<not> imp_in_record state"
  shows "run_steps step (field_lines fs) (svc, state) =
    map_option (\<lambda>r. (svc, state \<lparr> imp_idempotency := r \<rparr>))
      (run_steps (\<lambda>r f. mem_service_parse_store_idempotency_field r (fst f) (snd f)) fs
         (imp_idempotency state))"
  using assms
proof (induction fs arbitrary: state)
  case (Cons f fs)
  then show ?case
    by (cases f) (simp add: field_lines_def frame_step import_field_line
        split: option.split)
qed (simp add: field_lines_def)

text \<open>A whole frame, read outside any frame, is one import.\<close>

lemma run_record_frame:
  assumes "list_all field_ok fs"
  shows "run_steps step (''record_begin'' # field_lines fs @ [''record_end'']) (svc, zero_import_state) =
    map_option (\<lambda>svc'. (svc', zero_import_state))
      (mem_service_store_import_record svc
        (foldl (\<lambda>r f. mem_service_parse_store_record_field r (fst f) (snd f))
           (zero_record \<lparr> rec_in_use := True \<rparr>) fs))"
  using assms
  by (simp add: run_steps_append run_record_fields frame_step mem_service_import_store_line_def
      zero_import_state_def map_option_case split: option.split)

lemma run_idempotency_frame:
  assumes "list_all field_ok fs"
  shows "run_steps step (''idempotency_begin'' # field_lines fs @ [''idempotency_end'']) (svc, zero_import_state) =
    (case run_steps (\<lambda>r f. mem_service_parse_store_idempotency_field r (fst f) (snd f)) fs
            (zero_idempotency_record \<lparr> idem_in_use := True \<rparr>) of
       None \<Rightarrow> None
     | Some r \<Rightarrow> map_option (\<lambda>svc'. (svc', zero_import_state)) (mem_service_store_import_idempotency svc r))"
  using assms
  by (simp add: run_steps_append run_idempotency_fields frame_step mem_service_import_store_line_def
      zero_import_state_def map_option_case split: option.split)

lemma run_audit_frame:
  assumes "list_all field_ok fs"
  shows "run_steps step (''audit_begin'' # field_lines fs @ [''audit_end'']) (svc, zero_import_state) =
    map_option (\<lambda>svc'. (svc', zero_import_state))
      (mem_service_store_import_audit svc
        (foldl (\<lambda>r f. mem_service_parse_store_audit_field r (fst f) (snd f))
           (zero_audit_event \<lparr> aud_in_use := True \<rparr>) fs))"
  using assms
  by (simp add: run_steps_append run_audit_fields frame_step mem_service_import_store_line_def
      zero_import_state_def map_option_case split: option.split)

end

interpretation store_reader: frame_reader store_line_step
  by unfold_locales
     (auto simp: store_line_step_def mem_service_parse_schema_version_line_def simp del: list.size)

interpretation journal_reader: frame_reader "\<lambda>s line. mem_service_import_store_line (fst s) line (snd s)"
  by unfold_locales simp

section \<open>What a frame reads back\<close>

lemma member_index_decimal:
  assumes "i < MEM_SERVICE_MAX_GROUP_MEMBERS"
  shows "mem_service_member_index_from_name (''member'' @ decimal i) = Some i"
proof -
  have i: "i < 4" using assms by (simp add: MEM_SERVICE_MAX_GROUP_MEMBERS_def)
  then have "unat (of_nat i :: u64) = i" by (simp add: unat_of_nat)
  moreover have "drop 6 (''member'' @ decimal i) = decimal i" "take 6 (''member'' @ decimal i) = ''member''"
    by simp_all
  ultimately show ?thesis
    using i assms strtoul10_decimal [of i]
    by (simp only: mem_service_member_index_from_name_def) (simp add: Let_def)
qed

lemma member_index_other:
  "mem_service_member_index_from_name ''artifact_id'' = None"
  "mem_service_member_index_from_name ''artifact_kind'' = None"
  "mem_service_member_index_from_name ''block_hash'' = None"
  "mem_service_member_index_from_name ''group_id'' = None"
  "mem_service_member_index_from_name ''hot_segment_id'' = None"
  "mem_service_member_index_from_name ''key'' = None"
  "mem_service_member_index_from_name ''kind'' = None"
  "mem_service_member_index_from_name ''last_result_segment'' = None"
  "mem_service_member_index_from_name ''member_count'' = None"
  "mem_service_member_index_from_name ''model_key'' = None"
  "mem_service_member_index_from_name ''object_backend_block_bytes'' = None"
  "mem_service_member_index_from_name ''object_backend_block_checksum'' = None"
  "mem_service_member_index_from_name ''object_backend_block_hi'' = None"
  "mem_service_member_index_from_name ''object_backend_block_lo'' = None"
  "mem_service_member_index_from_name ''object_backend_block_offset'' = None"
  "mem_service_member_index_from_name ''object_backend_block_version'' = None"
  "mem_service_member_index_from_name ''object_backend_device_cna'' = None"
  "mem_service_member_index_from_name ''object_backend_flags'' = None"
  "mem_service_member_index_from_name ''object_backend_kind'' = None"
  "mem_service_member_index_from_name ''object_backend_node'' = None"
  "mem_service_member_index_from_name ''object_backing_len'' = None"
  "mem_service_member_index_from_name ''object_backing_offset'' = None"
  "mem_service_member_index_from_name ''object_owner_node'' = None"
  "mem_service_member_index_from_name ''object_payload_checksum'' = None"
  "mem_service_member_index_from_name ''object_payload_kind'' = None"
  "mem_service_member_index_from_name ''object_publish_monotonic_ms'' = None"
  "mem_service_member_index_from_name ''object_publish_supernode_ms'' = None"
  "mem_service_member_index_from_name ''object_publish_supernode_offset_ms'' = None"
  "mem_service_member_index_from_name ''placement_level'' = None"
  "mem_service_member_index_from_name ''placement_node'' = None"
  "mem_service_member_index_from_name ''prefix_group'' = None"
  "mem_service_member_index_from_name ''request_id'' = None"
  "mem_service_member_index_from_name ''session_id'' = None"
  "mem_service_member_index_from_name ''state'' = None"
  "mem_service_member_index_from_name ''version'' = None"
  by (simp_all add: mem_service_member_index_from_name_def strtoul10_def c_isspace_def digit_value_def)

lemma parse_record_field_simps:
  "mem_service_parse_store_record_field r ''kind'' t = r \<lparr> rec_kind := record_kind_of_code (mem_service_parse_u32_value t 0) \<rparr>"
  "mem_service_parse_store_record_field r ''state'' t = r \<lparr> rec_state := kvcache_state_of_code (mem_service_parse_u32_value t 0) \<rparr>"
  "mem_service_parse_store_record_field r ''object_publish_supernode_offset_ms'' t =
     r \<lparr> rec_object_publish_supernode_offset_ms := mem_service_parse_i64_value t 0 \<rparr>"
  "mem_service_parse_store_record_field r ''member_count'' t = r \<lparr> rec_member_count :=
     (if mem_service_parse_u32_value t 0 > of_nat MEM_SERVICE_MAX_GROUP_MEMBERS
      then of_nat MEM_SERVICE_MAX_GROUP_MEMBERS else mem_service_parse_u32_value t 0) \<rparr>"
  "mem_service_parse_store_record_field r ''placement_node'' t = r \<lparr> rec_placement_node := mem_service_parse_u32_value t 0 \<rparr>"
  "mem_service_parse_store_record_field r ''placement_level'' t = r \<lparr> rec_placement_level := mem_service_parse_u32_value t 0 \<rparr>"
  "mem_service_parse_store_record_field r ''object_owner_node'' t = r \<lparr> rec_object_owner_node := mem_service_parse_u32_value t 0 \<rparr>"
  "mem_service_parse_store_record_field r ''object_payload_kind'' t = r \<lparr> rec_object_payload_kind := mem_service_parse_u32_value t 0 \<rparr>"
  "mem_service_parse_store_record_field r ''object_backend_kind'' t = r \<lparr> rec_object_backend_kind := mem_service_parse_u32_value t 0 \<rparr>"
  "mem_service_parse_store_record_field r ''object_backend_node'' t = r \<lparr> rec_object_backend_node := mem_service_parse_u32_value t 0 \<rparr>"
  "mem_service_parse_store_record_field r ''object_backend_device_cna'' t = r \<lparr> rec_object_backend_device_cna := mem_service_parse_u32_value t 0 \<rparr>"
  "mem_service_parse_store_record_field r ''object_backend_flags'' t = r \<lparr> rec_object_backend_flags := mem_service_parse_u32_value t 0 \<rparr>"
  "mem_service_parse_store_record_field r ''hot_segment_id'' t = r \<lparr> rec_hot_segment_id := mem_service_parse_u64_value t 0 \<rparr>"
  "mem_service_parse_store_record_field r ''version'' t = r \<lparr> rec_version := mem_service_parse_u64_value t 0 \<rparr>"
  "mem_service_parse_store_record_field r ''last_result_segment'' t = r \<lparr> rec_last_result_segment := mem_service_parse_u64_value t 0 \<rparr>"
  "mem_service_parse_store_record_field r ''object_backing_offset'' t = r \<lparr> rec_object_backing_offset := mem_service_parse_u64_value t 0 \<rparr>"
  "mem_service_parse_store_record_field r ''object_backing_len'' t = r \<lparr> rec_object_backing_len := mem_service_parse_u64_value t 0 \<rparr>"
  "mem_service_parse_store_record_field r ''object_payload_checksum'' t = r \<lparr> rec_object_payload_checksum := mem_service_parse_u64_value t 0 \<rparr>"
  "mem_service_parse_store_record_field r ''object_backend_block_hi'' t = r \<lparr> rec_object_backend_block_hi := mem_service_parse_u64_value t 0 \<rparr>"
  "mem_service_parse_store_record_field r ''object_backend_block_lo'' t = r \<lparr> rec_object_backend_block_lo := mem_service_parse_u64_value t 0 \<rparr>"
  "mem_service_parse_store_record_field r ''object_backend_block_version'' t = r \<lparr> rec_object_backend_block_version := mem_service_parse_u64_value t 0 \<rparr>"
  "mem_service_parse_store_record_field r ''object_backend_block_offset'' t = r \<lparr> rec_object_backend_block_offset := mem_service_parse_u64_value t 0 \<rparr>"
  "mem_service_parse_store_record_field r ''object_backend_block_bytes'' t = r \<lparr> rec_object_backend_block_bytes := mem_service_parse_u64_value t 0 \<rparr>"
  "mem_service_parse_store_record_field r ''object_backend_block_checksum'' t = r \<lparr> rec_object_backend_block_checksum := mem_service_parse_u64_value t 0 \<rparr>"
  "mem_service_parse_store_record_field r ''object_publish_monotonic_ms'' t = r \<lparr> rec_object_publish_monotonic_ms := mem_service_parse_u64_value t 0 \<rparr>"
  "mem_service_parse_store_record_field r ''object_publish_supernode_ms'' t = r \<lparr> rec_object_publish_supernode_ms := mem_service_parse_u64_value t 0 \<rparr>"
  "mem_service_parse_store_record_field r ''key'' t = r \<lparr> rec_key := snprintf_s 96 t \<rparr>"
  "mem_service_parse_store_record_field r ''request_id'' t = r \<lparr> rec_request_id := snprintf_s 64 t \<rparr>"
  "mem_service_parse_store_record_field r ''prefix_group'' t = r \<lparr> rec_prefix_group := snprintf_s 64 t \<rparr>"
  "mem_service_parse_store_record_field r ''group_id'' t = r \<lparr> rec_group_id := snprintf_s 64 t \<rparr>"
  "mem_service_parse_store_record_field r ''block_hash'' t = r \<lparr> rec_block_hash := snprintf_s 96 t \<rparr>"
  "mem_service_parse_store_record_field r ''session_id'' t = r \<lparr> rec_session_id := snprintf_s 64 t \<rparr>"
  "mem_service_parse_store_record_field r ''model_key'' t = r \<lparr> rec_model_key := snprintf_s 64 t \<rparr>"
  "mem_service_parse_store_record_field r ''artifact_kind'' t = r \<lparr> rec_artifact_kind := snprintf_s 64 t \<rparr>"
  "mem_service_parse_store_record_field r ''artifact_id'' t = r \<lparr> rec_artifact_id := snprintf_s 96 t \<rparr>"
  by (simp_all add: mem_service_parse_store_record_field_def member_index_other Let_def)

text \<open>The record a printed frame reads back as: the printed fields, with the members beyond the
  count cleared. A snapshot prints no backend field, a store prints them when the backend is not
  the default pool.\<close>

definition kept_members :: "mem_service_record \<Rightarrow> cstr list" where
  "kept_members r = take (unat (rec_member_count r)) (rec_member_block_hashes r) @
     replicate (MEM_SERVICE_MAX_GROUP_MEMBERS - unat (rec_member_count r)) []"

definition reread_record :: "mem_service_record \<Rightarrow> mem_service_record" where
  "reread_record r = r \<lparr> rec_in_use := True, rec_member_block_hashes := kept_members r \<rparr>"

definition without_backend :: "mem_service_record \<Rightarrow> mem_service_record" where
  "without_backend r =
     r \<lparr> rec_object_backend_kind := 0, rec_object_backend_node := 0, rec_object_backend_device_cna := 0,
         rec_object_backend_flags := 0, rec_object_backend_block_hi := 0, rec_object_backend_block_lo := 0,
         rec_object_backend_block_version := 0, rec_object_backend_block_offset := 0,
         rec_object_backend_block_bytes := 0, rec_object_backend_block_checksum := 0 \<rparr>"

text \<open>Records that the line format can carry. The last two conditions hold of every value of
  the two C enumerations.\<close>

definition record_clean :: "mem_service_record \<Rightarrow> bool" where
  "record_clean r \<longleftrightarrow>
     list_all clean [rec_key r, rec_request_id r, rec_prefix_group r, rec_group_id r, rec_block_hash r,
       rec_session_id r, rec_model_key r, rec_artifact_kind r, rec_artifact_id r] \<and>
     list_all clean (rec_member_block_hashes r) \<and>
     record_kind_of_code (record_kind_code (rec_kind r)) = rec_kind r \<and>
     kvcache_state_of_code (kvcache_state_code (rec_state r)) = rec_state r"

lemma show_word_length [simp]: "length (show_word w) \<le> 20" for w :: u64
  by (simp add: show_word_def decimal_word_length)

lemma show_word_length32 [simp]: "length (show_word w) \<le> 20" for w :: u32
proof -
  have "unat w < 2 ^ 32" using unsigned_less [of w] by simp
  then have "unat w < 10 ^ 20" by simp
  then show ?thesis unfolding show_word_def by (rule decimal_length) simp
qed

lemma show_i64_length [simp]: "length (show_i64 w) \<le> 21"
proof -
  have "unat w < 2 ^ 64" using unsigned_less [of w] by simp
  then have "unat w < 10 ^ 20" "2 ^ 64 - unat w < 10 ^ 20" by simp_all
  then have "length (decimal (unat w)) \<le> 20" "length (decimal (2 ^ 64 - unat w)) \<le> 20"
    by (auto intro!: decimal_length)
  then show ?thesis by (simp add: show_i64_def)
qed

lemma field_okI:
  assumes "name \<noteq> []" "CHR ''='' \<notin> set name" "newline \<notin> set name" "length name < 96"
    and "clean v" "length v < 400"
  shows "field_ok (name, v)"
  using assms by (simp add: field_ok_def)

lemma number_field_ok:
  assumes "name \<noteq> []" "CHR ''='' \<notin> set name" "newline \<notin> set name" "length name < 96"
  shows "field_ok (name, show_word (w :: u64))" "field_ok (name, show_word (v :: u32))"
    "field_ok (name, show_i64 w)"
proof -
  have "length (show_word w) < 400" "length (show_word v) < 400" "length (show_i64 w) < 400"
    using show_word_length [of w] show_word_length32 [of v] show_i64_length [of w] by linarith+
  then show "field_ok (name, show_word w)" "field_ok (name, show_word v)" "field_ok (name, show_i64 w)"
    using field_okI [OF assms] by simp_all
qed

lemma record_fields_ok:
  assumes "record_ok r" "record_clean r"
  shows "list_all field_ok (record_fields r)"
  using assms unfolding record_fields_def record_ok_def record_clean_def
  by (simp add: number_field_ok field_okI)

lemma backend_fields_ok: "list_all field_ok (backend_fields r)"
  by (simp add: backend_fields_def number_field_ok)

lemma equals_notin_decimal [simp]: "CHR ''='' \<notin> set (decimal n)"
proof
  assume "CHR ''='' \<in> set (decimal n)"
  then obtain d where "d < 10" "digit_char d = CHR ''=''" using decimal_digits by metis
  then show False using digit_char_eq_iff [of d "CHR ''=''"] by simp
qed

lemma member_fields_ok:
  assumes "record_ok r" "record_clean r"
  shows "list_all field_ok (member_fields r)"
proof -
  have "field_ok (''member'' @ decimal i, rec_member_block_hashes r ! i)" if "i < 4" for i
  proof (rule field_okI)
    have "length (decimal i) \<le> 1" using that by (intro decimal_length) simp_all
    then show "length (''member'' @ decimal i) < 96" by simp
    have "rec_member_block_hashes r ! i \<in> set (rec_member_block_hashes r)"
      using assms(1) that by (simp add: record_ok_def MEM_SERVICE_MAX_GROUP_MEMBERS_def)
    with assms show "clean (rec_member_block_hashes r ! i)" "length (rec_member_block_hashes r ! i) < 400"
      by (force simp: record_ok_def record_clean_def list_all_iff)+
  qed simp_all
  then show ?thesis
    by (auto simp: member_fields_def list_all_iff MEM_SERVICE_MAX_GROUP_MEMBERS_def)
qed

abbreviation parse_record_fields :: "mem_service_record \<Rightarrow> (cstr \<times> cstr) list \<Rightarrow> mem_service_record" where
  "parse_record_fields \<equiv> foldl (\<lambda>r f. mem_service_parse_store_record_field r (fst f) (snd f))"

lemma parse_record_fields_head:
  assumes "record_ok r" "record_clean r"
  shows "parse_record_fields (zero_record \<lparr> rec_in_use := True \<rparr>) (record_fields r) =
    without_backend (r \<lparr> rec_in_use := True,
      rec_member_block_hashes := replicate MEM_SERVICE_MAX_GROUP_MEMBERS [] \<rparr>)"
proof -
  have "\<not> of_nat MEM_SERVICE_MAX_GROUP_MEMBERS < rec_member_count r"
    using assms(1) by (simp add: record_ok_def MEM_SERVICE_MAX_GROUP_MEMBERS_def word_less_nat_alt)
  with assms show ?thesis
    unfolding record_fields_def record_ok_def record_clean_def
    by (simp add: parse_record_field_simps without_backend_def zero_record_def)
qed

lemma parse_backend_fields:
  "parse_record_fields (without_backend r) (backend_fields r) = r"
  by (simp add: backend_fields_def parse_record_field_simps without_backend_def)

lemma parse_member_fields:
  assumes "k \<le> unat (rec_member_count r)" "k \<le> MEM_SERVICE_MAX_GROUP_MEMBERS"
    and "length hs = MEM_SERVICE_MAX_GROUP_MEMBERS" "\<forall>h \<in> set hs. length h < 96"
    and "length (rec_member_block_hashes r) = MEM_SERVICE_MAX_GROUP_MEMBERS"
  shows "parse_record_fields r (map (\<lambda>i. (''member'' @ decimal i, hs ! i)) [0..<k]) =
    r \<lparr> rec_member_block_hashes := take k hs @ drop k (rec_member_block_hashes r) \<rparr>"
  using assms
proof (induction k)
  case 0
  then show ?case by simp
next
  case (Suc k)
  then have k: "k < MEM_SERVICE_MAX_GROUP_MEMBERS" "k < length hs" "length (hs ! k) < 96" by auto
  have "\<not> rec_member_count r \<le> of_nat k"
    using Suc.prems(1) k(1) by (simp add: word_le_nat_alt unat_of_nat MEM_SERVICE_MAX_GROUP_MEMBERS_def)
  moreover have "(take k hs @ drop k (rec_member_block_hashes r))[k := hs ! k] =
      take (Suc k) hs @ drop (Suc k) (rec_member_block_hashes r)"
  proof -
    obtain y ys where "drop k (rec_member_block_hashes r) = y # ys"
      "drop (Suc k) (rec_member_block_hashes r) = ys"
      using Cons_nth_drop_Suc [of k "rec_member_block_hashes r"] k(1) Suc.prems(5) by metis
    then show ?thesis using k(2) by (simp add: list_update_append take_Suc_conv_app_nth)
  qed
  moreover have "parse_record_fields r (map (\<lambda>i. (''member'' @ decimal i, hs ! i)) [0..<k]) =
      r \<lparr> rec_member_block_hashes := take k hs @ drop k (rec_member_block_hashes r) \<rparr>"
    using Suc.IH Suc.prems by simp
  ultimately show ?case
    using k(3) by (simp add: mem_service_parse_store_record_field_def member_index_decimal [OF k(1)]
        del: append.simps)
qed

lemma parse_record_members:
  assumes "record_ok r"
  shows "parse_record_fields
      (r' \<lparr> rec_member_count := rec_member_count r,
            rec_member_block_hashes := replicate MEM_SERVICE_MAX_GROUP_MEMBERS [] \<rparr>) (member_fields r) =
    r' \<lparr> rec_member_count := rec_member_count r, rec_member_block_hashes := kept_members r \<rparr>"
proof -
  have mc: "unat (rec_member_count r) \<le> MEM_SERVICE_MAX_GROUP_MEMBERS"
    and hs: "length (rec_member_block_hashes r) = MEM_SERVICE_MAX_GROUP_MEMBERS"
      "\<forall>h \<in> set (rec_member_block_hashes r). length h < 96"
    using assms by (simp_all add: record_ok_def list_all_iff)
  then have "[0..<min (unat (rec_member_count r)) MEM_SERVICE_MAX_GROUP_MEMBERS] = [0..<unat (rec_member_count r)]"
    by simp
  then show ?thesis
    using parse_member_fields [of "unat (rec_member_count r)" "r' \<lparr> rec_member_count := rec_member_count r,
        rec_member_block_hashes := replicate MEM_SERVICE_MAX_GROUP_MEMBERS [] \<rparr>", OF _ mc hs]
    by (simp add: member_fields_def kept_members_def)
qed

lemma parse_snapshot_record:
  assumes "record_ok r" "record_clean r"
  shows "parse_record_fields (zero_record \<lparr> rec_in_use := True \<rparr>) (record_fields r @ member_fields r) =
    without_backend (reread_record r)"
proof -
  let ?r = "without_backend (r \<lparr> rec_in_use := True \<rparr>)"
  have "parse_record_fields (zero_record \<lparr> rec_in_use := True \<rparr>) (record_fields r) =
      ?r \<lparr> rec_member_count := rec_member_count r,
           rec_member_block_hashes := replicate MEM_SERVICE_MAX_GROUP_MEMBERS [] \<rparr>"
    by (simp add: parse_record_fields_head [OF assms] without_backend_def)
  moreover have "without_backend (reread_record r) =
      ?r \<lparr> rec_member_count := rec_member_count r, rec_member_block_hashes := kept_members r \<rparr>"
    by (simp add: without_backend_def reread_record_def)
  ultimately show ?thesis using parse_record_members [OF assms(1), of ?r] by (simp only: foldl_append)
qed

text \<open>The store also prints the backend fields, unless the backend is the default pool.\<close>

definition store_backend_fields :: "mem_service_record \<Rightarrow> (cstr \<times> cstr) list" where
  "store_backend_fields r =
     (if rec_object_backend_kind r \<noteq> MEM_SERVICE_OBJECT_BACKEND_OBMM_POOL then backend_fields r else [])"

definition stored_record :: "mem_service_record \<Rightarrow> mem_service_record" where
  "stored_record r =
     (if rec_object_backend_kind r \<noteq> MEM_SERVICE_OBJECT_BACKEND_OBMM_POOL then reread_record r
      else without_backend (reread_record r))"

lemma parse_stored_record:
  assumes "record_ok r" "record_clean r"
  shows "parse_record_fields (zero_record \<lparr> rec_in_use := True \<rparr>)
      (record_fields r @ store_backend_fields r @ member_fields r) = stored_record r"
proof (cases "rec_object_backend_kind r = MEM_SERVICE_OBJECT_BACKEND_OBMM_POOL")
  case True
  then show ?thesis using parse_snapshot_record [OF assms]
    by (simp add: store_backend_fields_def stored_record_def del: foldl_append)
next
  case False
  let ?r = "r \<lparr> rec_in_use := True, rec_member_block_hashes := replicate MEM_SERVICE_MAX_GROUP_MEMBERS [] \<rparr>"
  have "backend_fields r = backend_fields ?r" by (simp add: backend_fields_def)
  then have "parse_record_fields (zero_record \<lparr> rec_in_use := True \<rparr>) (record_fields r @ backend_fields r) = ?r"
    using parse_backend_fields [of ?r] by (simp add: parse_record_fields_head [OF assms])
  then have "parse_record_fields (zero_record \<lparr> rec_in_use := True \<rparr>) (record_fields r @ backend_fields r) =
      (r \<lparr> rec_in_use := True \<rparr>) \<lparr> rec_member_count := rec_member_count r,
        rec_member_block_hashes := replicate MEM_SERVICE_MAX_GROUP_MEMBERS [] \<rparr>"
    by simp
  with False parse_record_members [OF assms(1), of "r \<lparr> rec_in_use := True \<rparr>"] show ?thesis
    by (simp add: store_backend_fields_def stored_record_def reread_record_def)
qed

text \<open>Idempotency frames.\<close>

definition idem_clean :: "mem_service_idempotency_record \<Rightarrow> bool" where
  "idem_clean r \<longleftrightarrow> clean (idem_key r) \<and>
     list_all (\<lambda>l. clean l \<and> length l < 498) (response_lines (idem_response r)) \<and>
     length (text_of (response_lines (idem_response r))) < MEM_SERVICE_IDEMPOTENCY_RESPONSE_LEN"

definition reread_idempotency :: "mem_service_idempotency_record \<Rightarrow> mem_service_idempotency_record" where
  "reread_idempotency r =
     r \<lparr> idem_in_use := True, idem_response := text_of (response_lines (idem_response r)),
         idem_response_len := of_nat (length (text_of (response_lines (idem_response r)))) \<rparr>"

lemma text_of_response_lines:
  "text_of (response_lines s) = (if complete_lines s then s else s @ [newline])"
proof (induction s rule: response_lines.induct)
  case (1 s)
  show ?case
  proof (cases "s = []")
    case True
    then show ?thesis by (simp add: response_lines.simps [of "[]"] complete_lines_def)
  next
    case False
    have split: "s = line_of s @ dropWhile (\<lambda>c. c \<noteq> newline) s" by (simp add: line_of_def)
    show ?thesis
    proof (cases "after_line s")
      case None
      then have "dropWhile (\<lambda>c. c \<noteq> newline) s = []" by (auto simp: after_line_def split: list.splits)
      with split have l: "line_of s = s" by simp
      then have "newline \<notin> set s" using newline_notin_line_of by metis
      then have "\<not> complete_lines s" using False by (auto simp: complete_lines_def dest: last_in_set)
      with None False l show ?thesis by (simp add: response_lines.simps [of s] text_of_def)
    next
      case (Some t)
      then obtain c where "dropWhile (\<lambda>c. c \<noteq> newline) s = c # t"
        by (auto simp: after_line_def split: list.splits)
      moreover from this have "c = newline" using hd_dropWhile [of "\<lambda>c. c \<noteq> newline" s] by simp
      ultimately have s: "s = line_of s @ newline # t" using split by simp
      then have "complete_lines s \<longleftrightarrow> complete_lines t"
        using False by (metis complete_lines_def last_ConsR last_append last_snoc list.distinct(1))
      with 1 [OF False Some] s Some False show ?thesis
        by (simp add: response_lines.simps [of s] text_of_def)
    qed
  qed
qed

lemma idempotency_fields_ok:
  assumes "idem_ok r" "idem_clean r"
  shows "list_all field_ok (idempotency_fields r @ response_fields r)"
proof -
  have "take (unat (idem_response_len r)) (idem_response r) = idem_response r"
    using assms(1) by (simp add: idem_ok_def)
  moreover have "list_all field_ok (idempotency_fields r)"
    using assms by (simp add: idempotency_fields_def number_field_ok field_okI idem_ok_def idem_clean_def
        MEM_SERVICE_IDEMPOTENCY_KEY_LEN_def)
  ultimately show ?thesis
    using assms(2) by (auto simp: response_fields_def idem_clean_def list_all_iff field_ok_def)
qed

lemma parse_response_lines:
  assumes "unat (idem_response_len r) = length (idem_response r)"
    and "length (idem_response r) + length (text_of ls) < MEM_SERVICE_IDEMPOTENCY_RESPONSE_LEN"
  shows "run_steps (\<lambda>r f. mem_service_parse_store_idempotency_field r (fst f) (snd f))
      (map (\<lambda>l. (''response_line'', l)) ls) r =
    Some (r \<lparr> idem_response := idem_response r @ text_of ls,
              idem_response_len := of_nat (length (idem_response r @ text_of ls)) \<rparr>)"
  using assms
proof (induction ls arbitrary: r)
  case Nil
  then have "idem_response_len r = of_nat (length (idem_response r))"
    by (metis of_nat_unat ucast_id)
  then show ?case by simp
next
  case (Cons l ls)
  let ?r = "r \<lparr> idem_response := idem_response r @ l @ [newline],
               idem_response_len := of_nat (length (idem_response r) + length l + 1) \<rparr>"
  have fits: "length (idem_response r) + length l + 1 < MEM_SERVICE_IDEMPOTENCY_RESPONSE_LEN"
    using Cons.prems(2) by (simp add: text_of_def)
  then have "unat (of_nat (length (idem_response r) + length l + 1) :: u32) =
      length (idem_response r) + length l + 1"
    unfolding MEM_SERVICE_IDEMPOTENCY_RESPONSE_LEN_def by (simp only: unat_of_nat) simp
  with Cons.IH [of ?r] Cons.prems fits show ?case
    by (simp add: mem_service_parse_store_idempotency_field_def text_of_def Let_def
        mem_service_append_idempotency_response_line_def)
qed

lemma parse_idempotency_field_simps:
  "mem_service_parse_store_idempotency_field r ''key'' t = Some (r \<lparr> idem_key := snprintf_s 96 t \<rparr>)"
  "mem_service_parse_store_idempotency_field r ''operation'' t =
     Some (r \<lparr> idem_operation := mem_service_parse_u32_value t 0 \<rparr>)"
  "mem_service_parse_store_idempotency_field r ''request_checksum'' t =
     Some (r \<lparr> idem_request_checksum := mem_service_parse_u32_value t 0 \<rparr>)"
  "mem_service_parse_store_idempotency_field r ''status'' t =
     Some (r \<lparr> idem_status := mem_service_parse_u32_value t 0 \<rparr>)"
  "mem_service_parse_store_idempotency_field r ''response_len'' t = Some r"
  by (simp_all add: mem_service_parse_store_idempotency_field_def MEM_SERVICE_IDEMPOTENCY_KEY_LEN_def)

lemma parse_idempotency_frame:
  assumes "idem_ok r" "idem_clean r"
  shows "run_steps (\<lambda>r f. mem_service_parse_store_idempotency_field r (fst f) (snd f))
      (idempotency_fields r @ response_fields r) (zero_idempotency_record \<lparr> idem_in_use := True \<rparr>) =
    Some (reread_idempotency r)"
proof -
  let ?r = "r \<lparr> idem_in_use := True, idem_response := [], idem_response_len := 0 \<rparr>"
  have "take (unat (idem_response_len r)) (idem_response r) = idem_response r"
    "length (idem_key r) < 96"
    using assms(1) by (simp_all add: idem_ok_def MEM_SERVICE_IDEMPOTENCY_KEY_LEN_def)
  then show ?thesis
    using parse_response_lines [of ?r "response_lines (idem_response r)"] assms(2)
    by (cases r) (simp add: run_steps_append idempotency_fields_def response_fields_def idem_clean_def
        parse_idempotency_field_simps zero_idempotency_record_def reread_idempotency_def)
qed

text \<open>Audit frames.\<close>

definition audit_clean :: "mem_service_audit_event \<Rightarrow> bool" where
  "audit_clean e \<longleftrightarrow>
     list_all (\<lambda>s. clean s \<and> length s < 96) [aud_key e, aud_artifact_id e, aud_idempotency_key e] \<and>
     list_all (\<lambda>s. clean s \<and> length s < 64) [aud_session_id e, aud_model_key e, aud_artifact_kind e]"

lemma audit_fields_ok: "audit_clean e \<Longrightarrow> list_all field_ok (audit_fields e)"
  by (simp add: audit_fields_def audit_clean_def number_field_ok field_okI)

lemma parse_audit_frame:
  "audit_clean e \<Longrightarrow>
   foldl (\<lambda>e f. mem_service_parse_store_audit_field e (fst f) (snd f))
     (zero_audit_event \<lparr> aud_in_use := True \<rparr>) (audit_fields e) = e \<lparr> aud_in_use := True \<rparr>"
  by (simp add: audit_fields_def audit_clean_def mem_service_parse_store_audit_field_def zero_audit_event_def
      MEM_SERVICE_IDEMPOTENCY_KEY_LEN_def)

end
