(* ===== verification/Store_Load.thy ===== *)
theory Store_Load
  imports Store_Text
begin

text \<open>
  Loading a printed service. Importing a frame is a put into a bounded keyed store (records,
  idempotency records) or an append to the audit ring; loading the frames of a whole service into
  a freshly initialised one gives the tables back. The result is stated once, in the locale
  \<open>frame_reader\<close>, for every reader of frames: the lemma \<open>load_tables\<close>. The predicate
  \<open>service_clean\<close> says which services the line format can carry, \<open>reloads_as\<close> what comes back.
\<close>

section \<open>Loading tables\<close>

text \<open>
  A keyed store with room for \<open>cap\<close> keys: a put fails only for a new key in a full store.
  Loading a list of pairs with distinct keys that fits then succeeds and adds exactly the list.
\<close>

locale bounded_store = keyed_store get put inv fits
  for get :: "'s \<Rightarrow> 'k \<Rightarrow> 'r option" and put :: "'s \<Rightarrow> 'k \<Rightarrow> 'r \<Rightarrow> 's option"
    and inv :: "'s \<Rightarrow> bool" and fits :: "'k \<Rightarrow> 'r \<Rightarrow> bool" +
  fixes size :: "'s \<Rightarrow> nat" and cap :: nat and rest :: "'s \<Rightarrow> 'x"
  assumes put_fails: "inv s \<Longrightarrow> put s k r = None \<Longrightarrow> cap \<le> size s"
    and put_size: "inv s \<Longrightarrow> fits k r \<Longrightarrow> put s k r = Some s' \<Longrightarrow> size s' \<le> size s + 1"
    and put_rest: "put s k r = Some s' \<Longrightarrow> rest s' = rest s"
begin

lemma load_list:
  assumes "inv s" "\<forall>(k, r) \<in> set xs. fits k r" "distinct (map fst xs)" "size s + length xs \<le> cap"
  shows "\<exists>s'. run_steps (\<lambda>s (k, r). put s k r) xs s = Some s' \<and> inv s' \<and>
    get s' = get s ++ map_of xs \<and> rest s' = rest s"
  using assms
proof (induction xs arbitrary: s)
  case (Cons x xs)
  obtain k r where x: "x = (k, r)" by (cases x)
  have fits: "fits k r" using Cons.prems(2) x by auto
  obtain s1 where s1: "put s k r = Some s1" using put_fails [OF Cons.prems(1), of k r] Cons.prems(4) by fastforce
  note P = put_inv [OF Cons.prems(1) fits s1] put_get [OF Cons.prems(1) fits s1]
    put_size [OF Cons.prems(1) fits s1] put_rest [OF s1]
  have "size s1 + length xs \<le> cap" using P(3) Cons.prems(4) by simp
  then obtain s' where s': "run_steps (\<lambda>s (k, r). put s k r) xs s1 = Some s'" "inv s'"
    "get s' = get s1 ++ map_of xs" "rest s' = rest s1"
    using Cons.IH [OF P(1)] Cons.prems(2,3) by auto
  have "k \<notin> dom (map_of xs)" using Cons.prems(3) x by (simp add: dom_map_of_conv_image_fst)
  then have "get s1 ++ map_of xs = get s ++ map_of (x # xs)"
    by (auto simp: P(2) x map_add_def fun_eq_iff split: option.split)
  then have "get s' = get s ++ map_of (x # xs)" using s'(3) by (rule trans [rotated])
  moreover have "run_steps (\<lambda>s (k, r). put s k r) (x # xs) s = Some s'" using s'(1) s1 by (simp add: x)
  ultimately show ?case using s'(2,4) P(4) by metis
qed simp

end

interpretation record_store: bounded_store record_map put_record records_wf record_fits used_records
    MEM_SERVICE_MAX_RECORDS svc_rest
proof unfold_locales
  show "MEM_SERVICE_MAX_RECORDS \<le> used_records s" if "records_wf s" "put_record s k r = None" for s k r
    using put_record_None_iff [OF that(1)] that(2) by simp
  show "used_records s' \<le> used_records s + 1"
    if "records_wf s" "record_fits k r" "put_record s k r = Some s'" for s k r s'
    using put_record_SomeD(3) [OF that(1,3)] that(2) by (simp add: record_fits_def)
qed (rule svc_rest_put)

definition idem_fits :: "cstr \<Rightarrow> mem_service_idempotency_record \<Rightarrow> bool" where
  "idem_fits key r \<longleftrightarrow> idem_in_use r \<and> idem_key r = key \<and> idem_ok r"

lemma put_idempotency_SomeD:
  assumes wf: "idem_wf svc" and fits: "idem_fits key r" and put: "put_idempotency svc key r = Some svc'"
  shows "idem_wf svc'" "completed_map svc' = (completed_map svc)(key \<mapsto> r)"
proof -
  let ?xs = "svc_idempotency_records svc"
  have r: "idem_in_use r" "idem_key r = key" "idem_ok r" "key \<noteq> []"
    using fits by (auto simp: idem_fits_def idem_ok_def)
  have find: "mem_service_find_idempotency_record svc key = idem.lookup ?xs key"
    using r(4) by (rule find_idempotency_lookup)
  obtain i where i: "svc' = svc \<lparr> svc_idempotency_records := ?xs[i := r] \<rparr>" "i < length ?xs"
    and slot: "idem.lookup ?xs (idem_key r) = Some i \<or>
      (idem.lookup ?xs (idem_key r) = None \<and> \<not> idem_in_use (?xs ! i))"
    using put alloc_idempotency_SomeD [of svc] idem.lookup_SomeD [of ?xs key] r(2)
    by (auto simp: put_idempotency_def find split: option.splits)
  have dist: "idem.keys_distinct ?xs" using wf by (simp add: idem_wf_def)
  have "idem.keys_distinct (?xs[i := r])"
    using slot idem.keys_distinct_update_same [OF dist] idem.keys_distinct_update_fresh [OF dist] by blast
  with wf i(1) r(3) show "idem_wf svc'" by (simp add: idem_wf_def list_all_update)
  show "completed_map svc' = (completed_map svc)(key \<mapsto> r)"
    using idem.table_map_update [OF dist i(2) r(1) slot] r(2) by (simp add: completed_map_def i(1))
qed

text \<open>Everything but the idempotency table.\<close>

definition idem_rest :: "mem_service \<Rightarrow> mem_service" where
  "idem_rest svc = svc \<lparr> svc_idempotency_records := [] \<rparr>"

interpretation idem_store: bounded_store completed_map put_idempotency idem_wf idem_fits
    "\<lambda>svc. card (dom (completed_map svc))" MEM_SERVICE_MAX_IDEMPOTENCY_RECORDS idem_rest
proof unfold_locales
  show "idem_fits k r" if "idem_wf s" "completed_map s k = Some r" for s k r
    using that idem.table_map_Some_iff [of "svc_idempotency_records s" k r]
    by (auto simp: idem_fits_def idem_wf_def completed_map_def list_all_iff)
  show present: "put_idempotency s k r \<noteq> None" if "idem_wf s" "completed_map s k = Some r'" for s k r r'
  proof -
    have "idem.lookup (svc_idempotency_records s) k \<noteq> None"
      using that(2) by (auto simp: completed_map_def idem.table_map_def)
    moreover have "k \<noteq> []"
      using that idem.table_map_Some_iff [of "svc_idempotency_records s" k r']
      by (auto simp: idem_wf_def completed_map_def list_all_iff idem_ok_def)
    ultimately show ?thesis by (auto simp: put_idempotency_def find_idempotency_lookup)
  qed
  show "MEM_SERVICE_MAX_IDEMPOTENCY_RECORDS \<le> card (dom (completed_map s))"
    if "idem_wf s" "put_idempotency s k r = None" for s k r
    using alloc_idempotency_None_iff [OF that(1)] that(2)
    by (auto simp: put_idempotency_def split: option.splits)
  show "card (dom (completed_map s')) \<le> card (dom (completed_map s)) + 1"
    if "idem_wf s" "idem_fits k r" "put_idempotency s k r = Some s'" for s k r s'
    using card_insert_le [of "dom (completed_map s)" k]
    by (cases "finite (dom (completed_map s))")
       (simp_all add: put_idempotency_SomeD(2) [OF that] card_insert_if)
qed (auto simp: put_idempotency_SomeD idem_rest_def put_idempotency_def split: option.splits)

text \<open>The occupied slots of a table, in order, as pairs to load.\<close>

context slot_table
begin

lemma keys_distinctD:
  "\<lbrakk> keys_distinct xs; i < length xs; j < length xs; used (xs ! i); used (xs ! j);
     key_of (xs ! i) = key_of (xs ! j) \<rbrakk> \<Longrightarrow> i = j"
  unfolding keys_distinct_def by blast

lemma keys_distinct_tl: "keys_distinct (x # xs) \<Longrightarrow> keys_distinct xs"
  using keys_distinctD [of "x # xs" "Suc _" "Suc _"] unfolding keys_distinct_def [of xs] by auto

lemma keys_distinct_hd:
  assumes "keys_distinct (x # xs)" "used x" "y \<in> set xs" "used y"
  shows "key_of y \<noteq> key_of x"
proof
  assume "key_of y = key_of x"
  moreover obtain j where "j < length xs" "y = xs ! j" using assms(3) by (auto simp: in_set_conv_nth)
  ultimately show False using keys_distinctD [OF assms(1), of 0 "Suc j"] assms(2,4) by simp
qed

lemma distinct_used_keys: "keys_distinct xs \<Longrightarrow> distinct (map key_of (filter used xs))"
proof (induction xs)
  case (Cons x xs)
  then show ?case using keys_distinct_tl [of x xs] keys_distinct_hd [of x xs] by force
qed simp

lemma map_of_used:
  assumes "keys_distinct xs"
  shows "map_of (map (\<lambda>r. (key_of r, f r)) (filter used xs)) k = map_option f (table_map xs k)"
proof -
  have "map_of (map (\<lambda>r. (key_of r, f r)) (filter used xs)) k = Some v \<longleftrightarrow>
      (\<exists>r. table_map xs k = Some r \<and> v = f r)" for v
    using distinct_used_keys [OF assms] table_map_Some_iff [OF assms, of k]
    by (subst map_of_eq_Some_iff) (auto simp: comp_def)
  then show ?thesis by (intro option_eqI) (auto simp: map_option_case split: option.splits)
qed

end

text \<open>Loading audit events with consecutive numbers into an empty ring.\<close>

lemma import_audit_step:
  assumes ring: "audit.ring_wf (svc_audit_events svc) (unat (aud_sequence e)) (unat (svc_audit_event_count svc))"
    and room: "unat (svc_audit_event_count svc) < MEM_SERVICE_MAX_AUDIT_EVENTS"
    and seq: "svc_audit_next_sequence svc \<le> aud_sequence e" "aud_sequence e < m"
    and op: "aud_operation e \<noteq> 0" and used: "aud_in_use e"
  shows "mem_service_store_import_audit svc e = Some (svc
    \<lparr> svc_audit_events := (svc_audit_events svc)[audit.slot (unat (aud_sequence e)) := e],
      svc_audit_next_sequence := aud_sequence e + 1,
      svc_audit_event_count := svc_audit_event_count svc + 1 \<rparr>)"
proof -
  let ?n = "unat (aud_sequence e)" and ?es = "svc_audit_events svc"
  have nz: "aud_sequence e \<noteq> 0" using audit.ring_wfD(3) [OF ring] by auto
  have "\<not> (aud_in_use (?es ! audit.slot ?n) \<and> aud_sequence (?es ! audit.slot ?n) = aud_sequence e)"
    using audit.ring_wfD(4) [OF ring, of "audit.slot ?n"] audit.ring_wfD(5) [OF ring] by force
  moreover have "svc_audit_event_count svc < of_nat MEM_SERVICE_MAX_AUDIT_EVENTS"
    using room by (simp add: word_less_nat_alt)
  moreover have "e \<lparr> aud_in_use := True \<rparr> = e" using used by simp
  ultimately show ?thesis
    using nz op seq(1) by (simp add: mem_service_store_import_audit_def Let_def audit_slot [OF nz])
qed

lemma import_audit_list:
  assumes "audit.ring_wf (svc_audit_events svc) (unat first) (unat (svc_audit_event_count svc))"
    and "unat (svc_audit_event_count svc) + length es \<le> MEM_SERVICE_MAX_AUDIT_EVENTS"
    and "svc_audit_next_sequence svc \<le> first" "unat first + length es < 2 ^ 64"
    and "\<forall>i < length es. unat (aud_sequence (es ! i)) = unat first + i"
    and "\<forall>e \<in> set es. aud_in_use e \<and> aud_operation e \<noteq> 0"
  shows "\<exists>svc'. run_steps mem_service_store_import_audit es svc = Some svc' \<and>
    audit.ring_wf (svc_audit_events svc') (unat first + length es)
      (unat (svc_audit_event_count svc) + length es) \<and>
    audit.window (svc_audit_events svc') (unat first + length es) (unat (svc_audit_event_count svc) + length es) =
      audit.window (svc_audit_events svc) (unat first) (unat (svc_audit_event_count svc)) @ es \<and>
    unat (svc_audit_event_count svc') = unat (svc_audit_event_count svc) + length es \<and>
    (es \<noteq> [] \<longrightarrow> unat (svc_audit_next_sequence svc') = unat first + length es) \<and>
    (es = [] \<longrightarrow> svc' = svc) \<and>
    svc_records svc' = svc_records svc \<and> svc_record_count svc' = svc_record_count svc \<and>
    svc_idempotency_records svc' = svc_idempotency_records svc"
  using assms
proof (induction es arbitrary: svc first)
  case Nil
  then show ?case by simp
next
  case (Cons e es)
  let ?c = "svc_audit_event_count svc"
  have e: "unat (aud_sequence e) = unat first" "aud_in_use e" "aud_operation e \<noteq> 0"
    using Cons.prems(5,6) by auto
  then have seq: "aud_sequence e = first" by (simp add: word_unat_eq_iff)
  have room: "unat ?c < MEM_SERVICE_MAX_AUDIT_EVENTS" using Cons.prems(2) by simp
  have lt: "first < - 1"
    using Cons.prems(4) by (simp add: word_less_nat_alt unsigned_minus_1_eq_mask mask_eq_exp_minus_1)
  define svc1 where "svc1 = svc \<lparr> svc_audit_events := (svc_audit_events svc)[audit.slot (unat first) := e],
      svc_audit_next_sequence := first + 1, svc_audit_event_count := ?c + 1 \<rparr>"
  have step: "mem_service_store_import_audit svc e = Some svc1"
    using import_audit_step [of svc e "- 1"] Cons.prems(1,3) room e lt by (simp add: seq svc1_def)
  have f1: "unat (first + 1) = unat first + 1" using lt by (rule unat_Suc_below)
  have c1: "unat (?c + 1) = unat ?c + 1"
    using unat_Suc_below [of ?c "of_nat MEM_SERVICE_MAX_AUDIT_EVENTS"] room by (simp add: word_less_nat_alt)
  have min1: "min MEM_SERVICE_MAX_AUDIT_EVENTS (unat ?c + 1) = unat ?c + 1" using room by simp
  note ap = audit.ring_append [OF Cons.prems(1) e(2) e(1), unfolded min1]
  obtain svc' where svc': "run_steps mem_service_store_import_audit es svc1 = Some svc'"
    "audit.ring_wf (svc_audit_events svc') (unat first + 1 + length es) (unat ?c + 1 + length es)"
    "audit.window (svc_audit_events svc') (unat first + 1 + length es) (unat ?c + 1 + length es) =
      audit.window (svc_audit_events svc1) (unat first + 1) (unat ?c + 1) @ es"
    "unat (svc_audit_event_count svc') = unat ?c + 1 + length es"
    "es \<noteq> [] \<longrightarrow> unat (svc_audit_next_sequence svc') = unat first + 1 + length es"
    "es = [] \<longrightarrow> svc' = svc1"
    "svc_records svc' = svc_records svc" "svc_record_count svc' = svc_record_count svc"
    "svc_idempotency_records svc' = svc_idempotency_records svc"
  proof -
    have "\<forall>i < length es. unat (aud_sequence (es ! i)) = unat (first + 1) + i"
      using Cons.prems(5) f1 by (auto dest: spec [of _ "Suc _"])
    then show ?thesis
      using Cons.IH [of svc1 "first + 1"] Cons.prems(2,4,6) ap(1) that
      by (auto simp: svc1_def f1 c1)
  qed
  have "audit.window (svc_audit_events svc1) (unat first + 1) (unat ?c + 1) =
      audit.window (svc_audit_events svc) (unat first) (unat ?c) @ [e]"
    using ap(2) room by (simp add: svc1_def)
  moreover have "unat (svc_audit_next_sequence svc') = unat first + 1 + length es"
    using svc'(5,6) f1 by (cases "es = []") (auto simp: svc1_def)
  ultimately show ?case using svc' step by auto
qed

section \<open>Loading a printed service\<close>

definition snapshot_record_lines :: "mem_service_record \<Rightarrow> cstr list" where
  "snapshot_record_lines r =
     ''record_begin'' # field_lines (record_fields r @ member_fields r) @ [''record_end'']"

definition store_record_lines :: "mem_service_record \<Rightarrow> cstr list" where
  "store_record_lines r =
     ''record_begin'' # field_lines (record_fields r @ store_backend_fields r @ member_fields r) @ [''record_end'']"

definition idempotency_lines :: "mem_service_idempotency_record \<Rightarrow> cstr list" where
  "idempotency_lines r =
     ''idempotency_begin'' # field_lines (idempotency_fields r @ response_fields r) @ [''idempotency_end'']"

definition audit_lines :: "mem_service_audit_event \<Rightarrow> cstr list" where
  "audit_lines e = ''audit_begin'' # field_lines (audit_fields e) @ [''audit_end'']"

text \<open>A service whose tables the line format can carry.\<close>

definition service_clean :: "mem_service \<Rightarrow> bool" where
  "service_clean svc \<longleftrightarrow>
     list_all (\<lambda>r. rec_in_use r \<longrightarrow> record_clean r \<and> rec_key r \<noteq> [] \<and> record_kind_code (rec_kind r) \<noteq> 0)
       (svc_records svc) \<and>
     list_all (\<lambda>r. idem_in_use r \<longrightarrow> idem_clean r \<and> idem_operation r \<noteq> 0) (svc_idempotency_records svc) \<and>
     list_all (\<lambda>e. aud_in_use e \<longrightarrow> audit_clean e \<and> aud_operation e \<noteq> 0) (svc_audit_events svc)"

text \<open>The lines of the tables, and the service they load as, for a way \<open>rl\<close> of printing records
  and the record \<open>f r\<close> each one reads back as.\<close>

definition table_lines :: "(mem_service_record \<Rightarrow> cstr list) \<Rightarrow> mem_service \<Rightarrow> cstr list" where
  "table_lines rl svc =
     concat (map rl (filter rec_in_use (svc_records svc))) @
     concat (map idempotency_lines (filter idem_in_use (svc_idempotency_records svc))) @
     concat (map audit_lines (audit_window svc))"

definition reloads_as :: "(mem_service_record \<Rightarrow> mem_service_record) \<Rightarrow> mem_service \<Rightarrow> mem_service \<Rightarrow> bool" where
  "reloads_as f svc svc' \<longleftrightarrow>
     records_wf svc' \<and> record_map svc' = (\<lambda>k. map_option f (record_map svc k)) \<and>
     idem_wf svc' \<and> completed_map svc' = (\<lambda>k. map_option reread_idempotency (completed_map svc k)) \<and>
     audit_wf svc' \<and> audit_window svc' = audit_window svc \<and>
     (audit_window svc \<noteq> [] \<longrightarrow> svc_audit_next_sequence svc' = svc_audit_next_sequence svc)"

lemma run_steps_concat:
  assumes "\<And>x s. x \<in> set xs \<Longrightarrow> run_steps step (g x) (s, z) = map_option (\<lambda>s'. (s', z)) (h s x)"
  shows "run_steps step (concat (map g xs)) (s, z) = map_option (\<lambda>s'. (s', z)) (run_steps h xs s)"
  using assms
  by (induction xs arbitrary: s) (simp_all add: run_steps_append map_option_case split: option.split)

lemma run_steps_map: "run_steps h (map g xs) s = run_steps (\<lambda>s x. h s (g x)) xs s"
  by (induction xs arbitrary: s) (auto split: option.split)

lemma run_steps_cong:
  assumes "\<And>x s. x \<in> set xs \<Longrightarrow> h s x = h' s x"
  shows "run_steps h xs s = run_steps h' xs s"
  using assms by (induction xs arbitrary: s) (auto split: option.split)

lemma rec_in_use_set: "rec_in_use r \<Longrightarrow> r \<lparr> rec_in_use := True \<rparr> = r"
  by (cases r) simp

lemma import_record_list:
  assumes wf: "records_wf svc" and clean: "service_clean svc"
    and f: "\<And>r. record_ok r \<Longrightarrow> rec_in_use r \<Longrightarrow> record_fits (rec_key r) (f r) \<and> rec_kind (f r) = rec_kind r"
  shows "\<exists>svc'. run_steps (\<lambda>s r. mem_service_store_import_record s (f r))
      (filter rec_in_use (svc_records svc)) initial_service = Some svc' \<and>
    records_wf svc' \<and> record_map svc' = (\<lambda>k. map_option f (record_map svc k)) \<and>
    svc_rest svc' = svc_rest initial_service"
proof -
  let ?rs = "filter rec_in_use (svc_records svc)"
  have dist: "recs.keys_distinct (svc_records svc)" using wf by (simp add: records_wf_def)
  have r: "record_fits (rec_key r) (f r)" "rec_kind (f r) = rec_kind r" "rec_key r \<noteq> []"
    "record_kind_code (rec_kind r) \<noteq> 0" if "r \<in> set ?rs" for r
    using that f [of r] wf clean by (auto simp: records_wf_def service_clean_def list_all_iff)
  have import: "mem_service_store_import_record s (f r) =
      (case (rec_key r, f r) of (k, r) \<Rightarrow> put_record s k r)" if "r \<in> set ?rs" for r s
    using r [OF that] by (simp add: mem_service_store_import_record_def record_fits_def) (metis rec_in_use_set)
  have "length ?rs \<le> MEM_SERVICE_MAX_RECORDS"
    using wf length_filter_le [of rec_in_use "svc_records svc"] by (simp add: records_wf_def)
  then obtain svc' where "run_steps (\<lambda>s (k, r). put_record s k r) (map (\<lambda>r. (rec_key r, f r)) ?rs)
      initial_service = Some svc'" "records_wf svc'"
    "record_map svc' = record_map initial_service ++ map_of (map (\<lambda>r. (rec_key r, f r)) ?rs)"
    "svc_rest svc' = svc_rest initial_service"
    using record_store.load_list [OF records_wf_initial, of "map (\<lambda>r. (rec_key r, f r)) ?rs"]
      r(1) recs.distinct_used_keys [OF dist]
    by (auto simp: comp_def used_records_initial)
  moreover have "map_of (map (\<lambda>r. (rec_key r, f r)) ?rs) = (\<lambda>k. map_option f (record_map svc k))"
    using recs.map_of_used [OF dist, of f] by (simp add: fun_eq_iff record_map_table_map [OF wf])
  moreover have "run_steps (\<lambda>s r. mem_service_store_import_record s (f r)) ?rs initial_service =
      run_steps (\<lambda>s (k, r). put_record s k r) (map (\<lambda>r. (rec_key r, f r)) ?rs) initial_service"
    unfolding run_steps_map by (rule run_steps_cong) (rule import)
  ultimately show ?thesis by (simp add: record_map_initial)
qed

lemma reread_idempotency_fits:
  assumes "idem_ok r" "idem_in_use r" "idem_clean r"
  shows "idem_fits (idem_key r) (reread_idempotency r)"
    "unat (idem_response_len (reread_idempotency r)) = length (idem_response (reread_idempotency r))"
    "length (idem_response (reread_idempotency r)) < MEM_SERVICE_IDEMPOTENCY_RESPONSE_LEN"
proof -
  have "length (text_of (response_lines (idem_response r))) < 4096"
    using assms(3) by (simp add: idem_clean_def MEM_SERVICE_IDEMPOTENCY_RESPONSE_LEN_def)
  then have "unat (of_nat (length (text_of (response_lines (idem_response r)))) :: u32) =
      length (text_of (response_lines (idem_response r)))"
    by (simp add: unat_of_nat)
  with assms show "idem_fits (idem_key r) (reread_idempotency r)"
    "unat (idem_response_len (reread_idempotency r)) = length (idem_response (reread_idempotency r))"
    "length (idem_response (reread_idempotency r)) < MEM_SERVICE_IDEMPOTENCY_RESPONSE_LEN"
    by (simp_all add: idem_fits_def reread_idempotency_def idem_ok_def idem_clean_def)
qed

lemma import_idempotency_put:
  assumes "idem_in_use r" "idem_ok r" "idem_operation r \<noteq> 0"
  shows "mem_service_store_import_idempotency svc r = put_idempotency svc (idem_key r) r"
proof -
  have len: "unat (idem_response_len r) = length (idem_response r)" "idem_key r \<noteq> []"
    "length (idem_response r) < MEM_SERVICE_IDEMPOTENCY_RESPONSE_LEN"
    using assms by (simp_all add: idem_ok_def)
  then have "min (unat (idem_response_len r)) (MEM_SERVICE_IDEMPOTENCY_RESPONSE_LEN - 1) = length (idem_response r)"
    by simp
  moreover have "idem_response_len r = of_nat (length (idem_response r))"
    using len(1) by (metis of_nat_unat ucast_id)
  then have "r \<lparr> idem_in_use := True, idem_response_len := of_nat (length (idem_response r)),
      idem_response := take (length (idem_response r)) (idem_response r) \<rparr> = r"
    using assms(1) by (cases r) simp
  ultimately show ?thesis
    using len(2) assms(3) by (simp only: mem_service_store_import_idempotency_def) (simp add: Let_def)
qed

lemma import_idempotency_list:
  assumes wf: "idem_wf svc" and clean: "service_clean svc" and s0: "idem_wf s0" "completed_map s0 = Map.empty"
  shows "\<exists>svc'. run_steps (\<lambda>s r. mem_service_store_import_idempotency s (reread_idempotency r))
      (filter idem_in_use (svc_idempotency_records svc)) s0 = Some svc' \<and>
    idem_wf svc' \<and> completed_map svc' = (\<lambda>k. map_option reread_idempotency (completed_map svc k)) \<and>
    idem_rest svc' = idem_rest s0"
proof -
  let ?rs = "filter idem_in_use (svc_idempotency_records svc)" and ?f = reread_idempotency
  have dist: "idem.keys_distinct (svc_idempotency_records svc)" using wf by (simp add: idem_wf_def)
  have r: "idem_ok r" "idem_in_use r" "idem_clean r" "idem_operation r \<noteq> 0" if "r \<in> set ?rs" for r
    using that wf clean by (auto simp: idem_wf_def service_clean_def list_all_iff)
  have import: "mem_service_store_import_idempotency s (?f r) =
      (case (idem_key r, ?f r) of (k, r) \<Rightarrow> put_idempotency s k r)" if "r \<in> set ?rs" for r s
    using import_idempotency_put [of "?f r" s] reread_idempotency_fits [OF r(1-3) [OF that]] r(4) [OF that]
    by (simp add: idem_fits_def reread_idempotency_def)
  have "length ?rs \<le> MEM_SERVICE_MAX_IDEMPOTENCY_RECORDS"
    using wf length_filter_le [of idem_in_use "svc_idempotency_records svc"] by (simp add: idem_wf_def)
  then obtain svc' where "run_steps (\<lambda>s (k, r). put_idempotency s k r) (map (\<lambda>r. (idem_key r, ?f r)) ?rs)
      s0 = Some svc'" "idem_wf svc'"
    "completed_map svc' = completed_map s0 ++ map_of (map (\<lambda>r. (idem_key r, ?f r)) ?rs)"
    "idem_rest svc' = idem_rest s0"
    using idem_store.load_list [OF s0(1), of "map (\<lambda>r. (idem_key r, ?f r)) ?rs"]
      reread_idempotency_fits(1) [OF r(1-3)] idem.distinct_used_keys [OF dist] s0(2)
    by (auto simp: comp_def)
  moreover have "map_of (map (\<lambda>r. (idem_key r, ?f r)) ?rs) =
      (\<lambda>k. map_option reread_idempotency (completed_map svc k))"
    using idem.map_of_used [OF dist, of ?f] by (simp add: fun_eq_iff completed_map_def)
  moreover have "run_steps (\<lambda>s r. mem_service_store_import_idempotency s (?f r)) ?rs s0 =
      run_steps (\<lambda>s (k, r). put_idempotency s k r) (map (\<lambda>r. (idem_key r, ?f r)) ?rs) s0"
    unfolding run_steps_map by (rule run_steps_cong) (rule import)
  ultimately show ?thesis by (simp add: s0(2))
qed

lemma audit_window_events:
  assumes wf: "audit_wf svc" and i: "i < length (audit_window svc)"
  shows "unat (aud_sequence (audit_window svc ! i)) =
      unat (svc_audit_next_sequence svc) - unat (svc_audit_event_count svc) + i"
    "aud_in_use (audit_window svc ! i)" "audit_window svc ! i \<in> set (svc_audit_events svc)"
proof -
  let ?n = "unat (svc_audit_next_sequence svc)" and ?c = "unat (svc_audit_event_count svc)"
  note ring = wf [unfolded audit_wf_def]
  have c: "?c < ?n" "i < ?c"
    using audit.ring_wfD(3) [OF ring] i length_audit_window [OF wf] by simp_all
  then have e: "audit_window svc ! i = svc_audit_events svc ! audit.slot (?n - ?c + i)"
    by (simp add: audit_window_def audit.window_def)
  have "?n - ?c \<le> ?n - ?c + i" "?n - ?c + i < ?n" using c by simp_all
  with e show "unat (aud_sequence (audit_window svc ! i)) = ?n - ?c + i" "aud_in_use (audit_window svc ! i)"
    using audit.ring_wfD(5,6) [OF ring, of "?n - ?c + i"] by simp_all
  show "audit_window svc ! i \<in> set (svc_audit_events svc)"
    using e audit.ring_wfD(1) [OF ring] by simp
qed

lemma import_audit_window:
  assumes wf: "audit_wf svc" and clean: "service_clean svc"
    and s0: "svc_audit_events s0 = svc_audit_events initial_service"
      "svc_audit_next_sequence s0 = 1" "svc_audit_event_count s0 = 0"
  shows "\<exists>svc'. run_steps mem_service_store_import_audit (audit_window svc) s0 = Some svc' \<and>
    audit_wf svc' \<and> audit_window svc' = audit_window svc \<and>
    (audit_window svc \<noteq> [] \<longrightarrow> svc_audit_next_sequence svc' = svc_audit_next_sequence svc) \<and>
    svc_records svc' = svc_records s0 \<and> svc_record_count svc' = svc_record_count s0 \<and>
    svc_idempotency_records svc' = svc_idempotency_records s0"
proof (cases "audit_window svc = []")
  case True
  moreover have "audit_wf s0" "audit_window s0 = []"
    using audit_wf_initial by (simp_all add: audit_wf_def audit_window_def s0)
  ultimately show ?thesis by simp
next
  case False
  let ?n = "svc_audit_next_sequence svc" and ?c = "svc_audit_event_count svc" and ?w = "audit_window svc"
  let ?first = "?n - ?c"
  note ring = wf [unfolded audit_wf_def] and len = length_audit_window [OF wf]
  have c: "unat ?c \<le> MEM_SERVICE_MAX_AUDIT_EVENTS" "unat ?c < unat ?n"
    using audit.ring_wfD(2,3) [OF ring] by blast+
  then have first: "unat ?first = unat ?n - unat ?c" by (simp add: unat_sub word_le_nat_alt)
  have n: "unat ?first + length ?w = unat ?n" using c len first by simp
  have dead: "audit.ring_wf (svc_audit_events s0) (unat ?first) 0"
    using first c by (auto simp: audit.ring_wf_def s0(1))
  have ops: "\<forall>e \<in> set ?w. aud_in_use e \<and> aud_operation e \<noteq> 0"
    using audit_window_events(2,3) [OF wf] clean
    by (auto simp: in_set_conv_nth [of _ ?w] service_clean_def list_all_iff)
  have lim: "unat ?n < 2 ^ 64" using unsigned_less [of ?n, where ?'a = nat] by simp
  have "1 \<le> ?first" using first c by (simp add: word_le_nat_alt)
  then obtain svc' where "run_steps mem_service_store_import_audit ?w s0 = Some svc'"
    and svc': "audit.ring_wf (svc_audit_events svc') (unat ?n) (length ?w)"
      "audit.window (svc_audit_events svc') (unat ?n) (length ?w) =
        audit.window (svc_audit_events s0) (unat ?first) 0 @ ?w"
      "unat (svc_audit_event_count svc') = length ?w" "unat (svc_audit_next_sequence svc') = unat ?n"
      "svc_records svc' = svc_records s0" "svc_record_count svc' = svc_record_count s0"
      "svc_idempotency_records svc' = svc_idempotency_records s0"
    using import_audit_list [of s0 ?first ?w] dead c len n lim ops s0 False
      audit_window_events(1) [OF wf] first by auto
  moreover from svc' have "audit_wf svc'" "audit_window svc' = ?w"
    by (simp_all add: audit_wf_def audit_window_def audit.window_def [of _ _ 0])
  ultimately show ?thesis by (auto simp: word_unat_eq_iff)
qed

lemma records_wf_cong:
  assumes "svc_records svc' = svc_records svc" "svc_record_count svc' = svc_record_count svc"
  shows "records_wf svc' = records_wf svc" "record_map svc' = record_map svc"
  using assms by (auto simp: records_wf_def used_records_def mem_service_get_record_def
      mem_service_find_record_def fun_eq_iff)

lemma idem_wf_cong:
  assumes "svc_idempotency_records svc' = svc_idempotency_records svc"
  shows "idem_wf svc' = idem_wf svc" "completed_map svc' = completed_map svc"
  using assms by (simp_all add: idem_wf_def completed_map_def)

context frame_reader
begin

lemma run_idempotency_table:
  assumes "idem_wf svc" "service_clean svc"
  shows "run_steps step (concat (map idempotency_lines (filter idem_in_use (svc_idempotency_records svc))))
      (s, zero_import_state) =
    map_option (\<lambda>s'. (s', zero_import_state))
      (run_steps (\<lambda>s r. mem_service_store_import_idempotency s (reread_idempotency r))
         (filter idem_in_use (svc_idempotency_records svc)) s)"
proof (rule run_steps_concat)
  fix r s
  assume "r \<in> set (filter idem_in_use (svc_idempotency_records svc))"
  with assms have r: "idem_ok r" "idem_clean r"
    by (auto simp: idem_wf_def service_clean_def list_all_iff)
  show "run_steps step (idempotency_lines r) (s, zero_import_state) =
      map_option (\<lambda>s'. (s', zero_import_state)) (mem_service_store_import_idempotency s (reread_idempotency r))"
    unfolding idempotency_lines_def run_idempotency_frame [OF idempotency_fields_ok [OF r]]
      parse_idempotency_frame [OF r] by simp
qed

lemma run_audit_table:
  assumes "audit_wf svc" "service_clean svc"
  shows "run_steps step (concat (map audit_lines (audit_window svc))) (s, zero_import_state) =
    map_option (\<lambda>s'. (s', zero_import_state)) (run_steps mem_service_store_import_audit (audit_window svc) s)"
proof (rule run_steps_concat)
  fix e s
  assume "e \<in> set (audit_window svc)"
  then have e: "audit_clean e" "e \<lparr> aud_in_use := True \<rparr> = e"
    using audit_window_events(2,3) [OF assms(1)] assms(2)
    by (auto simp: in_set_conv_nth [of _ "audit_window svc"] service_clean_def list_all_iff)
  show "run_steps step (audit_lines e) (s, zero_import_state) =
      map_option (\<lambda>s'. (s', zero_import_state)) (mem_service_store_import_audit s e)"
    unfolding audit_lines_def run_audit_frame [OF audit_fields_ok [OF e(1)]] parse_audit_frame [OF e(1)]
    by (simp add: e(2))
qed

text \<open>The load of a whole service: the tables come back, each record as \<open>f\<close> reads it back.\<close>

lemma load_tables:
  assumes wf: "records_wf svc" "idem_wf svc" "audit_wf svc" and clean: "service_clean svc"
    and frame: "\<And>r s. record_ok r \<Longrightarrow> rec_in_use r \<Longrightarrow> record_clean r \<Longrightarrow>
      run_steps step (rl r) (s, zero_import_state) =
        map_option (\<lambda>s'. (s', zero_import_state)) (mem_service_store_import_record s (f r))"
    and f: "\<And>r. record_ok r \<Longrightarrow> rec_in_use r \<Longrightarrow> record_fits (rec_key r) (f r) \<and> rec_kind (f r) = rec_kind r"
  shows "\<exists>svc'. run_steps step (table_lines rl svc) (initial_service, zero_import_state) =
      Some (svc', zero_import_state) \<and> reloads_as f svc svc'"
proof -
  obtain s1 where s1: "run_steps (\<lambda>s r. mem_service_store_import_record s (f r))
      (filter rec_in_use (svc_records svc)) initial_service = Some s1"
    "records_wf s1" "record_map s1 = (\<lambda>k. map_option f (record_map svc k))"
    "svc_rest s1 = svc_rest initial_service"
    using import_record_list [OF wf(1) clean f] by blast
  note rest1 = svc_rest_eqD [OF s1(4)]
  obtain s2 where s2: "run_steps (\<lambda>s r. mem_service_store_import_idempotency s (reread_idempotency r))
      (filter idem_in_use (svc_idempotency_records svc)) s1 = Some s2" "idem_wf s2"
    "completed_map s2 = (\<lambda>k. map_option reread_idempotency (completed_map svc k))" "idem_rest s2 = idem_rest s1"
    using import_idempotency_list [OF wf(2) clean, of s1] idem_wf_initial idem_wf_cong [OF rest1(2)] by auto
  have rest2: "svc_records s2 = svc_records s1" "svc_record_count s2 = svc_record_count s1"
    "svc_audit_events s2 = svc_audit_events s1" "svc_audit_next_sequence s2 = svc_audit_next_sequence s1"
    "svc_audit_event_count s2 = svc_audit_event_count s1"
    using s2(4) by (cases s1, cases s2, simp add: idem_rest_def)+
  obtain s3 where s3: "run_steps mem_service_store_import_audit (audit_window svc) s2 = Some s3"
    "audit_wf s3" "audit_window s3 = audit_window svc"
    "audit_window svc \<noteq> [] \<longrightarrow> svc_audit_next_sequence s3 = svc_audit_next_sequence svc"
    "svc_records s3 = svc_records s2" "svc_record_count s3 = svc_record_count s2"
    "svc_idempotency_records s3 = svc_idempotency_records s2"
    using import_audit_window [OF wf(3) clean, of s2] rest1 rest2 by auto
  have "reloads_as f svc s3"
    using s1 s2 s3 rest2 records_wf_cong [of s3 s1] idem_wf_cong [OF s3(7)]
    by (simp add: reloads_as_def)
  moreover have "run_steps step (concat (map rl (filter rec_in_use (svc_records svc))))
      (initial_service, zero_import_state) = Some (s1, zero_import_state)"
    using run_steps_concat [of "filter rec_in_use (svc_records svc)" step rl zero_import_state
        "\<lambda>s r. mem_service_store_import_record s (f r)"] frame wf(1) clean s1(1)
    by (auto simp: records_wf_def service_clean_def list_all_iff)
  moreover have "run_steps step (concat (map idempotency_lines (filter idem_in_use (svc_idempotency_records svc))))
      (s1, zero_import_state) = Some (s2, zero_import_state)"
    using s2(1) by (simp add: run_idempotency_table [OF wf(2) clean])
  moreover have "run_steps step (concat (map audit_lines (audit_window svc))) (s2, zero_import_state) =
      Some (s3, zero_import_state)"
    using s3(1) by (simp add: run_audit_table [OF wf(3) clean])
  ultimately show ?thesis by (auto simp: table_lines_def run_steps_append)
qed

end

lemma snapshot_record_frame:
  assumes "record_ok r" "record_clean r"
  shows "run_steps store_line_step (snapshot_record_lines r) (svc, zero_import_state) =
    map_option (\<lambda>s. (s, zero_import_state))
      (mem_service_store_import_record svc (without_backend (reread_record r)))"
  using store_reader.run_record_frame [of "record_fields r @ member_fields r" svc]
    record_fields_ok [OF assms] member_fields_ok [OF assms] parse_snapshot_record [OF assms]
  by (simp add: snapshot_record_lines_def del: foldl_append)

lemma store_record_frame:
  assumes "record_ok r" "record_clean r"
  shows "run_steps store_line_step (store_record_lines r) (svc, zero_import_state) =
    map_option (\<lambda>s. (s, zero_import_state)) (mem_service_store_import_record svc (stored_record r))"
  using store_reader.run_record_frame [of "record_fields r @ store_backend_fields r @ member_fields r" svc]
    record_fields_ok [OF assms] member_fields_ok [OF assms] parse_stored_record [OF assms] backend_fields_ok [of r]
  by (simp add: store_record_lines_def store_backend_fields_def del: foldl_append)

lemma reread_record_fits:
  assumes "record_ok r"
  shows "record_fits (rec_key r) (reread_record r)"
    "record_fits (rec_key r) (without_backend (reread_record r))"
    "record_fits (rec_key r) (stored_record r)"
proof -
  have "list_all (\<lambda>h. length h < 96) (kept_members r)"
    using assms by (auto simp: kept_members_def record_ok_def list_all_iff dest: in_set_takeD)
  moreover have "length (kept_members r) = MEM_SERVICE_MAX_GROUP_MEMBERS"
    using assms by (auto simp: kept_members_def record_ok_def)
  ultimately show "record_fits (rec_key r) (reread_record r)"
    "record_fits (rec_key r) (without_backend (reread_record r))"
    "record_fits (rec_key r) (stored_record r)"
    using assms by (auto simp: record_fits_def record_ok_def reread_record_def without_backend_def stored_record_def)
qed

lemma frame_lines_ok:
  "record_ok r \<Longrightarrow> record_clean r \<Longrightarrow> \<forall>l \<in> set (snapshot_record_lines r). clean l \<and> length l < 512"
  "record_ok r \<Longrightarrow> record_clean r \<Longrightarrow> \<forall>l \<in> set (store_record_lines r). clean l \<and> length l < 512"
  "idem_ok i \<Longrightarrow> idem_clean i \<Longrightarrow> \<forall>l \<in> set (idempotency_lines i). clean l \<and> length l < 512"
  "audit_clean e \<Longrightarrow> \<forall>l \<in> set (audit_lines e). clean l \<and> length l < 512"
proof -
  have words: "clean ''record_begin''" "clean ''record_end''" "clean ''idempotency_begin''"
    "clean ''idempotency_end''" "clean ''audit_begin''" "clean ''audit_end''"
    by (simp_all add: clean_def)
  show "record_ok r \<Longrightarrow> record_clean r \<Longrightarrow> \<forall>l \<in> set (snapshot_record_lines r). clean l \<and> length l < 512"
    using field_lines_ok [of "record_fields r @ member_fields r"] record_fields_ok [of r] member_fields_ok [of r] words
    by (auto simp: snapshot_record_lines_def)
  show "record_ok r \<Longrightarrow> record_clean r \<Longrightarrow> \<forall>l \<in> set (store_record_lines r). clean l \<and> length l < 512"
    using field_lines_ok [of "record_fields r @ store_backend_fields r @ member_fields r"] record_fields_ok [of r]
      member_fields_ok [of r] backend_fields_ok [of r] words
    by (auto simp: store_record_lines_def store_backend_fields_def)
  show "idem_ok i \<Longrightarrow> idem_clean i \<Longrightarrow> \<forall>l \<in> set (idempotency_lines i). clean l \<and> length l < 512"
    using field_lines_ok [of "idempotency_fields i @ response_fields i"] idempotency_fields_ok [of i] words
    by (auto simp: idempotency_lines_def)
  show "audit_clean e \<Longrightarrow> \<forall>l \<in> set (audit_lines e). clean l \<and> length l < 512"
    using field_lines_ok [of "audit_fields e"] audit_fields_ok [of e] words
    by (auto simp: audit_lines_def)
qed

lemma table_lines_ok:
  assumes "records_wf svc" "idem_wf svc" "audit_wf svc" "service_clean svc"
    and "\<And>r. record_ok r \<Longrightarrow> record_clean r \<Longrightarrow> \<forall>l \<in> set (rl r). clean l \<and> length l < 512"
  shows "\<forall>l \<in> set (table_lines rl svc). clean l \<and> length l < 512"
proof -
  have rs: "record_ok r" "record_clean r" if "r \<in> set (svc_records svc)" "rec_in_use r" for r
    using that assms(1,4) by (auto simp: records_wf_def service_clean_def list_all_iff)
  have idems: "idem_ok r" "idem_clean r" if "r \<in> set (svc_idempotency_records svc)" "idem_in_use r" for r
    using that assms(2,4) by (auto simp: idem_wf_def service_clean_def list_all_iff)
  have es: "audit_clean e" if "e \<in> set (audit_window svc)" for e
    using that audit_window_events(2,3) [OF assms(3)] assms(4)
    by (auto simp: in_set_conv_nth [of _ "audit_window svc"] service_clean_def list_all_iff)
  show ?thesis
    using assms(5) [OF rs] frame_lines_ok(3) [OF idems] frame_lines_ok(4) [OF es]
    by (auto simp: table_lines_def)
qed

end
