(* ===== verification/Snapshot.thy ===== *)
theory Snapshot
  imports Store_Load
begin

text \<open>
  Snapshots (\<open>mem_service_daemon.c\<close>): the service exports its tables as one store text, or page
  by page, and restores them from such a text, at once or through a stage that collects pages and
  is committed at the end.

  Writers append to a bounded response; a writer is a flag for success and the text written so
  far, which on failure is the text before the piece that did not fit. The stage is the static
  variable \<open>mem_service_restore_snapshot_stage\<close>.
\<close>

section \<open>Writers\<close>

definition MEM_SERVICE_STORE_MAGIC :: cstr where
  "MEM_SERVICE_STORE_MAGIC = ''mem_service_store_v1''"

definition MEM_SERVICE_STORE_SCHEMA_VERSION :: nat where "MEM_SERVICE_STORE_SCHEMA_VERSION = 1"

definition MEM_SERVICE_SNAPSHOT_PAGE_HEADER_RESERVE :: nat where
  "MEM_SERVICE_SNAPSHOT_PAGE_HEADER_RESERVE = 512"

text \<open>Successive calls of \<open>mem_service_append_snapshot_text\<close>, the first failure ending them.\<close>

primrec append_texts :: "nat \<Rightarrow> cstr list \<Rightarrow> cstr \<Rightarrow> bool \<times> cstr" where
  "append_texts response_len [] response = (True, response)"
| "append_texts response_len (t # ts) response =
     (case mem_service_append_snapshot_text response_len response t of
        None \<Rightarrow> (False, response)
      | Some response' \<Rightarrow> append_texts response_len ts response')"

definition mem_service_append_snapshot_record_text ::
  "nat \<Rightarrow> cstr \<Rightarrow> mem_service_record \<Rightarrow> bool \<times> cstr" where
  "mem_service_append_snapshot_record_text response_len response r =
     append_texts response_len
       (text_of (''record_begin'' # field_lines (record_fields r)) #
        map (\<lambda>f. text_of (field_lines [f])) (member_fields r) @ [text_of [''record_end'']]) response"

definition mem_service_append_snapshot_idempotency_text ::
  "nat \<Rightarrow> cstr \<Rightarrow> mem_service_idempotency_record \<Rightarrow> bool \<times> cstr" where
  "mem_service_append_snapshot_idempotency_text response_len response r =
     append_texts response_len
       (text_of (''idempotency_begin'' # field_lines (idempotency_fields r)) #
        map (\<lambda>f. text_of (field_lines [f])) (response_fields r) @ [text_of [''idempotency_end'']]) response"

definition mem_service_append_snapshot_audit_text ::
  "nat \<Rightarrow> cstr \<Rightarrow> mem_service_audit_event \<Rightarrow> bool \<times> cstr" where
  "mem_service_append_snapshot_audit_text response_len response event =
     append_texts response_len
       [text_of (''audit_begin'' # field_lines (audit_fields event) @ [''audit_end''])] response"

text \<open>The loops of the export: over the occupied slots of a table, and over the sequence numbers
  of the audit ring.\<close>

primrec append_used ::
  "('r \<Rightarrow> bool) \<Rightarrow> (cstr \<Rightarrow> 'r \<Rightarrow> bool \<times> cstr) \<Rightarrow> 'r list \<Rightarrow> cstr \<Rightarrow> bool \<times> cstr" where
  "append_used used writer [] response = (True, response)"
| "append_used used writer (r # rs) response =
     (if \<not> used r then append_used used writer rs response
      else (case writer response r of
              (ok, response') \<Rightarrow>
                if ok then append_used used writer rs response' else (False, response')))"

function export_audit_loop :: "mem_service \<Rightarrow> nat \<Rightarrow> u64 \<Rightarrow> cstr \<Rightarrow> bool \<times> cstr" where
  "export_audit_loop svc response_len sequence response =
     (if sequence < svc_audit_next_sequence svc
      then (case mem_service_find_audit_sequence svc sequence of
              None \<Rightarrow> export_audit_loop svc response_len (sequence + 1) response
            | Some event \<Rightarrow>
                (case mem_service_append_snapshot_audit_text response_len response event of
                   (ok, response') \<Rightarrow>
                     if ok then export_audit_loop svc response_len (sequence + 1) response'
                     else (False, response')))
      else (True, response))"
  by pat_completeness auto
termination
  by (relation "measure (\<lambda>(svc, _, sequence, _). unat (svc_audit_next_sequence svc) - unat sequence)")
     (auto intro: audit_step_less)

declare export_audit_loop.simps [simp del]

definition snapshot_header :: "mem_service \<Rightarrow> cstr list" where
  "snapshot_header svc =
     MEM_SERVICE_STORE_MAGIC #
     field_lines
       [(''store_schema_version'', decimal MEM_SERVICE_STORE_SCHEMA_VERSION),
        (''record_count'', show_word (svc_record_count svc)),
        (''audit_next_sequence'', show_word (svc_audit_next_sequence svc)),
        (''audit_event_count'', show_word (svc_audit_event_count svc))]"

definition mem_service_export_snapshot :: "mem_service \<Rightarrow> nat \<Rightarrow> mem_service_wire_status \<times> cstr" where
  "mem_service_export_snapshot svc response_len =
     (if response_len = 0 then (STATUS_CAPACITY_EXCEEDED, [])
      else case append_texts response_len [text_of (snapshot_header svc)] [] of (ok0, t0) \<Rightarrow>
        if \<not> ok0 then (STATUS_CAPACITY_EXCEEDED, t0)
        else case append_used rec_in_use (mem_service_append_snapshot_record_text response_len)
                    (svc_records svc) t0 of (ok1, t1) \<Rightarrow>
        if \<not> ok1 then (STATUS_CAPACITY_EXCEEDED, t1)
        else case append_used idem_in_use (mem_service_append_snapshot_idempotency_text response_len)
                    (svc_idempotency_records svc) t1 of (ok2, t2) \<Rightarrow>
        if \<not> ok2 then (STATUS_CAPACITY_EXCEEDED, t2)
        else if svc_audit_event_count svc > 0
        then (case export_audit_loop svc response_len (mem_service_audit_first_sequence svc) t2 of
                (ok3, t3) \<Rightarrow> (if ok3 then STATUS_OK else STATUS_CAPACITY_EXCEEDED, t3))
        else (STATUS_OK, t2))"

section \<open>Pages\<close>

definition mem_service_has_record_at_or_after :: "mem_service \<Rightarrow> nat \<Rightarrow> bool" where
  "mem_service_has_record_at_or_after svc start_index \<longleftrightarrow>
     list_ex (\<lambda>i. rec_in_use (svc_records svc ! i)) [start_index..<MEM_SERVICE_MAX_RECORDS]"

text \<open>The loop over the slots from \<open>start_index\<close>: \<open>None\<close> when not even the first record fits;
  otherwise the records text, the number emitted, the next index, \<open>complete\<close> and
  \<open>stopped_on_capacity\<close>.\<close>

primrec page_loop ::
  "mem_service \<Rightarrow> nat \<Rightarrow> u64 \<Rightarrow> nat list \<Rightarrow> cstr \<Rightarrow> u64 \<Rightarrow> nat \<Rightarrow> (cstr \<times> u64 \<times> nat \<times> bool \<times> bool) option" where
  "page_loop svc records_len max_records [] records emitted next_index =
     Some (records, emitted, next_index, True, False)"
| "page_loop svc records_len max_records (i # is) records emitted next_index =
     (let r = svc_records svc ! i in
      if \<not> rec_in_use r then page_loop svc records_len max_records is records emitted next_index
      else if max_records \<noteq> 0 \<and> emitted \<ge> max_records
      then (let complete = \<not> mem_service_has_record_at_or_after svc i in
            Some (records, emitted, if complete then MEM_SERVICE_MAX_RECORDS else i, complete, False))
      else (case mem_service_append_snapshot_record_text records_len records r of
              (ok, records') \<Rightarrow>
                if ok then page_loop svc records_len max_records is records' (emitted + 1) (i + 1)
                else if emitted = 0 then None
                else Some (records, emitted, i, False, True)))"

definition mem_service_export_snapshot_page ::
  "mem_service \<Rightarrow> cstr \<Rightarrow> nat \<Rightarrow> mem_service_wire_status \<times> cstr" where
  "mem_service_export_snapshot_page svc payload response_len =
     (if response_len \<le> MEM_SERVICE_SNAPSHOT_PAGE_HEADER_RESERVE then (STATUS_CAPACITY_EXCEEDED, [])
      else let requested_start = mem_service_payload_get_u64 payload ''start_index'' 0;
               start_index = (if requested_start \<ge> of_nat MEM_SERVICE_MAX_RECORDS
                              then MEM_SERVICE_MAX_RECORDS else unat requested_start);
               max_records = mem_service_payload_get_u64 payload ''max_records'' 0;
               records_len = response_len - MEM_SERVICE_SNAPSHOT_PAGE_HEADER_RESERVE
        in case page_loop svc records_len max_records [start_index..<MEM_SERVICE_MAX_RECORDS] [] 0
                  start_index of
             None \<Rightarrow> (STATUS_CAPACITY_EXCEEDED, [])
           | Some (records, emitted, next0, complete0, stopped_on_capacity) \<Rightarrow>
               let recheck = (\<not> stopped_on_capacity \<and> next0 < MEM_SERVICE_MAX_RECORDS);
                   complete = (if recheck then \<not> mem_service_has_record_at_or_after svc next0 else complete0);
                   next_index = (if recheck \<and> complete then MEM_SERVICE_MAX_RECORDS else next0);
                   response = snprintf_s response_len
                     (kv ''snapshot_page'' ''1'' @ kv ''store_magic'' MEM_SERVICE_STORE_MAGIC @
                      kv ''store_schema_version'' (decimal MEM_SERVICE_STORE_SCHEMA_VERSION) @
                      kv ''record_count'' (show_word (svc_record_count svc)) @
                      kv ''start_index'' (decimal start_index) @ kv ''next_index'' (decimal next_index) @
                      kv ''records_emitted'' (show_word emitted) @
                      kv ''complete'' (if complete then ''1'' else ''0'') @ records)
               in (if length response \<ge> response_len - 1 then STATUS_CAPACITY_EXCEEDED else STATUS_OK,
                   response))"

section \<open>Reading a snapshot\<close>

text \<open>The first line must be the magic; the state of the loop is whether it was seen, the service
  and the import state. \<open>None\<close> is the result -1.\<close>

definition snapshot_line_step ::
  "bool \<times> mem_service \<times> mem_service_store_import_state \<Rightarrow> cstr \<Rightarrow>
   (bool \<times> mem_service \<times> mem_service_store_import_state) option" where
  "snapshot_line_step s line =
     (case s of (saw_magic, st) \<Rightarrow>
        if \<not> saw_magic then (if line \<noteq> MEM_SERVICE_STORE_MAGIC then None else Some (True, st))
        else map_option (Pair True) (store_line_step st line))"

definition mem_service_import_snapshot_text :: "mem_service \<Rightarrow> cstr \<Rightarrow> mem_service option" where
  "mem_service_import_snapshot_text svc snapshot =
     (if snapshot = [] then None
      else (case line_loop snapshot_line_step snapshot (False, svc, zero_import_state) of
              None \<Rightarrow> None
            | Some (saw_magic, svc', state) \<Rightarrow>
                if saw_magic \<and> \<not> in_frame state then Some svc' else None))"

definition records_line_step ::
  "(mem_service \<times> mem_service_store_import_state) \<times> u64 \<Rightarrow> cstr \<Rightarrow>
   ((mem_service \<times> mem_service_store_import_state) \<times> u64) option" where
  "records_line_step s line =
     (case s of (st, records_imported) \<Rightarrow>
        (case store_line_step st line of
           None \<Rightarrow> None
         | Some st' \<Rightarrow>
             Some (st', if line = ''record_end'' then records_imported + 1 else records_imported)))"

definition mem_service_import_snapshot_records_text ::
  "mem_service \<Rightarrow> cstr \<Rightarrow> (mem_service \<times> u64) option" where
  "mem_service_import_snapshot_records_text svc snapshot =
     (if snapshot = [] then None
      else (case line_loop records_line_step snapshot ((svc, zero_import_state), 0) of
              None \<Rightarrow> None
            | Some ((svc', state), records_imported) \<Rightarrow>
                if in_frame state then None else Some (svc', records_imported)))"

definition mem_service_restore_snapshot ::
  "mem_service \<Rightarrow> cstr \<Rightarrow> nat \<Rightarrow> mem_service_wire_status \<times> cstr \<times> mem_service" where
  "mem_service_restore_snapshot svc payload response_len =
     (case mem_service_init (svc_control_plane_ready svc) (svc_provider_registry_ready svc)
             (svc_durable_ready svc) of (rc, fresh) \<Rightarrow>
      if payload = [] \<or> rc \<noteq> 0 then (STATUS_INVALID_SESSION, [], svc)
      else case mem_service_import_snapshot_text fresh payload of
        None \<Rightarrow> (STATUS_INVALID_SESSION, [], svc)
      | Some restored \<Rightarrow>
          (STATUS_OK,
           snprintf_s response_len
             (kv ''status'' ''ok'' @ kv ''restored'' ''1'' @
              kv ''record_count'' (show_word (svc_record_count restored))),
           svc \<lparr> svc_records := svc_records restored,
                 svc_idempotency_records := svc_idempotency_records restored,
                 svc_audit_events := svc_audit_events restored,
                 svc_record_count := svc_record_count restored,
                 svc_audit_next_sequence := svc_audit_next_sequence restored,
                 svc_audit_event_count := svc_audit_event_count restored \<rparr>))"

section \<open>The restore stage\<close>

record mem_service_restore_snapshot_stage =
  stage_active :: bool
  stage_has_expected_records :: bool
  stage_saw_complete :: bool
  stage_expected_records :: u64
  stage_next_page_index :: u64
  stage_svc :: mem_service

definition mem_service_restore_snapshot_stage_reset :: mem_service_restore_snapshot_stage where
  "mem_service_restore_snapshot_stage_reset =
     \<lparr> stage_active = False, stage_has_expected_records = False, stage_saw_complete = False,
       stage_expected_records = 0, stage_next_page_index = 0, stage_svc = zero_service \<rparr>"

definition mem_service_restore_snapshot_page_begin ::
  "mem_service \<Rightarrow> cstr \<Rightarrow> nat \<Rightarrow> mem_service_wire_status \<times> cstr \<times> mem_service_restore_snapshot_stage" where
  "mem_service_restore_snapshot_page_begin svc payload response_len =
     (case mem_service_init (svc_control_plane_ready svc) (svc_provider_registry_ready svc)
             (svc_durable_ready svc) of (rc, fresh) \<Rightarrow>
      let stage0 = mem_service_restore_snapshot_stage_reset \<lparr> stage_svc := fresh \<rparr> in
      if rc \<noteq> 0 then (STATUS_INTERNAL, [], stage0)
      else let stage1 = stage0 \<lparr> stage_active := True, stage_next_page_index := 0 \<rparr>;
               expected = mem_service_wire_payload_get_u64_checked payload ''expected_records''
        in (STATUS_OK,
            snprintf_s response_len
              (kv ''status'' ''ok'' @ kv ''restore_stage'' ''begun'' @
               kv ''expected_records'' (show_word (case expected of None \<Rightarrow> 0 | Some n \<Rightarrow> n))),
            (case expected of
               None \<Rightarrow> stage1
             | Some n \<Rightarrow> stage1 \<lparr> stage_has_expected_records := True, stage_expected_records := n,
                                   stage_saw_complete := (n = 0) \<rparr>)))"

definition mem_service_restore_snapshot_page_append ::
  "mem_service_restore_snapshot_stage \<Rightarrow> cstr \<Rightarrow> nat \<Rightarrow>
   mem_service_wire_status \<times> cstr \<times> mem_service_restore_snapshot_stage" where
  "mem_service_restore_snapshot_page_append stage payload response_len =
     (if \<not> stage_active stage then (STATUS_INVALID_SESSION, [], stage)
      else case mem_service_wire_payload_get_u64_checked payload ''page_index'' of
        None \<Rightarrow> (STATUS_INVALID_SESSION, [], stage)
      | Some page_index \<Rightarrow>
          if page_index \<noteq> stage_next_page_index stage then (STATUS_VERSION_CONFLICT, [], stage)
          else case mem_service_import_snapshot_records_text (stage_svc stage) payload of
            None \<Rightarrow> (STATUS_INVALID_SESSION, [], mem_service_restore_snapshot_stage_reset)
          | Some (svc', records_imported) \<Rightarrow>
              let stage' = stage \<lparr> stage_svc := svc',
                     stage_next_page_index := stage_next_page_index stage + 1,
                     stage_saw_complete :=
                       (if mem_service_wire_payload_get_u32 payload ''complete'' 0 \<noteq> 0 then True
                        else stage_saw_complete stage) \<rparr>
              in if stage_has_expected_records stage' \<and>
                    svc_record_count svc' > stage_expected_records stage'
                 then (STATUS_VERSION_CONFLICT, [], mem_service_restore_snapshot_stage_reset)
                 else (STATUS_OK,
                       snprintf_s response_len
                         (kv ''status'' ''ok'' @ kv ''restore_stage'' ''appended'' @
                          kv ''page_index'' (show_word page_index) @
                          kv ''records_imported'' (show_word records_imported) @
                          kv ''record_count'' (show_word (svc_record_count svc')) @
                          kv ''complete'' (if stage_saw_complete stage' then ''1'' else ''0'')),
                       stage'))"

definition mem_service_restore_snapshot_page_commit ::
  "mem_service \<Rightarrow> mem_service_restore_snapshot_stage \<Rightarrow> nat \<Rightarrow>
   mem_service_wire_status \<times> cstr \<times> mem_service \<times> mem_service_restore_snapshot_stage" where
  "mem_service_restore_snapshot_page_commit svc stage response_len =
     (if \<not> stage_active stage then (STATUS_INVALID_SESSION, [], svc, stage)
      else if stage_has_expected_records stage \<and>
              svc_record_count (stage_svc stage) \<noteq> stage_expected_records stage
      then (STATUS_VERSION_CONFLICT, [], svc, stage)
      else if \<not> stage_has_expected_records stage \<and> \<not> stage_saw_complete stage
      then (STATUS_INVALID_SESSION, [], svc, stage)
      else (STATUS_OK,
            snprintf_s response_len
              (kv ''status'' ''ok'' @ kv ''restored'' ''1'' @
               kv ''record_count'' (show_word (svc_record_count (stage_svc stage)))),
            svc \<lparr> svc_records := svc_records (stage_svc stage),
                  svc_idempotency_records :=
                    replicate MEM_SERVICE_MAX_IDEMPOTENCY_RECORDS zero_idempotency_record,
                  svc_audit_events := replicate MEM_SERVICE_MAX_AUDIT_EVENTS zero_audit_event,
                  svc_record_count := svc_record_count (stage_svc stage),
                  svc_audit_next_sequence := 1, svc_audit_event_count := 0 \<rparr>,
            mem_service_restore_snapshot_stage_reset))"

definition mem_service_restore_snapshot_page ::
  "mem_service \<Rightarrow> mem_service_restore_snapshot_stage \<Rightarrow> cstr \<Rightarrow> nat \<Rightarrow>
   mem_service_wire_status \<times> cstr \<times> mem_service \<times> mem_service_restore_snapshot_stage" where
  "mem_service_restore_snapshot_page svc stage payload response_len =
     (case mem_service_payload_get_string payload ''action'' 32 of
        None \<Rightarrow> (STATUS_INVALID_SESSION, [], svc, stage)
      | Some action \<Rightarrow>
          if action = ''begin''
          then (case mem_service_restore_snapshot_page_begin svc payload response_len of
                  (st, response, stage') \<Rightarrow> (st, response, svc, stage'))
          else if action = ''append''
          then (case mem_service_restore_snapshot_page_append stage payload response_len of
                  (st, response, stage') \<Rightarrow> (st, response, svc, stage'))
          else if action = ''commit''
          then mem_service_restore_snapshot_page_commit svc stage response_len
          else if action = ''cancel''
          then (STATUS_OK,
                snprintf_s response_len (kv ''status'' ''ok'' @ kv ''restore_stage'' ''cancelled''),
                svc, mem_service_restore_snapshot_stage_reset)
          else (STATUS_INVALID_SESSION, [], svc, stage))"

section \<open>What a successful export wrote\<close>

lemma append_texts_ok: "append_texts n ts response = (True, response') \<Longrightarrow> response' = response @ concat ts"
proof (induction ts arbitrary: response)
  case (Cons t ts)
  then have "append_texts n ts (response @ t) = (True, response')"
    by (auto simp: mem_service_append_snapshot_text_def split: option.splits if_splits)
  from Cons.IH [OF this] show ?case by simp
qed simp

lemma concat_text_of: "concat (map (\<lambda>f. text_of (field_lines [f])) fs) = text_of (field_lines fs)"
  by (induction fs) (auto simp: text_of_def field_lines_def)

lemma text_of_Cons: "text_of (l # ls) = l @ newline # text_of ls"
  by (simp add: text_of_def)

lemma field_lines_append: "field_lines (a @ b) = field_lines a @ field_lines b"
  by (simp add: field_lines_def)

text \<open>The pieces of a frame add up to its lines.\<close>

lemma frame_pieces:
  "concat (text_of (b # field_lines fs) # map (\<lambda>f. text_of (field_lines [f])) gs @ [text_of [e]]) =
   text_of (b # field_lines (fs @ gs) @ [e])"
  unfolding concat.simps concat_append concat_text_of by (simp add: text_of_Cons field_lines_append)

lemma append_frames_ok:
  "mem_service_append_snapshot_record_text n t r = (True, t') \<Longrightarrow> t' = t @ text_of (snapshot_record_lines r)"
  "mem_service_append_snapshot_idempotency_text n t i = (True, t') \<Longrightarrow> t' = t @ text_of (idempotency_lines i)"
  "mem_service_append_snapshot_audit_text n t e = (True, t') \<Longrightarrow> t' = t @ text_of (audit_lines e)"
proof -
  show "t' = t @ text_of (snapshot_record_lines r)"
    if "mem_service_append_snapshot_record_text n t r = (True, t')"
    using append_texts_ok [OF that [unfolded mem_service_append_snapshot_record_text_def]]
    unfolding frame_pieces snapshot_record_lines_def .
  show "t' = t @ text_of (idempotency_lines i)"
    if "mem_service_append_snapshot_idempotency_text n t i = (True, t')"
    using append_texts_ok [OF that [unfolded mem_service_append_snapshot_idempotency_text_def]]
    unfolding frame_pieces idempotency_lines_def .
  show "t' = t @ text_of (audit_lines e)" if "mem_service_append_snapshot_audit_text n t e = (True, t')"
    using append_texts_ok [OF that [unfolded mem_service_append_snapshot_audit_text_def]]
    by (simp add: audit_lines_def)
qed

text \<open>A frame that fits the response is written.\<close>

lemma append_texts_fits:
  "length (t @ concat ts) < n \<Longrightarrow> append_texts n ts t = (True, t @ concat ts)"
  by (induction ts arbitrary: t) (auto simp: mem_service_append_snapshot_text_def)

lemma append_frame_fits:
  assumes "length (t @ text_of (b # field_lines (fs @ gs) @ [e])) < n"
  shows "append_texts n
      (text_of (b # field_lines fs) # map (\<lambda>f. text_of (field_lines [f])) gs @ [text_of [e]]) t =
    (True, t @ text_of (b # field_lines (fs @ gs) @ [e]))"
  using append_texts_fits [of t "text_of (b # field_lines fs) #
      map (\<lambda>f. text_of (field_lines [f])) gs @ [text_of [e]]" n] assms
  unfolding frame_pieces by blast

lemma append_frames_fit:
  "length (t @ text_of (snapshot_record_lines r)) < n \<Longrightarrow>
     mem_service_append_snapshot_record_text n t r = (True, t @ text_of (snapshot_record_lines r))"
  "length (t @ text_of (idempotency_lines i)) < n \<Longrightarrow>
     mem_service_append_snapshot_idempotency_text n t i = (True, t @ text_of (idempotency_lines i))"
  "length (t @ text_of (audit_lines e)) < n \<Longrightarrow>
     mem_service_append_snapshot_audit_text n t e = (True, t @ text_of (audit_lines e))"
  unfolding mem_service_append_snapshot_record_text_def snapshot_record_lines_def
    mem_service_append_snapshot_idempotency_text_def idempotency_lines_def
    mem_service_append_snapshot_audit_text_def audit_lines_def
  by (erule append_frame_fits, erule append_frame_fits)
     (use append_texts_fits [of t "[text_of (''audit_begin'' # field_lines (audit_fields e) @ [''audit_end''])]" n]
       in simp)

lemma append_used_fits:
  assumes "\<And>t r. length (t @ text_of (g r)) < n \<Longrightarrow> writer t r = (True, t @ text_of (g r))"
  shows "length (t @ text_of (concat (map g (filter used rs)))) < n \<Longrightarrow>
    append_used used writer rs t = (True, t @ text_of (concat (map g (filter used rs))))"
  by (induction rs arbitrary: t) (auto simp: assms)

lemma append_used_ok:
  assumes "\<And>t r t'. writer t r = (True, t') \<Longrightarrow> t' = t @ text_of (g r)"
  shows "append_used used writer rs t = (True, t') \<Longrightarrow>
    t' = t @ text_of (concat (map g (filter used rs)))"
proof (induction rs arbitrary: t)
  case (Cons r rs)
  show ?case
  proof (cases "used r")
    case True
    with Cons.prems obtain t1 where t1: "writer t r = (True, t1)" "append_used used writer rs t1 = (True, t')"
      by (auto split: prod.splits if_splits)
    from Cons.IH [OF t1(2)] assms [OF t1(1)] True show ?thesis by simp
  qed (use Cons in simp)
qed simp

text \<open>The audit loop walks the window of retained events: \<open>window_from\<close> is what is left of it at a
  sequence number.\<close>

definition window_from :: "mem_service \<Rightarrow> u64 \<Rightarrow> mem_service_audit_event list" where
  "window_from svc sequence = drop (unat sequence -
     (unat (svc_audit_next_sequence svc) - unat (svc_audit_event_count svc))) (audit_window svc)"

lemma window_from_step:
  assumes wf: "audit_wf svc" and seq: "sequence < svc_audit_next_sequence svc"
    and first: "unat (svc_audit_next_sequence svc) - unat (svc_audit_event_count svc) \<le> unat sequence"
  obtains e where "mem_service_find_audit_sequence svc sequence = Some e"
    "window_from svc sequence = e # window_from svc (sequence + 1)"
proof -
  let ?n = "svc_audit_next_sequence svc" and ?c = "svc_audit_event_count svc" and ?w = "audit_window svc"
  let ?k = "unat sequence - (unat ?n - unat ?c)"
  have lt: "unat sequence < unat ?n" using seq by (simp add: word_less_nat_alt)
  have k: "?k < length ?w" using length_audit_window [OF wf] lt first by simp
  then have num: "aud_sequence (?w ! ?k) = sequence"
    using audit_window_events(1) [OF wf k] first by (simp add: word_unat_eq_iff)
  have "aud_sequence (?w ! j) \<noteq> sequence" if "j < ?k" for j
    using audit_window_events(1) [OF wf, of j] that k first by fastforce
  then have "?k < length ?w \<and> aud_sequence (?w ! ?k) = sequence \<and> ?w ! ?k = ?w ! ?k \<and>
      (\<forall>j<?k. aud_sequence (?w ! j) \<noteq> sequence)" using k num by blast
  then have "mem_service_find_audit_sequence svc sequence = Some (?w ! ?k)"
    unfolding find_audit_sequence_window [OF wf] find_Some_iff by blast
  moreover have "unat (sequence + 1) = unat sequence + 1" using seq by (rule unat_Suc_below)
  then have "window_from svc sequence = ?w ! ?k # window_from svc (sequence + 1)"
    using Cons_nth_drop_Suc [OF k] first by (simp add: window_from_def Suc_diff_le)
  ultimately show ?thesis using that by blast
qed

lemma export_audit_loop_step:
  assumes "audit_wf svc" "sequence < svc_audit_next_sequence svc"
    and "unat (svc_audit_next_sequence svc) - unat (svc_audit_event_count svc) \<le> unat sequence"
  obtains e where "window_from svc sequence = e # window_from svc (sequence + 1)"
    "export_audit_loop svc n sequence t =
       (case mem_service_append_snapshot_audit_text n t e of
          (ok, t') \<Rightarrow> if ok then export_audit_loop svc n (sequence + 1) t' else (False, t'))"
proof -
  obtain e where e: "mem_service_find_audit_sequence svc sequence = Some e"
    "window_from svc sequence = e # window_from svc (sequence + 1)"
    using window_from_step [OF assms] .
  have "export_audit_loop svc n sequence t =
       (case mem_service_append_snapshot_audit_text n t e of
          (ok, t') \<Rightarrow> if ok then export_audit_loop svc n (sequence + 1) t' else (False, t'))"
    by (subst export_audit_loop.simps) (simp add: assms(2) e(1))
  with e(2) that show ?thesis by blast
qed

lemma export_audit_loop_end:
  assumes "audit_wf svc" "\<not> sequence < svc_audit_next_sequence svc"
  shows "window_from svc sequence = []" "export_audit_loop svc n sequence t = (True, t)"
proof -
  have "unat (svc_audit_event_count svc) < unat (svc_audit_next_sequence svc)"
    using assms(1) by (simp add: audit_wf_def audit.ring_wf_def)
  then show "window_from svc sequence = []"
    using assms(2) length_audit_window [OF assms(1)] by (simp add: window_from_def word_less_nat_alt)
  show "export_audit_loop svc n sequence t = (True, t)"
    using assms(2) by (simp add: export_audit_loop.simps [of svc n sequence])
qed

lemma export_audit_loop_spec:
  assumes wf: "audit_wf svc"
    and first: "unat (svc_audit_next_sequence svc) - unat (svc_audit_event_count svc) \<le> unat sequence"
  defines "out \<equiv> \<lambda>t sequence. t @ text_of (concat (map audit_lines (window_from svc sequence)))"
  shows "export_audit_loop svc n sequence t = (True, t') \<longrightarrow> t' = out t sequence"
    and "length (out t sequence) < n \<longrightarrow> export_audit_loop svc n sequence t = (True, out t sequence)"
proof -
  have "(export_audit_loop svc n sequence t = (True, t') \<longrightarrow> t' = out t sequence) \<and>
    (length (out t sequence) < n \<longrightarrow> export_audit_loop svc n sequence t = (True, out t sequence))"
    using first
  proof (induction "unat (svc_audit_next_sequence svc) - unat sequence" arbitrary: sequence t rule: less_induct)
    case less
    show ?case
    proof (cases "sequence < svc_audit_next_sequence svc")
      case False
      then show ?thesis using export_audit_loop_end [OF wf False] by (simp add: out_def)
    next
      case True
      obtain e where e: "window_from svc sequence = e # window_from svc (sequence + 1)"
        "export_audit_loop svc n sequence t =
           (case mem_service_append_snapshot_audit_text n t e of
              (ok, t') \<Rightarrow> if ok then export_audit_loop svc n (sequence + 1) t' else (False, t'))"
        using export_audit_loop_step [OF wf True less.prems] .
      note IH = less.hyps [OF audit_step_less [OF True]]
      have first': "unat (svc_audit_next_sequence svc) - unat (svc_audit_event_count svc) \<le> unat (sequence + 1)"
        using less.prems unat_Suc_below [OF True] by simp
      have out: "out t sequence = out (t @ text_of (audit_lines e)) (sequence + 1)"
        by (simp add: out_def e(1))
      note IH = IH [OF first', of "t @ text_of (audit_lines e)", folded out]
      show ?thesis
      proof (intro conjI impI)
        assume "export_audit_loop svc n sequence t = (True, t')"
        then obtain t1 where t1: "mem_service_append_snapshot_audit_text n t e = (True, t1)"
          "export_audit_loop svc n (sequence + 1) t1 = (True, t')"
          using e(2) by (auto split: prod.splits if_splits)
        then show "t' = out t sequence" using IH append_frames_ok(3) [OF t1(1)] by blast
      next
        assume fits: "length (out t sequence) < n"
        then have "length (t @ text_of (audit_lines e)) < n" by (simp add: out_def e(1))
        with fits IH e(2) append_frames_fit(3) show "export_audit_loop svc n sequence t = (True, out t sequence)"
          by simp
      qed
    qed
  qed
  then show "export_audit_loop svc n sequence t = (True, t') \<longrightarrow> t' = out t sequence"
    and "length (out t sequence) < n \<longrightarrow> export_audit_loop svc n sequence t = (True, out t sequence)"
    by blast+
qed

lemma first_sequence_window:
  assumes "audit_wf svc" "svc_audit_event_count svc \<noteq> 0"
  shows "unat (mem_service_audit_first_sequence svc) =
      unat (svc_audit_next_sequence svc) - unat (svc_audit_event_count svc)"
    "window_from svc (mem_service_audit_first_sequence svc) = audit_window svc"
proof -
  have "unat (svc_audit_event_count svc) < unat (svc_audit_next_sequence svc)"
    using assms(1) by (simp add: audit_wf_def audit.ring_wf_def)
  with assms(2) show "unat (mem_service_audit_first_sequence svc) =
      unat (svc_audit_next_sequence svc) - unat (svc_audit_event_count svc)"
    by (auto simp: mem_service_audit_first_sequence_def word_le_nat_alt unat_sub)
  then show "window_from svc (mem_service_audit_first_sequence svc) = audit_window svc"
    by (simp add: window_from_def)
qed

lemma export_snapshot_text:
  assumes wf: "audit_wf svc"
  defines "out \<equiv> text_of (snapshot_header svc @ table_lines snapshot_record_lines svc)"
  shows "mem_service_export_snapshot svc n = (STATUS_OK, t) \<longrightarrow> t = out"
    and "length out < n \<longrightarrow> mem_service_export_snapshot svc n = (STATUS_OK, out)"
proof -
  let ?t0 = "text_of (snapshot_header svc)"
  let ?t1 = "?t0 @ text_of (concat (map snapshot_record_lines (filter rec_in_use (svc_records svc))))"
  let ?t2 = "?t1 @ text_of (concat (map idempotency_lines (filter idem_in_use (svc_idempotency_records svc))))"
  have out: "out = ?t2 @ text_of (concat (map audit_lines (audit_window svc)))"
    by (simp add: out_def table_lines_def)
  have none: "svc_audit_event_count svc = 0 \<Longrightarrow> audit_window svc = []" using length_audit_window [OF wf] by simp
  note loop = export_audit_loop_spec [OF wf, where sequence = "mem_service_audit_first_sequence svc" and n = n]
  show "mem_service_export_snapshot svc n = (STATUS_OK, t) \<longrightarrow> t = out"
  proof
    assume ok: "mem_service_export_snapshot svc n = (STATUS_OK, t)"
    obtain t0 t1 t2 where t: "append_texts n [?t0] [] = (True, t0)"
        "append_used rec_in_use (mem_service_append_snapshot_record_text n) (svc_records svc) t0 = (True, t1)"
        "append_used idem_in_use (mem_service_append_snapshot_idempotency_text n)
           (svc_idempotency_records svc) t1 = (True, t2)"
      and t3: "if svc_audit_event_count svc > 0
        then export_audit_loop svc n (mem_service_audit_first_sequence svc) t2 = (True, t) else t = t2"
      using ok by (auto simp: mem_service_export_snapshot_def split: if_splits prod.splits)
    have "t2 = ?t2"
      using append_texts_ok [OF t(1)] append_used_ok [OF append_frames_ok(1) t(2)]
        append_used_ok [OF append_frames_ok(2) t(3)] by simp
    then show "t = out"
      using t3 loop(1) [where t = ?t2 and t' = t] first_sequence_window [OF wf] none
      by (cases "svc_audit_event_count svc = 0") (auto simp: out word_neq_0_conv)
  qed
  show "length out < n \<longrightarrow> mem_service_export_snapshot svc n = (STATUS_OK, out)"
  proof
    assume fits: "length out < n"
    then have len: "length ?t0 < n" "length ?t1 < n" "length ?t2 < n"
      unfolding out length_append by linarith+
    have "append_texts n [?t0] [] = (True, ?t0)" using append_texts_fits [of "[]" "[?t0]" n] len(1) by simp
    moreover have "append_used rec_in_use (mem_service_append_snapshot_record_text n) (svc_records svc) ?t0 = (True, ?t1)"
      using append_frames_fit(1) len(2) by (rule append_used_fits)
    moreover have "append_used idem_in_use (mem_service_append_snapshot_idempotency_text n)
        (svc_idempotency_records svc) ?t1 = (True, ?t2)"
      using append_frames_fit(2) len(3) by (rule append_used_fits)
    ultimately show "mem_service_export_snapshot svc n = (STATUS_OK, out)"
      using fits loop(2) [where t = ?t2] first_sequence_window [OF wf] none
      by (cases "svc_audit_event_count svc = 0") (auto simp: mem_service_export_snapshot_def out word_neq_0_conv)
  qed
qed

section \<open>Reading it back\<close>

lemma run_after_magic:
  "run_steps snapshot_line_step ls (True, st) = map_option (Pair True) (run_steps store_line_step ls st)"
  by (induction ls arbitrary: st) (auto simp: snapshot_line_step_def split: option.split)

lemma run_magic:
  "run_steps snapshot_line_step (MEM_SERVICE_STORE_MAGIC # ls) (False, st) =
   run_steps snapshot_line_step ls (True, st)"
  by (simp add: snapshot_line_step_def)

lemma version_line:
  "store_line_step (svc, zero_import_state) (''store_schema_version='' @ decimal 1) = Some (svc, zero_import_state)"
  using strtoul10_decimal [of 1]
  by (simp add: store_line_step_def mem_service_parse_schema_version_line_def zero_import_state_def
      MEM_SERVICE_STORE_MAX_KNOWN_SCHEMA_VERSION_def)

lemma idle_field_line:
  assumes "field_ok (name, text)" "take 21 (name @ CHR ''='' # text) \<noteq> ''store_schema_version=''"
  shows "store_line_step (svc, zero_import_state) (name @ CHR ''='' # text) = Some (svc, zero_import_state)"
  using assms store_reader.frame_step [of zero_import_state "name @ CHR ''='' # text" svc]
  by (simp add: import_field_line [OF assms(1)] zero_import_state_def eval_nat_numeral)

lemma header_lines:
  "snapshot_header svc = MEM_SERVICE_STORE_MAGIC #
     [''store_schema_version='' @ decimal 1, ''record_count'' @ CHR ''='' # show_word (svc_record_count svc),
      ''audit_next_sequence'' @ CHR ''='' # show_word (svc_audit_next_sequence svc),
      ''audit_event_count'' @ CHR ''='' # show_word (svc_audit_event_count svc)]"
  by (simp add: snapshot_header_def field_lines_def MEM_SERVICE_STORE_SCHEMA_VERSION_def)

lemma header_fields_run:
  "run_steps store_line_step (tl (snapshot_header svc)) (s, zero_import_state) = Some (s, zero_import_state)"
  unfolding header_lines list.sel run_steps.simps version_line option.case
  by (subst idle_field_line, simp add: number_field_ok, simp, simp only: option.case)+

lemma header_run:
  "run_steps snapshot_line_step (snapshot_header svc) (False, s, zero_import_state) =
   Some (True, s, zero_import_state)"
proof -
  have "snapshot_header svc = MEM_SERVICE_STORE_MAGIC # tl (snapshot_header svc)" by (simp add: header_lines)
  then show ?thesis by (metis run_magic run_after_magic header_fields_run option.map(2))
qed

lemma init_ready: "mem_service_init True True True = (0, initial_service)"
  by (simp add: initial_service_def mem_service_init_def mem_service_provider_registry_init_def zero_service_def)

abbreviation service_ready :: "mem_service \<Rightarrow> bool" where
  "service_ready svc \<equiv> svc_control_plane_ready svc \<and> svc_provider_registry_ready svc \<and> svc_durable_ready svc"

lemma init_not_ready:
  "\<not> (a \<and> b \<and> c) \<Longrightarrow> fst (mem_service_init a b c) \<noteq> 0"
  by (auto simp: mem_service_init_def zero_service_def Let_def)

text \<open>What a snapshot record reads back as.\<close>

abbreviation snapshot_record :: "mem_service_record \<Rightarrow> mem_service_record" where
  "snapshot_record r \<equiv> without_backend (reread_record r)"

lemma header_lines_ok: "\<forall>l \<in> set (snapshot_header svc). clean l \<and> length l < 512"
proof -
  have "field_ok (''store_schema_version'', decimal 1)"
    using decimal_length [of 1 1] by (simp add: field_ok_def)
  then have "list_all field_ok [(''store_schema_version'', decimal 1), (''record_count'', show_word (svc_record_count svc)),
      (''audit_next_sequence'', show_word (svc_audit_next_sequence svc)),
      (''audit_event_count'', show_word (svc_audit_event_count svc))]"
    by (simp add: number_field_ok)
  note field_lines_ok [OF this]
  moreover have "clean MEM_SERVICE_STORE_MAGIC" "length MEM_SERVICE_STORE_MAGIC < 512"
    by (simp_all add: MEM_SERVICE_STORE_MAGIC_def clean_def)
  ultimately show ?thesis
    unfolding snapshot_header_def MEM_SERVICE_STORE_SCHEMA_VERSION_def by (simp del: One_nat_def)
qed

lemma snapshot_lines_ok:
  assumes wf: "records_wf svc" "idem_wf svc" "audit_wf svc" and clean: "service_clean svc"
  shows "\<forall>l \<in> set (snapshot_header svc @ table_lines snapshot_record_lines svc). clean l \<and> length l < 512"
  using header_lines_ok [of svc] table_lines_ok [OF wf clean frame_lines_ok(1)] by auto

lemma import_exported_text:
  assumes wf: "records_wf svc" "idem_wf svc" "audit_wf svc" and clean: "service_clean svc"
  shows "\<exists>svc'. mem_service_import_snapshot_text initial_service
      (text_of (snapshot_header svc @ table_lines snapshot_record_lines svc)) = Some svc' \<and>
    reloads_as snapshot_record svc svc'"
proof -
  let ?ls = "snapshot_header svc @ table_lines snapshot_record_lines svc"
  obtain svc' where svc': "run_steps store_line_step (table_lines snapshot_record_lines svc)
      (initial_service, zero_import_state) = Some (svc', zero_import_state)" "reloads_as snapshot_record svc svc'"
    using store_reader.load_tables [OF wf clean, of snapshot_record_lines snapshot_record]
      snapshot_record_frame reread_record_fits(2) by (auto simp: without_backend_def reread_record_def)
  note ok = snapshot_lines_ok [OF wf clean]
  have "run_steps snapshot_line_step ?ls (False, initial_service, zero_import_state) =
      Some (True, svc', zero_import_state)"
    by (simp add: run_steps_append header_run run_after_magic svc'(1))
  then have "line_loop snapshot_line_step (text_of ?ls) (False, initial_service, zero_import_state) =
      Some (True, svc', zero_import_state)"
    using line_loop_text [OF ok, of snapshot_line_step "[]"] by (simp add: line_loop.simps [of _ "[]"])
  moreover have "text_of ?ls \<noteq> []" by (simp add: snapshot_header_def text_of_def)
  ultimately show ?thesis
    using svc'(2) by (simp add: mem_service_import_snapshot_text_def zero_import_state_def)
qed

lemma reloads_as_cong:
  assumes "reloads_as f svc s" "svc_records t = svc_records s" "svc_record_count t = svc_record_count s"
    "svc_idempotency_records t = svc_idempotency_records s" "svc_audit_events t = svc_audit_events s"
    "svc_audit_next_sequence t = svc_audit_next_sequence s" "svc_audit_event_count t = svc_audit_event_count s"
  shows "reloads_as f svc t"
  using assms records_wf_cong [OF assms(2,3)] idem_wf_cong [OF assms(4)]
  by (simp add: reloads_as_def audit_wf_def audit_window_def)

lemma restore_exported:
  assumes wf: "records_wf svc" "idem_wf svc" "audit_wf svc" and clean: "service_clean svc"
    and export: "mem_service_export_snapshot svc n = (STATUS_OK, t)" and ready: "service_ready target"
  shows "\<exists>response target'. mem_service_restore_snapshot target t m = (STATUS_OK, response, target') \<and>
    reloads_as snapshot_record svc target' \<and>
    svc_metrics target' = svc_metrics target \<and> svc_providers target' = svc_providers target"
proof -
  have t: "t = text_of (snapshot_header svc @ table_lines snapshot_record_lines svc)"
    using export_snapshot_text(1) [OF wf(3)] export by blast
  then have ne: "t \<noteq> []" by (simp add: snapshot_header_def text_of_def)
  obtain svc' where svc': "mem_service_import_snapshot_text initial_service t = Some svc'"
    "reloads_as snapshot_record svc svc'"
    using import_exported_text [OF wf clean] t by blast
  let ?target' = "snd (snd (mem_service_restore_snapshot target t m))"
  have "mem_service_restore_snapshot target t m =
      (STATUS_OK, fst (snd (mem_service_restore_snapshot target t m)), ?target')"
    using ready ne svc'(1) by (simp add: mem_service_restore_snapshot_def init_ready)
  moreover have "reloads_as snapshot_record svc ?target'"
    by (rule reloads_as_cong [OF svc'(2)])
       (use ready ne svc'(1) in \<open>simp_all add: mem_service_restore_snapshot_def init_ready\<close>)
  moreover have "svc_metrics ?target' = svc_metrics target" "svc_providers ?target' = svc_providers target"
    using ready ne svc'(1) by (simp_all add: mem_service_restore_snapshot_def init_ready)
  ultimately show ?thesis by blast
qed

section \<open>Any text keeps the invariants\<close>

text \<open>The invariant of a reader: well-formed record and idempotency tables, and frames under
  construction whose strings fit their fields. It holds whatever the text is.\<close>

definition import_inv :: "mem_service \<times> mem_service_store_import_state \<Rightarrow> bool" where
  "import_inv s \<longleftrightarrow> records_wf (fst s) \<and> idem_wf (fst s) \<and> record_ok (imp_record (snd s)) \<and>
     length (idem_key (imp_idempotency (snd s))) < MEM_SERVICE_IDEMPOTENCY_KEY_LEN \<and>
     unat (idem_response_len (imp_idempotency (snd s))) = length (idem_response (imp_idempotency (snd s))) \<and>
     length (idem_response (imp_idempotency (snd s))) < MEM_SERVICE_IDEMPOTENCY_RESPONSE_LEN"

lemma record_ok_if: "record_ok a \<Longrightarrow> record_ok b \<Longrightarrow> record_ok (if c then a else b)"
  by simp

lemma parse_record_field_ok:
  assumes "record_ok r"
  shows "record_ok (mem_service_parse_store_record_field r name t)"
proof (cases "mem_service_member_index_from_name name")
  case None
  let ?count = "if mem_service_parse_u32_value t 0 > of_nat MEM_SERVICE_MAX_GROUP_MEMBERS
      then of_nat MEM_SERVICE_MAX_GROUP_MEMBERS else mem_service_parse_u32_value t 0"
  have "unat ?count \<le> MEM_SERVICE_MAX_GROUP_MEMBERS"
    by (simp add: MEM_SERVICE_MAX_GROUP_MEMBERS_def word_less_nat_alt)
  then have "record_ok (r \<lparr> rec_member_count := ?count \<rparr>)" using assms by (simp add: record_ok_def)
  then show ?thesis
    unfolding mem_service_parse_store_record_field_def None option.case Let_def
    by (intro record_ok_if) (use assms in \<open>simp_all add: record_ok_def\<close>)
next
  case (Some i)
  then have i: "i < MEM_SERVICE_MAX_GROUP_MEMBERS"
    by (auto simp: mem_service_member_index_from_name_def Let_def split: if_splits option.splits)
  then have "unat (of_nat i + 1 :: u32) \<le> MEM_SERVICE_MAX_GROUP_MEMBERS"
    by (simp add: MEM_SERVICE_MAX_GROUP_MEMBERS_def unat_word_ariths unat_of_nat)
  with Some assms show ?thesis
    by (simp add: mem_service_parse_store_record_field_def record_ok_def list_all_update)
qed

lemma import_record_inv:
  assumes "records_wf svc" "record_ok r" "mem_service_store_import_record svc r = Some svc'"
  shows "records_wf svc'" "svc_rest svc' = svc_rest svc"
  using assms put_record_SomeD(1) [OF assms(1), of "rec_key r" "r \<lparr> rec_in_use := True \<rparr>" svc']
    svc_rest_put [of svc "rec_key r" "r \<lparr> rec_in_use := True \<rparr>" svc']
  by (auto simp: mem_service_store_import_record_def record_ok_def split: if_splits)

lemma parse_idempotency_field_inv:
  assumes "length (idem_key r) < MEM_SERVICE_IDEMPOTENCY_KEY_LEN"
    "unat (idem_response_len r) = length (idem_response r)"
    "length (idem_response r) < MEM_SERVICE_IDEMPOTENCY_RESPONSE_LEN"
    and "mem_service_parse_store_idempotency_field r name t = Some r'"
  shows "length (idem_key r') < MEM_SERVICE_IDEMPOTENCY_KEY_LEN"
    "unat (idem_response_len r') = length (idem_response r')"
    "length (idem_response r') < MEM_SERVICE_IDEMPOTENCY_RESPONSE_LEN"
proof -
  have "length (idem_key r') < MEM_SERVICE_IDEMPOTENCY_KEY_LEN \<and>
    unat (idem_response_len r') = length (idem_response r') \<and>
    length (idem_response r') < MEM_SERVICE_IDEMPOTENCY_RESPONSE_LEN"
  proof (cases "name = ''response_line''")
    case True
    with assms have fits: "length (idem_response r) + length t + 1 < 4096"
      and r': "r' = r \<lparr> idem_response := idem_response r @ t @ [newline],
        idem_response_len := of_nat (length (idem_response r) + length t + 1) \<rparr>"
      by (auto simp: mem_service_parse_store_idempotency_field_def Let_def
          mem_service_append_idempotency_response_line_def MEM_SERVICE_IDEMPOTENCY_RESPONSE_LEN_def
          split: if_splits)
    have "unat (of_nat (length (idem_response r) + length t + 1) :: u32) = length (idem_response r) + length t + 1"
      using fits by (simp only: unat_of_nat) simp
    with fits assms(1) show ?thesis by (simp add: r' MEM_SERVICE_IDEMPOTENCY_RESPONSE_LEN_def)
  next
    case False
    have len: "0 < MEM_SERVICE_IDEMPOTENCY_KEY_LEN" by (simp add: MEM_SERVICE_IDEMPOTENCY_KEY_LEN_def)
    from False assms show ?thesis
      unfolding mem_service_parse_store_idempotency_field_def by (auto simp: len split: if_splits)
  qed
  then show "length (idem_key r') < MEM_SERVICE_IDEMPOTENCY_KEY_LEN"
    "unat (idem_response_len r') = length (idem_response r')"
    "length (idem_response r') < MEM_SERVICE_IDEMPOTENCY_RESPONSE_LEN" by blast+
qed

lemma import_idempotency_inv:
  assumes "idem_wf svc" "mem_service_store_import_idempotency svc r = Some svc'"
    and r: "length (idem_key r) < MEM_SERVICE_IDEMPOTENCY_KEY_LEN"
    "unat (idem_response_len r) = length (idem_response r)"
    "length (idem_response r) < MEM_SERVICE_IDEMPOTENCY_RESPONSE_LEN"
  shows "idem_wf svc'" "idem_rest svc' = idem_rest svc"
proof -
  let ?r = "r \<lparr> idem_in_use := True \<rparr>"
  have key: "idem_key r \<noteq> []" "idem_operation r \<noteq> 0"
    using assms(2) by (auto simp: mem_service_store_import_idempotency_def split: if_splits)
  have "mem_service_store_import_idempotency svc r = mem_service_store_import_idempotency svc ?r"
    by (simp add: mem_service_store_import_idempotency_def)
  also have "\<dots> = put_idempotency svc (idem_key r) ?r"
    using import_idempotency_put [of ?r svc] r key by (simp add: idem_ok_def)
  finally have put: "put_idempotency svc (idem_key r) ?r = Some svc'" using assms(2) by simp
  show "idem_wf svc'"
    by (rule idem_store.put_inv [OF assms(1) _ put]) (use r key in \<open>simp add: idem_fits_def idem_ok_def\<close>)
  show "idem_rest svc' = idem_rest svc" by (rule idem_store.put_rest [OF put])
qed

lemma idem_rest_eqD:
  assumes "idem_rest svc' = idem_rest svc"
  shows "svc_records svc' = svc_records svc" "svc_record_count svc' = svc_record_count svc"
  using assms by (cases svc, cases svc', simp add: idem_rest_def)+

lemma import_audit_frame:
  "mem_service_store_import_audit svc e = Some svc' \<Longrightarrow>
   svc_records svc' = svc_records svc \<and> svc_record_count svc' = svc_record_count svc \<and>
   svc_idempotency_records svc' = svc_idempotency_records svc"
  by (auto simp: mem_service_store_import_audit_def Let_def split: if_splits)

lemma import_inv_cong:
  assumes "import_inv (svc, state)" "svc_records svc' = svc_records svc"
    "svc_record_count svc' = svc_record_count svc" "svc_idempotency_records svc' = svc_idempotency_records svc"
  shows "import_inv (svc', state)"
  using assms records_wf_cong(1) [OF assms(2,3)] idem_wf_cong(1) [OF assms(4)] by (simp add: import_inv_def)

text \<open>Lines that open a frame or are empty, and field lines; the lines that close a frame are
  the imports above.\<close>

lemma import_quiet_line_inv:
  assumes inv: "import_inv (svc, state)" and run: "mem_service_import_store_line svc line state = Some s'"
    and line: "line = [] \<or> line = ''record_begin'' \<or> line = ''idempotency_begin'' \<or> line = ''audit_begin''"
  shows "import_inv s'"
proof -
  have "0 < MEM_SERVICE_IDEMPOTENCY_KEY_LEN" "0 < MEM_SERVICE_IDEMPOTENCY_RESPONSE_LEN"
    by (simp_all add: MEM_SERVICE_IDEMPOTENCY_KEY_LEN_def MEM_SERVICE_IDEMPOTENCY_RESPONSE_LEN_def)
  moreover have "record_ok (zero_record \<lparr> rec_in_use := True \<rparr>)"
    by (simp add: record_ok_def MEM_SERVICE_MAX_GROUP_MEMBERS_def list_all_iff)
  ultimately show ?thesis
    using assms by (elim disjE) (auto simp: mem_service_import_store_line_def import_inv_def split: if_splits)
qed

lemma import_field_inv:
  assumes inv: "import_inv (svc, state)" and run: "mem_service_import_store_line svc line state = Some s'"
    and line: "\<not> (line = [] \<or> line = ''record_begin'' \<or> line = ''idempotency_begin'' \<or> line = ''audit_begin'')"
      "line \<noteq> ''record_end''" "line \<noteq> ''idempotency_end''" "line \<noteq> ''audit_end''"
  shows "import_inv s'"
proof -
  have step: "mem_service_import_store_line svc line state =
      (case mem_service_parse_line_field line 96 512 of
        None \<Rightarrow> None
      | Some (name, text) \<Rightarrow>
          if imp_in_record state
          then Some (svc, state \<lparr> imp_record :=
                 mem_service_parse_store_record_field (imp_record state) name text \<rparr>)
          else if imp_in_idempotency state
          then (case mem_service_parse_store_idempotency_field (imp_idempotency state) name text of
                  None \<Rightarrow> None
                | Some r \<Rightarrow> Some (svc, state \<lparr> imp_idempotency := r \<rparr>))
          else if imp_in_audit state
          then Some (svc, state \<lparr> imp_audit :=
                 mem_service_parse_store_audit_field (imp_audit state) name text \<rparr>)
          else Some (svc, state))"
    using line unfolding mem_service_import_store_line_def by (simp only: de_Morgan_disj if_False)
  then obtain name t where parse: "mem_service_parse_line_field line 96 512 = Some (name, t)"
    using run by (auto split: option.splits)
  consider (rec) "imp_in_record state" | (idem) "\<not> imp_in_record state" "imp_in_idempotency state"
    | (other) "\<not> imp_in_record state" "\<not> imp_in_idempotency state" by blast
  then show ?thesis
  proof cases
    case rec
    with run inv show ?thesis by (auto simp: step parse import_inv_def parse_record_field_ok)
  next
    case idem
    with run obtain r where "mem_service_parse_store_idempotency_field (imp_idempotency state) name t = Some r"
      "s' = (svc, state \<lparr> imp_idempotency := r \<rparr>)"
      by (auto simp: step parse split: option.splits)
    with inv parse_idempotency_field_inv [of "imp_idempotency state" name t r] show ?thesis
      by (simp add: import_inv_def)
  next
    case other
    with run inv show ?thesis by (auto simp: step parse import_inv_def split: if_splits)
  qed
qed

lemma import_line_inv:
  assumes inv: "import_inv (svc, state)" and run: "mem_service_import_store_line svc line state = Some s'"
  shows "import_inv s'"
proof -
  have pos: "0 < MEM_SERVICE_IDEMPOTENCY_KEY_LEN" "0 < MEM_SERVICE_IDEMPOTENCY_RESPONSE_LEN"
    by (simp_all add: MEM_SERVICE_IDEMPOTENCY_KEY_LEN_def MEM_SERVICE_IDEMPOTENCY_RESPONSE_LEN_def)
  show ?thesis
  proof (cases "line = ''record_end''")
    case True
    with run obtain svc1 where "mem_service_store_import_record svc (imp_record state) = Some svc1"
      "s' = (svc1, state \<lparr> imp_record := zero_record, imp_in_record := False \<rparr>)"
      by (auto simp: mem_service_import_store_line_def split: if_splits option.splits)
    with inv import_record_inv [of svc "imp_record state" svc1] show ?thesis
      using idem_wf_cong(1) [of svc1 svc] svc_rest_eqD(2) [of svc1 svc] by (simp add: import_inv_def)
  next
    case 1: False
    show ?thesis
    proof (cases "line = ''idempotency_end''")
      case True
      with run obtain svc1 where "mem_service_store_import_idempotency svc (imp_idempotency state) = Some svc1"
        "s' = (svc1, state \<lparr> imp_idempotency := zero_idempotency_record, imp_in_idempotency := False \<rparr>)"
        by (auto simp: mem_service_import_store_line_def split: if_splits option.splits)
      with inv import_idempotency_inv [of svc "imp_idempotency state" svc1] pos show ?thesis
        using records_wf_cong(1) [of svc1 svc] idem_rest_eqD [of svc1 svc] by (simp add: import_inv_def)
    next
      case 2: False
      show ?thesis
      proof (cases "line = ''audit_end''")
        case True
        with run obtain svc1 where "mem_service_store_import_audit svc (imp_audit state) = Some svc1"
          "s' = (svc1, state \<lparr> imp_audit := zero_audit_event, imp_in_audit := False \<rparr>)"
          by (auto simp: mem_service_import_store_line_def split: if_splits option.splits)
        with import_inv_cong [OF inv] import_audit_frame show ?thesis by (simp add: import_inv_def)
      next
        case 3: False
        show ?thesis using import_quiet_line_inv [OF inv run] import_field_inv [OF inv run] 1 2 3 by blast
      qed
    qed
  qed
qed

lemma store_step_inv: "import_inv s \<Longrightarrow> store_line_step s line = Some s' \<Longrightarrow> import_inv s'"
  by (cases s) (auto simp: store_line_step_def Let_def dest: import_line_inv split: if_splits)

text \<open>An invariant of the step is an invariant of the loop.\<close>

lemma line_loop_inv:
  assumes step: "\<And>s line s'. I s \<Longrightarrow> step s line = Some s' \<Longrightarrow> I s'"
  shows "I s \<Longrightarrow> line_loop step cursor s = Some s' \<Longrightarrow> I s'"
proof (induction "length cursor" arbitrary: cursor s rule: less_induct)
  case less
  show ?case
  proof (cases "cursor = []")
    case True
    with less.prems show ?thesis by (simp add: line_loop.simps [of step "[]"])
  next
    case False
    then obtain s1 where s1: "step s (mem_service_trim_line (line_of cursor)) = Some s1"
      "(case after_line cursor of None \<Rightarrow> Some s1 | Some rest \<Rightarrow> line_loop step rest s1) = Some s'"
      using less.prems(2) by (auto simp: line_loop.simps [of step cursor] Let_def split: if_splits option.splits)
    from step [OF less.prems(1) s1(1)] s1(2) less.hyps show ?thesis
      by (auto split: option.splits dest: after_line_shorter)
  qed
qed

lemma zero_import_inv: "records_wf svc \<Longrightarrow> idem_wf svc \<Longrightarrow> import_inv (svc, zero_import_state)"
  by (simp add: import_inv_def zero_import_state_def MEM_SERVICE_IDEMPOTENCY_KEY_LEN_def
      MEM_SERVICE_IDEMPOTENCY_RESPONSE_LEN_def)

lemma import_text_wf:
  assumes "records_wf svc" "idem_wf svc" "mem_service_import_snapshot_text svc t = Some svc'"
  shows "records_wf svc'" "idem_wf svc'"
proof -
  obtain saw state where loop: "line_loop snapshot_line_step t (False, svc, zero_import_state) =
      Some (saw, svc', state)"
    using assms(3) by (auto simp: mem_service_import_snapshot_text_def split: if_splits option.splits)
  have "import_inv (snd (saw, svc', state))"
    by (rule line_loop_inv [OF _ _ loop, where I = "\<lambda>s. import_inv (snd s)"])
       (use zero_import_inv [OF assms(1,2)] in
         \<open>auto simp: snapshot_line_step_def dest: store_step_inv split: if_splits\<close>)
  then show "records_wf svc'" "idem_wf svc'" by (simp_all add: import_inv_def)
qed

lemma import_records_wf:
  assumes "records_wf svc" "idem_wf svc" "mem_service_import_snapshot_records_text svc t = Some (svc', k)"
  shows "records_wf svc'" "idem_wf svc'"
proof -
  obtain state where loop: "line_loop records_line_step t ((svc, zero_import_state), 0) = Some ((svc', state), k)"
    using assms(3) by (auto simp: mem_service_import_snapshot_records_text_def split: if_splits option.splits)
  have "import_inv (fst ((svc', state), k))"
    by (rule line_loop_inv [OF _ _ loop, where I = "\<lambda>s. import_inv (fst s)"])
       (use zero_import_inv [OF assms(1,2)] in
         \<open>auto simp: records_line_step_def dest: store_step_inv split: option.splits\<close>)
  then show "records_wf svc'" "idem_wf svc'" by (simp_all add: import_inv_def)
qed

section \<open>The stage\<close>

definition stage_wf :: "mem_service_restore_snapshot_stage \<Rightarrow> bool" where
  "stage_wf stage \<longleftrightarrow>
     (stage_active stage \<longrightarrow> records_wf (stage_svc stage) \<and> idem_wf (stage_svc stage))"

lemma stage_wf_reset: "stage_wf mem_service_restore_snapshot_stage_reset"
  by (simp add: stage_wf_def mem_service_restore_snapshot_stage_reset_def)

lemma init_cases:
  obtains "a \<and> b \<and> c" "mem_service_init a b c = (0, initial_service)"
  | rc s where "mem_service_init a b c = (rc, s)" "rc \<noteq> 0"
proof (cases "a \<and> b \<and> c")
  case True
  then show ?thesis using that(1) init_ready by simp
next
  case False
  show ?thesis
    by (rule that(2) [of "fst (mem_service_init a b c)" "snd (mem_service_init a b c)"])
       (use init_not_ready [OF False] in simp_all)
qed

lemma page_begin_wf:
  assumes "mem_service_restore_snapshot_page_begin svc payload n = (st, response, stage)"
  shows "stage_wf stage"
proof (cases rule: init_cases [of "svc_control_plane_ready svc" "svc_provider_registry_ready svc" "svc_durable_ready svc"])
  case 1
  with assms records_wf_initial idem_wf_initial(1) show ?thesis
    by (auto simp: mem_service_restore_snapshot_page_begin_def stage_wf_def Let_def split: option.splits)
next
  case (2 rc s)
  with assms show ?thesis
    by (auto simp: mem_service_restore_snapshot_page_begin_def stage_wf_def Let_def
        mem_service_restore_snapshot_stage_reset_def)
qed

lemma page_append_cases:
  assumes "mem_service_restore_snapshot_page_append stage payload n = (st, response, stage')"
  shows "stage' = stage \<or> stage' = mem_service_restore_snapshot_stage_reset \<or>
    (\<exists>svc' k. stage_active stage \<and> stage_svc stage' = svc' \<and>
       mem_service_import_snapshot_records_text (stage_svc stage) payload = Some (svc', k))"
  using assms unfolding mem_service_restore_snapshot_page_append_def Let_def
  by (auto split: if_splits option.splits)

lemma page_append_wf:
  assumes wf: "stage_wf stage"
    and run: "mem_service_restore_snapshot_page_append stage payload n = (st, response, stage')"
  shows "stage_wf stage'"
proof -
  consider "stage' = stage" | "stage' = mem_service_restore_snapshot_stage_reset"
    | svc' k where "stage_active stage" "stage_svc stage' = svc'"
      "mem_service_import_snapshot_records_text (stage_svc stage) payload = Some (svc', k)"
    using page_append_cases [OF run] by blast
  then show ?thesis
  proof cases
    case (3 svc' k)
    then have "records_wf (stage_svc stage)" "idem_wf (stage_svc stage)" using wf by (simp_all add: stage_wf_def)
    from import_records_wf [OF this 3(3)] 3(2) show ?thesis by (simp add: stage_wf_def)
  qed (use wf stage_wf_reset in simp_all)
qed

text \<open>When a commit is admitted, and what it does.\<close>

definition stage_complete :: "mem_service_restore_snapshot_stage \<Rightarrow> bool" where
  "stage_complete stage \<longleftrightarrow> stage_active stage \<and>
     (if stage_has_expected_records stage then svc_record_count (stage_svc stage) = stage_expected_records stage
      else stage_saw_complete stage)"

lemma page_commit_exact:
  assumes "mem_service_restore_snapshot_page_commit svc stage n = (st, response, svc', stage')"
  shows "if stage_complete stage
    then st = STATUS_OK \<and> stage' = mem_service_restore_snapshot_stage_reset \<and>
     svc_records svc' = svc_records (stage_svc stage) \<and> svc_record_count svc' = svc_record_count (stage_svc stage) \<and>
     svc_idempotency_records svc' = svc_idempotency_records initial_service \<and>
     svc_audit_events svc' = svc_audit_events initial_service \<and>
     svc_audit_next_sequence svc' = 1 \<and> svc_audit_event_count svc' = 0 \<and>
     svc_metrics svc' = svc_metrics svc \<and> svc_providers svc' = svc_providers svc
    else st \<noteq> STATUS_OK \<and> svc' = svc \<and> stage' = stage"
  using assms by (auto simp: mem_service_restore_snapshot_page_commit_def stage_complete_def split: if_splits)

lemma page_commit_cases:
  assumes "mem_service_restore_snapshot_page_commit svc stage n = (st, response, svc', stage')"
  shows "(st \<noteq> STATUS_OK \<and> svc' = svc \<and> stage' = stage) \<or>
    (st = STATUS_OK \<and> stage_active stage \<and> stage' = mem_service_restore_snapshot_stage_reset \<and>
     svc_records svc' = svc_records (stage_svc stage) \<and> svc_record_count svc' = svc_record_count (stage_svc stage) \<and>
     svc_idempotency_records svc' = svc_idempotency_records initial_service \<and>
     svc_audit_events svc' = svc_audit_events initial_service \<and>
     svc_audit_next_sequence svc' = 1 \<and> svc_audit_event_count svc' = 0 \<and>
     svc_metrics svc' = svc_metrics svc \<and> svc_providers svc' = svc_providers svc)"
  using page_commit_exact [OF assms] by (auto simp: stage_complete_def split: if_splits)

lemma page_commit_installs:
  assumes wf: "stage_wf stage" and complete: "stage_complete stage"
    and run: "mem_service_restore_snapshot_page_commit svc stage n = (st, response, svc', stage')"
  shows "st = STATUS_OK \<and> stage' = mem_service_restore_snapshot_stage_reset \<and>
    records_wf svc' \<and> record_map svc' = record_map (stage_svc stage) \<and> idem_wf svc' \<and>
    completed_map svc' = Map.empty \<and> audit_wf svc' \<and> audit_window svc' = [] \<and>
    svc_metrics svc' = svc_metrics svc \<and> svc_providers svc' = svc_providers svc"
proof -
  have c: "st = STATUS_OK" "stage' = mem_service_restore_snapshot_stage_reset"
    "svc_records svc' = svc_records (stage_svc stage)"
    "svc_record_count svc' = svc_record_count (stage_svc stage)"
    "svc_idempotency_records svc' = svc_idempotency_records initial_service"
    "svc_audit_events svc' = svc_audit_events initial_service"
    "svc_audit_next_sequence svc' = 1" "svc_audit_event_count svc' = 0"
    "svc_metrics svc' = svc_metrics svc" "svc_providers svc' = svc_providers svc"
    using page_commit_exact [OF run] complete by simp_all
  have "audit_wf svc'" "audit_window svc' = []"
    using audit_wf_initial by (simp_all add: audit_wf_def audit_window_def c(6-8))
  moreover have "records_wf (stage_svc stage)" using wf complete by (simp add: stage_wf_def stage_complete_def)
  ultimately show ?thesis
    using c records_wf_cong [OF c(3,4)] idem_wf_cong [OF c(5)] idem_wf_initial by simp
qed

lemma page_append_ok:
  assumes "mem_service_restore_snapshot_page_append stage payload n = (STATUS_OK, response, stage')"
  shows "stage_active stage \<and> stage_active stage' \<and>
    mem_service_wire_payload_get_u64_checked payload ''page_index'' = Some (stage_next_page_index stage) \<and>
    stage_next_page_index stage' = stage_next_page_index stage + 1 \<and>
    (\<exists>k. mem_service_import_snapshot_records_text (stage_svc stage) payload = Some (stage_svc stage', k))"
  using assms unfolding mem_service_restore_snapshot_page_append_def Let_def
  by (auto split: if_splits option.splits)

lemma restore_page_cases:
  assumes run: "mem_service_restore_snapshot_page svc stage payload n = (st, response, svc', stage')"
  shows "(mem_service_restore_snapshot_page_begin svc payload n = (st, response, stage') \<and> svc' = svc) \<or>
    (mem_service_restore_snapshot_page_append stage payload n = (st, response, stage') \<and> svc' = svc) \<or>
    mem_service_restore_snapshot_page_commit svc stage n = (st, response, svc', stage') \<or>
    (svc' = svc \<and> (stage' = stage \<or> stage' = mem_service_restore_snapshot_stage_reset))"
proof (cases "mem_service_payload_get_string payload ''action'' 32")
  case None
  with run show ?thesis by (simp add: mem_service_restore_snapshot_page_def)
next
  case (Some action)
  note run = run [unfolded mem_service_restore_snapshot_page_def Some option.case]
  obtain b a where ba: "mem_service_restore_snapshot_page_begin svc payload n = b"
    "mem_service_restore_snapshot_page_append stage payload n = a" by simp
  show ?thesis
  proof (cases "action = ''begin''")
    case True
    then show ?thesis using run ba(1) by (cases b) auto
  next
    case 1: False
    show ?thesis
    proof (cases "action = ''append''")
      case True
      then show ?thesis using run ba(2) by (cases a) auto
    next
      case 2: False
      show ?thesis
        using run [simplified 1 2 if_False] by (cases "action = ''commit''"; cases "action = ''cancel''") simp_all
    qed
  qed
qed

section \<open>Properties\<close>

text \<open>C35. Exporting and restoring a snapshot gives the tables back. For a service whose strings the
  line format can carry (no newline, no trailing carriage return) and a response that holds the
  text, the export succeeds; restoring its text into any ready service succeeds and yields the
  same records by key (except that the backend reference is reset and hashes beyond the member
  count are cleared), the same completed requests (a response without a final newline gains
  one), the same retained audit events and, unless there are none, the same next sequence number, with
  well-formed tables; metrics and providers of the target are untouched.\<close>

theorem snapshot_roundtrip:
  assumes "records_wf svc" "idem_wf svc" "audit_wf svc" "service_clean svc"
    and "length (text_of (snapshot_header svc @ table_lines snapshot_record_lines svc)) < n"
    and "service_ready target"
  shows "\<exists>t response target'. mem_service_export_snapshot svc n = (STATUS_OK, t) \<and>
    mem_service_restore_snapshot target t m = (STATUS_OK, response, target') \<and>
    reloads_as snapshot_record svc target' \<and>
    svc_metrics target' = svc_metrics target \<and> svc_providers target' = svc_providers target"
proof -
  have "mem_service_export_snapshot svc n =
      (STATUS_OK, text_of (snapshot_header svc @ table_lines snapshot_record_lines svc))"
    using export_snapshot_text(2) [OF assms(3)] assms(5) by blast
  with restore_exported [OF assms(1-4) this assms(6), of m] show ?thesis by blast
qed

text \<open>Restoring fails closed. Whatever the text is, \<open>mem_service_restore_snapshot\<close> either answers
  \<open>invalid_session\<close> and leaves the service as it was, or answers ok with well-formed record and
  idempotency tables and untouched metrics and providers; the empty text and a service that is not ready are
  refused.\<close>

theorem restore_snapshot_fail_closed:
  "\<exists>response svc'.
     (mem_service_restore_snapshot svc payload n = (STATUS_INVALID_SESSION, response, svc') \<and> svc' = svc \<and> response = []) \<or>
     (mem_service_restore_snapshot svc payload n = (STATUS_OK, response, svc') \<and>
      service_ready svc \<and> payload \<noteq> [] \<and> records_wf svc' \<and> idem_wf svc' \<and>
      svc_metrics svc' = svc_metrics svc \<and> svc_providers svc' = svc_providers svc)"
proof (cases rule: init_cases [of "svc_control_plane_ready svc" "svc_provider_registry_ready svc" "svc_durable_ready svc"])
  case 1
  show ?thesis
  proof (cases "if payload = [] then None else mem_service_import_snapshot_text initial_service payload")
    case None
    then have "mem_service_restore_snapshot svc payload n = (STATUS_INVALID_SESSION, [], svc)"
      using 1 by (auto simp: mem_service_restore_snapshot_def split: if_splits)
    then show ?thesis by blast
  next
    case (Some restored)
    then have p: "payload \<noteq> []" "mem_service_import_snapshot_text initial_service payload = Some restored"
      by (auto split: if_splits)
    note wf = import_text_wf [OF records_wf_initial idem_wf_initial(1) p(2)]
    obtain response svc' where run: "mem_service_restore_snapshot svc payload n = (STATUS_OK, response, svc')"
      and svc': "svc_records svc' = svc_records restored" "svc_record_count svc' = svc_record_count restored"
        "svc_idempotency_records svc' = svc_idempotency_records restored"
        "svc_metrics svc' = svc_metrics svc" "svc_providers svc' = svc_providers svc"
      using 1 p by (simp add: mem_service_restore_snapshot_def)
    then show ?thesis
      using wf records_wf_cong(1) [OF svc'(1,2)] idem_wf_cong(1) [OF svc'(3)] 1(1) p(1) by blast
  qed
next
  case (2 rc s)
  then have "mem_service_restore_snapshot svc payload n = (STATUS_INVALID_SESSION, [], svc)"
    by (simp add: mem_service_restore_snapshot_def)
  then show ?thesis by blast
qed

text \<open>C37. The staged restore never exposes a partial snapshot. Every action keeps the stage well
  formed, and every action but a commit leaves the service alone. A commit is answered ok exactly when
  the stage is active and has the announced number of records, or, when none was announced, has seen its
  last page. It then installs exactly the staged records, with no completed requests and an empty audit
  log, keeps metrics and providers, and resets the stage; otherwise it changes neither the service nor
  the stage. A page is taken only if it is the next one, and adds its records to the staged ones; a
  cancel resets the stage.\<close>

theorem staged_restore_safe:
  assumes "stage_wf stage"
    and "mem_service_restore_snapshot_page svc stage payload n = (st, response, svc', stage')"
  shows "stage_wf stage' \<and>
    (case mem_service_payload_get_string payload ''action'' 32 of
       None \<Rightarrow> st = STATUS_INVALID_SESSION \<and> svc' = svc \<and> stage' = stage
     | Some action \<Rightarrow>
         if action = ''commit'' then
           (if stage_complete stage
            then st = STATUS_OK \<and> stage' = mem_service_restore_snapshot_stage_reset \<and>
              records_wf svc' \<and> record_map svc' = record_map (stage_svc stage) \<and> idem_wf svc' \<and>
              completed_map svc' = Map.empty \<and> audit_wf svc' \<and> audit_window svc' = [] \<and>
              svc_metrics svc' = svc_metrics svc \<and> svc_providers svc' = svc_providers svc
            else st \<noteq> STATUS_OK \<and> svc' = svc \<and> stage' = stage)
         else svc' = svc \<and>
           (action = ''append'' \<and> st = STATUS_OK \<longrightarrow>
              stage_active stage \<and> stage_active stage' \<and>
              mem_service_wire_payload_get_u64_checked payload ''page_index'' = Some (stage_next_page_index stage) \<and>
              stage_next_page_index stage' = stage_next_page_index stage + 1 \<and>
              (\<exists>k. mem_service_import_snapshot_records_text (stage_svc stage) payload = Some (stage_svc stage', k))) \<and>
           (action = ''cancel'' \<longrightarrow> st = STATUS_OK \<and> stage' = mem_service_restore_snapshot_stage_reset))"
proof (cases "mem_service_payload_get_string payload ''action'' 32")
  case None
  with assms show ?thesis by (simp add: mem_service_restore_snapshot_page_def)
next
  case (Some action)
  note run = assms(2) [unfolded mem_service_restore_snapshot_page_def Some option.case]
  consider (start) "action = ''begin''" | (append) "action = ''append''" | (commit) "action = ''commit''"
    | (cancel) "action = ''cancel''" | (other) "action \<notin> {''begin'', ''append'', ''commit'', ''cancel''}" by blast
  then show ?thesis
  proof cases
    case start
    with run have "mem_service_restore_snapshot_page_begin svc payload n = (st, response, stage')" "svc' = svc"
      by (auto split: prod.splits)
    with start Some page_begin_wf show ?thesis by simp
  next
    case append
    with run have a: "mem_service_restore_snapshot_page_append stage payload n = (st, response, stage')" "svc' = svc"
      by (auto split: prod.splits)
    with append Some page_append_wf [OF assms(1) a(1)] page_append_ok show ?thesis by auto
  next
    case commit
    with run have c: "mem_service_restore_snapshot_page_commit svc stage n = (st, response, svc', stage')" by simp
    show ?thesis
      using page_commit_installs [OF assms(1) _ c] page_commit_exact [OF c] commit Some assms(1) stage_wf_reset
      by (cases "stage_complete stage") simp_all
  next
    case cancel
    with run Some stage_wf_reset show ?thesis by auto
  next
    case other
    with run Some assms(1) show ?thesis by auto
  qed
qed

section \<open>Witnesses\<close>

text \<open>A service that holds one object stored on the UB-SSD backend.\<close>

definition backed_object :: mem_service_record where
  "backed_object = zero_record
     \<lparr> rec_in_use := True, rec_key := ''obj'', rec_kind := RECORD_KVCACHE_OBJECT, rec_version := 7,
       rec_object_payload_checksum := 12345,
       rec_object_backend_kind := MEM_SERVICE_OBJECT_BACKEND_UB_SSD_GSVA, rec_object_backend_block_lo := 42 \<rparr>"

definition backed_service :: mem_service where
  "backed_service = initial_service
     \<lparr> svc_records := backed_object # replicate (MEM_SERVICE_MAX_RECORDS - 1) zero_record,
       svc_record_count := 1 \<rparr>"

lemma backed_service_wf:
  "records_wf backed_service" "idem_wf backed_service" "audit_wf backed_service" "service_clean backed_service"
  "audit_window backed_service = []" "record_map backed_service ''obj'' = Some backed_object"
proof -
  let ?rs = "backed_object # replicate (MEM_SERVICE_MAX_RECORDS - 1) zero_record"
  have ok: "record_ok backed_object" "rec_in_use backed_object" "rec_key backed_object = ''obj''"
    by (simp_all add: backed_object_def record_ok_def MEM_SERVICE_MAX_GROUP_MEMBERS_def list_all_iff)
  have len: "length ?rs = MEM_SERVICE_MAX_RECORDS" by (simp add: MEM_SERVICE_MAX_RECORDS_def)
  have "recs.keys_distinct ?rs"
    by (auto simp: recs.keys_distinct_def nth_Cons split: nat.splits)
  with ok len show wf: "records_wf backed_service"
    by (simp add: records_wf_def backed_service_def used_records_def list_all_iff)
  show "idem_wf backed_service" "audit_wf backed_service" "audit_window backed_service = []"
    using idem_wf_initial(1) audit_wf_initial
    by (simp_all add: backed_service_def idem_wf_def audit_wf_def audit_window_def)
  have "record_clean backed_object"
    by (simp add: record_clean_def backed_object_def list_all_iff record_kind_of_code_def all_record_kinds_def
        kvcache_state_of_code_def clean_def)
  then show "service_clean backed_service"
    by (simp add: service_clean_def backed_service_def list_all_iff ok backed_object_def)
  show "record_map backed_service ''obj'' = Some backed_object"
    using find_record_at [OF wf, of 0] ok by (simp add: backed_service_def)
qed

lemma text_of_length: "\<forall>l \<in> set ls. length l < 512 \<Longrightarrow> length (text_of ls) \<le> 512 * length ls"
  by (induction ls) (auto simp: text_of_Cons)

lemma backed_service_text:
  "length (text_of (snapshot_header backed_service @ table_lines snapshot_record_lines backed_service)) < 20000"
proof -
  let ?ls = "snapshot_header backed_service @ table_lines snapshot_record_lines backed_service"
  have "table_lines snapshot_record_lines backed_service = snapshot_record_lines backed_object"
    using backed_service_wf(5) by (simp add: table_lines_def backed_service_def backed_object_def)
  then have len: "length ?ls = 32"
    by (simp add: snapshot_header_def snapshot_record_lines_def field_lines_def record_fields_def member_fields_def
        backed_object_def)
  have "\<forall>l \<in> set ?ls. length l < 512" using snapshot_lines_ok [OF backed_service_wf(1-4)] by blast
  from text_of_length [OF this] len show ?thesis by simp
qed

theorem snapshot_roundtrip_witness:
  "\<exists>t response target'. mem_service_export_snapshot backed_service 20000 = (STATUS_OK, t) \<and>
     mem_service_restore_snapshot initial_service t 128 = (STATUS_OK, response, target') \<and>
     record_map target' ''obj'' = Some (snapshot_record backed_object)"
proof -
  have "service_ready initial_service"
    by (simp add: initial_service_def mem_service_init_def zero_service_def mem_service_provider_registry_init_def)
  from snapshot_roundtrip [OF backed_service_wf(1-4) backed_service_text this, of 128] backed_service_wf(6)
  show ?thesis by (auto simp: reloads_as_def)
qed

text \<open>The snapshot does not carry the backend reference of an object: after export and restore the
  object no longer names the block it is stored in.\<close>

lemma snapshot_drops_backend:
  "\<exists>t response target' r. mem_service_export_snapshot backed_service 20000 = (STATUS_OK, t) \<and>
     mem_service_restore_snapshot initial_service t 128 = (STATUS_OK, response, target') \<and>
     record_map backed_service ''obj'' = Some backed_object \<and> record_map target' ''obj'' = Some r \<and>
     rec_object_backend_kind backed_object \<noteq> rec_object_backend_kind r"
proof -
  have "service_ready initial_service"
    by (simp add: initial_service_def mem_service_init_def zero_service_def mem_service_provider_registry_init_def)
  moreover have t: "mem_service_export_snapshot backed_service 20000 =
      (STATUS_OK, text_of (snapshot_header backed_service @ table_lines snapshot_record_lines backed_service))"
    using export_snapshot_text(2) [OF backed_service_wf(3)] backed_service_text by blast
  ultimately obtain response target' where r: "mem_service_restore_snapshot initial_service
      (text_of (snapshot_header backed_service @ table_lines snapshot_record_lines backed_service)) 128 =
        (STATUS_OK, response, target')" "reloads_as snapshot_record backed_service target'"
    using restore_exported [OF backed_service_wf(1-4) t, of initial_service 128] by blast
  then have "record_map target' ''obj'' = Some (snapshot_record backed_object)"
    using backed_service_wf(6) by (simp add: reloads_as_def)
  moreover have "rec_object_backend_kind backed_object \<noteq> rec_object_backend_kind (snapshot_record backed_object)"
    by (simp add: backed_object_def without_backend_def reread_record_def MEM_SERVICE_OBJECT_BACKEND_UB_SSD_GSVA_def)
  ultimately show ?thesis using t r(1) backed_service_wf(6) by blast
qed

theorem staged_restore_safe_witness:
  "\<exists>response svc' stage'.
     mem_service_restore_snapshot_page initial_service
       (mem_service_restore_snapshot_stage_reset
          \<lparr> stage_active := True, stage_has_expected_records := True, stage_expected_records := 1,
            stage_svc := backed_service \<rparr>)
       (kv ''action'' ''commit'') 64 = (STATUS_OK, response, svc', stage') \<and>
     record_map svc' ''obj'' = Some backed_object \<and> stage_wf stage'"
proof -
  let ?stage = "mem_service_restore_snapshot_stage_reset
      \<lparr> stage_active := True, stage_has_expected_records := True, stage_expected_records := 1,
        stage_svc := backed_service \<rparr>"
  have wf: "stage_wf ?stage" using backed_service_wf(1,2) by (simp add: stage_wf_def)
  have "payload_find ''action'' (kv ''action'' ''commit'') = Some ''commit''"
    unfolding kv_def by (rule payload_find_single) simp_all
  then have action: "mem_service_payload_get_string (kv ''action'' ''commit'') ''action'' 32 = Some ''commit''"
    by (simp add: mem_service_wire_payload_get_string_def nonempty_def)
  then obtain response svc' stage' where run:
      "mem_service_restore_snapshot_page initial_service ?stage (kv ''action'' ''commit'') 64 =
        (STATUS_OK, response, svc', stage')"
    and same: "svc_records svc' = svc_records backed_service"
    by (simp add: mem_service_restore_snapshot_page_def mem_service_restore_snapshot_page_commit_def
        backed_service_def)
  have "stage_complete ?stage" by (simp add: stage_complete_def backed_service_def)
  with staged_restore_safe [OF wf run] action backed_service_wf(6) run show ?thesis by auto
qed

end
