(* ===== verification/Durable_Store.thy ===== *)
theory Durable_Store
  imports Snapshot
begin

text \<open>
  The store file and the journal (\<open>mem_service_daemon.c\<close>). The store file holds the whole
  service as a store text and is replaced atomically: it is written under a temporary name and
  renamed. The journal holds the idempotency record and the audit event of each audited request
  since the last compaction; it is appended to and synced before the store is replaced. On
  start the store is loaded first, the journal on top of it.

  Files are the byte files of \<open>Block_Store\<close>; the readers see them as text (a file written by the
  service holds no NUL byte). \<open>fgets\<close> with a buffer of 512 characters splits longer lines. When
  an append fails, or the machine stops in the middle of one, only a prefix of the text reached
  the file: \<open>torn\<close> is its length.
\<close>

section \<open>Reading a file line by line\<close>

text \<open>\<open>fgets (line, 512, file)\<close>: what it stores, before the line end is trimmed, and what is
  left of the file.\<close>

definition fgets_take :: "cstr \<Rightarrow> cstr" where
  "fgets_take s = (let n = length (line_of s) in if n < 511 then take (n + 1) s else take 511 s)"

definition fgets_rest :: "cstr \<Rightarrow> cstr" where
  "fgets_rest s = (let n = length (line_of s) in if n < 511 then drop (n + 1) s else drop 511 s)"

lemma fgets_rest_shorter: "s \<noteq> [] \<Longrightarrow> length (fgets_rest s) < length s"
  by (simp add: fgets_rest_def Let_def)

text \<open>The successive lines, each one trimmed.\<close>

function file_lines :: "cstr \<Rightarrow> cstr list" where
  "file_lines s = (if s = [] then [] else mem_service_trim_line (fgets_take s) # file_lines (fgets_rest s))"
  by pat_completeness auto
termination
  by (relation "measure length") (auto intro: fgets_rest_shorter)

declare file_lines.simps [simp del]

section \<open>Loading\<close>

definition MEM_SERVICE_JOURNAL_MAGIC :: cstr where
  "MEM_SERVICE_JOURNAL_MAGIC = ''mem_service_journal_v1''"

definition MEM_SERVICE_JOURNAL_COMPACTION_THRESHOLD_BYTES :: nat where
  "MEM_SERVICE_JOURNAL_COMPACTION_THRESHOLD_BYTES = 4096"

definition mem_service_make_journal_path :: "cstr \<Rightarrow> nat \<Rightarrow> cstr option" where
  "mem_service_make_journal_path store_path journal_path_len =
     (if store_path = [] \<or> journal_path_len = 0 then None
      else let path = store_path @ ''.journal'' in
        if length path < journal_path_len then Some path else None)"

text \<open>The readers return the service, \<open>None\<close> for the result -1. The store reader also returns
  whether the file names no schema version.\<close>

definition load_line_step ::
  "(mem_service \<times> mem_service_store_import_state) \<times> bool \<Rightarrow> cstr \<Rightarrow>
   ((mem_service \<times> mem_service_store_import_state) \<times> bool) option" where
  "load_line_step t line =
     (case t of (s, saw) \<Rightarrow>
        if line = [] then Some (s, saw)
        else map_option
          (\<lambda>s'. (s', saw \<or> (\<not> in_frame (snd s) \<and>
                 snd (mem_service_parse_schema_version_line line ''store_schema_version=''
                        MEM_SERVICE_STORE_MAX_KNOWN_SCHEMA_VERSION))))
          (store_line_step s line))"

definition mem_service_load_store ::
  "io_env \<Rightarrow> mem_service \<Rightarrow> cstr \<Rightarrow> file_world \<Rightarrow> (mem_service \<times> bool) option" where
  "mem_service_load_store env svc store_path fw =
     (if store_path = [] then Some (svc, False)
      else case fw_files fw store_path of
        None \<Rightarrow> Some (svc, False)
      | Some bytes \<Rightarrow>
          if \<not> io_open_ok env store_path then None
          else (case file_lines (cstr_of bytes) of
                  [] \<Rightarrow> None
                | magic # ls \<Rightarrow>
                    if magic \<noteq> MEM_SERVICE_STORE_MAGIC then None
                    else (case run_steps load_line_step ls ((svc, zero_import_state), False) of
                            None \<Rightarrow> None
                          | Some ((svc', state), saw) \<Rightarrow>
                              if in_frame state then None else Some (svc', \<not> saw))))"

definition journal_line_step ::
  "mem_service \<times> mem_service_store_import_state \<Rightarrow> cstr \<Rightarrow>
   (mem_service \<times> mem_service_store_import_state) option" where
  "journal_line_step s line =
     (if line = [] then Some s else mem_service_import_store_line (fst s) line (snd s))"

definition mem_service_load_journal ::
  "io_env \<Rightarrow> mem_service \<Rightarrow> cstr \<Rightarrow> file_world \<Rightarrow> mem_service option" where
  "mem_service_load_journal env svc store_path fw =
     (if store_path = [] then Some svc
      else case mem_service_make_journal_path store_path 512 of
        None \<Rightarrow> None
      | Some journal_path \<Rightarrow>
          (case fw_files fw journal_path of
             None \<Rightarrow> Some svc
           | Some bytes \<Rightarrow>
               if \<not> io_open_ok env journal_path then None
               else (case file_lines (cstr_of bytes) of
                       [] \<Rightarrow> None
                     | magic # ls \<Rightarrow>
                         if magic \<noteq> MEM_SERVICE_JOURNAL_MAGIC then None
                         else map_option fst (run_steps journal_line_step ls (svc, zero_import_state)))))"

section \<open>Saving\<close>

text \<open>The events found at the sequence numbers from one on.\<close>

function audit_events_from :: "mem_service \<Rightarrow> u64 \<Rightarrow> mem_service_audit_event list" where
  "audit_events_from svc sequence =
     (if sequence < svc_audit_next_sequence svc
      then (case mem_service_find_audit_sequence svc sequence of
              None \<Rightarrow> audit_events_from svc (sequence + 1)
            | Some event \<Rightarrow> event # audit_events_from svc (sequence + 1))
      else [])"
  by pat_completeness auto
termination
  by (relation "measure (\<lambda>(svc, sequence). unat (svc_audit_next_sequence svc) - unat sequence)")
     (auto intro: audit_step_less)

declare audit_events_from.simps [simp del]

definition mem_service_save_record :: "mem_service_record \<Rightarrow> cstr" where
  "mem_service_save_record r = (if rec_in_use r then text_of (store_record_lines r) else [])"

definition mem_service_save_idempotency_record :: "mem_service_idempotency_record \<Rightarrow> cstr" where
  "mem_service_save_idempotency_record r = (if idem_in_use r then text_of (idempotency_lines r) else [])"

definition mem_service_save_audit_event :: "mem_service_audit_event \<Rightarrow> cstr" where
  "mem_service_save_audit_event event = (if aud_in_use event then text_of (audit_lines event) else [])"

definition store_text :: "mem_service \<Rightarrow> cstr" where
  "store_text svc =
     text_of (snapshot_header svc) @
     concat (map mem_service_save_record (svc_records svc)) @
     concat (map mem_service_save_idempotency_record (svc_idempotency_records svc)) @
     concat (map mem_service_save_audit_event
       (audit_events_from svc
         (if svc_audit_next_sequence svc > of_nat MEM_SERVICE_MAX_AUDIT_EVENTS + 1
          then svc_audit_next_sequence svc - of_nat MEM_SERVICE_MAX_AUDIT_EVENTS else 1)))"

definition mem_service_save_store ::
  "io_env \<Rightarrow> mem_service \<Rightarrow> cstr \<Rightarrow> file_world \<Rightarrow> int \<times> file_world" where
  "mem_service_save_store env svc store_path fw =
     (if store_path = [] then (0, fw)
      else let tmp_path = store_path @ ''.tmp.'' @ decimal (io_pid env) in
        if length tmp_path \<ge> 512 then (-1, fw)
        else case fs_write_file env tmp_path (bytes_of (store_text svc)) fw of (written, fw1) \<Rightarrow>
          if \<not> written then (-1, fw1)
          else case fs_rename env tmp_path store_path fw1 of (renamed, fw2) \<Rightarrow>
            if renamed then (0, fw2) else (-1, fs_unlink tmp_path fw2))"

text \<open>\<open>mem_service_journal_needs_header\<close>: \<open>None\<close> is the result -1.\<close>

definition mem_service_journal_needs_header :: "io_env \<Rightarrow> cstr \<Rightarrow> file_world \<Rightarrow> bool option" where
  "mem_service_journal_needs_header env journal_path fw =
     (case fw_files fw journal_path of
        None \<Rightarrow> Some True
      | Some bytes \<Rightarrow>
          if \<not> io_open_ok env journal_path then None
          else (case file_lines (cstr_of bytes) of
                  [] \<Rightarrow> Some True
                | line # _ \<Rightarrow> if line = MEM_SERVICE_JOURNAL_MAGIC then Some False else None))"

definition fs_append_file :: "io_env \<Rightarrow> nat \<Rightarrow> cstr \<Rightarrow> u8 list \<Rightarrow> file_world \<Rightarrow> bool \<times> file_world" where
  "fs_append_file env torn path bytes fw =
     (if \<not> io_create_ok env path then (False, fw)
      else let old = (case fw_files fw path of None \<Rightarrow> [] | Some b \<Rightarrow> b) in
        if io_write_ok env path then (True, fw \<lparr> fw_files := (fw_files fw)(path \<mapsto> old @ bytes) \<rparr>)
        else (False, fw \<lparr> fw_files := (fw_files fw)(path \<mapsto> old @ take torn bytes) \<rparr>))"

definition mem_service_append_journal ::
  "io_env \<Rightarrow> nat \<Rightarrow> cstr \<Rightarrow> mem_service_idempotency_record option \<Rightarrow> mem_service_audit_event option \<Rightarrow>
   file_world \<Rightarrow> int \<times> file_world" where
  "mem_service_append_journal env torn store_path idempotency event fw =
     (if store_path = [] then (0, fw)
      else case mem_service_make_journal_path store_path 512 of
        None \<Rightarrow> (-1, fw)
      | Some journal_path \<Rightarrow>
          (case mem_service_journal_needs_header env journal_path fw of
             None \<Rightarrow> (-1, fw)
           | Some needs_header \<Rightarrow>
               (case fs_append_file env torn journal_path
                       (bytes_of
                         ((if needs_header then MEM_SERVICE_JOURNAL_MAGIC @ [newline] else []) @
                          (case idempotency of None \<Rightarrow> [] | Some r \<Rightarrow> mem_service_save_idempotency_record r) @
                          (case event of None \<Rightarrow> [] | Some e \<Rightarrow> mem_service_save_audit_event e))) fw of
                  (ok, fw') \<Rightarrow> (if ok then 0 else -1, fw'))))"

definition mem_service_rewrite_journal_header :: "io_env \<Rightarrow> cstr \<Rightarrow> file_world \<Rightarrow> int \<times> file_world" where
  "mem_service_rewrite_journal_header env journal_path fw =
     (if journal_path = [] then (-1, fw)
      else let tmp_path = journal_path @ ''.compact.'' @ decimal (io_pid env) in
        if length tmp_path \<ge> 512 then (-1, fw)
        else case fs_write_file env tmp_path (bytes_of (MEM_SERVICE_JOURNAL_MAGIC @ [newline])) fw of (written, fw1) \<Rightarrow>
          if \<not> written then (-1, fw1)
          else case fs_rename env tmp_path journal_path fw1 of (renamed, fw2) \<Rightarrow>
            if renamed then (0, fw2) else (-1, fs_unlink tmp_path fw2))"

definition mem_service_compact_journal :: "io_env \<Rightarrow> cstr \<Rightarrow> file_world \<Rightarrow> int \<times> file_world" where
  "mem_service_compact_journal env store_path fw =
     (if store_path = [] then (0, fw)
      else case mem_service_make_journal_path store_path 512 of
        None \<Rightarrow> (0, fw)
      | Some journal_path \<Rightarrow>
          (case fw_files fw journal_path of
             None \<Rightarrow> (0, fw)
           | Some bytes \<Rightarrow>
               if length bytes \<le> MEM_SERVICE_JOURNAL_COMPACTION_THRESHOLD_BYTES then (0, fw)
               else mem_service_rewrite_journal_header env journal_path fw))"

definition mem_service_compact_journal_now :: "io_env \<Rightarrow> cstr \<Rightarrow> file_world \<Rightarrow> int \<times> file_world" where
  "mem_service_compact_journal_now env store_path fw =
     (if store_path = [] then (0, fw)
      else case mem_service_make_journal_path store_path 512 of
        None \<Rightarrow> (0, fw)
      | Some journal_path \<Rightarrow> mem_service_rewrite_journal_header env journal_path fw)"

definition mem_service_load_durable_store ::
  "io_env \<Rightarrow> mem_service \<Rightarrow> cstr \<Rightarrow> file_world \<Rightarrow> (mem_service \<times> file_world) option" where
  "mem_service_load_durable_store env svc store_path fw =
     (case mem_service_load_store env svc store_path fw of
        None \<Rightarrow> None
      | Some (svc1, legacy_schema) \<Rightarrow>
          (case mem_service_load_journal env svc1 store_path fw of
             None \<Rightarrow> None
           | Some svc2 \<Rightarrow>
               if \<not> legacy_schema then Some (svc2, fw)
               else case mem_service_save_store env svc2 store_path fw of (rc, fw1) \<Rightarrow>
                 if rc \<noteq> 0 then None
                 else case mem_service_compact_journal env store_path fw1 of (rc2, fw2) \<Rightarrow>
                   if rc2 \<noteq> 0 then None else Some (svc2, fw2)))"

section \<open>Texts and their lines\<close>

text \<open>A line that fits the buffer is read as it was printed; a line of 511 characters fills it, and
  an empty line follows.\<close>

lemma file_lines_line:
  assumes "clean l" "length l < 512"
  shows "file_lines (l @ newline # rest) = (if length l < 511 then l # file_lines rest else l # [] # file_lines rest)"
proof -
  have l: "newline \<notin> set l" "mem_service_trim_line l = l" using assms(1) by (auto simp: clean_def trim_clean)
  have line: "line_of (l @ newline # rest) = l" "line_of (newline # rest) = []"
    using line_of_append [OF l(1)] by (simp_all add: line_of_def)
  have trim: "mem_service_trim_line (l @ [newline]) = l"
    using assms(1) by (cases l rule: rev_cases) (auto simp: mem_service_trim_line_def clean_def)
  show ?thesis
  proof (cases "length l < 511")
    case True
    then show ?thesis
      by (subst file_lines.simps) (simp add: fgets_take_def fgets_rest_def line trim)
  next
    case False
    then have n: "length l = 511" using assms(2) by simp
    have "file_lines (newline # rest) = [] # file_lines rest"
      by (subst file_lines.simps) (simp add: fgets_take_def fgets_rest_def line mem_service_trim_line_def)
    then show ?thesis
      using n by (subst file_lines.simps) (simp add: fgets_take_def fgets_rest_def line l(2))
  qed
qed

lemma run_file_lines:
  assumes "\<forall>l \<in> set ls. clean l \<and> length l < 512" "\<And>s. step s [] = Some s"
  shows "run_steps step (file_lines (text_of ls @ rest)) s =
    (case run_steps step ls s of None \<Rightarrow> None | Some s' \<Rightarrow> run_steps step (file_lines rest) s')"
  using assms(1)
proof (induction ls arbitrary: s)
  case (Cons l ls)
  then have l: "clean l" "length l < 512" by auto
  have "text_of (l # ls) @ rest = l @ newline # (text_of ls @ rest)" by (simp add: text_of_def)
  with Cons file_lines_line [OF l, of "text_of ls @ rest"] show ?case
    by (simp add: assms(2) split: option.split)
qed simp

lemma file_lines_magic:
  assumes "clean l" "length l < 511"
  shows "file_lines (text_of (l # ls) @ rest) = l # file_lines (text_of ls @ rest)"
  using file_lines_line [of l "text_of ls @ rest"] assms by (simp add: text_of_def)

section \<open>The store file\<close>

text \<open>The walk over the sequence numbers finds exactly the retained events.\<close>

lemma audit_events_from_window:
  assumes wf: "audit_wf svc"
  shows "audit_events_from svc sequence = window_from svc sequence"
proof (induction "unat (svc_audit_next_sequence svc) - unat sequence" arbitrary: sequence rule: less_induct)
  case less
  let ?first = "unat (svc_audit_next_sequence svc) - unat (svc_audit_event_count svc)"
  show ?case
  proof (cases "sequence < svc_audit_next_sequence svc")
    case False
    then show ?thesis
      using export_audit_loop_end(1) [OF wf False] by (subst audit_events_from.simps) simp
  next
    case True
    note IH = less [OF audit_step_less [OF True]]
    show ?thesis
    proof (cases "?first \<le> unat sequence")
      case first: True
      obtain e where "mem_service_find_audit_sequence svc sequence = Some e"
        "window_from svc sequence = e # window_from svc (sequence + 1)"
        using window_from_step [OF wf True first] .
      with True IH show ?thesis by (subst audit_events_from.simps) simp
    next
      case False
      have "aud_sequence e \<noteq> sequence" if "e \<in> set (audit_window svc)" for e
        using that audit_window_events(1) [OF wf] False by (auto simp: in_set_conv_nth [of e])
      then have "mem_service_find_audit_sequence svc sequence = None"
        by (simp add: find_audit_sequence_window [OF wf] find_None_iff)
      moreover have "window_from svc sequence = window_from svc (sequence + 1)"
        using False unat_Suc_below [OF True] by (simp add: window_from_def)
      ultimately show ?thesis using True IH by (subst audit_events_from.simps) simp
    qed
  qed
qed

lemma concat_used:
  "(\<And>r. save r = (if used r then text_of (ls r) else [])) \<Longrightarrow>
   concat (map save rs) = text_of (concat (map ls (filter used rs)))"
  by (induction rs) simp_all

lemma store_text_lines:
  assumes wf: "audit_wf svc"
  shows "store_text svc = text_of (snapshot_header svc @ table_lines store_record_lines svc)"
proof -
  let ?n = "svc_audit_next_sequence svc" and ?c = "svc_audit_event_count svc"
  let ?first = "if ?n > of_nat MEM_SERVICE_MAX_AUDIT_EVENTS + 1 then ?n - of_nat MEM_SERVICE_MAX_AUDIT_EVENTS else 1"
  have c: "unat ?c \<le> MEM_SERVICE_MAX_AUDIT_EVENTS" "unat ?c < unat ?n"
    using audit.ring_wfD(2,3) [OF wf [unfolded audit_wf_def]] by blast+
  have "unat ?first \<le> unat ?n - unat ?c"
    using c by (auto simp: MEM_SERVICE_MAX_AUDIT_EVENTS_def unat_sub word_less_nat_alt word_le_nat_alt)
  then have "audit_events_from svc ?first = audit_window svc"
    by (simp add: audit_events_from_window [OF wf] window_from_def)
  moreover have "filter aud_in_use (audit_window svc) = audit_window svc"
    using audit_window_events(2) [OF wf] by (intro filter_True) (auto simp: in_set_conv_nth)
  ultimately show ?thesis
    using concat_used [of mem_service_save_record rec_in_use store_record_lines]
      concat_used [of mem_service_save_idempotency_record idem_in_use idempotency_lines]
      concat_used [of mem_service_save_audit_event aud_in_use audit_lines]
    by (simp add: store_text_def table_lines_def mem_service_save_record_def
        mem_service_save_idempotency_record_def mem_service_save_audit_event_def)
qed

lemma store_line_empty: "store_line_step s [] = Some s"
  by (cases s) (simp add: store_line_step_def mem_service_parse_schema_version_line_def
      mem_service_import_store_line_def)

lemma load_line_empty: "load_line_step t [] = Some t"
  by (cases t) (simp add: load_line_step_def)

lemma load_line_run:
  "run_steps store_line_step ls s = Some s' \<Longrightarrow> run_steps load_line_step ls (s, True) = Some (s', True)"
proof (induction ls arbitrary: s)
  case (Cons l ls)
  then show ?case
    by (cases "l = []") (auto simp: load_line_empty store_line_empty load_line_step_def split: option.splits)
qed simp

lemma load_header_run:
  "run_steps load_line_step (tl (snapshot_header svc)) ((s, zero_import_state), False) =
   Some ((s, zero_import_state), True)"
proof -
  let ?v = "''store_schema_version='' @ decimal 1"
  obtain ls where ls: "tl (snapshot_header svc) = ?v # ls" by (simp add: header_lines)
  have "load_line_step ((s, zero_import_state), False) ?v = Some ((s, zero_import_state), True)"
    unfolding load_line_step_def prod.case version_line
    using strtoul10_decimal [of 1]
    by (simp add: mem_service_parse_schema_version_line_def zero_import_state_def
        MEM_SERVICE_STORE_MAX_KNOWN_SCHEMA_VERSION_def)
  moreover have "run_steps store_line_step ls (s, zero_import_state) = Some (s, zero_import_state)"
    using header_fields_run [of svc s] by (simp only: ls run_steps.simps version_line option.case)
  ultimately show ?thesis using load_line_run [of ls] by (simp only: ls run_steps.simps option.case)
qed

lemma load_store_text:
  assumes wf: "records_wf svc" "idem_wf svc" "audit_wf svc" and clean: "service_clean svc"
    and stored: "fw_files fw path = Some (bytes_of (store_text svc))" "io_open_ok env path" "path \<noteq> []"
  shows "\<exists>svc'. mem_service_load_store env initial_service path fw = Some (svc', False) \<and>
    reloads_as stored_record svc svc'"
proof -
  let ?ls = "tl (snapshot_header svc) @ table_lines store_record_lines svc"
  have head: "snapshot_header svc = MEM_SERVICE_STORE_MAGIC # tl (snapshot_header svc)" by (simp add: header_lines)
  have "rec_kind (stored_record r) = rec_kind r" for r
    by (simp add: stored_record_def without_backend_def reread_record_def)
  then obtain svc' where svc': "run_steps store_line_step (table_lines store_record_lines svc)
      (initial_service, zero_import_state) = Some (svc', zero_import_state)" "reloads_as stored_record svc svc'"
    using store_reader.load_tables [OF wf clean, of store_record_lines stored_record]
      store_record_frame reread_record_fits(3) by auto
  have ok: "\<forall>l \<in> set ?ls. clean l \<and> length l < 512"
    using header_lines_ok [of svc] table_lines_ok [OF wf clean frame_lines_ok(2)]
    by (auto simp: header_lines)
  have "run_steps load_line_step ?ls ((initial_service, zero_import_state), False) =
      Some ((svc', zero_import_state), True)"
    by (simp add: run_steps_append load_header_run load_line_run [OF svc'(1)])
  then have run: "run_steps load_line_step (file_lines (text_of ?ls)) ((initial_service, zero_import_state), False) =
      Some ((svc', zero_import_state), True)"
    using run_file_lines [where step = load_line_step and rest = "[]", OF ok load_line_empty] by (simp add: file_lines.simps [of "[]"])
  have "store_text svc = text_of (MEM_SERVICE_STORE_MAGIC # ?ls)"
    using store_text_lines [OF wf(3)] head by (metis append_Cons)
  moreover have "clean MEM_SERVICE_STORE_MAGIC" "length MEM_SERVICE_STORE_MAGIC < 511"
    by (simp_all add: MEM_SERVICE_STORE_MAGIC_def clean_def)
  ultimately have "file_lines (store_text svc) = MEM_SERVICE_STORE_MAGIC # file_lines (text_of ?ls)"
    using file_lines_magic [of MEM_SERVICE_STORE_MAGIC ?ls "[]"] by simp
  with run stored svc'(2) show ?thesis
    by (simp add: mem_service_load_store_def zero_import_state_def)
qed

text \<open>What saving does to the files.\<close>

lemma tmp_path_differs: "store_path @ ''.tmp.'' @ x \<noteq> store_path" "path @ ''.compact.'' @ x \<noteq> path" by simp_all

lemma save_store_cases:
  assumes "mem_service_save_store env svc path fw = (rc, fw')" "path \<noteq> []"
  shows "rc = 0 \<and> fw_files fw' path = Some (bytes_of (store_text svc)) \<or> rc = -1 \<and> fw_files fw' path = fw_files fw path"
    and "other \<noteq> path \<Longrightarrow> other \<noteq> path @ ''.tmp.'' @ decimal (io_pid env) \<Longrightarrow> fw_files fw' other = fw_files fw other"
  using assms tmp_path_differs(1) [of path "decimal (io_pid env)"]
  by (auto simp: mem_service_save_store_def fs_write_file_def fs_rename_def fs_unlink_def Let_def
      split: if_splits)

section \<open>The journal\<close>

interpretation journal_lines: frame_reader journal_line_step
proof unfold_locales
  show "journal_line_step (svc, state) line = mem_service_import_store_line svc line state" for svc state line
    by (simp add: journal_line_step_def mem_service_import_store_line_def)
qed

text \<open>A frame cut off at a line end leaves the service alone and the frame open; a complete one is
  imported.\<close>

lemma take_frame:
  assumes "k < length fs + 2"
  shows "take k (b # field_lines fs @ [e]) = (if k = 0 then [] else b # field_lines (take (k - 1) fs))"
  using assms by (cases k) (auto simp: field_lines_def take_map)

lemma cut_idempotency_frame:
  assumes r: "idem_ok r" "idem_clean r" and k: "k < length (idempotency_lines r)"
  shows "\<exists>state. run_steps journal_line_step (take k (idempotency_lines r)) (svc, zero_import_state) = Some (svc, state)"
proof (cases "k = 0")
  case False
  let ?fs = "idempotency_fields r @ response_fields r"
  let ?parse = "\<lambda>r f. mem_service_parse_store_idempotency_field r (fst f) (snd f)"
  let ?z = "zero_idempotency_record \<lparr> idem_in_use := True \<rparr>"
  have cut: "take k (idempotency_lines r) = ''idempotency_begin'' # field_lines (take (k - 1) ?fs)"
    using take_frame [of k ?fs "''idempotency_begin''" "''idempotency_end''"] k False
    by (simp add: idempotency_lines_def field_lines_def)
  have "run_steps ?parse (take (k - 1) ?fs @ drop (k - 1) ?fs) ?z \<noteq> None"
    unfolding append_take_drop_id parse_idempotency_frame [OF r] by simp
  then obtain r' where "run_steps ?parse (take (k - 1) ?fs) ?z = Some r'"
    unfolding run_steps_append by (auto split: option.splits)
  moreover have "list_all field_ok (take (k - 1) ?fs)"
    using idempotency_fields_ok [OF r] by (auto simp: list_all_iff dest: in_set_takeD)
  ultimately show ?thesis
    unfolding cut
    by (simp add: journal_lines.run_idempotency_fields journal_lines.frame_step mem_service_import_store_line_def
        zero_import_state_def)
qed simp

lemma cut_audit_frame:
  assumes e: "audit_clean e" and k: "k < length (audit_lines e)"
  shows "\<exists>state. run_steps journal_line_step (take k (audit_lines e)) (svc, zero_import_state) = Some (svc, state)"
proof (cases "k = 0")
  case False
  let ?fs = "audit_fields e"
  have cut: "take k (audit_lines e) = ''audit_begin'' # field_lines (take (k - 1) ?fs)"
    using take_frame [of k ?fs "''audit_begin''" "''audit_end''"] k False
    by (simp add: audit_lines_def field_lines_def)
  moreover have "list_all field_ok (take (k - 1) ?fs)"
    using audit_fields_ok [OF e] by (auto simp: list_all_iff dest: in_set_takeD)
  ultimately show ?thesis
    by (simp add: journal_lines.run_audit_fields journal_lines.frame_step mem_service_import_store_line_def
        zero_import_state_def)
qed simp

lemma run_idempotency_lines:
  assumes "idem_ok r" "idem_clean r"
  shows "run_steps journal_line_step (idempotency_lines r) (svc, zero_import_state) =
    map_option (\<lambda>s. (s, zero_import_state)) (mem_service_store_import_idempotency svc (reread_idempotency r))"
  unfolding idempotency_lines_def journal_lines.run_idempotency_frame [OF idempotency_fields_ok [OF assms]]
    parse_idempotency_frame [OF assms] by simp

lemma run_audit_lines:
  assumes "audit_clean e" "aud_in_use e"
  shows "run_steps journal_line_step (audit_lines e) (svc, zero_import_state) =
    map_option (\<lambda>s. (s, zero_import_state)) (mem_service_store_import_audit svc e)"
proof -
  have "e \<lparr> aud_in_use := True \<rparr> = e" using assms(2) by simp
  then show ?thesis
    unfolding audit_lines_def journal_lines.run_audit_frame [OF audit_fields_ok [OF assms(1)]]
      parse_audit_frame [OF assms(1)] by simp
qed

text \<open>The effect of the two frames of a request, cut off after \<open>k\<close> lines.\<close>

definition recovered ::
  "nat \<Rightarrow> mem_service_idempotency_record \<Rightarrow> mem_service_audit_event \<Rightarrow> mem_service \<Rightarrow> mem_service option" where
  "recovered k r e svc =
     (if k < length (idempotency_lines r) then Some svc
      else if k < length (idempotency_lines r @ audit_lines e)
      then mem_service_store_import_idempotency svc (reread_idempotency r)
      else Option.bind (mem_service_store_import_idempotency svc (reread_idempotency r))
             (\<lambda>s. mem_service_store_import_audit s e))"

lemma cut_request_frames:
  assumes r: "idem_ok r" "idem_clean r" and e: "audit_clean e" "aud_in_use e"
  shows "map_option fst (run_steps journal_line_step (take k (idempotency_lines r @ audit_lines e))
      (svc, zero_import_state)) = recovered k r e svc"
proof (cases "k < length (idempotency_lines r)")
  case True
  then show ?thesis using cut_idempotency_frame [OF r True, of svc] by (auto simp: recovered_def)
next
  case False
  let ?j = "k - length (idempotency_lines r)"
  have run: "run_steps journal_line_step (take k (idempotency_lines r @ audit_lines e)) (svc, zero_import_state) =
      (case mem_service_store_import_idempotency svc (reread_idempotency r) of
         None \<Rightarrow> None
       | Some s \<Rightarrow> run_steps journal_line_step (take ?j (audit_lines e)) (s, zero_import_state))"
    using False by (simp add: run_steps_append run_idempotency_lines [OF r] split: option.split)
  show ?thesis
  proof (cases "?j < length (audit_lines e)")
    case True
    then have "map_option fst (run_steps journal_line_step (take ?j (audit_lines e)) (s, zero_import_state)) = Some s" for s
      using cut_audit_frame [OF e(1) True, of s] by auto
    with False True run show ?thesis by (auto simp: recovered_def split: option.split)
  next
    case all: False
    with False run show ?thesis
      by (auto simp: recovered_def run_audit_lines [OF e] option.map_comp comp_def option.map_ident split: option.split)
  qed
qed

lemma journal_magic_ok: "clean MEM_SERVICE_JOURNAL_MAGIC" "length MEM_SERVICE_JOURNAL_MAGIC < 511"
  by (simp_all add: MEM_SERVICE_JOURNAL_MAGIC_def clean_def)

lemma journal_line_empty: "journal_line_step s [] = Some s"
  by (simp add: journal_line_step_def)

lemma load_journal_text:
  assumes path: "mem_service_make_journal_path store_path 512 = Some jp" and jp: "io_open_ok env jp"
    and contents: "fw_files fw jp = Some (bytes_of (text_of (MEM_SERVICE_JOURNAL_MAGIC # ls)))"
    and ls: "\<forall>l \<in> set ls. clean l \<and> length l < 512"
  shows "mem_service_load_journal env svc store_path fw =
      map_option fst (run_steps journal_line_step ls (svc, zero_import_state))"
    "mem_service_journal_needs_header env jp fw = Some False"
proof -
  have fl: "file_lines (text_of (MEM_SERVICE_JOURNAL_MAGIC # ls)) =
      MEM_SERVICE_JOURNAL_MAGIC # file_lines (text_of ls)"
    using file_lines_magic [OF journal_magic_ok, of ls "[]"] by simp
  have "store_path \<noteq> []" using path by (auto simp: mem_service_make_journal_path_def)
  moreover have "run_steps journal_line_step (file_lines (text_of ls)) (svc, zero_import_state) =
      run_steps journal_line_step ls (svc, zero_import_state)"
    using run_file_lines [where step = journal_line_step and rest = "[]", OF ls journal_line_empty] by (simp add: file_lines.simps [of "[]"] split: option.split)
  ultimately show "mem_service_load_journal env svc store_path fw =
      map_option fst (run_steps journal_line_step ls (svc, zero_import_state))"
    using path jp contents by (simp add: mem_service_load_journal_def fl)
  show "mem_service_journal_needs_header env jp fw = Some False"
    using jp contents by (simp add: mem_service_journal_needs_header_def fl)
qed

lemma bytes_of_append [simp]: "bytes_of (a @ b) = bytes_of a @ bytes_of b"
  by (simp add: bytes_of_def)

lemma bytes_of_Cons: "bytes_of (c # s) = of_char c # bytes_of s"
  by (simp add: bytes_of_def)

lemma take_text:
  "take (length (text_of (take k ls))) (bytes_of (text_of ls)) = bytes_of (text_of (take k ls))"
proof -
  have "text_of ls = text_of (take k ls) @ text_of (drop k ls)" by (simp flip: text_of_append)
  then show ?thesis by (metis append_eq_conv_conj bytes_of_append bytes_of_def length_map)
qed

section \<open>Properties\<close>

text \<open>C33. A saved store loads back, for a service that the line format can carry: its tables and its
  audit log are well formed, no string of a record, completed request or audit event contains a line
  end or ends in a carriage return (the loader cuts that off, see \<open>trim_cuts_return\<close>), keys are not
  empty, kinds and operations are not 0, and the stored responses fit the loader's lines and buffer.
  When \<open>mem_service_save_store\<close> answers 0 and the file can be opened, loading it into a fresh service
  succeeds and does not take it for a legacy file. By key, it gives back the records (without the
  backend reference when that is the in-memory pool, and without member hashes beyond the member count),
  the completed requests (a response without a final line end gains one), the retained audit events and,
  unless there are none, the next sequence number, with well-formed tables.\<close>

theorem store_roundtrip:
  assumes "records_wf svc" "idem_wf svc" "audit_wf svc" "service_clean svc"
    and "mem_service_save_store env svc path fw = (0, fw')" "path \<noteq> []" "io_open_ok env' path"
  shows "\<exists>svc'. mem_service_load_store env' initial_service path fw' = Some (svc', False) \<and>
    reloads_as stored_record svc svc'"
  using save_store_cases(1) [OF assms(5,6)] load_store_text [OF assms(1-4) _ assms(7,6)] by simp

text \<open>C36. The store file is replaced atomically. Whatever fails while saving, the store file is either
  the complete new text (result 0) or what it was (result -1), no file but it and the temporary
  one is touched, and an empty path does nothing.\<close>

theorem save_store_atomic:
  "case mem_service_save_store env svc path fw of (rc, fw') \<Rightarrow>
     if path = [] then rc = 0 \<and> fw' = fw
     else (if rc = 0 then fw_files fw' path = Some (bytes_of (store_text svc))
           else rc = -1 \<and> fw_files fw' path = fw_files fw path) \<and>
          (other = path \<or> other = path @ ''.tmp.'' @ decimal (io_pid env) \<or> fw_files fw' other = fw_files fw other)"
proof (cases "path = []")
  case False
  obtain rc fw' where run: "mem_service_save_store env svc path fw = (rc, fw')" by fastforce
  show ?thesis
    using save_store_cases(1) [OF run False] save_store_cases(2) [OF run False, of other] run False by auto
qed (simp add: mem_service_save_store_def)

text \<open>C34. The journal recovers what was complete. Let the journal hold complete frames that load to
  \<open>s\<close>, and append the frames of a request. When the append succeeds, loading gives \<open>s\<close> with the
  idempotency record and the audit event; when it is cut off at the end of its \<open>k\<close>-th line, loading
  gives \<open>s\<close> with exactly the frames that are complete.\<close>

theorem journal_append_recovers:
  assumes "mem_service_make_journal_path store_path 512 = Some jp" "io_open_ok env jp" "io_create_ok env jp"
    and "fw_files fw jp = Some (bytes_of (text_of (MEM_SERVICE_JOURNAL_MAGIC # ls)))"
    and "\<forall>l \<in> set ls. clean l \<and> length l < 512"
    and "run_steps journal_line_step ls (svc, zero_import_state) = Some (s, zero_import_state)"
    and "idem_in_use r" "idem_ok r" "idem_clean r" "aud_in_use e" "audit_clean e"
    and "torn = length (text_of (take k (idempotency_lines r @ audit_lines e)))"
    and "mem_service_append_journal env torn store_path (Some r) (Some e) fw = (rc, fw')"
  shows "rc = (if io_write_ok env jp then 0 else -1) \<and>
    mem_service_load_journal env svc store_path fw' =
      recovered (if io_write_ok env jp then length (idempotency_lines r @ audit_lines e) else k) r e s"
proof -
  let ?new = "idempotency_lines r @ audit_lines e" and ?k = "if io_write_ok env jp then length (idempotency_lines r @ audit_lines e) else k"
  let ?m = MEM_SERVICE_JOURNAL_MAGIC
  have ne: "store_path \<noteq> []" using assms(1) by (auto simp: mem_service_make_journal_path_def)
  have "take torn (bytes_of (text_of ?new)) = bytes_of (text_of (take k ?new))"
    unfolding assms(12) by (rule take_text)
  then have "rc = (if io_write_ok env jp then 0 else -1)" "fw_files fw' jp = Some (bytes_of (text_of (?m # ls @ take ?k ?new)))"
    using assms(13) ne assms(1,3,4,7,10) load_journal_text(2) [OF assms(1,2,4,5)]
    by (auto simp: mem_service_append_journal_def fs_append_file_def mem_service_save_idempotency_record_def
        mem_service_save_audit_event_def text_of_Cons bytes_of_Cons)
  moreover have "\<forall>l \<in> set (ls @ take ?k ?new). clean l \<and> length l < 512"
    using assms(5) frame_lines_ok(3) [OF assms(8,9)] frame_lines_ok(4) [OF assms(11)] by (auto dest: in_set_takeD)
  ultimately show ?thesis
    using load_journal_text(1) [OF assms(1,2)] cut_request_frames [OF assms(8,9,11,10), of ?k s] assms(6)
    by (simp add: run_steps_append del: append_take_drop_id take_append)
qed

section \<open>Witnesses and boundary cases\<close>

theorem store_roundtrip_witness:
  "\<exists>fw svc'. mem_service_save_store healthy_env backed_service ''s'' empty_disk = (0, fw) \<and>
     mem_service_load_store healthy_env initial_service ''s'' fw = Some (svc', False) \<and>
     record_map svc' ''obj'' = Some (stored_record backed_object)"
proof -
  have "length (decimal 7) \<le> 1" by (rule decimal_length) simp_all
  then obtain fw where "mem_service_save_store healthy_env backed_service ''s'' empty_disk = (0, fw)"
    by (auto simp: mem_service_save_store_def fs_write_file_def fs_rename_def healthy_env_def Let_def)
  moreover have "io_open_ok healthy_env ''s''" by (simp add: healthy_env_def)
  ultimately show ?thesis
    using store_roundtrip [OF backed_service_wf(1-4), of healthy_env "''s''" empty_disk fw healthy_env]
      backed_service_wf(6) by (auto simp: reloads_as_def)
qed

text \<open>A request, its event, a journal that holds only its header, and a disk that stops writing.\<close>

definition sample_request :: mem_service_idempotency_record where
  "sample_request = zero_idempotency_record
     \<lparr> idem_in_use := True, idem_key := ''req-1'', idem_operation := 3 \<rparr>"

definition sample_event :: mem_service_audit_event where
  "sample_event = zero_audit_event
     \<lparr> aud_in_use := True, aud_sequence := 1, aud_operation := 3, aud_key := ''obj'' \<rparr>"

definition journal_disk :: "cstr \<Rightarrow> file_world" where
  "journal_disk t = empty_disk \<lparr> fw_files := [''s.journal'' \<mapsto> bytes_of t] \<rparr>"

definition failing_env :: io_env where
  "failing_env = healthy_env \<lparr> io_write_ok := (\<lambda>_. False) \<rparr>"

lemma sample_ok:
  "idem_in_use sample_request" "idem_ok sample_request" "idem_clean sample_request"
  "aud_in_use sample_event" "audit_clean sample_event"
  by (simp_all add: sample_request_def sample_event_def idem_ok_def idem_clean_def audit_clean_def clean_def
      MEM_SERVICE_IDEMPOTENCY_KEY_LEN_def MEM_SERVICE_IDEMPOTENCY_RESPONSE_LEN_def zero_audit_event_def response_lines.simps [of "[]"])

lemma sample_path: "mem_service_make_journal_path ''s'' 512 = Some ''s.journal''"
  by (simp add: mem_service_make_journal_path_def)

theorem journal_append_recovers_witness:
  "\<exists>fw. mem_service_append_journal failing_env 18 ''s'' (Some sample_request) (Some sample_event)
          (journal_disk (MEM_SERVICE_JOURNAL_MAGIC @ [newline])) = (-1, fw) \<and>
     mem_service_load_journal failing_env initial_service ''s'' fw = Some initial_service"
proof -
  let ?disk = "journal_disk (MEM_SERVICE_JOURNAL_MAGIC @ [newline])"
  obtain rc fw where run: "mem_service_append_journal failing_env 18 ''s'' (Some sample_request) (Some sample_event)
      ?disk = (rc, fw)" by fastforce
  have env: "io_open_ok failing_env ''s.journal''" "io_create_ok failing_env ''s.journal''"
      "\<not> io_write_ok failing_env ''s.journal''"
    by (simp_all add: failing_env_def healthy_env_def)
  have held: "fw_files ?disk ''s.journal'' = Some (bytes_of (text_of (MEM_SERVICE_JOURNAL_MAGIC # [])))"
    by (simp add: journal_disk_def text_of_def)
  have cut: "18 = length (text_of (take 1 (idempotency_lines sample_request @ audit_lines sample_event)))"
    by (simp add: idempotency_lines_def text_of_def)
  have "recovered 1 sample_request sample_event initial_service = Some initial_service"
    by (simp add: recovered_def idempotency_lines_def)
  with journal_append_recovers [OF sample_path env(1,2) held _ _ sample_ok cut run, of initial_service initial_service]
  show ?thesis using run env(3) by auto
qed

text \<open>An append that stops inside a line leaves a journal that no longer loads.\<close>

lemma torn_line_not_recovered:
  "\<exists>fw. mem_service_append_journal failing_env 14 ''s'' (Some sample_request) (Some sample_event)
          (journal_disk (MEM_SERVICE_JOURNAL_MAGIC @ [newline])) = (-1, fw) \<and>
     mem_service_load_journal failing_env initial_service ''s'' fw = None"
proof -
  let ?disk = "journal_disk (MEM_SERVICE_JOURNAL_MAGIC @ [newline])"
  let ?t = "MEM_SERVICE_JOURNAL_MAGIC @ newline # ''idempotency_be''"
  have env: "io_open_ok failing_env ''s.journal''" "io_create_ok failing_env ''s.journal''"
      "\<not> io_write_ok failing_env ''s.journal''"
    by (simp_all add: failing_env_def healthy_env_def)
  have held: "fw_files ?disk ''s.journal'' = Some (bytes_of (text_of (MEM_SERVICE_JOURNAL_MAGIC # [])))"
    by (simp add: journal_disk_def text_of_def)
  have header: "mem_service_journal_needs_header failing_env ''s.journal'' ?disk = Some False"
    using load_journal_text(2) [OF sample_path env(1) held] by simp
  have "take 14 (bytes_of (text_of (idempotency_lines sample_request) @ t)) = bytes_of ''idempotency_be''" for t
    by (simp add: idempotency_lines_def text_of_def bytes_of_def)
  then have "mem_service_append_journal failing_env 14 ''s'' (Some sample_request) (Some sample_event) ?disk =
      (-1, ?disk \<lparr> fw_files := [''s.journal'' \<mapsto> bytes_of ?t] \<rparr>)"
    using env header sample_path held sample_ok
    by (simp add: mem_service_append_journal_def fs_append_file_def mem_service_save_idempotency_record_def
        mem_service_save_audit_event_def journal_disk_def text_of_def del: bytes_of_append)
       (simp add: bytes_of_def)
  moreover have "file_lines ?t = [MEM_SERVICE_JOURNAL_MAGIC, ''idempotency_be'']"
    using file_lines_magic [OF journal_magic_ok, of "[]" "''idempotency_be''"]
    by (simp add: text_of_def file_lines.simps [of "''idempotency_be''"] fgets_take_def fgets_rest_def line_of_def
        file_lines.simps [of "[]"] mem_service_trim_line_def)
  ultimately show ?thesis
    using env(1) sample_path
    by (simp add: mem_service_load_journal_def journal_line_step_def mem_service_import_store_line_def
        mem_service_parse_line_field_def)
qed

text \<open>Appending after a frame that was cut off at a line end also does: the open frame swallows the
  next one.\<close>

lemma append_after_torn_frame:
  "\<exists>fw. mem_service_append_journal healthy_env 0 ''s'' (Some sample_request) None
          (journal_disk (text_of [MEM_SERVICE_JOURNAL_MAGIC, ''idempotency_begin''])) = (0, fw) \<and>
     mem_service_load_journal healthy_env initial_service ''s'' fw = None"
proof -
  let ?disk = "journal_disk (text_of [MEM_SERVICE_JOURNAL_MAGIC, ''idempotency_begin''])"
  let ?ls = "''idempotency_begin'' # idempotency_lines sample_request"
  have env: "io_open_ok healthy_env ''s.journal''" "io_create_ok healthy_env ''s.journal''"
      "io_write_ok healthy_env ''s.journal''"
    by (simp_all add: healthy_env_def)
  have ls: "\<forall>l \<in> set [''idempotency_begin'']. clean l \<and> length l < 512" by (simp add: clean_def)
  have held: "fw_files ?disk ''s.journal'' =
      Some (bytes_of (text_of (MEM_SERVICE_JOURNAL_MAGIC # [''idempotency_begin''])))"
    by (simp add: journal_disk_def)
  have "mem_service_append_journal healthy_env 0 ''s'' (Some sample_request) None ?disk =
      (0, ?disk \<lparr> fw_files := [''s.journal'' \<mapsto> bytes_of (text_of (MEM_SERVICE_JOURNAL_MAGIC # ?ls))] \<rparr>)"
    using env load_journal_text(2) [OF sample_path env(1) held ls] sample_path sample_ok
    by (simp add: mem_service_append_journal_def fs_append_file_def mem_service_save_idempotency_record_def
        journal_disk_def text_of_Cons bytes_of_Cons bytes_of_def [of "[]"])
  moreover have "\<forall>l \<in> set ?ls. clean l \<and> length l < 512"
    using frame_lines_ok(3) [OF sample_ok(2,3)] ls by auto
  moreover have "run_steps journal_line_step ?ls (initial_service, zero_import_state) = None"
    by (simp add: idempotency_lines_def journal_line_step_def mem_service_import_store_line_def zero_import_state_def)
  ultimately show ?thesis
    using load_journal_text(1) [OF sample_path env(1), of _ ?ls initial_service] by auto
qed

text \<open>An empty journal file, which an append takes for a new one, does not load either.\<close>

lemma empty_journal_not_loaded:
  "mem_service_load_journal healthy_env svc ''s'' (journal_disk []) = None \<and>
   mem_service_journal_needs_header healthy_env ''s.journal'' (journal_disk []) = Some True"
  by (simp add: mem_service_load_journal_def sample_path journal_disk_def cstr_of_def bytes_of_def
      file_lines.simps [of "[]"] healthy_env_def mem_service_journal_needs_header_def)

end
