(* ===== verification/Dispatch.thy ===== *)
theory Dispatch
  imports Retention Durable_Store Provider_Registry
begin

text \<open>
  Dispatch of a request to its handler, and the quota estimates (\<open>mem_service_daemon.c\<close>). The
  state of the server is the service, the restore stage (a static variable of the daemon), the
  files, and the world the provider probes act on.
\<close>

section \<open>Reports\<close>

record 'w server =
  srv_svc :: mem_service
  srv_stage :: mem_service_restore_snapshot_stage
  srv_fw :: file_world
  srv_world :: 'w

definition mem_service_count_record_kind :: "mem_service \<Rightarrow> mem_service_record_kind \<Rightarrow> u64" where
  "mem_service_count_record_kind svc kind =
     foldl (\<lambda>count r. if rec_in_use r \<and> rec_kind r = kind then count + 1 else count) 0 (svc_records svc)"

abbreviation show_flag :: "bool \<Rightarrow> cstr" where
  "show_flag b \<equiv> if b then ''1'' else ''0''"

definition mem_service_status ::
  "'w probe \<Rightarrow> nat \<Rightarrow> 'w server \<Rightarrow> mem_service_wire_status \<times> cstr \<times> 'w server" where
  "mem_service_status probe response_len s =
     (case mem_service_provider_registry_refresh probe (svc_providers (srv_svc s)) (srv_world s) of
        (_, providers, world) \<Rightarrow>
          let svc = srv_svc s \<lparr> svc_providers := providers \<rparr>;
              ready = (svc_control_plane_ready svc \<and> svc_provider_registry_ready svc \<and> svc_durable_ready svc);
              count = (\<lambda>kind. show_word (mem_service_count_record_kind svc kind))
          in (STATUS_OK,
              snprintf_s response_len
                (kv ''ready'' (show_flag ready) @
                 kv ''control_plane_ready'' (show_flag (svc_control_plane_ready svc)) @
                 kv ''provider_registry_ready'' (show_flag (svc_provider_registry_ready svc)) @
                 kv ''durable_ready'' (show_flag (svc_durable_ready svc)) @
                 kv ''data_plane_ready'' (show_flag (mem_service_provider_registry_data_plane_ready providers)) @
                 kv ''provider_count'' (show_word (reg_count providers)) @
                 kv ''provider_ready_count'' (show_word (mem_service_provider_registry_ready_count providers)) @
                 kv ''record_count'' (show_word (svc_record_count svc)) @
                 kv ''prefix_group_count'' (count RECORD_PREFIX_GROUP) @
                 kv ''prefix_entry_count'' (count RECORD_REQUEST_PREFIX) @
                 kv ''kv_segment_count'' (count RECORD_BLOCK_META) @
                 kv ''object_count'' (count RECORD_KVCACHE_OBJECT) @
                 kv ''runtime_handoff_count'' (count RECORD_RUNTIME_HANDOFF) @
                 kv ''execution_artifact_count'' (count RECORD_EXECUTION_ARTIFACT) @
                 kv ''training_artifact_count'' (count RECORD_TRAINING_ARTIFACT)),
              s \<lparr> srv_svc := svc, srv_world := world \<rparr>))"

definition record_line :: "nat \<Rightarrow> mem_service_record \<Rightarrow> cstr" where
  "record_line i r =
     ''record index='' @ decimal i @ '' kind='' @ show_word (record_kind_code (rec_kind r)) @
     '' kind_name='' @ mem_service_record_kind_name (rec_kind r) @ '' key='' @ rec_key r @
     '' version='' @ show_word (rec_version r) @
     '' checksum='' @ show_word (rec_object_payload_checksum r) @ [newline]"

primrec list_loop :: "nat \<Rightarrow> nat \<Rightarrow> mem_service_record list \<Rightarrow> cstr \<Rightarrow> bool \<times> cstr" where
  "list_loop response_len i [] response = (True, response)"
| "list_loop response_len i (r # rs) response =
     (if \<not> rec_in_use r then list_loop response_len (i + 1) rs response
      else if length (record_line i r) \<ge> response_len - length response then (False, response)
      else list_loop response_len (i + 1) rs (response @ record_line i r))"

definition mem_service_list_records :: "mem_service \<Rightarrow> nat \<Rightarrow> mem_service_wire_status \<times> cstr" where
  "mem_service_list_records svc response_len =
     (if response_len = 0 then (STATUS_CAPACITY_EXCEEDED, [])
      else case list_loop response_len 0 (svc_records svc) [] of (ok, response) \<Rightarrow>
        if \<not> ok then (STATUS_CAPACITY_EXCEEDED, response)
        else if list_ex rec_in_use (svc_records svc) then (STATUS_OK, response)
        else (STATUS_OK, snprintf_s response_len (kv ''record_count'' ''0'')))"

definition metrics_fields :: "mem_service_metrics \<Rightarrow> (cstr \<times> u64) list" where
  "metrics_fields m =
     [(''request_count'', met_request_count m),
      (''ok_count'', met_ok_count m),
      (''error_count'', met_error_count m),
      (''not_found_count'', met_not_found_count m),
      (''stale_ref_count'', met_stale_ref_count m),
      (''checksum_mismatch_count'', met_checksum_mismatch_count m),
      (''version_conflict_count'', met_version_conflict_count m),
      (''invalid_model_binding_count'', met_invalid_model_binding_count m),
      (''invalid_session_count'', met_invalid_session_count m),
      (''timeout_count'', met_timeout_count m),
      (''capacity_exceeded_count'', met_capacity_exceeded_count m),
      (''unsupported_count'', met_unsupported_count m),
      (''internal_count'', met_internal_count m),
      (''fail_closed_count'', met_fail_closed_count m),
      (''health_count'', met_health_count m),
      (''ready_count'', met_ready_count m),
      (''status_count'', met_status_count m),
      (''list_records_count'', met_list_records_count m),
      (''metrics_count'', met_metrics_count m),
      (''audit_log_count'', met_audit_log_count m),
      (''export_snapshot_count'', met_export_snapshot_count m),
      (''export_snapshot_page_count'', met_export_snapshot_page_count m),
      (''restore_snapshot_count'', met_restore_snapshot_count m),
      (''restore_snapshot_page_count'', met_restore_snapshot_page_count m),
      (''put_object_count'', met_put_object_count m),
      (''get_object_count'', met_get_object_count m),
      (''inspect_object_count'', met_inspect_object_count m),
      (''materialize_object_count'', met_materialize_object_count m),
      (''get_object_hit_count'', met_get_object_hit_count m),
      (''get_object_miss_count'', met_get_object_miss_count m),
      (''register_prefix_count'', met_register_prefix_count m),
      (''lookup_prefix_count'', met_lookup_prefix_count m),
      (''prefix_lookup_hit_count'', met_prefix_lookup_hit_count m),
      (''prefix_lookup_miss_count'', met_prefix_lookup_miss_count m),
      (''publish_kv_count'', met_publish_kv_count m),
      (''resolve_kv_count'', met_resolve_kv_count m),
      (''kv_resolve_hit_count'', met_kv_resolve_hit_count m),
      (''kv_resolve_miss_count'', met_kv_resolve_miss_count m),
      (''publish_runtime_handoff_count'', met_publish_runtime_handoff_count m),
      (''resolve_runtime_handoff_count'', met_resolve_runtime_handoff_count m),
      (''register_execution_artifact_count'', met_register_execution_artifact_count m),
      (''query_execution_artifact_count'', met_query_execution_artifact_count m),
      (''register_training_artifact_count'', met_register_training_artifact_count m),
      (''query_training_artifact_count'', met_query_training_artifact_count m),
      (''artifact_query_hit_count'', met_artifact_query_hit_count m),
      (''artifact_query_miss_count'', met_artifact_query_miss_count m),
      (''idempotency_replay_count'', met_idempotency_replay_count m),
      (''idempotency_conflict_count'', met_idempotency_conflict_count m),
      (''request_latency_total_ms'', met_request_latency_total_ms m),
      (''request_latency_max_ms'', met_request_latency_max_ms m),
      (''request_latency_le_1ms_count'', met_request_latency_bucket_counts m ! 0),
      (''request_latency_le_5ms_count'', met_request_latency_bucket_counts m ! 1),
      (''request_latency_le_10ms_count'', met_request_latency_bucket_counts m ! 2),
      (''request_latency_le_50ms_count'', met_request_latency_bucket_counts m ! 3),
      (''request_latency_le_100ms_count'', met_request_latency_bucket_counts m ! 4),
      (''request_latency_gt_100ms_count'', met_request_latency_bucket_counts m ! 5)]"

definition mem_service_metrics_text :: "mem_service \<Rightarrow> nat \<Rightarrow> mem_service_wire_status \<times> cstr" where
  "mem_service_metrics_text svc response_len =
     (STATUS_OK,
      snprintf_s response_len (concat (map (\<lambda>(name, n). kv name (show_word n)) (metrics_fields (svc_metrics svc)))))"

section \<open>Dispatch\<close>

text \<open>How each kind of handler acts on the server: those that only read, those that change the
  service, those that also use files.\<close>

definition on_reader :: "mem_service_wire_status \<times> cstr \<Rightarrow> 'w server \<Rightarrow> mem_service_wire_status \<times> cstr \<times> 'w server" where
  "on_reader reply s = (fst reply, snd reply, s)"

definition on_service ::
  "mem_service_wire_status \<times> cstr \<times> mem_service \<Rightarrow> 'w server \<Rightarrow> mem_service_wire_status \<times> cstr \<times> 'w server" where
  "on_service reply s = (case reply of (st, resp, svc) \<Rightarrow> (st, resp, s \<lparr> srv_svc := svc \<rparr>))"

definition on_files :: "reply \<Rightarrow> 'w server \<Rightarrow> mem_service_wire_status \<times> cstr \<times> 'w server" where
  "on_files reply s = (case reply of (st, resp, svc, fw) \<Rightarrow> (st, resp, s \<lparr> srv_svc := svc, srv_fw := fw \<rparr>))"

definition mem_service_dispatch_operation ::
  "daemon_env \<Rightarrow> 'w probe \<Rightarrow> mem_service_wire_operation \<Rightarrow> cstr \<Rightarrow> nat \<Rightarrow> 'w server \<Rightarrow>
   mem_service_wire_status \<times> cstr \<times> 'w server" where
  "mem_service_dispatch_operation env probe operation payload response_len s =
     (let svc = srv_svc s; fw = srv_fw s in
      case operation of
        OP_HEALTH \<Rightarrow> (STATUS_OK, snprintf_s response_len ''ok'', s)
      | OP_READY \<Rightarrow>
          if svc_control_plane_ready svc \<and> svc_provider_registry_ready svc \<and> svc_durable_ready svc
          then (STATUS_OK, snprintf_s response_len ''ok'', s) else (STATUS_INTERNAL, [], s)
      | OP_STATUS \<Rightarrow> mem_service_status probe response_len s
      | OP_LIST_RECORDS \<Rightarrow> on_reader (mem_service_list_records svc response_len) s
      | OP_METRICS \<Rightarrow> on_reader (mem_service_metrics_text svc response_len) s
      | OP_EXPORT_SNAPSHOT \<Rightarrow> on_reader (mem_service_export_snapshot svc response_len) s
      | OP_EXPORT_SNAPSHOT_PAGE \<Rightarrow> on_reader (mem_service_export_snapshot_page svc payload response_len) s
      | OP_RESTORE_SNAPSHOT \<Rightarrow> on_service (mem_service_restore_snapshot svc payload response_len) s
      | OP_RESTORE_SNAPSHOT_PAGE \<Rightarrow>
          (case mem_service_restore_snapshot_page svc (srv_stage s) payload response_len of
             (st, resp, svc', stage') \<Rightarrow> (st, resp, s \<lparr> srv_svc := svc', srv_stage := stage' \<rparr>))
      | OP_AUDIT_LOG \<Rightarrow> on_reader (mem_service_audit_log svc payload response_len) s
      | OP_PUT_OBJECT \<Rightarrow> on_files (mem_service_put_object env svc payload response_len fw) s
      | OP_GET_OBJECT \<Rightarrow> on_files (mem_service_get_object env svc payload response_len fw) s
      | OP_INSPECT_OBJECT \<Rightarrow> on_files (mem_service_inspect_object env svc payload response_len fw) s
      | OP_MATERIALIZE_OBJECT \<Rightarrow> on_files (mem_service_materialize_object env svc payload response_len fw) s
      | OP_REGISTER_PREFIX_ENTRY \<Rightarrow> on_service (mem_service_register_prefix svc payload response_len) s
      | OP_LOOKUP_PREFIX_ENTRY \<Rightarrow> on_reader (mem_service_lookup_prefix svc payload response_len) s
      | OP_PUBLISH_KV_SEGMENT \<Rightarrow> on_service (mem_service_publish_kv svc payload response_len) s
      | OP_RESOLVE_KV_SEGMENT \<Rightarrow> on_reader (mem_service_resolve_kv svc payload response_len) s
      | OP_PUBLISH_RUNTIME_HANDOFF \<Rightarrow>
          on_files (mem_service_store_artifact env svc payload RECORD_RUNTIME_HANDOFF response_len fw) s
      | OP_RESOLVE_RUNTIME_HANDOFF \<Rightarrow>
          on_files (mem_service_query_artifact env svc payload RECORD_RUNTIME_HANDOFF response_len fw) s
      | OP_REGISTER_EXECUTION_ARTIFACT \<Rightarrow>
          on_files (mem_service_store_artifact env svc payload RECORD_EXECUTION_ARTIFACT response_len fw) s
      | OP_QUERY_EXECUTION_ARTIFACT \<Rightarrow>
          on_files (mem_service_query_artifact env svc payload RECORD_EXECUTION_ARTIFACT response_len fw) s
      | OP_REGISTER_TRAINING_ARTIFACT \<Rightarrow>
          on_files (mem_service_store_artifact env svc payload RECORD_TRAINING_ARTIFACT response_len fw) s
      | OP_QUERY_TRAINING_ARTIFACT \<Rightarrow>
          on_files (mem_service_query_artifact env svc payload RECORD_TRAINING_ARTIFACT response_len fw) s
      | OP_OTHER _ \<Rightarrow> (STATUS_UNSUPPORTED, [], s))"

section \<open>Quota\<close>

record mem_service_daemon_limits =
  lim_max_records :: u64
  lim_max_payload_bytes :: u64
  lim_max_audit_events :: u64
  lim_max_checkpoint_records :: u64
  lim_max_retained_records :: u64
  lim_max_retained_record_age_ms :: u64
  lim_max_retained_record_kind :: u32
  lim_max_retained_record_tenant_enabled :: bool
  lim_max_retained_record_tenant :: u32

definition mem_service_estimate_new_key_record_count :: "mem_service \<Rightarrow> cstr \<Rightarrow> u64" where
  "mem_service_estimate_new_key_record_count svc payload =
     (case mem_service_payload_get_string payload ''key'' 96 of
        None \<Rightarrow> UINT64_MAX
      | Some key \<Rightarrow> if mem_service_find_record svc key = None then 1 else 0)"

definition mem_service_estimate_new_kv_record_count :: "mem_service \<Rightarrow> cstr \<Rightarrow> u64" where
  "mem_service_estimate_new_kv_record_count svc payload =
     (case mem_service_payload_get_string payload ''block_hash'' 96 of
        None \<Rightarrow> UINT64_MAX
      | Some block_hash \<Rightarrow>
          if mem_service_find_record svc (mem_service_build_block_key_from_hash block_hash 96) = None
          then 1 else 0)"

definition mem_service_estimate_new_prefix_record_count :: "mem_service \<Rightarrow> cstr \<Rightarrow> u64" where
  "mem_service_estimate_new_prefix_record_count svc payload =
     (case (mem_service_payload_get_string payload ''request_id'' 64,
            mem_service_payload_get_string payload ''prefix_group'' 64) of
        (Some request_id, Some prefix_group) \<Rightarrow>
          let prefix_key = mem_service_build_prefix_key_from_parts request_id prefix_group 96;
              new_records = (if mem_service_find_record svc prefix_key = None then 1 else 0);
              new_kv_records = mem_service_estimate_new_kv_record_count svc payload
          in if new_kv_records = UINT64_MAX then UINT64_MAX else new_records + new_kv_records
      | _ \<Rightarrow> UINT64_MAX)"

definition mem_service_estimate_new_record_count ::
  "mem_service \<Rightarrow> mem_service_wire_operation \<Rightarrow> cstr \<Rightarrow> u64" where
  "mem_service_estimate_new_record_count svc operation payload =
     (if operation \<in> {OP_PUT_OBJECT, OP_PUBLISH_RUNTIME_HANDOFF, OP_REGISTER_EXECUTION_ARTIFACT,
                      OP_REGISTER_TRAINING_ARTIFACT}
      then mem_service_estimate_new_key_record_count svc payload
      else if operation = OP_PUBLISH_KV_SEGMENT then mem_service_estimate_new_kv_record_count svc payload
      else if operation = OP_REGISTER_PREFIX_ENTRY then mem_service_estimate_new_prefix_record_count svc payload
      else if mem_service_operation_mutates operation payload then UINT64_MAX else 0)"

definition mem_service_request_exceeds_payload_limit ::
  "u32 \<Rightarrow> mem_service_daemon_limits option \<Rightarrow> bool" where
  "mem_service_request_exceeds_payload_limit payload_len limits =
     (case limits of None \<Rightarrow> False
      | Some lim \<Rightarrow> lim_max_payload_bytes lim > 0 \<and> ucast payload_len > lim_max_payload_bytes lim)"

text \<open>The quota test in front of the dispatch.\<close>

definition quota_exceeded :: "mem_service_daemon_limits option \<Rightarrow> mem_service \<Rightarrow> u64 \<Rightarrow> bool" where
  "quota_exceeded limits svc new_records =
     (case limits of None \<Rightarrow> False
      | Some lim \<Rightarrow>
          lim_max_records lim > 0 \<and> new_records > 0 \<and>
          (new_records = UINT64_MAX \<or> svc_record_count svc \<ge> lim_max_records lim \<or>
           new_records > lim_max_records lim - svc_record_count svc))"

section \<open>What a dispatch does\<close>

text \<open>The handlers that only read.\<close>

lemma get_object_reads: "mem_service_get_object env svc payload n fw = (st, resp, svc', fw') \<Longrightarrow> svc' = svc"
  by (auto simp: mem_service_get_object_def Let_def split: option.splits if_splits prod.splits sum.splits)

lemma inspect_object_reads: "mem_service_inspect_object env svc payload n fw = (st, resp, svc', fw') \<Longrightarrow> svc' = svc"
  by (auto simp: mem_service_inspect_object_def Let_def split: option.splits if_splits prod.splits sum.splits)

lemma materialize_object_reads:
  "mem_service_materialize_object env svc payload n fw = (st, resp, svc', fw') \<Longrightarrow> svc' = svc"
  by (auto simp: mem_service_materialize_object_def Let_def split: option.splits if_splits prod.splits sum.splits)

lemma query_artifact_reads: "mem_service_query_artifact env svc payload k n fw = (st, resp, svc', fw') \<Longrightarrow> svc' = svc"
  by (auto simp: mem_service_query_artifact_def Let_def split: option.splits if_splits prod.splits sum.splits)

lemmas handler_reads = get_object_reads inspect_object_reads materialize_object_reads query_artifact_reads

text \<open>The operations in three groups: those that change the record table, the two restores, and
  the rest.\<close>

definition record_writers :: "mem_service_wire_operation list" where
  "record_writers = [OP_PUT_OBJECT, OP_REGISTER_PREFIX_ENTRY, OP_PUBLISH_KV_SEGMENT, OP_PUBLISH_RUNTIME_HANDOFF,
     OP_REGISTER_EXECUTION_ARTIFACT, OP_REGISTER_TRAINING_ARTIFACT]"

lemma mutates_cases:
  assumes "mem_service_operation_mutates op payload"
  obtains "op \<in> set record_writers" | "op = OP_RESTORE_SNAPSHOT"
  | "op = OP_RESTORE_SNAPSHOT_PAGE" "mem_service_payload_get_string payload ''action'' 32 = Some ''commit''"
  using assms
  by (cases op) (auto simp: mem_service_operation_mutates_def record_writers_def split: option.splits)

lemma record_writers_mutate: "op \<in> set record_writers \<Longrightarrow> mem_service_operation_mutates op payload"
  by (auto simp: record_writers_def mem_service_operation_mutates_def)

lemma dispatch_writes:
  assumes wf: "records_wf (srv_svc s)" and be: "writers_keep_identity (de_backends env)"
    and op: "op \<in> set record_writers"
    and run: "mem_service_dispatch_operation env probe op payload n s = (st, resp, s')"
  shows "records_wf (srv_svc s')" "svc_rest (srv_svc s') = svc_rest (srv_svc s)" "srv_stage s' = srv_stage s"
proof -
  let ?svc = "srv_svc s" and ?fw = "srv_fw s"
  consider (objects) "op = OP_PUT_OBJECT" | (prefix) "op = OP_REGISTER_PREFIX_ENTRY" | (kv) "op = OP_PUBLISH_KV_SEGMENT"
    | (artifact) k where "mem_service_dispatch_operation env probe op payload n s =
        on_files (mem_service_store_artifact env ?svc payload k n ?fw) s"
    using op by (auto simp: record_writers_def mem_service_dispatch_operation_def)
  then have "records_wf (srv_svc s') \<and> svc_rest (srv_svc s') = svc_rest ?svc \<and> srv_stage s' = srv_stage s"
  proof cases
    case objects
    obtain st1 resp1 svc1 fw1 where h: "mem_service_put_object env ?svc payload n ?fw = (st1, resp1, svc1, fw1)"
      by (metis prod_cases4)
    with run objects put_object_outcome [OF wf be h] show ?thesis
      by (auto simp: mem_service_dispatch_operation_def on_files_def stores_one_record_def)
  next
    case prefix
    obtain st1 resp1 svc1 where h: "mem_service_register_prefix ?svc payload n = (st1, resp1, svc1)"
      by (metis prod_cases3)
    with run prefix register_prefix_keeps [OF wf h] show ?thesis
      by (auto simp: mem_service_dispatch_operation_def on_service_def)
  next
    case kv
    obtain st1 resp1 svc1 where h: "mem_service_publish_kv ?svc payload n = (st1, resp1, svc1)"
      by (metis prod_cases3)
    with run kv publish_kv_outcome [OF wf h] show ?thesis
      by (auto simp: mem_service_dispatch_operation_def on_service_def)
  next
    case artifact
    obtain st1 resp1 svc1 fw1 where h: "mem_service_store_artifact env ?svc payload k n ?fw = (st1, resp1, svc1, fw1)"
      by (metis prod_cases4)
    with run artifact store_artifact_outcome [OF wf be h] show ?thesis
      by (auto simp: on_files_def stores_one_record_def)
  qed
  then show "records_wf (srv_svc s')" "svc_rest (srv_svc s') = svc_rest ?svc" "srv_stage s' = srv_stage s" by blast+
qed

text \<open>Operations that do not mutate leave the service alone, but for the states of its providers.\<close>

lemma restore_page_reads:
  assumes "mem_service_restore_snapshot_page svc stage payload n = (st, resp, svc', stage')"
    and "\<not> mem_service_operation_mutates OP_RESTORE_SNAPSHOT_PAGE payload"
  shows "svc' = svc"
proof -
  have "mem_service_payload_get_string payload ''action'' 32 \<noteq> Some ''commit''"
    using assms(2) by (auto simp: mem_service_operation_mutates_def split: option.splits)
  then show ?thesis
    using assms(1) by (auto simp: mem_service_restore_snapshot_page_def split: option.splits if_splits prod.splits)
qed

lemma dispatch_reads:
  assumes op: "\<not> mem_service_operation_mutates op payload"
    and run: "mem_service_dispatch_operation env probe op payload n s = (st, resp, s')"
  shows "srv_svc s' = srv_svc s \<lparr> svc_providers := svc_providers (srv_svc s') \<rparr>"
proof (cases op)
  case OP_STATUS
  with run show ?thesis
    by (auto simp: mem_service_dispatch_operation_def mem_service_status_def Let_def split: prod.splits)
next
  case OP_RESTORE_SNAPSHOT_PAGE
  obtain st1 resp1 svc1 stage1 where h:
    "mem_service_restore_snapshot_page (srv_svc s) (srv_stage s) payload n = (st1, resp1, svc1, stage1)"
    by (metis prod_cases4)
  with restore_page_reads [OF h] OP_RESTORE_SNAPSHOT_PAGE run op show ?thesis
    by (auto simp: mem_service_dispatch_operation_def)
next
  case OP_RESTORE_SNAPSHOT
  then show ?thesis using op by (simp add: mem_service_operation_mutates_def)
qed (use run op in \<open>auto simp: mem_service_dispatch_operation_def on_reader_def on_files_def
    mem_service_operation_mutates_def Let_def split: prod.splits if_splits dest!: handler_reads\<close>)

text \<open>The restores: a failed one leaves the service alone.\<close>

lemma restore_snapshot_cases:
  assumes "mem_service_restore_snapshot svc payload n = (st, resp, svc')"
  obtains "st = STATUS_INVALID_SESSION" "svc' = svc"
  | restored where "st = STATUS_OK" "payload \<noteq> []" "mem_service_import_snapshot_text initial_service payload = Some restored"
    "svc_records svc' = svc_records restored" "svc_record_count svc' = svc_record_count restored"
    "svc_idempotency_records svc' = svc_idempotency_records restored"
    "svc_metrics svc' = svc_metrics svc" "svc_providers svc' = svc_providers svc"
proof (cases rule: init_cases [of "svc_control_plane_ready svc" "svc_provider_registry_ready svc" "svc_durable_ready svc"])
  case 1
  show ?thesis
  proof (cases "payload = []")
    case False
    then show ?thesis
      using assms 1 that
      by (cases "mem_service_import_snapshot_text initial_service payload")
         (auto simp: mem_service_restore_snapshot_def)
  qed (use assms 1 that in \<open>auto simp: mem_service_restore_snapshot_def\<close>)
next
  case (2 rc s)
  with assms that show ?thesis by (auto simp: mem_service_restore_snapshot_def)
qed

lemma restore_wf:
  assumes "mem_service_restore_snapshot svc payload n = (st, resp, svc')" "records_wf svc" "idem_wf svc"
  shows "records_wf svc'" "idem_wf svc'"
proof -
  show "records_wf svc'"
  proof (cases rule: restore_snapshot_cases [OF assms(1)])
    case (2 restored)
    from records_wf_cong(1) [OF 2(4,5)] import_text_wf(1) [OF records_wf_initial idem_wf_initial(1) 2(3)]
    show ?thesis by simp
  qed (use assms(2) in simp)
  show "idem_wf svc'"
  proof (cases rule: restore_snapshot_cases [OF assms(1)])
    case (2 restored)
    from idem_wf_cong(1) [OF 2(6)] import_text_wf(2) [OF records_wf_initial idem_wf_initial(1) 2(3)]
    show ?thesis by simp
  qed (use assms(3) in simp)
qed

text \<open>A text that restores has no header lines: its first line is the magic, which holds no equals
  sign. So a restore that succeeds is never tracked by an idempotency key.\<close>

lemma trim_line_set: "c \<in> set line \<Longrightarrow> c \<noteq> newline \<Longrightarrow> c \<noteq> carriage_return \<Longrightarrow> c \<in> set (mem_service_trim_line line)"
proof -
  assume c: "c \<in> set line" "c \<noteq> newline" "c \<noteq> carriage_return"
  let ?P = "\<lambda>c. c = newline \<or> c = carriage_return"
  have "set line = set (takeWhile ?P (rev line)) \<union> set (dropWhile ?P (rev line))"
    by (metis set_append set_rev takeWhile_dropWhile_id)
  then show ?thesis using c by (auto simp: mem_service_trim_line_def dest: set_takeWhileD)
qed

lemma restored_untracked:
  assumes "mem_service_import_snapshot_text svc payload = Some svc'"
  shows "mem_service_payload_get_idempotency_key payload k = None"
proof -
  have ne: "payload \<noteq> []" and loop: "line_loop snapshot_line_step payload (False, svc, zero_import_state) \<noteq> None"
    using assms by (auto simp: mem_service_import_snapshot_text_def split: if_splits option.splits)
  have "mem_service_trim_line (line_of payload) = MEM_SERVICE_STORE_MAGIC"
    using loop ne by (auto simp: line_loop.simps [of _ payload] snapshot_line_step_def Let_def split: if_splits)
  then have "CHR ''='' \<notin> set (line_of payload)"
    using trim_line_set [of "CHR ''=''" "line_of payload"] by (auto simp: MEM_SERVICE_STORE_MAGIC_def)
  then have "header_find name payload = None" for name by (simp add: header_find.simps [of _ payload] Let_def)
  then show ?thesis
    by (simp add: mem_service_payload_get_idempotency_key_def mem_service_payload_get_header_string_def)
qed

text \<open>Both invariants of the tables survive every dispatch.\<close>

definition server_inv :: "'w server \<Rightarrow> bool" where
  "server_inv s \<longleftrightarrow> records_wf (srv_svc s) \<and> idem_wf (srv_svc s) \<and> stage_wf (srv_stage s)"

lemma restore_page_wf:
  assumes run: "mem_service_restore_snapshot_page svc stage payload n = (st, response, svc', stage')"
    and wf: "records_wf svc" "idem_wf svc" "stage_wf stage"
  shows "records_wf svc' \<and> idem_wf svc' \<and> stage_wf stage'"
proof -
  consider "svc' = svc" "stage_wf stage'"
    | (commit) "mem_service_restore_snapshot_page_commit svc stage n = (st, response, svc', stage')"
    using restore_page_cases [OF run] page_begin_wf page_append_wf [OF wf(3)] wf(3) stage_wf_reset by blast
  then show ?thesis
  proof cases
    case commit
    show ?thesis
    proof (cases "st = STATUS_OK")
      case True
      with page_commit_cases [OF commit] have c: "stage_active stage" "stage' = mem_service_restore_snapshot_stage_reset"
        "svc_records svc' = svc_records (stage_svc stage)" "svc_record_count svc' = svc_record_count (stage_svc stage)"
        "svc_idempotency_records svc' = svc_idempotency_records initial_service" by auto
      have "records_wf (stage_svc stage)" using wf(3) c(1) by (simp add: stage_wf_def)
      with records_wf_cong(1) [OF c(3,4)] idem_wf_cong(1) [OF c(5)] idem_wf_initial(1) c(2) stage_wf_reset
      show ?thesis by simp
    qed (use page_commit_cases [OF commit] wf in blast)
  qed (use wf in simp)
qed

lemma dispatch_stage:
  assumes "mem_service_dispatch_operation env probe op payload n s = (st, resp, s')" "op \<noteq> OP_RESTORE_SNAPSHOT_PAGE"
  shows "srv_stage s' = srv_stage s"
  using assms
  by (cases op) (auto simp: mem_service_dispatch_operation_def on_reader_def on_files_def on_service_def
      mem_service_status_def Let_def split: prod.splits if_splits)

lemma dispatch_inv:
  assumes inv: "server_inv s" and be: "writers_keep_identity (de_backends env)"
    and run: "mem_service_dispatch_operation env probe op payload n s = (st, resp, s')"
  shows "server_inv s'"
proof -
  have wf: "records_wf (srv_svc s)" "idem_wf (srv_svc s)" "stage_wf (srv_stage s)"
    using inv by (simp_all add: server_inv_def)
  consider (page) "op = OP_RESTORE_SNAPSHOT_PAGE" | (restore) "op = OP_RESTORE_SNAPSHOT"
    | (writes) "op \<in> set record_writers" | (reads) "op \<noteq> OP_RESTORE_SNAPSHOT_PAGE" "\<not> mem_service_operation_mutates op payload"
    using mutates_cases [of op payload] by blast
  then show ?thesis
  proof cases
    case page
    obtain st1 resp1 svc1 stage1 where h:
      "mem_service_restore_snapshot_page (srv_svc s) (srv_stage s) payload n = (st1, resp1, svc1, stage1)"
      by (metis prod_cases4)
    from restore_page_wf [OF h wf] run page h show ?thesis
      by (auto simp: mem_service_dispatch_operation_def server_inv_def)
  next
    case restore
    obtain st1 resp1 svc1 where h: "mem_service_restore_snapshot (srv_svc s) payload n = (st1, resp1, svc1)"
      by (metis prod_cases3)
    from restore_wf [OF h wf(1,2)] wf(3) run restore h show ?thesis
      by (auto simp: mem_service_dispatch_operation_def server_inv_def on_service_def)
  next
    case writes
    note W = dispatch_writes [OF wf(1) be writes run]
    with wf idem_wf_cong(1) [OF svc_rest_eqD(2) [OF W(2)]] show ?thesis by (simp add: server_inv_def)
  next
    case reads
    have "records_wf (srv_svc s') = records_wf (srv_svc s)"
      by (rule records_wf_cong) (subst dispatch_reads [OF reads(2) run], simp)+
    moreover have "idem_wf (srv_svc s') = idem_wf (srv_svc s)"
      by (rule idem_wf_cong) (subst dispatch_reads [OF reads(2) run], simp)
    ultimately show ?thesis using wf dispatch_stage [OF run reads(1)] by (simp add: server_inv_def)
  qed
qed

end
