(* ===== verification/Requests.thy ===== *)
theory Requests
  imports Dispatch
begin

text \<open>
  The life of a request (\<open>mem_service_handle_operation_with_limits\<close> and
  \<open>mem_service_handle_client\<close> in \<open>mem_service_daemon.c\<close>): replay or quota and dispatch, retention,
  completion of the idempotency record, audit, journal and store, compaction, metrics.

  \<open>request_env\<close> holds what the outside contributes to one request: the environment of the handlers
  and of the first attempt to persist, the environment of the second attempt and of the
  compactions, the readings of the clock and, when an append to the journal fails, how many bytes
  of it reached the file. A store path that is NULL or empty is the empty string.
\<close>

section \<open>Handling an operation\<close>

record request_env =
  rq_daemon :: daemon_env
  rq_failure_io :: io_env
  rq_sync_io :: io_env
  rq_start_ms :: u64
  rq_end_ms :: u64
  rq_audit_ms :: u64
  rq_failure_audit_ms :: u64
  rq_torn :: nat
  rq_failure_torn :: nat

text \<open>A request that is not answered from the idempotency table: status, response, whether the
  checkpoint and the record retention removed anything, and the server.\<close>

definition run_request ::
  "daemon_env \<Rightarrow> 'w probe \<Rightarrow> mem_service_daemon_limits option \<Rightarrow> mem_service_wire_operation \<Rightarrow> cstr \<Rightarrow>
   nat \<Rightarrow> 'w server \<Rightarrow> mem_service_wire_status \<times> cstr \<times> bool \<times> bool \<times> 'w server" where
  "run_request env probe limits operation payload response_len s =
     (let svc = srv_svc s;
          new_records = mem_service_estimate_new_record_count svc operation payload
      in if quota_exceeded limits svc new_records
         then (STATUS_CAPACITY_EXCEEDED,
               snprintf_s response_len
                 (kv ''status'' ''capacity_exceeded'' @ kv ''quota'' ''max_records'' @
                  kv ''max_records'' (show_word (case limits of None \<Rightarrow> 0 | Some lim \<Rightarrow> lim_max_records lim)) @
                  kv ''record_count'' (show_word (svc_record_count svc)) @
                  kv ''required_records''
                    (show_word (if new_records = UINT64_MAX then 0 else new_records))),
               False, False, s)
         else case mem_service_dispatch_operation env probe operation payload response_len s of (st, resp, s1) \<Rightarrow>
           case (case limits of
                   Some lim \<Rightarrow>
                     if st = STATUS_OK \<and> operation = OP_REGISTER_TRAINING_ARTIFACT \<and>
                        lim_max_checkpoint_records lim > 0
                     then mem_service_apply_checkpoint_retention env (srv_svc s1)
                            (lim_max_checkpoint_records lim) (srv_fw s1)
                     else (False, srv_svc s1, srv_fw s1)
                 | None \<Rightarrow> (False, srv_svc s1, srv_fw s1)) of (checkpoint_pruned, svc2, fw2) \<Rightarrow>
           case (case limits of
                   Some lim \<Rightarrow>
                     if st = STATUS_OK \<and> mem_service_operation_mutates operation payload \<and>
                        (lim_max_retained_records lim > 0 \<or> lim_max_retained_record_age_ms lim > 0)
                     then mem_service_apply_record_retention env svc2 (lim_max_retained_records lim)
                            (lim_max_retained_record_age_ms lim) (lim_max_retained_record_kind lim)
                            (lim_max_retained_record_tenant_enabled lim) (lim_max_retained_record_tenant lim) fw2
                     else (False, svc2, fw2)
                 | None \<Rightarrow> (False, svc2, fw2)) of (record_pruned, svc3, fw3) \<Rightarrow>
           (st, resp, checkpoint_pruned, record_pruned, s1 \<lparr> srv_svc := svc3, srv_fw := fw3 \<rparr>))"

text \<open>Appending to the journal and replacing the store.\<close>

definition persist ::
  "io_env \<Rightarrow> nat \<Rightarrow> cstr \<Rightarrow> nat option \<Rightarrow> mem_service_audit_event option \<Rightarrow> mem_service \<Rightarrow> file_world \<Rightarrow>
   bool \<times> file_world" where
  "persist io torn store_path pending event svc fw =
     (case mem_service_append_journal io torn store_path
             (map_option (\<lambda>i. svc_idempotency_records svc ! i) pending) event fw of (rc, fw1) \<Rightarrow>
      if rc \<noteq> 0 then (False, fw1)
      else case mem_service_save_store io svc store_path fw1 of (rc2, fw2) \<Rightarrow> (rc2 = 0, fw2))"

text \<open>The answer when the request changed the service but could not be made durable.\<close>

definition persist_failed ::
  "request_env \<Rightarrow> cstr \<Rightarrow> nat option \<Rightarrow> mem_service_wire_operation \<Rightarrow> cstr \<Rightarrow> nat \<Rightarrow> bool \<Rightarrow> mem_service \<Rightarrow>
   file_world \<Rightarrow> mem_service_wire_status \<times> cstr \<times> mem_service \<times> file_world" where
  "persist_failed renv store_path pending operation payload response_len handled svc fw =
     (let resp = snprintf_s response_len (''durable_store_save_failed'' @ [newline]);
          svc1 = mem_service_complete_idempotency_record pending operation payload STATUS_INTERNAL resp svc
      in case mem_service_append_audit_event (rq_failure_audit_ms renv) svc1 operation payload
                STATUS_INTERNAL resp handled of (_, event, svc2) \<Rightarrow>
         case mem_service_append_journal (rq_failure_io renv) (rq_failure_torn renv) store_path
                (map_option (\<lambda>i. svc_idempotency_records svc2 ! i) pending) event fw of (_, fw1) \<Rightarrow>
         case mem_service_save_store (rq_failure_io renv) svc2 store_path fw1 of (_, fw2) \<Rightarrow>
           (STATUS_INTERNAL, resp, svc2, fw2))"

text \<open>The compactions at the end; their failures are only reported.\<close>

definition resave :: "io_env \<Rightarrow> mem_service \<Rightarrow> cstr \<Rightarrow> file_world \<Rightarrow> file_world" where
  "resave io svc store_path fw =
     (case mem_service_save_store io svc store_path fw of (rc, fw1) \<Rightarrow>
      if rc \<noteq> 0 then fw1 else snd (mem_service_compact_journal_now io store_path fw1))"

definition sync_files ::
  "io_env \<Rightarrow> cstr \<Rightarrow> bool \<Rightarrow> bool \<Rightarrow> bool \<Rightarrow> bool \<Rightarrow> mem_service \<Rightarrow> file_world \<Rightarrow> file_world" where
  "sync_files io store_path changed audit_pruned checkpoint_pruned record_pruned svc fw =
     (let fw1 = (if changed then snd (mem_service_compact_journal io store_path fw) else fw);
          fw2 = (if audit_pruned then snd (mem_service_compact_journal_now io store_path fw1) else fw1);
          fw3 = (if checkpoint_pruned then resave io svc store_path fw2 else fw2)
      in if record_pruned then resave io svc store_path fw3 else fw3)"

definition mem_service_handle_operation_with_limits ::
  "request_env \<Rightarrow> 'w probe \<Rightarrow> cstr \<Rightarrow> mem_service_daemon_limits option \<Rightarrow> mem_service_wire_operation \<Rightarrow>
   cstr \<Rightarrow> nat \<Rightarrow> 'w server \<Rightarrow> mem_service_wire_status \<times> cstr \<times> 'w server" where
  "mem_service_handle_operation_with_limits renv probe store_path limits operation payload response_len s =
     (let env = rq_daemon renv in
      case mem_service_try_idempotency_replay (srv_svc s) operation payload response_len of
        (st0, resp0, pending, handled, svc0) \<Rightarrow>
      case (if handled then (st0, resp0, False, False, s \<lparr> srv_svc := svc0 \<rparr>)
            else run_request env probe limits operation payload response_len (s \<lparr> srv_svc := svc0 \<rparr>)) of
        (st1, resp1, checkpoint_pruned, record_pruned, s1) \<Rightarrow>
      let svc1 = (if handled then srv_svc s1
                  else mem_service_complete_idempotency_record pending operation payload st1 resp1 (srv_svc s1))
      in case mem_service_append_audit_event (rq_audit_ms renv) svc1 operation payload st1 resp1 handled of
        (appended, event, svc2) \<Rightarrow>
      case (case limits of
              Some lim \<Rightarrow>
                if appended \<and> lim_max_audit_events lim > 0
                then mem_service_apply_audit_retention svc2 (lim_max_audit_events lim) else (False, svc2)
            | None \<Rightarrow> (False, svc2)) of (audit_pruned, svc3) \<Rightarrow>
      case (if appended then persist (de_io env) (rq_torn renv) store_path pending event svc3 (srv_fw s1)
            else (True, srv_fw s1)) of (saved, fw3) \<Rightarrow>
      case (if \<not> saved \<and> st1 = STATUS_OK \<and> mem_service_operation_mutates operation payload
            then persist_failed renv store_path pending operation payload response_len handled svc3 fw3
            else (st1, resp1, svc3, fw3)) of (st, resp, svc4, fw4) \<Rightarrow>
        (st, resp,
         s1 \<lparr> srv_svc := mem_service_record_operation_metrics svc4 operation st
                (if rq_end_ms renv \<ge> rq_start_ms renv then rq_end_ms renv - rq_start_ms renv else 0),
              srv_fw := sync_files (rq_sync_io renv) store_path
                (st = STATUS_OK \<and> mem_service_operation_mutates operation payload)
                audit_pruned checkpoint_pruned record_pruned svc4 fw4 \<rparr>))"

definition mem_service_handle_operation ::
  "request_env \<Rightarrow> 'w probe \<Rightarrow> cstr \<Rightarrow> mem_service_wire_operation \<Rightarrow> cstr \<Rightarrow> nat \<Rightarrow> 'w server \<Rightarrow>
   mem_service_wire_status \<times> cstr \<times> 'w server" where
  "mem_service_handle_operation renv probe store_path operation payload response_len s =
     mem_service_handle_operation_with_limits renv probe store_path None operation payload response_len s"

section \<open>Serving a client\<close>

text \<open>What arrives on the connection is a header and, when it can be read in full, the payload.
  The answer is a header with its payload; \<open>None\<close> when the connection is dropped.\<close>

definition mem_service_send_response ::
  "u64 \<Rightarrow> mem_service_wire_header \<Rightarrow> mem_service_wire_status \<Rightarrow> cstr \<Rightarrow> mem_service_wire_header \<times> cstr" where
  "mem_service_send_response now_ms request status payload =
     (mem_service_wire_init_header (hdr_request_id request) (wire_operation_of_code (hdr_operation request))
        (of_nat (length payload)) (mem_service_wire_checksum (bytes_of payload))
        \<lparr> hdr_status := wire_status_code status, hdr_error_code := wire_status_code status,
          hdr_server_time_ms := now_ms \<rparr>, payload)"

definition mem_service_read_payload :: "u32 \<Rightarrow> u32 \<Rightarrow> u8 list option \<Rightarrow> u8 list option" where
  "mem_service_read_payload payload_len expected_checksum body =
     (if unat payload_len > MEM_SERVICE_WIRE_MAX_PAYLOAD_LEN then None
      else case (if payload_len = 0 then Some [] else body) of
        None \<Rightarrow> None
      | Some bytes \<Rightarrow> if mem_service_wire_checksum bytes \<noteq> expected_checksum then None else Some bytes)"

definition mem_service_handle_client ::
  "request_env \<Rightarrow> 'w probe \<Rightarrow> cstr \<Rightarrow> mem_service_daemon_limits option \<Rightarrow> u64 \<Rightarrow>
   mem_service_wire_header option \<Rightarrow> u8 list option \<Rightarrow> 'w server \<Rightarrow>
   (mem_service_wire_header \<times> cstr) option \<times> 'w server" where
  "mem_service_handle_client renv probe store_path limits now_ms header body s =
     (case header of
        None \<Rightarrow> (None, s)
      | Some request \<Rightarrow>
          let operation = wire_operation_of_code (hdr_operation request) in
          if \<not> mem_service_wire_header_is_compatible request then (None, s)
          else if unat (hdr_payload_len request) > MEM_SERVICE_WIRE_MAX_PAYLOAD_LEN
          then (Some (mem_service_send_response now_ms request STATUS_CAPACITY_EXCEEDED
                        (''capacity_exceeded'' @ [newline])), s)
          else if mem_service_request_exceeds_payload_limit (hdr_payload_len request) limits
          then (Some (mem_service_send_response now_ms request STATUS_CAPACITY_EXCEEDED
                        (kv ''status'' ''capacity_exceeded'' @ kv ''quota'' ''max_payload_bytes'')),
                s \<lparr> srv_svc := mem_service_record_operation_metrics (srv_svc s) operation
                      STATUS_CAPACITY_EXCEEDED 0 \<rparr>)
          else case mem_service_read_payload (hdr_payload_len request) (hdr_payload_checksum request) body of
            None \<Rightarrow>
              (Some (mem_service_send_response now_ms request STATUS_CHECKSUM_MISMATCH
                       (''checksum_mismatch'' @ [newline])), s)
          | Some bytes \<Rightarrow>
              (case mem_service_handle_operation_with_limits renv probe store_path limits operation
                      (takeWhile (\<lambda>c. c \<noteq> CHR 0x00) (cstr_of bytes)) MEM_SERVICE_WIRE_MAX_PAYLOAD_LEN s of
                 (status, response, s') \<Rightarrow>
                   (Some (mem_service_send_response now_ms request status
                            (if response \<noteq> [] then response else mem_service_wire_status_name status)), s')))"

section \<open>The steps of a request\<close>

lemma handle_steps:
  assumes "mem_service_handle_operation_with_limits renv probe path limits op payload n s = (st, resp, s')"
  obtains st0 resp0 pending handled svc0 st1 resp1 ck rc s1 appended event svc2 ap svc3 saved fw3 svc4 fw4 where
    "mem_service_try_idempotency_replay (srv_svc s) op payload n = (st0, resp0, pending, handled, svc0)"
    "(if handled then (st0, resp0, False, False, s \<lparr> srv_svc := svc0 \<rparr>)
      else run_request (rq_daemon renv) probe limits op payload n (s \<lparr> srv_svc := svc0 \<rparr>)) = (st1, resp1, ck, rc, s1)"
    "mem_service_append_audit_event (rq_audit_ms renv)
       (if handled then srv_svc s1
        else mem_service_complete_idempotency_record pending op payload st1 resp1 (srv_svc s1))
       op payload st1 resp1 handled = (appended, event, svc2)"
    "(case limits of
        Some lim \<Rightarrow> if appended \<and> lim_max_audit_events lim > 0
                    then mem_service_apply_audit_retention svc2 (lim_max_audit_events lim) else (False, svc2)
      | None \<Rightarrow> (False, svc2)) = (ap, svc3)"
    "(if appended then persist (de_io (rq_daemon renv)) (rq_torn renv) path pending event svc3 (srv_fw s1)
      else (True, srv_fw s1)) = (saved, fw3)"
    "(if \<not> saved \<and> st1 = STATUS_OK \<and> mem_service_operation_mutates op payload
      then persist_failed renv path pending op payload n handled svc3 fw3
      else (st1, resp1, svc3, fw3)) = (st, resp, svc4, fw4)"
    "s' = s1 \<lparr> srv_svc := mem_service_record_operation_metrics svc4 op st
             (if rq_end_ms renv \<ge> rq_start_ms renv then rq_end_ms renv - rq_start_ms renv else 0),
           srv_fw := sync_files (rq_sync_io renv) path (st = STATUS_OK \<and> mem_service_operation_mutates op payload)
             ap ck rc svc4 fw4 \<rparr>"
proof -
  obtain st0 resp0 pending handled svc0 where
    1: "mem_service_try_idempotency_replay (srv_svc s) op payload n = (st0, resp0, pending, handled, svc0)"
    by (metis prod_cases5)
  obtain st1 resp1 ck rc s1 where
    2: "(if handled then (st0, resp0, False, False, s \<lparr> srv_svc := svc0 \<rparr>)
      else run_request (rq_daemon renv) probe limits op payload n (s \<lparr> srv_svc := svc0 \<rparr>)) = (st1, resp1, ck, rc, s1)"
    by (metis prod_cases5)
  obtain appended event svc2 where
    3: "mem_service_append_audit_event (rq_audit_ms renv)
       (if handled then srv_svc s1
        else mem_service_complete_idempotency_record pending op payload st1 resp1 (srv_svc s1))
       op payload st1 resp1 handled = (appended, event, svc2)"
    by (metis prod_cases3)
  obtain ap svc3 where
    4: "(case limits of
        Some lim \<Rightarrow> if appended \<and> lim_max_audit_events lim > 0
                    then mem_service_apply_audit_retention svc2 (lim_max_audit_events lim) else (False, svc2)
      | None \<Rightarrow> (False, svc2)) = (ap, svc3)"
    by fastforce
  obtain saved fw3 where
    5: "(if appended then persist (de_io (rq_daemon renv)) (rq_torn renv) path pending event svc3 (srv_fw s1)
      else (True, srv_fw s1)) = (saved, fw3)"
    by fastforce
  obtain st2 resp2 svc4 fw4 where
    6: "(if \<not> saved \<and> st1 = STATUS_OK \<and> mem_service_operation_mutates op payload
      then persist_failed renv path pending op payload n handled svc3 fw3
      else (st1, resp1, svc3, fw3)) = (st2, resp2, svc4, fw4)"
    by (metis prod_cases4)
  note run = assms [unfolded mem_service_handle_operation_with_limits_def Let_def, unfolded 1 prod.case 2,
      unfolded prod.case 3, unfolded prod.case 4, unfolded prod.case 5, unfolded prod.case 6, unfolded prod.case prod.inject]
  show ?thesis by (rule that [OF 1 2 3 4 5]) (use 6 run in auto)
qed

text \<open>The slot a tracked request owns: free and its key unknown, or already holding its key.\<close>

definition owns_slot :: "cstr \<Rightarrow> nat option \<Rightarrow> mem_service \<Rightarrow> bool" where
  "owns_slot payload pending svc \<longleftrightarrow>
     (case pending of None \<Rightarrow> True
      | Some i \<Rightarrow> \<exists>key. mem_service_payload_get_idempotency_key payload MEM_SERVICE_IDEMPOTENCY_KEY_LEN = Some key \<and>
          i < length (svc_idempotency_records svc) \<and>
          (idem.lookup (svc_idempotency_records svc) key = Some i \<or>
           idem.lookup (svc_idempotency_records svc) key = None \<and> \<not> idem_in_use (svc_idempotency_records svc ! i)))"

lemma owns_slot_cong:
  "svc_idempotency_records svc' = svc_idempotency_records svc \<Longrightarrow> owns_slot payload pending svc' = owns_slot payload pending svc"
  by (simp add: owns_slot_def split: option.split)

lemma try_replay_frame:
  assumes "mem_service_try_idempotency_replay svc op payload n = (st, resp, pending, handled, svc')"
  shows "svc' = svc \<lparr> svc_metrics := svc_metrics svc' \<rparr>" "handled \<Longrightarrow> pending = None" "\<not> handled \<Longrightarrow> svc' = svc"
    "\<not> handled \<Longrightarrow> st = STATUS_OK \<and> resp = []" "owns_slot payload pending svc'"
    "pending \<noteq> None \<Longrightarrow> mem_service_operation_mutates op payload"
    "pending = Some i \<Longrightarrow> \<not> idem_in_use (svc_idempotency_records svc ! i)"
  using assms find_idempotency_lookup [of _ svc] alloc_idempotency_SomeD [of svc] idempotency_key_SomeD(1)
  by (auto simp: mem_service_try_idempotency_replay_def owns_slot_def Let_def split: if_splits option.splits)

lemma complete_frame:
  assumes "owns_slot payload pending svc" "idem_wf svc"
  shows "idem_wf (mem_service_complete_idempotency_record pending op payload st resp svc)"
    "owns_slot payload pending (mem_service_complete_idempotency_record pending op payload st resp svc)"
proof -
  let ?svc = "mem_service_complete_idempotency_record pending op payload st resp svc"
  show "idem_wf ?svc"
  proof (cases pending)
    case (Some i)
    with assms complete_idempotency_spec(1) [OF assms(2)] show ?thesis by (auto simp: owns_slot_def)
  qed (simp add: mem_service_complete_idempotency_record_def assms(2))
  show "owns_slot payload pending ?svc"
  proof (cases pending)
    case (Some i)
    then obtain key where key: "mem_service_payload_get_idempotency_key payload MEM_SERVICE_IDEMPOTENCY_KEY_LEN = Some key"
      and slot: "i < length (svc_idempotency_records svc)"
        "idem.lookup (svc_idempotency_records svc) key = Some i \<or>
         idem.lookup (svc_idempotency_records svc) key = None \<and> \<not> idem_in_use (svc_idempotency_records svc ! i)"
      using assms(1) by (auto simp: owns_slot_def)
    have "idem.keys_distinct (svc_idempotency_records svc)" using assms(2) by (simp add: idem_wf_def)
    from idem.lookup_update [OF this slot(1) completed_request_ok(2) [OF key], of op st resp key]
      slot completed_request_ok(3) [OF key, of op st resp] Some key
    show ?thesis by (simp add: owns_slot_def mem_service_complete_idempotency_record_def)
  qed (simp add: owns_slot_def)
qed

text \<open>A removal by retention leaves a slot with its owner.\<close>

lemma retire_owns_slot:
  assumes "owns_slot payload pending svc"
    and free: "\<And>i. pending = Some i \<Longrightarrow> \<not> idem_in_use (svc_idempotency_records svc ! i)"
  shows "owns_slot payload pending (fst (retire_record env j svc fw)) \<and>
    (\<forall>i. pending = Some i \<longrightarrow> \<not> idem_in_use (svc_idempotency_records (fst (retire_record env j svc fw)) ! i))"
proof (cases pending)
  case (Some i)
  let ?xs = "svc_idempotency_records svc" and ?key = "snprintf_s 96 (rec_key (svc_records svc ! j))"
  let ?ys = "map (\<lambda>r. if answered_with_key ?key r then zero_idempotency_record else r) ?xs"
  have tab: "svc_idempotency_records (fst (retire_record env j svc fw)) = (if ?key = [] then ?xs else ?ys)"
    by (simp add: retire_record_def Let_def mem_service_prune_idempotency_for_record_key_def)
  have nf: "\<not> idem_in_use (?xs ! i)" using free Some by simp
  then obtain key where key: "mem_service_payload_get_idempotency_key payload MEM_SERVICE_IDEMPOTENCY_KEY_LEN = Some key"
    "i < length ?xs" "idem.lookup ?xs key = None"
    using assms(1) Some by (auto simp: owns_slot_def dest: idem.lookup_SomeD)
  have "idem.lookup ?ys key = None"
    using key(3) unfolding idem.lookup_def find_slot_None_iff by auto
  moreover have "\<not> idem_in_use (?ys ! i)" using key(2) nf by simp
  ultimately show ?thesis using key nf Some by (auto simp: owns_slot_def tab)
qed (simp add: owns_slot_def)

lemma retires_owns_slot:
  assumes "retires env sel s s'" "owns_slot payload pending (fst s)"
    and "\<And>i. pending = Some i \<Longrightarrow> \<not> idem_in_use (svc_idempotency_records (fst s) ! i)"
  shows "owns_slot payload pending (fst s')"
  using assms
proof (induction rule: retires.induct)
  case (removal i svc fw svc' fw' s)
  from retire_owns_slot [of payload pending svc env i fw] removal(4,6-8) show ?case by auto
qed simp

lemma run_request_steps:
  assumes run: "run_request env probe limits op payload n s = (st, resp, ck, rc, s1)"
  obtains "st = STATUS_CAPACITY_EXCEEDED" "s1 = s" "\<not> ck" "\<not> rc"
    "quota_exceeded limits (srv_svc s) (mem_service_estimate_new_record_count (srv_svc s) op payload)"
  | sd where "mem_service_dispatch_operation env probe op payload n s = (st, resp, sd)"
    "\<not> quota_exceeded limits (srv_svc s) (mem_service_estimate_new_record_count (srv_svc s) op payload)"
    "retires env (\<lambda>_. True) (srv_svc sd, srv_fw sd) (srv_svc s1, srv_fw s1)" "srv_stage s1 = srv_stage sd"
    "limits = None \<or> st \<noteq> STATUS_OK \<or> \<not> mem_service_operation_mutates op payload \<Longrightarrow> s1 = sd"
proof (cases "quota_exceeded limits (srv_svc s) (mem_service_estimate_new_record_count (srv_svc s) op payload)")
  case True
  with run that(1) show ?thesis by (simp add: run_request_def Let_def)
next
  case quota: False
  obtain st1 resp1 sd where d: "mem_service_dispatch_operation env probe op payload n s = (st1, resp1, sd)"
    by (metis prod_cases3)
  have mut: "op = OP_REGISTER_TRAINING_ARTIFACT \<Longrightarrow> mem_service_operation_mutates op payload"
    by (simp add: mem_service_operation_mutates_def)
  show ?thesis
  proof (cases limits)
    case None
    with run d quota that(2) [of sd] retires.nothing show ?thesis by (auto simp: run_request_def Let_def)
  next
    case (Some lim)
    obtain ck2 svc2 fw2 where c: "(if st1 = STATUS_OK \<and> op = OP_REGISTER_TRAINING_ARTIFACT \<and>
        lim_max_checkpoint_records lim > 0
        then mem_service_apply_checkpoint_retention env (srv_svc sd) (lim_max_checkpoint_records lim) (srv_fw sd)
        else (False, srv_svc sd, srv_fw sd)) = (ck2, svc2, fw2)" by (metis prod_cases3)
    obtain rc2 svc3 fw3 where r: "(if st1 = STATUS_OK \<and> mem_service_operation_mutates op payload \<and>
        (lim_max_retained_records lim > 0 \<or> lim_max_retained_record_age_ms lim > 0)
        then mem_service_apply_record_retention env svc2 (lim_max_retained_records lim)
               (lim_max_retained_record_age_ms lim) (lim_max_retained_record_kind lim)
               (lim_max_retained_record_tenant_enabled lim) (lim_max_retained_record_tenant lim) fw2
        else (False, svc2, fw2)) = (rc2, svc3, fw3)" by (metis prod_cases3)
    have res: "st = st1" "resp = resp1" "s1 = sd \<lparr> srv_svc := svc3, srv_fw := fw3 \<rparr>"
      using run quota by (simp_all add: run_request_def Let_def Some d c r)
    have "retires env (\<lambda>_. True) (srv_svc sd, srv_fw sd) (svc2, fw2)"
      using c retires_mono [OF checkpoint_retention_retires] retires.nothing by (auto split: if_splits)
    moreover have "retires env (\<lambda>_. True) (svc2, fw2) (svc3, fw3)"
      using r retires_mono [OF record_retention_retires] retires.nothing by (auto split: if_splits)
    ultimately have "retires env (\<lambda>_. True) (srv_svc sd, srv_fw sd) (svc3, fw3)" by (rule retires_trans)
    moreover have "s1 = sd" if "st \<noteq> STATUS_OK \<or> \<not> mem_service_operation_mutates op payload"
      using c r res mut that by (auto split: if_splits)
    ultimately show ?thesis using that(2) [of sd] d quota res Some by simp
  qed
qed

lemma run_request_inv:
  assumes inv: "server_inv s" and be: "writers_keep_identity (de_backends env)"
    and run: "run_request env probe limits op payload n s = (st, resp, ck, rc, s1)"
  shows "server_inv s1"
proof (cases rule: run_request_steps [OF run])
  case (2 sd)
  from dispatch_inv [OF inv be 2(1)] retires_invariant(1,2) [OF 2(3)] 2(4) show ?thesis
    by (simp add: server_inv_def)
qed (use inv in simp)

lemma run_request_slot:
  assumes inv: "server_inv s" and be: "writers_keep_identity (de_backends env)"
    and run: "run_request env probe limits op payload n s = (st, resp, ck, rc, s1)"
    and slot: "owns_slot payload pending (srv_svc s)"
      "\<And>i. pending = Some i \<Longrightarrow> \<not> idem_in_use (svc_idempotency_records (srv_svc s) ! i)"
    and mut: "pending \<noteq> None \<Longrightarrow> mem_service_operation_mutates op payload"
  shows "owns_slot payload pending (srv_svc s1)"
proof (cases rule: run_request_steps [OF run])
  case (2 sd)
  have wf: "records_wf (srv_svc s)" using inv by (simp add: server_inv_def)
  have d: "svc_idempotency_records (srv_svc sd) = svc_idempotency_records (srv_svc s) \<or>
      svc_idempotency_records (srv_svc sd) = svc_idempotency_records initial_service" if p: "pending \<noteq> None"
  proof (cases rule: mutates_cases [OF mut [OF p]])
    case 1
    from svc_rest_eqD(2) [OF dispatch_writes(2) [OF wf be 1 2(1)]] show ?thesis by simp
  next
    case op: 2
    obtain st1 resp1 svc1 where h: "mem_service_restore_snapshot (srv_svc s) payload n = (st1, resp1, svc1)"
      by (metis prod_cases3)
    have "mem_service_payload_get_idempotency_key payload MEM_SERVICE_IDEMPOTENCY_KEY_LEN \<noteq> None"
      using slot(1) p by (auto simp: owns_slot_def)
    then have "svc1 = srv_svc s"
      using restored_untracked [of initial_service payload] by (cases rule: restore_snapshot_cases [OF h]) auto
    with 2(1) h op show ?thesis by (auto simp: mem_service_dispatch_operation_def on_service_def)
  next
    case op: 3
    obtain st1 resp1 svc1 stage1 where h:
      "mem_service_restore_snapshot_page (srv_svc s) (srv_stage s) payload n = (st1, resp1, svc1, stage1)"
      by (metis prod_cases4)
    then have "svc1 = srv_svc s \<or> svc_idempotency_records svc1 = svc_idempotency_records initial_service"
      using restore_page_cases [OF h] page_commit_cases [of "srv_svc s" "srv_stage s" n st1 resp1 svc1 stage1] by blast
    with 2(1) h op(1) show ?thesis by (auto simp: mem_service_dispatch_operation_def)
  qed
  have "owns_slot payload pending (srv_svc sd) \<and>
      (\<forall>i. pending = Some i \<longrightarrow> \<not> idem_in_use (svc_idempotency_records (srv_svc sd) ! i))"
  proof (cases pending)
    case (Some i)
    then obtain key where key: "mem_service_payload_get_idempotency_key payload MEM_SERVICE_IDEMPOTENCY_KEY_LEN = Some key"
      "i < MEM_SERVICE_MAX_IDEMPOTENCY_RECORDS"
      using slot(1) inv by (auto simp: owns_slot_def server_inv_def idem_wf_def)
    have "idem.lookup (svc_idempotency_records initial_service) key = None"
      using idem_wf_initial(2) by (auto simp: completed_map_def idem.table_map_def fun_eq_iff)
    moreover have "\<not> idem_in_use (svc_idempotency_records initial_service ! i)" using key(2) by simp
    ultimately have fresh: "owns_slot payload pending initial_service"
      using key Some by (auto simp: owns_slot_def)
    show ?thesis
      using d slot Some fresh owns_slot_cong [of "srv_svc sd" _ payload pending] \<open>\<not> idem_in_use (svc_idempotency_records initial_service ! i)\<close>
      by (metis option.discI option.inject)
  qed (simp add: owns_slot_def)
  with retires_owns_slot [OF 2(3), of payload pending] show ?thesis by simp
qed (use slot in simp)

text \<open>What the audit steps touch.\<close>

lemma append_audit_frame:
  assumes "mem_service_append_audit_event now svc op payload st resp replay = (appended, event, svc')"
  shows "svc_records svc' = svc_records svc" "svc_record_count svc' = svc_record_count svc"
    "svc_idempotency_records svc' = svc_idempotency_records svc" "svc_metrics svc' = svc_metrics svc"
  using assms by (auto simp: mem_service_append_audit_event_def Let_def split: if_splits)

lemma audit_retention_frame:
  assumes "mem_service_apply_audit_retention svc m = (pruned, svc')"
  shows "svc_records svc' = svc_records svc" "svc_record_count svc' = svc_record_count svc"
    "svc_idempotency_records svc' = svc_idempotency_records svc" "svc_metrics svc' = svc_metrics svc"
  using assms by (auto simp: mem_service_apply_audit_retention_def Let_def split: if_splits)

lemma complete_records:
  "svc_records (mem_service_complete_idempotency_record pending op payload st resp svc) = svc_records svc"
  "svc_record_count (mem_service_complete_idempotency_record pending op payload st resp svc) = svc_record_count svc"
  by (simp_all add: mem_service_complete_idempotency_record_def split: option.split)

lemma audit_events_from_cong:
  assumes "svc_audit_events svc' = svc_audit_events svc" "svc_audit_next_sequence svc' = svc_audit_next_sequence svc"
  shows "audit_events_from svc' sequence = audit_events_from svc sequence"
proof (induction "unat (svc_audit_next_sequence svc) - unat sequence" arbitrary: sequence rule: less_induct)
  case less
  have find: "mem_service_find_audit_sequence svc' sequence = mem_service_find_audit_sequence svc sequence"
    by (simp add: mem_service_find_audit_sequence_def assms)
  show ?case
    using less [OF audit_step_less]
    by (subst (1 2) audit_events_from.simps) (auto simp: find assms(2) split: option.split)
qed

lemma store_text_cong:
  assumes "svc_records svc' = svc_records svc" "svc_record_count svc' = svc_record_count svc"
    "svc_idempotency_records svc' = svc_idempotency_records svc" "svc_audit_events svc' = svc_audit_events svc"
    "svc_audit_next_sequence svc' = svc_audit_next_sequence svc" "svc_audit_event_count svc' = svc_audit_event_count svc"
  shows "store_text svc' = store_text svc"
  using assms audit_events_from_cong [OF assms(4,5)] by (simp add: store_text_def snapshot_header_def)

lemma operation_metrics_frame:
  "svc_records (mem_service_record_operation_metrics svc op st l) = svc_records svc"
  "svc_record_count (mem_service_record_operation_metrics svc op st l) = svc_record_count svc"
  "svc_idempotency_records (mem_service_record_operation_metrics svc op st l) = svc_idempotency_records svc"
  "svc_audit_events (mem_service_record_operation_metrics svc op st l) = svc_audit_events svc"
  "svc_audit_next_sequence (mem_service_record_operation_metrics svc op st l) = svc_audit_next_sequence svc"
  "svc_audit_event_count (mem_service_record_operation_metrics svc op st l) = svc_audit_event_count svc"
  by (simp_all add: mem_service_record_operation_metrics_def)

lemma persist_failed_frame:
  assumes "persist_failed renv path pending op payload n handled svc fw = (st, resp, svc', fw')"
  shows "st = STATUS_INTERNAL" "svc_records svc' = svc_records svc" "svc_record_count svc' = svc_record_count svc"
    "svc_idempotency_records svc' = svc_idempotency_records
       (mem_service_complete_idempotency_record pending op payload STATUS_INTERNAL resp svc)"
    "resp = snprintf_s n (''durable_store_save_failed'' @ [newline])"
  using assms append_audit_frame complete_records
  by (auto simp: persist_failed_def Let_def split: prod.splits)

section \<open>The tables after a request\<close>

lemma complete_twice:
  "svc_idempotency_records svc' = svc_idempotency_records
     (mem_service_complete_idempotency_record pending op payload st resp svc) \<Longrightarrow>
   svc_idempotency_records (mem_service_complete_idempotency_record pending op payload st2 resp2 svc') =
   svc_idempotency_records (mem_service_complete_idempotency_record pending op payload st2 resp2 svc)"
  by (auto simp: mem_service_complete_idempotency_record_def split: option.splits)

text \<open>Whatever happens to files and audit log, the tables are those after the dispatch, with the
  owned slot completed by the status and the response that are answered.\<close>

lemma handle_tables:
  assumes run: "mem_service_handle_operation_with_limits renv probe path limits op payload n s = (st, resp, s')"
  obtains st0 resp0 pending handled svc0 st1 resp1 ck rc s1 where
    "mem_service_try_idempotency_replay (srv_svc s) op payload n = (st0, resp0, pending, handled, svc0)"
    "(if handled then (st0, resp0, False, False, s \<lparr> srv_svc := svc0 \<rparr>)
      else run_request (rq_daemon renv) probe limits op payload n (s \<lparr> srv_svc := svc0 \<rparr>)) = (st1, resp1, ck, rc, s1)"
    "st = st1 \<and> resp = resp1 \<or>
     st1 = STATUS_OK \<and> mem_service_operation_mutates op payload \<and> st = STATUS_INTERNAL \<and>
     resp = snprintf_s n (''durable_store_save_failed'' @ [newline])"
    "path = [] \<Longrightarrow> st = st1"
    "svc_records (srv_svc s') = svc_records (srv_svc s1)" "svc_record_count (srv_svc s') = svc_record_count (srv_svc s1)"
    "svc_idempotency_records (srv_svc s') = svc_idempotency_records
       (mem_service_complete_idempotency_record pending op payload st resp (srv_svc s1))"
    "srv_stage s' = srv_stage s1"
proof (rule handle_steps [OF run])
  fix st0 resp0 pending handled svc0 st1 resp1 ck rc s1 appended event svc2 ap svc3 saved fw3 svc4 fw4
  assume 1: "mem_service_try_idempotency_replay (srv_svc s) op payload n = (st0, resp0, pending, handled, svc0)"
    and 2: "(if handled then (st0, resp0, False, False, s \<lparr> srv_svc := svc0 \<rparr>)
      else run_request (rq_daemon renv) probe limits op payload n (s \<lparr> srv_svc := svc0 \<rparr>)) = (st1, resp1, ck, rc, s1)"
    and 3: "mem_service_append_audit_event (rq_audit_ms renv)
       (if handled then srv_svc s1
        else mem_service_complete_idempotency_record pending op payload st1 resp1 (srv_svc s1))
       op payload st1 resp1 handled = (appended, event, svc2)"
    and 4: "(case limits of
        Some lim \<Rightarrow> if appended \<and> lim_max_audit_events lim > 0
                    then mem_service_apply_audit_retention svc2 (lim_max_audit_events lim) else (False, svc2)
      | None \<Rightarrow> (False, svc2)) = (ap, svc3)"
    and 5: "(if appended then persist (de_io (rq_daemon renv)) (rq_torn renv) path pending event svc3 (srv_fw s1)
      else (True, srv_fw s1)) = (saved, fw3)"
    and 6: "(if \<not> saved \<and> st1 = STATUS_OK \<and> mem_service_operation_mutates op payload
      then persist_failed renv path pending op payload n handled svc3 fw3
      else (st1, resp1, svc3, fw3)) = (st, resp, svc4, fw4)"
    and 7: "s' = s1 \<lparr> srv_svc := mem_service_record_operation_metrics svc4 op st
             (if rq_end_ms renv \<ge> rq_start_ms renv then rq_end_ms renv - rq_start_ms renv else 0),
           srv_fw := sync_files (rq_sync_io renv) path (st = STATUS_OK \<and> mem_service_operation_mutates op payload)
             ap ck rc svc4 fw4 \<rparr>"
  let ?complete = "\<lambda>st resp. mem_service_complete_idempotency_record pending op payload st resp (srv_svc s1)"
  have "(if handled then srv_svc s1 else ?complete st1 resp1) = ?complete st1 resp1"
    using try_replay_frame(2) [OF 1] by (simp add: mem_service_complete_idempotency_record_def)
  note A = append_audit_frame [OF 3, unfolded this]
  have R: "svc_records svc3 = svc_records svc2" "svc_record_count svc3 = svc_record_count svc2"
      "svc_idempotency_records svc3 = svc_idempotency_records svc2"
    using 4 audit_retention_frame by (auto split: option.splits if_splits)
  have eq3: "svc_records svc3 = svc_records (srv_svc s1)" "svc_record_count svc3 = svc_record_count (srv_svc s1)"
    "svc_idempotency_records svc3 = svc_idempotency_records (?complete st1 resp1)"
    using A R complete_records by metis+
  have eq4: "(st = st1 \<and> resp = resp1 \<or>
      st1 = STATUS_OK \<and> mem_service_operation_mutates op payload \<and> st = STATUS_INTERNAL \<and>
      resp = snprintf_s n (''durable_store_save_failed'' @ [newline])) \<and>
    svc_records svc4 = svc_records (srv_svc s1) \<and> svc_record_count svc4 = svc_record_count (srv_svc s1) \<and>
    svc_idempotency_records svc4 = svc_idempotency_records (?complete st resp)"
  proof (cases "\<not> saved \<and> st1 = STATUS_OK \<and> mem_service_operation_mutates op payload")
    case True
    with 6 have f: "persist_failed renv path pending op payload n handled svc3 fw3 = (st, resp, svc4, fw4)"
      by (simp only: if_True simp_thms)
    note F = persist_failed_frame [OF f]
    show ?thesis using True F eq3 complete_twice [OF eq3(3), of STATUS_INTERNAL resp] by simp
  next
    case False
    with 6 have "svc4 = svc3" "st = st1" "resp = resp1" by (simp_all only: if_False prod.inject)
    then show ?thesis using eq3 by simp
  qed
  have "path = [] \<Longrightarrow> saved"
    using 5 by (auto simp: persist_def mem_service_append_journal_def mem_service_save_store_def split: if_splits)
  then have "path = [] \<Longrightarrow> st = st1" using 6 by auto
  then show ?thesis
    by (intro that [OF 1 2]) (use eq4 7 in \<open>simp_all add: operation_metrics_frame\<close>)
qed

lemma request_slot:
  assumes inv: "server_inv s" and be: "writers_keep_identity (de_backends env)"
    and 1: "mem_service_try_idempotency_replay (srv_svc s) op payload n = (st0, resp0, pending, handled, svc0)"
    and 2: "(if handled then (st0, resp0, False, False, s \<lparr> srv_svc := svc0 \<rparr>)
      else run_request env probe limits op payload n (s \<lparr> srv_svc := svc0 \<rparr>)) = (st1, resp1, ck, rc, s1)"
  shows "server_inv s1" "owns_slot payload pending (srv_svc s1)"
proof -
  note T = try_replay_frame [OF 1]
  have "records_wf svc0 = records_wf (srv_svc s)" by (rule records_wf_cong) (subst T(1), simp)+
  moreover have "idem_wf svc0 = idem_wf (srv_svc s)" by (rule idem_wf_cong) (subst T(1), simp)
  ultimately have inv0: "server_inv (s \<lparr> srv_svc := svc0 \<rparr>)" using inv by (simp add: server_inv_def)
  show "server_inv s1" using 2 inv0 run_request_inv [OF inv0 be] by (auto split: if_splits)
  show "owns_slot payload pending (srv_svc s1)"
  proof (cases handled)
    case True
    then show ?thesis using T(2) by (simp add: owns_slot_def)
  next
    case False
    then show ?thesis using 2 run_request_slot [OF inv0 be, where pending = pending] T(3,5,6,7) by auto
  qed
qed

lemma handle_inv:
  assumes inv: "server_inv s" and be: "writers_keep_identity (de_backends (rq_daemon renv))"
    and run: "mem_service_handle_operation_with_limits renv probe path limits op payload n s = (st, resp, s')"
  shows "server_inv s'"
proof (rule handle_tables [OF run])
  fix st0 resp0 pending handled svc0 st1 resp1 ck rc s1
  assume 1: "mem_service_try_idempotency_replay (srv_svc s) op payload n = (st0, resp0, pending, handled, svc0)"
    and 2: "(if handled then (st0, resp0, False, False, s \<lparr> srv_svc := svc0 \<rparr>)
      else run_request (rq_daemon renv) probe limits op payload n (s \<lparr> srv_svc := svc0 \<rparr>)) = (st1, resp1, ck, rc, s1)"
    and same: "svc_records (srv_svc s') = svc_records (srv_svc s1)" "svc_record_count (srv_svc s') = svc_record_count (srv_svc s1)"
      "svc_idempotency_records (srv_svc s') = svc_idempotency_records
         (mem_service_complete_idempotency_record pending op payload st resp (srv_svc s1))"
      "srv_stage s' = srv_stage s1"
  note S = request_slot [OF inv be 1 2]
  show "server_inv s'"
    using S(1) same(4) records_wf_cong(1) [OF same(1,2)] idem_wf_cong(1) [OF same(3)]
      complete_frame(1) [OF S(2), of op st resp]
    by (simp add: server_inv_def)
qed

section \<open>Durability of an acknowledged request\<close>

text \<open>The store file is kept by everything that follows the save.\<close>

lemma compact_keeps_store:
  assumes "path \<noteq> []"
  shows "fw_files (snd (mem_service_compact_journal_now io path fw)) path = fw_files fw path"
    "fw_files (snd (mem_service_compact_journal io path fw)) path = fw_files fw path"
proof -
  have "fw_files (snd (mem_service_rewrite_journal_header io (path @ ''.journal'') fw)) path = fw_files fw path"
    by (auto simp: mem_service_rewrite_journal_header_def fs_write_file_def fs_rename_def fs_unlink_def Let_def
        split: option.splits)
  then show "fw_files (snd (mem_service_compact_journal_now io path fw)) path = fw_files fw path"
    "fw_files (snd (mem_service_compact_journal io path fw)) path = fw_files fw path"
    by (auto simp: mem_service_compact_journal_now_def mem_service_compact_journal_def
        mem_service_make_journal_path_def Let_def split: option.splits if_splits)
qed

lemma resave_keeps_store:
  assumes "path \<noteq> []" "fw_files fw path = Some (bytes_of (store_text svc))"
  shows "fw_files (resave io svc path fw) path = Some (bytes_of (store_text svc))"
proof -
  obtain rc fw1 where save: "mem_service_save_store io svc path fw = (rc, fw1)" by fastforce
  have "fw_files fw1 path = Some (bytes_of (store_text svc))"
    using save_store_cases(1) [OF save assms(1)] assms(2) by auto
  then show ?thesis using compact_keeps_store(1) [OF assms(1)] by (simp add: resave_def save)
qed

lemma sync_keeps_store:
  assumes "path \<noteq> []" "fw_files fw path = Some (bytes_of (store_text svc))"
  shows "fw_files (sync_files io path a b c d svc fw) path = Some (bytes_of (store_text svc))"
proof -
  let ?fw1 = "if a then snd (mem_service_compact_journal io path fw) else fw"
  let ?fw2 = "if b then snd (mem_service_compact_journal_now io path ?fw1) else ?fw1"
  let ?fw3 = "if c then resave io svc path ?fw2 else ?fw2"
  have "fw_files ?fw1 path = Some (bytes_of (store_text svc))"
    using assms compact_keeps_store(2) by (cases a) simp_all
  then have "fw_files ?fw2 path = Some (bytes_of (store_text svc))"
    using compact_keeps_store(1) [OF assms(1), of io ?fw1] by (cases b) simp_all
  then have "fw_files ?fw3 path = Some (bytes_of (store_text svc))"
    using resave_keeps_store [OF assms(1), of ?fw2 svc io] by (cases c) simp_all
  then show ?thesis
    using resave_keeps_store [OF assms(1), of ?fw3 svc io] by (cases d) (simp_all add: sync_files_def Let_def)
qed

lemma acknowledged_store:
  assumes run: "mem_service_handle_operation_with_limits renv probe path limits op payload n s = (STATUS_OK, resp, s')"
    and mut: "mem_service_operation_mutates op payload" and path: "path \<noteq> []"
  shows "fw_files (srv_fw s') path = Some (bytes_of (store_text (srv_svc s')))"
proof (rule handle_steps [OF run])
  fix st0 resp0 pending handled svc0 st1 resp1 ck rc s1 appended event svc2 ap svc3 saved fw3 svc4 fw4
  assume 3: "mem_service_append_audit_event (rq_audit_ms renv)
       (if handled then srv_svc s1
        else mem_service_complete_idempotency_record pending op payload st1 resp1 (srv_svc s1))
       op payload st1 resp1 handled = (appended, event, svc2)"
    and 5: "(if appended then persist (de_io (rq_daemon renv)) (rq_torn renv) path pending event svc3 (srv_fw s1)
      else (True, srv_fw s1)) = (saved, fw3)"
    and 6: "(if \<not> saved \<and> st1 = STATUS_OK \<and> mem_service_operation_mutates op payload
      then persist_failed renv path pending op payload n handled svc3 fw3
      else (st1, resp1, svc3, fw3)) = (STATUS_OK, resp, svc4, fw4)"
    and 7: "s' = s1 \<lparr> srv_svc := mem_service_record_operation_metrics svc4 op STATUS_OK
             (if rq_end_ms renv \<ge> rq_start_ms renv then rq_end_ms renv - rq_start_ms renv else 0),
           srv_fw := sync_files (rq_sync_io renv) path (STATUS_OK = STATUS_OK \<and> mem_service_operation_mutates op payload)
             ap ck rc svc4 fw4 \<rparr>"
  have appended: appended
    using 3 mut by (auto simp: mem_service_append_audit_event_def mem_service_should_audit_operation_def Let_def)
  have "\<not> (\<not> saved \<and> st1 = STATUS_OK \<and> mem_service_operation_mutates op payload)"
  proof
    assume "\<not> saved \<and> st1 = STATUS_OK \<and> mem_service_operation_mutates op payload"
    with 6 have "persist_failed renv path pending op payload n handled svc3 fw3 = (STATUS_OK, resp, svc4, fw4)"
      by (simp only: if_True simp_thms)
    from persist_failed_frame(1) [OF this] show False by simp
  qed
  then have eqs: "st1 = STATUS_OK" "svc4 = svc3" "fw4 = fw3" "saved" using 6 mut by auto
  then obtain fw1 where "mem_service_save_store (de_io (rq_daemon renv)) svc3 path fw1 = (0, fw3)"
    using 5 appended by (auto simp: persist_def split: prod.splits if_splits)
  from save_store_cases(1) [OF this path] have "fw_files fw4 path = Some (bytes_of (store_text svc4))" using eqs by simp
  then have "fw_files (srv_fw s') path = Some (bytes_of (store_text svc4))"
    using sync_keeps_store [OF path] 7 by simp
  then show ?thesis using 7 store_text_cong [OF operation_metrics_frame] by simp
qed

section \<open>Properties\<close>

text \<open>C3. An acknowledged write survives a restart. When a mutating request is answered ok and the
  daemon has a store path, then at that moment the store file alone loads into a fresh service with
  the same records, completed requests and retained audit events as the running one, whatever the
  limits, the retention that ran and the failures of the later compactions. (The audit log must be
  well formed and the strings printable, as for saving.)\<close>

theorem acknowledged_write_durable:
  assumes "server_inv s" "writers_keep_identity (de_backends (rq_daemon renv))"
    and "mem_service_handle_operation_with_limits renv probe path limits op payload n s = (STATUS_OK, resp, s')"
    and "mem_service_operation_mutates op payload" "path \<noteq> []"
    and "audit_wf (srv_svc s')" "service_clean (srv_svc s')" "io_open_ok env path"
  shows "\<exists>svc'. mem_service_load_store env initial_service path (srv_fw s') = Some (svc', False) \<and>
    reloads_as stored_record (srv_svc s') svc'"
proof -
  have "records_wf (srv_svc s')" "idem_wf (srv_svc s')"
    using handle_inv [OF assms(1,2,3)] by (simp_all add: server_inv_def)
  from load_store_text [OF this assms(6,7) acknowledged_store [OF assms(3,4,5)] assms(8,5)] show ?thesis .
qed

text \<open>Requests that do not mutate change nothing that is kept. Whatever they answer, and
  whatever limits are set, the records and the completed requests are those of before.\<close>

theorem read_only_requests:
  assumes "\<not> mem_service_operation_mutates op payload"
    and "mem_service_handle_operation_with_limits renv probe path limits op payload n s = (st, resp, s')"
  shows "svc_records (srv_svc s') = svc_records (srv_svc s) \<and>
    svc_record_count (srv_svc s') = svc_record_count (srv_svc s) \<and>
    svc_idempotency_records (srv_svc s') = svc_idempotency_records (srv_svc s)"
proof (rule handle_tables [OF assms(2)])
  fix st0 resp0 pending handled svc0 st1 resp1 ck rc s1
  assume 1: "mem_service_try_idempotency_replay (srv_svc s) op payload n = (st0, resp0, pending, handled, svc0)"
    and 2: "(if handled then (st0, resp0, False, False, s \<lparr> srv_svc := svc0 \<rparr>)
      else run_request (rq_daemon renv) probe limits op payload n (s \<lparr> srv_svc := svc0 \<rparr>)) = (st1, resp1, ck, rc, s1)"
    and same: "svc_records (srv_svc s') = svc_records (srv_svc s1)" "svc_record_count (srv_svc s') = svc_record_count (srv_svc s1)"
      "svc_idempotency_records (srv_svc s') = svc_idempotency_records
         (mem_service_complete_idempotency_record pending op payload st resp (srv_svc s1))"
  have first: "\<not> handled" "pending = None" "svc0 = srv_svc s"
    using 1 assms(1) by (auto simp: mem_service_try_idempotency_replay_def)
  with 2 have run: "run_request (rq_daemon renv) probe limits op payload n s = (st1, resp1, ck, rc, s1)" by simp
  have eq: "srv_svc s1 = srv_svc s \<lparr> svc_providers := svc_providers (srv_svc s1) \<rparr>"
  proof (cases rule: run_request_steps [OF run])
    case (2 sd)
    with dispatch_reads [OF assms(1) 2(1)] assms(1) show ?thesis by simp
  qed simp
  have "svc_records (srv_svc s1) = svc_records (srv_svc s)" "svc_record_count (srv_svc s1) = svc_record_count (srv_svc s)"
    "svc_idempotency_records (srv_svc s1) = svc_idempotency_records (srv_svc s)"
    by (subst eq, simp)+
  then show ?thesis using same first by (simp add: mem_service_complete_idempotency_record_def)
qed

lemma completed_request_answer:
  "idem_status (completed_request key op payload st resp) = wire_status_code st"
  "idem_response (completed_request key op payload st resp) = snprintf_s MEM_SERVICE_IDEMPOTENCY_RESPONSE_LEN resp"
  by (auto simp: completed_request_def Let_def snprintf_s_def)

text \<open>A tracked request leaves its answer behind, also when it could not be made durable.\<close>

lemma tracked_answer:
  assumes inv: "server_inv s" and be: "writers_keep_identity (de_backends (rq_daemon renv))"
    and tracked: "replay_decision (completed_map (srv_svc s)) op payload = Run_tracked key"
    and run: "mem_service_handle_operation_with_limits renv probe path limits op payload n s = (st, resp, s')"
  shows "completed_map (srv_svc s') key = Some (completed_request key op payload st resp)"
proof (rule handle_tables [OF run])
  fix st0 resp0 pending handled svc0 st1 resp1 ck rc s1
  assume 1: "mem_service_try_idempotency_replay (srv_svc s) op payload n = (st0, resp0, pending, handled, svc0)"
    and 2: "(if handled then (st0, resp0, False, False, s \<lparr> srv_svc := svc0 \<rparr>)
      else run_request (rq_daemon renv) probe limits op payload n (s \<lparr> srv_svc := svc0 \<rparr>)) = (st1, resp1, ck, rc, s1)"
    and same: "svc_idempotency_records (srv_svc s') = svc_idempotency_records
         (mem_service_complete_idempotency_record pending op payload st resp (srv_svc s1))"
  note S = request_slot [OF inv be 1 2]
  have idem: "idem_wf (srv_svc s1)" using S(1) by (simp add: server_inv_def)
  obtain i where i: "pending = Some i"
    using try_replay_reserves [OF _ tracked, of n] inv 1 by (auto simp: server_inv_def)
  have key: "mem_service_payload_get_idempotency_key payload MEM_SERVICE_IDEMPOTENCY_KEY_LEN = Some key"
    using tracked by (auto simp: replay_decision_def split: if_splits option.splits)
  have slot: "i < length (svc_idempotency_records (srv_svc s1))"
    "idem.lookup (svc_idempotency_records (srv_svc s1)) key = Some i \<or>
     idem.lookup (svc_idempotency_records (srv_svc s1)) key = None \<and>
     \<not> idem_in_use (svc_idempotency_records (srv_svc s1) ! i)"
    using S(2) i key by (auto simp: owns_slot_def)
  show ?thesis
    using complete_idempotency_spec(2) [OF idem key slot, of op st resp] idem_wf_cong(2) [OF same] i by simp
qed

text \<open>Whether the audit event of a replayed answer becomes durable: the event is appended to the log, the
  log is cut to its limit, and the journal and the store are written.\<close>

definition replay_saved ::
  "request_env \<Rightarrow> cstr \<Rightarrow> mem_service_daemon_limits option \<Rightarrow> mem_service_wire_operation \<Rightarrow> cstr \<Rightarrow>
   mem_service_wire_status \<Rightarrow> cstr \<Rightarrow> 'w server \<Rightarrow> bool" where
  "replay_saved renv path limits op payload st resp s \<longleftrightarrow>
     (case mem_service_append_audit_event (rq_audit_ms renv) (bump_replays (srv_svc s)) op payload st resp True of
        (appended, event, svc) \<Rightarrow>
          let svc' = (case limits of
                Some lim \<Rightarrow> if appended \<and> lim_max_audit_events lim > 0
                            then snd (mem_service_apply_audit_retention svc (lim_max_audit_events lim)) else svc
              | None \<Rightarrow> svc)
          in appended \<longrightarrow> fst (persist (de_io (rq_daemon renv)) (rq_torn renv) path None event svc' (srv_fw s)))"

lemma persist_no_store: "fst (persist io torn [] pending event svc fw)"
  by (simp add: persist_def mem_service_append_journal_def mem_service_save_store_def)

lemma replay_saved_no_store: "replay_saved renv [] limits op payload st resp s"
  by (simp add: replay_saved_def Let_def persist_no_store split: prod.split)

lemma replay_answer:
  assumes replay: "mem_service_try_idempotency_replay (srv_svc s) op payload n = (st, resp, None, True, bump_replays (srv_svc s))"
    and mut: "mem_service_operation_mutates op payload"
    and run: "mem_service_handle_operation_with_limits renv probe path limits op payload n s = (st', resp', s')"
  shows "if st = STATUS_OK \<and> \<not> replay_saved renv path limits op payload st resp s
    then st' = STATUS_INTERNAL \<and> resp' = snprintf_s n (''durable_store_save_failed'' @ [newline])
    else st' = st \<and> resp' = resp"
proof (rule handle_steps [OF run])
  fix st0 resp0 pending handled svc0 st1 resp1 ck rc s1 appended event svc2 ap svc3 saved fw3 svc4 fw4
  assume 1: "mem_service_try_idempotency_replay (srv_svc s) op payload n = (st0, resp0, pending, handled, svc0)"
    and 2: "(if handled then (st0, resp0, False, False, s \<lparr> srv_svc := svc0 \<rparr>)
      else run_request (rq_daemon renv) probe limits op payload n (s \<lparr> srv_svc := svc0 \<rparr>)) = (st1, resp1, ck, rc, s1)"
    and 3: "mem_service_append_audit_event (rq_audit_ms renv)
       (if handled then srv_svc s1
        else mem_service_complete_idempotency_record pending op payload st1 resp1 (srv_svc s1))
       op payload st1 resp1 handled = (appended, event, svc2)"
    and 4: "(case limits of
        Some lim \<Rightarrow> if appended \<and> lim_max_audit_events lim > 0
                    then mem_service_apply_audit_retention svc2 (lim_max_audit_events lim) else (False, svc2)
      | None \<Rightarrow> (False, svc2)) = (ap, svc3)"
    and 5: "(if appended then persist (de_io (rq_daemon renv)) (rq_torn renv) path pending event svc3 (srv_fw s1)
      else (True, srv_fw s1)) = (saved, fw3)"
    and 6: "(if \<not> saved \<and> st1 = STATUS_OK \<and> mem_service_operation_mutates op payload
      then persist_failed renv path pending op payload n handled svc3 fw3
      else (st1, resp1, svc3, fw3)) = (st', resp', svc4, fw4)"
  from 1 2 replay have eq: "handled" "pending = None" "st1 = st" "resp1 = resp" "srv_svc s1 = bump_replays (srv_svc s)"
    "srv_fw s1 = srv_fw s" by auto
  have svc3: "svc3 = (case limits of
      Some lim \<Rightarrow> if appended \<and> lim_max_audit_events lim > 0
                  then snd (mem_service_apply_audit_retention svc2 (lim_max_audit_events lim)) else svc2
    | None \<Rightarrow> svc2)"
    using 4 by (auto split: option.splits if_splits)
  have "saved \<longleftrightarrow> replay_saved renv path limits op payload st resp s"
    using 3 5 unfolding replay_saved_def svc3 by (auto simp: eq Let_def split: if_splits)
  with 6 mut eq show ?thesis
    by (auto simp: persist_failed_def Let_def split: if_splits prod.splits)
qed

text \<open>C4. A tracked request is executed at most once. Send a mutating request with a new idempotency key
  and send it again later with no other request in between, each time with any limits, any clock
  and any file failures, where the first time is answered with a status of the protocol: the second time no record and no completed request changes, and the
  answer is the one of the first time, cut to the space reserved for it. The only exception is that the
  first answer was ok and the second time the audit event of the replay cannot be made durable, because
  writing the journal or the store fails: then, and only then, the second answer is an internal
  error.\<close>

theorem tracked_request_exactly_once:
  assumes "server_inv s" "writers_keep_identity (de_backends (rq_daemon renv))" "0 < n"
    and "replay_decision (completed_map (srv_svc s)) op payload = Run_tracked key"
    and "mem_service_handle_operation_with_limits renv probe path limits op payload n s = (st, resp, s1)"
    and "wire_status_known st"
    and "mem_service_handle_operation_with_limits renv2 probe2 path limits2 op payload n s1 = (st2, resp2, s2)"
  defines "answer \<equiv> snprintf_s n (snprintf_s MEM_SERVICE_IDEMPOTENCY_RESPONSE_LEN resp)"
  shows "svc_records (srv_svc s2) = svc_records (srv_svc s1) \<and>
    svc_record_count (srv_svc s2) = svc_record_count (srv_svc s1) \<and>
    svc_idempotency_records (srv_svc s2) = svc_idempotency_records (srv_svc s1) \<and>
    (if st = STATUS_OK \<and> \<not> replay_saved renv2 path limits2 op payload st answer s1
     then st2 = STATUS_INTERNAL \<and> resp2 = snprintf_s n (''durable_store_save_failed'' @ [newline])
     else st2 = st \<and> resp2 = answer)"
proof -
  let ?r = "completed_request key op payload st resp"
  have mut: "mem_service_operation_mutates op payload"
    and key: "mem_service_payload_get_idempotency_key payload MEM_SERVICE_IDEMPOTENCY_KEY_LEN = Some key"
    using assms(4) by (auto simp: replay_decision_def split: if_splits option.splits)
  have idem: "idem_wf (srv_svc s1)" using handle_inv [OF assms(1,2,5)] by (simp add: server_inv_def)
  have "replay_decision (completed_map (srv_svc s1)) op payload = Replay ?r"
    using mut key tracked_answer [OF assms(1,2,4,5)]
    by (simp add: replay_decision_def completed_request_def Let_def)
  from try_replay_answers [OF idem this assms(3)]
  have replay: "mem_service_try_idempotency_replay (srv_svc s1) op payload n =
      (st, answer, None, True, bump_replays (srv_svc s1))"
    using assms(6) by (simp add: completed_request_answer answer_def)
  have "svc_records (srv_svc s2) = svc_records (srv_svc s1) \<and>
    svc_record_count (srv_svc s2) = svc_record_count (srv_svc s1) \<and>
    svc_idempotency_records (srv_svc s2) = svc_idempotency_records (srv_svc s1)"
    by (rule handle_tables [OF assms(7)])
       (use replay in \<open>auto simp: mem_service_complete_idempotency_record_def bump_replays_def\<close>)
  with replay_answer [OF replay mut assms(7)] show ?thesis by blast
qed

text \<open>The operations that store one record under the key of the request.\<close>

definition key_writers :: "mem_service_wire_operation list" where
  "key_writers = [OP_PUT_OBJECT, OP_PUBLISH_RUNTIME_HANDOFF, OP_REGISTER_EXECUTION_ARTIFACT, OP_REGISTER_TRAINING_ARTIFACT]"

lemma dispatch_key_writer:
  assumes wf: "records_wf (srv_svc s)" and be: "writers_keep_identity (de_backends env)" and op: "op \<in> set key_writers"
    and run: "mem_service_dispatch_operation env probe op payload n s = (st, resp, s')"
  shows "srv_svc s' = srv_svc s \<or>
    (\<exists>key r. mem_service_payload_get_string payload ''key'' 96 = Some key \<and>
       record_map (srv_svc s') = (record_map (srv_svc s))(key \<mapsto> r))"
proof -
  let ?svc = "srv_svc s" and ?fw = "srv_fw s"
  have one: "?thesis" if "mem_service_dispatch_operation env probe op payload n s = on_files (st1, resp1, svc1, fw1) s"
      "stores_one_record ?svc payload k st1 svc1 post" for st1 resp1 svc1 fw1 k post
    using that run by (auto simp: on_files_def stores_one_record_def)
  consider "op = OP_PUT_OBJECT"
    | k where "mem_service_dispatch_operation env probe op payload n s =
        on_files (mem_service_store_artifact env ?svc payload k n ?fw) s"
    using op by (auto simp: key_writers_def mem_service_dispatch_operation_def)
  then show ?thesis
  proof cases
    case 1
    obtain st1 resp1 svc1 fw1 where h: "mem_service_put_object env ?svc payload n ?fw = (st1, resp1, svc1, fw1)"
      by (metis prod_cases4)
    show ?thesis
      by (rule one [OF _ put_object_outcome [OF wf be h]]) (simp add: mem_service_dispatch_operation_def 1 h)
  next
    case (2 k)
    obtain st1 resp1 svc1 fw1 where h: "mem_service_store_artifact env ?svc payload k n ?fw = (st1, resp1, svc1, fw1)"
      by (metis prod_cases4)
    show ?thesis by (rule one [OF _ store_artifact_outcome [OF wf be h]]) (simp add: 2 h)
  qed
qed

lemma retires_count:
  assumes "retires env sel s s'" "records_wf (fst s)"
  shows "used_records (fst s') \<le> used_records (fst s)"
  using assms
proof (induction rule: retires.induct)
  case (removal i svc fw svc' fw' s)
  have svc': "svc' = fst (retire_record env i svc fw)" using removal(4) by simp
  have "used_records svc = used_records svc' + 1"
    unfolding svc' by (rule used_records_retire [OF removal(1,2)])
  then show ?case using removal(6) retire_record_wf(1) [OF _ removal(1,2), of env fw] removal(7) svc' by simp
qed simp

text \<open>C8. The record quota holds. While the daemon runs with a limit on the number of records, a
  request that stores a record under its key (an object or an artifact) never takes the number of
  records above the limit, whatever it answers.\<close>

theorem quota_bounds_records:
  assumes "server_inv s" "writers_keep_identity (de_backends (rq_daemon renv))"
    and "op \<in> set key_writers" "lim_max_records lim > 0" "svc_record_count (srv_svc s) \<le> lim_max_records lim"
    and "mem_service_handle_operation_with_limits renv probe path (Some lim) op payload n s = (st, resp, s')"
  shows "svc_record_count (srv_svc s') \<le> lim_max_records lim"
proof (rule handle_tables [OF assms(6)])
  let ?svc = "srv_svc s" and ?max = "lim_max_records lim"
  have wf: "records_wf ?svc" and count: "unat (svc_record_count ?svc) = used_records ?svc"
    using assms(1) by (simp_all add: server_inv_def records_wf_def)
  fix st0 resp0 pending handled svc0 st1 resp1 ck rc s1
  assume 1: "mem_service_try_idempotency_replay ?svc op payload n = (st0, resp0, pending, handled, svc0)"
    and 2: "(if handled then (st0, resp0, False, False, s \<lparr> srv_svc := svc0 \<rparr>)
      else run_request (rq_daemon renv) probe (Some lim) op payload n (s \<lparr> srv_svc := svc0 \<rparr>)) = (st1, resp1, ck, rc, s1)"
    and same: "svc_record_count (srv_svc s') = svc_record_count (srv_svc s1)"
  have "svc_record_count (srv_svc s1) \<le> ?max"
  proof (cases handled)
    case True
    have "svc_record_count svc0 = svc_record_count ?svc" by (subst try_replay_frame(1) [OF 1]) simp
    with True 2 assms(5) show ?thesis by auto
  next
    case False
    with 2 try_replay_frame(3) [OF 1]
    have run: "run_request (rq_daemon renv) probe (Some lim) op payload n s = (st1, resp1, ck, rc, s1)" by simp
    show ?thesis
    proof (cases rule: run_request_steps [OF run])
      case (2 sd)
      have inv: "records_wf (srv_svc sd)" "records_wf (srv_svc s1)"
        using dispatch_inv [OF assms(1,2) 2(1)] run_request_inv [OF assms(1,2) run] by (simp_all add: server_inv_def)
      have le: "used_records (srv_svc s1) \<le> used_records (srv_svc sd)" using retires_count [OF 2(3)] inv(1) by simp
      have "used_records (srv_svc sd) \<le> unat ?max"
      proof (cases "srv_svc sd = ?svc")
        case True
        then show ?thesis using assms(5) count by (simp add: word_le_nat_alt)
      next
        case False
        then obtain key r where key: "mem_service_payload_get_string payload ''key'' 96 = Some key"
          and upd: "record_map (srv_svc sd) = (record_map ?svc)(key \<mapsto> r)"
          using dispatch_key_writer [OF wf assms(2,3) 2(1)] by blast
        have est: "mem_service_estimate_new_record_count ?svc op payload =
            (if mem_service_find_record ?svc key = None then 1 else 0)"
          using assms(3) key
          by (auto simp: mem_service_estimate_new_record_count_def key_writers_def
              mem_service_estimate_new_key_record_count_def)
        note n = used_records_upd [OF wf inv(1) upd]
        show ?thesis
        proof (cases "mem_service_find_record ?svc key = None")
          case True
          then have "svc_record_count ?svc < ?max" using 2(2) est assms(4) by (auto simp: quota_exceeded_def)
          then show ?thesis using n count by (simp add: word_less_nat_alt split: if_splits)
        next
          case False
          then show ?thesis using n count assms(5) by (auto simp: get_record_None_iff word_le_nat_alt)
        qed
      qed
      then show ?thesis using le inv(2) by (simp add: records_wf_def word_le_nat_alt)
    qed (use assms(5) in simp)
  qed
  then show "svc_record_count (srv_svc s') \<le> ?max" using same by simp
qed

section \<open>Witnesses\<close>

definition demo_request :: request_env where
  "demo_request = \<lparr> rq_daemon = demo_env, rq_failure_io = healthy_env, rq_sync_io = healthy_env,
     rq_start_ms = 5, rq_end_ms = 7, rq_audit_ms = 6, rq_failure_audit_ms = 6, rq_torn = 0, rq_failure_torn = 0 \<rparr>"

definition demo_probe :: "unit probe" where
  "demo_probe = (\<lambda>_ _ w. ((0, 0), w))"

text \<open>A server with nothing stored, and one whose stage holds one record and waits for its commit.\<close>

definition demo_server :: "unit server" where
  "demo_server = \<lparr> srv_svc = initial_service, srv_stage = mem_service_restore_snapshot_stage_reset,
     srv_fw = empty_disk, srv_world = () \<rparr>"

definition staged_server :: "unit server" where
  "staged_server = demo_server \<lparr> srv_stage := mem_service_restore_snapshot_stage_reset
     \<lparr> stage_active := True, stage_has_expected_records := True, stage_expected_records := 1,
       stage_svc := backed_service \<rparr> \<rparr>"

lemma demo_server_inv: "server_inv demo_server" "server_inv staged_server"
  using records_wf_initial idem_wf_initial(1) stage_wf_reset backed_service_wf(1,2)
  by (simp_all add: server_inv_def demo_server_def staged_server_def stage_wf_def)

lemma demo_server_sel [simp]:
  "srv_svc demo_server = initial_service" "srv_fw demo_server = empty_disk"
  "srv_svc staged_server = initial_service" "srv_fw staged_server = empty_disk"
  by (simp_all add: demo_server_def staged_server_def)

lemma demo_request_keeps: "writers_keep_identity (de_backends (rq_daemon demo_request))"
  by (simp add: demo_request_def demo_env_keeps_identity)

theorem quota_bounds_records_witness:
  "svc_record_count (srv_svc (snd (snd (mem_service_handle_operation_with_limits demo_request demo_probe [] (Some
       \<lparr> lim_max_records = 1, lim_max_payload_bytes = 0, lim_max_audit_events = 0, lim_max_checkpoint_records = 0,
         lim_max_retained_records = 0, lim_max_retained_record_age_ms = 0, lim_max_retained_record_kind = 0,
         lim_max_retained_record_tenant_enabled = False, lim_max_retained_record_tenant = 0 \<rparr>)
     OP_PUT_OBJECT demo_put 4096 demo_server)))) \<le> 1"
proof -
  let ?lim = "\<lparr> lim_max_records = 1, lim_max_payload_bytes = 0, lim_max_audit_events = 0, lim_max_checkpoint_records = 0,
         lim_max_retained_records = 0, lim_max_retained_record_age_ms = 0, lim_max_retained_record_kind = 0,
         lim_max_retained_record_tenant_enabled = False, lim_max_retained_record_tenant = 0 \<rparr>"
  obtain st resp s' where run: "mem_service_handle_operation_with_limits demo_request demo_probe [] (Some ?lim)
      OP_PUT_OBJECT demo_put 4096 demo_server = (st, resp, s')" by (metis prod_cases3)
  from quota_bounds_records [OF demo_server_inv(1) demo_request_keeps _ _ _ run] show ?thesis
    by (simp add: run key_writers_def)
qed

theorem read_only_requests_witness:
  "svc_records (srv_svc (snd (snd (mem_service_handle_operation_with_limits demo_request demo_probe ''s'' None
     OP_GET_OBJECT demo_put 4096 demo_server)))) = svc_records initial_service"
proof -
  obtain st resp s' where run: "mem_service_handle_operation_with_limits demo_request demo_probe ''s'' None
      OP_GET_OBJECT demo_put 4096 demo_server = (st, resp, s')" by (metis prod_cases3)
  from read_only_requests [OF _ run] show ?thesis
    by (simp add: run mem_service_operation_mutates_def)
qed

text \<open>A commit, with and without an idempotency key.\<close>

definition demo_commit :: cstr where "demo_commit = kv ''action'' ''commit''"

definition demo_tracked_commit :: cstr where
  "demo_tracked_commit = kv ''action'' ''commit'' @ kv ''idempotency_key'' ''k1''"

lemma demo_commit_eval:
  "mem_service_payload_get_string demo_commit ''action'' 32 = Some ''commit''"
  "mem_service_payload_get_string demo_tracked_commit ''action'' 32 = Some ''commit''"
  by (simp_all add: demo_commit_def demo_tracked_commit_def payload_eval)

lemma demo_commit_mutates:
  "mem_service_operation_mutates OP_RESTORE_SNAPSHOT_PAGE demo_commit"
  "mem_service_operation_mutates OP_RESTORE_SNAPSHOT_PAGE demo_tracked_commit"
  by (simp_all add: mem_service_operation_mutates_def demo_commit_eval)

lemma demo_commit_key:
  "header_find name demo_commit = (if name = ''action'' then Some ''commit'' else None)"
  "mem_service_payload_get_idempotency_key demo_commit k = None"
  "mem_service_payload_get_idempotency_key demo_tracked_commit MEM_SERVICE_IDEMPOTENCY_KEY_LEN = Some ''k1''"
proof -
  show h: "header_find name demo_commit = (if name = ''action'' then Some ''commit'' else None)" for name
    by (simp add: demo_commit_def kv_def header_find.simps [of name "_ # _"] line_of_def after_line_def
        header_find.simps [of name "[]"])
  show "mem_service_payload_get_idempotency_key demo_commit k = None"
    by (simp add: mem_service_payload_get_idempotency_key_def mem_service_payload_get_header_string_def h)
  show "mem_service_payload_get_idempotency_key demo_tracked_commit MEM_SERVICE_IDEMPOTENCY_KEY_LEN = Some ''k1''"
    by code_simp
qed

text \<open>The commit of the staged record succeeds.\<close>

lemma demo_commit_dispatch:
  assumes "mem_service_payload_get_string payload ''action'' 32 = Some ''commit''"
  obtains resp svc1 where
    "mem_service_dispatch_operation env demo_probe OP_RESTORE_SNAPSHOT_PAGE payload n staged_server =
       (STATUS_OK, resp, staged_server \<lparr> srv_svc := svc1, srv_stage := mem_service_restore_snapshot_stage_reset \<rparr>)"
    "svc_records svc1 = svc_records backed_service" "svc_record_count svc1 = 1"
    "svc_idempotency_records svc1 = svc_idempotency_records initial_service"
    "svc_audit_events svc1 = svc_audit_events initial_service" "svc_audit_next_sequence svc1 = 1"
    "svc_audit_event_count svc1 = 0"
  using assms that
  by (simp add: mem_service_dispatch_operation_def mem_service_restore_snapshot_page_def staged_server_def
      mem_service_restore_snapshot_page_commit_def demo_server_def backed_service_def)

lemma demo_persist:
  "\<exists>fw. persist healthy_env 0 ''s'' None event svc empty_disk = (True, fw)"
proof -
  have "length (decimal 7) \<le> 1" by (rule decimal_length) simp_all
  then show ?thesis
    by (auto simp: persist_def mem_service_append_journal_def mem_service_journal_needs_header_def
        mem_service_make_journal_path_def fs_append_file_def mem_service_save_store_def fs_write_file_def fs_rename_def
        healthy_env_def empty_disk_def Let_def)
qed

lemma demo_commit_run:
  obtains resp s' where
    "mem_service_handle_operation_with_limits demo_request demo_probe ''s'' None OP_RESTORE_SNAPSHOT_PAGE demo_commit
       4096 staged_server = (STATUS_OK, resp, s')"
    "audit_wf (srv_svc s')" "service_clean (srv_svc s')" "record_map (srv_svc s') ''obj'' = Some backed_object"
proof -
  obtain st resp s' where run: "mem_service_handle_operation_with_limits demo_request demo_probe ''s'' None
      OP_RESTORE_SNAPSHOT_PAGE demo_commit 4096 staged_server = (st, resp, s')" by (metis prod_cases3)
  obtain resp1 svc1 where d:
    "mem_service_dispatch_operation demo_env demo_probe OP_RESTORE_SNAPSHOT_PAGE demo_commit 4096 staged_server =
       (STATUS_OK, resp1, staged_server \<lparr> srv_svc := svc1, srv_stage := mem_service_restore_snapshot_stage_reset \<rparr>)"
    and svc1: "svc_records svc1 = svc_records backed_service" "svc_record_count svc1 = 1"
    "svc_idempotency_records svc1 = svc_idempotency_records initial_service"
    "svc_audit_events svc1 = svc_audit_events initial_service" "svc_audit_next_sequence svc1 = 1"
    "svc_audit_event_count svc1 = 0"
    by (rule demo_commit_dispatch [OF demo_commit_eval(1)])
  let ?e = "audit_event 1 6 OP_RESTORE_SNAPSHOT_PAGE demo_commit STATUS_OK resp1 False"
  obtain svc2 where audit: "mem_service_append_audit_event 6 svc1 OP_RESTORE_SNAPSHOT_PAGE demo_commit STATUS_OK resp1 False =
      (True, Some ?e, svc2)"
    "svc_audit_events svc2 = (svc_audit_events initial_service)[0 := ?e]"
    using demo_commit_mutates(1) svc1
    by (simp add: mem_service_append_audit_event_def mem_service_should_audit_operation_def Let_def)
  note A = append_audit_frame [OF audit(1)]
  obtain fw where p: "persist healthy_env 0 ''s'' None (Some ?e) svc2 empty_disk = (True, fw)" using demo_persist by blast
  have r: "run_request demo_env demo_probe None OP_RESTORE_SNAPSHOT_PAGE demo_commit 4096 staged_server =
      (STATUS_OK, resp1, False, False, staged_server \<lparr> srv_svc := svc1, srv_stage := mem_service_restore_snapshot_stage_reset \<rparr>)"
    by (simp add: run_request_def d quota_exceeded_def Let_def)
  have same: "staged_server \<lparr> srv_svc := initial_service \<rparr> = staged_server"
    by (simp add: staged_server_def demo_server_def)
  have io: "de_io demo_env = healthy_env" by (simp add: demo_env_def)
  have replay: "mem_service_try_idempotency_replay initial_service OP_RESTORE_SNAPSHOT_PAGE demo_commit 4096 =
      (STATUS_OK, [], None, False, initial_service)"
    by (simp add: mem_service_try_idempotency_replay_def demo_commit_key)
  have res: "st = STATUS_OK" "srv_svc s' = mem_service_record_operation_metrics svc2 OP_RESTORE_SNAPSHOT_PAGE STATUS_OK 2"
    using run
    by (auto simp: mem_service_handle_operation_with_limits_def demo_request_def replay same r audit(1) p io
        mem_service_complete_idempotency_record_def Let_def)
  note F = operation_metrics_frame [of svc2 OP_RESTORE_SNAPSHOT_PAGE STATUS_OK 2, folded res(2)]
  have "audit_wf svc1" using audit_wf_initial(1) svc1 by (simp add: audit_wf_def)
  then have "audit_wf svc2" using append_audit_event_spec(1) [OF _ _ audit(1)] svc1
    by (simp add: UINT64_MAX_def)
  then have wf: "audit_wf (srv_svc s')" using F by (simp add: audit_wf_def)
  have e: "audit_clean ?e" "aud_operation ?e \<noteq> 0"
    by (simp_all add: audit_event_def audit_clean_def mem_service_payload_get_audit_string_def
        mem_service_payload_get_header_string_def demo_commit_key(1))
  have "service_clean (srv_svc s')"
    using backed_service_wf(4) A F svc1 audit(2) e
    by (simp add: service_clean_def list_all_update backed_service_def)
  moreover have "record_map (srv_svc s') ''obj'' = Some backed_object"
    using records_wf_cong(2) [of "srv_svc s'" backed_service] A F svc1 backed_service_wf(6)
    by (simp add: backed_service_def)
  ultimately show ?thesis using that run res(1) wf by blast
qed

theorem acknowledged_write_durable_witness:
  "\<exists>resp s' svc'. mem_service_handle_operation_with_limits demo_request demo_probe ''s'' None OP_RESTORE_SNAPSHOT_PAGE
       demo_commit 4096 staged_server = (STATUS_OK, resp, s') \<and>
     mem_service_load_store healthy_env initial_service ''s'' (srv_fw s') = Some (svc', False) \<and>
     record_map svc' ''obj'' = Some (stored_record backed_object)"
proof -
  obtain resp s' where run: "mem_service_handle_operation_with_limits demo_request demo_probe ''s'' None
      OP_RESTORE_SNAPSHOT_PAGE demo_commit 4096 staged_server = (STATUS_OK, resp, s')"
    and ok: "audit_wf (srv_svc s')" "service_clean (srv_svc s')" "record_map (srv_svc s') ''obj'' = Some backed_object"
    by (rule demo_commit_run)
  have "io_open_ok healthy_env ''s''" by (simp add: healthy_env_def)
  from acknowledged_write_durable [OF demo_server_inv(2) demo_request_keeps run demo_commit_mutates(1) _ ok(1,2) this]
  show ?thesis using run ok(3) by (auto simp: reloads_as_def)
qed

theorem tracked_request_exactly_once_witness:
  "\<exists>resp s1 resp2 s2. mem_service_handle_operation_with_limits demo_request demo_probe [] None OP_RESTORE_SNAPSHOT_PAGE
       demo_tracked_commit 4096 staged_server = (STATUS_OK, resp, s1) \<and>
     mem_service_handle_operation_with_limits demo_request demo_probe [] None OP_RESTORE_SNAPSHOT_PAGE
       demo_tracked_commit 4096 s1 = (STATUS_OK, resp2, s2) \<and>
     resp2 = snprintf_s 4096 (snprintf_s MEM_SERVICE_IDEMPOTENCY_RESPONSE_LEN resp) \<and>
     svc_records (srv_svc s1) = svc_records backed_service \<and> svc_records (srv_svc s2) = svc_records backed_service"
proof -
  let ?run = "mem_service_handle_operation_with_limits demo_request demo_probe [] None OP_RESTORE_SNAPSHOT_PAGE
    demo_tracked_commit 4096"
  obtain st resp s1 where first: "?run staged_server = (st, resp, s1)" by (metis prod_cases3)
  obtain st2 resp2 s2 where second: "?run s1 = (st2, resp2, s2)" by (metis prod_cases3)
  have tracked: "replay_decision (completed_map (srv_svc staged_server)) OP_RESTORE_SNAPSHOT_PAGE demo_tracked_commit =
      Run_tracked ''k1''"
    by (simp add: replay_decision_def demo_commit_mutates demo_commit_key idem_wf_initial(2)
        MEM_SERVICE_MAX_IDEMPOTENCY_RECORDS_def)
  have same: "staged_server \<lparr> srv_svc := initial_service \<rparr> = staged_server"
    by (simp add: staged_server_def demo_server_def)
  have one: "st = STATUS_OK \<and> svc_records (srv_svc s1) = svc_records backed_service"
  proof (rule handle_tables [OF first])
    fix st0 resp0 pending handled svc0 st1 resp1 ck rc sd
    assume "mem_service_try_idempotency_replay (srv_svc staged_server) OP_RESTORE_SNAPSHOT_PAGE demo_tracked_commit 4096 =
        (st0, resp0, pending, handled, svc0)"
      and run: "(if handled then (st0, resp0, False, False, staged_server \<lparr> srv_svc := svc0 \<rparr>)
        else run_request (rq_daemon demo_request) demo_probe None OP_RESTORE_SNAPSHOT_PAGE demo_tracked_commit 4096
          (staged_server \<lparr> srv_svc := svc0 \<rparr>)) = (st1, resp1, ck, rc, sd)"
      and st: "[] = [] \<Longrightarrow> st = st1" and recs: "svc_records (srv_svc s1) = svc_records (srv_svc sd)"
    with try_replay_reserves [OF idem_wf_initial(1) tracked [unfolded demo_server_sel], of 4096]
    have "\<not> handled" "svc0 = initial_service" by auto
    with run same have run: "run_request demo_env demo_probe None OP_RESTORE_SNAPSHOT_PAGE demo_tracked_commit 4096
        staged_server = (st1, resp1, ck, rc, sd)" by (simp add: demo_request_def)
    obtain resp2 svc2 where d:
      "mem_service_dispatch_operation demo_env demo_probe OP_RESTORE_SNAPSHOT_PAGE demo_tracked_commit 4096 staged_server =
         (STATUS_OK, resp2, staged_server \<lparr> srv_svc := svc2, srv_stage := mem_service_restore_snapshot_stage_reset \<rparr>)"
      and svc2: "svc_records svc2 = svc_records backed_service"
      by (rule demo_commit_dispatch [OF demo_commit_eval(2)])
    from run d have "st1 = STATUS_OK" "srv_svc sd = svc2"
      by (auto simp: run_request_def quota_exceeded_def Let_def)
    with st recs svc2 show ?thesis by simp
  qed
  have st: "st = STATUS_OK" and recs: "svc_records (srv_svc s1) = svc_records backed_service" using one by blast+
  have "svc_records (srv_svc s2) = svc_records (srv_svc s1) \<and> st2 = STATUS_OK \<and>
      resp2 = snprintf_s 4096 (snprintf_s MEM_SERVICE_IDEMPOTENCY_RESPONSE_LEN resp)"
    using tracked_request_exactly_once [OF demo_server_inv(2) demo_request_keeps _ tracked first _ second] st
    by (simp add: replay_saved_no_store)
  then show ?thesis using first second st recs by auto
qed

end
