(* ===== verification/Responses.thy ===== *)
theory Responses
  imports Requests
begin

text \<open>
  Every answer fits its buffer: whatever a handler, the replay of an earlier answer or the error
  paths of a request print, the text with its terminator stays inside the response buffer.
\<close>

section \<open>Pieces\<close>

named_theorems response_fits

lemma append_snapshot_text_length [response_fits]: "mem_service_append_snapshot_text n r t = Some r' \<Longrightarrow> length r' < n"
  by (auto simp: mem_service_append_snapshot_text_def split: if_splits)

lemma format_record_length [response_fits]: "0 < n \<Longrightarrow> length (mem_service_format_record_payload r n) < n"
  by (simp add: mem_service_format_record_payload_def Let_def)

lemma format_inspect_length [response_fits]: "0 < n \<Longrightarrow> length (mem_service_format_inspect_record_payload r n) < n"
  by (simp add: mem_service_format_inspect_record_payload_def Let_def)

lemma snprintf_tail_length [response_fits]: "a < n \<Longrightarrow> a + length (snprintf_s (n - a) t) < n"
  using snprintf_s_length [of "n - a" t] by linarith

text \<open>A reply that fits, and how to show it through the branches of a handler.\<close>

definition fits :: "nat \<Rightarrow> 's \<times> cstr \<times> 'a \<Rightarrow> bool" where
  "fits n reply \<longleftrightarrow> length (fst (snd reply)) < n"

lemma fits_pair: "length r < n \<Longrightarrow> fits n (st, r, x)" by (simp add: fits_def)

lemma fits_empty: "0 < n \<Longrightarrow> fits n (st, [], x)" by (simp add: fits_def)

lemma fits_if: "fits n a \<Longrightarrow> fits n b \<Longrightarrow> fits n (if c then a else b)" by simp

lemma fits_option: "fits n a \<Longrightarrow> (\<And>x. fits n (f x)) \<Longrightarrow> fits n (case v of None \<Rightarrow> a | Some x \<Rightarrow> f x)"
  by (cases v) simp_all

lemma fits_prod: "(\<And>x y. fits n (f x y)) \<Longrightarrow> fits n (case v of (x, y) \<Rightarrow> f x y)" by (cases v) simp

lemma fits_keep: "fits n reply \<Longrightarrow> fits n (case reply of (st, r, x) \<Rightarrow> (st, r, f x))"
  by (simp add: fits_def case_prod_beta)

lemmas fits_branches = fits_empty fits_if fits_option fits_prod fits_pair

section \<open>Handlers\<close>

lemma put_object_fits [response_fits]: "0 < n \<Longrightarrow> length (fst (snd (mem_service_put_object env svc payload n fw))) < n"
  by (auto simp: mem_service_put_object_def Let_def split: option.splits prod.splits if_splits)

lemma get_object_fits [response_fits]: "0 < n \<Longrightarrow> length (fst (snd (mem_service_get_object env svc payload n fw))) < n"
  by (auto simp: mem_service_get_object_def Let_def response_fits split: option.splits prod.splits if_splits)

lemma inspect_object_fits [response_fits]:
  "0 < n \<Longrightarrow> length (fst (snd (mem_service_inspect_object env svc payload n fw))) < n"
  by (auto simp: mem_service_inspect_object_def Let_def response_fits split: option.splits prod.splits if_splits)

lemma materialize_object_fits [response_fits]:
  "0 < n \<Longrightarrow> length (fst (snd (mem_service_materialize_object env svc payload n fw))) < n"
  by (auto simp: mem_service_materialize_object_def Let_def response_fits split: option.splits prod.splits if_splits)

lemma store_artifact_fits [response_fits]:
  "0 < n \<Longrightarrow> length (fst (snd (mem_service_store_artifact env svc payload k n fw))) < n"
  by (auto simp: mem_service_store_artifact_def Let_def response_fits split: option.splits prod.splits if_splits)

lemma query_artifact_fits [response_fits]:
  "0 < n \<Longrightarrow> length (fst (snd (mem_service_query_artifact env svc payload k n fw))) < n"
  by (auto simp: mem_service_query_artifact_def Let_def response_fits split: option.splits prod.splits if_splits)

lemma publish_kv_fits [response_fits]: "0 < n \<Longrightarrow> length (fst (snd (mem_service_publish_kv svc payload n))) < n"
  unfolding fits_def [symmetric] mem_service_publish_kv_def Let_def by (intro fits_branches snprintf_s_length)

lemma resolve_kv_fits [response_fits]: "0 < n \<Longrightarrow> length (snd (mem_service_resolve_kv svc payload n)) < n"
  by (auto simp: mem_service_resolve_kv_def Let_def response_fits split: option.splits prod.splits if_splits)

lemma register_prefix_fits [response_fits]: "0 < n \<Longrightarrow> length (fst (snd (mem_service_register_prefix svc payload n))) < n"
  by (auto simp: mem_service_register_prefix_def Let_def response_fits split: option.splits prod.splits if_splits)

lemma lookup_prefix_fits [response_fits]: "0 < n \<Longrightarrow> length (snd (mem_service_lookup_prefix svc payload n)) < n"
  by (auto simp: mem_service_lookup_prefix_def Let_def response_fits split: option.splits prod.splits if_splits)

lemma status_fits [response_fits]: "0 < n \<Longrightarrow> length (fst (snd (mem_service_status probe n s))) < n"
  by (auto simp: mem_service_status_def Let_def split: prod.splits)

lemma list_loop_fits: "length r < n \<Longrightarrow> length (snd (list_loop n i rs r)) < n"
  by (induction rs arbitrary: i r) auto

lemma list_records_fits [response_fits]: "0 < n \<Longrightarrow> length (snd (mem_service_list_records svc n)) < n"
  using list_loop_fits [of "[]" n 0 "svc_records svc"]
  by (auto simp: mem_service_list_records_def split: prod.splits)

lemma metrics_text_fits [response_fits]: "0 < n \<Longrightarrow> length (snd (mem_service_metrics_text svc n)) < n"
  by (simp add: mem_service_metrics_text_def)

section \<open>Audit log and snapshots\<close>

lemma audit_log_loop_fits:
  "length r < n \<Longrightarrow> length (fst (snd (audit_log_loop svc n m sequence e next_sequence r))) < n"
proof (induction svc n m sequence e next_sequence r rule: audit_log_loop.induct)
  case (1 svc n m sequence e next_sequence r)
  then show ?case
    by (subst audit_log_loop.simps) (auto dest: append_snapshot_text_length split: option.splits)
qed

lemma audit_log_fits [response_fits]: "0 < n \<Longrightarrow> length (snd (mem_service_audit_log svc payload n)) < n"
proof -
  assume n: "0 < n"
  have tail: "length (snd (case audit_log_loop svc n m sequence 0 next_sequence head of
      (ok, response, emitted, next') \<Rightarrow>
        if \<not> ok then (STATUS_CAPACITY_EXCEEDED, response)
        else (case mem_service_append_snapshot_text n response (f emitted next') of
                None \<Rightarrow> (STATUS_CAPACITY_EXCEEDED, response) | Some full \<Rightarrow> (STATUS_OK, full)))) < n"
    if "length head < n" for m sequence next_sequence head f
    using audit_log_loop_fits [OF that, of svc m sequence 0 next_sequence]
    by (cases "audit_log_loop svc n m sequence 0 next_sequence head")
       (auto dest: append_snapshot_text_length split: option.split)
  show ?thesis
    unfolding mem_service_audit_log_def Let_def
    by (split option.split, intro conjI allI impI)
       (simp_all only: snd_conv list.size n, intro tail append_snapshot_text_length)
qed

lemma append_texts_length: "length r < n \<Longrightarrow> length (snd (append_texts n ts r)) < n"
  by (induction ts arbitrary: r) (auto dest: append_snapshot_text_length split: option.splits)

lemma append_used_length:
  "(\<And>r x. length r < n \<Longrightarrow> length (snd (writer r x)) < n) \<Longrightarrow> length r < n \<Longrightarrow> length (snd (append_used used writer rs r)) < n"
proof (induction rs arbitrary: r)
  case (Cons x rs)
  then show ?case by (auto split: prod.splits) (metis snd_conv)+
qed simp

lemma export_audit_loop_length: "length r < n \<Longrightarrow> length (snd (export_audit_loop svc n sequence r)) < n"
proof (induction svc n sequence r rule: export_audit_loop.induct)
  case (1 svc n sequence r)
  have "length (snd (mem_service_append_snapshot_audit_text n r e)) < n" for e
    unfolding mem_service_append_snapshot_audit_text_def by (rule append_texts_length [OF 1(3)])
  with 1 show ?case
    by (subst export_audit_loop.simps) (auto split: option.splits prod.splits, (metis snd_conv)+)
qed

lemma export_snapshot_fits [response_fits]: "0 < n \<Longrightarrow> length (snd (mem_service_export_snapshot svc n)) < n"
proof -
  assume n: "0 < n"
  obtain ok0 t0 where 0: "append_texts n [text_of (snapshot_header svc)] [] = (ok0, t0)" by fastforce
  obtain ok1 t1 where 1: "append_used rec_in_use (mem_service_append_snapshot_record_text n) (svc_records svc) t0 = (ok1, t1)"
    by fastforce
  obtain ok2 t2 where
    2: "append_used idem_in_use (mem_service_append_snapshot_idempotency_text n) (svc_idempotency_records svc) t1 = (ok2, t2)"
    by fastforce
  have "length t0 < n" using append_texts_length [of "[]" n "[text_of (snapshot_header svc)]"] n 0 by simp
  moreover from this have "length t1 < n"
    using append_used_length [of n "mem_service_append_snapshot_record_text n" t0 rec_in_use "svc_records svc"]
      append_texts_length 1 by (simp only: mem_service_append_snapshot_record_text_def snd_conv)
  moreover from this have "length t2 < n"
    using append_used_length [of n "mem_service_append_snapshot_idempotency_text n" t1 idem_in_use "svc_idempotency_records svc"]
      append_texts_length 2 by (simp only: mem_service_append_snapshot_idempotency_text_def snd_conv)
  moreover from this have "length (snd (export_audit_loop svc n sequence t2)) < n" for sequence
    by (rule export_audit_loop_length)
  ultimately show ?thesis
    using n unfolding mem_service_export_snapshot_def 0 prod.case 1 2 by (simp add: case_prod_beta)
qed

lemma export_page_fits [response_fits]: "0 < n \<Longrightarrow> length (snd (mem_service_export_snapshot_page svc payload n)) < n"
  unfolding mem_service_export_snapshot_page_def Let_def
  by (split if_split, intro conjI impI) (auto split: option.split prod.split)

lemma restore_snapshot_fits [response_fits]: "0 < n \<Longrightarrow> length (fst (snd (mem_service_restore_snapshot svc payload n))) < n"
  unfolding fits_def [symmetric] mem_service_restore_snapshot_def by (intro fits_branches snprintf_s_length)

lemma restore_page_fits [response_fits]:
  "0 < n \<Longrightarrow> length (fst (snd (mem_service_restore_snapshot_page svc stage payload n))) < n"
proof -
  assume n: "0 < n"
  have "fits n (mem_service_restore_snapshot_page_begin svc payload n)"
    "fits n (mem_service_restore_snapshot_page_append stage payload n)"
    unfolding mem_service_restore_snapshot_page_begin_def mem_service_restore_snapshot_page_append_def Let_def
    by (intro fits_branches snprintf_s_length n)+
  moreover have "fits n (mem_service_restore_snapshot_page_commit svc stage n)"
    unfolding mem_service_restore_snapshot_page_commit_def by (intro fits_branches snprintf_s_length n)
  ultimately show ?thesis
    unfolding fits_def [symmetric] mem_service_restore_snapshot_page_def
    by (intro fits_keep fits_empty fits_if fits_option fits_pair snprintf_s_length n)
qed

section \<open>The whole request\<close>

lemma dispatch_fits:
  assumes n: "0 < n"
  shows "length (fst (snd (mem_service_dispatch_operation env probe op payload n s))) < n"
  using n
  by (cases op)
     (simp_all add: mem_service_dispatch_operation_def on_reader_def on_service_def on_files_def case_prod_beta Let_def response_fits)

lemma replay_fits: "0 < n \<Longrightarrow> length (fst (snd (mem_service_try_idempotency_replay svc op payload n))) < n"
  by (auto simp: mem_service_try_idempotency_replay_def Let_def split: option.split)

lemma run_request_fits:
  assumes n: "0 < n"
  shows "length (fst (snd (run_request env probe limits op payload n s))) < n"
proof -
  have "length (fst (snd (case d of (st, resp, s1) \<Rightarrow> case f st s1 of (a, b, c) \<Rightarrow> case g st b c of (x, y, z) \<Rightarrow>
      (st, resp, a, x, s1 \<lparr> srv_svc := y, srv_fw := z \<rparr>)))) < n"
    if "length (fst (snd d)) < n" for d :: "mem_service_wire_status \<times> cstr \<times> 'a server"
      and f :: "mem_service_wire_status \<Rightarrow> 'a server \<Rightarrow> bool \<times> mem_service \<times> file_world"
      and g :: "mem_service_wire_status \<Rightarrow> mem_service \<Rightarrow> file_world \<Rightarrow> bool \<times> mem_service \<times> file_world"
    using that by (simp add: case_prod_beta)
  from this [OF dispatch_fits [OF n, of env probe op payload s]] n show ?thesis
    unfolding run_request_def Let_def by (split if_split) simp
qed

lemma handled_fits:
  assumes "0 < n" "mem_service_handle_operation_with_limits renv probe path limits op payload n s = (st, resp, s')"
  shows "length resp < n"
proof (rule handle_tables [OF assms(2)])
  fix st0 resp0 pending handled svc0 st1 resp1 ck rc s1
  assume "mem_service_try_idempotency_replay (srv_svc s) op payload n = (st0, resp0, pending, handled, svc0)"
    and "(if handled then (st0, resp0, False, False, s \<lparr> srv_svc := svc0 \<rparr>)
      else run_request (rq_daemon renv) probe limits op payload n (s \<lparr> srv_svc := svc0 \<rparr>)) = (st1, resp1, ck, rc, s1)"
    and "st = st1 \<and> resp = resp1 \<or>
      st1 = STATUS_OK \<and> mem_service_operation_mutates op payload \<and> st = STATUS_INTERNAL \<and>
      resp = snprintf_s n (''durable_store_save_failed'' @ [newline])"
  then show ?thesis
    using assms(1) replay_fits [OF assms(1), of "srv_svc s" op payload]
      run_request_fits [OF assms(1), of "rq_daemon renv" probe limits op payload "s \<lparr> srv_svc := svc0 \<rparr>"]
    by (auto split: if_splits)
qed



end
