(* ===== verification/Metrics_Http.thy ===== *)
theory Metrics_Http
  imports Dispatch
begin

text \<open>
  The HTTP metrics endpoint (\<open>mem_service_daemon.c\<close>): the reader of the metrics text, its rendering
  in the Prometheus exposition format, and the answer to a scrape. What \<open>recv\<close> delivers is an
  argument: \<open>None\<close> for an error, the empty list for a closed connection. The answer is the text sent,
  \<open>None\<close> when nothing is sent.
\<close>

section \<open>Rendering\<close>

definition mem_service_http_send_response :: "nat \<Rightarrow> cstr \<Rightarrow> cstr \<Rightarrow> cstr \<Rightarrow> cstr option" where
  "mem_service_http_send_response status reason content_type body =
     (let eol = [carriage_return, newline];
          header = ''HTTP/1.1 '' @ decimal status @ '' '' @ reason @ eol @
                   ''Content-Type: '' @ content_type @ eol @
                   ''Content-Length: '' @ decimal (length body) @ eol @
                   ''Cache-Control: no-store'' @ eol @ ''Connection: close'' @ eol @ eol
      in if length header \<ge> 512 then None else Some (header @ body))"

definition mem_service_metrics_export_key_is_safe :: "cstr \<Rightarrow> bool" where
  "mem_service_metrics_export_key_is_safe key \<longleftrightarrow>
     key \<noteq> [] \<and>
     list_all (\<lambda>c. let n = (of_char c :: nat) in
        (97 \<le> n \<and> n \<le> 122) \<or> (65 \<le> n \<and> n \<le> 90) \<or> (48 \<le> n \<and> n \<le> 57) \<or> c = CHR ''_'') key"

definition mem_service_metrics_export_type :: "cstr \<Rightarrow> cstr" where
  "mem_service_metrics_export_type key =
     (let suffix = ''_max_ms'' in
      if length key \<ge> length suffix \<and> drop (length key - length suffix) key = suffix
      then ''gauge'' else ''counter'')"

definition mem_service_http_append_line :: "nat \<Rightarrow> cstr \<Rightarrow> cstr \<Rightarrow> cstr option" where
  "mem_service_http_append_line output_len line output =
     (if length output \<ge> output_len \<or> length line \<ge> output_len - length output then None
      else Some (output @ line))"

text \<open>The three lines of a metric.\<close>

definition help_line :: "cstr \<Rightarrow> cstr" where
  "help_line key = ''# HELP lingqu_mem_service_'' @ key @ '' mem_service metric'' @ [newline]"

definition type_line :: "cstr \<Rightarrow> cstr" where
  "type_line key = ''# TYPE lingqu_mem_service_'' @ key @ '' '' @ mem_service_metrics_export_type key @ [newline]"

definition sample_line :: "cstr \<Rightarrow> cstr \<Rightarrow> cstr" where
  "sample_line key text = ''lingqu_mem_service_'' @ key @ '' '' @ text @ [newline]"

function render_loop :: "nat \<Rightarrow> cstr \<Rightarrow> cstr \<Rightarrow> cstr option" where
  "render_loop output_len cursor output =
     (if cursor = [] then Some output
      else case after_line cursor of
        None \<Rightarrow> None
      | Some rest \<Rightarrow>
          let line = line_of cursor;
              key = takeWhile (\<lambda>c. c \<noteq> CHR ''='') line;
              text = tl (dropWhile (\<lambda>c. c \<noteq> CHR ''='') line)
          in if CHR ''='' \<notin> set line \<or> key = [] then None
             else if \<not> mem_service_metrics_export_key_is_safe key then None
             else case Option.bind (mem_service_http_append_line output_len (help_line key) output)
                    (\<lambda>o1. Option.bind (mem_service_http_append_line output_len (type_line key) o1)
                      (mem_service_http_append_line output_len (sample_line key text))) of
               None \<Rightarrow> None
             | Some output' \<Rightarrow> render_loop output_len rest output')"
  by pat_completeness auto
termination
  by (relation "measure (\<lambda>(output_len, cursor, output). length cursor)") (auto dest: after_line_shorter)

declare render_loop.simps [simp del]

definition mem_service_render_prometheus_text :: "cstr \<Rightarrow> nat \<Rightarrow> cstr option" where
  "mem_service_render_prometheus_text metrics_payload output_len =
     (if output_len = 0 then None else render_loop output_len metrics_payload [])"

section \<open>Answering a scrape\<close>

definition mem_service_http_request_is_get_metrics :: "cstr \<Rightarrow> bool" where
  "mem_service_http_request_is_get_metrics request \<longleftrightarrow>
     take 13 request = ''GET /metrics '' \<and>
     list_ex (\<lambda>i. take 2 (drop i request) = [carriage_return, newline]) [0..<length request]"

definition mem_service_http_request_is_method_get :: "cstr \<Rightarrow> bool" where
  "mem_service_http_request_is_method_get request \<longleftrightarrow> take 4 request = ''GET ''"

definition mem_service_handle_metrics_http_client ::
  "u64 \<Rightarrow> u8 list option \<Rightarrow> mem_service \<Rightarrow> int \<times> cstr option \<times> mem_service" where
  "mem_service_handle_metrics_http_client latency_ms received svc =
     (case received of
        None \<Rightarrow> (-1, None, svc)
      | Some bytes \<Rightarrow>
          let request = takeWhile (\<lambda>c. c \<noteq> CHR 0x00) (cstr_of bytes) in
          if bytes = [] then (0, None, svc)
          else if \<not> mem_service_http_request_is_get_metrics request
          then (0,
                if mem_service_http_request_is_method_get request
                then mem_service_http_send_response 404 ''Not Found'' ''text/plain'' (''not_found'' @ [newline])
                else mem_service_http_send_response 405 ''Method Not Allowed'' ''text/plain''
                       (''method_not_allowed'' @ [newline]),
                mem_service_record_operation_metrics svc OP_METRICS STATUS_UNSUPPORTED latency_ms)
          else case mem_service_metrics_text svc MEM_SERVICE_WIRE_MAX_PAYLOAD_LEN of (status, metrics_payload) \<Rightarrow>
            (case (if status \<noteq> STATUS_OK then None
                   else mem_service_render_prometheus_text metrics_payload 16384) of
               None \<Rightarrow>
                 (-1, mem_service_http_send_response 500 ''Internal Server Error'' ''text/plain''
                        (''internal'' @ [newline]),
                  mem_service_record_operation_metrics svc OP_METRICS STATUS_INTERNAL latency_ms)
             | Some body \<Rightarrow>
                 (0, mem_service_http_send_response 200 ''OK'' ''text/plain; version=0.0.4'' body,
                  mem_service_record_operation_metrics svc OP_METRICS status latency_ms)))"

section \<open>The exposition of a list of metrics\<close>

definition exposition :: "(cstr \<times> u64) list \<Rightarrow> cstr" where
  "exposition metrics =
     concat (map (\<lambda>(key, n). help_line key @ type_line key @ sample_line key (show_word n)) metrics)"

text \<open>A bound on its size from the names alone, and one on the text it is rendered from.\<close>

definition exposition_bound :: "cstr list \<Rightarrow> nat" where
  "exposition_bound keys = sum_list (map (\<lambda>key. 3 * length key + 125) keys)"

definition metrics_bound :: "cstr list \<Rightarrow> nat" where
  "metrics_bound keys = sum_list (map (\<lambda>key. length key + 22) keys)"

definition plain_key :: "cstr \<Rightarrow> bool" where
  "plain_key key \<longleftrightarrow> mem_service_metrics_export_key_is_safe key \<and> CHR ''='' \<notin> set key \<and> newline \<notin> set key"

lemma export_type_length: "length (mem_service_metrics_export_type key) \<le> 7"
  by (simp add: mem_service_metrics_export_type_def Let_def)

lemma metric_lines_length:
  "length (help_line key @ type_line key @ sample_line key (show_word n)) \<le> 3 * length key + 125" for n :: u64
  using export_type_length [of key] show_word_length [of n]
  by (simp add: help_line_def type_line_def sample_line_def del: show_word_length)

lemma exposition_length: "length (exposition metrics) \<le> exposition_bound (map fst metrics)"
proof (induction metrics)
  case Nil
  show ?case by (simp add: exposition_def)
next
  case (Cons m ms)
  show ?case using Cons.IH metric_lines_length [of "fst m" "snd m"]
    by (simp add: exposition_def exposition_bound_def case_prod_beta)
qed

lemma metrics_length: "length (concat (map (\<lambda>(name, n). kv name (show_word n)) metrics)) \<le> metrics_bound (map fst metrics)"
  for metrics :: "(cstr \<times> u64) list"
proof (induction metrics)
  case Nil
  show ?case by simp
next
  case (Cons m ms)
  show ?case using Cons.IH show_word_length [of "snd m"]
    by (simp add: kv_def metrics_bound_def case_prod_beta del: show_word_length)
qed

text \<open>One line of the metrics text, and the whole of it.\<close>

lemma append_line_fits:
  "length out + length line < output_len \<Longrightarrow> mem_service_http_append_line output_len line out = Some (out @ line)"
  by (simp add: mem_service_http_append_line_def)

lemma takeWhile_stop: "c \<notin> set xs \<Longrightarrow> takeWhile (\<lambda>x. x \<noteq> c) (xs @ c # ys) = xs"
  by (induction xs) auto

lemma dropWhile_stop: "c \<notin> set xs \<Longrightarrow> dropWhile (\<lambda>x. x \<noteq> c) (xs @ c # ys) = c # ys"
  by (induction xs) auto

lemma render_metric:
  fixes n :: u64
  assumes "plain_key key"
    and "length out + length (help_line key @ type_line key @ sample_line key (show_word n)) < output_len"
  shows "render_loop output_len (kv key (show_word n) @ rest) out =
     render_loop output_len rest (out @ help_line key @ type_line key @ sample_line key (show_word n))"
proof -
  let ?line = "key @ CHR ''='' # show_word n"
  have nl: "newline \<notin> set ?line" using assms(1) by (simp add: plain_key_def show_word_def)
  have cursor: "kv key (show_word n) @ rest = ?line @ newline # rest" by (simp add: kv_def)
  have line: "line_of (?line @ newline # rest) = ?line" "after_line (?line @ newline # rest) = Some rest"
    by (simp_all only: line_of_def after_line_def takeWhile_stop [OF nl] dropWhile_stop [OF nl] list.case)
  have eq: "takeWhile (\<lambda>c. c \<noteq> CHR ''='') ?line = key" "dropWhile (\<lambda>c. c \<noteq> CHR ''='') ?line = CHR ''='' # show_word n"
    using assms(1) by (simp_all add: plain_key_def takeWhile_stop dropWhile_stop)
  have ne: "?line @ newline # rest \<noteq> []" by simp
  show ?thesis
    unfolding cursor using assms ne
    by (subst render_loop.simps)
       (simp only: line eq Let_def if_False if_True option.case list.sel,
        auto simp: append_line_fits plain_key_def mem_service_metrics_export_key_is_safe_def)
qed

lemma render_metrics:
  assumes "list_all (\<lambda>(key, n). plain_key key) metrics" "length out + length (exposition metrics) < output_len"
  shows "render_loop output_len (concat (map (\<lambda>(name, n). kv name (show_word n)) metrics)) out =
     Some (out @ exposition metrics)"
  using assms
proof (induction metrics arbitrary: out)
  case Nil
  show ?case by (simp add: render_loop.simps exposition_def)
next
  case (Cons m ms)
  obtain key n where m: "m = (key, n)" by (cases m)
  let ?new = "help_line key @ type_line key @ sample_line key (show_word n)"
  have e: "exposition ((key, n) # ms) = ?new @ exposition ms" by (simp add: exposition_def)
  have "length (out @ ?new) + length (exposition ms) < output_len" using Cons.prems(2) by (simp add: e m)
  with Cons render_metric [of key out n output_len] show ?case by (simp add: m e)
qed

lemma metrics_fields_fit:
  "list_all (\<lambda>(key, n). plain_key key) (metrics_fields m)"
  "metrics_bound (map fst (metrics_fields m)) < MEM_SERVICE_WIRE_MAX_PAYLOAD_LEN"
  "exposition_bound (map fst (metrics_fields m)) < 16384"
  subgoal by (simp add: metrics_fields_def plain_key_def mem_service_metrics_export_key_is_safe_def)
  subgoal by (simp add: metrics_fields_def metrics_bound_def MEM_SERVICE_WIRE_MAX_PAYLOAD_LEN_def)
  subgoal by (simp add: metrics_fields_def exposition_bound_def)
  done

lemma metrics_scrape:
  assumes "mem_service_http_request_is_get_metrics (takeWhile (\<lambda>c. c \<noteq> CHR 0x00) (cstr_of bytes))"
  shows "mem_service_handle_metrics_http_client latency_ms (Some bytes) svc =
     (0, mem_service_http_send_response 200 ''OK'' ''text/plain; version=0.0.4'' (exposition (metrics_fields (svc_metrics svc))),
      mem_service_record_operation_metrics svc OP_METRICS STATUS_OK latency_ms) \<and>
     mem_service_http_send_response 200 ''OK'' ''text/plain; version=0.0.4'' (exposition (metrics_fields (svc_metrics svc))) \<noteq> None"
proof -
  let ?m = "metrics_fields (svc_metrics svc)"
  have "bytes \<noteq> []" using assms by (auto simp: mem_service_http_request_is_get_metrics_def cstr_of_def)
  moreover have "mem_service_metrics_text svc MEM_SERVICE_WIRE_MAX_PAYLOAD_LEN =
      (STATUS_OK, concat (map (\<lambda>(name, n). kv name (show_word n)) ?m))"
    using metrics_length [of ?m] metrics_fields_fit(2) [of "svc_metrics svc"] by (simp add: mem_service_metrics_text_def)
  moreover have len: "length (exposition ?m) < 16384"
    using exposition_length [of ?m] metrics_fields_fit(3) [of "svc_metrics svc"] by simp
  moreover have "length (decimal (length (exposition ?m))) \<le> 5" using len by (intro decimal_length) simp_all
  moreover have "length (decimal 200) \<le> 3" by (intro decimal_length) simp_all
  ultimately show ?thesis
    using assms render_metrics [OF metrics_fields_fit(1), of "[]" "svc_metrics svc" 16384]
    by (simp add: mem_service_handle_metrics_http_client_def mem_service_render_prometheus_text_def
        mem_service_http_send_response_def Let_def)
qed

text \<open>A scrape never fails: a request for \<open>/metrics\<close> is answered with status 200 and a body that
  shows every counter of the service once, whatever the values of the counters; the buffers of the
  endpoint are large enough for all of them, and nothing but the metrics of the service changes.\<close>

theorem metrics_scrape_complete:
  assumes "mem_service_http_request_is_get_metrics (takeWhile (\<lambda>c. c \<noteq> CHR 0x00) (cstr_of bytes))"
  shows "mem_service_handle_metrics_http_client latency_ms (Some bytes) svc =
     (0, mem_service_http_send_response 200 ''OK'' ''text/plain; version=0.0.4'' (exposition (metrics_fields (svc_metrics svc))),
      mem_service_record_operation_metrics svc OP_METRICS STATUS_OK latency_ms) \<and>
     mem_service_http_send_response 200 ''OK'' ''text/plain; version=0.0.4'' (exposition (metrics_fields (svc_metrics svc))) \<noteq> None"
  using metrics_scrape [OF assms] .

theorem metrics_scrape_complete_witness:
  "\<exists>text. mem_service_handle_metrics_http_client 1 (Some (bytes_of (''GET /metrics HTTP/1.1'' @ [carriage_return, newline])))
     initial_service = (0, Some text, mem_service_record_operation_metrics initial_service OP_METRICS STATUS_OK 1)"
proof -
  have "mem_service_http_request_is_get_metrics
      (takeWhile (\<lambda>c. c \<noteq> CHR 0x00) (cstr_of (bytes_of (''GET /metrics HTTP/1.1'' @ [carriage_return, newline]))))"
    by (simp add: mem_service_http_request_is_get_metrics_def upt_conv_Cons del: bytes_of_append)
  from metrics_scrape_complete [OF this, of 1 initial_service] show ?thesis by auto
qed

end
