(* ===== verification/Startup.thy ===== *)
theory Startup
  imports Requests Metrics_Http
begin

text \<open>
  The durable catalog under the storage root, the start of the daemon and its service loop
  (\<open>mem_service_daemon.c\<close>). Directories are not part of the model of files: whether \<open>mkdir\<close> succeeds or
  finds a directory is the argument \<open>dir_ok\<close>. A start that fails returns which step failed; the files
  it leaves behind are not described. Opening the sockets is not modelled.
\<close>

section \<open>The catalog\<close>

definition MEM_SERVICE_DURABLE_CATALOG_MAGIC :: cstr where
  "MEM_SERVICE_DURABLE_CATALOG_MAGIC = ''mem_service_durable_catalog_v1''"

definition MEM_SERVICE_DURABLE_CATALOG_MANIFEST :: cstr where
  "MEM_SERVICE_DURABLE_CATALOG_MANIFEST = ''manifest.txt''"

definition MEM_SERVICE_DURABLE_CATALOG_SCHEMA_VERSION :: nat where
  "MEM_SERVICE_DURABLE_CATALOG_SCHEMA_VERSION = 1"

definition MEM_SERVICE_DURABLE_CATALOG_MAX_KNOWN_VERSION :: int where
  "MEM_SERVICE_DURABLE_CATALOG_MAX_KNOWN_VERSION = 1"

definition mem_service_ensure_dir :: "(cstr \<Rightarrow> bool) \<Rightarrow> cstr \<Rightarrow> int" where
  "mem_service_ensure_dir dir_ok path = (if path = [] then -1 else if dir_ok path then 0 else -1)"

definition mem_service_make_catalog_path :: "cstr \<Rightarrow> cstr \<Rightarrow> nat \<Rightarrow> cstr option" where
  "mem_service_make_catalog_path storage_root name path_len =
     (case mem_service_join_path 512 storage_root ''catalog'' of
        None \<Rightarrow> None
      | Some catalog_dir \<Rightarrow> mem_service_join_path path_len catalog_dir name)"

definition mem_service_prepare_durable_catalog_layout :: "(cstr \<Rightarrow> bool) \<Rightarrow> cstr \<Rightarrow> int" where
  "mem_service_prepare_durable_catalog_layout dir_ok storage_root =
     (if storage_root = [] then 0
      else case (mem_service_join_path 512 storage_root ''catalog'',
                 mem_service_join_path 512 storage_root ''blocks'',
                 mem_service_join_path 512 storage_root ''quarantine'') of
        (Some catalog_dir, Some block_dir, Some quarantine_dir) \<Rightarrow>
          if mem_service_ensure_dir dir_ok storage_root \<noteq> 0 \<or> mem_service_ensure_dir dir_ok catalog_dir \<noteq> 0 \<or>
             mem_service_ensure_dir dir_ok block_dir \<noteq> 0 \<or> mem_service_ensure_dir dir_ok quarantine_dir \<noteq> 0
          then -1 else 0
      | _ \<Rightarrow> -1)"

definition manifest_text :: "cstr \<Rightarrow> cstr \<Rightarrow> cstr \<Rightarrow> cstr \<Rightarrow> cstr \<Rightarrow> cstr" where
  "manifest_text catalog_dir block_dir quarantine_dir store_path journal_path =
     MEM_SERVICE_DURABLE_CATALOG_MAGIC @ [newline] @
     kv ''layout'' ''storage-root-v1'' @
     kv ''catalog_schema_version'' (decimal MEM_SERVICE_DURABLE_CATALOG_SCHEMA_VERSION) @
     kv ''catalog_dir'' catalog_dir @
     kv ''block_dir'' block_dir @
     kv ''quarantine_dir'' quarantine_dir @
     kv ''store_path'' store_path @
     kv ''journal_path'' journal_path @
     kv ''store_magic'' MEM_SERVICE_STORE_MAGIC @
     kv ''journal_magic'' MEM_SERVICE_JOURNAL_MAGIC @
     kv ''payload_block_backend'' ''sealed-local-block-v1,sealed-chunked-block-v1,transport-loopback-block-v1'' @
     kv ''corrupt_payload_policy'' ''quarantine-fail-closed''"

definition mem_service_write_durable_catalog_manifest ::
  "io_env \<Rightarrow> cstr \<Rightarrow> cstr \<Rightarrow> file_world \<Rightarrow> int \<times> file_world" where
  "mem_service_write_durable_catalog_manifest env storage_root store_path fw =
     (if storage_root = [] then (0, fw)
      else if store_path = [] then (-1, fw)
      else case (mem_service_make_catalog_path storage_root MEM_SERVICE_DURABLE_CATALOG_MANIFEST 512,
                 mem_service_join_path 512 storage_root ''catalog'',
                 mem_service_join_path 512 storage_root ''blocks'',
                 mem_service_join_path 512 storage_root ''quarantine'',
                 mem_service_make_journal_path store_path 512) of
        (Some manifest_path, Some catalog_dir, Some block_dir, Some quarantine_dir, Some journal_path) \<Rightarrow>
          let tmp_path = manifest_path @ ''.tmp.'' @ decimal (io_pid env) in
          if length tmp_path \<ge> 512 then (-1, fw)
          else (case fs_write_file env tmp_path
                       (bytes_of (manifest_text catalog_dir block_dir quarantine_dir store_path journal_path)) fw of
                  (written, fw1) \<Rightarrow>
                    if \<not> written then (-1, fw1)
                    else case fs_rename env tmp_path manifest_path fw1 of (renamed, fw2) \<Rightarrow>
                      if renamed then (0, fw2) else (-1, fs_unlink tmp_path fw2))
      | _ \<Rightarrow> (-1, fw))"

text \<open>The result of the first version line of the manifest.\<close>

primrec manifest_version :: "cstr list \<Rightarrow> int option" where
  "manifest_version [] = None"
| "manifest_version (line # ls) =
     (let schema_rc = fst (mem_service_parse_schema_version_line line ''catalog_schema_version=''
                             MEM_SERVICE_DURABLE_CATALOG_MAX_KNOWN_VERSION)
      in if schema_rc \<noteq> 0 then Some schema_rc else manifest_version ls)"

definition mem_service_admit_or_migrate_catalog_schema_version ::
  "io_env \<Rightarrow> cstr \<Rightarrow> cstr \<Rightarrow> file_world \<Rightarrow> int \<times> file_world" where
  "mem_service_admit_or_migrate_catalog_schema_version env storage_root store_path fw =
     (if storage_root = [] then (0, fw)
      else case mem_service_make_catalog_path storage_root MEM_SERVICE_DURABLE_CATALOG_MANIFEST 512 of
        None \<Rightarrow> (0, fw)
      | Some manifest_path \<Rightarrow>
          (case fs_open env manifest_path fw of
             None \<Rightarrow> (0, fw)
           | Some bytes \<Rightarrow>
               (case manifest_version (file_lines (cstr_of bytes)) of
                  Some schema_rc \<Rightarrow> (if schema_rc < 0 then -1 else 0, fw)
                | None \<Rightarrow>
                    if store_path \<noteq> []
                    then mem_service_write_durable_catalog_manifest env storage_root store_path fw
                    else (0, fw))))"

section \<open>Starting the daemon\<close>

text \<open>The environments of the phases of a start.\<close>

record startup_env =
  se_daemon :: daemon_env
  se_dir_ok :: "cstr \<Rightarrow> bool"
  se_admit_io :: io_env
  se_load_io :: io_env
  se_save_io :: io_env
  se_manifest_io :: io_env

datatype startup_error =
  Init_failed | Invalid_provider_registry | Provider_probe_failed | Catalog_layout_failed
  | Unknown_catalog_schema | Store_load_failed | Retention_save_failed | Checkpoint_save_failed
  | Record_save_failed | Catalog_manifest_failed

definition and_then :: "'e + 'a \<Rightarrow> ('a \<Rightarrow> 'e + 'b) \<Rightarrow> 'e + 'b" where
  "and_then r f = (case r of Inl e \<Rightarrow> Inl e | Inr a \<Rightarrow> f a)"

text \<open>What follows a retention that removed something.\<close>

definition keep_pruned ::
  "startup_error \<Rightarrow> io_env \<Rightarrow> cstr \<Rightarrow> bool \<times> mem_service \<times> file_world \<Rightarrow> startup_error + mem_service \<times> file_world" where
  "keep_pruned failure io store_path pruned =
     (case pruned of (removed, svc, fw) \<Rightarrow>
        if \<not> removed \<or> store_path = [] then Inr (svc, fw)
        else case mem_service_save_store io svc store_path fw of (rc, fw1) \<Rightarrow>
          if rc \<noteq> 0 then Inl failure
          else case mem_service_compact_journal_now io store_path fw1 of (rc2, fw2) \<Rightarrow>
            if rc2 \<noteq> 0 then Inl failure else Inr (svc, fw2))"

definition start_retention ::
  "startup_env \<Rightarrow> cstr \<Rightarrow> mem_service_daemon_limits option \<Rightarrow> mem_service \<times> file_world \<Rightarrow>
   startup_error + mem_service \<times> file_world" where
  "start_retention senv store_path limits state =
     (case limits of
        None \<Rightarrow> Inr state
      | Some lim \<Rightarrow>
          and_then
            (keep_pruned Retention_save_failed (se_save_io senv) store_path
              (case state of (svc, fw) \<Rightarrow>
                 if lim_max_audit_events lim > 0
                 then case mem_service_apply_audit_retention svc (lim_max_audit_events lim) of
                   (removed, svc') \<Rightarrow> (removed, svc', fw)
                 else (False, svc, fw)))
          (\<lambda>(svc, fw). and_then
            (keep_pruned Checkpoint_save_failed (se_save_io senv) store_path
              (if lim_max_checkpoint_records lim > 0
               then mem_service_apply_checkpoint_retention (se_daemon senv) svc (lim_max_checkpoint_records lim) fw
               else (False, svc, fw)))
          (\<lambda>(svc, fw).
            keep_pruned Record_save_failed (se_save_io senv) store_path
              (if lim_max_retained_records lim > 0 \<or> lim_max_retained_record_age_ms lim > 0
               then mem_service_apply_record_retention (se_daemon senv) svc (lim_max_retained_records lim)
                      (lim_max_retained_record_age_ms lim) (lim_max_retained_record_kind lim)
                      (lim_max_retained_record_tenant_enabled lim) (lim_max_retained_record_tenant lim) fw
               else (False, svc, fw)))))"

definition start_providers ::
  "'w probe \<Rightarrow> mem_service_provider_registry option \<Rightarrow> mem_service \<Rightarrow> 'w \<Rightarrow> startup_error + mem_service \<times> 'w" where
  "start_providers probe providers svc w =
     (case providers of
        None \<Rightarrow> Inr (svc, w)
      | Some registry \<Rightarrow>
          if \<not> reg_initialized registry \<or> unat (reg_count registry) > MEM_SERVICE_MAX_PROVIDERS
          then Inl Invalid_provider_registry
          else case mem_service_provider_registry_refresh probe registry w of (rc, registry', w') \<Rightarrow>
            if rc \<noteq> 0 then Inl Provider_probe_failed else Inr (svc \<lparr> svc_providers := registry' \<rparr>, w'))"

definition mem_service_run_unix_daemon_with_runtime ::
  "startup_env \<Rightarrow> 'w probe \<Rightarrow> cstr \<Rightarrow> mem_service_daemon_limits option \<Rightarrow> mem_service_provider_registry option \<Rightarrow>
   file_world \<Rightarrow> 'w \<Rightarrow> startup_error + 'w server" where
  "mem_service_run_unix_daemon_with_runtime senv probe store_path limits providers fw w =
     (let storage_root = de_storage_root (se_daemon senv) in
      case mem_service_init True True True of (init_rc, svc) \<Rightarrow>
        if init_rc \<noteq> 0 then Inl Init_failed
        else and_then (start_providers probe providers svc w) (\<lambda>(svc1, w1).
          if mem_service_prepare_durable_catalog_layout (se_dir_ok senv) storage_root \<noteq> 0
          then Inl Catalog_layout_failed
          else case mem_service_admit_or_migrate_catalog_schema_version (se_admit_io senv) storage_root store_path fw of
            (admit_rc, fw1) \<Rightarrow>
              if admit_rc \<noteq> 0 then Inl Unknown_catalog_schema
              else (case mem_service_load_durable_store (se_load_io senv) svc1 store_path fw1 of
                 None \<Rightarrow> Inl Store_load_failed
               | Some loaded \<Rightarrow>
                   and_then (start_retention senv store_path limits loaded) (\<lambda>(svc2, fw2).
                     case mem_service_write_durable_catalog_manifest (se_manifest_io senv) storage_root store_path fw2 of
                       (manifest_rc, fw3) \<Rightarrow>
                         if manifest_rc \<noteq> 0 then Inl Catalog_manifest_failed
                         else Inr \<lparr> srv_svc = svc2, srv_stage = mem_service_restore_snapshot_stage_reset,
                                    srv_fw = fw3, srv_world = w1 \<rparr>))))"

section \<open>The service loop\<close>

text \<open>The states the daemon passes through: a start, then requests and scrapes in any order, each with
  its own faults and clock readings. The block layouts, the limits and the store stay the same.\<close>

inductive serving ::
  "block_backends \<Rightarrow> cstr \<Rightarrow> mem_service_daemon_limits option \<Rightarrow> 'w probe \<Rightarrow> 'w server \<Rightarrow> bool"
  for backends store_path limits probe where
  started: "mem_service_run_unix_daemon_with_runtime senv probe store_path limits providers fw w = Inr s \<Longrightarrow>
     de_backends (se_daemon senv) = backends \<Longrightarrow> serving backends store_path limits probe s"
| client: "serving backends store_path limits probe s \<Longrightarrow> de_backends (rq_daemon renv) = backends \<Longrightarrow>
     mem_service_handle_client renv probe store_path limits now_ms header body s = (answer, s') \<Longrightarrow>
     serving backends store_path limits probe s'"
| scrape: "serving backends store_path limits probe s \<Longrightarrow>
     mem_service_handle_metrics_http_client latency_ms received (srv_svc s) = (rc, answer, svc') \<Longrightarrow>
     serving backends store_path limits probe (s \<lparr> srv_svc := svc' \<rparr>)"

section \<open>The invariant\<close>

lemma run_steps_inv:
  assumes step: "\<And>s l s'. I s \<Longrightarrow> step s l = Some s' \<Longrightarrow> I s'"
  shows "I s \<Longrightarrow> run_steps step ls s = Some s' \<Longrightarrow> I s'"
  by (induction ls arbitrary: s) (auto split: option.splits dest: step)

lemma load_step_inv: "import_inv (fst t) \<Longrightarrow> load_line_step t line = Some t' \<Longrightarrow> import_inv (fst t')"
  by (cases t) (auto simp: load_line_step_def dest: store_step_inv split: if_splits)

lemma journal_step_inv: "import_inv s \<Longrightarrow> journal_line_step s line = Some s' \<Longrightarrow> import_inv s'"
  by (cases s) (auto simp: journal_line_step_def dest: import_line_inv split: if_splits)

lemma load_run_inv: "import_inv (fst t) \<Longrightarrow> run_steps load_line_step ls t = Some t' \<Longrightarrow> import_inv (fst t')"
  by (rule run_steps_inv [where I = "\<lambda>t. import_inv (fst t)"]) (auto dest: load_step_inv)

lemma journal_run_inv: "import_inv s \<Longrightarrow> run_steps journal_line_step ls s = Some s' \<Longrightarrow> import_inv s'"
  by (rule run_steps_inv [where I = import_inv]) (auto dest: journal_step_inv)

text \<open>Whatever the files hold, a load that succeeds gives well-formed tables.\<close>

lemma load_store_wf:
  assumes "records_wf svc" "idem_wf svc" "mem_service_load_store io svc path fw = Some (svc', legacy)"
  shows "records_wf svc' \<and> idem_wf svc'"
proof (rule ccontr)
  assume bad: "\<not> ?thesis"
  with assms obtain ls state saw where "run_steps load_line_step ls ((svc, zero_import_state), False) = Some ((svc', state), saw)"
    by (auto simp: mem_service_load_store_def split: if_splits option.splits list.splits)
  with load_run_inv zero_import_inv [OF assms(1,2)] have "import_inv (svc', state)" by fastforce
  with bad show False by (simp add: import_inv_def)
qed

lemma load_journal_wf:
  assumes "records_wf svc" "idem_wf svc" "mem_service_load_journal io svc path fw = Some svc'"
  shows "records_wf svc' \<and> idem_wf svc'"
proof (rule ccontr)
  assume bad: "\<not> ?thesis"
  with assms obtain ls state where "run_steps journal_line_step ls (svc, zero_import_state) = Some (svc', state)"
    by (auto simp: mem_service_load_journal_def split: if_splits option.splits list.splits)
  with journal_run_inv zero_import_inv [OF assms(1,2)] have "import_inv (svc', state)" by blast
  with bad show False by (simp add: import_inv_def)
qed

lemma load_durable_wf:
  assumes wf: "records_wf svc" "idem_wf svc" and load: "mem_service_load_durable_store io svc path fw = Some (svc', fw')"
  shows "records_wf svc' \<and> idem_wf svc'"
proof -
  from load obtain svc1 legacy where 1: "mem_service_load_store io svc path fw = Some (svc1, legacy)"
    "mem_service_load_journal io svc1 path fw = Some svc'"
    by (auto simp: mem_service_load_durable_store_def split: option.splits prod.splits if_splits)
  from load_store_wf [OF wf 1(1)] load_journal_wf [OF _ _ 1(2)] show ?thesis by blast
qed

lemma and_then_Inr: "and_then r f = Inr b \<longleftrightarrow> (\<exists>a. r = Inr a \<and> f a = Inr b)"
  by (cases r) (simp_all add: and_then_def)

lemma keep_pruned_service: "keep_pruned e io path (removed, svc, fw) = Inr (svc', fw') \<Longrightarrow> svc' = svc"
  by (auto simp: keep_pruned_def split: if_splits prod.splits)

lemma start_retention_wf:
  assumes wf: "records_wf svc" "idem_wf svc" and run: "start_retention senv path limits (svc, fw) = Inr (svc', fw')"
  shows "records_wf svc' \<and> idem_wf svc'"
proof (cases limits)
  case None
  with assms show ?thesis by (simp add: start_retention_def)
next
  case (Some lim)
  define r1 where "r1 = (if lim_max_audit_events lim > 0
      then case mem_service_apply_audit_retention svc (lim_max_audit_events lim) of (removed, svc') \<Rightarrow> (removed, svc', fw)
      else (False, svc, fw))"
  obtain b1 svc1 f1 where 1: "r1 = (b1, svc1, f1)" by (metis prod_cases3)
  have wf1: "records_wf svc1 \<and> idem_wf svc1"
    using 1 wf records_wf_cong(1) [of svc1 svc] idem_wf_cong(1) [of svc1 svc] audit_retention_frame
    by (auto simp: r1_def split: if_splits prod.splits)
  from run 1 obtain fw1 svc2 fw2 where
    k: "and_then (keep_pruned Checkpoint_save_failed (se_save_io senv) path
          (if lim_max_checkpoint_records lim > 0
           then mem_service_apply_checkpoint_retention (se_daemon senv) svc1 (lim_max_checkpoint_records lim) fw1
           else (False, svc1, fw1)))
        (\<lambda>(svc, fw). keep_pruned Record_save_failed (se_save_io senv) path
          (if lim_max_retained_records lim > 0 \<or> lim_max_retained_record_age_ms lim > 0
           then mem_service_apply_record_retention (se_daemon senv) svc (lim_max_retained_records lim)
                  (lim_max_retained_record_age_ms lim) (lim_max_retained_record_kind lim)
                  (lim_max_retained_record_tenant_enabled lim) (lim_max_retained_record_tenant lim) fw
           else (False, svc, fw))) = Inr (svc', fw')"
    by (auto simp: start_retention_def Some and_then_Inr r1_def [symmetric] dest: keep_pruned_service)
  define r2 where "r2 = (if lim_max_checkpoint_records lim > 0
      then mem_service_apply_checkpoint_retention (se_daemon senv) svc1 (lim_max_checkpoint_records lim) fw1
      else (False, svc1, fw1))"
  obtain b2 svc2 f2 where 2: "r2 = (b2, svc2, f2)" by (metis prod_cases3)
  have wf2: "records_wf svc2 \<and> idem_wf svc2"
    using 2 wf1 retires_invariant(1,2) [OF checkpoint_retention_retires]
    by (fastforce simp: r2_def split: if_splits)
  from k obtain fw2 where "keep_pruned Record_save_failed (se_save_io senv) path
      (if lim_max_retained_records lim > 0 \<or> lim_max_retained_record_age_ms lim > 0
       then mem_service_apply_record_retention (se_daemon senv) svc2 (lim_max_retained_records lim)
              (lim_max_retained_record_age_ms lim) (lim_max_retained_record_kind lim)
              (lim_max_retained_record_tenant_enabled lim) (lim_max_retained_record_tenant lim) fw2
       else (False, svc2, fw2)) = Inr (svc', fw')" (is "keep_pruned _ _ _ ?r3 = _")
    by (auto simp: and_then_Inr r2_def [symmetric] 2 dest: keep_pruned_service)
  moreover obtain b3 svc3 f3 where 3: "?r3 = (b3, svc3, f3)" by (metis prod_cases3)
  ultimately have "svc' = svc3" by (simp only: keep_pruned_service)
  then show ?thesis
    using 3 wf2 retires_invariant(1,2) [OF record_retention_retires] by (fastforce split: if_splits)
qed

text \<open>The steps of a start that succeeds.\<close>

lemma start_steps:
  assumes "mem_service_run_unix_daemon_with_runtime senv probe path limits providers fw w = Inr s"
  obtains svc1 w1 fw1 svc2 fw2 fw3 where
    "start_providers probe providers initial_service w = Inr (svc1, w1)"
    "mem_service_admit_or_migrate_catalog_schema_version (se_admit_io senv) (de_storage_root (se_daemon senv)) path fw = (0, fw1)"
    "mem_service_load_durable_store (se_load_io senv) svc1 path fw1 = Some (svc2, fw2)"
    "start_retention senv path limits (svc2, fw2) = Inr (srv_svc s, fw3)"
    "mem_service_write_durable_catalog_manifest (se_manifest_io senv) (de_storage_root (se_daemon senv)) path fw3 = (0, srv_fw s)"
    "srv_stage s = mem_service_restore_snapshot_stage_reset"
proof -
  let ?root = "de_storage_root (se_daemon senv)"
  from assms obtain svc1 w1 where 1: "start_providers probe providers initial_service w = Inr (svc1, w1)"
    and layout: "mem_service_prepare_durable_catalog_layout (se_dir_ok senv) ?root = 0"
    by (auto simp: mem_service_run_unix_daemon_with_runtime_def init_ready and_then_Inr Let_def split: if_splits)
  obtain rc fw1 where 2: "mem_service_admit_or_migrate_catalog_schema_version (se_admit_io senv) ?root path fw = (rc, fw1)"
    by fastforce
  note run = assms [unfolded mem_service_run_unix_daemon_with_runtime_def Let_def init_ready prod.case 1 and_then_def sum.case
      layout 2]
  have rc: "rc = 0" using run by (auto split: if_splits)
  obtain svc2 fw2 where 3: "mem_service_load_durable_store (se_load_io senv) svc1 path fw1 = Some (svc2, fw2)"
    using run rc by (auto split: option.splits)
  obtain svc3 fw3 where 4: "start_retention senv path limits (svc2, fw2) = Inr (svc3, fw3)"
    using run rc 3 by (auto split: sum.splits)
  show ?thesis using run rc 3 4 that [OF 1 _ 3] 2 by (auto split: prod.splits if_splits)
qed

lemma start_inv:
  assumes "mem_service_run_unix_daemon_with_runtime senv probe path limits providers fw w = Inr s"
  shows "server_inv s"
proof (rule start_steps [OF assms])
  fix svc1 w1 fw1 svc2 fw2 fw3
  assume p: "start_providers probe providers initial_service w = Inr (svc1, w1)"
    and load: "mem_service_load_durable_store (se_load_io senv) svc1 path fw1 = Some (svc2, fw2)"
    and ret: "start_retention senv path limits (svc2, fw2) = Inr (srv_svc s, fw3)"
    and stage: "srv_stage s = mem_service_restore_snapshot_stage_reset"
  have same: "svc_records svc1 = svc_records initial_service" "svc_record_count svc1 = svc_record_count initial_service"
    "svc_idempotency_records svc1 = svc_idempotency_records initial_service"
    using p by (auto simp: start_providers_def split: option.splits if_splits prod.splits)
  have "records_wf svc1" "idem_wf svc1"
    using records_wf_cong(1) [OF same(1,2)] idem_wf_cong(1) [OF same(3)] records_wf_initial idem_wf_initial(1) by simp_all
  with load_durable_wf [OF _ _ load] start_retention_wf [OF _ _ ret] stage stage_wf_reset show ?thesis
    by (simp add: server_inv_def)
qed

lemma handle_client_cases:
  assumes run: "mem_service_handle_client renv probe path limits now_ms header body s = (answer, s')"
  obtains (refused) "s' = s"
  | (counted) op where "s' = s \<lparr> srv_svc := mem_service_record_operation_metrics (srv_svc s) op STATUS_CAPACITY_EXCEEDED 0 \<rparr>"
  | (handled) op payload st resp where "mem_service_handle_operation_with_limits renv probe path limits op payload
      MEM_SERVICE_WIRE_MAX_PAYLOAD_LEN s = (st, resp, s')"
proof (cases header)
  case None
  with run refused show ?thesis by (simp add: mem_service_handle_client_def)
next
  case (Some request)
  note run = run [unfolded mem_service_handle_client_def Some option.case Let_def]
  show ?thesis
  proof (cases "\<not> mem_service_wire_header_is_compatible request \<or>
      unat (hdr_payload_len request) > MEM_SERVICE_WIRE_MAX_PAYLOAD_LEN")
    case True
    with run refused show ?thesis by (auto split: if_splits)
  next
    case ok: False
    show ?thesis
    proof (cases "mem_service_request_exceeds_payload_limit (hdr_payload_len request) limits")
      case True
      with run ok show ?thesis by (intro counted) auto
    next
      case False
      with run ok refused handled show ?thesis by (auto split: option.splits prod.splits)
    qed
  qed
qed

lemma handle_client_inv:
  assumes inv: "server_inv s" and be: "writers_keep_identity (de_backends (rq_daemon renv))"
    and run: "mem_service_handle_client renv probe path limits now_ms header body s = (answer, s')"
  shows "server_inv s'"
  using run
proof (cases rule: handle_client_cases)
  case refused
  with inv show ?thesis by simp
next
  case (counted op)
  with inv records_wf_cong(1) [OF operation_metrics_frame(1,2)] idem_wf_cong(1) [OF operation_metrics_frame(3)]
  show ?thesis by (simp add: server_inv_def)
next
  case (handled op payload st resp)
  from handle_inv [OF inv be this] show ?thesis .
qed

lemma scrape_cases:
  assumes run: "mem_service_handle_metrics_http_client latency_ms received svc = (rc, answer, svc')"
  shows "svc' = svc \<or> (\<exists>st. svc' = mem_service_record_operation_metrics svc OP_METRICS st latency_ms)"
proof (cases received)
  case None
  with run show ?thesis by (simp add: mem_service_handle_metrics_http_client_def)
next
  case (Some bytes)
  let ?request = "takeWhile (\<lambda>c. c \<noteq> CHR 0x00) (cstr_of bytes)"
  show ?thesis
  proof (cases "mem_service_http_request_is_get_metrics ?request")
    case True
    from metrics_scrape [OF this] run Some show ?thesis by auto
  next
    case False
    with run Some show ?thesis by (auto simp: mem_service_handle_metrics_http_client_def Let_def split: if_splits)
  qed
qed

text \<open>C1. The daemon keeps its tables well-formed for as long as it runs. In every state reached from a
  start that succeeded, whatever the store and journal files held, by any sequence of client
  requests and metrics scrapes, with any faults of the file system, the record table and the
  idempotency table satisfy their invariants, and so does the service being staged by a paged
  restore.\<close>

theorem serving_invariant:
  assumes "writers_keep_identity backends" "serving backends store_path limits probe s"
  shows "server_inv s"
  using assms(2)
proof (induction rule: serving.induct)
  case (started senv providers fw w s)
  then show ?case by (simp add: start_inv)
next
  case (client s renv now_ms header body answer s')
  with assms(1) show ?case by (auto intro: handle_client_inv)
next
  case (scrape s latency_ms received rc answer svc')
  have same: "svc_records svc' = svc_records (srv_svc s) \<and> svc_record_count svc' = svc_record_count (srv_svc s) \<and>
    svc_idempotency_records svc' = svc_idempotency_records (srv_svc s)"
    using scrape_cases [OF scrape.hyps(2)] by (elim disjE exE) (simp_all add: operation_metrics_frame)
  have "records_wf svc' = records_wf (srv_svc s)" "idem_wf svc' = idem_wf (srv_svc s)"
    using same records_wf_cong(1) [of svc' "srv_svc s"] idem_wf_cong(1) [of svc' "srv_svc s"] by blast+
  with scrape.IH show ?case by (simp add: server_inv_def)
qed

section \<open>The catalog manifest\<close>

lemma manifest_text_version:
  "manifest_version (file_lines (manifest_text catalog_dir block_dir quarantine_dir store_path journal_path)) = Some 1"
proof -
  let ?l2 = "''layout=storage-root-v1''" and ?l3 = "''catalog_schema_version='' @ decimal 1"
  have contents: "\<exists>rest. manifest_text catalog_dir block_dir quarantine_dir store_path journal_path =
      MEM_SERVICE_DURABLE_CATALOG_MAGIC @ newline # (?l2 @ newline # (?l3 @ newline # rest))"
    by (simp add: manifest_text_def kv_def MEM_SERVICE_DURABLE_CATALOG_SCHEMA_VERSION_def)
  have clean: "clean MEM_SERVICE_DURABLE_CATALOG_MAGIC" "length MEM_SERVICE_DURABLE_CATALOG_MAGIC < 511"
    "clean ?l2" "length ?l2 < 511"
    by (simp_all add: clean_def MEM_SERVICE_DURABLE_CATALOG_MAGIC_def)
  have "clean ?l3" using clean_append [OF clean_decimal [of 1], of "''catalog_schema_version''"] by simp
  moreover have "length (decimal 1) \<le> 1" by (rule decimal_length) simp_all
  ultimately have l3: "clean ?l3" "length ?l3 < 511" by simp_all
  have "fst (mem_service_parse_schema_version_line MEM_SERVICE_DURABLE_CATALOG_MAGIC ''catalog_schema_version='' m) = 0"
    "fst (mem_service_parse_schema_version_line ?l2 ''catalog_schema_version='' m) = 0" for m
    by (simp_all add: mem_service_parse_schema_version_line_def MEM_SERVICE_DURABLE_CATALOG_MAGIC_def)
  moreover have "fst (mem_service_parse_schema_version_line ?l3 ''catalog_schema_version=''
      MEM_SERVICE_DURABLE_CATALOG_MAX_KNOWN_VERSION) = 1"
    using strtoul10_decimal [of 1]
    by (simp add: mem_service_parse_schema_version_line_def MEM_SERVICE_DURABLE_CATALOG_MAX_KNOWN_VERSION_def)
  ultimately show ?thesis
    using contents file_lines_line [OF clean(1)] file_lines_line [OF clean(3)] file_lines_line [OF l3(1)] clean(2,4) l3(2)
    by (elim exE) (simp only: manifest_version.simps Let_def, simp)
qed

lemma manifest_version_known: "manifest_version ls = Some rc \<Longrightarrow> rc = 1 \<or> rc = -1"
  by (induction ls) (auto simp: mem_service_parse_schema_version_line_def Let_def split: if_splits option.splits)

lemma write_manifest_okD:
  assumes "mem_service_write_durable_catalog_manifest env root path fw = (0, fw')" "root \<noteq> []"
  shows "path \<noteq> [] \<and> (\<exists>manifest_path c b q j.
    mem_service_make_catalog_path root MEM_SERVICE_DURABLE_CATALOG_MANIFEST 512 = Some manifest_path \<and>
    mem_service_join_path 512 root ''catalog'' = Some c \<and> mem_service_join_path 512 root ''blocks'' = Some b \<and>
    mem_service_join_path 512 root ''quarantine'' = Some q \<and> mem_service_make_journal_path path 512 = Some j \<and>
    fw_files fw' manifest_path = Some (bytes_of (manifest_text c b q path j)))"
  using assms
  by (auto simp: mem_service_write_durable_catalog_manifest_def fs_write_file_def fs_rename_def Let_def
      split: if_splits option.splits)

text \<open>C38. The catalog manifest gates the start. A daemon with a storage root comes up only when a
  readable manifest names no schema version or a known one; any other version makes the start
  fail. When it comes up, the manifest it leaves is complete, names the store, and is admitted by the
  next start whatever the environment.\<close>

theorem catalog_gates_start:
  assumes start: "mem_service_run_unix_daemon_with_runtime senv probe store_path limits providers fw w = Inr s"
    and root: "de_storage_root (se_daemon senv) = root" "root \<noteq> []"
  shows "\<exists>manifest_path c b q j.
    mem_service_make_catalog_path root MEM_SERVICE_DURABLE_CATALOG_MANIFEST 512 = Some manifest_path \<and>
    (\<forall>bytes rc. fs_open (se_admit_io senv) manifest_path fw = Some bytes \<longrightarrow>
       manifest_version (file_lines (cstr_of bytes)) = Some rc \<longrightarrow> rc = 1) \<and>
    mem_service_join_path 512 root ''catalog'' = Some c \<and> mem_service_join_path 512 root ''blocks'' = Some b \<and>
    mem_service_join_path 512 root ''quarantine'' = Some q \<and> mem_service_make_journal_path store_path 512 = Some j \<and>
    fw_files (srv_fw s) manifest_path = Some (bytes_of (manifest_text c b q store_path j)) \<and>
    (\<forall>io path. mem_service_admit_or_migrate_catalog_schema_version io root path (srv_fw s) = (0, srv_fw s))"
proof (rule start_steps [OF start])
  fix fw1 fw3
  assume admit: "mem_service_admit_or_migrate_catalog_schema_version (se_admit_io senv) (de_storage_root (se_daemon senv))
      store_path fw = (0, fw1)"
    and written: "mem_service_write_durable_catalog_manifest (se_manifest_io senv) (de_storage_root (se_daemon senv))
      store_path fw3 = (0, srv_fw s)"
  from write_manifest_okD [OF written [unfolded root(1)] root(2)] obtain p c b q j where
    p: "mem_service_make_catalog_path root MEM_SERVICE_DURABLE_CATALOG_MANIFEST 512 = Some p"
    and contents: "fw_files (srv_fw s) p = Some (bytes_of (manifest_text c b q store_path j))"
    and dirs: "mem_service_join_path 512 root ''catalog'' = Some c" "mem_service_join_path 512 root ''blocks'' = Some b"
      "mem_service_join_path 512 root ''quarantine'' = Some q" "mem_service_make_journal_path store_path 512 = Some j"
    by blast
  have "rc = 1" if "fs_open (se_admit_io senv) p fw = Some bytes" "manifest_version (file_lines (cstr_of bytes)) = Some rc"
    for bytes rc
  proof -
    have "\<not> rc < 0" using admit root p that
      by (auto simp: mem_service_admit_or_migrate_catalog_schema_version_def split: if_splits)
    moreover have "rc = 1 \<or> rc = -1" using manifest_version_known [OF that(2)] .
    ultimately show ?thesis by auto
  qed
  moreover have "mem_service_admit_or_migrate_catalog_schema_version io root path (srv_fw s) = (0, srv_fw s)" for io path
    using root(2) p contents manifest_text_version [of c b q store_path j]
    by (simp add: mem_service_admit_or_migrate_catalog_schema_version_def fs_open_def)
  ultimately show ?thesis using p contents dirs by blast
qed

section \<open>Restart\<close>

lemma compacted_journal_loads:
  assumes "mem_service_compact_journal_now io path fw = (0, fw')" "path \<noteq> []" "length path < 500"
    and "io_open_ok io' (path @ ''.journal'')"
  shows "mem_service_load_journal io' svc path fw' = Some svc"
proof -
  have j: "mem_service_make_journal_path path 512 = Some (path @ ''.journal'')"
    using assms(2,3) by (simp add: mem_service_make_journal_path_def Let_def)
  have "fw_files fw' (path @ ''.journal'') = Some (bytes_of (text_of [MEM_SERVICE_JOURNAL_MAGIC]))"
    using assms(1,2) j
    by (auto simp: mem_service_compact_journal_now_def mem_service_rewrite_journal_header_def fs_write_file_def
        fs_rename_def text_of_def Let_def split: if_splits prod.splits)
  moreover have "file_lines (text_of [MEM_SERVICE_JOURNAL_MAGIC]) = MEM_SERVICE_JOURNAL_MAGIC # file_lines []"
    using file_lines_magic [OF journal_magic_ok, of "[]" "[]"] by (simp add: text_of_def)
  ultimately show ?thesis
    using assms j by (simp add: mem_service_load_journal_def file_lines.simps)
qed

text \<open>C5. A restart recovers what was saved, for a service that the line format can carry: its tables and
  its audit log are well formed, no stored string contains a line end or ends in a carriage return, keys
  are not empty, kinds and operations are not 0, and the stored responses fit the loader's lines and
  buffer. After the store was saved and the journal compacted under a path of less than 500 characters, a
  daemon that starts on these files and can open both (without limits, storage root or providers) comes
  up. By key, it holds the saved records (without the backend reference when that is the in-memory pool,
  and without member hashes beyond the member count), the completed requests (a response without a final
  line end gains one), the retained audit events and, unless there are none, the next sequence
  number.\<close>

theorem restart_recovers:
  assumes "records_wf svc" "idem_wf svc" "audit_wf svc" "service_clean svc"
    and "mem_service_save_store io svc path fw = (0, fw1)" "mem_service_compact_journal_now io' path fw1 = (0, fw2)"
    and "path \<noteq> []" "length path < 500" "de_storage_root (se_daemon senv) = []"
    and "io_open_ok (se_load_io senv) path" "io_open_ok (se_load_io senv) (path @ ''.journal'')"
  shows "\<exists>s. mem_service_run_unix_daemon_with_runtime senv probe path None None fw2 w = Inr s \<and>
    reloads_as stored_record svc (srv_svc s)"
proof -
  have "fw_files fw1 path = Some (bytes_of (store_text svc))" using save_store_cases(1) [OF assms(5,7)] by simp
  then have "fw_files fw2 path = Some (bytes_of (store_text svc))"
    using compact_keeps_store(1) [OF assms(7), of io' fw1] assms(6) by simp
  from load_store_text [OF assms(1-4) this assms(10,7)] obtain svc' where
    load: "mem_service_load_store (se_load_io senv) initial_service path fw2 = Some (svc', False)"
    and same: "reloads_as stored_record svc svc'" by blast
  have "mem_service_load_durable_store (se_load_io senv) initial_service path fw2 = Some (svc', fw2)"
    using load compacted_journal_loads [OF assms(6-8,11)] by (simp add: mem_service_load_durable_store_def)
  with same show ?thesis
    using assms(9)
    by (simp add: mem_service_run_unix_daemon_with_runtime_def init_ready start_providers_def and_then_def
        mem_service_prepare_durable_catalog_layout_def mem_service_admit_or_migrate_catalog_schema_version_def
        start_retention_def mem_service_write_durable_catalog_manifest_def)
qed

section \<open>Witnesses\<close>

definition demo_startup :: "cstr \<Rightarrow> startup_env" where
  "demo_startup root = \<lparr> se_daemon = demo_env \<lparr> de_storage_root := root \<rparr>, se_dir_ok = (\<lambda>_. True),
     se_admit_io = healthy_env, se_load_io = healthy_env, se_save_io = healthy_env, se_manifest_io = healthy_env \<rparr>"

lemma demo_startup_sel [simp]:
  "de_storage_root (se_daemon (demo_startup root)) = root" "se_load_io (demo_startup root) = healthy_env"
  "se_admit_io (demo_startup root) = healthy_env" "se_manifest_io (demo_startup root) = healthy_env"
  "se_dir_ok (demo_startup root) p" "de_backends (se_daemon (demo_startup root)) = refusing_backends"
  by (simp_all add: demo_startup_def demo_env_def)

theorem serving_invariant_witness:
  "\<exists>s. serving refusing_backends [] None demo_probe s \<and> server_inv s"
proof -
  have "\<exists>s. mem_service_run_unix_daemon_with_runtime (demo_startup []) demo_probe [] None None empty_disk () = Inr s"
    by (simp add: mem_service_run_unix_daemon_with_runtime_def init_ready start_providers_def and_then_def
        mem_service_prepare_durable_catalog_layout_def mem_service_admit_or_migrate_catalog_schema_version_def
        start_retention_def mem_service_write_durable_catalog_manifest_def mem_service_load_durable_store_def
        mem_service_load_store_def mem_service_load_journal_def)
  then obtain s where "serving refusing_backends [] None demo_probe s"
    using serving.started [of "demo_startup []" demo_probe "[]" None None empty_disk "()"] by force
  with serving_invariant [OF refusing_keep_identity this] show ?thesis by blast
qed

lemma demo_paths:
  "mem_service_join_path 512 ''r'' ''catalog'' = Some ''r/catalog''"
  "mem_service_join_path 512 ''r'' ''blocks'' = Some ''r/blocks''"
  "mem_service_join_path 512 ''r'' ''quarantine'' = Some ''r/quarantine''"
  "mem_service_make_catalog_path ''r'' MEM_SERVICE_DURABLE_CATALOG_MANIFEST 512 = Some ''r/catalog/manifest.txt''"
  by (simp_all add: mem_service_join_path_def mem_service_make_catalog_path_def MEM_SERVICE_DURABLE_CATALOG_MANIFEST_def)

theorem catalog_gates_start_witness:
  "\<exists>s c b q j. mem_service_run_unix_daemon_with_runtime (demo_startup ''r'') demo_probe ''s'' None None empty_disk () = Inr s \<and>
     fw_files (srv_fw s) ''r/catalog/manifest.txt'' = Some (bytes_of (manifest_text c b q ''s'' j))"
proof -
  have "length (decimal 7) \<le> 1" by (rule decimal_length) simp_all
  then have "fst (mem_service_write_durable_catalog_manifest healthy_env ''r'' ''s'' empty_disk) = 0"
    by (simp add: mem_service_write_durable_catalog_manifest_def demo_paths sample_path fs_write_file_def fs_rename_def
        healthy_env_def Let_def)
  moreover have "mem_service_prepare_durable_catalog_layout (se_dir_ok (demo_startup ''r'')) ''r'' = 0"
    by (simp add: mem_service_prepare_durable_catalog_layout_def demo_paths mem_service_ensure_dir_def)
  moreover have "mem_service_admit_or_migrate_catalog_schema_version healthy_env ''r'' ''s'' empty_disk = (0, empty_disk)"
    by (simp add: mem_service_admit_or_migrate_catalog_schema_version_def demo_paths fs_open_def empty_disk_def)
  moreover have "mem_service_load_durable_store healthy_env initial_service ''s'' empty_disk = Some (initial_service, empty_disk)"
    by (simp add: mem_service_load_durable_store_def mem_service_load_store_def mem_service_load_journal_def sample_path
        empty_disk_def)
  ultimately obtain s where
    start: "mem_service_run_unix_daemon_with_runtime (demo_startup ''r'') demo_probe ''s'' None None empty_disk () = Inr s"
    by (cases "mem_service_write_durable_catalog_manifest healthy_env ''r'' ''s'' empty_disk")
       (auto simp: mem_service_run_unix_daemon_with_runtime_def init_ready start_providers_def and_then_def start_retention_def)
  from catalog_gates_start [OF start demo_startup_sel(1)] start show ?thesis by (auto simp: demo_paths)
qed

theorem restart_recovers_witness:
  "\<exists>fw1 fw2 s. mem_service_save_store healthy_env backed_service ''s'' empty_disk = (0, fw1) \<and>
     mem_service_compact_journal_now healthy_env ''s'' fw1 = (0, fw2) \<and>
     mem_service_run_unix_daemon_with_runtime (demo_startup []) demo_probe ''s'' None None fw2 () = Inr s \<and>
     record_map (srv_svc s) ''obj'' = Some (stored_record backed_object)"
proof -
  have len: "length (decimal 7) \<le> 1" by (rule decimal_length) simp_all
  then obtain fw1 where save: "mem_service_save_store healthy_env backed_service ''s'' empty_disk = (0, fw1)"
    by (auto simp: mem_service_save_store_def fs_write_file_def fs_rename_def healthy_env_def Let_def)
  moreover from len obtain fw2 where compact: "mem_service_compact_journal_now healthy_env ''s'' fw1 = (0, fw2)"
    by (auto simp: mem_service_compact_journal_now_def sample_path mem_service_rewrite_journal_header_def fs_write_file_def
        fs_rename_def healthy_env_def Let_def)
  moreover have "io_open_ok healthy_env p" for p by (simp add: healthy_env_def)
  ultimately show ?thesis
    using restart_recovers [OF backed_service_wf(1-4) save compact, of "demo_startup []" demo_probe "()"] backed_service_wf(6)
    by (auto simp: reloads_as_def)
qed

end
