(* ===== verification/Wire_Client.thy ===== *)
theory Wire_Client
  imports Responses Startup
begin

text \<open>
  The wire client (\<open>mem_service_wire_client.c\<close>): one exchange with the daemon, the checks of the
  answer, and the retries. The socket is an argument, a \<open>link\<close>: given a request it says how far the
  exchange went, and carries the state of the other side. \<open>daemon_link\<close> is the link to the modelled
  daemon over a connection that may fail before, during or after the request.
\<close>

section \<open>One exchange\<close>

definition MEM_SERVICE_DEFAULT_UNIX_SOCKET :: cstr where
  "MEM_SERVICE_DEFAULT_UNIX_SOCKET = ''/tmp/linqu_mem_service.sock''"

definition MEM_SERVICE_WIRE_CLIENT_DEFAULT_MAX_ATTEMPTS :: u32 where
  "MEM_SERVICE_WIRE_CLIENT_DEFAULT_MAX_ATTEMPTS = 1"

definition MEM_SERVICE_WIRE_CLIENT_MAX_ATTEMPTS :: u32 where
  "MEM_SERVICE_WIRE_CLIENT_MAX_ATTEMPTS = 8"

record mem_service_wire_client_options =
  opt_timeout_ms :: u64
  opt_max_attempts :: u32
  opt_retry_backoff_ms :: u64
  opt_retry_on_timeout :: u32

definition mem_service_wire_client_options_init :: mem_service_wire_client_options where
  "mem_service_wire_client_options_init =
     \<lparr> opt_timeout_ms = 0, opt_max_attempts = MEM_SERVICE_WIRE_CLIENT_DEFAULT_MAX_ATTEMPTS,
       opt_retry_backoff_ms = 0, opt_retry_on_timeout = 0 \<rparr>"

definition mem_service_client_effective_max_attempts :: "mem_service_wire_client_options option \<Rightarrow> u32" where
  "mem_service_client_effective_max_attempts options =
     (case options of
        None \<Rightarrow> MEM_SERVICE_WIRE_CLIENT_DEFAULT_MAX_ATTEMPTS
      | Some o1 \<Rightarrow>
          if opt_max_attempts o1 = 0 then MEM_SERVICE_WIRE_CLIENT_DEFAULT_MAX_ATTEMPTS
          else if opt_max_attempts o1 > MEM_SERVICE_WIRE_CLIENT_MAX_ATTEMPTS
          then MEM_SERVICE_WIRE_CLIENT_MAX_ATTEMPTS else opt_max_attempts o1)"

text \<open>A specification is \<open>None\<close> for NULL; so is a path.\<close>

definition mem_service_client_unix_path_from_spec :: "cstr option \<Rightarrow> cstr option" where
  "mem_service_client_unix_path_from_spec spec =
     (case spec of
        None \<Rightarrow> None
      | Some t \<Rightarrow>
          let path = (if take 5 t = ''unix:'' then drop 5 t else t)
          in if path = [] then None else Some path)"

definition mem_service_client_prepare_unix_addr :: "cstr option \<Rightarrow> bool" where
  "mem_service_client_prepare_unix_addr path =
     (case path of None \<Rightarrow> False | Some p \<Rightarrow> \<not> (length p = 0 \<or> length p \<ge> 108))"

text \<open>How far an exchange went: the flag of the failures is whether they are time-outs.\<close>

datatype exchange =
    Not_delivered bool
  | No_answer bool
  | Answer mem_service_wire_header "bool + u8 list"

type_synonym 'n link = "mem_service_wire_header \<Rightarrow> cstr \<Rightarrow> 'n \<Rightarrow> exchange \<times> 'n"

text \<open>Result code, status, what was copied to the caller's buffer (\<open>None\<close> when it is left alone),
  whether the request was delivered and whether it timed out.\<close>

type_synonym call_result = "int \<times> mem_service_wire_status \<times> cstr option \<times> bool \<times> bool"

abbreviation failed_call :: "bool \<Rightarrow> bool \<Rightarrow> call_result" where
  "failed_call delivered timed_out \<equiv>
     (1, if timed_out then STATUS_TIMEOUT else STATUS_INTERNAL, None, delivered, timed_out)"

definition mem_service_send_unix_request_once ::
  "'n link \<Rightarrow> cstr option \<Rightarrow> u64 \<Rightarrow> mem_service_wire_operation \<Rightarrow> cstr \<Rightarrow> nat \<Rightarrow> 'n \<Rightarrow> call_result \<times> 'n" where
  "mem_service_send_unix_request_once link connect_spec request_id operation payload_in payload_out_len n =
     (let payload_len = of_nat (length payload_in) :: u32;
          body = take (unat payload_len) payload_in;
          path = (case (mem_service_client_unix_path_from_spec connect_spec, connect_spec) of
                    (None, None) \<Rightarrow> Some MEM_SERVICE_DEFAULT_UNIX_SOCKET | (p, _) \<Rightarrow> p);
          request = mem_service_wire_init_header request_id operation payload_len
                      (mem_service_wire_checksum (bytes_of body))
      in if unat payload_len > MEM_SERVICE_WIRE_MAX_PAYLOAD_LEN
         then ((2, STATUS_CAPACITY_EXCEEDED, None, False, False), n)
         else if \<not> mem_service_client_prepare_unix_addr path
         then ((2, STATUS_INTERNAL, None, False, False), n)
         else case link request body n of (outcome, n') \<Rightarrow>
           ((case outcome of
               Not_delivered timed_out \<Rightarrow> failed_call False timed_out
             | No_answer timed_out \<Rightarrow> failed_call True timed_out
             | Answer response rest \<Rightarrow>
                 if \<not> mem_service_wire_header_is_compatible response \<or>
                    hdr_request_id response \<noteq> hdr_request_id request \<or>
                    hdr_operation response \<noteq> hdr_operation request \<or>
                    unat (hdr_payload_len response) > MEM_SERVICE_WIRE_MAX_PAYLOAD_LEN
                 then failed_call True False
                 else case (if hdr_payload_len response > 0 then rest else Inr []) of
                   Inl timed_out \<Rightarrow> failed_call True timed_out
                 | Inr payload \<Rightarrow>
                     if hdr_payload_len response > 0 \<and>
                        mem_service_wire_checksum payload \<noteq> hdr_payload_checksum response
                     then failed_call True False
                     else let status = wire_status_of_code (hdr_status response) in
                       (if status = STATUS_OK then 0 else 1, status,
                        if payload_out_len > 0 then Some (snprintf_s payload_out_len (cstr_of payload)) else None,
                        True, False)), n'))"

section \<open>Retries\<close>

definition mem_service_client_should_retry ::
  "mem_service_wire_client_options option \<Rightarrow> u32 \<Rightarrow> u32 \<Rightarrow> int \<Rightarrow> bool \<Rightarrow> bool \<Rightarrow> bool" where
  "mem_service_client_should_retry options attempt_index max_attempts rc request_delivered timed_out =
     (if rc = 0 \<or> attempt_index + 1 \<ge> max_attempts then False
      else if \<not> request_delivered then True
      else timed_out \<and> (case options of None \<Rightarrow> False | Some o1 \<Rightarrow> opt_retry_on_timeout o1 \<noteq> 0))"

lemma attempt_step: "(i :: u32) < m \<Longrightarrow> unat m - unat (i + 1) < unat m - unat i"
  using unsigned_less [where ?'a = nat, of m] by (simp add: word_less_nat_alt unat_word_ariths(1))

text \<open>The loop; \<open>ids\<close> are the request identifiers drawn from the clock.\<close>

function send_loop ::
  "'n link \<Rightarrow> cstr option \<Rightarrow> mem_service_wire_client_options option \<Rightarrow> (u32 \<Rightarrow> u64) \<Rightarrow> mem_service_wire_operation \<Rightarrow>
   cstr \<Rightarrow> nat \<Rightarrow> u32 \<Rightarrow> u32 \<Rightarrow> call_result \<Rightarrow> 'n \<Rightarrow> call_result \<times> 'n" where
  "send_loop link connect_spec options ids operation payload_in payload_out_len max_attempts attempt_index result n =
     (if attempt_index < max_attempts
      then case mem_service_send_unix_request_once link connect_spec (ids attempt_index) operation payload_in
                  payload_out_len n of
        ((rc, status, out, delivered, timed_out), n') \<Rightarrow>
          if \<not> mem_service_client_should_retry options attempt_index max_attempts rc delivered timed_out
          then ((rc, status, out, delivered, timed_out), n')
          else send_loop link connect_spec options ids operation payload_in payload_out_len max_attempts
                 (attempt_index + 1) (rc, status, out, delivered, timed_out) n'
      else (result, n))"
  by pat_completeness auto
termination
  by (relation "measure (\<lambda>(_, _, _, _, _, _, _, m, i, _). unat m - unat i)")
     (auto intro: attempt_step)

declare send_loop.simps [simp del]

definition mem_service_send_unix_request_with_options ::
  "'n link \<Rightarrow> cstr option \<Rightarrow> mem_service_wire_client_options option \<Rightarrow> (u32 \<Rightarrow> u64) \<Rightarrow> mem_service_wire_operation \<Rightarrow>
   cstr \<Rightarrow> nat \<Rightarrow> 'n \<Rightarrow> call_result \<times> 'n" where
  "mem_service_send_unix_request_with_options link connect_spec options ids operation payload_in payload_out_len n =
     send_loop link connect_spec options ids operation payload_in payload_out_len
       (mem_service_client_effective_max_attempts options) 0 (1, STATUS_INTERNAL, None, False, False) n"

definition mem_service_send_unix_request ::
  "'n link \<Rightarrow> cstr option \<Rightarrow> (u32 \<Rightarrow> u64) \<Rightarrow> mem_service_wire_operation \<Rightarrow> cstr \<Rightarrow> nat \<Rightarrow> 'n \<Rightarrow> call_result \<times> 'n" where
  "mem_service_send_unix_request link connect_spec ids operation payload_in payload_out_len n =
     mem_service_send_unix_request_with_options link connect_spec None ids operation payload_in payload_out_len n"

section \<open>The link to the daemon\<close>

text \<open>The fate of an exchange: the request is lost, it is handled but the answer does not arrive,
  the answer is cut off, or everything arrives. The state is the number of exchanges so far and the
  server; faults and clocks of the daemon are given per exchange.\<close>

datatype fate = Lost bool | Silent bool | Truncated bool | Through

definition daemon_link ::
  "(nat \<Rightarrow> request_env) \<Rightarrow> (nat \<Rightarrow> u64) \<Rightarrow> (nat \<Rightarrow> fate) \<Rightarrow> 'w probe \<Rightarrow> cstr \<Rightarrow> mem_service_daemon_limits option \<Rightarrow>
   (nat \<times> 'w server) link" where
  "daemon_link envs clock fates probe store_path limits request body n =
     (case n of (k, s) \<Rightarrow>
        case fates k of
          Lost timed_out \<Rightarrow> (Not_delivered timed_out, (k + 1, s))
        | fate \<Rightarrow>
            (case mem_service_handle_client (envs k) probe store_path limits (clock k) (Some request)
                    (Some (bytes_of body)) s of
               (answer, s') \<Rightarrow>
                 ((case answer of
                     None \<Rightarrow> No_answer False
                   | Some (response, text) \<Rightarrow>
                       (case fate of
                          Silent timed_out \<Rightarrow> No_answer timed_out
                        | Truncated timed_out \<Rightarrow> Answer response (Inl timed_out)
                        | _ \<Rightarrow> Answer response (Inr (bytes_of text)))),
                  (k + 1, s'))))"

text \<open>A call a client can make: an operation of the protocol and a payload that fits the wire and the
  limits of the daemon.\<close>

definition call_ok :: "mem_service_daemon_limits option \<Rightarrow> mem_service_wire_operation \<Rightarrow> cstr \<Rightarrow> bool" where
  "call_ok limits operation payload \<longleftrightarrow>
     operation \<in> set all_wire_operations \<and> CHR 0x00 \<notin> set payload \<and>
     length payload \<le> MEM_SERVICE_WIRE_MAX_PAYLOAD_LEN \<and>
     \<not> mem_service_request_exceeds_payload_limit (of_nat (length payload)) limits"

lemma of_nat_payload: "length payload \<le> MEM_SERVICE_WIRE_MAX_PAYLOAD_LEN \<Longrightarrow> unat (of_nat (length payload) :: u32) = length payload"
  by (simp add: MEM_SERVICE_WIRE_MAX_PAYLOAD_LEN_def unat_of_nat)

lemma all_operations_code: "op \<in> set all_wire_operations \<Longrightarrow> wire_operation_of_code (wire_operation_code op) = op"
  by (simp add: wire_operation_of_code_def find_inj_on [OF wire_operation_code_inj])

text \<open>The daemon runs exactly the operation and payload of the call.\<close>

lemma handle_call:
  assumes "call_ok limits op payload"
    and "mem_service_handle_operation_with_limits renv probe path limits op payload MEM_SERVICE_WIRE_MAX_PAYLOAD_LEN s =
      (st, resp, s')"
  shows "mem_service_handle_client renv probe path limits now_ms
      (Some (mem_service_wire_init_header request_id op (of_nat (length payload)) (mem_service_wire_checksum (bytes_of payload))))
      (Some (bytes_of payload)) s =
    (Some (mem_service_send_response now_ms
       (mem_service_wire_init_header request_id op (of_nat (length payload)) (mem_service_wire_checksum (bytes_of payload)))
       st (if resp \<noteq> [] then resp else mem_service_wire_status_name st)), s')"
proof -
  have len: "unat (of_nat (length payload) :: u32) = length payload" "length payload \<le> MEM_SERVICE_WIRE_MAX_PAYLOAD_LEN"
    and op: "wire_operation_of_code (wire_operation_code op) = op"
    using assms(1) by (auto simp: call_ok_def of_nat_payload all_operations_code)
  have nul: "takeWhile (\<lambda>c. c \<noteq> CHR 0x00) payload = payload"
    using assms(1) by (auto simp: call_ok_def)
  have "mem_service_read_payload (of_nat (length payload)) (mem_service_wire_checksum (bytes_of payload))
      (Some (bytes_of payload)) = Some (bytes_of payload)"
    using len by (cases payload) (auto simp: mem_service_read_payload_def bytes_of_def)
  with assms len op show ?thesis
    by (simp add: mem_service_handle_client_def mem_service_wire_header_is_compatible_def mem_service_wire_init_header_def
        call_ok_def nul)
qed

section \<open>What the client receives\<close>

definition good_spec :: "cstr option \<Rightarrow> bool" where
  "good_spec connect_spec \<longleftrightarrow>
     mem_service_client_prepare_unix_addr
       (case (mem_service_client_unix_path_from_spec connect_spec, connect_spec) of
          (None, None) \<Rightarrow> Some MEM_SERVICE_DEFAULT_UNIX_SOCKET | (p, _) \<Rightarrow> p)"

text \<open>The answer of the daemon passes the checks of the client.\<close>

lemma answer_accepted:
  assumes "length answer < MEM_SERVICE_WIRE_MAX_PAYLOAD_LEN" "wire_status_known st"
    and "mem_service_send_response now_ms request st answer = (response, text)"
    and "wire_operation_of_code (hdr_operation request) = op" "hdr_operation request = wire_operation_code op"
  shows "mem_service_wire_header_is_compatible response \<and> hdr_request_id response = hdr_request_id request \<and>
    hdr_operation response = hdr_operation request \<and> unat (hdr_payload_len response) = length answer \<and>
    mem_service_wire_checksum (bytes_of text) = hdr_payload_checksum response \<and>
    wire_status_of_code (hdr_status response) = st \<and> text = answer"
  using assms of_nat_payload [of answer]
  by (auto simp: mem_service_send_response_def mem_service_wire_init_header_def mem_service_wire_header_is_compatible_def)

lemma status_name_nonempty: "mem_service_wire_status_name st \<noteq> []" "length (mem_service_wire_status_name st) < MEM_SERVICE_WIRE_MAX_PAYLOAD_LEN"
  by (cases st; simp add: MEM_SERVICE_WIRE_MAX_PAYLOAD_LEN_def)+

lemma exchange_through:
  assumes call: "call_ok limits op payload" and spec: "good_spec connect_spec" and "fates k = Through"
    and run: "mem_service_handle_operation_with_limits (envs k) probe path limits op payload
      MEM_SERVICE_WIRE_MAX_PAYLOAD_LEN s = (st, resp, s')"
    and st: "wire_status_known st" and out: "0 < out_len"
  shows "mem_service_send_unix_request_once (daemon_link envs clock fates probe path limits) connect_spec request_id
      op payload out_len (k, s) =
    ((if st = STATUS_OK then 0 else 1, st,
      Some (snprintf_s out_len (if resp \<noteq> [] then resp else mem_service_wire_status_name st)), True, False), (k + 1, s'))"
proof -
  let ?request = "mem_service_wire_init_header request_id op (of_nat (length payload)) (mem_service_wire_checksum (bytes_of payload))"
  let ?answer = "if resp \<noteq> [] then resp else mem_service_wire_status_name st"
  have len: "unat (of_nat (length payload) :: u32) = length payload" "length payload \<le> MEM_SERVICE_WIRE_MAX_PAYLOAD_LEN"
    and op: "wire_operation_of_code (wire_operation_code op) = op"
    using call by (auto simp: call_ok_def of_nat_payload all_operations_code)
  obtain response reply where sent: "mem_service_send_response (clock k) ?request st ?answer = (response, reply)" by fastforce
  have fit: "length ?answer < MEM_SERVICE_WIRE_MAX_PAYLOAD_LEN"
    using handled_fits [OF _ run] status_name_nonempty(2) by (simp add: MEM_SERVICE_WIRE_MAX_PAYLOAD_LEN_def)
  have "hdr_operation ?request = wire_operation_code op" by (simp add: mem_service_wire_init_header_def)
  with answer_accepted [OF fit st sent] op
  have A: "mem_service_wire_header_is_compatible response" "hdr_request_id response = hdr_request_id ?request"
    "hdr_operation response = hdr_operation ?request" "unat (hdr_payload_len response) = length ?answer"
    "mem_service_wire_checksum (bytes_of reply) = hdr_payload_checksum response"
    "wire_status_of_code (hdr_status response) = st" "reply = ?answer"
    by auto
  have "?answer \<noteq> []" using status_name_nonempty(1) by simp
  then have "hdr_payload_len response > 0" using A(4) by (metis length_greater_0_conv unat_gt_0 word_gt_0)
  moreover have "daemon_link envs clock fates probe path limits ?request payload (k, s) =
      (Answer response (Inr (bytes_of ?answer)), (k + 1, s'))"
    using assms(3) handle_call [OF call run] sent A(7) by (simp add: daemon_link_def)
  ultimately show ?thesis
    using A fit len spec out
    by (simp add: mem_service_send_unix_request_once_def good_spec_def Let_def)
qed

text \<open>C6. The client receives what the daemon answered. When the exchange is not disturbed, the request
  of the client passes the checks of the daemon, the answer passes those of the client, and the call
  returns the status of the operation and its response, cut to the caller's buffer, with result 0
  exactly when the status is ok.\<close>

theorem client_receives_answer:
  assumes "call_ok limits op payload" "good_spec connect_spec" "fates k = Through"
    and "mem_service_handle_operation_with_limits (envs k) probe path limits op payload
      MEM_SERVICE_WIRE_MAX_PAYLOAD_LEN s = (st, resp, s')"
    and "wire_status_known st" "0 < out_len"
  shows "mem_service_send_unix_request (daemon_link envs clock fates probe path limits) connect_spec ids op payload out_len (k, s) =
    ((if st = STATUS_OK then 0 else 1, st,
      Some (snprintf_s out_len (if resp \<noteq> [] then resp else mem_service_wire_status_name st)), True, False), (k + 1, s'))"
  unfolding mem_service_send_unix_request_def mem_service_send_unix_request_with_options_def
  by (subst send_loop.simps)
     (simp add: exchange_through [where envs = envs and fates = fates and k = k, OF assms] mem_service_client_effective_max_attempts_def
       MEM_SERVICE_WIRE_CLIENT_DEFAULT_MAX_ATTEMPTS_def mem_service_client_should_retry_def)

section \<open>Retries execute a tracked request once\<close>

lemma send_loop_inv:
  assumes "\<And>n id res n'. P n \<Longrightarrow> mem_service_send_unix_request_once link spec id op payload out_len n = (res, n') \<Longrightarrow> P n' \<and> Q res n'"
    and "P n" "Q result n" "send_loop link spec options ids op payload out_len m i result n = (res', n')"
  shows "P n' \<and> Q res' n'"
  using assms
proof (induction link spec options ids op payload out_len m i result n rule: send_loop.induct)
  case (1 link spec options ids op payload out_len m i result n)
  obtain rc st out d t n1 where
    once: "mem_service_send_unix_request_once link spec (ids i) op payload out_len n = ((rc, st, out, d, t), n1)"
    by (metis prod.exhaust)
  note next_state = 1(2) [OF 1(3) once]
  show ?case
  proof (cases "i < m")
    case False
    with 1(3-5) show ?thesis by (simp add: send_loop.simps [of link])
  next
    case True
    note loop = 1(5) [unfolded send_loop.simps [of link spec options ids op payload out_len m i result n] once prod.case]
    show ?thesis
    proof (cases "mem_service_client_should_retry options i m rc d t")
      case False
      with loop True next_state show ?thesis by auto
    next
      case again: True
      have "send_loop link spec options ids op payload out_len m (i + 1) (rc, st, out, d, t) n1 = (res', n')"
        using loop True again by simp
      from 1(1) [OF True once [symmetric] refl refl refl refl _ 1(2) _ _ this] again next_state show ?thesis by simp
    qed
  qed
qed

lemma replayed_tables:
  assumes idem: "idem_wf (srv_svc s)" and replay: "replay_decision (completed_map (srv_svc s)) op payload = Replay r"
    and n: "0 < n" and run: "mem_service_handle_operation_with_limits renv probe path limits op payload n s = (st, resp, s')"
  shows "svc_records (srv_svc s') = svc_records (srv_svc s) \<and> svc_record_count (srv_svc s') = svc_record_count (srv_svc s) \<and>
    svc_idempotency_records (srv_svc s') = svc_idempotency_records (srv_svc s)"
proof (rule handle_tables [OF run])
  fix st0 resp0 pending handled svc0 st1 resp1 ck rc sd
  assume "mem_service_try_idempotency_replay (srv_svc s) op payload n = (st0, resp0, pending, handled, svc0)"
    and "(if handled then (st0, resp0, False, False, s \<lparr> srv_svc := svc0 \<rparr>)
      else run_request (rq_daemon renv) probe limits op payload n (s \<lparr> srv_svc := svc0 \<rparr>)) = (st1, resp1, ck, rc, sd)"
    and "svc_records (srv_svc s') = svc_records (srv_svc sd)" "svc_record_count (srv_svc s') = svc_record_count (srv_svc sd)"
      "svc_idempotency_records (srv_svc s') = svc_idempotency_records
         (mem_service_complete_idempotency_record pending op payload st resp (srv_svc sd))"
  with try_replay_answers [OF idem replay n] show ?thesis
    by (auto simp: mem_service_complete_idempotency_record_def bump_replays_def)
qed

definition is_lost :: "fate \<Rightarrow> bool" where
  "is_lost fate \<longleftrightarrow> (\<exists>t. fate = Lost t)"

text \<open>An exchange with the daemon either runs the request or leaves the server alone.\<close>

lemma exchange_effect:
  assumes call: "call_ok limits op payload" and spec: "good_spec connect_spec"
    and once: "mem_service_send_unix_request_once (daemon_link envs clock fates probe path limits) connect_spec request_id
      op payload out_len (k, s) = (res, n')"
  shows "is_lost (fates k) \<and> fst res = 1 \<and> n' = (k + 1, s) \<or>
    \<not> is_lost (fates k) \<and> (\<exists>st resp s'. n' = (k + 1, s') \<and>
      mem_service_handle_operation_with_limits (envs k) probe path limits op payload MEM_SERVICE_WIRE_MAX_PAYLOAD_LEN s = (st, resp, s'))"
proof -
  let ?request = "mem_service_wire_init_header request_id op (of_nat (length payload)) (mem_service_wire_checksum (bytes_of payload))"
  have len: "unat (of_nat (length payload) :: u32) = length payload" "length payload \<le> MEM_SERVICE_WIRE_MAX_PAYLOAD_LEN"
    using call by (auto simp: call_ok_def of_nat_payload)
  obtain outcome n1 where link: "daemon_link envs clock fates probe path limits ?request payload (k, s) = (outcome, n1)"
    by (meson surj_pair)
  have n': "n' = n1" and lost: "\<And>t. outcome = Not_delivered t \<Longrightarrow> fst res = 1"
    using once link len spec
    by (auto simp: mem_service_send_unix_request_once_def good_spec_def Let_def)
  obtain st resp s' where run: "mem_service_handle_operation_with_limits (envs k) probe path limits op payload
      MEM_SERVICE_WIRE_MAX_PAYLOAD_LEN s = (st, resp, s')" by (metis prod_cases3)
  show ?thesis
  proof (cases "fates k")
    case (Lost t)
    with link n' lost show ?thesis by (auto simp: daemon_link_def is_lost_def)
  qed (use link n' run handle_call [OF call run] in \<open>auto simp: daemon_link_def is_lost_def\<close>)
qed

text \<open>What the server holds after the request ran once, at exchange \<open>m\<close>.\<close>

definition ran_once ::
  "(nat \<Rightarrow> request_env) \<Rightarrow> (nat \<Rightarrow> fate) \<Rightarrow> 'w probe \<Rightarrow> cstr \<Rightarrow> mem_service_daemon_limits option \<Rightarrow>
   mem_service_wire_operation \<Rightarrow> cstr \<Rightarrow> nat \<Rightarrow> 'w server \<Rightarrow> nat \<times> 'w server \<Rightarrow> bool" where
  "ran_once envs fates probe path limits op payload k s n \<longleftrightarrow>
     (\<exists>m st resp s1. k \<le> m \<and> m < fst n \<and> (\<forall>j. k \<le> j \<and> j < m \<longrightarrow> is_lost (fates j)) \<and> \<not> is_lost (fates m) \<and>
        mem_service_handle_operation_with_limits (envs m) probe path limits op payload MEM_SERVICE_WIRE_MAX_PAYLOAD_LEN s =
          (st, resp, s1) \<and>
        svc_records (srv_svc (snd n)) = svc_records (srv_svc s1) \<and>
        svc_record_count (srv_svc (snd n)) = svc_record_count (srv_svc s1) \<and>
        svc_idempotency_records (srv_svc (snd n)) = svc_idempotency_records (srv_svc s1))"

definition never_ran :: "(nat \<Rightarrow> fate) \<Rightarrow> nat \<Rightarrow> 'w server \<Rightarrow> nat \<times> 'w server \<Rightarrow> bool" where
  "never_ran fates k s n \<longleftrightarrow> snd n = s \<and> (\<forall>j. k \<le> j \<and> j < fst n \<longrightarrow> is_lost (fates j))"

text \<open>C2. Retries are safe for requests with an idempotency key. A client calls the daemon with a new
  key, any retry options and any losses of requests and answers; the daemon may fail to persist
  at each attempt. At the end the record and idempotency tables of the daemon are those after a
  single execution of the request, at the first attempt that reached it, however many attempts
  reached it; or no attempt reached it and the server is unchanged, and then the call did not report
  success.\<close>

theorem retries_execute_once:
  assumes "server_inv s" "\<And>j. writers_keep_identity (de_backends (rq_daemon (envs j)))"
    and "call_ok limits op payload" "good_spec connect_spec"
    and tracked: "replay_decision (completed_map (srv_svc s)) op payload = Run_tracked key"
    and call: "mem_service_send_unix_request_with_options (daemon_link envs clock fates probe path limits) connect_spec options
      ids op payload out_len (k, s) = (res, n')"
  shows "ran_once envs fates probe path limits op payload k s n' \<or> never_ran fates k s n' \<and> fst res \<noteq> 0"
proof -
  let ?ran = "ran_once envs fates probe path limits op payload k s"
  define P where "P = (\<lambda>n. k \<le> fst n \<and> (?ran n \<or> never_ran fates k s n))"
  define Q where "Q = (\<lambda>res :: call_result. \<lambda>n. never_ran fates k s n \<and> \<not> ?ran n \<longrightarrow> fst res \<noteq> 0)"
  have mut: "mem_service_operation_mutates op payload"
    and key: "mem_service_payload_get_idempotency_key payload MEM_SERVICE_IDEMPOTENCY_KEY_LEN = Some key"
    using tracked by (auto simp: replay_decision_def split: if_splits option.splits)
  have step: "P n1 \<and> Q r n1"
    if P: "P n" and once: "mem_service_send_unix_request_once (daemon_link envs clock fates probe path limits) connect_spec id
      op payload out_len n = (r, n1)" for n id r n1
  proof -
    obtain j t where n: "n = (j, t)" by (cases n)
    consider (lost) "is_lost (fates j)" "fst r = 1" "n1 = (j + 1, t)"
      | (ran) st resp t' where "\<not> is_lost (fates j)" "n1 = (j + 1, t')"
        "mem_service_handle_operation_with_limits (envs j) probe path limits op payload MEM_SERVICE_WIRE_MAX_PAYLOAD_LEN t = (st, resp, t')"
      using exchange_effect [OF assms(3,4) once [unfolded n]] by blast
    then show ?thesis
    proof cases
      case lost
      with P n show ?thesis by (auto simp: P_def Q_def ran_once_def never_ran_def less_Suc_eq)
    next
      case ran
      have "?ran n1"
      proof (cases "never_ran fates k s n")
        case True
        with ran P n show ?thesis by (auto simp: P_def ran_once_def never_ran_def)
      next
        case False
        with P n have "?ran (j, t)" by (simp add: P_def)
        then obtain m st1 resp1 s1 where m: "k \<le> m" "m < j" "\<forall>i. k \<le> i \<and> i < m \<longrightarrow> is_lost (fates i)" "\<not> is_lost (fates m)"
          "mem_service_handle_operation_with_limits (envs m) probe path limits op payload MEM_SERVICE_WIRE_MAX_PAYLOAD_LEN s =
             (st1, resp1, s1)"
          "svc_records (srv_svc t) = svc_records (srv_svc s1)" "svc_record_count (srv_svc t) = svc_record_count (srv_svc s1)"
          "svc_idempotency_records (srv_svc t) = svc_idempotency_records (srv_svc s1)"
          by (auto simp: ran_once_def)
        have idem: "idem_wf (srv_svc t)"
          using handle_inv [OF assms(1,2) m(5)] idem_wf_cong(1) [OF m(8)] by (simp add: server_inv_def)
        have "completed_map (srv_svc t) key = Some (completed_request key op payload st1 resp1)"
          using tracked_answer [OF assms(1,2) tracked m(5)] idem_wf_cong(2) [OF m(8)] by simp
        then have "replay_decision (completed_map (srv_svc t)) op payload = Replay (completed_request key op payload st1 resp1)"
          using mut key by (simp add: replay_decision_def completed_request_def Let_def)
        from replayed_tables [OF idem this _ ran(3)] m ran(2) show ?thesis
          unfolding ran_once_def by (auto simp: MEM_SERVICE_WIRE_MAX_PAYLOAD_LEN_def intro!: exI [of _ m])
      qed
      with ran n P show ?thesis by (simp add: P_def Q_def)
    qed
  qed
  have "P (k, s)" "Q (1, STATUS_INTERNAL, None, False, False) (k, s)" by (auto simp: P_def Q_def never_ran_def)
  then have "P n' \<and> Q res n'"
    using call [unfolded mem_service_send_unix_request_with_options_def]
    by (rule send_loop_inv [where P = P and Q = Q, rotated]) (rule step)
  then show ?thesis by (auto simp: P_def Q_def)
qed

section \<open>Witnesses\<close>

lemma default_spec: "good_spec None"
  by (simp add: good_spec_def mem_service_client_unix_path_from_spec_def mem_service_client_prepare_unix_addr_def
      MEM_SERVICE_DEFAULT_UNIX_SOCKET_def)

lemma demo_calls:
  "call_ok None OP_HEALTH []" "call_ok None OP_RESTORE_SNAPSHOT_PAGE demo_tracked_commit"
  by (simp_all add: call_ok_def all_wire_operations_def mem_service_request_exceeds_payload_limit_def
      MEM_SERVICE_WIRE_MAX_PAYLOAD_LEN_def demo_tracked_commit_def kv_def)

theorem client_receives_answer_witness:
  "\<exists>s'. mem_service_send_unix_request (daemon_link (\<lambda>_. demo_request) (\<lambda>_. 9) (\<lambda>_. Through) demo_probe [] None) None (\<lambda>_. 5)
     OP_HEALTH [] 16 (0, demo_server) = ((0, STATUS_OK, Some ''ok'', True, False), (1, s'))"
proof -
  obtain s' where run: "mem_service_handle_operation_with_limits demo_request demo_probe [] None OP_HEALTH []
      MEM_SERVICE_WIRE_MAX_PAYLOAD_LEN demo_server = (STATUS_OK, ''ok'', s')"
    by (simp add: mem_service_handle_operation_with_limits_def mem_service_try_idempotency_replay_def run_request_def
        quota_exceeded_def mem_service_dispatch_operation_def mem_service_append_audit_event_def
        mem_service_should_audit_operation_def mem_service_operation_mutates_def mem_service_status_is_fail_closed_def
        mem_service_complete_idempotency_record_def MEM_SERVICE_WIRE_MAX_PAYLOAD_LEN_def Let_def)
  have st: "wire_status_known STATUS_OK" by simp
  from client_receives_answer [where envs = "\<lambda>_. demo_request" and fates = "\<lambda>_. Through" and k = 0,
      OF demo_calls(1) default_spec refl run st, of 16]
  show ?thesis by simp
qed

theorem retries_execute_once_witness:
  "\<exists>res n'. mem_service_send_unix_request_with_options
       (daemon_link (\<lambda>_. demo_request) (\<lambda>_. 9) (\<lambda>j. if j = 0 then Silent True else Through) demo_probe ''s'' None) None
       (Some \<lparr> opt_timeout_ms = 10, opt_max_attempts = 3, opt_retry_backoff_ms = 1, opt_retry_on_timeout = 1 \<rparr>) (\<lambda>_. 5)
       OP_RESTORE_SNAPSHOT_PAGE demo_tracked_commit 64 (0, staged_server) = (res, n') \<and>
     (ran_once (\<lambda>_. demo_request) (\<lambda>j. if j = 0 then Silent True else Through) demo_probe ''s'' None
        OP_RESTORE_SNAPSHOT_PAGE demo_tracked_commit 0 staged_server n' \<or>
      never_ran (\<lambda>j. if j = 0 then Silent True else Through) 0 staged_server n' \<and> fst res \<noteq> 0)"
proof -
  have tracked: "replay_decision (completed_map (srv_svc staged_server)) OP_RESTORE_SNAPSHOT_PAGE demo_tracked_commit =
      Run_tracked ''k1''"
    by (simp add: replay_decision_def demo_commit_mutates demo_commit_key idem_wf_initial(2)
        MEM_SERVICE_MAX_IDEMPOTENCY_RECORDS_def)
  show ?thesis
    using retries_execute_once [where envs = "\<lambda>_. demo_request" and fates = "\<lambda>j. if j = 0 then Silent True else Through",
      OF demo_server_inv(2) demo_request_keeps demo_calls(2) default_spec tracked]
    by (meson surj_pair)
qed

end
