(* ===== verification/Client_Api.thy ===== *)
theory Client_Api
  imports Wire_Client
begin

text \<open>
  The client library (\<open>mem_service_client.c\<close>): typed calls that build a request payload, send it
  with the wire client, and read the record in the answer. A string argument that is NULL is empty,
  as the library treats both alike; a field with a \<open>has_\<close> flag is an option. A call returns its result
  code, the status, and what was written to the caller's record, \<open>None\<close> when it is left alone.
\<close>

section \<open>Data\<close>

definition MEM_SERVICE_CLIENT_KEY_LEN :: nat where "MEM_SERVICE_CLIENT_KEY_LEN = 96"
definition MEM_SERVICE_CLIENT_ID_LEN :: nat where "MEM_SERVICE_CLIENT_ID_LEN = 64"
definition MEM_SERVICE_CLIENT_STATE_LEN :: nat where "MEM_SERVICE_CLIENT_STATE_LEN = 32"
definition MEM_SERVICE_CLIENT_TRAINING_STEP_COMMIT_KIND :: cstr where
  "MEM_SERVICE_CLIENT_TRAINING_STEP_COMMIT_KIND = ''training-step-commit''"

lemmas client_lens = MEM_SERVICE_CLIENT_KEY_LEN_def MEM_SERVICE_CLIENT_ID_LEN_def MEM_SERVICE_CLIENT_STATE_LEN_def

record mem_service_client =
  cl_connect_spec :: cstr
  cl_wire_options :: mem_service_wire_client_options

record mem_service_client_record =
  cr_key :: cstr
  cr_kind :: u32
  cr_request_id :: cstr
  cr_prefix_group :: cstr
  cr_group_id :: cstr
  cr_session_id :: cstr
  cr_model_key :: cstr
  cr_artifact_kind :: cstr
  cr_artifact_id :: cstr
  cr_block_hash :: cstr
  cr_placement_node :: u32
  cr_placement_level :: u32
  cr_hot_segment_id :: u64
  cr_state :: cstr
  cr_version :: u64
  cr_last_result_segment :: u64
  cr_object_owner_node :: u32
  cr_object_payload_kind :: u32
  cr_object_backing_offset :: u64
  cr_object_backing_len :: u64
  cr_object_payload_checksum :: u64
  cr_object_backend_kind :: u32
  cr_object_backend_node :: u32
  cr_object_backend_device_cna :: u32
  cr_object_backend_flags :: u32
  cr_object_backend_block_hi :: u64
  cr_object_backend_block_lo :: u64
  cr_object_backend_block_version :: u64
  cr_object_backend_block_offset :: u64
  cr_object_backend_block_bytes :: u64
  cr_object_backend_block_checksum :: u64

record mem_service_client_object =
  co_key :: cstr
  co_idempotency_key :: cstr
  co_owner :: "u32 option"
  co_payload_kind :: "u32 option"
  co_backing_offset :: "u64 option"
  co_backing_len :: "u64 option"
  co_checksum :: "u64 option"
  co_version :: "u64 option"
  co_backend_kind :: "u32 option"
  co_backend_node :: "u32 option"
  co_backend_device_cna :: "u32 option"
  co_backend_block_hi :: "u64 option"
  co_backend_block_lo :: "u64 option"
  co_backend_block_version :: "u64 option"
  co_backend_block_offset :: "u64 option"
  co_backend_block_bytes :: "u64 option"
  co_backend_block_checksum :: "u64 option"
  co_payload_inline :: cstr
  co_payload_path :: cstr

record mem_service_client_block_entry =
  ce_request_id :: cstr
  ce_prefix_group :: cstr
  ce_group_id :: cstr
  ce_block_hash :: cstr
  ce_idempotency_key :: cstr
  ce_placement_node :: "u32 option"
  ce_placement_level :: "u32 option"
  ce_hot_segment_id :: "u64 option"
  ce_state :: cstr
  ce_result_segment_id :: "u64 option"

record mem_service_client_kv_selector =
  cs_key :: cstr
  cs_block_hash :: cstr

record mem_service_client_artifact =
  ca_key :: cstr
  ca_idempotency_key :: cstr
  ca_session_id :: cstr
  ca_request_id :: cstr
  ca_model_key :: cstr
  ca_artifact_kind :: cstr
  ca_artifact_id :: cstr
  ca_owner :: "u32 option"
  ca_payload_kind :: "u32 option"
  ca_backing_offset :: "u64 option"
  ca_backing_len :: "u64 option"
  ca_checksum :: "u64 option"
  ca_version :: "u64 option"
  ca_payload_inline :: cstr
  ca_payload_path :: cstr

record mem_service_client_artifact_query =
  cq_key :: cstr
  cq_expected_session_id :: cstr
  cq_expected_model_key :: cstr
  cq_expected_artifact_kind :: cstr
  cq_expected_artifact_id :: cstr
  cq_expected_owner :: "u32 option"
  cq_expected_version :: "u64 option"
  cq_expected_checksum :: "u64 option"

record mem_service_client_training_ref =
  ct_key :: cstr
  ct_idempotency_key :: cstr
  ct_session_id :: cstr
  ct_request_id :: cstr
  ct_model_key :: cstr
  ct_artifact_id :: cstr
  ct_owner :: "u32 option"
  ct_payload_kind :: "u32 option"
  ct_backing_offset :: "u64 option"
  ct_backing_len :: "u64 option"
  ct_checksum :: "u64 option"
  ct_version :: "u64 option"
  ct_payload_inline :: cstr
  ct_payload_path :: cstr

record mem_service_client_training_ref_query =
  cu_key :: cstr
  cu_expected_session_id :: cstr
  cu_expected_model_key :: cstr
  cu_expected_artifact_id :: cstr
  cu_expected_owner :: "u32 option"
  cu_expected_version :: "u64 option"
  cu_expected_checksum :: "u64 option"

section \<open>Building a payload\<close>

definition mem_service_client_append_required_string :: "cstr \<Rightarrow> nat \<Rightarrow> cstr \<Rightarrow> cstr \<Rightarrow> int \<times> cstr" where
  "mem_service_client_append_required_string payload payload_len name text =
     (if text = [] then (-1, payload) else mem_service_wire_payload_append_field payload payload_len name text)"

definition mem_service_client_append_optional_string :: "cstr \<Rightarrow> nat \<Rightarrow> cstr \<Rightarrow> cstr \<Rightarrow> int \<times> cstr" where
  "mem_service_client_append_optional_string payload payload_len name text =
     (if text = [] then (0, payload) else mem_service_wire_payload_append_field payload payload_len name text)"

definition mem_service_client_append_optional_u32 :: "cstr \<Rightarrow> nat \<Rightarrow> cstr \<Rightarrow> u32 option \<Rightarrow> int \<times> cstr" where
  "mem_service_client_append_optional_u32 payload payload_len name x =
     (case x of None \<Rightarrow> (0, payload)
      | Some v \<Rightarrow> mem_service_wire_payload_append_u64 payload payload_len name (ucast v))"

definition mem_service_client_append_optional_u64 :: "cstr \<Rightarrow> nat \<Rightarrow> cstr \<Rightarrow> u64 option \<Rightarrow> int \<times> cstr" where
  "mem_service_client_append_optional_u64 payload payload_len name x =
     (case x of None \<Rightarrow> (0, payload)
      | Some v \<Rightarrow> mem_service_wire_payload_append_u64 payload payload_len name v)"

text \<open>The writers of a payload run in turn until one fails.\<close>

type_synonym writer = "cstr \<Rightarrow> nat \<Rightarrow> int \<times> cstr"

abbreviation required :: "cstr \<Rightarrow> cstr \<Rightarrow> writer" where
  "required name text \<equiv> (\<lambda>payload n. mem_service_client_append_required_string payload n name text)"
abbreviation optional :: "cstr \<Rightarrow> cstr \<Rightarrow> writer" where
  "optional name text \<equiv> (\<lambda>payload n. mem_service_client_append_optional_string payload n name text)"
abbreviation optional_u32 :: "cstr \<Rightarrow> u32 option \<Rightarrow> writer" where
  "optional_u32 name x \<equiv> (\<lambda>payload n. mem_service_client_append_optional_u32 payload n name x)"
abbreviation optional_u64 :: "cstr \<Rightarrow> u64 option \<Rightarrow> writer" where
  "optional_u64 name x \<equiv> (\<lambda>payload n. mem_service_client_append_optional_u64 payload n name x)"

fun append_all :: "writer list \<Rightarrow> writer" where
  "append_all [] payload n = (0, payload)"
| "append_all (w # ws) payload n =
     (case w payload n of (rc, payload') \<Rightarrow> if rc \<noteq> 0 then (-1, payload') else append_all ws payload' n)"

definition mem_service_client_append_object_payload :: "cstr \<Rightarrow> nat \<Rightarrow> mem_service_client_object \<Rightarrow> int \<times> cstr" where
  "mem_service_client_append_object_payload payload payload_len obj = append_all
     [required ''key'' (co_key obj),
      optional ''idempotency_key'' (co_idempotency_key obj),
      optional_u32 ''owner'' (co_owner obj),
      optional_u32 ''payload_kind'' (co_payload_kind obj),
      optional_u64 ''backing_offset'' (co_backing_offset obj),
      optional_u64 ''backing_len'' (co_backing_len obj),
      optional_u64 ''checksum'' (co_checksum obj),
      optional_u64 ''version'' (co_version obj),
      optional_u32 ''backend_kind'' (co_backend_kind obj),
      optional_u32 ''backend_node'' (co_backend_node obj),
      optional_u32 ''backend_device_cna'' (co_backend_device_cna obj),
      optional_u64 ''backend_block_hi'' (co_backend_block_hi obj),
      optional_u64 ''backend_block_lo'' (co_backend_block_lo obj),
      optional_u64 ''backend_block_version'' (co_backend_block_version obj),
      optional_u64 ''backend_block_offset'' (co_backend_block_offset obj),
      optional_u64 ''backend_block_bytes'' (co_backend_block_bytes obj),
      optional_u64 ''backend_block_checksum'' (co_backend_block_checksum obj),
      optional ''payload_inline'' (co_payload_inline obj),
      optional ''payload_path'' (co_payload_path obj)] payload payload_len"

definition mem_service_client_append_block_payload ::
    "cstr \<Rightarrow> nat \<Rightarrow> mem_service_client_block_entry \<Rightarrow> bool \<Rightarrow> int \<times> cstr" where
  "mem_service_client_append_block_payload payload payload_len entry require_result =
     (case append_all
        [required ''request_id'' (ce_request_id entry),
         required ''prefix_group'' (ce_prefix_group entry),
         required ''group_id'' (ce_group_id entry),
         required ''block_hash'' (ce_block_hash entry),
         optional ''idempotency_key'' (ce_idempotency_key entry),
         optional_u32 ''placement_node'' (ce_placement_node entry),
         optional_u32 ''placement_level'' (ce_placement_level entry),
         optional_u64 ''hot_segment_id'' (ce_hot_segment_id entry),
         optional ''state'' (ce_state entry)] payload payload_len of
        (rc, payload1) \<Rightarrow>
          if rc \<noteq> 0 then (-1, payload1)
          else if require_result \<and> (ce_result_segment_id entry = None \<or> ce_result_segment_id entry = Some 0)
          then (-1, payload1)
          else mem_service_client_append_optional_u64 payload1 payload_len ''result_segment_id''
                 (ce_result_segment_id entry))"

definition mem_service_client_append_artifact_payload :: "cstr \<Rightarrow> nat \<Rightarrow> mem_service_client_artifact \<Rightarrow> int \<times> cstr" where
  "mem_service_client_append_artifact_payload payload payload_len artifact = append_all
     [required ''key'' (ca_key artifact),
      optional ''idempotency_key'' (ca_idempotency_key artifact),
      optional ''session_id'' (ca_session_id artifact),
      optional ''request_id'' (ca_request_id artifact),
      optional ''model_key'' (ca_model_key artifact),
      optional ''artifact_kind'' (ca_artifact_kind artifact),
      optional ''artifact_id'' (ca_artifact_id artifact),
      optional_u32 ''owner'' (ca_owner artifact),
      optional_u32 ''payload_kind'' (ca_payload_kind artifact),
      optional_u64 ''backing_offset'' (ca_backing_offset artifact),
      optional_u64 ''backing_len'' (ca_backing_len artifact),
      optional_u64 ''checksum'' (ca_checksum artifact),
      optional_u64 ''version'' (ca_version artifact),
      optional ''payload_inline'' (ca_payload_inline artifact),
      optional ''payload_path'' (ca_payload_path artifact)] payload payload_len"

definition mem_service_client_append_artifact_query_payload :: "cstr \<Rightarrow> nat \<Rightarrow> mem_service_client_artifact_query \<Rightarrow> int \<times> cstr" where
  "mem_service_client_append_artifact_query_payload payload payload_len query = append_all
     [required ''key'' (cq_key query),
      optional ''expected_session_id'' (cq_expected_session_id query),
      optional ''expected_model_key'' (cq_expected_model_key query),
      optional ''expected_artifact_kind'' (cq_expected_artifact_kind query),
      optional ''expected_artifact_id'' (cq_expected_artifact_id query),
      optional_u32 ''expected_owner'' (cq_expected_owner query),
      optional_u64 ''expected_version'' (cq_expected_version query),
      optional_u64 ''expected_checksum'' (cq_expected_checksum query)] payload payload_len"

section \<open>Reading the record of an answer\<close>

definition mem_service_client_payload_copy :: "cstr \<Rightarrow> cstr \<Rightarrow> nat \<Rightarrow> cstr" where
  "mem_service_client_payload_copy view name out_len =
     (case mem_service_wire_payload_get_string view name out_len of None \<Rightarrow> [] | Some v \<Rightarrow> v)"

definition mem_service_client_parse_record :: "cstr \<Rightarrow> int \<times> mem_service_client_record option" where
  "mem_service_client_parse_record payload =
     (if payload = [] then (-1, None)
      else let copy = mem_service_client_payload_copy payload;
               num32 = (\<lambda>name. mem_service_wire_payload_get_u32 payload name 0);
               num64 = (\<lambda>name. mem_service_wire_payload_get_u64 payload name 0);
               r = \<lparr>cr_key = copy ''key'' MEM_SERVICE_CLIENT_KEY_LEN,
                    cr_kind = num32 ''kind'',
                    cr_request_id = copy ''request_id'' MEM_SERVICE_CLIENT_ID_LEN,
                    cr_prefix_group = copy ''prefix_group'' MEM_SERVICE_CLIENT_ID_LEN,
                    cr_group_id = copy ''group_id'' MEM_SERVICE_CLIENT_ID_LEN,
                    cr_session_id = copy ''session_id'' MEM_SERVICE_CLIENT_ID_LEN,
                    cr_model_key = copy ''model_key'' MEM_SERVICE_CLIENT_ID_LEN,
                    cr_artifact_kind = copy ''artifact_kind'' MEM_SERVICE_CLIENT_ID_LEN,
                    cr_artifact_id = copy ''artifact_id'' MEM_SERVICE_CLIENT_ID_LEN,
                    cr_block_hash = copy ''block_hash'' MEM_SERVICE_CLIENT_KEY_LEN,
                    cr_placement_node = num32 ''placement_node'',
                    cr_placement_level = num32 ''placement_level'',
                    cr_hot_segment_id = num64 ''hot_segment_id'',
                    cr_state = copy ''state'' MEM_SERVICE_CLIENT_STATE_LEN,
                    cr_version = num64 ''version'',
                    cr_last_result_segment = num64 ''last_result_segment'',
                    cr_object_owner_node = num32 ''object_owner_node'',
                    cr_object_payload_kind = num32 ''object_payload_kind'',
                    cr_object_backing_offset = num64 ''object_backing_offset'',
                    cr_object_backing_len = num64 ''object_backing_len'',
                    cr_object_payload_checksum = (if num64 ''object_payload_checksum'' = 0 then num64 ''checksum''
                                              else num64 ''object_payload_checksum''),
                    cr_object_backend_kind = num32 ''object_backend_kind'',
                    cr_object_backend_node = num32 ''object_backend_node'',
                    cr_object_backend_device_cna = num32 ''object_backend_device_cna'',
                    cr_object_backend_flags = num32 ''object_backend_flags'',
                    cr_object_backend_block_hi = num64 ''object_backend_block_hi'',
                    cr_object_backend_block_lo = num64 ''object_backend_block_lo'',
                    cr_object_backend_block_version = num64 ''object_backend_block_version'',
                    cr_object_backend_block_offset = num64 ''object_backend_block_offset'',
                    cr_object_backend_block_bytes = num64 ''object_backend_block_bytes'',
                    cr_object_backend_block_checksum = num64 ''object_backend_block_checksum''\<rparr>
           in (if cr_key r = [] then -1 else 0, Some r))"

section \<open>Sending\<close>

text \<open>A call depends on the link, the request identifiers and the client.\<close>

definition mem_service_client_connect_spec :: "mem_service_client \<Rightarrow> cstr option" where
  "mem_service_client_connect_spec client =
     (if cl_connect_spec client = [] then None else Some (cl_connect_spec client))"

definition mem_service_client_init_with_options ::
    "cstr \<Rightarrow> mem_service_wire_client_options option \<Rightarrow> mem_service_client" where
  "mem_service_client_init_with_options connect_spec options =
     \<lparr>cl_connect_spec = connect_spec,
      cl_wire_options = (case options of None \<Rightarrow> mem_service_wire_client_options_init | Some o1 \<Rightarrow> o1)\<rparr>"

definition mem_service_client_init :: "cstr \<Rightarrow> mem_service_client" where
  "mem_service_client_init connect_spec = mem_service_client_init_with_options connect_spec None"

type_synonym text_call = "int \<times> mem_service_wire_status \<times> cstr option"
type_synonym record_call = "int \<times> mem_service_wire_status \<times> mem_service_client_record option"

definition mem_service_client_invalid :: "int \<times> mem_service_wire_status \<times> 'a option" where
  "mem_service_client_invalid = (2, STATUS_INVALID_SESSION, None)"

definition mem_service_client_send ::
    "'n link \<Rightarrow> (u32 \<Rightarrow> u64) \<Rightarrow> mem_service_client \<Rightarrow> mem_service_wire_operation \<Rightarrow> cstr \<Rightarrow> nat \<Rightarrow> 'n \<Rightarrow> text_call \<times> 'n" where
  "mem_service_client_send link ids client operation payload response_len n =
     (case mem_service_send_unix_request_with_options link (mem_service_client_connect_spec client)
             (Some (cl_wire_options client)) ids operation payload response_len n of
        ((rc, status, response, _, _), n') \<Rightarrow> ((rc, status, response), n'))"

text \<open>The buffer for the answer is cleared before the exchange.\<close>

definition mem_service_client_send_record ::
    "'n link \<Rightarrow> (u32 \<Rightarrow> u64) \<Rightarrow> mem_service_client \<Rightarrow> mem_service_wire_operation \<Rightarrow> cstr \<Rightarrow> 'n \<Rightarrow> record_call \<times> 'n" where
  "mem_service_client_send_record link ids client operation payload n =
     (case mem_service_client_send link ids client operation payload MEM_SERVICE_WIRE_MAX_PAYLOAD_LEN n of
        ((rc, status, response), n') \<Rightarrow>
          ((if rc \<noteq> 0 then (rc, status, None)
            else case mem_service_client_parse_record (case response of None \<Rightarrow> [] | Some t \<Rightarrow> t) of
              (parsed, record_out) \<Rightarrow>
                if parsed \<noteq> 0 then (1, STATUS_INTERNAL, record_out) else (0, status, record_out)), n'))"

text \<open>A call that sends a built payload, or is refused when the payload cannot be built.\<close>

definition send_built ::
    "'n link \<Rightarrow> (u32 \<Rightarrow> u64) \<Rightarrow> mem_service_client \<Rightarrow> mem_service_wire_operation \<Rightarrow> int \<times> cstr \<Rightarrow> 'n \<Rightarrow> record_call \<times> 'n" where
  "send_built link ids client operation built n =
     (case built of (rc, payload) \<Rightarrow>
        if rc \<noteq> 0 then (mem_service_client_invalid, n)
        else mem_service_client_send_record link ids client operation payload n)"

section \<open>Service calls\<close>

definition mem_service_client_health ::
    "'n link \<Rightarrow> (u32 \<Rightarrow> u64) \<Rightarrow> mem_service_client \<Rightarrow> 'n \<Rightarrow> text_call \<times> 'n" where
  "mem_service_client_health link ids client n =
     mem_service_client_send link ids client OP_HEALTH [] 0 n"

definition mem_service_client_ready ::
    "'n link \<Rightarrow> (u32 \<Rightarrow> u64) \<Rightarrow> mem_service_client \<Rightarrow> 'n \<Rightarrow> text_call \<times> 'n" where
  "mem_service_client_ready link ids client n =
     mem_service_client_send link ids client OP_READY [] 0 n"

definition mem_service_client_status ::
    "'n link \<Rightarrow> (u32 \<Rightarrow> u64) \<Rightarrow> mem_service_client \<Rightarrow> nat \<Rightarrow> 'n \<Rightarrow> text_call \<times> 'n" where
  "mem_service_client_status link ids client payload_out_len n =
     mem_service_client_send link ids client OP_STATUS [] payload_out_len n"

definition mem_service_client_list_records ::
    "'n link \<Rightarrow> (u32 \<Rightarrow> u64) \<Rightarrow> mem_service_client \<Rightarrow> nat \<Rightarrow> 'n \<Rightarrow> text_call \<times> 'n" where
  "mem_service_client_list_records link ids client payload_out_len n =
     mem_service_client_send link ids client OP_LIST_RECORDS [] payload_out_len n"

definition mem_service_client_export_snapshot ::
    "'n link \<Rightarrow> (u32 \<Rightarrow> u64) \<Rightarrow> mem_service_client \<Rightarrow> nat \<Rightarrow> 'n \<Rightarrow> text_call \<times> 'n" where
  "mem_service_client_export_snapshot link ids client payload_out_len n =
     mem_service_client_send link ids client OP_EXPORT_SNAPSHOT [] payload_out_len n"

definition mem_service_client_export_snapshot_page ::
    "'n link \<Rightarrow> (u32 \<Rightarrow> u64) \<Rightarrow> mem_service_client \<Rightarrow> u64 \<Rightarrow> u64 \<Rightarrow> nat \<Rightarrow> 'n \<Rightarrow> text_call \<times> 'n" where
  "mem_service_client_export_snapshot_page link ids client start_index max_records payload_out_len n =
     (case append_all
        ((\<lambda>payload n. mem_service_wire_payload_append_u64 payload n ''start_index'' start_index) #
         (if max_records \<noteq> 0
          then [\<lambda>payload n. mem_service_wire_payload_append_u64 payload n ''max_records'' max_records] else [])) [] 160 of
        (rc, payload) \<Rightarrow>
          if rc \<noteq> 0 then (mem_service_client_invalid, n)
          else mem_service_client_send link ids client OP_EXPORT_SNAPSHOT_PAGE payload payload_out_len n)"

definition mem_service_client_restore_snapshot ::
    "'n link \<Rightarrow> (u32 \<Rightarrow> u64) \<Rightarrow> mem_service_client \<Rightarrow> cstr \<Rightarrow> nat \<Rightarrow> 'n \<Rightarrow> text_call \<times> 'n" where
  "mem_service_client_restore_snapshot link ids client snapshot_payload payload_out_len n =
     (if snapshot_payload = [] then (mem_service_client_invalid, n)
      else mem_service_client_send link ids client OP_RESTORE_SNAPSHOT snapshot_payload payload_out_len n)"

definition mem_service_client_restore_snapshot_page ::
    "'n link \<Rightarrow> (u32 \<Rightarrow> u64) \<Rightarrow> mem_service_client \<Rightarrow> cstr \<Rightarrow> nat \<Rightarrow> 'n \<Rightarrow> text_call \<times> 'n" where
  "mem_service_client_restore_snapshot_page link ids client page_payload payload_out_len n =
     (if page_payload = [] then (mem_service_client_invalid, n)
      else mem_service_client_send link ids client OP_RESTORE_SNAPSHOT_PAGE page_payload payload_out_len n)"

section \<open>Objects, prefixes and KV segments\<close>

definition mem_service_client_put_object ::
    "'n link \<Rightarrow> (u32 \<Rightarrow> u64) \<Rightarrow> mem_service_client \<Rightarrow> mem_service_client_object \<Rightarrow> 'n \<Rightarrow> record_call \<times> 'n" where
  "mem_service_client_put_object link ids client obj n =
     send_built link ids client OP_PUT_OBJECT
       (mem_service_client_append_object_payload [] 512 obj) n"

definition mem_service_client_get_object ::
    "'n link \<Rightarrow> (u32 \<Rightarrow> u64) \<Rightarrow> mem_service_client \<Rightarrow> cstr \<Rightarrow> 'n \<Rightarrow> record_call \<times> 'n" where
  "mem_service_client_get_object link ids client key n =
     send_built link ids client OP_GET_OBJECT
       (mem_service_client_append_required_string [] 160 ''key'' key) n"

definition mem_service_client_inspect_object ::
    "'n link \<Rightarrow> (u32 \<Rightarrow> u64) \<Rightarrow> mem_service_client \<Rightarrow> cstr \<Rightarrow> 'n \<Rightarrow> record_call \<times> 'n" where
  "mem_service_client_inspect_object link ids client key n =
     send_built link ids client OP_INSPECT_OBJECT
       (mem_service_client_append_required_string [] 160 ''key'' key) n"

definition mem_service_client_materialize_object ::
    "'n link \<Rightarrow> (u32 \<Rightarrow> u64) \<Rightarrow> mem_service_client \<Rightarrow> cstr \<Rightarrow> cstr \<Rightarrow> u64 option \<Rightarrow> u64 option \<Rightarrow> 'n \<Rightarrow> record_call \<times> 'n" where
  "mem_service_client_materialize_object link ids client key destination_path expected_version expected_checksum n =
     send_built link ids client OP_MATERIALIZE_OBJECT
       (append_all [required ''key'' key, required ''destination_path'' destination_path,
          optional_u64 ''expected_version'' expected_version,
          optional_u64 ''expected_checksum'' expected_checksum] [] 768) n"

definition mem_service_client_register_prefix_entry ::
    "'n link \<Rightarrow> (u32 \<Rightarrow> u64) \<Rightarrow> mem_service_client \<Rightarrow> mem_service_client_block_entry \<Rightarrow> 'n \<Rightarrow> record_call \<times> 'n" where
  "mem_service_client_register_prefix_entry link ids client entry n =
     send_built link ids client OP_REGISTER_PREFIX_ENTRY
       (mem_service_client_append_block_payload [] 768 entry True) n"

definition mem_service_client_lookup_prefix_entry ::
    "'n link \<Rightarrow> (u32 \<Rightarrow> u64) \<Rightarrow> mem_service_client \<Rightarrow> cstr \<Rightarrow> cstr \<Rightarrow> 'n \<Rightarrow> record_call \<times> 'n" where
  "mem_service_client_lookup_prefix_entry link ids client request_id prefix_group n =
     send_built link ids client OP_LOOKUP_PREFIX_ENTRY
       (append_all [required ''request_id'' request_id, required ''prefix_group'' prefix_group] [] 256) n"

definition mem_service_client_publish_kv_segment ::
    "'n link \<Rightarrow> (u32 \<Rightarrow> u64) \<Rightarrow> mem_service_client \<Rightarrow> mem_service_client_block_entry \<Rightarrow> 'n \<Rightarrow> record_call \<times> 'n" where
  "mem_service_client_publish_kv_segment link ids client entry n =
     send_built link ids client OP_PUBLISH_KV_SEGMENT
       (mem_service_client_append_block_payload [] 768 entry False) n"

definition mem_service_client_resolve_kv_segment ::
    "'n link \<Rightarrow> (u32 \<Rightarrow> u64) \<Rightarrow> mem_service_client \<Rightarrow> mem_service_client_kv_selector \<Rightarrow> 'n \<Rightarrow> record_call \<times> 'n" where
  "mem_service_client_resolve_kv_segment link ids client selector n =
     (case append_all [optional ''key'' (cs_key selector), optional ''block_hash'' (cs_block_hash selector)] [] 192 of
        (rc, payload) \<Rightarrow>
          if rc \<noteq> 0 \<or> payload = [] then (mem_service_client_invalid, n)
          else mem_service_client_send_record link ids client OP_RESOLVE_KV_SEGMENT payload n)"

section \<open>Artifacts\<close>

definition mem_service_client_publish_artifact ::
    "'n link \<Rightarrow> (u32 \<Rightarrow> u64) \<Rightarrow> mem_service_client \<Rightarrow> mem_service_wire_operation \<Rightarrow> mem_service_client_artifact \<Rightarrow> 'n \<Rightarrow> record_call \<times> 'n" where
  "mem_service_client_publish_artifact link ids client operation artifact n =
     send_built link ids client operation (mem_service_client_append_artifact_payload [] 1024 artifact) n"

definition mem_service_client_query_artifact ::
    "'n link \<Rightarrow> (u32 \<Rightarrow> u64) \<Rightarrow> mem_service_client \<Rightarrow> mem_service_wire_operation \<Rightarrow> mem_service_client_artifact_query \<Rightarrow> 'n \<Rightarrow> record_call \<times> 'n" where
  "mem_service_client_query_artifact link ids client operation query n =
     send_built link ids client operation (mem_service_client_append_artifact_query_payload [] 1024 query) n"

definition mem_service_client_publish_training_ref ::
    "'n link \<Rightarrow> (u32 \<Rightarrow> u64) \<Rightarrow> mem_service_client \<Rightarrow> cstr \<Rightarrow> mem_service_client_training_ref \<Rightarrow> 'n \<Rightarrow> record_call \<times> 'n" where
  "mem_service_client_publish_training_ref link ids client artifact_kind ref n =
     (if artifact_kind = [] then (mem_service_client_invalid, n)
      else mem_service_client_publish_artifact link ids client OP_REGISTER_TRAINING_ARTIFACT
        \<lparr>ca_key = ct_key ref,
         ca_idempotency_key = ct_idempotency_key ref,
         ca_session_id = ct_session_id ref,
         ca_request_id = ct_request_id ref,
         ca_model_key = ct_model_key ref,
         ca_artifact_kind = artifact_kind,
         ca_artifact_id = ct_artifact_id ref,
         ca_owner = ct_owner ref,
         ca_payload_kind = ct_payload_kind ref,
         ca_backing_offset = ct_backing_offset ref,
         ca_backing_len = ct_backing_len ref,
         ca_checksum = ct_checksum ref,
         ca_version = ct_version ref,
         ca_payload_inline = ct_payload_inline ref,
         ca_payload_path = ct_payload_path ref\<rparr> n)"

definition mem_service_client_resolve_training_ref ::
    "'n link \<Rightarrow> (u32 \<Rightarrow> u64) \<Rightarrow> mem_service_client \<Rightarrow> cstr \<Rightarrow> mem_service_client_training_ref_query \<Rightarrow> 'n \<Rightarrow> record_call \<times> 'n" where
  "mem_service_client_resolve_training_ref link ids client artifact_kind query n =
     (if artifact_kind = [] then (mem_service_client_invalid, n)
      else mem_service_client_query_artifact link ids client OP_QUERY_TRAINING_ARTIFACT
        \<lparr>cq_key = cu_key query,
         cq_expected_session_id = cu_expected_session_id query,
         cq_expected_model_key = cu_expected_model_key query,
         cq_expected_artifact_kind = artifact_kind,
         cq_expected_artifact_id = cu_expected_artifact_id query,
         cq_expected_owner = cu_expected_owner query,
         cq_expected_version = cu_expected_version query,
         cq_expected_checksum = cu_expected_checksum query\<rparr> n)"

definition mem_service_client_publish_runtime_handoff ::
    "'n link \<Rightarrow> (u32 \<Rightarrow> u64) \<Rightarrow> mem_service_client \<Rightarrow> mem_service_client_artifact \<Rightarrow> 'n \<Rightarrow> record_call \<times> 'n" where
  "mem_service_client_publish_runtime_handoff link ids client artifact n =
     mem_service_client_publish_artifact link ids client OP_PUBLISH_RUNTIME_HANDOFF artifact n"

definition mem_service_client_resolve_runtime_handoff ::
    "'n link \<Rightarrow> (u32 \<Rightarrow> u64) \<Rightarrow> mem_service_client \<Rightarrow> mem_service_client_artifact_query \<Rightarrow> 'n \<Rightarrow> record_call \<times> 'n" where
  "mem_service_client_resolve_runtime_handoff link ids client query n =
     mem_service_client_query_artifact link ids client OP_RESOLVE_RUNTIME_HANDOFF query n"

definition mem_service_client_register_execution_artifact ::
    "'n link \<Rightarrow> (u32 \<Rightarrow> u64) \<Rightarrow> mem_service_client \<Rightarrow> mem_service_client_artifact \<Rightarrow> 'n \<Rightarrow> record_call \<times> 'n" where
  "mem_service_client_register_execution_artifact link ids client artifact n =
     mem_service_client_publish_artifact link ids client OP_REGISTER_EXECUTION_ARTIFACT artifact n"

definition mem_service_client_query_execution_artifact ::
    "'n link \<Rightarrow> (u32 \<Rightarrow> u64) \<Rightarrow> mem_service_client \<Rightarrow> mem_service_client_artifact_query \<Rightarrow> 'n \<Rightarrow> record_call \<times> 'n" where
  "mem_service_client_query_execution_artifact link ids client query n =
     mem_service_client_query_artifact link ids client OP_QUERY_EXECUTION_ARTIFACT query n"

definition mem_service_client_register_training_artifact ::
    "'n link \<Rightarrow> (u32 \<Rightarrow> u64) \<Rightarrow> mem_service_client \<Rightarrow> mem_service_client_artifact \<Rightarrow> 'n \<Rightarrow> record_call \<times> 'n" where
  "mem_service_client_register_training_artifact link ids client artifact n =
     mem_service_client_publish_artifact link ids client OP_REGISTER_TRAINING_ARTIFACT artifact n"

definition mem_service_client_query_training_artifact ::
    "'n link \<Rightarrow> (u32 \<Rightarrow> u64) \<Rightarrow> mem_service_client \<Rightarrow> mem_service_client_artifact_query \<Rightarrow> 'n \<Rightarrow> record_call \<times> 'n" where
  "mem_service_client_query_training_artifact link ids client query n =
     mem_service_client_query_artifact link ids client OP_QUERY_TRAINING_ARTIFACT query n"

definition mem_service_client_publish_dataset_shard ::
    "'n link \<Rightarrow> (u32 \<Rightarrow> u64) \<Rightarrow> mem_service_client \<Rightarrow> mem_service_client_training_ref \<Rightarrow> 'n \<Rightarrow> record_call \<times> 'n" where
  "mem_service_client_publish_dataset_shard link ids client ref n =
     mem_service_client_publish_training_ref link ids client ''dataset-shard'' ref n"

definition mem_service_client_resolve_dataset_shard ::
    "'n link \<Rightarrow> (u32 \<Rightarrow> u64) \<Rightarrow> mem_service_client \<Rightarrow> mem_service_client_training_ref_query \<Rightarrow> 'n \<Rightarrow> record_call \<times> 'n" where
  "mem_service_client_resolve_dataset_shard link ids client query n =
     mem_service_client_resolve_training_ref link ids client ''dataset-shard'' query n"

definition mem_service_client_publish_sample_batch ::
    "'n link \<Rightarrow> (u32 \<Rightarrow> u64) \<Rightarrow> mem_service_client \<Rightarrow> mem_service_client_training_ref \<Rightarrow> 'n \<Rightarrow> record_call \<times> 'n" where
  "mem_service_client_publish_sample_batch link ids client ref n =
     mem_service_client_publish_training_ref link ids client ''sample-batch'' ref n"

definition mem_service_client_resolve_sample_batch ::
    "'n link \<Rightarrow> (u32 \<Rightarrow> u64) \<Rightarrow> mem_service_client \<Rightarrow> mem_service_client_training_ref_query \<Rightarrow> 'n \<Rightarrow> record_call \<times> 'n" where
  "mem_service_client_resolve_sample_batch link ids client query n =
     mem_service_client_resolve_training_ref link ids client ''sample-batch'' query n"

definition mem_service_client_publish_checkpoint ::
    "'n link \<Rightarrow> (u32 \<Rightarrow> u64) \<Rightarrow> mem_service_client \<Rightarrow> mem_service_client_training_ref \<Rightarrow> 'n \<Rightarrow> record_call \<times> 'n" where
  "mem_service_client_publish_checkpoint link ids client ref n =
     mem_service_client_publish_training_ref link ids client ''checkpoint'' ref n"

definition mem_service_client_resolve_checkpoint ::
    "'n link \<Rightarrow> (u32 \<Rightarrow> u64) \<Rightarrow> mem_service_client \<Rightarrow> mem_service_client_training_ref_query \<Rightarrow> 'n \<Rightarrow> record_call \<times> 'n" where
  "mem_service_client_resolve_checkpoint link ids client query n =
     mem_service_client_resolve_training_ref link ids client ''checkpoint'' query n"

definition mem_service_client_publish_gradient_bucket ::
    "'n link \<Rightarrow> (u32 \<Rightarrow> u64) \<Rightarrow> mem_service_client \<Rightarrow> mem_service_client_training_ref \<Rightarrow> 'n \<Rightarrow> record_call \<times> 'n" where
  "mem_service_client_publish_gradient_bucket link ids client ref n =
     mem_service_client_publish_training_ref link ids client ''gradient-bucket'' ref n"

definition mem_service_client_resolve_gradient_bucket ::
    "'n link \<Rightarrow> (u32 \<Rightarrow> u64) \<Rightarrow> mem_service_client \<Rightarrow> mem_service_client_training_ref_query \<Rightarrow> 'n \<Rightarrow> record_call \<times> 'n" where
  "mem_service_client_resolve_gradient_bucket link ids client query n =
     mem_service_client_resolve_training_ref link ids client ''gradient-bucket'' query n"

definition mem_service_client_publish_optimizer_state ::
    "'n link \<Rightarrow> (u32 \<Rightarrow> u64) \<Rightarrow> mem_service_client \<Rightarrow> mem_service_client_training_ref \<Rightarrow> 'n \<Rightarrow> record_call \<times> 'n" where
  "mem_service_client_publish_optimizer_state link ids client ref n =
     mem_service_client_publish_training_ref link ids client ''optimizer-state'' ref n"

definition mem_service_client_resolve_optimizer_state ::
    "'n link \<Rightarrow> (u32 \<Rightarrow> u64) \<Rightarrow> mem_service_client \<Rightarrow> mem_service_client_training_ref_query \<Rightarrow> 'n \<Rightarrow> record_call \<times> 'n" where
  "mem_service_client_resolve_optimizer_state link ids client query n =
     mem_service_client_resolve_training_ref link ids client ''optimizer-state'' query n"

definition mem_service_client_commit_training_step ::
    "'n link \<Rightarrow> (u32 \<Rightarrow> u64) \<Rightarrow> mem_service_client \<Rightarrow> mem_service_client_training_ref \<Rightarrow> 'n \<Rightarrow> record_call \<times> 'n" where
  "mem_service_client_commit_training_step link ids client ref n =
     mem_service_client_publish_training_ref link ids client MEM_SERVICE_CLIENT_TRAINING_STEP_COMMIT_KIND ref n"

definition mem_service_client_resolve_training_step ::
    "'n link \<Rightarrow> (u32 \<Rightarrow> u64) \<Rightarrow> mem_service_client \<Rightarrow> mem_service_client_training_ref_query \<Rightarrow> 'n \<Rightarrow> record_call \<times> 'n" where
  "mem_service_client_resolve_training_step link ids client query n =
     mem_service_client_resolve_training_ref link ids client MEM_SERVICE_CLIENT_TRAINING_STEP_COMMIT_KIND query n"

end
