(* ===== verification/Block_Layouts.thy ===== *)
theory Block_Layouts
  imports Startup
begin

text \<open>
  The layouts of payload blocks with several files (\<open>mem_service_daemon.c\<close>): the chunked block, a
  directory of numbered chunks with a manifest, and the two transport blocks, a directory with one
  payload file and a manifest, filled from a local file or from a TCP peer. Together they are a value
  of \<open>block_backends\<close>, the argument the block store and everything above it take.

  Arguments of the model are, beside the fault plan of \<open>Block_Store\<close>, the answers of \<open>mkdir\<close>
  (\<open>dir_ok\<close>) and \<open>rmdir\<close>, and what a TCP peer does. A directory is the prefix of the paths below
  it; renaming one moves the files below it. A read error inside a file is reported after its contents
  have been read.
\<close>

section \<open>Names\<close>

definition MEM_SERVICE_TCP_SPEC_PREFIX :: cstr where "MEM_SERVICE_TCP_SPEC_PREFIX = ''tcp:''"
definition MEM_SERVICE_CHUNKED_BLOCK_SIZE :: nat where "MEM_SERVICE_CHUNKED_BLOCK_SIZE = 1024"
definition MEM_SERVICE_CHUNKED_BLOCK_DIR_SUFFIX :: cstr where
  "MEM_SERVICE_CHUNKED_BLOCK_DIR_SUFFIX = ''.chunked''"
definition MEM_SERVICE_CHUNKED_BLOCK_MANIFEST :: cstr where
  "MEM_SERVICE_CHUNKED_BLOCK_MANIFEST = ''manifest.txt''"
definition MEM_SERVICE_TRANSPORT_BLOCK_DIR_SUFFIX :: cstr where
  "MEM_SERVICE_TRANSPORT_BLOCK_DIR_SUFFIX = ''.transport''"
definition MEM_SERVICE_TRANSPORT_TCP_BLOCK_DIR_SUFFIX :: cstr where
  "MEM_SERVICE_TRANSPORT_TCP_BLOCK_DIR_SUFFIX = ''.tcp''"
definition MEM_SERVICE_TRANSPORT_BLOCK_PAYLOAD :: cstr where
  "MEM_SERVICE_TRANSPORT_BLOCK_PAYLOAD = ''payload.block''"
definition MEM_SERVICE_TRANSPORT_BLOCK_MANIFEST :: cstr where
  "MEM_SERVICE_TRANSPORT_BLOCK_MANIFEST = ''manifest.txt''"

lemmas layout_names = MEM_SERVICE_CHUNKED_BLOCK_DIR_SUFFIX_def MEM_SERVICE_CHUNKED_BLOCK_MANIFEST_def
  MEM_SERVICE_TRANSPORT_BLOCK_DIR_SUFFIX_def MEM_SERVICE_TRANSPORT_TCP_BLOCK_DIR_SUFFIX_def
  MEM_SERVICE_TRANSPORT_BLOCK_PAYLOAD_def MEM_SERVICE_TRANSPORT_BLOCK_MANIFEST_def

definition mem_service_make_chunked_block_dir_path :: "cstr \<Rightarrow> u64 \<Rightarrow> nat \<Rightarrow> cstr option" where
  "mem_service_make_chunked_block_dir_path storage_root checksum path_len =
     (case mem_service_join_path 512 storage_root ''blocks'' of
        None \<Rightarrow> None
      | Some block_dir \<Rightarrow>
          let dir_name = hex16 checksum @ MEM_SERVICE_CHUNKED_BLOCK_DIR_SUFFIX in
          if length dir_name \<ge> 64 then None else mem_service_join_path path_len block_dir dir_name)"

text \<open>\<open>%04u\<close>.\<close>

definition decimal4 :: "nat \<Rightarrow> cstr" where
  "decimal4 n = replicate (4 - length (decimal n)) CHR ''0'' @ decimal n"

definition mem_service_make_chunked_block_chunk_path :: "cstr \<Rightarrow> u32 \<Rightarrow> nat \<Rightarrow> cstr option" where
  "mem_service_make_chunked_block_chunk_path dir_path index path_len =
     (let chunk_name = decimal4 (unat index) @ ''.chunk'' in
      if length chunk_name \<ge> 32 then None else mem_service_join_path path_len dir_path chunk_name)"

definition mem_service_make_transport_block_dir_path :: "cstr \<Rightarrow> u64 \<Rightarrow> nat \<Rightarrow> cstr option" where
  "mem_service_make_transport_block_dir_path storage_root checksum path_len =
     mem_service_make_remote_dir_path storage_root checksum MEM_SERVICE_TRANSPORT_BLOCK_DIR_SUFFIX path_len"

definition mem_service_make_transport_tcp_block_dir_path :: "cstr \<Rightarrow> u64 \<Rightarrow> nat \<Rightarrow> cstr option" where
  "mem_service_make_transport_tcp_block_dir_path storage_root checksum path_len =
     mem_service_make_remote_dir_path storage_root checksum MEM_SERVICE_TRANSPORT_TCP_BLOCK_DIR_SUFFIX path_len"

section \<open>Quarantine\<close>

text \<open>\<open>rename\<close> of a directory. The fault plan answers for the target: it also stands for a quarantine
  directory that could not be created just before, and for a target directory that is not empty, which
  \<open>rename\<close> refuses.\<close>

definition below :: "cstr \<Rightarrow> cstr \<Rightarrow> bool" where
  "below dir path \<longleftrightarrow> take (length dir + 1) path = dir @ ''/''"

definition fs_rename_dir :: "io_env \<Rightarrow> cstr \<Rightarrow> cstr \<Rightarrow> file_world \<Rightarrow> file_world" where
  "fs_rename_dir env from_dir to_dir fw =
     (if \<not> io_rename_ok env to_dir then fw
      else fw\<lparr>fw_files := (\<lambda>p.
        if below to_dir p \<and> fw_files fw (from_dir @ drop (length to_dir) p) \<noteq> None
        then fw_files fw (from_dir @ drop (length to_dir) p)
        else if below from_dir p then None else fw_files fw p)\<rparr>)"

definition quarantine_block_dir ::
    "io_env \<Rightarrow> cstr \<Rightarrow> cstr option \<Rightarrow> cstr \<Rightarrow> u64 \<Rightarrow> file_world \<Rightarrow> file_world" where
  "quarantine_block_dir env storage_root dir_path suffix checksum fw =
     (if storage_root = [] then fw
      else case (dir_path, mem_service_join_path 512 storage_root ''quarantine'') of
        (Some dir_path, Some quarantine_dir) \<Rightarrow>
          let quarantine_name = hex16 checksum @ suffix @ ''.bad.'' @ decimal (io_pid env) in
          if length quarantine_name \<ge> 80 then fw
          else (case mem_service_join_path 512 quarantine_dir quarantine_name of
                  None \<Rightarrow> fw
                | Some quarantine_path \<Rightarrow> fs_rename_dir env dir_path quarantine_path fw)
      | _ \<Rightarrow> fw)"

definition mem_service_quarantine_chunked_payload_block ::
    "io_env \<Rightarrow> cstr \<Rightarrow> u64 \<Rightarrow> file_world \<Rightarrow> file_world" where
  "mem_service_quarantine_chunked_payload_block env storage_root checksum fw =
     quarantine_block_dir env storage_root
       (mem_service_make_chunked_block_dir_path storage_root checksum 512)
       MEM_SERVICE_CHUNKED_BLOCK_DIR_SUFFIX checksum fw"

definition mem_service_quarantine_transport_payload_block ::
    "io_env \<Rightarrow> cstr \<Rightarrow> u64 \<Rightarrow> file_world \<Rightarrow> file_world" where
  "mem_service_quarantine_transport_payload_block env storage_root checksum fw =
     quarantine_block_dir env storage_root
       (mem_service_make_transport_block_dir_path storage_root checksum 512)
       MEM_SERVICE_TRANSPORT_BLOCK_DIR_SUFFIX checksum fw"

definition mem_service_quarantine_transport_tcp_payload_block ::
    "io_env \<Rightarrow> cstr \<Rightarrow> u64 \<Rightarrow> file_world \<Rightarrow> file_world" where
  "mem_service_quarantine_transport_tcp_payload_block env storage_root checksum fw =
     quarantine_block_dir env storage_root
       (mem_service_make_transport_tcp_block_dir_path storage_root checksum 512)
       MEM_SERVICE_TRANSPORT_TCP_BLOCK_DIR_SUFFIX checksum fw"

section \<open>Removal\<close>

text \<open>\<open>rmdir\<close> answers \<open>1\<close> when it removes the directory, \<open>0\<close> for \<open>ENOENT\<close>, \<open>-1\<close> for other errors.\<close>

definition finish_removal :: "(cstr \<Rightarrow> file_world \<Rightarrow> int) \<Rightarrow> cstr \<Rightarrow> int \<Rightarrow> file_world \<Rightarrow> int \<times> file_world" where
  "finish_removal rmdir dir_path removed fw =
     (if rmdir dir_path fw < 0 then (-1, fw)
      else (if removed + rmdir dir_path fw > 0 then 1 else 0, fw))"

function remove_chunks ::
    "io_env \<Rightarrow> cstr \<Rightarrow> nat \<Rightarrow> nat \<Rightarrow> int \<Rightarrow> file_world \<Rightarrow> int option \<times> file_world" where
  "remove_chunks env dir_path index chunks removed fw =
     (if index < chunks then
        if index > unat UINT32_MAX then (None, fw)
        else case mem_service_make_chunked_block_chunk_path dir_path (of_nat index) 512 of
          None \<Rightarrow> (None, fw)
        | Some chunk_path \<Rightarrow>
            (case mem_service_unlink_if_exists env chunk_path fw of
               (rc, fw1) \<Rightarrow>
                 if rc < 0 then (None, fw1)
                 else remove_chunks env dir_path (index + 1) chunks (removed + rc) fw1)
      else (Some removed, fw))"
  by pat_completeness auto
termination by (relation "measure (\<lambda>(env, dir, index, chunks, removed, fw). chunks - index)") auto

declare remove_chunks.simps [simp del]

definition mem_service_remove_chunked_payload_block ::
    "io_env \<Rightarrow> (cstr \<Rightarrow> file_world \<Rightarrow> int) \<Rightarrow> cstr \<Rightarrow> mem_service_record \<Rightarrow> file_world \<Rightarrow> int \<times> file_world" where
  "mem_service_remove_chunked_payload_block env rmdir storage_root r fw =
     (if storage_root = [] then (-1, fw)
      else case mem_service_make_chunked_block_dir_path storage_root (rec_object_payload_checksum r) 512 of
        None \<Rightarrow> (-1, fw)
      | Some dir_path \<Rightarrow>
          let chunks = unat ((rec_object_backing_len r + of_nat MEM_SERVICE_CHUNKED_BLOCK_SIZE - 1) div
                             of_nat MEM_SERVICE_CHUNKED_BLOCK_SIZE) in
          (case remove_chunks env dir_path 0 chunks 0 fw of
             (None, fw1) \<Rightarrow> (-1, fw1)
           | (Some removed, fw1) \<Rightarrow>
               (case mem_service_join_path 512 dir_path MEM_SERVICE_CHUNKED_BLOCK_MANIFEST of
                  None \<Rightarrow> (-1, fw1)
                | Some manifest_path \<Rightarrow>
                    (case mem_service_unlink_if_exists env manifest_path fw1 of
                       (rc, fw2) \<Rightarrow>
                         if rc < 0 then (-1, fw2)
                         else finish_removal rmdir dir_path (removed + rc) fw2))))"

definition mem_service_remove_transport_payload_block_dir ::
    "io_env \<Rightarrow> (cstr \<Rightarrow> file_world \<Rightarrow> int) \<Rightarrow> cstr \<Rightarrow> file_world \<Rightarrow> int \<times> file_world" where
  "mem_service_remove_transport_payload_block_dir env rmdir dir_path fw =
     (case (mem_service_join_path 512 dir_path MEM_SERVICE_TRANSPORT_BLOCK_MANIFEST,
            mem_service_join_path 512 dir_path MEM_SERVICE_TRANSPORT_BLOCK_PAYLOAD) of
        (Some manifest_path, Some payload_path) \<Rightarrow>
          (case mem_service_unlink_if_exists env payload_path fw of
             (rc1, fw1) \<Rightarrow>
               if rc1 < 0 then (-1, fw1)
               else case mem_service_unlink_if_exists env manifest_path fw1 of
                 (rc2, fw2) \<Rightarrow>
                   if rc2 < 0 then (-1, fw2) else finish_removal rmdir dir_path (rc1 + rc2) fw2)
      | _ \<Rightarrow> (-1, fw))"

definition mem_service_remove_transport_payload_block ::
    "io_env \<Rightarrow> (cstr \<Rightarrow> file_world \<Rightarrow> int) \<Rightarrow> cstr \<Rightarrow> mem_service_record \<Rightarrow> file_world \<Rightarrow> int \<times> file_world" where
  "mem_service_remove_transport_payload_block env rmdir storage_root r fw =
     (if storage_root = [] then (-1, fw)
      else case mem_service_make_transport_block_dir_path storage_root (rec_object_payload_checksum r) 512 of
        None \<Rightarrow> (-1, fw)
      | Some dir_path \<Rightarrow> mem_service_remove_transport_payload_block_dir env rmdir dir_path fw)"

definition mem_service_remove_transport_tcp_payload_block ::
    "io_env \<Rightarrow> (cstr \<Rightarrow> file_world \<Rightarrow> int) \<Rightarrow> cstr \<Rightarrow> mem_service_record \<Rightarrow> file_world \<Rightarrow> int \<times> file_world" where
  "mem_service_remove_transport_tcp_payload_block env rmdir storage_root r fw =
     (if storage_root = [] then (-1, fw)
      else case mem_service_make_transport_tcp_block_dir_path storage_root (rec_object_payload_checksum r) 512 of
        None \<Rightarrow> (-1, fw)
      | Some dir_path \<Rightarrow> mem_service_remove_transport_payload_block_dir env rmdir dir_path fw)"

section \<open>Fetching from a TCP peer\<close>

text \<open>\<open>strtoul (s, &end, base)\<close> for base 10 and 16: the value, saturated on overflow, and the rest of
  the string; the rest is the whole string when there is no digit.\<close>

definition strtoul_base :: "nat \<Rightarrow> cstr \<Rightarrow> u64 \<times> cstr" where
  "strtoul_base base s =
     (let s1 = dropWhile c_isspace s;
          neg = (s1 \<noteq> [] \<and> hd s1 = CHR ''-'');
          s2 = (if s1 \<noteq> [] \<and> (hd s1 = CHR ''-'' \<or> hd s1 = CHR ''+'') then tl s1 else s1);
          hex = (base = 16 \<and> length s2 > 2 \<and> s2 ! 0 = CHR ''0'' \<and>
                 (s2 ! 1 = CHR ''x'' \<or> s2 ! 1 = CHR ''X'') \<and> digit_value (s2 ! 2) < 16);
          s3 = (if hex then drop 2 s2 else s2);
          ds = takeWhile (\<lambda>c. digit_value c < base) s3;
          n = digits_value base ds
      in if ds = [] then (0, s)
         else (if n \<ge> 2 ^ 64 then UINT64_MAX else if neg then - of_nat n else of_nat n,
               dropWhile (\<lambda>c. digit_value c < base) s3))"

text \<open>\<open>inet_pton (AF_INET, \<dots>)\<close>: four decimal numbers up to 255 without leading zeros.\<close>

fun split_dots :: "cstr \<Rightarrow> cstr list" where
  "split_dots [] = [[]]"
| "split_dots (c # s) = (if c = CHR ''.'' then [] # split_dots s
     else case split_dots s of [] \<Rightarrow> [[c]] | w # ws \<Rightarrow> (c # w) # ws)"

definition octet_ok :: "cstr \<Rightarrow> bool" where
  "octet_ok w \<longleftrightarrow> w \<noteq> [] \<and> (\<forall>c\<in>set w. digit_value c < 10) \<and> digits_value 10 w \<le> 255 \<and>
     (hd w = CHR ''0'' \<longrightarrow> w = ''0'')"

definition inet_pton4 :: "cstr \<Rightarrow> bool" where
  "inet_pton4 host \<longleftrightarrow> length (split_dots host) = 4 \<and> (\<forall>w\<in>set (split_dots host). octet_ok w)"

text \<open>Host and port of a source; \<open>strrchr\<close> finds the last colon.\<close>

definition mem_service_parse_tcp_payload_source :: "cstr \<Rightarrow> (cstr \<times> nat) option" where
  "mem_service_parse_tcp_payload_source source =
     (let endpoint = (if take (length MEM_SERVICE_TCP_SPEC_PREFIX) source = MEM_SERVICE_TCP_SPEC_PREFIX
                      then drop (length MEM_SERVICE_TCP_SPEC_PREFIX) source else source) in
      if length endpoint = 0 \<or> length endpoint \<ge> 160 then None
      else if CHR '':'' \<notin> set endpoint then None
      else let port_text = rev (takeWhile (\<lambda>c. c \<noteq> CHR '':'') (rev endpoint));
               host = take (length endpoint - length port_text - 1) endpoint in
        if host = [] then None
        else if port_text = [] then None
        else let (port, rest) = strtoul_base 10 port_text in
          if rest \<noteq> [] \<or> port = 0 \<or> port > 65535 then None
          else if \<not> inet_pton4 host then None
          else Some (host, unat port))"

datatype tcp_peer = No_socket | Refused | Sends "u8 list" | Breaks

definition mem_service_fetch_tcp_payload_to_tmp ::
    "io_env \<Rightarrow> (cstr \<Rightarrow> nat \<Rightarrow> tcp_peer) \<Rightarrow> cstr \<Rightarrow> cstr \<Rightarrow> file_world \<Rightarrow>
     mem_service_wire_status \<times> (u64 \<times> u64) \<times> file_world" where
  "mem_service_fetch_tcp_payload_to_tmp env peer source tmp_path fw =
     (if source = [] \<or> tmp_path = [] then (STATUS_INVALID_SESSION, (0, 0), fw)
      else case mem_service_parse_tcp_payload_source source of
        None \<Rightarrow> (STATUS_INVALID_SESSION, (0, 0), fw)
      | Some (host, port) \<Rightarrow>
          (case peer host port of
             No_socket \<Rightarrow> (STATUS_INTERNAL, (0, 0), fw)
           | Refused \<Rightarrow> (STATUS_NOT_FOUND, (0, 0), fw)
           | Breaks \<Rightarrow>
               if \<not> io_create_ok env tmp_path then (STATUS_INTERNAL, (0, 0), fw)
               else (STATUS_INTERNAL, (0, 0), fs_unlink tmp_path fw)
           | Sends bytes \<Rightarrow>
               (case fs_write_file env tmp_path bytes fw of
                  (False, fw1) \<Rightarrow> (STATUS_INTERNAL, (0, 0), fw1)
                | (True, fw1) \<Rightarrow>
                    (STATUS_OK, (of_nat (length bytes), mem_service_checksum_bytes bytes), fw1))))"

section \<open>Writing\<close>

text \<open>The start the writers share: the contents go to the temporary file, are measured, and are compared
  with the length and checksum the request declares.\<close>

definition payload_differs :: "cstr \<Rightarrow> u64 \<Rightarrow> u64 \<Rightarrow> bool" where
  "payload_differs payload actual_len actual_checksum \<longleftrightarrow>
     u64_field_differs payload ''backing_len'' actual_len \<or>
     u64_field_differs payload ''checksum'' actual_checksum"

definition ingest_to_tmp ::
    "io_env \<Rightarrow> cstr \<Rightarrow> cstr \<Rightarrow> cstr \<Rightarrow> file_world \<Rightarrow> mem_service_wire_status \<times> (u64 \<times> u64) \<times> file_world" where
  "ingest_to_tmp env payload_inline payload_path tmp_path fw =
     (if payload_inline \<noteq> [] then
        (case fs_write_file env tmp_path (bytes_of payload_inline) fw of
           (False, fw1) \<Rightarrow> (STATUS_INTERNAL, (0, 0), fw1)
         | (True, fw1) \<Rightarrow> (STATUS_OK, (of_nat (length payload_inline),
                                     mem_service_checksum_bytes (bytes_of payload_inline)), fw1))
      else mem_service_copy_payload_file_to_tmp env payload_path tmp_path fw)"

text \<open>A manifest is written to a temporary name and renamed.\<close>

definition publish_manifest :: "io_env \<Rightarrow> cstr \<Rightarrow> cstr \<Rightarrow> cstr \<Rightarrow> file_world \<Rightarrow> bool \<times> file_world" where
  "publish_manifest env manifest_tmp manifest_path contents fw =
     (case fs_write_file env manifest_tmp (bytes_of contents) fw of
        (False, fw1) \<Rightarrow> (False, fs_unlink manifest_tmp fw1)
      | (True, fw1) \<Rightarrow>
          (case fs_rename env manifest_tmp manifest_path fw1 of
             (False, fw2) \<Rightarrow> (False, fs_unlink manifest_tmp fw2)
           | (True, fw2) \<Rightarrow> (True, fw2)))"

definition manifest_tmp_path :: "io_env \<Rightarrow> cstr \<Rightarrow> cstr option" where
  "manifest_tmp_path env manifest_path =
     (let path = manifest_path @ ''.tmp.'' @ decimal (io_pid env) in
      if length path \<ge> 512 then None else Some path)"

definition transport_manifest :: "cstr \<Rightarrow> cstr \<Rightarrow> u64 \<Rightarrow> u64 \<Rightarrow> cstr" where
  "transport_manifest backend transport len checksum =
     text_of [''backend='' @ backend, ''transport='' @ transport,
              ''payload='' @ MEM_SERVICE_TRANSPORT_BLOCK_PAYLOAD, ''total_len='' @ show_word len,
              ''total_checksum=0x'' @ hex16 checksum]"

text \<open>From the measured temporary file to the published block, common to the transport layouts.\<close>

definition publish_transport_block ::
    "io_env \<Rightarrow> (cstr \<Rightarrow> bool) \<Rightarrow> cstr option \<Rightarrow> cstr \<Rightarrow> cstr \<Rightarrow> u32 \<Rightarrow> (file_world \<Rightarrow> file_world) \<Rightarrow>
     cstr \<Rightarrow> u64 \<Rightarrow> u64 \<Rightarrow> mem_service_record \<Rightarrow> file_world \<Rightarrow>
     mem_service_wire_status \<times> mem_service_record \<times> file_world" where
  "publish_transport_block env dir_ok dir backend transport kind quarantine tmp_path len checksum r fw =
     (case dir of
        None \<Rightarrow> (STATUS_INTERNAL, r, fs_unlink tmp_path fw)
      | Some dir_path \<Rightarrow>
          if mem_service_ensure_dir dir_ok dir_path \<noteq> 0 then (STATUS_INTERNAL, r, fs_unlink tmp_path fw)
          else case (mem_service_join_path 512 dir_path MEM_SERVICE_TRANSPORT_BLOCK_PAYLOAD,
                     mem_service_join_path 512 dir_path MEM_SERVICE_TRANSPORT_BLOCK_MANIFEST) of
            (Some block_path, Some manifest_path) \<Rightarrow>
              (case manifest_tmp_path env manifest_path of
                 None \<Rightarrow> (STATUS_INTERNAL, r, fs_unlink tmp_path fw)
               | Some manifest_tmp \<Rightarrow>
                   (case fs_rename env tmp_path block_path fw of
                      (False, fw1) \<Rightarrow> (STATUS_INTERNAL, r, fs_unlink tmp_path fw1)
                    | (True, fw1) \<Rightarrow>
                        (case publish_manifest env manifest_tmp manifest_path
                                (transport_manifest backend transport len checksum) fw1 of
                           (False, fw2) \<Rightarrow> (STATUS_INTERNAL, r, quarantine fw2)
                         | (True, fw2) \<Rightarrow> (STATUS_OK, seal_record kind len checksum r, fw2))))
          | _ \<Rightarrow> (STATUS_INTERNAL, r, fs_unlink tmp_path fw))"

definition mem_service_write_transport_payload_block :: "io_env \<Rightarrow> (cstr \<Rightarrow> bool) \<Rightarrow> block_writer" where
  "mem_service_write_transport_payload_block env dir_ok storage_root payload payload_inline payload_path r fw =
     (let has_inline = (payload_inline \<noteq> []); has_path = (payload_path \<noteq> []) in
      if \<not> has_inline \<and> \<not> has_path then (STATUS_OK, r, fw)
      else if has_inline \<and> has_path then (STATUS_UNSUPPORTED, r, fw)
      else if storage_root = [] then (STATUS_UNSUPPORTED, r, fw)
      else case mem_service_make_payload_tmp_path env storage_root 512 fw of
        (None, fw1) \<Rightarrow> (STATUS_INTERNAL, r, fw1)
      | (Some tmp_path, fw1) \<Rightarrow>
          (case ingest_to_tmp env payload_inline payload_path tmp_path fw1 of
             (status, (len, checksum), fw2) \<Rightarrow>
               if status \<noteq> STATUS_OK then (status, r, fw2)
               else if payload_differs payload len checksum
               then (STATUS_CHECKSUM_MISMATCH, r, fs_unlink tmp_path fw2)
               else publish_transport_block env dir_ok
                      (mem_service_make_transport_block_dir_path storage_root checksum 512)
                      ''transport-loopback-block-v1'' ''file-copy-v1''
                      MEM_SERVICE_PAYLOAD_KIND_TRANSPORT_LOOPBACK_BLOCK
                      (mem_service_quarantine_transport_payload_block env storage_root checksum)
                      tmp_path len checksum r fw2))"

definition mem_service_write_transport_tcp_payload_block ::
    "io_env \<Rightarrow> (cstr \<Rightarrow> bool) \<Rightarrow> (cstr \<Rightarrow> nat \<Rightarrow> tcp_peer) \<Rightarrow> block_writer" where
  "mem_service_write_transport_tcp_payload_block env dir_ok peer storage_root payload payload_inline payload_path r fw =
     (let has_inline = (payload_inline \<noteq> []); has_path = (payload_path \<noteq> []) in
      if has_inline \<or> \<not> has_path then (STATUS_UNSUPPORTED, r, fw)
      else if take (length MEM_SERVICE_TCP_SPEC_PREFIX) payload_path \<noteq> MEM_SERVICE_TCP_SPEC_PREFIX
      then (STATUS_UNSUPPORTED, r, fw)
      else if storage_root = [] then (STATUS_UNSUPPORTED, r, fw)
      else case mem_service_make_payload_tmp_path env storage_root 512 fw of
        (None, fw1) \<Rightarrow> (STATUS_INTERNAL, r, fw1)
      | (Some tmp_path, fw1) \<Rightarrow>
          (case mem_service_fetch_tcp_payload_to_tmp env peer payload_path tmp_path fw1 of
             (status, (len, checksum), fw2) \<Rightarrow>
               if status \<noteq> STATUS_OK then (status, r, fw2)
               else if payload_differs payload len checksum
               then (STATUS_CHECKSUM_MISMATCH, r, fs_unlink tmp_path fw2)
               else publish_transport_block env dir_ok
                      (mem_service_make_transport_tcp_block_dir_path storage_root checksum 512)
                      ''transport-tcp-block-v1'' ''tcp-loopback-v1''
                      MEM_SERVICE_PAYLOAD_KIND_TRANSPORT_TCP_BLOCK
                      (mem_service_quarantine_transport_tcp_payload_block env storage_root checksum)
                      tmp_path len checksum r fw2))"

text \<open>The chunks of the temporary file, one per turn of the loop; a turn that reads less than a whole
  buffer is the last. \<open>None\<close> when a chunk cannot be written.\<close>

definition write_chunk ::
    "io_env \<Rightarrow> cstr \<Rightarrow> u32 \<Rightarrow> u64 \<Rightarrow> u8 list \<Rightarrow> file_world \<Rightarrow> bool \<times> file_world" where
  "write_chunk env dir_path chunk_index seq bytes fw =
     (let seq_tail = ''.'' @ decimal (io_pid env) @ ''.'' @ show_word seq in
      case mem_service_make_chunked_block_chunk_path dir_path chunk_index 512 of
        None \<Rightarrow> (False, fw)
      | Some chunk_path \<Rightarrow>
          let chunk_tmp = chunk_path @ ''.tmp'' @ seq_tail in
          if length seq_tail \<ge> 32 \<or> length chunk_tmp \<ge> 512 then (False, fw)
          else (case fs_write_file env chunk_tmp bytes fw of
                  (False, fw1) \<Rightarrow> (False, fs_unlink chunk_tmp fw1)
                | (True, fw1) \<Rightarrow>
                    (case fs_rename env chunk_tmp chunk_path fw1 of
                       (False, fw2) \<Rightarrow> (False, fs_unlink chunk_tmp fw2)
                     | (True, fw2) \<Rightarrow> (True, fw2))))"

function write_chunks ::
    "io_env \<Rightarrow> cstr \<Rightarrow> u32 \<Rightarrow> u8 list \<Rightarrow> file_world \<Rightarrow> u32 option \<times> file_world" where
  "write_chunks env dir_path chunk_index bytes fw =
     (let got = take MEM_SERVICE_CHUNKED_BLOCK_SIZE bytes;
          seq = fw_tmp_seq fw + 1;
          fw0 = fw\<lparr>fw_tmp_seq := seq\<rparr>;
          (ok, fw1) = (if got = [] then (True, fw0) else write_chunk env dir_path chunk_index seq got fw0);
          next_index = (if got = [] then chunk_index else chunk_index + 1)
      in if \<not> ok then (None, fw1)
         else if length got < MEM_SERVICE_CHUNKED_BLOCK_SIZE then (Some next_index, fw1)
         else write_chunks env dir_path next_index (drop MEM_SERVICE_CHUNKED_BLOCK_SIZE bytes) fw1)"
  by pat_completeness auto
termination
  by (relation "measure (\<lambda>(env, dir, i, bytes, fw). length bytes)")
     (auto simp: MEM_SERVICE_CHUNKED_BLOCK_SIZE_def)

declare write_chunks.simps [simp del]

definition chunked_manifest :: "u32 \<Rightarrow> u64 \<Rightarrow> u64 \<Rightarrow> cstr" where
  "chunked_manifest chunk_count len checksum =
     text_of [''chunk_count='' @ show_word chunk_count,
              ''chunk_size='' @ decimal MEM_SERVICE_CHUNKED_BLOCK_SIZE, ''total_len='' @ show_word len,
              ''total_checksum=0x'' @ hex16 checksum]"

definition mem_service_write_chunked_payload_block :: "io_env \<Rightarrow> (cstr \<Rightarrow> bool) \<Rightarrow> block_writer" where
  "mem_service_write_chunked_payload_block env dir_ok storage_root payload payload_inline payload_path r fw =
     (let has_inline = (payload_inline \<noteq> []); has_path = (payload_path \<noteq> []) in
      if \<not> has_inline \<and> \<not> has_path then (STATUS_OK, r, fw)
      else if has_inline \<and> has_path then (STATUS_UNSUPPORTED, r, fw)
      else if storage_root = [] then (STATUS_UNSUPPORTED, r, fw)
      else case mem_service_make_payload_tmp_path env storage_root 512 fw of
        (None, fw1) \<Rightarrow> (STATUS_INTERNAL, r, fw1)
      | (Some tmp_path, fw1) \<Rightarrow>
          (case ingest_to_tmp env payload_inline payload_path tmp_path fw1 of
             (status, (len, checksum), fw2) \<Rightarrow>
               if status \<noteq> STATUS_OK then (status, r, fw2)
               else if payload_differs payload len checksum
               then (STATUS_CHECKSUM_MISMATCH, r, fs_unlink tmp_path fw2)
               else case mem_service_make_chunked_block_dir_path storage_root checksum 512 of
                 None \<Rightarrow> (STATUS_INTERNAL, r, fs_unlink tmp_path fw2)
               | Some dir_path \<Rightarrow>
                   if mem_service_ensure_dir dir_ok dir_path \<noteq> 0
                   then (STATUS_INTERNAL, r, fs_unlink tmp_path fw2)
                   else case fs_open env tmp_path fw2 of
                     None \<Rightarrow> (STATUS_INTERNAL, r, fs_unlink tmp_path fw2)
                   | Some bytes \<Rightarrow>
                       (case write_chunks env dir_path 0 bytes fw2 of
                          (None, fw3) \<Rightarrow> (STATUS_INTERNAL, r, fs_unlink tmp_path fw3)
                        | (Some chunk_count, fw3) \<Rightarrow>
                            if \<not> io_read_ok env tmp_path then (STATUS_INTERNAL, r, fs_unlink tmp_path fw3)
                            else case mem_service_join_path 512 dir_path MEM_SERVICE_CHUNKED_BLOCK_MANIFEST of
                              None \<Rightarrow> (STATUS_INTERNAL, r, fs_unlink tmp_path fw3)
                            | Some manifest_path \<Rightarrow>
                                (case manifest_tmp_path env manifest_path of
                                   None \<Rightarrow> (STATUS_INTERNAL, r, fs_unlink tmp_path fw3)
                                 | Some manifest_tmp \<Rightarrow>
                                     (case publish_manifest env manifest_tmp manifest_path
                                             (chunked_manifest chunk_count len checksum) fw3 of
                                        (False, fw4) \<Rightarrow> (STATUS_INTERNAL, r, fs_unlink tmp_path fw4)
                                      | (True, fw4) \<Rightarrow>
                                          (STATUS_OK,
                                           seal_record MEM_SERVICE_PAYLOAD_KIND_SEALED_CHUNKED_BLOCK
                                             len checksum r,
                                           fs_unlink tmp_path fw4))))))"

section \<open>Reading a manifest\<close>

text \<open>\<open>fgets\<close> into a buffer of \<open>n\<close> characters, line end trimmed, until the end of the file. A NUL
  byte ends the string in the buffer.\<close>

function text_lines :: "nat \<Rightarrow> cstr \<Rightarrow> cstr list" where
  "text_lines n s =
     (if s = [] then []
      else let k = max 1 (min (n - 1) (length (line_of s) + 1)) in
        mem_service_trim_line (takeWhile (\<lambda>c. c \<noteq> CHR 0x00) (take k s)) # text_lines n (drop k s))"
  by pat_completeness auto
termination by (relation "measure (\<lambda>(n, s). length s)") auto

declare text_lines.simps [simp del]

definition starts_with :: "cstr \<Rightarrow> cstr \<Rightarrow> bool" where
  "starts_with p s \<longleftrightarrow> take (length p) s = p"

record chunk_manifest =
  cm_chunk_count :: u32
  cm_chunk_size :: u32
  cm_total_checksum :: u64
  cm_saw_chunk_count :: bool
  cm_saw_total_checksum :: bool

definition chunk_manifest_line :: "chunk_manifest \<Rightarrow> cstr \<Rightarrow> chunk_manifest" where
  "chunk_manifest_line m line =
     (if starts_with ''chunk_count='' line then
        m\<lparr>cm_chunk_count := ucast (fst (strtoul_base 10 (drop (length ''chunk_count='') line))),
          cm_saw_chunk_count := True\<rparr>
      else if starts_with ''chunk_size='' line then
        m\<lparr>cm_chunk_size := ucast (fst (strtoul_base 10 (drop (length ''chunk_size='') line)))\<rparr>
      else if starts_with ''total_checksum=0x'' line then
        m\<lparr>cm_total_checksum := fst (strtoul_base 16 (drop (length ''total_checksum=0x'') line)),
          cm_saw_total_checksum := True\<rparr>
      else m)"

definition read_chunk_manifest :: "cstr \<Rightarrow> chunk_manifest" where
  "read_chunk_manifest s = foldl chunk_manifest_line
     \<lparr>cm_chunk_count = 0, cm_chunk_size = 0, cm_total_checksum = 0, cm_saw_chunk_count = False,
      cm_saw_total_checksum = False\<rparr> (text_lines 128 s)"

record transport_manifest_state =
  tm_saw_backend :: bool
  tm_saw_transport :: bool
  tm_saw_total_checksum :: bool
  tm_total_checksum :: u64

definition transport_manifest_line ::
    "cstr \<Rightarrow> cstr \<Rightarrow> transport_manifest_state \<Rightarrow> cstr \<Rightarrow> transport_manifest_state" where
  "transport_manifest_line backend transport m line =
     (if line = ''backend='' @ backend then m\<lparr>tm_saw_backend := True\<rparr>
      else if line = ''transport='' @ transport then m\<lparr>tm_saw_transport := True\<rparr>
      else if starts_with ''total_checksum=0x'' line then
        m\<lparr>tm_total_checksum := fst (strtoul_base 16 (drop (length ''total_checksum=0x'') line)),
          tm_saw_total_checksum := True\<rparr>
      else m)"

definition read_transport_manifest :: "cstr \<Rightarrow> cstr \<Rightarrow> cstr \<Rightarrow> transport_manifest_state" where
  "read_transport_manifest backend transport s = foldl (transport_manifest_line backend transport)
     \<lparr>tm_saw_backend = False, tm_saw_transport = False, tm_saw_total_checksum = False,
      tm_total_checksum = 0\<rparr> (text_lines 160 s)"

section \<open>Validating\<close>

text \<open>The contents of the chunks in order, as the validator reads them: \<open>None\<close> when one cannot be
  opened; a read error ends a chunk without being noticed.\<close>

function read_chunks :: "io_env \<Rightarrow> cstr \<Rightarrow> nat \<Rightarrow> nat \<Rightarrow> file_world \<Rightarrow> u8 list option" where
  "read_chunks env dir_path index chunk_count fw =
     (if index < chunk_count then
        case mem_service_make_chunked_block_chunk_path dir_path (of_nat index) 512 of
          None \<Rightarrow> None
        | Some chunk_path \<Rightarrow>
            (case fs_open env chunk_path fw of
               None \<Rightarrow> None
             | Some bytes \<Rightarrow>
                 map_option (\<lambda>rest. (if io_read_ok env chunk_path then bytes else []) @ rest)
                   (read_chunks env dir_path (index + 1) chunk_count fw))
      else Some [])"
  by pat_completeness auto
termination by (relation "measure (\<lambda>(env, dir, index, count, fw). count - index)") auto

declare read_chunks.simps [simp del]

text \<open>The same loop of the copy out of the block, which answers every failure with its status.\<close>

function copy_chunks ::
    "io_env \<Rightarrow> cstr \<Rightarrow> nat \<Rightarrow> nat \<Rightarrow> file_world \<Rightarrow> mem_service_wire_status + u8 list" where
  "copy_chunks env dir_path index chunk_count fw =
     (if index < chunk_count then
        case mem_service_make_chunked_block_chunk_path dir_path (of_nat index) 512 of
          None \<Rightarrow> Inl STATUS_INTERNAL
        | Some chunk_path \<Rightarrow>
            (case fs_open env chunk_path fw of
               None \<Rightarrow> Inl STATUS_CHECKSUM_MISMATCH
             | Some bytes \<Rightarrow>
                 if \<not> io_read_ok env chunk_path then Inl STATUS_CHECKSUM_MISMATCH
                 else (case copy_chunks env dir_path (index + 1) chunk_count fw of
                         Inl status \<Rightarrow> Inl status
                       | Inr rest \<Rightarrow> Inr (bytes @ rest)))
      else Inr [])"
  by pat_completeness auto
termination by (relation "measure (\<lambda>(env, dir, index, count, fw). count - index)") auto

declare copy_chunks.simps [simp del]

definition mem_service_validate_chunked_payload_block ::
    "io_env \<Rightarrow> cstr \<Rightarrow> mem_service_record \<Rightarrow> file_world \<Rightarrow> mem_service_wire_status \<times> file_world" where
  "mem_service_validate_chunked_payload_block env storage_root r fw =
     (let mismatch = (STATUS_CHECKSUM_MISMATCH,
            mem_service_quarantine_chunked_payload_block env storage_root (rec_object_payload_checksum r) fw) in
      if rec_object_payload_kind r \<noteq> MEM_SERVICE_PAYLOAD_KIND_SEALED_CHUNKED_BLOCK then (STATUS_OK, fw)
      else if storage_root = [] \<or> rec_object_payload_checksum r = 0 then mismatch
      else case mem_service_make_chunked_block_dir_path storage_root (rec_object_payload_checksum r) 512 of
        None \<Rightarrow> mismatch
      | Some dir_path \<Rightarrow>
          (case mem_service_join_path 512 dir_path MEM_SERVICE_CHUNKED_BLOCK_MANIFEST of
             None \<Rightarrow> mismatch
           | Some manifest_path \<Rightarrow>
               (case fs_open env manifest_path fw of
                  None \<Rightarrow> mismatch
                | Some manifest_bytes \<Rightarrow>
                    let m = read_chunk_manifest (cstr_of manifest_bytes) in
                    if \<not> cm_saw_chunk_count m \<or> \<not> cm_saw_total_checksum m \<or> cm_chunk_count m = 0 \<or>
                       cm_chunk_size m = 0 \<or> cm_chunk_size m > of_nat MEM_SERVICE_CHUNKED_BLOCK_SIZE
                    then mismatch
                    else case read_chunks env dir_path 0 (unat (cm_chunk_count m)) fw of
                      None \<Rightarrow> mismatch
                    | Some bytes \<Rightarrow>
                        if of_nat (length bytes) \<noteq> rec_object_backing_len r \<or>
                           mem_service_checksum_bytes bytes \<noteq> rec_object_payload_checksum r \<or>
                           cm_total_checksum m \<noteq> rec_object_payload_checksum r
                        then mismatch else (STATUS_OK, fw))))"

definition validate_transport_dir ::
    "io_env \<Rightarrow> cstr \<Rightarrow> cstr option \<Rightarrow> cstr \<Rightarrow> cstr \<Rightarrow> file_world \<Rightarrow> mem_service_record \<Rightarrow> file_world \<Rightarrow>
     mem_service_wire_status \<times> file_world" where
  "validate_transport_dir env storage_root dir backend transport quarantined r fw =
     (let mismatch = (STATUS_CHECKSUM_MISMATCH, quarantined) in
      if storage_root = [] \<or> rec_object_payload_checksum r = 0 then mismatch
      else case dir of
        None \<Rightarrow> mismatch
      | Some dir_path \<Rightarrow>
          (case (mem_service_join_path 512 dir_path MEM_SERVICE_TRANSPORT_BLOCK_MANIFEST,
                 mem_service_join_path 512 dir_path MEM_SERVICE_TRANSPORT_BLOCK_PAYLOAD) of
             (Some manifest_path, Some block_path) \<Rightarrow>
               (case fs_open env manifest_path fw of
                  None \<Rightarrow> mismatch
                | Some manifest_bytes \<Rightarrow>
                    let m = read_transport_manifest backend transport (cstr_of manifest_bytes) in
                    if \<not> tm_saw_backend m \<or> \<not> tm_saw_transport m \<or> \<not> tm_saw_total_checksum m \<or>
                       tm_total_checksum m \<noteq> rec_object_payload_checksum r
                    then mismatch
                    else case fs_open env block_path fw of
                      None \<Rightarrow> mismatch
                    | Some bytes \<Rightarrow>
                        if \<not> io_read_ok env block_path \<or>
                           of_nat (length bytes) \<noteq> rec_object_backing_len r \<or>
                           mem_service_checksum_bytes bytes \<noteq> rec_object_payload_checksum r
                        then mismatch else (STATUS_OK, fw))
           | _ \<Rightarrow> mismatch))"

definition mem_service_validate_transport_payload_block ::
    "io_env \<Rightarrow> cstr \<Rightarrow> mem_service_record \<Rightarrow> file_world \<Rightarrow> mem_service_wire_status \<times> file_world" where
  "mem_service_validate_transport_payload_block env storage_root r fw =
     (if rec_object_payload_kind r \<noteq> MEM_SERVICE_PAYLOAD_KIND_TRANSPORT_LOOPBACK_BLOCK then (STATUS_OK, fw)
      else validate_transport_dir env storage_root
             (mem_service_make_transport_block_dir_path storage_root (rec_object_payload_checksum r) 512)
             ''transport-loopback-block-v1'' ''file-copy-v1''
             (mem_service_quarantine_transport_payload_block env storage_root (rec_object_payload_checksum r) fw)
             r fw)"

definition mem_service_validate_transport_tcp_payload_block ::
    "io_env \<Rightarrow> cstr \<Rightarrow> mem_service_record \<Rightarrow> file_world \<Rightarrow> mem_service_wire_status \<times> file_world" where
  "mem_service_validate_transport_tcp_payload_block env storage_root r fw =
     (if rec_object_payload_kind r \<noteq> MEM_SERVICE_PAYLOAD_KIND_TRANSPORT_TCP_BLOCK then (STATUS_OK, fw)
      else validate_transport_dir env storage_root
             (mem_service_make_transport_tcp_block_dir_path storage_root (rec_object_payload_checksum r) 512)
             ''transport-tcp-block-v1'' ''tcp-loopback-v1''
             (mem_service_quarantine_transport_tcp_payload_block env storage_root (rec_object_payload_checksum r) fw)
             r fw)"

text \<open>The copy of a chunked block into the file being materialised; the number of chunks follows from
  the recorded length.\<close>

definition materialize_chunks ::
    "io_env \<Rightarrow> cstr \<Rightarrow> mem_service_record \<Rightarrow> file_world \<Rightarrow> mem_service_wire_status + u8 list" where
  "materialize_chunks env storage_root r fw =
     (case mem_service_make_chunked_block_dir_path storage_root (rec_object_payload_checksum r) 512 of
        None \<Rightarrow> Inl STATUS_INTERNAL
      | Some chunk_dir \<Rightarrow>
          let chunk_count = ucast ((rec_object_backing_len r + of_nat MEM_SERVICE_CHUNKED_BLOCK_SIZE - 1) div
                                   of_nat MEM_SERVICE_CHUNKED_BLOCK_SIZE) :: u32 in
          copy_chunks env chunk_dir 0 (unat chunk_count) fw)"

section \<open>The layouts as a whole\<close>

definition layout_backends ::
    "io_env \<Rightarrow> (cstr \<Rightarrow> bool) \<Rightarrow> (cstr \<Rightarrow> file_world \<Rightarrow> int) \<Rightarrow> (cstr \<Rightarrow> nat \<Rightarrow> tcp_peer) \<Rightarrow> block_backends" where
  "layout_backends env dir_ok rmdir peer =
     \<lparr>be_write_chunked = mem_service_write_chunked_payload_block env dir_ok,
      be_write_transport = mem_service_write_transport_payload_block env dir_ok,
      be_write_transport_tcp = mem_service_write_transport_tcp_payload_block env dir_ok peer,
      be_validate_chunked = mem_service_validate_chunked_payload_block env,
      be_validate_transport = mem_service_validate_transport_payload_block env,
      be_validate_transport_tcp = mem_service_validate_transport_tcp_payload_block env,
      be_remove_chunked = mem_service_remove_chunked_payload_block env rmdir,
      be_remove_transport = mem_service_remove_transport_payload_block env rmdir,
      be_remove_transport_tcp = mem_service_remove_transport_tcp_payload_block env rmdir,
      be_read_chunked = materialize_chunks env\<rparr>"

lemma publish_transport_identity:
  "publish_transport_block env dir_ok dir b t k q tmp len c r fw = (st, r', fw') \<Longrightarrow> same_record_identity r r'"
  by (auto simp: publish_transport_block_def seal_record_def same_record_identity_def
      split: option.splits if_splits prod.splits bool.splits)

text \<open>The hypotheses of the theorems about handlers, requests and the daemon hold for these layouts.\<close>

lemma layout_backends_keep_identity: "writers_keep_identity (layout_backends env dir_ok rmdir peer)"
proof -
  have seal: "same_record_identity r (seal_record k len c r)" "same_record_identity r r" for k len c r
    by (simp_all add: seal_record_def same_record_identity_def)
  have pub: "same_record_identity r (fst (snd (publish_transport_block env dir_ok dir b t k q tmp len c r fw)))"
    for dir b t k q tmp len c r fw
    using publish_transport_identity by (metis prod.collapse)
  have "same_record_identity r (fst (snd (mem_service_write_chunked_payload_block env dir_ok root p i q r fw)))"
    for root p i q r fw
    by (simp add: mem_service_write_chunked_payload_block_def Let_def seal
        split: option.split prod.split bool.split)
  moreover have "same_record_identity r (fst (snd (mem_service_write_transport_payload_block env dir_ok root p i q r fw)))"
    for root p i q r fw
    by (simp add: mem_service_write_transport_payload_block_def Let_def seal pub
        split: option.split prod.split)
  moreover have "same_record_identity r
      (fst (snd (mem_service_write_transport_tcp_payload_block env dir_ok peer root p i q r fw)))"
    for root p i q r fw
    by (simp add: mem_service_write_transport_tcp_payload_block_def Let_def seal pub
        split: option.split prod.split)
  ultimately show ?thesis by (simp add: writers_keep_identity_def layout_backends_def)
qed

end
