(* ===== verification/Block_Recovery.thy ===== *)
theory Block_Recovery
  imports Block_Layouts
begin

text \<open>
  What the layouts with several files promise: a block that was written validates and is copied out
  unchanged, a block that validates has the recorded length and checksum, and a block that is
  materialised is the recorded one.
\<close>

section \<open>Hexadecimal numbers\<close>

lemma digit_value_hex [simp]: "k < 16 \<Longrightarrow> digit_value (hex_digit k) = k"
  by (simp add: digit_value_def hex_digit_def Let_def)

lemma hex_digit_eq_iff: "k < 16 \<Longrightarrow> hex_digit k = c \<longleftrightarrow> (if k < 10 then 48 + k else 87 + k) = of_char c"
  by (auto simp: hex_digit_def char_of_eq_iff take_bit_nat_eq_self)

lemma hex_digit_plain:
  assumes "k < 16"
  shows "\<not> c_isspace (hex_digit k)" "hex_digit k \<noteq> CHR ''-''" "hex_digit k \<noteq> CHR ''+''"
    "hex_digit k \<noteq> newline" "hex_digit k \<noteq> carriage_return" "hex_digit k \<noteq> CHR 0x00"
    "hex_digit k \<noteq> CHR ''x''" "hex_digit k \<noteq> CHR ''X''"
  using assms by (simp_all add: c_isspace_def hex_digit_eq_iff)

lemma hex16_digits: "c \<in> set (hex16 w) \<Longrightarrow> \<exists>k<16. c = hex_digit k"
  unfolding hex16_def using nibble_less by fastforce

lemma hex16_length [simp]: "length (hex16 w) = 16"
  by (simp add: hex16_def)

lemma hex16_nonempty [simp]: "hex16 w \<noteq> []"
  by (metis hex16_length length_0_conv zero_neq_numeral)

lemma foldl_digits:
  "foldl (\<lambda>acc c. acc * b + digit_value c) a ds = a * b ^ length ds + digits_value b ds"
proof (induction ds arbitrary: a)
  case (Cons d ds)
  show ?case using Cons [of "a * b + digit_value d"] Cons [of "digit_value d"]
    by (simp add: digits_value_def algebra_simps)
qed (simp add: digits_value_def)

lemma digits_value_Cons: "digits_value b (d # ds) = digit_value d * b ^ length ds + digits_value b ds"
  using foldl_digits [of b "digit_value d" ds] by (simp add: digits_value_def)

lemma unat_nibble: "unat (drop_bit (4 * i) w AND 15) = unat w div 16 ^ i mod 16" for w :: u64
proof -
  have m: "(15 :: u64) = mask 4" by (simp add: mask_eq_exp_minus_1)
  have "unat (drop_bit (4 * i) w AND 15) = take_bit 4 (drop_bit (4 * i) (unat w))"
    using take_bit_nat_eq_self [of "unat w" 64] unsigned_less [of w, where 'a = nat] unfolding m
    by (simp add: take_bit_eq_mask [symmetric] unsigned_take_bit_eq unsigned_drop_bit_eq)
  then show ?thesis by (simp add: take_bit_eq_mod drop_bit_eq_div power_mult)
qed

lemma hex16_value: "digits_value 16 (hex16 w) = unat w"
proof -
  have "digits_value 16 (map (\<lambda>i. hex_digit (unat (drop_bit (4 * i) w AND 15))) (rev [0..<n])) =
      unat w mod 16 ^ n" for n
  proof (induction n)
    case (Suc n)
    have "unat w mod 16 ^ Suc n = 16 ^ n * (unat w div 16 ^ n mod 16) + unat w mod 16 ^ n"
      using mod_mult2_eq [of "unat w" "16 ^ n" 16] by (simp add: mult.commute)
    with Suc show ?case by (simp add: digits_value_Cons unat_nibble)
  qed (simp add: digits_value_def)
  from this [of 16] have "digits_value 16 (hex16 w) = unat w mod 16 ^ 16" by (simp only: hex16_def)
  moreover have "unat w < 16 ^ 16" using unsigned_less [of w, where 'a = nat] by simp
  ultimately show ?thesis by simp
qed

lemma strtoul_base_hex16 [simp]: "strtoul_base 16 (hex16 w) = (w, [])"
proof -
  have dig: "digit_value c < 16" if "c \<in> set (hex16 w)" for c using hex16_digits [OF that] by auto
  have plain: "\<not> c_isspace c" "c \<noteq> CHR ''-''" "c \<noteq> CHR ''+''" "c \<noteq> CHR ''x''" "c \<noteq> CHR ''X''"
    if "c \<in> set (hex16 w)" for c
  proof -
    from hex16_digits [OF that] obtain k where k: "k < 16" "c = hex_digit k" by blast
    show "\<not> c_isspace c" "c \<noteq> CHR ''-''" "c \<noteq> CHR ''+''" "c \<noteq> CHR ''x''" "c \<noteq> CHR ''X''"
      using hex_digit_plain [OF k(1)] by (simp_all add: k(2))
  qed
  note ne = hex16_nonempty [of w]
  have h: "hd (hex16 w) \<in> set (hex16 w)" "hex16 w ! 1 \<in> set (hex16 w)" using ne by simp_all
  have ws: "dropWhile c_isspace (hex16 w) = hex16 w" using plain(1) [OF h(1)] ne by (cases "hex16 w") auto
  have all: "takeWhile (\<lambda>c. digit_value c < 16) (hex16 w) = hex16 w"
    "dropWhile (\<lambda>c. digit_value c < 16) (hex16 w) = []"
    using dig by (simp_all add: takeWhile_eq_all_conv dropWhile_eq_Nil_conv)
  have "unat w < 2 ^ 64" using unsigned_less [of w] by simp
  then show ?thesis
    unfolding strtoul_base_def Let_def ws using plain(2,3) [OF h(1)] plain(4,5) [OF h(2)] ne
    by (simp add: all hex16_value)
qed

lemma strtoul_base_decimal [simp]:
  "n < 2 ^ 64 \<Longrightarrow> strtoul_base 10 (decimal n) = (of_nat n, [])"
  by (simp add: strtoul_base_def Let_def decimal_scan decimal_value)

section \<open>Reading back a manifest\<close>

lemma nul_notin_decimal [simp]: "CHR 0x00 \<notin> set (decimal n)"
proof
  assume "CHR 0x00 \<in> set (decimal n)"
  then obtain d where "d < 10" "digit_char d = CHR 0x00" using decimal_digits by metis
  then show False by (simp add: digit_char_eq_iff)
qed

lemma nul_notin_hex16 [simp]: "CHR 0x00 \<notin> set (hex16 w)" and newline_notin_hex16 [simp]: "newline \<notin> set (hex16 w)"
  using hex16_digits hex_digit_plain by fastforce+

lemma clean_hex16 [simp]: "clean (hex16 w)"
proof -
  have "last (hex16 w) \<noteq> carriage_return"
    using hex16_digits [OF last_in_set [OF hex16_nonempty], of w] hex_digit_plain(5) by metis
  then show ?thesis by (simp add: clean_def)
qed

lemma text_lines_line:
  assumes l: "clean l" "CHR 0x00 \<notin> set l" "length l + 1 < n"
  shows "text_lines n (l @ newline # rest) = l # text_lines n rest"
proof -
  have nl: "newline \<notin> set l" using l by (simp add: clean_def)
  have k: "max (Suc 0) (min (n - Suc 0) (Suc (length l))) = Suc (length l)" using l by simp
  have "takeWhile (\<lambda>c. c \<noteq> CHR 0x00) (l @ [newline]) = l @ [newline]"
    using l by (auto simp: takeWhile_eq_all_conv)
  moreover have "mem_service_trim_line (l @ [newline]) = l"
    using trim_clean [OF l(1)] by (simp add: mem_service_trim_line_def)
  ultimately show ?thesis
    by (subst text_lines.simps) (simp add: line_of_append [OF nl] k Let_def del: takeWhile_append max_Suc_Suc min_Suc_Suc)
qed

lemma text_lines_text_of:
  "\<forall>l\<in>set ls. clean l \<and> CHR 0x00 \<notin> set l \<and> length l + 1 < n \<Longrightarrow> text_lines n (text_of ls) = ls"
proof (induction ls)
  case Nil
  show ?case by (subst text_lines.simps) simp
next
  case (Cons l ls)
  have "text_of (l # ls) = l @ newline # text_of ls" by (simp add: text_of_def)
  with Cons show ?case by (simp add: text_lines_line)
qed

lemma clean_prefix: "clean v \<Longrightarrow> v \<noteq> [] \<Longrightarrow> newline \<notin> set n \<Longrightarrow> clean (n @ v)"
  by (auto simp: clean_def)

lemma read_chunk_manifest_back:
  "read_chunk_manifest (chunked_manifest n len c) =
     \<lparr>cm_chunk_count = n, cm_chunk_size = 1024, cm_total_checksum = c, cm_saw_chunk_count = True,
      cm_saw_total_checksum = True\<rparr>"
proof -
  let ?ls = "[''chunk_count='' @ show_word n, ''chunk_size='' @ decimal MEM_SERVICE_CHUNKED_BLOCK_SIZE,
              ''total_len='' @ show_word len, ''total_checksum=0x'' @ hex16 c]"
  have "length (decimal 1024) \<le> 20" using decimal_length [of 1024 20] by simp
  moreover have "clean (''chunk_count='' @ show_word n)" "clean (''chunk_size='' @ decimal 1024)"
    "clean (''total_len='' @ show_word len)" "clean (''total_checksum=0x'' @ hex16 c)"
    by (rule clean_prefix; simp add: show_word_def)+
  moreover have "length (show_word n) \<le> 20" "length (show_word len) \<le> 20" by simp_all
  ultimately have lines: "text_lines 128 (text_of ?ls) = ?ls"
    by (intro text_lines_text_of) (auto simp: MEM_SERVICE_CHUNKED_BLOCK_SIZE_def show_word_def)
  have "unat n < 2 ^ 32" using unsigned_less [of n] by simp
  then have "strtoul_base 10 (show_word n) = (ucast n, [])" by (simp add: show_word_def)
  moreover have "ucast (ucast n :: u64) = n" by (rule bit_word_eqI) (simp add: bit_unsigned_iff)
  ultimately show ?thesis unfolding read_chunk_manifest_def chunked_manifest_def lines
    by (simp add: chunk_manifest_line_def starts_with_def MEM_SERVICE_CHUNKED_BLOCK_SIZE_def)
qed

lemma read_transport_manifest_back:
  assumes b: "clean backend" "backend \<noteq> []" "CHR 0x00 \<notin> set backend" "length backend \<le> 32"
    and t: "clean transport" "transport \<noteq> []" "CHR 0x00 \<notin> set transport" "length transport \<le> 32"
  shows "read_transport_manifest backend transport (transport_manifest backend transport len c) =
    \<lparr>tm_saw_backend = True, tm_saw_transport = True, tm_saw_total_checksum = True, tm_total_checksum = c\<rparr>"
proof -
  let ?ls = "[''backend='' @ backend, ''transport='' @ transport,
    ''payload='' @ MEM_SERVICE_TRANSPORT_BLOCK_PAYLOAD, ''total_len='' @ show_word len,
    ''total_checksum=0x'' @ hex16 c]"
  have "clean (''backend='' @ backend)" "clean (''transport='' @ transport)"
    "clean (''total_len='' @ show_word len)" "clean (''total_checksum=0x'' @ hex16 c)"
    using b t by (intro clean_prefix; simp add: show_word_def)+
  moreover have "length (show_word len) \<le> 20" by simp
  ultimately have lines: "text_lines 160 (text_of ?ls) = ?ls" using b t
    by (intro text_lines_text_of) (auto simp: layout_names clean_def show_word_def)
  show ?thesis unfolding read_transport_manifest_def transport_manifest_def lines
    by (simp add: transport_manifest_line_def starts_with_def layout_names)
qed

section \<open>Names of chunks and temporary files\<close>

definition ends_digit :: "cstr \<Rightarrow> bool" where
  "ends_digit p \<longleftrightarrow> p \<noteq> [] \<and> digit_value (last p) < 10"

lemma ends_digit_decimal [simp]: "ends_digit (p @ decimal n)"
proof -
  have "last (decimal n) \<in> set (decimal n)" by simp
  then show ?thesis using decimal_digits [of "last (decimal n)" n] by (auto simp: ends_digit_def)
qed

lemma ends_digit_Cons_decimal [simp]: "ends_digit (c # decimal n)"
  using ends_digit_decimal [of "[c]" n] by simp

lemma ends_digit_append [simp]: "q \<noteq> [] \<Longrightarrow> ends_digit (p @ q) = ends_digit q"
  by (simp add: ends_digit_def)

lemma ends_digit_Cons [simp]: "q \<noteq> [] \<Longrightarrow> ends_digit (c # q) = ends_digit q"
  by (simp add: ends_digit_def)

lemma ends_digit_show_word [simp]: "ends_digit (show_word w)" "show_word w \<noteq> []"
  using ends_digit_decimal [of "[]"] by (simp_all add: show_word_def)

lemma decimal4_inj: "decimal4 m = decimal4 n \<Longrightarrow> m = n"
proof -
  have "digits_value 10 (replicate k CHR ''0'' @ ds) = digits_value 10 ds" for k ds
    by (induction k) (simp_all add: digits_value_Cons digit_value_def)
  then have "digits_value 10 (decimal4 k) = k" for k by (simp add: decimal4_def decimal_value)
  then show "decimal4 m = decimal4 n \<Longrightarrow> m = n" by metis
qed

lemma join_pathD:
  "mem_service_join_path n dir name = Some p \<Longrightarrow>
     p = dir @ (if last dir = CHR ''/'' then [] else ''/'') @ name \<and> name \<noteq> [] \<and> length p < n"
  by (auto simp: mem_service_join_path_def Let_def split: if_splits)

lemma chunk_pathD:
  assumes "mem_service_make_chunked_block_chunk_path dir i n = Some p"
  shows "p = dir @ (if last dir = CHR ''/'' then [] else ''/'') @ decimal4 (unat i) @ ''.chunk''"
    and "\<not> ends_digit p" and "last p = CHR ''k''"
  using assms
  by (auto simp: mem_service_make_chunked_block_chunk_path_def Let_def ends_digit_def digit_value_def
      dest!: join_pathD split: if_splits)

lemma chunk_path_inj:
  assumes "mem_service_make_chunked_block_chunk_path dir i n = Some p"
    and "mem_service_make_chunked_block_chunk_path dir j n = Some p"
  shows "i = j"
proof -
  have "decimal4 (unat i) = decimal4 (unat j)"
    using chunk_pathD(1) [OF assms(1)] chunk_pathD(1) [OF assms(2)] by simp
  then show ?thesis using decimal4_inj by (metis word_unat_eq_iff)
qed

lemma payload_tmp_path_digit:
  "mem_service_make_payload_tmp_path env root n fw = (Some tmp, fw') \<Longrightarrow>
     ends_digit tmp \<and> fw_files fw' = fw_files fw"
  by (auto simp: mem_service_make_payload_tmp_path_def Let_def dest!: join_pathD
      split: option.splits if_splits)

lemma manifest_tmp_digit: "manifest_tmp_path env path = Some tmp \<Longrightarrow> ends_digit tmp"
  by (auto simp: manifest_tmp_path_def Let_def split: if_splits)

section \<open>Chunks that were written\<close>

lemma write_file_files:
  "fs_write_file env p bytes fw = (ok, fw') \<Longrightarrow> q \<noteq> p \<Longrightarrow> fw_files fw' q = fw_files fw q"
  by (auto simp: fs_write_file_def fs_unlink_def split: if_splits)

lemma write_chunk_ok:
  assumes "write_chunk env dir i seq bytes fw = (True, fw')"
  obtains p where "mem_service_make_chunked_block_chunk_path dir i 512 = Some p"
    and "fw_files fw' p = Some bytes"
    and "\<And>q. q \<noteq> p \<Longrightarrow> \<not> ends_digit q \<Longrightarrow> fw_files fw' q = fw_files fw q"
proof -
  from assms obtain p where p: "mem_service_make_chunked_block_chunk_path dir i 512 = Some p"
    by (auto simp: write_chunk_def Let_def split: option.splits)
  define tmp where "tmp = p @ ''.tmp'' @ ''.'' @ decimal (io_pid env) @ ''.'' @ show_word seq"
  have d: "ends_digit tmp" by (simp add: tmp_def)
  with chunk_pathD(2) [OF p] have ne: "tmp \<noteq> p" by blast
  from assms p have "fs_write_file env tmp bytes fw = (True, fw\<lparr>fw_files := (fw_files fw)(tmp \<mapsto> bytes)\<rparr>) \<and>
      fs_rename env tmp p (fw\<lparr>fw_files := (fw_files fw)(tmp \<mapsto> bytes)\<rparr>) = (True, fw')"
    by (auto simp: write_chunk_def Let_def tmp_def fs_write_file_def
        split: if_splits prod.splits bool.splits)
  then have "fw_files fw' = (((fw_files fw)(tmp \<mapsto> bytes))(tmp := None))(p \<mapsto> bytes)"
    by (auto simp: fs_rename_def split: if_splits)
  then have "fw_files fw' q = fw_files fw q" if "q \<noteq> p" "\<not> ends_digit q" for q using that d by auto
  moreover have "fw_files fw' p = Some bytes" using \<open>fw_files fw' = _\<close> by simp
  ultimately show thesis using p that by blast
qed

lemma copy_chunks_cong:
  assumes "\<And>j p. i \<le> j \<Longrightarrow> j < n \<Longrightarrow>
      mem_service_make_chunked_block_chunk_path dir (of_nat j) 512 = Some p \<Longrightarrow> fw_files fw p = fw_files fw' p"
  shows "copy_chunks env dir i n fw = copy_chunks env dir i n fw'"
  using assms
proof (induction "n - i" arbitrary: i)
  case 0
  then show ?case by (simp add: copy_chunks.simps [of env dir i])
next
  case (Suc m)
  have "copy_chunks env dir (i + 1) n fw = copy_chunks env dir (i + 1) n fw'"
  proof (rule Suc.hyps(1))
    show "m = n - (i + 1)" using Suc.hyps(2) by simp
  qed (use Suc.prems in \<open>meson Suc_leD Suc_eq_plus1 add_leD1\<close>)
  moreover have "i < n" using Suc.hyps(2) by simp
  ultimately show ?case using Suc.prems [of i]
    by (cases "mem_service_make_chunked_block_chunk_path dir (of_nat i) 512")
       (simp_all add: copy_chunks.simps [of env dir i] fs_open_def split: option.split)
qed

lemma copy_chunks_read: "copy_chunks env dir i n fw = Inr bytes \<Longrightarrow> read_chunks env dir i n fw = Some bytes"
proof (induction env dir i n fw arbitrary: bytes rule: copy_chunks.induct)
  case (1 env dir i n fw)
  then show ?case
    by (auto simp: copy_chunks.simps [of env dir i] read_chunks.simps [of env dir i]
        split: if_splits option.splits sum.splits)
qed

lemma copy_chunks_step:
  assumes "mem_service_make_chunked_block_chunk_path dir i 512 = Some p" "fw_files fw p = Some got"
    and "\<And>p. io_open_ok env p" "\<And>p. io_read_ok env p"
    and "copy_chunks env dir (unat i + 1) m fw = Inr rest" "unat i < m"
  shows "copy_chunks env dir (unat i) m fw = Inr (got @ rest)"
  using assms by (simp add: copy_chunks.simps [of env dir "unat i"] fs_open_def)

lemma unat_suc32: "unat i + 1 < 2 ^ 32 \<Longrightarrow> unat (i + 1) = unat i + 1" for i :: u32
  by (simp add: unat_word_ariths)

lemma write_chunks_ok:
  assumes "write_chunks env dir i bytes fw = (Some n, fw')"
    and "1024 * unat i + length bytes + 1023 < 2 ^ 42"
    and io: "\<And>p. io_open_ok env p" "\<And>p. io_read_ok env p"
  shows "unat n = unat i + (length bytes + 1023) div 1024 \<and>
    (\<forall>q. \<not> ends_digit q \<longrightarrow> (\<forall>j. unat i \<le> unat j \<longrightarrow>
         mem_service_make_chunked_block_chunk_path dir j 512 \<noteq> Some q) \<longrightarrow>
       fw_files fw' q = fw_files fw q) \<and>
    copy_chunks env dir (unat i) (unat n) fw' = Inr bytes"
  using assms(1,2)
proof (induction bytes arbitrary: i fw rule: measure_induct_rule [where f = length])
  case (less bytes)
  let ?fw0 = "fw\<lparr>fw_tmp_seq := fw_tmp_seq fw + 1\<rparr>" and ?got = "take 1024 bytes"
  note run = less.prems(1) [unfolded write_chunks.simps [of env dir i] MEM_SERVICE_CHUNKED_BLOCK_SIZE_def Let_def]
  show ?case
  proof (cases "bytes = []")
    case True
    with run have "n = i" "fw' = ?fw0" by auto
    with True show ?thesis by (simp add: copy_chunks.simps [of env dir "unat i"])
  next
    case False
    with run obtain fw1 where w: "write_chunk env dir i (fw_tmp_seq fw + 1) ?got ?fw0 = (True, fw1)"
      and rest: "if length bytes < 1024 then n = i + 1 \<and> fw' = fw1
        else write_chunks env dir (i + 1) (drop 1024 bytes) fw1 = (Some n, fw')"
      by (auto simp: min_less_iff_disj split: if_splits prod.splits)
    from write_chunk_ok [OF w] obtain p where p: "mem_service_make_chunked_block_chunk_path dir i 512 = Some p"
      "fw_files fw1 p = Some ?got" "\<And>q. q \<noteq> p \<Longrightarrow> \<not> ends_digit q \<Longrightarrow> fw_files fw1 q = fw_files fw q"
      by auto
    from False have "length bytes \<ge> 1" by (cases bytes) auto
    with less.prems(2) have i1: "unat (i + 1) = unat i + 1" by (intro unat_suc32) simp
    have keep: "fw_files fw1 q = fw_files fw q" if "\<not> ends_digit q"
      "\<forall>j. unat i \<le> unat j \<longrightarrow> mem_service_make_chunked_block_chunk_path dir j 512 \<noteq> Some q" for q
      using that p by (metis order_refl)
    show ?thesis
    proof (cases "length bytes < 1024")
      case True
      with rest have n: "n = i + 1" "fw' = fw1" by auto
      have "copy_chunks env dir (unat i) (unat i + 1) fw1 = Inr (?got @ [])"
        by (rule copy_chunks_step [OF p(1,2) io]) (simp_all add: copy_chunks.simps [of env dir "Suc (unat i)"])
      moreover have "(length bytes + 1023) div 1024 = 1"
        using True \<open>length bytes \<ge> 1\<close> by (intro div_nat_eqI) simp_all
      ultimately show ?thesis using True keep i1 by (simp add: n)
    next
      case long: False
      let ?tl = "drop 1024 bytes"
      have IH: "unat n = unat (i + 1) + (length ?tl + 1023) div 1024 \<and>
        (\<forall>q. \<not> ends_digit q \<longrightarrow> (\<forall>j. unat (i + 1) \<le> unat j \<longrightarrow>
             mem_service_make_chunked_block_chunk_path dir j 512 \<noteq> Some q) \<longrightarrow> fw_files fw' q = fw_files fw1 q) \<and>
        copy_chunks env dir (unat (i + 1)) (unat n) fw' = Inr ?tl"
        using rest long less.prems(2) i1 by (intro less.IH) auto
      have "fw_files fw' p = fw_files fw1 p"
        using IH chunk_pathD(2) [OF p(1)] chunk_path_inj [OF p(1)] i1
        by (metis add.commute not_less_eq_eq order_refl plus_1_eq_Suc)
      moreover have "(length ?tl + 1023) div 1024 + 1 = (length bytes + 1023) div 1024" using long by simp
      ultimately have "copy_chunks env dir (unat i) (unat n) fw' = Inr (?got @ ?tl)"
        using IH i1 p by (intro copy_chunks_step [OF p(1) _ io]) auto
      moreover have "fw_files fw' q = fw_files fw q" if "\<not> ends_digit q"
        "\<forall>j. unat i \<le> unat j \<longrightarrow> mem_service_make_chunked_block_chunk_path dir j 512 \<noteq> Some q" for q
        using IH that keep [OF that] i1 by auto
      ultimately show ?thesis using IH i1 \<open>(length ?tl + 1023) div 1024 + 1 = _\<close> by simp
    qed
  qed
qed

section \<open>The chunked block\<close>

lemma ingest_ok:
  assumes "ingest_to_tmp env inl path tmp fw = (STATUS_OK, (len, c), fw')"
  obtains bytes where "fw_files fw' tmp = Some bytes" "len = of_nat (length bytes)"
    "c = mem_service_checksum_bytes bytes"
    "if inl \<noteq> [] then bytes = bytes_of inl else fw_files fw path = Some bytes"
proof (cases "inl = []")
  case True
  with assms that show thesis
    by (auto simp: ingest_to_tmp_def mem_service_copy_payload_file_to_tmp_def fs_open_def
        split: if_splits option.splits)
next
  case False
  with assms that [of "bytes_of inl"] show thesis
    by (auto simp: ingest_to_tmp_def fs_write_file_def bytes_of_def split: if_splits)
qed

lemma publish_manifest_ok:
  assumes "publish_manifest env mt mp contents fw = (True, fw')" "mt \<noteq> mp"
  shows "fw_files fw' mp = Some (bytes_of contents)"
    and "q \<noteq> mp \<Longrightarrow> q \<noteq> mt \<Longrightarrow> fw_files fw' q = fw_files fw q"
  using assms
  by (auto simp: publish_manifest_def fs_write_file_def fs_rename_def
      split: prod.splits bool.splits if_splits option.splits)

lemma chunked_writeD:
  assumes run: "mem_service_write_chunked_payload_block env dir_ok root payload inl path r fw = (STATUS_OK, r', fw')"
    and some: "inl \<noteq> [] \<or> path \<noteq> []"
  obtains tmp dir mp mt bytes n fw1 fw2 fw3 fw4 where "root \<noteq> []"
    and "mem_service_make_payload_tmp_path env root 512 fw = (Some tmp, fw1)"
    and "if inl \<noteq> [] then bytes = bytes_of inl else fw_files fw1 path = Some bytes"
    and "mem_service_make_chunked_block_dir_path root (mem_service_checksum_bytes bytes) 512 = Some dir"
    and "write_chunks env dir 0 bytes fw2 = (Some n, fw3)"
    and "mem_service_join_path 512 dir MEM_SERVICE_CHUNKED_BLOCK_MANIFEST = Some mp"
    and "manifest_tmp_path env mp = Some mt"
    and "publish_manifest env mt mp (chunked_manifest n (of_nat (length bytes)) (mem_service_checksum_bytes bytes))
           fw3 = (True, fw4)"
    and "fw' = fs_unlink tmp fw4"
    and "r' = seal_record MEM_SERVICE_PAYLOAD_KIND_SEALED_CHUNKED_BLOCK (of_nat (length bytes))
           (mem_service_checksum_bytes bytes) r"
proof -
  from run some obtain tmp fw1 len c fw2 where root: "root \<noteq> []"
    and tmp: "mem_service_make_payload_tmp_path env root 512 fw = (Some tmp, fw1)"
    and ing: "ingest_to_tmp env inl path tmp fw1 = (STATUS_OK, (len, c), fw2)"
    by (auto simp: mem_service_write_chunked_payload_block_def Let_def split: if_splits option.splits prod.splits)
  from ing obtain bytes where b: "fw_files fw2 tmp = Some bytes" "len = of_nat (length bytes)"
    "c = mem_service_checksum_bytes bytes"
    "if inl \<noteq> [] then bytes = bytes_of inl else fw_files fw1 path = Some bytes" by (rule ingest_ok)
  from run some root tmp ing b(1) obtain dir n fw3 mp mt fw4 where
    "mem_service_make_chunked_block_dir_path root c 512 = Some dir"
    "write_chunks env dir 0 bytes fw2 = (Some n, fw3)"
    "mem_service_join_path 512 dir MEM_SERVICE_CHUNKED_BLOCK_MANIFEST = Some mp"
    "manifest_tmp_path env mp = Some mt"
    "publish_manifest env mt mp (chunked_manifest n len c) fw3 = (True, fw4)"
    "fw' = fs_unlink tmp fw4" "r' = seal_record MEM_SERVICE_PAYLOAD_KIND_SEALED_CHUNKED_BLOCK len c r"
    by (auto simp: mem_service_write_chunked_payload_block_def Let_def fs_open_def
        split: if_splits option.splits prod.splits bool.splits)
  with root tmp b that show thesis by simp
qed

text \<open>The manifest of a block differs from its chunks and from every temporary file.\<close>

lemma manifest_pathD:
  "mem_service_join_path n dir MEM_SERVICE_CHUNKED_BLOCK_MANIFEST = Some mp \<Longrightarrow>
     \<not> ends_digit mp \<and> last mp = CHR ''t''"
  by (auto simp: layout_names ends_digit_def digit_value_def dest!: join_pathD)

lemma chunk_ne_manifest:
  "mem_service_make_chunked_block_chunk_path dir j n = Some p \<Longrightarrow>
   mem_service_join_path m dir MEM_SERVICE_CHUNKED_BLOCK_MANIFEST = Some mp \<Longrightarrow> p \<noteq> mp"
  using chunk_pathD(3) manifest_pathD by fastforce

lemma chunk_count_back:
  assumes "l + 1023 < 2 ^ 42" "unat n = (l + 1023) div 1024"
  shows "ucast ((of_nat l + of_nat MEM_SERVICE_CHUNKED_BLOCK_SIZE - 1 :: u64) div of_nat MEM_SERVICE_CHUNKED_BLOCK_SIZE)
    = (n :: u32)"
proof -
  have "(of_nat l + of_nat MEM_SERVICE_CHUNKED_BLOCK_SIZE - 1 :: u64) = of_nat (l + 1023)"
    by (simp add: MEM_SERVICE_CHUNKED_BLOCK_SIZE_def)
  moreover have "unat (of_nat (l + 1023) :: u64) = l + 1023" using assms(1)
    by (subst unsigned_of_nat) (simp add: take_bit_nat_eq_self)
  ultimately have "unat ((of_nat l + of_nat MEM_SERVICE_CHUNKED_BLOCK_SIZE - 1 :: u64)
      div of_nat MEM_SERVICE_CHUNKED_BLOCK_SIZE) = unat n"
    by (simp add: unat_div MEM_SERVICE_CHUNKED_BLOCK_SIZE_def assms(2) add.commute [of 1023])
  then show ?thesis by (metis of_nat_unat ucast_id)
qed

text \<open>Cutting the contents into chunks and writing the manifest loses nothing. The bound keeps the
  chunk count in its 32 bits.\<close>

lemma chunked_write_validates:
  assumes run: "mem_service_write_chunked_payload_block env dir_ok root payload inl path r fw = (STATUS_OK, r', fw')"
    and some: "inl \<noteq> [] \<or> path \<noteq> []"
    and nz: "rec_object_payload_checksum r' \<noteq> 0" "rec_object_backing_len r' \<noteq> 0"
    and small: "length inl < 2 ^ 41" "\<And>bytes. fw_files fw path = Some bytes \<Longrightarrow> length bytes < 2 ^ 41"
    and io: "\<And>p. io_open_ok env p" "\<And>p. io_read_ok env p"
  shows "\<exists>bytes. (if inl \<noteq> [] then bytes = bytes_of inl else fw_files fw path = Some bytes) \<and>
    rec_object_backing_len r' = of_nat (length bytes) \<and>
    rec_object_payload_checksum r' = mem_service_checksum_bytes bytes \<and>
    mem_service_validate_chunked_payload_block env root r' fw' = (STATUS_OK, fw') \<and>
    materialize_chunks env root r' fw' = Inr bytes"
proof -
  from run some obtain tmp dir mp mt bytes n fw1 fw2 fw3 fw4 where root: "root \<noteq> []"
    and tmp: "mem_service_make_payload_tmp_path env root 512 fw = (Some tmp, fw1)"
    and b: "if inl \<noteq> [] then bytes = bytes_of inl else fw_files fw1 path = Some bytes"
    and dir: "mem_service_make_chunked_block_dir_path root (mem_service_checksum_bytes bytes) 512 = Some dir"
    and w: "write_chunks env dir 0 bytes fw2 = (Some n, fw3)"
    and mp: "mem_service_join_path 512 dir MEM_SERVICE_CHUNKED_BLOCK_MANIFEST = Some mp"
    and mt: "manifest_tmp_path env mp = Some mt"
    and pub: "publish_manifest env mt mp
      (chunked_manifest n (of_nat (length bytes)) (mem_service_checksum_bytes bytes)) fw3 = (True, fw4)"
    and fw': "fw' = fs_unlink tmp fw4"
    and r': "r' = seal_record MEM_SERVICE_PAYLOAD_KIND_SEALED_CHUNKED_BLOCK (of_nat (length bytes))
      (mem_service_checksum_bytes bytes) r"
    by (rule chunked_writeD)
  note d = payload_tmp_path_digit [OF tmp] manifest_tmp_digit [OF mt] manifest_pathD [OF mp]
  have len: "length bytes < 2 ^ 41" using b small d(1) by (auto simp: bytes_of_def split: if_splits)
  have n: "unat n = (length bytes + 1023) div 1024" "copy_chunks env dir 0 (unat n) fw3 = Inr bytes"
    using write_chunks_ok [OF w _ io] len by auto
  have ne: "mt \<noteq> mp" "tmp \<noteq> mp" using d by auto
  have man: "fw_files fw' mp = Some (bytes_of (chunked_manifest n (of_nat (length bytes))
      (mem_service_checksum_bytes bytes)))"
    using publish_manifest_ok(1) [OF pub ne(1)] ne by (simp add: fw' fs_unlink_def)
  have "fw_files fw' p = fw_files fw3 p" if "mem_service_make_chunked_block_chunk_path dir j 512 = Some p" for j p
    using publish_manifest_ok(2) [OF pub ne(1)] chunk_pathD(2) [OF that] chunk_ne_manifest [OF that mp] d
    by (auto simp: fw' fs_unlink_def)
  then have copy: "copy_chunks env dir 0 (unat n) fw' = Inr bytes"
    using n(2) copy_chunks_cong [of 0 "unat n" dir fw' fw3 env] by simp
  have "bytes \<noteq> []" using nz(2) by (auto simp: r' seal_record_def)
  then have "unat n \<noteq> 0" using n(1) by (cases bytes) auto
  then have "mem_service_validate_chunked_payload_block env root r' fw' = (STATUS_OK, fw')"
    using nz(1) root dir mp man copy_chunks_read [OF copy] io
    by (auto simp: mem_service_validate_chunked_payload_block_def Let_def r' seal_record_def fs_open_def
        read_chunk_manifest_back MEM_SERVICE_CHUNKED_BLOCK_SIZE_def)
  moreover have "materialize_chunks env root r' fw' = Inr bytes"
    using chunk_count_back [OF _ n(1)] len dir copy
    by (simp add: materialize_chunks_def r' seal_record_def Let_def)
  ultimately show ?thesis using b d(1) by (auto simp: r' seal_record_def)
qed

section \<open>The transport blocks\<close>

text \<open>The part the two layouts share: what was in the temporary file is the block.\<close>

lemma publish_transport_validates:
  assumes run: "publish_transport_block env dir_ok dir backend transport kind quarantine tmp
      (of_nat (length bytes)) (mem_service_checksum_bytes bytes) r fw = (STATUS_OK, r', fw')"
    and bytes: "fw_files fw tmp = Some bytes" "mem_service_checksum_bytes bytes \<noteq> 0" "root \<noteq> []"
    and names: "clean backend" "backend \<noteq> []" "CHR 0x00 \<notin> set backend" "length backend \<le> 32"
      "clean transport" "transport \<noteq> []" "CHR 0x00 \<notin> set transport" "length transport \<le> 32"
    and io: "\<And>p. io_open_ok env p" "\<And>p. io_read_ok env p"
  shows "r' = seal_record kind (of_nat (length bytes)) (mem_service_checksum_bytes bytes) r \<and>
    (\<exists>d p. dir = Some d \<and> mem_service_join_path 512 d MEM_SERVICE_TRANSPORT_BLOCK_PAYLOAD = Some p \<and>
       fw_files fw' p = Some bytes) \<and>
    validate_transport_dir env root dir backend transport q r' fw' = (STATUS_OK, fw')"
proof -
  from run obtain d p mp mt fw1 where d: "dir = Some d"
    and p: "mem_service_join_path 512 d MEM_SERVICE_TRANSPORT_BLOCK_PAYLOAD = Some p"
    and mp: "mem_service_join_path 512 d MEM_SERVICE_TRANSPORT_BLOCK_MANIFEST = Some mp"
    and mt: "manifest_tmp_path env mp = Some mt"
    and ren: "fs_rename env tmp p fw = (True, fw1)"
    and pub: "publish_manifest env mt mp (transport_manifest backend transport (of_nat (length bytes))
        (mem_service_checksum_bytes bytes)) fw1 = (True, fw')"
    and r': "r' = seal_record kind (of_nat (length bytes)) (mem_service_checksum_bytes bytes) r"
    by (auto simp: publish_transport_block_def split: option.splits if_splits prod.splits bool.splits)
  have nd: "\<not> ends_digit p" "last p = CHR ''k''" "\<not> ends_digit mp" "last mp = CHR ''t''"
    using p mp by (auto simp: layout_names ends_digit_def digit_value_def dest!: join_pathD)
  with manifest_tmp_digit [OF mt] have ne: "p \<noteq> mp" "p \<noteq> mt" "mt \<noteq> mp" by auto
  have "fw_files fw1 p = Some bytes" using ren bytes by (auto simp: fs_rename_def split: if_splits)
  with publish_manifest_ok [OF pub ne(3)] ne have f: "fw_files fw' p = Some bytes"
    "fw_files fw' mp = Some (bytes_of (transport_manifest backend transport (of_nat (length bytes))
       (mem_service_checksum_bytes bytes)))" by simp_all
  then have "validate_transport_dir env root dir backend transport q r' fw' = (STATUS_OK, fw')"
    using bytes d p mp io
    by (simp add: validate_transport_dir_def r' seal_record_def fs_open_def read_transport_manifest_back [OF names])
  with r' d p f show ?thesis by simp
qed

lemma transport_write_validates:
  assumes run: "mem_service_write_transport_payload_block env dir_ok root payload inl path r fw = (STATUS_OK, r', fw')"
    and some: "inl \<noteq> [] \<or> path \<noteq> []" and nz: "rec_object_payload_checksum r' \<noteq> 0"
    and io: "\<And>p. io_open_ok env p" "\<And>p. io_read_ok env p"
  shows "\<exists>bytes p. (if inl \<noteq> [] then bytes = bytes_of inl else fw_files fw path = Some bytes) \<and>
    r' = seal_record MEM_SERVICE_PAYLOAD_KIND_TRANSPORT_LOOPBACK_BLOCK (of_nat (length bytes))
           (mem_service_checksum_bytes bytes) r \<and>
    mem_service_validate_transport_payload_block env root r' fw' = (STATUS_OK, fw') \<and>
    mem_service_materialize_source_path root r' 512 = Some p \<and> fw_files fw' p = Some bytes"
proof -
  from run some obtain tmp fw1 len c fw2 where root: "root \<noteq> []"
    and tmp: "mem_service_make_payload_tmp_path env root 512 fw = (Some tmp, fw1)"
    and ing: "ingest_to_tmp env inl path tmp fw1 = (STATUS_OK, (len, c), fw2)"
    by (auto simp: mem_service_write_transport_payload_block_def Let_def split: if_splits option.splits prod.splits)
  from ing obtain bytes where b: "fw_files fw2 tmp = Some bytes" "len = of_nat (length bytes)"
    "c = mem_service_checksum_bytes bytes"
    "if inl \<noteq> [] then bytes = bytes_of inl else fw_files fw1 path = Some bytes" by (rule ingest_ok)
  let ?dir = "mem_service_make_transport_block_dir_path root (mem_service_checksum_bytes bytes) 512"
  from run some root tmp ing b have pub: "publish_transport_block env dir_ok ?dir
      ''transport-loopback-block-v1'' ''file-copy-v1'' MEM_SERVICE_PAYLOAD_KIND_TRANSPORT_LOOPBACK_BLOCK
      (mem_service_quarantine_transport_payload_block env root (mem_service_checksum_bytes bytes)) tmp
      (of_nat (length bytes)) (mem_service_checksum_bytes bytes) r fw2 = (STATUS_OK, r', fw')"
    by (auto simp: mem_service_write_transport_payload_block_def Let_def split: if_splits)
  from pub have "rec_object_payload_checksum r' = mem_service_checksum_bytes bytes"
    by (auto simp: publish_transport_block_def seal_record_def
        split: option.splits if_splits prod.splits bool.splits)
  with nz have "mem_service_checksum_bytes bytes \<noteq> 0" by simp
  have names: "clean ''transport-loopback-block-v1''" "''transport-loopback-block-v1'' \<noteq> []" "CHR 0x00 \<notin> set ''transport-loopback-block-v1''" "length ''transport-loopback-block-v1'' \<le> 32"
    "clean ''file-copy-v1''" "''file-copy-v1'' \<noteq> []" "CHR 0x00 \<notin> set ''file-copy-v1''" "length ''file-copy-v1'' \<le> 32"
    by (simp_all add: clean_def)
  from publish_transport_validates [OF pub b(1) \<open>mem_service_checksum_bytes bytes \<noteq> 0\<close> root names io,
      of "mem_service_quarantine_transport_payload_block env root (rec_object_payload_checksum r') fw'"]
  obtain d p where r': "r' = seal_record MEM_SERVICE_PAYLOAD_KIND_TRANSPORT_LOOPBACK_BLOCK (of_nat (length bytes)) (mem_service_checksum_bytes bytes) r"
    and p: "?dir = Some d" "mem_service_join_path 512 d MEM_SERVICE_TRANSPORT_BLOCK_PAYLOAD = Some p"
      "fw_files fw' p = Some bytes"
    and v: "validate_transport_dir env root ?dir ''transport-loopback-block-v1'' ''file-copy-v1''
      (mem_service_quarantine_transport_payload_block env root (rec_object_payload_checksum r') fw') r' fw' = (STATUS_OK, fw')" by blast
  from r' v have "mem_service_validate_transport_payload_block env root r' fw' = (STATUS_OK, fw')"
    by (simp add: mem_service_validate_transport_payload_block_def seal_record_def)
  moreover from r' p have "mem_service_materialize_source_path root r' 512 = Some p"
    by (simp add: mem_service_materialize_source_path_def mem_service_make_transport_block_dir_path_def
        layout_names payload_kind_defs seal_record_def)
  ultimately show ?thesis using r' p(3) payload_tmp_path_digit [OF tmp] b(4) by auto
qed

lemma transport_tcp_write_validates:
  assumes run: "mem_service_write_transport_tcp_payload_block env dir_ok peer root payload inl path r fw =
      (STATUS_OK, r', fw')"
    and nz: "rec_object_payload_checksum r' \<noteq> 0"
    and io: "\<And>p. io_open_ok env p" "\<And>p. io_read_ok env p"
  shows "\<exists>bytes p host port. inl = [] \<and> mem_service_parse_tcp_payload_source path = Some (host, port) \<and>
    peer host port = Sends bytes \<and>
    r' = seal_record MEM_SERVICE_PAYLOAD_KIND_TRANSPORT_TCP_BLOCK (of_nat (length bytes))
           (mem_service_checksum_bytes bytes) r \<and>
    mem_service_validate_transport_tcp_payload_block env root r' fw' = (STATUS_OK, fw') \<and>
    mem_service_materialize_source_path root r' 512 = Some p \<and> fw_files fw' p = Some bytes"
proof -
  from run obtain tmp fw1 len c fw2 where root: "root \<noteq> []" "inl = []"
    and tmp: "mem_service_make_payload_tmp_path env root 512 fw = (Some tmp, fw1)"
    and fetch: "mem_service_fetch_tcp_payload_to_tmp env peer path tmp fw1 = (STATUS_OK, (len, c), fw2)"
    by (auto simp: mem_service_write_transport_tcp_payload_block_def Let_def
        split: if_splits option.splits prod.splits)
  from fetch obtain bytes host port where src: "mem_service_parse_tcp_payload_source path = Some (host, port)"
    "peer host port = Sends bytes"
    and b: "fw_files fw2 tmp = Some bytes" "len = of_nat (length bytes)" "c = mem_service_checksum_bytes bytes"
    by (auto simp: mem_service_fetch_tcp_payload_to_tmp_def fs_write_file_def
        split: if_splits option.splits prod.splits tcp_peer.splits bool.splits)
  let ?dir = "mem_service_make_transport_tcp_block_dir_path root (mem_service_checksum_bytes bytes) 512"
  from run root tmp fetch b have pub: "publish_transport_block env dir_ok ?dir
      ''transport-tcp-block-v1'' ''tcp-loopback-v1'' MEM_SERVICE_PAYLOAD_KIND_TRANSPORT_TCP_BLOCK
      (mem_service_quarantine_transport_tcp_payload_block env root (mem_service_checksum_bytes bytes)) tmp
      (of_nat (length bytes)) (mem_service_checksum_bytes bytes) r fw2 = (STATUS_OK, r', fw')"
    by (auto simp: mem_service_write_transport_tcp_payload_block_def Let_def split: if_splits)
  from pub have "rec_object_payload_checksum r' = mem_service_checksum_bytes bytes"
    by (auto simp: publish_transport_block_def seal_record_def
        split: option.splits if_splits prod.splits bool.splits)
  with nz have "mem_service_checksum_bytes bytes \<noteq> 0" by simp
  have names: "clean ''transport-tcp-block-v1''" "''transport-tcp-block-v1'' \<noteq> []" "CHR 0x00 \<notin> set ''transport-tcp-block-v1''" "length ''transport-tcp-block-v1'' \<le> 32"
    "clean ''tcp-loopback-v1''" "''tcp-loopback-v1'' \<noteq> []" "CHR 0x00 \<notin> set ''tcp-loopback-v1''" "length ''tcp-loopback-v1'' \<le> 32"
    by (simp_all add: clean_def)
  from publish_transport_validates [OF pub b(1) \<open>mem_service_checksum_bytes bytes \<noteq> 0\<close> root(1) names io,
      of "mem_service_quarantine_transport_tcp_payload_block env root (rec_object_payload_checksum r') fw'"]
  obtain d p where r': "r' = seal_record MEM_SERVICE_PAYLOAD_KIND_TRANSPORT_TCP_BLOCK (of_nat (length bytes)) (mem_service_checksum_bytes bytes) r"
    and p: "?dir = Some d" "mem_service_join_path 512 d MEM_SERVICE_TRANSPORT_BLOCK_PAYLOAD = Some p"
      "fw_files fw' p = Some bytes"
    and v: "validate_transport_dir env root ?dir ''transport-tcp-block-v1'' ''tcp-loopback-v1''
      (mem_service_quarantine_transport_tcp_payload_block env root (rec_object_payload_checksum r') fw') r' fw' = (STATUS_OK, fw')" by blast
  from r' v have "mem_service_validate_transport_tcp_payload_block env root r' fw' = (STATUS_OK, fw')"
    by (simp add: mem_service_validate_transport_tcp_payload_block_def seal_record_def)
  moreover from r' p have "mem_service_materialize_source_path root r' 512 = Some p"
    by (simp add: mem_service_materialize_source_path_def mem_service_make_transport_tcp_block_dir_path_def
        layout_names payload_kind_defs seal_record_def)
  ultimately show ?thesis using r' p(3) src root(2) by auto
qed

section \<open>Properties\<close>

lemma layout_write_validates:
  assumes run: "mem_service_write_payload_block env (layout_backends env dir_ok rmdir peer) root payload inl path
      r fw = (STATUS_OK, r', fw')"
    and kind: "mem_service_payload_get_u32 payload ''payload_kind'' 0 = k"
      "k \<in> {MEM_SERVICE_PAYLOAD_KIND_SEALED_CHUNKED_BLOCK, MEM_SERVICE_PAYLOAD_KIND_TRANSPORT_LOOPBACK_BLOCK,
         MEM_SERVICE_PAYLOAD_KIND_TRANSPORT_TCP_BLOCK}"
    and some: "inl \<noteq> [] \<or> path \<noteq> []"
    and nz: "rec_object_payload_checksum r' \<noteq> 0"
    and chunked: "k = MEM_SERVICE_PAYLOAD_KIND_SEALED_CHUNKED_BLOCK \<Longrightarrow> rec_object_backing_len r' \<noteq> 0 \<and>
      length inl < 2 ^ 41 \<and> (\<forall>bytes. fw_files fw path = Some bytes \<longrightarrow> length bytes < 2 ^ 41)"
    and io: "\<And>p. io_open_ok env p" "\<And>p. io_read_ok env p" "\<not> io_short_write env tmp"
  shows "\<exists>bytes.
    (if k = MEM_SERVICE_PAYLOAD_KIND_TRANSPORT_TCP_BLOCK
     then \<exists>host port. mem_service_parse_tcp_payload_source path = Some (host, port) \<and> peer host port = Sends bytes
     else if inl \<noteq> [] then bytes = bytes_of inl else fw_files fw path = Some bytes) \<and>
    rec_object_payload_kind r' = k \<and> rec_object_backing_len r' = of_nat (length bytes) \<and>
    rec_object_payload_checksum r' = mem_service_checksum_bytes bytes \<and>
    mem_service_validate_payload_block env (layout_backends env dir_ok rmdir peer) root r' fw' = (STATUS_OK, fw') \<and>
    materialize_source env (layout_backends env dir_ok rmdir peer) root r' tmp fw' = Inr bytes"
proof -
  note dispatch = mem_service_write_payload_block_def mem_service_validate_payload_block_def layout_backends_def
    materialize_source_def payload_kind_defs Let_def
  consider (chunked) "k = MEM_SERVICE_PAYLOAD_KIND_SEALED_CHUNKED_BLOCK"
    | (loopback) "k = MEM_SERVICE_PAYLOAD_KIND_TRANSPORT_LOOPBACK_BLOCK"
    | (tcp) "k = MEM_SERVICE_PAYLOAD_KIND_TRANSPORT_TCP_BLOCK" using kind(2) by blast
  then show ?thesis
  proof cases
    case chunked
    with run kind(1) some have w:
      "mem_service_write_chunked_payload_block env dir_ok root payload inl path r fw = (STATUS_OK, r', fw')"
      by (auto simp: dispatch split: if_splits)
    have k: "rec_object_payload_kind r' = k"
      using w some chunked by (auto elim!: chunked_writeD simp: seal_record_def)
    from chunked_write_validates [OF w some nz _ _ _ io(1,2)] assms(6) chunked k io(3) show ?thesis
      by (auto simp: dispatch)
  next
    case loopback
    with run kind(1) some have w:
      "mem_service_write_transport_payload_block env dir_ok root payload inl path r fw = (STATUS_OK, r', fw')"
      by (auto simp: dispatch split: if_splits)
    from transport_write_validates [OF w some nz io(1,2)] loopback io show ?thesis
      by (auto simp: dispatch seal_record_def fs_open_def)
  next
    case tcp
    with run kind(1) some have w:
      "mem_service_write_transport_tcp_payload_block env dir_ok peer root payload inl path r fw = (STATUS_OK, r', fw')"
      by (auto simp: dispatch split: if_splits)
    from transport_tcp_write_validates [OF w nz io(1,2)] tcp io show ?thesis
      by (auto simp: dispatch seal_record_def fs_open_def)
  qed
qed

text \<open>Each validator takes a checksum of 0 for a missing one.\<close>

lemma layout_write_kind:
  assumes run: "mem_service_write_payload_block env (layout_backends env dir_ok rmdir peer) root payload inl path
      r fw = (STATUS_OK, r', fw')"
    and kind: "mem_service_payload_get_u32 payload ''payload_kind'' 0 = k"
      "k \<in> {MEM_SERVICE_PAYLOAD_KIND_SEALED_CHUNKED_BLOCK, MEM_SERVICE_PAYLOAD_KIND_TRANSPORT_LOOPBACK_BLOCK,
         MEM_SERVICE_PAYLOAD_KIND_TRANSPORT_TCP_BLOCK}"
    and some: "inl \<noteq> [] \<or> path \<noteq> []"
  shows "rec_object_payload_kind r' = k"
proof -
  have pub: "rec_object_payload_kind r2 = kd"
    if "publish_transport_block env dir_ok dir b t kd q tmp len c r fw1 = (STATUS_OK, r2, fw2)" for dir b t kd q tmp len c fw1 r2 fw2
    using that by (auto simp: publish_transport_block_def seal_record_def split: option.splits if_splits prod.splits bool.splits)
  note dispatch = mem_service_write_payload_block_def layout_backends_def payload_kind_defs Let_def
  consider "k = MEM_SERVICE_PAYLOAD_KIND_SEALED_CHUNKED_BLOCK"
      "mem_service_write_chunked_payload_block env dir_ok root payload inl path r fw = (STATUS_OK, r', fw')"
    | "k = MEM_SERVICE_PAYLOAD_KIND_TRANSPORT_LOOPBACK_BLOCK"
      "mem_service_write_transport_payload_block env dir_ok root payload inl path r fw = (STATUS_OK, r', fw')"
    | "k = MEM_SERVICE_PAYLOAD_KIND_TRANSPORT_TCP_BLOCK"
      "mem_service_write_transport_tcp_payload_block env dir_ok peer root payload inl path r fw = (STATUS_OK, r', fw')"
    using run kind some by (auto simp: dispatch split: if_splits)
  then show ?thesis
  proof cases
    case 1
    then show ?thesis using some by (auto elim!: chunked_writeD simp: seal_record_def)
  next
    case 2
    then show ?thesis
      using pub some by (auto simp: mem_service_write_transport_payload_block_def Let_def
          split: if_splits option.splits prod.splits)
  next
    case 3
    then show ?thesis
      using pub by (auto simp: mem_service_write_transport_tcp_payload_block_def Let_def
          split: if_splits option.splits prod.splits)
  qed
qed

lemma zero_checksum_refused:
  assumes "rec_object_payload_checksum r = 0" "rec_object_payload_kind r = k"
    "k \<in> {MEM_SERVICE_PAYLOAD_KIND_SEALED_CHUNKED_BLOCK, MEM_SERVICE_PAYLOAD_KIND_TRANSPORT_LOOPBACK_BLOCK,
         MEM_SERVICE_PAYLOAD_KIND_TRANSPORT_TCP_BLOCK}"
  shows "fst (mem_service_validate_payload_block env (layout_backends env dir_ok rmdir peer) root r fw) = STATUS_CHECKSUM_MISMATCH"
  using assms
  by (auto simp: mem_service_validate_payload_block_def layout_backends_def payload_kind_defs Let_def
      mem_service_validate_chunked_payload_block_def mem_service_validate_transport_payload_block_def
      mem_service_validate_transport_tcp_payload_block_def validate_transport_dir_def)

text \<open>C23. Blocks with several files round-trip. When \<open>mem_service_write_payload_block\<close> reports success
  for a chunked, a loopback-transport or a TCP-transport payload, and files can be opened and read and
  the copy is not cut short, then the record it returns describes exactly the bytes it was given: the
  inline payload, the source file, or what the TCP peer named by the source sent. Validating that record
  succeeds without touching a file, and the copy loop of \<open>mem_service_materialize_payload_block\<close> reads back
  exactly these bytes. For the chunked layout the contents must not be empty, since its validator refuses
  a block without chunks, and short enough for the 32 bits of the chunk count. The other exception, in
  every layout, is a payload whose checksum happens to be 0: it is written with success, but the validator
  takes 0 for a missing checksum and answers a mismatch.\<close>

theorem layout_block_roundtrip:
  assumes run: "mem_service_write_payload_block env (layout_backends env dir_ok rmdir peer) root payload inl path
      r fw = (STATUS_OK, r', fw')"
    and kind: "mem_service_payload_get_u32 payload ''payload_kind'' 0 = k"
      "k \<in> {MEM_SERVICE_PAYLOAD_KIND_SEALED_CHUNKED_BLOCK, MEM_SERVICE_PAYLOAD_KIND_TRANSPORT_LOOPBACK_BLOCK,
         MEM_SERVICE_PAYLOAD_KIND_TRANSPORT_TCP_BLOCK}"
    and some: "inl \<noteq> [] \<or> path \<noteq> []"
    and chunked: "k = MEM_SERVICE_PAYLOAD_KIND_SEALED_CHUNKED_BLOCK \<Longrightarrow> rec_object_backing_len r' \<noteq> 0 \<and>
      length inl < 2 ^ 41 \<and> (\<forall>bytes. fw_files fw path = Some bytes \<longrightarrow> length bytes < 2 ^ 41)"
    and io: "\<And>p. io_open_ok env p" "\<And>p. io_read_ok env p" "\<not> io_short_write env tmp"
  shows "if rec_object_payload_checksum r' = 0
    then fst (mem_service_validate_payload_block env (layout_backends env dir_ok rmdir peer) root r' fw') = STATUS_CHECKSUM_MISMATCH
    else \<exists>bytes.
    (if k = MEM_SERVICE_PAYLOAD_KIND_TRANSPORT_TCP_BLOCK
     then \<exists>host port. mem_service_parse_tcp_payload_source path = Some (host, port) \<and> peer host port = Sends bytes
     else if inl \<noteq> [] then bytes = bytes_of inl else fw_files fw path = Some bytes) \<and>
    rec_object_payload_kind r' = k \<and> rec_object_backing_len r' = of_nat (length bytes) \<and>
    rec_object_payload_checksum r' = mem_service_checksum_bytes bytes \<and>
    mem_service_validate_payload_block env (layout_backends env dir_ok rmdir peer) root r' fw' = (STATUS_OK, fw') \<and>
    materialize_source env (layout_backends env dir_ok rmdir peer) root r' tmp fw' = Inr bytes"
proof (cases "rec_object_payload_checksum r' = 0")
  case True
  then show ?thesis using zero_checksum_refused [OF True layout_write_kind [OF run kind some] kind(2)] by simp
next
  case False
  with layout_write_validates [OF run kind some False chunked io] show ?thesis by simp
qed

section \<open>Failing closed\<close>

text \<open>The directory of a block and the bytes its files hold, as the validators read them.\<close>

definition block_dir :: "cstr \<Rightarrow> mem_service_record \<Rightarrow> cstr option" where
  "block_dir root r =
     (if rec_object_payload_kind r = MEM_SERVICE_PAYLOAD_KIND_SEALED_CHUNKED_BLOCK
      then mem_service_make_chunked_block_dir_path root (rec_object_payload_checksum r) 512
      else if rec_object_payload_kind r = MEM_SERVICE_PAYLOAD_KIND_TRANSPORT_LOOPBACK_BLOCK
      then mem_service_make_transport_block_dir_path root (rec_object_payload_checksum r) 512
      else mem_service_make_transport_tcp_block_dir_path root (rec_object_payload_checksum r) 512)"

definition block_contents :: "io_env \<Rightarrow> cstr \<Rightarrow> mem_service_record \<Rightarrow> file_world \<Rightarrow> u8 list option" where
  "block_contents env dir r fw =
     (if rec_object_payload_kind r = MEM_SERVICE_PAYLOAD_KIND_SEALED_CHUNKED_BLOCK
      then (case mem_service_join_path 512 dir MEM_SERVICE_CHUNKED_BLOCK_MANIFEST of
              None \<Rightarrow> None
            | Some mp \<Rightarrow>
                (case fs_open env mp fw of
                   None \<Rightarrow> None
                 | Some m \<Rightarrow> read_chunks env dir 0 (unat (cm_chunk_count (read_chunk_manifest (cstr_of m)))) fw))
      else (case mem_service_join_path 512 dir MEM_SERVICE_TRANSPORT_BLOCK_PAYLOAD of
              None \<Rightarrow> None
            | Some p \<Rightarrow> if io_read_ok env p then fs_open env p fw else None))"

lemma quarantined_dir_empty:
  assumes dir: "dir = root @ sep @ name" "name \<noteq> []" "hd name \<noteq> CHR ''q''"
    and q: "mem_service_join_path 512 root ''quarantine'' = Some qd" "sep = (if last root = CHR ''/'' then [] else ''/'')"
      "length (hex16 c @ suffix @ ''.bad.'' @ decimal (io_pid env)) < 80"
      "mem_service_join_path 512 qd (hex16 c @ suffix @ ''.bad.'' @ decimal (io_pid env)) = Some qp"
      "io_rename_ok env qp" "root \<noteq> []"
    and p: "below dir p"
  shows "fw_files (quarantine_block_dir env root (Some dir) suffix c fw) p = None"
proof -
  from q(1) have qd: "qd = root @ sep @ ''quarantine''" using join_pathD q(2) by fastforce
  with join_pathD [OF q(4)] obtain tl where qp: "qp = root @ sep @ ''q'' @ tl" by auto
  have "\<not> below qp p"
  proof
    assume "below qp p"
    with p have "take (length qp + 1) p = qp @ ''/''" "take (length dir + 1) p = dir @ ''/''"
      by (simp_all add: below_def)
    then obtain u v where "p = qp @ ''/'' @ u" "p = dir @ ''/'' @ v"
      by (metis append_assoc append_take_drop_id)
    then have "''q'' @ tl @ ''/'' @ u = name @ ''/'' @ v" by (simp add: qp dir(1))
    with dir(2,3) show False by (cases name) auto
  qed
  with q p show ?thesis by (simp add: quarantine_block_dir_def fs_rename_dir_def Let_def)
qed

lemma validate_transport_dir_cases:
  "validate_transport_dir env root dir b t q r fw = (STATUS_OK, fw) \<and>
     (\<exists>d p bytes. dir = Some d \<and> mem_service_join_path 512 d MEM_SERVICE_TRANSPORT_BLOCK_PAYLOAD = Some p \<and>
        io_read_ok env p \<and> fs_open env p fw = Some bytes \<and> of_nat (length bytes) = rec_object_backing_len r \<and>
        mem_service_checksum_bytes bytes = rec_object_payload_checksum r) \<or>
   validate_transport_dir env root dir b t q r fw = (STATUS_CHECKSUM_MISMATCH, q)"
  by (auto simp: validate_transport_dir_def Let_def split: option.splits if_splits)

lemma validate_chunked_cases:
  assumes "rec_object_payload_kind r = MEM_SERVICE_PAYLOAD_KIND_SEALED_CHUNKED_BLOCK"
  shows "mem_service_validate_chunked_payload_block env root r fw = (STATUS_OK, fw) \<and>
     (\<exists>d bytes. mem_service_make_chunked_block_dir_path root (rec_object_payload_checksum r) 512 = Some d \<and>
        block_contents env d r fw = Some bytes \<and> of_nat (length bytes) = rec_object_backing_len r \<and>
        mem_service_checksum_bytes bytes = rec_object_payload_checksum r) \<or>
   mem_service_validate_chunked_payload_block env root r fw = (STATUS_CHECKSUM_MISMATCH,
     mem_service_quarantine_chunked_payload_block env root (rec_object_payload_checksum r) fw)"
  using assms
  by (auto simp: mem_service_validate_chunked_payload_block_def Let_def block_contents_def
      split: option.splits if_splits)

lemma block_dirD:
  assumes "block_dir root r = Some dir"
  obtains name where "dir = root @ (if last root = CHR ''/'' then [] else ''/'') @ name"
    "name \<noteq> []" "hd name \<noteq> CHR ''q''"
  using assms
  by (auto simp: block_dir_def mem_service_make_chunked_block_dir_path_def mem_service_make_remote_dir_path_def
      mem_service_make_transport_block_dir_path_def mem_service_make_transport_tcp_block_dir_path_def Let_def
      dest!: join_pathD split: option.splits if_splits)

definition block_suffix :: "mem_service_record \<Rightarrow> cstr" where
  "block_suffix r =
     (if rec_object_payload_kind r = MEM_SERVICE_PAYLOAD_KIND_SEALED_CHUNKED_BLOCK
      then MEM_SERVICE_CHUNKED_BLOCK_DIR_SUFFIX
      else if rec_object_payload_kind r = MEM_SERVICE_PAYLOAD_KIND_TRANSPORT_LOOPBACK_BLOCK
      then MEM_SERVICE_TRANSPORT_BLOCK_DIR_SUFFIX else MEM_SERVICE_TRANSPORT_TCP_BLOCK_DIR_SUFFIX)"

text \<open>The verdict on a block in one statement for the three layouts.\<close>

lemma layout_validate_cases:
  assumes kind: "rec_object_payload_kind r \<in> {MEM_SERVICE_PAYLOAD_KIND_SEALED_CHUNKED_BLOCK,
      MEM_SERVICE_PAYLOAD_KIND_TRANSPORT_LOOPBACK_BLOCK, MEM_SERVICE_PAYLOAD_KIND_TRANSPORT_TCP_BLOCK}"
    and run: "mem_service_validate_payload_block env (layout_backends env dir_ok rmdir peer) root r fw = (st, fw')"
  obtains (ok) d bytes where "st = STATUS_OK" "fw' = fw" "block_dir root r = Some d"
      "block_contents env d r fw = Some bytes" "of_nat (length bytes) = rec_object_backing_len r"
      "mem_service_checksum_bytes bytes = rec_object_payload_checksum r"
    | (bad) "st = STATUS_CHECKSUM_MISMATCH"
      "fw' = quarantine_block_dir env root (block_dir root r) (block_suffix r) (rec_object_payload_checksum r) fw"
proof -
  note dispatch = mem_service_validate_payload_block_def layout_backends_def payload_kind_defs block_dir_def
    block_suffix_def block_contents_def
  from kind consider (chunked) "rec_object_payload_kind r = MEM_SERVICE_PAYLOAD_KIND_SEALED_CHUNKED_BLOCK"
    | (loopback) "rec_object_payload_kind r = MEM_SERVICE_PAYLOAD_KIND_TRANSPORT_LOOPBACK_BLOCK"
    | (tcp) "rec_object_payload_kind r = MEM_SERVICE_PAYLOAD_KIND_TRANSPORT_TCP_BLOCK" by blast
  then show thesis
  proof cases
    case chunked
    with validate_chunked_cases [OF chunked, of env root fw] run show thesis
      by (auto simp: dispatch mem_service_quarantine_chunked_payload_block_def intro: that)
  next
    case loopback
    show thesis
      using run loopback ok bad validate_transport_dir_cases [of env root
          "mem_service_make_transport_block_dir_path root (rec_object_payload_checksum r) 512"
          "''transport-loopback-block-v1''" "''file-copy-v1''"
          "mem_service_quarantine_transport_payload_block env root (rec_object_payload_checksum r) fw" r fw]
      by (auto simp: dispatch mem_service_validate_transport_payload_block_def
          mem_service_quarantine_transport_payload_block_def)
  next
    case tcp
    show thesis
      using run tcp ok bad validate_transport_dir_cases [of env root
          "mem_service_make_transport_tcp_block_dir_path root (rec_object_payload_checksum r) 512"
          "''transport-tcp-block-v1''" "''tcp-loopback-v1''"
          "mem_service_quarantine_transport_tcp_payload_block env root (rec_object_payload_checksum r) fw" r fw]
      by (auto simp: dispatch mem_service_validate_transport_tcp_payload_block_def
          mem_service_quarantine_transport_tcp_payload_block_def)
  qed
qed

text \<open>C24. Reads of blocks with several files fail closed. Validating a chunked or transport block has
  exactly two outcomes. Either it reports success, and then no file has changed and the files hold
  bytes of exactly the recorded length and checksum; or it reports a checksum mismatch, and then, when
  the quarantine name fits its buffers and the rename succeeds, not a single file is left below the
  directory of the block.\<close>

theorem layout_validation_fails_closed:
  assumes kind: "rec_object_payload_kind r \<in> {MEM_SERVICE_PAYLOAD_KIND_SEALED_CHUNKED_BLOCK,
      MEM_SERVICE_PAYLOAD_KIND_TRANSPORT_LOOPBACK_BLOCK, MEM_SERVICE_PAYLOAD_KIND_TRANSPORT_TCP_BLOCK}"
    and run: "mem_service_validate_payload_block env (layout_backends env dir_ok rmdir peer) root r fw = (st, fw')"
    and dir: "block_dir root r = Some dir"
    and quarantine: "mem_service_join_path 512 root ''quarantine'' = Some qd"
      "qname = hex16 (rec_object_payload_checksum r) @ block_suffix r @ ''.bad.'' @ decimal (io_pid env)"
      "length qname < 80" "mem_service_join_path 512 qd qname = Some qp" "io_rename_ok env qp"
  shows "(st = STATUS_OK \<and> fw' = fw \<and>
      (\<exists>bytes. block_contents env dir r fw = Some bytes \<and> of_nat (length bytes) = rec_object_backing_len r \<and>
         mem_service_checksum_bytes bytes = rec_object_payload_checksum r)) \<or>
    (st = STATUS_CHECKSUM_MISMATCH \<and> (\<forall>p. below dir p \<longrightarrow> fw_files fw' p = None))"
  using kind run
proof (cases rule: layout_validate_cases)
  case (ok d bytes)
  with dir show ?thesis by simp
next
  case bad
  have root: "root \<noteq> []" using quarantine(1) by (auto simp: mem_service_join_path_def split: if_splits)
  from block_dirD [OF dir] obtain name where
    "dir = root @ (if last root = CHR ''/'' then [] else ''/'') @ name" "name \<noteq> []" "hd name \<noteq> CHR ''q''" .
  from quarantined_dir_empty [OF this quarantine(1) refl quarantine(3,4) [unfolded quarantine(2)] quarantine(5) root]
  show ?thesis using bad dir by simp
qed

text \<open>An empty file stored as a chunked block is written and acknowledged, but its manifest counts no
  chunk, so the block never validates: the first read quarantines it.\<close>

lemma empty_chunked_block_refused:
  assumes run: "mem_service_write_chunked_payload_block env dir_ok root payload [] path r fw = (STATUS_OK, r', fw')"
    and path: "path \<noteq> []" "fw_files fw path = Some []"
  shows "fst (mem_service_validate_chunked_payload_block env root r' fw') = STATUS_CHECKSUM_MISMATCH"
proof -
  from path(1) have some: "[] \<noteq> [] \<or> path \<noteq> []" by simp
  from run some obtain tmp dir mp mt bytes n fw1 fw2 fw3 fw4 where
    tmp: "mem_service_make_payload_tmp_path env root 512 fw = (Some tmp, fw1)"
    and b: "if [] \<noteq> ([] :: cstr) then bytes = bytes_of [] else fw_files fw1 path = Some bytes"
    and dir: "mem_service_make_chunked_block_dir_path root (mem_service_checksum_bytes bytes) 512 = Some dir"
    and w: "write_chunks env dir 0 bytes fw2 = (Some n, fw3)"
    and mp: "mem_service_join_path 512 dir MEM_SERVICE_CHUNKED_BLOCK_MANIFEST = Some mp"
    and mt: "manifest_tmp_path env mp = Some mt"
    and pub: "publish_manifest env mt mp
      (chunked_manifest n (of_nat (length bytes)) (mem_service_checksum_bytes bytes)) fw3 = (True, fw4)"
    and fw': "fw' = fs_unlink tmp fw4"
    and r': "r' = seal_record MEM_SERVICE_PAYLOAD_KIND_SEALED_CHUNKED_BLOCK (of_nat (length bytes))
      (mem_service_checksum_bytes bytes) r"
    by (rule chunked_writeD)
  note d = payload_tmp_path_digit [OF tmp] manifest_tmp_digit [OF mt] manifest_pathD [OF mp]
  have "bytes = []" using b path d(1) by simp
  with w have "n = 0" by (simp add: write_chunks.simps [of env dir 0] MEM_SERVICE_CHUNKED_BLOCK_SIZE_def Let_def)
  have ne: "mt \<noteq> mp" "tmp \<noteq> mp" using d by auto
  have "fw_files fw' mp = Some (bytes_of (chunked_manifest 0 0 (mem_service_checksum_bytes [])))"
    using publish_manifest_ok(1) [OF pub ne(1)] ne \<open>bytes = []\<close> \<open>n = 0\<close> by (simp add: fw' fs_unlink_def)
  with dir mp \<open>bytes = []\<close> show ?thesis
    by (simp add: mem_service_validate_chunked_payload_block_def Let_def r' seal_record_def fs_open_def
        read_chunk_manifest_back)
qed

section \<open>Removal\<close>

text \<open>The files of a record's block.\<close>

definition block_file :: "cstr \<Rightarrow> mem_service_record \<Rightarrow> cstr \<Rightarrow> bool" where
  "block_file root r p \<longleftrightarrow>
     (if rec_object_payload_kind r = MEM_SERVICE_PAYLOAD_KIND_SEALED_LOCAL_BLOCK
      then mem_service_make_payload_block_path root (rec_object_payload_checksum r) 512 = Some p
      else case block_dir root r of None \<Rightarrow> False | Some dir \<Rightarrow> below dir p)"

lemma unlink_if_exists_other:
  "mem_service_unlink_if_exists env p fw = (rc, fw') \<Longrightarrow> q \<noteq> p \<Longrightarrow> fw_files fw' q = fw_files fw q"
  by (auto simp: mem_service_unlink_if_exists_def fs_unlink_def split: option.splits if_splits)

lemma unlink_other: "q \<noteq> p \<Longrightarrow> fw_files (snd (mem_service_unlink_if_exists env p fw)) q = fw_files fw q"
  by (rule unlink_if_exists_other [OF prod.collapse [symmetric]])

lemma join_below:
  assumes "mem_service_join_path n dir name = Some p" "last dir \<noteq> CHR ''/''"
  shows "below dir p"
  using join_pathD [OF assms(1)] assms(2) by (simp add: below_def)

lemma chunk_below:
  assumes "mem_service_make_chunked_block_chunk_path dir i n = Some p" "last dir \<noteq> CHR ''/''"
  shows "below dir p"
  using assms(1) join_below [OF _ assms(2)]
  by (auto simp: mem_service_make_chunked_block_chunk_path_def Let_def split: if_splits)

lemma remove_chunks_other:
  assumes "\<not> below dir q" "last dir \<noteq> CHR ''/''"
  shows "fw_files (snd (remove_chunks env dir i n removed fw)) q = fw_files fw q"
  using assms
proof (induction env dir i n removed fw rule: remove_chunks.induct)
  case (1 env dir i n removed fw)
  show ?case
  proof (cases "i < n \<and> \<not> i > unat UINT32_MAX")
    case True
    show ?thesis
    proof (cases "mem_service_make_chunked_block_chunk_path dir (of_nat i) 512")
      case None
      with True show ?thesis by (simp add: remove_chunks.simps [of env dir i])
    next
      case (Some p)
      obtain rc fw1 where u: "mem_service_unlink_if_exists env p fw = (rc, fw1)" by fastforce
      have "q \<noteq> p" using chunk_below [OF Some] "1.prems" by auto
      with u have "fw_files fw1 q = fw_files fw q" by (rule unlink_if_exists_other)
      with "1.IH" [of p rc fw1] "1.prems" True Some u show ?thesis
        by (simp add: remove_chunks.simps [of env dir i])
    qed
  next
    case False
    then show ?thesis by (auto simp: remove_chunks.simps [of env dir i])
  qed
qed

lemma finish_removal_files [simp]: "snd (finish_removal rmdir dir k fw) = fw"
  by (simp add: finish_removal_def)

lemma remove_chunked_other:
  assumes dir: "mem_service_make_chunked_block_dir_path root (rec_object_payload_checksum r) 512 = Some dir"
    and q: "\<not> below dir q" "last dir \<noteq> CHR ''/''"
  shows "fw_files (snd (mem_service_remove_chunked_payload_block env rmdir root r fw)) q = fw_files fw q"
proof -
  let ?n = "unat ((rec_object_backing_len r + of_nat MEM_SERVICE_CHUNKED_BLOCK_SIZE - 1) div
    of_nat MEM_SERVICE_CHUNKED_BLOCK_SIZE)"
  obtain k fw1 where rc: "remove_chunks env dir 0 ?n 0 fw = (k, fw1)" by fastforce
  have f1: "fw_files fw1 q = fw_files fw q" using remove_chunks_other [OF q, of env 0 ?n 0 fw] rc by simp
  show ?thesis
  proof (cases "mem_service_join_path 512 dir MEM_SERVICE_CHUNKED_BLOCK_MANIFEST")
    case None
    with rc f1 dir show ?thesis
      by (simp add: mem_service_remove_chunked_payload_block_def Let_def split: option.split)
  next
    case (Some mp)
    have "q \<noteq> mp" using join_below [OF Some q(2)] q(1) by auto
    with rc f1 dir Some show ?thesis
      by (auto simp: mem_service_remove_chunked_payload_block_def Let_def dest: unlink_if_exists_other
          split: option.split prod.split)
  qed
qed

lemma remove_transport_dir_other:
  assumes q: "\<not> below dir q" "last dir \<noteq> CHR ''/''"
  shows "fw_files (snd (mem_service_remove_transport_payload_block_dir env rmdir dir fw)) q = fw_files fw q"
proof -
  have keep: "fw_files (snd (mem_service_unlink_if_exists env p w)) q = fw_files w q"
    if "mem_service_join_path 512 dir name = Some p" for p w name
    by (rule unlink_other) (use join_below [OF that q(2)] q(1) in auto)
  show ?thesis
  proof (cases "mem_service_join_path 512 dir MEM_SERVICE_TRANSPORT_BLOCK_MANIFEST = None \<or>
      mem_service_join_path 512 dir MEM_SERVICE_TRANSPORT_BLOCK_PAYLOAD = None")
    case True
    then show ?thesis
      by (auto simp: mem_service_remove_transport_payload_block_dir_def split: option.split)
  next
    case False
    then obtain mp pp where paths: "mem_service_join_path 512 dir MEM_SERVICE_TRANSPORT_BLOCK_MANIFEST = Some mp"
      "mem_service_join_path 512 dir MEM_SERVICE_TRANSPORT_BLOCK_PAYLOAD = Some pp" by auto
    then show ?thesis
      by (simp add: mem_service_remove_transport_payload_block_dir_def case_prod_beta keep)
  qed
qed

lemma block_dir_form:
  assumes "block_dir root r = Some dir"
  shows "dir = root @ (if last root = CHR ''/'' then [] else ''/'') @
      (if rec_object_payload_kind r = MEM_SERVICE_PAYLOAD_KIND_SEALED_CHUNKED_BLOCK then ''blocks/'' else ''remote-blocks/'') @
      hex16 (rec_object_payload_checksum r) @ block_suffix r"
  using assms
  by (auto simp: block_dir_def block_suffix_def mem_service_make_chunked_block_dir_path_def
      mem_service_make_transport_block_dir_path_def mem_service_make_transport_tcp_block_dir_path_def
      mem_service_make_remote_dir_path_def layout_names Let_def dest!: join_pathD split: option.splits if_splits)

text \<open>Blocks of different layouts or checksums share no file.\<close>

definition block_kinds :: "u32 set" where
  "block_kinds = {MEM_SERVICE_PAYLOAD_KIND_SEALED_LOCAL_BLOCK, MEM_SERVICE_PAYLOAD_KIND_SEALED_CHUNKED_BLOCK,
     MEM_SERVICE_PAYLOAD_KIND_TRANSPORT_LOOPBACK_BLOCK, MEM_SERVICE_PAYLOAD_KIND_TRANSPORT_TCP_BLOCK}"

definition block_stem :: "cstr \<Rightarrow> mem_service_record \<Rightarrow> cstr" where
  "block_stem root r = root @ (if last root = CHR ''/'' then [] else ''/'') @
     (if rec_object_payload_kind r = MEM_SERVICE_PAYLOAD_KIND_SEALED_LOCAL_BLOCK \<or>
         rec_object_payload_kind r = MEM_SERVICE_PAYLOAD_KIND_SEALED_CHUNKED_BLOCK
      then ''blocks/'' else ''remote-blocks/'') @
     hex16 (rec_object_payload_checksum r) @
     (if rec_object_payload_kind r = MEM_SERVICE_PAYLOAD_KIND_SEALED_LOCAL_BLOCK then ''.block'' else block_suffix r)"

lemma block_fileD:
  assumes "block_file root r p"
  shows "\<exists>u. p = block_stem root r @ u"
proof (cases "rec_object_payload_kind r = MEM_SERVICE_PAYLOAD_KIND_SEALED_LOCAL_BLOCK")
  case True
  with assms have "p = block_stem root r"
    by (auto simp: block_file_def mem_service_make_payload_block_path_def block_stem_def Let_def
        dest!: join_pathD split: option.splits if_splits)
  then show ?thesis by simp
next
  case False
  with assms obtain dir where dir: "block_dir root r = Some dir" "below dir p"
    by (auto simp: block_file_def split: option.splits)
  then obtain u where "p = dir @ u" by (metis append_assoc append_take_drop_id below_def)
  moreover have "dir = block_stem root r" using block_dir_form [OF dir(1)] False by (simp add: block_stem_def)
  ultimately show ?thesis by simp
qed

lemma block_files_disjoint:
  assumes "block_file root r p" "rec_object_payload_kind r \<in> block_kinds"
    and "block_file root r' p" "rec_object_payload_kind r' \<in> block_kinds"
  shows "rec_object_payload_kind r' = rec_object_payload_kind r \<and>
    rec_object_payload_checksum r' = rec_object_payload_checksum r"
proof -
  obtain u u' where "block_stem root r @ u = block_stem root r' @ u'"
    using block_fileD [OF assms(1)] block_fileD [OF assms(3)] by auto
  then show ?thesis using assms(2,4) unfolding block_kinds_def
    by (elim insertE emptyE)
       (auto simp: block_stem_def block_suffix_def layout_names payload_kind_defs dest: hex16_inj)
qed

text \<open>Removing a block touches no file of another block.\<close>

lemma remove_block_other:
  assumes r: "rec_object_payload_kind r \<in> {MEM_SERVICE_PAYLOAD_KIND_SEALED_CHUNKED_BLOCK,
      MEM_SERVICE_PAYLOAD_KIND_TRANSPORT_LOOPBACK_BLOCK, MEM_SERVICE_PAYLOAD_KIND_TRANSPORT_TCP_BLOCK}"
    and q: "\<not> block_file root r q"
  shows "fw_files (snd (if rec_object_payload_kind r = MEM_SERVICE_PAYLOAD_KIND_SEALED_CHUNKED_BLOCK
      then mem_service_remove_chunked_payload_block env rmdir root r fw
      else if rec_object_payload_kind r = MEM_SERVICE_PAYLOAD_KIND_TRANSPORT_LOOPBACK_BLOCK
      then mem_service_remove_transport_payload_block env rmdir root r fw
      else mem_service_remove_transport_tcp_payload_block env rmdir root r fw)) q = fw_files fw q"
proof (cases "block_dir root r")
  case None
  with r show ?thesis
    by (auto simp: block_dir_def mem_service_remove_chunked_payload_block_def payload_kind_defs
        mem_service_remove_transport_payload_block_def mem_service_remove_transport_tcp_payload_block_def)
next
  case (Some dir)
  have "last dir \<noteq> CHR ''/''"
    using block_dir_form [OF Some] by (simp add: block_suffix_def layout_names)
  moreover have "\<not> below dir q" using q Some r by (auto simp: block_file_def payload_kind_defs)
  ultimately show ?thesis using r Some remove_chunked_other remove_transport_dir_other
    by (auto simp: block_dir_def payload_kind_defs
        mem_service_remove_transport_payload_block_def mem_service_remove_transport_tcp_payload_block_def)
qed

lemma gc_keeps_block_files:
  assumes run: "mem_service_gc_payload_block_if_orphaned env (layout_backends env dir_ok rmdir peer) svc i root fw n =
      (removed, n', fw')"
    and j: "j < length (svc_records svc)" "j \<noteq> i" "rec_in_use (svc_records svc ! j)"
      "rec_object_payload_kind (svc_records svc ! j) \<in> block_kinds"
    and p: "block_file root (svc_records svc ! j) p"
  shows "fw_files fw' p = fw_files fw p"
proof -
  let ?r = "svc_records svc ! i"
  show ?thesis
  proof (cases "fw' = fw")
    case False
    with run have ref: "mem_service_record_has_payload_block ?r"
      "\<not> mem_service_payload_block_is_referenced svc ?r i"
      by (auto simp: mem_service_gc_payload_block_if_orphaned_def Let_def split: if_splits)
    then have kinds: "rec_object_payload_kind ?r \<in> block_kinds"
      by (auto simp: mem_service_record_has_payload_block_def block_kinds_def)
    from ref j have differ: "\<not> (rec_object_payload_kind (svc_records svc ! j) = rec_object_payload_kind ?r \<and>
        rec_object_payload_checksum (svc_records svc ! j) = rec_object_payload_checksum ?r)"
      by (auto simp: mem_service_payload_block_is_referenced_def list_ex_iff)
    with block_files_disjoint [OF _ kinds p j(4)] have np: "\<not> block_file root ?r p" by blast
    show ?thesis
    proof (cases "rec_object_payload_kind ?r = MEM_SERVICE_PAYLOAD_KIND_SEALED_LOCAL_BLOCK")
      case True
      with False run have "fw' = snd (mem_service_remove_sealed_local_payload_block env root ?r fw)"
        by (auto simp: mem_service_gc_payload_block_if_orphaned_def Let_def split: if_splits prod.splits)
      with True np show ?thesis
        by (auto simp: mem_service_remove_sealed_local_payload_block_def block_file_def
            intro!: unlink_other split: option.splits)
    next
      case other: False
      with False run kinds have "fw' = snd (if rec_object_payload_kind ?r = MEM_SERVICE_PAYLOAD_KIND_SEALED_CHUNKED_BLOCK
          then mem_service_remove_chunked_payload_block env rmdir root ?r fw
          else if rec_object_payload_kind ?r = MEM_SERVICE_PAYLOAD_KIND_TRANSPORT_LOOPBACK_BLOCK
          then mem_service_remove_transport_payload_block env rmdir root ?r fw
          else mem_service_remove_transport_tcp_payload_block env rmdir root ?r fw)"
        by (auto simp: mem_service_gc_payload_block_if_orphaned_def Let_def layout_backends_def block_kinds_def
            split: if_splits prod.splits)
      with remove_block_other [OF _ np] other kinds show ?thesis by (simp add: block_kinds_def)
    qed
  qed simp
qed

text \<open>C25. Garbage collection never removes a block another record needs, in any layout: after
  \<open>mem_service_gc_payload_block_if_orphaned\<close> for one record, every file of the block of every other
  record in use, sealed-local, chunked or transport, is exactly as it was, and the counter of
  collected blocks grows exactly when a removal is reported.\<close>

theorem gc_keeps_other_blocks:
  assumes run: "mem_service_gc_payload_block_if_orphaned env (layout_backends env dir_ok rmdir peer) svc i root fw n =
      (removed, n', fw')"
    and j: "j < length (svc_records svc)" "j \<noteq> i" "rec_in_use (svc_records svc ! j)"
      "rec_object_payload_kind (svc_records svc ! j) \<in> block_kinds"
    and p: "block_file root (svc_records svc ! j) p"
  shows "fw_files fw' p = fw_files fw p \<and> (removed \<longleftrightarrow> n' = n + 1)"
  using gc_keeps_block_files [OF assms] run
  by (auto simp: mem_service_gc_payload_block_if_orphaned_def Let_def split: if_splits prod.splits)

text \<open>C39. Retention never breaks the service. Record retention with any limit, age and filter, over the
  block layouts of the daemon, keeps the record table and the idempotency table well formed, only
  forgets completed requests, leaves the audit log (events, count and next sequence number) and the
  metrics alone, removes only matching records and changes no other, and leaves every file of the block
  of every record that is kept, sealed-local, chunked or transport, exactly as it was.\<close>

theorem record_retention_safe:
  assumes wf: "records_wf svc" "idem_wf svc"
    and be: "de_backends env = layout_backends (de_io env) dir_ok rmdir peer"
    and run: "mem_service_apply_record_retention env svc m age k te t fw = (pruned, svc', fw')"
  shows "records_wf svc' \<and> idem_wf svc' \<and> completed_map svc' \<subseteq>\<^sub>m completed_map svc \<and>
    svc_audit_events svc' = svc_audit_events svc \<and> svc_audit_event_count svc' = svc_audit_event_count svc \<and>
    svc_audit_next_sequence svc' = svc_audit_next_sequence svc \<and> svc_metrics svc' = svc_metrics svc \<and>
    record_map svc' \<subseteq>\<^sub>m record_map svc \<and>
    (\<forall>key r. record_map svc key = Some r \<and> record_map svc' key = None \<longrightarrow>
       mem_service_record_matches_retention_kind r k te t) \<and>
    (\<forall>key r p. record_map svc' key = Some r \<and> rec_object_payload_kind r \<in> block_kinds \<and>
       block_file (de_storage_root env) r p \<longrightarrow> fw_files fw' p = fw_files fw p)"
proof -
  note ret = record_retention_retires [OF run]
  note inv = retires_invariant [OF ret] and maps = retires_map [OF ret]
  have files: "fw_files fw' p = fw_files fw p"
    if r: "record_map svc' key = Some r" "rec_object_payload_kind r \<in> block_kinds" "block_file (de_storage_root env) r p" for key r p
  proof -
    have "fw_files fw2 p = fw_files fw1 p"
      if "mem_service_gc_payload_block_if_orphaned (de_io env) (de_backends env) svc1 i (de_storage_root env) fw1 0 =
          (removed, n', fw2)" "j < length (svc_records svc1)" "j \<noteq> i" "rec_in_use r" "svc_records svc1 ! j = r"
      for svc1 i j fw1 removed n' fw2
      using gc_keeps_block_files [OF that(1) [unfolded be] that(2,3)] that(4,5) r(2,3) by simp
    from retires_keeps_files [OF ret this, where k = key] r(1) wf(1) show ?thesis by simp
  qed
  with inv maps wf show ?thesis by (simp add: conj_imp_eq_imp_imp)
qed

lemma copy_chunks_fails: "copy_chunks env dir i n fw \<noteq> Inl STATUS_OK"
proof (induction env dir i n fw rule: copy_chunks.induct)
  case (1 env dir i n fw)
  then show ?case
    by (auto simp: copy_chunks.simps [of env dir i] split: option.split sum.split)
qed

lemma materialize_source_fails:
  "materialize_source env (layout_backends env dir_ok rmdir peer) root r tmp fw \<noteq> Inl STATUS_OK"
  by (auto simp: materialize_source_def layout_backends_def materialize_chunks_def copy_chunks_fails Let_def
      split: option.split sum.split)

text \<open>C26. Materialising publishes exactly the recorded object, in any layout, and never overwrites: when
  \<open>mem_service_materialize_payload_block\<close> succeeds, the destination did not exist before, it now holds
  bytes of the recorded length and checksum, and every file other than the destination and the
  temporary name next to it is as it was.\<close>

theorem materialize_layouts_publishes_object:
  assumes run: "mem_service_materialize_payload_block env (layout_backends env dir_ok rmdir peer) root r dest fw =
      (STATUS_OK, fw')"
  shows "fw_files fw dest = None \<and>
    (\<exists>bytes. fw_files fw' dest = Some bytes \<and> of_nat (length bytes) = rec_object_backing_len r \<and>
       mem_service_checksum_bytes bytes = rec_object_payload_checksum r) \<and>
    (\<forall>q. q \<noteq> dest \<longrightarrow> q \<noteq> dest @ ''.tmp.'' @ decimal (io_pid env) @ ''.'' @ show_word (fw_tmp_seq fw + 1) \<longrightarrow>
       fw_files fw' q = fw_files fw q)"
proof -
  let ?be = "layout_backends env dir_ok rmdir peer"
  obtain st fw1 where v: "mem_service_validate_payload_block env ?be root r fw = (st, fw1)" by fastforce
  define tmp where "tmp = dest @ ''.tmp.'' @ decimal (io_pid env) @ ''.'' @ show_word (fw_tmp_seq fw + 1)"
  have ne: "dest \<noteq> tmp" by (simp add: tmp_def)
  from run v have st: "st = STATUS_OK" "mem_service_record_has_payload_block r"
    by (auto simp: mem_service_materialize_payload_block_def split: if_splits)
  then have "rec_object_payload_kind r \<in> block_kinds"
    by (auto simp: mem_service_record_has_payload_block_def block_kinds_def)
  then consider (sealed) "rec_object_payload_kind r = MEM_SERVICE_PAYLOAD_KIND_SEALED_LOCAL_BLOCK"
    | (layout) "rec_object_payload_kind r \<in> {MEM_SERVICE_PAYLOAD_KIND_SEALED_CHUNKED_BLOCK,
        MEM_SERVICE_PAYLOAD_KIND_TRANSPORT_LOOPBACK_BLOCK, MEM_SERVICE_PAYLOAD_KIND_TRANSPORT_TCP_BLOCK}"
    by (auto simp: block_kinds_def)
  then have "fw1 = fw"
  proof cases
    case sealed
    with v st show ?thesis
      by (auto simp: mem_service_validate_payload_block_def payload_kind_defs split: if_splits option.splits)
  next
    case layout
    from layout v st(1) show ?thesis by (cases rule: layout_validate_cases) auto
  qed
  with run v st ne show ?thesis
    by (auto simp: mem_service_materialize_payload_block_def Let_def tmp_def [symmetric] fs_unlink_def
        materialize_source_fails split: if_splits sum.splits)
qed

section \<open>Witnesses\<close>

definition demo_layouts :: block_backends where
  "demo_layouts = layout_backends healthy_env (\<lambda>_. True) (\<lambda>_ _. 1) (\<lambda>_ _. Sends [1, 2, 3])"

definition chunked_request :: cstr where
  "chunked_request = kv ''payload_kind'' ''65''"

lemma chunked_request_fields:
  "mem_service_payload_get_u32 chunked_request ''payload_kind'' 0 = MEM_SERVICE_PAYLOAD_KIND_SEALED_CHUNKED_BLOCK"
  "\<not> payload_differs chunked_request l c"
proof -
  have "parse_u64 ''65'' = Some 65"
    by (simp add: parse_u64_def strtoull0_def Let_def c_isspace_def digit_value_def digits_value_def)
  then show "mem_service_payload_get_u32 chunked_request ''payload_kind'' 0 =
      MEM_SERVICE_PAYLOAD_KIND_SEALED_CHUNKED_BLOCK"
    by (simp add: chunked_request_def payload_eval payload_kind_defs UINT32_MAX_def)
  show "\<not> payload_differs chunked_request l c"
    by (simp add: payload_differs_def u64_field_differs_def chunked_request_def payload_eval)
qed

lemma small_decimal [simp]: "n < 10 \<Longrightarrow> decimal n = [digit_char n]"
  by (subst decimal.simps) simp

definition demo_chunked :: "mem_service_wire_status \<times> mem_service_record \<times> file_world" where
  "demo_chunked = mem_service_write_payload_block healthy_env demo_layouts ''/d'' chunked_request ''hi'' []
     zero_record empty_disk"

definition demo_sealed_chunked :: mem_service_record where
  "demo_sealed_chunked = seal_record MEM_SERVICE_PAYLOAD_KIND_SEALED_CHUNKED_BLOCK 2
     (mem_service_checksum_bytes [104, 105]) zero_record"

lemma demo_chunked_run: "\<exists>fw'. demo_chunked = (STATUS_OK, demo_sealed_chunked, fw')"
proof -
  have hi: "bytes_of ''hi'' = [104, 105]" by code_simp
  have wall: "decimal 1000 = ''1000''" by code_simp
  have "\<exists>fw'. mem_service_write_chunked_payload_block healthy_env (\<lambda>_. True) ''/d'' chunked_request ''hi'' []
      zero_record empty_disk = (STATUS_OK, demo_sealed_chunked, fw')"
    by (simp add: mem_service_write_chunked_payload_block_def mem_service_make_payload_tmp_path_def Let_def
        mem_service_join_path_def healthy_env_def empty_disk_def wall show_word_def ingest_to_tmp_def hi
        fs_write_file_def fs_open_def fs_rename_def chunked_request_fields mem_service_ensure_dir_def
        mem_service_make_chunked_block_dir_path_def layout_names write_chunks.simps MEM_SERVICE_CHUNKED_BLOCK_SIZE_def
        write_chunk_def mem_service_make_chunked_block_chunk_path_def decimal4_def manifest_tmp_path_def
        publish_manifest_def demo_sealed_chunked_def)
  then show ?thesis
    by (simp add: demo_chunked_def demo_layouts_def mem_service_write_payload_block_def layout_backends_def
        chunked_request_fields Let_def payload_kind_defs)
qed

lemma demo_chunked_sel:
  "rec_object_payload_kind demo_sealed_chunked = MEM_SERVICE_PAYLOAD_KIND_SEALED_CHUNKED_BLOCK"
  "rec_object_payload_checksum demo_sealed_chunked = mem_service_checksum_bytes [104, 105]"
  "rec_object_backing_len demo_sealed_chunked = 2" "mem_service_checksum_bytes [104, 105] \<noteq> 0"
  by (simp_all add: demo_sealed_chunked_def seal_record_def, code_simp)

theorem layout_block_roundtrip_witness:
  "\<exists>fw'. demo_chunked = (STATUS_OK, demo_sealed_chunked, fw') \<and>
     mem_service_validate_payload_block healthy_env demo_layouts ''/d'' demo_sealed_chunked fw' = (STATUS_OK, fw') \<and>
     materialize_source healthy_env demo_layouts ''/d'' demo_sealed_chunked ''/x'' fw' = Inr (bytes_of ''hi'')"
proof -
  from demo_chunked_run obtain fw' where run: "demo_chunked = (STATUS_OK, demo_sealed_chunked, fw')" ..
  from layout_block_roundtrip [OF run [unfolded demo_chunked_def demo_layouts_def] chunked_request_fields(1),
      of "''/x''", folded demo_layouts_def] run
  show ?thesis by (auto simp: healthy_env_def empty_disk_def payload_kind_defs demo_chunked_sel)
qed

theorem layout_validation_fails_closed_witness:
  "\<exists>dir fw'. block_dir ''/d'' demo_sealed_chunked = Some dir \<and>
     mem_service_validate_payload_block healthy_env demo_layouts ''/d'' demo_sealed_chunked
       (empty_disk\<lparr>fw_files := [dir @ ''/0000.chunk'' \<mapsto> [104]]\<rparr>) = (STATUS_CHECKSUM_MISMATCH, fw') \<and>
     fw_files fw' (dir @ ''/0000.chunk'') = None"
proof -
  have join: "mem_service_join_path 512 ''/d'' ''quarantine'' = Some ''/d/quarantine''"
    by (simp add: mem_service_join_path_def)
  let ?c = "mem_service_checksum_bytes [104, 105]" and ?r = demo_sealed_chunked
  define dir where "dir = ''/d/blocks/'' @ hex16 ?c @ ''.chunked''"
  let ?fw = "empty_disk\<lparr>fw_files := [dir @ ''/0000.chunk'' \<mapsto> [104]]\<rparr>"
  have d: "block_dir ''/d'' ?r = Some dir"
    by (simp add: block_dir_def demo_chunked_sel mem_service_make_chunked_block_dir_path_def
        mem_service_join_path_def layout_names dir_def)
  obtain st fw' where run: "mem_service_validate_payload_block healthy_env demo_layouts ''/d'' ?r ?fw = (st, fw')"
    by fastforce
  have st: "st = STATUS_CHECKSUM_MISMATCH"
    using run d by (simp add: mem_service_validate_payload_block_def demo_layouts_def layout_backends_def
        payload_kind_defs mem_service_validate_chunked_payload_block_def demo_chunked_sel Let_def block_dir_def
        mem_service_join_path_def layout_names fs_open_def healthy_env_def empty_disk_def dir_def)
  have kind: "rec_object_payload_kind ?r \<in> {MEM_SERVICE_PAYLOAD_KIND_SEALED_CHUNKED_BLOCK,
      MEM_SERVICE_PAYLOAD_KIND_TRANSPORT_LOOPBACK_BLOCK, MEM_SERVICE_PAYLOAD_KIND_TRANSPORT_TCP_BLOCK}"
    by (simp add: demo_chunked_sel)
  let ?name = "hex16 (rec_object_payload_checksum ?r) @ block_suffix ?r @ ''.bad.'' @ decimal (io_pid healthy_env)"
  have n: "length ?name < 80" "mem_service_join_path 512 ''/d/quarantine'' ?name = Some (''/d/quarantine/'' @ ?name)"
    by (simp_all add: demo_chunked_sel block_suffix_def layout_names healthy_env_def mem_service_join_path_def)
  have "(st = STATUS_OK \<and> fw' = ?fw \<and> (\<exists>bytes. block_contents healthy_env dir ?r ?fw = Some bytes \<and>
        of_nat (length bytes) = rec_object_backing_len ?r \<and> mem_service_checksum_bytes bytes = rec_object_payload_checksum ?r)) \<or>
      (st = STATUS_CHECKSUM_MISMATCH \<and> (\<forall>p. below dir p \<longrightarrow> fw_files fw' p = None))"
    by (rule layout_validation_fails_closed [OF kind run [unfolded demo_layouts_def] d join refl n])
       (simp add: healthy_env_def)
  moreover have "below dir (dir @ ''/0000.chunk'')" by (simp add: below_def)
  ultimately show ?thesis using d run st by auto
qed

theorem gc_keeps_other_blocks_witness:
  "\<exists>p. block_file ''/d'' demo_sealed p \<and>
     fw_files (snd (snd (mem_service_gc_payload_block_if_orphaned healthy_env demo_layouts
       (initial_service\<lparr>svc_records := [demo_sealed_chunked\<lparr>rec_in_use := True\<rparr>, demo_sealed]\<rparr>) 0 ''/d''
       \<lparr>fw_files = [p \<mapsto> [7]], fw_tmp_seq = 0\<rparr> 0))) p = Some [7]"
proof -
  have "mem_service_make_payload_block_path ''/d'' (rec_object_payload_checksum demo_sealed) 512 \<noteq> None"
    by code_simp
  then obtain p where "mem_service_make_payload_block_path ''/d'' (rec_object_payload_checksum demo_sealed) 512 = Some p"
    by auto
  then have p: "block_file ''/d'' demo_sealed p" by (simp add: block_file_def demo_sealed_sel)
  let ?svc = "initial_service\<lparr>svc_records := [demo_sealed_chunked\<lparr>rec_in_use := True\<rparr>, demo_sealed]\<rparr>"
  let ?fw = "\<lparr>fw_files = [p \<mapsto> [7 :: u8]], fw_tmp_seq = 0\<rparr>"
  obtain b n fw' where run: "mem_service_gc_payload_block_if_orphaned healthy_env demo_layouts
      ?svc 0 ''/d'' ?fw 0 = (b, n, fw')" by (metis prod_cases3)
  have "fw_files fw' p = fw_files ?fw p \<and> (b \<longleftrightarrow> n = 0 + 1)"
    by (rule gc_keeps_other_blocks [OF run [unfolded demo_layouts_def], of 1])
       (simp_all add: demo_sealed_sel p block_kinds_def)
  with p run show ?thesis by auto
qed

definition retention_env :: daemon_env where
  "retention_env = demo_env \<lparr> de_backends := demo_layouts \<rparr>"

theorem record_retention_safe_witness:
  "\<exists>bp svc svc' fw fw' p. mem_service_apply_record_retention retention_env svc 1 5 16 False 0 fw = (p, svc', fw') \<and>
     record_map svc' ''b'' = Some demo_object \<and> fw_files fw bp = Some [104, 105] \<and>
     fw_files fw' bp = Some [104, 105]"
proof -
  have "mem_service_make_payload_block_path ''/d'' (rec_object_payload_checksum demo_object) 512 \<noteq> None"
    by code_simp
  then obtain bp where
    "mem_service_make_payload_block_path ''/d'' (rec_object_payload_checksum demo_object) 512 = Some bp" by auto
  then have bp: "mem_service_make_payload_block_path (de_storage_root retention_env)
      (rec_object_payload_checksum demo_object) 512 = Some bp" by (simp add: retention_env_def demo_env_def)
  obtain svc where svc: "records_wf svc" "idem_wf svc"
    "record_map svc = [''a'' \<mapsto> demo_artifact, ''b'' \<mapsto> demo_object]" by (rule demo_pair)
  let ?fw = "\<lparr> fw_files = [bp \<mapsto> [104, 105 :: u8]], fw_tmp_seq = 0 \<rparr>"
  obtain p svc' fw' where run:
    "mem_service_apply_record_retention retention_env svc 1 5 16 False 0 ?fw = (p, svc', fw')"
    by (metis prod_cases3)
  note maps = retires_map [OF record_retention_retires [OF run], simplified, rule_format, OF svc(1)]
  have "\<not> mem_service_record_matches_retention_kind demo_object 16 False 0"
    by (simp add: mem_service_record_matches_retention_kind_def demo_object_def)
  moreover have "record_map svc ''b'' = Some demo_object" by (simp add: svc(3))
  ultimately have "record_map svc' ''b'' \<noteq> None" using maps by blast
  then obtain r where r: "record_map svc' ''b'' = Some r" by blast
  from map_le_SomeD [of "record_map svc'" "record_map svc" "''b''" r, OF conjunct1 [OF maps] r]
  have kept: "record_map svc' ''b'' = Some demo_object" using r by (simp add: svc(3))
  have be: "de_backends retention_env = layout_backends (de_io retention_env) (\<lambda>_. True) (\<lambda>_ _. 1) (\<lambda>_ _. Sends [1, 2, 3])"
    by (simp add: retention_env_def demo_env_def demo_layouts_def)
  have kind: "rec_object_payload_kind demo_object = MEM_SERVICE_PAYLOAD_KIND_SEALED_LOCAL_BLOCK"
    by (simp add: demo_object_def demo_sealed_sel)
  have own: "rec_object_payload_kind demo_object \<in> block_kinds" "block_file (de_storage_root retention_env) demo_object bp"
    using kind bp by (simp_all add: block_file_def block_kinds_def)
  have "fw_files fw' bp = fw_files ?fw bp"
    using record_retention_safe [OF svc(1,2) be run] kept own by blast
  with kept run show ?thesis
    by (intro exI [of _ bp] exI [of _ svc] exI [of _ svc'] exI [of _ ?fw] exI [of _ fw'] exI [of _ p]) simp
qed

theorem materialize_layouts_publishes_object_witness:
  "\<exists>bp bytes. mem_service_make_payload_block_path ''/d'' (mem_service_checksum_bytes [104, 105]) 512 = Some bp \<and>
     fw_files (snd (mem_service_materialize_payload_block healthy_env demo_layouts ''/d'' demo_sealed
       ''/out'' \<lparr>fw_files = [bp \<mapsto> [104, 105]], fw_tmp_seq = 0\<rparr>)) ''/out'' = Some bytes \<and>
     mem_service_checksum_bytes bytes = mem_service_checksum_bytes [104, 105]"
proof -
  let ?path = "mem_service_make_payload_block_path ''/d'' (rec_object_payload_checksum demo_sealed) 512"
  have "?path \<noteq> None" by code_simp
  then have bp: "?path = Some (the ?path)" by simp
  let ?fw = "\<lparr>fw_files = [the ?path \<mapsto> [104 :: u8, 105]], fw_tmp_seq = 0\<rparr>"
  have "fst (mem_service_materialize_payload_block healthy_env demo_layouts ''/d'' demo_sealed ''/out'' ?fw) =
      STATUS_OK" by code_simp
  then have run: "mem_service_materialize_payload_block healthy_env demo_layouts ''/d'' demo_sealed ''/out'' ?fw =
      (STATUS_OK, snd (mem_service_materialize_payload_block healthy_env demo_layouts ''/d'' demo_sealed ''/out'' ?fw))"
    by (simp add: prod_eq_iff)
  from materialize_layouts_publishes_object [OF run [unfolded demo_layouts_def], folded demo_layouts_def] bp
  show ?thesis by (auto simp: demo_sealed_sel)
qed

end
