(* ===== verification/Client_Calls.thy ===== *)
theory Client_Calls
  imports Client_Api Block_Recovery
begin

text \<open>
  What the calls of the client library mean to the daemon: a built payload holds exactly the fields
  that were given, the record in an answer is read back as it was printed, and a call over an
  undisturbed link returns the record of the daemon's table.
\<close>

section \<open>Payloads as lists of fields\<close>

type_synonym fields_list = "(cstr \<times> cstr) list"

definition fields_text :: "fields_list \<Rightarrow> cstr" where
  "fields_text fs = concat (map (\<lambda>(n, v). kv n v) fs)"

definition field_names_ok :: "fields_list \<Rightarrow> bool" where
  "field_names_ok fs \<longleftrightarrow> list_all (\<lambda>(n, v). newline \<notin> set n \<and> CHR ''='' \<notin> set n \<and> newline \<notin> set v) fs"

lemma payload_find_fields:
  "field_names_ok fs \<Longrightarrow> CHR ''='' \<notin> set m \<Longrightarrow> payload_find m (fields_text fs) = map_of fs m"
proof (induction fs)
  case Nil
  show ?case by (simp add: fields_text_def payload_find.simps [of m "[]"])
next
  case (Cons f fs)
  obtain n v where f: "f = (n, v)" by fastforce
  with Cons.prems have "payload_find m (kv n v @ fields_text fs) =
      (if m = n then Some v else payload_find m (fields_text fs))"
    by (intro payload_find_kv) (simp_all add: field_names_ok_def)
  with Cons f show ?case by (simp add: fields_text_def field_names_ok_def)
qed

lemma get_u64_field:
  fixes w :: u64
  assumes "payload_find name p = Some (show_word w)"
  shows "mem_service_wire_payload_get_u64 p name d = w"
proof -
  have "show_word w \<noteq> []" "length (show_word w) < 32" using show_word_length [of w]
    by (simp_all add: show_word_def)
  with assms show ?thesis
    by (simp add: mem_service_wire_payload_get_u64_def mem_service_wire_payload_get_u64_checked_def
        mem_service_wire_payload_get_string_def nonempty_def)
qed

lemma show_word_ucast [simp]: "show_word (ucast w :: u64) = show_word w" for w :: u32
proof -
  have "unat w < 2 ^ 32" using unsigned_less [of w] by simp
  then show ?thesis by (simp add: show_word_def unsigned_ucast_eq take_bit_nat_eq_self)
qed

lemma get_u32_field:
  fixes w :: u32
  assumes "payload_find name p = Some (show_word w)"
  shows "mem_service_wire_payload_get_u32 p name d = w"
proof -
  have "show_word w \<noteq> []" "length (show_word w) < 32" using show_word_length32 [of w]
    by (simp_all add: show_word_def)
  moreover have "parse_u64 (show_word w) = Some (ucast w)" using parse_u64_show_word [of "ucast w :: u64"] by simp
  moreover have "unat w < 2 ^ 32" using unsigned_less [of w] by simp
  then have "\<not> (ucast w :: u64) > UINT32_MAX"
    by (simp add: UINT32_MAX_def word_less_nat_alt unsigned_ucast_eq take_bit_nat_eq_self)
  moreover have "ucast (ucast w :: u64) = w" by (rule bit_word_eqI) (simp add: bit_unsigned_iff)
  ultimately show ?thesis using assms
    by (simp add: mem_service_wire_payload_get_u32_def mem_service_wire_payload_get_u64_checked_def
        mem_service_wire_payload_get_string_def nonempty_def)
qed

lemma get_number_absent:
  assumes "payload_find name p = None"
  shows "mem_service_wire_payload_get_u32 p name d = d" "mem_service_wire_payload_get_u64 p name d' = d'"
  using assms by (simp_all add: mem_service_wire_payload_get_u32_def mem_service_wire_payload_get_u64_def
      mem_service_wire_payload_get_u64_checked_def mem_service_wire_payload_get_string_def nonempty_def)

lemma copy_field:
  assumes "payload_find name p = Some v" "length v < n"
  shows "mem_service_client_payload_copy p name n = v"
  using assms by (simp add: mem_service_client_payload_copy_def mem_service_wire_payload_get_string_def nonempty_def)

lemma copy_field_cut:
  assumes "payload_find name p = Some v" "1 < n"
  shows "mem_service_client_payload_copy p name n = snprintf_s n v"
  using assms by (simp add: mem_service_client_payload_copy_def mem_service_wire_payload_get_string_def nonempty_def)

section \<open>The record of an answer\<close>

definition answer_fields :: "mem_service_record \<Rightarrow> fields_list" where
  "answer_fields r =
     [(''key'', rec_key r), (''kind'', show_word (record_kind_code (rec_kind r))),
      (''request_id'', rec_request_id r), (''prefix_group'', rec_prefix_group r), (''group_id'', rec_group_id r),
      (''session_id'', mem_service_record_session_id r), (''model_key'', mem_service_record_model_key r),
      (''artifact_kind'', mem_service_record_artifact_kind r),
      (''artifact_id'', mem_service_record_artifact_id r), (''block_hash'', rec_block_hash r),
      (''placement_node'', show_word (rec_placement_node r)),
      (''placement_level'', show_word (rec_placement_level r)),
      (''hot_segment_id'', show_word (rec_hot_segment_id r)),
      (''state'', mem_service_kvcache_state_name (rec_state r)), (''version'', show_word (rec_version r)),
      (''last_result_segment'', show_word (rec_last_result_segment r)),
      (''object_owner_node'', show_word (rec_object_owner_node r)),
      (''object_payload_kind'', show_word (rec_object_payload_kind r)),
      (''object_backing_offset'', show_word (rec_object_backing_offset r)),
      (''object_backing_len'', show_word (rec_object_backing_len r)),
      (''object_payload_checksum'', show_word (rec_object_payload_checksum r))]"

definition answer_backend_fields :: "mem_service_record \<Rightarrow> fields_list" where
  "answer_backend_fields r =
     (if rec_object_backend_kind r = MEM_SERVICE_OBJECT_BACKEND_OBMM_POOL then []
      else [(''object_backend'', mem_service_object_backend_name (rec_object_backend_kind r)),
        (''object_backend_kind'', show_word (rec_object_backend_kind r)),
        (''object_backend_node'', show_word (rec_object_backend_node r)),
        (''object_backend_device_cna'', show_word (rec_object_backend_device_cna r)),
        (''object_backend_flags'', show_word (rec_object_backend_flags r)),
        (''object_backend_block_hi'', show_word (rec_object_backend_block_hi r)),
        (''object_backend_block_lo'', show_word (rec_object_backend_block_lo r)),
        (''object_backend_block_version'', show_word (rec_object_backend_block_version r)),
        (''object_backend_block_offset'', show_word (rec_object_backend_block_offset r)),
        (''object_backend_block_bytes'', show_word (rec_object_backend_block_bytes r)),
        (''object_backend_block_checksum'', show_word (rec_object_backend_block_checksum r))])"

text \<open>What a client sees of a record: the names and numbers of the record, with an artifact identifier
  cut to the 64 characters of the client's field, and the backend fields of a record kept outside the
  pool.\<close>

definition client_view :: "mem_service_record \<Rightarrow> mem_service_client_record" where
  "client_view r =
     (let pool = (rec_object_backend_kind r = MEM_SERVICE_OBJECT_BACKEND_OBMM_POOL) in
      \<lparr>cr_key = rec_key r, cr_kind = record_kind_code (rec_kind r), cr_request_id = rec_request_id r,
       cr_prefix_group = rec_prefix_group r, cr_group_id = rec_group_id r,
       cr_session_id = mem_service_record_session_id r, cr_model_key = mem_service_record_model_key r,
       cr_artifact_kind = mem_service_record_artifact_kind r,
       cr_artifact_id = snprintf_s MEM_SERVICE_CLIENT_ID_LEN (mem_service_record_artifact_id r),
       cr_block_hash = rec_block_hash r, cr_placement_node = rec_placement_node r,
       cr_placement_level = rec_placement_level r, cr_hot_segment_id = rec_hot_segment_id r,
       cr_state = mem_service_kvcache_state_name (rec_state r), cr_version = rec_version r,
       cr_last_result_segment = rec_last_result_segment r, cr_object_owner_node = rec_object_owner_node r,
       cr_object_payload_kind = rec_object_payload_kind r,
       cr_object_backing_offset = rec_object_backing_offset r, cr_object_backing_len = rec_object_backing_len r,
       cr_object_payload_checksum = rec_object_payload_checksum r,
       cr_object_backend_kind = (if pool then 0 else rec_object_backend_kind r),
       cr_object_backend_node = (if pool then 0 else rec_object_backend_node r),
       cr_object_backend_device_cna = (if pool then 0 else rec_object_backend_device_cna r),
       cr_object_backend_flags = (if pool then 0 else rec_object_backend_flags r),
       cr_object_backend_block_hi = (if pool then 0 else rec_object_backend_block_hi r),
       cr_object_backend_block_lo = (if pool then 0 else rec_object_backend_block_lo r),
       cr_object_backend_block_version = (if pool then 0 else rec_object_backend_block_version r),
       cr_object_backend_block_offset = (if pool then 0 else rec_object_backend_block_offset r),
       cr_object_backend_block_bytes = (if pool then 0 else rec_object_backend_block_bytes r),
       cr_object_backend_block_checksum = (if pool then 0 else rec_object_backend_block_checksum r)\<rparr>)"

lemma newline_notin_show_word [simp]: "newline \<notin> set (show_word w)"
  by (simp add: show_word_def)

lemma state_name_plain: "newline \<notin> set (mem_service_kvcache_state_name st)" "length (mem_service_kvcache_state_name st) < 32"
  by (cases st; simp)+

lemma answer_fields_ok:
  assumes "record_clean r"
  shows "field_names_ok (answer_fields r @ answer_backend_fields r)"
proof -
  have "newline \<notin> set (mem_service_object_backend_name k)" for k by (simp add: mem_service_object_backend_name_def)
  with assms state_name_plain(1) show ?thesis
    by (auto simp: field_names_ok_def answer_fields_def answer_backend_fields_def record_clean_def clean_def
        mem_service_record_session_id_def mem_service_record_model_key_def mem_service_record_artifact_kind_def
        mem_service_record_artifact_id_def)
qed

lemma format_answer_fields:
  "mem_service_format_record_payload r n = snprintf_s n (fields_text (answer_fields r @ answer_backend_fields r))"
  by (simp add: mem_service_format_record_payload_def Let_def fields_text_def answer_fields_def answer_backend_fields_def
      record_name_lines_def record_tail_lines_def record_backend_lines_def)

lemma kv_length: "length (kv n v) = length n + length v + 2" by (simp add: kv_def)

lemma fields_text_bound:
  "list_all (\<lambda>(n, v). length n \<le> 29 \<and> length v \<le> 95) fs \<Longrightarrow> length (fields_text fs) \<le> 126 * length fs"
  by (induction fs) (auto simp: fields_text_def kv_length)

lemma number_length:
  "length (show_word (x :: u32)) \<le> 95" "length (show_word (y :: u64)) \<le> 95"
  using show_word_length32 [of x] show_word_length [of y] by linarith+

lemma record_text_short:
  assumes "record_ok r"
  shows "length (fields_text (answer_fields r @ answer_backend_fields r)) < 4096"
proof -
  have "length (mem_service_record_session_id r) \<le> 95" "length (mem_service_record_model_key r) \<le> 95"
    "length (mem_service_record_artifact_kind r) \<le> 95" "length (mem_service_record_artifact_id r) \<le> 95"
    "length (rec_key r) \<le> 95" "length (rec_request_id r) \<le> 95" "length (rec_prefix_group r) \<le> 95"
    "length (rec_group_id r) \<le> 95" "length (rec_block_hash r) \<le> 95"
    using assms by (auto simp: record_ok_def mem_service_record_session_id_def mem_service_record_model_key_def
        mem_service_record_artifact_kind_def mem_service_record_artifact_id_def)
  moreover have "length (mem_service_object_backend_name k) \<le> 95" for k by (simp add: mem_service_object_backend_name_def)
  moreover have "length (mem_service_kvcache_state_name st) \<le> 95" for st by (cases st) simp_all
  ultimately have "list_all (\<lambda>(n, v). length n \<le> 29 \<and> length v \<le> 95) (answer_fields r @ answer_backend_fields r)"
    by (simp add: answer_fields_def answer_backend_fields_def number_length)
  moreover have "length (answer_fields r @ answer_backend_fields r) \<le> 32" by (simp add: answer_fields_def answer_backend_fields_def)
  ultimately show ?thesis using fields_text_bound [of "answer_fields r @ answer_backend_fields r"] by simp
qed

lemma client_reads_record:
  assumes ok: "record_ok r" "record_clean r" "rec_key r \<noteq> []" and n: "4096 \<le> n"
  shows "mem_service_client_parse_record (mem_service_format_record_payload r n) = (0, Some (client_view r))"
proof -
  let ?fs = "answer_fields r @ answer_backend_fields r" and ?p = "mem_service_format_record_payload r n"
  have p: "?p = fields_text ?fs" using record_text_short [OF ok(1)] n by (simp add: format_answer_fields)
  have find: "payload_find m ?p = map_of ?fs m" if "CHR ''='' \<notin> set m" for m
    unfolding p using answer_fields_ok [OF ok(2)] that by (rule payload_find_fields)
  have ne: "?p \<noteq> []" by (simp add: p fields_text_def answer_fields_def kv_def)
  have n: "length (mem_service_record_session_id r) < 64" "length (mem_service_record_model_key r) < 64"
    "length (mem_service_record_artifact_kind r) < 64"
    using ok(1) by (auto simp: record_ok_def mem_service_record_session_id_def mem_service_record_model_key_def
        mem_service_record_artifact_kind_def)
  have v: "payload_find ''key'' ?p = Some (rec_key r)"
    "payload_find ''kind'' ?p = Some (show_word (record_kind_code (rec_kind r)))"
    "payload_find ''request_id'' ?p = Some (rec_request_id r)"
    "payload_find ''prefix_group'' ?p = Some (rec_prefix_group r)"
    "payload_find ''group_id'' ?p = Some (rec_group_id r)"
    "payload_find ''session_id'' ?p = Some (mem_service_record_session_id r)"
    "payload_find ''model_key'' ?p = Some (mem_service_record_model_key r)"
    "payload_find ''artifact_kind'' ?p = Some (mem_service_record_artifact_kind r)"
    "payload_find ''artifact_id'' ?p = Some (mem_service_record_artifact_id r)"
    "payload_find ''block_hash'' ?p = Some (rec_block_hash r)"
    "payload_find ''placement_node'' ?p = Some (show_word (rec_placement_node r))"
    "payload_find ''placement_level'' ?p = Some (show_word (rec_placement_level r))"
    "payload_find ''hot_segment_id'' ?p = Some (show_word (rec_hot_segment_id r))"
    "payload_find ''state'' ?p = Some (mem_service_kvcache_state_name (rec_state r))"
    "payload_find ''version'' ?p = Some (show_word (rec_version r))"
    "payload_find ''last_result_segment'' ?p = Some (show_word (rec_last_result_segment r))"
    "payload_find ''object_owner_node'' ?p = Some (show_word (rec_object_owner_node r))"
    "payload_find ''object_payload_kind'' ?p = Some (show_word (rec_object_payload_kind r))"
    "payload_find ''object_backing_offset'' ?p = Some (show_word (rec_object_backing_offset r))"
    "payload_find ''object_backing_len'' ?p = Some (show_word (rec_object_backing_len r))"
    "payload_find ''object_payload_checksum'' ?p = Some (show_word (rec_object_payload_checksum r))"
    "payload_find ''checksum'' ?p = None"
    by (subst find; simp add: answer_fields_def answer_backend_fields_def)+
  let ?pool = "rec_object_backend_kind r = MEM_SERVICE_OBJECT_BACKEND_OBMM_POOL"
  have b: "payload_find ''object_backend_kind'' ?p = (if ?pool then None else Some (show_word (rec_object_backend_kind r)))"
    "payload_find ''object_backend_node'' ?p = (if ?pool then None else Some (show_word (rec_object_backend_node r)))"
    "payload_find ''object_backend_device_cna'' ?p = (if ?pool then None else Some (show_word (rec_object_backend_device_cna r)))"
    "payload_find ''object_backend_flags'' ?p = (if ?pool then None else Some (show_word (rec_object_backend_flags r)))"
    "payload_find ''object_backend_block_hi'' ?p = (if ?pool then None else Some (show_word (rec_object_backend_block_hi r)))"
    "payload_find ''object_backend_block_lo'' ?p = (if ?pool then None else Some (show_word (rec_object_backend_block_lo r)))"
    "payload_find ''object_backend_block_version'' ?p = (if ?pool then None else Some (show_word (rec_object_backend_block_version r)))"
    "payload_find ''object_backend_block_offset'' ?p = (if ?pool then None else Some (show_word (rec_object_backend_block_offset r)))"
    "payload_find ''object_backend_block_bytes'' ?p = (if ?pool then None else Some (show_word (rec_object_backend_block_bytes r)))"
    "payload_find ''object_backend_block_checksum'' ?p = (if ?pool then None else Some (show_word (rec_object_backend_block_checksum r)))"
    by (subst find; simp add: answer_fields_def answer_backend_fields_def)+
  have c: "mem_service_wire_payload_get_u32 ?p ''object_backend_kind'' 0 = (if ?pool then 0 else rec_object_backend_kind r)"
    "mem_service_wire_payload_get_u32 ?p ''object_backend_node'' 0 = (if ?pool then 0 else rec_object_backend_node r)"
    "mem_service_wire_payload_get_u32 ?p ''object_backend_device_cna'' 0 = (if ?pool then 0 else rec_object_backend_device_cna r)"
    "mem_service_wire_payload_get_u32 ?p ''object_backend_flags'' 0 = (if ?pool then 0 else rec_object_backend_flags r)"
    "mem_service_wire_payload_get_u64 ?p ''object_backend_block_hi'' 0 = (if ?pool then 0 else rec_object_backend_block_hi r)"
    "mem_service_wire_payload_get_u64 ?p ''object_backend_block_lo'' 0 = (if ?pool then 0 else rec_object_backend_block_lo r)"
    "mem_service_wire_payload_get_u64 ?p ''object_backend_block_version'' 0 = (if ?pool then 0 else rec_object_backend_block_version r)"
    "mem_service_wire_payload_get_u64 ?p ''object_backend_block_offset'' 0 = (if ?pool then 0 else rec_object_backend_block_offset r)"
    "mem_service_wire_payload_get_u64 ?p ''object_backend_block_bytes'' 0 = (if ?pool then 0 else rec_object_backend_block_bytes r)"
    "mem_service_wire_payload_get_u64 ?p ''object_backend_block_checksum'' 0 = (if ?pool then 0 else rec_object_backend_block_checksum r)"
    using b by (auto intro!: get_u32_field get_u64_field get_number_absent)
  show ?thesis using ne n ok(1,3) state_name_plain(2) [of "rec_state r"]
    by (simp add: mem_service_client_parse_record_def Let_def client_view_def client_lens record_ok_def c
        copy_field [OF v(1)] get_u32_field [OF v(2)] copy_field [OF v(3)] copy_field [OF v(4)]
        copy_field [OF v(5)] copy_field [OF v(6)] copy_field [OF v(7)] copy_field [OF v(8)]
        copy_field_cut [OF v(9)] copy_field [OF v(10)] get_u32_field [OF v(11)] get_u32_field [OF v(12)]
        get_u64_field [OF v(13)] copy_field [OF v(14)] get_u64_field [OF v(15)] get_u64_field [OF v(16)]
        get_u32_field [OF v(17)] get_u32_field [OF v(18)] get_u64_field [OF v(19)] get_u64_field [OF v(20)]
        get_u64_field [OF v(21)]
        get_number_absent [OF v(22)])
qed

section \<open>Calls over the link\<close>

lemma effective_attempts_positive: "0 < mem_service_client_effective_max_attempts options"
  by (auto simp: mem_service_client_effective_max_attempts_def MEM_SERVICE_WIRE_CLIENT_DEFAULT_MAX_ATTEMPTS_def
      MEM_SERVICE_WIRE_CLIENT_MAX_ATTEMPTS_def word_gt_0 split: option.split)

text \<open>An undisturbed call returns the answer of the daemon whatever the options for retries are.\<close>

lemma send_through:
  assumes "call_ok limits op payload" "good_spec (mem_service_client_connect_spec client)" "fates k = Through"
    and "mem_service_handle_operation_with_limits (envs k) probe path limits op payload
      MEM_SERVICE_WIRE_MAX_PAYLOAD_LEN s = (STATUS_OK, resp, s')" "0 < out_len"
  shows "mem_service_client_send (daemon_link envs clock fates probe path limits) ids client op payload out_len (k, s) =
    ((0, STATUS_OK, Some (snprintf_s out_len (if resp \<noteq> [] then resp else mem_service_wire_status_name STATUS_OK))),
     (k + 1, s'))"
  unfolding mem_service_client_send_def mem_service_send_unix_request_with_options_def
  by (subst send_loop.simps)
     (simp add: exchange_through [where envs = envs and fates = fates and k = k, OF assms(1,2,3,4) _ assms(5)]
       effective_attempts_positive mem_service_client_should_retry_def)

text \<open>A request that does not mutate is answered by its handler.\<close>

lemma reader_answer:
  assumes "\<not> mem_service_operation_mutates op payload"
    and "run_request (rq_daemon renv) probe limits op payload n s = (st, resp, ck, rc, s1)"
  shows "\<exists>s'. mem_service_handle_operation_with_limits renv probe path limits op payload n s = (st, resp, s')"
  using assms
  by (simp add: mem_service_handle_operation_with_limits_def mem_service_try_idempotency_replay_def Let_def
      case_prod_beta)

lemma get_request_answer:
  assumes get: "mem_service_get_object (rq_daemon renv) (srv_svc s) payload n (srv_fw s) = (STATUS_OK, resp, svc', fw')"
  shows "\<exists>s'. mem_service_handle_operation_with_limits renv probe path limits OP_GET_OBJECT payload n s =
    (STATUS_OK, resp, s')"
proof -
  have m: "\<not> mem_service_operation_mutates OP_GET_OBJECT payload" by (simp add: mem_service_operation_mutates_def)
  then have "\<not> quota_exceeded limits (srv_svc s)
      (mem_service_estimate_new_record_count (srv_svc s) OP_GET_OBJECT payload)"
    by (simp add: quota_exceeded_def mem_service_estimate_new_record_count_def split: option.split)
  with m get have "\<exists>ck rc s1. run_request (rq_daemon renv) probe limits OP_GET_OBJECT payload n s =
      (STATUS_OK, resp, ck, rc, s1)"
    by (cases limits) (auto simp: run_request_def Let_def mem_service_dispatch_operation_def on_files_def)
  with reader_answer [OF m] show ?thesis by blast
qed


section \<open>What a built payload says\<close>

definition opt_text :: "cstr \<Rightarrow> cstr \<Rightarrow> fields_list" where
  "opt_text name v = (if v = [] then [] else [(name, v)])"

definition opt_number :: "cstr \<Rightarrow> 'a::len word option \<Rightarrow> fields_list" where
  "opt_number name x = (case x of None \<Rightarrow> [] | Some w \<Rightarrow> [(name, show_word w)])"

text \<open>A writer that succeeds has appended exactly these fields and stayed in its buffer.\<close>

definition writes :: "writer \<Rightarrow> fields_list \<Rightarrow> bool" where
  "writes w fs \<longleftrightarrow> (\<forall>p n p'. w p n = (0, p') \<longrightarrow> p' = p @ fields_text fs \<and> (length p < n \<longrightarrow> length p' < n))"

lemma writesD: "writes w fs \<Longrightarrow> w p n = (0, p') \<Longrightarrow> p' = p @ fields_text fs \<and> (length p < n \<longrightarrow> length p' < n)"
  by (auto simp: writes_def)

lemma fields_text_append: "fields_text (fs @ gs) = fields_text fs @ fields_text gs"
  by (simp add: fields_text_def)

named_theorems writes_intro

lemma append_field_writes:
  assumes "mem_service_wire_payload_append_field p n name v = (0, p')" "v \<noteq> []"
  shows "p' = p @ kv name v" and "length p' < n"
  using assms by (auto simp: mem_service_wire_payload_append_field_def Let_def kv_def split: if_splits)

lemma append_u64_writes:
  assumes "mem_service_wire_payload_append_u64 p n name w = (0, p')"
  shows "p' = p @ kv name (show_word w)" and "length p' < n"
proof -
  have "show_word w \<noteq> []" "length (show_word w) < 32" using show_word_length [of w] by (simp_all add: show_word_def)
  then have "mem_service_wire_payload_append_field p n name (show_word w) = (0, p')" "show_word w \<noteq> []"
    using assms by (simp_all add: mem_service_wire_payload_append_u64_def)
  then show "p' = p @ kv name (show_word w)" "length p' < n" by (fact append_field_writes)+
qed

lemma writes_required [writes_intro]: "writes (required name v) [(name, v)]"
  by (auto simp: writes_def mem_service_client_append_required_string_def fields_text_def
      dest: append_field_writes split: if_splits)

lemma writes_optional [writes_intro]: "writes (optional name v) (opt_text name v)"
  by (auto simp: writes_def mem_service_client_append_optional_string_def fields_text_def opt_text_def
      dest: append_field_writes split: if_splits)

lemma writes_u64 [writes_intro]: "writes (optional_u64 name x) (opt_number name x)"
  by (auto simp: writes_def mem_service_client_append_optional_u64_def fields_text_def opt_number_def
      dest: append_u64_writes split: option.splits)

lemma writes_u32 [writes_intro]: "writes (optional_u32 name x) (opt_number name x)"
  by (cases x) (auto simp: writes_def mem_service_client_append_optional_u32_def fields_text_def opt_number_def
      dest: append_u64_writes)

lemma writes_Nil [writes_intro]: "writes (append_all []) []"
  by (simp add: writes_def fields_text_def)

lemma writes_Cons [writes_intro]:
  "writes w fs \<Longrightarrow> writes (append_all ws) gs \<Longrightarrow> writes (append_all (w # ws)) (fs @ gs)"
  unfolding writes_def [of "append_all (w # ws)"]
  by (auto simp: fields_text_append dest!: writesD split: prod.splits if_splits)

lemma field_names_ok_append [simp]: "field_names_ok (fs @ gs) \<longleftrightarrow> field_names_ok fs \<and> field_names_ok gs"
  by (simp add: field_names_ok_def)

lemma field_names_ok_simps [simp]:
  "field_names_ok []"
  "field_names_ok ((n, v) # fs) \<longleftrightarrow> newline \<notin> set n \<and> CHR ''='' \<notin> set n \<and> newline \<notin> set v \<and> field_names_ok fs"
  by (auto simp: field_names_ok_def)

lemma field_names_ok_opt:
  "newline \<notin> set n \<Longrightarrow> CHR ''='' \<notin> set n \<Longrightarrow> newline \<notin> set v \<Longrightarrow> field_names_ok (opt_text n v)"
  "newline \<notin> set n \<Longrightarrow> CHR ''='' \<notin> set n \<Longrightarrow> field_names_ok (opt_number n x)"
  by (auto simp: field_names_ok_def opt_text_def opt_number_def split: option.split)

lemma field_length: "(n, v) \<in> set fs \<Longrightarrow> length v \<le> length (fields_text fs)"
  by (induction fs) (auto simp: fields_text_def kv_length)

definition object_fields :: "mem_service_client_object \<Rightarrow> fields_list" where
  "object_fields obj =
     [(''key'', co_key obj)] @ opt_text ''idempotency_key'' (co_idempotency_key obj) @
     opt_number ''owner'' (co_owner obj) @ opt_number ''payload_kind'' (co_payload_kind obj) @
     opt_number ''backing_offset'' (co_backing_offset obj) @ opt_number ''backing_len'' (co_backing_len obj) @
     opt_number ''checksum'' (co_checksum obj) @ opt_number ''version'' (co_version obj) @
     opt_number ''backend_kind'' (co_backend_kind obj) @ opt_number ''backend_node'' (co_backend_node obj) @
     opt_number ''backend_device_cna'' (co_backend_device_cna obj) @
     opt_number ''backend_block_hi'' (co_backend_block_hi obj) @
     opt_number ''backend_block_lo'' (co_backend_block_lo obj) @
     opt_number ''backend_block_version'' (co_backend_block_version obj) @
     opt_number ''backend_block_offset'' (co_backend_block_offset obj) @
     opt_number ''backend_block_bytes'' (co_backend_block_bytes obj) @
     opt_number ''backend_block_checksum'' (co_backend_block_checksum obj) @
     opt_text ''payload_inline'' (co_payload_inline obj) @ opt_text ''payload_path'' (co_payload_path obj) @ []"

lemma object_payload_text:
  assumes "mem_service_client_append_object_payload [] n obj = (0, p)"
  shows "p = fields_text (object_fields obj)" and "0 < n \<Longrightarrow> length p < n"
proof -
  have "writes (\<lambda>p n. mem_service_client_append_object_payload p n obj) (object_fields obj)"
    unfolding mem_service_client_append_object_payload_def object_fields_def
    by (intro writes_intro)
  from writesD [OF this assms] show "p = fields_text (object_fields obj)" "0 < n \<Longrightarrow> length p < n" by auto
qed

lemma map_of_opt [simp]:
  "map_of (opt_text n v @ fs) m = (if v \<noteq> [] \<and> m = n then Some v else map_of fs m)"
  "map_of (opt_number n x @ fs) m = (if x \<noteq> None \<and> m = n then map_option show_word x else map_of fs m)"
  "map_of (opt_text n v) m = (if v \<noteq> [] \<and> m = n then Some v else None)"
  by (auto simp: opt_text_def opt_number_def split: option.split)

lemma get_u64_option:
  "payload_find name p = map_option show_word x \<Longrightarrow>
     mem_service_wire_payload_get_u64 p name d = (case x of None \<Rightarrow> d | Some w \<Rightarrow> w)"
  by (cases x) (simp_all add: get_u64_field get_number_absent)

lemma get_u32_option:
  "payload_find name p = map_option show_word x \<Longrightarrow>
     mem_service_wire_payload_get_u32 p name d = (case x of None \<Rightarrow> d | Some w \<Rightarrow> w)"
  by (cases x) (simp_all add: get_u32_field get_number_absent)

text \<open>The header scan finds the same fields, since every line has an equals sign.\<close>

lemma header_find_line:
  assumes "newline \<notin> set l"
  shows "header_find name (l @ newline # t) =
    (if CHR ''='' \<notin> set l then None
     else if takeWhile (\<lambda>c. c \<noteq> CHR ''='') l = name then Some (drop (length name + 1) l) else header_find name t)"
  by (subst header_find.simps) (simp add: line_of_append after_line_append assms Let_def)

lemma header_find_fields:
  assumes "field_names_ok fs"
  shows "header_find m (fields_text fs) = map_of fs m"
  using assms
proof (induction fs)
  case Nil
  then show ?case by (simp add: fields_text_def header_find.simps [of m "[]"])
next
  case (Cons f fs)
  obtain n v where f: "f = (n, v)" by (cases f)
  have nv: "newline \<notin> set (n @ ''='' @ v)" "CHR ''='' \<notin> set n" using Cons.prems by (auto simp: f field_names_ok_def)
  have split: "fields_text (f # fs) = (n @ ''='' @ v) @ newline # fields_text fs"
    by (simp add: fields_text_def f kv_def)
  have name: "takeWhile (\<lambda>c. c \<noteq> CHR ''='') (n @ ''='' @ v) = n"
    using nv(2) by (induction n) auto
  have "header_find m (fields_text (f # fs)) =
      (if n = m then Some v else header_find m (fields_text fs))"
    unfolding split header_find_line [OF nv(1)] name by simp
  with Cons show ?case by (auto simp: f)
qed

lemma client_object_record:
  assumes find: "\<And>m. CHR ''='' \<notin> set m \<Longrightarrow> payload_find m payload = map_of (object_fields obj) m"
  shows "object_record env payload (take 95 (co_key obj)) = zero_record
      \<lparr>rec_in_use := True, rec_kind := RECORD_KVCACHE_OBJECT, rec_key := take 95 (co_key obj),
       rec_version := (case co_version obj of None \<Rightarrow> 1 | Some v \<Rightarrow> v),
       rec_object_owner_node := (case co_owner obj of None \<Rightarrow> 0 | Some v \<Rightarrow> v),
       rec_object_payload_kind := (case co_payload_kind obj of None \<Rightarrow> 0 | Some v \<Rightarrow> v),
       rec_object_backing_offset := (case co_backing_offset obj of None \<Rightarrow> 0 | Some v \<Rightarrow> v),
       rec_object_backing_len := (case co_backing_len obj of None \<Rightarrow> 0 | Some v \<Rightarrow> v),
       rec_object_payload_checksum := (case co_checksum obj of None \<Rightarrow> 0 | Some v \<Rightarrow> v),
       rec_object_publish_monotonic_ms := io_wall_clock_ms (de_io env)\<rparr>"
proof -
  have n: "payload_find ''version'' payload = map_option show_word (co_version obj)"
    "payload_find ''owner'' payload = map_option show_word (co_owner obj)"
    "payload_find ''payload_kind'' payload = map_option show_word (co_payload_kind obj)"
    "payload_find ''backing_offset'' payload = map_option show_word (co_backing_offset obj)"
    "payload_find ''backing_len'' payload = map_option show_word (co_backing_len obj)"
    "payload_find ''checksum'' payload = map_option show_word (co_checksum obj)"
    by (subst find; simp add: object_fields_def del: map_of_append)+
  show ?thesis
    by (simp add: object_record_def snprintf_s_def get_u64_option [OF n(1)] get_u32_option [OF n(2)] get_u32_option [OF n(3)]
        get_u64_option [OF n(4)] get_u64_option [OF n(5)] get_u64_option [OF n(6)])
qed

text \<open>C10. What a client puts is what the daemon stores. When the client library can build the payload of
  an object, in its buffer of 512 characters, the daemon that scans this payload finds the inline contents
  and the path of the object as they are, and the key and the idempotency key (which it reads from the
  header lines) cut to their first 95 characters, which the library does not refuse; the record it forms
  has the key so cut and exactly the version, owner, payload kind, backing range and checksum of the
  object, with the daemon's defaults for what the client left out. No string may contain a line end, which
  the library does not refuse either.\<close>

theorem client_object_encoded:
  assumes built: "mem_service_client_append_object_payload [] 512 obj = (0, payload)"
    and plain: "newline \<notin> set (co_key obj)" "newline \<notin> set (co_idempotency_key obj)"
      "newline \<notin> set (co_payload_inline obj)" "newline \<notin> set (co_payload_path obj)"
  defines "key \<equiv> take 95 (co_key obj)"
  shows "mem_service_payload_get_string payload ''key'' 96 = Some key \<and>
    mem_service_payload_get_idempotency_key payload MEM_SERVICE_IDEMPOTENCY_KEY_LEN =
      (if co_idempotency_key obj = [] then None else Some (take 95 (co_idempotency_key obj))) \<and>
    string_or_empty payload ''payload_inline'' 1024 = co_payload_inline obj \<and>
    string_or_empty payload ''payload_path'' 512 = co_payload_path obj \<and>
    object_record env payload key = zero_record
      \<lparr>rec_in_use := True, rec_kind := RECORD_KVCACHE_OBJECT, rec_key := key,
       rec_version := (case co_version obj of None \<Rightarrow> 1 | Some v \<Rightarrow> v),
       rec_object_owner_node := (case co_owner obj of None \<Rightarrow> 0 | Some v \<Rightarrow> v),
       rec_object_payload_kind := (case co_payload_kind obj of None \<Rightarrow> 0 | Some v \<Rightarrow> v),
       rec_object_backing_offset := (case co_backing_offset obj of None \<Rightarrow> 0 | Some v \<Rightarrow> v),
       rec_object_backing_len := (case co_backing_len obj of None \<Rightarrow> 0 | Some v \<Rightarrow> v),
       rec_object_payload_checksum := (case co_checksum obj of None \<Rightarrow> 0 | Some v \<Rightarrow> v),
       rec_object_publish_monotonic_ms := io_wall_clock_ms (de_io env)\<rparr>"
proof -
  have p: "payload = fields_text (object_fields obj)" "length payload < 512"
    using object_payload_text [OF built] by simp_all
  have ok: "field_names_ok (object_fields obj)" using plain
    by (simp add: object_fields_def field_names_ok_opt)
  then have find: "payload_find m payload = map_of (object_fields obj) m" if "CHR ''='' \<notin> set m" for m
    unfolding p using that by (rule payload_find_fields)
  have ne: "co_key obj \<noteq> []"
    using built by (auto simp: mem_service_client_append_object_payload_def mem_service_client_append_required_string_def)
  have str: "payload_find m payload = (if v = [] then None else Some v) \<Longrightarrow> length v < n \<Longrightarrow>
      string_or_empty payload m n = v" for m v n
    by (simp add: string_or_empty_def mem_service_wire_payload_get_string_def nonempty_def)
  have short: "length v < 512" if "payload_find m payload = (if v = [] then None else Some v)" "CHR ''='' \<notin> set m" for m v
  proof (cases "v = []")
    case False
    with that find have "map_of (object_fields obj) m = Some v" by metis
    from field_length [OF map_of_SomeD [OF this]] p show ?thesis by simp
  qed simp
  have f: "payload_find ''key'' payload = Some (co_key obj)"
    "payload_find ''idempotency_key'' payload = (if co_idempotency_key obj = [] then None else Some (co_idempotency_key obj))"
    "payload_find ''payload_inline'' payload = (if co_payload_inline obj = [] then None else Some (co_payload_inline obj))"
    "payload_find ''payload_path'' payload = (if co_payload_path obj = [] then None else Some (co_payload_path obj))"
    by (subst find; simp add: object_fields_def del: map_of_append)+
  have l: "length (co_payload_inline obj) < 512" "length (co_payload_path obj) < 512"
    using short [OF f(3)] short [OF f(4)] by simp_all
  have "object_record env payload key = zero_record
      \<lparr>rec_in_use := True, rec_kind := RECORD_KVCACHE_OBJECT, rec_key := key,
       rec_version := (case co_version obj of None \<Rightarrow> 1 | Some v \<Rightarrow> v),
       rec_object_owner_node := (case co_owner obj of None \<Rightarrow> 0 | Some v \<Rightarrow> v),
       rec_object_payload_kind := (case co_payload_kind obj of None \<Rightarrow> 0 | Some v \<Rightarrow> v),
       rec_object_backing_offset := (case co_backing_offset obj of None \<Rightarrow> 0 | Some v \<Rightarrow> v),
       rec_object_backing_len := (case co_backing_len obj of None \<Rightarrow> 0 | Some v \<Rightarrow> v),
       rec_object_payload_checksum := (case co_checksum obj of None \<Rightarrow> 0 | Some v \<Rightarrow> v),
       rec_object_publish_monotonic_ms := io_wall_clock_ms (de_io env)\<rparr>"
    unfolding key_def by (rule client_object_record [OF find])
  moreover have "mem_service_payload_get_string payload ''key'' 96 = Some key"
    using f(1) ne by (simp add: mem_service_wire_payload_get_string_def nonempty_def snprintf_s_def key_def)
  moreover have "mem_service_payload_get_idempotency_key payload MEM_SERVICE_IDEMPOTENCY_KEY_LEN =
      (if co_idempotency_key obj = [] then None else Some (take 95 (co_idempotency_key obj)))"
    using header_find_fields [OF ok, of "''idempotency_key''"] find [of "''idempotency_key''"] f(2)
    by (simp add: mem_service_payload_get_idempotency_key_def mem_service_payload_get_header_string_def p(1)
        nonempty_def snprintf_s_def MEM_SERVICE_IDEMPOTENCY_KEY_LEN_def)
  ultimately show ?thesis using str [OF f(3), of 1024] str [OF f(4) l(2)] l(1) by simp
qed

text \<open>The library writes a string with a line end as it is: the text after the line end becomes a field
  of the request.\<close>

lemma line_end_adds_field:
  assumes "newline \<notin> set k" "length k < 64"
  shows "\<exists>p. mem_service_client_append_required_string [] 160 ''key'' (k @ newline # ''version=9'') = (0, p) \<and>
    payload_find ''version'' p = Some ''9''"
proof -
  let ?v = "k @ newline # ''version=9''"
  have "mem_service_client_append_required_string [] 160 ''key'' ?v = (0, kv ''key'' ?v)"
    using assms(2) by (simp add: mem_service_client_append_required_string_def mem_service_wire_payload_append_field_def kv_def)
  moreover have "kv ''key'' ?v = (''key='' @ k) @ newline # kv ''version'' ''9''" by (simp add: kv_def)
  then have "payload_find ''version'' (kv ''key'' ?v) = payload_find ''version'' (kv ''version'' ''9'')"
    using payload_find_line [of "''key='' @ k" "''version''" "kv ''version'' ''9''"] assms(1)
    by (simp add: line_matches_def)
  moreover have "payload_find ''version'' (kv ''version'' ''9'') = Some ''9''"
    by (subst payload_find_kv_last) simp_all
  ultimately show ?thesis by simp
qed

section \<open>Witnesses\<close>

definition demo_client_object :: mem_service_client_object where
  "demo_client_object = \<lparr>co_key = ''k'', co_idempotency_key = [], co_owner = None, co_payload_kind = None,
     co_backing_offset = None, co_backing_len = None, co_checksum = None, co_version = Some 3, co_backend_kind = None,
     co_backend_node = None, co_backend_device_cna = None, co_backend_block_hi = None, co_backend_block_lo = None,
     co_backend_block_version = None, co_backend_block_offset = None, co_backend_block_bytes = None,
     co_backend_block_checksum = None, co_payload_inline = ''hi'', co_payload_path = []\<rparr>"

theorem client_object_encoded_witness:
  "\<exists>payload. mem_service_client_append_object_payload [] 512 demo_client_object = (0, payload) \<and>
     mem_service_payload_get_string payload ''key'' 96 = Some ''k'' \<and>
     string_or_empty payload ''payload_inline'' 1024 = ''hi'' \<and>
     rec_version (object_record demo_env payload ''k'') = 3"
proof -
  have "\<exists>payload. mem_service_client_append_object_payload [] 512 demo_client_object = (0, payload)"
    by (simp add: mem_service_client_append_object_payload_def demo_client_object_def
        mem_service_client_append_required_string_def mem_service_client_append_optional_string_def
        mem_service_client_append_optional_u32_def mem_service_client_append_optional_u64_def
        mem_service_wire_payload_append_u64_def mem_service_wire_payload_append_field_def show_word_def)
  then obtain payload where built: "mem_service_client_append_object_payload [] 512 demo_client_object = (0, payload)" ..
  from client_object_encoded [OF built, of demo_env] built show ?thesis
    by (auto simp: demo_client_object_def)
qed

definition demo_held :: mem_service_record where
  "demo_held = zero_record\<lparr>rec_in_use := True, rec_kind := RECORD_KVCACHE_OBJECT, rec_key := ''k'', rec_version := 3\<rparr>"


end
