(* ===== verification/Region_Codec.thy ===== *)
theory Region_Codec
  imports Provider_Registry
begin

text \<open>
  The wire format of a remote memory region (\<open>mem_service_provider.c\<close>): a header of 32 bytes in
  network order, the name of the provider and its descriptor.
\<close>

unbundle bit_operations_syntax

section \<open>Data\<close>

definition MEM_SERVICE_PROVIDER_REGION_WIRE_MAGIC :: u32 where
  "MEM_SERVICE_PROVIDER_REGION_WIRE_MAGIC = 0x4d535250"

definition MEM_SERVICE_PROVIDER_REGION_WIRE_VERSION :: u32 where
  "MEM_SERVICE_PROVIDER_REGION_WIRE_VERSION = 1"

definition MEM_SERVICE_PROVIDER_REGION_WIRE_MAX_LEN :: nat where
  "MEM_SERVICE_PROVIDER_REGION_WIRE_MAX_LEN =
     32 + MEM_SERVICE_PROVIDER_NAME_LEN + MEM_SERVICE_PROVIDER_DESCRIPTOR_LEN"

datatype mem_service_memory_kind = MEMORY_HOST | MEMORY_ACCELERATOR | MEMORY_PERSISTENT | MEMORY_OTHER u32

fun memory_kind_code :: "mem_service_memory_kind \<Rightarrow> u32" where
  "memory_kind_code MEMORY_HOST = 1"
| "memory_kind_code MEMORY_ACCELERATOR = 2"
| "memory_kind_code MEMORY_PERSISTENT = 3"
| "memory_kind_code (MEMORY_OTHER n) = n"

definition memory_kind_of_code :: "u32 \<Rightarrow> mem_service_memory_kind" where
  "memory_kind_of_code n =
     (if n = 1 then MEMORY_HOST else if n = 2 then MEMORY_ACCELERATOR
      else if n = 3 then MEMORY_PERSISTENT else MEMORY_OTHER n)"

definition mem_service_memory_kind_valid :: "mem_service_memory_kind \<Rightarrow> bool" where
  "mem_service_memory_kind_valid kind \<longleftrightarrow>
     kind = MEMORY_HOST \<or> kind = MEMORY_ACCELERATOR \<or> kind = MEMORY_PERSISTENT"

text \<open>A descriptor: the array always has its full length, \<open>desc_len\<close> bytes of it count.\<close>

record mem_service_provider_descriptor =
  desc_len :: u32
  desc_bytes :: "u8 list"

record mem_service_provider_remote_region =
  rem_provider_name :: cstr
  rem_len :: u64
  rem_memory_kind :: mem_service_memory_kind
  rem_descriptor :: mem_service_provider_descriptor

section \<open>Numbers on the wire\<close>

definition mem_service_provider_wire_put_u32 :: "u32 \<Rightarrow> u8 list" where
  "mem_service_provider_wire_put_u32 v =
     [ucast (drop_bit 24 v), ucast (drop_bit 16 v), ucast (drop_bit 8 v), ucast v]"

definition mem_service_provider_wire_get_u32 :: "u8 list \<Rightarrow> u32" where
  "mem_service_provider_wire_get_u32 wire =
     push_bit 24 (ucast (wire ! 0)) OR push_bit 16 (ucast (wire ! 1)) OR
     push_bit 8 (ucast (wire ! 2)) OR ucast (wire ! 3)"

definition mem_service_provider_wire_put_u64 :: "u64 \<Rightarrow> u8 list" where
  "mem_service_provider_wire_put_u64 v =
     mem_service_provider_wire_put_u32 (ucast (drop_bit 32 v)) @ mem_service_provider_wire_put_u32 (ucast v)"

definition mem_service_provider_wire_get_u64 :: "u8 list \<Rightarrow> u64" where
  "mem_service_provider_wire_get_u64 wire =
     push_bit 32 (ucast (mem_service_provider_wire_get_u32 wire)) OR
     ucast (mem_service_provider_wire_get_u32 (drop 4 wire))"

section \<open>Encoding and decoding\<close>

definition mem_service_provider_remote_region_encode ::
  "mem_service_provider_remote_region \<Rightarrow> nat \<Rightarrow> u8 list option" where
  "mem_service_provider_remote_region_encode remote wire_capacity =
     (let provider_len = length (rem_provider_name remote);
          descriptor_len = desc_len (rem_descriptor remote);
          wire_len = 32 + provider_len + unat descriptor_len
      in if \<not> mem_service_provider_identity_valid (rem_provider_name remote) MEM_SERVICE_PROVIDER_NAME_LEN \<or>
            rem_len remote = 0 \<or> \<not> mem_service_memory_kind_valid (rem_memory_kind remote) \<or>
            descriptor_len = 0 \<or> unat descriptor_len > MEM_SERVICE_PROVIDER_DESCRIPTOR_LEN
         then None
         else if wire_len > wire_capacity \<or> wire_len > MEM_SERVICE_PROVIDER_REGION_WIRE_MAX_LEN then None
         else Some
           (mem_service_provider_wire_put_u32 MEM_SERVICE_PROVIDER_REGION_WIRE_MAGIC @
            mem_service_provider_wire_put_u32 MEM_SERVICE_PROVIDER_REGION_WIRE_VERSION @
            mem_service_provider_wire_put_u32 (of_nat provider_len) @
            mem_service_provider_wire_put_u32 descriptor_len @
            mem_service_provider_wire_put_u32 (memory_kind_code (rem_memory_kind remote)) @
            replicate 4 0 @
            mem_service_provider_wire_put_u64 (rem_len remote) @
            bytes_of (rem_provider_name remote) @
            take (unat descriptor_len) (desc_bytes (rem_descriptor remote))))"

definition mem_service_provider_remote_region_decode ::
  "u8 list \<Rightarrow> mem_service_provider_remote_region option" where
  "mem_service_provider_remote_region_decode wire =
     (if length wire < 32 \<or> length wire > MEM_SERVICE_PROVIDER_REGION_WIRE_MAX_LEN \<or>
         mem_service_provider_wire_get_u32 wire \<noteq> MEM_SERVICE_PROVIDER_REGION_WIRE_MAGIC \<or>
         mem_service_provider_wire_get_u32 (drop 4 wire) \<noteq> MEM_SERVICE_PROVIDER_REGION_WIRE_VERSION \<or>
         mem_service_provider_wire_get_u32 (drop 20 wire) \<noteq> 0
      then None
      else let provider_len = unat (mem_service_provider_wire_get_u32 (drop 8 wire));
               descriptor_len = mem_service_provider_wire_get_u32 (drop 12 wire);
               memory_kind = memory_kind_of_code (mem_service_provider_wire_get_u32 (drop 16 wire));
               region_len = mem_service_provider_wire_get_u64 (drop 24 wire);
               expected_len = 32 + provider_len + unat descriptor_len
        in if provider_len = 0 \<or> provider_len \<ge> MEM_SERVICE_PROVIDER_NAME_LEN \<or> descriptor_len = 0 \<or>
              unat descriptor_len > MEM_SERVICE_PROVIDER_DESCRIPTOR_LEN \<or> expected_len \<noteq> length wire \<or>
              region_len = 0 \<or> \<not> mem_service_memory_kind_valid memory_kind
           then None
           else let provider_name =
                      takeWhile (\<lambda>c. c \<noteq> CHR 0x00) (cstr_of (take provider_len (drop 32 wire)))
             in if \<not> mem_service_provider_identity_valid provider_name MEM_SERVICE_PROVIDER_NAME_LEN then None
                else Some
                  \<lparr> rem_provider_name = provider_name, rem_len = region_len, rem_memory_kind = memory_kind,
                    rem_descriptor =
                      \<lparr> desc_len = descriptor_len,
                        desc_bytes = take (unat descriptor_len) (drop (32 + provider_len) wire) @
                          replicate (MEM_SERVICE_PROVIDER_DESCRIPTOR_LEN - unat descriptor_len) 0 \<rparr> \<rparr>)"

section \<open>Numbers round trip\<close>

lemma put_length [simp]:
  "length (mem_service_provider_wire_put_u32 v) = 4" "length (mem_service_provider_wire_put_u64 w) = 8"
  by (simp_all add: mem_service_provider_wire_put_u32_def mem_service_provider_wire_put_u64_def)

lemma get_put_u32 [simp]: "mem_service_provider_wire_get_u32 (mem_service_provider_wire_put_u32 v @ rest) = v"
proof (rule bit_word_eqI)
  fix n assume "n < LENGTH(32)"
  then consider "n < 8" | "8 \<le> n" "n < 16" | "16 \<le> n" "n < 24" | "24 \<le> n" "n < 32" by force
  then show "bit (mem_service_provider_wire_get_u32 (mem_service_provider_wire_put_u32 v @ rest)) n = bit v n"
    by cases (auto simp: mem_service_provider_wire_get_u32_def mem_service_provider_wire_put_u32_def bit_simps)
qed

lemma get_put_u64 [simp]: "mem_service_provider_wire_get_u64 (mem_service_provider_wire_put_u64 v @ rest) = v"
  by (rule bit_word_eqI)
     (auto simp: mem_service_provider_wire_get_u64_def mem_service_provider_wire_put_u64_def bit_simps)

lemma four_bytes: "4 \<le> length w \<Longrightarrow> \<exists>a b c d. take 4 w = [a, b, c, d] \<and> w = [a, b, c, d] @ drop 4 w"
proof -
  assume l: "4 \<le> length w"
  then have "take 4 w = [w ! 0, w ! 1, w ! 2, w ! 3]" by (intro nth_equalityI) (auto simp: less_Suc_eq numeral_eq_Suc)
  then show ?thesis by (metis append_take_drop_id)
qed

lemma byte_bits: "bit (a :: u8) n \<Longrightarrow> n < 8" "bit (b :: u32) m \<Longrightarrow> m < 32"
  using bit_imp_le_length [of a n] bit_imp_le_length [of b m] by simp_all

lemma bytes_of_word32:
  fixes a b c d :: u8
  defines "v \<equiv> push_bit 24 (ucast a) OR push_bit 16 (ucast b) OR push_bit 8 (ucast c) OR ucast d :: u32"
  shows "ucast (drop_bit 24 v) = a" "ucast (drop_bit 16 v) = b" "ucast (drop_bit 8 v) = c" "ucast v = d"
  unfolding v_def by (rule bit_word_eqI; auto simp: bit_simps dest: byte_bits)+

lemma words_of_word64:
  fixes a b :: u32
  defines "v \<equiv> push_bit 32 (ucast a) OR ucast b :: u64"
  shows "ucast (drop_bit 32 v) = a" "ucast v = b"
  unfolding v_def by (rule bit_word_eqI; auto simp: bit_simps dest: byte_bits)+

lemma put_get_u32: "4 \<le> length w \<Longrightarrow> mem_service_provider_wire_put_u32 (mem_service_provider_wire_get_u32 w) = take 4 w"
proof -
  assume "4 \<le> length w"
  then obtain a b c d where w: "take 4 w = [a, b, c, d]" "w = [a, b, c, d] @ drop 4 w" using four_bytes by blast
  have "mem_service_provider_wire_get_u32 w = push_bit 24 (ucast a) OR push_bit 16 (ucast b) OR push_bit 8 (ucast c) OR ucast d"
    by (subst w(2)) (simp add: mem_service_provider_wire_get_u32_def)
  then show ?thesis using w(1) by (simp only: mem_service_provider_wire_put_u32_def bytes_of_word32)
qed

lemma put_get_u64: "8 \<le> length w \<Longrightarrow> mem_service_provider_wire_put_u64 (mem_service_provider_wire_get_u64 w) = take 8 w"
proof -
  assume l: "8 \<le> length w"
  have "mem_service_provider_wire_put_u64 (mem_service_provider_wire_get_u64 w) = take 4 w @ take 4 (drop 4 w)"
    using l put_get_u32 [of w] put_get_u32 [of "drop 4 w"]
    by (simp only: mem_service_provider_wire_put_u64_def mem_service_provider_wire_get_u64_def words_of_word64) simp
  then show ?thesis using take_add [of 4 4 w] by simp
qed

section \<open>Regions round trip\<close>

lemma memory_kind_code_valid: "mem_service_memory_kind_valid k \<Longrightarrow> memory_kind_of_code (memory_kind_code k) = k"
  by (auto simp: mem_service_memory_kind_valid_def memory_kind_of_code_def)

lemma memory_kind_of_code_code: "memory_kind_code (memory_kind_of_code n) = n"
  by (simp add: memory_kind_of_code_def)

lemma identity_valid_no_nul: "mem_service_provider_identity_valid name n \<Longrightarrow> CHR 0x00 \<notin> set name"
  by (auto simp: mem_service_provider_identity_valid_def list_all_iff identity_char_def)

text \<open>What a region looks like after it was sent: the unused end of the descriptor is cleared.\<close>

definition sent_region :: "mem_service_provider_remote_region \<Rightarrow> mem_service_provider_remote_region" where
  "sent_region remote =
     remote \<lparr> rem_descriptor := (rem_descriptor remote)
       \<lparr> desc_bytes := take (unat (desc_len (rem_descriptor remote))) (desc_bytes (rem_descriptor remote)) @
           replicate (MEM_SERVICE_PROVIDER_DESCRIPTOR_LEN - unat (desc_len (rem_descriptor remote))) 0 \<rparr> \<rparr>"

lemma encode_decode:
  assumes "mem_service_provider_remote_region_encode remote capacity = Some wire"
    and "length (desc_bytes (rem_descriptor remote)) = MEM_SERVICE_PROVIDER_DESCRIPTOR_LEN"
  shows "length wire \<le> capacity \<and> mem_service_provider_remote_region_decode wire = Some (sent_region remote)"
proof -
  let ?name = "rem_provider_name remote" and ?d = "rem_descriptor remote" and ?k = "rem_memory_kind remote"
  let ?n = "length ?name" and ?dl = "desc_len ?d"
  have ok: "mem_service_provider_identity_valid ?name MEM_SERVICE_PROVIDER_NAME_LEN" "rem_len remote \<noteq> 0"
    "mem_service_memory_kind_valid ?k" "?dl \<noteq> 0" "unat ?dl \<le> MEM_SERVICE_PROVIDER_DESCRIPTOR_LEN"
    and cap: "32 + ?n + unat ?dl \<le> capacity" "32 + ?n + unat ?dl \<le> MEM_SERVICE_PROVIDER_REGION_WIRE_MAX_LEN"
    and wire: "wire = mem_service_provider_wire_put_u32 MEM_SERVICE_PROVIDER_REGION_WIRE_MAGIC @
      mem_service_provider_wire_put_u32 MEM_SERVICE_PROVIDER_REGION_WIRE_VERSION @
      mem_service_provider_wire_put_u32 (of_nat ?n) @ mem_service_provider_wire_put_u32 ?dl @
      mem_service_provider_wire_put_u32 (memory_kind_code ?k) @ mem_service_provider_wire_put_u32 0 @
      mem_service_provider_wire_put_u64 (rem_len remote) @ bytes_of ?name @ take (unat ?dl) (desc_bytes ?d)"
    using assms(1)
    by (auto simp: mem_service_provider_remote_region_encode_def mem_service_provider_wire_put_u32_def Let_def eval_nat_numeral
        split: if_splits)
  have n: "0 < ?n" "?n < MEM_SERVICE_PROVIDER_NAME_LEN" "unat (of_nat ?n :: u32) = ?n"
    using ok(1) by (auto simp: mem_service_provider_identity_valid_def MEM_SERVICE_PROVIDER_NAME_LEN_def unat_of_nat)
  have bl: "length (bytes_of ?name) = ?n" by (simp add: bytes_of_def)
  have len: "length wire = 32 + ?n + unat ?dl" using ok(5) assms(2) by (simp add: wire bytes_of_def)
  have name: "takeWhile (\<lambda>c. c \<noteq> CHR 0x00) ?name = ?name"
    using identity_valid_no_nul [OF ok(1)] by (auto simp: takeWhile_eq_all_conv)
  have "cstr_of (take ?n (drop 32 wire)) = ?name"
    by (simp add: wire bl)
  moreover have "take (unat ?dl) (drop (32 + ?n) wire) = take (unat ?dl) (desc_bytes ?d)"
    by (simp add: wire bytes_of_def)
  moreover have "mem_service_provider_wire_get_u32 wire = MEM_SERVICE_PROVIDER_REGION_WIRE_MAGIC"
    "mem_service_provider_wire_get_u32 (drop 4 wire) = MEM_SERVICE_PROVIDER_REGION_WIRE_VERSION"
    "mem_service_provider_wire_get_u32 (drop 8 wire) = of_nat ?n" "mem_service_provider_wire_get_u32 (drop 12 wire) = ?dl"
    "mem_service_provider_wire_get_u32 (drop 16 wire) = memory_kind_code ?k" "mem_service_provider_wire_get_u32 (drop 20 wire) = 0"
    "mem_service_provider_wire_get_u64 (drop 24 wire) = rem_len remote"
    by (simp_all add: wire)
  ultimately show ?thesis
    using ok cap len n memory_kind_code_valid [OF ok(3)]
    by (simp add: mem_service_provider_remote_region_decode_def sent_region_def name Let_def)
qed

text \<open>A region survives the wire. Whatever the encoder accepts fits the buffer and is decoded to the
  same provider name, length, memory kind and descriptor.\<close>

theorem remote_region_roundtrip:
  assumes "mem_service_provider_remote_region_encode remote capacity = Some wire"
    and "length (desc_bytes (rem_descriptor remote)) = MEM_SERVICE_PROVIDER_DESCRIPTOR_LEN"
  shows "length wire \<le> capacity \<and> mem_service_provider_remote_region_decode wire = Some (sent_region remote)"
  using encode_decode [OF assms] .

text \<open>The pieces of a message.\<close>

lemma wire_split:
  assumes "length wire = 32 + n + d"
  shows "wire = take 4 wire @ take 4 (drop 4 wire) @ take 4 (drop 8 wire) @ take 4 (drop 12 wire) @ take 4 (drop 16 wire) @
    take 4 (drop 20 wire) @ take 8 (drop 24 wire) @ take n (drop 32 wire) @ take d (drop (32 + n) wire)"
proof -
  have cut: "take a (drop i wire) @ drop (i + a) wire = drop i wire" for a i
    by (metis append_take_drop_id drop_drop add.commute)
  have "take d (drop (32 + n) wire) = drop (32 + n) wire" using assms by simp
  then show ?thesis
    using cut [of 4 0] cut [of 4 4] cut [of 4 8] cut [of 4 12] cut [of 4 16] cut [of 4 20] cut [of 8 24] cut [of n 32] by simp
qed

lemma byte_of_char: "of_char (char_of (unat b)) = b" for b :: u8
proof -
  have "unat b < 256" using unsigned_less [where ?'a = nat, of b] by simp
  then have "(of_char (char_of (unat b)) :: nat) = unat b" by (simp only: of_char_of) simp
  then have "(of_nat (of_char (char_of (unat b)) :: nat) :: u8) = b" by simp
  then show ?thesis by (simp only: of_nat_of_char)
qed

lemma bytes_of_cstr_of [simp]: "bytes_of (cstr_of bs) = bs"
  by (simp add: bytes_of_def cstr_of_def comp_def byte_of_char)

lemma cstr_of_no_nul: "0 \<notin> set bs \<Longrightarrow> \<forall>c \<in> set (cstr_of bs). c \<noteq> CHR 0x00"
proof
  fix c assume bs: "0 \<notin> set bs" and "c \<in> set (cstr_of bs)"
  then obtain b where "b \<in> set bs" "c = char_of (unat b)" by (auto simp: cstr_of_def)
  with bs byte_of_char [of b] have "(of_char c :: u8) \<noteq> 0" by auto
  then show "c \<noteq> CHR 0x00" by auto
qed

text \<open>Decoding is fail-closed and faithful. What the decoder accepts has a valid provider name, a
  region that is not empty, a known memory kind and a descriptor that fits; and the bytes are
  exactly what the encoder prints for it, unless the name field holds a NUL.\<close>

theorem remote_region_decode_sound:
  assumes "mem_service_provider_remote_region_decode wire = Some remote"
  shows "mem_service_provider_identity_valid (rem_provider_name remote) MEM_SERVICE_PROVIDER_NAME_LEN \<and>
    rem_len remote \<noteq> 0 \<and> mem_service_memory_kind_valid (rem_memory_kind remote) \<and>
    0 < unat (desc_len (rem_descriptor remote)) \<and>
    unat (desc_len (rem_descriptor remote)) \<le> MEM_SERVICE_PROVIDER_DESCRIPTOR_LEN \<and>
    length (desc_bytes (rem_descriptor remote)) = MEM_SERVICE_PROVIDER_DESCRIPTOR_LEN \<and>
    (0 \<notin> set (take (unat (mem_service_provider_wire_get_u32 (drop 8 wire))) (drop 32 wire)) \<longrightarrow>
     mem_service_provider_remote_region_encode remote MEM_SERVICE_PROVIDER_REGION_WIRE_MAX_LEN = Some wire)"
proof -
  let ?n = "unat (mem_service_provider_wire_get_u32 (drop 8 wire))" and ?dl = "mem_service_provider_wire_get_u32 (drop 12 wire)"
  let ?raw = "take ?n (drop 32 wire)"
  note D = assms [unfolded mem_service_provider_remote_region_decode_def Let_def]
  have ok: "32 \<le> length wire" "length wire \<le> MEM_SERVICE_PROVIDER_REGION_WIRE_MAX_LEN"
    "mem_service_provider_wire_get_u32 wire = MEM_SERVICE_PROVIDER_REGION_WIRE_MAGIC"
    "mem_service_provider_wire_get_u32 (drop 4 wire) = MEM_SERVICE_PROVIDER_REGION_WIRE_VERSION"
    "mem_service_provider_wire_get_u32 (drop 20 wire) = 0"
    "?n < MEM_SERVICE_PROVIDER_NAME_LEN" "?dl \<noteq> 0" "unat ?dl \<le> MEM_SERVICE_PROVIDER_DESCRIPTOR_LEN"
    "32 + ?n + unat ?dl = length wire" "mem_service_provider_wire_get_u64 (drop 24 wire) \<noteq> 0"
    "mem_service_memory_kind_valid (memory_kind_of_code (mem_service_provider_wire_get_u32 (drop 16 wire)))"
    "mem_service_provider_identity_valid (takeWhile (\<lambda>c. c \<noteq> CHR 0x00) (cstr_of ?raw)) MEM_SERVICE_PROVIDER_NAME_LEN"
    and remote: "remote =
      \<lparr> rem_provider_name = takeWhile (\<lambda>c. c \<noteq> CHR 0x00) (cstr_of ?raw), rem_len = mem_service_provider_wire_get_u64 (drop 24 wire),
        rem_memory_kind = memory_kind_of_code (mem_service_provider_wire_get_u32 (drop 16 wire)),
        rem_descriptor = \<lparr> desc_len = ?dl, desc_bytes = take (unat ?dl) (drop (32 + ?n) wire) @
          replicate (MEM_SERVICE_PROVIDER_DESCRIPTOR_LEN - unat ?dl) 0 \<rparr> \<rparr>"
    using D by (auto split: if_splits)
  have "mem_service_provider_remote_region_encode remote MEM_SERVICE_PROVIDER_REGION_WIRE_MAX_LEN = Some wire" if nul: "0 \<notin> set ?raw"
  proof -
    have name: "takeWhile (\<lambda>c. c \<noteq> CHR 0x00) (cstr_of ?raw) = cstr_of ?raw"
      using nul cstr_of_no_nul by (subst takeWhile_eq_all_conv) blast
    have raw: "length ?raw = ?n" using ok(9) by simp
    have zero: "take 4 (drop 20 wire) = replicate 4 0"
      using put_get_u32 [of "drop 20 wire"] ok(1,5) by (simp add: mem_service_provider_wire_put_u32_def eval_nat_numeral)
    have "wire = take 4 wire @ take 4 (drop 4 wire) @ take 4 (drop 8 wire) @ take 4 (drop 12 wire) @ take 4 (drop 16 wire) @
        take 4 (drop 20 wire) @ take 8 (drop 24 wire) @ ?raw @ take (unat ?dl) (drop (32 + ?n) wire)"
      using wire_split [OF ok(9) [symmetric]] .
    note pieces = this
    have parts: "mem_service_provider_wire_put_u32 MEM_SERVICE_PROVIDER_REGION_WIRE_MAGIC = take 4 wire"
      "mem_service_provider_wire_put_u32 MEM_SERVICE_PROVIDER_REGION_WIRE_VERSION = take 4 (drop 4 wire)"
      "mem_service_provider_wire_put_u32 (mem_service_provider_wire_get_u32 (drop 8 wire)) = take 4 (drop 8 wire)"
      "mem_service_provider_wire_put_u32 ?dl = take 4 (drop 12 wire)"
      "mem_service_provider_wire_put_u32 (mem_service_provider_wire_get_u32 (drop 16 wire)) = take 4 (drop 16 wire)"
      "mem_service_provider_wire_put_u64 (mem_service_provider_wire_get_u64 (drop 24 wire)) = take 8 (drop 24 wire)"
      using ok(1,3,4) put_get_u32 [of wire] put_get_u32 [of "drop 4 wire"] put_get_u32 [of "drop 8 wire"]
        put_get_u32 [of "drop 12 wire"] put_get_u32 [of "drop 16 wire"] put_get_u64 [of "drop 24 wire"] by simp_all
    have nl: "length (cstr_of ?raw) = ?n" using raw by (simp add: cstr_of_def)
    have "mem_service_provider_remote_region_encode remote MEM_SERVICE_PROVIDER_REGION_WIRE_MAX_LEN =
        Some (take 4 wire @ take 4 (drop 4 wire) @ take 4 (drop 8 wire) @ take 4 (drop 12 wire) @ take 4 (drop 16 wire) @
          take 4 (drop 20 wire) @ take 8 (drop 24 wire) @ ?raw @ take (unat ?dl) (drop (32 + ?n) wire))"
      using ok(2,7-11) ok(12) [unfolded name]
      by (simp add: remote name nl mem_service_provider_remote_region_encode_def memory_kind_of_code_code zero parts Let_def
          del: takeWhile_eq_all_conv)
    with pieces show ?thesis by argo
  qed
  with ok show ?thesis by (auto simp: remote unat_gt_0)
qed

section \<open>Witnesses and a boundary case\<close>

definition demo_region :: mem_service_provider_remote_region where
  "demo_region = \<lparr> rem_provider_name = ''tcp'', rem_len = 64, rem_memory_kind = MEMORY_HOST,
     rem_descriptor = \<lparr> desc_len = 2, desc_bytes = [7, 9] @ replicate 126 0 \<rparr> \<rparr>"

lemma demo_region_encodes:
  obtains wire where "mem_service_provider_remote_region_encode demo_region 192 = Some wire"
    "length (desc_bytes (rem_descriptor demo_region)) = MEM_SERVICE_PROVIDER_DESCRIPTOR_LEN"
  by (simp add: mem_service_provider_remote_region_encode_def demo_region_def mem_service_provider_identity_valid_def
      identity_char_def mem_service_memory_kind_valid_def MEM_SERVICE_PROVIDER_NAME_LEN_def MEM_SERVICE_PROVIDER_DESCRIPTOR_LEN_def
      MEM_SERVICE_PROVIDER_REGION_WIRE_MAX_LEN_def Let_def)

theorem remote_region_roundtrip_witness:
  "\<exists>wire. mem_service_provider_remote_region_encode demo_region 192 = Some wire \<and>
     mem_service_provider_remote_region_decode wire = Some (sent_region demo_region)"
proof (rule demo_region_encodes)
  fix wire assume "mem_service_provider_remote_region_encode demo_region 192 = Some wire"
    "length (desc_bytes (rem_descriptor demo_region)) = MEM_SERVICE_PROVIDER_DESCRIPTOR_LEN"
  from remote_region_roundtrip [OF this] this(1) show ?thesis by blast
qed

theorem remote_region_decode_sound_witness:
  "\<exists>wire r. mem_service_provider_remote_region_decode wire = Some r \<and>
     mem_service_provider_identity_valid (rem_provider_name r) MEM_SERVICE_PROVIDER_NAME_LEN"
proof (rule demo_region_encodes)
  fix wire assume "mem_service_provider_remote_region_encode demo_region 192 = Some wire"
    "length (desc_bytes (rem_descriptor demo_region)) = MEM_SERVICE_PROVIDER_DESCRIPTOR_LEN"
  from encode_decode [OF this] have "mem_service_provider_remote_region_decode wire = Some (sent_region demo_region)" by blast
  from remote_region_decode_sound [OF this] this show ?thesis by blast
qed

text \<open>A NUL inside the name field: the bytes after it are ignored, so two messages that differ there
  decode to the same region.\<close>

definition nul_wire :: "u8 \<Rightarrow> u8 list" where
  "nul_wire x =
     mem_service_provider_wire_put_u32 MEM_SERVICE_PROVIDER_REGION_WIRE_MAGIC @
     mem_service_provider_wire_put_u32 MEM_SERVICE_PROVIDER_REGION_WIRE_VERSION @
     mem_service_provider_wire_put_u32 3 @ mem_service_provider_wire_put_u32 1 @ mem_service_provider_wire_put_u32 1 @
     mem_service_provider_wire_put_u32 0 @ mem_service_provider_wire_put_u64 64 @ [97, 0, x] @ [5]"

lemma nul_in_name_accepted:
  "mem_service_provider_remote_region_decode (nul_wire x) =
     Some \<lparr> rem_provider_name = ''a'', rem_len = 64, rem_memory_kind = MEMORY_HOST,
       rem_descriptor = \<lparr> desc_len = 1, desc_bytes = 5 # replicate 127 0 \<rparr> \<rparr>"
proof -
  have "cstr_of [97, 0] = [CHR ''a'', CHR 0x00]" by code_simp
  then have "cstr_of [97, 0, x] = CHR ''a'' # CHR 0x00 # cstr_of [x]" using cstr_of_append [of "[97, 0]" "[x]"] by simp
  then show ?thesis
    by (simp add: nul_wire_def mem_service_provider_remote_region_decode_def mem_service_provider_identity_valid_def
        identity_char_def mem_service_memory_kind_valid_def memory_kind_of_code_def MEM_SERVICE_PROVIDER_NAME_LEN_def
        MEM_SERVICE_PROVIDER_DESCRIPTOR_LEN_def MEM_SERVICE_PROVIDER_REGION_WIRE_MAX_LEN_def Let_def)
qed

end
