(* ===== verification/Provider_Channel.thy ===== *)
theory Provider_Channel
  imports Region_Codec Object_Refs
begin

text \<open>
  The channel to a memory provider (\<open>mem_service_provider.c\<close>): binding, registration of regions,
  transfers, mappings of remote regions and their visibility.

  A pointer to a provider is its index in the registry, an address is a number and 0 is NULL. The
  callbacks of a provider are functions on a world; \<open>call_memory\<close> is what a load from an address
  range reads. A result of -1 is \<open>None\<close>.
\<close>

unbundle bit_operations_syntax

section \<open>Requests and answers of a provider\<close>

definition REGION_FLAG_PROVIDER_ALLOCATED :: u64 where "REGION_FLAG_PROVIDER_ALLOCATED = 1"
definition MAPPING_FLAG_READ :: u64 where "MAPPING_FLAG_READ = 1"
definition MAPPING_FLAG_WRITE :: u64 where "MAPPING_FLAG_WRITE = 2"
definition MAPPING_FLAG_FIXED_ADDRESS :: u64 where "MAPPING_FLAG_FIXED_ADDRESS = 4"

definition MAPPING_FLAG_VALID_MASK :: u64 where
  "MAPPING_FLAG_VALID_MASK = MAPPING_FLAG_READ OR MAPPING_FLAG_WRITE OR MAPPING_FLAG_FIXED_ADDRESS"

definition zero_descriptor :: mem_service_provider_descriptor where
  "zero_descriptor = \<lparr> desc_len = 0, desc_bytes = replicate MEM_SERVICE_PROVIDER_DESCRIPTOR_LEN 0 \<rparr>"

record mem_service_region_request =
  rreq_base :: u64
  rreq_len :: u64
  rreq_memory_kind :: mem_service_memory_kind
  rreq_flags :: u64

record mem_service_region =
  rgn_handle :: u64
  rgn_len :: u64
  rgn_memory_kind :: mem_service_memory_kind
  rgn_descriptor :: mem_service_provider_descriptor

definition zero_region :: mem_service_region where
  "zero_region = \<lparr> rgn_handle = 0, rgn_len = 0, rgn_memory_kind = MEMORY_OTHER 0, rgn_descriptor = zero_descriptor \<rparr>"

record mem_service_provider_slice =
  sl_region_handle :: u64
  sl_offset :: u64
  sl_len :: u64
  sl_descriptor :: mem_service_provider_descriptor

record mem_service_transfer_request =
  tr_source :: mem_service_provider_slice
  tr_destination :: mem_service_provider_slice
  tr_expected_checksum :: u64
  tr_flags :: u64

record mem_service_receive_request =
  rr_destination :: mem_service_provider_slice
  rr_expected_checksum :: u64
  rr_flags :: u64

record mem_service_transfer_completion =
  cm_id :: u64
  cm_status :: u32
  cm_transferred_bytes :: u64
  cm_checksum :: u64

record mem_service_mapping_request =
  mrq_remote_descriptor :: mem_service_provider_descriptor
  mrq_remote_region_len :: u64
  mrq_offset :: u64
  mrq_len :: u64
  mrq_requested_address :: u64
  mrq_memory_kind :: mem_service_memory_kind
  mrq_flags :: u64

record mem_service_mapping =
  map_handle :: u64
  map_base :: u64
  map_len :: u64
  map_memory_kind :: mem_service_memory_kind

definition zero_mapping :: mem_service_mapping where
  "zero_mapping = \<lparr> map_handle = 0, map_base = 0, map_len = 0, map_memory_kind = MEMORY_OTHER 0 \<rparr>"

record mem_service_mapping_range_request =
  mrr_mapping_handle :: u64
  mrr_offset :: u64
  mrr_len :: u64
  mrr_expected_checksum :: u64
  mrr_timeout_ms :: u64
  mrr_flags :: u64

record mem_service_visibility_completion =
  vc_status :: u32
  vc_visible_bytes :: u64
  vc_checksum :: u64

text \<open>The callbacks, each given the context of the provider. An out-parameter starts at zero and
  is part of the answer.\<close>

record 'w provider_calls =
  call_probe :: "'w probe"
  call_register_region :: "nat \<Rightarrow> mem_service_region_request \<Rightarrow> 'w \<Rightarrow> (int \<times> mem_service_region) \<times> 'w"
  call_deregister_region :: "nat \<Rightarrow> u64 \<Rightarrow> 'w \<Rightarrow> int \<times> 'w"
  call_submit_transfer :: "nat \<Rightarrow> mem_service_transfer_request \<Rightarrow> 'w \<Rightarrow> (int \<times> u64) \<times> 'w"
  call_poll_completion :: "nat \<Rightarrow> u64 \<Rightarrow> 'w \<Rightarrow> (int \<times> mem_service_transfer_completion) \<times> 'w"
  call_wait_receive :: "nat \<Rightarrow> mem_service_receive_request \<Rightarrow> 'w \<Rightarrow> (int \<times> mem_service_transfer_completion) \<times> 'w"
  call_map_remote_region :: "nat \<Rightarrow> mem_service_mapping_request \<Rightarrow> 'w \<Rightarrow> (int \<times> mem_service_mapping) \<times> 'w"
  call_unmap_remote_region :: "nat \<Rightarrow> u64 \<Rightarrow> 'w \<Rightarrow> int \<times> 'w"
  call_publish_range ::
    "nat \<Rightarrow> mem_service_mapping_range_request \<Rightarrow> 'w \<Rightarrow> (int \<times> mem_service_visibility_completion) \<times> 'w"
  call_invalidate_range ::
    "nat \<Rightarrow> mem_service_mapping_range_request \<Rightarrow> 'w \<Rightarrow> (int \<times> mem_service_visibility_completion) \<times> 'w"
  call_wait_range_visible ::
    "nat \<Rightarrow> mem_service_mapping_range_request \<Rightarrow> 'w \<Rightarrow> (int \<times> mem_service_visibility_completion) \<times> 'w"
  call_memory :: "u64 \<Rightarrow> u64 \<Rightarrow> 'w \<Rightarrow> u8 list"

section \<open>Channels and bindings\<close>

record mem_service_provider_channel =
  chan_provider :: nat
  chan_required_capabilities :: u64

record mem_service_provider_region_binding =
  rb_region :: mem_service_region
  rb_owner :: nat
  rb_registered :: bool

record mem_service_provider_mapping_binding =
  mb_mapping :: mem_service_mapping
  mb_owner :: nat
  mb_mapped :: bool

definition zero_region_binding :: mem_service_provider_region_binding where
  "zero_region_binding = \<lparr> rb_region = zero_region, rb_owner = 0, rb_registered = False \<rparr>"

definition zero_mapping_binding :: mem_service_provider_mapping_binding where
  "zero_mapping_binding = \<lparr> mb_mapping = zero_mapping, mb_owner = 0, mb_mapped = False \<rparr>"

abbreviation channel_provider :: "mem_service_provider_registry \<Rightarrow> mem_service_provider_channel \<Rightarrow> mem_service_provider" where
  "channel_provider registry channel \<equiv> reg_providers registry ! chan_provider channel"

abbreviation channel_ops ::
  "(mem_service_provider_ops \<Rightarrow> bool) \<Rightarrow> mem_service_provider_registry \<Rightarrow> mem_service_provider_channel \<Rightarrow> bool" where
  "channel_ops present registry channel \<equiv>
     (case prov_ops (channel_provider registry channel) of None \<Rightarrow> False | Some ops \<Rightarrow> present ops)"

abbreviation channel_has ::
  "u64 \<Rightarrow> mem_service_provider_registry \<Rightarrow> mem_service_provider_channel \<Rightarrow> bool" where
  "channel_has capability registry channel \<equiv> prov_capabilities (channel_provider registry channel) AND capability \<noteq> 0"

definition mem_service_provider_channel_ready ::
  "'w provider_calls \<Rightarrow> mem_service_provider_registry \<Rightarrow> mem_service_provider_channel \<Rightarrow> 'w \<Rightarrow> bool \<times> 'w" where
  "mem_service_provider_channel_ready calls registry channel w =
     (if \<not> channel_ops ops_probe registry channel then (False, w)
      else case call_probe calls (prov_context (channel_provider registry channel))
                  (provider_state_code PROVIDER_UNAVAILABLE) w of
        ((rc, state), w') \<Rightarrow> (rc = 0 \<and> state = provider_state_code PROVIDER_READY, w'))"

definition mem_service_provider_channel_bind ::
  "'w provider_calls \<Rightarrow> mem_service_provider_registry \<Rightarrow> cstr \<Rightarrow> cstr \<Rightarrow> u64 \<Rightarrow> 'w \<Rightarrow>
   mem_service_provider_channel option \<times> 'w" where
  "mem_service_provider_channel_bind calls registry name inst required_capabilities w =
     (if required_capabilities = 0 \<or> required_capabilities AND NOT CAP_VALID_MASK \<noteq> 0 \<or>
         \<not> mem_service_provider_registry_data_plane_ready registry
      then (None, w)
      else case mem_service_provider_registry_find registry name inst of
        None \<Rightarrow> (None, w)
      | Some i \<Rightarrow>
          let channel = \<lparr> chan_provider = i, chan_required_capabilities = required_capabilities \<rparr> in
          if prov_capabilities (reg_providers registry ! i) AND required_capabilities \<noteq> required_capabilities
          then (None, w)
          else (case mem_service_provider_channel_ready calls registry channel w of
                  (ready, w') \<Rightarrow> (if ready then Some channel else None, w')))"

section \<open>Regions\<close>

definition mem_service_provider_channel_register_region ::
  "'w provider_calls \<Rightarrow> mem_service_provider_registry \<Rightarrow> mem_service_provider_channel \<Rightarrow> mem_service_region_request \<Rightarrow> 'w \<Rightarrow>
   mem_service_provider_region_binding option \<times> 'w" where
  "mem_service_provider_channel_register_region calls registry channel request w =
     (case mem_service_provider_channel_ready calls registry channel w of (ready, w1) \<Rightarrow>
      let ctx = prov_context (channel_provider registry channel) in
      if \<not> ready \<or> rreq_len request = 0 \<or> \<not> mem_service_memory_kind_valid (rreq_memory_kind request) \<or>
         \<not> channel_has CAP_REGION_REGISTRATION registry channel \<or>
         \<not> channel_ops ops_register_region registry channel \<or>
         (rreq_base request = 0 \<and>
          (rreq_flags request AND REGION_FLAG_PROVIDER_ALLOCATED = 0 \<or>
           \<not> channel_has CAP_PEER_MAPPING registry channel)) \<or>
         (rreq_base request \<noteq> 0 \<and> rreq_flags request AND REGION_FLAG_PROVIDER_ALLOCATED \<noteq> 0) \<or>
         rreq_flags request AND NOT REGION_FLAG_PROVIDER_ALLOCATED \<noteq> 0
      then (None, w1)
      else case call_register_region calls ctx request w1 of ((rc, region), w2) \<Rightarrow>
        if rc \<noteq> 0 \<or> rgn_handle region = 0 \<or> rgn_len region \<noteq> rreq_len request \<or>
           rgn_memory_kind region \<noteq> rreq_memory_kind request \<or>
           unat (desc_len (rgn_descriptor region)) > MEM_SERVICE_PROVIDER_DESCRIPTOR_LEN
        then (None,
              if rgn_handle region \<noteq> 0 \<and> channel_ops ops_deregister_region registry channel
              then snd (call_deregister_region calls ctx (rgn_handle region) w2) else w2)
        else (Some \<lparr> rb_region = region, rb_owner = chan_provider channel, rb_registered = True \<rparr>, w2))"

definition mem_service_provider_channel_export_region ::
  "'w provider_calls \<Rightarrow> mem_service_provider_registry \<Rightarrow> mem_service_provider_channel \<Rightarrow> mem_service_provider_region_binding \<Rightarrow>
   'w \<Rightarrow> mem_service_provider_remote_region option \<times> 'w" where
  "mem_service_provider_channel_export_region calls registry channel binding w =
     (case mem_service_provider_channel_ready calls registry channel w of (ready, w1) \<Rightarrow>
      let region = rb_region binding in
      if \<not> ready \<or> \<not> rb_registered binding \<or> rb_owner binding \<noteq> chan_provider channel \<or> rgn_len region = 0 \<or>
         \<not> mem_service_memory_kind_valid (rgn_memory_kind region) \<or> desc_len (rgn_descriptor region) = 0 \<or>
         unat (desc_len (rgn_descriptor region)) > MEM_SERVICE_PROVIDER_DESCRIPTOR_LEN
      then (None, w1)
      else (Some \<lparr> rem_provider_name =
                     snprintf_s MEM_SERVICE_PROVIDER_NAME_LEN (prov_name (channel_provider registry channel)),
                   rem_len = rgn_len region, rem_memory_kind = rgn_memory_kind region,
                   rem_descriptor = rgn_descriptor region \<rparr>, w1))"

definition mem_service_provider_channel_deregister_region ::
  "'w provider_calls \<Rightarrow> mem_service_provider_registry \<Rightarrow> mem_service_provider_channel \<Rightarrow> mem_service_provider_region_binding \<Rightarrow>
   'w \<Rightarrow> int \<times> mem_service_provider_region_binding \<times> 'w" where
  "mem_service_provider_channel_deregister_region calls registry channel binding w =
     (if \<not> rb_registered binding \<or> rb_owner binding \<noteq> chan_provider channel \<or>
         \<not> channel_ops ops_deregister_region registry channel
      then (-1, binding, w)
      else case call_deregister_region calls (prov_context (channel_provider registry channel))
                  (rgn_handle (rb_region binding)) w of (rc, w') \<Rightarrow>
        if rc \<noteq> 0 then (-1, binding, w') else (0, zero_region_binding, w'))"

section \<open>Transfers\<close>

definition mem_service_provider_channel_submit_transfer ::
  "'w provider_calls \<Rightarrow> mem_service_provider_registry \<Rightarrow> mem_service_provider_channel \<Rightarrow> mem_service_provider_region_binding \<Rightarrow>
   u64 \<Rightarrow> mem_service_provider_remote_region \<Rightarrow> u64 \<Rightarrow> u64 \<Rightarrow> u64 \<Rightarrow> 'w \<Rightarrow> u64 option \<times> 'w" where
  "mem_service_provider_channel_submit_transfer calls registry channel source source_offset destination
       destination_offset len expected_checksum w =
     (case mem_service_provider_channel_ready calls registry channel w of (ready, w1) \<Rightarrow>
      if \<not> ready \<or> \<not> rb_registered source \<or> rb_owner source \<noteq> chan_provider channel \<or> len = 0 \<or> expected_checksum = 0 \<or>
         rem_provider_name destination \<noteq> prov_name (channel_provider registry channel) \<or>
         desc_len (rem_descriptor destination) = 0 \<or>
         unat (desc_len (rem_descriptor destination)) > MEM_SERVICE_PROVIDER_DESCRIPTOR_LEN \<or>
         \<not> mem_service_memory_kind_valid (rem_memory_kind destination) \<or>
         source_offset > rgn_len (rb_region source) \<or> len > rgn_len (rb_region source) - source_offset \<or>
         destination_offset > rem_len destination \<or> len > rem_len destination - destination_offset \<or>
         \<not> channel_has CAP_TRANSFER_MASK registry channel \<or>
         \<not> channel_ops ops_submit_transfer registry channel \<or> \<not> channel_ops ops_poll_completion registry channel
      then (None, w1)
      else case call_submit_transfer calls (prov_context (channel_provider registry channel))
                  \<lparr> tr_source = \<lparr> sl_region_handle = rgn_handle (rb_region source), sl_offset = source_offset,
                                  sl_len = len, sl_descriptor = rgn_descriptor (rb_region source) \<rparr>,
                    tr_destination = \<lparr> sl_region_handle = 0, sl_offset = destination_offset, sl_len = len,
                                       sl_descriptor = rem_descriptor destination \<rparr>,
                    tr_expected_checksum = expected_checksum, tr_flags = 0 \<rparr> w1 of
        ((rc, completion_id), w2) \<Rightarrow>
          (if rc \<noteq> 0 \<or> completion_id = 0 then None else Some completion_id, w2))"

definition mem_service_provider_channel_poll_transfer ::
  "'w provider_calls \<Rightarrow> mem_service_provider_registry \<Rightarrow> mem_service_provider_channel \<Rightarrow> u64 \<Rightarrow> u64 \<Rightarrow> u64 \<Rightarrow> 'w \<Rightarrow>
   mem_service_transfer_completion option \<times> 'w" where
  "mem_service_provider_channel_poll_transfer calls registry channel completion_id len expected_checksum w =
     (case mem_service_provider_channel_ready calls registry channel w of (ready, w1) \<Rightarrow>
      if \<not> ready \<or> completion_id = 0 \<or> len = 0 \<or> expected_checksum = 0 \<or>
         \<not> channel_ops ops_poll_completion registry channel
      then (None, w1)
      else case call_poll_completion calls (prov_context (channel_provider registry channel)) completion_id w1 of
        ((rc, completion), w2) \<Rightarrow>
          (if rc \<noteq> 0 \<or> cm_id completion \<noteq> completion_id \<or> cm_status completion \<noteq> 0 \<or>
              cm_transferred_bytes completion \<noteq> len \<or> cm_checksum completion \<noteq> expected_checksum
           then None else Some completion, w2))"

definition mem_service_provider_channel_transfer ::
  "'w provider_calls \<Rightarrow> mem_service_provider_registry \<Rightarrow> mem_service_provider_channel \<Rightarrow> mem_service_provider_region_binding \<Rightarrow>
   u64 \<Rightarrow> mem_service_provider_remote_region \<Rightarrow> u64 \<Rightarrow> u64 \<Rightarrow> u64 \<Rightarrow> 'w \<Rightarrow> mem_service_transfer_completion option \<times> 'w" where
  "mem_service_provider_channel_transfer calls registry channel source source_offset destination
       destination_offset len expected_checksum w =
     (case mem_service_provider_channel_submit_transfer calls registry channel source source_offset destination
             destination_offset len expected_checksum w of
        (None, w1) \<Rightarrow> (None, w1)
      | (Some completion_id, w1) \<Rightarrow>
          mem_service_provider_channel_poll_transfer calls registry channel completion_id len expected_checksum w1)"

definition mem_service_provider_channel_wait_receive ::
  "'w provider_calls \<Rightarrow> mem_service_provider_registry \<Rightarrow> mem_service_provider_channel \<Rightarrow> mem_service_provider_region_binding \<Rightarrow>
   u64 \<Rightarrow> u64 \<Rightarrow> u64 \<Rightarrow> 'w \<Rightarrow> mem_service_transfer_completion option \<times> 'w" where
  "mem_service_provider_channel_wait_receive calls registry channel destination destination_offset len expected_checksum w =
     (case mem_service_provider_channel_ready calls registry channel w of (ready, w1) \<Rightarrow>
      if \<not> ready \<or> \<not> rb_registered destination \<or> rb_owner destination \<noteq> chan_provider channel \<or>
         len = 0 \<or> expected_checksum = 0 \<or> destination_offset > rgn_len (rb_region destination) \<or>
         len > rgn_len (rb_region destination) - destination_offset \<or>
         \<not> channel_has CAP_RECEIVE_FENCE registry channel \<or> \<not> channel_ops ops_wait_receive registry channel
      then (None, w1)
      else case call_wait_receive calls (prov_context (channel_provider registry channel))
                  \<lparr> rr_destination = \<lparr> sl_region_handle = rgn_handle (rb_region destination), sl_offset = destination_offset,
                      sl_len = len, sl_descriptor = rgn_descriptor (rb_region destination) \<rparr>,
                    rr_expected_checksum = expected_checksum, rr_flags = 0 \<rparr> w1 of
        ((rc, completion), w2) \<Rightarrow>
          (if rc \<noteq> 0 \<or> cm_id completion = 0 \<or> cm_status completion \<noteq> 0 \<or>
              cm_transferred_bytes completion \<noteq> len \<or> cm_checksum completion \<noteq> expected_checksum
           then None else Some completion, w2))"

section \<open>Mappings\<close>

definition mem_service_provider_channel_map_remote_region ::
  "'w provider_calls \<Rightarrow> mem_service_provider_registry \<Rightarrow> mem_service_provider_channel \<Rightarrow> mem_service_provider_remote_region \<Rightarrow>
   u64 \<Rightarrow> u64 \<Rightarrow> u64 \<Rightarrow> u64 \<Rightarrow> 'w \<Rightarrow> mem_service_provider_mapping_binding option \<times> 'w" where
  "mem_service_provider_channel_map_remote_region calls registry channel remote offset len requested_address flags w =
     (case mem_service_provider_channel_ready calls registry channel w of (ready, w1) \<Rightarrow>
      let ctx = prov_context (channel_provider registry channel) in
      if \<not> ready \<or> len = 0 \<or> rem_provider_name remote \<noteq> prov_name (channel_provider registry channel) \<or>
         desc_len (rem_descriptor remote) = 0 \<or>
         unat (desc_len (rem_descriptor remote)) > MEM_SERVICE_PROVIDER_DESCRIPTOR_LEN \<or>
         \<not> mem_service_memory_kind_valid (rem_memory_kind remote) \<or>
         offset > rem_len remote \<or> len > rem_len remote - offset \<or>
         flags AND NOT MAPPING_FLAG_VALID_MASK \<noteq> 0 \<or> flags AND (MAPPING_FLAG_READ OR MAPPING_FLAG_WRITE) = 0 \<or>
         (flags AND MAPPING_FLAG_FIXED_ADDRESS \<noteq> 0 \<and> requested_address = 0) \<or>
         \<not> channel_has CAP_PEER_MAPPING registry channel \<or> \<not> channel_ops ops_map_remote_region registry channel
      then (None, w1)
      else case call_map_remote_region calls ctx
                  \<lparr> mrq_remote_descriptor = rem_descriptor remote, mrq_remote_region_len = rem_len remote,
                    mrq_offset = offset, mrq_len = len, mrq_requested_address = requested_address,
                    mrq_memory_kind = rem_memory_kind remote, mrq_flags = flags \<rparr> w1 of ((rc, mapping), w2) \<Rightarrow>
        if rc \<noteq> 0 \<or> map_handle mapping = 0 \<or> map_base mapping = 0 \<or> map_len mapping \<noteq> len \<or>
           map_memory_kind mapping \<noteq> rem_memory_kind remote
        then (None,
              if map_handle mapping \<noteq> 0 \<and> channel_ops ops_unmap_remote_region registry channel
              then snd (call_unmap_remote_region calls ctx (map_handle mapping) w2) else w2)
        else (Some \<lparr> mb_mapping = mapping, mb_owner = chan_provider channel, mb_mapped = True \<rparr>, w2))"

datatype mem_service_mapping_range_operation = RANGE_PUBLISH | RANGE_INVALIDATE | RANGE_WAIT_VISIBLE

definition mem_service_provider_channel_mapping_range ::
  "'w provider_calls \<Rightarrow> mem_service_provider_registry \<Rightarrow> mem_service_provider_channel \<Rightarrow> mem_service_provider_mapping_binding \<Rightarrow>
   u64 \<Rightarrow> u64 \<Rightarrow> u64 \<Rightarrow> u64 \<Rightarrow> mem_service_mapping_range_operation \<Rightarrow> 'w \<Rightarrow> mem_service_visibility_completion option \<times> 'w" where
  "mem_service_provider_channel_mapping_range calls registry channel binding offset len expected_checksum timeout_ms
       operation w =
     (case mem_service_provider_channel_ready calls registry channel w of (ready, w1) \<Rightarrow>
      let ctx = prov_context (channel_provider registry channel);
          mapping = mb_mapping binding;
          checksum = (\<lambda>w. mem_service_provider_checksum64 (Some (call_memory calls (map_base mapping + offset) len w)) len);
          request = \<lparr> mrr_mapping_handle = map_handle mapping, mrr_offset = offset, mrr_len = len,
                      mrr_expected_checksum = expected_checksum, mrr_timeout_ms = timeout_ms, mrr_flags = 0 \<rparr>
      in if \<not> ready \<or> \<not> mb_mapped binding \<or> mb_owner binding \<noteq> chan_provider channel \<or> map_base mapping = 0 \<or>
            len = 0 \<or> expected_checksum = 0 \<or> offset > map_len mapping \<or> len > map_len mapping - offset \<or>
            \<not> channel_has CAP_PEER_MAPPING registry channel
         then (None, w1)
         else if operation = RANGE_PUBLISH \<and> checksum w1 \<noteq> expected_checksum then (None, w1)
         else case (if operation = RANGE_PUBLISH \<and> channel_ops ops_publish_range registry channel
                    then Some (call_publish_range calls ctx request w1)
                    else if operation = RANGE_INVALIDATE \<and> channel_ops ops_invalidate_range registry channel
                    then Some (call_invalidate_range calls ctx request w1)
                    else if operation = RANGE_WAIT_VISIBLE \<and> timeout_ms > 0 \<and>
                            channel_ops ops_wait_range_visible registry channel
                    then Some (call_wait_range_visible calls ctx request w1)
                    else None) of
           None \<Rightarrow> (None, w1)
         | Some ((rc, completion), w2) \<Rightarrow>
             (if rc \<noteq> 0 \<or> vc_status completion \<noteq> 0 \<or> vc_visible_bytes completion \<noteq> len \<or>
                 vc_checksum completion \<noteq> expected_checksum \<or> checksum w2 \<noteq> expected_checksum
              then None else Some completion, w2))"

definition mem_service_provider_channel_publish_range ::
  "'w provider_calls \<Rightarrow> mem_service_provider_registry \<Rightarrow> mem_service_provider_channel \<Rightarrow> mem_service_provider_mapping_binding \<Rightarrow>
   u64 \<Rightarrow> u64 \<Rightarrow> u64 \<Rightarrow> 'w \<Rightarrow> mem_service_visibility_completion option \<times> 'w" where
  "mem_service_provider_channel_publish_range calls registry channel binding offset len expected_checksum w =
     mem_service_provider_channel_mapping_range calls registry channel binding offset len expected_checksum 0 RANGE_PUBLISH w"

definition mem_service_provider_channel_invalidate_range ::
  "'w provider_calls \<Rightarrow> mem_service_provider_registry \<Rightarrow> mem_service_provider_channel \<Rightarrow> mem_service_provider_mapping_binding \<Rightarrow>
   u64 \<Rightarrow> u64 \<Rightarrow> u64 \<Rightarrow> 'w \<Rightarrow> mem_service_visibility_completion option \<times> 'w" where
  "mem_service_provider_channel_invalidate_range calls registry channel binding offset len expected_checksum w =
     mem_service_provider_channel_mapping_range calls registry channel binding offset len expected_checksum 0 RANGE_INVALIDATE w"

definition mem_service_provider_channel_wait_range_visible ::
  "'w provider_calls \<Rightarrow> mem_service_provider_registry \<Rightarrow> mem_service_provider_channel \<Rightarrow> mem_service_provider_mapping_binding \<Rightarrow>
   u64 \<Rightarrow> u64 \<Rightarrow> u64 \<Rightarrow> u64 \<Rightarrow> 'w \<Rightarrow> mem_service_visibility_completion option \<times> 'w" where
  "mem_service_provider_channel_wait_range_visible calls registry channel binding offset len expected_checksum timeout_ms w =
     mem_service_provider_channel_mapping_range calls registry channel binding offset len expected_checksum timeout_ms
       RANGE_WAIT_VISIBLE w"

definition mem_service_provider_channel_unmap_remote_region ::
  "'w provider_calls \<Rightarrow> mem_service_provider_registry \<Rightarrow> mem_service_provider_channel \<Rightarrow> mem_service_provider_mapping_binding \<Rightarrow>
   'w \<Rightarrow> int \<times> mem_service_provider_mapping_binding \<times> 'w" where
  "mem_service_provider_channel_unmap_remote_region calls registry channel binding w =
     (if \<not> mb_mapped binding \<or> mb_owner binding \<noteq> chan_provider channel \<or>
         \<not> channel_ops ops_unmap_remote_region registry channel
      then (-1, binding, w)
      else case call_unmap_remote_region calls (prov_context (channel_provider registry channel))
                  (map_handle (mb_mapping binding)) w of (rc, w') \<Rightarrow>
        if rc \<noteq> 0 then (-1, binding, w') else (0, zero_mapping_binding, w'))"

section \<open>Bounds\<close>

text \<open>The guards as the code writes them, on 64-bit words, exclude every overrun.\<close>

lemma range_guard: "\<not> off > limit \<Longrightarrow> \<not> len > limit - off \<Longrightarrow> unat off + unat len \<le> unat limit" for off len limit :: u64
  by (simp add: word_less_nat_alt word_le_nat_alt unat_sub not_less)

definition slice_in :: "mem_service_provider_slice \<Rightarrow> u64 \<Rightarrow> bool" where
  "slice_in s limit \<longleftrightarrow> 0 < sl_len s \<and> unat (sl_offset s) + unat (sl_len s) \<le> unat limit"

text \<open>No transfer outside of its regions reaches a provider. Submitting a transfer either asks the
  provider nothing but its state and fails, or hands it a request whose source lies inside the
  registered region and whose destination lies inside the remote region, by a provider of the same
  name that can transfer; offsets and lengths are 64-bit and nothing wraps around.\<close>

theorem submit_transfer_in_bounds:
  assumes "mem_service_provider_channel_submit_transfer calls registry channel source source_offset destination
      destination_offset len expected_checksum w = (result, w')"
  shows "result = None \<and> w' = snd (mem_service_provider_channel_ready calls registry channel w) \<or>
    (\<exists>request answer.
       slice_in (tr_source request) (rgn_len (rb_region source)) \<and>
       slice_in (tr_destination request) (rem_len destination) \<and>
       sl_region_handle (tr_source request) = rgn_handle (rb_region source) \<and>
       sl_descriptor (tr_destination request) = rem_descriptor destination \<and>
       sl_offset (tr_source request) = source_offset \<and> sl_offset (tr_destination request) = destination_offset \<and>
       sl_len (tr_source request) = len \<and> sl_len (tr_destination request) = len \<and>
       rb_registered source \<and> rb_owner source = chan_provider channel \<and>
       rem_provider_name destination = prov_name (channel_provider registry channel) \<and>
       channel_has CAP_TRANSFER_MASK registry channel \<and>
       call_submit_transfer calls (prov_context (channel_provider registry channel)) request
         (snd (mem_service_provider_channel_ready calls registry channel w)) = (answer, w') \<and>
       (result = None \<or> result = Some (snd answer) \<and> fst answer = 0 \<and> snd answer \<noteq> 0))"
proof -
  obtain ready w1 where ready: "mem_service_provider_channel_ready calls registry channel w = (ready, w1)" by fastforce
  let ?request = "\<lparr> tr_source = \<lparr> sl_region_handle = rgn_handle (rb_region source), sl_offset = source_offset,
      sl_len = len, sl_descriptor = rgn_descriptor (rb_region source) \<rparr>,
    tr_destination = \<lparr> sl_region_handle = 0, sl_offset = destination_offset, sl_len = len,
      sl_descriptor = rem_descriptor destination \<rparr>,
    tr_expected_checksum = expected_checksum, tr_flags = 0 \<rparr>"
  obtain rc cid w2 where call: "call_submit_transfer calls (prov_context (channel_provider registry channel)) ?request w1 = ((rc, cid), w2)"
    by (metis prod.exhaust)
  note run = assms [unfolded mem_service_provider_channel_submit_transfer_def ready prod.case call]
  show ?thesis
  proof (cases "result = None \<and> w' = w1")
    case True
    with ready show ?thesis by simp
  next
    case False
    with run have guard: "rb_registered source" "rb_owner source = chan_provider channel" "len \<noteq> 0"
      "rem_provider_name destination = prov_name (channel_provider registry channel)"
      "\<not> source_offset > rgn_len (rb_region source)" "\<not> len > rgn_len (rb_region source) - source_offset"
      "\<not> destination_offset > rem_len destination" "\<not> len > rem_len destination - destination_offset"
      "channel_has CAP_TRANSFER_MASK registry channel"
      and answered: "result = (if rc \<noteq> 0 \<or> cid = 0 then None else Some cid)" "w' = w2"
      by (auto split: if_splits)
    have "slice_in (tr_source ?request) (rgn_len (rb_region source))" "slice_in (tr_destination ?request) (rem_len destination)"
      using guard(3) range_guard [OF guard(5,6)] range_guard [OF guard(7,8)] by (simp_all add: slice_in_def word_gt_0)
    with guard answered call ready show ?thesis by (intro disjI2 exI [of _ ?request] exI [of _ "(rc, cid)"]) auto
  qed
qed

text \<open>A range is reported visible only when it is. When a publication, an invalidation or a wait
  succeeds, the range lies inside the mapping, the provider vouched for all of it, and the bytes
  the caller reads through the mapping afterwards have the expected checksum.\<close>

theorem mapping_range_visible:
  assumes "mem_service_provider_channel_mapping_range calls registry channel binding offset len expected_checksum timeout_ms
      operation w = (Some completion, w')"
  shows "mb_mapped binding \<and> mb_owner binding = chan_provider channel \<and> 0 < len \<and>
    unat offset + unat len \<le> unat (map_len (mb_mapping binding)) \<and>
    vc_status completion = 0 \<and> vc_visible_bytes completion = len \<and> vc_checksum completion = expected_checksum \<and>
    mem_service_provider_checksum64 (Some (call_memory calls (map_base (mb_mapping binding) + offset) len w')) len = expected_checksum \<and>
    (operation = RANGE_PUBLISH \<longrightarrow>
       mem_service_provider_checksum64 (Some (call_memory calls (map_base (mb_mapping binding) + offset) len
         (snd (mem_service_provider_channel_ready calls registry channel w)))) len = expected_checksum)"
proof -
  obtain ready w1 where ready: "mem_service_provider_channel_ready calls registry channel w = (ready, w1)" by fastforce
  note run = assms [unfolded mem_service_provider_channel_mapping_range_def ready prod.case Let_def]
  have guard: "mb_mapped binding" "mb_owner binding = chan_provider channel" "len \<noteq> 0"
    "\<not> offset > map_len (mb_mapping binding)" "\<not> len > map_len (mb_mapping binding) - offset"
    using run by (auto split: if_splits)
  have "unat offset + unat len \<le> unat (map_len (mb_mapping binding))" using range_guard [OF guard(4,5)] .
  moreover have "0 < len" using guard(3) by (simp add: word_gt_0)
  moreover have "vc_status completion = 0 \<and> vc_visible_bytes completion = len \<and> vc_checksum completion = expected_checksum \<and>
    mem_service_provider_checksum64 (Some (call_memory calls (map_base (mb_mapping binding) + offset) len w')) len = expected_checksum"
    using run by (auto split: if_splits option.splits prod.splits)
  moreover have "operation = RANGE_PUBLISH \<Longrightarrow>
    mem_service_provider_checksum64 (Some (call_memory calls (map_base (mb_mapping binding) + offset) len w1)) len = expected_checksum"
    using run by (auto split: if_splits)
  ultimately show ?thesis using guard ready by simp
qed

text \<open>A released binding is dead: after a deregistration or an unmapping that succeeded, every
  operation on the binding fails, and asks the provider nothing but its state.\<close>

lemma released_region_refused:
  assumes "mem_service_provider_channel_deregister_region calls registry channel binding w = (0, binding', w1)"
  shows "fst (mem_service_provider_channel_export_region calls registry channel' binding' w2) = None"
    "mem_service_provider_channel_submit_transfer calls registry channel' binding' so dst doff len chk w2 =
       (None, snd (mem_service_provider_channel_ready calls registry channel' w2))"
    "mem_service_provider_channel_wait_receive calls registry channel' binding' off len chk w2 =
       (None, snd (mem_service_provider_channel_ready calls registry channel' w2))"
    "mem_service_provider_channel_deregister_region calls registry channel' binding' w2 = (-1, binding', w2)"
proof -
  have "\<not> rb_registered binding'"
    using assms by (auto simp: mem_service_provider_channel_deregister_region_def zero_region_binding_def split: if_splits prod.splits)
  then show "fst (mem_service_provider_channel_export_region calls registry channel' binding' w2) = None"
    "mem_service_provider_channel_submit_transfer calls registry channel' binding' so dst doff len chk w2 =
       (None, snd (mem_service_provider_channel_ready calls registry channel' w2))"
    "mem_service_provider_channel_wait_receive calls registry channel' binding' off len chk w2 =
       (None, snd (mem_service_provider_channel_ready calls registry channel' w2))"
    "mem_service_provider_channel_deregister_region calls registry channel' binding' w2 = (-1, binding', w2)"
    by (simp_all add: mem_service_provider_channel_export_region_def mem_service_provider_channel_submit_transfer_def
        mem_service_provider_channel_wait_receive_def mem_service_provider_channel_deregister_region_def Let_def case_prod_beta)
qed

lemma released_mapping_refused:
  assumes "mem_service_provider_channel_unmap_remote_region calls registry channel binding w = (0, binding', w1)"
  shows "mem_service_provider_channel_mapping_range calls registry channel' binding' off len chk t operation w2 =
       (None, snd (mem_service_provider_channel_ready calls registry channel' w2))"
    "mem_service_provider_channel_unmap_remote_region calls registry channel' binding' w2 = (-1, binding', w2)"
proof -
  have "\<not> mb_mapped binding'"
    using assms by (auto simp: mem_service_provider_channel_unmap_remote_region_def zero_mapping_binding_def split: if_splits prod.splits)
  then show "mem_service_provider_channel_mapping_range calls registry channel' binding' off len chk t operation w2 =
       (None, snd (mem_service_provider_channel_ready calls registry channel' w2))"
    "mem_service_provider_channel_unmap_remote_region calls registry channel' binding' w2 = (-1, binding', w2)"
    by (simp_all add: mem_service_provider_channel_unmap_remote_region_def mem_service_provider_channel_mapping_range_def
        Let_def case_prod_beta)
qed

section \<open>What a provider promises about transfers\<close>

text \<open>The contract of the transfer callbacks: a submitted transfer is in flight with the bytes of its
  source until it is polled, asking for the state does not disturb it, and when the poll reports
  all bytes they are at the destination.\<close>

locale transfer_provider =
  fixes calls :: "'w provider_calls" and ctx :: nat
    and source_bytes :: "mem_service_provider_slice \<Rightarrow> 'w \<Rightarrow> u8 list"
    and destination_bytes :: "mem_service_provider_slice \<Rightarrow> 'w \<Rightarrow> u8 list"
    and in_flight :: "u64 \<Rightarrow> mem_service_transfer_request \<Rightarrow> u8 list \<Rightarrow> 'w \<Rightarrow> bool"
  assumes submitted: "call_submit_transfer calls ctx request w = ((0, cid), w') \<Longrightarrow> cid \<noteq> 0 \<Longrightarrow>
      in_flight cid request (source_bytes (tr_source request) w) w'"
    and undisturbed: "in_flight cid request bytes w \<Longrightarrow> call_probe calls ctx state w = (answer, w') \<Longrightarrow>
      in_flight cid request bytes w'"
    and delivered: "in_flight cid request bytes w \<Longrightarrow> call_poll_completion calls ctx cid w = ((0, completion), w') \<Longrightarrow>
      cm_status completion = 0 \<Longrightarrow> cm_transferred_bytes completion = sl_len (tr_destination request) \<Longrightarrow>
      destination_bytes (tr_destination request) w' = bytes"
begin

lemma ready_keeps_in_flight:
  assumes "in_flight cid request bytes w" "prov_context (channel_provider registry channel) = ctx"
    and "mem_service_provider_channel_ready calls registry channel w = (ready, w')"
  shows "in_flight cid request bytes w'"
  using assms undisturbed [OF assms(1)]
  by (auto simp: mem_service_provider_channel_ready_def split: if_splits prod.splits)

lemma transfer_delivers:
  assumes ctx: "prov_context (channel_provider registry channel) = ctx"
    and run: "mem_service_provider_channel_transfer calls registry channel source source_offset destination
      destination_offset len expected_checksum w = (Some completion, w')"
  shows "\<exists>w1. destination_bytes \<lparr> sl_region_handle = 0, sl_offset = destination_offset, sl_len = len,
        sl_descriptor = rem_descriptor destination \<rparr> w' =
      source_bytes \<lparr> sl_region_handle = rgn_handle (rb_region source), sl_offset = source_offset, sl_len = len,
        sl_descriptor = rgn_descriptor (rb_region source) \<rparr> w1 \<and>
    mem_service_provider_channel_ready calls registry channel w = (True, w1)"
proof -
  let ?src = "\<lparr> sl_region_handle = rgn_handle (rb_region source), sl_offset = source_offset, sl_len = len,
    sl_descriptor = rgn_descriptor (rb_region source) \<rparr>"
  let ?dst = "\<lparr> sl_region_handle = 0, sl_offset = destination_offset, sl_len = len, sl_descriptor = rem_descriptor destination \<rparr>"
  let ?request = "\<lparr> tr_source = ?src, tr_destination = ?dst, tr_expected_checksum = expected_checksum, tr_flags = 0 \<rparr>"
  obtain cid w2 where submit: "mem_service_provider_channel_submit_transfer calls registry channel source source_offset
      destination destination_offset len expected_checksum w = (Some cid, w2)"
    and poll: "mem_service_provider_channel_poll_transfer calls registry channel cid len expected_checksum w2 = (Some completion, w')"
    using run by (auto simp: mem_service_provider_channel_transfer_def split: prod.splits option.splits)
  from submit obtain w1 where ready: "mem_service_provider_channel_ready calls registry channel w = (True, w1)"
    and call: "call_submit_transfer calls ctx ?request w1 = ((0, cid), w2)" "cid \<noteq> 0"
    using ctx by (auto simp: mem_service_provider_channel_submit_transfer_def split: prod.splits if_splits)
  from poll obtain w3 where ready2: "mem_service_provider_channel_ready calls registry channel w2 = (True, w3)"
    and answer: "call_poll_completion calls ctx cid w3 = ((0, completion), w')" "cm_status completion = 0"
      "cm_transferred_bytes completion = len"
    using ctx by (auto simp: mem_service_provider_channel_poll_transfer_def split: prod.splits if_splits)
  have "in_flight cid ?request (source_bytes ?src w1) w3"
    using ready_keeps_in_flight [OF submitted [OF call] ctx ready2] by simp
  from delivered [OF this answer(1,2)] answer(3) ready show ?thesis by auto
qed

end

end
