(* ===== verification/Provider_Fixture.thy ===== *)
theory Provider_Fixture
  imports Provider_Channel
begin

text \<open>
  The in-memory provider of \<open>mem_service_provider.c\<close> (\<open>mem_service_provider_fixture_*\<close>), an instance of
  the contract of transfer providers, and a region shared through the wire format end to end.

  The two buffers are functions from indices to bytes; their addresses are numbers. A handle is
  stored in a descriptor in little-endian order.
\<close>

section \<open>The provider\<close>

record mem_service_provider_fixture_context =
  fx_state :: u32
  fx_source_at :: u64
  fx_source :: "nat \<Rightarrow> u8"
  fx_destination_at :: u64
  fx_destination :: "nat \<Rightarrow> u8"
  fx_region_len :: u64
  fx_completion_id :: u64
  fx_pending_bytes :: u64
  fx_pending_checksum :: u64

definition read_bytes :: "(nat \<Rightarrow> u8) \<Rightarrow> nat \<Rightarrow> nat \<Rightarrow> u8 list" where
  "read_bytes mem off len = map (\<lambda>i. mem (off + i)) [0..<len]"

definition le64 :: "u64 \<Rightarrow> u8 list" where
  "le64 h = map (\<lambda>i. ucast (drop_bit (8 * i) h)) [0..<8]"

definition mem_service_provider_fixture_probe :: "mem_service_provider_fixture_context probe" where
  "mem_service_provider_fixture_probe ctx state fx = ((0, fx_state fx), fx)"

definition mem_service_provider_fixture_register_region ::
  "nat \<Rightarrow> mem_service_region_request \<Rightarrow> mem_service_provider_fixture_context \<Rightarrow>
   (int \<times> mem_service_region) \<times> mem_service_provider_fixture_context" where
  "mem_service_provider_fixture_register_region ctx request fx =
     (if rreq_base request = 0 \<or> rreq_len request = 0 \<or> rreq_len request > fx_region_len fx then ((-1, zero_region), fx)
      else let handle = (if rreq_base request = fx_source_at fx then 1 else 2) in
        ((0, \<lparr> rgn_handle = handle, rgn_len = rreq_len request, rgn_memory_kind = rreq_memory_kind request,
               rgn_descriptor = \<lparr> desc_len = 8,
                 desc_bytes = le64 handle @ replicate (MEM_SERVICE_PROVIDER_DESCRIPTOR_LEN - 8) 0 \<rparr> \<rparr>), fx))"

definition mem_service_provider_fixture_deregister_region ::
  "nat \<Rightarrow> u64 \<Rightarrow> mem_service_provider_fixture_context \<Rightarrow> int \<times> mem_service_provider_fixture_context" where
  "mem_service_provider_fixture_deregister_region ctx region_handle fx =
     (if region_handle = 1 \<or> region_handle = 2 then 0 else -1, fx)"

definition mem_service_provider_fixture_submit_transfer ::
  "nat \<Rightarrow> mem_service_transfer_request \<Rightarrow> mem_service_provider_fixture_context \<Rightarrow>
   (int \<times> u64) \<times> mem_service_provider_fixture_context" where
  "mem_service_provider_fixture_submit_transfer ctx request fx =
     (let src = tr_source request; dst = tr_destination request;
          soff = unat (sl_offset src); doff = unat (sl_offset dst); len = unat (sl_len src) in
      if sl_region_handle src \<noteq> 1 \<or> sl_len src = 0 \<or> sl_len src \<noteq> sl_len dst \<or>
         desc_len (sl_descriptor dst) \<noteq> 8 \<or> sl_offset src > fx_region_len fx \<or>
         sl_len src > fx_region_len fx - sl_offset src \<or> sl_offset dst > fx_region_len fx \<or>
         sl_len dst > fx_region_len fx - sl_offset dst
      then ((-1, 0), fx)
      else if take 8 (desc_bytes (sl_descriptor dst)) \<noteq> le64 2 then ((-1, 0), fx)
      else ((0, fx_completion_id fx + 1),
            fx \<lparr> fx_destination := (\<lambda>i. if doff \<le> i \<and> i < doff + len then fx_source fx (soff + (i - doff))
                                       else fx_destination fx i),
                 fx_completion_id := fx_completion_id fx + 1,
                 fx_pending_bytes := sl_len src,
                 fx_pending_checksum :=
                   mem_service_provider_checksum64 (Some (read_bytes (fx_source fx) soff len)) (sl_len src) \<rparr>))"

definition mem_service_provider_fixture_poll_completion ::
  "nat \<Rightarrow> u64 \<Rightarrow> mem_service_provider_fixture_context \<Rightarrow>
   (int \<times> mem_service_transfer_completion) \<times> mem_service_provider_fixture_context" where
  "mem_service_provider_fixture_poll_completion ctx completion_id fx =
     (if completion_id = 0 \<or> completion_id \<noteq> fx_completion_id fx
      then ((-1, \<lparr> cm_id = 0, cm_status = 0, cm_transferred_bytes = 0, cm_checksum = 0 \<rparr>), fx)
      else ((0, \<lparr> cm_id = completion_id, cm_status = 0, cm_transferred_bytes = fx_pending_bytes fx,
                  cm_checksum = fx_pending_checksum fx \<rparr>), fx))"

definition mem_service_provider_fixture_map_remote_region ::
  "nat \<Rightarrow> mem_service_mapping_request \<Rightarrow> mem_service_provider_fixture_context \<Rightarrow>
   (int \<times> mem_service_mapping) \<times> mem_service_provider_fixture_context" where
  "mem_service_provider_fixture_map_remote_region ctx request fx =
     (if desc_len (mrq_remote_descriptor request) \<noteq> 8 \<or> mrq_remote_region_len request \<noteq> fx_region_len fx \<or>
         mrq_len request = 0 \<or> mrq_offset request > fx_region_len fx \<or>
         mrq_len request > fx_region_len fx - mrq_offset request
      then ((-1, zero_mapping), fx)
      else if take 8 (desc_bytes (mrq_remote_descriptor request)) \<noteq> le64 2 then ((-1, zero_mapping), fx)
      else ((0, \<lparr> map_handle = 3, map_base = fx_destination_at fx + mrq_offset request, map_len = mrq_len request,
                  map_memory_kind = mrq_memory_kind request \<rparr>), fx))"

definition mem_service_provider_fixture_unmap_remote_region ::
  "nat \<Rightarrow> u64 \<Rightarrow> mem_service_provider_fixture_context \<Rightarrow> int \<times> mem_service_provider_fixture_context" where
  "mem_service_provider_fixture_unmap_remote_region ctx mapping_handle fx = (if mapping_handle = 3 then 0 else -1, fx)"

definition mem_service_provider_fixture_mapping_range ::
  "nat \<Rightarrow> mem_service_mapping_range_request \<Rightarrow> mem_service_provider_fixture_context \<Rightarrow>
   (int \<times> mem_service_visibility_completion) \<times> mem_service_provider_fixture_context" where
  "mem_service_provider_fixture_mapping_range ctx request fx =
     (let nothing = \<lparr> vc_status = 0, vc_visible_bytes = 0, vc_checksum = 0 \<rparr>;
          checksum = mem_service_provider_checksum64
            (Some (read_bytes (fx_destination fx) (unat (mrr_offset request)) (unat (mrr_len request)))) (mrr_len request)
      in if mrr_mapping_handle request \<noteq> 3 \<or> mrr_len request = 0 \<or> mrr_offset request > fx_region_len fx \<or>
            mrr_len request > fx_region_len fx - mrr_offset request
         then ((-1, nothing), fx)
         else if checksum \<noteq> mrr_expected_checksum request then ((-1, nothing), fx)
         else ((0, nothing \<lparr> vc_visible_bytes := mrr_len request, vc_checksum := checksum \<rparr>), fx))"

text \<open>The table of callbacks; \<open>wait_receive\<close> is NULL. A load from the mapping reads the destination.\<close>

definition fixture_calls :: "mem_service_provider_fixture_context provider_calls" where
  "fixture_calls =
     \<lparr> call_probe = mem_service_provider_fixture_probe,
       call_register_region = mem_service_provider_fixture_register_region,
       call_deregister_region = mem_service_provider_fixture_deregister_region,
       call_submit_transfer = mem_service_provider_fixture_submit_transfer,
       call_poll_completion = mem_service_provider_fixture_poll_completion,
       call_wait_receive = (\<lambda>_ _ fx. ((-1, \<lparr> cm_id = 0, cm_status = 0, cm_transferred_bytes = 0, cm_checksum = 0 \<rparr>), fx)),
       call_map_remote_region = mem_service_provider_fixture_map_remote_region,
       call_unmap_remote_region = mem_service_provider_fixture_unmap_remote_region,
       call_publish_range = mem_service_provider_fixture_mapping_range,
       call_invalidate_range = mem_service_provider_fixture_mapping_range,
       call_wait_range_visible = mem_service_provider_fixture_mapping_range,
       call_memory = (\<lambda>address len fx. read_bytes (fx_destination fx) (unat (address - fx_destination_at fx)) (unat len)) \<rparr>"

definition fixture_ops :: mem_service_provider_ops where
  "fixture_ops =
     \<lparr> ops_probe = True, ops_register_region = True, ops_deregister_region = True, ops_submit_transfer = True,
       ops_poll_completion = True, ops_wait_receive = False, ops_map_remote_region = True,
       ops_unmap_remote_region = True, ops_publish_range = True, ops_invalidate_range = True,
       ops_wait_range_visible = True \<rparr>"

section \<open>It keeps the contract\<close>

lemma fixture_calls_sel [simp]:
  "call_probe fixture_calls = mem_service_provider_fixture_probe"
  "call_register_region fixture_calls = mem_service_provider_fixture_register_region"
  "call_submit_transfer fixture_calls = mem_service_provider_fixture_submit_transfer"
  "call_poll_completion fixture_calls = mem_service_provider_fixture_poll_completion"
  by (simp_all add: fixture_calls_def)

definition fixture_in_flight ::
  "u64 \<Rightarrow> mem_service_transfer_request \<Rightarrow> u8 list \<Rightarrow> mem_service_provider_fixture_context \<Rightarrow> bool" where
  "fixture_in_flight cid request bytes fx \<longleftrightarrow>
     read_bytes (fx_destination fx) (unat (sl_offset (tr_destination request))) (unat (sl_len (tr_destination request))) = bytes"

interpretation fixture: transfer_provider fixture_calls ctx
  "\<lambda>s fx. read_bytes (fx_source fx) (unat (sl_offset s)) (unat (sl_len s))"
  "\<lambda>s fx. read_bytes (fx_destination fx) (unat (sl_offset s)) (unat (sl_len s))" fixture_in_flight for ctx
proof unfold_locales
  fix request fx cid fx'
  assume "call_submit_transfer fixture_calls ctx request fx = ((0, cid), fx')"
  then show "fixture_in_flight cid request
      (read_bytes (fx_source fx) (unat (sl_offset (tr_source request))) (unat (sl_len (tr_source request)))) fx'"
    by (auto simp: mem_service_provider_fixture_submit_transfer_def fixture_in_flight_def read_bytes_def Let_def
        split: if_splits)
next
  fix cid request bytes fx state answer fx'
  assume "fixture_in_flight cid request bytes fx" "call_probe fixture_calls ctx state fx = (answer, fx')"
  then show "fixture_in_flight cid request bytes fx'"
    by (simp add: mem_service_provider_fixture_probe_def fixture_in_flight_def)
next
  fix cid request bytes fx completion fx'
  assume "fixture_in_flight cid request bytes fx"
    "call_poll_completion fixture_calls ctx cid fx = ((0, completion), fx')"
  then show "read_bytes (fx_destination fx') (unat (sl_offset (tr_destination request))) (unat (sl_len (tr_destination request))) = bytes"
    by (auto simp: mem_service_provider_fixture_poll_completion_def fixture_in_flight_def split: if_splits)
qed

section \<open>A region shared end to end\<close>

text \<open>A channel bound to the fixture, with the capabilities to register and to transfer.\<close>

definition fixture_channel ::
  "mem_service_provider_registry \<Rightarrow> mem_service_provider_channel \<Rightarrow> mem_service_provider_fixture_context \<Rightarrow> bool" where
  "fixture_channel registry channel fx \<longleftrightarrow>
     prov_ops (channel_provider registry channel) = Some fixture_ops \<and>
     channel_has CAP_REGION_REGISTRATION registry channel \<and> channel_has CAP_TRANSFER_MASK registry channel \<and>
     mem_service_provider_identity_valid (prov_name (channel_provider registry channel)) MEM_SERVICE_PROVIDER_NAME_LEN \<and>
     fx_state fx = provider_state_code PROVIDER_READY \<and> fx_source_at fx \<noteq> 0 \<and> fx_destination_at fx \<noteq> 0 \<and>
     fx_source_at fx \<noteq> fx_destination_at fx \<and> fx_region_len fx \<noteq> 0 \<and> fx_completion_id fx \<noteq> UINT64_MAX"

definition host_buffer :: "u64 \<Rightarrow> u64 \<Rightarrow> mem_service_region_request" where
  "host_buffer address len = \<lparr> rreq_base = address, rreq_len = len, rreq_memory_kind = MEMORY_HOST, rreq_flags = 0 \<rparr>"

definition fixture_region :: "u64 \<Rightarrow> u64 \<Rightarrow> mem_service_region" where
  "fixture_region handle len = \<lparr> rgn_handle = handle, rgn_len = len, rgn_memory_kind = MEMORY_HOST,
     rgn_descriptor = \<lparr> desc_len = 8, desc_bytes = le64 handle @ replicate (MEM_SERVICE_PROVIDER_DESCRIPTOR_LEN - 8) 0 \<rparr> \<rparr>"

lemma fixture_ready:
  "fixture_channel registry channel fx \<Longrightarrow> mem_service_provider_channel_ready fixture_calls registry channel fx = (True, fx)"
  by (simp add: fixture_channel_def mem_service_provider_channel_ready_def mem_service_provider_fixture_probe_def fixture_ops_def)

lemma length_le64 [simp]: "length (le64 h) = 8" by (simp add: le64_def)

lemma fixture_registers:
  assumes "fixture_channel registry channel fx" "address \<noteq> 0"
  shows "mem_service_provider_channel_register_region fixture_calls registry channel (host_buffer address (fx_region_len fx)) fx =
    (Some \<lparr> rb_region = fixture_region (if address = fx_source_at fx then 1 else 2) (fx_region_len fx),
            rb_owner = chan_provider channel, rb_registered = True \<rparr>, fx)"
  using assms fixture_ready [OF assms(1)]
  by (simp add: mem_service_provider_channel_register_region_def mem_service_provider_fixture_register_region_def
      fixture_channel_def fixture_ops_def host_buffer_def fixture_region_def mem_service_memory_kind_valid_def
      MEM_SERVICE_PROVIDER_DESCRIPTOR_LEN_def REGION_FLAG_PROVIDER_ALLOCATED_def Let_def)

lemma fixture_transfers:
  fixes fx soff doff len
  defines "bytes \<equiv> read_bytes (fx_source fx) (unat soff) (unat len)"
  assumes ch: "fixture_channel registry channel fx" and range: "\<not> soff > fx_region_len fx" "\<not> len > fx_region_len fx - soff"
    "\<not> doff > fx_region_len fx" "\<not> len > fx_region_len fx - doff" "len \<noteq> 0"
    and chk: "chk = mem_service_provider_checksum64 (Some bytes) len" "chk \<noteq> 0"
    and remote: "rem_provider_name remote = prov_name (channel_provider registry channel)" "rem_len remote = fx_region_len fx"
      "rem_memory_kind remote = MEMORY_HOST" "rem_descriptor remote = rgn_descriptor (fixture_region 2 (fx_region_len fx))"
    and source: "rb_region source = fixture_region 1 (fx_region_len fx)" "rb_owner source = chan_provider channel" "rb_registered source"
  shows "\<exists>fx'. mem_service_provider_channel_transfer fixture_calls registry channel source soff remote doff len chk fx =
    (Some \<lparr> cm_id = fx_completion_id fx + 1, cm_status = 0, cm_transferred_bytes = len, cm_checksum = chk \<rparr>, fx') \<and>
    fx_source fx' = fx_source fx \<and>
    (\<forall>i. \<not> (unat doff \<le> i \<and> i < unat doff + unat len) \<longrightarrow> fx_destination fx' i = fx_destination fx i)"
proof -
  let ?fx = "fx \<lparr> fx_destination := (\<lambda>i. if unat doff \<le> i \<and> i < unat doff + unat len then fx_source fx (unat soff + (i - unat doff))
      else fx_destination fx i), fx_completion_id := fx_completion_id fx + 1, fx_pending_bytes := len, fx_pending_checksum := chk \<rparr>"
  have id: "fx_completion_id fx + 1 \<noteq> 0"
    using ch by (auto simp: fixture_channel_def UINT64_MAX_def eq_neg_iff_add_eq_0 [symmetric])
  have "mem_service_provider_channel_submit_transfer fixture_calls registry channel source soff remote doff len chk fx =
      (Some (fx_completion_id fx + 1), ?fx)"
    using ch fixture_ready [OF ch] range chk remote source id
    by (simp add: mem_service_provider_channel_submit_transfer_def fixture_channel_def fixture_ops_def fixture_region_def
        mem_service_provider_fixture_submit_transfer_def mem_service_memory_kind_valid_def MEM_SERVICE_PROVIDER_DESCRIPTOR_LEN_def
        bytes_def Let_def cong: if_cong)
  moreover have "mem_service_provider_channel_ready fixture_calls registry channel ?fx = (True, ?fx)"
    using ch by (simp add: fixture_channel_def mem_service_provider_channel_ready_def mem_service_provider_fixture_probe_def fixture_ops_def)
  ultimately show ?thesis
    using ch range chk id
    by (simp add: mem_service_provider_channel_transfer_def mem_service_provider_channel_poll_transfer_def fixture_channel_def
        fixture_ops_def mem_service_provider_fixture_poll_completion_def)
qed

lemma fixture_transfer_outcome:
  fixes fx soff doff len
  defines "chk \<equiv> mem_service_provider_checksum64 (Some (read_bytes (fx_source fx) (unat soff) (unat len))) len"
  assumes ch: "fixture_channel registry channel fx" and range: "\<not> soff > fx_region_len fx" "\<not> len > fx_region_len fx - soff"
    "\<not> doff > fx_region_len fx" "\<not> len > fx_region_len fx - doff" "len \<noteq> 0"
    and remote: "rem_provider_name remote = prov_name (channel_provider registry channel)" "rem_len remote = fx_region_len fx"
      "rem_memory_kind remote = MEMORY_HOST" "rem_descriptor remote = rgn_descriptor (fixture_region 2 (fx_region_len fx))"
    and source: "rb_region source = fixture_region 1 (fx_region_len fx)" "rb_owner source = chan_provider channel" "rb_registered source"
  shows "if chk = 0
     then mem_service_provider_channel_transfer fixture_calls registry channel source soff remote doff len chk fx = (None, fx)
     else \<exists>completion fx'.
       mem_service_provider_channel_transfer fixture_calls registry channel source soff remote doff len chk fx =
         (Some completion, fx') \<and>
       cm_transferred_bytes completion = len \<and> cm_checksum completion = chk \<and>
       read_bytes (fx_destination fx') (unat doff) (unat len) = read_bytes (fx_source fx) (unat soff) (unat len) \<and>
       fx_source fx' = fx_source fx \<and>
       (\<forall>i. \<not> (unat doff \<le> i \<and> i < unat doff + unat len) \<longrightarrow> fx_destination fx' i = fx_destination fx i)"
proof (cases "chk = 0")
  case True
  then show ?thesis
    by (simp add: mem_service_provider_channel_transfer_def mem_service_provider_channel_submit_transfer_def fixture_ready [OF ch])
next
  case False
  from fixture_transfers [OF ch range _ False remote source] chk_def
  obtain completion fx' where
    run: "mem_service_provider_channel_transfer fixture_calls registry channel source soff remote doff len chk fx =
      (Some completion, fx')" "cm_transferred_bytes completion = len" "cm_checksum completion = chk"
    and frame: "fx_source fx' = fx_source fx"
      "\<forall>i. \<not> (unat doff \<le> i \<and> i < unat doff + unat len) \<longrightarrow> fx_destination fx' i = fx_destination fx i"
    by auto
  have "read_bytes (fx_destination fx') (unat doff) (unat len) = read_bytes (fx_source fx) (unat soff) (unat len)"
    using fixture.transfer_delivers [OF refl run(1)] fixture_ready [OF ch] by simp
  with False run frame show ?thesis by auto
qed

text \<open>C16. A region can be shared and written from afar. Take a ready in-memory provider whose completion
  numbers have not yet reached the largest 64-bit number. Registering both buffers, exporting the
  destination and sending its description over the wire succeed. Transferring a non-empty range that
  lies within both buffers, with its checksum, then succeeds and reports its length and checksum:
  afterwards the destination range holds the bytes of the source range, and the source and the rest of
  the destination are as before. The one exception is a range whose checksum happens to be 0: the channel
  takes that for a missing checksum and refuses the transfer, without any change.\<close>

theorem shared_region_transfer:
  assumes ch: "fixture_channel registry channel fx" and range: "\<not> soff > fx_region_len fx" "\<not> len > fx_region_len fx - soff"
    "\<not> doff > fx_region_len fx" "\<not> len > fx_region_len fx - doff" "len \<noteq> 0"
  defines "chk \<equiv> mem_service_provider_checksum64 (Some (read_bytes (fx_source fx) (unat soff) (unat len))) len"
  shows "\<exists>source destination remote wire received.
    mem_service_provider_channel_register_region fixture_calls registry channel
      (host_buffer (fx_source_at fx) (fx_region_len fx)) fx = (Some source, fx) \<and>
    mem_service_provider_channel_register_region fixture_calls registry channel
      (host_buffer (fx_destination_at fx) (fx_region_len fx)) fx = (Some destination, fx) \<and>
    mem_service_provider_channel_export_region fixture_calls registry channel destination fx = (Some remote, fx) \<and>
    mem_service_provider_remote_region_encode remote MEM_SERVICE_PROVIDER_REGION_WIRE_MAX_LEN = Some wire \<and>
    mem_service_provider_remote_region_decode wire = Some received \<and>
    (if chk = 0
     then mem_service_provider_channel_transfer fixture_calls registry channel source soff received doff len chk fx = (None, fx)
     else \<exists>completion fx'.
       mem_service_provider_channel_transfer fixture_calls registry channel source soff received doff len chk fx =
         (Some completion, fx') \<and>
       cm_transferred_bytes completion = len \<and> cm_checksum completion = chk \<and>
       read_bytes (fx_destination fx') (unat doff) (unat len) = read_bytes (fx_source fx) (unat soff) (unat len) \<and>
       fx_source fx' = fx_source fx \<and>
       (\<forall>i. \<not> (unat doff \<le> i \<and> i < unat doff + unat len) \<longrightarrow> fx_destination fx' i = fx_destination fx i))"
proof -
  let ?p = "channel_provider registry channel"
  let ?source = "\<lparr> rb_region = fixture_region 1 (fx_region_len fx), rb_owner = chan_provider channel, rb_registered = True \<rparr>"
  let ?destination = "\<lparr> rb_region = fixture_region 2 (fx_region_len fx), rb_owner = chan_provider channel, rb_registered = True \<rparr>"
  let ?remote = "\<lparr> rem_provider_name = prov_name ?p, rem_len = fx_region_len fx, rem_memory_kind = MEMORY_HOST,
    rem_descriptor = rgn_descriptor (fixture_region 2 (fx_region_len fx)) \<rparr>"
  have at: "fx_source_at fx \<noteq> 0" "fx_destination_at fx \<noteq> 0" "fx_destination_at fx \<noteq> fx_source_at fx" "fx_region_len fx \<noteq> 0"
    and name: "mem_service_provider_identity_valid (prov_name ?p) MEM_SERVICE_PROVIDER_NAME_LEN"
      "length (prov_name ?p) < MEM_SERVICE_PROVIDER_NAME_LEN"
    using ch by (auto simp: fixture_channel_def mem_service_provider_identity_valid_def)
  have export: "mem_service_provider_channel_export_region fixture_calls registry channel ?destination fx = (Some ?remote, fx)"
    using at name fixture_ready [OF ch]
    by (simp add: mem_service_provider_channel_export_region_def fixture_region_def mem_service_memory_kind_valid_def
        MEM_SERVICE_PROVIDER_DESCRIPTOR_LEN_def Let_def)
  have "\<exists>wire. mem_service_provider_remote_region_encode ?remote MEM_SERVICE_PROVIDER_REGION_WIRE_MAX_LEN = Some wire"
    using at name
    by (simp add: mem_service_provider_remote_region_encode_def fixture_region_def mem_service_memory_kind_valid_def
        MEM_SERVICE_PROVIDER_DESCRIPTOR_LEN_def MEM_SERVICE_PROVIDER_REGION_WIRE_MAX_LEN_def Let_def)
  then obtain wire where
    wire: "mem_service_provider_remote_region_encode ?remote MEM_SERVICE_PROVIDER_REGION_WIRE_MAX_LEN = Some wire" by blast
  have "length (desc_bytes (rem_descriptor ?remote)) = MEM_SERVICE_PROVIDER_DESCRIPTOR_LEN"
    by (simp add: fixture_region_def MEM_SERVICE_PROVIDER_DESCRIPTOR_LEN_def)
  with encode_decode [OF wire] have decode: "mem_service_provider_remote_region_decode wire = Some (sent_region ?remote)" by simp
  have sent: "sent_region ?remote = ?remote" by (simp add: sent_region_def fixture_region_def)
  note transfer = fixture_transfer_outcome [OF ch range, of ?remote ?source, folded chk_def, simplified]
  with fixture_registers [OF ch at(1)] fixture_registers [OF ch at(2)] at(3) export wire decode sent show ?thesis by auto
qed

section \<open>Witnesses\<close>

definition demo_fixture :: mem_service_provider_fixture_context where
  "demo_fixture = \<lparr> fx_state = 1, fx_source_at = 16, fx_source = (\<lambda>i. of_nat (i + 1)), fx_destination_at = 32,
     fx_destination = (\<lambda>_. 7), fx_region_len = 8, fx_completion_id = 0, fx_pending_bytes = 0, fx_pending_checksum = 0 \<rparr>"

definition demo_fixture_registry :: mem_service_provider_registry where
  "demo_fixture_registry = \<lparr> reg_initialized = True, reg_count = 1,
     reg_providers = [\<lparr> prov_name = ''fx'', prov_instance = ''a'',
       prov_capabilities = CAP_REGION_REGISTRATION OR CAP_LOCAL_TRANSFER OR CAP_PEER_MAPPING,
       prov_state = PROVIDER_READY, prov_ops = Some fixture_ops, prov_context = 0 \<rparr>] \<rparr>"

definition demo_channel :: mem_service_provider_channel where
  "demo_channel = \<lparr> chan_provider = 0, chan_required_capabilities = CAP_LOCAL_TRANSFER \<rparr>"

lemma demo_fixture_channel: "fixture_channel demo_fixture_registry demo_channel demo_fixture"
  by (simp add: fixture_channel_def demo_fixture_registry_def demo_channel_def demo_fixture_def UINT64_MAX_def
      CAP_REGION_REGISTRATION_def CAP_LOCAL_TRANSFER_def CAP_PEER_MAPPING_def CAP_TRANSFER_MASK_def CAP_PEER_TRANSFER_def
      CAP_DURABLE_STORAGE_def mem_service_provider_identity_valid_def MEM_SERVICE_PROVIDER_NAME_LEN_def identity_char_def)

lemma demo_checksum:
  "mem_service_provider_checksum64 (Some (read_bytes (fx_source demo_fixture) (unat (2 :: u64)) (unat (3 :: u64)))) 3 \<noteq> 0"
  "mem_service_provider_checksum64 (Some (read_bytes (fx_destination demo_fixture) (unat (1 :: u64)) (unat (2 :: u64)))) 2 \<noteq> 0"
  by (simp_all add: demo_fixture_def read_bytes_def mem_service_provider_checksum64_def fnv64_step_def upt_conv_Cons)

theorem shared_region_transfer_witness:
  "\<exists>source received completion fx'.
     mem_service_provider_channel_transfer fixture_calls demo_fixture_registry demo_channel source 2 received 1 3
       (mem_service_provider_checksum64 (Some (read_bytes (fx_source demo_fixture) (unat (2 :: u64)) (unat (3 :: u64)))) 3)
       demo_fixture = (Some completion, fx') \<and>
     read_bytes (fx_destination fx') 1 3 = [3, 4, 5]"
proof -
  have "read_bytes (fx_source demo_fixture) 2 3 = [3, 4, 5]" by (simp add: demo_fixture_def read_bytes_def upt_conv_Cons)
  moreover have "\<not> (2 :: u64) > fx_region_len demo_fixture" "\<not> (3 :: u64) > fx_region_len demo_fixture - 2"
    "\<not> (1 :: u64) > fx_region_len demo_fixture" "\<not> (3 :: u64) > fx_region_len demo_fixture - 1" "(3 :: u64) \<noteq> 0"
    by (simp_all add: demo_fixture_def)
  ultimately show ?thesis
    using shared_region_transfer [OF demo_fixture_channel, of 2 3 1] demo_checksum(1) by (auto split: if_splits)
qed

theorem submit_transfer_in_bounds_witness:
  "\<exists>result fx'. mem_service_provider_channel_submit_transfer fixture_calls demo_fixture_registry demo_channel
      zero_region_binding 0 demo_region 0 4 9 demo_fixture = (result, fx') \<and> (result = None \<or> rb_registered zero_region_binding)"
proof -
  obtain result fx' where run: "mem_service_provider_channel_submit_transfer fixture_calls demo_fixture_registry demo_channel
      zero_region_binding 0 demo_region 0 4 9 demo_fixture = (result, fx')" by fastforce
  from submit_transfer_in_bounds [OF run] run show ?thesis by blast
qed

theorem mapping_range_visible_witness:
  "\<exists>binding completion fx'. mem_service_provider_channel_mapping_range fixture_calls demo_fixture_registry demo_channel binding 1 2
       (mem_service_provider_checksum64 (Some (read_bytes (fx_destination demo_fixture) (unat (1 :: u64)) (unat (2 :: u64)))) 2)
       0 RANGE_PUBLISH demo_fixture = (Some completion, fx') \<and> vc_visible_bytes completion = 2"
proof -
  let ?chk = "mem_service_provider_checksum64 (Some (read_bytes (fx_destination demo_fixture) (unat (1 :: u64)) (unat (2 :: u64)))) 2"
  let ?binding = "\<lparr> mb_mapping = \<lparr> map_handle = 3, map_base = 32, map_len = 8, map_memory_kind = MEMORY_HOST \<rparr>,
    mb_owner = 0, mb_mapped = True \<rparr>"
  have "fst (mem_service_provider_channel_mapping_range fixture_calls demo_fixture_registry demo_channel ?binding 1 2 ?chk
      0 RANGE_PUBLISH demo_fixture) = Some \<lparr> vc_status = 0, vc_visible_bytes = 2, vc_checksum = ?chk \<rparr>"
    using fixture_ready [OF demo_fixture_channel] demo_checksum(2)
    by (simp add: mem_service_provider_channel_mapping_range_def demo_fixture_registry_def demo_channel_def fixture_ops_def
        fixture_calls_def mem_service_provider_fixture_mapping_range_def demo_fixture_def CAP_REGION_REGISTRATION_def
        CAP_LOCAL_TRANSFER_def CAP_PEER_MAPPING_def Let_def)
  then obtain fx' where run: "mem_service_provider_channel_mapping_range fixture_calls demo_fixture_registry demo_channel ?binding 1 2 ?chk
      0 RANGE_PUBLISH demo_fixture = (Some \<lparr> vc_status = 0, vc_visible_bytes = 2, vc_checksum = ?chk \<rparr>, fx')"
    by (metis prod.collapse)
  from mapping_range_visible [OF run] run show ?thesis by blast
qed

end
