(* ===== verification/Expert_Cache.thy ===== *)
theory Expert_Cache
  imports Prelude "HOL-Library.Sublist"
begin

text \<open>
  The expert cache of a node (\<open>mem_service_expert_cache.c\<close>): which expert tiles are resident, in
  which order they were last touched, and the counters of the latency model. The array and its
  counter are kept as the code has them; the cache refines a list in order of recency
  (\<open>lru_touch\<close>), and a larger cache holds all that a smaller one holds.
\<close>

section \<open>The cache\<close>

definition MEM_SERVICE_EXPERT_CACHE_DEFAULT_SLOTS :: u32 where
  "MEM_SERVICE_EXPERT_CACHE_DEFAULT_SLOTS = 64"

definition MEM_SERVICE_EXPERT_CACHE_COMPUTE_US_PER_TOUCH :: u64 where
  "MEM_SERVICE_EXPERT_CACHE_COMPUTE_US_PER_TOUCH = 2"

definition MEM_SERVICE_EXPERT_CACHE_LOAD_BYTES_PER_US :: u64 where
  "MEM_SERVICE_EXPERT_CACHE_LOAD_BYTES_PER_US = 4096"

record mem_service_expert_cache_stats =
  xs_hits :: u64
  xs_misses :: u64
  xs_evictions :: u64
  xs_pread_bytes :: u64
  xs_compute_time_us :: u64
  xs_miss_load_time_us :: u64
  xs_estimated_latency_us :: u64
  xs_compute_us_per_touch :: u64
  xs_load_bytes_per_us :: u64

record mem_service_expert_cache =
  xc_capacity_slots :: u32
  xc_expert_bytes :: u64
  xc_resident :: "u64 list"
  xc_resident_count :: u32
  xc_stats :: mem_service_expert_cache_stats

definition zero_expert_stats :: mem_service_expert_cache_stats where
  "zero_expert_stats = \<lparr>xs_hits = 0, xs_misses = 0, xs_evictions = 0, xs_pread_bytes = 0,
     xs_compute_time_us = 0, xs_miss_load_time_us = 0, xs_estimated_latency_us = 0,
     xs_compute_us_per_touch = 0, xs_load_bytes_per_us = 0\<rparr>"

definition expert_cache_key :: "u32 \<Rightarrow> u32 \<Rightarrow> u64" where
  "expert_cache_key layer_id expert_id = ucast layer_id * 1000 + ucast expert_id"

definition mem_service_expert_cache_init :: "u32 \<Rightarrow> u64 \<Rightarrow> mem_service_expert_cache" where
  "mem_service_expert_cache_init capacity_slots expert_bytes =
    \<lparr>xc_capacity_slots =
       (if capacity_slots > MEM_SERVICE_EXPERT_CACHE_DEFAULT_SLOTS
        then MEM_SERVICE_EXPERT_CACHE_DEFAULT_SLOTS
        else if capacity_slots = 0 then MEM_SERVICE_EXPERT_CACHE_DEFAULT_SLOTS
        else capacity_slots),
     xc_expert_bytes = expert_bytes,
     xc_resident = replicate (unat MEM_SERVICE_EXPERT_CACHE_DEFAULT_SLOTS) 0,
     xc_resident_count = 0,
     xc_stats = zero_expert_stats\<rparr>"

text \<open>\<open>cache->resident[cache->resident_count++] = key\<close>.\<close>

definition push_resident :: "u64 \<Rightarrow> mem_service_expert_cache \<Rightarrow> mem_service_expert_cache" where
  "push_resident key cache = cache\<lparr>
     xc_resident := (xc_resident cache)[unat (xc_resident_count cache) := key],
     xc_resident_count := xc_resident_count cache + 1\<rparr>"

definition expert_cache_find :: "mem_service_expert_cache \<Rightarrow> u64 \<Rightarrow> nat option" where
  "expert_cache_find cache key =
     find_slot (\<lambda>x. x = key) (take (unat (xc_resident_count cache)) (xc_resident cache))"

fun mem_service_expert_cache_preload ::
    "mem_service_expert_cache \<Rightarrow> (u32 \<times> u32) list \<Rightarrow> mem_service_expert_cache" where
  "mem_service_expert_cache_preload cache [] = cache"
| "mem_service_expert_cache_preload cache ((layer_id, expert_id) # pairs) =
     (if xc_resident_count cache < xc_capacity_slots cache then
        let key = expert_cache_key layer_id expert_id in
        mem_service_expert_cache_preload
          (if expert_cache_find cache key \<noteq> None then cache else push_resident key cache) pairs
      else cache)"

declare mem_service_expert_cache_preload.simps(2) [simp del]

function shift_down :: "nat \<Rightarrow> nat \<Rightarrow> u64 list \<Rightarrow> u64 list" where
  "shift_down i n xs = (if i + 1 < n then shift_down (i + 1) n (xs[i := xs ! (i + 1)]) else xs)"
  by pat_completeness auto
termination by (relation "measure (\<lambda>(i, n, _). n - i)") auto

declare shift_down.simps [simp del]

definition expert_cache_remove_at ::
    "mem_service_expert_cache \<Rightarrow> nat \<Rightarrow> mem_service_expert_cache" where
  "expert_cache_remove_at cache index = (
     let xs = shift_down index (unat (xc_resident_count cache)) (xc_resident cache) in
     if xc_resident_count cache > 0 then
       cache\<lparr>xc_resident_count := xc_resident_count cache - 1,
             xc_resident := xs[unat (xc_resident_count cache - 1) := 0]\<rparr>
     else cache\<lparr>xc_resident := xs\<rparr>)"

definition expert_cache_ceil_div_u64 :: "u64 \<Rightarrow> u64 \<Rightarrow> u64" where
  "expert_cache_ceil_div_u64 v divisor =
     (if v = 0 \<or> divisor = 0 then 0 else (v + divisor - 1) div divisor)"

definition expert_cache_fill_latency ::
    "mem_service_expert_cache_stats \<Rightarrow> mem_service_expert_cache_stats" where
  "expert_cache_fill_latency stats = (
     let touch_count = xs_hits stats + xs_misses stats;
         compute = touch_count * MEM_SERVICE_EXPERT_CACHE_COMPUTE_US_PER_TOUCH;
         load = expert_cache_ceil_div_u64 (xs_pread_bytes stats)
                  MEM_SERVICE_EXPERT_CACHE_LOAD_BYTES_PER_US in
     stats\<lparr>xs_compute_us_per_touch := MEM_SERVICE_EXPERT_CACHE_COMPUTE_US_PER_TOUCH,
           xs_load_bytes_per_us := MEM_SERVICE_EXPERT_CACHE_LOAD_BYTES_PER_US,
           xs_compute_time_us := compute,
           xs_miss_load_time_us := load,
           xs_estimated_latency_us := (if compute > load then compute else load)\<rparr>)"

definition count_hit :: "mem_service_expert_cache \<Rightarrow> mem_service_expert_cache" where
  "count_hit cache =
     cache\<lparr>xc_stats := (xc_stats cache)\<lparr>xs_hits := xs_hits (xc_stats cache) + 1\<rparr>\<rparr>"

definition count_miss :: "mem_service_expert_cache \<Rightarrow> mem_service_expert_cache" where
  "count_miss cache = cache\<lparr>xc_stats := (xc_stats cache)
     \<lparr>xs_misses := xs_misses (xc_stats cache) + 1,
      xs_pread_bytes := xs_pread_bytes (xc_stats cache) + xc_expert_bytes cache\<rparr>\<rparr>"

definition count_eviction :: "mem_service_expert_cache \<Rightarrow> mem_service_expert_cache" where
  "count_eviction cache =
     cache\<lparr>xc_stats := (xc_stats cache)\<lparr>xs_evictions := xs_evictions (xc_stats cache) + 1\<rparr>\<rparr>"

definition mem_service_expert_cache_touch ::
    "mem_service_expert_cache \<Rightarrow> u32 \<Rightarrow> u32 \<Rightarrow> bool \<times> mem_service_expert_cache" where
  "mem_service_expert_cache_touch cache layer_id expert_id = (
     let key = expert_cache_key layer_id expert_id in
     case expert_cache_find cache key of
       Some index \<Rightarrow> (True, count_hit (push_resident key (expert_cache_remove_at cache index)))
     | None \<Rightarrow>
         let missed = count_miss cache;
             room = (if xc_resident_count missed \<ge> xc_capacity_slots missed \<and>
                        xc_resident_count missed > 0
                     then count_eviction (expert_cache_remove_at missed 0) else missed) in
         (False, if xc_resident_count room < xc_capacity_slots room
                 then push_resident key room else room))"

definition mem_service_expert_cache_stats_out ::
    "mem_service_expert_cache \<Rightarrow> mem_service_expert_cache_stats" where
  "mem_service_expert_cache_stats_out cache = expert_cache_fill_latency (xc_stats cache)"

section \<open>The order of recency\<close>

text \<open>The resident keys, least recently touched first, and the invariant of the array.\<close>

definition lru :: "mem_service_expert_cache \<Rightarrow> u64 list" where
  "lru cache = take (unat (xc_resident_count cache)) (xc_resident cache)"

definition slots :: "mem_service_expert_cache \<Rightarrow> nat" where
  "slots cache = unat (xc_capacity_slots cache)"

definition cache_wf :: "mem_service_expert_cache \<Rightarrow> bool" where
  "cache_wf cache \<longleftrightarrow>
     length (xc_resident cache) = 64 \<and> 0 < slots cache \<and> slots cache \<le> 64 \<and>
     unat (xc_resident_count cache) \<le> slots cache \<and> distinct (lru cache)"

definition lru_touch :: "nat \<Rightarrow> 'a \<Rightarrow> 'a list \<Rightarrow> 'a list" where
  "lru_touch n k xs =
     (if k \<in> set xs then remove1 k xs @ [k]
      else (if n \<le> length xs then tl xs else xs) @ [k])"

lemma lru_length: "cache_wf c \<Longrightarrow> length (lru c) = unat (xc_resident_count c)"
  by (auto simp: lru_def cache_wf_def)

lemma shift_down_length [simp]: "length (shift_down i n xs) = length xs"
  by (induction i n xs rule: shift_down.induct) (subst shift_down.simps, simp)

lemma shift_down_take:
  "i < n \<Longrightarrow> n \<le> length xs \<Longrightarrow>
   take (n - 1) (shift_down i n xs) = take i xs @ drop (Suc i) (take n xs)"
proof (induction i n xs rule: shift_down.induct)
  case (1 i n xs)
  show ?case
  proof (cases "i + 1 < n")
    case True
    let ?ys = "xs[i := xs ! (i + 1)]"
    have "take (n - 1) (shift_down i n xs) = take (Suc i) ?ys @ drop (Suc (Suc i)) (take n ?ys)"
      using 1 True by (simp add: shift_down.simps [of i n xs])
    also have "take (Suc i) ?ys = take i xs @ [xs ! Suc i]"
      using 1 True by (simp add: take_Suc_conv_app_nth)
    also have "drop (Suc (Suc i)) (take n ?ys) = drop (Suc (Suc i)) (take n xs)"
      by (simp add: drop_take)
    finally show ?thesis
      using 1 True by (simp add: Cons_nth_drop_Suc [symmetric, of "Suc i" "take n xs"])
  next
    case False
    then have "n = Suc i" using 1 by simp
    then show ?thesis by (subst shift_down.simps) simp
  qed
qed

lemma remove_at_lru:
  assumes wf: "cache_wf c" and i: "i < length (lru c)"
  shows "lru (expert_cache_remove_at c i) = take i (lru c) @ drop (Suc i) (lru c)"
    and "unat (xc_resident_count (expert_cache_remove_at c i)) = unat (xc_resident_count c) - 1"
    and "length (xc_resident (expert_cache_remove_at c i)) = 64"
proof -
  let ?n = "unat (xc_resident_count c)"
  have n: "?n \<le> 64" "length (xc_resident c) = 64" using wf by (auto simp: cache_wf_def)
  have i': "i < ?n" using i lru_length [OF wf] by simp
  then have pos: "xc_resident_count c > 0" by (metis gr_implies_not0 unat_0 word_gt_0)
  then have dec: "unat (xc_resident_count c - 1) = ?n - 1"
    by (simp add: unat_minus_one word_gt_0)
  show "lru (expert_cache_remove_at c i) = take i (lru c) @ drop (Suc i) (lru c)"
    using shift_down_take [OF i', of "xc_resident c"] n pos i'
    by (simp add: expert_cache_remove_at_def Let_def lru_def dec min_def)
  show "unat (xc_resident_count (expert_cache_remove_at c i)) = ?n - 1"
    using pos dec by (simp add: expert_cache_remove_at_def Let_def)
  show "length (xc_resident (expert_cache_remove_at c i)) = 64"
    using n by (simp add: expert_cache_remove_at_def Let_def)
qed

lemma remove_at_frame [simp]:
  "xc_capacity_slots (expert_cache_remove_at c i) = xc_capacity_slots c"
  "xc_expert_bytes (expert_cache_remove_at c i) = xc_expert_bytes c"
  "xc_stats (expert_cache_remove_at c i) = xc_stats c"
  by (simp_all add: expert_cache_remove_at_def Let_def)

lemma push_resident_lru:
  assumes "length (xc_resident c) = 64" "unat (xc_resident_count c) < 64"
  shows "lru (push_resident k c) = lru c @ [k]"
    and "unat (xc_resident_count (push_resident k c)) = Suc (unat (xc_resident_count c))"
    and "length (xc_resident (push_resident k c)) = 64"
proof -
  have inc: "unat (xc_resident_count c + 1) = Suc (unat (xc_resident_count c))"
    using assms(2) by (simp add: unat_word_ariths)
  then show "unat (xc_resident_count (push_resident k c)) = Suc (unat (xc_resident_count c))"
    by (simp add: push_resident_def)
  show "lru (push_resident k c) = lru c @ [k]"
    using assms by (simp add: lru_def push_resident_def inc take_Suc_conv_app_nth)
  show "length (xc_resident (push_resident k c)) = 64"
    using assms by (simp add: push_resident_def)
qed

lemma push_resident_frame [simp]:
  "xc_capacity_slots (push_resident k c) = xc_capacity_slots c"
  "xc_expert_bytes (push_resident k c) = xc_expert_bytes c"
  "xc_stats (push_resident k c) = xc_stats c"
  by (simp_all add: push_resident_def)

lemma count_frame [simp]:
  "lru (count_hit c) = lru c" "lru (count_miss c) = lru c" "lru (count_eviction c) = lru c"
  "slots (count_hit c) = slots c" "slots (count_miss c) = slots c"
  "slots (count_eviction c) = slots c"
  "cache_wf (count_hit c) = cache_wf c" "cache_wf (count_miss c) = cache_wf c"
  "cache_wf (count_eviction c) = cache_wf c"
  by (simp_all add: count_hit_def count_miss_def count_eviction_def cache_wf_def lru_def slots_def)

lemma count_stats [simp]:
  "xc_stats (count_hit c) = (xc_stats c)\<lparr>xs_hits := xs_hits (xc_stats c) + 1\<rparr>"
  "xc_stats (count_miss c) = (xc_stats c)\<lparr>xs_misses := xs_misses (xc_stats c) + 1,
     xs_pread_bytes := xs_pread_bytes (xc_stats c) + xc_expert_bytes c\<rparr>"
  "xc_stats (count_eviction c) = (xc_stats c)\<lparr>xs_evictions := xs_evictions (xc_stats c) + 1\<rparr>"
  "xc_expert_bytes (count_hit c) = xc_expert_bytes c"
  "xc_expert_bytes (count_miss c) = xc_expert_bytes c"
  "xc_expert_bytes (count_eviction c) = xc_expert_bytes c"
  by (simp_all add: count_hit_def count_miss_def count_eviction_def)

lemma slots_frame [simp]:
  "slots (push_resident k c) = slots c" "slots (expert_cache_remove_at c i) = slots c"
  by (simp_all add: slots_def)

lemma find_resident: "expert_cache_find c k = find_slot (\<lambda>x. x = k) (lru c)"
  by (simp add: expert_cache_find_def lru_def)

lemma found_resident:
  assumes "cache_wf c" and "expert_cache_find c k = Some i"
  shows "i < length (lru c)" and "lru c ! i = k"
    and "take i (lru c) @ drop (Suc i) (lru c) = remove1 k (lru c)"
proof -
  show i: "i < length (lru c)" and k: "lru c ! i = k"
    using assms(2) by (auto simp: find_resident dest: find_slot_SomeD)
  have "distinct (lru c)" using assms(1) by (simp add: cache_wf_def)
  moreover have "lru c = take i (lru c) @ k # drop (Suc i) (lru c)"
    using i k id_take_nth_drop by blast
  ultimately have "k \<notin> set (take i (lru c))" by (metis disjoint_insert(1) distinct_append list.simps(15))
  then show "take i (lru c) @ drop (Suc i) (lru c) = remove1 k (lru c)"
    using \<open>lru c = take i (lru c) @ k # drop (Suc i) (lru c)\<close> by (metis remove1.simps(2) remove1_append)
qed

lemma lru_touch_distinct: "distinct xs \<Longrightarrow> distinct (lru_touch n k xs)"
  by (auto simp: lru_touch_def distinct_tl dest: list.set_sel(2) [rotated])
     (metis list.sel(2) list.set_sel(2))+

lemma lru_touch_length:
  "0 < n \<Longrightarrow> length xs \<le> n \<Longrightarrow> length (lru_touch n k xs) \<le> n"
  by (auto simp: lru_touch_def length_remove1)

lemma touch_hit:
  assumes wf: "cache_wf c" and found: "expert_cache_find c k = Some i"
  defines "c' \<equiv> push_resident k (expert_cache_remove_at c i)"
  shows "cache_wf c' \<and> lru c' = lru_touch (slots c) k (lru c)"
proof -
  note f = found_resident [OF wf found]
  note r = remove_at_lru [OF wf f(1)]
  have n: "unat (xc_resident_count c) \<le> 64" "0 < unat (xc_resident_count c)"
    "unat (xc_resident_count c) \<le> slots c"
    using wf f(1) lru_length [OF wf] by (auto simp: cache_wf_def)
  have room: "unat (xc_resident_count (expert_cache_remove_at c i)) < 64" using r(2) n by simp
  note p = push_resident_lru [OF r(3) room, of k]
  have mem: "k \<in> set (lru c)" using f(1,2) by auto
  have eq: "lru c' = lru_touch (slots c) k (lru c)"
    using p(1) r(1) f(3) mem by (simp add: c'_def lru_touch_def)
  moreover have "distinct (lru_touch (slots c) k (lru c))"
    using wf by (simp add: lru_touch_distinct cache_wf_def)
  ultimately show ?thesis
    using p(2,3) r(2) n wf by (simp add: c'_def cache_wf_def)
qed

lemma touch_miss:
  assumes wf: "cache_wf c" and miss: "expert_cache_find c k = None"
  defines "full \<equiv> xc_resident_count c \<ge> xc_capacity_slots c \<and> xc_resident_count c > 0"
  defines "room \<equiv> (if full then expert_cache_remove_at c 0 else c)"
  shows "xc_resident_count room < xc_capacity_slots room"
    and "cache_wf (push_resident k room)"
    and "lru (push_resident k room) = lru_touch (slots c) k (lru c)"
    and "full \<longleftrightarrow> slots c \<le> length (lru c)"
proof -
  have cnt: "unat (xc_resident_count c) \<le> slots c" "0 < slots c" "slots c \<le> 64"
    and arr: "length (xc_resident c) = 64"
    using wf by (auto simp: cache_wf_def)
  show full: "full \<longleftrightarrow> slots c \<le> length (lru c)"
    using cnt lru_length [OF wf] unat_gt_0 [of "xc_resident_count c"]
    by (auto simp: full_def slots_def word_le_nat_alt word_gt_0)
  have notin: "k \<notin> set (lru c)" using miss by (auto simp: find_resident find_slot_None_iff)
  have r: "lru room = (if slots c \<le> length (lru c) then tl (lru c) else lru c)"
    "unat (xc_resident_count room) < slots c" "length (xc_resident room) = 64"
    "slots room = slots c"
  proof -
    have z: "full \<Longrightarrow> 0 < length (lru c)" using full cnt by linarith
    show "lru room = (if slots c \<le> length (lru c) then tl (lru c) else lru c)"
      using remove_at_lru(1) [OF wf z] full by (simp add: room_def drop_Suc)
    show "unat (xc_resident_count room) < slots c"
      using remove_at_lru(2) [OF wf z] full z cnt lru_length [OF wf] by (auto simp: room_def)
    show "length (xc_resident room) = 64" "slots room = slots c"
      using remove_at_lru(3) [OF wf z] arr by (simp_all add: room_def)
  qed
  show "xc_resident_count room < xc_capacity_slots room"
    using r(2,4) by (simp add: slots_def word_less_nat_alt)
  have lt: "unat (xc_resident_count room) < 64" using r(2) cnt by simp
  note p = push_resident_lru [OF r(3) lt, of k]
  show eq: "lru (push_resident k room) = lru_touch (slots c) k (lru c)"
    using p(1) r(1) notin by (simp add: lru_touch_def)
  have "distinct (lru_touch (slots c) k (lru c))"
    using wf by (simp add: lru_touch_distinct cache_wf_def)
  then show "cache_wf (push_resident k room)"
    using p(2,3) r(2,4) cnt eq by (simp add: cache_wf_def)
qed

lemma count_commute:
  "xc_resident_count (count_miss c) = xc_resident_count c"
  "xc_capacity_slots (count_miss c) = xc_capacity_slots c"
  "expert_cache_remove_at (count_miss c) i = count_miss (expert_cache_remove_at c i)"
  "push_resident k (count_miss c) = count_miss (push_resident k c)"
  "push_resident k (count_eviction c) = count_eviction (push_resident k c)"
  "xc_resident_count (count_eviction c) = xc_resident_count c"
  "xc_capacity_slots (count_eviction c) = xc_capacity_slots c"
  "count_eviction (count_miss c) = count_miss (count_eviction c)"
  by (simp_all add: count_miss_def count_eviction_def expert_cache_remove_at_def push_resident_def
      Let_def)

text \<open>A touch, with its counters, against the list in order of recency.\<close>

lemma touch_step:
  assumes wf: "cache_wf c" and t: "mem_service_expert_cache_touch c l e = (hit, c')"
  defines "k \<equiv> expert_cache_key l e"
  shows "cache_wf c'" and "lru c' = lru_touch (slots c) k (lru c)"
    and "hit \<longleftrightarrow> k \<in> set (lru c)" and "slots c' = slots c"
    and "xc_expert_bytes c' = xc_expert_bytes c"
    and "xs_hits (xc_stats c') = xs_hits (xc_stats c) + (if hit then 1 else 0)"
    and "xs_misses (xc_stats c') = xs_misses (xc_stats c) + (if hit then 0 else 1)"
    and "xs_evictions (xc_stats c') =
           xs_evictions (xc_stats c) + (if \<not> hit \<and> slots c \<le> length (lru c) then 1 else 0)"
    and "xs_pread_bytes (xc_stats c') =
           xs_pread_bytes (xc_stats c) + (if hit then 0 else xc_expert_bytes c)"
proof -
  have mem: "expert_cache_find c k \<noteq> None \<longleftrightarrow> k \<in> set (lru c)"
    by (auto simp: find_resident find_slot_None_iff)
  have "cache_wf c' \<and> lru c' = lru_touch (slots c) k (lru c) \<and> (hit \<longleftrightarrow> k \<in> set (lru c)) \<and>
    slots c' = slots c \<and> xc_expert_bytes c' = xc_expert_bytes c \<and>
    xs_hits (xc_stats c') = xs_hits (xc_stats c) + (if hit then 1 else 0) \<and>
    xs_misses (xc_stats c') = xs_misses (xc_stats c) + (if hit then 0 else 1) \<and>
    xs_evictions (xc_stats c') =
      xs_evictions (xc_stats c) + (if \<not> hit \<and> slots c \<le> length (lru c) then 1 else 0) \<and>
    xs_pread_bytes (xc_stats c') =
      xs_pread_bytes (xc_stats c) + (if hit then 0 else xc_expert_bytes c)"
  proof (cases "expert_cache_find c k")
    case (Some i)
    then have "hit" "c' = count_hit (push_resident k (expert_cache_remove_at c i))"
      using t by (auto simp: mem_service_expert_cache_touch_def Let_def k_def)
    then show ?thesis using touch_hit [OF wf Some] mem Some by simp
  next
    case None
    let ?full = "xc_resident_count c \<ge> xc_capacity_slots c \<and> xc_resident_count c > 0"
    let ?room = "if ?full then expert_cache_remove_at c 0 else c"
    note m = touch_miss [OF wf None]
    have c': "c' = count_miss (if ?full then count_eviction (push_resident k ?room)
                               else push_resident k ?room)" and "\<not> hit"
      using t None m(1)
      by (auto simp: mem_service_expert_cache_touch_def Let_def k_def count_commute split: if_splits)
    have full: "?full \<longleftrightarrow> slots c \<le> length (lru c)" by (rule m(4))
    show ?thesis
      using m(2,3) mem None \<open>\<not> hit\<close> unfolding c' full by (cases "slots c \<le> length (lru c)") auto
  qed
  then show "cache_wf c'" and "lru c' = lru_touch (slots c) k (lru c)"
    and "hit \<longleftrightarrow> k \<in> set (lru c)" and "slots c' = slots c"
    and "xc_expert_bytes c' = xc_expert_bytes c"
    and "xs_hits (xc_stats c') = xs_hits (xc_stats c) + (if hit then 1 else 0)"
    and "xs_misses (xc_stats c') = xs_misses (xc_stats c) + (if hit then 0 else 1)"
    and "xs_evictions (xc_stats c') =
           xs_evictions (xc_stats c) + (if \<not> hit \<and> slots c \<le> length (lru c) then 1 else 0)"
    and "xs_pread_bytes (xc_stats c') =
           xs_pread_bytes (xc_stats c) + (if hit then 0 else xc_expert_bytes c)"
    by blast+
qed

section \<open>Traces\<close>

definition run_touches :: "mem_service_expert_cache \<Rightarrow> (u32 \<times> u32) list \<Rightarrow> mem_service_expert_cache" where
  "run_touches c trace =
     foldl (\<lambda>c (l, e). snd (mem_service_expert_cache_touch c l e)) c trace"

lemma run_touches_Nil [simp]: "run_touches c [] = c"
  by (simp add: run_touches_def)

lemma run_touches_snoc [simp]:
  "run_touches c (trace @ [(l, e)]) =
     snd (mem_service_expert_cache_touch (run_touches c trace) l e)"
  by (simp add: run_touches_def)

text \<open>A cache that has only been initialised and preloaded.\<close>

definition fresh :: "mem_service_expert_cache \<Rightarrow> bool" where
  "fresh c \<longleftrightarrow> cache_wf c \<and> xc_stats c = zero_expert_stats"

lemma init_fresh [simp]: "fresh (mem_service_expert_cache_init n b)"
  by (auto simp: fresh_def cache_wf_def mem_service_expert_cache_init_def lru_def slots_def
      MEM_SERVICE_EXPERT_CACHE_DEFAULT_SLOTS_def unat_gt_0 word_less_nat_alt word_le_nat_alt)

lemma preload_push:
  assumes "cache_wf c" "expert_cache_find c k = None" "xc_resident_count c < xc_capacity_slots c"
  shows "cache_wf (push_resident k c)" and "lru (push_resident k c) = lru c @ [k]"
proof -
  have lt: "unat (xc_resident_count c) < slots c" "slots c \<le> 64" "length (xc_resident c) = 64"
    using assms by (auto simp: cache_wf_def slots_def word_less_nat_alt)
  have lt64: "unat (xc_resident_count c) < 64" using lt by simp
  note p = push_resident_lru [OF lt(3) lt64, of k]
  show "lru (push_resident k c) = lru c @ [k]" by (rule p(1))
  then show "cache_wf (push_resident k c)"
    using assms p lt by (auto simp: cache_wf_def find_resident find_slot_None_iff)
qed

lemma preload_fresh:
  "fresh c \<Longrightarrow> fresh (mem_service_expert_cache_preload c pairs) \<and>
     xc_expert_bytes (mem_service_expert_cache_preload c pairs) = xc_expert_bytes c \<and>
     slots (mem_service_expert_cache_preload c pairs) = slots c"
proof (induction c pairs rule: mem_service_expert_cache_preload.induct)
  case (2 c l e pairs)
  then show ?case
    by (auto simp: mem_service_expert_cache_preload.simps(2) Let_def fresh_def preload_push)
qed simp

text \<open>What the counters of a cache say after a number of touches.\<close>

definition accounts ::
    "mem_service_expert_cache \<Rightarrow> nat \<Rightarrow> mem_service_expert_cache \<Rightarrow> bool" where
  "accounts c touches d \<longleftrightarrow>
     cache_wf d \<and> slots d = slots c \<and> xc_expert_bytes d = xc_expert_bytes c \<and>
     unat (xs_hits (xc_stats d)) + unat (xs_misses (xc_stats d)) = touches \<and>
     unat (xs_pread_bytes (xc_stats d)) =
       unat (xs_misses (xc_stats d)) * unat (xc_expert_bytes c) \<and>
     unat (xs_evictions (xc_stats d)) + length (lru d) =
       unat (xs_misses (xc_stats d)) + length (lru c)"

lemma unat_inc: "unat (x::u64) < 2 ^ 64 - 1 \<Longrightarrow> unat (x + 1) = unat x + 1"
  by (simp add: unat_word_ariths)

lemma lru_touch_length_eq:
  "length xs \<le> n \<Longrightarrow> 0 < n \<Longrightarrow>
   length (lru_touch n k xs) = (if k \<in> set xs \<or> n \<le> length xs then length xs else length xs + 1)"
  by (auto simp: lru_touch_def length_remove1 dest: length_pos_if_in_set)

lemma touch_accounts:
  assumes acc: "accounts c n d" and n: "n < 2 ^ 63"
    and bytes: "(n + 1) * unat (xc_expert_bytes c) < 2 ^ 64" and evs: "length (lru c) \<le> 64"
    and t: "mem_service_expert_cache_touch d l e = (hit, d')"
  shows "accounts c (n + 1) d'"
proof -
  have wf: "cache_wf d" using acc by (simp add: accounts_def)
  note s = touch_step [OF wf t]
  let ?S = "xc_stats d"
  have lens: "length (lru d) \<le> slots d" "0 < slots d"
    using wf lru_length [OF wf] by (auto simp: cache_wf_def)
  have lt: "unat (xs_hits ?S) < 2 ^ 64 - 1" "unat (xs_misses ?S) < 2 ^ 64 - 1"
    "unat (xs_evictions ?S) < 2 ^ 64 - 1" "unat (xs_misses ?S) + 1 \<le> n + 1"
    using acc n evs by (auto simp: accounts_def)
  have "(unat (xs_misses ?S) + 1) * unat (xc_expert_bytes c) < 2 ^ 64"
    using bytes mult_le_mono1 [OF lt(4), of "unat (xc_expert_bytes c)"] by linarith
  then have "unat (xs_pread_bytes ?S) + unat (xc_expert_bytes d) < 2 ^ 64"
    using acc by (simp add: accounts_def)
  then have pread: "unat (xs_pread_bytes ?S + xc_expert_bytes d) =
      unat (xs_misses ?S) * unat (xc_expert_bytes c) + unat (xc_expert_bytes c)"
    using acc by (subst unat_plus_if_size) (simp add: accounts_def word_size)
  have lru': "length (lru d') =
      (if hit \<or> slots d \<le> length (lru d) then length (lru d) else length (lru d) + 1)"
    using s(2,3) lru_touch_length_eq [OF lens] by simp
  show ?thesis
  proof (cases hit)
    case True
    then show ?thesis using acc s(1,4-9) lru' lt by (simp add: accounts_def unat_inc)
  next
    case False
    then show ?thesis
      using acc s(1,4-9) lru' lt pread by (cases "slots d \<le> length (lru d)") (auto simp: accounts_def unat_inc)
  qed
qed

lemma fresh_accounts:
  assumes fresh: "fresh c" 
  shows "length trace < 2 ^ 63 \<Longrightarrow> length trace * unat (xc_expert_bytes c) < 2 ^ 64 \<Longrightarrow>
    accounts c (length trace) (run_touches c trace)"
proof (induction trace rule: rev_induct)
  case Nil
  then show ?case using fresh by (simp add: accounts_def fresh_def zero_expert_stats_def)
next
  case (snoc p trace)
  obtain l e where p: "p = (l, e)" by (cases p)
  obtain hit c' where t: "mem_service_expert_cache_touch (run_touches c trace) l e = (hit, c')"
    by fastforce
  have "length trace * unat (xc_expert_bytes c) \<le> length (trace @ [p]) * unat (xc_expert_bytes c)"
    by simp
  then have acc: "accounts c (length trace) (run_touches c trace)"
    using snoc by (metis (no_types, lifting) add_lessD1 le_less_trans length_append)
  have "length (lru c) \<le> 64"
    using fresh lru_length [of c] by (auto simp: fresh_def cache_wf_def)
  then show ?case using touch_accounts [OF acc _ _ _ t] snoc.prems p t by simp
qed

section \<open>A larger cache\<close>

text \<open>The smaller cache holds a subsequence of what the larger one holds, and all of it while it is
  not full.\<close>

definition lru_below :: "nat \<Rightarrow> 'a list \<Rightarrow> 'a list \<Rightarrow> bool" where
  "lru_below m xs ys \<longleftrightarrow> subseq xs ys \<and> distinct ys \<and> length xs \<le> m \<and> (length xs < m \<longrightarrow> xs = ys)"

lemma subseq_distinct: "subseq xs ys \<Longrightarrow> distinct ys \<Longrightarrow> distinct xs"
  by (auto simp: subseq_conv_nths)

lemma subseq_subset: "subseq xs ys \<Longrightarrow> set xs \<subseteq> set ys"
  by (auto simp: subseq_conv_nths dest: in_set_nthsD)

lemma subseq_remove1: "distinct ys \<Longrightarrow> subseq xs ys \<Longrightarrow> subseq (remove1 k xs) (remove1 k ys)"
  by (simp add: distinct_remove1_removeAll subseq_distinct removeAll_filter_not_eq)

lemma subseq_tl: "subseq xs ys \<Longrightarrow> subseq (tl xs) (tl ys)"
  by (cases xs; cases ys) (auto simp: subseq_Cons2_iff dest: subseq_Cons' split: if_splits)

lemma subseq_tl_left: "subseq xs ys \<Longrightarrow> subseq (tl xs) ys"
  by (cases xs) (auto dest: subseq_Cons')

lemma lru_below_touch:
  assumes below: "lru_below m xs ys" and mn: "0 < m" "m \<le> n" and len: "length ys \<le> n"
  shows "lru_below m (lru_touch m k xs) (lru_touch n k ys)"
proof -
  have sub: "subseq xs ys" and dist: "distinct ys" "distinct xs" and lm: "length xs \<le> m"
    and full: "length xs < m \<Longrightarrow> xs = ys"
    using below by (auto simp: lru_below_def dest: subseq_distinct)
  have dy: "distinct (lru_touch n k ys)" using dist by (simp add: lru_touch_distinct)
  have le: "length (lru_touch m k xs) \<le> m" using lru_touch_length [OF mn(1) lm] .
  have subset: "set xs \<subseteq> set ys" using sub by (rule subseq_subset)
  consider (both) "k \<in> set xs" | (large) "k \<notin> set xs" "k \<in> set ys" | (none) "k \<notin> set ys"
    using subset by auto
  then show ?thesis
  proof cases
    case both
    then show ?thesis
      using subset sub dist full dy le
      by (auto simp: lru_below_def lru_touch_def subseq_remove1 length_remove1)
  next
    case large
    then have "length xs = m" using full lm by fastforce
    moreover have "subseq (tl xs) (remove1 k ys)"
      using subseq_remove1 [OF dist(1) sub, of k] large
      by (simp add: remove1_idem subseq_tl_left)
    ultimately show ?thesis
      using large dy le mn by (auto simp: lru_below_def lru_touch_def)
  next
    case none
    then have nx: "k \<notin> set xs" using subset by auto
    show ?thesis
    proof (cases "length xs < m")
      case True
      then show ?thesis using full nx mn dy le by (auto simp: lru_below_def lru_touch_def)
    next
      case False
      then have "length xs = m" using lm by simp
      moreover have "subseq (tl xs) (tl ys)" "subseq (tl xs) ys"
        using sub by (simp_all add: subseq_tl subseq_tl_left)
      ultimately show ?thesis
        using none nx dy le mn by (auto simp: lru_below_def lru_touch_def)
    qed
  qed
qed

lemma has_room: "cache_wf c \<Longrightarrow> xc_resident_count c < xc_capacity_slots c \<longleftrightarrow> length (lru c) < slots c"
  by (simp add: lru_length slots_def word_less_nat_alt)

lemma preload_step:
  fixes l e :: u32
  assumes wf: "cache_wf c" and room: "length (lru c) < slots c"
  defines "k \<equiv> expert_cache_key l e"
  defines "c' \<equiv> (if expert_cache_find c k \<noteq> None then c else push_resident k c)"
  shows "mem_service_expert_cache_preload c ((l, e) # ps) = mem_service_expert_cache_preload c' ps"
    and "cache_wf c'" and "slots c' = slots c"
    and "lru c' = (if k \<in> set (lru c) then lru c else lru c @ [k])"
  using wf room preload_push [of c k]
  by (auto simp: mem_service_expert_cache_preload.simps(2) has_room c'_def k_def Let_def find_resident find_slot_None_iff)

lemma preload_full: "cache_wf c \<Longrightarrow> length (lru c) = slots c \<Longrightarrow> mem_service_expert_cache_preload c ps = c"
  by (cases "(c, ps)" rule: mem_service_expert_cache_preload.cases) (auto simp: mem_service_expert_cache_preload.simps(2) has_room)

lemma lru_below_preload:
  "\<lbrakk>cache_wf c; cache_wf d; slots c \<le> slots d; lru_below (slots c) (lru c) (lru d)\<rbrakk> \<Longrightarrow>
   lru_below (slots c) (lru (mem_service_expert_cache_preload c ps))
                       (lru (mem_service_expert_cache_preload d ps))"
proof (induction ps arbitrary: c d)
  case Nil
  then show ?case by simp
next
  case (Cons p ps)
  obtain l e where p: "p = (l, e)" by (cases p)
  have len: "length (lru c) \<le> slots c" "length (lru d) \<le> slots d"
    using Cons.prems by (auto simp: lru_length cache_wf_def)
  consider (dfull) "length (lru d) = slots d" | (cfull) "length (lru c) = slots c" "length (lru d) < slots d"
    | (room) "length (lru c) < slots c" "length (lru d) < slots d"
    using len by linarith
  then show ?case
  proof cases
    case dfull
    then have "length (lru c) = slots c"
      using Cons.prems(3,4) len by (auto simp: lru_below_def)
    then show ?thesis using dfull Cons.prems by (simp add: preload_full)
  next
    case cfull
    note d = preload_step [OF Cons.prems(2) cfull(2), of l e]
    show ?thesis
      using Cons.IH [OF Cons.prems(1) d(2)] Cons.prems cfull d
      by (auto simp: p preload_full lru_below_def subseq_rev_drop_many)
  next
    case room
    note c = preload_step [OF Cons.prems(1) room(1), of l e]
      and d = preload_step [OF Cons.prems(2) room(2), of l e]
    have "lru c = lru d" using Cons.prems(4) room by (simp add: lru_below_def)
    then have "lru_below (slots c) (if expert_cache_key l e \<in> set (lru c) then lru c else lru c @ [expert_cache_key l e])
       (if expert_cache_key l e \<in> set (lru d) then lru d else lru d @ [expert_cache_key l e])"
      using Cons.prems(4) room by (auto simp: lru_below_def)
    then show ?thesis using Cons.IH [OF c(2) d(2)] Cons.prems(3) c d by (simp add: p)
  qed
qed

text \<open>Two caches that run the same trace.\<close>

lemma lru_below_run:
  assumes "fresh c" "fresh d" "slots c \<le> slots d" "xc_expert_bytes d = xc_expert_bytes c"
    and "lru_below (slots c) (lru c) (lru d)"
  shows "length trace < 2 ^ 63 \<Longrightarrow> length trace * unat (xc_expert_bytes c) < 2 ^ 64 \<Longrightarrow>
     lru_below (slots c) (lru (run_touches c trace)) (lru (run_touches d trace)) \<and>
     unat (xs_hits (xc_stats (run_touches c trace))) \<le> unat (xs_hits (xc_stats (run_touches d trace)))"
proof (induction trace rule: rev_induct)
  case Nil
  then show ?case using assms by (simp add: fresh_def)
next
  case (snoc p trace)
  obtain l e where p: "p = (l, e)" by (cases p)
  let ?c = "run_touches c trace" and ?d = "run_touches d trace" and ?k = "expert_cache_key l e"
  obtain hc c' where tc: "mem_service_expert_cache_touch ?c l e = (hc, c')" by fastforce
  obtain hd d' where td: "mem_service_expert_cache_touch ?d l e = (hd, d')" by fastforce
  have "length trace * unat (xc_expert_bytes c) \<le> length (trace @ [p]) * unat (xc_expert_bytes c)"
    by simp
  then have small: "length trace < 2 ^ 63" "length trace * unat (xc_expert_bytes c) < 2 ^ 64"
    using snoc.prems by auto
  have ac: "accounts c (length trace) ?c" and ad: "accounts d (length trace) ?d"
    using fresh_accounts [OF assms(1)] fresh_accounts [OF assms(2)] small assms(4) by simp_all
  then have wf: "cache_wf ?c" "cache_wf ?d" "slots ?c = slots c" "slots ?d = slots d"
    by (simp_all add: accounts_def)
  note sc = touch_step [OF wf(1) tc] and sd = touch_step [OF wf(2) td]
  have ih: "lru_below (slots c) (lru ?c) (lru ?d)"
    "unat (xs_hits (xc_stats ?c)) \<le> unat (xs_hits (xc_stats ?d))"
    using snoc.IH small by simp_all
  have "lru_below (slots c) (lru c') (lru d')"
    unfolding sc(2) sd(2) wf(3,4)
    using ih(1) wf assms(3) lru_length [OF wf(2)] by (intro lru_below_touch) (auto simp: cache_wf_def)
  moreover have "hc \<longrightarrow> hd"
    using ih(1) sc(3) sd(3) subseq_subset by (fastforce simp: lru_below_def)
  then have "unat (xs_hits (xc_stats c')) \<le> unat (xs_hits (xc_stats d'))"
  proof -
    have "unat (xs_hits (xc_stats ?c)) < 2 ^ 64 - 1" "unat (xs_hits (xc_stats ?d)) < 2 ^ 64 - 1"
      using ac ad small(1) by (auto simp: accounts_def)
    then show ?thesis using \<open>hc \<longrightarrow> hd\<close> sc(6) sd(6) ih(2) by (auto simp: unat_inc)
  qed
  ultimately show ?case using tc td by (simp add: p)
qed

lemma estimated_latency:
  assumes "unat (xs_hits s) + unat (xs_misses s) = n" "n < 2 ^ 63"
    and "unat (xs_pread_bytes s) + 4095 < 2 ^ 64"
  shows "unat (xs_estimated_latency_us (expert_cache_fill_latency s)) =
    max (2 * n) ((unat (xs_pread_bytes s) + 4095) div 4096)"
proof -
  have "unat (xs_hits s + xs_misses s) = n"
    using assms(1,2) by (simp add: unat_word_ariths)
  then have compute: "unat ((xs_hits s + xs_misses s) * 2) = 2 * n"
    using assms(2) by (subst unat_word_ariths) simp
  have load: "unat (expert_cache_ceil_div_u64 (xs_pread_bytes s) 4096) =
      (unat (xs_pread_bytes s) + 4095) div 4096"
  proof (cases "xs_pread_bytes s = 0")
    case False
    have "xs_pread_bytes s + 4096 - 1 = 4095 + xs_pread_bytes s" by simp
    moreover have "unat (4095 + xs_pread_bytes s) = unat (xs_pread_bytes s) + 4095"
      using assms(3) by (simp add: unat_word_ariths)
    ultimately show ?thesis
      using False by (simp add: expert_cache_ceil_div_u64_def unat_div)
  qed (simp add: expert_cache_ceil_div_u64_def)
  show ?thesis
    using compute load
    by (simp add: expert_cache_fill_latency_def Let_def word_less_nat_alt
        MEM_SERVICE_EXPERT_CACHE_COMPUTE_US_PER_TOUCH_def
        MEM_SERVICE_EXPERT_CACHE_LOAD_BYTES_PER_US_def max_def)
qed

lemma stats_out_counters [simp]:
  "xs_hits (mem_service_expert_cache_stats_out c) = xs_hits (xc_stats c)"
  "xs_pread_bytes (mem_service_expert_cache_stats_out c) = xs_pread_bytes (xc_stats c)"
  by (simp_all add: mem_service_expert_cache_stats_out_def expert_cache_fill_latency_def Let_def)

section \<open>Properties\<close>

text \<open>A touch treats the array as a list of keys in order of recency: it answers whether the
  expert is resident, moves the key to the recent end, makes room by dropping the least recently
  touched key only when all slots are taken, and counts exactly one hit or one miss, the bytes a
  miss loads and the key it drops.\<close>

theorem expert_cache_touch_refines:
  assumes "cache_wf c" and "mem_service_expert_cache_touch c layer_id expert_id = (hit, c')"
  shows "cache_wf c' \<and>
    (hit \<longleftrightarrow> expert_cache_key layer_id expert_id \<in> set (lru c)) \<and>
    lru c' = lru_touch (slots c) (expert_cache_key layer_id expert_id) (lru c) \<and>
    xs_hits (xc_stats c') = xs_hits (xc_stats c) + (if hit then 1 else 0) \<and>
    xs_misses (xc_stats c') = xs_misses (xc_stats c) + (if hit then 0 else 1) \<and>
    xs_evictions (xc_stats c') =
      xs_evictions (xc_stats c) + (if \<not> hit \<and> length (lru c) = slots c then 1 else 0) \<and>
    xs_pread_bytes (xc_stats c') =
      xs_pread_bytes (xc_stats c) + (if hit then 0 else xc_expert_bytes c)"
  using touch_step [OF assms] assms(1) lru_length [OF assms(1)] by (auto simp: cache_wf_def)

theorem expert_cache_touch_refines_witness:
  "\<exists>c'. mem_service_expert_cache_touch
      (mem_service_expert_cache_preload (mem_service_expert_cache_init 2 4096) [(0, 7), (1, 9)]) 2 5 =
      (False, c') \<and> lru c' = [1009, 2005] \<and> xs_evictions (xc_stats c') = 1"
proof -
  let ?c = "mem_service_expert_cache_preload (mem_service_expert_cache_init 2 4096) [(0, 7), (1, 9)]"
  have wf: "cache_wf ?c" using preload_fresh [OF init_fresh] fresh_def by blast
  have l: "lru ?c = [7, 1009]" "slots ?c = 2" "xs_evictions (xc_stats ?c) = 0" by code_simp+
  have k: "expert_cache_key 2 5 = 2005" by code_simp
  obtain hit c' where t: "mem_service_expert_cache_touch ?c 2 5 = (hit, c')" by fastforce
  from expert_cache_touch_refines [OF wf t] l k t show ?thesis
    by (auto simp: lru_touch_def)
qed

text \<open>C15. The more slots the better: after the same hot list and the same trace of touches, a
  cache with more slots holds every expert the smaller one holds, has had at least as many hits, has
  loaded at most as many bytes, and its estimated latency is at most that of the smaller one. The
  trace is bounded so that no counter wraps around.\<close>

theorem larger_expert_cache_no_slower:
  fixes m n :: u32 and b :: u64 and hotlist trace :: "(u32 \<times> u32) list"
  assumes "0 < m" "m \<le> n" "n \<le> 64"
    and "length trace < 2 ^ 63" "length trace * unat b + 4095 < 2 ^ 64"
  defines "small \<equiv> run_touches (mem_service_expert_cache_preload
                      (mem_service_expert_cache_init m b) hotlist) trace"
    and "large \<equiv> run_touches (mem_service_expert_cache_preload
                      (mem_service_expert_cache_init n b) hotlist) trace"
  shows "set (lru small) \<subseteq> set (lru large) \<and>
    xs_hits (mem_service_expert_cache_stats_out small) \<le> xs_hits (mem_service_expert_cache_stats_out large) \<and>
    xs_pread_bytes (mem_service_expert_cache_stats_out large) \<le>
      xs_pread_bytes (mem_service_expert_cache_stats_out small) \<and>
    xs_estimated_latency_us (mem_service_expert_cache_stats_out large) \<le>
      xs_estimated_latency_us (mem_service_expert_cache_stats_out small)"
proof -
  let ?i = "\<lambda>m. mem_service_expert_cache_init m b"
  let ?p = "\<lambda>m. mem_service_expert_cache_preload (?i m) hotlist"
  have init: "slots (?i k) = unat k" "lru (?i k) = []" "xc_expert_bytes (?i k) = b"
    if "0 < k" "k \<le> 64" for k
    using that by (auto simp: mem_service_expert_cache_init_def slots_def lru_def
        MEM_SERVICE_EXPERT_CACHE_DEFAULT_SLOTS_def word_gt_0)
  have m: "0 < m" "m \<le> 64" and n: "0 < n" "n \<le> 64" using assms(1-3) by auto
  have fr: "fresh (?p m)" "fresh (?p n)" and sl: "slots (?p m) = unat m" "slots (?p n) = unat n"
    and eb: "xc_expert_bytes (?p m) = b" "xc_expert_bytes (?p n) = b"
    using preload_fresh [OF init_fresh] init [OF m] init [OF n] by simp_all
  have mn: "unat m \<le> unat n" using assms(2) by (simp add: word_le_nat_alt)
  have below: "lru_below (unat m) (lru (?p m)) (lru (?p n))"
    using lru_below_preload [of "?i m" "?i n" hotlist] init_fresh init [OF m] init [OF n] mn
    by (simp add: fresh_def lru_below_def)
  have len: "length trace < 2 ^ 63" "length trace * unat b < 2 ^ 64" using assms(4,5) by simp_all
  have run: "lru_below (unat m) (lru small) (lru large)"
    "unat (xs_hits (xc_stats small)) \<le> unat (xs_hits (xc_stats large))"
    using lru_below_run [OF fr, of trace] sl mn eb below len by (simp_all add: small_def large_def)
  have acc: "accounts (?p m) (length trace) small" "accounts (?p n) (length trace) large"
    using fresh_accounts [OF fr(1)] fresh_accounts [OF fr(2)] eb len
    by (simp_all add: small_def large_def)
  then have misses: "unat (xs_misses (xc_stats large)) \<le> unat (xs_misses (xc_stats small))"
    "unat (xs_misses (xc_stats small)) \<le> length trace"
    using run(2) by (simp_all add: accounts_def)
  then have pread: "unat (xs_pread_bytes (xc_stats large)) \<le> unat (xs_pread_bytes (xc_stats small))"
    "unat (xs_pread_bytes (xc_stats small)) \<le> length trace * unat b"
    using acc by (simp_all add: accounts_def eb)
  have lat: "unat (xs_estimated_latency_us (mem_service_expert_cache_stats_out c)) =
      max (2 * length trace) ((unat (xs_pread_bytes (xc_stats c)) + 4095) div 4096)"
    if "accounts d (length trace) c" "unat (xs_pread_bytes (xc_stats c)) \<le> length trace * unat b" for c d
    using estimated_latency [of "xc_stats c" "length trace"] that assms(4,5)
    by (simp add: mem_service_expert_cache_stats_out_def accounts_def)
  have "unat (xs_pread_bytes (xc_stats large)) \<le> length trace * unat b" using pread by simp
  note lat [OF acc(1) pread(2)] lat [OF acc(2) this]
  then have "xs_estimated_latency_us (mem_service_expert_cache_stats_out large) \<le>
      xs_estimated_latency_us (mem_service_expert_cache_stats_out small)"
    using pread(1) by (simp add: word_le_nat_alt max.coboundedI2 div_le_mono)
  moreover have "set (lru small) \<subseteq> set (lru large)"
    using run(1) subseq_subset by (auto simp: lru_below_def)
  ultimately show ?thesis
    using run(2) pread(1) by (simp add: word_le_nat_alt stats_out_counters)
qed

theorem larger_expert_cache_no_slower_witness:
  "set (lru (run_touches (mem_service_expert_cache_preload
       (mem_service_expert_cache_init 1 4096) [(0, 1)]) [(0, 1), (0, 2), (0, 1)])) \<subseteq>
   set (lru (run_touches (mem_service_expert_cache_preload
       (mem_service_expert_cache_init 2 4096) [(0, 1)]) [(0, 1), (0, 2), (0, 1)]))"
  using larger_expert_cache_no_slower [of 1 2 "[(0, 1), (0, 2), (0, 1)]" 4096 "[(0, 1)]"] by simp

text \<open>The packed key identifies layer and expert only while expert numbers stay below 1000.\<close>

lemma expert_cache_key_injective:
  assumes "expert_cache_key l e = expert_cache_key l' e'" "e < 1000" "e' < 1000"
  shows "l = l' \<and> e = e'"
proof -
  have k: "unat (expert_cache_key l e) = unat l * 1000 + unat e" for l e :: u32
  proof -
    have lt: "unat l < 2 ^ 32" "unat e < 2 ^ 32"
      using unsigned_less [of l, where 'a = nat] unsigned_less [of e, where 'a = nat] by simp_all
    then have "take_bit 64 (unat l) = unat l" "take_bit 64 (unat e) = unat e"
      by (simp_all add: take_bit_nat_eq_self_iff)
    then show ?thesis
      using lt by (simp add: expert_cache_key_def unat_word_ariths unsigned_ucast_eq)
  qed
  have lt: "unat e < 1000" "unat e' < 1000" using assms(2,3) by (simp_all add: word_less_nat_alt)
  have eq: "unat l * 1000 + unat e = unat l' * 1000 + unat e'" using assms(1) k by metis
  have "(unat l * 1000 + unat e) mod 1000 = unat e" "(unat l' * 1000 + unat e') mod 1000 = unat e'"
    using lt by simp_all
  then have "unat e = unat e'" using eq by simp
  moreover from this have "unat l = unat l'" using eq by simp
  ultimately have "unat l = unat l'" "unat e = unat e'" by simp_all
  then show ?thesis by (simp add: word_unat_eq_iff)
qed

lemma expert_cache_key_collides: "expert_cache_key 1 0 = expert_cache_key 0 1000"
  by code_simp

end
