(* ===== verification/Obmm_Spsc.thy ===== *)
theory Obmm_Spsc
  imports Prelude "HOL-Library.Sublist"
begin

text \<open>
  The single-producer single-consumer ring of the OBMM queue library (\<open>libs/obmm_queue\<close>), from which
  the other queues are built. Three views of it:
  \<^item> the operations of the code on the ring in shared memory, with 32-bit counters that wrap around;
  \<^item> the interface \<open>bounded_fifo\<close> they implement, a queue of bounded length;
  \<^item> producer and consumer running concurrently: each load and store of the code is a step of its
    own, and an acquire load may return an older value of the counter of the other side, never one
    older than it has already seen (coherence of a C11 atomic).
\<close>

section \<open>Shared-memory types\<close>

datatype obmm_rc =
  OBMM_OK | E_INVAL | E_AGAIN | E_NOENT | E_EXIST | E_2BIG | E_NODEV | E_PIPE | E_OVERFLOW

definition OBMM_QUEUE_MIN_DEPTH :: u32 where "OBMM_QUEUE_MIN_DEPTH = 64"
definition OBMM_QUEUE_MAX_DEPTH :: u32 where "OBMM_QUEUE_MAX_DEPTH = 65536"

definition OBMM_REGION_QUEUE :: u16 where "OBMM_REGION_QUEUE = 1"
definition OBMM_REGION_RX_ARENA :: u16 where "OBMM_REGION_RX_ARENA = 2"
definition OBMM_REGION_TX_ARENA :: u16 where "OBMM_REGION_TX_ARENA = 3"
definition OBMM_REGION_DATA_SLAB :: u16 where "OBMM_REGION_DATA_SLAB = 4"
definition OBMM_REGION_MEM_SERVICE_PAYLOAD :: u16 where "OBMM_REGION_MEM_SERVICE_PAYLOAD = 5"
definition OBMM_REGION_SPMC_STREAM :: u16 where "OBMM_REGION_SPMC_STREAM = 6"

record obmm_region_dirent =
  de_region_id :: u32
  de_kind :: u16
  de_peer_node_id :: u16
  de_offset :: u64
  de_size :: u64
  de_flags :: u32

record obmm_desc =
  d_seq :: u64
  d_region_id :: u32
  d_payload_len :: u32
  d_payload_offset :: u64
  d_type :: u16
  d_flags :: u16
  d_cookie :: u32

definition zero_desc :: obmm_desc where
  "zero_desc = \<lparr>d_seq = 0, d_region_id = 0, d_payload_len = 0, d_payload_offset = 0,
     d_type = 0, d_flags = 0, d_cookie = 0\<rparr>"

definition sizeof_obmm_desc :: u64 where "sizeof_obmm_desc = 32"
definition sizeof_obmm_spsc_queue :: u64 where "sizeof_obmm_spsc_queue = 192"

record obmm_spsc_queue =
  q_head :: u32
  q_tail :: u32
  q_size :: u32
  q_mask :: u32
  q_desc :: "obmm_desc list"

section \<open>Operations\<close>

definition obmm_align_up_u64 :: "u64 \<Rightarrow> u64 \<Rightarrow> u64" where
  "obmm_align_up_u64 v align = (v + align - 1) AND (NOT (align - 1))"

definition obmm_queue_region_size :: "u32 \<Rightarrow> u64" where
  "obmm_queue_region_size depth =
     obmm_align_up_u64 sizeof_obmm_spsc_queue 64 + ucast depth * sizeof_obmm_desc"

text \<open>The depth check shared by the ring and the broadcast stream.\<close>

definition depth_ok :: "u32 \<Rightarrow> bool" where
  "depth_ok depth \<longleftrightarrow>
     \<not> (depth < OBMM_QUEUE_MIN_DEPTH \<or> depth > OBMM_QUEUE_MAX_DEPTH) \<and>
     \<not> (depth = 0 \<or> depth AND (depth - 1) \<noteq> 0)"

definition obmm_spsc_queue_init :: "u32 \<Rightarrow> obmm_spsc_queue option" where
  "obmm_spsc_queue_init depth =
     (if \<not> depth_ok depth then None
      else Some \<lparr>q_head = 0, q_tail = 0, q_size = depth, q_mask = depth - 1,
                 q_desc = replicate (unat depth) zero_desc\<rparr>)"

definition obmm_spsc_push :: "obmm_spsc_queue \<Rightarrow> obmm_desc \<Rightarrow> obmm_rc \<times> obmm_spsc_queue" where
  "obmm_spsc_push q desc = (
     let tail = q_tail q; head = q_head q in
     if tail - head = q_size q then (E_AGAIN, q)
     else (OBMM_OK, q\<lparr>q_desc := (q_desc q)[unat (tail AND q_mask q) := desc],
                      q_tail := tail + 1\<rparr>))"

definition obmm_spsc_pop :: "obmm_spsc_queue \<Rightarrow> obmm_desc option \<times> obmm_spsc_queue" where
  "obmm_spsc_pop q = (
     let head = q_head q; tail = q_tail q in
     if head = tail then (None, q)
     else (Some (q_desc q ! unat (head AND q_mask q)), q\<lparr>q_head := head + 1\<rparr>))"

definition obmm_spsc_capacity :: "obmm_spsc_queue \<Rightarrow> u32" where
  "obmm_spsc_capacity q = q_size q"

definition obmm_spsc_available :: "obmm_spsc_queue \<Rightarrow> u32" where
  "obmm_spsc_available q = q_tail q - q_head q"

section \<open>Indices of a ring\<close>

lemma nat_and_pred_power:
  "0 < n \<Longrightarrow> (n::nat) AND (n - 1) = 0 \<Longrightarrow> \<exists>k. n = 2 ^ k"
proof (induction n rule: less_induct)
  case (less n)
  show ?case
  proof (cases "even n")
    case True
    then obtain m where m: "n = 2 * m" by (auto elim: evenE)
    then have pos: "0 < m" using less.prems by simp
    have "n - 1 = 2 * (m - 1) + 1" using m pos by simp
    then have "2 * (m AND (m - 1)) = n AND (n - 1)"
      unfolding m by (simp add: and_rec [of "2 * m"])
    then have "m AND (m - 1) = 0" using less.prems by simp
    then obtain k where "m = 2 ^ k" using less.IH [of m] m pos by auto
    then have "n = 2 ^ Suc k" using m by simp
    then show ?thesis by blast
  next
    case False
    then obtain m where m: "n = 2 * m + 1" by (auto elim: oddE)
    then have "n AND (n - 1) = 2 * m" by (simp add: and_rec [of "Suc (2 * m)"])
    then have "n = 2 ^ 0" using less.prems m by simp
    then show ?thesis by blast
  qed
qed

lemma depth_ok_power: "depth_ok d \<Longrightarrow> \<exists>n. 6 \<le> n \<and> n \<le> 16 \<and> unat d = 2 ^ n"
proof -
  assume ok: "depth_ok d"
  then have lo: "64 \<le> unat d" and hi: "unat d \<le> 65536" and "d \<noteq> 0" "d AND (d - 1) = 0"
    by (auto simp: depth_ok_def OBMM_QUEUE_MIN_DEPTH_def OBMM_QUEUE_MAX_DEPTH_def
        word_less_nat_alt not_less)
  then have "unat d AND (unat d - 1) = 0"
    by (metis unat_minus_one unsigned_and_eq unsigned_0)
  then obtain n where n: "unat d = 2 ^ n" using nat_and_pred_power [of "unat d"] lo by auto
  have "(2::nat) ^ 6 \<le> 2 ^ n" "(2::nat) ^ n \<le> 2 ^ 16" using lo hi n by simp_all
  then have "6 \<le> n" "n \<le> 16" by (auto simp only: power_increasing_iff one_less_numeral_iff semiring_norm)
  then show ?thesis using n by blast
qed

lemma unat_and_mask:
  fixes w m :: "'a::len word"
  assumes "unat m = 2 ^ n - 1" "n \<le> LENGTH('a)"
  shows "unat (w AND m) = unat w mod 2 ^ n"
proof -
  have "unat (w AND m) = unat w AND mask n"
    by (simp add: unsigned_and_eq assms(1) mask_eq_exp_minus_1)
  then show ?thesis by (simp add: take_bit_eq_mask [symmetric] take_bit_eq_mod)
qed

lemma ring_index:
  fixes m :: "'a::len word"
  assumes "unat m = 2 ^ n - 1" "n \<le> LENGTH('a)"
  shows "unat (of_nat k AND m) = k mod 2 ^ n"
  using unat_and_mask [OF assms, of "of_nat k"] assms(2)
  by (simp add: unat_of_nat mod_mod_cancel le_imp_power_dvd)

lemma unat_Suc_less: "unat (x::u32) < 65536 \<Longrightarrow> unat (x + 1) = unat x + 1"
  by (simp add: unat_word_ariths)

lemma ring_slots_distinct:
  assumes "i < j" "j < i + (n::nat)"
  shows "i mod n \<noteq> j mod n"
proof
  assume "i mod n = j mod n"
  then have "n dvd j - i" using assms(1) by (metis mod_eq_dvd_iff_nat less_imp_le)
  then show False using assms dvd_imp_le [of n "j - i"] by linarith
qed

section \<open>A bounded queue\<close>

text \<open>The interface: what an abstract bounded queue promises of its two operations, and what follows
  for a whole run of them.\<close>

datatype 'a queue_op = Push 'a | Pop

locale bounded_fifo =
  fixes wf :: "'q \<Rightarrow> bool" and contents :: "'q \<Rightarrow> 'a list" and capacity :: "'q \<Rightarrow> nat"
    and push :: "'q \<Rightarrow> 'a \<Rightarrow> obmm_rc \<times> 'q" and pop :: "'q \<Rightarrow> 'a option \<times> 'q"
  assumes bounded: "wf q \<Longrightarrow> length (contents q) \<le> capacity q"
    and push_full: "wf q \<Longrightarrow> length (contents q) = capacity q \<Longrightarrow> push q x = (E_AGAIN, q)"
    and push_room: "wf q \<Longrightarrow> length (contents q) < capacity q \<Longrightarrow>
      \<exists>q'. push q x = (OBMM_OK, q') \<and> wf q' \<and> capacity q' = capacity q \<and>
           contents q' = contents q @ [x]"
    and pop_empty: "wf q \<Longrightarrow> contents q = [] \<Longrightarrow> pop q = (None, q)"
    and pop_first: "wf q \<Longrightarrow> contents q = x # xs \<Longrightarrow>
      \<exists>q'. pop q = (Some x, q') \<and> wf q' \<and> capacity q' = capacity q \<and> contents q' = xs"
begin

text \<open>A run of operations, with the values accepted and the values handed out.\<close>

fun run :: "'q \<Rightarrow> 'a queue_op list \<Rightarrow> 'a list \<times> 'a list \<times> 'q" where
  "run q [] = ([], [], q)"
| "run q (Push x # ops) =
     (let (rc, q') = push q x; (ins, outs, q'') = run q' ops in
      (if rc = OBMM_OK then x # ins else ins, outs, q''))"
| "run q (Pop # ops) =
     (let (r, q') = pop q; (ins, outs, q'') = run q' ops in
      (ins, case r of None \<Rightarrow> outs | Some x \<Rightarrow> x # outs, q''))"

lemma push_cases:
  assumes "wf q"
  obtains (full) "push q x = (E_AGAIN, q)" "length (contents q) = capacity q"
    | (room) q' where "push q x = (OBMM_OK, q')" "wf q'" "capacity q' = capacity q"
        "contents q' = contents q @ [x]" "length (contents q) < capacity q"
  using push_full [OF assms] push_room [OF assms] bounded [OF assms]
  by (metis le_neq_implies_less)

lemma pop_cases:
  assumes "wf q"
  obtains (empty) "pop q = (None, q)" "contents q = []"
    | (first) x xs q' where "pop q = (Some x, q')" "contents q = x # xs" "wf q'"
        "capacity q' = capacity q" "contents q' = xs"
  using pop_empty [OF assms] pop_first [OF assms] by (metis neq_Nil_conv)

lemma run_conserves:
  "wf q \<Longrightarrow> run q ops = (ins, outs, q') \<Longrightarrow>
   wf q' \<and> capacity q' = capacity q \<and> contents q @ ins = outs @ contents q'"
proof (induction ops arbitrary: q ins outs)
  case (Cons opn ops)
  show ?case
  proof (cases opn)
    case (Push x)
    from Cons.prems(1) show ?thesis
    proof (cases rule: push_cases [where x = x])
      case full
      then show ?thesis using Cons Push by (auto simp: Let_def split: prod.splits)
    next
      case (room q1)
      obtain ins1 where "run q1 ops = (ins1, outs, q')" "ins = x # ins1"
        using Cons.prems Push room by (auto simp: Let_def split: prod.splits)
      then show ?thesis using Cons.IH [OF room(2)] room by fastforce
    qed
  next
    case Pop
    from Cons.prems(1) show ?thesis
    proof (cases rule: pop_cases)
      case empty
      then have "run q ops = (ins, outs, q')"
        using Cons.prems Pop by (auto simp: Let_def split: prod.splits)
      then show ?thesis using Cons.IH [OF Cons.prems(1)] by simp
    next
      case (first x xs q1)
      obtain outs1 where "run q1 ops = (ins, outs1, q')" "outs = x # outs1"
        using Cons.prems Pop first by (auto simp: Let_def split: prod.splits)
      then show ?thesis using Cons.IH [OF first(3)] first by fastforce
    qed
  qed
qed simp

lemma run_in_order:
  assumes "wf q" "contents q = []" "run q ops = (ins, outs, q')"
  shows "prefix outs ins" and "length ins \<le> length outs + capacity q"
  using run_conserves [OF assms(1,3)] assms(2) bounded [of q'] by (auto simp: prefix_def)

end

section \<open>The ring is a bounded queue\<close>

definition spsc_wf :: "obmm_spsc_queue \<Rightarrow> bool" where
  "spsc_wf q \<longleftrightarrow> depth_ok (q_size q) \<and> q_mask q = q_size q - 1 \<and>
     length (q_desc q) = unat (q_size q) \<and> unat (q_tail q - q_head q) \<le> unat (q_size q)"

definition spsc_contents :: "obmm_spsc_queue \<Rightarrow> obmm_desc list" where
  "spsc_contents q =
     map (\<lambda>i. q_desc q ! unat ((q_head q + of_nat i) AND q_mask q)) [0..<unat (q_tail q - q_head q)]"

definition spsc_depth :: "obmm_spsc_queue \<Rightarrow> nat" where
  "spsc_depth q = unat (q_size q)"

lemma depth_mask:
  assumes "depth_ok d" "m = d - 1"
  obtains n where "n \<le> 16" "unat d = 2 ^ n" "unat m = 2 ^ n - 1"
proof -
  obtain n where n: "n \<le> 16" "unat d = 2 ^ n" using depth_ok_power [OF assms(1)] by blast
  moreover have "d \<noteq> 0" using assms(1) by (auto simp: depth_ok_def)
  ultimately show thesis using that assms(2) by (simp add: unat_minus_one)
qed

lemma slot_index:
  assumes "spsc_wf q"
  shows "unat (of_nat k AND q_mask q) = k mod spsc_depth q"
proof -
  obtain n where n: "n \<le> 16" "unat (q_size q) = 2 ^ n" "unat (q_mask q) = 2 ^ n - 1"
    using assms depth_mask [of "q_size q" "q_mask q"] unfolding spsc_wf_def by metis
  then show ?thesis using ring_index [OF n(3), of k] by (simp add: spsc_depth_def)
qed

lemma slot_index_add:
  "spsc_wf q \<Longrightarrow> unat ((q_head q + of_nat i) AND q_mask q) = (unat (q_head q) + i) mod spsc_depth q"
  using slot_index [of q "unat (q_head q) + i"] by simp

lemma slot_in_range: "spsc_wf q \<Longrightarrow> k mod spsc_depth q < length (q_desc q)"
  using depth_ok_power [of "q_size q"] by (auto simp: spsc_wf_def spsc_depth_def)

lemma spsc_depth_less: "spsc_wf q \<Longrightarrow> spsc_depth q \<le> 65536"
  by (simp add: spsc_wf_def spsc_depth_def depth_ok_def OBMM_QUEUE_MAX_DEPTH_def word_le_nat_alt not_less)

lemma spsc_contents_length [simp]: "length (spsc_contents q) = unat (q_tail q - q_head q)"
  by (simp add: spsc_contents_def)

lemma spsc_push_room:
  assumes wf: "spsc_wf q" and room: "length (spsc_contents q) < spsc_depth q"
  shows "\<exists>q'. obmm_spsc_push q d = (OBMM_OK, q') \<and> spsc_wf q' \<and> spsc_depth q' = spsc_depth q \<and>
    spsc_contents q' = spsc_contents q @ [d]"
proof -
  let ?m = "unat (q_tail q - q_head q)"
  let ?q = "q\<lparr>q_desc := (q_desc q)[unat (q_tail q AND q_mask q) := d], q_tail := q_tail q + 1\<rparr>"
  have ne: "q_tail q - q_head q \<noteq> q_size q" using room by (auto simp: spsc_depth_def)
  have tail: "q_tail q = q_head q + of_nat ?m" by simp
  have inc: "unat (q_tail q + 1 - q_head q) = Suc ?m"
  proof -
    have "q_tail q + 1 - q_head q = (q_tail q - q_head q) + 1" by simp
    moreover have "?m < 65536" using room spsc_depth_less [OF wf] by simp
    ultimately show ?thesis by (metis Suc_eq_plus1 unat_Suc_less)
  qed
  have wf': "spsc_wf ?q" using wf room inc by (simp add: spsc_wf_def spsc_depth_def)
  have slot: "unat (q_tail q AND q_mask q) = (unat (q_head q) + ?m) mod spsc_depth q"
    using slot_index_add [OF wf, of ?m] by simp
  have old: "(unat (q_head q) + i) mod spsc_depth q \<noteq> (unat (q_head q) + ?m) mod spsc_depth q"
    if "i < ?m" for i
    using ring_slots_distinct [of "unat (q_head q) + i" "unat (q_head q) + ?m"] that room by simp
  have "spsc_contents ?q = map (\<lambda>i. q_desc ?q ! ((unat (q_head q) + i) mod spsc_depth q)) [0..<Suc ?m]"
    using slot_index_add [OF wf] inc by (simp add: spsc_contents_def del: upt_Suc)
  also have "\<dots> = spsc_contents q @ [d]"
    using slot old [THEN not_sym] slot_in_range [OF wf] slot_index_add [OF wf]
    by (auto simp: spsc_contents_def)
  finally show ?thesis
    using ne wf' by (simp add: obmm_spsc_push_def Let_def spsc_depth_def)
qed

lemma spsc_pop_first:
  assumes wf: "spsc_wf q" and contents: "spsc_contents q = d # ds"
  shows "\<exists>q'. obmm_spsc_pop q = (Some d, q') \<and> spsc_wf q' \<and> spsc_depth q' = spsc_depth q \<and>
    spsc_contents q' = ds"
proof -
  let ?m = "unat (q_tail q - q_head q)"
  let ?q = "q\<lparr>q_head := q_head q + 1\<rparr>"
  have pos: "0 < ?m" using contents by (metis spsc_contents_length length_greater_0_conv list.distinct(1))
  then have ne: "q_head q \<noteq> q_tail q" by auto
  have "unat (q_tail q - q_head q - 1) = ?m - 1"
    using pos by (intro unat_minus_one) auto
  moreover have "q_tail q - (q_head q + 1) = q_tail q - q_head q - 1" by simp
  ultimately have dec: "unat (q_tail q - (q_head q + 1)) = ?m - 1" by metis
  then have wf': "spsc_wf ?q" using wf unfolding spsc_wf_def by simp linarith
  have up: "[0..<?m] = 0 # map Suc [0..<?m - 1]"
    using pos by (cases ?m) (simp_all add: upt_conv_Cons map_Suc_upt)
  have "spsc_contents q = q_desc q ! unat (q_head q AND q_mask q) # spsc_contents ?q"
    unfolding spsc_contents_def up using dec by (simp add: comp_def algebra_simps)
  then show ?thesis
    using ne wf' contents by (simp add: obmm_spsc_pop_def Let_def spsc_depth_def)
qed

interpretation spsc: bounded_fifo spsc_wf spsc_contents spsc_depth obmm_spsc_push obmm_spsc_pop
proof
  fix q and x :: obmm_desc and xs
  assume wf: "spsc_wf q"
  then show "length (spsc_contents q) \<le> spsc_depth q" by (simp add: spsc_wf_def spsc_depth_def)
  show "obmm_spsc_push q x = (E_AGAIN, q)" if "length (spsc_contents q) = spsc_depth q"
    using that by (simp add: obmm_spsc_push_def spsc_depth_def word_unat_eq_iff)
  show "\<exists>q'. obmm_spsc_push q x = (OBMM_OK, q') \<and> spsc_wf q' \<and> spsc_depth q' = spsc_depth q \<and>
      spsc_contents q' = spsc_contents q @ [x]" if "length (spsc_contents q) < spsc_depth q"
    using spsc_push_room [OF wf that] .
  show "obmm_spsc_pop q = (None, q)" if "spsc_contents q = []"
    using that by (simp add: spsc_contents_def obmm_spsc_pop_def unat_eq_0)
  show "\<exists>q'. obmm_spsc_pop q = (Some x, q') \<and> spsc_wf q' \<and> spsc_depth q' = spsc_depth q \<and>
      spsc_contents q' = xs" if "spsc_contents q = x # xs"
    using spsc_pop_first [OF wf that] .
qed

lemma init_wf:
  "obmm_spsc_queue_init depth = Some q \<Longrightarrow>
   spsc_wf q \<and> spsc_contents q = [] \<and> spsc_depth q = unat depth"
  by (auto simp: obmm_spsc_queue_init_def spsc_wf_def spsc_contents_def spsc_depth_def split: if_splits)

section \<open>Producer and consumer at once\<close>

datatype producer_pc =
  P_idle | P_tail obmm_desc u32 | P_head obmm_desc u32 u32 | P_stored obmm_desc u32

datatype consumer_pc =
  C_idle | C_head u32 | C_tail u32 u32 | C_read u32 obmm_desc

text \<open>The ring, where each side stands in the code, the newest value of the other side's counter it
  has seen (as a number of operations), and the descriptors pushed and popped so far.\<close>

record spsc_system =
  ring :: obmm_spsc_queue
  producer :: producer_pc
  consumer :: consumer_pc
  head_seen :: nat
  tail_seen :: nat
  pushed :: "obmm_desc list"
  popped :: "obmm_desc list"

inductive spsc_step :: "spsc_system \<Rightarrow> spsc_system \<Rightarrow> bool" where
  push_call: "producer s = P_idle \<Longrightarrow>
    spsc_step s (s\<lparr>producer := P_tail d (q_tail (ring s))\<rparr>)"
| push_load_head: "producer s = P_tail d t \<Longrightarrow> head_seen s \<le> h \<Longrightarrow> h \<le> length (popped s) \<Longrightarrow>
    spsc_step s (s\<lparr>producer := P_head d t (of_nat h), head_seen := h\<rparr>)"
| push_full: "producer s = P_head d t h \<Longrightarrow> t - h = q_size (ring s) \<Longrightarrow>
    spsc_step s (s\<lparr>producer := P_idle\<rparr>)"
| push_store: "producer s = P_head d t h \<Longrightarrow> t - h \<noteq> q_size (ring s) \<Longrightarrow>
    spsc_step s (s\<lparr>producer := P_stored d t,
      ring := (ring s)\<lparr>q_desc := (q_desc (ring s))[unat (t AND q_mask (ring s)) := d]\<rparr>\<rparr>)"
| push_publish: "producer s = P_stored d t \<Longrightarrow>
    spsc_step s (s\<lparr>producer := P_idle, ring := (ring s)\<lparr>q_tail := t + 1\<rparr>, pushed := pushed s @ [d]\<rparr>)"
| pop_call: "consumer s = C_idle \<Longrightarrow>
    spsc_step s (s\<lparr>consumer := C_head (q_head (ring s))\<rparr>)"
| pop_load_tail: "consumer s = C_head h \<Longrightarrow> tail_seen s \<le> t \<Longrightarrow> t \<le> length (pushed s) \<Longrightarrow>
    spsc_step s (s\<lparr>consumer := C_tail h (of_nat t), tail_seen := t\<rparr>)"
| pop_empty: "consumer s = C_tail h t \<Longrightarrow> h = t \<Longrightarrow>
    spsc_step s (s\<lparr>consumer := C_idle\<rparr>)"
| pop_read: "consumer s = C_tail h t \<Longrightarrow> h \<noteq> t \<Longrightarrow>
    spsc_step s (s\<lparr>consumer := C_read h (q_desc (ring s) ! unat (h AND q_mask (ring s)))\<rparr>)"
| pop_release: "consumer s = C_read h d \<Longrightarrow>
    spsc_step s (s\<lparr>consumer := C_idle, ring := (ring s)\<lparr>q_head := h + 1\<rparr>, popped := popped s @ [d]\<rparr>)"

inductive spsc_reachable :: "u32 \<Rightarrow> spsc_system \<Rightarrow> bool" for depth where
  start: "obmm_spsc_queue_init depth = Some q \<Longrightarrow>
    spsc_reachable depth \<lparr>ring = q, producer = P_idle, consumer = C_idle, head_seen = 0, tail_seen = 0,
      pushed = [], popped = []\<rparr>"
| step: "spsc_reachable depth s \<Longrightarrow> spsc_step s s' \<Longrightarrow> spsc_reachable depth s'"

text \<open>The steps are the code: a call that runs without interference, with fresh loads, does to the
  ring what \<open>obmm_spsc_push\<close> and \<open>obmm_spsc_pop\<close> do.\<close>

lemma push_is_steps:
  assumes "producer s = P_idle" "q_head (ring s) = of_nat (length (popped s))"
    and "head_seen s \<le> length (popped s)"
    and "obmm_spsc_push (ring s) d = (rc, q)"
  shows "\<exists>s'. spsc_step\<^sup>*\<^sup>* s s' \<and> ring s' = q \<and> producer s' = P_idle \<and>
    pushed s' = (if rc = OBMM_OK then pushed s @ [d] else pushed s)"
proof -
  let ?h = "length (popped s)"
  let ?a = "s\<lparr>producer := P_tail d (q_tail (ring s))\<rparr>"
  let ?b = "?a\<lparr>producer := P_head d (q_tail (ring s)) (of_nat ?h), head_seen := ?h\<rparr>"
  have "spsc_step s ?a" using assms(1) by (rule push_call)
  moreover have "spsc_step ?a ?b" using assms(3) by (intro push_load_head) simp_all
  ultimately have two: "spsc_step\<^sup>*\<^sup>* s ?b" by (meson rtranclp.rtrancl_into_rtrancl rtranclp.rtrancl_refl)
  show ?thesis
  proof (cases "q_tail (ring s) - q_head (ring s) = q_size (ring s)")
    case True
    then have "spsc_step ?b (?b\<lparr>producer := P_idle\<rparr>)"
      using assms(2) by (intro push_full [of _ d "q_tail (ring s)" "of_nat ?h"]) simp_all
    with two have "spsc_step\<^sup>*\<^sup>* s (?b\<lparr>producer := P_idle\<rparr>)" by (rule rtranclp.rtrancl_into_rtrancl)
    then show ?thesis using True assms(4) by (intro exI [of _ "?b\<lparr>producer := P_idle\<rparr>"]) (auto simp: obmm_spsc_push_def Let_def)
  next
    case False
    let ?c = "?b\<lparr>producer := P_stored d (q_tail (ring s)), ring := (ring s)\<lparr>q_desc :=
        (q_desc (ring s))[unat (q_tail (ring s) AND q_mask (ring s)) := d]\<rparr>\<rparr>"
    let ?e = "?c\<lparr>producer := P_idle, ring := (ring ?c)\<lparr>q_tail := q_tail (ring s) + 1\<rparr>,
        pushed := pushed ?c @ [d]\<rparr>"
    have "spsc_step ?b ?c"
      using False assms(2) push_store [of ?b d "q_tail (ring s)" "of_nat ?h"] by simp
    moreover have "spsc_step ?c ?e" by (rule push_publish) simp
    ultimately have "spsc_step\<^sup>*\<^sup>* s ?e" using two by (meson rtranclp.rtrancl_into_rtrancl)
    then show ?thesis using False assms(4) by (intro exI [of _ "?e"]) (auto simp: obmm_spsc_push_def Let_def)
  qed
qed

lemma pop_is_steps:
  assumes "consumer s = C_idle" "q_tail (ring s) = of_nat (length (pushed s))"
    and "tail_seen s \<le> length (pushed s)"
    and "obmm_spsc_pop (ring s) = (r, q)"
  shows "\<exists>s'. spsc_step\<^sup>*\<^sup>* s s' \<and> ring s' = q \<and> consumer s' = C_idle \<and>
    popped s' = popped s @ (case r of None \<Rightarrow> [] | Some d \<Rightarrow> [d])"
proof -
  let ?t = "length (pushed s)" and ?h = "q_head (ring s)"
  let ?a = "s\<lparr>consumer := C_head ?h\<rparr>"
  let ?b = "?a\<lparr>consumer := C_tail ?h (of_nat ?t), tail_seen := ?t\<rparr>"
  have "spsc_step s ?a" using assms(1) by (rule pop_call)
  moreover have "spsc_step ?a ?b" using assms(3) by (intro pop_load_tail) simp_all
  ultimately have two: "spsc_step\<^sup>*\<^sup>* s ?b" by (meson rtranclp.rtrancl_into_rtrancl rtranclp.rtrancl_refl)
  show ?thesis
  proof (cases "?h = q_tail (ring s)")
    case True
    then have "spsc_step ?b (?b\<lparr>consumer := C_idle\<rparr>)"
      using assms(2) by (intro pop_empty [of _ ?h "of_nat ?t"]) simp_all
    with two have "spsc_step\<^sup>*\<^sup>* s (?b\<lparr>consumer := C_idle\<rparr>)" by (rule rtranclp.rtrancl_into_rtrancl)
    then show ?thesis using True assms(4) by (intro exI [of _ "?b\<lparr>consumer := C_idle\<rparr>"]) (auto simp: obmm_spsc_pop_def Let_def)
  next
    case False
    let ?d = "q_desc (ring s) ! unat (?h AND q_mask (ring s))"
    let ?c = "?b\<lparr>consumer := C_read ?h ?d\<rparr>"
    let ?e = "?c\<lparr>consumer := C_idle, ring := (ring ?c)\<lparr>q_head := ?h + 1\<rparr>, popped := popped ?c @ [?d]\<rparr>"
    have "spsc_step ?b ?c"
      using False assms(2) pop_read [of ?b ?h "of_nat ?t"] by simp
    moreover have "spsc_step ?c ?e" by (rule pop_release) simp
    ultimately have "spsc_step\<^sup>*\<^sup>* s ?e" using two by (meson rtranclp.rtrancl_into_rtrancl)
    then show ?thesis using False assms(4) by (intro exI [of _ "?e"]) (auto simp: obmm_spsc_pop_def Let_def)
  qed
qed

text \<open>The invariant of the running system, one conjunct per concern.\<close>

definition ring_shape :: "u32 \<Rightarrow> spsc_system \<Rightarrow> bool" where
  "ring_shape depth s \<longleftrightarrow> depth_ok depth \<and> q_size (ring s) = depth \<and> q_mask (ring s) = depth - 1 \<and>
     length (q_desc (ring s)) = unat depth \<and>
     q_head (ring s) = of_nat (length (popped s)) \<and> q_tail (ring s) = of_nat (length (pushed s))"

definition counters_ok :: "u32 \<Rightarrow> spsc_system \<Rightarrow> bool" where
  "counters_ok depth s \<longleftrightarrow> head_seen s \<le> length (popped s) \<and> length (popped s) \<le> tail_seen s \<and>
     tail_seen s \<le> length (pushed s) \<and> length (pushed s) \<le> head_seen s + unat depth"

definition slots_ok :: "u32 \<Rightarrow> spsc_system \<Rightarrow> bool" where
  "slots_ok depth s \<longleftrightarrow> prefix (popped s) (pushed s) \<and>
     (\<forall>k. length (popped s) \<le> k \<and> k < length (pushed s) \<longrightarrow>
          q_desc (ring s) ! (k mod unat depth) = pushed s ! k)"

definition producer_ok :: "u32 \<Rightarrow> spsc_system \<Rightarrow> bool" where
  "producer_ok depth s \<longleftrightarrow> (case producer s of
       P_idle \<Rightarrow> True
     | P_tail d t \<Rightarrow> t = of_nat (length (pushed s))
     | P_head d t h \<Rightarrow> t = of_nat (length (pushed s)) \<and> h = of_nat (head_seen s)
     | P_stored d t \<Rightarrow> t = of_nat (length (pushed s)) \<and>
         length (pushed s) < head_seen s + unat depth \<and>
         q_desc (ring s) ! (length (pushed s) mod unat depth) = d)"

definition consumer_ok :: "u32 \<Rightarrow> spsc_system \<Rightarrow> bool" where
  "consumer_ok depth s \<longleftrightarrow> (case consumer s of
       C_idle \<Rightarrow> True
     | C_head h \<Rightarrow> h = of_nat (length (popped s))
     | C_tail h t \<Rightarrow> h = of_nat (length (popped s)) \<and> t = of_nat (tail_seen s)
     | C_read h d \<Rightarrow> h = of_nat (length (popped s)) \<and> length (popped s) < tail_seen s \<and>
         d = pushed s ! length (popped s))"

definition spsc_inv :: "u32 \<Rightarrow> spsc_system \<Rightarrow> bool" where
  "spsc_inv depth s \<longleftrightarrow> ring_shape depth s \<and> counters_ok depth s \<and> slots_ok depth s \<and>
     producer_ok depth s \<and> consumer_ok depth s"

lemmas spsc_inv_defs = spsc_inv_def ring_shape_def counters_ok_def slots_ok_def producer_ok_def consumer_ok_def

lemma of_nat_near:
  assumes "a \<le> b" "b \<le> a + unat d" "depth_ok d"
  shows "(of_nat b :: u32) - of_nat a = of_nat (b - a)" "unat (of_nat (b - a) :: u32) = b - a"
proof -
  have "b - a \<le> 65536"
    using assms by (auto simp: depth_ok_def OBMM_QUEUE_MAX_DEPTH_def word_le_nat_alt not_less)
  then show "unat (of_nat (b - a) :: u32) = b - a" by (simp add: unat_of_nat)
  show "(of_nat b :: u32) - of_nat a = of_nat (b - a)" using assms(1) by (simp add: of_nat_diff)
qed

lemma depth_index:
  assumes "depth_ok depth"
  shows "unat (of_nat k AND (depth - 1)) = k mod unat depth" and "k mod unat depth < unat depth"
proof -
  obtain n where n: "n \<le> 16" "unat depth = 2 ^ n" "unat (depth - 1) = 2 ^ n - 1"
    using depth_mask [OF assms refl] .
  show "unat (of_nat k AND (depth - 1)) = k mod unat depth"
    using ring_index [OF n(3), of k] n by simp
  show "k mod unat depth < unat depth" using n by simp
qed

lemma not_full:
  assumes "spsc_inv depth s" "producer s = P_head d t h" "t - h \<noteq> q_size (ring s)"
  shows "length (pushed s) < head_seen s + unat depth"
proof -
  have ok: "head_seen s \<le> length (pushed s)" "length (pushed s) \<le> head_seen s + unat depth" "depth_ok depth"
    using assms(1) by (simp_all add: spsc_inv_defs)
  have th: "t - h = of_nat (length (pushed s)) - of_nat (head_seen s)" "q_size (ring s) = depth"
    using assms(1,2) by (simp_all add: spsc_inv_defs)
  then have "unat (t - h) = length (pushed s) - head_seen s" using of_nat_near [OF ok] by simp
  moreover have "unat (t - h) \<noteq> unat depth" using assms(3) th by (simp add: word_unat_eq_iff)
  ultimately show ?thesis using ok by linarith
qed

lemma not_empty:
  assumes "spsc_inv depth s" "consumer s = C_tail h t" "h \<noteq> t"
  shows "length (popped s) < tail_seen s"
proof -
  have "length (popped s) \<le> tail_seen s" "length (popped s) \<noteq> tail_seen s"
    using assms by (auto simp: spsc_inv_defs)
  then show ?thesis by simp
qed

lemma store_slot:
  assumes "spsc_inv depth s" "producer s = P_head d t h" "t - h \<noteq> q_size (ring s)"
  defines "xs \<equiv> (q_desc (ring s))[unat (t AND q_mask (ring s)) := d]"
  shows "xs ! (length (pushed s) mod unat depth) = d"
    and "\<And>k. length (popped s) \<le> k \<Longrightarrow> k < length (pushed s) \<Longrightarrow>
           xs ! (k mod unat depth) = q_desc (ring s) ! (k mod unat depth)"
proof -
  have ok: "depth_ok depth" and i: "unat (t AND q_mask (ring s)) = length (pushed s) mod unat depth"
    using assms(1,2) depth_index(1) by (auto simp: spsc_inv_defs)
  have "length (q_desc (ring s)) = unat depth" using assms(1) by (simp add: spsc_inv_defs)
  then show "xs ! (length (pushed s) mod unat depth) = d"
    using depth_index(2) [OF ok] by (simp add: xs_def i)
  fix k assume k: "length (popped s) \<le> k" "k < length (pushed s)"
  have "length (pushed s) < k + unat depth"
    using not_full [OF assms(1-3)] assms(1) k by (auto simp: spsc_inv_defs)
  then have "k mod unat depth \<noteq> length (pushed s) mod unat depth"
    using ring_slots_distinct k by blast
  then show "xs ! (k mod unat depth) = q_desc (ring s) ! (k mod unat depth)" by (simp add: xs_def i)
qed

lemma inv_push_store:
  assumes "spsc_inv depth s" "producer s = P_head d t h" "t - h \<noteq> q_size (ring s)"
  shows "spsc_inv depth (s\<lparr>producer := P_stored d t,
      ring := (ring s)\<lparr>q_desc := (q_desc (ring s))[unat (t AND q_mask (ring s)) := d]\<rparr>\<rparr>)"
  using assms(1,2) store_slot [OF assms] not_full [OF assms] by (auto simp: spsc_inv_defs split: consumer_pc.splits)

lemma inv_push_publish:
  assumes "spsc_inv depth s" "producer s = P_stored d t"
  shows "spsc_inv depth (s\<lparr>producer := P_idle, ring := (ring s)\<lparr>q_tail := t + 1\<rparr>, pushed := pushed s @ [d]\<rparr>)"
  using assms by (auto simp: spsc_inv_defs nth_append less_Suc_eq ac_simps split: consumer_pc.splits)

lemma inv_pop_read:
  assumes "spsc_inv depth s" "consumer s = C_tail h t" "h \<noteq> t"
  shows "spsc_inv depth (s\<lparr>consumer := C_read h (q_desc (ring s) ! unat (h AND q_mask (ring s)))\<rparr>)"
  using assms not_empty [OF assms] depth_index(1) by (auto simp: spsc_inv_defs split: producer_pc.splits)

lemma inv_pop_release:
  assumes "spsc_inv depth s" "consumer s = C_read h d"
  shows "spsc_inv depth (s\<lparr>consumer := C_idle, ring := (ring s)\<lparr>q_head := h + 1\<rparr>, popped := popped s @ [d]\<rparr>)"
proof -
  have "length (popped s) < length (pushed s)" using assms by (auto simp: spsc_inv_defs)
  then have "prefix (popped s @ [d]) (pushed s)"
    using assms append_one_prefix [of "popped s" "pushed s"] by (simp add: spsc_inv_defs)
  then show ?thesis
    using assms by (auto simp: spsc_inv_defs ac_simps split: producer_pc.splits)
qed

lemma spsc_step_inv: "spsc_step s s' \<Longrightarrow> spsc_inv depth s \<Longrightarrow> spsc_inv depth s'"
proof (induction rule: spsc_step.induct)
  case (push_call s d)
  then show ?case by (auto simp: spsc_inv_defs split: consumer_pc.splits)
next
  case (push_load_head s d t h)
  then show ?case by (auto simp: spsc_inv_defs split: consumer_pc.splits)
next
  case (push_full s d t h)
  then show ?case by (auto simp: spsc_inv_defs split: consumer_pc.splits)
next
  case (pop_call s)
  then show ?case by (auto simp: spsc_inv_defs split: producer_pc.splits)
next
  case (pop_load_tail s h t)
  then show ?case by (auto simp: spsc_inv_defs split: producer_pc.splits)
next
  case (pop_empty s h t)
  then show ?case by (auto simp: spsc_inv_defs split: producer_pc.splits)
qed (simp_all add: inv_push_store inv_push_publish inv_pop_read inv_pop_release)

lemma spsc_reachable_inv: "spsc_reachable depth s \<Longrightarrow> spsc_inv depth s"
proof (induction rule: spsc_reachable.induct)
  case (start q)
  then show ?case by (auto simp: spsc_inv_defs obmm_spsc_queue_init_def split: if_splits)
next
  case (step s s')
  then show ?case by (auto intro: spsc_step_inv)
qed

section \<open>Properties\<close>

lemma inv_contents:
  assumes inv: "spsc_inv depth s"
  shows "spsc_contents (ring s) = drop (length (popped s)) (pushed s)"
proof -
  let ?H = "length (popped s)" and ?T = "length (pushed s)"
  have ok: "?H \<le> ?T" "?T \<le> ?H + unat depth" "depth_ok depth" and shape: "ring_shape depth s"
    using inv by (auto simp: spsc_inv_defs)
  have m: "unat (q_tail (ring s) - q_head (ring s)) = ?T - ?H"
    using of_nat_near [OF ok] shape by (simp add: ring_shape_def)
  have "q_desc (ring s) ! unat ((q_head (ring s) + of_nat i) AND q_mask (ring s)) = pushed s ! (?H + i)"
    if "i < ?T - ?H" for i
  proof -
    have "unat ((q_head (ring s) + of_nat i) AND q_mask (ring s)) = (?H + i) mod unat depth"
      using depth_index(1) [OF ok(3), of "?H + i"] shape by (simp add: ring_shape_def)
    moreover have "\<forall>k. ?H \<le> k \<and> k < ?T \<longrightarrow> q_desc (ring s) ! (k mod unat depth) = pushed s ! k"
      using inv unfolding spsc_inv_def slots_ok_def by blast
    ultimately show ?thesis using that by simp
  qed
  then show ?thesis
    unfolding spsc_contents_def m by (intro nth_equalityI) simp_all
qed

text \<open>C11. The ring is linearisable to a bounded FIFO queue, whatever the interleaving of producer and
  consumer, however stale their views of each other's counters and however often the 32-bit counters
  have wrapped around: what has been popped is a prefix of what has been pushed, the ring holds
  exactly the rest, never more than its depth; a push that is refused sees the ring full at the
  head it has read, and a pop is refused only when all it has seen pushed is popped.\<close>

theorem spsc_concurrent_fifo:
  assumes "spsc_reachable depth s"
  shows "prefix (popped s) (pushed s) \<and>
    spsc_contents (ring s) = drop (length (popped s)) (pushed s) \<and>
    length (pushed s) \<le> length (popped s) + unat depth \<and>
    (\<forall>d t h. producer s = P_head d t h \<and> t - h = q_size (ring s) \<longrightarrow>
       length (pushed s) = head_seen s + unat depth) \<and>
    (\<forall>h t. consumer s = C_tail h t \<and> h = t \<longrightarrow> length (popped s) = tail_seen s)"
proof -
  have inv: "spsc_inv depth s" using spsc_reachable_inv [OF assms] .
  have full: "length (pushed s) = head_seen s + unat depth"
    if p: "producer s = P_head d t h" "t - h = q_size (ring s)" for d t h
  proof -
    have ok: "head_seen s \<le> length (pushed s)" "length (pushed s) \<le> head_seen s + unat depth" "depth_ok depth"
      using inv by (simp_all add: spsc_inv_defs)
    have "t - h = of_nat (length (pushed s)) - of_nat (head_seen s)" "q_size (ring s) = depth"
      using inv p(1) by (simp_all add: spsc_inv_defs)
    then have "length (pushed s) - head_seen s = unat depth"
      using of_nat_near [OF ok] p(2) by metis
    then show ?thesis using ok(1) by simp
  qed
  have empty: "length (popped s) = tail_seen s" if "consumer s = C_tail h h" for h
  proof -
    have ok: "length (popped s) \<le> tail_seen s" "tail_seen s \<le> length (popped s) + unat depth" "depth_ok depth"
      using inv by (simp_all add: spsc_inv_defs)
    have "h = of_nat (length (popped s)) \<and> h = of_nat (tail_seen s)"
      using inv that unfolding spsc_inv_def consumer_ok_def by auto
    then have "(of_nat (tail_seen s) :: u32) - of_nat (length (popped s)) = 0" by (metis diff_self)
    then have "tail_seen s - length (popped s) = 0" using of_nat_near [OF ok] by (metis unat_0)
    then show ?thesis using ok(1) by simp
  qed
  show ?thesis
    using inv inv_contents [OF inv] full empty by (auto simp: spsc_inv_def slots_ok_def counters_ok_def)
qed

theorem spsc_concurrent_fifo_witness:
  "\<exists>s. spsc_reachable 64 s \<and> pushed s = [zero_desc] \<and>
       spsc_contents (ring s) = drop (length (popped s)) (pushed s)"
proof -
  obtain q where q: "obmm_spsc_queue_init 64 = Some q" and shape: "q_head q = 0" "q_tail q = 0" "q_size q = 64"
    by (simp add: obmm_spsc_queue_init_def depth_ok_def OBMM_QUEUE_MIN_DEPTH_def OBMM_QUEUE_MAX_DEPTH_def)
  let ?s = "\<lparr>ring = q, producer = P_idle, consumer = C_idle, head_seen = 0, tail_seen = 0,
      pushed = [], popped = []\<rparr>"
  have reach: "spsc_reachable 64 ?s" using q by (rule start)
  obtain q' where "obmm_spsc_push (ring ?s) zero_desc = (OBMM_OK, q')"
    using shape by (simp add: obmm_spsc_push_def)
  from push_is_steps [OF _ _ _ this] shape obtain s where
    s: "spsc_step\<^sup>*\<^sup>* ?s s" "pushed s = [zero_desc]" by auto
  have "spsc_reachable 64 s" using s(1) reach by (induction rule: rtranclp_induct) (auto intro: step)
  with spsc_concurrent_fifo [OF this] s(2) show ?thesis by blast
qed

end
