(* ===== verification/Obmm_Mpsc.thy ===== *)
theory Obmm_Mpsc
  imports Obmm_Spsc
begin

text \<open>
  Lane sets (\<open>obmm_mpsc_queue.h\<close>) and the bus built from them (\<open>obmm_mpmc_queue.h\<close>): every publisher has
  a ring of its own at a consumer, which polls its rings in turn. The rings live in a memory shared by
  the nodes (\<open>queue_memory\<close>, address 0 for NULL), so that the publisher's lane and the consumer's lane
  name the same ring.
\<close>

section \<open>Lanes\<close>

type_synonym queue_memory = "nat \<Rightarrow> obmm_spsc_queue"

definition OBMM_MPSC_MAX_LANES :: nat where "OBMM_MPSC_MAX_LANES = 64"
definition OBMM_MPSC_DEFAULT_BUDGET :: u32 where "OBMM_MPSC_DEFAULT_BUDGET = 1"

record obmm_mpsc_lane =
  ln_publisher_node :: u32
  ln_weight :: u32
  ln_credit :: u32
  ln_queue :: nat

text \<open>\<open>ms_lane\<close> holds the first \<open>lane_count\<close> entries of the array; the others are never read.\<close>

record obmm_mpsc_consumer_set =
  ms_consumer_node :: u32
  ms_lane_count :: u32
  ms_next_lane :: u32
  ms_budget :: u32
  ms_rx_seq :: u64
  ms_lane :: "obmm_mpsc_lane list"

record obmm_mpsc_publisher_lane =
  pl_publisher_node :: u32
  pl_consumer_node :: u32
  pl_queue :: nat

section \<open>Initialisation from the region directory\<close>

definition new_lane :: "obmm_region_dirent \<Rightarrow> obmm_mpsc_lane" where
  "new_lane e = \<lparr>ln_publisher_node = ucast (de_peer_node_id e), ln_weight = 1, ln_credit = 0, ln_queue = 0\<rparr>"

fun collect_lanes :: "obmm_region_dirent list \<Rightarrow> obmm_mpsc_lane list \<Rightarrow> obmm_mpsc_lane list option" where
  "collect_lanes [] lanes = Some lanes"
| "collect_lanes (e # dir) lanes =
     (if de_kind e \<noteq> OBMM_REGION_QUEUE then collect_lanes dir lanes
      else if \<exists>l\<in>set lanes. ln_publisher_node l = ucast (de_peer_node_id e) then None
      else collect_lanes dir (lanes @ [new_lane e]))"

definition obmm_mpsc_consumer_set_init_from_directory ::
    "obmm_region_dirent list \<Rightarrow> u32 \<Rightarrow> obmm_rc + obmm_mpsc_consumer_set" where
  "obmm_mpsc_consumer_set_init_from_directory dir local_consumer_node = (
     case collect_lanes (take OBMM_MPSC_MAX_LANES dir) [] of
       None \<Rightarrow> Inl E_EXIST
     | Some lanes \<Rightarrow>
         if (\<exists>e\<in>set (drop OBMM_MPSC_MAX_LANES dir). de_kind e = OBMM_REGION_QUEUE) \<and>
            length lanes \<ge> OBMM_MPSC_MAX_LANES then Inl E_2BIG
         else if length lanes = 0 then Inl E_NOENT
         else Inr \<lparr>ms_consumer_node = local_consumer_node, ms_lane_count = of_nat (length lanes),
                   ms_next_lane = 0, ms_budget = OBMM_MPSC_DEFAULT_BUDGET, ms_rx_seq = 0,
                   ms_lane = sort_key ln_publisher_node lanes\<rparr>)"

definition obmm_mpsc_publisher_lane_init_from_directory ::
    "obmm_region_dirent list \<Rightarrow> u32 \<Rightarrow> u32 \<Rightarrow> obmm_rc + obmm_mpsc_publisher_lane" where
  "obmm_mpsc_publisher_lane_init_from_directory dir local_publisher_node target_consumer_node = (
     let found = filter (\<lambda>e. de_kind e = OBMM_REGION_QUEUE \<and>
                             ucast (de_peer_node_id e) = local_publisher_node) dir in
     if length found > 1 then Inl E_EXIST
     else if length found = 0 then Inl E_NOENT
     else Inr \<lparr>pl_publisher_node = local_publisher_node, pl_consumer_node = target_consumer_node,
               pl_queue = 0\<rparr>)"

section \<open>Producer and consumer paths\<close>

definition obmm_mpsc_push ::
    "queue_memory \<Rightarrow> obmm_mpsc_publisher_lane \<Rightarrow> obmm_desc \<Rightarrow> obmm_rc \<times> queue_memory" where
  "obmm_mpsc_push mem lane desc =
     (let (rc, q) = obmm_spsc_push (mem (pl_queue lane)) desc in (rc, mem(pl_queue lane := q)))"

function poll_loop :: "nat \<Rightarrow> queue_memory \<Rightarrow> obmm_mpsc_consumer_set \<Rightarrow>
    (obmm_desc \<times> u32 \<times> u64) option \<times> queue_memory \<times> obmm_mpsc_consumer_set" where
  "poll_loop n mem cset =
     (if n < unat (ms_lane_count cset) then
        let i = (ms_next_lane cset + of_nat n) mod ms_lane_count cset;
            lane = ms_lane cset ! unat i in
        case obmm_spsc_pop (mem (ln_queue lane)) of
          (Some d, q) \<Rightarrow>
            (Some (d, ln_publisher_node lane, ms_rx_seq cset), mem(ln_queue lane := q),
             cset\<lparr>ms_rx_seq := ms_rx_seq cset + 1, ms_next_lane := (i + 1) mod ms_lane_count cset\<rparr>)
        | (None, _) \<Rightarrow> poll_loop (n + 1) mem cset
      else (None, mem, cset))"
  by pat_completeness auto
termination by (relation "measure (\<lambda>(n, mem, cset). unat (ms_lane_count cset) - n)") auto

declare poll_loop.simps [simp del]

definition obmm_mpsc_poll :: "queue_memory \<Rightarrow> obmm_mpsc_consumer_set \<Rightarrow>
    (obmm_desc \<times> u32 \<times> u64) option \<times> queue_memory \<times> obmm_mpsc_consumer_set" where
  "obmm_mpsc_poll mem cset = poll_loop 0 mem cset"

section \<open>The bus\<close>

record obmm_mpmc_bus =
  bus_node_count :: u32
  bus_local_node :: u32
  bus_rx :: obmm_mpsc_consumer_set
  bus_tx :: "nat \<Rightarrow> obmm_mpsc_publisher_lane option"

definition obmm_mpmc_consumer_init ::
    "obmm_region_dirent list \<Rightarrow> u32 \<Rightarrow> obmm_rc + obmm_mpmc_bus" where
  "obmm_mpmc_consumer_init dir local_node = (
     case obmm_mpsc_consumer_set_init_from_directory dir local_node of
       Inl rc \<Rightarrow> Inl rc
     | Inr rx \<Rightarrow> Inr \<lparr>bus_node_count = ms_lane_count rx + 1, bus_local_node = local_node,
                     bus_rx = rx, bus_tx = (\<lambda>_. None)\<rparr>)"

definition obmm_mpmc_publisher_init ::
    "obmm_mpmc_bus \<Rightarrow> u32 \<Rightarrow> obmm_region_dirent list \<Rightarrow> u32 \<Rightarrow> obmm_rc \<times> obmm_mpmc_bus" where
  "obmm_mpmc_publisher_init bus target dir local_node = (
     if unat target \<ge> OBMM_MPSC_MAX_LANES then (E_INVAL, bus)
     else if bus_tx bus (unat target) \<noteq> None then (E_EXIST, bus)
     else case obmm_mpsc_publisher_lane_init_from_directory dir local_node target of
            Inl rc \<Rightarrow> (rc, bus)
          | Inr lane \<Rightarrow> (OBMM_OK, bus\<lparr>bus_tx := (bus_tx bus)(unat target := Some lane)\<rparr>))"

definition obmm_mpmc_send ::
    "queue_memory \<Rightarrow> obmm_mpmc_bus \<Rightarrow> u32 \<Rightarrow> obmm_desc \<Rightarrow> obmm_rc \<times> queue_memory" where
  "obmm_mpmc_send mem bus target desc = (
     if unat target \<ge> OBMM_MPSC_MAX_LANES then (E_NOENT, mem)
     else case bus_tx bus (unat target) of
            None \<Rightarrow> (E_NOENT, mem)
          | Some lane \<Rightarrow> obmm_mpsc_push mem lane desc)"

definition obmm_mpmc_recv :: "queue_memory \<Rightarrow> obmm_mpmc_bus \<Rightarrow>
    (obmm_desc \<times> u32) option \<times> queue_memory \<times> obmm_mpmc_bus" where
  "obmm_mpmc_recv mem bus = (
     let (r, mem', rx) = obmm_mpsc_poll mem (bus_rx bus) in
     (map_option (\<lambda>(d, src, _). (d, src)) r, mem', bus\<lparr>bus_rx := rx\<rparr>))"

section \<open>What initialisation gives\<close>

lemma collect_lanes_distinct:
  "collect_lanes dir lanes = Some lanes' \<Longrightarrow> distinct (map ln_publisher_node lanes) \<Longrightarrow>
   distinct (map ln_publisher_node lanes') \<and> length lanes' \<le> length lanes + length dir"
  by (induction dir lanes rule: collect_lanes.induct)
     (fastforce simp: new_lane_def split: if_splits)+

lemma consumer_set_init_lanes:
  assumes "obmm_mpsc_consumer_set_init_from_directory dir node = Inr rx"
  shows "distinct (map ln_publisher_node (ms_lane rx)) \<and> sorted (map ln_publisher_node (ms_lane rx)) \<and>
    0 < length (ms_lane rx) \<and> length (ms_lane rx) \<le> 64 \<and>
    unat (ms_lane_count rx) = length (ms_lane rx) \<and> ms_next_lane rx = 0"
proof -
  obtain lanes where l: "collect_lanes (take 64 dir) [] = Some lanes" "lanes \<noteq> []"
    and rx: "ms_lane rx = sort_key ln_publisher_node lanes" "ms_lane_count rx = of_nat (length lanes)"
      "ms_next_lane rx = 0"
    using assms
    by (auto simp: obmm_mpsc_consumer_set_init_from_directory_def OBMM_MPSC_MAX_LANES_def
        split: option.splits if_splits)
  have d: "distinct (map ln_publisher_node lanes)" "length lanes \<le> 64"
    using collect_lanes_distinct [OF l(1)] by auto
  then have "distinct (map ln_publisher_node (sort_key ln_publisher_node lanes))"
    by (simp add: distinct_map)
  then show ?thesis using l(2) d(2) rx by (simp add: unat_of_nat)
qed

section \<open>Polling in turn\<close>

definition lanes_wf :: "queue_memory \<Rightarrow> obmm_mpsc_consumer_set \<Rightarrow> bool" where
  "lanes_wf mem rx \<longleftrightarrow> unat (ms_lane_count rx) = length (ms_lane rx) \<and> 0 < length (ms_lane rx) \<and>
     length (ms_lane rx) \<le> 64 \<and> unat (ms_next_lane rx) < length (ms_lane rx) \<and>
     distinct (map ln_queue (ms_lane rx)) \<and> distinct (map ln_publisher_node (ms_lane rx)) \<and>
     (\<forall>l\<in>set (ms_lane rx). spsc_wf (mem (ln_queue l)))"

definition lane_items :: "queue_memory \<Rightarrow> obmm_mpsc_consumer_set \<Rightarrow> nat \<Rightarrow> obmm_desc list" where
  "lane_items mem rx j = spsc_contents (mem (ln_queue (ms_lane rx ! j)))"

text \<open>The lane that is tried in round \<open>n\<close>, and the round in which lane \<open>j\<close> is tried.\<close>

definition turn :: "obmm_mpsc_consumer_set \<Rightarrow> nat \<Rightarrow> nat" where
  "turn rx n = (unat (ms_next_lane rx) + n) mod length (ms_lane rx)"

definition wait_for :: "obmm_mpsc_consumer_set \<Rightarrow> nat \<Rightarrow> nat" where
  "wait_for rx j = (j + length (ms_lane rx) - unat (ms_next_lane rx)) mod length (ms_lane rx)"

lemma turn_less: "lanes_wf mem rx \<Longrightarrow> turn rx n < length (ms_lane rx)"
  by (simp add: turn_def lanes_wf_def)

lemma turn_wait: "lanes_wf mem rx \<Longrightarrow> j < length (ms_lane rx) \<Longrightarrow> turn rx (wait_for rx j) = j"
  by (simp add: turn_def wait_for_def lanes_wf_def mod_add_right_eq)

lemma wait_less: "lanes_wf mem rx \<Longrightarrow> wait_for rx j < length (ms_lane rx)"
  by (simp add: wait_for_def lanes_wf_def)

lemma wait_unique:
  assumes "unat (ms_next_lane rx) < length (ms_lane rx)" "k < length (ms_lane rx)" "turn rx k = j"
  shows "wait_for rx j = k"
proof (cases "unat (ms_next_lane rx) + k < length (ms_lane rx)")
  case True
  then have "j = unat (ms_next_lane rx) + k" using assms by (simp add: turn_def)
  then show ?thesis using assms by (simp add: wait_for_def)
next
  case False
  then have "(unat (ms_next_lane rx) + k) mod length (ms_lane rx) =
      unat (ms_next_lane rx) + k - length (ms_lane rx)"
    using assms(1,2) by (subst le_mod_geq) simp_all
  then have "j = unat (ms_next_lane rx) + k - length (ms_lane rx)"
    using assms(3) by (simp add: turn_def)
  then show ?thesis using False assms by (simp add: wait_for_def)
qed

lemma unat_add_small:
  assumes "unat (a::u32) < 128" "n < 128"
  shows "unat (a + of_nat n) = unat a + n"
  using assms by (simp add: unat_word_ariths unat_of_nat)

lemma lane_of_round:
  assumes "lanes_wf mem rx" "n < length (ms_lane rx)"
  shows "unat ((ms_next_lane rx + of_nat n) mod ms_lane_count rx) = turn rx n"
  using assms unat_add_small [of "ms_next_lane rx" n]
  by (simp add: turn_def lanes_wf_def unat_mod)

text \<open>The two outcomes of the loop: every lane from round \<open>n\<close> on is empty, or the first lane that is not
  gives its first descriptor.\<close>

definition served ::
    "queue_memory \<Rightarrow> obmm_mpsc_consumer_set \<Rightarrow> nat \<Rightarrow> obmm_desc \<Rightarrow> u32 \<Rightarrow> u64 \<Rightarrow>
     queue_memory \<Rightarrow> obmm_mpsc_consumer_set \<Rightarrow> bool" where
  "served mem rx m d src seq mem' rx' \<longleftrightarrow>
     (let lane = ms_lane rx ! turn rx m in
      \<exists>q. obmm_spsc_pop (mem (ln_queue lane)) = (Some d, q) \<and> src = ln_publisher_node lane \<and>
          seq = ms_rx_seq rx \<and> mem' = mem(ln_queue lane := q) \<and>
          rx' = rx\<lparr>ms_rx_seq := ms_rx_seq rx + 1,
                   ms_next_lane := ((ms_next_lane rx + of_nat m) mod ms_lane_count rx + 1)
                                     mod ms_lane_count rx\<rparr>)"

definition poll_outcome ::
    "nat \<Rightarrow> queue_memory \<Rightarrow> obmm_mpsc_consumer_set \<Rightarrow>
     (obmm_desc \<times> u32 \<times> u64) option \<times> queue_memory \<times> obmm_mpsc_consumer_set \<Rightarrow> bool" where
  "poll_outcome n mem rx res \<longleftrightarrow>
     (res = (None, mem, rx) \<and>
      (\<forall>m. n \<le> m \<and> m < length (ms_lane rx) \<longrightarrow> lane_items mem rx (turn rx m) = [])) \<or>
     (\<exists>m d src seq mem' rx'. res = (Some (d, src, seq), mem', rx') \<and>
        n \<le> m \<and> m < length (ms_lane rx) \<and> served mem rx m d src seq mem' rx' \<and>
        (\<forall>k. n \<le> k \<and> k < m \<longrightarrow> lane_items mem rx (turn rx k) = []))"

lemma poll_outcome_skip:
  assumes "lane_items mem rx (turn rx n) = []" "poll_outcome (Suc n) mem rx res"
  shows "poll_outcome n mem rx res"
proof -
  have "lane_items mem rx (turn rx k) = []"
    if "\<forall>k. Suc n \<le> k \<and> k < b \<longrightarrow> lane_items mem rx (turn rx k) = []" "n \<le> k" "k < b" for k b
    using that assms(1) by (cases "k = n") auto
  note below = this
  from assms(2) show ?thesis
    unfolding poll_outcome_def
  proof (elim disjE exE conjE)
    fix m d src seq mem' rx'
    assume a: "res = (Some (d, src, seq), mem', rx')" "Suc n \<le> m" "m < length (ms_lane rx)"
      "served mem rx m d src seq mem' rx'"
      "\<forall>k. Suc n \<le> k \<and> k < m \<longrightarrow> lane_items mem rx (turn rx k) = []"
    show "res = (None, mem, rx) \<and>
        (\<forall>m. n \<le> m \<and> m < length (ms_lane rx) \<longrightarrow> lane_items mem rx (turn rx m) = []) \<or>
      (\<exists>m d src seq mem' rx'. res = (Some (d, src, seq), mem', rx') \<and>
        n \<le> m \<and> m < length (ms_lane rx) \<and> served mem rx m d src seq mem' rx' \<and>
        (\<forall>k. n \<le> k \<and> k < m \<longrightarrow> lane_items mem rx (turn rx k) = []))"
      using a(1-4) below [OF a(5)] by (intro disjI2 exI conjI) auto
  qed (use below in blast)
qed

lemma poll_loop_outcome:
  assumes wf: "lanes_wf mem rx"
  shows "poll_outcome n mem rx (poll_loop n mem rx)"
proof (induction "length (ms_lane rx) - n" arbitrary: n)
  case 0
  then show ?case
    using wf by (subst poll_loop.simps) (auto simp: poll_outcome_def lanes_wf_def)
next
  case (Suc k)
  then have n: "n < length (ms_lane rx)" by simp
  let ?lane = "ms_lane rx ! turn rx n"
  have count: "unat (ms_lane_count rx) = length (ms_lane rx)" using wf by (simp add: lanes_wf_def)
  have idx: "unat ((ms_next_lane rx + of_nat n) mod ms_lane_count rx) = turn rx n"
    using lane_of_round [OF wf n] .
  have "spsc_wf (mem (ln_queue ?lane))" using wf turn_less [OF wf] by (simp add: lanes_wf_def)
  then show ?case
  proof (cases rule: spsc.pop_cases)
    case empty
    have "poll_loop n mem rx = poll_loop (Suc n) mem rx"
      using n count idx empty(1) by (subst (1) poll_loop.simps) (simp add: Let_def)
    moreover have "lane_items mem rx (turn rx n) = []" using empty(2) by (simp add: lane_items_def)
    moreover have "poll_outcome (Suc n) mem rx (poll_loop (Suc n) mem rx)" using Suc by simp
    ultimately show ?thesis by (simp add: poll_outcome_skip)
  next
    case (first d ds q)
    then have "poll_loop n mem rx = (Some (d, ln_publisher_node ?lane, ms_rx_seq rx),
        mem(ln_queue ?lane := q),
        rx\<lparr>ms_rx_seq := ms_rx_seq rx + 1,
           ms_next_lane := ((ms_next_lane rx + of_nat n) mod ms_lane_count rx + 1) mod ms_lane_count rx\<rparr>)"
      using n count idx by (subst poll_loop.simps) (simp add: Let_def)
    then show ?thesis using first(1) n by (auto simp: poll_outcome_def served_def Let_def)
  qed
qed

text \<open>The state after a lane has been served.\<close>

lemma served_state:
  assumes wf: "lanes_wf mem rx" and m: "m < length (ms_lane rx)"
    and served: "served mem rx m d src seq mem' rx'"
  defines "i \<equiv> turn rx m"
  shows "lanes_wf mem' rx'" and "ms_lane rx' = ms_lane rx"
    and "lane_items mem rx i = d # lane_items mem' rx' i"
    and "\<And>j. j < length (ms_lane rx) \<Longrightarrow> j \<noteq> i \<Longrightarrow> lane_items mem' rx' j = lane_items mem rx j"
    and "unat (ms_next_lane rx') = (i + 1) mod length (ms_lane rx)"
    and "src = ln_publisher_node (ms_lane rx ! i)"
proof -
  let ?lane = "ms_lane rx ! i"
  have i: "i < length (ms_lane rx)" using turn_less [OF wf] by (simp add: i_def)
  obtain q where pop: "obmm_spsc_pop (mem (ln_queue ?lane)) = (Some d, q)"
    and mem': "mem' = mem(ln_queue ?lane := q)" and src: "src = ln_publisher_node ?lane"
    and rx': "rx' = rx\<lparr>ms_rx_seq := ms_rx_seq rx + 1, ms_next_lane :=
      ((ms_next_lane rx + of_nat m) mod ms_lane_count rx + 1) mod ms_lane_count rx\<rparr>"
    using served by (auto simp: served_def Let_def i_def)
  have q0: "spsc_wf (mem (ln_queue ?lane))" using wf i by (simp add: lanes_wf_def)
  then have q: "spsc_wf q" "spsc_contents (mem (ln_queue ?lane)) = d # spsc_contents q"
    by (cases rule: spsc.pop_cases; use pop in auto)+
  show lanes: "ms_lane rx' = ms_lane rx" by (simp add: rx')
  have other: "ln_queue (ms_lane rx ! j) \<noteq> ln_queue ?lane" if "j < length (ms_lane rx)" "j \<noteq> i" for j
    using wf i that by (auto simp: lanes_wf_def distinct_conv_nth)
  show "lane_items mem rx i = d # lane_items mem' rx' i" using q(2) by (simp add: lane_items_def lanes mem')
  show "\<And>j. j < length (ms_lane rx) \<Longrightarrow> j \<noteq> i \<Longrightarrow> lane_items mem' rx' j = lane_items mem rx j"
    using other by (simp add: lane_items_def lanes mem')
  have cnt: "unat (ms_lane_count rx) = length (ms_lane rx)" "length (ms_lane rx) \<le> 64"
    using wf by (simp_all add: lanes_wf_def)
  have r: "unat ((ms_next_lane rx + of_nat m) mod ms_lane_count rx) = i"
    using lane_of_round [OF wf m] by (simp add: i_def)
  then have "unat ((ms_next_lane rx + of_nat m) mod ms_lane_count rx + of_nat 1) = i + 1"
    using unat_add_small [of "(ms_next_lane rx + of_nat m) mod ms_lane_count rx" 1] i cnt(2) by linarith
  then show nxt: "unat (ms_next_lane rx') = (i + 1) mod length (ms_lane rx)"
    using cnt by (simp add: rx' unat_mod)
  have "\<forall>l\<in>set (ms_lane rx). spsc_wf (mem' (ln_queue l))" using wf q(1) by (simp add: lanes_wf_def mem')
  then show "lanes_wf mem' rx'" using wf nxt lanes cnt by (simp add: lanes_wf_def rx')
  show "src = ln_publisher_node (ms_lane rx ! i)" by (rule src)
qed

lemma served_wait:
  assumes wf: "lanes_wf mem rx" and m: "m < length (ms_lane rx)"
    and served: "served mem rx m d src seq mem' rx'"
    and j: "j < length (ms_lane rx)" "m < wait_for rx j"
  shows "wait_for rx' j < wait_for rx j"
proof -
  let ?c = "length (ms_lane rx)" and ?k = "wait_for rx j - m - 1"
  note s = served_state [OF wf m served]
  have "turn rx' ?k = (turn rx m + 1 + ?k) mod ?c"
    using s(2,5) by (simp add: turn_def mod_add_left_eq)
  also have "\<dots> = (unat (ms_next_lane rx) + (m + 1 + ?k)) mod ?c"
    unfolding turn_def
    using mod_add_left_eq [of "unat (ms_next_lane rx) + m" ?c "1 + ?k"] by (simp add: ac_simps)
  also have "\<dots> = turn rx (wait_for rx j)" using j(2) by (simp add: turn_def)
  finally have "turn rx' ?k = j" using turn_wait [OF wf j(1)] by simp
  moreover have "?k < ?c" using wait_less [OF wf, of j] by simp
  moreover have "unat (ms_next_lane rx') < ?c" using s(1,2) by (simp add: lanes_wf_def)
  ultimately have "wait_for rx' j = ?k" using wait_unique [of rx' ?k j] s(2) by simp
  then show ?thesis using j(2) by simp
qed

section \<open>Traffic on the bus\<close>

text \<open>Any node may send at any time, with its own bus; one node receives. A run collects what was
  received, with the node it came from, and what was accepted, with the ring it was put into.\<close>

datatype bus_event = Ev_send obmm_mpmc_bus u32 obmm_desc | Ev_recv

definition sent_to :: "obmm_mpmc_bus \<Rightarrow> u32 \<Rightarrow> nat" where
  "sent_to bus target = (case bus_tx bus (unat target) of None \<Rightarrow> 0 | Some lane \<Rightarrow> pl_queue lane)"

fun run_bus :: "queue_memory \<Rightarrow> obmm_mpmc_bus \<Rightarrow> bus_event list \<Rightarrow>
    (obmm_desc \<times> u32) list \<times> (nat \<times> obmm_desc) list \<times> queue_memory \<times> obmm_mpmc_bus" where
  "run_bus mem bus [] = ([], [], mem, bus)"
| "run_bus mem bus (Ev_send sender target d # evs) =
     (let (rc, mem') = obmm_mpmc_send mem sender target d;
          (received, accepted, mem'', bus') = run_bus mem' bus evs in
      (received, if rc = OBMM_OK then (sent_to sender target, d) # accepted else accepted, mem'', bus'))"
| "run_bus mem bus (Ev_recv # evs) =
     (let (r, mem', bus') = obmm_mpmc_recv mem bus;
          (received, accepted, mem'', bus'') = run_bus mem' bus' evs in
      (case r of None \<Rightarrow> received | Some m \<Rightarrow> m # received, accepted, mem'', bus''))"

definition received_from :: "u32 \<Rightarrow> (obmm_desc \<times> u32) list \<Rightarrow> obmm_desc list" where
  "received_from src received = map fst (filter (\<lambda>m. snd m = src) received)"

definition accepted_at :: "nat \<Rightarrow> (nat \<times> obmm_desc) list \<Rightarrow> obmm_desc list" where
  "accepted_at a accepted = map snd (filter (\<lambda>m. fst m = a) accepted)"

definition polls :: "bus_event list \<Rightarrow> nat" where
  "polls evs = length (filter (\<lambda>e. e = Ev_recv) evs)"

lemma polls_simps [simp]:
  "polls [] = 0" "polls (Ev_send b t d # evs) = polls evs" "polls (Ev_recv # evs) = Suc (polls evs)"
  by (simp_all add: polls_def)

lemma received_from_simps [simp]:
  "received_from src [] = []"
  "received_from src ((d, s) # ms) = (if s = src then d # received_from src ms else received_from src ms)"
  by (simp_all add: received_from_def)

lemma accepted_at_simps [simp]:
  "accepted_at a [] = []"
  "accepted_at a ((b, d) # ms) = (if b = a then d # accepted_at a ms else accepted_at a ms)"
  by (simp_all add: accepted_at_def)

lemma send_lanes:
  assumes wf: "lanes_wf mem rx" and send: "obmm_mpmc_send mem sender target d = (rc, mem')"
    and j: "j < length (ms_lane rx)"
  shows "lanes_wf mem' rx"
    and "lane_items mem' rx j = lane_items mem rx j @
      (if rc = OBMM_OK \<and> sent_to sender target = ln_queue (ms_lane rx ! j) then [d] else [])"
proof -
  have "lanes_wf mem' rx \<and> lane_items mem' rx j = lane_items mem rx j @
      (if rc = OBMM_OK \<and> sent_to sender target = ln_queue (ms_lane rx ! j) then [d] else [])"
  proof (cases "unat target \<ge> OBMM_MPSC_MAX_LANES \<or> bus_tx sender (unat target) = None")
    case True
    then have "mem' = mem" "rc = E_NOENT" using send by (auto simp: obmm_mpmc_send_def split: if_splits)
    then show ?thesis using wf by simp
  next
    case False
    then obtain lane where lane: "bus_tx sender (unat target) = Some lane" by auto
    let ?a = "pl_queue lane"
    obtain q where push: "obmm_spsc_push (mem ?a) d = (rc, q)" and mem': "mem' = mem(?a := q)"
      using send False lane by (auto simp: obmm_mpmc_send_def obmm_mpsc_push_def split: prod.splits)
    have q: "spsc_wf q \<and> spsc_contents q = spsc_contents (mem ?a) @ (if rc = OBMM_OK then [d] else [])"
      if "spsc_wf (mem ?a)"
      by (rule spsc.push_cases [OF that, of d]) (use push that in auto)
    have "spsc_wf (mem' (ln_queue l))" if "l \<in> set (ms_lane rx)" for l
      using that wf q by (cases "ln_queue l = ?a") (auto simp: mem' lanes_wf_def)
    moreover have "spsc_wf (mem (ln_queue (ms_lane rx ! j)))" using wf j by (simp add: lanes_wf_def)
    ultimately show ?thesis
      using wf q lane by (auto simp: lanes_wf_def lane_items_def mem' sent_to_def)
  qed
  then show "lanes_wf mem' rx"
    and "lane_items mem' rx j = lane_items mem rx j @
      (if rc = OBMM_OK \<and> sent_to sender target = ln_queue (ms_lane rx ! j) then [d] else [])"
    by simp_all
qed

lemma recv_cases:
  assumes wf: "lanes_wf mem (bus_rx bus)"
  obtains (none) "obmm_mpmc_recv mem bus = (None, mem, bus)"
      "\<forall>j<length (ms_lane (bus_rx bus)). lane_items mem (bus_rx bus) j = []"
    | (some) m d src seq mem' rx' where
      "obmm_mpmc_recv mem bus = (Some (d, src), mem', bus\<lparr>bus_rx := rx'\<rparr>)"
      "m < length (ms_lane (bus_rx bus))" "served mem (bus_rx bus) m d src seq mem' rx'"
      "\<And>j. j < length (ms_lane (bus_rx bus)) \<Longrightarrow> lane_items mem (bus_rx bus) j \<noteq> [] \<Longrightarrow>
         m \<le> wait_for (bus_rx bus) j"
proof -
  let ?rx = "bus_rx bus"
  have out: "poll_outcome 0 mem ?rx (obmm_mpsc_poll mem ?rx)"
    unfolding obmm_mpsc_poll_def by (rule poll_loop_outcome [OF wf])
  have at: "lane_items mem ?rx (turn ?rx (wait_for ?rx j)) = lane_items mem ?rx j"
    "wait_for ?rx j < length (ms_lane ?rx)" if "j < length (ms_lane ?rx)" for j
    using turn_wait [OF wf that] wait_less [OF wf] by simp_all
  from out show thesis
    unfolding poll_outcome_def
  proof (elim disjE exE conjE)
    assume p: "obmm_mpsc_poll mem ?rx = (None, mem, ?rx)"
      "\<forall>m. 0 \<le> m \<and> m < length (ms_lane ?rx) \<longrightarrow> lane_items mem ?rx (turn ?rx m) = []"
    have "\<forall>j<length (ms_lane ?rx). lane_items mem ?rx j = []"
    proof (intro allI impI)
      fix j assume j: "j < length (ms_lane ?rx)"
      show "lane_items mem ?rx j = []" using p(2) at [OF j] by (metis zero_le)
    qed
    moreover have "obmm_mpmc_recv mem bus = (None, mem, bus)"
      using p(1) by (simp add: obmm_mpmc_recv_def)
    ultimately show thesis by (rule none [rotated])
  next
    fix m d src seq mem' rx'
    assume p: "obmm_mpsc_poll mem ?rx = (Some (d, src, seq), mem', rx')" "m < length (ms_lane ?rx)"
      "served mem ?rx m d src seq mem' rx'"
      "\<forall>k. 0 \<le> k \<and> k < m \<longrightarrow> lane_items mem ?rx (turn ?rx k) = []"
    have "m \<le> wait_for ?rx j" if "j < length (ms_lane ?rx)" "lane_items mem ?rx j \<noteq> []" for j
      using p(4) at(1) [OF that(1)] that(2) by (metis leI zero_le)
    moreover have "obmm_mpmc_recv mem bus = (Some (d, src), mem', bus\<lparr>bus_rx := rx'\<rparr>)"
      using p(1) by (simp add: obmm_mpmc_recv_def)
    ultimately show thesis using some p(2,3) by blast
  qed
qed

lemma run_bus_conserves:
  "lanes_wf mem (bus_rx bus) \<Longrightarrow> j < length (ms_lane (bus_rx bus)) \<Longrightarrow>
   run_bus mem bus evs = (received, accepted, mem', bus') \<Longrightarrow>
   lanes_wf mem' (bus_rx bus') \<and> ms_lane (bus_rx bus') = ms_lane (bus_rx bus) \<and>
   lane_items mem (bus_rx bus) j @ accepted_at (ln_queue (ms_lane (bus_rx bus) ! j)) accepted =
   received_from (ln_publisher_node (ms_lane (bus_rx bus) ! j)) received @ lane_items mem' (bus_rx bus') j"
proof (induction mem bus evs arbitrary: received accepted rule: run_bus.induct)
  case (1 mem bus)
  then show ?case by simp
next
  case (2 mem bus sender target d evs)
  obtain rc mem1 where send: "obmm_mpmc_send mem sender target d = (rc, mem1)" by fastforce
  obtain accepted1 where run: "run_bus mem1 bus evs = (received, accepted1, mem', bus')"
    and acc: "accepted = (if rc = OBMM_OK then (sent_to sender target, d) # accepted1 else accepted1)"
    using "2.prems"(3) send by (auto split: prod.splits)
  note s = send_lanes [OF "2.prems"(1) send "2.prems"(2)]
  show ?case
    using "2.IH" [OF send [symmetric] refl s(1) "2.prems"(2) run] s(2) acc by (auto split: if_splits)
next
  case (3 mem bus evs)
  let ?rx = "bus_rx bus"
  from "3.prems"(1) show ?case
  proof (cases rule: recv_cases)
    case none
    then have "run_bus mem bus evs = (received, accepted, mem', bus')"
      using "3.prems"(3) by (auto split: prod.splits)
    then show ?thesis using "3.IH" [OF none(1) [symmetric] refl refl] "3.prems"(1,2) by simp
  next
    case (some m d src seq mem1 rx1)
    let ?bus1 = "bus\<lparr>bus_rx := rx1\<rparr>"
    note st = served_state [OF "3.prems"(1) some(2,3)]
    obtain received1 where run: "run_bus mem1 ?bus1 evs = (received1, accepted, mem', bus')"
      and rec: "received = (d, src) # received1"
      using "3.prems"(3) some(1) by (auto split: prod.splits)
    have ih: "lanes_wf mem' (bus_rx bus') \<and> ms_lane (bus_rx bus') = ms_lane ?rx \<and>
        lane_items mem1 rx1 j @ accepted_at (ln_queue (ms_lane ?rx ! j)) accepted =
        received_from (ln_publisher_node (ms_lane ?rx ! j)) received1 @ lane_items mem' (bus_rx bus') j"
      using "3.IH" [OF some(1) [symmetric] refl refl _ _ run] st(1,2) "3.prems"(2) by simp
    show ?thesis
    proof (cases "j = turn ?rx m")
      case True
      then show ?thesis using ih st(3,6) rec by simp
    next
      case False
      have "src \<noteq> ln_publisher_node (ms_lane ?rx ! j)"
        using False "3.prems"(1,2) st(6) turn_less [OF "3.prems"(1)]
        by (auto simp: lanes_wf_def distinct_conv_nth)
      then show ?thesis using ih st(4) [OF "3.prems"(2) False] rec by simp
    qed
  qed
qed

lemma run_bus_serves:
  "lanes_wf mem (bus_rx bus) \<Longrightarrow> j < length (ms_lane (bus_rx bus)) \<Longrightarrow>
   run_bus mem bus evs = (received, accepted, mem', bus') \<Longrightarrow>
   Suc k \<le> length (lane_items mem (bus_rx bus) j) \<Longrightarrow>
   wait_for (bus_rx bus) j + 1 + k * length (ms_lane (bus_rx bus)) \<le> polls evs \<Longrightarrow>
   Suc k \<le> length (received_from (ln_publisher_node (ms_lane (bus_rx bus) ! j)) received)"
proof (induction mem bus evs arbitrary: received accepted k rule: run_bus.induct)
  case (1 mem bus)
  then show ?case by simp
next
  case (2 mem bus sender target d evs)
  obtain rc mem1 where send: "obmm_mpmc_send mem sender target d = (rc, mem1)" by fastforce
  obtain accepted1 where run: "run_bus mem1 bus evs = (received, accepted1, mem', bus')"
    using "2.prems"(3) send by (auto split: prod.splits)
  note s = send_lanes [OF "2.prems"(1) send "2.prems"(2)]
  show ?case
    using "2.IH" [OF send [symmetric] refl s(1) "2.prems"(2) run] s(2) "2.prems"(4,5) by simp
next
  case (3 mem bus evs)
  let ?rx = "bus_rx bus" and ?c = "length (ms_lane (bus_rx bus))"
  from "3.prems"(1) show ?case
  proof (cases rule: recv_cases)
    case none
    then show ?thesis using "3.prems"(2,4) by simp
  next
    case (some m d src seq mem1 rx1)
    let ?bus1 = "bus\<lparr>bus_rx := rx1\<rparr>"
    note st = served_state [OF "3.prems"(1) some(2,3)]
    have "lane_items mem ?rx j \<noteq> []" using "3.prems"(4) by auto
    then have waits: "m \<le> wait_for ?rx j" using some(4) [OF "3.prems"(2)] by simp
    obtain received1 where run: "run_bus mem1 ?bus1 evs = (received1, accepted, mem', bus')"
      and rec: "received = (d, src) # received1"
      using "3.prems"(3) some(1) by (auto split: prod.splits)
    have ih: "Suc k' \<le> length (received_from (ln_publisher_node (ms_lane ?rx ! j)) received1)"
      if "Suc k' \<le> length (lane_items mem1 rx1 j)" "wait_for rx1 j + 1 + k' * ?c \<le> polls evs" for k'
      using "3.IH" [OF some(1) [symmetric] refl refl _ _ run, of k'] st(1,2) "3.prems"(2) that by simp
    show ?thesis
    proof (cases "m = wait_for ?rx j")
      case True
      then have j: "turn ?rx m = j" using turn_wait [OF "3.prems"(1,2)] by simp
      have src: "src = ln_publisher_node (ms_lane ?rx ! j)" using st(6) j by simp
      have len: "length (lane_items mem ?rx j) = Suc (length (lane_items mem1 rx1 j))"
        using st(3) j by simp
      have less: "wait_for rx1 j < ?c" using wait_less [OF st(1)] st(2) by simp
      show ?thesis
      proof (cases k)
        case 0
        then show ?thesis using rec src by simp
      next
        case (Suc k')
        have "Suc k' \<le> length (received_from (ln_publisher_node (ms_lane ?rx ! j)) received1)"
          using "3.prems"(4,5) Suc len less by (intro ih) simp_all
        then show ?thesis using rec src Suc by simp
      qed
    next
      case False
      then have lt: "m < wait_for ?rx j" using waits by simp
      have "wait_for rx1 j < wait_for ?rx j"
        using served_wait [OF "3.prems"(1) some(2,3) "3.prems"(2) lt] .
      moreover have "turn ?rx m \<noteq> j"
        using wait_unique [of ?rx m j] "3.prems"(1) some(2) False by (auto simp: lanes_wf_def)
      then have "lane_items mem1 rx1 j = lane_items mem ?rx j" using st(4) "3.prems"(2) by simp
      ultimately have "Suc k \<le> length (received_from (ln_publisher_node (ms_lane ?rx ! j)) received1)"
        using "3.prems"(4,5) by (intro ih) simp_all
      then show ?thesis using rec by simp
    qed
  qed
qed

section \<open>Properties\<close>

text \<open>C12. Every lane of the bus is a lossless FIFO channel, and none of them starves. In any run in
  which nodes send at will and one node receives, what a publisher's ring held at first followed by
  what it accepted is what was received from that publisher, in that order and attributed to it,
  followed by what the ring still holds. The receiver that polls \<open>k\<close> times as often as it has lanes
  has received at least \<open>k\<close> descriptors of every ring that held as many, whatever the others sent.\<close>

theorem mpmc_delivers_in_order:
  assumes "lanes_wf mem (bus_rx bus)" and "j < length (ms_lane (bus_rx bus))"
    and "run_bus mem bus evs = (received, accepted, mem', bus')"
  shows "lane_items mem (bus_rx bus) j @ accepted_at (ln_queue (ms_lane (bus_rx bus) ! j)) accepted =
      received_from (ln_publisher_node (ms_lane (bus_rx bus) ! j)) received @ lane_items mem' (bus_rx bus') j \<and>
    (\<forall>k. k \<le> length (lane_items mem (bus_rx bus) j) \<and> k * length (ms_lane (bus_rx bus)) \<le> polls evs \<longrightarrow>
       k \<le> length (received_from (ln_publisher_node (ms_lane (bus_rx bus) ! j)) received))"
proof -
  have "k \<le> length (received_from (ln_publisher_node (ms_lane (bus_rx bus) ! j)) received)"
    if "k \<le> length (lane_items mem (bus_rx bus) j)" "k * length (ms_lane (bus_rx bus)) \<le> polls evs" for k
  proof (cases k)
    case (Suc n)
    then show ?thesis
      using run_bus_serves [OF assms, of n] that wait_less [OF assms(1), of j] by simp
  qed simp
  then show ?thesis using run_bus_conserves [OF assms] by simp
qed

definition demo_ring :: obmm_spsc_queue where
  "demo_ring = \<lparr>q_head = 0, q_tail = 0, q_size = 64, q_mask = 63, q_desc = replicate 64 zero_desc\<rparr>"

definition demo_lane :: "u32 \<Rightarrow> nat \<Rightarrow> obmm_mpsc_lane" where
  "demo_lane node a = \<lparr>ln_publisher_node = node, ln_weight = 1, ln_credit = 0, ln_queue = a\<rparr>"

definition demo_bus :: obmm_mpmc_bus where
  "demo_bus = \<lparr>bus_node_count = 3, bus_local_node = 0,
     bus_rx = \<lparr>ms_consumer_node = 0, ms_lane_count = 2, ms_next_lane = 0, ms_budget = 1, ms_rx_seq = 0,
               ms_lane = [demo_lane 5 1, demo_lane 9 2]\<rparr>,
     bus_tx = (\<lambda>_. None)\<rparr>"

lemma demo_ring_wf: "spsc_wf demo_ring" "spsc_contents demo_ring = []" "spsc_depth demo_ring = 64"
proof -
  have "obmm_spsc_queue_init 64 = Some demo_ring"
    by (simp add: obmm_spsc_queue_init_def demo_ring_def depth_ok_def OBMM_QUEUE_MIN_DEPTH_def
        OBMM_QUEUE_MAX_DEPTH_def)
  from init_wf [OF this] show "spsc_wf demo_ring" "spsc_contents demo_ring = []" "spsc_depth demo_ring = 64"
    by simp_all
qed

theorem mpmc_delivers_in_order_witness:
  "\<exists>q mem' bus' received. spsc_contents q = [zero_desc] \<and>
     run_bus ((\<lambda>_. demo_ring)(2 := q)) demo_bus [Ev_recv, Ev_recv] = (received, [], mem', bus') \<and>
     1 \<le> length (received_from 9 received)"
proof -
  obtain q where q: "spsc_wf q" "spsc_contents q = [zero_desc]"
    using spsc.push_room [OF demo_ring_wf(1), of zero_desc] demo_ring_wf by auto
  let ?mem = "(\<lambda>_. demo_ring)(2 := q)"
  have wf: "lanes_wf ?mem (bus_rx demo_bus)"
    using q demo_ring_wf by (simp add: lanes_wf_def demo_bus_def demo_lane_def)
  obtain received accepted mem' bus' where
    run: "run_bus ?mem demo_bus [Ev_recv, Ev_recv] = (received, accepted, mem', bus')"
    by (metis prod_cases4)
  have acc: "accepted = []" using run by (auto split: prod.splits)
  have "1 < length (ms_lane (bus_rx demo_bus))" by (simp add: demo_bus_def)
  from mpmc_delivers_in_order [OF wf this run]
  have "1 \<le> length (received_from 9 received)"
    using q by (auto simp: demo_bus_def demo_lane_def lane_items_def)
  then show ?thesis using q(2) run acc by blast
qed

text \<open>The scan of the directory stops after \<open>OBMM_MPSC_MAX_LANES\<close> entries, of whatever kind: a queue
  beyond them has no lane, and its publisher is never polled.\<close>

lemma late_queue_has_no_lane:
  assumes "length dir = OBMM_MPSC_MAX_LANES"
    and "obmm_mpsc_consumer_set_init_from_directory dir node = Inr rx" "length (ms_lane rx) < 64"
  shows "obmm_mpsc_consumer_set_init_from_directory (dir @ [e]) node = Inr rx"
  using assms
  by (auto simp: obmm_mpsc_consumer_set_init_from_directory_def OBMM_MPSC_MAX_LANES_def
      split: option.splits if_splits)

end
