(* ===== verification/Obmm_Spmc.thy ===== *)
theory Obmm_Spmc
  imports Obmm_Spsc
begin

text \<open>
  The broadcast stream of the OBMM queue library (\<open>obmm_spmc_queue.h\<close>): one provider writes a ring of
  descriptors, every consumer reads all of them through a cursor of its own. The counters have 64 bits
  and are compared as numbers, so the theorems bound the number of publications by \<open>2\<^sup>6\<^sup>4\<close>.
\<close>

section \<open>Shared-memory types\<close>

definition OBMM_SPMC_MAGIC :: u64 where "OBMM_SPMC_MAGIC = 0x4f424d53504d4301"
definition OBMM_SPMC_VERSION :: u32 where "OBMM_SPMC_VERSION = 1"
definition OBMM_SPMC_MAX_CONSUMERS :: u32 where "OBMM_SPMC_MAX_CONSUMERS = 64"
definition OBMM_SPMC_F_STRICT :: u32 where "OBMM_SPMC_F_STRICT = 1"

datatype obmm_spmc_cursor_state =
  CONSUMER_DETACHED | CONSUMER_ATTACHING | CONSUMER_ACTIVE | CONSUMER_PAUSED | CONSUMER_DEAD

record obmm_spmc_consumer_cursor =
  cu_head :: u64
  cu_observed_seq :: u64
  cu_drop_count :: u64
  cu_state :: obmm_spmc_cursor_state
  cu_generation_seen :: u32
  cu_node_id :: u32

record obmm_spmc_stream =
  st_magic :: u64
  st_active_consumer_mask :: u64
  st_generation :: u64
  st_version :: u32
  st_flags :: u32
  st_header_bytes :: u32
  st_cursor_offset :: u32
  st_desc_offset :: u32
  st_depth :: u32
  st_mask :: u32
  st_max_consumers :: u32
  st_provider_node :: u32
  st_tail :: u64
  st_cursors :: "obmm_spmc_consumer_cursor list"
  st_ring :: "obmm_desc list"

record obmm_spmc_stream_view =
  vw_pool_base :: u64
  vw_pool_size :: u64
  vw_dir :: "obmm_region_dirent list"
  vw_provider_node :: u32
  vw_stream_offset :: u64

record obmm_spmc_tx_reclaim_state =
  rs_desc_reclaimed_to :: u64
  rs_tx_reclaim_offset :: u64

definition sizeof_obmm_spmc_stream :: u64 where "sizeof_obmm_spmc_stream = 128"
definition sizeof_obmm_spmc_consumer_cursor :: u64 where "sizeof_obmm_spmc_consumer_cursor = 64"

definition zero_cursor :: obmm_spmc_consumer_cursor where
  "zero_cursor = \<lparr>cu_head = 0, cu_observed_seq = 0, cu_drop_count = 0, cu_state = CONSUMER_DETACHED,
     cu_generation_seen = 0, cu_node_id = 0\<rparr>"

text \<open>\<open>OBMM_FOR_EACH_NODE_ID\<close>: the bits of a mask from the lowest.\<close>

definition node_ids :: "u64 \<Rightarrow> nat list" where
  "node_ids m = filter (bit m) [0..<64]"

section \<open>Layout and initialisation\<close>

definition obmm_spmc_region_size :: "u32 \<Rightarrow> u32 \<Rightarrow> u64" where
  "obmm_spmc_region_size depth max_consumers = (
     let cursor_off = obmm_align_up_u64 sizeof_obmm_spmc_stream 64;
         desc_off = obmm_align_up_u64
           (cursor_off + ucast max_consumers * sizeof_obmm_spmc_consumer_cursor) 64 in
     desc_off + ucast depth * sizeof_obmm_desc)"

definition mask_too_wide :: "u64 \<Rightarrow> u32 \<Rightarrow> bool" where
  "mask_too_wide consumer_mask max_consumers \<longleftrightarrow>
     consumer_mask \<noteq> 0 \<and> last (node_ids consumer_mask) \<ge> unat max_consumers"

definition activate :: "u64 \<Rightarrow> nat \<Rightarrow> obmm_spmc_consumer_cursor \<Rightarrow> obmm_spmc_consumer_cursor" where
  "activate generation nid c = c\<lparr>cu_node_id := of_nat nid, cu_generation_seen := ucast generation,
     cu_state := CONSUMER_ACTIVE\<rparr>"

definition activate_all :: "u64 \<Rightarrow> nat list \<Rightarrow> obmm_spmc_consumer_cursor list \<Rightarrow> obmm_spmc_consumer_cursor list" where
  "activate_all generation ids cs = foldl (\<lambda>cs nid. cs[nid := activate generation nid (cs ! nid)]) cs ids"

definition obmm_spmc_stream_init :: "u32 \<Rightarrow> u32 \<Rightarrow> u32 \<Rightarrow> u64 \<Rightarrow> obmm_spmc_stream option" where
  "obmm_spmc_stream_init depth max_consumers provider_node consumer_mask = (
     if \<not> depth_ok depth then None
     else if max_consumers = 0 \<or> max_consumers > OBMM_SPMC_MAX_CONSUMERS then None
     else if mask_too_wide consumer_mask max_consumers then None
     else
       let cursor_off = obmm_align_up_u64 sizeof_obmm_spmc_stream 64;
           desc_off = obmm_align_up_u64
             (cursor_off + ucast max_consumers * sizeof_obmm_spmc_consumer_cursor) 64 in
       Some \<lparr>st_magic = OBMM_SPMC_MAGIC, st_active_consumer_mask = consumer_mask, st_generation = 1,
             st_version = OBMM_SPMC_VERSION, st_flags = OBMM_SPMC_F_STRICT,
             st_header_bytes = ucast sizeof_obmm_spmc_stream, st_cursor_offset = ucast cursor_off,
             st_desc_offset = ucast desc_off, st_depth = depth, st_mask = depth - 1,
             st_max_consumers = max_consumers, st_provider_node = provider_node, st_tail = 0,
             st_cursors = activate_all 1 (node_ids consumer_mask)
                            (replicate (unat max_consumers) zero_cursor),
             st_ring = replicate (unat depth) zero_desc\<rparr>)"

text \<open>The header found at the offset of the region is an argument, \<open>stream_at\<close>.\<close>

definition obmm_spmc_view_init_from_directory ::
    "(u64 \<Rightarrow> obmm_spmc_stream) \<Rightarrow> u64 \<Rightarrow> u64 \<Rightarrow> obmm_region_dirent list \<Rightarrow> u32 \<Rightarrow>
     obmm_rc + obmm_spmc_stream_view" where
  "obmm_spmc_view_init_from_directory stream_at pool_base pool_size dir provider_node = (
     case filter (\<lambda>e. de_kind e = OBMM_REGION_SPMC_STREAM) dir of
       [] \<Rightarrow> Inl E_NOENT
     | ent # others \<Rightarrow>
         if others \<noteq> [] then Inl E_EXIST
         else if de_offset ent > pool_size \<or> de_size ent > pool_size - de_offset ent then Inl E_INVAL
         else if de_size ent < sizeof_obmm_spmc_stream then Inl E_INVAL
         else let s = stream_at (de_offset ent) in
           if st_magic s \<noteq> OBMM_SPMC_MAGIC then Inl E_INVAL
           else if st_version s \<noteq> OBMM_SPMC_VERSION then Inl E_INVAL
           else if st_provider_node s \<noteq> provider_node then Inl E_INVAL
           else if st_max_consumers s = 0 \<or> st_max_consumers s > OBMM_SPMC_MAX_CONSUMERS then Inl E_INVAL
           else if st_depth s < OBMM_QUEUE_MIN_DEPTH \<or> st_depth s > OBMM_QUEUE_MAX_DEPTH then Inl E_INVAL
           else if st_depth s AND (st_depth s - 1) \<noteq> 0 then Inl E_INVAL
           else if ucast (st_cursor_offset s) < sizeof_obmm_spmc_stream \<or>
                   st_cursor_offset s AND 63 \<noteq> 0 then Inl E_INVAL
           else if st_desc_offset s < st_cursor_offset s \<or> st_desc_offset s AND 63 \<noteq> 0 then Inl E_INVAL
           else if ucast (st_desc_offset s - st_cursor_offset s) <
                   ucast (st_max_consumers s) * sizeof_obmm_spmc_consumer_cursor then Inl E_INVAL
           else if ucast (st_desc_offset s) > de_size ent \<or>
                   ucast (st_depth s) * sizeof_obmm_desc > de_size ent - ucast (st_desc_offset s)
                then Inl E_INVAL
           else Inr \<lparr>vw_pool_base = pool_base, vw_pool_size = pool_size, vw_dir = dir,
                     vw_provider_node = provider_node, vw_stream_offset = de_offset ent\<rparr>)"

section \<open>Publishing and consuming\<close>

text \<open>\<open>Inr None\<close> stands for the result 0, \<open>Inr (Some a)\<close> for the result 1 with address \<open>a\<close>.\<close>

definition obmm_spmc_provider_payload_addr ::
    "obmm_spmc_stream_view \<Rightarrow> obmm_desc \<Rightarrow> obmm_rc + u64 option" where
  "obmm_spmc_provider_payload_addr v desc = (
     case find (\<lambda>e. de_region_id e = d_region_id desc) (vw_dir v) of
       None \<Rightarrow> Inl E_INVAL
     | Some e \<Rightarrow>
         let off = de_offset e; sz = de_size e in
         if off > vw_pool_size v \<or> sz > vw_pool_size v - off then Inl E_INVAL
         else if d_payload_len desc = 0 then Inr None
         else if d_payload_offset desc > sz \<or> ucast (d_payload_len desc) > sz - d_payload_offset desc
              then Inl E_INVAL
         else if de_kind e = OBMM_REGION_TX_ARENA \<and> ucast (de_peer_node_id e) = vw_provider_node v
              then Inr (Some (vw_pool_base v + off + d_payload_offset desc))
         else Inr None)"

fun scan_heads :: "obmm_spmc_consumer_cursor list \<Rightarrow> nat list \<Rightarrow> u64 \<Rightarrow> u64 option" where
  "scan_heads cs [] min_head = Some min_head"
| "scan_heads cs (i # ids) min_head =
     (if cu_state (cs ! i) \<noteq> CONSUMER_ACTIVE then None
      else scan_heads cs ids (if cu_head (cs ! i) < min_head then cu_head (cs ! i) else min_head))"

definition obmm_spmc_publish ::
    "obmm_spmc_stream_view \<Rightarrow> obmm_spmc_stream \<Rightarrow> obmm_desc \<Rightarrow> obmm_rc \<times> obmm_spmc_stream" where
  "obmm_spmc_publish v s desc = (
     let wait_mask = st_active_consumer_mask s; tail = st_tail s in
     if wait_mask = 0 then (E_NODEV, s)
     else case scan_heads (st_cursors s) (node_ids wait_mask) tail of
       None \<Rightarrow> (E_PIPE, s)
     | Some min_head \<Rightarrow>
         if tail - min_head \<ge> ucast (st_depth s) then (E_AGAIN, s)
         else case obmm_spmc_provider_payload_addr v desc of
           Inl rc \<Rightarrow> (rc, s)
         | Inr _ \<Rightarrow> (OBMM_OK, s\<lparr>st_ring := (st_ring s)[unat (tail AND ucast (st_mask s)) := desc],
                               st_tail := tail + 1\<rparr>))"

definition obmm_spmc_consume ::
    "obmm_spmc_stream \<Rightarrow> nat \<Rightarrow> obmm_rc \<times> obmm_desc option \<times> obmm_spmc_stream" where
  "obmm_spmc_consume s consumer_idx = (
     let c = st_cursors s ! consumer_idx; head = cu_head c; tail = st_tail s in
     if cu_state c \<noteq> CONSUMER_ACTIVE then (E_NODEV, None, s)
     else if head = tail then (E_AGAIN, None, s)
     else if tail - head > ucast (st_depth s) then
       (E_OVERFLOW, None, s\<lparr>st_cursors := (st_cursors s)[consumer_idx :=
          c\<lparr>cu_drop_count := cu_drop_count c + 1, cu_state := CONSUMER_PAUSED\<rparr>]\<rparr>)
     else let desc = st_ring s ! unat (head AND ucast (st_mask s)) in
       (OBMM_OK, Some desc, s\<lparr>st_cursors := (st_cursors s)[consumer_idx :=
          c\<lparr>cu_observed_seq := d_seq desc, cu_head := head + 1\<rparr>]\<rparr>))"

section \<open>Reclamation and reset\<close>

lemma unat_succ_less: "x < h \<Longrightarrow> unat (x + 1) = unat (x::u64) + 1"
proof -
  assume "x < h"
  then have "unat x + 1 \<le> unat h" by (simp add: word_less_nat_alt)
  also have "\<dots> < 2 ^ 64" using unsigned_less [of h, where 'a = nat] by simp
  finally show ?thesis by (simp add: unat_word_ariths)
qed

fun reclaim_scan :: "obmm_spmc_consumer_cursor list \<Rightarrow> nat list \<Rightarrow> u64 \<Rightarrow> u64" where
  "reclaim_scan cs [] min_head = min_head"
| "reclaim_scan cs (i # ids) min_head =
     (if cu_state (cs ! i) \<noteq> CONSUMER_ACTIVE then reclaim_scan cs ids min_head
      else reclaim_scan cs ids (if cu_head (cs ! i) < min_head then cu_head (cs ! i) else min_head))"

definition obmm_spmc_reclaimable_head :: "obmm_spmc_stream \<Rightarrow> u64" where
  "obmm_spmc_reclaimable_head s =
     (if st_active_consumer_mask s = 0 then st_tail s
      else reclaim_scan (st_cursors s) (node_ids (st_active_consumer_mask s)) (st_tail s))"

function reclaim_loop :: "obmm_spmc_stream_view \<Rightarrow> obmm_spmc_stream \<Rightarrow> u64 \<Rightarrow>
    obmm_spmc_tx_reclaim_state \<Rightarrow> obmm_rc \<times> obmm_spmc_tx_reclaim_state" where
  "reclaim_loop v s reclaim_head rs =
     (if rs_desc_reclaimed_to rs < reclaim_head then
        let d = st_ring s ! unat (rs_desc_reclaimed_to rs AND ucast (st_mask s)) in
        case obmm_spmc_provider_payload_addr v d of
          Inl rc \<Rightarrow> (rc, rs)
        | Inr a \<Rightarrow>
            let end_off = d_payload_offset d + ucast (d_payload_len d);
                rs1 = (if a \<noteq> None \<and> end_off > rs_tx_reclaim_offset rs
                       then rs\<lparr>rs_tx_reclaim_offset := end_off\<rparr> else rs) in
            reclaim_loop v s reclaim_head (rs1\<lparr>rs_desc_reclaimed_to := rs_desc_reclaimed_to rs1 + 1\<rparr>)
      else (OBMM_OK, rs))"
  by pat_completeness auto
termination
proof (relation "measure (\<lambda>(v, s, h, rs). unat h - unat (rs_desc_reclaimed_to rs))")
  fix v :: obmm_spmc_stream_view and s :: obmm_spmc_stream and h :: u64 and rs :: obmm_spmc_tx_reclaim_state
    and d a b rs1
  assume lt: "rs_desc_reclaimed_to rs < h"
    and rs1: "rs1 = (if a \<noteq> None \<and> rs_tx_reclaim_offset rs < b then rs\<lparr>rs_tx_reclaim_offset := b\<rparr> else rs)"
  have "unat (rs_desc_reclaimed_to rs) < unat h" using lt by (simp add: word_less_nat_alt)
  moreover have "unat (rs_desc_reclaimed_to rs + 1) = unat (rs_desc_reclaimed_to rs) + 1"
    using lt by (rule unat_succ_less)
  ultimately show "((v, s, h, rs1\<lparr>rs_desc_reclaimed_to := rs_desc_reclaimed_to rs1 + 1\<rparr>), (v, s, h, rs)) \<in>
      measure (\<lambda>(v, s, h, rs). unat h - unat (rs_desc_reclaimed_to rs))"
    by (auto simp: rs1)
qed simp

declare reclaim_loop.simps [simp del]

definition obmm_spmc_reclaim_payloads ::
    "obmm_spmc_stream_view \<Rightarrow> obmm_spmc_stream \<Rightarrow> obmm_spmc_tx_reclaim_state \<Rightarrow>
     obmm_rc \<times> obmm_spmc_tx_reclaim_state" where
  "obmm_spmc_reclaim_payloads v s rs = reclaim_loop v s (obmm_spmc_reclaimable_head s) rs"

definition obmm_spmc_stream_reset :: "obmm_spmc_stream \<Rightarrow> u64 \<Rightarrow> obmm_spmc_stream option" where
  "obmm_spmc_stream_reset s consumer_mask = (
     let new_generation = st_generation s + 1 in
     if mask_too_wide consumer_mask (st_max_consumers s) then None
     else Some (s\<lparr>st_active_consumer_mask := consumer_mask, st_generation := new_generation, st_tail := 0,
       st_cursors := activate_all new_generation (node_ids consumer_mask)
                       (replicate (length (st_cursors s)) zero_cursor),
       st_ring := replicate (length (st_ring s)) zero_desc\<rparr>))"

section \<open>The running stream\<close>

record spmc_system =
  stream :: obmm_spmc_stream
  published :: "obmm_desc list"
  received :: "nat \<Rightarrow> obmm_desc list"

inductive spmc_step :: "obmm_spmc_stream_view \<Rightarrow> spmc_system \<Rightarrow> spmc_system \<Rightarrow> bool" for v where
  publish: "obmm_spmc_publish v (stream s) d = (rc, st) \<Longrightarrow>
    spmc_step v s (s\<lparr>stream := st,
      published := (if rc = OBMM_OK then published s @ [d] else published s)\<rparr>)"
| consume: "i < unat (st_max_consumers (stream s)) \<Longrightarrow> obmm_spmc_consume (stream s) i = (rc, r, st) \<Longrightarrow>
    spmc_step v s (s\<lparr>stream := st, received := (received s)(i := received s i @
      (case r of None \<Rightarrow> [] | Some d \<Rightarrow> [d]))\<rparr>)"
| reset: "obmm_spmc_stream_reset (stream s) consumer_mask = Some st \<Longrightarrow>
    spmc_step v s \<lparr>stream = st, published = [], received = (\<lambda>_. [])\<rparr>"

inductive spmc_reachable :: "obmm_spmc_stream_view \<Rightarrow> u32 \<Rightarrow> spmc_system \<Rightarrow> bool" for v depth where
  start: "obmm_spmc_stream_init depth max_consumers node consumer_mask = Some st \<Longrightarrow>
    spmc_reachable v depth \<lparr>stream = st, published = [], received = (\<lambda>_. [])\<rparr>"
| step: "spmc_reachable v depth s \<Longrightarrow> spmc_step v s s' \<Longrightarrow> spmc_reachable v depth s'"

abbreviation consumers :: "spmc_system \<Rightarrow> nat" where
  "consumers s \<equiv> unat (st_max_consumers (stream s))"

definition spmc_shape :: "u32 \<Rightarrow> spmc_system \<Rightarrow> bool" where
  "spmc_shape depth s \<longleftrightarrow> depth_ok depth \<and> st_depth (stream s) = depth \<and> st_mask (stream s) = depth - 1 \<and>
     length (st_ring (stream s)) = unat depth \<and> length (st_cursors (stream s)) = consumers s \<and>
     consumers s \<le> 64 \<and> (\<forall>i. bit (st_active_consumer_mask (stream s)) i \<longrightarrow> i < consumers s)"

definition cursor_ok :: "spmc_system \<Rightarrow> nat \<Rightarrow> bool" where
  "cursor_ok s i \<longleftrightarrow>
     cu_state (st_cursors (stream s) ! i) =
       (if bit (st_active_consumer_mask (stream s)) i then CONSUMER_ACTIVE else CONSUMER_DETACHED) \<and>
     cu_head (st_cursors (stream s) ! i) = of_nat (length (received s i)) \<and>
     prefix (received s i) (published s)"

definition window_ok :: "u32 \<Rightarrow> spmc_system \<Rightarrow> nat \<Rightarrow> bool" where
  "window_ok depth s i \<longleftrightarrow> length (published s) \<le> length (received s i) + unat depth"

definition ring_recent :: "u32 \<Rightarrow> spmc_system \<Rightarrow> bool" where
  "ring_recent depth s \<longleftrightarrow>
     (\<forall>k. k < length (published s) \<and> length (published s) \<le> k + unat depth \<longrightarrow>
          st_ring (stream s) ! (k mod unat depth) = published s ! k)"

definition spmc_content :: "u32 \<Rightarrow> spmc_system \<Rightarrow> bool" where
  "spmc_content depth s \<longleftrightarrow> st_tail (stream s) = of_nat (length (published s)) \<and> ring_recent depth s \<and>
     (\<forall>i<consumers s. cursor_ok s i) \<and>
     (\<forall>i. bit (st_active_consumer_mask (stream s)) i \<longrightarrow> window_ok depth s i)"

definition spmc_inv :: "u32 \<Rightarrow> spmc_system \<Rightarrow> bool" where
  "spmc_inv depth s \<longleftrightarrow> spmc_shape depth s \<and> (length (published s) < 2 ^ 64 \<longrightarrow> spmc_content depth s)"

lemma node_ids_bit: "i \<in> set (node_ids m) \<longleftrightarrow> bit m i"
proof -
  have "bit m i \<Longrightarrow> i < 64" using bit_imp_le_length [of m i] by simp
  then show ?thesis by (auto simp: node_ids_def)
qed

lemma node_ids_distinct: "distinct (node_ids m)"
  by (simp add: node_ids_def)

lemma mask_fits:
  assumes "\<not> mask_too_wide m k" "bit m i"
  shows "i < unat k"
proof -
  have i: "i \<in> set (node_ids m)" using assms(2) by (simp add: node_ids_bit)
  then have ne: "node_ids m \<noteq> []" by auto
  have "sorted (node_ids m)" by (simp add: node_ids_def sorted_wrt_filter)
  moreover obtain xs where "node_ids m = xs @ [last (node_ids m)]" using ne by (metis append_butlast_last_id)
  ultimately have "i \<le> last (node_ids m)"
    using i by (metis Un_iff set_append sorted_append list.set_intros(1) empty_iff empty_set set_ConsD order_refl)
  moreover have "m \<noteq> 0" using assms(2) by auto
  ultimately show ?thesis using assms(1) by (auto simp: mask_too_wide_def)
qed

lemma activate_all_nth:
  assumes "distinct ids" "\<forall>i\<in>set ids. i < length cs" "j < length cs"
  shows "activate_all g ids cs ! j = (if j \<in> set ids then activate g j (cs ! j) else cs ! j) \<and>
    length (activate_all g ids cs) = length cs"
  using assms
proof (induction ids arbitrary: cs)
  case (Cons i ids)
  then show ?case
    using Cons.IH [of "cs[i := activate g i (cs ! i)]"]
    by (auto simp: activate_all_def nth_list_update)
qed (simp add: activate_all_def)

lemma fresh_stream_inv:
  assumes depth: "depth_ok depth" and wide: "\<not> mask_too_wide m (st_max_consumers st)"
    and st: "st_depth st = depth" "st_mask st = depth - 1" "length (st_ring st) = unat depth"
      "unat (st_max_consumers st) \<le> 64" "st_active_consumer_mask st = m" "st_tail st = 0"
      "st_cursors st = activate_all g (node_ids m) (replicate (unat (st_max_consumers st)) zero_cursor)"
  shows "spmc_inv depth \<lparr>stream = st, published = [], received = (\<lambda>_. [])\<rparr>"
proof -
  have fits: "bit m i \<Longrightarrow> i < unat (st_max_consumers st)" for i using mask_fits [OF wide] .
  have cur: "st_cursors st ! j = (if bit m j then activate g j zero_cursor else zero_cursor)"
    if "j < unat (st_max_consumers st)" for j
    using activate_all_nth [of "node_ids m" "replicate (unat (st_max_consumers st)) zero_cursor" j g]
      that fits by (simp add: st(7) node_ids_bit node_ids_distinct)
  have len: "length (st_cursors st) = unat (st_max_consumers st)"
  proof -
    have "length (activate_all g ids cs) = length cs" for ids and cs :: "obmm_spmc_consumer_cursor list"
      by (induction ids arbitrary: cs) (auto simp: activate_all_def)
    then show ?thesis by (simp add: st(7))
  qed
  show ?thesis
    using depth st fits cur len
    by (auto simp: spmc_inv_def spmc_shape_def spmc_content_def cursor_ok_def window_ok_def
        ring_recent_def activate_def zero_cursor_def)
qed

lemma payload_addr_error: "obmm_spmc_provider_payload_addr v d = Inl rc \<Longrightarrow> rc = E_INVAL"
  by (auto simp: obmm_spmc_provider_payload_addr_def Let_def split: option.splits if_splits)

lemma scan_heads_Some:
  "scan_heads cs ids m0 = Some m \<Longrightarrow>
   (\<forall>i\<in>set ids. m \<le> cu_head (cs ! i)) \<and> m \<le> m0 \<and> (m = m0 \<or> (\<exists>i\<in>set ids. m = cu_head (cs ! i)))"
  by (induction cs ids m0 rule: scan_heads.induct) (fastforce split: if_splits)+

lemma scan_heads_active:
  "(\<forall>i\<in>set ids. cu_state (cs ! i) = CONSUMER_ACTIVE) \<longleftrightarrow> scan_heads cs ids m0 \<noteq> None"
  by (induction cs ids m0 rule: scan_heads.induct) auto

lemma reclaim_scan_eq:
  "\<forall>i\<in>set ids. cu_state (cs ! i) = CONSUMER_ACTIVE \<Longrightarrow> scan_heads cs ids m = Some (reclaim_scan cs ids m)"
  by (induction cs ids m rule: scan_heads.induct) auto

lemma ring_index64:
  assumes "depth_ok depth"
  shows "unat ((of_nat k :: u64) AND ucast (depth - 1)) = k mod unat depth" and "k mod unat depth < unat depth"
proof -
  obtain n where n: "n \<le> 16" "unat depth = 2 ^ n" "unat (depth - 1) = 2 ^ n - 1"
    using depth_mask [OF assms refl] .
  have "unat (ucast (depth - 1) :: u64) = unat (depth - 1)"
    using unsigned_less [of "depth - 1", where 'a = nat] by (simp add: unsigned_ucast_eq take_bit_nat_eq_self_iff)
  then show "unat ((of_nat k :: u64) AND ucast (depth - 1)) = k mod unat depth"
    using ring_index [of "ucast (depth - 1) :: u64" n k] n by simp
  show "k mod unat depth < unat depth" using n by simp
qed

lemma unat_depth64: "unat (ucast (depth :: u32) :: u64) = unat depth"
  using unsigned_less [of depth, where 'a = nat] by (simp add: unsigned_ucast_eq take_bit_nat_eq_self_iff)

lemma unat_of_nat64: "n < 2 ^ 64 \<Longrightarrow> unat (of_nat n :: u64) = n"
  by (simp add: unat_of_nat)

lemma of_nat_diff64:
  assumes "a \<le> b" "b < 2 ^ 64"
  shows "unat ((of_nat b :: u64) - of_nat a) = b - a"
proof -
  have "(of_nat b :: u64) - of_nat a = of_nat (b - a)" using assms(1) by (simp add: of_nat_diff)
  then show ?thesis using assms(2) by (simp add: unat_of_nat)
qed

text \<open>What the scan of the provider sees: the consumer that is furthest behind.\<close>

lemma inv_scan:
  assumes inv: "spmc_inv depth s" and lt: "length (published s) < 2 ^ 64"
    and act: "st_active_consumer_mask (stream s) \<noteq> 0"
  defines "ids \<equiv> node_ids (st_active_consumer_mask (stream s))"
  obtains k where
    "scan_heads (st_cursors (stream s)) ids (st_tail (stream s)) = Some (of_nat k)"
    "k \<le> length (published s)" "\<And>i. i \<in> set ids \<Longrightarrow> k \<le> length (received s i)"
    "\<exists>i\<in>set ids. k = length (received s i)"
proof -
  let ?cs = "st_cursors (stream s)" and ?T = "length (published s)"
  have content: "spmc_content depth s" and shape: "spmc_shape depth s"
    using inv lt by (simp_all add: spmc_inv_def)
  have cur: "cu_state (?cs ! i) = CONSUMER_ACTIVE" "cu_head (?cs ! i) = of_nat (length (received s i))"
    "length (received s i) \<le> ?T" if "i \<in> set ids" for i
  proof -
    have "bit (st_active_consumer_mask (stream s)) i" using that by (simp add: ids_def node_ids_bit)
    moreover from this have "i < consumers s" using shape by (simp add: spmc_shape_def)
    ultimately have "cursor_ok s i" "bit (st_active_consumer_mask (stream s)) i"
      using content by (simp_all add: spmc_content_def)
    then show "cu_state (?cs ! i) = CONSUMER_ACTIVE" "cu_head (?cs ! i) = of_nat (length (received s i))"
      "length (received s i) \<le> ?T"
      by (auto simp: cursor_ok_def dest: prefix_length_le)
  qed
  have ne: "ids \<noteq> []" using act by (metis ids_def bit_eqI bit_0_eq bot_apply bot_bool_def empty_iff empty_set node_ids_bit)
  obtain m where m: "scan_heads ?cs ids (st_tail (stream s)) = Some m"
    using scan_heads_active [of ids ?cs] cur(1) by fastforce
  note sc = scan_heads_Some [OF m]
  have tail: "st_tail (stream s) = of_nat ?T" using content by (simp add: spmc_content_def)
  have le: "unat m \<le> length (received s i)" if "i \<in> set ids" for i
  proof -
    have "m \<le> of_nat (length (received s i))" using sc that cur(2) by metis
    then show ?thesis using cur(3) [OF that] lt unat_of_nat64 [of "length (received s i)"]
      by (simp add: word_le_nat_alt)
  qed
  obtain i where i: "i \<in> set ids" "unat m = length (received s i)"
  proof (cases "\<exists>i\<in>set ids. m = cu_head (?cs ! i)")
    case True
    then obtain i where i: "i \<in> set ids" "m = of_nat (length (received s i))" using cur(2) by auto
    have "length (received s i) < 2 ^ 64" using cur(3) [OF i(1)] lt by linarith
    then have "unat m = length (received s i)" using i(2) by (simp add: unat_of_nat64)
    then show ?thesis using that i(1) by blast
  next
    case False
    then have m: "m = of_nat ?T" using sc tail by simp
    obtain i where i: "i \<in> set ids" using ne by fastforce
    have "unat m = ?T" using m lt by (simp add: unat_of_nat64)
    then have "unat m = length (received s i)" using le [OF i] cur(3) [OF i] by linarith
    then show ?thesis using that i by blast
  qed
  show thesis
  proof (rule that [of "unat m"])
    show "scan_heads ?cs ids (st_tail (stream s)) = Some (of_nat (unat m))" using m by simp
    show "unat m \<le> ?T" using i(2) cur(3) [OF i(1)] by simp
    show "\<exists>i\<in>set ids. unat m = length (received s i)" using i by blast
  qed (rule le)
qed

lemma inv_publish:
  assumes inv: "spmc_inv depth s" and pub: "obmm_spmc_publish v (stream s) d = (rc, st)"
  shows "spmc_inv depth (s\<lparr>stream := st,
    published := (if rc = OBMM_OK then published s @ [d] else published s)\<rparr>)"
proof (cases "rc = OBMM_OK")
  case False
  then have "st = stream s"
    using pub by (auto simp: obmm_spmc_publish_def Let_def split: if_splits option.splits sum.splits)
  then show ?thesis using inv False by (simp add: spmc_inv_def spmc_shape_def spmc_content_def
        cursor_ok_def window_ok_def ring_recent_def)
next
  case True
  let ?T = "length (published s)" and ?act = "st_active_consumer_mask (stream s)"
  have shape: "spmc_shape depth s" using inv by (simp add: spmc_inv_def)
  have st: "st = (stream s)\<lparr>st_ring := (st_ring (stream s))
        [unat (st_tail (stream s) AND ucast (st_mask (stream s))) := d], st_tail := st_tail (stream s) + 1\<rparr>"
    and act: "?act \<noteq> 0"
    using pub True payload_addr_error
    by (auto simp: obmm_spmc_publish_def Let_def split: if_splits option.splits sum.splits)
  let ?s = "s\<lparr>stream := st, published := published s @ [d]\<rparr>"
  have shape': "spmc_shape depth ?s" using shape by (simp add: spmc_shape_def st)
  have "spmc_content depth ?s" if "?T + 1 < 2 ^ 64"
  proof -
    have lt: "?T < 2 ^ 64" using that by simp
    then have content: "spmc_content depth s" using inv by (simp add: spmc_inv_def)
    have ok: "depth_ok depth" and tail: "st_tail (stream s) = of_nat ?T"
      and sz: "st_depth (stream s) = depth" "st_mask (stream s) = depth - 1"
        "length (st_ring (stream s)) = unat depth"
      using shape content by (simp_all add: spmc_shape_def spmc_content_def)
    have slot: "unat (st_tail (stream s) AND ucast (st_mask (stream s))) = ?T mod unat depth"
      using ring_index64(1) [OF ok, of ?T] by (simp add: tail sz)
    obtain k where k: "scan_heads (st_cursors (stream s)) (node_ids ?act) (st_tail (stream s)) = Some (of_nat k)"
      "k \<le> ?T" "\<And>i. i \<in> set (node_ids ?act) \<Longrightarrow> k \<le> length (received s i)"
      using inv_scan [OF inv lt act] by blast
    have "\<not> st_tail (stream s) - of_nat k \<ge> ucast (st_depth (stream s))"
      using pub True act k(1) by (auto simp: obmm_spmc_publish_def Let_def split: if_splits)
    then have room: "?T < k + unat depth"
      using of_nat_diff64 [OF k(2) lt] by (simp add: tail sz word_le_nat_alt unat_depth64)
    have window: "window_ok depth ?s i" if "bit ?act i" for i
      using k(3) [of i] room that by (simp add: window_ok_def node_ids_bit)
    have "st_ring st ! (n mod unat depth) = (published s @ [d]) ! n"
      if n: "n < Suc ?T" "Suc ?T \<le> n + unat depth" for n
    proof (cases "n = ?T")
      case True
      then show ?thesis using sz(3) ring_index64(2) [OF ok] by (simp add: st slot)
    next
      case False
      then have "n mod unat depth \<noteq> ?T mod unat depth" using n by (intro ring_slots_distinct) auto
      moreover have "ring_recent depth s" using content by (simp add: spmc_content_def)
      ultimately show ?thesis using n False by (simp add: st slot ring_recent_def nth_append)
    qed
    then have recent: "ring_recent depth ?s" by (simp add: ring_recent_def)
    have "cursor_ok ?s i" if "i < consumers s" for i
      using content that by (auto simp: spmc_content_def cursor_ok_def st prefix_def)
    then show ?thesis using window recent tail by (simp add: spmc_content_def st)
  qed
  then show ?thesis using shape' True by (simp add: spmc_inv_def)
qed

lemma bit_consumer: "spmc_shape depth s \<Longrightarrow> bit (st_active_consumer_mask (stream s)) i \<Longrightarrow> i < consumers s"
  by (simp add: spmc_shape_def)

text \<open>What a consumer gets: nothing more, the next descriptor, or a refusal when it is not attached.\<close>

lemma inv_consume_result:
  assumes inv: "spmc_inv depth s" and lt: "length (published s) < 2 ^ 64" and i: "i < consumers s"
  defines "c \<equiv> st_cursors (stream s) ! i"
  shows "obmm_spmc_consume (stream s) i =
    (if \<not> bit (st_active_consumer_mask (stream s)) i then (E_NODEV, None, stream s)
     else if length (received s i) = length (published s) then (E_AGAIN, None, stream s)
     else (OBMM_OK, Some (published s ! length (received s i)),
           (stream s)\<lparr>st_cursors := (st_cursors (stream s))[i :=
             c\<lparr>cu_observed_seq := d_seq (published s ! length (received s i)),
               cu_head := of_nat (length (received s i)) + 1\<rparr>]\<rparr>))"
proof -
  let ?T = "length (published s)" and ?H = "length (received s i)"
  have shape: "spmc_shape depth s" and content: "spmc_content depth s" using inv lt by (simp_all add: spmc_inv_def)
  have cur: "cursor_ok s i" and tail: "st_tail (stream s) = of_nat ?T"
    using content i by (simp_all add: spmc_content_def)
  show ?thesis
  proof (cases "bit (st_active_consumer_mask (stream s)) i")
    case False
    then show ?thesis using cur by (simp add: obmm_spmc_consume_def Let_def cursor_ok_def)
  next
    case True
    have win: "window_ok depth s i" using content True by (simp add: spmc_content_def)
    have HT: "?H \<le> ?T" using cur by (auto simp: cursor_ok_def dest: prefix_length_le)
    have head: "cu_head c = of_nat ?H" "cu_state c = CONSUMER_ACTIVE"
      using cur True by (simp_all add: cursor_ok_def c_def)
    have eq: "(of_nat ?H :: u64) = of_nat ?T \<longleftrightarrow> ?H = ?T"
      using HT lt by (metis order.strict_trans1 unat_of_nat64)
    have ok: "depth_ok depth" and sz: "st_depth (stream s) = depth" "st_mask (stream s) = depth - 1"
      using shape by (simp_all add: spmc_shape_def)
    have no: "\<not> (of_nat ?T :: u64) - of_nat ?H > ucast depth"
      using of_nat_diff64 [OF HT lt] win by (auto simp: word_less_nat_alt unat_depth64 window_ok_def)
    have rd: "st_ring (stream s) ! unat ((of_nat ?H :: u64) AND ucast (st_mask (stream s))) = published s ! ?H"
      if "?H \<noteq> ?T"
      using ring_index64(1) [OF ok, of ?H] win HT that content
      by (simp add: sz window_ok_def spmc_content_def ring_recent_def)
    show ?thesis
      using True head eq no rd by (auto simp: obmm_spmc_consume_def Let_def c_def [symmetric] tail sz(1))
  qed
qed

lemma consume_frame:
  "obmm_spmc_consume st i = (rc, r, st') \<Longrightarrow>
   \<exists>c. st' = st\<lparr>st_cursors := (st_cursors st)[i := c]\<rparr>"
  unfolding obmm_spmc_consume_def Let_def
  by (auto split: if_splits) (metis list_update_id obmm_spmc_stream.surjective obmm_spmc_stream.update_convs(14))+

lemma inv_consume:
  assumes inv: "spmc_inv depth s" and i: "i < consumers s"
    and con: "obmm_spmc_consume (stream s) i = (rc, r, st)"
  shows "spmc_inv depth (s\<lparr>stream := st, received := (received s)(i := received s i @
      (case r of None \<Rightarrow> [] | Some d \<Rightarrow> [d]))\<rparr>)"
proof -
  let ?T = "length (published s)" and ?H = "length (received s i)"
  have shape: "spmc_shape depth s" using inv by (simp add: spmc_inv_def)
  obtain c where st: "st = (stream s)\<lparr>st_cursors := (st_cursors (stream s))[i := c]\<rparr>"
    using consume_frame [OF con] by blast
  have "spmc_content depth (s\<lparr>stream := st, received := (received s)(i := received s i @
      (case r of None \<Rightarrow> [] | Some d \<Rightarrow> [d]))\<rparr>)" if lt: "?T < 2 ^ 64"
  proof -
    have content: "spmc_content depth s" using inv lt by (simp add: spmc_inv_def)
    have cur: "cursor_ok s i" using content i by (simp add: spmc_content_def)
    then have HT: "?H \<le> ?T" and pre: "prefix (received s i) (published s)"
      by (auto simp: cursor_ok_def dest: prefix_length_le)
    have len: "i < length (st_cursors (stream s))" using shape i by (simp add: spmc_shape_def)
    note res = inv_consume_result [OF inv lt i]
    show ?thesis
    proof (cases "bit (st_active_consumer_mask (stream s)) i \<and> ?H \<noteq> ?T")
      case False
      then have "st = stream s" "r = None" using con res by (auto split: if_splits)
      then show ?thesis using content
        by (simp add: spmc_content_def cursor_ok_def window_ok_def ring_recent_def)
    next
      case True
      then have r: "r = Some (published s ! ?H)"
        and st': "st = (stream s)\<lparr>st_cursors := (st_cursors (stream s))[i :=
          (st_cursors (stream s) ! i)\<lparr>cu_observed_seq := d_seq (published s ! ?H),
             cu_head := of_nat ?H + 1\<rparr>]\<rparr>"
        using con res by auto
      have pre': "prefix (received s i @ [published s ! ?H]) (published s)"
        using append_one_prefix [OF pre] True HT by simp
      have "cursor_ok (s\<lparr>stream := st, received := (received s)(i := received s i @ [published s ! ?H])\<rparr>) j"
        if "j < consumers s" for j
        using content that cur len pre' by (cases "j = i") (auto simp: spmc_content_def cursor_ok_def st' ac_simps)
      moreover have "window_ok depth
          (s\<lparr>stream := st, received := (received s)(i := received s i @ [published s ! ?H])\<rparr>) j"
        if "bit (st_active_consumer_mask (stream s)) j" for j
        using content that by (auto simp: spmc_content_def window_ok_def st')
      ultimately show ?thesis using content r by (simp add: spmc_content_def ring_recent_def st')
    qed
  qed
  then show ?thesis using shape by (simp add: spmc_inv_def spmc_shape_def st)
qed

lemma spmc_step_inv: "spmc_step v s s' \<Longrightarrow> spmc_inv depth s \<Longrightarrow> spmc_inv depth s'"
proof (induction rule: spmc_step.induct)
  case (publish s d rc st)
  then show ?case by (rule inv_publish [rotated])
next
  case (consume i s rc r st)
  then show ?case by (simp add: inv_consume)
next
  case (reset s m st)
  have shape: "spmc_shape depth s" using reset.prems by (simp add: spmc_inv_def)
  show ?case
    by (rule fresh_stream_inv [where m = m and g = "st_generation (stream s) + 1"])
       (use reset.hyps shape in \<open>auto simp: obmm_spmc_stream_reset_def Let_def spmc_shape_def split: if_splits\<close>)
qed

lemma spmc_reachable_inv: "spmc_reachable v depth s \<Longrightarrow> spmc_inv depth s"
proof (induction rule: spmc_reachable.induct)
  case (start max_consumers node m st)
  show ?case
    by (rule fresh_stream_inv [where m = m and g = 1])
       (use start in \<open>auto simp: obmm_spmc_stream_init_def Let_def OBMM_SPMC_MAX_CONSUMERS_def
          word_less_nat_alt not_less split: if_splits\<close>)
next
  case (step s s')
  then show ?case by (auto intro: spmc_step_inv)
qed

section \<open>Properties\<close>

text \<open>C13. Every attached consumer of a stream sees every descriptor, once and in order, and the ring
  never laps one: what consumer \<open>i\<close> has received is a prefix of what was published since the last
  reset, its next call delivers exactly the next descriptor (or reports that there is none), and no
  call ever ends in an overflow. The provider is refused for lack of room exactly when some attached
  consumer is a whole ring behind.\<close>

theorem spmc_broadcast:
  assumes "spmc_reachable v depth s" and "length (published s) < 2 ^ 64"
    and "bit (st_active_consumer_mask (stream s)) i"
  shows "prefix (received s i) (published s) \<and>
    length (published s) \<le> length (received s i) + unat depth \<and>
    (let (rc, r, _) = obmm_spmc_consume (stream s) i in
     if received s i = published s then rc = E_AGAIN \<and> r = None
     else rc = OBMM_OK \<and> r = Some (published s ! length (received s i))) \<and>
    (fst (obmm_spmc_publish v (stream s) d) = E_AGAIN \<longleftrightarrow>
     (\<exists>j. bit (st_active_consumer_mask (stream s)) j \<and>
          length (published s) = length (received s j) + unat depth))"
proof -
  let ?act = "st_active_consumer_mask (stream s)" and ?T = "length (published s)"
  note inv = spmc_reachable_inv [OF assms(1)]
  have content: "spmc_content depth s" and shape: "spmc_shape depth s"
    using inv assms(2) by (simp_all add: spmc_inv_def)
  have i: "i < consumers s" using bit_consumer [OF shape assms(3)] .
  have pre: "prefix (received s i) (published s)" using content i by (simp add: spmc_content_def cursor_ok_def)
  have win: "?T \<le> length (received s j) + unat depth"
    if "bit ?act j" for j
    using content that by (simp add: spmc_content_def window_ok_def)
  have same: "received s i = published s \<longleftrightarrow> length (received s i) = ?T"
    using pre assms(3) by (auto dest: not_equal_is_parallel simp: prefix_def)
  have act: "?act \<noteq> 0" using assms(3) by auto
  obtain k where k: "scan_heads (st_cursors (stream s)) (node_ids ?act) (st_tail (stream s)) = Some (of_nat k)"
    "k \<le> ?T" "\<And>i. i \<in> set (node_ids ?act) \<Longrightarrow> k \<le> length (received s i)"
    "\<exists>i\<in>set (node_ids ?act). k = length (received s i)"
    using inv_scan [OF inv assms(2) act] by blast
  have "fst (obmm_spmc_publish v (stream s) d) = E_AGAIN \<longleftrightarrow>
      st_tail (stream s) - of_nat k \<ge> ucast (st_depth (stream s))"
    using act k(1) by (auto simp: obmm_spmc_publish_def Let_def split: sum.splits dest: payload_addr_error)
  also have "\<dots> \<longleftrightarrow> unat depth \<le> ?T - k"
    using of_nat_diff64 [OF k(2) assms(2)] content shape
    by (simp add: spmc_content_def spmc_shape_def word_le_nat_alt unat_depth64)
  also have "\<dots> \<longleftrightarrow> (\<exists>j. bit ?act j \<and> ?T = length (received s j) + unat depth)"
  proof
    assume full: "unat depth \<le> ?T - k"
    obtain j where j: "bit ?act j" "k = length (received s j)" using k(4) by (auto simp: node_ids_bit)
    then have "?T = length (received s j) + unat depth" using full win [OF j(1)] k(2) by linarith
    then show "\<exists>j. bit ?act j \<and> ?T = length (received s j) + unat depth" using j(1) by blast
  next
    assume "\<exists>j. bit ?act j \<and> ?T = length (received s j) + unat depth"
    then obtain j where "bit ?act j" "?T = length (received s j) + unat depth" by blast
    then show "unat depth \<le> ?T - k" using k(3) [of j] by (simp add: node_ids_bit)
  qed
  finally show ?thesis
    using pre win assms(3) same inv_consume_result [OF inv assms(2) i] by (simp add: Let_def)
qed

definition demo_view :: obmm_spmc_stream_view where
  "demo_view = \<lparr>vw_pool_base = 0, vw_pool_size = 65536,
     vw_dir = [\<lparr>de_region_id = 1, de_kind = OBMM_REGION_TX_ARENA, de_peer_node_id = 0, de_offset = 0,
                de_size = 4096, de_flags = 0\<rparr>,
               \<lparr>de_region_id = 0, de_kind = OBMM_REGION_QUEUE, de_peer_node_id = 0, de_offset = 8192,
                de_size = 4096, de_flags = 0\<rparr>],
     vw_provider_node = 0, vw_stream_offset = 16384\<rparr>"

definition demo_stream :: obmm_spmc_stream where
  "demo_stream = the (obmm_spmc_stream_init 64 2 0 3)"

theorem spmc_broadcast_witness:
  "\<exists>s. spmc_reachable demo_view 64 s \<and> received s 1 = published s \<and>
       fst (obmm_spmc_publish demo_view (stream s) zero_desc) \<noteq> E_AGAIN"
proof -
  have init: "obmm_spmc_stream_init 64 2 0 3 = Some demo_stream"
    unfolding demo_stream_def by code_simp
  let ?s = "\<lparr>stream = demo_stream, published = [], received = (\<lambda>_. [])\<rparr>"
  have r: "spmc_reachable demo_view 64 ?s" using init by (rule start)
  have m: "st_active_consumer_mask demo_stream = 3" unfolding demo_stream_def by code_simp
  have b: "bit (st_active_consumer_mask (stream ?s)) 1" using m by code_simp
  from spmc_broadcast [OF r _ b, of zero_desc] have
    "fst (obmm_spmc_publish demo_view (stream ?s) zero_desc) \<noteq> E_AGAIN" by simp
  then show ?thesis using r by (intro exI [of _ ?s]) simp
qed

text \<open>The high-water mark of the provider's own payloads among a list of descriptors.\<close>

definition tx_end :: "obmm_spmc_stream_view \<Rightarrow> obmm_desc \<Rightarrow> u64 option" where
  "tx_end v d = (case obmm_spmc_provider_payload_addr v d of
       Inr (Some _) \<Rightarrow> Some (d_payload_offset d + ucast (d_payload_len d)) | _ \<Rightarrow> None)"

definition high_water :: "obmm_spmc_stream_view \<Rightarrow> u64 \<Rightarrow> obmm_desc list \<Rightarrow> u64" where
  "high_water v off ds =
     foldl (\<lambda>off d. case tx_end v d of None \<Rightarrow> off | Some e \<Rightarrow> max off e) off ds"

lemma reclaim_loop_ok:
  assumes ok: "depth_ok depth" "st_mask st = depth - 1" and h: "h < 2 ^ 64" "h \<le> length ps"
    and ring: "\<And>k. a \<le> k \<Longrightarrow> k < h \<Longrightarrow> st_ring st ! (k mod unat depth) = ps ! k" and ah: "a \<le> h"
    and run: "reclaim_loop v st (of_nat h) rs = (OBMM_OK, rs')" "rs_desc_reclaimed_to rs = of_nat a"
  shows "rs_desc_reclaimed_to rs' = of_nat h \<and>
    rs_tx_reclaim_offset rs' = high_water v (rs_tx_reclaim_offset rs) (drop a (take h ps))"
  using ah ring run
proof (induction "h - a" arbitrary: a rs)
  case 0
  then have "a = h" by simp
  then have "rs' = rs" using 0 by (simp add: reclaim_loop.simps [of v st "of_nat h" rs])
  then show ?case using 0 \<open>a = h\<close> by (simp add: high_water_def)
next
  case (Suc n)
  then have lt: "a < h" by simp
  then have "rs_desc_reclaimed_to rs < of_nat h"
    using h Suc.prems(4) by (simp add: word_less_nat_alt unat_of_nat64)
  moreover have "st_ring st ! unat (rs_desc_reclaimed_to rs AND ucast (st_mask st)) = ps ! a"
    using ring_index64(1) [OF ok(1), of a] Suc.prems(2) [of a] lt by (simp add: ok(2) Suc.prems(4))
  ultimately obtain adr where addr: "obmm_spmc_provider_payload_addr v (ps ! a) = Inr adr"
    and rec: "reclaim_loop v st (of_nat h) (let e = d_payload_offset (ps ! a) + ucast (d_payload_len (ps ! a));
        rs1 = (if adr \<noteq> None \<and> e > rs_tx_reclaim_offset rs then rs\<lparr>rs_tx_reclaim_offset := e\<rparr> else rs) in
        rs1\<lparr>rs_desc_reclaimed_to := rs_desc_reclaimed_to rs1 + 1\<rparr>) = (OBMM_OK, rs')"
    using Suc.prems(3) by (subst (asm) reclaim_loop.simps) (auto simp: Let_def split: sum.splits dest: payload_addr_error)
  let ?rs = "let e = d_payload_offset (ps ! a) + ucast (d_payload_len (ps ! a));
        rs1 = (if adr \<noteq> None \<and> e > rs_tx_reclaim_offset rs then rs\<lparr>rs_tx_reclaim_offset := e\<rparr> else rs) in
        rs1\<lparr>rs_desc_reclaimed_to := rs_desc_reclaimed_to rs1 + 1\<rparr>"
  have to: "rs_desc_reclaimed_to ?rs = of_nat (Suc a)" using Suc.prems(4) by (simp add: Let_def ac_simps)
  have off: "rs_tx_reclaim_offset ?rs =
      (case tx_end v (ps ! a) of None \<Rightarrow> rs_tx_reclaim_offset rs | Some e \<Rightarrow> max (rs_tx_reclaim_offset rs) e)"
    by (cases adr) (auto simp: tx_end_def addr Let_def max_def)
  have ih: "rs_desc_reclaimed_to rs' = of_nat h \<and>
      rs_tx_reclaim_offset rs' = high_water v (rs_tx_reclaim_offset ?rs) (drop (Suc a) (take h ps))"
    using Suc.hyps(2) lt Suc.prems(2) by (intro Suc.hyps(1) [OF _ _ _ rec to]) auto
  have "drop a (take h ps) = ps ! a # drop (Suc a) (take h ps)"
    using lt h(2) by (subst Cons_nth_drop_Suc [symmetric]) auto
  then show ?case using ih off by (simp add: high_water_def)
qed

text \<open>C14. Reclaiming frees only what everybody has read. When it is called before the provider is a
  whole ring ahead of the last reclaimed descriptor and succeeds, it stops at the descriptor the
  slowest attached consumer has still to read, and the offset it reports is the high-water mark of
  exactly the payloads before that one.\<close>

theorem spmc_reclaim_consumed:
  assumes "spmc_reachable v depth s" and "length (published s) < 2 ^ 64"
    and "st_active_consumer_mask (stream s) \<noteq> 0"
    and "rs_desc_reclaimed_to rs = of_nat a" and "length (published s) \<le> a + unat depth"
    and "\<And>i. bit (st_active_consumer_mask (stream s)) i \<Longrightarrow> a \<le> length (received s i)"
    and "obmm_spmc_reclaim_payloads v (stream s) rs = (OBMM_OK, rs')"
  shows "\<exists>h. rs_desc_reclaimed_to rs' = of_nat h \<and> a \<le> h \<and>
    (\<forall>i. bit (st_active_consumer_mask (stream s)) i \<longrightarrow> h \<le> length (received s i)) \<and>
    (\<exists>i. bit (st_active_consumer_mask (stream s)) i \<and> h = length (received s i)) \<and>
    rs_tx_reclaim_offset rs' = high_water v (rs_tx_reclaim_offset rs) (drop a (take h (published s)))"
proof -
  let ?act = "st_active_consumer_mask (stream s)"
  note inv = spmc_reachable_inv [OF assms(1)]
  have content: "spmc_content depth s" and shape: "spmc_shape depth s"
    using inv assms(2) by (simp_all add: spmc_inv_def)
  obtain k where k: "scan_heads (st_cursors (stream s)) (node_ids ?act) (st_tail (stream s)) = Some (of_nat k)"
    "k \<le> length (published s)" "\<And>i. i \<in> set (node_ids ?act) \<Longrightarrow> k \<le> length (received s i)"
    "\<exists>i\<in>set (node_ids ?act). k = length (received s i)"
    using inv_scan [OF inv assms(2,3)] by blast
  have "\<forall>i\<in>set (node_ids ?act). cu_state (st_cursors (stream s) ! i) = CONSUMER_ACTIVE"
    using k(1) scan_heads_active by (metis option.distinct(1))
  then have head: "obmm_spmc_reclaimable_head (stream s) = of_nat k"
    using reclaim_scan_eq k(1) assms(3) by (simp add: obmm_spmc_reclaimable_head_def)
  obtain i where i: "bit ?act i" "k = length (received s i)" using k(4) by (auto simp: node_ids_bit)
  have ring: "st_ring (stream s) ! (n mod unat depth) = published s ! n" if "a \<le> n" "n < k" for n
    using content k(2) assms(5) that by (simp add: spmc_content_def ring_recent_def)
  have "k < 2 ^ 64" "a \<le> k" using k(2) assms(2) assms(6) [OF i(1)] i(2) by simp_all
  then have "rs_desc_reclaimed_to rs' = of_nat k \<and>
      rs_tx_reclaim_offset rs' = high_water v (rs_tx_reclaim_offset rs) (drop a (take k (published s)))"
    using shape assms(4,7) head k(2) ring
    by (intro reclaim_loop_ok [where st = "stream s" and depth = depth and a = a])
       (auto simp: spmc_shape_def obmm_spmc_reclaim_payloads_def)
  then show ?thesis using i k(3) \<open>a \<le> k\<close> by (auto simp: node_ids_bit)
qed

theorem spmc_reclaim_consumed_witness:
  "\<exists>s rs'. spmc_reachable demo_view 64 s \<and>
     obmm_spmc_reclaim_payloads demo_view (stream s)
       \<lparr>rs_desc_reclaimed_to = 0, rs_tx_reclaim_offset = 16\<rparr> = (OBMM_OK, rs') \<and>
     rs_tx_reclaim_offset rs' = 16"
proof -
  have init: "obmm_spmc_stream_init 64 2 0 3 = Some demo_stream"
    unfolding demo_stream_def by code_simp
  let ?s = "\<lparr>stream = demo_stream, published = [], received = (\<lambda>_. [])\<rparr>"
  let ?rs = "\<lparr>rs_desc_reclaimed_to = 0, rs_tx_reclaim_offset = 16\<rparr>"
  have r: "spmc_reachable demo_view 64 ?s" using init by (rule start)
  have m: "st_active_consumer_mask demo_stream = 3" "obmm_spmc_reclaimable_head demo_stream = 0"
    unfolding demo_stream_def by code_simp+
  have run: "obmm_spmc_reclaim_payloads demo_view (stream ?s) ?rs = (OBMM_OK, ?rs)"
    by (simp add: obmm_spmc_reclaim_payloads_def m(2) reclaim_loop.simps)
  from spmc_reclaim_consumed [OF r _ _ _ _ _ run, of 0] m(1)
  have "rs_tx_reclaim_offset ?rs = 16" by (auto simp: high_water_def)
  then show ?thesis using r run by blast
qed

text \<open>Called too late, reclaiming goes wrong. Here 65 descriptors have been published and 64 of them
  read; slot 0 of the ring has been overwritten by the last one, which is unread. The loop reads that
  slot for the long consumed first descriptor and frees the unread payload.\<close>

definition unread_desc :: obmm_desc where
  "unread_desc = zero_desc\<lparr>d_seq := 64, d_region_id := 1, d_payload_offset := 2048, d_payload_len := 512\<rparr>"

definition lapped_stream :: obmm_spmc_stream where
  "lapped_stream = demo_stream\<lparr>st_tail := 65,
     st_cursors := map (\<lambda>c. c\<lparr>cu_head := 64\<rparr>) (st_cursors demo_stream),
     st_ring := unread_desc # replicate 63 zero_desc\<rparr>"

lemma late_reclaim_frees_unread:
  "obmm_spmc_reclaim_payloads demo_view lapped_stream
     \<lparr>rs_desc_reclaimed_to = 0, rs_tx_reclaim_offset = 0\<rparr> =
   (OBMM_OK, \<lparr>rs_desc_reclaimed_to = 64, rs_tx_reclaim_offset = 2560\<rparr>)"
  "fst (snd (obmm_spmc_consume lapped_stream 1)) = Some unread_desc"
  by code_simp+

text \<open>The header check of a view never looks at the mask, with which every slot is indexed.\<close>

lemma view_ignores_mask:
  "obmm_spmc_view_init_from_directory (\<lambda>off. (stream_at off)\<lparr>st_mask := m\<rparr>) base pool_size dir node =
   obmm_spmc_view_init_from_directory stream_at base pool_size dir node"
  by (cases "filter (\<lambda>e. de_kind e = OBMM_REGION_SPMC_STREAM) dir")
     (simp_all add: obmm_spmc_view_init_from_directory_def Let_def)

end
