(* ===== verification/Typed_Payload.thy ===== *)
theory Typed_Payload
  imports Region_Codec
begin

text \<open>
  The typed-binary payload codec (\<open>mem_service_daemon.c\<close>), the alternative to the text payload: a
  header of six bytes (magic, version, number of fields), then per field its type, the length and the
  bytes of its name, and the length and the bytes of its value. A buffer position is the list of the
  bytes from there on; a \<open>size_t\<close> that stays far below its range is a \<^typ>\<open>nat\<close>.
\<close>

section \<open>Data\<close>

definition MEM_SERVICE_WIRE_PAYLOAD_FIELD_STRING :: u8 where
  "MEM_SERVICE_WIRE_PAYLOAD_FIELD_STRING = 1"

definition MEM_SERVICE_WIRE_PAYLOAD_FIELD_U32 :: u8 where
  "MEM_SERVICE_WIRE_PAYLOAD_FIELD_U32 = 2"

definition MEM_SERVICE_WIRE_PAYLOAD_FIELD_U64 :: u8 where
  "MEM_SERVICE_WIRE_PAYLOAD_FIELD_U64 = 3"

lemmas typed_field_codes =
  MEM_SERVICE_WIRE_PAYLOAD_FIELD_STRING_def MEM_SERVICE_WIRE_PAYLOAD_FIELD_U32_def
  MEM_SERVICE_WIRE_PAYLOAD_FIELD_U64_def

definition MEM_SERVICE_TYPED_PAYLOAD_MAGIC :: "u8 list" where
  "MEM_SERVICE_TYPED_PAYLOAD_MAGIC = bytes_of ''MSTP''"

definition MEM_SERVICE_TYPED_PAYLOAD_VERSION :: u8 where
  "MEM_SERVICE_TYPED_PAYLOAD_VERSION = 1"

definition MEM_SERVICE_TYPED_PAYLOAD_MAX_KNOWN_VERSION :: u8 where
  "MEM_SERVICE_TYPED_PAYLOAD_MAX_KNOWN_VERSION = 1"

definition MEM_SERVICE_TYPED_PAYLOAD_MAX_NAME :: nat where
  "MEM_SERVICE_TYPED_PAYLOAD_MAX_NAME = 32"

definition MEM_SERVICE_TYPED_PAYLOAD_MAX_VALUE :: nat where
  "MEM_SERVICE_TYPED_PAYLOAD_MAX_VALUE = 1024"

record mem_service_typed_payload_field =
  tpf_type :: u8
  tpf_name :: cstr
  tpf_string_value :: cstr
  tpf_int_value :: u64

section \<open>Numbers on the wire\<close>

definition mem_service_typed_put_u16_be :: "u16 \<Rightarrow> u8 list" where
  "mem_service_typed_put_u16_be v = [ucast (drop_bit 8 v), ucast v]"

definition mem_service_typed_get_u16_be :: "u8 list \<Rightarrow> u16" where
  "mem_service_typed_get_u16_be p = push_bit 8 (ucast (p ! 0)) OR ucast (p ! 1)"

text \<open>The inline code of the encoder and the decoder for 32 and 64 bits.\<close>

definition typed_put_u32_be :: "u32 \<Rightarrow> u8 list" where
  "typed_put_u32_be v =
     [ucast (drop_bit 24 v), ucast (drop_bit 16 v), ucast (drop_bit 8 v), ucast v]"

definition typed_get_u32_be :: "u8 list \<Rightarrow> u32" where
  "typed_get_u32_be p =
     push_bit 24 (ucast (p ! 0)) OR push_bit 16 (ucast (p ! 1)) OR push_bit 8 (ucast (p ! 2)) OR ucast (p ! 3)"

definition typed_put_u64_be :: "u64 \<Rightarrow> u8 list" where
  "typed_put_u64_be v = map (\<lambda>b. ucast (drop_bit (56 - 8 * b) v)) [0..<8]"

definition typed_get_u64_be :: "u8 list \<Rightarrow> u64" where
  "typed_get_u64_be p = foldl (\<lambda>v b. push_bit 8 v OR ucast b) 0 (take 8 p)"

section \<open>Encoding\<close>

text \<open>The value bytes of a field; None is the unknown type.\<close>

definition typed_value_bytes :: "mem_service_typed_payload_field \<Rightarrow> u8 list option" where
  "typed_value_bytes f =
     (if tpf_type f = MEM_SERVICE_WIRE_PAYLOAD_FIELD_STRING then Some (bytes_of (tpf_string_value f))
      else if tpf_type f = MEM_SERVICE_WIRE_PAYLOAD_FIELD_U32 then
        Some (typed_put_u32_be (ucast (tpf_int_value f)))
      else if tpf_type f = MEM_SERVICE_WIRE_PAYLOAD_FIELD_U64 then Some (typed_put_u64_be (tpf_int_value f))
      else None)"

text \<open>The loop of the encoder; \<open>room\<close> is \<open>buf_len - offset\<close>. None is the error return, after which
  the buffer is not used.\<close>

fun typed_encode_fields :: "mem_service_typed_payload_field list \<Rightarrow> nat \<Rightarrow> u8 list option" where
  "typed_encode_fields [] room = Some []"
| "typed_encode_fields (f # fs) room =
     (let name_len = length (tpf_name f) in
      if name_len = 0 \<or> name_len > 255 then None
      else case typed_value_bytes f of
        None \<Rightarrow> None
      | Some value_bytes \<Rightarrow>
          let value_len = length value_bytes;
              need = 1 + 1 + name_len + 2 + value_len
          in if value_len > 65535 then None
             else if need > room then None
             else map_option
               (\<lambda>rest. [tpf_type f, of_nat name_len] @ bytes_of (tpf_name f) @
                  mem_service_typed_put_u16_be (of_nat value_len) @ value_bytes @ rest)
               (typed_encode_fields fs (room - need)))"

definition mem_service_typed_payload_encode ::
  "mem_service_typed_payload_field list \<Rightarrow> nat \<Rightarrow> u8 list option" where
  "mem_service_typed_payload_encode flds buf_len =
     (if length flds > 255 \<or> buf_len < 6 then None
      else map_option
        (\<lambda>rest. MEM_SERVICE_TYPED_PAYLOAD_MAGIC @
           [MEM_SERVICE_TYPED_PAYLOAD_VERSION, of_nat (length flds)] @ rest)
        (typed_encode_fields flds (buf_len - 6)))"

section \<open>Decoding\<close>

text \<open>A name or a string value as C reads it back: up to the first NUL.\<close>

definition typed_c_string :: "u8 list \<Rightarrow> cstr" where
  "typed_c_string bs = takeWhile (\<lambda>c. c \<noteq> CHR 0x00) (cstr_of bs)"

text \<open>The value of a field of the given type, written over the cleared slot \<open>f\<close>.\<close>

definition typed_decode_value ::
  "u8 \<Rightarrow> u8 list \<Rightarrow> mem_service_typed_payload_field \<Rightarrow> mem_service_typed_payload_field option" where
  "typed_decode_value type val f =
     (if type = MEM_SERVICE_WIRE_PAYLOAD_FIELD_STRING then
        if length val \<ge> MEM_SERVICE_TYPED_PAYLOAD_MAX_VALUE then None
        else Some (f \<lparr> tpf_string_value := typed_c_string val \<rparr>)
      else if type = MEM_SERVICE_WIRE_PAYLOAD_FIELD_U32 then
        if length val \<noteq> 4 then None
        else Some (f \<lparr> tpf_int_value := ucast (typed_get_u32_be val) \<rparr>)
      else if type = MEM_SERVICE_WIRE_PAYLOAD_FIELD_U64 then
        if length val \<noteq> 8 then None
        else Some (f \<lparr> tpf_int_value := typed_get_u64_be val \<rparr>)
      else None)"

fun typed_decode_fields :: "nat \<Rightarrow> u8 list \<Rightarrow> mem_service_typed_payload_field list option" where
  "typed_decode_fields 0 buf = Some []"
| "typed_decode_fields (Suc i) buf =
     (if length buf < 2 then None
      else let type = buf ! 0;
               name_len = unat (buf ! 1);
               need = 1 + 1 + name_len + 2
        in if length buf < need then None
           else if name_len = 0 \<or> name_len \<ge> MEM_SERVICE_TYPED_PAYLOAD_MAX_NAME then None
           else let value_len = unat (mem_service_typed_get_u16_be (drop (2 + name_len) buf))
             in if value_len > MEM_SERVICE_TYPED_PAYLOAD_MAX_VALUE \<or> length buf < need + value_len then None
                else case typed_decode_value type (take value_len (drop (4 + name_len) buf))
                       \<lparr> tpf_type = type, tpf_name = typed_c_string (take name_len (drop 2 buf)),
                         tpf_string_value = [], tpf_int_value = 0 \<rparr> of
                    None \<Rightarrow> None
                  | Some f \<Rightarrow> map_option ((#) f) (typed_decode_fields i (drop (need + value_len) buf)))"

text \<open>The decoder gives the fields, or None for the error return, and what it stored in
  \<open>version_out\<close>.\<close>

definition mem_service_typed_payload_decode ::
  "u8 list \<Rightarrow> nat \<Rightarrow> mem_service_typed_payload_field list option \<times> u8 option" where
  "mem_service_typed_payload_decode buf max_fields =
     (if length buf < 6 \<or> take 4 buf \<noteq> MEM_SERVICE_TYPED_PAYLOAD_MAGIC then (None, None)
      else if buf ! 4 > MEM_SERVICE_TYPED_PAYLOAD_MAX_KNOWN_VERSION then (None, Some (buf ! 4))
      else if unat (buf ! 5) > max_fields then (None, Some (buf ! 4))
      else (typed_decode_fields (unat (buf ! 5)) (drop 6 buf), Some (buf ! 4)))"

section \<open>Numbers round trip\<close>

lemma typed_put_length [simp]:
  "length (mem_service_typed_put_u16_be a) = 2" "length (typed_put_u32_be b) = 4" "length (typed_put_u64_be c) = 8"
  by (simp_all add: mem_service_typed_put_u16_be_def typed_put_u32_be_def typed_put_u64_be_def)

lemma typed_get_put_u16 [simp]:
  "mem_service_typed_get_u16_be (mem_service_typed_put_u16_be v @ rest) = v"
  by (rule bit_word_eqI)
     (auto simp: mem_service_typed_get_u16_be_def mem_service_typed_put_u16_be_def bit_simps)

lemma typed_get_put_u32 [simp]: "typed_get_u32_be (typed_put_u32_be v) = v"
  using get_put_u32 [of v "[]"]
  by (simp add: typed_get_u32_be_def typed_put_u32_be_def mem_service_provider_wire_get_u32_def
      mem_service_provider_wire_put_u32_def)

text \<open>Each round of the decoder's loop shifts one more byte of the number in.\<close>

lemma typed_shift_in: "push_bit 8 (drop_bit (n + 8) v) OR ucast (ucast (drop_bit n v) :: u8) = drop_bit n (v :: u64)"
proof (rule bit_word_eqI)
  fix m assume "m < LENGTH(64)"
  then show "bit (push_bit 8 (drop_bit (n + 8) v) OR ucast (ucast (drop_bit n v) :: u8)) m = bit (drop_bit n v) m"
    by (cases "m < 8") (auto simp: bit_simps add.commute add.left_commute)
qed

lemma typed_get_put_u64 [simp]: "typed_get_u64_be (typed_put_u64_be v) = v"
proof -
  have "drop_bit 64 v = 0" by (rule bit_word_eqI) (simp add: bit_simps)
  then have "ucast (ucast (drop_bit 56 v) :: u8) = drop_bit 56 v" using typed_shift_in [of 56 v] by simp
  moreover have "[0..<8] = [0, 1, 2, 3, 4, 5, 6, 7 :: nat]" by (simp add: upt_rec)
  ultimately show ?thesis
    using typed_shift_in [of 48 v] typed_shift_in [of 40 v] typed_shift_in [of 32 v] typed_shift_in [of 24 v]
      typed_shift_in [of 16 v] typed_shift_in [of 8 v] typed_shift_in [of 0 v]
    by (simp add: typed_get_u64_be_def typed_put_u64_be_def)
qed


section \<open>Payloads round trip\<close>

text \<open>A field whose strings fit the arrays of the struct, and what it is after it was sent: the value
  the type does not use is cleared, and a 32-bit number keeps its low half.\<close>

definition typed_field_fits :: "mem_service_typed_payload_field \<Rightarrow> bool" where
  "typed_field_fits f \<longleftrightarrow>
     length (tpf_name f) < MEM_SERVICE_TYPED_PAYLOAD_MAX_NAME \<and> CHR 0x00 \<notin> set (tpf_name f) \<and>
     length (tpf_string_value f) < MEM_SERVICE_TYPED_PAYLOAD_MAX_VALUE \<and> CHR 0x00 \<notin> set (tpf_string_value f)"

definition sent_field :: "mem_service_typed_payload_field \<Rightarrow> mem_service_typed_payload_field" where
  "sent_field f =
     (if tpf_type f = MEM_SERVICE_WIRE_PAYLOAD_FIELD_STRING then f \<lparr> tpf_int_value := 0 \<rparr>
      else if tpf_type f = MEM_SERVICE_WIRE_PAYLOAD_FIELD_U32 then
        f \<lparr> tpf_string_value := [], tpf_int_value := tpf_int_value f mod 2 ^ 32 \<rparr>
      else f \<lparr> tpf_string_value := [] \<rparr>)"

text \<open>The number of bytes of a field on the wire, and the fields the encoder can print.\<close>

definition typed_field_size :: "mem_service_typed_payload_field \<Rightarrow> nat" where
  "typed_field_size f =
     4 + length (tpf_name f) +
     (if tpf_type f = MEM_SERVICE_WIRE_PAYLOAD_FIELD_STRING then length (tpf_string_value f)
      else if tpf_type f = MEM_SERVICE_WIRE_PAYLOAD_FIELD_U32 then 4 else 8)"

definition typed_field_printable :: "mem_service_typed_payload_field \<Rightarrow> bool" where
  "typed_field_printable f \<longleftrightarrow>
     tpf_name f \<noteq> [] \<and>
     tpf_type f \<in> {MEM_SERVICE_WIRE_PAYLOAD_FIELD_STRING, MEM_SERVICE_WIRE_PAYLOAD_FIELD_U32,
       MEM_SERVICE_WIRE_PAYLOAD_FIELD_U64}"

lemma typed_c_string_bytes [simp]: "CHR 0x00 \<notin> set s \<Longrightarrow> typed_c_string (bytes_of s) = s"
  by (auto simp: typed_c_string_def takeWhile_eq_all_conv)

lemma length_bytes_of [simp]: "length (bytes_of s) = length s"
  by (simp add: bytes_of_def)

lemma ucast_low_half: "ucast (ucast v :: u32) = v mod 2 ^ 32" for v :: u64
proof -
  have "ucast (ucast v :: u32) = take_bit 32 v" by (rule bit_word_eqI) (auto simp: bit_simps)
  then show ?thesis by (simp add: take_bit_eq_mod)
qed

text \<open>The value bytes of a field decode to its value.\<close>

lemma typed_value_back:
  assumes "typed_field_fits f" "typed_value_bytes f = Some val"
  shows "typed_decode_value (tpf_type f) val
      \<lparr> tpf_type = tpf_type f, tpf_name = tpf_name f, tpf_string_value = [], tpf_int_value = 0 \<rparr> =
    Some (sent_field f)"
    and "length val \<le> MEM_SERVICE_TYPED_PAYLOAD_MAX_VALUE"
    and "4 + length (tpf_name f) + length val = typed_field_size f"
  using assms
  by (auto simp: typed_value_bytes_def typed_decode_value_def sent_field_def typed_field_fits_def typed_field_size_def
      typed_field_codes MEM_SERVICE_TYPED_PAYLOAD_MAX_VALUE_def ucast_low_half split: if_splits)

lemma typed_value_bytes_None_iff:
  "typed_value_bytes f = None \<longleftrightarrow>
     tpf_type f \<notin> {MEM_SERVICE_WIRE_PAYLOAD_FIELD_STRING, MEM_SERVICE_WIRE_PAYLOAD_FIELD_U32,
       MEM_SERVICE_WIRE_PAYLOAD_FIELD_U64}"
  by (auto simp: typed_value_bytes_def)

lemma unat_of_nat_small:
  "n < 256 \<Longrightarrow> unat (of_nat n :: u8) = n" "m < 65536 \<Longrightarrow> unat (of_nat m :: u16) = m"
  by (simp_all add: unat_of_nat)

text \<open>One field: what the encoder prints is what the decoder reads, with the rest of the buffer left.\<close>

lemma typed_decode_step:
  assumes f: "typed_field_fits f" "tpf_name f \<noteq> []" and v_bytes: "typed_value_bytes f = Some val"
  shows "typed_decode_fields (Suc i)
      ([tpf_type f, of_nat (length (tpf_name f))] @ bytes_of (tpf_name f) @
       mem_service_typed_put_u16_be (of_nat (length val)) @ val @ rest) =
    map_option ((#) (sent_field f)) (typed_decode_fields i rest)"
proof -
  let ?n = "length (tpf_name f)" and ?v = "length val"
  let ?tail = "bytes_of (tpf_name f) @ mem_service_typed_put_u16_be (of_nat ?v) @ val @ rest"
  note B = typed_value_back [OF f(1) v_bytes]
  have n: "0 < ?n" "?n < 32" "unat (of_nat ?n :: u8) = ?n" and nul: "CHR 0x00 \<notin> set (tpf_name f)"
    using f by (auto simp: typed_field_fits_def MEM_SERVICE_TYPED_PAYLOAD_MAX_NAME_def unat_of_nat_small)
  have v: "?v \<le> 1024" "unat (of_nat ?v :: u16) = ?v"
    using B(2) by (auto simp: MEM_SERVICE_TYPED_PAYLOAD_MAX_VALUE_def unat_of_nat_small)
  have cut: "drop (2 + ?n) ([tpf_type f, of_nat ?n] @ ?tail) = mem_service_typed_put_u16_be (of_nat ?v) @ val @ rest"
    "drop (4 + ?n) ([tpf_type f, of_nat ?n] @ ?tail) = val @ rest"
    "drop (1 + 1 + ?n + 2 + ?v) ([tpf_type f, of_nat ?n] @ ?tail) = rest"
    "take ?n (drop 2 ([tpf_type f, of_nat ?n] @ ?tail)) = bytes_of (tpf_name f)"
    by (simp_all add: drop_Cons')
  show ?thesis
    using n v nul B(1)
    by (simp add: Let_def cut [simplified] MEM_SERVICE_TYPED_PAYLOAD_MAX_NAME_def MEM_SERVICE_TYPED_PAYLOAD_MAX_VALUE_def)
qed

lemma typed_fields_back:
  assumes "\<forall>f\<in>set flds. typed_field_fits f" "typed_encode_fields flds room = Some wire"
  shows "typed_decode_fields (length flds) (wire @ rest) = Some (map sent_field flds)"
    and "length wire = sum_list (map typed_field_size flds)" "length wire \<le> room"
  using assms
proof (induction flds arbitrary: room wire)
  case (Cons f fs)
  { case 1
    then show ?case
      using Cons.IH(1) typed_decode_step [of f _ "length fs"]
      by (auto simp: Let_def simp del: typed_decode_fields.simps split: option.splits if_splits)
  next
    case 2
    then show ?case using Cons.IH(2) typed_value_back(3) [of f]
      by (fastforce simp: Let_def split: option.splits if_splits)
  next
    case 3
    then show ?case using Cons.IH(3)
      by (fastforce simp: Let_def split: option.splits if_splits)
  }
qed simp_all

lemma typed_fields_encodable:
  assumes "\<forall>f\<in>set flds. typed_field_fits f"
  shows "(\<exists>wire. typed_encode_fields flds room = Some wire) \<longleftrightarrow>
    (\<forall>f\<in>set flds. typed_field_printable f) \<and> sum_list (map typed_field_size flds) \<le> room"
  using assms
proof (induction flds arbitrary: room)
  case (Cons f fs)
  show ?case
  proof (cases "typed_value_bytes f")
    case None
    then show ?thesis using typed_value_bytes_None_iff [of f] by (auto simp: typed_field_printable_def Let_def)
  next
    case (Some val)
    have f: "typed_field_fits f" using Cons.prems by simp
    note B = typed_value_back(2,3) [OF f Some]
    have "length val < 65536" "length (tpf_name f) < 256"
      using B(1) f by (auto simp: MEM_SERVICE_TYPED_PAYLOAD_MAX_VALUE_def MEM_SERVICE_TYPED_PAYLOAD_MAX_NAME_def typed_field_fits_def)
    moreover have "typed_field_printable f \<longleftrightarrow> tpf_name f \<noteq> []"
      using Some typed_value_bytes_None_iff [of f] by (auto simp: typed_field_printable_def)
    moreover have "1 + 1 + length (tpf_name f) + 2 + length val = typed_field_size f" using B(2) by simp
    ultimately show ?thesis
      using Cons.IH [of "room - typed_field_size f"] Cons.prems Some
      by (auto simp: Let_def)
  qed
qed simp


text \<open>A field cut short is refused.\<close>

lemma typed_get_u16_take:
  "i + 2 \<le> k \<Longrightarrow> k \<le> length b \<Longrightarrow>
   mem_service_typed_get_u16_be (drop i (take k b)) = mem_service_typed_get_u16_be (drop i b)"
  by (simp add: mem_service_typed_get_u16_be_def)

lemma typed_decode_cut:
  assumes f: "typed_field_fits f" "tpf_name f \<noteq> []" and v_bytes: "typed_value_bytes f = Some val"
    and k: "k < typed_field_size f"
  shows "typed_decode_fields (Suc i)
      (take k ([tpf_type f, of_nat (length (tpf_name f))] @ bytes_of (tpf_name f) @
       mem_service_typed_put_u16_be (of_nat (length val)) @ val @ rest)) = None" (is "_ (take k ?b) = _")
proof -
  let ?n = "length (tpf_name f)" and ?v = "length val"
  note B = typed_value_back [OF f(1) v_bytes]
  have len: "length ?b = typed_field_size f + length rest" using B(3) by simp
  have n: "unat (of_nat ?n :: u8) = ?n" "unat (of_nat ?v :: u16) = ?v"
    using f(1) B(2)
    by (auto simp: typed_field_fits_def MEM_SERVICE_TYPED_PAYLOAD_MAX_NAME_def MEM_SERVICE_TYPED_PAYLOAD_MAX_VALUE_def
        unat_of_nat_small)
  consider "k < 2" | "2 \<le> k" "k < 4 + ?n" | "4 + ?n \<le> k" by linarith
  then show ?thesis
  proof cases
    case 1
    then show ?thesis by simp
  next
    case 2
    then have "take k ?b ! 1 = of_nat ?n" by simp
    with 2 n len k show ?thesis by (simp add: Let_def)
  next
    case 3
    then have "take k ?b ! 1 = of_nat ?n" by simp
    moreover have "drop (2 + ?n) ?b = mem_service_typed_put_u16_be (of_nat ?v) @ val @ rest" by simp
    then have "mem_service_typed_get_u16_be (drop (2 + ?n) (take k ?b)) = of_nat ?v"
      using typed_get_u16_take [of "2 + ?n" k ?b] 3 len k by simp
    moreover have "length (take k ?b) = k" using len k by simp
    ultimately show ?thesis using n k B(3)
      by (simp only: typed_decode_fields.simps Let_def) simp
  qed
qed

lemma typed_fields_cut:
  assumes "\<forall>f\<in>set flds. typed_field_fits f" "typed_encode_fields flds room = Some wire" "k < length wire"
  shows "typed_decode_fields (length flds) (take k wire) = None"
  using assms
proof (induction flds arbitrary: room wire k)
  case (Cons f fs)
  obtain val rest where e: "typed_value_bytes f = Some val" "tpf_name f \<noteq> []"
    "typed_encode_fields fs (room - (1 + 1 + length (tpf_name f) + 2 + length val)) = Some rest"
    "wire = [tpf_type f, of_nat (length (tpf_name f))] @ bytes_of (tpf_name f) @
       mem_service_typed_put_u16_be (of_nat (length val)) @ val @ rest"
    using Cons.prems(2) by (auto simp: Let_def split: option.splits if_splits)
  have f: "typed_field_fits f" using Cons.prems(1) by simp
  let ?s = "typed_field_size f"
  have s: "?s = 4 + length (tpf_name f) + length val" using typed_value_back(3) [OF f e(1)] by simp
  show ?case
  proof (cases "k < ?s")
    case True
    then show ?thesis using typed_decode_cut [OF f e(2,1)] e(4) by simp
  next
    case False
    then have "take k wire = [tpf_type f, of_nat (length (tpf_name f))] @ bytes_of (tpf_name f) @
       mem_service_typed_put_u16_be (of_nat (length val)) @ val @ take (k - ?s) rest"
      by (simp add: e(4) s take_Cons' eval_nat_numeral)
    moreover have "typed_decode_fields (length fs) (take (k - ?s) rest) = None"
      using Cons.IH [OF _ e(3)] Cons.prems False e(4) s by simp
    ultimately show ?thesis
      using typed_decode_step [OF f e(2,1)] by (simp del: typed_decode_fields.simps)
  qed
qed simp


text \<open>What the decoder accepts fits the arrays it is copied into and has a known type.\<close>

lemma typed_c_string_fits:
  "length (typed_c_string bs) \<le> length bs" "CHR 0x00 \<notin> set (typed_c_string bs)"
  by (auto simp: typed_c_string_def cstr_of_def length_takeWhile_le [THEN order_trans] dest: set_takeWhileD)

lemma typed_decode_value_fits:
  assumes "typed_decode_value type val f = Some f'" "typed_field_fits f" "tpf_type f = type"
  shows "typed_field_fits f'"
    "tpf_type f' \<in> {MEM_SERVICE_WIRE_PAYLOAD_FIELD_STRING, MEM_SERVICE_WIRE_PAYLOAD_FIELD_U32,
       MEM_SERVICE_WIRE_PAYLOAD_FIELD_U64}"
  using assms typed_c_string_fits [of val]
  by (auto simp: typed_decode_value_def typed_field_fits_def split: if_splits)

lemma typed_decode_fits:
  assumes "typed_decode_fields n buf = Some flds"
  shows "length flds = n \<and> (\<forall>f\<in>set flds. typed_field_fits f \<and>
    tpf_type f \<in> {MEM_SERVICE_WIRE_PAYLOAD_FIELD_STRING, MEM_SERVICE_WIRE_PAYLOAD_FIELD_U32,
      MEM_SERVICE_WIRE_PAYLOAD_FIELD_U64})"
  using assms
proof (induction n buf arbitrary: flds rule: typed_decode_fields.induct)
  case (2 i buf)
  let ?n = "unat (buf ! 1)" and ?v = "unat (mem_service_typed_get_u16_be (drop (2 + unat (buf ! 1)) buf))"
  let ?f = "\<lparr> tpf_type = buf ! 0, tpf_name = typed_c_string (take ?n (drop 2 buf)), tpf_string_value = [], tpf_int_value = 0 \<rparr>"
  have D: "\<not> length buf < 2" "\<not> length buf < 1 + 1 + ?n + 2"
    "\<not> (?n = 0 \<or> MEM_SERVICE_TYPED_PAYLOAD_MAX_NAME \<le> ?n)"
    "\<not> (MEM_SERVICE_TYPED_PAYLOAD_MAX_VALUE < ?v \<or> length buf < 1 + 1 + ?n + 2 + ?v)"
    and run: "\<exists>f fs. typed_decode_value (buf ! 0) (take ?v (drop (4 + ?n) buf)) ?f = Some f \<and>
      typed_decode_fields i (drop (1 + 1 + ?n + 2 + ?v) buf) = Some fs \<and> flds = f # fs"
    using "2.prems" by (auto simp: Let_def split: if_splits option.splits)
  from run obtain f fs where r: "typed_decode_value (buf ! 0) (take ?v (drop (4 + ?n) buf)) ?f = Some f"
    "typed_decode_fields i (drop (1 + 1 + ?n + 2 + ?v) buf) = Some fs" "flds = f # fs" by blast
  have "typed_field_fits ?f"
    using typed_c_string_fits [of "take ?n (drop 2 buf)"] D(2,3)
    by (simp add: typed_field_fits_def MEM_SERVICE_TYPED_PAYLOAD_MAX_VALUE_def)
  then show ?case
    using "2.IH" [OF D(1) refl refl refl D(2,3) refl D(4) r(1) r(2)] typed_decode_value_fits [OF r(1)] r(3) by simp
qed simp

section \<open>The codec\<close>

lemma typed_header [simp]:
  "length MEM_SERVICE_TYPED_PAYLOAD_MAGIC = 4"
  by (simp add: MEM_SERVICE_TYPED_PAYLOAD_MAGIC_def)

text \<open>C21. The typed payload codec. For fields that fit their struct: the encoder accepts them exactly
  when there are at most 255, each has a name and a known type, and header and fields fit the buffer;
  what it prints is decoded, whatever follows in the buffer, to the same fields (the value a type
  does not use is cleared, a 32-bit value keeps its low half) and version 1, if the caller has room for
  that many fields, and is refused otherwise; every proper prefix of it is refused, and so is the same
  message with a version above 1 in its header.\<close>

theorem typed_payload_codec:
  assumes "\<forall>f\<in>set flds. typed_field_fits f"
  shows "((\<exists>wire. mem_service_typed_payload_encode flds buf_len = Some wire) \<longleftrightarrow>
      length flds \<le> 255 \<and> (\<forall>f\<in>set flds. typed_field_printable f) \<and>
      6 + sum_list (map typed_field_size flds) \<le> buf_len) \<and>
    (\<forall>wire. mem_service_typed_payload_encode flds buf_len = Some wire \<longrightarrow>
      length wire = 6 + sum_list (map typed_field_size flds) \<and>
      (\<forall>rest max_fields. mem_service_typed_payload_decode (wire @ rest) max_fields =
         (if length flds \<le> max_fields then Some (map sent_field flds) else None, Some 1)) \<and>
      (\<forall>k<length wire. \<forall>max_fields. fst (mem_service_typed_payload_decode (take k wire) max_fields) = None) \<and>
      (\<forall>v>1. \<forall>max_fields. fst (mem_service_typed_payload_decode (wire[4 := v]) max_fields) = None))"
proof (intro conjI allI impI)
  show "(\<exists>wire. mem_service_typed_payload_encode flds buf_len = Some wire) \<longleftrightarrow>
      length flds \<le> 255 \<and> (\<forall>f\<in>set flds. typed_field_printable f) \<and>
      6 + sum_list (map typed_field_size flds) \<le> buf_len"
    using typed_fields_encodable [OF assms, of "buf_len - 6"]
    by (auto simp: mem_service_typed_payload_encode_def)
  fix wire assume "mem_service_typed_payload_encode flds buf_len = Some wire"
  then obtain body where body: "typed_encode_fields flds (buf_len - 6) = Some body" "length flds \<le> 255"
    and wire: "wire = MEM_SERVICE_TYPED_PAYLOAD_MAGIC @ [1, of_nat (length flds)] @ body"
    by (auto simp: mem_service_typed_payload_encode_def MEM_SERVICE_TYPED_PAYLOAD_VERSION_def split: if_splits)
  note B = typed_fields_back [OF assms body(1)]
  have n: "unat (of_nat (length flds) :: u8) = length flds" using body(2) by (simp add: unat_of_nat_small)
  show len: "length wire = 6 + sum_list (map typed_field_size flds)" using B(2) by (simp add: wire)
  show "mem_service_typed_payload_decode (wire @ rest) max_fields =
      (if length flds \<le> max_fields then Some (map sent_field flds) else None, Some 1)" for rest max_fields
    using B(1) [of rest] n
    by (simp add: mem_service_typed_payload_decode_def wire nth_append MEM_SERVICE_TYPED_PAYLOAD_MAX_KNOWN_VERSION_def)
  show "fst (mem_service_typed_payload_decode (take k wire) max_fields) = None" if "k < length wire" for k max_fields
  proof (cases "k < 6")
    case True
    then have "length (take k wire) < 6" by simp
    then show ?thesis by (simp only: mem_service_typed_payload_decode_def) simp
  next
    case False
    then have "take k wire = MEM_SERVICE_TYPED_PAYLOAD_MAGIC @ [1, of_nat (length flds)] @ take (k - 6) body"
      by (simp add: wire take_Cons')
    moreover have "typed_decode_fields (length flds) (take (k - 6) body) = None"
      using typed_fields_cut [OF assms body(1), of "k - 6"] that False by (simp add: wire)
    ultimately show ?thesis using n by (simp add: mem_service_typed_payload_decode_def nth_append)
  qed
  show "fst (mem_service_typed_payload_decode (wire[4 := v]) max_fields) = None" if "v > 1" for v max_fields
    using that len
    by (simp add: mem_service_typed_payload_decode_def MEM_SERVICE_TYPED_PAYLOAD_MAX_KNOWN_VERSION_def linorder_not_less)
qed

definition demo_typed_fields :: "mem_service_typed_payload_field list" where
  "demo_typed_fields =
     [\<lparr> tpf_type = 1, tpf_name = ''key'', tpf_string_value = ''obj/1'', tpf_int_value = 7 \<rparr>,
      \<lparr> tpf_type = 2, tpf_name = ''owner'', tpf_string_value = [], tpf_int_value = 0x100000003 \<rparr>]"

theorem typed_payload_codec_witness:
  "fst (mem_service_typed_payload_decode (the (mem_service_typed_payload_encode demo_typed_fields 64)) 32) =
     Some [\<lparr> tpf_type = 1, tpf_name = ''key'', tpf_string_value = ''obj/1'', tpf_int_value = 0 \<rparr>,
       \<lparr> tpf_type = 2, tpf_name = ''owner'', tpf_string_value = [], tpf_int_value = 3 \<rparr>]"
proof -
  have fits: "\<forall>f\<in>set demo_typed_fields. typed_field_fits f"
    by (simp add: demo_typed_fields_def typed_field_fits_def MEM_SERVICE_TYPED_PAYLOAD_MAX_NAME_def
        MEM_SERVICE_TYPED_PAYLOAD_MAX_VALUE_def)
  note C = typed_payload_codec [OF fits, of 64]
  have "length demo_typed_fields \<le> 255 \<and> (\<forall>f\<in>set demo_typed_fields. typed_field_printable f) \<and>
      6 + sum_list (map typed_field_size demo_typed_fields) \<le> 64"
    by (simp add: demo_typed_fields_def typed_field_printable_def typed_field_size_def typed_field_codes)
  then obtain wire where wire: "mem_service_typed_payload_encode demo_typed_fields 64 = Some wire" using C by blast
  then have "mem_service_typed_payload_decode (wire @ []) 32 =
      (if length demo_typed_fields \<le> 32 then Some (map sent_field demo_typed_fields) else None, Some 1)"
    using C by blast
  then show ?thesis
    by (simp add: wire) (simp add: demo_typed_fields_def sent_field_def typed_field_codes)
qed

text \<open>A name whose first byte on the wire is NUL passes the length check and is read back empty, a
  field the encoder would refuse.\<close>

lemma typed_nul_name_accepted:
  "fst (mem_service_typed_payload_decode
     (MEM_SERVICE_TYPED_PAYLOAD_MAGIC @ [1, 1, 1, 1, 0, 0, 0]) 32) =
   Some [\<lparr> tpf_type = 1, tpf_name = [], tpf_string_value = [], tpf_int_value = 0 \<rparr>]"
  by (simp add: mem_service_typed_payload_decode_def nth_append MEM_SERVICE_TYPED_PAYLOAD_MAX_KNOWN_VERSION_def
      typed_decode_value_def typed_field_codes MEM_SERVICE_TYPED_PAYLOAD_MAX_NAME_def
      MEM_SERVICE_TYPED_PAYLOAD_MAX_VALUE_def mem_service_typed_get_u16_be_def typed_c_string_def cstr_of_def char_of_def)

end
