(* ===== verification/Range_Flow.thy ===== *)
theory Range_Flow
  imports Prelude
begin

text \<open>
  Range-flow requests (\<open>mem_service_profile.c\<close>) and the geometry of DeepSeek V4 Flash
  (\<open>mem_service_deepseek_v4_flash.c\<close>): how the layers of a model are cut into ranges, one per node
  of the cluster, and how a request names the local range, the next one and the one before. The
  callback that gives a node its range is an argument; None is its error return. The stack variable
  \<open>predecessor\<close> is not initialised, so what it holds at first is an argument too.
\<close>

section \<open>Placements and requests\<close>

record mem_service_layer_range_placement =
  pl_owner_node :: u32
  pl_layer_start :: u32
  pl_layer_end :: u32
  pl_next_owner_node :: u32
  pl_layer_count :: u32
  pl_terminal :: bool

definition zero_placement :: mem_service_layer_range_placement where
  "zero_placement =
     \<lparr> pl_owner_node = 0, pl_layer_start = 0, pl_layer_end = 0, pl_next_owner_node = 0, pl_layer_count = 0,
       pl_terminal = False \<rparr>"

text \<open>The recycler the request carries is a function pointer; its type is a parameter of the request.\<close>

record 'f mem_service_obmm_range_flow_request =
  rq_model_key :: cstr
  rq_total_layers :: u32
  rq_range_nodes :: u32
  rq_hidden_range_bytes :: u64
  rq_kv_state_bytes :: u64
  rq_local_placement :: mem_service_layer_range_placement
  rq_next_placement :: mem_service_layer_range_placement
  rq_has_predecessor :: bool
  rq_predecessor_placement :: mem_service_layer_range_placement
  rq_allow_terminal_shortpath :: bool
  rq_publish_payload_in_place :: bool
  rq_publish_payload_offset :: u64
  rq_recycle_runtime_record :: "'f option"

text \<open>A callback gives a node of a cluster the start and the end of its range and the next node.\<close>

type_synonym layer_range_for_node_fn = "u32 \<Rightarrow> u32 \<Rightarrow> (u32 \<times> u32 \<times> u32) option"

definition mem_service_copy_layer_range ::
  "u32 \<Rightarrow> u32 \<Rightarrow> u32 \<Rightarrow> u32 \<Rightarrow> u32 \<Rightarrow> mem_service_layer_range_placement option" where
  "mem_service_copy_layer_range owner_node layer_start layer_end next_owner_node range_nodes =
     (if layer_end \<le> layer_start \<or> owner_node \<ge> range_nodes \<or> next_owner_node \<ge> range_nodes then None
      else Some
        \<lparr> pl_owner_node = owner_node, pl_layer_start = layer_start, pl_layer_end = layer_end,
          pl_next_owner_node = next_owner_node, pl_layer_count = layer_end - layer_start,
          pl_terminal = (next_owner_node = owner_node \<or> next_owner_node = 0) \<rparr>)"

text \<open>The loop over the nodes that looks for the range that ends where the local one starts.\<close>

definition predecessor_of ::
  "layer_range_for_node_fn \<Rightarrow> u32 \<Rightarrow> u32 \<Rightarrow> u32 \<Rightarrow> u32 \<Rightarrow> mem_service_layer_range_placement option" where
  "predecessor_of layer_range_for_node range_nodes local_node local_start node =
     (if node = local_node then None
      else case layer_range_for_node node range_nodes of
        None \<Rightarrow> None
      | Some (start, fin, after) \<Rightarrow>
          if after = local_node \<and> fin = local_start then
            mem_service_copy_layer_range node start fin after range_nodes
          else None)"

fun find_predecessor ::
  "layer_range_for_node_fn \<Rightarrow> u32 \<Rightarrow> u32 \<Rightarrow> u32 \<Rightarrow> u32 list \<Rightarrow> mem_service_layer_range_placement option" where
  "find_predecessor layer_range_for_node range_nodes local_node local_start [] = None"
| "find_predecessor layer_range_for_node range_nodes local_node local_start (node # nodes) =
     (case predecessor_of layer_range_for_node range_nodes local_node local_start node of
        Some p \<Rightarrow> Some p
      | None \<Rightarrow> find_predecessor layer_range_for_node range_nodes local_node local_start nodes)"

definition all_nodes :: "u32 \<Rightarrow> u32 list" where
  "all_nodes range_nodes = map of_nat [0..<unat range_nodes]"

definition mem_service_init_obmm_range_flow_request ::
  "mem_service_layer_range_placement \<Rightarrow> cstr \<Rightarrow> u32 \<Rightarrow> u32 \<Rightarrow> u64 \<Rightarrow> u64 \<Rightarrow> u32 \<Rightarrow>
   layer_range_for_node_fn \<Rightarrow> 'f option \<Rightarrow> 'f mem_service_obmm_range_flow_request option" where
  "mem_service_init_obmm_range_flow_request stack model_key total_layers range_nodes hidden_range_bytes
     kv_state_bytes local_node layer_range_for_node recycle =
     (if model_key = [] \<or> total_layers = 0 \<or> range_nodes = 0 \<or> local_node \<ge> range_nodes \<or> hidden_range_bytes = 0
      then None
      else case layer_range_for_node local_node range_nodes of
        None \<Rightarrow> None
      | Some (local_start, local_end, next_node) \<Rightarrow>
         (case layer_range_for_node next_node range_nodes of
            None \<Rightarrow> None
          | Some (remote_start, remote_end, after_remote) \<Rightarrow>
              if local_end > total_layers \<or> remote_end > total_layers then None
              else case (mem_service_copy_layer_range local_node local_start local_end next_node range_nodes,
                         mem_service_copy_layer_range next_node remote_start remote_end after_remote range_nodes) of
                (Some local, Some remote) \<Rightarrow>
                  let found = find_predecessor layer_range_for_node range_nodes local_node local_start
                        (all_nodes range_nodes)
                  in if local_start \<noteq> 0 \<and> found = None then None
                     else Some
                       \<lparr> rq_model_key = model_key, rq_total_layers = total_layers, rq_range_nodes = range_nodes,
                         rq_hidden_range_bytes = hidden_range_bytes, rq_kv_state_bytes = kv_state_bytes,
                         rq_local_placement = local, rq_next_placement = remote,
                         rq_has_predecessor = (found \<noteq> None),
                         rq_predecessor_placement = (case found of Some p \<Rightarrow> p | None \<Rightarrow> stack),
                         rq_allow_terminal_shortpath = False, rq_publish_payload_in_place = False,
                         rq_publish_payload_offset = 0, rq_recycle_runtime_record = recycle \<rparr>
              | _ \<Rightarrow> None))"

section \<open>DeepSeek V4 Flash\<close>

definition DEEPSEEK_V4_FLASH_TOTAL_LAYERS :: u32 where
  "DEEPSEEK_V4_FLASH_TOTAL_LAYERS = 43"

definition DEEPSEEK_V4_FLASH_HIDDEN_F32_VALUES :: u64 where
  "DEEPSEEK_V4_FLASH_HIDDEN_F32_VALUES = 16384"

definition DEEPSEEK_V4_FLASH_MAX_PREFILL_TOKENS :: u64 where
  "DEEPSEEK_V4_FLASH_MAX_PREFILL_TOKENS = 32"

definition mem_service_deepseek_v4_flash_layer_count :: u32 where
  "mem_service_deepseek_v4_flash_layer_count = DEEPSEEK_V4_FLASH_TOTAL_LAYERS"

definition mem_service_deepseek_v4_flash_vocab_size :: u64 where
  "mem_service_deepseek_v4_flash_vocab_size = 129280"

definition mem_service_deepseek_v4_flash_hidden_range_bytes :: "u64 \<Rightarrow> u64" where
  "mem_service_deepseek_v4_flash_hidden_range_bytes token_count =
     (if token_count = 0 \<or> token_count > DEEPSEEK_V4_FLASH_MAX_PREFILL_TOKENS then 0
      else DEEPSEEK_V4_FLASH_HIDDEN_F32_VALUES * token_count * 4)"

definition mem_service_deepseek_v4_flash_decode_hidden_bytes :: u64 where
  "mem_service_deepseek_v4_flash_decode_hidden_bytes = DEEPSEEK_V4_FLASH_HIDDEN_F32_VALUES * 1 * 4"

definition mem_service_deepseek_v4_flash_handoff_hidden_bytes :: "u64 \<Rightarrow> u64 \<Rightarrow> u64" where
  "mem_service_deepseek_v4_flash_handoff_hidden_bytes decode_step prompt_tokens =
     (if decode_step > 0 then mem_service_deepseek_v4_flash_decode_hidden_bytes
      else mem_service_deepseek_v4_flash_hidden_range_bytes prompt_tokens)"

definition mem_service_deepseek_v4_flash_model_key :: cstr where
  "mem_service_deepseek_v4_flash_model_key = ''deepseek-v4-flash''"

definition mem_service_deepseek_v4_flash_range_kv_state_bytes :: "u32 \<Rightarrow> u32 \<Rightarrow> u64" where
  "mem_service_deepseek_v4_flash_range_kv_state_bytes layer_start layer_end =
     (if layer_end \<le> layer_start \<or> layer_end > DEEPSEEK_V4_FLASH_TOTAL_LAYERS then 0
      else let bytes_per_layer = 1 * 512 * 2 * 4;
               layer_count = ucast (layer_end - layer_start)
        in layer_count * bytes_per_layer)"

definition mem_service_deepseek_v4_flash_layer_range_for_node :: layer_range_for_node_fn where
  "mem_service_deepseek_v4_flash_layer_range_for_node local_node cluster_node_count =
     (let layer_count = DEEPSEEK_V4_FLASH_TOTAL_LAYERS in
      if cluster_node_count = 0 \<or> cluster_node_count > DEEPSEEK_V4_FLASH_TOTAL_LAYERS \<or>
         local_node \<ge> cluster_node_count
      then None
      else let base = layer_count div cluster_node_count;
               rem = layer_count mod cluster_node_count;
               start = local_node * base + (if local_node < rem then local_node else rem);
               count = base + (if local_node < rem then 1 else 0)
        in Some (start, start + count, (local_node + 1) mod cluster_node_count))"

definition mem_service_deepseek_v4_flash_init_obmm_range_flow_request ::
  "mem_service_layer_range_placement \<Rightarrow> u32 \<Rightarrow> u32 \<Rightarrow> 'f mem_service_obmm_range_flow_request option" where
  "mem_service_deepseek_v4_flash_init_obmm_range_flow_request stack local_node cluster_node_count =
     (case mem_service_deepseek_v4_flash_layer_range_for_node local_node cluster_node_count of
        None \<Rightarrow> None
      | Some (layer_start, layer_end, next_node) \<Rightarrow>
          mem_service_init_obmm_range_flow_request stack mem_service_deepseek_v4_flash_model_key
            mem_service_deepseek_v4_flash_layer_count cluster_node_count
            (mem_service_deepseek_v4_flash_hidden_range_bytes DEEPSEEK_V4_FLASH_MAX_PREFILL_TOKENS)
            (mem_service_deepseek_v4_flash_range_kv_state_bytes layer_start layer_end)
            local_node mem_service_deepseek_v4_flash_layer_range_for_node None)"

section \<open>Requests are consistent\<close>

lemma find_predecessor_SomeD:
  assumes "find_predecessor lr n me start nodes = Some p"
  shows "\<exists>node\<in>set nodes. predecessor_of lr n me start node = Some p"
  using assms by (induction nodes) (auto split: option.splits)

lemma find_predecessor_None_iff:
  "find_predecessor lr n me start nodes = None \<longleftrightarrow> (\<forall>node\<in>set nodes. predecessor_of lr n me start node = None)"
  by (induction nodes) (auto split: option.splits)

lemma set_all_nodes: "set (all_nodes n) = {node. node < n}"
proof -
  have "node < n \<Longrightarrow> node \<in> of_nat ` {0..<unat n}" for node :: u32
    by (rule image_eqI [of _ _ "unat node"]) (simp_all add: word_less_nat_alt)
  moreover have "k < unat n \<Longrightarrow> (of_nat k :: u32) < n" for k
    using unsigned_less [where ?'a = nat, of n] by (simp add: word_less_nat_alt unat_of_nat)
  ultimately show ?thesis by (auto simp: all_nodes_def)
qed

lemma copy_layer_range_SomeD:
  assumes "mem_service_copy_layer_range owner start fin after n = Some p"
  shows "p = \<lparr> pl_owner_node = owner, pl_layer_start = start, pl_layer_end = fin, pl_next_owner_node = after,
      pl_layer_count = fin - start, pl_terminal = (after = owner \<or> after = 0) \<rparr>"
    "start < fin" "owner < n" "after < n"
  using assms by (auto simp: mem_service_copy_layer_range_def split: if_splits)

lemma predecessor_SomeD:
  assumes "predecessor_of lr n me start node = Some p"
  shows "node \<noteq> me" "\<exists>s. lr node n = Some (s, start, me) \<and> mem_service_copy_layer_range node s start me n = Some p"
  using assms by (auto simp: predecessor_of_def split: if_splits option.splits prod.splits)

lemma found_predecessorD:
  assumes "find_predecessor lr n me start (all_nodes n) = Some p"
  shows "pl_owner_node p \<noteq> me" "pl_owner_node p < n" "pl_next_owner_node p = me" "pl_layer_end p = start"
    "lr (pl_owner_node p) n = Some (pl_layer_start p, start, me)"
proof -
  obtain node where "predecessor_of lr n me start node = Some p" using find_predecessor_SomeD [OF assms] by blast
  note P = predecessor_SomeD [OF this]
  from P(2) obtain s where s: "lr node n = Some (s, start, me)" "mem_service_copy_layer_range node s start me n = Some p"
    by blast
  note C = copy_layer_range_SomeD [OF s(2)]
  show "pl_owner_node p \<noteq> me" "pl_owner_node p < n" "pl_next_owner_node p = me" "pl_layer_end p = start"
    "lr (pl_owner_node p) n = Some (pl_layer_start p, start, me)"
    using P(1) C s(1) by simp_all
qed

lemma init_request_SomeD:
  assumes "mem_service_init_obmm_range_flow_request stack key layers n hidden kv me lr recycle = Some req"
  obtains ls le nx rs re af where "lr me n = Some (ls, le, nx)" "lr nx n = Some (rs, re, af)"
    "le \<le> layers" "re \<le> layers" "me < n"
    "mem_service_copy_layer_range me ls le nx n = Some (rq_local_placement req)"
    "mem_service_copy_layer_range nx rs re af n = Some (rq_next_placement req)"
    "ls \<noteq> 0 \<longrightarrow> rq_has_predecessor req"
    "rq_has_predecessor req \<longleftrightarrow> find_predecessor lr n me ls (all_nodes n) \<noteq> None"
    "rq_predecessor_placement req = (case find_predecessor lr n me ls (all_nodes n) of Some p \<Rightarrow> p | None \<Rightarrow> stack)"
    "rq_total_layers req = layers" "rq_range_nodes req = n"
  using assms unfolding mem_service_init_obmm_range_flow_request_def
  by (auto simp: Let_def split: if_splits option.splits)


text \<open>A range-flow request is consistent, whatever the geometry callback answers. A request that was
  built has a non-empty local range within the model that the local node owns, a non-empty next range
  that the node named by the local one owns, and, unless the local range starts the model, a
  predecessor: another node whose range ends where the local one starts and that names the local
  node as its next.\<close>

theorem range_request_consistent:
  assumes "mem_service_init_obmm_range_flow_request stack key layers n hidden kv me lr recycle = Some req"
  shows "pl_owner_node (rq_local_placement req) = me \<and> me < n \<and>
    pl_layer_start (rq_local_placement req) < pl_layer_end (rq_local_placement req) \<and>
    pl_layer_end (rq_local_placement req) \<le> layers \<and>
    pl_owner_node (rq_next_placement req) = pl_next_owner_node (rq_local_placement req) \<and>
    pl_layer_start (rq_next_placement req) < pl_layer_end (rq_next_placement req) \<and>
    pl_layer_end (rq_next_placement req) \<le> layers \<and>
    (pl_layer_start (rq_local_placement req) \<noteq> 0 \<longrightarrow> rq_has_predecessor req) \<and>
    (rq_has_predecessor req \<longrightarrow>
      pl_owner_node (rq_predecessor_placement req) \<noteq> me \<and> pl_owner_node (rq_predecessor_placement req) < n \<and>
      pl_next_owner_node (rq_predecessor_placement req) = me \<and>
      pl_layer_end (rq_predecessor_placement req) = pl_layer_start (rq_local_placement req))"
  using assms
proof (cases rule: init_request_SomeD)
  case (1 ls le nx rs re af)
  note L = copy_layer_range_SomeD [OF 1(6)] and N = copy_layer_range_SomeD [OF 1(7)]
  show ?thesis using 1 L N by (auto dest: found_predecessorD(1-4) split: option.splits)
qed

text \<open>A request of the node that starts the model says that it has no predecessor and still carries
  whatever the stack variable held.\<close>

lemma first_request_leaks_stack:
  assumes "mem_service_init_obmm_range_flow_request stack key layers n hidden kv me lr recycle = Some req"
    and "\<not> rq_has_predecessor req"
  shows "rq_predecessor_placement req = stack"
  using assms(1) by (cases rule: init_request_SomeD) (use assms(2) in auto)

section \<open>The ranges tile the model\<close>

text \<open>The first layer of node \<open>k\<close> of \<open>n\<close>: the first nodes get one layer more when the division leaves a
  remainder.\<close>

definition first_layer :: "nat \<Rightarrow> nat \<Rightarrow> nat" where
  "first_layer n k = k * (43 div n) + min k (43 mod n)"

lemma first_layer_0 [simp]: "first_layer n 0 = 0"
  by (simp add: first_layer_def)

lemma first_layer_step: "first_layer n (Suc k) = first_layer n k + 43 div n + (if k < 43 mod n then 1 else 0)"
  by (simp add: first_layer_def)

lemma first_layer_less: "0 < n \<Longrightarrow> n \<le> 43 \<Longrightarrow> j < k \<Longrightarrow> first_layer n j < first_layer n k"
  by (rule lift_Suc_mono_less) (simp_all add: first_layer_step div_greater_zero_iff)

lemma first_layer_last: "0 < n \<Longrightarrow> first_layer n n = 43"
proof -
  assume "0 < n"
  then have "43 mod n < n" by simp
  then show ?thesis by (simp add: first_layer_def min_def)
qed

lemma first_layer_le: "0 < n \<Longrightarrow> n \<le> 43 \<Longrightarrow> k \<le> n \<Longrightarrow> first_layer n k \<le> 43"
  using first_layer_less [of n k n] first_layer_last [of n] by (cases "k = n") auto

lemma first_layer_inj: "0 < n \<Longrightarrow> n \<le> 43 \<Longrightarrow> first_layer n j = first_layer n k \<longleftrightarrow> j = k"
  using first_layer_less [of n j k] first_layer_less [of n k j] by (metis less_irrefl linorder_neqE_nat)

lemma crossing: "f 0 \<le> l \<Longrightarrow> l < f (b :: nat) \<Longrightarrow> \<exists>a<b. f a \<le> l \<and> l < f (Suc a)" for f :: "nat \<Rightarrow> nat"
proof (induction b)
  case (Suc b)
  then show ?case by (cases "l < f b") (auto intro: less_SucI)
qed simp

lemma unat_small32: "k \<le> 43 \<Longrightarrow> unat (of_nat k :: u32) = k"
  by (simp add: unat_of_nat)

lemma small32_cmp:
  "j \<le> 43 \<Longrightarrow> k \<le> 43 \<Longrightarrow> (of_nat j :: u32) = of_nat k \<longleftrightarrow> j = k"
  "j \<le> 43 \<Longrightarrow> k \<le> 43 \<Longrightarrow> (of_nat j :: u32) < of_nat k \<longleftrightarrow> j < k"
  "j \<le> 43 \<Longrightarrow> k \<le> 43 \<Longrightarrow> (of_nat j :: u32) \<le> of_nat k \<longleftrightarrow> j \<le> k"
proof -
  assume "j \<le> 43" "k \<le> 43"
  note u = unat_small32 [OF this(1)] unat_small32 [OF this(2)]
  show "(of_nat j :: u32) = of_nat k \<longleftrightarrow> j = k" using u by metis
  show "(of_nat j :: u32) < of_nat k \<longleftrightarrow> j < k" "(of_nat j :: u32) \<le> of_nat k \<longleftrightarrow> j \<le> k"
    unfolding word_less_nat_alt word_le_nat_alt u by simp_all
qed

text \<open>The callback computes these numbers without overflow.\<close>

lemma layer_range_numbers:
  assumes "a < b" "b \<le> 43"
  shows "mem_service_deepseek_v4_flash_layer_range_for_node (of_nat a) (of_nat b) =
    Some (of_nat (first_layer b a), of_nat (first_layer b (Suc a)), of_nat (Suc a mod b))"
proof -
  have u: "unat (of_nat a :: u32) = a" "unat (of_nat b :: u32) = b" "unat (43 :: u32) = 43"
    "unat (of_nat (Suc a) :: u32) = Suc a"
    using assms unat_small32 [of a] unat_small32 [of b] unat_small32 [of "Suc a"] by (simp_all del: of_nat_Suc)
  have d: "43 div (of_nat b :: u32) = of_nat (43 div b)" "43 mod (of_nat b :: u32) = of_nat (43 mod b)"
    "of_nat (Suc a) mod (of_nat b :: u32) = of_nat (Suc a mod b)"
    using u by (simp_all only: word_arith_nat_div word_arith_nat_mod)
  have r: "unat (of_nat (43 mod b) :: u32) = 43 mod b"
    using mod_less_eq_dividend [of 43 b] by (rule unat_small32)
  have less: "(of_nat a :: u32) < of_nat (43 mod b) \<longleftrightarrow> a < 43 mod b"
    "(of_nat a :: u32) < of_nat b" "\<not> (43 :: u32) < of_nat b" "(of_nat b :: u32) \<noteq> 0"
    using assms u r by (auto simp: word_less_nat_alt)
  have next_node: "(of_nat a + 1 :: u32) mod of_nat b = of_nat (Suc a mod b)" using d(3) by (simp add: add.commute)
  show ?thesis
    using less
    by (simp add: mem_service_deepseek_v4_flash_layer_range_for_node_def DEEPSEEK_V4_FLASH_TOTAL_LAYERS_def Let_def d
        next_node first_layer_step linorder_not_le) (simp add: first_layer_def min_def)
qed


text \<open>A node that is no first node has its left neighbour as predecessor; the first node has none.\<close>

lemma deepseek_predecessor:
  assumes "a < b" "b \<le> 43"
  defines "lr \<equiv> mem_service_deepseek_v4_flash_layer_range_for_node"
  shows "find_predecessor lr (of_nat b) (of_nat a) (of_nat (first_layer b a)) (all_nodes (of_nat b)) =
    (if a = 0 then None else mem_service_copy_layer_range (of_nat (a - 1)) (of_nat (first_layer b (a - 1)))
       (of_nat (first_layer b a)) (of_nat a) (of_nat b))" (is "?found = _")
proof -
  have numbers: "lr (of_nat c) (of_nat b) = Some (of_nat (first_layer b c), of_nat (first_layer b (Suc c)), of_nat (Suc c mod b))"
    if "c < b" for c using layer_range_numbers [OF that assms(2)] by (simp add: lr_def)
  have only: "0 < a \<and> c = a - 1 \<and> p = the (mem_service_copy_layer_range (of_nat c) (of_nat (first_layer b c)) (of_nat (first_layer b a)) (of_nat a) (of_nat b))"
    if "c < b" and p: "predecessor_of lr (of_nat b) (of_nat a) (of_nat (first_layer b a)) (of_nat c) = Some p" for c p
  proof -
    from predecessor_SomeD(2) [OF p] numbers [OF that(1)]
    have e: "(of_nat (first_layer b (Suc c)) :: u32) = of_nat (first_layer b a)"
      and q: "mem_service_copy_layer_range (of_nat c) (of_nat (first_layer b c)) (of_nat (first_layer b a)) (of_nat a) (of_nat b) = Some p"
      by auto
    have "first_layer b (Suc c) = first_layer b a"
      using e small32_cmp(1) first_layer_le [of b "Suc c"] first_layer_le [of b a] assms(1,2) that(1) by simp
    then have "Suc c = a" using first_layer_inj [of b "Suc c" a] assms(1,2) by simp
    with q show ?thesis by auto
  qed
  have nodes: "node \<in> set (all_nodes (of_nat b)) \<Longrightarrow> \<exists>c<b. node = of_nat c" for node
    using assms(2) unat_small32 [of b] by (auto simp: all_nodes_def)
  show ?thesis
  proof (cases "a = 0")
    case True
    then have "?found = None" using only nodes unfolding find_predecessor_None_iff by (metis less_irrefl not_None_eq)
    with True show ?thesis by simp
  next
    case False
    let ?p = "of_nat (a - 1) :: u32"
    have "?p \<noteq> of_nat a" using small32_cmp(1) [of "a - 1" a] False assms(1,2) by simp
    moreover have "Suc (a - 1) mod b = a" using False assms(1) by simp
    moreover have "mem_service_copy_layer_range ?p (of_nat (first_layer b (a - 1))) (of_nat (first_layer b a)) (of_nat a) (of_nat b) \<noteq> None"
      using small32_cmp(2) [of "a - 1" b] small32_cmp(2) [of a b] small32_cmp(2) [of "first_layer b (a - 1)" "first_layer b a"]
        first_layer_le [of b a] first_layer_le [of b "a - 1"] first_layer_less [of b "a - 1" a] False assms(1,2)
      by (simp add: mem_service_copy_layer_range_def linorder_not_le del: of_nat_diff)
    ultimately have "predecessor_of lr (of_nat b) (of_nat a) (of_nat (first_layer b a)) ?p \<noteq> None"
      using numbers [of "a - 1"] False assms(1) by (simp add: predecessor_of_def)
    moreover have "?p \<in> set (all_nodes (of_nat b))"
      using assms(1,2) unat_small32 [of b] by (simp add: all_nodes_def)
    ultimately obtain p where p: "?found = Some p" by (meson find_predecessor_None_iff not_None_eq)
    from find_predecessor_SomeD [OF p] nodes obtain c where "c < b"
      "predecessor_of lr (of_nat b) (of_nat a) (of_nat (first_layer b a)) (of_nat c) = Some p" by blast
    from only [OF this] p False show ?thesis
      using \<open>mem_service_copy_layer_range ?p _ _ _ _ \<noteq> None\<close> by auto
  qed
qed


lemma deepseek_request:
  assumes "a < b" "b \<le> 43"
  shows "\<exists>req. mem_service_deepseek_v4_flash_init_obmm_range_flow_request stack (of_nat a) (of_nat b) = Some req \<and>
    pl_layer_start (rq_local_placement req) = of_nat (first_layer b a) \<and>
    pl_layer_end (rq_local_placement req) = of_nat (first_layer b (Suc a)) \<and>
    pl_next_owner_node (rq_local_placement req) = of_nat (Suc a mod b) \<and>
    pl_layer_start (rq_next_placement req) = of_nat (first_layer b (Suc a mod b)) \<and>
    (rq_has_predecessor req \<longleftrightarrow> a \<noteq> 0) \<and>
    (a \<noteq> 0 \<longrightarrow> pl_owner_node (rq_predecessor_placement req) = of_nat (a - 1))"
proof -
  let ?m = "Suc a mod b"
  have m: "?m < b" using assms(1) by (intro mod_less_divisor) linarith
  have copy: "mem_service_copy_layer_range (of_nat c) (of_nat (first_layer b c)) (of_nat (first_layer b (Suc c)))
      (of_nat d) (of_nat b) = Some
      \<lparr> pl_owner_node = of_nat c, pl_layer_start = of_nat (first_layer b c), pl_layer_end = of_nat (first_layer b (Suc c)),
        pl_next_owner_node = of_nat d, pl_layer_count = of_nat (first_layer b (Suc c)) - of_nat (first_layer b c),
        pl_terminal = ((of_nat d :: u32) = of_nat c \<or> (of_nat d :: u32) = 0) \<rparr>" if "c < b" "d < b" for c d
    using that assms(2) small32_cmp(2) [of c b] small32_cmp(2) [of d b]
      small32_cmp(2) [of "first_layer b c" "first_layer b (Suc c)"] first_layer_le [of b c] first_layer_le [of b "Suc c"]
      first_layer_less [of b c "Suc c"]
    by (simp add: mem_service_copy_layer_range_def linorder_not_le)
  have top: "(of_nat (first_layer b (Suc c)) :: u32) \<le> 43" if "c < b" for c
    using small32_cmp(3) [of "first_layer b (Suc c)" 43] first_layer_le [of b "Suc c"] that assms(2) by simp
  have "a \<noteq> 0 \<Longrightarrow> Suc (a - 1) = a" by simp
  note found = deepseek_predecessor [OF assms] and prev = copy [of "a - 1" a]
  have pred: "find_predecessor mem_service_deepseek_v4_flash_layer_range_for_node (of_nat b) (of_nat a)
      (of_nat (first_layer b a)) (all_nodes (of_nat b)) = None \<longleftrightarrow> a = 0"
    using found prev assms(1) by (cases "a = 0") simp_all
  have b: "(of_nat b :: u32) \<noteq> 0" "(of_nat a :: u32) < of_nat b"
    using small32_cmp(1) [of b 0] small32_cmp(2) [of a b] assms by auto
  show ?thesis
    using layer_range_numbers [OF assms] layer_range_numbers [OF m assms(2)] copy [OF assms(1) m] top [OF assms(1)] top [OF m]
      copy [OF m mod_less_divisor [of b "Suc ?m"]] pred found prev assms b
    by (auto simp: mem_service_deepseek_v4_flash_init_obmm_range_flow_request_def mem_service_init_obmm_range_flow_request_def
        mem_service_deepseek_v4_flash_model_key_def mem_service_deepseek_v4_flash_layer_count_def DEEPSEEK_V4_FLASH_TOTAL_LAYERS_def
        mem_service_deepseek_v4_flash_hidden_range_bytes_def DEEPSEEK_V4_FLASH_MAX_PREFILL_TOKENS_def
        DEEPSEEK_V4_FLASH_HIDDEN_F32_VALUES_def Let_def linorder_not_le linorder_not_less split: if_splits)
qed


lemma node_number: "node < (of_nat b :: u32) \<Longrightarrow> b \<le> 43 \<Longrightarrow> \<exists>a<b. node = of_nat a"
  using unat_small32 [of b] by (intro exI [of _ "unat node"]) (simp add: word_less_nat_alt)

lemma deepseek_layer_owned:
  assumes n: "0 < b" "b \<le> 43" and layer: "layer < 43"
  shows "\<exists>!node. node < of_nat b \<and>
    (\<exists>start fin after. mem_service_deepseek_v4_flash_layer_range_for_node node (of_nat b) = Some (start, fin, after) \<and>
       start \<le> layer \<and> layer < fin)" (is "\<exists>!node. ?owns node")
proof -
  define l where "l = unat layer"
  have l: "layer = of_nat l" "l < 43" using layer by (auto simp: l_def word_less_nat_alt)
  have covers: "?owns (of_nat a) \<longleftrightarrow> first_layer b a \<le> l \<and> l < first_layer b (Suc a)" if "a < b" for a
    using that layer_range_numbers [OF that n(2)] small32_cmp(2) [of a b] small32_cmp(3) [of "first_layer b a" l]
      small32_cmp(2) [of l "first_layer b (Suc a)"] first_layer_le [of b a] first_layer_le [of b "Suc a"] n l
    by auto
  from crossing [of "first_layer b" l b] l(2) first_layer_last [OF n(1)]
  obtain a where a: "a < b" "first_layer b a \<le> l" "l < first_layer b (Suc a)" by auto
  have only: "c = a" if "first_layer b c \<le> l" "l < first_layer b (Suc c)" for c
    using that a(2,3) first_layer_less [OF n, of "Suc c" a] first_layer_less [OF n, of "Suc a" c]
    by (metis Suc_lessI leD le_less_trans less_trans linorder_neqE_nat order_less_irrefl)
  show ?thesis
  proof (rule ex1I [of _ "of_nat a"], goal_cases)
    case 1
    show ?case using covers [OF a(1)] a(2,3) by blast
  next
    case (2 node)
    then obtain c where c: "c < b" "node = of_nat c" using node_number n(2) by blast
    then show ?case using covers [OF c(1)] only [of c] 2 by blast
  qed
qed

lemma deepseek_node_request:
  assumes n: "0 < b" "b \<le> 43" and me: "me < of_nat b"
  shows "\<exists>req :: 'f mem_service_obmm_range_flow_request.
    mem_service_deepseek_v4_flash_init_obmm_range_flow_request stack me (of_nat b) = Some req \<and>
    (me + 1 < of_nat b \<longrightarrow> pl_layer_start (rq_next_placement req) = pl_layer_end (rq_local_placement req)) \<and>
    (me + 1 = of_nat b \<longrightarrow> pl_layer_end (rq_local_placement req) = 43 \<and> pl_layer_start (rq_next_placement req) = 0) \<and>
    (rq_has_predecessor req \<longleftrightarrow> me \<noteq> 0) \<and>
    (me \<noteq> 0 \<longrightarrow> pl_owner_node (rq_predecessor_placement req) = me - 1)"
proof -
  obtain a where a: "a < b" "me = of_nat a" using node_number [OF me n(2)] by blast
  have step: "me + 1 = of_nat (Suc a)" "me = 0 \<longleftrightarrow> a = 0" "a \<noteq> 0 \<Longrightarrow> me - 1 = of_nat (a - 1)"
    using a n(2) small32_cmp(1) [of a 0] by (simp_all add: of_nat_diff)
  have "Suc a \<le> 43" using a(1) n(2) by simp
  then have last_node: "me + 1 = of_nat b \<longleftrightarrow> Suc a = b" "me + 1 < of_nat b \<longleftrightarrow> Suc a < b"
    unfolding step(1) using small32_cmp(1,2) [of "Suc a" b] n(2) by blast+
  obtain req :: "'f mem_service_obmm_range_flow_request" where req:
    "mem_service_deepseek_v4_flash_init_obmm_range_flow_request stack (of_nat a) (of_nat b) = Some req"
    "pl_layer_end (rq_local_placement req) = of_nat (first_layer b (Suc a))"
    "pl_layer_start (rq_next_placement req) = of_nat (first_layer b (Suc a mod b))"
    "rq_has_predecessor req \<longleftrightarrow> a \<noteq> 0" "a \<noteq> 0 \<longrightarrow> pl_owner_node (rq_predecessor_placement req) = of_nat (a - 1)"
    using deepseek_request [OF a(1) n(2), of stack] by blast
  have "Suc a = b \<Longrightarrow> pl_layer_end (rq_local_placement req) = 43 \<and> pl_layer_start (rq_next_placement req) = 0"
    using req(2,3) first_layer_last [OF n(1)] by auto
  moreover have "Suc a < b \<Longrightarrow> pl_layer_start (rq_next_placement req) = pl_layer_end (rq_local_placement req)"
    using req(2,3) by simp
  ultimately show ?thesis using req step last_node a(2) by (intro exI [of _ req]) simp
qed

text \<open>C20. The ranges of a DeepSeek V4 Flash cluster tile the model. In a cluster of any size from one node
  to one node per layer, every layer lies in the range of exactly one node; every node gets its
  request; the range of the next node starts where the local one ends, except after the last node,
  whose range ends with the model and whose next node starts it again; and exactly the first node
  has no predecessor, every other one has its left neighbour.\<close>

theorem deepseek_ranges_tile:
  assumes "0 < n" "n \<le> DEEPSEEK_V4_FLASH_TOTAL_LAYERS"
  shows "(\<forall>layer<DEEPSEEK_V4_FLASH_TOTAL_LAYERS. \<exists>!node. node < n \<and>
      (\<exists>start fin after. mem_service_deepseek_v4_flash_layer_range_for_node node n = Some (start, fin, after) \<and>
         start \<le> layer \<and> layer < fin)) \<and>
    (\<forall>me<n. \<exists>req :: 'f mem_service_obmm_range_flow_request.
      mem_service_deepseek_v4_flash_init_obmm_range_flow_request stack me n = Some req \<and>
      (me + 1 < n \<longrightarrow> pl_layer_start (rq_next_placement req) = pl_layer_end (rq_local_placement req)) \<and>
      (me + 1 = n \<longrightarrow> pl_layer_end (rq_local_placement req) = DEEPSEEK_V4_FLASH_TOTAL_LAYERS \<and>
         pl_layer_start (rq_next_placement req) = 0) \<and>
      (rq_has_predecessor req \<longleftrightarrow> me \<noteq> 0) \<and>
      (me \<noteq> 0 \<longrightarrow> pl_owner_node (rq_predecessor_placement req) = me - 1))"
proof -
  define b where "b = unat n"
  have n: "n = of_nat b" "0 < b" "b \<le> 43"
    using assms by (auto simp: b_def DEEPSEEK_V4_FLASH_TOTAL_LAYERS_def word_le_nat_alt word_less_nat_alt)
  show ?thesis
    unfolding n(1) DEEPSEEK_V4_FLASH_TOTAL_LAYERS_def
    using deepseek_layer_owned [OF n(2,3)] deepseek_node_request [OF n(2,3)] by blast
qed

theorem deepseek_ranges_tile_witness:
  "\<exists>req :: unit mem_service_obmm_range_flow_request.
     mem_service_deepseek_v4_flash_init_obmm_range_flow_request zero_placement 3 4 = Some req \<and>
     pl_layer_end (rq_local_placement req) = 43 \<and> rq_has_predecessor req"
proof -
  have "(3 :: u32) < 4" "(3 :: u32) + 1 = 4" "(3 :: u32) \<noteq> 0" by simp_all
  moreover have "0 < (4 :: u32)" "4 \<le> DEEPSEEK_V4_FLASH_TOTAL_LAYERS"
    by (simp_all add: DEEPSEEK_V4_FLASH_TOTAL_LAYERS_def)
  note deepseek_ranges_tile [OF this, where stack = zero_placement and ?'f = unit, THEN conjunct2, rule_format, of 3]
  ultimately show ?thesis unfolding DEEPSEEK_V4_FLASH_TOTAL_LAYERS_def by metis
qed

theorem range_request_consistent_witness:
  "\<exists>req :: unit mem_service_obmm_range_flow_request.
     mem_service_init_obmm_range_flow_request zero_placement ''m'' 4 2 64 0 1
       (\<lambda>node n. Some (2 * node, 2 * node + 2, 1 - node)) None = Some req \<and>
     pl_layer_end (rq_predecessor_placement req) = 2"
proof -
  let ?lr = "\<lambda>node n. Some (2 * node, 2 * node + 2, 1 - node) :: (u32 \<times> u32 \<times> u32) option"
  have nodes: "all_nodes 2 = [0, 1]" by (simp add: all_nodes_def upt_rec)
  have cmp: "\<not> (2 :: u32) \<le> 1" "\<not> (2 :: u32) \<le> 0" "(0 :: u32) \<noteq> 1" by (simp_all add: word_le_nat_alt)
  obtain req :: "unit mem_service_obmm_range_flow_request" where
    "mem_service_init_obmm_range_flow_request zero_placement ''m'' 4 2 64 0 1 ?lr None = Some req"
    "pl_layer_start (rq_local_placement req) = 2"
    by (simp add: mem_service_init_obmm_range_flow_request_def mem_service_copy_layer_range_def predecessor_of_def nodes cmp)
  with range_request_consistent [OF this(1)] show ?thesis by (intro exI [of _ req]) simp
qed

end
