(* ===== verification/Cluster_Runtime.thy ===== *)
theory Cluster_Runtime
  imports Obmm_Spsc
begin

text \<open>
  The state of the cluster runtime (\<open>mem_service_guest_runtime.h\<close>) that the payload arena and the
  descriptor queues work on, and the cache maintenance of a mapped region
  (\<open>mem_service_cluster_utils.c\<close>). Addresses are 64-bit words with 0 for NULL, a queue pointer is
  None when it is NULL, and the array of pending descriptors of a peer with its count is the list of
  the descriptors that count. Fields that only identify a node, a device or an import are left out.
\<close>

section \<open>State\<close>

definition MEM_SERVICE_CLUSTER_PENDING_DESC_DEPTH :: nat where
  "MEM_SERVICE_CLUSTER_PENDING_DESC_DEPTH = 16"

record mem_service_mapped_region =
  reg_fd :: int
  reg_addr :: u64
  reg_len :: u64

record mem_service_cluster_slot =
  slot_map_osync :: bool
  slot_region :: mem_service_mapped_region

text \<open>The ingress queues lie in the local region; \<open>rt_ingress_offsets\<close> are their distances from
  \<open>ingress_queue_base\<close>.\<close>

record mem_service_cluster_runtime =
  rt_node_count :: int
  rt_local_idx :: int
  rt_region_size :: u64
  rt_payload_arena_base :: u64
  rt_payload_arena_next :: u64
  rt_payload_arena_high_water :: u64
  rt_slots :: "mem_service_cluster_slot list"
  rt_ingress_queue_base :: u64
  rt_ingress_offsets :: "u64 list"
  rt_ingress_queues :: "obmm_spsc_queue option list"
  rt_egress_queues :: "obmm_spsc_queue option list"
  rt_pending_descs :: "obmm_desc list list"

section \<open>Cache maintenance\<close>

text \<open>What the kernel answers: the page size, and whether the \<open>OBMM_SHMDEV_UPDATE_RANGE\<close> request for a
  range of addresses, for writing or for reading, succeeds.\<close>

record region_env =
  env_page_size :: u64
  env_update_range :: "u64 \<Rightarrow> u64 \<Rightarrow> bool \<Rightarrow> bool"

text \<open>True is the return value 0.\<close>

definition mem_service_update_region_range_at ::
  "region_env \<Rightarrow> mem_service_cluster_slot \<Rightarrow> u64 \<Rightarrow> u64 \<Rightarrow> bool \<Rightarrow> bool" where
  "mem_service_update_region_range_at env slot offset len for_write =
     (let region = slot_region slot in
      if reg_addr region = 0 \<or> reg_fd region < 0 then False
      else if slot_map_osync slot then True
      else if len = 0 \<or> offset + len > reg_len region then False
      else let start = reg_addr region + offset;
               fin = start + len;
               page_size = (if env_page_size env = 0 then 4096 else env_page_size env)
        in env_update_range env (start AND NOT (page_size - 1)) ((fin + page_size - 1) AND NOT (page_size - 1)) for_write)"

end
