(* ===== verification/Obmm_Objects.thy ===== *)
theory Obmm_Objects
  imports Records Wire_Payload Cluster_Runtime
begin

text \<open>
  Objects in the OBMM pool (\<open>mem_service_obmm_objects.c\<close>) and the recycling of the records of old
  decode steps (\<open>mem_service_qwen3_records.c\<close>): the payload arena that hands out ranges of the local
  pool region, the test pattern of a payload, the names of the payload kinds, and the metadata
  record of an object with the recycler it falls back on when the record table is full.
\<close>

unbundle bit_operations_syntax

section \<open>The payload arena\<close>

definition MEM_SERVICE_OBMM_DYNAMIC_ARENA_OFFSET :: u64 where
  "MEM_SERVICE_OBMM_DYNAMIC_ARENA_OFFSET = 0x200000"

text \<open>The lazy initialisation of the arena.\<close>

definition arena_ready :: "u64 \<Rightarrow> mem_service_cluster_runtime \<Rightarrow> mem_service_cluster_runtime" where
  "arena_ready align rt =
     (if rt_payload_arena_base rt = 0 then
        let base = obmm_align_up_u64 MEM_SERVICE_OBMM_DYNAMIC_ARENA_OFFSET align
        in rt \<lparr> rt_payload_arena_base := base, rt_payload_arena_next := base, rt_payload_arena_high_water := base \<rparr>
      else rt)"

text \<open>None is the error return.\<close>

definition mem_service_payload_arena_alloc ::
  "mem_service_cluster_runtime \<Rightarrow> u64 \<Rightarrow> u64 \<Rightarrow> u64 option \<times> mem_service_cluster_runtime" where
  "mem_service_payload_arena_alloc rt bytes align =
     (if rt_local_idx rt < 0 \<or> rt_local_idx rt \<ge> rt_node_count rt \<or> bytes = 0 then (None, rt)
      else let align = (if align = 0 then 64 else align);
               rt1 = arena_ready align rt;
               offset = obmm_align_up_u64 (rt_payload_arena_next rt1) align;
               fin = offset + bytes;
               region = slot_region (rt_slots rt1 ! nat (rt_local_idx rt1))
        in if fin < offset \<or> reg_addr region = 0 \<or> fin > reg_len region then (None, rt1)
           else (Some offset,
             rt1 \<lparr> rt_payload_arena_next := fin,
               rt_payload_arena_high_water := max (rt_payload_arena_high_water rt1) fin \<rparr>))"

section \<open>Payloads and their kinds\<close>

definition put_bytes :: "u8 list \<Rightarrow> nat \<Rightarrow> cstr \<Rightarrow> u8 list" where
  "put_bytes dst at_offset s =
     take at_offset dst @ map of_char s @ drop (at_offset + length s) dst"

definition mem_service_fill_obmm_object_payload :: "u64 \<Rightarrow> u32 \<Rightarrow> u32 \<Rightarrow> u8 list" where
  "mem_service_fill_obmm_object_payload len owner_node payload_kind =
     (let dst = map (\<lambda>i. ucast ((of_nat i * 17 + ucast (owner_node + 1) * 29 + ucast payload_kind * 53 :: u64) AND 0xff))
            [0..<unat len]
      in if len \<ge> 4104 then
           put_bytes (put_bytes (put_bytes (put_bytes (put_bytes dst 0 ''MSOBMM00'') 248 ''MSOBMM248'')
             256 ''MSOBMM256'') 4088 ''MSOBMM4088'') 4096 ''MSOBMM4096''
         else dst)"

definition mem_service_object_kind_name :: "u32 \<Rightarrow> cstr" where
  "mem_service_object_kind_name payload_kind =
     (if payload_kind = 1 then ''weight_tile''
      else if payload_kind = 2 then ''kvcache_block''
      else if payload_kind = 3 then ''hidden_range_input''
      else if payload_kind = 4 then ''hidden_range_output''
      else if payload_kind = 5 then ''hidden_range_runtime_output''
      else if payload_kind = 12 then ''serving_request''
      else if payload_kind = 6 then ''token_result''
      else if payload_kind = 7 then ''kv_state''
      else if payload_kind = 8 then ''engram_history''
      else if payload_kind = 9 then ''engram_candidates''
      else if payload_kind = 10 then ''engram_selected''
      else if payload_kind = 11 then ''engram_state''
      else ''unknown'')"

section \<open>Recycling records\<close>

definition MEM_SERVICE_QWEN3_RECORD_RETAIN_STEPS :: u64 where
  "MEM_SERVICE_QWEN3_RECORD_RETAIN_STEPS = 16"

definition mem_service_qwen3_record_kind_recyclable :: "mem_service_record_kind \<Rightarrow> bool" where
  "mem_service_qwen3_record_kind_recyclable kind \<longleftrightarrow>
     kind \<in> {RECORD_HIDDEN_RANGE_INPUT, RECORD_HIDDEN_RANGE_OUTPUT, RECORD_KVCACHE_OBJECT,
       RECORD_MODEL_TOKEN_RESULT, RECORD_MODEL_ENGRAM_CANDIDATES, RECORD_MODEL_ENGRAM_SELECTED,
       RECORD_MODEL_ENGRAM_STATE}"

text \<open>\<open>strstr\<close>: the string from the first occurrence of the needle on.\<close>

fun strstr :: "cstr \<Rightarrow> cstr \<Rightarrow> cstr option" where
  "strstr [] needle = (if needle = [] then Some [] else None)"
| "strstr (c # s) needle =
     (if take (length needle) (c # s) = needle then Some (c # s) else strstr s needle)"

text \<open>The number after \<open>decode-step\<close> or \<open>/step/\<close>; an overflow sets \<open>errno\<close> and is refused.\<close>

definition mem_service_qwen3_key_decode_step :: "cstr \<Rightarrow> u64 option" where
  "mem_service_qwen3_key_decode_step key =
     (let number = (case strstr key ''decode-step'' of
            Some s \<Rightarrow> Some (drop (length ''decode-step'') s)
          | None \<Rightarrow> map_option (drop (length ''/step/'')) (strstr key ''/step/''))
      in case number of
           None \<Rightarrow> None
         | Some s \<Rightarrow>
             let ds = takeWhile (\<lambda>c. digit_value c < 10) s in
             if ds = [] \<or> digits_value 10 ds \<ge> 2 ^ 64 then None
             else Some (of_nat (digits_value 10 ds)))"

text \<open>The step of a record that may be recycled for the incoming step, else None. The sum wraps.\<close>

definition recyclable_step :: "u64 \<Rightarrow> mem_service_record \<Rightarrow> u64 option" where
  "recyclable_step incoming_step r =
     (if \<not> rec_in_use r \<or> \<not> mem_service_qwen3_record_kind_recyclable (rec_kind r) then None
      else case mem_service_qwen3_key_decode_step (rec_key r) of
        None \<Rightarrow> None
      | Some rec_step \<Rightarrow>
          if rec_step + MEM_SERVICE_QWEN3_RECORD_RETAIN_STEPS \<ge> incoming_step then None
          else Some rec_step)"

text \<open>The loop over the table: the candidate so far is a slot number and its step.\<close>

fun recycle_scan :: "u64 \<Rightarrow> nat \<Rightarrow> mem_service_record list \<Rightarrow> (nat \<times> u64) option \<Rightarrow> (nat \<times> u64) option" where
  "recycle_scan incoming_step i [] candidate = candidate"
| "recycle_scan incoming_step i (r # rs) candidate =
     recycle_scan incoming_step (Suc i) rs
       (case recyclable_step incoming_step r of
          None \<Rightarrow> candidate
        | Some rec_step \<Rightarrow>
            (case candidate of
               None \<Rightarrow> Some (i, rec_step)
             | Some (j, candidate_step) \<Rightarrow>
                 if rec_step < candidate_step then Some (i, rec_step) else candidate))"

definition mem_service_recycle_qwen3_runtime_record ::
  "mem_service \<Rightarrow> cstr \<Rightarrow> nat option \<times> mem_service" where
  "mem_service_recycle_qwen3_runtime_record svc incoming_key =
     (case mem_service_qwen3_key_decode_step incoming_key of
        None \<Rightarrow> (None, svc)
      | Some incoming_step \<Rightarrow>
          if incoming_step \<le> MEM_SERVICE_QWEN3_RECORD_RETAIN_STEPS then (None, svc)
          else case recycle_scan incoming_step 0 (svc_records svc) None of
            None \<Rightarrow> (None, svc)
          | Some (i, candidate_step) \<Rightarrow> (Some i, write_record i zero_record svc))"

section \<open>The record of an object\<close>

definition obmm_object_record ::
  "mem_service_record_kind \<Rightarrow> cstr \<Rightarrow> u32 \<Rightarrow> u32 \<Rightarrow> u64 \<Rightarrow> u64 \<Rightarrow> u64 \<Rightarrow> u64 \<Rightarrow> mem_service_record" where
  "obmm_object_record record_kind key owner_node payload_kind offset len checksum next_version =
     zero_record
       \<lparr> rec_in_use := True, rec_kind := record_kind, rec_key := snprintf_s 96 key,
         rec_placement_node := owner_node, rec_placement_level := 2, rec_hot_segment_id := offset,
         rec_state := KVCACHE_STATE_HOT, rec_version := next_version, rec_last_result_segment := offset + len,
         rec_object_owner_node := owner_node, rec_object_payload_kind := payload_kind,
         rec_object_backing_offset := offset, rec_object_backing_len := len,
         rec_object_payload_checksum := checksum \<rparr>"

definition obmm_next_version :: "mem_service_record option \<Rightarrow> u64" where
  "obmm_next_version old =
     (case old of Some r \<Rightarrow> if rec_version r \<noteq> UINT64_MAX then rec_version r + 1 else 1 | None \<Rightarrow> 1)"

text \<open>The result is the return code, the service and what \<open>resolved_out\<close> receives.\<close>

definition mem_service_put_obmm_object_record ::
  "mem_service \<Rightarrow> (mem_service \<Rightarrow> cstr \<Rightarrow> nat option \<times> mem_service) option \<Rightarrow> mem_service_record_kind \<Rightarrow>
   cstr \<Rightarrow> u32 \<Rightarrow> u32 \<Rightarrow> u64 \<Rightarrow> u64 \<Rightarrow> u64 \<Rightarrow> int \<times> mem_service \<times> mem_service_record option" where
  "mem_service_put_obmm_object_record svc recycle record_kind key owner_node payload_kind offset len checksum =
     (if len = 0 then (-1, svc, None)
      else let found = mem_service_find_record svc key;
               r = obmm_object_record record_kind key owner_node payload_kind offset len checksum
                     (obmm_next_version (map_option (\<lambda>i. svc_records svc ! i) found));
               slot = (case found of
                   Some i \<Rightarrow> (Some i, svc)
                 | None \<Rightarrow>
                    (case mem_service_alloc_record svc of
                       (Some i, svc1) \<Rightarrow> (Some i, svc1)
                     | (None, svc1) \<Rightarrow>
                        (case recycle of None \<Rightarrow> (None, svc1) | Some recycle_runtime_record \<Rightarrow> recycle_runtime_record svc1 key)))
        in case slot of
             (None, svc2) \<Rightarrow> (-1, svc2, None)
           | (Some i, svc2) \<Rightarrow> (0, write_record i r svc2, Some r))"


section \<open>Ranges of the arena are disjoint\<close>

text \<open>Rounding up, when the sum does not wrap: the result is not below the number, whatever the
  alignment, and a multiple of an alignment that is a power of two.\<close>

lemma unat_and_not: "unat (x AND NOT m) = unat x - unat (x AND m)" for x m :: u64
proof -
  have "(x AND NOT m) AND (x AND m) = 0" by (rule bit_word_eqI) (simp add: bit_simps)
  then have "(x AND NOT m) + (x AND m) = (x AND NOT m) OR (x AND m)" by (rule disjunctive_add_eq_or)
  also have "\<dots> = x" by (rule bit_word_eqI) (auto simp: bit_simps)
  finally have "x AND NOT m = x - (x AND m)" by (simp add: eq_diff_eq)
  then show ?thesis by (simp add: unat_sub word_and_le2)
qed

lemma align_up_bounds:
  assumes "0 < unat align" "unat v + unat align \<le> 2 ^ 64"
  shows "unat v \<le> unat (obmm_align_up_u64 v align)"
    "unat (obmm_align_up_u64 v align) < unat v + unat align"
proof -
  let ?x = "v + align - 1" and ?m = "align - 1"
  have m: "unat ?m = unat align - 1" using assms(1) by (simp add: unat_sub word_le_nat_alt)
  have "?x = v + ?m" by simp
  moreover have "unat (v + ?m) = (unat v + (unat align - 1)) mod 2 ^ 64"
    unfolding unat_word_ariths(1) m by simp
  ultimately have x: "unat ?x = unat v + unat align - 1"
    using assms by (simp only: mod_less)
  have "unat (?x AND ?m) \<le> unat ?m" using word_and_le1 [of ?x ?m] by (simp add: word_le_nat_alt)
  then show "unat v \<le> unat (obmm_align_up_u64 v align)" "unat (obmm_align_up_u64 v align) < unat v + unat align"
    using assms x m by (simp_all add: obmm_align_up_u64_def unat_and_not)
qed

lemma align_up_multiple: "unat (obmm_align_up_u64 v (2 ^ k)) mod 2 ^ k = 0"
proof -
  have "take_bit k (obmm_align_up_u64 v (2 ^ k)) = 0"
    by (rule bit_word_eqI) (auto simp: obmm_align_up_u64_def bit_simps mask_eq_exp_minus_1 [symmetric])
  then have "take_bit k (unat (obmm_align_up_u64 v (2 ^ k))) = 0"
    by (metis unsigned_take_bit_eq unsigned_0)
  then show ?thesis by (simp add: take_bit_eq_mod)
qed

text \<open>Running a list of requests, each a number of bytes and an alignment: the ranges that were handed
  out, with the alignment asked for.\<close>

fun run_allocs :: "mem_service_cluster_runtime \<Rightarrow> (u64 \<times> u64) list \<Rightarrow> (u64 \<times> u64 \<times> u64) list" where
  "run_allocs rt [] = []"
| "run_allocs rt ((bytes, align) # reqs) =
     (case mem_service_payload_arena_alloc rt bytes align of
        (None, rt') \<Rightarrow> run_allocs rt' reqs
      | (Some offset, rt') \<Rightarrow> (offset, bytes, align) # run_allocs rt' reqs)"

definition local_region :: "mem_service_cluster_runtime \<Rightarrow> mem_service_mapped_region" where
  "local_region rt = slot_region (rt_slots rt ! nat (rt_local_idx rt))"

text \<open>The arena starts behind the metadata and, once used, its next free byte lies behind every range
  that was handed out.\<close>

definition arena_from :: "nat \<Rightarrow> mem_service_cluster_runtime \<Rightarrow> bool" where
  "arena_from low rt \<longleftrightarrow>
     unat (reg_len (local_region rt)) \<le> 2 ^ 62 \<and>
     (if rt_payload_arena_base rt = 0 then low = 0x200000
      else low \<le> unat (rt_payload_arena_next rt) \<and> 0x200000 \<le> low \<and> unat (rt_payload_arena_next rt) \<le> 2 ^ 63)"

lemma arena_alloc_step:
  assumes inv: "arena_from low rt" and align: "unat align \<le> 2 ^ 62"
    and run: "mem_service_payload_arena_alloc rt bytes align = (res, rt')"
  shows "local_region rt' = local_region rt"
    and "res = None \<Longrightarrow> arena_from low rt'"
    and "res = Some offset \<Longrightarrow> arena_from (unat offset + unat bytes) rt' \<and> low \<le> unat offset \<and>
      unat offset + unat bytes \<le> unat (reg_len (local_region rt)) \<and> (\<exists>v. offset = obmm_align_up_u64 v (if align = 0 then 64 else align))"
proof -
  define al where "al = (if align = 0 then 64 else align)"
  define rt1 where "rt1 = arena_ready al rt"
  define off where "off = obmm_align_up_u64 (rt_payload_arena_next rt1) al"
  have al: "0 < unat al" "unat al \<le> 2 ^ 62" using align by (auto simp: al_def unat_gt_0)
  have start: "0x200000 \<le> unat (obmm_align_up_u64 MEM_SERVICE_OBMM_DYNAMIC_ARENA_OFFSET al)"
    "unat (obmm_align_up_u64 MEM_SERVICE_OBMM_DYNAMIC_ARENA_OFFSET al) < 0x200000 + 2 ^ 62"
    using align_up_bounds [of al MEM_SERVICE_OBMM_DYNAMIC_ARENA_OFFSET] al
    by (auto simp: MEM_SERVICE_OBMM_DYNAMIC_ARENA_OFFSET_def)
  have region: "local_region rt1 = local_region rt"
    by (simp add: rt1_def arena_ready_def local_region_def Let_def)
  have "obmm_align_up_u64 MEM_SERVICE_OBMM_DYNAMIC_ARENA_OFFSET al \<noteq> 0" using start(1) by auto
  then have ready: "arena_from low rt1 \<and> rt_payload_arena_base rt1 \<noteq> 0"
    using inv start unfolding arena_from_def region by (auto simp: rt1_def arena_ready_def Let_def)
  then have nxt: "low \<le> unat (rt_payload_arena_next rt1)" "unat (rt_payload_arena_next rt1) \<le> 2 ^ 63" "0x200000 \<le> low"
    and len: "unat (reg_len (local_region rt)) \<le> 2 ^ 62"
    by (auto simp: arena_from_def region)
  have off: "low \<le> unat off"
    using align_up_bounds(1) [of al "rt_payload_arena_next rt1"] al nxt by (auto simp: off_def)
  note D = run [unfolded mem_service_payload_arena_alloc_def Let_def, folded al_def, folded rt1_def, folded off_def]
  have end_nat: "unat (off + bytes) = unat off + unat bytes" if "\<not> off + bytes < off"
    using that no_plus_overflow_uint_size [of off bytes] unat_plus_simple [of off bytes] by (simp add: linorder_not_less)
  show "local_region rt' = local_region rt"
    using D region by (auto simp: local_region_def split: if_splits)
  show "res = None \<Longrightarrow> arena_from low rt'"
    using D ready inv by (auto split: if_splits)
  assume "res = Some offset"
  with D have ok: "offset = off" "\<not> off + bytes < off" "off + bytes \<le> reg_len (local_region rt)"
    "rt' = rt1 \<lparr> rt_payload_arena_next := off + bytes,
        rt_payload_arena_high_water := max (rt_payload_arena_high_water rt1) (off + bytes) \<rparr>"
    using region by (auto simp: local_region_def linorder_not_less split: if_splits)
  have fits: "unat off + unat bytes \<le> unat (reg_len (local_region rt))"
    using ok(3) end_nat [OF ok(2)] by (simp add: word_le_nat_alt)
  have "0x200000 \<le> unat off + unat bytes" using off nxt(3) by linarith
  then have "arena_from (unat off + unat bytes) rt'"
    using ready end_nat [OF ok(2)] fits len region
    by (simp add: arena_from_def ok(4) local_region_def)
  then show "arena_from (unat offset + unat bytes) rt' \<and> low \<le> unat offset \<and>
      unat offset + unat bytes \<le> unat (reg_len (local_region rt)) \<and> (\<exists>v. offset = obmm_align_up_u64 v (if align = 0 then 64 else align))"
    using off fits ok(1) unfolding off_def al_def by blast
qed


lemma run_allocs_ranges:
  assumes "arena_from low rt" "\<forall>(bytes, align)\<in>set reqs. unat align \<le> 2 ^ 62"
  shows "sorted_wrt (\<lambda>(o1, b1, _) (o2, b2, _). unat o1 + unat b1 \<le> unat o2) (run_allocs rt reqs)"
    and "\<forall>(offset, bytes, align)\<in>set (run_allocs rt reqs). low \<le> unat offset \<and>
      unat offset + unat bytes \<le> unat (reg_len (local_region rt)) \<and>
      (\<exists>v. offset = obmm_align_up_u64 v (if align = 0 then 64 else align))"
  using assms
proof (induction rt reqs arbitrary: low rule: run_allocs.induct)
  case (2 rt bytes align reqs)
  obtain res rt' where run: "mem_service_payload_arena_alloc rt bytes align = (res, rt')" by (cases "mem_service_payload_arena_alloc rt bytes align")
  { case 1
    then have al: "unat align \<le> 2 ^ 62" "\<forall>(bytes, align)\<in>set reqs. unat align \<le> 2 ^ 62" by auto
    note S = arena_alloc_step [OF 1(1) al(1) run]
    show ?case
    proof (cases res)
      case None
      then show ?thesis using "2.IH"(1) [OF run [symmetric] None S(2) al(2)] run by simp
    next
      case (Some offset)
      note T = S(3) [OF Some, THEN conjunct1]
      from "2.IH"(3) [OF run [symmetric] Some T al(2)] "2.IH"(4) [OF run [symmetric] Some T al(2)]
      show ?thesis using run Some by auto
    qed
  next
    case 2
    then have al: "unat align \<le> 2 ^ 62" "\<forall>(bytes, align)\<in>set reqs. unat align \<le> 2 ^ 62" by auto
    note S = arena_alloc_step [OF 2(1) al(1) run]
    show ?case
    proof (cases res)
      case None
      then show ?thesis using "2.IH"(2) [OF run [symmetric] None S(2) al(2)] run S(1) by simp
    next
      case (Some offset)
      note T = S(3) [OF Some]
      from "2.IH"(4) [OF run [symmetric] Some T [THEN conjunct1] al(2)]
      show ?thesis using run Some T S(1) by fastforce
    qed
  }
qed simp_all

text \<open>C19. The ranges of the payload arena never overlap. From a runtime whose arena was not used yet and
  whose local region has at most \<open>2 ^ 62\<close> bytes, any sequence of allocations with alignments of at most
  \<open>2 ^ 62\<close> (every caller asks for 64; larger ones can wrap in the rounding, as \<open>arena_align_wraps\<close> shows),
  with failures between them, hands out ranges that lie behind the metadata and within the local
  region, each behind the ones before; a range asked for with a power of two as its alignment starts
  at a multiple of it.\<close>

theorem arena_ranges_disjoint:
  assumes "rt_payload_arena_base rt = 0" "unat (reg_len (local_region rt)) \<le> 2 ^ 62"
    and "\<forall>(bytes, align)\<in>set reqs. unat align \<le> 2 ^ 62"
  shows "sorted_wrt (\<lambda>(o1, b1, _) (o2, b2, _). unat o1 + unat b1 \<le> unat o2) (run_allocs rt reqs) \<and>
    (\<forall>(offset, bytes, align)\<in>set (run_allocs rt reqs).
      unat MEM_SERVICE_OBMM_DYNAMIC_ARENA_OFFSET \<le> unat offset \<and>
      unat offset + unat bytes \<le> unat (reg_len (local_region rt)) \<and>
      (\<forall>k. align = 2 ^ k \<and> align \<noteq> 0 \<longrightarrow> unat offset mod 2 ^ k = 0))"
proof -
  have "arena_from 0x200000 rt" using assms(1,2) by (simp add: arena_from_def)
  note R = run_allocs_ranges [OF this assms(3)]
  have "unat MEM_SERVICE_OBMM_DYNAMIC_ARENA_OFFSET = 0x200000"
    by (simp add: MEM_SERVICE_OBMM_DYNAMIC_ARENA_OFFSET_def)
  then show ?thesis using R align_up_multiple by fastforce
qed

definition demo_runtime :: mem_service_cluster_runtime where
  "demo_runtime =
     \<lparr> rt_node_count = 2, rt_local_idx = 0, rt_region_size = 0x400000, rt_payload_arena_base = 0,
       rt_payload_arena_next = 0, rt_payload_arena_high_water = 0,
       rt_slots =
         [\<lparr> slot_map_osync = False, slot_region = \<lparr> reg_fd = 3, reg_addr = 0x1000, reg_len = 0x200080 \<rparr> \<rparr>,
          \<lparr> slot_map_osync = False, slot_region = \<lparr> reg_fd = -1, reg_addr = 0, reg_len = 0 \<rparr> \<rparr>],
       rt_ingress_queue_base = 0x1000, rt_ingress_offsets = [0, 0], rt_ingress_queues = [None, None],
       rt_egress_queues = [None, None], rt_pending_descs = [[], []] \<rparr>"

lemma demo_allocs: "run_allocs demo_runtime [(10, 0), (100, 64), (16, 64)] = [(0x200000, 10, 0), (0x200040, 16, 64)]"
  by code_simp

theorem arena_ranges_disjoint_witness:
  "run_allocs demo_runtime [(10, 0), (100, 64), (16, 64)] = [(0x200000, 10, 0), (0x200040, 16, 64)] \<and>
   sorted_wrt (\<lambda>(o1, b1, _) (o2, b2, _). unat o1 + unat b1 \<le> unat o2)
     (run_allocs demo_runtime [(10, 0), (100, 64), (16, 64)]) \<and>
   list_all (\<lambda>(offset, bytes, align). 0x200000 \<le> unat offset \<and>
       unat offset + unat bytes \<le> unat (reg_len (local_region demo_runtime)))
     (run_allocs demo_runtime [(10, 0), (100, 64), (16, 64)])"
proof -
  have "sorted_wrt (\<lambda>(o1, b1, _) (o2, b2, _). unat o1 + unat b1 \<le> unat o2) (run_allocs demo_runtime [(10, 0), (100, 64), (16, 64)]) \<and>
    (\<forall>(offset, bytes, align)\<in>set (run_allocs demo_runtime [(10, 0), (100, 64), (16, 64)]).
      unat MEM_SERVICE_OBMM_DYNAMIC_ARENA_OFFSET \<le> unat offset \<and>
      unat offset + unat bytes \<le> unat (reg_len (local_region demo_runtime)) \<and>
      (\<forall>k. align = 2 ^ k \<and> align \<noteq> 0 \<longrightarrow> unat offset mod 2 ^ k = 0))"
    by (rule arena_ranges_disjoint) (simp_all add: demo_runtime_def local_region_def)
  moreover have "unat MEM_SERVICE_OBMM_DYNAMIC_ARENA_OFFSET = 0x200000"
    by (simp add: MEM_SERVICE_OBMM_DYNAMIC_ARENA_OFFSET_def)
  ultimately show ?thesis using demo_allocs by (fastforce simp: list_all_iff)
qed

text \<open>The rounding adds the alignment before it masks, and nothing bounds the alignment: with a huge one
  the sum wraps to 0, the arena is never marked as used, and every call hands out the same range at the
  start of the region, over the metadata.\<close>

lemma arena_align_wraps: "run_allocs demo_runtime [(16, UINT64_MAX), (16, UINT64_MAX)] = [(0, 16, UINT64_MAX), (0, 16, UINT64_MAX)]"
  by code_simp

section \<open>Publishing the record of an object\<close>

text \<open>Writing a record of a new key over a used slot keeps the invariant and replaces the old key.\<close>

lemma write_replaced_record:
  assumes wf: "records_wf svc" and find: "mem_service_find_record svc key = None"
    and i: "i < length (svc_records svc)" "rec_in_use (svc_records svc ! i)"
    and r: "rec_in_use r" "rec_key r = key" "record_ok r"
  shows "records_wf (write_record i r svc)"
    and "record_map (write_record i r svc) = ((record_map svc)(rec_key (svc_records svc ! i) := None))(key \<mapsto> r)"
proof -
  let ?xs = "svc_records svc" and ?ys = "(svc_records svc)[i := r]"
  have dist: "recs.keys_distinct ?xs" using wf by (simp add: records_wf_def)
  have none: "recs.lookup ?xs key = None" using find find_record_lookup [OF wf] by simp
  have dist': "recs.keys_distinct ?ys" by (rule recs.keys_distinct_update_fresh [OF dist none r(2)])
  have "used_records (write_record i r svc) = used_records svc"
    using used_records_write [OF i(1), of r] i(2) r(1) by simp
  then show wf': "records_wf (write_record i r svc)"
    using wf dist' r(3) by (simp add: records_wf_def list_all_update)
  have "recs.table_map ?ys k = Some q \<longleftrightarrow> (((recs.table_map ?xs)(rec_key (?xs ! i) := None))(key \<mapsto> r)) k = Some q" for k q
  proof (cases "k = key")
    case True
    have "r \<in> set ?ys" using i(1) by (simp add: set_update_memI)
    then have "recs.table_map ?ys key = Some r" using r by (simp add: recs.table_map_Some_iff [OF dist'])
    with True show ?thesis by simp
  next
    case False
    have "q \<in> set ?ys \<and> rec_in_use q \<and> rec_key q = k \<longleftrightarrow>
        q \<in> set ?xs \<and> rec_in_use q \<and> rec_key q = k \<and> k \<noteq> rec_key (?xs ! i)"
      using False i r(2) dist unfolding in_set_conv_nth recs.keys_distinct_def length_list_update
      by (auto simp: nth_list_update)
    with False show ?thesis
      by (auto simp: recs.table_map_Some_iff [OF dist'] recs.table_map_Some_iff [OF dist])
  qed
  then show "record_map (write_record i r svc) = ((record_map svc)(rec_key (svc_records svc ! i) := None))(key \<mapsto> r)"
    unfolding record_map_table_map [OF wf] record_map_table_map [OF wf'] write_record_frame
    by (intro ext option_eqI) simp
qed

text \<open>The scan finds a recyclable record of the lowest step, if there is one.\<close>

lemma recycle_scan_found:
  assumes "recycle_scan inc i rs cand = res"
    and "\<And>j st. cand = Some (j, st) \<Longrightarrow> j < i"
  shows "case res of
      None \<Rightarrow> cand = None \<and> (\<forall>r\<in>set rs. recyclable_step inc r = None)
    | Some (j, st) \<Rightarrow> (cand = Some (j, st) \<or> (i \<le> j \<and> j < i + length rs \<and> recyclable_step inc (rs ! (j - i)) = Some st)) \<and>
        (\<forall>r\<in>set rs. \<forall>st'. recyclable_step inc r = Some st' \<longrightarrow> st \<le> st') \<and>
        (\<forall>j' st'. cand = Some (j', st') \<longrightarrow> st \<le> st')"
  using assms
proof (induction rs arbitrary: i cand)
  case Nil
  then show ?case by (auto split: option.splits)
next
  case (Cons r rs)
  let ?cand = "case recyclable_step inc r of None \<Rightarrow> cand
     | Some rec_step \<Rightarrow> (case cand of None \<Rightarrow> Some (i, rec_step)
         | Some (j, cs) \<Rightarrow> if rec_step < cs then Some (i, rec_step) else cand)"
  have "?cand = Some (j, st) \<Longrightarrow> j < Suc i" for j st
    using Cons.prems(2) by (auto split: option.splits if_splits prod.splits intro: less_SucI)
  from Cons.IH [of "Suc i" ?cand, OF _ this] Cons.prems
  have IH: "case res of
      None \<Rightarrow> ?cand = None \<and> (\<forall>r\<in>set rs. recyclable_step inc r = None)
    | Some (j, st) \<Rightarrow> (?cand = Some (j, st) \<or> (Suc i \<le> j \<and> j < Suc i + length rs \<and> recyclable_step inc (rs ! (j - Suc i)) = Some st)) \<and>
        (\<forall>r\<in>set rs. \<forall>st'. recyclable_step inc r = Some st' \<longrightarrow> st \<le> st') \<and>
        (\<forall>j' st'. ?cand = Some (j', st') \<longrightarrow> st \<le> st')" by simp
  have pos: "Suc i \<le> j \<Longrightarrow> (r # rs) ! (j - i) = rs ! (j - Suc i)" for j by (simp add: nth_Cons')
  show ?case
  proof (cases res)
    case None
    with IH show ?thesis by (auto split: option.splits if_splits)
  next
    case (Some c)
    obtain j st where c: "c = (j, st)" by (cases c)
    have "cand = Some (j, st) \<or> (i \<le> j \<and> j < i + length (r # rs) \<and> recyclable_step inc ((r # rs) ! (j - i)) = Some st)"
      using IH pos [of j] unfolding Some c by (auto split: option.splits if_splits)
    moreover have "\<forall>st'. recyclable_step inc r = Some st' \<longrightarrow> st \<le> st'"
      using IH unfolding Some c by (auto split: option.splits if_splits)
    moreover have "\<forall>j' st'. cand = Some (j', st') \<longrightarrow> st \<le> st'"
      using IH unfolding Some c by (fastforce split: option.splits if_splits)
    moreover have "\<forall>r\<in>set rs. \<forall>st'. recyclable_step inc r = Some st' \<longrightarrow> st \<le> st'"
      using IH unfolding Some c by simp
    ultimately show ?thesis unfolding Some c by simp
  qed
qed


text \<open>The recycler of a well-formed table: a used slot that may be recycled for the step of the key,
  of the lowest step, or nothing to recycle.\<close>

lemma recycle_SomeD:
  assumes "mem_service_recycle_qwen3_runtime_record svc key = (Some i, svc')"
  obtains inc st where "mem_service_qwen3_key_decode_step key = Some inc" "MEM_SERVICE_QWEN3_RECORD_RETAIN_STEPS < inc"
    "i < length (svc_records svc)" "recyclable_step inc (svc_records svc ! i) = Some st"
    "\<forall>r\<in>set (svc_records svc). \<forall>st'. recyclable_step inc r = Some st' \<longrightarrow> st \<le> st'"
    "svc' = write_record i zero_record svc"
proof -
  obtain inc st where "mem_service_qwen3_key_decode_step key = Some inc" "\<not> inc \<le> MEM_SERVICE_QWEN3_RECORD_RETAIN_STEPS"
    "recycle_scan inc 0 (svc_records svc) None = Some (i, st)" "svc' = write_record i zero_record svc"
    using assms by (auto simp: mem_service_recycle_qwen3_runtime_record_def split: option.splits if_splits)
  with recycle_scan_found [of inc 0 "svc_records svc" None "Some (i, st)"] show thesis
    by (intro that) (auto simp: linorder_not_le)
qed

lemma recycle_NoneD:
  assumes "mem_service_recycle_qwen3_runtime_record svc key = (None, svc')"
  shows "svc' = svc"
    and "mem_service_qwen3_key_decode_step key = Some inc \<Longrightarrow> MEM_SERVICE_QWEN3_RECORD_RETAIN_STEPS < inc \<Longrightarrow>
      \<forall>r\<in>set (svc_records svc). recyclable_step inc r = None"
  using assms recycle_scan_found [of inc 0 "svc_records svc" None None]
  by (auto simp: mem_service_recycle_qwen3_runtime_record_def split: option.splits if_splits)

lemma recyclable_used: "recyclable_step inc r = Some st \<Longrightarrow> rec_in_use r"
  by (auto simp: recyclable_step_def split: if_splits)

lemma obmm_object_record_fits:
  assumes "length key < 96"
  shows "rec_in_use (obmm_object_record kind key owner pk off len cks v)"
    "rec_key (obmm_object_record kind key owner pk off len cks v) = key"
    "record_ok (obmm_object_record kind key owner pk off len cks v)"
  using assms record_ok_zero by (simp_all add: obmm_object_record_def record_ok_def list_all_iff)

text \<open>The key field holds 95 characters. A longer key is stored cut, compares unequal to every stored key
  before and after, and so is never found again: publishing it once more takes another slot.\<close>

definition keys_short :: "mem_service \<Rightarrow> bool" where
  "keys_short svc \<longleftrightarrow> (\<forall>r\<in>set (svc_records svc). length (rec_key r) < 96)"

lemma keys_short_not_found: "keys_short svc \<Longrightarrow> 96 \<le> length key \<Longrightarrow> mem_service_find_record svc key = None"
  by (auto simp: keys_short_def mem_service_find_record_def find_slot_None_iff)

lemma keys_short_write: "keys_short svc \<Longrightarrow> length (rec_key r) < 96 \<Longrightarrow> keys_short (write_record i r svc)"
  by (auto simp: keys_short_def write_record_def dest!: set_update_subset_insert [THEN subsetD])

lemma keys_short_alloc: "keys_short svc \<Longrightarrow> mem_service_alloc_record svc = (res, svc') \<Longrightarrow> keys_short svc'"
  by (auto simp: keys_short_def mem_service_alloc_record_def split: option.splits
      dest!: set_update_subset_insert [THEN subsetD] sym [of "Some _"] find_slot_less)

lemma long_key_never_found:
  assumes "records_wf svc" "96 \<le> length key"
    and run: "mem_service_put_obmm_object_record svc (Some mem_service_recycle_qwen3_runtime_record)
      kind key owner pk off len cks = (0, svc', Some r)"
  shows "mem_service_find_record svc key = None" "rec_key r = take 95 key" "mem_service_find_record svc' key = None"
proof -
  have short: "keys_short svc" using assms(1) by (auto simp: keys_short_def records_wf_def list_all_iff record_ok_def)
  show none: "mem_service_find_record svc key = None" by (rule keys_short_not_found [OF short assms(2)])
  obtain slot svc1 where alloc: "mem_service_alloc_record svc = (slot, svc1)" by (cases "mem_service_alloc_record svc")
  note short1 = keys_short_alloc [OF short alloc]
  obtain slot2 svc2 where rec: "mem_service_recycle_qwen3_runtime_record svc1 key = (slot2, svc2)"
    by (cases "mem_service_recycle_qwen3_runtime_record svc1 key")
  have short2: "keys_short svc2"
    using rec short1 keys_short_write [OF short1, of zero_record]
    by (auto simp: mem_service_recycle_qwen3_runtime_record_def split: option.splits if_splits)
  have r: "rec_key r = take 95 key \<and> (\<exists>i s. keys_short s \<and> svc' = write_record i r s)"
    using run none alloc rec short1 short2
    by (auto simp: mem_service_put_obmm_object_record_def Let_def obmm_object_record_def snprintf_s_def
        split: if_splits option.splits)
  then show "rec_key r = take 95 key" by blast
  from r keys_short_write have "keys_short svc'" by auto
  then show "mem_service_find_record svc' key = None" by (rule keys_short_not_found [OF _ assms(2)])
qed

lemma write_record_twice: "write_record i r (write_record i r' svc) = write_record i r svc"
  by (simp add: write_record_def)

lemma record_map_in_set:
  assumes wf: "records_wf svc" and "record_map svc k = Some r"
  shows "r \<in> set (svc_records svc)"
proof -
  from assms(2) obtain i where "mem_service_find_record svc k = Some i" "svc_records svc ! i = r"
    by (auto simp: mem_service_get_record_def)
  with find_record_SomeD(1) [OF wf this(1)] show ?thesis by auto
qed

text \<open>A recycled slot: one record leaves the table, one of the lowest step that may leave.\<close>

lemma recycled_slot:
  assumes wf: "records_wf svc" and find: "mem_service_find_record svc key = None"
    and rec: "mem_service_recycle_qwen3_runtime_record svc key = (Some i, svc2)"
    and r: "rec_in_use r" "rec_key r = key" "record_ok r"
  shows "records_wf (write_record i r svc2) \<and> svc_rest (write_record i r svc2) = svc_rest svc \<and>
    (\<exists>old_key old inc st. record_map svc old_key = Some old \<and>
      record_map (write_record i r svc2) = ((record_map svc)(old_key := None))(key \<mapsto> r) \<and>
      mem_service_qwen3_key_decode_step key = Some inc \<and> MEM_SERVICE_QWEN3_RECORD_RETAIN_STEPS < inc \<and>
      recyclable_step inc old = Some st \<and>
      (\<forall>k r'. \<forall>st'. record_map svc k = Some r' \<and> recyclable_step inc r' = Some st' \<longrightarrow> st \<le> st'))"
  using rec
proof (cases rule: recycle_SomeD)
  case (1 inc st)
  note used = recyclable_used [OF 1(4)] and W = write_replaced_record [OF wf find 1(3) recyclable_used [OF 1(4)] r]
  have "record_map svc (rec_key (svc_records svc ! i)) = Some (svc_records svc ! i)"
    using find_record_at [OF wf 1(3) used] by (simp add: mem_service_get_record_def)
  moreover have "write_record i r svc2 = write_record i r svc" using 1(6) by (simp add: write_record_twice)
  ultimately show ?thesis using W 1 record_map_in_set [OF wf] by (auto simp: svc_frame) blast
qed

text \<open>C18. Publishing the record of an OBMM object, with the recycler of old decode steps, under a key that
  fits the 96-byte key field of a record (a longer one is cut and not found again, see
  \<open>long_key_never_found\<close>). The service keeps its invariant and everything but the record table. A
  success stores under the key, and gives back, the record with the placement, range and checksum of the
  object and the next version: 1 for a new key, else one more than the version that was stored, which
  starts again at 1 after the largest 64-bit number. All other keys keep their records, except that in a
  full table a new key takes the place of one record: one that may be recycled for the step of the key,
  of the lowest step of all those. A failure changes nothing and has a reason: an empty object, or a new
  key in a full table with nothing to recycle.\<close>

theorem put_obmm_object_record_correct:
  assumes wf: "records_wf svc" and key: "length key < 96"
    and run: "mem_service_put_obmm_object_record svc (Some mem_service_recycle_qwen3_runtime_record)
      kind key owner pk off len cks = (rc, svc', resolved)"
  defines "r \<equiv> obmm_object_record kind key owner pk off len cks (obmm_next_version (record_map svc key))"
  shows "records_wf svc' \<and> svc_rest svc' = svc_rest svc \<and> rc \<in> {0, -1} \<and>
    (rc = 0 \<longrightarrow> resolved = Some r \<and>
      (record_map svc' = (record_map svc)(key \<mapsto> r) \<or>
       (record_map svc key = None \<and> used_records svc = MEM_SERVICE_MAX_RECORDS \<and>
        (\<exists>old_key old inc st. record_map svc old_key = Some old \<and>
          record_map svc' = ((record_map svc)(old_key := None))(key \<mapsto> r) \<and>
          mem_service_qwen3_key_decode_step key = Some inc \<and> MEM_SERVICE_QWEN3_RECORD_RETAIN_STEPS < inc \<and>
          recyclable_step inc old = Some st \<and>
          (\<forall>k r'. \<forall>st'. record_map svc k = Some r' \<and> recyclable_step inc r' = Some st' \<longrightarrow> st \<le> st'))))) \<and>
    (rc = -1 \<longrightarrow> svc' = svc \<and> resolved = None \<and>
      (len = 0 \<or> (record_map svc key = None \<and> used_records svc = MEM_SERVICE_MAX_RECORDS \<and>
        (\<forall>inc. mem_service_qwen3_key_decode_step key = Some inc \<and> MEM_SERVICE_QWEN3_RECORD_RETAIN_STEPS < inc \<longrightarrow>
          (\<forall>k r'. record_map svc k = Some r' \<longrightarrow> recyclable_step inc r' = None)))))"
proof -
  note fits = obmm_object_record_fits [OF key, of kind owner pk off len cks "obmm_next_version (record_map svc key)", folded r_def]
  have r: "obmm_object_record kind key owner pk off len cks
      (obmm_next_version (map_option (\<lambda>i. svc_records svc ! i) (mem_service_find_record svc key))) = r"
    by (simp add: r_def mem_service_get_record_def)
  note D = run [unfolded mem_service_put_obmm_object_record_def Let_def r]
  note inside = record_map_in_set [OF wf]
  consider (empty) "len = 0" | (found) i where "len \<noteq> 0" "mem_service_find_record svc key = Some i"
    | (new) i svc1 where "len \<noteq> 0" "mem_service_find_record svc key = None" "mem_service_alloc_record svc = (Some i, svc1)"
    | (full) "len \<noteq> 0" "mem_service_find_record svc key = None" "mem_service_alloc_record svc = (None, svc)"
    by (metis alloc_record_None not_None_eq surj_pair)
  then show ?thesis
  proof cases
    case empty
    then show ?thesis using D wf by simp
  next
    case found
    then show ?thesis
      using D write_found_record [OF wf found(2) fits] by (auto simp: svc_frame)
  next
    case new
    then show ?thesis
      using D write_alloc_record [OF wf new(2,3) fits] svc_rest_alloc [OF new(3)] by (auto simp: svc_frame)
  next
    case full
    have used: "used_records svc = MEM_SERVICE_MAX_RECORDS" "record_map svc key = None"
      using alloc_record_None_iff [of svc] full wf by (auto simp: records_wf_def mem_service_get_record_def)
    obtain slot svc2 where rec: "mem_service_recycle_qwen3_runtime_record svc key = (slot, svc2)"
      by (cases "mem_service_recycle_qwen3_runtime_record svc key")
    show ?thesis
    proof (cases slot)
      case None
      then show ?thesis
        using D full rec wf used recycle_NoneD [OF rec [unfolded None]] inside by auto
    next
      case (Some i)
      then show ?thesis using D full rec used recycled_slot [OF wf full(2) rec [unfolded Some] fits] by auto
    qed
  qed
qed


theorem put_obmm_object_record_correct_witness:
  "\<exists>svc' r. mem_service_put_obmm_object_record initial_service (Some mem_service_recycle_qwen3_runtime_record)
      RECORD_KVCACHE_OBJECT ''kv/step/3'' 1 7 0x200000 64 99 = (0, svc', Some r) \<and>
    record_map svc' ''kv/step/3'' = Some r \<and> rec_version r = 1 \<and> records_wf svc'"
proof -
  obtain rc svc' res where run: "mem_service_put_obmm_object_record initial_service
      (Some mem_service_recycle_qwen3_runtime_record) RECORD_KVCACHE_OBJECT ''kv/step/3'' 1 7 0x200000 64 99 = (rc, svc', res)"
    by (metis surj_pair)
  have "length ''kv/step/3'' < 96" "used_records initial_service \<noteq> MEM_SERVICE_MAX_RECORDS"
    by (simp_all add: used_records_initial MEM_SERVICE_MAX_RECORDS_def)
  then show ?thesis
    using put_obmm_object_record_correct [OF records_wf_initial _ run]
    by (auto simp: run record_map_initial obmm_next_version_def obmm_object_record_def)
qed

text \<open>Two corner cases. The version of a record that reached the largest number starts again at 1; and
  since the sum of step and retained steps wraps, a record of one of the last 16 steps counts as old.\<close>

lemma obmm_version_restarts: "rec_version r = UINT64_MAX \<Longrightarrow> obmm_next_version (Some r) = 1"
  by (simp add: obmm_next_version_def)

lemma latest_step_recycled:
  "recyclable_step 100 (obmm_object_record RECORD_KVCACHE_OBJECT ''kv/step/18446744073709551615'' 0 7 0 64 0 1) =
     Some UINT64_MAX"
proof -
  have "mem_service_qwen3_key_decode_step ''kv/step/18446744073709551615'' = Some UINT64_MAX"
    by (simp add: mem_service_qwen3_key_decode_step_def digit_value_def digits_value_def UINT64_MAX_def)
  then show ?thesis
    by (simp add: recyclable_step_def obmm_object_record_def mem_service_qwen3_record_kind_recyclable_def
        MEM_SERVICE_QWEN3_RECORD_RETAIN_STEPS_def UINT64_MAX_def)
qed

end
