(* ===== verification/Cluster_Queue.thy ===== *)
theory Cluster_Queue
  imports Obmm_Objects
begin

text \<open>
  The descriptor queues between the nodes of a cluster (\<open>mem_service_cluster_queue.c\<close>): a node
  announces an object by pushing a descriptor into its ring to every peer, a peer acknowledges it by
  sending the descriptor back with another type, and a descriptor that arrives while a node waits for
  something else is stashed in a short list of pending descriptors of that peer.

  The waiting loops end by a deadline. A run of one is given by its rounds, the iterations before
  the deadline: what the peers had pushed before the round and what the kernel answers in it. A
  descriptor that arrives while a ring is being drained is one that arrived before the round.
\<close>

section \<open>Descriptors\<close>

definition OBMM_DESC_MEM_SERVICE_OBJECT_PUT :: u16 where "OBMM_DESC_MEM_SERVICE_OBJECT_PUT = 8"
definition OBMM_DESC_MEM_SERVICE_OBJECT_GET :: u16 where "OBMM_DESC_MEM_SERVICE_OBJECT_GET = 9"
definition MEM_SERVICE_OBMM_KIND_HIDDEN_RANGE_RUNTIME_OUTPUT :: u16 where
  "MEM_SERVICE_OBMM_KIND_HIDDEN_RANGE_RUNTIME_OUTPUT = 5"

definition mem_service_desc_matches_barrier :: "obmm_desc \<Rightarrow> u16 \<Rightarrow> u16 \<Rightarrow> bool" where
  "mem_service_desc_matches_barrier desc desc_type epoch \<longleftrightarrow>
     d_type desc = desc_type \<and> ucast (d_cookie desc) = epoch"

definition desc_epoch :: "obmm_desc \<Rightarrow> u16" where
  "desc_epoch desc = ucast (drop_bit 48 (d_seq desc))"

definition checksum_cookie :: "u64 \<Rightarrow> u32" where
  "checksum_cookie checksum = ucast (checksum XOR drop_bit 32 checksum)"

definition mem_service_pending_object_desc_matches ::
  "obmm_desc \<Rightarrow> u16 \<Rightarrow> mem_service_record \<Rightarrow> u32 \<Rightarrow> bool" where
  "mem_service_pending_object_desc_matches desc epoch r kind \<longleftrightarrow>
     \<not> (d_type desc \<noteq> OBMM_DESC_MEM_SERVICE_OBJECT_PUT \<or> desc_epoch desc \<noteq> epoch \<or>
        ucast (d_flags desc) \<noteq> kind \<or> d_payload_offset desc \<noteq> rec_object_backing_offset r \<or>
        ucast (d_payload_len desc) \<noteq> rec_object_backing_len r) \<and>
     d_cookie desc = checksum_cookie (rec_object_payload_checksum r)"

definition mem_service_runtime_range_input_desc_matches :: "obmm_desc \<Rightarrow> u64 \<Rightarrow> u16 \<Rightarrow> bool" where
  "mem_service_runtime_range_input_desc_matches desc expected_payload_len epoch \<longleftrightarrow>
     d_type desc = OBMM_DESC_MEM_SERVICE_OBJECT_PUT \<and>
     d_flags desc = MEM_SERVICE_OBMM_KIND_HIDDEN_RANGE_RUNTIME_OUTPUT \<and>
     ucast (d_payload_len desc) = expected_payload_len \<and> desc_epoch desc = epoch"

definition mem_service_token_result_desc_matches :: "obmm_desc \<Rightarrow> u16 \<Rightarrow> u32 \<Rightarrow> u64 \<Rightarrow> bool" where
  "mem_service_token_result_desc_matches desc epoch payload_kind payload_len \<longleftrightarrow>
     d_type desc = OBMM_DESC_MEM_SERVICE_OBJECT_PUT \<and> ucast (d_flags desc) = payload_kind \<and>
     ucast (d_payload_len desc) = payload_len \<and> desc_epoch desc = epoch"

definition mem_service_object_desc_kind_len_matches :: "obmm_desc \<Rightarrow> u32 \<Rightarrow> u64 \<Rightarrow> u64 \<Rightarrow> bool" where
  "mem_service_object_desc_kind_len_matches desc payload_kind min_payload_len max_payload_len \<longleftrightarrow>
     d_type desc = OBMM_DESC_MEM_SERVICE_OBJECT_PUT \<and> ucast (d_flags desc) = payload_kind \<and>
     ucast (d_payload_len desc) \<ge> min_payload_len \<and> ucast (d_payload_len desc) \<le> max_payload_len"

definition mem_service_object_desc_matches :: "obmm_desc \<Rightarrow> u16 \<Rightarrow> u32 \<Rightarrow> u64 \<Rightarrow> u64 \<Rightarrow> bool" where
  "mem_service_object_desc_matches desc epoch payload_kind min_payload_len max_payload_len \<longleftrightarrow>
     \<not> (d_type desc \<noteq> OBMM_DESC_MEM_SERVICE_OBJECT_PUT \<or> ucast (d_flags desc) \<noteq> payload_kind \<or>
        ucast (d_payload_len desc) < min_payload_len \<or> ucast (d_payload_len desc) > max_payload_len) \<and>
     desc_epoch desc = epoch"

section \<open>Pending descriptors\<close>

text \<open>The loop the take functions share: the first pending descriptor of the peer that matches is taken
  out, the later ones move up.\<close>

fun take_first :: "('a \<Rightarrow> bool) \<Rightarrow> 'a list \<Rightarrow> ('a \<times> 'a list) option" where
  "take_first P [] = None"
| "take_first P (x # xs) =
     (if P x then Some (x, xs) else map_option (\<lambda>(y, ys). (y, x # ys)) (take_first P xs))"

definition take_pending ::
  "(obmm_desc \<Rightarrow> bool) \<Rightarrow> mem_service_cluster_runtime \<Rightarrow> int \<Rightarrow> obmm_desc option \<times> mem_service_cluster_runtime" where
  "take_pending P rt owner_idx =
     (if owner_idx < 0 \<or> owner_idx \<ge> rt_node_count rt then (None, rt)
      else case take_first P (rt_pending_descs rt ! nat owner_idx) of
        None \<Rightarrow> (None, rt)
      | Some (d, rest) \<Rightarrow> (Some d, rt \<lparr> rt_pending_descs := (rt_pending_descs rt)[nat owner_idx := rest] \<rparr>))"

definition mem_service_take_pending_barrier_desc ::
  "mem_service_cluster_runtime \<Rightarrow> int \<Rightarrow> u16 \<Rightarrow> u16 \<Rightarrow> bool \<times> mem_service_cluster_runtime" where
  "mem_service_take_pending_barrier_desc rt owner_idx desc_type epoch =
     (let (d, rt') = take_pending (\<lambda>d. mem_service_desc_matches_barrier d desc_type epoch) rt owner_idx
      in (d \<noteq> None, rt'))"

definition mem_service_take_pending_runtime_range_input_desc ::
  "mem_service_cluster_runtime \<Rightarrow> int \<Rightarrow> u64 \<Rightarrow> u16 \<Rightarrow> obmm_desc option \<times> mem_service_cluster_runtime" where
  "mem_service_take_pending_runtime_range_input_desc rt owner_idx expected_payload_len epoch =
     take_pending (\<lambda>d. mem_service_runtime_range_input_desc_matches d expected_payload_len epoch) rt owner_idx"

definition mem_service_take_pending_token_result_desc ::
  "mem_service_cluster_runtime \<Rightarrow> int \<Rightarrow> u16 \<Rightarrow> u32 \<Rightarrow> u64 \<Rightarrow> obmm_desc option \<times> mem_service_cluster_runtime" where
  "mem_service_take_pending_token_result_desc rt owner_idx epoch payload_kind payload_len =
     take_pending (\<lambda>d. mem_service_token_result_desc_matches d epoch payload_kind payload_len) rt owner_idx"

definition mem_service_take_pending_object_desc ::
  "mem_service_cluster_runtime \<Rightarrow> int \<Rightarrow> u16 \<Rightarrow> u32 \<Rightarrow> u64 \<Rightarrow> u64 \<Rightarrow>
   obmm_desc option \<times> mem_service_cluster_runtime" where
  "mem_service_take_pending_object_desc rt owner_idx epoch payload_kind min_payload_len max_payload_len =
     take_pending (\<lambda>d. mem_service_object_desc_matches d epoch payload_kind min_payload_len max_payload_len) rt owner_idx"

definition mem_service_take_pending_object_kind_len_desc ::
  "mem_service_cluster_runtime \<Rightarrow> int \<Rightarrow> u32 \<Rightarrow> u64 \<Rightarrow> u64 \<Rightarrow> obmm_desc option \<times> mem_service_cluster_runtime" where
  "mem_service_take_pending_object_kind_len_desc rt owner_idx payload_kind min_payload_len max_payload_len =
     take_pending (\<lambda>d. mem_service_object_desc_kind_len_matches d payload_kind min_payload_len max_payload_len) rt owner_idx"

definition mem_service_take_pending_object_record_desc ::
  "mem_service_cluster_runtime \<Rightarrow> int \<Rightarrow> u16 \<Rightarrow> mem_service_record \<Rightarrow> u32 \<Rightarrow> bool \<times> mem_service_cluster_runtime" where
  "mem_service_take_pending_object_record_desc rt owner_idx epoch r kind =
     (let (d, rt') = take_pending (\<lambda>d. mem_service_pending_object_desc_matches d epoch r kind) rt owner_idx
      in (d \<noteq> None, rt'))"

definition mem_service_stash_pending_desc ::
  "mem_service_cluster_runtime \<Rightarrow> int \<Rightarrow> obmm_desc \<Rightarrow> mem_service_cluster_runtime" where
  "mem_service_stash_pending_desc rt owner_idx desc =
     (if owner_idx < 0 \<or> owner_idx \<ge> rt_node_count rt then rt
      else let pending = rt_pending_descs rt ! nat owner_idx in
        if length pending \<ge> MEM_SERVICE_CLUSTER_PENDING_DESC_DEPTH then rt
        else rt \<lparr> rt_pending_descs := (rt_pending_descs rt)[nat owner_idx := pending @ [desc]] \<rparr>)"

section \<open>Receiving\<close>

definition offsetof_desc :: u64 where "offsetof_desc = 192"
definition offsetof_head :: u64 where "offsetof_head = 0"
definition offsetof_tail :: u64 where "offsetof_tail = 64"

datatype ingress_result = Ingress_desc obmm_desc | Ingress_empty | Ingress_invalid | Ingress_io

definition mem_service_pop_ingress_desc ::
  "region_env \<Rightarrow> mem_service_cluster_runtime \<Rightarrow> int \<Rightarrow> ingress_result \<times> mem_service_cluster_runtime" where
  "mem_service_pop_ingress_desc env rt owner_idx =
     (if owner_idx < 0 \<or> owner_idx \<ge> rt_node_count rt \<or> owner_idx = rt_local_idx rt \<or>
         rt_ingress_queue_base rt = 0 \<or> rt_ingress_queues rt ! nat owner_idx = None \<or>
         rt_local_idx rt < 0 \<or> rt_local_idx rt \<ge> rt_node_count rt
      then (Ingress_invalid, rt)
      else let queue = the (rt_ingress_queues rt ! nat owner_idx);
               queue_offset = rt_ingress_offsets rt ! nat owner_idx
        in if queue_offset > rt_region_size rt \<or>
              obmm_queue_region_size (q_size queue) > rt_region_size rt - queue_offset
           then (Ingress_invalid, rt)
           else let slot = rt_slots rt ! nat (rt_local_idx rt);
                    full_local_slot = slot \<lparr> slot_region := (slot_region slot)
                      \<lparr> reg_addr := rt_ingress_queue_base rt, reg_len := rt_region_size rt \<rparr> \<rparr>;
                    descriptor_offset = queue_offset + offsetof_desc +
                      ucast (q_head queue AND q_mask queue) * sizeof_obmm_desc
             in if \<not> mem_service_update_region_range_at env full_local_slot descriptor_offset sizeof_obmm_desc False
                then (Ingress_io, rt)
                else if \<not> mem_service_update_region_range_at env full_local_slot (queue_offset + offsetof_tail) 4 False
                then (Ingress_io, rt)
                else case obmm_spsc_pop queue of
                  (None, queue') \<Rightarrow> (Ingress_empty, rt)
                | (Some d, queue') \<Rightarrow>
                    let rt' = rt \<lparr> rt_ingress_queues := (rt_ingress_queues rt)[nat owner_idx := Some queue'] \<rparr> in
                    if \<not> mem_service_update_region_range_at env full_local_slot (queue_offset + offsetof_head) 4 True
                    then (Ingress_io, rt')
                    else (Ingress_desc d, rt'))"


text \<open>The loop \<open>while (mem_service_pop_ingress_desc (...) == 0)\<close> with its body, which gets a descriptor and
  the local variables and says whether the loop is left. The number bounds the iterations; the callers
  give one more than the ring holds.\<close>

fun drain_ingress ::
  "nat \<Rightarrow> region_env \<Rightarrow> int \<Rightarrow> (obmm_desc \<Rightarrow> 's \<Rightarrow> mem_service_cluster_runtime \<Rightarrow> bool \<times> 's \<times> mem_service_cluster_runtime) \<Rightarrow>
   's \<Rightarrow> mem_service_cluster_runtime \<Rightarrow> bool \<times> 's \<times> mem_service_cluster_runtime" where
  "drain_ingress 0 env owner_idx body s rt = (False, s, rt)"
| "drain_ingress (Suc n) env owner_idx body s rt =
     (case mem_service_pop_ingress_desc env rt owner_idx of
        (Ingress_desc d, rt1) \<Rightarrow>
          (case body d s rt1 of
             (True, s', rt2) \<Rightarrow> (True, s', rt2)
           | (False, s', rt2) \<Rightarrow> drain_ingress n env owner_idx body s' rt2)
      | (_, rt1) \<Rightarrow> (False, s, rt1))"

definition ingress_bound :: "mem_service_cluster_runtime \<Rightarrow> int \<Rightarrow> nat" where
  "ingress_bound rt owner_idx =
     (case rt_ingress_queues rt ! nat owner_idx of None \<Rightarrow> 1 | Some q \<Rightarrow> Suc (unat (obmm_spsc_available q)))"

text \<open>A round of a waiting loop: what each peer had pushed before it and what the kernel answers.\<close>

record cluster_round =
  rd_arrivals :: "nat \<Rightarrow> obmm_desc list"
  rd_env :: region_env

definition arrive :: "nat \<Rightarrow> obmm_desc list \<Rightarrow> mem_service_cluster_runtime \<Rightarrow> mem_service_cluster_runtime" where
  "arrive i ds rt =
     (case rt_ingress_queues rt ! i of
        None \<Rightarrow> rt
      | Some q \<Rightarrow> rt \<lparr> rt_ingress_queues :=
          (rt_ingress_queues rt)[i := Some (fold (\<lambda>d q. snd (obmm_spsc_push q d)) ds q)] \<rparr>)"

section \<open>Sending\<close>

definition object_put_desc ::
  "mem_service_cluster_runtime \<Rightarrow> u32 \<Rightarrow> u64 \<Rightarrow> u64 \<Rightarrow> u64 \<Rightarrow> u16 \<Rightarrow> obmm_desc" where
  "object_put_desc rt payload_kind payload_offset payload_len checksum epoch =
     zero_desc
       \<lparr> d_type := OBMM_DESC_MEM_SERVICE_OBJECT_PUT, d_flags := ucast payload_kind,
         d_seq := push_bit 48 (ucast epoch) OR push_bit 32 (of_int (rt_local_idx rt + 1)) OR
           (payload_offset AND 0xffffffff),
         d_region_id := payload_kind, d_payload_len := ucast payload_len, d_payload_offset := payload_offset,
         d_cookie := checksum_cookie checksum \<rparr>"

text \<open>The loop that pushes until the ring accepts or the deadline passes. The list has, for every
  further attempt before the deadline, how many descriptors the peer took out before it.\<close>

fun push_retry :: "obmm_spsc_queue \<Rightarrow> obmm_desc \<Rightarrow> nat list \<Rightarrow> bool \<times> obmm_spsc_queue" where
  "push_retry q desc taken =
     (case obmm_spsc_push q desc of
        (OBMM_OK, q') \<Rightarrow> (True, q')
      | (_, q') \<Rightarrow>
          (case taken of
             [] \<Rightarrow> (False, q')
           | n # taken' \<Rightarrow> push_retry (((\<lambda>q. snd (obmm_spsc_pop q)) ^^ n) q') desc taken'))"

fun push_to_peers ::
  "obmm_desc \<Rightarrow> (nat \<Rightarrow> nat list) \<Rightarrow> nat list \<Rightarrow> mem_service_cluster_runtime \<Rightarrow> bool \<times> mem_service_cluster_runtime" where
  "push_to_peers desc taken [] rt = (True, rt)"
| "push_to_peers desc taken (i # peers) rt =
     (if int i = rt_local_idx rt then push_to_peers desc taken peers rt
      else case rt_egress_queues rt ! i of
        None \<Rightarrow> push_to_peers desc taken peers rt
      | Some q \<Rightarrow>
          (case push_retry q desc (taken i) of
             (ok, q') \<Rightarrow>
               let rt' = rt \<lparr> rt_egress_queues := (rt_egress_queues rt)[i := Some q'] \<rparr> in
               if ok then push_to_peers desc taken peers rt' else (False, rt')))"

definition mem_service_push_obmm_object_descs ::
  "(nat \<Rightarrow> nat list) \<Rightarrow> mem_service_cluster_runtime \<Rightarrow> u32 \<Rightarrow> u64 \<Rightarrow> u64 \<Rightarrow> u64 \<Rightarrow> u16 \<Rightarrow>
   int \<times> mem_service_cluster_runtime" where
  "mem_service_push_obmm_object_descs taken rt payload_kind payload_offset payload_len checksum epoch =
     (if payload_len > UINT32_MAX \<or> payload_kind > 0xffff then (-1, rt)
      else case push_to_peers (object_put_desc rt payload_kind payload_offset payload_len checksum epoch) taken
          [0..<nat (rt_node_count rt)] rt of
        (ok, rt') \<Rightarrow> (if ok then 0 else -1, rt'))"

text \<open>\<open>mem_service_activate_remote_slot\<close> maps the memory of a peer; its effect is an argument.\<close>

type_synonym activate_fn = "mem_service_cluster_runtime \<Rightarrow> nat \<Rightarrow> bool \<times> mem_service_cluster_runtime"

definition egress_to ::
  "activate_fn \<Rightarrow> mem_service_cluster_runtime \<Rightarrow> u32 \<Rightarrow> (obmm_spsc_queue option \<times> mem_service_cluster_runtime)" where
  "egress_to activate rt target_node =
     (let i = unat target_node in
      if int i \<ge> rt_node_count rt \<or> int i = rt_local_idx rt then (None, rt)
      else case rt_egress_queues rt ! i of
        Some q \<Rightarrow> (Some q, rt)
      | None \<Rightarrow>
          (case activate rt i of
             (False, rt') \<Rightarrow> (None, rt')
           | (True, rt') \<Rightarrow> (rt_egress_queues rt' ! i, rt')))"

definition mem_service_try_push_obmm_object_desc_to ::
  "activate_fn \<Rightarrow> mem_service_cluster_runtime \<Rightarrow> u32 \<Rightarrow> u32 \<Rightarrow> u64 \<Rightarrow> u64 \<Rightarrow> u64 \<Rightarrow> u16 \<Rightarrow>
   int \<times> mem_service_cluster_runtime" where
  "mem_service_try_push_obmm_object_desc_to activate rt target_node payload_kind payload_offset payload_len checksum epoch =
     (if payload_len > UINT32_MAX \<or> payload_kind > 0xffff then (-1, rt)
      else case egress_to activate rt target_node of
        (None, rt') \<Rightarrow> (-1, rt')
      | (Some q, rt') \<Rightarrow>
          (case obmm_spsc_push q (object_put_desc rt' payload_kind payload_offset payload_len checksum epoch) of
             (OBMM_OK, q') \<Rightarrow> (0, rt' \<lparr> rt_egress_queues := (rt_egress_queues rt')[unat target_node := Some q'] \<rparr>)
           | (E_AGAIN, q') \<Rightarrow> (1, rt')
           | (_, q') \<Rightarrow> (-1, rt')))"

definition mem_service_object_ack_matches :: "obmm_desc \<Rightarrow> obmm_desc \<Rightarrow> bool" where
  "mem_service_object_ack_matches ack put \<longleftrightarrow>
     d_type ack = OBMM_DESC_MEM_SERVICE_OBJECT_GET \<and> d_type put = OBMM_DESC_MEM_SERVICE_OBJECT_PUT \<and>
     d_flags ack = d_flags put \<and> d_seq ack = d_seq put \<and> d_region_id ack = d_region_id put \<and>
     d_payload_len ack = d_payload_len put \<and> d_payload_offset ack = d_payload_offset put \<and>
     d_cookie ack = d_cookie put"

definition mem_service_ack_obmm_object_desc_to ::
  "activate_fn \<Rightarrow> nat list \<Rightarrow> mem_service_cluster_runtime \<Rightarrow> u32 \<Rightarrow> obmm_desc \<Rightarrow> int \<times> mem_service_cluster_runtime" where
  "mem_service_ack_obmm_object_desc_to activate taken rt target_node put_desc =
     (if d_type put_desc \<noteq> OBMM_DESC_MEM_SERVICE_OBJECT_PUT then (-1, rt)
      else case egress_to activate rt target_node of
        (None, rt') \<Rightarrow> (-1, rt')
      | (Some q, rt') \<Rightarrow>
          (case push_retry q (put_desc \<lparr> d_type := OBMM_DESC_MEM_SERVICE_OBJECT_GET \<rparr>) taken of
             (ok, q') \<Rightarrow>
               (if ok then 0 else -1, rt' \<lparr> rt_egress_queues := (rt_egress_queues rt')[unat target_node := Some q'] \<rparr>)))"

section \<open>Waiting for an acknowledgement\<close>

definition mem_service_take_pending_object_ack ::
  "mem_service_cluster_runtime \<Rightarrow> int \<Rightarrow> obmm_desc \<Rightarrow> bool \<times> mem_service_cluster_runtime" where
  "mem_service_take_pending_object_ack rt owner_idx put =
     (let (d, rt') = take_pending (\<lambda>d. mem_service_object_ack_matches d put) rt owner_idx in (d \<noteq> None, rt'))"

definition ack_body ::
  "obmm_desc \<Rightarrow> int \<Rightarrow> obmm_desc \<Rightarrow> unit \<Rightarrow> mem_service_cluster_runtime \<Rightarrow> bool \<times> unit \<times> mem_service_cluster_runtime" where
  "ack_body put source_node rx s rt =
     (if mem_service_object_ack_matches rx put then (True, s, rt)
      else (False, s, mem_service_stash_pending_desc rt source_node rx))"

fun wait_ack_rounds ::
  "obmm_desc \<Rightarrow> nat \<Rightarrow> cluster_round list \<Rightarrow> mem_service_cluster_runtime \<Rightarrow> int \<times> mem_service_cluster_runtime" where
  "wait_ack_rounds put i [] rt = (-1, rt)"
| "wait_ack_rounds put i (round # rounds) rt =
     (case mem_service_take_pending_object_ack (arrive i (rd_arrivals round i) rt) (int i) put of
        (True, rt1) \<Rightarrow> (0, rt1)
      | (False, rt1) \<Rightarrow>
          (case drain_ingress (ingress_bound rt1 (int i)) (rd_env round) (int i) (ack_body put (int i)) () rt1 of
             (True, _, rt2) \<Rightarrow> (0, rt2)
           | (False, _, rt2) \<Rightarrow> wait_ack_rounds put i rounds rt2))"

definition mem_service_wait_obmm_object_ack_from ::
  "cluster_round list \<Rightarrow> mem_service_cluster_runtime \<Rightarrow> u32 \<Rightarrow> u32 \<Rightarrow> u64 \<Rightarrow> u64 \<Rightarrow> u64 \<Rightarrow> u16 \<Rightarrow>
   int \<times> mem_service_cluster_runtime" where
  "mem_service_wait_obmm_object_ack_from rounds rt source_node payload_kind payload_offset payload_len checksum epoch =
     (if int (unat source_node) \<ge> rt_node_count rt \<or> int (unat source_node) = rt_local_idx rt \<or>
         payload_len > UINT32_MAX \<or> payload_kind > 0xffff
      then (-1, rt)
      else wait_ack_rounds (object_put_desc rt payload_kind payload_offset payload_len checksum epoch)
        (unat source_node) rounds rt)"


section \<open>The barrier\<close>

definition barrier_desc :: "u16 \<Rightarrow> u16 \<Rightarrow> u32 \<Rightarrow> obmm_desc" where
  "barrier_desc desc_type epoch publish_seq =
     zero_desc \<lparr> d_type := desc_type, d_seq := ucast epoch OR push_bit 16 (ucast publish_seq), d_cookie := ucast epoch \<rparr>"

definition barrier_body ::
  "u16 \<Rightarrow> u16 \<Rightarrow> int \<Rightarrow> obmm_desc \<Rightarrow> bool \<Rightarrow> mem_service_cluster_runtime \<Rightarrow> bool \<times> bool \<times> mem_service_cluster_runtime" where
  "barrier_body desc_type epoch i rx got rt =
     (if mem_service_desc_matches_barrier rx desc_type epoch then (False, True, rt)
      else (False, got, mem_service_stash_pending_desc rt i rx))"

text \<open>One pass over the peers; the first result is the variable \<open>all\<close>.\<close>

fun barrier_pass ::
  "region_env \<Rightarrow> u16 \<Rightarrow> u16 \<Rightarrow> nat list \<Rightarrow> bool list \<Rightarrow> mem_service_cluster_runtime \<Rightarrow> bool \<times> bool list \<times> mem_service_cluster_runtime" where
  "barrier_pass env desc_type epoch [] got rt = (True, got, rt)"
| "barrier_pass env desc_type epoch (i # peers) got rt =
     (if got ! i \<or> rt_ingress_queues rt ! i = None then barrier_pass env desc_type epoch peers got rt
      else case mem_service_take_pending_barrier_desc rt (int i) desc_type epoch of
        (True, rt1) \<Rightarrow> barrier_pass env desc_type epoch peers (got[i := True]) rt1
      | (False, rt1) \<Rightarrow>
          (case drain_ingress (ingress_bound rt1 (int i)) env (int i) (barrier_body desc_type epoch (int i)) False rt1 of
             (_, seen, rt2) \<Rightarrow>
               (case barrier_pass env desc_type epoch peers (got[i := seen]) rt2 of
                  (rest, got', rt3) \<Rightarrow> (seen \<and> rest, got', rt3))))"

fun barrier_rounds ::
  "u16 \<Rightarrow> u16 \<Rightarrow> cluster_round list \<Rightarrow> bool list \<Rightarrow> mem_service_cluster_runtime \<Rightarrow> int \<times> mem_service_cluster_runtime" where
  "barrier_rounds desc_type epoch [] got rt = (-1, rt)"
| "barrier_rounds desc_type epoch (round # rounds) got rt =
     (case barrier_pass (rd_env round) desc_type epoch [0..<nat (rt_node_count rt)] got
         (fold (\<lambda>i. arrive i (rd_arrivals round i)) [0..<nat (rt_node_count rt)] rt) of
        (True, got', rt') \<Rightarrow> (0, rt')
      | (False, got', rt') \<Rightarrow> barrier_rounds desc_type epoch rounds got' rt')"

definition mem_service_queue_barrier ::
  "(nat \<Rightarrow> nat list) \<Rightarrow> cluster_round list \<Rightarrow> mem_service_cluster_runtime \<Rightarrow> u16 \<Rightarrow> u16 \<Rightarrow> u32 \<Rightarrow>
   int \<times> mem_service_cluster_runtime" where
  "mem_service_queue_barrier taken rounds rt desc_type epoch publish_seq =
     (case push_to_peers (barrier_desc desc_type epoch publish_seq) taken [0..<nat (rt_node_count rt)] rt of
        (False, rt1) \<Rightarrow> (-1, rt1)
      | (True, rt1) \<Rightarrow>
          barrier_rounds desc_type epoch rounds
            ((replicate (nat (rt_node_count rt)) False)[nat (rt_local_idx rt) := True]) rt1)"

section \<open>Waiting for the objects of a peer\<close>

text \<open>The four objects a node waits for, with their kinds, and which of them it has seen.\<close>

type_synonym wanted = "(u32 \<times> mem_service_record) list"

fun take_pending_wanted ::
  "int \<Rightarrow> u16 \<Rightarrow> wanted \<Rightarrow> bool list \<Rightarrow> mem_service_cluster_runtime \<Rightarrow> bool list \<times> mem_service_cluster_runtime" where
  "take_pending_wanted i epoch [] seen rt = ([], rt)"
| "take_pending_wanted i epoch ((kind, r) # wants) seen rt =
     (let (saw, rt1) = (if hd seen then (True, rt) else mem_service_take_pending_object_record_desc rt i epoch r kind);
          (saws, rt2) = take_pending_wanted i epoch wants (tl seen) rt1
      in (saw # saws, rt2))"

definition desc_for_object :: "obmm_desc \<Rightarrow> u32 \<times> mem_service_record \<Rightarrow> bool" where
  "desc_for_object desc want =
     (case want of (kind, r) \<Rightarrow>
        ucast (d_flags desc) = kind \<and> d_payload_offset desc = rec_object_backing_offset r \<and>
        ucast (d_payload_len desc) = rec_object_backing_len r \<and>
        d_cookie desc = checksum_cookie (rec_object_payload_checksum r))"

definition objects_body ::
  "u16 \<Rightarrow> wanted \<Rightarrow> int \<Rightarrow> obmm_desc \<Rightarrow> bool list \<Rightarrow> mem_service_cluster_runtime \<Rightarrow>
   bool \<times> bool list \<times> mem_service_cluster_runtime" where
  "objects_body epoch wants i desc seen rt =
     (if d_type desc \<noteq> OBMM_DESC_MEM_SERVICE_OBJECT_PUT \<or> desc_epoch desc \<noteq> epoch then
        (False, seen, mem_service_stash_pending_desc rt i desc)
      else if list_ex (desc_for_object desc) wants then
        (False, map2 (\<lambda>want saw. desc_for_object desc want \<or> saw) wants seen, rt)
      else (False, seen, mem_service_stash_pending_desc rt i desc))"

fun wait_objects_rounds ::
  "u16 \<Rightarrow> wanted \<Rightarrow> nat \<Rightarrow> cluster_round list \<Rightarrow> bool list \<Rightarrow> mem_service_cluster_runtime \<Rightarrow>
   int \<times> mem_service_cluster_runtime" where
  "wait_objects_rounds epoch wants i [] seen rt = (-1, rt)"
| "wait_objects_rounds epoch wants i (round # rounds) seen rt =
     (case take_pending_wanted (int i) epoch wants seen (arrive i (rd_arrivals round i) rt) of
        (seen1, rt1) \<Rightarrow>
          (case drain_ingress (ingress_bound rt1 (int i)) (rd_env round) (int i) (objects_body epoch wants (int i)) seen1 rt1 of
             (_, seen2, rt2) \<Rightarrow>
               if list_all id seen2 then (0, rt2) else wait_objects_rounds epoch wants i rounds seen2 rt2))"

definition mem_service_wait_remote_obmm_object_descs ::
  "cluster_round list \<Rightarrow> mem_service_cluster_runtime \<Rightarrow> u32 \<Rightarrow> u16 \<Rightarrow> mem_service_record \<Rightarrow> mem_service_record \<Rightarrow>
   mem_service_record \<Rightarrow> mem_service_record \<Rightarrow> int \<times> mem_service_cluster_runtime" where
  "mem_service_wait_remote_obmm_object_descs rounds rt owner_node epoch weight kvcache hidden_input hidden_output =
     (if int (unat owner_node) \<ge> rt_node_count rt \<or> rt_ingress_queues rt ! unat owner_node = None then (-1, rt)
      else wait_objects_rounds epoch [(1, weight), (2, kvcache), (3, hidden_input), (4, hidden_output)]
        (unat owner_node) rounds [False, False, False, False] rt)"

section \<open>A ring that works\<close>

text \<open>The ring of a peer lies in the region of the local node and the kernel accepts its cache
  maintenance.\<close>

definition ring_ready :: "region_env \<Rightarrow> mem_service_cluster_runtime \<Rightarrow> nat \<Rightarrow> bool" where
  "ring_ready env rt i \<longleftrightarrow>
     int i < rt_node_count rt \<and> int i \<noteq> rt_local_idx rt \<and> 0 \<le> rt_local_idx rt \<and> rt_local_idx rt < rt_node_count rt \<and>
     rt_ingress_queue_base rt \<noteq> 0 \<and> i < length (rt_ingress_queues rt) \<and> i < length (rt_pending_descs rt) \<and>
     (case rt_ingress_queues rt ! i of
        None \<Rightarrow> False
      | Some q \<Rightarrow> spsc_wf q \<and> rt_ingress_offsets rt ! i \<le> rt_region_size rt \<and>
          obmm_queue_region_size (q_size q) \<le> rt_region_size rt - rt_ingress_offsets rt ! i) \<and>
     0 \<le> reg_fd (slot_region (rt_slots rt ! nat (rt_local_idx rt))) \<and>
     (slot_map_osync (rt_slots rt ! nat (rt_local_idx rt)) \<or> (\<forall>start fin for_write. env_update_range env start fin for_write))"

definition in_ring :: "mem_service_cluster_runtime \<Rightarrow> nat \<Rightarrow> obmm_desc list" where
  "in_ring rt i = (case rt_ingress_queues rt ! i of None \<Rightarrow> [] | Some q \<Rightarrow> spsc_contents q)"

definition pending :: "mem_service_cluster_runtime \<Rightarrow> nat \<Rightarrow> obmm_desc list" where
  "pending rt i = rt_pending_descs rt ! i"

text \<open>Every cache maintenance of a pop lies within the region.\<close>

lemma queue_region_size: "spsc_wf q \<Longrightarrow> unat (obmm_queue_region_size (q_size q)) = 192 + 32 * spsc_depth q"
proof -
  assume "spsc_wf q"
  then have "unat (q_size q) \<le> 65536" using spsc_depth_less [of q] by (simp add: spsc_depth_def)
  then have "unat (ucast (q_size q) * 32 :: u64) = 32 * unat (q_size q)"
    by (simp add: unat_word_ariths unsigned_ucast_eq take_bit_eq_mod)
  moreover have "obmm_align_up_u64 192 64 = (192 :: u64)" by (simp add: obmm_align_up_u64_def)
  ultimately show ?thesis
    using \<open>unat (q_size q) \<le> 65536\<close>
    by (simp add: obmm_queue_region_size_def sizeof_obmm_spsc_queue_def sizeof_obmm_desc_def spsc_depth_def unat_word_ariths)
qed


lemma update_region_ok:
  assumes "0 \<le> reg_fd (slot_region slot)" "reg_addr (slot_region slot) \<noteq> 0"
    and "slot_map_osync slot \<or> (\<forall>start fin for_write. env_update_range env start fin for_write)"
    and "len \<noteq> 0" "unat offset + unat len \<le> unat (reg_len (slot_region slot))"
  shows "mem_service_update_region_range_at env slot offset len for_write"
proof -
  have "unat (offset + len) = unat offset + unat len"
    using assms(5) unsigned_less [where ?'a = nat, of "reg_len (slot_region slot)"] by (simp add: unat_word_ariths)
  then have "\<not> offset + len > reg_len (slot_region slot)" using assms(5) by (simp add: word_less_nat_alt)
  then show ?thesis using assms(1-4) by (auto simp: mem_service_update_region_range_at_def Let_def)
qed

lemma ring_readyD:
  assumes "ring_ready env rt i"
  obtains q where "rt_ingress_queues rt ! i = Some q" "spsc_wf q" "rt_ingress_offsets rt ! i \<le> rt_region_size rt"
    "obmm_queue_region_size (q_size q) \<le> rt_region_size rt - rt_ingress_offsets rt ! i"
  using assms by (auto simp: ring_ready_def split: option.splits)

lemma pop_ring_offsets:
  fixes q :: obmm_spsc_queue and base size :: u64
  assumes "spsc_wf q" "base \<le> size" "obmm_queue_region_size (q_size q) \<le> size - base"
  shows "unat (base + offsetof_desc + ucast (q_head q AND q_mask q) * sizeof_obmm_desc) + 32 \<le> unat size"
    "unat (base + offsetof_tail) + 4 \<le> unat size" "unat (base + offsetof_head) + 4 \<le> unat size"
proof -
  let ?k = "unat (q_head q AND q_mask q)"
  have k: "?k < spsc_depth q"
    using slot_index_add [OF assms(1), of 0] depth_ok_power [of "q_size q"] assms(1) by (auto simp: spsc_wf_def spsc_depth_def)
  have room: "unat base + 192 + 32 * spsc_depth q \<le> unat size"
    using assms(2,3) queue_region_size [OF assms(1)] by (simp add: word_le_nat_alt unat_sub)
  have top: "unat size < 2 ^ 64" using unsigned_less [where ?'a = nat, of size] by simp
  have d: "spsc_depth q \<le> 65536" by (rule spsc_depth_less [OF assms(1)])
  have "unat (ucast (q_head q AND q_mask q) * 32 :: u64) = ?k * 32"
    using k d by (simp add: unat_word_ariths unsigned_ucast_eq take_bit_eq_mod)
  moreover have "unat (base + 192) = unat base + 192" using room top by (simp add: unat_word_ariths)
  ultimately have "unat (base + 192 + ucast (q_head q AND q_mask q) * 32) = unat base + 192 + ?k * 32"
    using room top k by (simp add: unat_word_ariths)
  then show "unat (base + offsetof_desc + ucast (q_head q AND q_mask q) * sizeof_obmm_desc) + 32 \<le> unat size"
    using room k by (simp add: offsetof_desc_def sizeof_obmm_desc_def)
  show "unat (base + offsetof_tail) + 4 \<le> unat size" "unat (base + offsetof_head) + 4 \<le> unat size"
    using room top by (simp_all add: offsetof_tail_def offsetof_head_def unat_word_ariths)
qed

text \<open>A pop takes the oldest descriptor of the ring.\<close>

lemma pop_ready:
  assumes ready: "ring_ready env rt i"
  shows "in_ring rt i = [] \<Longrightarrow> mem_service_pop_ingress_desc env rt (int i) = (Ingress_empty, rt)"
    and "in_ring rt i = d # ds \<Longrightarrow> \<exists>rt'. mem_service_pop_ingress_desc env rt (int i) = (Ingress_desc d, rt') \<and>
      (\<forall>env'. ring_ready env' rt' i = ring_ready env' rt i) \<and> in_ring rt' i = ds \<and> pending rt' i = pending rt i"
proof -
  from ready obtain q where q: "rt_ingress_queues rt ! i = Some q" "spsc_wf q"
    and fits: "rt_ingress_offsets rt ! i \<le> rt_region_size rt"
      "obmm_queue_region_size (q_size q) \<le> rt_region_size rt - rt_ingress_offsets rt ! i"
    by (rule ring_readyD)
  note R = ready [unfolded ring_ready_def]
  note off = pop_ring_offsets [OF q(2) fits]
  let ?slot = "rt_slots rt ! nat (rt_local_idx rt)"
  let ?full = "?slot \<lparr> slot_region := (slot_region ?slot) \<lparr> reg_addr := rt_ingress_queue_base rt, reg_len := rt_region_size rt \<rparr> \<rparr>"
  have sync: "mem_service_update_region_range_at env ?full
        (rt_ingress_offsets rt ! i + offsetof_desc + ucast (q_head q AND q_mask q) * sizeof_obmm_desc) sizeof_obmm_desc w"
      "mem_service_update_region_range_at env ?full (rt_ingress_offsets rt ! i + offsetof_tail) 4 w"
      "mem_service_update_region_range_at env ?full (rt_ingress_offsets rt ! i + offsetof_head) 4 w" for w
    by (rule update_region_ok; use R off in \<open>simp add: sizeof_obmm_desc_def\<close>)+
  have run: "mem_service_pop_ingress_desc env rt (int i) =
      (case obmm_spsc_pop q of (None, q') \<Rightarrow> (Ingress_empty, rt)
       | (Some d, q') \<Rightarrow> (Ingress_desc d, rt \<lparr> rt_ingress_queues := (rt_ingress_queues rt)[i := Some q'] \<rparr>))"
    using R q fits sync
    by (auto simp: mem_service_pop_ingress_desc_def Let_def linorder_not_less split: option.splits prod.splits)
  show "in_ring rt i = [] \<Longrightarrow> mem_service_pop_ingress_desc env rt (int i) = (Ingress_empty, rt)"
    using run spsc.pop_empty [OF q(2)] q(1) by (simp add: in_ring_def)
  assume "in_ring rt i = d # ds"
  then have "spsc_contents q = d # ds" using q(1) by (simp add: in_ring_def)
  from spsc.pop_first [OF q(2) this] obtain q' where
    q': "obmm_spsc_pop q = (Some d, q')" "spsc_wf q'" "spsc_contents q' = ds" by blast
  have same: "q_size q' = q_size q" using q'(1) by (auto simp: obmm_spsc_pop_def Let_def split: if_splits)
  show "\<exists>rt'. mem_service_pop_ingress_desc env rt (int i) = (Ingress_desc d, rt') \<and>
      (\<forall>env'. ring_ready env' rt' i = ring_ready env' rt i) \<and> in_ring rt' i = ds \<and> pending rt' i = pending rt i"
    using run q' q R same by (auto simp: in_ring_def pending_def ring_ready_def)
qed


section \<open>Nothing is lost while a node waits\<close>

lemma stash_ready:
  fixes d :: obmm_desc
  assumes "ring_ready env rt i" "length (pending rt i) < MEM_SERVICE_CLUSTER_PENDING_DESC_DEPTH"
  defines "rt' \<equiv> mem_service_stash_pending_desc rt (int i) d"
  shows "pending rt' i = pending rt i @ [d]" "in_ring rt' i = in_ring rt i"
    "ring_ready env' rt' i = ring_ready env' rt i"
  using assms(1,2)
  by (auto simp: rt'_def mem_service_stash_pending_desc_def Let_def pending_def in_ring_def ring_ready_def
      split: option.splits)

lemma push_all:
  assumes "spsc_wf q" "length (spsc_contents q) + length ds \<le> spsc_depth q"
  defines "q' \<equiv> fold (\<lambda>d q. snd (obmm_spsc_push q d)) ds q"
  shows "spsc_wf q'" "spsc_contents q' = spsc_contents q @ ds" "spsc_depth q' = spsc_depth q"
  using assms(1,2) unfolding q'_def
proof (induction ds arbitrary: q)
  case (Cons d ds)
  { case 1 with spsc.push_room [of q d] Cons.IH(1) show ?case by fastforce
  next case 2 with spsc.push_room [of q d] Cons.IH(2) show ?case by fastforce
  next case 3 with spsc.push_room [of q d] Cons.IH(3) show ?case by fastforce }
qed simp_all

lemma arrive_ready:
  assumes ready: "ring_ready env rt i" and room: "length (in_ring rt i) + length ds \<le> 64"
  defines "rt' \<equiv> arrive i ds rt"
  shows "in_ring rt' i = in_ring rt i @ ds" "pending rt' i = pending rt i" "ring_ready env' rt' i = ring_ready env' rt i"
proof -
  from ready obtain q where q: "rt_ingress_queues rt ! i = Some q" "spsc_wf q" by (rule ring_readyD)
  have "64 \<le> spsc_depth q"
    using q(2) by (auto simp: spsc_wf_def depth_ok_def spsc_depth_def OBMM_QUEUE_MIN_DEPTH_def word_le_nat_alt linorder_not_less)
  then have "length (spsc_contents q) + length ds \<le> spsc_depth q" using room q(1) by (simp add: in_ring_def)
  note P = push_all [OF q(2) this]
  have "unat (q_size (fold (\<lambda>d q. snd (obmm_spsc_push q d)) ds q)) = unat (q_size q)" using P(3) by (simp add: spsc_depth_def)
  then have size: "q_size (fold (\<lambda>d q. snd (obmm_spsc_push q d)) ds q) = q_size q" using word_eq_iff_unsigned by blast
  show "in_ring rt' i = in_ring rt i @ ds" "pending rt' i = pending rt i" "ring_ready env' rt' i = ring_ready env' rt i"
    using ready q P size by (auto simp: rt'_def arrive_def in_ring_def pending_def ring_ready_def)
qed

lemma take_first_None: "take_first P xs = None \<longleftrightarrow> (\<forall>x\<in>set xs. \<not> P x)"
  by (induction xs) auto

lemma take_first_append:
  "take_first P (xs @ ys) =
     (case take_first P xs of
        Some (a, rest) \<Rightarrow> Some (a, rest @ ys)
      | None \<Rightarrow> map_option (\<lambda>(a, rest). (a, xs @ rest)) (take_first P ys))"
  by (induction xs) (auto simp: option.map_comp comp_def map_option_case split: option.splits)

text \<open>Draining the ring for an acknowledgement: either it is there, then the first one is taken out and
  the rest stays in order, or the whole ring is pending.\<close>

lemma drain_ack:
  assumes "ring_ready env rt i" "length (in_ring rt i) < n"
    and "length (pending rt i) + length (in_ring rt i) \<le> MEM_SERVICE_CLUSTER_PENDING_DESC_DEPTH"
    and "drain_ingress n env (int i) (ack_body put (int i)) () rt = (found, u, rt')"
  defines "acks \<equiv> \<lambda>d. mem_service_object_ack_matches d put"
  shows "(\<forall>env'. ring_ready env' rt' i = ring_ready env' rt i) \<and>
    (found \<longrightarrow> (\<exists>a rest. take_first acks (in_ring rt i) = Some (a, rest) \<and>
       pending rt' i @ in_ring rt' i = pending rt i @ rest)) \<and>
    (\<not> found \<longrightarrow> take_first acks (in_ring rt i) = None \<and>
       pending rt' i = pending rt i @ in_ring rt i \<and> in_ring rt' i = [])"
  using assms(1-4)
proof (induction n arbitrary: rt)
  case (Suc n)
  note ready = Suc.prems(1)
  show ?case
  proof (cases "in_ring rt i")
    case Nil
    then show ?thesis using pop_ready(1) [OF ready] Suc.prems(4) by auto
  next
    case (Cons d ds)
    from pop_ready(2) [OF ready Cons] obtain rt1 where pop: "mem_service_pop_ingress_desc env rt (int i) = (Ingress_desc d, rt1)"
      and rt1: "\<forall>env'. ring_ready env' rt1 i = ring_ready env' rt i" "in_ring rt1 i = ds" "pending rt1 i = pending rt i" by blast
    show ?thesis
    proof (cases "acks d")
      case True
      then have "found" "rt' = rt1" using Suc.prems(4) pop by (auto simp: ack_body_def acks_def)
      then show ?thesis using rt1 Cons True by simp
    next
      case False
      let ?rt2 = "mem_service_stash_pending_desc rt1 (int i) d"
      have "ring_ready env rt1 i" "length (pending rt1 i) < MEM_SERVICE_CLUSTER_PENDING_DESC_DEPTH"
        using rt1 ready Suc.prems(3) Cons by simp_all
      note S = stash_ready [OF this]
      have "ack_body put (int i) d () rt1 = (False, (), ?rt2)" using False by (simp add: ack_body_def acks_def)
      then have w: "drain_ingress n env (int i) (ack_body put (int i)) () ?rt2 = (found, u, rt')"
        using Suc.prems(4) pop by simp
      have "ring_ready env ?rt2 i" "length (in_ring ?rt2 i) < n"
        "length (pending ?rt2 i) + length (in_ring ?rt2 i) \<le> MEM_SERVICE_CLUSTER_PENDING_DESC_DEPTH"
        using S rt1 Suc.prems Cons by simp_all
      from Suc.IH [OF this w] show ?thesis using S rt1 Cons False by auto
    qed
  qed
qed simp

lemma take_pending_ready:
  assumes "ring_ready env rt i" "take_pending P rt (int i) = (d, rt')"
  shows "in_ring rt' i = in_ring rt i" "ring_ready env' rt' i = ring_ready env' rt i"
    "case d of None \<Rightarrow> rt' = rt \<and> take_first P (pending rt i) = None
     | Some a \<Rightarrow> take_first P (pending rt i) = Some (a, pending rt' i)"
  using assms by (auto simp: take_pending_def in_ring_def pending_def ring_ready_def split: option.splits)

text \<open>What a node knows of a peer: the pending descriptors, the ring, and what arrives in the rounds.\<close>

definition heard :: "mem_service_cluster_runtime \<Rightarrow> nat \<Rightarrow> cluster_round list \<Rightarrow> obmm_desc list" where
  "heard rt i rounds = pending rt i @ in_ring rt i @ concat (map (\<lambda>r. rd_arrivals r i) rounds)"

text \<open>One round: an acknowledgement that was heard is taken, else everything heard is pending.\<close>

lemma wait_ack_round:
  fixes put :: obmm_desc
  assumes ready: "ring_ready (rd_env r) rt i"
    and bound: "length (heard rt i [r]) \<le> MEM_SERVICE_CLUSTER_PENDING_DESC_DEPTH"
  defines "acks \<equiv> \<lambda>d. mem_service_object_ack_matches d put"
  obtains (acked) a rt1 where "wait_ack_rounds put i (r # rounds) rt = (0, rt1)"
      "take_first acks (heard rt i [r]) = Some (a, pending rt1 i @ in_ring rt1 i)"
    | (silent) rt1 where "wait_ack_rounds put i (r # rounds) rt = wait_ack_rounds put i rounds rt1"
      "take_first acks (heard rt i [r]) = None" "\<forall>env'. ring_ready env' rt1 i = ring_ready env' rt i"
      "pending rt1 i = heard rt i [r]" "in_ring rt1 i = []"
proof -
  let ?rt0 = "arrive i (rd_arrivals r i) rt"
  have "length (in_ring rt i) + length (rd_arrivals r i) \<le> 64"
    using bound by (simp add: heard_def MEM_SERVICE_CLUSTER_PENDING_DESC_DEPTH_def)
  note A = arrive_ready [OF ready this]
  have ready0: "ring_ready (rd_env r) ?rt0 i" using A(3) ready by simp
  have heard: "heard rt i [r] = pending ?rt0 i @ in_ring ?rt0 i" using A by (simp add: heard_def)
  obtain d rt1 where t: "take_pending acks ?rt0 (int i) = (d, rt1)" by (metis surj_pair)
  note T = take_pending_ready [OF ready0 t]
  have first: "mem_service_take_pending_object_ack ?rt0 (int i) put = (d \<noteq> None, rt1)"
    using t by (simp add: mem_service_take_pending_object_ack_def acks_def)
  show thesis
  proof (cases d)
    case (Some a)
    then show thesis using first T heard by (intro acked [of rt1 a]) (auto simp: take_first_append)
  next
    case None
    then have rt1: "rt1 = ?rt0" "take_first acks (pending ?rt0 i) = None" using T(3) by simp_all
    obtain f u rt2 where w: "drain_ingress (ingress_bound rt1 (int i)) (rd_env r) (int i) (ack_body put (int i)) () rt1 = (f, u, rt2)"
      by (metis surj_pair)
    have "length (in_ring rt1 i) < ingress_bound rt1 (int i)"
      by (auto simp: ingress_bound_def in_ring_def obmm_spsc_available_def split: option.splits)
    moreover have "length (pending rt1 i) + length (in_ring rt1 i) \<le> MEM_SERVICE_CLUSTER_PENDING_DESC_DEPTH"
      using bound rt1(1) heard by simp
    ultimately have D: "(\<forall>env'. ring_ready env' rt2 i = ring_ready env' rt1 i) \<and>
      (f \<longrightarrow> (\<exists>a rest. take_first acks (in_ring rt1 i) = Some (a, rest) \<and> pending rt2 i @ in_ring rt2 i = pending rt1 i @ rest)) \<and>
      (\<not> f \<longrightarrow> take_first acks (in_ring rt1 i) = None \<and> pending rt2 i = pending rt1 i @ in_ring rt1 i \<and> in_ring rt2 i = [])"
      using drain_ack [OF _ _ _ w] ready0 rt1(1) by (simp add: acks_def)
    show thesis
    proof (cases f)
      case True
      then obtain a rest where "take_first acks (in_ring rt1 i) = Some (a, rest)" "pending rt2 i @ in_ring rt2 i = pending rt1 i @ rest"
        using D by blast
      then show thesis using first None w True rt1 heard by (intro acked [of rt2 a]) (auto simp: take_first_append)
    next
      case False
      then show thesis using first None w rt1 heard D A(3) by (intro silent [of rt2]) (auto simp: take_first_append)
    qed
  qed
qed

lemma wait_ack:
  assumes "\<forall>r\<in>set rounds. ring_ready (rd_env r) rt i" "length (heard rt i rounds) \<le> MEM_SERVICE_CLUSTER_PENDING_DESC_DEPTH"
    and "wait_ack_rounds put i rounds rt = (rc, rt')"
  defines "acks \<equiv> \<lambda>d. mem_service_object_ack_matches d put"
  shows "(rc = 0 \<and> (\<exists>m\<le>length rounds. \<exists>a. take_first acks (heard rt i (take m rounds)) = Some (a, pending rt' i @ in_ring rt' i))) \<or>
    (rc = -1 \<and> (rounds \<noteq> [] \<longrightarrow> take_first acks (heard rt i rounds) = None) \<and>
      pending rt' i @ in_ring rt' i = heard rt i rounds)"
  using assms(1-3)
proof (induction rounds arbitrary: rt)
  case Nil
  then show ?case by (auto simp: heard_def)
next
  case (Cons r rounds)
  have "ring_ready (rd_env r) rt i" "length (heard rt i [r]) \<le> MEM_SERVICE_CLUSTER_PENDING_DESC_DEPTH"
    using Cons.prems(1,2) by (auto simp: heard_def)
  then show ?case
  proof (cases rule: wait_ack_round [where put = put and rounds = rounds])
    case (acked a rt1)
    then show ?thesis using Cons.prems(3) by (intro disjI1 conjI exI [of _ 1] exI [of _ a]) (auto simp: acks_def)
  next
    case (silent rt1)
    have h: "heard rt i (r # rs) = heard rt1 i rs" for rs using silent(4,5) by (simp add: heard_def)
    have "\<forall>r\<in>set rounds. ring_ready (rd_env r) rt1 i" "wait_ack_rounds put i rounds rt1 = (rc, rt')"
      using silent(1,3) Cons.prems by auto
    from Cons.IH [OF this(1) _ this(2)] Cons.prems(2) h [of rounds]
    have IH: "(rc = 0 \<and> (\<exists>m\<le>length rounds. \<exists>a. take_first acks (heard rt1 i (take m rounds)) = Some (a, pending rt' i @ in_ring rt' i))) \<or>
      (rc = -1 \<and> (rounds \<noteq> [] \<longrightarrow> take_first acks (heard rt1 i rounds) = None) \<and>
        pending rt' i @ in_ring rt' i = heard rt1 i rounds)" by simp
    have "take_first acks (heard rt i [r]) = None" using silent(2) by (simp add: acks_def)
    then show ?thesis using IH h
      by (cases "rounds = []") (auto intro!: exI [of _ "Suc _"])
  qed
qed


lemma ack_matches_iff:
  "d_type put = OBMM_DESC_MEM_SERVICE_OBJECT_PUT \<Longrightarrow>
   mem_service_object_ack_matches a put \<longleftrightarrow> a = put \<lparr> d_type := OBMM_DESC_MEM_SERVICE_OBJECT_GET \<rparr>"
  by (cases a, cases put) (auto simp: mem_service_object_ack_matches_def)

lemma take_first_eq:
  "take_first (\<lambda>x. x = b) xs = Some (a, rest) \<Longrightarrow> \<exists>ys zs. xs = ys @ b # zs \<and> b \<notin> set ys \<and> rest = ys @ zs"
proof (induction xs arbitrary: rest)
  case (Cons x xs)
  show ?case
  proof (cases "x = b")
    case True
    then show ?thesis using Cons.prems by (intro exI [of _ "[]"] exI [of _ xs]) auto
  next
    case False
    then obtain r where r: "take_first (\<lambda>x. x = b) xs = Some (a, r)" "rest = x # r" using Cons.prems by auto
    from Cons.IH [OF r(1)] obtain ys zs where "xs = ys @ b # zs" "b \<notin> set ys" "r = ys @ zs" by blast
    then show ?thesis using r(2) False by (intro exI [of _ "x # ys"] exI [of _ zs]) auto
  qed
qed simp

text \<open>C17. Waiting for the acknowledgement of an object. While the ring of the peer works and at most as many
  descriptors are heard as can be pending, the wait succeeds exactly when a round takes place and the
  acknowledgement, the descriptor of the object with the type changed, is among the descriptors
  pending, in the ring or arriving; it then takes out the first acknowledgement heard and keeps every
  other descriptor in order. When it gives up, it has kept everything.\<close>

theorem object_ack_wait_exact:
  assumes ready: "\<forall>r\<in>set rounds. ring_ready (rd_env r) rt (unat source)" "int (unat source) < rt_node_count rt"
      "int (unat source) \<noteq> rt_local_idx rt"
    and args: "len \<le> UINT32_MAX" "kind \<le> 0xffff"
    and bound: "length (heard rt (unat source) rounds) \<le> MEM_SERVICE_CLUSTER_PENDING_DESC_DEPTH"
    and run: "mem_service_wait_obmm_object_ack_from rounds rt source kind off len checksum epoch = (rc, rt')"
  defines "ack \<equiv> (object_put_desc rt kind off len checksum epoch) \<lparr> d_type := OBMM_DESC_MEM_SERVICE_OBJECT_GET \<rparr>"
  shows "rc \<in> {0, -1} \<and> (rc = 0 \<longleftrightarrow> rounds \<noteq> [] \<and> ack \<in> set (heard rt (unat source) rounds)) \<and>
    (rc = 0 \<longrightarrow> (\<exists>m\<le>length rounds. \<exists>xs ys. heard rt (unat source) (take m rounds) = xs @ ack # ys \<and> ack \<notin> set xs \<and>
       pending rt' (unat source) @ in_ring rt' (unat source) = xs @ ys)) \<and>
    (rc = -1 \<longrightarrow> pending rt' (unat source) @ in_ring rt' (unat source) = heard rt (unat source) rounds)"
proof -
  let ?i = "unat source" and ?put = "object_put_desc rt kind off len checksum epoch"
  have acks: "(\<lambda>d. mem_service_object_ack_matches d ?put) = (\<lambda>d. d = ack)"
    by (rule ext) (simp add: ack_matches_iff ack_def object_put_desc_def)
  have w: "wait_ack_rounds ?put ?i rounds rt = (rc, rt')"
    using run ready(2,3) leD [OF args(1)] leD [OF args(2)] by (simp add: mem_service_wait_obmm_object_ack_from_def)
  have sub: "set (heard rt ?i (take m rounds)) \<subseteq> set (heard rt ?i rounds)" for m
    by (auto simp: heard_def dest: in_set_takeD)
  have none: "rc \<noteq> 0" if "rounds = []" using w that by simp
  from wait_ack [OF ready(1) bound w, unfolded acks]
  consider (ok) m a where "rc = 0" "m \<le> length rounds"
      "take_first (\<lambda>d. d = ack) (heard rt ?i (take m rounds)) = Some (a, pending rt' ?i @ in_ring rt' ?i)"
    | (gave_up) "rc = -1" "rounds \<noteq> [] \<longrightarrow> ack \<notin> set (heard rt ?i rounds)"
      "pending rt' ?i @ in_ring rt' ?i = heard rt ?i rounds"
    by (auto simp: take_first_None)
  then show ?thesis
  proof cases
    case ok
    from take_first_eq [OF ok(3)] obtain xs ys where x: "heard rt ?i (take m rounds) = xs @ ack # ys" "ack \<notin> set xs"
      "pending rt' ?i @ in_ring rt' ?i = xs @ ys" by blast
    then have "ack \<in> set (heard rt ?i rounds)" using sub [of m] by auto
    then show ?thesis using ok(1,2) x none by auto
  qed auto
qed

text \<open>What the peer sends with \<open>mem_service_ack_obmm_object_desc_to\<close> is that descriptor.\<close>

lemma push_retry_ok:
  "spsc_wf q \<Longrightarrow> push_retry q d taken = (True, q') \<Longrightarrow> \<exists>ds. spsc_contents q' = ds @ [d]"
proof (induction q d taken rule: push_retry.induct)
  case (1 q d taken)
  have pops: "spsc_wf (((\<lambda>q. snd (obmm_spsc_pop q)) ^^ n) q)" for n
  proof (induction n)
    case (Suc n)
    then show ?case using Suc by (cases rule: spsc.pop_cases) simp_all
  qed (simp add: "1.prems"(1))
  from "1.prems"(1) show ?case
  proof (cases rule: spsc.push_cases [where x = d])
    case full
    then obtain n taken' where t: "taken = n # taken'" using "1.prems"(2) by (cases taken) (auto split: obmm_rc.splits)
    have "push_retry (((\<lambda>q. snd (obmm_spsc_pop q)) ^^ n) q) d taken' = (True, q')"
      using "1.prems"(2) full t by (subst (asm) push_retry.simps) simp
    then show ?thesis using "1.IH" [OF full(1) [symmetric]] full t pops by auto
  next
    case (room q1)
    have "q' = q1" using "1.prems"(2) room(1) by (subst (asm) push_retry.simps) simp
    then show ?thesis using room(4) by simp
  qed
qed


lemma ack_sends:
  assumes "mem_service_ack_obmm_object_desc_to activate taken rt target put = (0, rt')"
    and "rt_egress_queues rt ! unat target = Some q" "spsc_wf q" "unat target < length (rt_egress_queues rt)"
  shows "\<exists>q' ds. rt_egress_queues rt' ! unat target = Some q' \<and>
    spsc_contents q' = ds @ [put \<lparr> d_type := OBMM_DESC_MEM_SERVICE_OBJECT_GET \<rparr>]"
proof -
  obtain q' where "push_retry q (put \<lparr> d_type := OBMM_DESC_MEM_SERVICE_OBJECT_GET \<rparr>) taken = (True, q')"
    "rt' = rt \<lparr> rt_egress_queues := (rt_egress_queues rt)[unat target := Some q'] \<rparr>"
    using assms(1,2)
    by (auto simp: mem_service_ack_obmm_object_desc_to_def egress_to_def Let_def simp del: push_retry.simps
        split: if_splits prod.splits)
  with push_retry_ok [OF assms(3) this(1)] show ?thesis using assms(4) by auto
qed

section \<open>An example\<close>

definition demo_ring :: obmm_spsc_queue where
  "demo_ring = the (obmm_spsc_queue_init 64)"

definition demo_cluster :: mem_service_cluster_runtime where
  "demo_cluster = demo_runtime
     \<lparr> rt_region_size := 4096, rt_ingress_queues := [None, Some demo_ring], rt_egress_queues := [None, Some demo_ring] \<rparr>"

definition demo_round :: "obmm_desc list \<Rightarrow> cluster_round" where
  "demo_round ds =
     \<lparr> rd_arrivals = (\<lambda>i. if i = 1 then ds else []),
       rd_env = \<lparr> env_page_size = 4096, env_update_range = (\<lambda>_ _ _. True) \<rparr> \<rparr>"

lemma demo_ring_facts: "spsc_wf demo_ring" "spsc_contents demo_ring = []" "q_size demo_ring = 64"
proof -
  have ok: "depth_ok 64" by (simp add: depth_ok_def OBMM_QUEUE_MIN_DEPTH_def OBMM_QUEUE_MAX_DEPTH_def)
  then have q: "obmm_spsc_queue_init 64 = Some demo_ring" by (simp add: demo_ring_def obmm_spsc_queue_init_def)
  show "spsc_wf demo_ring" "spsc_contents demo_ring = []" using init_wf [OF q] by simp_all
  show "q_size demo_ring = 64" using ok by (simp add: demo_ring_def obmm_spsc_queue_init_def)
qed

lemma demo_ring_ready: "ring_ready (rd_env (demo_round ds)) demo_cluster 1"
  by (simp add: ring_ready_def demo_cluster_def demo_runtime_def demo_round_def demo_ring_facts obmm_queue_region_size_def
      sizeof_obmm_spsc_queue_def sizeof_obmm_desc_def obmm_align_up_u64_def)

theorem object_ack_wait_exact_witness:
  "fst (mem_service_wait_obmm_object_ack_from
     [demo_round [zero_desc, (object_put_desc demo_cluster 2 0x200000 64 99 1) \<lparr> d_type := OBMM_DESC_MEM_SERVICE_OBJECT_GET \<rparr>]]
     demo_cluster 1 2 0x200000 64 99 1) = 0"
proof -
  let ?ack = "(object_put_desc demo_cluster 2 0x200000 64 99 1) \<lparr> d_type := OBMM_DESC_MEM_SERVICE_OBJECT_GET \<rparr>"
  let ?rounds = "[demo_round [zero_desc, ?ack]]"
  obtain rc rt' where run: "mem_service_wait_obmm_object_ack_from ?rounds demo_cluster 1 2 0x200000 64 99 1 = (rc, rt')"
    by (metis surj_pair)
  have h: "heard demo_cluster 1 ?rounds = [zero_desc, ?ack]"
    by (simp add: heard_def pending_def in_ring_def demo_cluster_def demo_runtime_def demo_round_def demo_ring_facts)
  have "rc = 0 \<longleftrightarrow> ?rounds \<noteq> [] \<and> ?ack \<in> set (heard demo_cluster (unat (1 :: u32)) ?rounds)"
    by (rule object_ack_wait_exact [OF _ _ _ _ _ _ run, THEN conjunct2, THEN conjunct1])
       (use h demo_ring_ready in \<open>simp_all add: MEM_SERVICE_CLUSTER_PENDING_DESC_DEPTH_def UINT32_MAX_def demo_cluster_def demo_runtime_def\<close>)
  then show ?thesis using run h by simp
qed

section \<open>What can go wrong\<close>

text \<open>With the list of pending descriptors full, a descriptor that is not waited for is lost; so is one
  whose pop is followed by a failed write-back of the head; and a peer whose ring was not mapped is
  passed over by the barrier.\<close>

lemma full_pending_loses_desc:
  assumes "ring_ready env rt i" "in_ring rt i = [d]" "\<not> mem_service_object_ack_matches d put"
    and "length (pending rt i) \<ge> MEM_SERVICE_CLUSTER_PENDING_DESC_DEPTH"
    and "drain_ingress 2 env (int i) (ack_body put (int i)) () rt = (found, u, rt')"
  shows "\<not> found \<and> in_ring rt' i = [] \<and> pending rt' i = pending rt i"
proof -
  from pop_ready(2) [OF assms(1,2)] obtain rt1 where pop: "mem_service_pop_ingress_desc env rt (int i) = (Ingress_desc d, rt1)"
    and rt1: "\<forall>env'. ring_ready env' rt1 i = ring_ready env' rt i" "in_ring rt1 i = []" "pending rt1 i = pending rt i" by blast
  have "mem_service_stash_pending_desc rt1 (int i) d = rt1"
    using assms(4) rt1(3) by (simp add: mem_service_stash_pending_desc_def pending_def)
  then have "ack_body put (int i) d () rt1 = (False, (), rt1)" using assms(3) by (simp add: ack_body_def)
  moreover have "mem_service_pop_ingress_desc env rt1 (int i) = (Ingress_empty, rt1)" using pop_ready(1) rt1 assms(1) by blast
  ultimately show ?thesis using assms(5) pop rt1 by (simp add: numeral_2_eq_2)
qed

lemma failed_writeback_loses_desc:
  "map_prod id (\<lambda>rt. in_ring rt 1)
     (mem_service_pop_ingress_desc \<lparr> env_page_size = 4096, env_update_range = (\<lambda>_ _ for_write. \<not> for_write) \<rparr>
       (arrive 1 [zero_desc] demo_cluster) 1) = (Ingress_io, [])"
  by code_simp

lemma barrier_passes_unmapped_peers:
  "fst (mem_service_queue_barrier (\<lambda>_. []) [demo_round []] demo_runtime 6 1 1) = 0"
  by (simp add: mem_service_queue_barrier_def demo_runtime_def demo_round_def upt_rec arrive_def)

end
