(* ===== verification/Spec2Isabelle.thy ===== *)
theory Spec2Isabelle
  imports Client_Calls Provider_Fixture Expert_Cache Obmm_Mpsc Obmm_Spmc Typed_Payload Range_Flow Cluster_Queue
begin

text \<open>
  Verification library for the memory service (\<open>src/components/mem_service\<close>).

  \<^bold>\<open>The program.\<close> The memory service is a daemon that keeps metadata of KV-cache blocks, objects and
  training artifacts for inference and training nodes. Clients send framed requests over a socket;
  each request names an operation and carries a text payload of \<open>name=value\<close> lines. The daemon
  answers mutating requests at most once per idempotency key, keeps payloads as sealed blocks
  under a storage root, records an audit event for each mutating or refused request, prunes old
  records, and makes its tables durable in a store file with a journal.

  \<^bold>\<open>Theories, from the bottom.\<close>
  \<^item> \<open>Prelude\<close>: machine words, C strings, decimal printing, tables of slots (locale \<open>slot_table\<close>). Other
    interfaces: \<open>byte_fold\<close> (checksums, in \<open>Wire\<close>), \<open>keyed_store\<close> (in \<open>Records\<close>) and its extension
    \<open>bounded_store\<close> (in \<open>Store_Load\<close>), \<open>seq_ring\<close> (in \<open>Audit_Log\<close>).
  \<^item> \<open>Wire\<close>, \<open>Wire_Payload\<close>, \<open>Wire_Schema\<close> (\<open>mem_service_wire.h\<close>, \<open>mem_service_wire_payload.h\<close>,
    \<open>mem_service_wire_schema.h\<close>): header, checksum, field scanner and writers, the schema of every
    operation. Shown: what is appended is read back, numbers round trip, validation accepts exactly
    the payloads its definition describes, a changed byte changes the checksum.
  \<^item> \<open>Provider_Registry\<close> (\<open>mem_service_provider.c\<close>): registration, lookup, refresh, readiness.
  \<^item> \<open>Service_State\<close>, \<open>Records\<close>, \<open>Keys\<close>, \<open>Object_Refs\<close> (\<open>mem_service.h\<close>, \<open>mem_service_records.c\<close>,
    \<open>mem_service_keys.c\<close>, \<open>mem_service_object_refs.c\<close>): the state of the service as one record, the
    record table as a keyed store with invariant \<open>records_wf\<close>, key builders, object references.
  \<^item> \<open>Metadata\<close> (\<open>mem_service_metadata.c\<close>): every operation on prefixes, groups and blocks against an
    abstract map of records.
  \<^item> \<open>Ub_Ssd\<close>, \<open>Block_Store\<close> (\<open>mem_service_ub_ssd_gsva_backend.c\<close>, \<open>mem_service_daemon.c\<close>): payload blocks
    on files with faults: what is sealed validates, and a damaged file is a mismatch and leaves the
    name of its block.
  \<^item> \<open>Handlers\<close>: put, get, inspect and materialize objects, store and query artifacts, publish and
    resolve KV segments, register and look up prefixes.
  \<^item> \<open>Metrics\<close>, \<open>Idempotency\<close>, \<open>Audit_Log\<close>, \<open>Retention\<close>: what surrounds a handler: balanced counters,
    replay of retried requests as a decision on the map of completed requests (\<open>idem_wf\<close>), the
    audit ring as a bounded list of events (\<open>audit_wf\<close>), retention that terminates and removes only
    the oldest selected records.
  \<^item> \<open>Store_Text\<close>, \<open>Store_Load\<close>: the line format shared by store, journal and snapshot. A locale
    \<open>frame_reader\<close> states what a reader does with the printed frame of a record, an idempotency
    record or an audit event; it is interpreted for the snapshot, store and journal readers.
  \<^item> \<open>Snapshot\<close>: export, restore and staged restore. Shown: round trip, fail-closed restore, no partial
    restore is ever visible.
  \<^item> \<open>Durable_Store\<close>: store file and journal on files with faults. Shown: a saved store loads back,
    saving is atomic, the journal recovers every complete frame of an append cut off at a line end.
  \<^item> \<open>Dispatch\<close>, \<open>Requests\<close>, \<open>Responses\<close>, \<open>Metrics_Http\<close>: the dispatch of every operation with the quota
    estimates, the whole of a request (replay, quota, handler, retention, audit, journal, store,
    metrics), the size of every reply, the scrape endpoint. Shown: an acknowledged write is in the
    files, a tracked request executes once, replies fit their buffer, read-only operations change
    nothing, the quota bounds the table.
  \<^item> \<open>Startup\<close>: the storage root, its manifest and schema gate, and the daemon as a step relation
    (\<open>serving\<close>) whose invariant is proved by rule induction over start, requests and restarts.
  \<^item> \<open>Wire_Client\<close> (\<open>mem_service_wire_client.c\<close>): one exchange and the retry loop, connected to the
    modelled daemon over a link that may lose messages. Shown: the client gets the daemon's answer, and
    a retried request is executed once.
  \<^item> \<open>Client_Api\<close>, \<open>Client_Calls\<close> (\<open>mem_service_client.c\<close>): the typed calls of the client library over the
    wire client. Shown: the daemon decodes from a built payload exactly what the client gave, and a get
    returns the record of the daemon's table.
  \<^item> \<open>Block_Layouts\<close>, \<open>Block_Recovery\<close>: the payload blocks with several files (chunked, loopback and TCP
    transport), which instantiate the layout argument of \<open>Block_Store\<close>. Shown: round trip through
    chunks and manifest, validation that accepts exactly the recorded bytes or leaves nothing behind,
    copy-out, and in every layout collection and retention that keep the blocks of the other records.
  \<^item> \<open>Region_Codec\<close>, \<open>Provider_Channel\<close>, \<open>Provider_Fixture\<close> (\<open>mem_service_provider.c\<close>): the wire form of an
    exported memory region, the channel over the callbacks of a provider, and the in-memory provider.
    The locale \<open>transfer_provider\<close> states what the channel relies on; the fixture interprets it.
  \<^item> \<open>Expert_Cache\<close> (\<open>mem_service_expert_cache.c\<close>): the cache of experts as a list in order of recency;
    a larger cache is never slower on the same trace.
  \<^item> \<open>Obmm_Spsc\<close>, \<open>Obmm_Mpsc\<close>, \<open>Obmm_Spmc\<close> (\<open>src/libs/obmm_queue\<close>): the ring between one producer and one
    consumer, the lane sets and the bus built of rings, and the broadcast stream. The locale
    \<open>bounded_fifo\<close> is the contract of a ring. Shown: first in first out with the two sides
    interleaved and their loads of the other index stale, delivery in order through the bus, every
    consumer of a stream sees what was published, and only consumed payloads are reclaimed.
  \<^item> \<open>Typed_Payload\<close> (\<open>mem_service_daemon.c\<close>): the typed-binary payload codec. Shown: what the encoder
    accepts, that it is decoded again, and that cut or newer messages are refused.
  \<^item> \<open>Range_Flow\<close> (\<open>mem_service_profile.c\<close>, \<open>mem_service_deepseek_v4_flash.c\<close>): the request that places the
    layer ranges of a model on the nodes. Shown: requests are consistent whatever the geometry, and the
    ranges of the DeepSeek geometry tile the model.
  \<^item> \<open>Cluster_Runtime\<close>, \<open>Obmm_Objects\<close> (\<open>mem_service_guest_runtime.h\<close>, \<open>mem_service_obmm_objects.c\<close>,
    \<open>mem_service_qwen3_records.c\<close>): the payload arena, the records of OBMM objects and the recycling of
    old ones. Shown: ranges of the arena never overlap (for alignments and regions of at most \<open>2\<^sup>6\<^sup>2\<close>
    bytes); publishing a record replaces at most one
    record, and only one that may be recycled.
  \<^item> \<open>Cluster_Queue\<close> (\<open>mem_service_cluster_queue.c\<close>): descriptors between the nodes of a cluster over the rings
    of \<open>Obmm_Spsc\<close>: announcing, acknowledging, the barrier and the waiting loops, whose iterations before
    the deadline are given as rounds. Shown: a wait for an acknowledgement succeeds exactly when it was
    heard, and loses nothing else while the list of pending descriptors has room.

  \<^bold>\<open>Modelling decisions.\<close> A C string is a \<open>string\<close> without NUL; an array \<open>char[n]\<close> holds fewer than \<open>n\<close>
  characters, and a copy into it truncates as \<open>snprintf\<close> does. Guards against NULL arguments are not
  modelled: every argument is present. Pointers into the tables are indices, addresses of shared
  memory are numbers with 0 for NULL. A result code is an \<open>int\<close>, or an \<open>option\<close> when the caller discards
  the state on failure. Unsigned integers are words of their width; signed 64-bit fields are 64-bit
  words read in two's complement. Enumerations are datatypes with a constructor for codes outside of
  them. Clocks, file faults, the answers of \<open>mkdir\<close> and \<open>rmdir\<close>, TCP peers, sockets, the UB-SSD device and
  provider callbacks are arguments; what the theorems need of them is a named hypothesis with an
  instance in its witness. Theories below \<open>Block_Layouts\<close> take the layouts of payload blocks as an
  argument; the hypotheses they make about it hold for the value \<open>layout_backends\<close>. A read error inside
  a file counts as its end. The rings assume that a load sees some earlier value of the other side's
  index and that slots written before an index are visible with it, which is what the fences of the
  source are for; the operations on a broadcast stream are atomic steps.

  \<^bold>\<open>Bounds and termination.\<close> Only the loop that drains a ring (\<open>drain_ingress\<close>) has a bound, one more
  than the ring holds, so that its last pop finds the ring empty; cursor loops decrease the length of the rest of
  the text, sequence loops the distance to the next sequence number, retention loops the number of
  records in use, chunk loops the rest of the contents. Array capacities are the constants of the
  source. The theorems on the broadcast stream are stated for fewer than \<open>2\<^sup>6\<^sup>4\<close> publications, those on
  chunked blocks for contents whose chunk count fits its 32 bits.

  \<^bold>\<open>Exceptions the theorems state.\<close> A payload or a transferred range whose checksum is 0 is refused by the
  validators and by the channel. The line format of store, journal and snapshot carries a service whose
  strings hold no line end and do not end in a carriage return (\<open>service_clean\<close>). Keys are cut to 95
  characters by the daemon, and a longer key of an OBMM object is not found again.

  \<^bold>\<open>Not modelled.\<close> Socket set-up, signals and the wait for the next connection are I/O, as is most of the
  command line (\<open>src/apps/mem_service\<close>); the fixture checks are tests of the program itself; the
  transport providers (TCP, RoCE, OBMM), the UB-SSD device access, the expert routing, the OBMM object
  flow, most of the cluster runtime and the model flows drive sockets, devices or the guest runtime, and
  hold little logic that does not depend on their answers.
\<close>

end
